(* ===== verification/Js_Prelude.thy ===== *)
theory Js_Prelude
  imports Complex_Main "HOL-Library.Char_ord" "HOL-Library.List_Lexorder" "HOL-Library.Sublist"
    "HOL-Library.AList" "HOL-Library.Multiset"
begin

text \<open>
  The part of the JavaScript standard library that the user interfaces use, shared by every
  component theory: strings (\<open>split\<close>, \<open>join\<close>, \<open>trim\<close>, \<open>toLowerCase\<close>, \<open>slice\<close>, \<open>indexOf\<close>),
  \<open>String(n)\<close> on integers, \<open>Math.round\<close> of a quotient, stable \<open>Array.prototype.sort\<close> and the
  insertion-ordered \<open>Map\<close>.

  A JavaScript string is the list of the bytes of its UTF-8 encoding; white space and case
  mapping are those of the ASCII range. A number that the code only uses as an integer is an
  \<open>int\<close> or a \<open>nat\<close>.
\<close>

named_theorems js_defs "definitions of the JavaScript operations, to unfold on concrete data"

section \<open>Strings\<close>

definition js_nl :: char where
  "js_nl = CHR 0x0A"

definition js_is_space :: "char \<Rightarrow> bool" where
  "js_is_space c \<longleftrightarrow> (let n = of_char c :: nat in n = 32 \<or> (9 \<le> n \<and> n \<le> 13))"

definition js_trim :: "string \<Rightarrow> string" where
  "js_trim s = rev (dropWhile js_is_space (rev (dropWhile js_is_space s)))"

definition js_lower_char :: "char \<Rightarrow> char" where
  "js_lower_char c =
     (let n = of_char c :: nat in if 65 \<le> n \<and> n \<le> 90 then char_of (n + 32) else c)"

definition js_toLowerCase :: "string \<Rightarrow> string" where
  "js_toLowerCase s = map js_lower_char s"

definition js_upper_char :: "char \<Rightarrow> char" where
  "js_upper_char c = (let n = of_char c :: nat in if 97 \<le> n \<and> n \<le> 122 then char_of (n - 32) else c)"

definition js_startsWith :: "string \<Rightarrow> string \<Rightarrow> bool" where
  "js_startsWith s p \<longleftrightarrow> take (length p) s = p"

definition js_endsWith :: "string \<Rightarrow> string \<Rightarrow> bool" where
  "js_endsWith s p \<longleftrightarrow> js_startsWith (rev s) (rev p)"

text \<open>\<open>s.includes(p)\<close>: the substring occurs at some position.\<close>

primrec js_includes :: "string \<Rightarrow> string \<Rightarrow> bool" where
  "js_includes [] p \<longleftrightarrow> p = []"
| "js_includes (x # xs) p \<longleftrightarrow> js_startsWith (x # xs) p \<or> js_includes xs p"

text \<open>\<open>s.split(c)\<close> for a one-character separator: never empty, \<open>"".split(c)\<close> is \<open>[""]\<close>.\<close>

fun js_split :: "char \<Rightarrow> string \<Rightarrow> string list" where
  "js_split c [] = [[]]"
| "js_split c (x # xs) =
     (if x = c then [] # js_split c xs
      else (case js_split c xs of [] \<Rightarrow> [[x]] | y # ys \<Rightarrow> (x # y) # ys))"

fun js_join :: "string \<Rightarrow> string list \<Rightarrow> string" where
  "js_join sep [] = []"
| "js_join sep [x] = x"
| "js_join sep (x # y # ys) = x @ sep @ js_join sep (y # ys)"

text \<open>\<open>s.split(/\s+/)\<close>: the pieces between the runs of white space.\<close>

function split_spaces :: "string \<Rightarrow> string list" where
  "split_spaces [] = [[]]"
| "split_spaces (x # xs) =
     (if js_is_space x then [] # split_spaces (dropWhile js_is_space xs)
      else (case split_spaces xs of [] \<Rightarrow> [[x]] | y # ys \<Rightarrow> (x # y) # ys))"
  by pat_completeness auto
termination
  by (relation "measure length") (auto simp: le_imp_less_Suc length_dropWhile_le)

text \<open>\<open>s.replace(/c/g, r)\<close> for a single character \<open>c\<close>.\<close>

definition js_replace_char :: "char \<Rightarrow> string \<Rightarrow> string \<Rightarrow> string" where
  "js_replace_char c r s = concat (map (\<lambda>x. if x = c then r else [x]) s)"

text \<open>\<open>xs.findIndex(p)\<close> and \<open>xs.indexOf(v, from)\<close>; \<open>None\<close> stands for -1.\<close>

primrec js_findIndex :: "('a \<Rightarrow> bool) \<Rightarrow> 'a list \<Rightarrow> nat option" where
  "js_findIndex p [] = None"
| "js_findIndex p (x # xs) = (if p x then Some 0 else map_option Suc (js_findIndex p xs))"

definition js_indexOf :: "'a list \<Rightarrow> 'a \<Rightarrow> nat \<Rightarrow> nat option" where
  "js_indexOf xs v from = map_option (\<lambda>i. from + i) (js_findIndex (\<lambda>x. x = v) (drop from xs))"

definition js_lastIndexOf :: "'a list \<Rightarrow> 'a \<Rightarrow> nat option" where
  "js_lastIndexOf xs v =
     map_option (\<lambda>i. length xs - 1 - i) (js_findIndex (\<lambda>x. x = v) (rev xs))"

definition js_slice :: "'a list \<Rightarrow> nat \<Rightarrow> nat \<Rightarrow> 'a list" where
  "js_slice xs i j = drop i (take j xs)"

section \<open>Numbers\<close>

definition js_digit :: "nat \<Rightarrow> char" where
  "js_digit n = ''0123456789'' ! n"

fun js_show_nat :: "nat \<Rightarrow> string" where
  "js_show_nat n =
     (if n < 10 then [js_digit n] else js_show_nat (n div 10) @ [js_digit (n mod 10)])"

declare js_show_nat.simps [simp del]

definition js_show_int :: "int \<Rightarrow> string" where
  "js_show_int i = (if i < 0 then ''-'' @ js_show_nat (nat (- i)) else js_show_nat (nat i))"

text \<open>
  \<open>Math.round(a / b)\<close> for integers and \<open>b > 0\<close>: the nearest integer, a half rounded up. On
  integers it is an integer division; \<open>js_round_div_floor\<close> below is the link with the quotient.
\<close>

definition js_round_div :: "int \<Rightarrow> int \<Rightarrow> int" where
  "js_round_div a b = (2 * a + b) div (2 * b)"

section \<open>Sorting\<close>

text \<open>
  \<open>Array.prototype.sort\<close> is stable; for a comparison that is a total preorder its result is
  therefore unique, and insertion from the right computes it. \<open>le a b\<close> is \<open>cmp(a, b) <= 0\<close>.
\<close>

primrec js_insort :: "('a \<Rightarrow> 'a \<Rightarrow> bool) \<Rightarrow> 'a \<Rightarrow> 'a list \<Rightarrow> 'a list" where
  "js_insort le x [] = [x]"
| "js_insort le x (y # ys) = (if le x y then x # y # ys else y # js_insort le x ys)"

definition js_sort :: "('a \<Rightarrow> 'a \<Rightarrow> bool) \<Rightarrow> 'a list \<Rightarrow> 'a list" where
  "js_sort le xs = foldr (js_insort le) xs []"

section \<open>Maps\<close>

text \<open>
  A JavaScript \<open>Map\<close> keeps its entries in the order in which their keys were first set, which
  is how \<open>AList.update\<close> works on an association list.
\<close>

type_synonym ('k, 'v) js_map = "('k \<times> 'v) list"

definition js_map_set :: "('k, 'v) js_map \<Rightarrow> 'k \<Rightarrow> 'v \<Rightarrow> ('k, 'v) js_map" where
  "js_map_set m k v = AList.update k v m"

definition js_map_get :: "('k, 'v) js_map \<Rightarrow> 'k \<Rightarrow> 'v option" where
  "js_map_get m k = map_of m k"

definition js_map_has :: "('k, 'v) js_map \<Rightarrow> 'k \<Rightarrow> bool" where
  "js_map_has m k \<longleftrightarrow> k \<in> fst ` set m"

definition js_map_keys :: "('k, 'v) js_map \<Rightarrow> 'k list" where
  "js_map_keys m = map fst m"

text \<open>
  The properties that every plain object inherits from \<open>Object.prototype\<close> and that are written in lower case.
\<close>

definition js_inherited :: "string list" where
  "js_inherited = [''constructor'', ''__proto__'']"

lemmas js_string_defs [js_defs] =
  js_digit_def js_show_nat.simps
  js_nl_def js_is_space_def js_trim_def js_lower_char_def js_toLowerCase_def js_startsWith_def
  js_endsWith_def js_replace_char_def js_indexOf_def js_lastIndexOf_def js_slice_def
  js_show_int_def js_round_div_def js_sort_def js_map_set_def js_map_get_def js_map_has_def
  js_map_keys_def

section \<open>Laws of the string operations\<close>

lemma js_startsWith_prefix: "js_startsWith s p \<longleftrightarrow> prefix p s"
  by (auto simp: js_startsWith_def prefix_def) (metis append_take_drop_id)

lemma js_startsWith_append [simp]: "js_startsWith (p @ s) p"
  by (simp add: js_startsWith_def)

lemma js_endsWith_suffix: "js_endsWith s p \<longleftrightarrow> suffix p s"
  by (simp add: js_endsWith_def js_startsWith_prefix suffix_to_prefix)

lemma js_includes_iff: "js_includes s p \<longleftrightarrow> (\<exists>a b. s = a @ p @ b)"
proof (induction s)
  case Nil
  then show ?case by auto
next
  case (Cons x xs)
  show ?case
  proof
    assume "js_includes (x # xs) p"
    then show "\<exists>a b. x # xs = a @ p @ b"
      using Cons.IH by (auto simp: js_startsWith_prefix prefix_def) (metis append_Cons append_Nil)+
  next
    assume "\<exists>a b. x # xs = a @ p @ b"
    then obtain a b where ab: "x # xs = a @ p @ b" by blast
    show "js_includes (x # xs) p"
    proof (cases a)
      case Nil
      with ab have "js_startsWith (x # xs) p" by simp
      then show ?thesis by (simp only: js_includes.simps simp_thms)
    next
      case (Cons y ys)
      with ab have "xs = ys @ p @ b" by simp
      then show ?thesis using Cons.IH by auto
    qed
  qed
qed

lemma js_split_not_Nil [simp]: "js_split c s \<noteq> []"
  by (induction s) (auto split: list.splits)

lemma js_split_pieces: "p \<in> set (js_split c s) \<Longrightarrow> c \<notin> set p"
  by (induction s arbitrary: p) (auto split: if_splits list.splits)

lemma js_join_split [simp]: "js_join [c] (js_split c s) = s"
proof (induction s)
  case (Cons x xs)
  then show ?case
    by (cases "js_split c xs"; cases "tl (js_split c xs)") auto
qed simp

lemma js_split_append_sep: "c \<notin> set p \<Longrightarrow> js_split c (p @ c # s) = p # js_split c s"
  by (induction p) auto

lemma js_split_no_sep: "c \<notin> set p \<Longrightarrow> js_split c p = [p]"
  by (induction p) auto

lemma js_split_join:
  "xs \<noteq> [] \<Longrightarrow> \<forall>x \<in> set xs. c \<notin> set x \<Longrightarrow> js_split c (js_join [c] xs) = xs"
  by (induction xs rule: induct_list012) (auto simp: js_split_append_sep js_split_no_sep)

lemma js_join_Cons: "xs \<noteq> [] \<Longrightarrow> js_join sep (x # xs) = x @ sep @ js_join sep xs"
  by (cases xs) auto

lemma js_join_append:
  "xs \<noteq> [] \<Longrightarrow> ys \<noteq> [] \<Longrightarrow> js_join sep (xs @ ys) = js_join sep xs @ sep @ js_join sep ys"
  by (induction xs rule: induct_list012) (auto simp: js_join_Cons)

lemma js_join_empty_sep: "js_join [] xs = concat xs"
  by (induction xs rule: induct_list012) auto

lemma js_findIndex_Some:
  "js_findIndex p xs = Some i \<longleftrightarrow> i < length xs \<and> p (xs ! i) \<and> (\<forall>j < i. \<not> p (xs ! j))"
proof (induction xs arbitrary: i)
  case (Cons x xs)
  show ?case
    by (cases i) (auto simp: Cons.IH less_Suc_eq_0_disj split: if_splits)
qed simp

lemma js_findIndex_None: "js_findIndex p xs = None \<longleftrightarrow> (\<forall>x \<in> set xs. \<not> p x)"
  by (induction xs) auto

lemma js_indexOf_Some:
  "js_indexOf xs v from = Some i \<longleftrightarrow>
     from \<le> i \<and> i < length xs \<and> xs ! i = v \<and> (\<forall>j. from \<le> j \<and> j < i \<longrightarrow> xs ! j \<noteq> v)"
proof -
  have "js_indexOf xs v from = Some i \<longleftrightarrow>
      (\<exists>k. i = from + k \<and> js_findIndex (\<lambda>x. x = v) (drop from xs) = Some k)"
    by (auto simp: js_indexOf_def)
  also have "\<dots> \<longleftrightarrow> from \<le> i \<and> i < length xs \<and> xs ! i = v \<and> (\<forall>j. from \<le> j \<and> j < i \<longrightarrow> xs ! j \<noteq> v)"
  proof
    assume "\<exists>k. i = from + k \<and> js_findIndex (\<lambda>x. x = v) (drop from xs) = Some k"
    then obtain k where k: "i = from + k" "js_findIndex (\<lambda>x. x = v) (drop from xs) = Some k"
      by blast
    then have *: "k < length xs - from" "drop from xs ! k = v" "\<forall>j < k. drop from xs ! j \<noteq> v"
      by (auto simp: js_findIndex_Some)
    have "xs ! j \<noteq> v" if "from \<le> j" "j < i" for j
      using *(3) [rule_format, of "j - from"] that k(1) *(1) by auto
    with * k(1) show "from \<le> i \<and> i < length xs \<and> xs ! i = v \<and> (\<forall>j. from \<le> j \<and> j < i \<longrightarrow> xs ! j \<noteq> v)"
      by auto
  next
    assume "from \<le> i \<and> i < length xs \<and> xs ! i = v \<and> (\<forall>j. from \<le> j \<and> j < i \<longrightarrow> xs ! j \<noteq> v)"
    then show "\<exists>k. i = from + k \<and> js_findIndex (\<lambda>x. x = v) (drop from xs) = Some k"
      by (intro exI [of _ "i - from"]) (auto simp: js_findIndex_Some)
  qed
  finally show ?thesis .
qed

lemma dropWhile_rev_idem: "dropWhile P (rev (dropWhile P (rev (dropWhile P xs)))) = rev (dropWhile P (rev (dropWhile P xs)))"
proof (cases "dropWhile P xs")
  case Nil
  show ?thesis unfolding Nil by simp
next
  case (Cons x ys)
  then have "\<not> P x" by (metis hd_dropWhile list.distinct(1) list.sel(1))
  then have "dropWhile P (rev (x # ys)) \<noteq> []" and "last (dropWhile P (rev (x # ys))) = x"
    by (simp_all add: dropWhile_append)
  then have "hd (rev (dropWhile P (rev (x # ys)))) = x" by (simp add: hd_rev)
  with \<open>\<not> P x\<close> \<open>dropWhile P (rev (x # ys)) \<noteq> []\<close> show ?thesis
    by (metis Cons dropWhile_eq_self_iff)
qed

lemma js_trim_idem [simp]: "js_trim (js_trim s) = js_trim s"
  by (simp add: js_trim_def dropWhile_rev_idem)

section \<open>Laws of the numbers\<close>

definition js_is_digit :: "char \<Rightarrow> bool" where
  "js_is_digit c \<longleftrightarrow> (let n = of_char c :: nat in 48 \<le> n \<and> n \<le> 57)"

lemma js_digit_value: "n < 10 \<Longrightarrow> of_char (js_digit n) = 48 + n"
proof -
  have "list_all (\<lambda>n. of_char (js_digit n) = 48 + n) [0..<10]" by code_simp
  then show "n < 10 \<Longrightarrow> ?thesis" by (simp add: list_all_iff)
qed

lemma js_show_nat_digits: "c \<in> set (js_show_nat n) \<Longrightarrow> js_is_digit c"
proof (induction n rule: js_show_nat.induct)
  case (1 n)
  have digit: "js_is_digit (js_digit k)" if "k < 10" for k :: nat
    using that by (simp add: js_is_digit_def js_digit_value)
  show ?case
  proof (cases "n < 10")
    case True
    with "1.prems" digit show ?thesis by (auto simp: js_show_nat.simps [of n])
  next
    case False
    with "1.prems" "1.IH" digit [of "n mod 10"] show ?thesis
      by (auto simp: js_show_nat.simps [of n])
  qed
qed

lemma js_show_nat_not_Nil [simp]: "js_show_nat n \<noteq> []"
  by (simp add: js_show_nat.simps [of n])

text \<open>Reading the digits back, so that \<open>String\<close> is injective on the naturals.\<close>

definition js_digits_value :: "string \<Rightarrow> nat" where
  "js_digits_value s = foldl (\<lambda>a c. 10 * a + (of_char c - 48)) 0 s"

lemma js_digits_value_snoc: "js_digits_value (s @ [c]) = 10 * js_digits_value s + (of_char c - 48)"
  by (simp add: js_digits_value_def)

lemma js_digits_value_show [simp]: "js_digits_value (js_show_nat n) = n"
proof (induction n rule: js_show_nat.induct)
  case (1 n)
  have digit: "of_char (js_digit k) - 48 = k" if "k < 10" for k :: nat
    using that by (simp add: js_digit_value)
  show ?case
  proof (cases "n < 10")
    case True
    then show ?thesis
      using digit [of n] by (simp add: js_show_nat.simps [of n] js_digits_value_def)
  next
    case False
    then show ?thesis
      using "1.IH" digit [of "n mod 10"] by (simp add: js_show_nat.simps [of n] js_digits_value_snoc)
  qed
qed

lemma js_show_nat_inj [simp]: "js_show_nat m = js_show_nat n \<longleftrightarrow> m = n"
  by (metis js_digits_value_show)

lemma js_round_div_floor:
  "b > 0 \<Longrightarrow> js_round_div a b = \<lfloor>(of_int a / of_int b + 1 / 2 :: rat)\<rfloor>"
proof -
  assume b: "b > 0"
  have "(of_int a / of_int b + 1 / 2 :: rat) = of_int (2 * a + b) / of_int (2 * b)"
    using b by (simp add: field_simps)
  then show ?thesis
    by (simp only: js_round_div_def floor_divide_of_int_eq)
qed

lemma js_round_div_mono: "b > 0 \<Longrightarrow> a \<le> c \<Longrightarrow> js_round_div a b \<le> js_round_div c b"
  by (simp add: js_round_div_def zdiv_mono1)

lemma js_round_div_exact [simp]: "b > 0 \<Longrightarrow> js_round_div (k * b) b = k"
proof -
  assume b: "b > 0"
  have "(2 * (k * b) + b) div (2 * b) = (b + k * (2 * b)) div (2 * b)"
    by (simp add: algebra_simps)
  also have "\<dots> = k" using b by (simp add: div_mult_self1 div_pos_pos_trivial)
  finally show ?thesis by (simp add: js_round_div_def)
qed

lemma js_round_div_0 [simp]: "b > 0 \<Longrightarrow> js_round_div 0 b = 0"
  using js_round_div_exact [of b 0] by simp

lemma js_round_div_bounds:
  "b > 0 \<Longrightarrow> 0 \<le> a \<Longrightarrow> a \<le> k * b \<Longrightarrow> 0 \<le> js_round_div a b \<and> js_round_div a b \<le> k"
  using js_round_div_mono [of b 0 a] js_round_div_mono [of b a "k * b"] by simp

lemma js_round_div_near:
  "b > 0 \<Longrightarrow> 2 * \<bar>a - b * js_round_div a b\<bar> \<le> b"
proof -
  assume b: "b > 0"
  define q r where "q = (2 * a + b) div (2 * b)" and "r = (2 * a + b) mod (2 * b)"
  have "2 * a + b = 2 * b * q + r" unfolding q_def r_def by simp
  then have "2 * (a - b * q) = r - b" by (simp add: algebra_simps)
  moreover have "0 \<le> r" "r < 2 * b" using b by (simp_all add: r_def)
  ultimately show ?thesis unfolding js_round_div_def q_def [symmetric] by linarith
qed

section \<open>Sorting by a total preorder\<close>

lemma set_js_insort [simp]: "set (js_insort le x xs) = insert x (set xs)"
  by (induction xs) auto

lemma mset_js_insort [simp]: "mset (js_insort le x xs) = add_mset x (mset xs)"
  by (induction xs) auto

lemma js_sort_Nil [simp]: "js_sort le [] = []"
  by (simp add: js_sort_def)

lemma js_sort_Cons [simp]: "js_sort le (x # xs) = js_insort le x (js_sort le xs)"
  by (simp add: js_sort_def)

lemma mset_js_sort [simp]: "mset (js_sort le xs) = mset xs"
  by (induction xs) auto

lemma set_js_sort [simp]: "set (js_sort le xs) = set xs"
  by (induction xs) auto

lemma length_js_sort [simp]: "length (js_sort le xs) = length xs"
  by (metis mset_js_sort size_mset)

lemma distinct_js_sort [simp]: "distinct (js_sort le xs) = distinct xs"
  by (metis mset_js_sort mset_eq_imp_distinct_iff)

text \<open>The contract of a comparison handed to \<open>sort\<close>, and what it gives.\<close>

locale sort_order =
  fixes le :: "'a \<Rightarrow> 'a \<Rightarrow> bool"
  assumes le_total: "le x y \<or> le y x"
    and le_trans: "le x y \<Longrightarrow> le y z \<Longrightarrow> le x z"
begin

lemma le_refl: "le x x"
  using le_total by blast

lemma sorted_insort: "sorted_wrt le xs \<Longrightarrow> sorted_wrt le (js_insort le x xs)"
proof (induction xs)
  case (Cons y ys)
  then show ?case
    using le_total [of x y] by (auto intro: le_trans)
qed simp

lemma sorted_sort: "sorted_wrt le (js_sort le xs)"
  by (induction xs) (auto intro: sorted_insort)

text \<open>An element that is no greater than any other goes to the front.\<close>

lemma insort_front: "\<forall>y \<in> set ys. le x y \<Longrightarrow> js_insort le x ys = x # ys"
  by (cases ys) auto

lemma filter_insort_same:
  assumes "sorted_wrt le ys" and "\<And>u v. P u \<Longrightarrow> P v \<Longrightarrow> le u v" and "P x"
  shows "filter P (js_insort le x ys) = x # filter P ys"
  using assms(1)
proof (induction ys)
  case (Cons y ys)
  show ?case
  proof (cases "le x y")
    case True
    then show ?thesis using assms(3) by simp
  next
    case False
    then have "\<not> P y" using assms(2,3) by blast
    with False Cons show ?thesis by simp
  qed
qed (simp add: assms(3))

lemma filter_insort_other: "\<not> P x \<Longrightarrow> filter P (js_insort le x ys) = filter P ys"
  by (induction ys) auto

text \<open>Stability: elements that compare equal keep their order.\<close>

lemma sort_stable:
  assumes "\<And>u v. P u \<Longrightarrow> P v \<Longrightarrow> le u v"
  shows "filter P (js_sort le xs) = filter P xs"
proof (induction xs)
  case (Cons x xs)
  then show ?case
    by (cases "P x") (simp_all add: filter_insort_same sorted_sort assms filter_insort_other)
qed simp

lemma sort_sorted: "sorted_wrt le xs \<Longrightarrow> js_sort le xs = xs"
  by (induction xs) (auto simp: insort_front)

end

text \<open>Comparing the strings of a key, the way \<open>a < b ? -1 : a > b ? 1 : 0\<close> does.\<close>

interpretation string_key: sort_order "\<lambda>x y. (key x :: string) \<le> key y" for key
  by unfold_locales auto

interpretation int_key: sort_order "\<lambda>x y. (key x :: int) \<le> key y" for key
  by unfold_locales auto

section \<open>The contract of \<open>Map\<close>\<close>

locale ordered_map =
  fixes get :: "'m \<Rightarrow> 'k \<Rightarrow> 'v option"
    and put :: "'m \<Rightarrow> 'k \<Rightarrow> 'v \<Rightarrow> 'm"
    and keys :: "'m \<Rightarrow> 'k list"
  assumes get_put: "get (put m k v) = (get m)(k \<mapsto> v)"
    and keys_put: "keys (put m k v) = (if k \<in> set (keys m) then keys m else keys m @ [k])"
    and dom_get: "dom (get m) = set (keys m)"
begin

text \<open>Filling a map from a list, in the order of the list.\<close>

lemma get_fold_put:
  "get (fold (\<lambda>x m. put m (f x) (g x)) xs m) =
     get m ++ map_of (rev (map (\<lambda>x. (f x, g x)) xs))"
  by (induction xs arbitrary: m) (auto simp: get_put)

lemma keys_fold_put_distinct:
  "distinct (keys m @ map f xs) \<Longrightarrow>
     keys (fold (\<lambda>x m. put m (f x) (g x)) xs m) = keys m @ map f xs"
  by (induction xs arbitrary: m) (auto simp: keys_put)

lemma distinct_keys_put: "distinct (keys m) \<Longrightarrow> distinct (keys (put m k v))"
  by (simp add: keys_put)

end

interpretation js_map: ordered_map js_map_get js_map_set js_map_keys
proof unfold_locales
  show "js_map_get (js_map_set m k v) = (js_map_get m)(k \<mapsto> v)" for m :: "('k, 'v) js_map" and k v
    by (rule ext) (simp add: js_map_get_def js_map_set_def update_conv')
next
  show "js_map_keys (js_map_set m k v) =
      (if k \<in> set (js_map_keys m) then js_map_keys m else js_map_keys m @ [k])"
    for m :: "('k, 'v) js_map" and k v
    by (simp add: js_map_keys_def js_map_set_def update_keys)
next
  show "dom (js_map_get m) = set (js_map_keys m)" for m :: "('k, 'v) js_map"
    by (auto simp: js_map_keys_def js_map_get_def dom_def map_of_eq_None_iff)
qed

lemma js_map_has_keys: "js_map_has m k \<longleftrightarrow> k \<in> set (js_map_keys m)"
  by (simp add: js_map_has_def js_map_keys_def)

lemma js_map_set_new: "k \<notin> set (js_map_keys m) \<Longrightarrow> js_map_set m k v = m @ [(k, v)]"
  by (induction m) (auto simp: js_map_set_def js_map_keys_def)

end
