(* ===== verification/Conflicts.thy ===== *)
theory Conflicts
  imports Js_Prelude
begin

text \<open>
  The conflict resolver of the desktop client, \<open>desktop/frontend/src/lib/conflicts.ts\<close>: parsing
  a working file with conflict markers into segments, putting the segments back together under
  the user's picks, and the whole-file choices. The main results are the round trip of parsing
  and composing, the normal form of what the parser returns, and that a fully picked file has
  no marker line left.
\<close>

section \<open>Data\<close>

definition START_marker :: string where
  "START_marker = ''<<<<<<< ours'' @ [js_nl]"

definition MID_marker :: string where
  "MID_marker = ''======='' @ [js_nl]"

definition END_marker :: string where
  "END_marker = ''>>>>>>> theirs'' @ [js_nl]"

datatype BlockPick = PickOurs | PickTheirs | PickOursTheirs | PickTheirsOurs

datatype Segment = Same string | Conflict string string

record ConflictText =
  ct_text :: string
  ct_missing :: bool

record ConflictTexts =
  ct_base :: ConflictText
  ct_ours :: ConflictText
  ct_theirs :: ConflictText
  ct_working :: ConflictText

record ConflictFile =
  cf_path :: string
  cf_kind :: string
  cf_binary :: bool
  cf_resolved :: bool
  cf_viewer :: string

record ConflictRevision =
  cr_id :: string
  cr_label :: string

record ConflictSet =
  cs_op :: string
  cs_base :: ConflictRevision
  cs_ours :: ConflictRevision
  cs_theirs :: ConflictRevision
  cs_files :: "ConflictFile list"

datatype side_choice = ChooseOurs | ChooseTheirs

record Choice =
  choice :: side_choice
  choice_label :: string
  choice_hint :: string

text \<open>The editor of one conflicted text file: a pick per block, and the text once edited by hand.\<close>

record Editor =
  ed_picks :: "BlockPick option list"
  ed_manual :: "string option"

section \<open>Operations\<close>

text \<open>\<open>text.split(/(?<=\n)/)\<close>: the lines, each with its newline; \<open>""\<close> splits into \<open>[""]\<close>.\<close>

fun lines_with_nl :: "string \<Rightarrow> string list" where
  "lines_with_nl [] = []"
| "lines_with_nl (x # xs) =
     (if x = js_nl then [x] # lines_with_nl xs
      else (case lines_with_nl xs of [] \<Rightarrow> [[x]] | y # ys \<Rightarrow> (x # y) # ys))"

definition split_lines :: "string \<Rightarrow> string list" where
  "split_lines t = (if t = [] then [[]] else lines_with_nl t)"

definition push_same :: "string \<Rightarrow> Segment list \<Rightarrow> Segment list" where
  "push_same same out = (if same = [] then out else out @ [Same same])"

text \<open>The loop of \<open>parseConflicts\<close>: the next line \<open>i\<close>, the pending text and the result so far.\<close>

function parse_loop :: "string list \<Rightarrow> nat \<Rightarrow> string \<Rightarrow> Segment list \<Rightarrow> Segment list" where
  "parse_loop ls i same out =
     (if i < length ls then
        if ls ! i \<noteq> START_marker then parse_loop ls (Suc i) (same @ ls ! i) out
        else
          (case js_indexOf ls MID_marker (i + 1) of
             None \<Rightarrow> push_same (same @ concat (drop i ls)) out
           | Some mid \<Rightarrow>
               (case js_indexOf ls END_marker (mid + 1) of
                  None \<Rightarrow> push_same (same @ concat (drop i ls)) out
                | Some e \<Rightarrow>
                    parse_loop ls (e + 1) []
                      (push_same same out @
                       [Conflict (concat (js_slice ls (i + 1) mid))
                          (concat (js_slice ls (mid + 1) e))])))
      else push_same same out)"
  by pat_completeness auto
termination
  by (relation "measure (\<lambda>(ls, i, same, out). length ls - i)") (auto simp: js_indexOf_Some)

declare parse_loop.simps [simp del]

definition parseConflicts :: "string \<Rightarrow> Segment list" where
  "parseConflicts t = parse_loop (split_lines t) 0 [] []"

definition hasMarkers :: "string \<Rightarrow> bool" where
  "hasMarkers t \<longleftrightarrow>
     (\<exists>m \<in> set [START_marker, END_marker]. js_startsWith t m \<or> js_includes t (js_nl # m))"

definition withNewline :: "string \<Rightarrow> string" where
  "withNewline s = (if s = [] \<or> js_endsWith s [js_nl] then s else s @ [js_nl])"

fun pickText :: "string \<Rightarrow> string \<Rightarrow> BlockPick \<Rightarrow> string" where
  "pickText a b PickOurs = a"
| "pickText a b PickTheirs = b"
| "pickText a b PickOursTheirs = withNewline a @ b"
| "pickText a b PickTheirsOurs = withNewline b @ a"

text \<open>\<open>picks[n]\<close> is \<open>undefined\<close> past the end of the array.\<close>

definition pick_at :: "BlockPick option list \<Rightarrow> nat \<Rightarrow> BlockPick option" where
  "pick_at picks n = (if n < length picks then picks ! n else None)"

fun compose_from :: "nat \<Rightarrow> Segment list \<Rightarrow> BlockPick option list \<Rightarrow> string list" where
  "compose_from n [] picks = []"
| "compose_from n (Same t # segs) picks = t # compose_from n segs picks"
| "compose_from n (Conflict a b # segs) picks =
     (case pick_at picks n of
        Some pick \<Rightarrow> pickText a b pick
      | None \<Rightarrow> START_marker @ a @ MID_marker @ b @ END_marker) # compose_from (Suc n) segs picks"

definition compose :: "Segment list \<Rightarrow> BlockPick option list \<Rightarrow> string" where
  "compose segs picks = js_join [] (compose_from 0 segs picks)"

fun is_conflict :: "Segment \<Rightarrow> bool" where
  "is_conflict (Same t) = False"
| "is_conflict (Conflict a b) = True"

definition conflictCount :: "Segment list \<Rightarrow> nat" where
  "conflictCount segs = length (filter is_conflict segs)"

definition segmentsFor :: "ConflictTexts \<Rightarrow> string \<Rightarrow> Segment list" where
  "segmentsFor ts kind =
     (let parsed = parseConflicts (ct_text (ct_working ts))
      in if kind \<noteq> ''add_add'' \<or> conflictCount parsed > 0 then parsed
         else if ct_text (ct_ours ts) \<noteq> ct_text (ct_theirs ts) \<and> \<not> ct_missing (ct_ours ts) \<and>
             \<not> ct_missing (ct_theirs ts) \<and> ct_text (ct_working ts) = ct_text (ct_ours ts)
         then [Conflict (ct_text (ct_ours ts)) (ct_text (ct_theirs ts))]
         else parsed)"

definition editsText :: "ConflictFile \<Rightarrow> bool" where
  "editsText f \<longleftrightarrow> \<not> cf_binary f \<and> (cf_kind f = ''text'' \<or> cf_kind f = ''add_add'')"

definition kindLabel :: "string \<Rightarrow> string" where
  "kindLabel kind =
     (if kind = ''text'' then ''Both changed''
      else if kind = ''binary'' then ''Both changed (binary)''
      else if kind = ''add_add'' then ''Both added''
      else if kind = ''modify_delete'' then ''Deleted on their side''
      else if kind = ''delete_modify'' then ''Deleted on your side''
      else kind)"

definition choices :: "ConflictFile \<Rightarrow> ConflictSet \<Rightarrow> Choice \<times> Choice" where
  "choices f cs =
     (let us = (if cr_label (cs_ours cs) = [] then ''yours'' else cr_label (cs_ours cs));
          them = (if cr_label (cs_theirs cs) = [] then ''theirs'' else cr_label (cs_theirs cs))
      in if cf_kind f = ''modify_delete'' then
           (\<lparr>choice = ChooseOurs, choice_label = ''Keep the file'',
              choice_hint = ''Keep the version on '' @ us\<rparr>,
            \<lparr>choice = ChooseTheirs, choice_label = ''Delete it'',
              choice_hint = them @ '' deleted it''\<rparr>)
         else if cf_kind f = ''delete_modify'' then
           (\<lparr>choice = ChooseOurs, choice_label = ''Keep it deleted'',
              choice_hint = us @ '' deleted it''\<rparr>,
            \<lparr>choice = ChooseTheirs, choice_label = ''Restore theirs'',
              choice_hint = ''Take the version from '' @ them\<rparr>)
         else
           (\<lparr>choice = ChooseOurs, choice_label = ''Take mine'',
              choice_hint = ''Keep the version on '' @ us\<rparr>,
            \<lparr>choice = ChooseTheirs, choice_label = ''Take theirs'',
              choice_hint = ''Use the version from '' @ them\<rparr>))"

definition unresolved :: "ConflictSet \<Rightarrow> nat" where
  "unresolved cs = length (filter (\<lambda>f. \<not> cf_resolved f) (cs_files cs))"

subsection \<open>The editor and the list of conflicted files\<close>

definition editor_init :: "Segment list \<Rightarrow> Editor" where
  "editor_init segs = \<lparr>ed_picks = map (\<lambda>_. None) (filter is_conflict segs), ed_manual = None\<rparr>"

definition editor_result :: "Segment list \<Rightarrow> Editor \<Rightarrow> string" where
  "editor_result segs ed =
     (case ed_manual ed of Some t \<Rightarrow> t | None \<Rightarrow> compose segs (ed_picks ed))"

definition editor_pick :: "nat \<Rightarrow> BlockPick \<Rightarrow> Editor \<Rightarrow> Editor" where
  "editor_pick i p ed =
     ed\<lparr>ed_manual := None,
        ed_picks := map (\<lambda>(j, v). if j = i then Some p else v) (enumerate 0 (ed_picks ed))\<rparr>"

definition editor_type :: "string \<Rightarrow> Editor \<Rightarrow> Editor" where
  "editor_type t ed = ed\<lparr>ed_manual := Some t\<rparr>"

definition editor_reset :: "Editor \<Rightarrow> Editor" where
  "editor_reset ed = ed\<lparr>ed_manual := None\<rparr>"

text \<open>The \<open>Mark resolved\<close> button: what it submits, \<open>None\<close> while it is disabled.\<close>

definition editor_submit :: "Segment list \<Rightarrow> bool \<Rightarrow> Editor \<Rightarrow> string option" where
  "editor_submit segs busy ed =
     (if busy \<or> hasMarkers (editor_result segs ed) then None else Some (editor_result segs ed))"

text \<open>The file shown by \<open>ConflictsView\<close>, and the one picked after a file was resolved.\<close>

definition shown_file :: "ConflictSet \<Rightarrow> string \<Rightarrow> ConflictFile option" where
  "shown_file cs picked =
     (if cs_op cs = [] \<or> cs_files cs = [] then None
      else (case find (\<lambda>f. cf_path f = picked) (cs_files cs) of
              Some f \<Rightarrow> Some f
            | None \<Rightarrow>
                (case find (\<lambda>f. \<not> cf_resolved f) (cs_files cs) of
                   Some f \<Rightarrow> Some f
                 | None \<Rightarrow> Some (hd (cs_files cs)))))"

definition pick_next :: "ConflictSet \<Rightarrow> string \<Rightarrow> string \<Rightarrow> string" where
  "pick_next cs path picked =
     (case find (\<lambda>f. \<not> cf_resolved f \<and> cf_path f \<noteq> path) (cs_files cs) of
        Some f \<Rightarrow> cf_path f
      | None \<Rightarrow> picked)"

section \<open>Lines\<close>

lemma lines_with_nl_Nil_iff [simp]: "lines_with_nl s = [] \<longleftrightarrow> s = []"
  by (cases s) (auto split: list.splits)

lemma concat_lines [simp]: "concat (lines_with_nl s) = s"
  by (induction s) (auto split: list.splits)

lemma concat_split_lines [simp]: "concat (split_lines t) = t"
  by (simp add: split_lines_def)

text \<open>Text that ends at a line boundary.\<close>

definition aligned :: "string \<Rightarrow> bool" where
  "aligned s \<longleftrightarrow> s = [] \<or> last s = js_nl"

lemma aligned_Nil [simp]: "aligned []"
  by (simp add: aligned_def)

lemma aligned_append: "aligned a \<Longrightarrow> aligned b \<Longrightarrow> aligned (a @ b)"
  by (cases "b = []") (auto simp: aligned_def)

lemma aligned_concat: "\<forall>l \<in> set ls. aligned l \<Longrightarrow> aligned (concat ls)"
  by (induction ls) (auto intro: aligned_append)

lemma lines_append: "aligned a \<Longrightarrow> lines_with_nl (a @ b) = lines_with_nl a @ lines_with_nl b"
proof (induction a)
  case (Cons x xs)
  show ?case
  proof (cases "x = js_nl")
    case True
    with Cons show ?thesis by (auto simp: aligned_def split: if_splits)
  next
    case False
    with Cons.prems have xs: "xs \<noteq> []" "aligned xs" by (auto simp: aligned_def split: if_splits)
    with Cons.IH have "lines_with_nl (xs @ b) = lines_with_nl xs @ lines_with_nl b" by simp
    with False xs(1) show ?thesis by (auto split: list.splits simp: append_eq_Cons_conv)
  qed
qed simp

lemma lines_line: "js_nl \<notin> set s \<Longrightarrow> lines_with_nl (s @ [js_nl]) = [s @ [js_nl]]"
  by (induction s) auto

text \<open>Every line but the last ends with its newline, and no line has another one.\<close>

lemma lines_shape: "l \<in> set (lines_with_nl s) \<Longrightarrow> l \<noteq> [] \<and> js_nl \<notin> set (butlast l)"
  by (induction s arbitrary: l) (auto split: if_splits list.splits)

lemma butlast_lines_aligned: "l \<in> set (butlast (lines_with_nl s)) \<Longrightarrow> last l = js_nl"
proof (induction s arbitrary: l)
  case (Cons x xs)
  show ?case
  proof (cases "lines_with_nl xs")
    case Nil
    with Cons.prems show ?thesis by (simp split: if_splits)
  next
    case (Cons y ys)
    then have "y \<noteq> []" using lines_shape [of y xs] by simp
    with Cons Cons.prems Cons.IH [of l] Cons.IH [of y] show ?thesis
      by (auto split: if_splits)
  qed
qed simp

lemma lines_id: "\<forall>l \<in> set ls. \<exists>u. js_nl \<notin> set u \<and> l = u @ [js_nl] \<Longrightarrow> lines_with_nl (concat ls) = ls"
proof (induction ls)
  case (Cons l ls)
  then obtain u where u: "js_nl \<notin> set u" "l = u @ [js_nl]" by auto
  have "lines_with_nl (l @ concat ls) = lines_with_nl l @ lines_with_nl (concat ls)"
    by (rule lines_append) (simp add: u aligned_def)
  with Cons u show ?case by (simp add: lines_line)
qed simp

text \<open>A line of text is at its start or right after a newline.\<close>

lemma line_occurrence:
  assumes m: "js_nl \<notin> set u" "m = u @ [js_nl]"
  shows "m \<in> set (lines_with_nl t) \<longleftrightarrow> js_startsWith t m \<or> js_includes t (js_nl # m)"
proof
  assume "m \<in> set (lines_with_nl t)"
  then obtain xs ys where xy: "lines_with_nl t = xs @ m # ys" by (auto simp: in_set_conv_decomp)
  then have t: "t = concat xs @ m @ concat ys" by (metis concat.simps(2) concat_append concat_lines)
  show "js_startsWith t m \<or> js_includes t (js_nl # m)"
  proof (cases "xs = []")
    case True
    with t show ?thesis by simp
  next
    case False
    then have "last xs \<in> set (butlast (lines_with_nl t))" using xy by (simp add: butlast_append)
    then have lst: "last (last xs) = js_nl" "last xs \<noteq> []"
      using butlast_lines_aligned [of "last xs" t] lines_shape [of "last xs" t]
      by (auto dest: in_set_butlastD)
    have "concat xs = concat (butlast xs) @ butlast (last xs) @ [js_nl]"
      using False lst by (metis append_butlast_last_id concat.simps concat_append append_Nil2)
    then have "t = (concat (butlast xs) @ butlast (last xs)) @ (js_nl # m) @ concat ys"
      using t by simp
    then have "js_includes t (js_nl # m)" unfolding js_includes_iff by blast
    then show ?thesis ..
  qed
next
  have here: "m \<in> set (lines_with_nl (a @ m @ b))" if "aligned a" for a b
  proof -
    have "lines_with_nl (a @ m @ b) = lines_with_nl a @ lines_with_nl m @ lines_with_nl b"
      using that lines_append [of a "m @ b"] lines_append [of m b] m by (simp add: aligned_def)
    then show ?thesis using lines_line m by simp
  qed
  assume "js_startsWith t m \<or> js_includes t (js_nl # m)"
  then show "m \<in> set (lines_with_nl t)"
  proof
    assume "js_startsWith t m"
    then obtain b where "t = [] @ m @ b" by (auto simp: js_startsWith_prefix prefix_def)
    then show ?thesis using here [of "[]" b] by simp
  next
    assume "js_includes t (js_nl # m)"
    then obtain a b where "t = (a @ [js_nl]) @ m @ b" by (auto simp: js_includes_iff)
    then show ?thesis using here [of "a @ [js_nl]" b] by (simp add: aligned_def)
  qed
qed

lemma marker_shape:
  "\<exists>u. js_nl \<notin> set u \<and> START_marker = u @ [js_nl]"
  "\<exists>u. js_nl \<notin> set u \<and> MID_marker = u @ [js_nl]"
  "\<exists>u. js_nl \<notin> set u \<and> END_marker = u @ [js_nl]"
  by (intro exI conjI, rule_tac [2] START_marker_def, simp add: js_nl_def,
      intro exI conjI, rule_tac [2] MID_marker_def, simp add: js_nl_def,
      intro exI conjI, rule_tac [2] END_marker_def, simp add: js_nl_def)

lemma hasMarkers_lines:
  "hasMarkers t \<longleftrightarrow> START_marker \<in> set (lines_with_nl t) \<or> END_marker \<in> set (lines_with_nl t)"
  using marker_shape line_occurrence unfolding hasMarkers_def by fastforce

section \<open>Parsing and composing\<close>

fun seg_text :: "Segment \<Rightarrow> string" where
  "seg_text (Same t) = t"
| "seg_text (Conflict a b) = START_marker @ a @ MID_marker @ b @ END_marker"

lemma compose_unpicked:
  "\<forall>n. pick_at picks n = None \<Longrightarrow> concat (compose_from n segs picks) = concat (map seg_text segs)"
  by (induction n segs picks rule: compose_from.induct) auto

lemma push_same_text [simp]:
  "concat (map seg_text (push_same same out)) = concat (map seg_text out) @ same"
  by (simp add: push_same_def)

lemma drop_slice: "i \<le> j \<Longrightarrow> drop i ls = js_slice ls i j @ drop j ls"
  by (metis append_take_drop_id drop_take js_slice_def le_add_diff_inverse2 drop_drop)

lemma drop_block:
  assumes "i < length ls" "ls ! i = START_marker"
    and "js_indexOf ls MID_marker (i + 1) = Some mid"
    and "js_indexOf ls END_marker (mid + 1) = Some e"
  shows "drop i ls = START_marker # js_slice ls (i + 1) mid @ MID_marker #
     js_slice ls (mid + 1) e @ END_marker # drop (e + 1) ls"
proof -
  from assms(3,4) have b: "i + 1 \<le> mid" "mid < length ls" "ls ! mid = MID_marker"
      "mid + 1 \<le> e" "e < length ls" "ls ! e = END_marker"
    by (auto simp: js_indexOf_Some)
  have "drop i ls = START_marker # drop (i + 1) ls"
    using assms(1,2) by (metis Cons_nth_drop_Suc Suc_eq_plus1)
  moreover have "drop (i + 1) ls = js_slice ls (i + 1) mid @ MID_marker # drop (mid + 1) ls"
    using b drop_slice [of "i + 1" mid ls] by (metis Cons_nth_drop_Suc Suc_eq_plus1)
  moreover have "drop (mid + 1) ls = js_slice ls (mid + 1) e @ END_marker # drop (e + 1) ls"
    using b drop_slice [of "mid + 1" e ls] by (metis Cons_nth_drop_Suc Suc_eq_plus1)
  ultimately show ?thesis by simp
qed

lemma parse_loop_text:
  "concat (map seg_text (parse_loop ls i same out)) =
     concat (map seg_text out) @ same @ concat (drop i ls)"
proof (induction ls i same out rule: parse_loop.induct)
  case (1 ls i same out)
  note unfold = parse_loop.simps [of ls i same out]
  consider "i \<ge> length ls" | "i < length ls" "ls ! i \<noteq> START_marker"
    | "i < length ls" "ls ! i = START_marker" "js_indexOf ls MID_marker (i + 1) = None"
    | mid where "i < length ls" "ls ! i = START_marker"
      "js_indexOf ls MID_marker (i + 1) = Some mid" "js_indexOf ls END_marker (mid + 1) = None"
    | mid e where "i < length ls" "ls ! i = START_marker"
      "js_indexOf ls MID_marker (i + 1) = Some mid" "js_indexOf ls END_marker (mid + 1) = Some e"
    by fastforce
  then show ?case
  proof cases
    case 2
    then have "drop i ls = ls ! i # drop (Suc i) ls" by (simp add: Cons_nth_drop_Suc)
    with 2 "1.IH"(1) show ?thesis by (simp add: unfold)
  next
    case (5 mid e)
    with "1.IH"(2) [of mid e] drop_block [OF 5] show ?thesis by (simp add: unfold)
  qed (simp_all add: unfold)
qed

text \<open>What the parser guarantees about its segments.\<close>

fun block_ok :: "Segment \<Rightarrow> bool" where
  "block_ok (Same t) \<longleftrightarrow> t \<noteq> []"
| "block_ok (Conflict a b) \<longleftrightarrow> aligned a \<and> aligned b \<and>
     MID_marker \<notin> set (lines_with_nl a) \<and> END_marker \<notin> set (lines_with_nl b)"

definition normal_segments :: "Segment list \<Rightarrow> bool" where
  "normal_segments segs \<longleftrightarrow>
     (\<forall>s \<in> set segs. block_ok s) \<and>
     successively (\<lambda>s u. is_conflict s \<or> is_conflict u) segs \<and>
     (\<forall>s \<in> set (butlast segs). aligned (seg_text s))"

text \<open>Lines as the loop sees them: all but the last end with their only newline.\<close>

definition line_list :: "string list \<Rightarrow> bool" where
  "line_list ls \<longleftrightarrow> (\<forall>l \<in> set (butlast ls). \<exists>u. js_nl \<notin> set u \<and> l = u @ [js_nl])"

lemma line_list_lines: "line_list (lines_with_nl t)"
  unfolding line_list_def
proof
  fix l assume l: "l \<in> set (butlast (lines_with_nl t))"
  then have "l \<noteq> []" "js_nl \<notin> set (butlast l)" "last l = js_nl"
    using lines_shape [of l t] butlast_lines_aligned by (auto dest: in_set_butlastD)
  then show "\<exists>u. js_nl \<notin> set u \<and> l = u @ [js_nl]"
    by (metis append_butlast_last_id)
qed

lemma line_list_slice:
  assumes "line_list ls" "j < length ls" "l \<in> set (js_slice ls i j)"
  shows "\<exists>u. js_nl \<notin> set u \<and> l = u @ [js_nl]"
proof -
  have "set (js_slice ls i j) \<subseteq> set (take j ls)" by (auto simp: js_slice_def dest: in_set_dropD)
  also have "take j ls = take j (butlast ls)" using assms(2) by (simp add: take_butlast)
  finally show ?thesis using assms(1,3) by (auto simp: line_list_def dest: in_set_takeD)
qed

lemma line_list_nth: "line_list ls \<Longrightarrow> Suc i < length ls \<Longrightarrow> aligned (ls ! i)"
  using line_list_slice [of ls "Suc i" "ls ! i" i]
  by (auto simp: js_slice_def aligned_def take_Suc_conv_app_nth)

lemma slice_lines:
  assumes "line_list ls" "j < length ls"
  shows "lines_with_nl (concat (js_slice ls i j)) = js_slice ls i j"
    and "aligned (concat (js_slice ls i j))"
proof -
  have shape: "\<forall>l \<in> set (js_slice ls i j). \<exists>u. js_nl \<notin> set u \<and> l = u @ [js_nl]"
    using line_list_slice [OF assms] by blast
  then show "lines_with_nl (concat (js_slice ls i j)) = js_slice ls i j" by (rule lines_id)
  show "aligned (concat (js_slice ls i j))"
    by (rule aligned_concat) (use shape in \<open>auto simp: aligned_def\<close>)
qed

lemma slice_avoids:
  "\<forall>k. i \<le> k \<and> k < j \<longrightarrow> ls ! k \<noteq> v \<Longrightarrow> v \<notin> set (js_slice ls i j)"
proof
  assume avoid: "\<forall>k. i \<le> k \<and> k < j \<longrightarrow> ls ! k \<noteq> v" and "v \<in> set (js_slice ls i j)"
  then obtain k where k: "k < length (js_slice ls i j)" "js_slice ls i j ! k = v"
    by (auto simp: in_set_conv_nth)
  then have "i + k < j" "i \<le> length (take j ls)" by (auto simp: js_slice_def)
  with k have "ls ! (i + k) = v" by (simp add: js_slice_def)
  with \<open>i + k < j\<close> avoid show False by auto
qed

lemma parsed_block_ok:
  assumes "line_list ls" and mid: "js_indexOf ls MID_marker (i + 1) = Some mid"
    and e: "js_indexOf ls END_marker (mid + 1) = Some e"
  shows "block_ok (Conflict (concat (js_slice ls (i + 1) mid)) (concat (js_slice ls (mid + 1) e)))"
proof -
  from mid e have b: "mid < length ls" "e < length ls"
    "\<forall>k. i + 1 \<le> k \<and> k < mid \<longrightarrow> ls ! k \<noteq> MID_marker"
    "\<forall>k. mid + 1 \<le> k \<and> k < e \<longrightarrow> ls ! k \<noteq> END_marker"
    by (auto simp: js_indexOf_Some)
  show ?thesis
    using slice_lines [OF assms(1)] b(1,2) slice_avoids [OF b(3)] slice_avoids [OF b(4)] by simp
qed

lemma aligned_markers [simp]:
  "aligned START_marker" "aligned MID_marker" "aligned END_marker"
  by (simp_all add: aligned_def START_marker_def MID_marker_def END_marker_def)

lemma block_aligned: "block_ok s \<Longrightarrow> is_conflict s \<Longrightarrow> aligned (seg_text s)"
  by (cases s) (simp_all add: aligned_append)

lemma push_same_normal:
  assumes "normal_segments out" "\<forall>s \<in> set out. is_conflict s \<longrightarrow> aligned (seg_text s)"
    and "out = [] \<or> is_conflict (last out)"
  shows "normal_segments (push_same same out)"
  using assms
  by (cases out rule: rev_cases)
    (auto simp: normal_segments_def push_same_def successively_append_iff butlast_append
      split: if_splits)

lemma parse_loop_normal:
  assumes "line_list ls"
  shows "normal_segments out \<Longrightarrow> out = [] \<or> is_conflict (last out) \<Longrightarrow>
     (i < length ls \<longrightarrow> aligned same) \<Longrightarrow> normal_segments (parse_loop ls i same out)"
  using assms
proof (induction ls i same out rule: parse_loop.induct)
  case (1 ls i same out)
  note unfold = parse_loop.simps [of ls i same out]
  have al: "\<forall>s \<in> set out. is_conflict s \<longrightarrow> aligned (seg_text s)"
    using "1.prems"(1) by (auto simp: normal_segments_def intro: block_aligned)
  have al_all: "\<forall>s \<in> set out. aligned (seg_text s)"
    using "1.prems"(1,2) al by (cases out rule: rev_cases) (auto simp: normal_segments_def)
  have fin: "normal_segments (push_same t out)" for t
    by (rule push_same_normal [OF "1.prems"(1) al "1.prems"(2)])
  show ?case
  proof (cases "i < length ls")
    case False
    with fin show ?thesis by (simp add: unfold)
  next
    case inside: True
    show ?thesis
    proof (cases "ls ! i = START_marker")
      case False
      have "aligned (same @ ls ! i)" if "Suc i < length ls"
        using that "1.prems"(3,4) inside by (auto intro: aligned_append line_list_nth)
      with "1.IH"(1) [OF inside False] "1.prems" inside False show ?thesis by (simp add: unfold)
    next
      case True
      show ?thesis
      proof (cases "js_indexOf ls MID_marker (i + 1)")
        case None
        with fin inside True show ?thesis by (simp add: unfold)
      next
        case mid: (Some mid)
        show ?thesis
        proof (cases "js_indexOf ls END_marker (mid + 1)")
          case None
          with fin inside True mid show ?thesis by (simp add: unfold)
        next
          case e: (Some e)
          let ?c = "Conflict (concat (js_slice ls (i + 1) mid)) (concat (js_slice ls (mid + 1) e))"
          have "block_ok ?c" by (rule parsed_block_ok [OF "1.prems"(4) mid e])
          then have "normal_segments (push_same same out @ [?c])"
            using fin [of same] al_all "1.prems"(3) inside
            by (auto simp: normal_segments_def push_same_def successively_append_iff)
          with "1.IH"(2) [OF inside _ mid e] True inside mid e "1.prems"(4) show ?thesis
            by (simp add: unfold)
        qed
      qed
    qed
  qed
qed

lemma normal_Nil [simp]: "normal_segments []"
  by (simp add: normal_segments_def)

lemma parseConflicts_Nil [simp]: "parseConflicts [] = []"
  by (simp add: parseConflicts_def split_lines_def parse_loop.simps START_marker_def push_same_def)

lemma parseConflicts_normal: "normal_segments (parseConflicts t)"
proof (cases "t = []")
  case False
  then show ?thesis
    by (simp add: parseConflicts_def split_lines_def parse_loop_normal line_list_lines)
qed simp

lemma parseConflicts_text: "concat (map seg_text (parseConflicts t)) = t"
  by (simp add: parseConflicts_def parse_loop_text)

lemma pick_at_unpicked: "set picks \<subseteq> {None} \<Longrightarrow> pick_at picks n = None"
  by (auto simp: pick_at_def dest: nth_mem)

section \<open>Picking a side\<close>

definition all_picked :: "Segment list \<Rightarrow> BlockPick option list \<Rightarrow> bool" where
  "all_picked segs picks \<longleftrightarrow> (\<forall>n < conflictCount segs. pick_at picks n \<noteq> None)"

text \<open>Neither side of a block and no text around it has a marker line of its own.\<close>

fun seg_clean :: "Segment \<Rightarrow> bool" where
  "seg_clean (Same t) \<longleftrightarrow> \<not> hasMarkers t"
| "seg_clean (Conflict a b) \<longleftrightarrow> \<not> hasMarkers a \<and> \<not> hasMarkers b"

lemma withNewline_aligned: "aligned s \<Longrightarrow> withNewline s = s"
  by (cases s rule: rev_cases) (auto simp: withNewline_def aligned_def js_endsWith_def js_startsWith_def)

lemma hasMarkers_append: "aligned a \<Longrightarrow> hasMarkers (a @ b) \<longleftrightarrow> hasMarkers a \<or> hasMarkers b"
  by (auto simp: hasMarkers_lines lines_append)

lemma hasMarkers_Nil [simp]: "\<not> hasMarkers []"
  by (simp add: hasMarkers_lines)

lemma hasMarkers_concat:
  "\<forall>p \<in> set (butlast ps). aligned p \<Longrightarrow> hasMarkers (concat ps) \<longleftrightarrow> (\<exists>p \<in> set ps. hasMarkers p)"
proof (induction ps)
  case (Cons p ps)
  then show ?case by (cases "ps = []") (auto simp: hasMarkers_append)
qed simp

lemma pickText_aligned: "aligned a \<Longrightarrow> aligned b \<Longrightarrow> aligned (pickText a b p)"
  by (cases p) (auto simp: withNewline_aligned aligned_append)

lemma pickText_clean:
  "aligned a \<Longrightarrow> aligned b \<Longrightarrow> \<not> hasMarkers a \<Longrightarrow> \<not> hasMarkers b \<Longrightarrow> \<not> hasMarkers (pickText a b p)"
  by (cases p) (auto simp: withNewline_aligned hasMarkers_append)

lemma compose_from_Nil_iff [simp]: "compose_from n segs picks = [] \<longleftrightarrow> segs = []"
  by (cases "(n, segs, picks)" rule: compose_from.cases) auto

lemma compose_from_aligned:
  "\<forall>s \<in> set segs. block_ok s \<Longrightarrow> \<forall>s \<in> set (butlast segs). aligned (seg_text s) \<Longrightarrow>
     \<forall>p \<in> set (butlast (compose_from n segs picks)). aligned p"
proof (induction n segs picks rule: compose_from.induct)
  case (2 n t segs picks)
  then show ?case by (cases "segs = []") auto
next
  case (3 n a b segs picks)
  then have ok: "aligned a" "aligned b" by auto
  have "aligned (case pick_at picks n of
        Some pick \<Rightarrow> pickText a b pick
      | None \<Rightarrow> START_marker @ a @ MID_marker @ b @ END_marker)"
    using ok by (auto simp: pickText_aligned aligned_append split: option.splits)
  with 3 show ?case by (cases "segs = []") auto
qed simp

lemma compose_from_clean:
  "\<forall>s \<in> set segs. block_ok s \<and> seg_clean s \<Longrightarrow>
     \<forall>k < conflictCount segs. pick_at picks (n + k) \<noteq> None \<Longrightarrow>
     p \<in> set (compose_from n segs picks) \<Longrightarrow> \<not> hasMarkers p"
proof (induction n segs picks rule: compose_from.induct)
  case (2 n t segs picks)
  then show ?case by (auto simp: conflictCount_def)
next
  case (3 n a b segs picks)
  from "3.prems"(2) obtain q where q: "pick_at picks n = Some q"
    by (force simp: conflictCount_def)
  have "\<forall>k < conflictCount segs. pick_at picks (Suc n + k) \<noteq> None"
    using "3.prems"(2) by (force simp: conflictCount_def)
  with 3 q show ?case by (auto simp: pickText_clean)
qed simp

lemma compose_clean:
  assumes "normal_segments segs" "all_picked segs picks" "\<forall>s \<in> set segs. seg_clean s"
  shows "\<not> hasMarkers (compose segs picks)"
proof -
  have "\<forall>p \<in> set (butlast (compose_from 0 segs picks)). aligned p"
    using assms(1) by (intro compose_from_aligned) (auto simp: normal_segments_def)
  then show ?thesis
    using assms compose_from_clean [of segs picks 0]
    by (auto simp: compose_def js_join_empty_sep hasMarkers_concat normal_segments_def all_picked_def)
qed

lemma parse_loop_no_start:
  "START_marker \<notin> set ls \<Longrightarrow> filter is_conflict out = [] \<Longrightarrow>
     filter is_conflict (parse_loop ls i same out) = []"
proof (induction ls i same out rule: parse_loop.induct)
  case (1 ls i same out)
  show ?case
  proof (cases "i < length ls")
    case True
    then have "ls ! i \<noteq> START_marker" using "1.prems"(1) by (metis nth_mem)
    with True "1.IH"(1) "1.prems" show ?thesis by (simp add: parse_loop.simps [of ls i])
  next
    case False
    with "1.prems" show ?thesis by (simp add: parse_loop.simps [of ls i] push_same_def)
  qed
qed

lemma no_markers_no_conflicts: "\<not> hasMarkers t \<Longrightarrow> conflictCount (parseConflicts t) = 0"
proof (cases "t = []")
  case True
  then show ?thesis by (simp add: conflictCount_def)
next
  case False
  moreover assume "\<not> hasMarkers t"
  ultimately show ?thesis
    by (simp add: hasMarkers_lines conflictCount_def parseConflicts_def split_lines_def
        parse_loop_no_start)
qed

section \<open>Properties\<close>

text \<open>
  Property C1. Parsing a file loses nothing: composing its segments again with no pick made gives
  back exactly the file, whatever the file contains (stray or unfinished markers included).
\<close>

theorem conflicts_roundtrip: "compose (parseConflicts t) (replicate n None) = t"
proof -
  have "\<forall>k. pick_at (replicate n None) k = None" by (simp add: pick_at_def)
  then show ?thesis
    by (simp add: compose_def js_join_empty_sep compose_unpicked parseConflicts_text)
qed

text \<open>
  The parser returns segments in normal form: no empty text segment, no two adjacent
  ones, both sides of a block end at a line boundary, the left side has no middle marker line
  and the right side no end marker line.
\<close>

theorem conflicts_normal_form: "normal_segments (parseConflicts t)"
  by (rule parseConflicts_normal)

text \<open>
  Once every block of a file has a pick, the composed text has no marker line and
  \<open>Mark resolved\<close> submits it, provided the text between the blocks and their two sides have no
  marker line of their own.
\<close>

theorem picked_file_is_submitted:
  assumes "\<forall>s \<in> set (parseConflicts t). seg_clean s"
    and "all_picked (parseConflicts t) (ed_picks ed)"
    and "ed_manual ed = None"
  shows "editor_submit (parseConflicts t) False ed = Some (compose (parseConflicts t) (ed_picks ed))"
  using compose_clean [OF parseConflicts_normal assms(2,1)] assms(3)
  by (simp add: editor_submit_def editor_result_def)

definition sample_file :: string where
  "sample_file = ''a'' @ [js_nl] @ START_marker @ ''x'' @ [js_nl] @ MID_marker @ ''y'' @ [js_nl] @ END_marker"

theorem picked_file_is_submitted_witness:
  "editor_submit (parseConflicts sample_file) False
     \<lparr>ed_picks = [Some PickTheirsOurs], ed_manual = None\<rparr> =
   Some (''a'' @ [js_nl] @ ''y'' @ [js_nl] @ ''x'' @ [js_nl])"
proof -
  let ?ed = "\<lparr>ed_picks = [Some PickTheirsOurs], ed_manual = None\<rparr>"
  have segs: "parseConflicts sample_file =
      [Same (''a'' @ [js_nl]), Conflict (''x'' @ [js_nl]) (''y'' @ [js_nl])]"
    by code_simp
  have "\<forall>s \<in> set (parseConflicts sample_file). seg_clean s"
    unfolding segs by code_simp
  moreover have "all_picked (parseConflicts sample_file) (ed_picks ?ed)"
    unfolding segs by (simp add: all_picked_def conflictCount_def pick_at_def)
  ultimately have "editor_submit (parseConflicts sample_file) False ?ed =
      Some (compose (parseConflicts sample_file) (ed_picks ?ed))"
    by (rule picked_file_is_submitted) simp
  then show ?thesis
    unfolding segs by (simp add: compose_def pick_at_def withNewline_def js_endsWith_def js_startsWith_def)
qed

text \<open>
  Property C5. What \<open>Mark resolved\<close> submits never has a conflict block in it, whether it was
  composed from the picks or typed by hand.
\<close>

theorem submitted_has_no_conflict:
  assumes "editor_submit segs busy ed = Some r"
  shows "conflictCount (parseConflicts r) = 0"
  using assms no_markers_no_conflicts [of r] by (auto simp: editor_submit_def split: if_splits)

theorem submitted_has_no_conflict_witness:
  "editor_submit [] False \<lparr>ed_picks = [], ed_manual = Some ''done''\<rparr> = Some ''done'' \<and>
   conflictCount (parseConflicts ''done'') = 0"
proof -
  have "editor_submit [] False \<lparr>ed_picks = [], ed_manual = Some ''done''\<rparr> = Some ''done''"
    by code_simp
  with submitted_has_no_conflict [OF this] show ?thesis by simp
qed

end
