(* ===== verification/Diff_Rows.thy ===== *)
theory Diff_Rows
  imports Js_Prelude
begin

text \<open>
  The text diff of the desktop client, \<open>desktop/frontend/src/lib/diff.ts\<close>: the rows of the
  unified and of the side-by-side view, sizes and paths. The theorems say that the side-by-side
  view loses and reorders no line, that it pairs each removed run with the added run after it
  (against a declarative specification by runs), and that a path splits into its directory and name.
\<close>

section \<open>Data\<close>

datatype LineKind = Context | Added | Removed

record DiffLine =
  dl_kind :: string
  dl_old :: int
  dl_new :: int
  dl_text :: string
  dl_noNewline :: "bool option"

record DiffHunk =
  dh_oldStart :: int
  dh_oldLines :: int
  dh_newStart :: int
  dh_newLines :: int
  dh_lines :: "DiffLine list option"

datatype UnifiedRow =
    UHunk (u_header: string)
  | ULine (u_kind: LineKind) (u_old: int) (u_new: int) (u_text: string) (u_noNewline: bool)

record SplitCell =
  sc_kind :: LineKind
  sc_line :: int
  sc_text :: string
  sc_noNewline :: bool

datatype SplitRow = SHunk string | SPair "SplitCell option" "SplitCell option"

section \<open>Rows\<close>

definition hunkHeader :: "DiffHunk \<Rightarrow> string" where
  "hunkHeader h =
     ''@@ -'' @ js_show_int (dh_oldStart h) @ '','' @ js_show_int (dh_oldLines h) @
     '' +'' @ js_show_int (dh_newStart h) @ '','' @ js_show_int (dh_newLines h) @ '' @@''"

definition kindOf :: "string \<Rightarrow> LineKind" where
  "kindOf kind =
     (if kind = ''added'' then Added else if kind = ''removed'' then Removed else Context)"

text \<open>\<open>h.lines ?? []\<close> and \<open>!!l.noNewline\<close>.\<close>

definition hunk_lines :: "DiffHunk \<Rightarrow> DiffLine list" where
  "hunk_lines h = (case dh_lines h of None \<Rightarrow> [] | Some ls \<Rightarrow> ls)"

definition no_newline :: "DiffLine \<Rightarrow> bool" where
  "no_newline l \<longleftrightarrow> dl_noNewline l = Some True"

definition unified_line :: "DiffLine \<Rightarrow> UnifiedRow" where
  "unified_line l = ULine (kindOf (dl_kind l)) (dl_old l) (dl_new l) (dl_text l) (no_newline l)"

definition unifiedRows :: "DiffHunk list \<Rightarrow> UnifiedRow list" where
  "unifiedRows hunks = concat (map (\<lambda>h. UHunk (hunkHeader h) # map unified_line (hunk_lines h)) hunks)"

text \<open>The cells a line fills on the left and on the right.\<close>

definition left_cell :: "DiffLine \<Rightarrow> SplitCell" where
  "left_cell l = \<lparr>sc_kind = kindOf (dl_kind l), sc_line = dl_old l, sc_text = dl_text l,
     sc_noNewline = no_newline l\<rparr>"

definition right_cell :: "DiffLine \<Rightarrow> SplitCell" where
  "right_cell l = \<lparr>sc_kind = kindOf (dl_kind l), sc_line = dl_new l, sc_text = dl_text l,
     sc_noNewline = no_newline l\<rparr>"

text \<open>\<open>xs[i] ?? null\<close>.\<close>

definition nth_opt :: "'a list \<Rightarrow> nat \<Rightarrow> 'a option" where
  "nth_opt xs i = (if i < length xs then Some (xs ! i) else None)"

text \<open>The rows that \<open>flush\<close> pushes; it then empties both runs.\<close>

definition pair_runs :: "('a option \<Rightarrow> 'a option \<Rightarrow> 'r) \<Rightarrow> 'a list \<Rightarrow> 'a list \<Rightarrow> 'r list" where
  "pair_runs mk removed added =
     map (\<lambda>i. mk (nth_opt removed i) (nth_opt added i)) [0..<max (length removed) (length added)]"

type_synonym split_state = "SplitRow list \<times> SplitCell list \<times> SplitCell list"

definition flush :: "split_state \<Rightarrow> split_state" where
  "flush st = (case st of (rows, removed, added) \<Rightarrow> (rows @ pair_runs SPair removed added, [], []))"

definition split_step :: "split_state \<Rightarrow> DiffLine \<Rightarrow> split_state" where
  "split_step st l =
     (case kindOf (dl_kind l) of
        Removed \<Rightarrow>
          (case (if snd (snd st) \<noteq> [] then flush st else st) of
             (rows, removed, added) \<Rightarrow> (rows, removed @ [left_cell l], added))
      | Added \<Rightarrow> (case st of (rows, removed, added) \<Rightarrow> (rows, removed, added @ [right_cell l]))
      | Context \<Rightarrow>
          (case flush st of
             (rows, removed, added) \<Rightarrow>
               (rows @ [SPair (Some (left_cell l)) (Some (right_cell l))], removed, added)))"

definition split_hunk :: "SplitRow list \<Rightarrow> DiffHunk \<Rightarrow> SplitRow list" where
  "split_hunk rows h =
     fst (flush (foldl split_step (rows @ [SHunk (hunkHeader h)], [], []) (hunk_lines h)))"

definition splitRows :: "DiffHunk list \<Rightarrow> SplitRow list" where
  "splitRows hunks = foldl split_hunk [] hunks"

section \<open>Sizes and paths\<close>

text \<open>
  \<open>formatBytes\<close> on a number of bytes \<open>n\<close>. The scaled value is the exact quotient \<open>n / d\<close> by a
  power of 1024, so its comparisons and \<open>toFixed\<close> are integer operations on \<open>n\<close> and \<open>d\<close>.
\<close>

function scale_bytes :: "nat \<Rightarrow> nat \<Rightarrow> nat \<Rightarrow> nat \<times> nat" where
  "scale_bytes n d u = (if 1024 * d \<le> n \<and> u < 3 then scale_bytes n (d * 1024) (Suc u) else (d, u))"
  by pat_completeness auto
termination
  by (relation "measure (\<lambda>(n, d, u). 3 - u)") auto

declare scale_bytes.simps [simp del]

definition to_fixed :: "nat \<Rightarrow> nat \<Rightarrow> nat \<Rightarrow> string" where
  "to_fixed digits n d =
     (if digits = 0 then js_show_nat (nat (js_round_div (int n) (int d)))
      else (let k = nat (js_round_div (int (10 ^ digits * n)) (int d))
            in js_show_nat (k div 10 ^ digits) @ ''.'' @
               (let f = js_show_nat (k mod 10 ^ digits)
                in replicate (digits - length f) (CHR ''0'') @ f)))"

definition byte_units :: "string list" where
  "byte_units = [''KB'', ''MB'', ''GB'', ''TB'']"

definition formatBytes :: "nat \<Rightarrow> string" where
  "formatBytes n =
     (if n < 1024 then js_show_nat n @ '' B''
      else case scale_bytes n 1024 0 of
        (d, u) \<Rightarrow> to_fixed (if n < 10 * d then 1 else 0) n d @ '' '' @ byte_units ! u)"

definition splitPath :: "string \<Rightarrow> string \<times> string" where
  "splitPath path =
     (case js_lastIndexOf path (CHR ''/'') of
        None \<Rightarrow> ([], path)
      | Some i \<Rightarrow> (take (i + 1) path, drop (i + 1) path))"

section \<open>The two columns of the side-by-side view\<close>

fun row_left :: "SplitRow \<Rightarrow> SplitCell list" where
  "row_left (SHunk h) = []"
| "row_left (SPair l r) = (case l of None \<Rightarrow> [] | Some c \<Rightarrow> [c])"

fun row_right :: "SplitRow \<Rightarrow> SplitCell list" where
  "row_right (SHunk h) = []"
| "row_right (SPair l r) = (case r of None \<Rightarrow> [] | Some c \<Rightarrow> [c])"

definition lefts :: "SplitRow list \<Rightarrow> SplitCell list" where
  "lefts rows = concat (map row_left rows)"

definition rights :: "SplitRow list \<Rightarrow> SplitCell list" where
  "rights rows = concat (map row_right rows)"

lemma lefts_append [simp]: "lefts (xs @ ys) = lefts xs @ lefts ys"
  by (simp add: lefts_def)

lemma rights_append [simp]: "rights (xs @ ys) = rights xs @ rights ys"
  by (simp add: rights_def)

lemma lefts_simps [simp]: "lefts [] = []" "lefts (x # xs) = row_left x @ lefts xs"
  by (simp_all add: lefts_def)

lemma rights_simps [simp]: "rights [] = []" "rights (x # xs) = row_right x @ rights xs"
  by (simp_all add: rights_def)

lemma nth_opt_simps [simp]:
  "nth_opt [] i = None" "nth_opt (x # xs) 0 = Some x" "nth_opt (x # xs) (Suc i) = nth_opt xs i"
  by (simp_all add: nth_opt_def)

text \<open>Reading a list through \<open>nth_opt\<close> up to any bound past its end gives the list back.\<close>

lemma concat_nth_opt:
  "length xs \<le> n \<Longrightarrow>
     concat (map (\<lambda>i. case nth_opt xs i of None \<Rightarrow> [] | Some c \<Rightarrow> [c]) [0..<n]) = xs"
proof (induction xs arbitrary: n)
  case Nil
  then show ?case by simp
next
  case (Cons x xs)
  then obtain m where n: "n = Suc m" "length xs \<le> m" by (cases n) auto
  have "[0..<n] = 0 # map Suc [0..<m]" using n(1) by (simp add: map_Suc_upt upt_conv_Cons)
  then show ?case
    using Cons.IH [OF n(2)] by (simp add: comp_def)
qed

lemma lefts_pair_runs [simp]: "lefts (pair_runs SPair removed added) = removed"
  using concat_nth_opt [of removed "max (length removed) (length added)"]
  by (simp add: lefts_def pair_runs_def comp_def)

lemma rights_pair_runs [simp]: "rights (pair_runs SPair removed added) = added"
  using concat_nth_opt [of added "max (length removed) (length added)"]
  by (simp add: rights_def pair_runs_def comp_def)

text \<open>The columns of a loop state, with the runs not flushed yet.\<close>

definition left_column :: "split_state \<Rightarrow> SplitCell list" where
  "left_column st = lefts (fst st) @ fst (snd st)"

definition right_column :: "split_state \<Rightarrow> SplitCell list" where
  "right_column st = rights (fst st) @ snd (snd st)"

lemma flush_columns [simp]:
  "left_column (flush st) = left_column st" "right_column (flush st) = right_column st"
  "fst (snd (flush st)) = []" "snd (snd (flush st)) = []"
  by (simp_all add: left_column_def right_column_def flush_def split: prod.splits)

lemma flushed_columns:
  "lefts (fst (flush st)) = left_column st" "rights (fst (flush st)) = right_column st"
  by (simp_all add: left_column_def right_column_def flush_def split: prod.splits)

lemma split_step_columns:
  "left_column (split_step st l) =
     left_column st @ (if kindOf (dl_kind l) = Added then [] else [left_cell l])"
  "right_column (split_step st l) =
     right_column st @ (if kindOf (dl_kind l) = Removed then [] else [right_cell l])"
  by (cases st; simp add: split_step_def left_column_def right_column_def flush_def
      split: LineKind.splits)+

lemma split_fold_columns:
  "left_column (foldl split_step st ls) =
     left_column st @ map left_cell (filter (\<lambda>l. kindOf (dl_kind l) \<noteq> Added) ls)"
  "right_column (foldl split_step st ls) =
     right_column st @ map right_cell (filter (\<lambda>l. kindOf (dl_kind l) \<noteq> Removed) ls)"
  by (induction ls arbitrary: st) (auto simp: split_step_columns)

lemma split_hunk_columns:
  "lefts (split_hunk rows h) =
     lefts rows @ map left_cell (filter (\<lambda>l. kindOf (dl_kind l) \<noteq> Added) (hunk_lines h))"
  "rights (split_hunk rows h) =
     rights rows @ map right_cell (filter (\<lambda>l. kindOf (dl_kind l) \<noteq> Removed) (hunk_lines h))"
  by (simp_all add: split_hunk_def flushed_columns split_fold_columns)
    (simp_all add: left_column_def right_column_def)

lemma splitRows_snoc: "splitRows (hs @ [h]) = split_hunk (splitRows hs) h"
  by (simp add: splitRows_def)

lemma splitRows_columns:
  "lefts (splitRows hunks) =
     map left_cell (filter (\<lambda>l. kindOf (dl_kind l) \<noteq> Added) (concat (map hunk_lines hunks)))"
  "rights (splitRows hunks) =
     map right_cell (filter (\<lambda>l. kindOf (dl_kind l) \<noteq> Removed) (concat (map hunk_lines hunks)))"
proof (induction hunks rule: rev_induct)
  case Nil
  { case 1 then show ?case by (simp add: splitRows_def) }
  { case 2 then show ?case by (simp add: splitRows_def) }
next
  case (snoc h hs)
  { case 1 then show ?case using snoc by (simp add: splitRows_snoc split_hunk_columns) }
  { case 2 then show ?case using snoc by (simp add: splitRows_snoc split_hunk_columns) }
qed

section \<open>The rows by runs\<close>

text \<open>
  The specification of the side-by-side view: a context line stands on both sides; otherwise a
  maximal run of removed lines is paired with the maximal run of added lines that follows it.
\<close>

function run_rows :: "DiffLine list \<Rightarrow> SplitRow list" where
  "run_rows [] = []"
| "run_rows (l # ls) =
     (if kindOf (dl_kind l) = Context
      then SPair (Some (left_cell l)) (Some (right_cell l)) # run_rows ls
      else (let removed = takeWhile (\<lambda>x. kindOf (dl_kind x) = Removed) (l # ls);
                rest = dropWhile (\<lambda>x. kindOf (dl_kind x) = Removed) (l # ls);
                added = takeWhile (\<lambda>x. kindOf (dl_kind x) = Added) rest
            in pair_runs SPair (map left_cell removed) (map right_cell added) @
               run_rows (dropWhile (\<lambda>x. kindOf (dl_kind x) = Added) rest)))"
  by pat_completeness auto
termination
proof (relation "measure length")
  fix l :: DiffLine and ls removed rest added
  assume k: "kindOf (dl_kind l) \<noteq> Context"
    and rest: "rest = dropWhile (\<lambda>x. kindOf (dl_kind x) = Removed) (l # ls)"
  have "length (dropWhile (\<lambda>x. kindOf (dl_kind x) = Added) rest) \<le> length ls"
  proof (cases "kindOf (dl_kind l) = Removed")
    case True
    then show ?thesis
      using rest length_dropWhile_le [of "\<lambda>x. kindOf (dl_kind x) = Added" rest]
        length_dropWhile_le [of "\<lambda>x. kindOf (dl_kind x) = Removed" ls] by simp
  next
    case False
    with k have "kindOf (dl_kind l) = Added" by (cases "kindOf (dl_kind l)") auto
    then show ?thesis using rest by (simp add: length_dropWhile_le)
  qed
  then show "(dropWhile (\<lambda>x. kindOf (dl_kind x) = Added) rest, l # ls) \<in> measure length"
    by simp
qed auto

text \<open>
  Every line of one kind in front of a list that does not start with it: the loop collects the run.
\<close>

lemma fold_removed_run:
  "\<forall>l \<in> set ls. kindOf (dl_kind l) = Removed \<Longrightarrow>
     foldl split_step (rows, removed, []) ls = (rows, removed @ map left_cell ls, [])"
  by (induction ls arbitrary: removed) (auto simp: split_step_def)

lemma fold_added_run:
  "\<forall>l \<in> set ls. kindOf (dl_kind l) = Added \<Longrightarrow>
     foldl split_step (rows, removed, added) ls = (rows, removed, added @ map right_cell ls)"
  by (induction ls arbitrary: added) (auto simp: split_step_def)

text \<open>
  A list that starts with neither an added nor, after a run of removed lines only, a removed line
  flushes the runs, now or at its first line.
\<close>

lemma pair_runs_Nil [simp]: "pair_runs mk [] [] = []"
  by (simp add: pair_runs_def)

lemma fold_flush_first:
  assumes "ls = [] \<or> kindOf (dl_kind (hd ls)) = Context \<or>
      (kindOf (dl_kind (hd ls)) = Removed \<and> added \<noteq> [])"
  shows "flush (foldl split_step (rows, removed, added) ls) =
     flush (foldl split_step (rows @ pair_runs SPair removed added, [], []) ls)"
proof (cases ls)
  case (Cons l ls')
  then have "split_step (rows, removed, added) l =
      split_step (rows @ pair_runs SPair removed added, [], []) l"
    using assms by (auto simp: split_step_def flush_def)
  then show ?thesis using Cons by simp
qed (simp add: flush_def)

lemma hd_dropWhile_kind:
  "dropWhile (\<lambda>x. kindOf (dl_kind x) = k) ls \<noteq> [] \<Longrightarrow>
     kindOf (dl_kind (hd (dropWhile (\<lambda>x. kindOf (dl_kind x) = k) ls))) \<noteq> k"
  using hd_dropWhile [of "\<lambda>x. kindOf (dl_kind x) = k" ls] by simp

lemma split_runs:
  "fst (flush (foldl split_step (rows, [], []) ls)) = rows @ run_rows ls"
proof (induction ls arbitrary: rows rule: run_rows.induct)
  case 1
  show ?case by (simp add: flush_def)
next
  case (2 l ls)
  show ?case
  proof (cases "kindOf (dl_kind l) = Context")
    case True
    then show ?thesis using "2.IH"(1) by (simp add: split_step_def flush_def)
  next
    case False
    define R where "R = takeWhile (\<lambda>x. kindOf (dl_kind x) = Removed) (l # ls)"
    define rest where "rest = dropWhile (\<lambda>x. kindOf (dl_kind x) = Removed) (l # ls)"
    define A where "A = takeWhile (\<lambda>x. kindOf (dl_kind x) = Added) rest"
    define tail where "tail = dropWhile (\<lambda>x. kindOf (dl_kind x) = Added) rest"
    have split: "l # ls = R @ A @ tail"
      by (metis R_def rest_def A_def tail_def takeWhile_dropWhile_id)
    have all: "\<forall>x \<in> set R. kindOf (dl_kind x) = Removed" "\<forall>x \<in> set A. kindOf (dl_kind x) = Added"
      by (auto simp: R_def A_def dest: set_takeWhileD)
    have tl: "tail = [] \<or> kindOf (dl_kind (hd tail)) = Context \<or>
        (kindOf (dl_kind (hd tail)) = Removed \<and> map right_cell A \<noteq> [])"
    proof (cases "tail = []")
      case ne: False
      have na: "kindOf (dl_kind (hd tail)) \<noteq> Added"
        using ne hd_dropWhile_kind by (auto simp: tail_def)
      have "A \<noteq> []" if "kindOf (dl_kind (hd tail)) = Removed"
      proof
        assume "A = []"
        then have "rest = tail" using split by (metis A_def tail_def append_Nil takeWhile_dropWhile_id)
        then show False using that ne hd_dropWhile_kind [of Removed "l # ls"] by (simp add: rest_def)
      qed
      with na show ?thesis by (cases "kindOf (dl_kind (hd tail))") auto
    qed simp
    have "foldl split_step (rows, [], []) (l # ls) =
        foldl split_step (rows, map left_cell R, map right_cell A) tail"
      using all by (simp add: split fold_removed_run fold_added_run del: foldl_Cons)
    then have "fst (flush (foldl split_step (rows, [], []) (l # ls))) =
        fst (flush (foldl split_step
          (rows @ pair_runs SPair (map left_cell R) (map right_cell A), [], []) tail))"
      using fold_flush_first [OF tl] by simp
    also have "\<dots> = (rows @ pair_runs SPair (map left_cell R) (map right_cell A)) @ run_rows tail"
      using "2.IH"(2) [OF False R_def rest_def A_def] by (simp add: tail_def)
    also have "\<dots> = rows @ run_rows (l # ls)"
      using False by (simp add: R_def rest_def A_def tail_def Let_def)
    finally show ?thesis .
  qed
qed

lemma split_hunk_runs: "split_hunk rows h = rows @ SHunk (hunkHeader h) # run_rows (hunk_lines h)"
  by (simp add: split_hunk_def split_runs)

section \<open>Sizes and paths: lemmas\<close>

lemma scale_bytes_result:
  assumes "scale_bytes n d u = (d', u')" and "d = 1024 ^ Suc u" and "d \<le> n" and "u \<le> 3"
  shows "d' = 1024 ^ Suc u' \<and> d' \<le> n \<and> u' \<le> 3 \<and> (u' < 3 \<longrightarrow> n < 1024 * d')"
  using assms
proof (induction n d u rule: scale_bytes.induct)
  case (1 n d u)
  show ?case
  proof (cases "1024 * d \<le> n \<and> u < 3")
    case True
    with "1.prems"(1) have "scale_bytes n (d * 1024) (Suc u) = (d', u')"
      by (simp add: scale_bytes.simps [of n d u])
    then show ?thesis by (rule "1.IH" [OF True]) (use True "1.prems"(2) in auto)
  next
    case False
    with "1.prems"(1) have "d' = d" "u' = u" by (auto simp: scale_bytes.simps [of n d u])
    with False "1.prems"(2-4) show ?thesis by auto
  qed
qed

lemma js_lastIndexOf_None: "js_lastIndexOf xs v = None \<longleftrightarrow> v \<notin> set xs"
  by (auto simp: js_lastIndexOf_def js_findIndex_None)

lemma js_lastIndexOf_Some:
  assumes "js_lastIndexOf xs v = Some i"
  shows "i < length xs" and "xs ! i = v" and "v \<notin> set (drop (i + 1) xs)"
proof -
  from assms obtain k where k: "i = length xs - 1 - k" "k < length xs" "rev xs ! k = v"
      "\<forall>j < k. rev xs ! j \<noteq> v"
    by (auto simp: js_lastIndexOf_def js_findIndex_Some)
  then show "i < length xs" and "xs ! i = v" by (auto simp: rev_nth)
  show "v \<notin> set (drop (i + 1) xs)"
  proof
    assume "v \<in> set (drop (i + 1) xs)"
    then obtain m where "m < length xs - (i + 1)" "xs ! (i + 1 + m) = v"
      by (auto simp: in_set_conv_nth)
    then obtain q where q: "q < length xs" "i < q" "xs ! q = v" by (metis add.assoc less_add_one
      less_diff_conv2 less_diff_conv add.commute trans_less_add1)
    then have "rev xs ! (length xs - Suc q) = v" "length xs - Suc q < k"
      using k(1,2) by (auto simp: rev_nth)
    with k(4) show False by blast
  qed
qed

section \<open>Properties\<close>

text \<open>
  Property C4. The side-by-side view of a diff loses, repeats and reorders no line: its left
  column is the context and removed lines of all hunks in order, its right column the context
  and added ones.
\<close>

theorem split_view_complete:
  "lefts (splitRows hunks) =
     map left_cell (filter (\<lambda>l. kindOf (dl_kind l) \<noteq> Added) (concat (map hunk_lines hunks))) \<and>
   rights (splitRows hunks) =
     map right_cell (filter (\<lambda>l. kindOf (dl_kind l) \<noteq> Removed) (concat (map hunk_lines hunks)))"
  by (simp add: splitRows_columns)

text \<open>
  The loop of \<open>splitRows\<close> implements the specification by runs: per hunk its header,
  then each context line on both sides and each maximal removed run paired line by line with the
  maximal added run right after it, the shorter run padded with empty cells.
\<close>

theorem splitRows_refines_runs:
  "splitRows hunks = concat (map (\<lambda>h. SHunk (hunkHeader h) # run_rows (hunk_lines h)) hunks)"
proof (induction hunks rule: rev_induct)
  case Nil
  then show ?case by (simp add: splitRows_def)
next
  case (snoc h hs)
  then show ?case by (simp add: splitRows_snoc split_hunk_runs)
qed

text \<open>
  For at least one kilobyte, \<open>formatBytes\<close> divides by the right power of 1024: the
  scaled value is at least 1, and below 1024 unless the unit is already the largest one.
\<close>

theorem formatBytes_unit:
  assumes "1024 \<le> n"
  shows "\<exists>d u. scale_bytes n 1024 0 = (d, u) \<and> d = 1024 ^ Suc u \<and> u < length byte_units \<and>
     d \<le> n \<and> (u + 1 < length byte_units \<longrightarrow> n < 1024 * d) \<and>
     formatBytes n = to_fixed (if n < 10 * d then 1 else 0) n d @ '' '' @ byte_units ! u"
proof -
  obtain d u where du: "scale_bytes n 1024 0 = (d, u)" by fastforce
  from scale_bytes_result [OF this] assms show ?thesis
    by (intro exI [of _ d] exI [of _ u]) (auto simp: du formatBytes_def byte_units_def)
qed

theorem formatBytes_unit_witness:
  "(\<exists>d u. scale_bytes 1536 1024 0 = (d, u) \<and> d = 1024 ^ Suc u \<and> u < length byte_units \<and>
     d \<le> 1536 \<and> (u + 1 < length byte_units \<longrightarrow> 1536 < 1024 * d) \<and>
     formatBytes 1536 = to_fixed (if 1536 < 10 * d then 1 else 0) 1536 d @ '' '' @ byte_units ! u) \<and>
   formatBytes 1536 = ''1.5 KB''"
proof
  show "formatBytes 1536 = ''1.5 KB''"
    by (simp add: formatBytes_def scale_bytes.simps to_fixed_def byte_units_def js_defs)
qed (rule formatBytes_unit, simp)

text \<open>
  A path splits into its directory, empty or ending in a slash, and a name without
  slashes, and the two put together are the path.
\<close>

theorem splitPath_parts:
  "fst (splitPath p) @ snd (splitPath p) = p \<and> CHR ''/'' \<notin> set (snd (splitPath p)) \<and>
   (fst (splitPath p) = [] \<or> last (fst (splitPath p)) = CHR ''/'')"
proof (cases "js_lastIndexOf p (CHR ''/'')")
  case None
  then have "CHR ''/'' \<notin> set p" by (simp add: js_lastIndexOf_None)
  with None show ?thesis by (simp add: splitPath_def)
next
  case (Some i)
  from js_lastIndexOf_Some [OF Some] show ?thesis
    by (simp add: splitPath_def Some) (simp add: take_Suc_conv_app_nth)
qed

end
