(* ===== verification/Web_Models.thy ===== *)
theory Web_Models
  imports Js_Prelude
begin

text \<open>
  The data the web client exchanges with the server, \<open>web/src/api/models.ts\<close>, as far as the
  other theories use it: one record per interface, its fields in the source's order with a short
  prefix, an optional field as an \<open>option\<close>; and the helpers for optional values that the
  components share.
\<close>

section \<open>Optional values\<close>

text \<open>\<open>Boolean(s)\<close> of an optional string: neither \<open>undefined\<close> nor empty.\<close>

definition truthy :: "string option \<Rightarrow> bool" where
  "truthy s \<longleftrightarrow> s \<noteq> None \<and> s \<noteq> Some []"

text \<open>\<open>a ?? b\<close>.\<close>

definition coalesce :: "'a option \<Rightarrow> 'a \<Rightarrow> 'a" where
  "coalesce a b = (case a of None \<Rightarrow> b | Some x \<Rightarrow> x)"

lemma truthy_simps [simp]: "\<not> truthy None" "truthy (Some s) \<longleftrightarrow> s \<noteq> []"
  by (simp_all add: truthy_def)

lemma coalesce_simps [simp]: "coalesce None b = b" "coalesce (Some x) b = x"
  by (simp_all add: coalesce_def)

section \<open>Accounts\<close>

record LoginRequest =
  lr_email :: string
  lr_password :: string

record TokenResponse =
  tr_access_token :: string
  tr_token_type :: string
  tr_expires_in :: int

record OrgMemberResponse =
  om_user_id :: string
  om_name :: string
  om_email :: string
  om_photo_url :: string
  om_is_admin :: bool
  om_is_super_admin :: bool
  om_role :: string
  om_joined_at :: "string option"

section \<open>Diffs\<close>

datatype DiffLineKind = ContextLine | AddLine | RemoveLine

record DiffLineResponse =
  ln_kind :: DiffLineKind
  ln_old_line :: "int option"
  ln_new_line :: "int option"
  ln_text :: string
  ln_no_newline :: "bool option"

record DiffHunkResponse =
  hk_old_start :: int
  hk_old_lines :: int
  hk_new_start :: int
  hk_new_lines :: int
  hk_lines :: "DiffLineResponse list"

record DiffFileResponse =
  df_path :: string
  df_old_path :: "string option"
  df_status :: string
  df_binary :: bool
  df_additions :: int
  df_deletions :: int
  df_patch :: "string list option"
  df_hunks :: "DiffHunkResponse list option"

section \<open>Reviews\<close>

record ReviewActorResponse =
  ra_user_id :: string
  ra_name :: string
  ra_photo_url :: "string option"

datatype ReviewState = RCommented | RApproved | RChangesRequested

record ReviewStateResponse =
  rs_head_commit_id :: "string option"
  rs_approvals :: int
  rs_changes_requested :: int
  rs_dismissed_approvals :: int
  rs_outstanding_reviewers :: "string list"

record MergeabilityResponse =
  mg_status :: string
  mg_source_commit_id :: "string option"
  mg_target_commit_id :: "string option"
  mg_merge_base_commit_id :: "string option"
  mg_blocked_by :: "string option"

record MergeRequestResponse =
  mr_id :: string
  mr_number :: int
  mr_project_id :: string
  mr_source_branch :: string
  mr_target_branch :: string
  mr_title :: string
  mr_description :: string
  mr_status :: string
  mr_draft :: bool
  mr_merge_commit_id :: "string option"
  mr_merge_base_commit_id :: "string option"
  mr_created_by :: string
  mr_created_at :: string
  mr_updated_at :: string
  mr_assignees :: "ReviewActorResponse list option"
  mr_mergeability :: "MergeabilityResponse option"
  mr_review :: "ReviewStateResponse option"

record ReviewResponse =
  rv_id :: string
  rv_merge_request_id :: int
  rv_reviewer :: ReviewActorResponse
  rv_state :: ReviewState
  rv_body :: string
  rv_head_commit_id :: string
  rv_stale :: bool
  rv_dismissed_at :: "string option"
  rv_dismissed_by :: "ReviewActorResponse option"
  rv_dismissed_reason :: "string option"
  rv_created_at :: string
  rv_updated_at :: string

record ThreadCommentInput =
  tc_file_path :: string
  tc_old_line :: "int option"
  tc_new_line :: "int option"
  tc_body :: string

record SubmitReviewRequest =
  sr_state :: ReviewState
  sr_body :: string
  sr_comments :: "ThreadCommentInput list"

record CommentResponse =
  cm_id :: string
  cm_thread_id :: string
  cm_user :: ReviewActorResponse
  cm_body :: string
  cm_system :: bool
  cm_created_at :: string
  cm_updated_at :: string

record ThreadResponse =
  th_id :: string
  th_merge_request_id :: int
  th_review_id :: "string option"
  th_file_path :: "string option"
  th_old_line :: "int option"
  th_new_line :: "int option"
  th_side :: string
  th_outdated :: bool
  th_resolved :: bool
  th_resolved_by :: "ReviewActorResponse option"
  th_resolved_at :: "string option"
  th_created_by :: ReviewActorResponse
  th_created_at :: string
  th_updated_at :: string
  th_comments :: "CommentResponse list"

record ReviewRequestResponse =
  rq_id :: string
  rq_merge_request_id :: int
  rq_reviewer :: ReviewActorResponse
  rq_requested_by :: ReviewActorResponse
  rq_created_at :: string

record TimelineItemResponse =
  ti_id :: string
  ti_kind :: string
  ti_actor :: ReviewActorResponse
  ti_subject :: "ReviewActorResponse option"
  ti_body :: "string option"
  ti_commit_id :: "string option"
  ti_commit_hash :: "string option"
  ti_created_at :: string

section \<open>Webhooks\<close>

record CreateWebhookInput =
  cw_name :: string
  cw_url :: string
  cw_events :: "string list"
  cw_path_prefix :: string
  cw_is_active :: bool
  cw_insecure_tls :: bool

record UpdateWebhookInput =
  uw_name :: "string option"
  uw_url :: "string option"
  uw_events :: "string list option"
  uw_path_prefix :: "string option"
  uw_is_active :: "bool option"
  uw_insecure_tls :: "bool option"

end
