(* ===== verification/Web_Diff.thy ===== *)
theory Web_Diff
  imports Web_Models Diff_Rows
begin

text \<open>
  The diff view of the web client, \<open>web/src/components/repo/DiffView.tsx\<close>: building the rows of
  a file, anchoring review threads and drafts to them, the excerpt shown with a thread, and the
  table that is rendered in either mode. The main results relate its rows to those of the desktop
  client and say where threads and drafts appear.
\<close>

section \<open>Data\<close>

record DiffAnchor =
  an_filePath :: string
  an_oldLine :: "int option"
  an_newLine :: "int option"

datatype ViewMode = SplitMode | UnifiedMode

datatype side = LeftSide | RightSide

datatype Row =
    LineRow (row_l: "DiffLineResponse option") (row_r: "DiffLineResponse option")
  | HunkRow (row_hunk: DiffHunkResponse)

section \<open>Operations\<close>

definition ADD_BG :: string where
  "ADD_BG = ''var(--bgColor-success-muted)''"

definition REMOVE_BG :: string where
  "REMOVE_BG = ''var(--bgColor-danger-muted)''"

definition EMPTY_BG :: string where
  "EMPTY_BG = ''var(--bgColor-neutral-muted)''"

definition CONTEXT_BG :: string where
  "CONTEXT_BG = ''transparent''"

fun lineBackground :: "DiffLineResponse option \<Rightarrow> side \<Rightarrow> string" where
  "lineBackground None s = EMPTY_BG"
| "lineBackground (Some l) LeftSide = (if ln_kind l = RemoveLine then REMOVE_BG else CONTEXT_BG)"
| "lineBackground (Some l) RightSide = (if ln_kind l = AddLine then ADD_BG else CONTEXT_BG)"

fun sign :: "DiffLineKind option \<Rightarrow> string" where
  "sign (Some AddLine) = ''+''"
| "sign (Some RemoveLine) = ''-''"
| "sign _ = '' ''"

text \<open>
  \<open>ThreadCodeContext\<close>: the lines around a thread's anchor, each with whether it is the anchor;
  \<open>None\<close> where the component renders nothing.
\<close>

definition is_anchor :: "string option \<Rightarrow> int option \<Rightarrow> int option \<Rightarrow> DiffLineResponse \<Rightarrow> bool" where
  "is_anchor s oldLine newLine l \<longleftrightarrow>
     (if s = Some ''left'' \<and> oldLine \<noteq> None then ln_old_line l = oldLine
      else if newLine \<noteq> None then ln_new_line l = newLine
      else if oldLine \<noteq> None then ln_old_line l = oldLine
      else False)"

definition thread_code_context ::
  "DiffFileResponse list \<Rightarrow> string option \<Rightarrow> string option \<Rightarrow> int option \<Rightarrow> int option \<Rightarrow> nat \<Rightarrow>
     (DiffLineResponse \<times> bool) list option" where
  "thread_code_context files filePath s oldLine newLine radius =
     (case find (\<lambda>e. Some (df_path e) = filePath \<or> (truthy filePath \<and> df_old_path e = filePath)) files of
        None \<Rightarrow> None
      | Some f \<Rightarrow>
          if df_binary f then None
          else
            (let anchor = is_anchor s oldLine newLine
             in case find (\<lambda>h. list_ex anchor (hk_lines h)) (coalesce (df_hunks f) []) of
                  None \<Rightarrow> None
                | Some h \<Rightarrow>
                    (case js_findIndex anchor (hk_lines h) of
                       None \<Rightarrow> None
                     | Some index \<Rightarrow>
                         (let start = index - radius;
                              window = js_slice (hk_lines h) start
                                (min (length (hk_lines h)) (index + radius + 1))
                          in Some (map (\<lambda>(offset, l). (l, start + offset = index))
                               (enumerate 0 window))))))"

text \<open>
  The loop of \<open>buildRows\<close> over the lines of one hunk. Its index only moves forward, so the state
  is the rest of the lines; the inner loops collect a run of removed and of added lines.
\<close>

function build_lines :: "DiffLineResponse list \<Rightarrow> Row list" where
  "build_lines [] = []"
| "build_lines (l # ls) =
     (if ln_kind l = ContextLine then LineRow (Some l) (Some l) # build_lines ls
      else (let removes = takeWhile (\<lambda>x. ln_kind x = RemoveLine) (l # ls);
                rest = dropWhile (\<lambda>x. ln_kind x = RemoveLine) (l # ls);
                adds = takeWhile (\<lambda>x. ln_kind x = AddLine) rest
            in pair_runs LineRow removes adds @
               build_lines (dropWhile (\<lambda>x. ln_kind x = AddLine) rest)))"
  by pat_completeness auto
termination
proof (relation "measure length")
  fix l :: DiffLineResponse and ls removes rest adds
  assume k: "ln_kind l \<noteq> ContextLine"
    and rest: "rest = dropWhile (\<lambda>x. ln_kind x = RemoveLine) (l # ls)"
  have "length (dropWhile (\<lambda>x. ln_kind x = AddLine) rest) \<le> length ls"
  proof (cases "ln_kind l")
    case RemoveLine
    then show ?thesis
      using rest length_dropWhile_le [of "\<lambda>x. ln_kind x = AddLine" rest]
        length_dropWhile_le [of "\<lambda>x. ln_kind x = RemoveLine" ls] by simp
  next
    case AddLine
    then show ?thesis using rest by (simp add: length_dropWhile_le)
  qed (use k in simp)
  then show "(dropWhile (\<lambda>x. ln_kind x = AddLine) rest, l # ls) \<in> measure length"
    by simp
qed auto

definition buildRows :: "DiffHunkResponse list \<Rightarrow> Row list" where
  "buildRows hunks = concat (map (\<lambda>h. HunkRow h # build_lines (hk_lines h)) hunks)"

definition threadOnLeft :: "ThreadResponse \<Rightarrow> DiffLineResponse option \<Rightarrow> bool" where
  "threadOnLeft t line \<longleftrightarrow>
     (case line of None \<Rightarrow> False | Some l \<Rightarrow> th_side t = ''left'' \<and> th_old_line t = ln_old_line l)"

definition threadOnRight :: "ThreadResponse \<Rightarrow> DiffLineResponse option \<Rightarrow> bool" where
  "threadOnRight t line \<longleftrightarrow>
     (case line of None \<Rightarrow> False | Some l \<Rightarrow> th_side t \<noteq> ''left'' \<and> th_new_line t = ln_new_line l)"

definition threadMatchesFile :: "ThreadResponse \<Rightarrow> DiffFileResponse \<Rightarrow> bool" where
  "threadMatchesFile t f \<longleftrightarrow>
     th_file_path t = Some (df_path f) \<or> (truthy (df_old_path f) \<and> th_file_path t = df_old_path f)"

fun threadsOnRow :: "ThreadResponse list \<Rightarrow> DiffFileResponse \<Rightarrow> Row \<Rightarrow> ThreadResponse list" where
  "threadsOnRow ts f (LineRow l r) =
     filter (\<lambda>t. threadMatchesFile t f \<and> (threadOnLeft t l \<or> threadOnRight t r)) ts"
| "threadsOnRow ts f (HunkRow h) = []"

definition rowHasDraft ::
  "DiffAnchor option \<Rightarrow> DiffFileResponse \<Rightarrow> DiffLineResponse option \<Rightarrow> DiffLineResponse option \<Rightarrow> bool" where
  "rowHasDraft anchor f l r \<longleftrightarrow>
     (case anchor of
        None \<Rightarrow> False
      | Some a \<Rightarrow>
          if an_filePath a \<noteq> df_path f \<and>
             \<not> (truthy (df_old_path f) \<and> Some (an_filePath a) = df_old_path f) then False
          else if an_newLine a \<noteq> None then Option.bind r ln_new_line = an_newLine a
          else if an_oldLine a \<noteq> None then Option.bind l ln_old_line = an_oldLine a
          else False)"

definition anchorForLine :: "DiffFileResponse \<Rightarrow> DiffLineResponse \<Rightarrow> side \<Rightarrow> DiffAnchor" where
  "anchorForLine f l s =
     (if s = LeftSide \<and> ln_kind l = RemoveLine
      then \<lparr>an_filePath = df_path f, an_oldLine = ln_old_line l, an_newLine = None\<rparr>
      else \<lparr>an_filePath = df_path f, an_oldLine = None, an_newLine = ln_new_line l\<rparr>)"

text \<open>The rows a file shows: all of them, or only those with an open thread.\<close>

definition file_rows :: "DiffFileResponse \<Rightarrow> ThreadResponse list \<Rightarrow> bool \<Rightarrow> Row list" where
  "file_rows f ts onlyOpenThreads =
     (let rows = buildRows (coalesce (df_hunks f) [])
      in if onlyOpenThreads
         then filter (\<lambda>row. case row of
                 HunkRow _ \<Rightarrow> False
               | LineRow _ _ \<Rightarrow> list_ex (\<lambda>t. \<not> th_resolved t) (threadsOnRow ts f row)) rows
         else rows)"

definition open_count :: "DiffFileResponse \<Rightarrow> ThreadResponse list \<Rightarrow> nat" where
  "open_count f ts = length (filter (\<lambda>t. \<not> th_resolved t) (filter (\<lambda>t. threadMatchesFile t f) ts))"

section \<open>The rendered table\<close>

text \<open>
  What a table cell group shows: its line numbers, its background, its sign, the text, the
  missing-newline note, and the anchor its comment button starts a thread on.
\<close>

record Cell =
  cell_numbers :: "int option list"
  cell_background :: string
  cell_sign :: string
  cell_text :: "string option"
  cell_no_newline :: bool
  cell_comment :: "DiffAnchor option"

datatype Tr = HunkTr DiffHunkResponse | LineTr "Cell list" | ThreadTr "ThreadResponse list" "DiffAnchor option"

datatype FileView = BinaryView | CollapsedView | NoLinesView | TableView "Tr list"

definition line_sign :: "DiffLineResponse option \<Rightarrow> string" where
  "line_sign line = (case line of None \<Rightarrow> [] | Some l \<Rightarrow> sign (Some (ln_kind l)))"

definition LineCell :: "DiffLineResponse option \<Rightarrow> side \<Rightarrow> bool \<Rightarrow> (DiffLineResponse \<Rightarrow> DiffAnchor) \<Rightarrow> Cell" where
  "LineCell line s canComment onComment =
     \<lparr>cell_numbers = [Option.bind line (if s = LeftSide then ln_old_line else ln_new_line)],
      cell_background = lineBackground line s,
      cell_sign = line_sign line,
      cell_text = map_option ln_text line,
      cell_no_newline = (Option.bind line ln_no_newline = Some True),
      cell_comment = (if canComment then map_option onComment line else None)\<rparr>"

text \<open>The row of threads and of the draft under a line row; \<open>[]\<close> where there is none.\<close>

definition threadRows ::
  "ThreadResponse list \<Rightarrow> DiffFileResponse \<Rightarrow> DiffAnchor option \<Rightarrow>
     DiffLineResponse option \<Rightarrow> DiffLineResponse option \<Rightarrow> Tr list" where
  "threadRows ts f draftAnchor l r =
     (let anchored = threadsOnRow ts f (LineRow l r);
          draft = (if rowHasDraft draftAnchor f l r then draftAnchor else None)
      in if anchored = [] \<and> draft = None then [] else [ThreadTr anchored draft])"

fun splitRow ::
  "ThreadResponse list \<Rightarrow> DiffFileResponse \<Rightarrow> bool \<Rightarrow> DiffAnchor option \<Rightarrow> Row \<Rightarrow> Tr list" where
  "splitRow ts f canComment draftAnchor (HunkRow h) = [HunkTr h]"
| "splitRow ts f canComment draftAnchor (LineRow l r) =
     LineTr
       [LineCell l LeftSide (canComment \<and> map_option ln_kind l = Some RemoveLine)
          (\<lambda>line. anchorForLine f line LeftSide),
        LineCell r RightSide (canComment \<and> r \<noteq> None) (\<lambda>line. anchorForLine f line RightSide)]
     # threadRows ts f draftAnchor l r"

text \<open>The unified mode styles every cell as a left one.\<close>

definition unified_anchor :: "DiffFileResponse \<Rightarrow> DiffLineResponse \<Rightarrow> DiffAnchor" where
  "unified_anchor f l =
     (if ln_kind l = RemoveLine
      then \<lparr>an_filePath = df_path f, an_oldLine = ln_old_line l, an_newLine = None\<rparr>
      else \<lparr>an_filePath = df_path f, an_oldLine = None, an_newLine = ln_new_line l\<rparr>)"

definition unified_cell :: "DiffFileResponse \<Rightarrow> bool \<Rightarrow> DiffLineResponse option \<Rightarrow> Cell" where
  "unified_cell f canComment line =
     \<lparr>cell_numbers = [Option.bind line ln_old_line, Option.bind line ln_new_line],
      cell_background = lineBackground line LeftSide,
      cell_sign = line_sign line,
      cell_text = map_option ln_text line,
      cell_no_newline = (Option.bind line ln_no_newline = Some True),
      cell_comment = (if canComment then map_option (unified_anchor f) line else None)\<rparr>"

fun unifiedRow ::
  "ThreadResponse list \<Rightarrow> DiffFileResponse \<Rightarrow> bool \<Rightarrow> DiffAnchor option \<Rightarrow> Row \<Rightarrow> Tr list" where
  "unifiedRow ts f canComment draftAnchor (HunkRow h) = [HunkTr h]"
| "unifiedRow ts f canComment draftAnchor (LineRow l r) =
     (if l = r then [LineTr [unified_cell f canComment l]]
      else [LineTr [unified_cell f canComment l], LineTr [unified_cell f canComment r]])
     @ threadRows ts f draftAnchor l r"

definition DiffFile ::
  "DiffFileResponse \<Rightarrow> ThreadResponse list \<Rightarrow> ViewMode \<Rightarrow> bool \<Rightarrow> DiffAnchor option \<Rightarrow>
     bool \<Rightarrow> bool \<Rightarrow> FileView" where
  "DiffFile f ts mode canComment draftAnchor collapsed onlyOpenThreads =
     (if df_binary f then BinaryView
      else if collapsed then CollapsedView
      else (let rows = file_rows f ts onlyOpenThreads
            in if rows = [] then NoLinesView
               else TableView (concat (map (case mode of
                        SplitMode \<Rightarrow> splitRow ts f canComment draftAnchor
                      | UnifiedMode \<Rightarrow> unifiedRow ts f canComment draftAnchor) rows))))"

section \<open>Relation to the desktop client\<close>

text \<open>A web line as the desktop client receives it from its daemon.\<close>

fun kind_name :: "DiffLineKind \<Rightarrow> string" where
  "kind_name ContextLine = ''context''"
| "kind_name AddLine = ''added''"
| "kind_name RemoveLine = ''removed''"

definition desktop_line :: "DiffLineResponse \<Rightarrow> DiffLine" where
  "desktop_line l =
     \<lparr>dl_kind = kind_name (ln_kind l), dl_old = coalesce (ln_old_line l) 0,
      dl_new = coalesce (ln_new_line l) 0, dl_text = ln_text l, dl_noNewline = ln_no_newline l\<rparr>"

definition desktop_hunk :: "DiffHunkResponse \<Rightarrow> DiffHunk" where
  "desktop_hunk h =
     \<lparr>dh_oldStart = hk_old_start h, dh_oldLines = hk_old_lines h, dh_newStart = hk_new_start h,
      dh_newLines = hk_new_lines h, dh_lines = Some (map desktop_line (hk_lines h))\<rparr>"

fun desktop_row :: "Row \<Rightarrow> SplitRow" where
  "desktop_row (HunkRow h) = SHunk (hunkHeader (desktop_hunk h))"
| "desktop_row (LineRow l r) =
     SPair (map_option (left_cell \<circ> desktop_line) l) (map_option (right_cell \<circ> desktop_line) r)"

lemma kindOf_desktop [simp]:
  "kindOf (dl_kind (desktop_line l)) = Context \<longleftrightarrow> ln_kind l = ContextLine"
  "kindOf (dl_kind (desktop_line l)) = Added \<longleftrightarrow> ln_kind l = AddLine"
  "kindOf (dl_kind (desktop_line l)) = Removed \<longleftrightarrow> ln_kind l = RemoveLine"
  by (cases "ln_kind l"; simp add: desktop_line_def kindOf_def)+

lemma nth_opt_map: "nth_opt (map f xs) i = map_option f (nth_opt xs i)"
  by (simp add: nth_opt_def)

lemma desktop_pair_runs:
  "map desktop_row (pair_runs LineRow xs ys) =
     pair_runs SPair (map left_cell (map desktop_line xs)) (map right_cell (map desktop_line ys))"
  by (simp add: pair_runs_def nth_opt_map option.map_comp comp_def)

lemma desktop_runs:
  "takeWhile (\<lambda>x. kindOf (dl_kind x) = Removed) (desktop_line l # map desktop_line ls) =
     map desktop_line (takeWhile (\<lambda>x. ln_kind x = RemoveLine) (l # ls))"
  "dropWhile (\<lambda>x. kindOf (dl_kind x) = Removed) (desktop_line l # map desktop_line ls) =
     map desktop_line (dropWhile (\<lambda>x. ln_kind x = RemoveLine) (l # ls))"
  "takeWhile (\<lambda>x. kindOf (dl_kind x) = Added) (map desktop_line ks) =
     map desktop_line (takeWhile (\<lambda>x. ln_kind x = AddLine) ks)"
  "dropWhile (\<lambda>x. kindOf (dl_kind x) = Added) (map desktop_line ks) =
     map desktop_line (dropWhile (\<lambda>x. ln_kind x = AddLine) ks)"
  by (simp_all add: takeWhile_map dropWhile_map comp_def)

lemma build_lines_desktop:
  "map desktop_row (build_lines ls) = run_rows (map desktop_line ls)"
proof (induction ls rule: build_lines.induct)
  case (2 l ls)
  show ?case
  proof (cases "ln_kind l = ContextLine")
    case True
    with "2.IH"(1) show ?thesis by simp
  next
    case False
    then have "kindOf (dl_kind (desktop_line l)) \<noteq> Context" by simp
    with False "2.IH"(2) [OF False refl refl refl] show ?thesis
      by (simp only: build_lines.simps(2) run_rows.simps(2) list.map(2) Let_def if_False map_append
          desktop_pair_runs desktop_runs)
  qed
qed simp

section \<open>Where lines stand\<close>

text \<open>The lines on the left and on the right of the rows of a hunk.\<close>

lemma pair_runs_left: "x \<in> set xs \<Longrightarrow> \<exists>r. LineRow (Some x) r \<in> set (pair_runs LineRow xs ys)"
proof -
  assume "x \<in> set xs"
  then obtain i where i: "i < length xs" "xs ! i = x" by (auto simp: in_set_conv_nth)
  then have "LineRow (nth_opt xs i) (nth_opt ys i) \<in> set (pair_runs LineRow xs ys)"
    unfolding pair_runs_def set_map by (intro imageI) simp
  then show ?thesis using i by (auto simp: nth_opt_def)
qed

lemma pair_runs_right: "y \<in> set ys \<Longrightarrow> \<exists>l. LineRow l (Some y) \<in> set (pair_runs LineRow xs ys)"
proof -
  assume "y \<in> set ys"
  then obtain i where i: "i < length ys" "ys ! i = y" by (auto simp: in_set_conv_nth)
  then have "LineRow (nth_opt xs i) (nth_opt ys i) \<in> set (pair_runs LineRow xs ys)"
    unfolding pair_runs_def set_map by (intro imageI) simp
  then show ?thesis using i by (auto simp: nth_opt_def)
qed

text \<open>What is left of a list of lines once its leading runs are taken off.\<close>

lemma runs_split:
  "set ls = set (takeWhile p ls) \<union> set (takeWhile q (dropWhile p ls)) \<union>
     set (dropWhile q (dropWhile p ls))"
  by (metis set_append takeWhile_dropWhile_id Un_assoc)

lemma build_lines_left:
  "l \<in> set ls \<Longrightarrow> ln_kind l \<noteq> AddLine \<Longrightarrow> \<exists>r. LineRow (Some l) r \<in> set (build_lines ls)"
proof (induction ls rule: build_lines.induct)
  case (2 x xs)
  show ?case
  proof (cases "ln_kind x = ContextLine")
    case True
    with 2 show ?thesis by auto
  next
    case False
    define R where "R = takeWhile (\<lambda>x. ln_kind x = RemoveLine) (x # xs)"
    define rest where "rest = dropWhile (\<lambda>x. ln_kind x = RemoveLine) (x # xs)"
    define A where "A = takeWhile (\<lambda>x. ln_kind x = AddLine) rest"
    have rows: "build_lines (x # xs) =
        pair_runs LineRow R A @ build_lines (dropWhile (\<lambda>x. ln_kind x = AddLine) rest)"
      using False by (simp add: R_def rest_def A_def Let_def del: takeWhile.simps dropWhile.simps)
    have "l \<in> set R \<or> l \<in> set A \<or> l \<in> set (dropWhile (\<lambda>x. ln_kind x = AddLine) rest)"
      using "2.prems"(1) runs_split [of "x # xs"] unfolding R_def A_def rest_def by blast
    moreover have "l \<notin> set A" using "2.prems"(2) by (auto simp: A_def dest: set_takeWhileD)
    ultimately show ?thesis
      using "2.IH"(2) [OF False R_def rest_def A_def] "2.prems"(2) pair_runs_left [of l R A]
      by (auto simp: rows simp del: build_lines.simps)
  qed
qed simp

lemma build_lines_right:
  "l \<in> set ls \<Longrightarrow> ln_kind l \<noteq> RemoveLine \<Longrightarrow> \<exists>r. LineRow r (Some l) \<in> set (build_lines ls)"
proof (induction ls rule: build_lines.induct)
  case (2 x xs)
  show ?case
  proof (cases "ln_kind x = ContextLine")
    case True
    with 2 show ?thesis by auto
  next
    case False
    define R where "R = takeWhile (\<lambda>x. ln_kind x = RemoveLine) (x # xs)"
    define rest where "rest = dropWhile (\<lambda>x. ln_kind x = RemoveLine) (x # xs)"
    define A where "A = takeWhile (\<lambda>x. ln_kind x = AddLine) rest"
    have rows: "build_lines (x # xs) =
        pair_runs LineRow R A @ build_lines (dropWhile (\<lambda>x. ln_kind x = AddLine) rest)"
      using False by (simp add: R_def rest_def A_def Let_def del: takeWhile.simps dropWhile.simps)
    have "l \<in> set R \<or> l \<in> set A \<or> l \<in> set (dropWhile (\<lambda>x. ln_kind x = AddLine) rest)"
      using "2.prems"(1) runs_split [of "x # xs"] unfolding R_def A_def rest_def by blast
    moreover have "l \<notin> set R" using "2.prems"(2) by (auto simp: R_def dest: set_takeWhileD)
    ultimately show ?thesis
      using "2.IH"(2) [OF False R_def rest_def A_def] "2.prems"(2) pair_runs_right [of l A R]
      by (auto simp: rows simp del: build_lines.simps)
  qed
qed simp

lemma buildRows_mem: "h \<in> set hunks \<Longrightarrow> row \<in> set (build_lines (hk_lines h)) \<Longrightarrow> row \<in> set (buildRows hunks)"
  by (auto simp: buildRows_def)

text \<open>A row is a context line on both sides, or a removed line against an added one, one of them optional.\<close>

fun row_shape :: "Row \<Rightarrow> bool" where
  "row_shape (HunkRow h) \<longleftrightarrow> True"
| "row_shape (LineRow l r) \<longleftrightarrow>
     (\<exists>x. l = Some x \<and> r = Some x \<and> ln_kind x = ContextLine) \<or>
     (l \<noteq> r \<and> (\<forall>x. l = Some x \<longrightarrow> ln_kind x = RemoveLine) \<and> (\<forall>x. r = Some x \<longrightarrow> ln_kind x = AddLine))"

lemma pair_runs_shape:
  assumes "\<forall>x \<in> set xs. ln_kind x = RemoveLine" "\<forall>y \<in> set ys. ln_kind y = AddLine"
    and "row \<in> set (pair_runs LineRow xs ys)"
  shows "row_shape row"
proof -
  from assms(3) obtain i where i: "i < max (length xs) (length ys)"
      "row = LineRow (nth_opt xs i) (nth_opt ys i)"
    by (auto simp: pair_runs_def)
  then show ?thesis
    using assms(1,2) by (cases "i < length xs"; cases "i < length ys") (auto simp: nth_opt_def dest!: nth_mem)
qed

lemma build_lines_shape: "row \<in> set (build_lines ls) \<Longrightarrow> row_shape row"
proof (induction ls rule: build_lines.induct)
  case (2 x xs)
  show ?case
  proof (cases "ln_kind x = ContextLine")
    case True
    with 2 show ?thesis by auto
  next
    case False
    with "2.prems" "2.IH"(2) [OF False refl refl refl] show ?thesis
      by (auto simp: Let_def simp del: takeWhile.simps dropWhile.simps dest!: set_takeWhileD
          intro: pair_runs_shape [rotated 2])
  qed
qed simp

lemma buildRows_shape: "row \<in> set (buildRows hunks) \<Longrightarrow> row_shape row"
  using build_lines_shape by (auto simp: buildRows_def)

text \<open>Where a draft shows.\<close>

lemma draft_on_left:
  "an_filePath a = df_path f \<Longrightarrow> an_newLine a = None \<Longrightarrow> an_oldLine a = ln_old_line x \<Longrightarrow>
     an_oldLine a \<noteq> None \<Longrightarrow> rowHasDraft (Some a) f (Some x) r"
  by (simp add: rowHasDraft_def)

lemma draft_on_right:
  "an_filePath a = df_path f \<Longrightarrow> an_newLine a = ln_new_line x \<Longrightarrow> an_newLine a \<noteq> None \<Longrightarrow>
     rowHasDraft (Some a) f l (Some x)"
  by (simp add: rowHasDraft_def)

text \<open>The excerpt around an anchor found in a hunk.\<close>

lemma context_window:
  fixes radius :: nat
  assumes "js_findIndex p ls = Some i"
  defines "start \<equiv> i - radius"
  defines "w \<equiv> map (\<lambda>(k, l). (l, start + k = i))
      (enumerate 0 (js_slice ls start (min (length ls) (i + radius + 1))))"
  shows "length w \<le> 2 * radius + 1 \<and> filter snd w = [(ls ! i, True)] \<and> p (ls ! i)"
proof (intro conjI)
  from assms(1) have i: "i < length ls" "p (ls ! i)" by (auto simp: js_findIndex_Some)
  then show "p (ls ! i)" by simp
  let ?s = "js_slice ls start (min (length ls) (i + radius + 1))"
  have len: "length ?s = min (length ls) (i + radius + 1) - start" by (simp add: js_slice_def)
  then show "length w \<le> 2 * radius + 1" by (auto simp: w_def start_def)
  define k where "k = i - start"
  have "k < min (length ls) (i + radius + 1) - start"
    using i by (auto simp: k_def start_def min_def)
  then have k: "k < length ?s" "start + k = i" "start \<le> min (length ls) (i + radius + 1)"
    using i by (simp_all only: len) (auto simp: k_def start_def)
  have nth: "?s ! k = ls ! i" using k i by (simp add: js_slice_def)
  have one: "filter (\<lambda>j. j = k) [0..<n] = (if k < n then [k] else [])" for n
    by (induction n) auto
  have "enumerate 0 ?s = map (\<lambda>j. (j, ?s ! j)) [0..<length ?s]"
    by (rule nth_equalityI) (auto simp: nth_enumerate_eq)
  moreover have "start + j = i \<longleftrightarrow> j = k" for j using k(2) by auto
  ultimately have "w = map (\<lambda>j. (?s ! j, j = k)) [0..<length ?s]"
    unfolding w_def by (simp add: comp_def)
  then have "filter snd w = map (\<lambda>j. (?s ! j, j = k)) (filter (\<lambda>j. j = k) [0..<length ?s])"
    by (simp add: filter_map comp_def)
  then show "filter snd w = [(ls ! i, True)]" using k(1) nth by (simp add: one)
qed

section \<open>Properties\<close>

text \<open>
  Property C22. The web client and the desktop client lay a diff out in the same side-by-side rows:
  the rows \<open>buildRows\<close> makes, cell by cell, are those \<open>splitRows\<close> makes for the same hunks.
\<close>

theorem buildRows_matches_desktop:
  "map desktop_row (buildRows hunks) = splitRows (map desktop_hunk hunks)"
  by (induction hunks rule: rev_induct)
    (simp_all add: splitRows_def buildRows_def split_hunk_runs build_lines_desktop hunk_lines_def
      desktop_hunk_def)

text \<open>
  Property C32. No review thread of a shown file is lost: a thread on the old side of a context
  or removed line, or on the new side of a context or added line, appears on a row of the file,
  and an open one also when only rows with open threads are shown.
\<close>

theorem thread_is_shown:
  assumes "t \<in> set ts" and "threadMatchesFile t f" and "df_hunks f = Some hunks"
    and "h \<in> set hunks" and "l \<in> set (hk_lines h)"
    and "(th_side t = ''left'' \<and> ln_kind l \<noteq> AddLine \<and> th_old_line t = ln_old_line l) \<or>
         (th_side t \<noteq> ''left'' \<and> ln_kind l \<noteq> RemoveLine \<and> th_new_line t = ln_new_line l)"
  shows "\<exists>row. row \<in> set (file_rows f ts False) \<and> t \<in> set (threadsOnRow ts f row) \<and>
     (\<not> th_resolved t \<longrightarrow> row \<in> set (file_rows f ts True))"
proof -
  from assms(6) obtain a b where row: "LineRow a b \<in> set (build_lines (hk_lines h))"
      and on: "threadOnLeft t a \<or> threadOnRight t b"
    using build_lines_left [OF assms(5)] build_lines_right [OF assms(5)]
    by (fastforce simp: threadOnLeft_def threadOnRight_def)
  have "LineRow a b \<in> set (buildRows hunks)" by (rule buildRows_mem [OF assms(4) row])
  moreover have "t \<in> set (threadsOnRow ts f (LineRow a b))" using assms(1,2) on by simp
  ultimately show ?thesis
    using assms(3) by (intro exI [of _ "LineRow a b"]) (auto simp: file_rows_def Let_def list_ex_iff)
qed

definition sample_line :: DiffLineResponse where
  "sample_line = \<lparr>ln_kind = RemoveLine, ln_old_line = Some 7, ln_new_line = None, ln_text = ''x'',
     ln_no_newline = None\<rparr>"

definition sample_hunk :: DiffHunkResponse where
  "sample_hunk = \<lparr>hk_old_start = 7, hk_old_lines = 1, hk_new_start = 7, hk_new_lines = 0,
     hk_lines = [sample_line]\<rparr>"

definition sample_diff_file :: DiffFileResponse where
  "sample_diff_file = \<lparr>df_path = ''b'', df_old_path = Some ''a'', df_status = ''renamed'',
     df_binary = False, df_additions = 0, df_deletions = 1, df_patch = None,
     df_hunks = Some [sample_hunk]\<rparr>"

definition sample_actor :: ReviewActorResponse where
  "sample_actor = \<lparr>ra_user_id = ''u'', ra_name = ''User'', ra_photo_url = None\<rparr>"

definition sample_thread :: ThreadResponse where
  "sample_thread = \<lparr>th_id = ''t'', th_merge_request_id = 1, th_review_id = None,
     th_file_path = Some ''a'', th_old_line = Some 7, th_new_line = None, th_side = ''left'',
     th_outdated = False, th_resolved = False, th_resolved_by = None, th_resolved_at = None,
     th_created_by = sample_actor, th_created_at = ''1'', th_updated_at = ''1'', th_comments = []\<rparr>"

theorem thread_is_shown_witness:
  "\<exists>row. row \<in> set (file_rows sample_diff_file [sample_thread] False) \<and>
     sample_thread \<in> set (threadsOnRow [sample_thread] sample_diff_file row) \<and>
     (\<not> th_resolved sample_thread \<longrightarrow> row \<in> set (file_rows sample_diff_file [sample_thread] True))"
  by (rule thread_is_shown [where h = sample_hunk and l = sample_line and hunks = "[sample_hunk]"])
    (simp_all add: sample_thread_def sample_diff_file_def sample_hunk_def sample_line_def
      threadMatchesFile_def)

text \<open>
  A comment button opens its draft where it was clicked: in both modes the anchor
  of every button of a row, when the line has a number, makes the draft show on that very row.
\<close>

theorem comment_button_opens_draft_on_its_row:
  assumes "LineRow l r \<in> set (buildRows hunks)"
    and "LineTr cells \<in> set (splitRow ts f canComment d (LineRow l r)) \<union>
         set (unifiedRow ts f canComment d (LineRow l r))"
    and "c \<in> set cells" and "cell_comment c = Some a"
    and "an_oldLine a \<noteq> None \<or> an_newLine a \<noteq> None"
  shows "rowHasDraft (Some a) f l r"
proof -
  have shape: "row_shape (LineRow l r)" by (rule buildRows_shape [OF assms(1)])
  consider "c = LineCell l LeftSide (canComment \<and> map_option ln_kind l = Some RemoveLine)
        (\<lambda>line. anchorForLine f line LeftSide)"
    | "c = LineCell r RightSide (canComment \<and> r \<noteq> None) (\<lambda>line. anchorForLine f line RightSide)"
    | "c = unified_cell f canComment l" | "c = unified_cell f canComment r"
    using assms(2,3) by (auto simp: threadRows_def Let_def split: if_splits)
  then show ?thesis
  proof cases
    case 1
    with assms(4,5) show ?thesis
      by (auto simp: LineCell_def anchorForLine_def split: if_splits intro!: draft_on_left)
  next
    case 2
    with assms(4,5) show ?thesis
      by (auto simp: LineCell_def anchorForLine_def split: if_splits intro!: draft_on_right)
  next
    case 3
    with assms(4,5) shape show ?thesis
      by (auto simp: unified_cell_def unified_anchor_def split: if_splits
          intro!: draft_on_left draft_on_right)
  next
    case 4
    with assms(4,5) shape show ?thesis
      by (auto simp: unified_cell_def unified_anchor_def split: if_splits
          intro!: draft_on_left draft_on_right)
  qed
qed

theorem comment_button_opens_draft_on_its_row_witness:
  "rowHasDraft (Some \<lparr>an_filePath = ''b'', an_oldLine = Some 7, an_newLine = None\<rparr>)
     sample_diff_file (Some sample_line) None"
proof (rule comment_button_opens_draft_on_its_row)
  show "LineRow (Some sample_line) None \<in> set (buildRows [sample_hunk])"
    by (simp add: buildRows_def sample_hunk_def sample_line_def pair_runs_def nth_opt_def)
  show "LineTr [unified_cell sample_diff_file True (Some sample_line)] \<in>
      set (splitRow [] sample_diff_file True None (LineRow (Some sample_line) None)) \<union>
      set (unifiedRow [] sample_diff_file True None (LineRow (Some sample_line) None))"
    by simp
qed (auto simp: unified_cell_def unified_anchor_def sample_line_def sample_diff_file_def)

text \<open>
  The excerpt shown with an inline thread has at most \<open>2 * radius + 1\<close> lines and
  marks exactly one of them, a line the thread is anchored to.
\<close>

theorem thread_excerpt_marks_anchor:
  assumes "thread_code_context files path s oldLine newLine radius = Some w"
  shows "length w \<le> 2 * radius + 1 \<and>
     (\<exists>l. filter snd w = [(l, True)] \<and> is_anchor s oldLine newLine l)"
  using assms context_window [where p = "is_anchor s oldLine newLine" and radius = radius]
  by (fastforce simp: thread_code_context_def Let_def split: option.splits if_splits)

theorem thread_excerpt_marks_anchor_witness:
  "length [(sample_line, True)] \<le> 2 * 3 + 1 \<and>
   (\<exists>l. filter snd [(sample_line, True)] = [(l, True)] \<and> is_anchor (Some ''left'') (Some 7) None l)"
proof (rule thread_excerpt_marks_anchor)
  show "thread_code_context [sample_diff_file] (Some ''a'') (Some ''left'') (Some 7) None 3 =
      Some [(sample_line, True)]"
    by (simp add: thread_code_context_def sample_diff_file_def sample_hunk_def sample_line_def
        is_anchor_def js_slice_def)
qed

text \<open>
  The unified mode does not tell added lines from context lines by colour: it paints
  every line as a left cell, so an added line keeps the transparent background there that the
  split mode replaces with the added colour; and it renders an empty table row for every line of
  a run that has no counterpart on the other side.
\<close>

theorem unified_mode_added_lines:
  assumes "ln_kind l = AddLine"
  shows "cell_background (unified_cell f c (Some l)) = CONTEXT_BG \<and>
     cell_background (LineCell (Some l) RightSide c' g) = ADD_BG \<and>
     set [LineTr [unified_cell f c None], LineTr [unified_cell f c (Some l)]]
       \<subseteq> set (unifiedRow ts f c d (LineRow None (Some l)))"
  using assms by (simp add: unified_cell_def LineCell_def)

theorem unified_mode_added_lines_witness:
  "cell_background (unified_cell sample_diff_file True (Some (sample_line\<lparr>ln_kind := AddLine\<rparr>))) = CONTEXT_BG"
  using unified_mode_added_lines [of "sample_line\<lparr>ln_kind := AddLine\<rparr>" sample_diff_file True] by simp

end
