(* ===== verification/Json.thy ===== *)
theory Json
  imports Js_Prelude
begin

text \<open>
  JSON values, as \<open>JSON.parse\<close> returns them and \<open>JSON.stringify\<close> takes them, and the JavaScript
  operations the client applies to a value it did not check: reading a property, truthiness,
  string conversion. \<open>undefined\<close> is \<open>None\<close>; a number is an integer, since the client exchanges no
  other.
\<close>

datatype json =
    JNull
  | JBool bool
  | JNum int
  | JString string
  | JArray "json list"
  | JObject "(string \<times> json) list"

type_synonym jsval = "json option"

definition js_truthy :: "jsval \<Rightarrow> bool" where
  "js_truthy v = (case v of
     None \<Rightarrow> False
   | Some JNull \<Rightarrow> False
   | Some (JBool b) \<Rightarrow> b
   | Some (JNum n) \<Rightarrow> n \<noteq> 0
   | Some (JString s) \<Rightarrow> s \<noteq> []
   | Some _ \<Rightarrow> True)"

text \<open>
  \<open>v.name\<close>: reading a property of \<open>undefined\<close> or \<open>null\<close> throws (\<open>Inl ()\<close>); a key that is absent
  reads as \<open>undefined\<close>. The last of two equal keys of an object counts.
\<close>

definition js_prop :: "jsval \<Rightarrow> string \<Rightarrow> unit + jsval" where
  "js_prop v name = (case v of
     None \<Rightarrow> Inl ()
   | Some JNull \<Rightarrow> Inl ()
   | Some (JObject fs) \<Rightarrow> Inr (map_of (rev fs) name)
   | Some _ \<Rightarrow> Inr None)"

text \<open>\<open>String(v)\<close>, which a template literal applies.\<close>

fun js_to_string :: "json \<Rightarrow> string" where
  "js_to_string JNull = ''null''"
| "js_to_string (JBool b) = (if b then ''true'' else ''false'')"
| "js_to_string (JNum n) = js_show_int n"
| "js_to_string (JString s) = s"
| "js_to_string (JArray vs) =
     js_join '','' (map (\<lambda>v. if v = JNull then [] else js_to_string v) vs)"
| "js_to_string (JObject fs) = ''[object Object]''"

definition js_string_of :: "jsval \<Rightarrow> string" where
  "js_string_of v = (case v of None \<Rightarrow> ''undefined'' | Some j \<Rightarrow> js_to_string j)"

section \<open>JSON.stringify\<close>

definition js_quote_char :: char where
  "js_quote_char = CHR 0x22"

definition js_backslash :: char where
  "js_backslash = CHR 0x5C"

definition hex_lower :: "nat \<Rightarrow> char" where
  "hex_lower n = ''0123456789abcdef'' ! n"

text \<open>The escapes of \<open>QuoteJSONString\<close>: quote, backslash and the control characters.\<close>

definition json_escape_char :: "char \<Rightarrow> string" where
  "json_escape_char c = (let n = of_char c :: nat in
     if c = js_quote_char then [js_backslash, js_quote_char]
     else if c = js_backslash then [js_backslash, js_backslash]
     else if n = 8 then [js_backslash, CHR ''b'']
     else if n = 9 then [js_backslash, CHR ''t'']
     else if n = 10 then [js_backslash, CHR ''n'']
     else if n = 12 then [js_backslash, CHR ''f'']
     else if n = 13 then [js_backslash, CHR ''r'']
     else if n < 32 then [js_backslash] @ ''u00'' @ [hex_lower (n div 16), hex_lower (n mod 16)]
     else [c])"

definition json_quote :: "string \<Rightarrow> string" where
  "json_quote s = [js_quote_char] @ concat (map json_escape_char s) @ [js_quote_char]"

fun json_stringify :: "json \<Rightarrow> string" where
  "json_stringify JNull = ''null''"
| "json_stringify (JBool b) = (if b then ''true'' else ''false'')"
| "json_stringify (JNum n) = js_show_int n"
| "json_stringify (JString s) = json_quote s"
| "json_stringify (JArray vs) = ''['' @ js_join '','' (map json_stringify vs) @ '']''"
| "json_stringify (JObject fs) =
     ''{'' @ js_join '','' (map (\<lambda>(k, v). json_quote k @ '':'' @ json_stringify v) fs) @ ''}''"

lemmas json_defs [js_defs] =
  js_truthy_def js_prop_def js_string_of_def js_quote_char_def js_backslash_def hex_lower_def
  json_escape_char_def json_quote_def

section \<open>Laws\<close>

lemma js_truthy_simps [simp]:
  "\<not> js_truthy None" "\<not> js_truthy (Some JNull)" "js_truthy (Some (JBool b)) = b"
  "js_truthy (Some (JString s)) \<longleftrightarrow> s \<noteq> []" "js_truthy (Some (JNum n)) \<longleftrightarrow> n \<noteq> 0"
  "js_truthy (Some (JArray vs))" "js_truthy (Some (JObject fs))"
  by (simp_all add: js_truthy_def)

lemma js_prop_object [simp]: "js_prop (Some (JObject fs)) name = Inr (map_of (rev fs) name)"
  by (simp add: js_prop_def)

lemma js_prop_nullish [simp]: "js_prop None name = Inl ()" "js_prop (Some JNull) name = Inl ()"
  by (simp_all add: js_prop_def)

text \<open>The escapes are a prefix code: a quoted string determines the string.\<close>

lemma json_quote_not_Nil [simp]: "json_quote s \<noteq> []"
  by (simp add: json_quote_def)

end
