(* ===== verification/Web_Session.thy ===== *)
theory Web_Session
  imports Json Web_Models
begin

text \<open>
  The session of the web client, \<open>web/src/api/client.ts\<close>, and the authentication state built on
  it, \<open>web/src/auth.tsx\<close>.

  The functions of \<open>client.ts\<close> are asynchronous and run interleaved over module variables. Each
  call is a task with the point at which it awaits; a handler below is the code that runs, without
  interruption, from one \<open>await\<close> to the next: the call itself, the arrival of a response, the
  failure of a fetch, the end of a timer, the settling of the shared refresh promise. The relation
  \<open>session_step\<close> interleaves the handlers in every order, and the invariants are proved over it.
\<close>

section \<open>Requests and responses\<close>

datatype SessionEvent = SLogin | SLogout

record ApiRequestInit =
  ai_method :: string
  ai_body :: "string option"
  ai_headers :: "(string, string) js_map"
  ai_retry :: bool

text \<open>
  A response: its status, the text of its body and the outcome of \<open>JSON.parse\<close> on that text,
  \<open>None\<close> when it throws.
\<close>

record Response =
  res_status :: nat
  res_text :: string
  res_json :: "json option"

definition res_ok :: "Response \<Rightarrow> bool" where
  "res_ok r \<longleftrightarrow> 200 \<le> res_status r \<and> res_status r \<le> 299"

datatype session_error =
    ApiError string nat
  | NetworkError
  | SyntaxError
  | TypeError

datatype outcome =
    VResponse Response
  | VJson jsval
  | VBool bool
  | VUnit

definition REFRESH_ATTEMPTS :: nat where
  "REFRESH_ATTEMPTS = 3"

definition REFRESH_RETRY_DELAY_MS :: nat where
  "REFRESH_RETRY_DELAY_MS = 150"

text \<open>\<open>parsed.error ?? parsed.message\<close>, then the raw body.\<close>

definition errorFromResponse :: "Response \<Rightarrow> session_error" where
  "errorFromResponse r =
     (let raw = ApiError (''API '' @ js_show_nat (res_status r) @ '': '' @ res_text r) (res_status r);
          nullish = (\<lambda>v. v = None \<or> v = Some JNull)
      in case js_prop (res_json r) ''error'' of
           Inl _ \<Rightarrow> raw
         | Inr e \<Rightarrow>
             (let m = (if nullish e then (case js_prop (res_json r) ''message'' of
                                            Inl _ \<Rightarrow> None | Inr m \<Rightarrow> m) else e)
              in if js_truthy m then ApiError (js_string_of m) (res_status r) else raw))"

definition requestJson_result :: "Response \<Rightarrow> session_error + json" where
  "requestJson_result r =
     (if \<not> res_ok r then Inl (errorFromResponse r)
      else case res_json r of None \<Rightarrow> Inl SyntaxError | Some j \<Rightarrow> Inr j)"

definition apiJson_result :: "Response \<Rightarrow> session_error + jsval" where
  "apiJson_result r =
     (if \<not> res_ok r then Inl (errorFromResponse r)
      else if res_status r = 204 then Inr None
      else case res_json r of None \<Rightarrow> Inl SyntaxError | Some j \<Rightarrow> Inr (Some j))"

section \<open>The state of the module\<close>

text \<open>The exported operation a task runs; \<open>KRefresh\<close> is the request of \<open>refreshOnce\<close>.\<close>

datatype task_kind = KFetch | KApiJson | KEstablish | KLogout | KRefresh | KBootstrap

text \<open>
  Where a task awaits. \<open>Awaiting\<close>, \<open>Sleeping\<close> and \<open>Woken\<close> are inside \<open>refresh()\<close>, with the
  response that made \<open>apiFetch\<close> call it (none for \<open>bootstrap\<close>) and the number of the attempt;
  \<open>Resent\<close> awaits the fetch of the recursive call with \<open>retry: true\<close>.
\<close>

datatype pc =
    Sent
  | Awaiting "Response option" nat nat
  | Woken "Response option" nat "session_error + json"
  | Sleeping "Response option" nat
  | Resent "Response option"
  | Settled "session_error + outcome"

record task =
  tk_kind :: task_kind
  tk_path :: string
  tk_init :: ApiRequestInit
  tk_pc :: pc

record fetched =
  fe_task :: nat
  fe_path :: string
  fe_method :: string
  fe_headers :: "(string, string) js_map"
  fe_body :: "string option"
  fe_retry :: bool

record Client =
  accessToken :: jsval
  refreshInFlight :: "nat option"
  sessionListeners :: "nat list"
  c_channel :: bool
  c_tasks :: "task list"
  c_fetched :: "fetched list"
  c_calls :: "(nat \<times> SessionEvent) list"
  c_posted :: "SessionEvent list"

definition initial_client :: "bool \<Rightarrow> Client" where
  "initial_client ch =
     \<lparr>accessToken = Some JNull, refreshInFlight = None, sessionListeners = [], c_channel = ch,
      c_tasks = [], c_fetched = [], c_calls = [], c_posted = []\<rparr>"

definition client_pc :: "Client \<Rightarrow> nat \<Rightarrow> pc" where
  "client_pc c i = tk_pc (c_tasks c ! i)"

definition client_kind :: "Client \<Rightarrow> nat \<Rightarrow> task_kind" where
  "client_kind c i = tk_kind (c_tasks c ! i)"

definition set_pc :: "nat \<Rightarrow> pc \<Rightarrow> Client \<Rightarrow> Client" where
  "set_pc i p c = c\<lparr>c_tasks := (c_tasks c)[i := (c_tasks c ! i)\<lparr>tk_pc := p\<rparr>]\<rparr>"

section \<open>The synchronous operations\<close>

definition notify :: "SessionEvent \<Rightarrow> Client \<Rightarrow> Client" where
  "notify ev c = c\<lparr>c_calls := c_calls c @ map (\<lambda>l. (l, ev)) (sessionListeners c)\<rparr>"

definition broadcast :: "SessionEvent \<Rightarrow> Client \<Rightarrow> Client" where
  "broadcast ev c = (if c_channel c then c\<lparr>c_posted := c_posted c @ [ev]\<rparr> else c)"

definition clearSession :: "Client \<Rightarrow> Client" where
  "clearSession c = c\<lparr>accessToken := Some JNull\<rparr>"

definition handleSessionLost :: "Client \<Rightarrow> Client" where
  "handleSessionLost c = notify SLogout (clearSession c)"

definition on_message :: "SessionEvent \<Rightarrow> Client \<Rightarrow> Client" where
  "on_message ev c = notify ev (if ev = SLogout then clearSession c else c)"

definition subscribeSession :: "nat \<Rightarrow> Client \<Rightarrow> Client" where
  "subscribeSession l c =
     c\<lparr>sessionListeners := (if l \<in> set (sessionListeners c) then sessionListeners c
                            else sessionListeners c @ [l])\<rparr>"

definition unsubscribe :: "nat \<Rightarrow> Client \<Rightarrow> Client" where
  "unsubscribe l c = c\<lparr>sessionListeners := filter (\<lambda>x. x \<noteq> l) (sessionListeners c)\<rparr>"

definition getAccessToken :: "Client \<Rightarrow> jsval" where
  "getAccessToken c = accessToken c"

definition isAuthenticated :: "Client \<Rightarrow> bool" where
  "isAuthenticated c \<longleftrightarrow> accessToken c \<noteq> Some JNull"

definition setSession :: "json \<Rightarrow> Client \<Rightarrow> session_error + Client" where
  "setSession tokens c = (case js_prop (Some tokens) ''access_token'' of
     Inl _ \<Rightarrow> Inl TypeError
   | Inr t \<Rightarrow> Inr (c\<lparr>accessToken := t\<rparr>))"

section \<open>The asynchronous operations\<close>

text \<open>The headers \<open>apiFetch\<close> sends; \<open>Headers\<close> compares names without case.\<close>

definition fetch_headers :: "jsval \<Rightarrow> ApiRequestInit \<Rightarrow> (string, string) js_map" where
  "fetch_headers token init =
     (let hs = ai_headers init;
          hs = (if js_truthy token
                then js_map_set hs ''authorization'' (''Bearer '' @ js_string_of token) else hs)
      in if truthy (ai_body init) \<and> \<not> js_map_has hs ''content-type''
         then js_map_set hs ''content-type'' ''application/json'' else hs)"

definition do_fetch :: "nat \<Rightarrow> string \<Rightarrow> ApiRequestInit \<Rightarrow> Client \<Rightarrow> Client" where
  "do_fetch i path init c =
     c\<lparr>c_fetched := c_fetched c @
        [\<lparr>fe_task = i, fe_path = path, fe_method = ai_method init,
          fe_headers = fetch_headers (accessToken c) init, fe_body = ai_body init,
          fe_retry = ai_retry init\<rparr>]\<rparr>"

text \<open>\<open>apiFetch(path, init)\<close> up to its first \<open>await\<close>, in a new task.\<close>

definition apiFetch_start :: "task_kind \<Rightarrow> string \<Rightarrow> ApiRequestInit \<Rightarrow> Client \<Rightarrow> Client" where
  "apiFetch_start k path init c =
     do_fetch (length (c_tasks c)) path init
       (c\<lparr>c_tasks := c_tasks c @ [\<lparr>tk_kind = k, tk_path = path, tk_init = init, tk_pc = Sent\<rparr>]\<rparr>)"

definition refresh_init :: ApiRequestInit where
  "refresh_init = \<lparr>ai_method = ''POST'', ai_body = None, ai_headers = [], ai_retry = False\<rparr>"

text \<open>\<open>refreshOnce()\<close>: the promise of the refresh in flight, or of a new one.\<close>

definition refreshOnce :: "Client \<Rightarrow> nat \<times> Client" where
  "refreshOnce c = (case refreshInFlight c of
     Some p \<Rightarrow> (p, c)
   | None \<Rightarrow> (length (c_tasks c),
       (apiFetch_start KRefresh ''/api/v1/auth/refresh'' refresh_init c)
         \<lparr>refreshInFlight := Some (length (c_tasks c))\<rparr>))"

definition refresh_attempt :: "nat \<Rightarrow> Response option \<Rightarrow> nat \<Rightarrow> Client \<Rightarrow> Client" where
  "refresh_attempt i res n c = (case refreshOnce c of (p, c') \<Rightarrow> set_pc i (Awaiting res n p) c')"

text \<open>The settling of the refresh promise \<open>p\<close>: every task that awaits it is resumed later.\<close>

definition wake_task :: "nat \<Rightarrow> session_error + json \<Rightarrow> task \<Rightarrow> task" where
  "wake_task p r t = (case tk_pc t of
     Awaiting res n q \<Rightarrow> if q = p then t\<lparr>tk_pc := Woken res n r\<rparr> else t
   | _ \<Rightarrow> t)"

definition wake_all :: "nat \<Rightarrow> session_error + json \<Rightarrow> Client \<Rightarrow> Client" where
  "wake_all p r c = c\<lparr>c_tasks := map (wake_task p r) (c_tasks c)\<rparr>"

definition settle_refresh :: "nat \<Rightarrow> session_error + json \<Rightarrow> Client \<Rightarrow> Client" where
  "settle_refresh i r c =
     (let (r', c') = (case r of
            Inl e \<Rightarrow> (Inl e, c)
          | Inr tokens \<Rightarrow> (case setSession tokens c of
                Inl e \<Rightarrow> (Inl e, c) | Inr c' \<Rightarrow> (Inr tokens, c')))
      in wake_all i r'
           (set_pc i (Settled (map_sum id (\<lambda>j. VJson (Some j)) r')) (c'\<lparr>refreshInFlight := None\<rparr>)))"

definition settle_establish :: "nat \<Rightarrow> session_error + json \<Rightarrow> Client \<Rightarrow> Client" where
  "settle_establish i r c = (case r of
     Inl e \<Rightarrow> set_pc i (Settled (Inl e)) c
   | Inr tokens \<Rightarrow> (case setSession tokens c of
         Inl e \<Rightarrow> set_pc i (Settled (Inl e)) c
       | Inr c' \<Rightarrow> set_pc i (Settled (Inr (VJson (Some tokens)))) (broadcast SLogin c')))"

text \<open>What the caller of \<open>apiFetch\<close> does with its outcome.\<close>

definition finish :: "nat \<Rightarrow> session_error + Response \<Rightarrow> Client \<Rightarrow> Client" where
  "finish i r c = (case client_kind c i of
     KFetch \<Rightarrow> set_pc i (Settled (map_sum id VResponse r)) c
   | KApiJson \<Rightarrow>
       set_pc i (Settled (case r of Inl e \<Rightarrow> Inl e | Inr x \<Rightarrow> map_sum id VJson (apiJson_result x))) c
   | KEstablish \<Rightarrow>
       settle_establish i (case r of Inl e \<Rightarrow> Inl e | Inr x \<Rightarrow> requestJson_result x) c
   | KLogout \<Rightarrow>
       set_pc i (Settled (map_sum id (\<lambda>_. VUnit) r)) (broadcast SLogout (clearSession c))
   | KRefresh \<Rightarrow>
       settle_refresh i (case r of Inl e \<Rightarrow> Inl e | Inr x \<Rightarrow> requestJson_result x) c
   | KBootstrap \<Rightarrow> c)"

definition apiFetch_on_response :: "nat \<Rightarrow> Response \<Rightarrow> Client \<Rightarrow> Client" where
  "apiFetch_on_response i res c = (case client_pc c i of
     Sent \<Rightarrow>
       if res_status res = 401 \<and> js_truthy (accessToken c) \<and> \<not> ai_retry (tk_init (c_tasks c ! i))
       then refresh_attempt i (Some res) 0 c
       else finish i (Inr res) c
   | Resent _ \<Rightarrow> finish i (Inr res) c
   | _ \<Rightarrow> c)"

text \<open>The \<open>catch\<close> of \<open>apiFetch\<close> (it returns the first response) and that of \<open>bootstrap\<close>.\<close>

definition session_lost_in :: "nat \<Rightarrow> Response option \<Rightarrow> Client \<Rightarrow> Client" where
  "session_lost_in i res c = (case res of
     Some r \<Rightarrow> finish i (Inr r) (handleSessionLost c)
   | None \<Rightarrow> set_pc i (Settled (Inr (VBool False))) (handleSessionLost c))"

definition apiFetch_on_failure :: "nat \<Rightarrow> Client \<Rightarrow> Client" where
  "apiFetch_on_failure i c = (case client_pc c i of
     Sent \<Rightarrow> finish i (Inl NetworkError) c
   | Resent res \<Rightarrow> session_lost_in i res c
   | _ \<Rightarrow> c)"

text \<open>After \<open>await refresh()\<close>: \<open>apiFetch\<close> calls itself again, \<open>bootstrap\<close> answers.\<close>

definition refreshed_in :: "nat \<Rightarrow> Response option \<Rightarrow> Client \<Rightarrow> Client" where
  "refreshed_in i res c = (case res of
     Some r \<Rightarrow> do_fetch i (tk_path (c_tasks c ! i)) ((tk_init (c_tasks c ! i))\<lparr>ai_retry := True\<rparr>)
                (set_pc i (Resent res) c)
   | None \<Rightarrow> set_pc i (Settled (Inr (VBool True))) c)"

text \<open>One turn of the loop of \<open>refresh()\<close> after the shared promise has settled.\<close>

definition refresh_resume :: "nat \<Rightarrow> Client \<Rightarrow> Client" where
  "refresh_resume i c = (case client_pc c i of
     Woken res n r \<Rightarrow> (case r of
         Inr tokens \<Rightarrow> refreshed_in i res c
       | Inl e \<Rightarrow> if Suc n < REFRESH_ATTEMPTS then set_pc i (Sleeping res (Suc n)) c
                  else session_lost_in i res c)
   | _ \<Rightarrow> c)"

definition refresh_timer :: "nat \<Rightarrow> Client \<Rightarrow> Client" where
  "refresh_timer i c = (case client_pc c i of
     Sleeping res n \<Rightarrow> refresh_attempt i res n c
   | _ \<Rightarrow> c)"

definition bootstrap_start :: "Client \<Rightarrow> Client" where
  "bootstrap_start c =
     refresh_attempt (length (c_tasks c)) None 0
       (c\<lparr>c_tasks := c_tasks c @
           [\<lparr>tk_kind = KBootstrap, tk_path = [], tk_init = refresh_init, tk_pc = Sleeping None 0\<rparr>]\<rparr>)"

definition post_init :: "json \<Rightarrow> ApiRequestInit" where
  "post_init body =
     \<lparr>ai_method = ''POST'', ai_body = Some (json_stringify body), ai_headers = [], ai_retry = False\<rparr>"

definition establishSession_start :: "string \<Rightarrow> json \<Rightarrow> Client \<Rightarrow> Client" where
  "establishSession_start path body c = apiFetch_start KEstablish path (post_init body) c"

definition login_body :: "LoginRequest \<Rightarrow> json" where
  "login_body req = JObject [(''email'', JString (lr_email req)), (''password'', JString (lr_password req))]"

definition login_start :: "LoginRequest \<Rightarrow> Client \<Rightarrow> Client" where
  "login_start req c = apiFetch_start KEstablish ''/api/v1/auth/login'' (post_init (login_body req)) c"

definition logout_start :: "Client \<Rightarrow> Client" where
  "logout_start c =
     apiFetch_start KLogout ''/api/v1/auth/logout''
       \<lparr>ai_method = ''POST'', ai_body = None, ai_headers = [], ai_retry = False\<rparr> c"

lemmas session_defs [js_defs] =
  res_ok_def REFRESH_ATTEMPTS_def errorFromResponse_def requestJson_result_def apiJson_result_def
  initial_client_def client_pc_def client_kind_def set_pc_def notify_def broadcast_def
  clearSession_def handleSessionLost_def on_message_def subscribeSession_def unsubscribe_def
  isAuthenticated_def getAccessToken_def setSession_def fetch_headers_def do_fetch_def
  apiFetch_start_def refresh_init_def refreshOnce_def refresh_attempt_def wake_task_def
  wake_all_def settle_refresh_def settle_establish_def finish_def apiFetch_on_response_def
  session_lost_in_def apiFetch_on_failure_def refreshed_in_def refresh_resume_def
  refresh_timer_def bootstrap_start_def post_init_def establishSession_start_def login_body_def
  login_start_def logout_start_def

section \<open>Interleaving\<close>

inductive session_step :: "Client \<Rightarrow> Client \<Rightarrow> bool" where
  st_fetch: "session_step c (apiFetch_start KFetch path init c)"
| st_json: "session_step c (apiFetch_start KApiJson path init c)"
| st_establish: "session_step c (establishSession_start path body c)"
| st_login: "session_step c (login_start req c)"
| st_logout: "session_step c (logout_start c)"
| st_bootstrap: "session_step c (bootstrap_start c)"
| st_response: "i < length (c_tasks c) \<Longrightarrow> session_step c (apiFetch_on_response i res c)"
| st_failure: "i < length (c_tasks c) \<Longrightarrow> session_step c (apiFetch_on_failure i c)"
| st_resume: "i < length (c_tasks c) \<Longrightarrow> session_step c (refresh_resume i c)"
| st_timer: "i < length (c_tasks c) \<Longrightarrow> session_step c (refresh_timer i c)"
| st_message: "session_step c (on_message ev c)"
| st_subscribe: "session_step c (subscribeSession l c)"
| st_unsubscribe: "session_step c (unsubscribe l c)"

inductive session_reachable :: "Client \<Rightarrow> bool" where
  sr_init: "session_reachable (initial_client ch)"
| sr_step: "session_reachable c \<Longrightarrow> session_step c c' \<Longrightarrow> session_reachable c'"

section \<open>The authentication state of the user interface\<close>

datatype Status = StLoading | StAuthenticated | StAnonymous

text \<open>
  The state of \<open>AuthProvider\<close>: the status, the signed-in user, whether the first effect is still
  active, and the keys of the cache of organization members that the anonymous status empties.
\<close>

record 'u Auth =
  au_status :: Status
  au_me :: "'u option"
  au_active :: bool
  au_cache :: "string list"

definition auth_init :: "string list \<Rightarrow> 'u Auth" where
  "auth_init cache = \<lparr>au_status = StLoading, au_me = None, au_active = True, au_cache = cache\<rparr>"

definition clearOrgMembersCache :: "'u Auth \<Rightarrow> 'u Auth" where
  "clearOrgMembersCache a = a\<lparr>au_cache := []\<rparr>"

text \<open>\<open>setStatus\<close> with the effect that depends on the status.\<close>

definition setStatus :: "Status \<Rightarrow> 'u Auth \<Rightarrow> 'u Auth" where
  "setStatus s a = (let a' = a\<lparr>au_status := s\<rparr>
     in if s \<noteq> au_status a \<and> s = StAnonymous then clearOrgMembersCache a' else a')"

definition setMe :: "'u option \<Rightarrow> 'u Auth \<Rightarrow> 'u Auth" where
  "setMe m a = a\<lparr>au_me := m\<rparr>"

text \<open>
  The first effect: after \<open>bootstrap()\<close>, whether \<open>getMe()\<close> is called next; then what its outcome
  does, \<open>None\<close> when it throws.
\<close>

definition auth_bootstrapped :: "bool \<Rightarrow> 'u Auth \<Rightarrow> 'u Auth \<times> bool" where
  "auth_bootstrapped ok a =
     (if \<not> au_active a then (a, False)
      else if \<not> ok then (setStatus StAnonymous a, False)
      else (a, True))"

definition auth_first_me :: "'u option \<Rightarrow> 'u Auth \<Rightarrow> Client \<Rightarrow> 'u Auth \<times> Client" where
  "auth_first_me m a c = (case m of
     None \<Rightarrow> (setStatus StAnonymous a, clearSession c)
   | Some u \<Rightarrow> (setStatus StAuthenticated (setMe (Some u) a), c))"

definition auth_unmount :: "'u Auth \<Rightarrow> 'u Auth" where
  "auth_unmount a = a\<lparr>au_active := False\<rparr>"

text \<open>The session listener; the flag says that it calls \<open>bootstrap()\<close>.\<close>

definition auth_on_event :: "SessionEvent \<Rightarrow> 'u Auth \<Rightarrow> 'u Auth \<times> bool" where
  "auth_on_event ev a =
     (if ev = SLogout then (setStatus StAnonymous (setMe None a), False) else (a, True))"

definition auth_rebootstrapped :: "bool \<Rightarrow> 'u Auth \<Rightarrow> 'u Auth \<times> bool" where
  "auth_rebootstrapped ok a = (if \<not> ok then (setStatus StAnonymous a, False) else (a, True))"

definition auth_later_me :: "'u option \<Rightarrow> 'u Auth \<Rightarrow> 'u Auth" where
  "auth_later_me m a = setStatus StAuthenticated (setMe m a)"

definition auth_signIn :: "'u Auth \<Rightarrow> 'u Auth" where
  "auth_signIn a = setStatus StAuthenticated a"

text \<open>\<open>signOut\<close> after \<open>await apiLogout()\<close>: a rejection leaves the function.\<close>

definition auth_signedOut :: "session_error + outcome \<Rightarrow> 'u Auth \<Rightarrow> 'u Auth" where
  "auth_signedOut r a = (case r of
     Inl e \<Rightarrow> a
   | Inr _ \<Rightarrow> setStatus StAnonymous (setMe None (clearOrgMembersCache a)))"

definition auth_refreshMe :: "'u option \<Rightarrow> 'u Auth \<Rightarrow> 'u Auth" where
  "auth_refreshMe m a = (case m of None \<Rightarrow> a | Some u \<Rightarrow> setMe (Some u) a)"

datatype route_guard = ShowSpinner | RedirectToLogin | ShowPage

definition RequireAuth :: "'u Auth \<Rightarrow> route_guard" where
  "RequireAuth a = (case au_status a of
     StLoading \<Rightarrow> ShowSpinner | StAnonymous \<Rightarrow> RedirectToLogin | StAuthenticated \<Rightarrow> ShowPage)"

lemmas auth_defs [js_defs] =
  auth_init_def clearOrgMembersCache_def setStatus_def setMe_def auth_bootstrapped_def
  auth_first_me_def auth_unmount_def auth_on_event_def auth_rebootstrapped_def auth_later_me_def
  auth_signIn_def auth_signedOut_def auth_refreshMe_def RequireAuth_def

section \<open>The invariant of the session\<close>

definition settled :: "pc \<Rightarrow> bool" where
  "settled p \<longleftrightarrow> (case p of Settled _ \<Rightarrow> True | _ \<Rightarrow> False)"

definition sent_count :: "fetched list \<Rightarrow> nat \<Rightarrow> nat" where
  "sent_count fs i = length (filter (\<lambda>f. fe_task f = i) fs)"

definition refresh_ok :: "task \<Rightarrow> Response option \<Rightarrow> nat \<Rightarrow> nat \<Rightarrow> bool" where
  "refresh_ok t res n sent \<longleftrightarrow>
     n < REFRESH_ATTEMPTS \<and> (res = None \<longleftrightarrow> tk_kind t = KBootstrap) \<and> sent = (if res = None then 0 else 1)"

definition task_ok :: "nat option \<Rightarrow> nat \<Rightarrow> nat \<Rightarrow> task \<Rightarrow> bool" where
  "task_ok fl sent i t \<longleftrightarrow>
     (case tk_pc t of
        Sent \<Rightarrow> sent = 1 \<and> tk_kind t \<noteq> KBootstrap
      | Awaiting res n p \<Rightarrow> refresh_ok t res n sent \<and> fl = Some p
      | Woken res n r \<Rightarrow> refresh_ok t res n sent \<and> tk_kind t \<noteq> KRefresh
      | Sleeping res n \<Rightarrow> refresh_ok t res n sent \<and> tk_kind t \<noteq> KRefresh
      | Resent res \<Rightarrow> sent = 2 \<and> res \<noteq> None \<and> tk_kind t \<noteq> KBootstrap \<and> tk_kind t \<noteq> KRefresh
      | Settled r \<Rightarrow> sent \<le> 2) \<and>
     (tk_kind t = KRefresh \<and> \<not> settled (tk_pc t) \<longrightarrow> fl = Some i \<and> tk_init t = refresh_init)"

definition inv_of :: "nat option \<Rightarrow> task list \<Rightarrow> fetched list \<Rightarrow> bool" where
  "inv_of fl ts fs \<longleftrightarrow>
     (\<forall>i < length ts. task_ok fl (sent_count fs i) i (ts ! i)) \<and>
     (\<forall>f \<in> set fs. fe_task f < length ts) \<and>
     (\<forall>p. fl = Some p \<longrightarrow> p < length ts \<and> tk_kind (ts ! p) = KRefresh \<and> \<not> settled (tk_pc (ts ! p)))"

definition session_inv :: "Client \<Rightarrow> bool" where
  "session_inv c \<longleftrightarrow> inv_of (refreshInFlight c) (c_tasks c) (c_fetched c)"

lemma settled_simps [simp]:
  "settled (Settled r)" "\<not> settled Sent" "\<not> settled (Awaiting res n p)" "\<not> settled (Woken res n r')"
  "\<not> settled (Sleeping res n)" "\<not> settled (Resent res)"
  by (simp_all add: settled_def)

lemma sent_count_append [simp]: "sent_count (fs @ gs) i = sent_count fs i + sent_count gs i"
  by (simp add: sent_count_def)

lemma sent_count_single [simp]:
  "sent_count [] i = 0" "sent_count [f] i = (if fe_task f = i then 1 else 0)"
  by (simp_all add: sent_count_def)

lemma sent_count_fresh: "\<forall>f \<in> set fs. fe_task f < n \<Longrightarrow> sent_count fs n = 0"
  by (auto simp: sent_count_def filter_empty_conv)

lemma sent_count_other: "\<forall>f \<in> set fs. fe_task f \<noteq> n \<Longrightarrow> sent_count fs n = 0"
  by (auto simp: sent_count_def filter_empty_conv)

lemma frame_simps [simp]:
  "refreshInFlight (notify ev c) = refreshInFlight c" "c_tasks (notify ev c) = c_tasks c"
  "c_fetched (notify ev c) = c_fetched c"
  "refreshInFlight (broadcast ev c) = refreshInFlight c" "c_tasks (broadcast ev c) = c_tasks c"
  "c_fetched (broadcast ev c) = c_fetched c"
  "refreshInFlight (clearSession c) = refreshInFlight c" "c_tasks (clearSession c) = c_tasks c"
  "c_fetched (clearSession c) = c_fetched c"
  "refreshInFlight (handleSessionLost c) = refreshInFlight c"
  "c_tasks (handleSessionLost c) = c_tasks c"
  "c_fetched (handleSessionLost c) = c_fetched c"
  "refreshInFlight (set_pc i p c) = refreshInFlight c" "c_fetched (set_pc i p c) = c_fetched c"
  "length (c_tasks (set_pc i p c)) = length (c_tasks c)"
  "c_tasks (do_fetch i path init c) = c_tasks c"
  "refreshInFlight (do_fetch i path init c) = refreshInFlight c"
  by (simp_all add: notify_def broadcast_def clearSession_def handleSessionLost_def set_pc_def
      do_fetch_def)

lemma setSession_frame:
  "setSession j c = Inr c' \<Longrightarrow>
     refreshInFlight c' = refreshInFlight c \<and> c_tasks c' = c_tasks c \<and> c_fetched c' = c_fetched c"
  by (auto simp: setSession_def split: sum.splits)

lemma inv_new_task:
  assumes "inv_of fl ts fs" and "task_ok fl (sent_count gs (length ts)) (length ts) t"
    and "\<forall>f \<in> set gs. fe_task f = length ts"
  shows "inv_of fl (ts @ [t]) (fs @ gs)"
proof -
  have "sent_count fs (length ts) = 0" "\<And>i. i < length ts \<Longrightarrow> sent_count gs i = 0"
    using assms(1, 3) by (auto simp: inv_of_def intro!: sent_count_fresh sent_count_other)
  moreover have "\<forall>f \<in> set (fs @ gs). fe_task f < length (ts @ [t])"
    using assms(1, 3) by (auto simp: inv_of_def)
  ultimately show ?thesis
    using assms(1, 2) unfolding inv_of_def by (simp add: nth_append less_Suc_eq)
qed

lemma inv_update:
  assumes "inv_of fl ts fs" and "i < length ts"
    and "tk_kind t = tk_kind (ts ! i)" and "settled (tk_pc t) \<Longrightarrow> fl \<noteq> Some i"
    and "task_ok fl (sent_count fs i + sent_count gs i) i t" and "\<forall>f \<in> set gs. fe_task f = i"
  shows "inv_of fl (ts[i := t]) (fs @ gs)"
proof -
  have "sent_count gs j = 0" if "j \<noteq> i" for j
    using assms(6) that by (intro sent_count_other) auto
  moreover have "\<forall>f \<in> set (fs @ gs). fe_task f < length ts"
    using assms(1, 2, 6) by (auto simp: inv_of_def)
  ultimately show ?thesis
    using assms(1-5) unfolding inv_of_def by (auto simp: nth_list_update)
qed

lemma inv_apiFetch_start:
  assumes "session_inv c" and "k \<noteq> KRefresh" and "k \<noteq> KBootstrap"
  shows "session_inv (apiFetch_start k path init c)"
  using assms
  by (auto simp: session_inv_def apiFetch_start_def do_fetch_def task_ok_def intro!: inv_new_task)

lemma inv_refresh_start:
  assumes "inv_of None ts fs" and "tk_kind t = KRefresh" and "tk_pc t = Sent"
    and "tk_init t = refresh_init"
    and "fe_task f = length ts"
  shows "inv_of (Some (length ts)) (ts @ [t]) (fs @ [f])"
proof -
  have "task_ok (Some (length ts)) s i u" if "task_ok None s i u" for s i u
    using that by (auto simp: task_ok_def split: pc.splits)
  moreover have "task_ok (Some (length ts)) 1 (length ts) t"
    using assms(2, 3, 4) by (simp add: task_ok_def)
  moreover have "sent_count fs (length ts) = 0"
    using assms(1) by (auto simp: inv_of_def intro!: sent_count_fresh)
  ultimately show ?thesis
    using assms unfolding inv_of_def by (simp add: nth_append less_Suc_eq)
qed

lemma refreshOnce_inv:
  assumes "session_inv c" and "refreshOnce c = (p, c')"
  shows "session_inv c' \<and> refreshInFlight c' = Some p \<and> p < length (c_tasks c') \<and>
    length (c_tasks c) \<le> length (c_tasks c') \<and>
    (\<forall>i < length (c_tasks c). c_tasks c' ! i = c_tasks c ! i \<and>
       sent_count (c_fetched c') i = sent_count (c_fetched c) i)"
proof (cases "refreshInFlight c")
  case None
  with assms show ?thesis
    by (auto simp: session_inv_def refreshOnce_def apiFetch_start_def do_fetch_def nth_append
        intro!: inv_refresh_start)
next
  case (Some q)
  with assms show ?thesis
    by (auto simp: refreshOnce_def session_inv_def inv_of_def)
qed

lemma inv_set_pc:
  assumes "session_inv c" and "i < length (c_tasks c)"
    and "settled p \<Longrightarrow> refreshInFlight c \<noteq> Some i"
    and "task_ok (refreshInFlight c) (sent_count (c_fetched c) i) i ((c_tasks c ! i)\<lparr>tk_pc := p\<rparr>)"
  shows "session_inv (set_pc i p c)"
  using inv_update [of "refreshInFlight c" "c_tasks c" "c_fetched c" i
      "(c_tasks c ! i)\<lparr>tk_pc := p\<rparr>" "[]"] assms
  by (auto simp: session_inv_def set_pc_def)

lemma inv_refresh_attempt:
  assumes "session_inv c" and "i < length (c_tasks c)"
    and "refresh_ok (c_tasks c ! i) res n (sent_count (c_fetched c) i)"
    and "tk_kind (c_tasks c ! i) = KRefresh \<Longrightarrow>
      refreshInFlight c = Some i \<and> tk_init (c_tasks c ! i) = refresh_init"
  shows "session_inv (refresh_attempt i res n c)"
proof -
  obtain p c' where r: "refreshOnce c = (p, c')" by fastforce
  note f = refreshOnce_inv [OF assms(1) r]
  have "task_ok (Some p) (sent_count (c_fetched c') i) i ((c_tasks c' ! i)\<lparr>tk_pc := Awaiting res n p\<rparr>)"
    using f assms(2,3) unfolding task_ok_def
    by (cases "tk_kind (c_tasks c ! i) = KRefresh")
      (use assms(4) r in \<open>auto simp: refresh_ok_def refreshOnce_def\<close>)
  then show ?thesis
    using f assms(2) r by (auto simp: refresh_attempt_def intro!: inv_set_pc)
qed

lemma task_okD:
  assumes "session_inv c" and "i < length (c_tasks c)"
  shows "task_ok (refreshInFlight c) (sent_count (c_fetched c) i) i (c_tasks c ! i)"
  using assms by (auto simp: session_inv_def inv_of_def)

lemma wake_task_kind [simp]: "tk_kind (wake_task p r t) = tk_kind t"
  by (simp add: wake_task_def split: pc.splits)

lemma settled_wake_task [simp]: "settled (tk_pc (wake_task p r t)) = settled (tk_pc t)"
  by (simp add: wake_task_def split: pc.splits)

lemma wake_task_ok:
  assumes "task_ok (Some p) s i t" and "i \<noteq> p"
  shows "task_ok None s i (wake_task p r t)"
  using assms by (auto simp: task_ok_def wake_task_def refresh_ok_def split: pc.splits)

lemma inv_settle_refresh:
  assumes inv: "session_inv c" and i: "i < length (c_tasks c)" and fl: "refreshInFlight c = Some i"
    and pc: "sent_count (c_fetched c) i \<le> 2"
  shows "session_inv (settle_refresh i r c)"
proof -
  have *: "inv_of None (map (wake_task i r') ((c_tasks c)[i := (c_tasks c ! i)\<lparr>tk_pc := Settled q\<rparr>]))
       (c_fetched c)" for r' q
  proof -
    have "task_ok None (sent_count (c_fetched c) i) i (wake_task i r' ((c_tasks c ! i)\<lparr>tk_pc := Settled q\<rparr>))"
      using pc by (simp add: task_ok_def wake_task_def)
    moreover have "task_ok None (sent_count (c_fetched c) j) j (wake_task i r' (c_tasks c ! j))"
      if "j < length (c_tasks c)" "j \<noteq> i" for j
      using wake_task_ok task_okD [OF inv] fl that by auto
    ultimately have "\<forall>j < length (c_tasks c). task_ok None (sent_count (c_fetched c) j) j
        (wake_task i r' ((c_tasks c)[i := (c_tasks c ! i)\<lparr>tk_pc := Settled q\<rparr>] ! j))"
      using i by (metis nth_list_update_eq nth_list_update_neq)
    then show ?thesis
      using inv by (simp add: inv_of_def session_inv_def)
  qed
  show ?thesis
  proof (cases r)
    case (Inl e)
    with * show ?thesis by (simp add: settle_refresh_def session_inv_def wake_all_def set_pc_def)
  next
    case (Inr j)
    then show ?thesis
      using setSession_frame [of j c] *
      by (auto simp: settle_refresh_def session_inv_def wake_all_def set_pc_def split: sum.splits)
  qed
qed

lemma inv_settle:
  assumes "session_inv c" and "i < length (c_tasks c)" and "tk_kind (c_tasks c ! i) \<noteq> KRefresh"
    and "sent_count (c_fetched c) i \<le> 2"
  shows "session_inv (set_pc i (Settled r) c)"
proof -
  have "refreshInFlight c \<noteq> Some i"
    using assms by (auto simp: session_inv_def inv_of_def)
  with assms show ?thesis by (auto simp: task_ok_def intro!: inv_set_pc)
qed

lemma inv_frames [simp]:
  "session_inv (notify ev c) = session_inv c" "session_inv (broadcast ev c) = session_inv c"
  "session_inv (clearSession c) = session_inv c" "session_inv (handleSessionLost c) = session_inv c"
  "session_inv (on_message ev c) = session_inv c" "session_inv (subscribeSession l c) = session_inv c"
  "session_inv (unsubscribe l c) = session_inv c"
  by (simp_all add: session_inv_def on_message_def subscribeSession_def unsubscribe_def)

lemma inv_settle_establish:
  assumes "session_inv c" and "i < length (c_tasks c)" and "tk_kind (c_tasks c ! i) \<noteq> KRefresh"
    and "sent_count (c_fetched c) i \<le> 2"
  shows "session_inv (settle_establish i r c)"
proof (cases r)
  case (Inl e)
  with inv_settle [OF assms] show ?thesis by (simp add: settle_establish_def)
next
  case (Inr j)
  show ?thesis
  proof (cases "setSession j c")
    case (Inl e)
    with Inr inv_settle [OF assms] show ?thesis by (simp add: settle_establish_def)
  next
    fix c' assume c': "setSession j c = Inr c'"
    note f = setSession_frame [OF c']
    then have "session_inv (broadcast SLogin c')"
      using assms(1) by (simp add: session_inv_def)
    then show ?thesis
      using Inr c' f assms by (auto simp: settle_establish_def intro!: inv_settle)
  qed
qed

lemma inv_finish:
  assumes "session_inv c" and "i < length (c_tasks c)" and "sent_count (c_fetched c) i \<le> 2"
    and "tk_kind (c_tasks c ! i) = KRefresh \<Longrightarrow> refreshInFlight c = Some i"
  shows "session_inv (finish i r c)"
  using assms
  by (auto simp: finish_def client_kind_def intro!: inv_settle inv_settle_establish inv_settle_refresh
      split: task_kind.split)

lemma inv_session_lost_in:
  assumes "session_inv c" and "i < length (c_tasks c)" and "sent_count (c_fetched c) i \<le> 2"
    and "tk_kind (c_tasks c ! i) \<noteq> KRefresh"
  shows "session_inv (session_lost_in i res c)"
  using assms
  by (auto simp: session_lost_in_def intro!: inv_settle inv_finish split: option.split)

lemma inv_refreshed_in:
  assumes "session_inv c" and "i < length (c_tasks c)"
    and "refresh_ok (c_tasks c ! i) res n (sent_count (c_fetched c) i)"
    and "tk_kind (c_tasks c ! i) \<noteq> KRefresh"
  shows "session_inv (refreshed_in i res c)"
proof (cases res)
  case None
  with assms show ?thesis
    by (auto simp: refreshed_in_def refresh_ok_def intro!: inv_settle)
next
  case (Some r)
  let ?t = "(c_tasks c ! i)\<lparr>tk_pc := Resent res\<rparr>"
  have "inv_of (refreshInFlight c) ((c_tasks c)[i := ?t]) (c_fetched c @ [f])" if "fe_task f = i" for f
    using assms Some that
    by (intro inv_update) (auto simp: session_inv_def task_ok_def refresh_ok_def)
  then show ?thesis
    using Some by (simp add: refreshed_in_def session_inv_def do_fetch_def set_pc_def)
qed

lemma inv_response:
  assumes "session_inv c" and "i < length (c_tasks c)"
  shows "session_inv (apiFetch_on_response i res c)"
  using task_okD [OF assms] assms
  by (auto simp: apiFetch_on_response_def client_pc_def task_ok_def refresh_ok_def REFRESH_ATTEMPTS_def
      intro!: inv_refresh_attempt inv_finish split: pc.splits)

lemma inv_failure:
  assumes "session_inv c" and "i < length (c_tasks c)"
  shows "session_inv (apiFetch_on_failure i c)"
  using task_okD [OF assms] assms
  by (auto simp: apiFetch_on_failure_def client_pc_def task_ok_def
      intro!: inv_session_lost_in inv_finish split: pc.splits)

lemma inv_resume:
  assumes "session_inv c" and "i < length (c_tasks c)"
  shows "session_inv (refresh_resume i c)"
proof (cases "client_pc c i")
  case (Woken res n r)
  then have ok: "refresh_ok (c_tasks c ! i) res n (sent_count (c_fetched c) i)"
    "tk_kind (c_tasks c ! i) \<noteq> KRefresh"
    using task_okD [OF assms] by (auto simp: task_ok_def client_pc_def)
  show ?thesis
  proof (cases r)
    case (Inr j)
    with Woken ok assms show ?thesis
      by (auto simp: refresh_resume_def intro!: inv_refreshed_in)
  next
    case (Inl e)
    have "session_inv (set_pc i (Sleeping res (Suc n)) c)" if "Suc n < REFRESH_ATTEMPTS"
      using that ok assms by (intro inv_set_pc) (auto simp: task_ok_def refresh_ok_def)
    moreover have "session_inv (session_lost_in i res c)"
      using ok assms by (intro inv_session_lost_in) (auto simp: refresh_ok_def)
    ultimately show ?thesis using Woken Inl by (simp add: refresh_resume_def)
  qed
qed (use assms in \<open>simp_all add: refresh_resume_def\<close>)

lemma inv_timer:
  assumes "session_inv c" and "i < length (c_tasks c)"
  shows "session_inv (refresh_timer i c)"
  using task_okD [OF assms] assms
  by (auto simp: refresh_timer_def client_pc_def task_ok_def intro!: inv_refresh_attempt
      split: pc.splits)

lemma inv_bootstrap:
  assumes "session_inv c"
  shows "session_inv (bootstrap_start c)"
proof -
  let ?t = "\<lparr>tk_kind = KBootstrap, tk_path = [], tk_init = refresh_init, tk_pc = Sleeping None 0\<rparr>"
  have "inv_of (refreshInFlight c) (c_tasks c @ [?t]) (c_fetched c @ [])"
    using assms
    by (intro inv_new_task) (auto simp: session_inv_def task_ok_def refresh_ok_def REFRESH_ATTEMPTS_def)
  moreover have "sent_count (c_fetched c) (length (c_tasks c)) = 0"
    using assms by (simp add: session_inv_def inv_of_def sent_count_fresh)
  ultimately show ?thesis
    unfolding bootstrap_start_def
    by (intro inv_refresh_attempt) (auto simp: session_inv_def refresh_ok_def REFRESH_ATTEMPTS_def)
qed

lemma inv_step: "session_step c c' \<Longrightarrow> session_inv c \<Longrightarrow> session_inv c'"
  by (induction rule: session_step.induct)
    (auto simp: establishSession_start_def login_start_def logout_start_def inv_bootstrap
      intro: inv_apiFetch_start inv_response inv_failure inv_resume inv_timer)

lemma inv_initial: "session_inv (initial_client ch)"
  by (simp add: session_inv_def inv_of_def initial_client_def)

lemma reachable_inv: "session_reachable c \<Longrightarrow> session_inv c"
  by (induction rule: session_reachable.induct) (auto intro: inv_initial inv_step)


section \<open>The refresh that waits for itself\<close>

definition awaits :: "nat \<Rightarrow> pc \<Rightarrow> bool" where
  "awaits p q \<longleftrightarrow> (\<exists>res n. q = Awaiting res n p)"

definition keeps_waiting :: "nat \<Rightarrow> Client \<Rightarrow> Client \<Rightarrow> bool" where
  "keeps_waiting p c c' \<longleftrightarrow>
     refreshInFlight c' = Some p \<and> length (c_tasks c) \<le> length (c_tasks c') \<and>
     (\<forall>j < length (c_tasks c). awaits p (client_pc c j) \<longrightarrow> c_tasks c' ! j = c_tasks c ! j)"

lemma awaits_simps [simp]:
  "awaits p (Awaiting res n q) \<longleftrightarrow> q = p" "\<not> awaits p Sent" "\<not> awaits p (Settled r)"
  "\<not> awaits p (Woken res n r')" "\<not> awaits p (Sleeping res n)" "\<not> awaits p (Resent res)"
  by (auto simp: awaits_def)

lemma keeps_frame:
  assumes "refreshInFlight c = Some p" and "refreshInFlight c' = refreshInFlight c" 
    and "c_tasks c' = c_tasks c"
  shows "keeps_waiting p c c'"
  using assms by (simp add: keeps_waiting_def)

lemma keeps_refl [simp]: "refreshInFlight c = Some p \<Longrightarrow> keeps_waiting p c c"
  by (simp add: keeps_waiting_def)

lemma keeps_set_pc:
  assumes "refreshInFlight c = Some p" and "\<not> awaits p (client_pc c i)"
    and "refreshInFlight c' = refreshInFlight c" and "c_tasks c' = c_tasks c"
  shows "keeps_waiting p c (set_pc i q c')"
  using assms by (auto simp: keeps_waiting_def set_pc_def client_pc_def intro!: nth_list_update_neq)

lemma keeps_start:
  assumes "refreshInFlight c = Some p"
  shows "keeps_waiting p c (apiFetch_start k path init c)"
  using assms by (simp add: keeps_waiting_def apiFetch_start_def do_fetch_def nth_append)

lemma keeps_refresh_attempt:
  assumes "refreshInFlight c = Some p" and "\<not> awaits p (client_pc c i)"
  shows "keeps_waiting p c (refresh_attempt i res n c)"
  using assms by (auto simp: refresh_attempt_def refreshOnce_def intro!: keeps_set_pc)

lemma keeps_finish:
  assumes "refreshInFlight c = Some p" and "\<not> awaits p (client_pc c i)"
    and "client_kind c i \<noteq> KRefresh" and "refreshInFlight c' = refreshInFlight c"
    and "c_tasks c' = c_tasks c"
  shows "keeps_waiting p c (finish i r c')"
proof -
  have "keeps_waiting p c (settle_establish i q c')" for q
    using assms setSession_frame
    by (fastforce simp: settle_establish_def intro!: keeps_set_pc split: sum.split)
  moreover have "client_kind c' i \<noteq> KRefresh"
    using assms by (simp add: client_kind_def)
  ultimately show ?thesis
    using assms by (auto simp: finish_def intro!: keeps_set_pc intro: keeps_frame split: task_kind.split)
qed

lemma keeps_session_lost_in:
  assumes "refreshInFlight c = Some p" and "\<not> awaits p (client_pc c i)"
    and "client_kind c i \<noteq> KRefresh"
  shows "keeps_waiting p c (session_lost_in i res c)"
  using assms
  by (auto simp: session_lost_in_def intro!: keeps_finish keeps_set_pc split: option.split)

lemma keeps_refreshed_in:
  assumes "refreshInFlight c = Some p" and "\<not> awaits p (client_pc c i)"
  shows "keeps_waiting p c (refreshed_in i res c)"
  using keeps_set_pc [OF assms refl refl] 
  by (auto simp: refreshed_in_def keeps_waiting_def split: option.split)

lemma stuck_kind:
  assumes "session_inv c" and "i < length (c_tasks c)" and "refreshInFlight c = Some p"
    and "awaits p (client_pc c p)" and "\<not> awaits p (client_pc c i)" and "\<not> settled (client_pc c i)"
  shows "client_kind c i \<noteq> KRefresh"
  using task_okD [OF assms(1, 2)] assms(3-6) by (auto simp: task_ok_def client_kind_def client_pc_def)

lemma keeps_step:
  assumes "session_step c c'" and "session_inv c" and "refreshInFlight c = Some p"
    and "awaits p (client_pc c p)"
  shows "keeps_waiting p c c'"
  using assms
proof (cases rule: session_step.cases)
  case (st_response i res)
  with assms show ?thesis
    using stuck_kind [OF assms(2) _ assms(3,4), of i]
    by (auto simp: apiFetch_on_response_def intro!: keeps_refresh_attempt keeps_finish
        split: pc.split)
next
  case (st_failure i)
  with assms show ?thesis
    using stuck_kind [OF assms(2) _ assms(3,4), of i]
    by (auto simp: apiFetch_on_failure_def intro!: keeps_session_lost_in keeps_finish
        split: pc.split)
next
  case (st_resume i)
  with assms show ?thesis
    using stuck_kind [OF assms(2) _ assms(3,4), of i]
    by (auto simp: refresh_resume_def intro!: keeps_session_lost_in keeps_refreshed_in keeps_set_pc
        split: pc.split sum.split)
next
  case (st_timer i)
  with assms show ?thesis
    by (auto simp: refresh_timer_def intro!: keeps_refresh_attempt split: pc.split)
next
  case st_bootstrap
  with assms show ?thesis
    by (auto simp: bootstrap_start_def refresh_attempt_def refreshOnce_def keeps_waiting_def
        set_pc_def nth_append client_pc_def)
qed (simp_all add: establishSession_start_def login_start_def logout_start_def keeps_start,
    simp_all add: on_message_def subscribeSession_def unsubscribe_def keeps_frame)

lemma keeps_trans:
  assumes "keeps_waiting p c c'" and "keeps_waiting p c' c''"
  shows "keeps_waiting p c c''"
  using assms by (fastforce simp: keeps_waiting_def client_pc_def)

lemma keeps_steps:
  assumes "session_step\<^sup>*\<^sup>* c c'" and "session_inv c" and "refreshInFlight c = Some p"
    and "awaits p (client_pc c p)"
  shows "keeps_waiting p c c' \<and> session_inv c'"
  using assms(1)
proof (induction rule: rtranclp_induct)
  case base
  with assms show ?case by (auto intro: keeps_frame)
next
  case (step c' c'')
  have "p < length (c_tasks c)" using assms(2,3) by (auto simp: session_inv_def inv_of_def)
  then have "awaits p (client_pc c' p)" "refreshInFlight c' = Some p"
    using step.IH assms(4) by (auto simp: keeps_waiting_def client_pc_def)
  with step show ?case by (meson keeps_step keeps_trans inv_step)
qed

section \<open>A session whose token has expired\<close>

text \<open>
  Someone logs in, calls the server and is answered 401: the call waits for the refresh that it has
  started. The state serves as the concrete instance of the properties below.
\<close>

definition demo_init :: ApiRequestInit where
  "demo_init = \<lparr>ai_method = ''GET'', ai_body = None, ai_headers = [], ai_retry = False\<rparr>"

definition demo_tokens :: Response where
  "demo_tokens = \<lparr>res_status = 200, res_text = [], res_json = Some (JObject [(''access_token'', JString ''t'')])\<rparr>"

definition demo_refused :: Response where
  "demo_refused = \<lparr>res_status = 401, res_text = ''no'', res_json = None\<rparr>"

definition demo_expired :: Client where
  "demo_expired =
     apiFetch_on_response 1 demo_refused (apiFetch_start KFetch ''/p'' demo_init
       (apiFetch_on_response 0 demo_tokens
         (login_start \<lparr>lr_email = ''e'', lr_password = ''p''\<rparr> (initial_client True))))"

lemma demo_expired_state:
  "length (c_tasks demo_expired) = 3" "refreshInFlight demo_expired = Some 2"
  "client_pc demo_expired (Suc 0) = Awaiting (Some demo_refused) 0 2" "client_pc demo_expired 2 = Sent"
  "client_kind demo_expired 2 = KRefresh" "accessToken demo_expired = Some (JString ''t'')"
  by (simp_all add: demo_expired_def demo_refused_def demo_init_def demo_tokens_def session_defs Let_def
      js_truthy_def js_prop_def)

lemma demo_refused_status: "res_status demo_refused = 401"
  by (simp add: demo_refused_def)

lemma demo_expired_reachable: "session_reachable demo_expired"
proof -
  let ?l = "login_start \<lparr>lr_email = ''e'', lr_password = ''p''\<rparr> (initial_client True)"
  let ?a = "apiFetch_on_response 0 demo_tokens ?l"
  let ?f = "apiFetch_start KFetch ''/p'' demo_init ?a"
  have "session_reachable ?l" by (blast intro: sr_init sr_step st_login)
  moreover have "0 < length (c_tasks ?l)" by (simp add: session_defs)
  ultimately have "session_reachable ?a" by (blast intro: sr_step st_response)
  then have "session_reachable ?f" by (blast intro: sr_step st_fetch)
  moreover have "1 < length (c_tasks ?f)"
    by (simp add: demo_tokens_def session_defs Let_def js_prop_def)
  ultimately show ?thesis unfolding demo_expired_def by (blast intro: sr_step st_response)
qed

section \<open>Properties\<close>

lemma in_flight_refresh:
  "session_inv c \<Longrightarrow> refreshInFlight c = Some p \<Longrightarrow>
     p < length (c_tasks c) \<and> client_kind c p = KRefresh \<and> \<not> settled (client_pc c p)"
  by (simp add: session_inv_def inv_of_def client_kind_def client_pc_def)

text \<open>
  Property C2. At every point of every interleaving at most one refresh request is unsettled, it is
  the one \<open>refreshInFlight\<close> holds, and whoever waits inside \<open>refresh()\<close> waits for that one and is
  at attempt 0, 1 or 2: no call waits for a promise that has already been settled and forgotten.\<close>

theorem refresh_single_flight:
  assumes "session_reachable c" and "i < length (c_tasks c)"
  shows "(client_kind c i = KRefresh \<and> \<not> settled (client_pc c i) \<longrightarrow> refreshInFlight c = Some i) \<and>
    (\<forall>res n p. client_pc c i = Awaiting res n p \<longrightarrow>
       refreshInFlight c = Some p \<and> client_kind c p = KRefresh \<and> \<not> settled (client_pc c p) \<and> n < REFRESH_ATTEMPTS)"
proof -
  note inv = reachable_inv [OF assms(1)]
  note ok = task_okD [OF inv assms(2)]
  have "refreshInFlight c = Some i" if "client_kind c i = KRefresh" "\<not> settled (client_pc c i)"
    using ok that by (simp add: task_ok_def client_kind_def client_pc_def)
  moreover have "refreshInFlight c = Some p \<and> n < REFRESH_ATTEMPTS" if "client_pc c i = Awaiting res n p"
    for res n p
    using ok that by (simp add: task_ok_def client_pc_def refresh_ok_def)
  ultimately show ?thesis
    using in_flight_refresh [OF inv] by blast
qed

theorem refresh_single_flight_witness:
  "session_reachable demo_expired \<and> 1 < length (c_tasks demo_expired) \<and>
   client_pc demo_expired 1 = Awaiting (Some demo_refused) 0 2 \<and> refreshInFlight demo_expired = Some 2"
  using refresh_single_flight [of demo_expired 1]
  by (simp add: demo_expired_reachable demo_expired_state)

lemma sent_task_ok: "task_ok fl s i t \<Longrightarrow> s \<le> 2"
  by (auto simp: task_ok_def refresh_ok_def split: pc.splits if_splits)

text \<open>
  No call ever sends its request more than twice, whatever the server answers and
  however the calls interleave; a call that still awaits its first response or a refresh has sent
  it once.\<close>

theorem request_sent_at_most_twice:
  assumes "session_reachable c"
  shows "sent_count (c_fetched c) i \<le> 2 \<and>
    (i < length (c_tasks c) \<and> client_pc c i = Sent \<longrightarrow> sent_count (c_fetched c) i = 1)"
proof (cases "i < length (c_tasks c)")
  case True
  note ok = task_okD [OF reachable_inv [OF assms] True]
  then have "client_pc c i = Sent \<longrightarrow> sent_count (c_fetched c) i = 1"
    by (auto simp: client_pc_def task_ok_def)
  with sent_task_ok [OF ok] show ?thesis by simp
next
  case False
  then have "sent_count (c_fetched c) i = 0"
    using reachable_inv [OF assms] by (intro sent_count_other) (auto simp: session_inv_def inv_of_def)
  with False show ?thesis by simp
qed

theorem request_sent_at_most_twice_witness:
  "session_reachable demo_expired \<and> sent_count (c_fetched demo_expired) 2 = 1"
  using request_sent_at_most_twice [of demo_expired 2]
  by (simp add: demo_expired_reachable demo_expired_state)

text \<open>
  When the refresh request itself is answered 401 while an access token is still held,
  it calls \<open>refresh()\<close> in turn and awaits the promise it is there to settle. From then on, through
  every further step of the program, the refresh and every call that waits for it stay where they
  are: none of them returns, throws or reports the session as lost.\<close>

theorem refresh_401_never_settles:
  assumes "session_reachable c" and "refreshInFlight c = Some p" and "client_pc c p = Sent"
    and "js_truthy (accessToken c)" and "res_status res = 401"
    and "session_step\<^sup>*\<^sup>* (apiFetch_on_response p res c) c'"
  shows "client_pc c' p = Awaiting (Some res) 0 p \<and> refreshInFlight c' = Some p \<and>
    (\<forall>j < length (c_tasks c). awaits p (client_pc c j) \<longrightarrow> client_pc c' j = client_pc c j)"
proof -
  let ?d = "apiFetch_on_response p res c"
  note inv = reachable_inv [OF assms(1)]
  have p: "p < length (c_tasks c)" "client_kind c p = KRefresh"
    using in_flight_refresh [OF inv assms(2)] by simp_all
  have "\<not> ai_retry (tk_init (c_tasks c ! p))"
    using task_okD [OF inv p(1)] p(2) assms(2,3)
    by (auto simp: task_ok_def client_kind_def client_pc_def refresh_init_def)
  then have d: "?d = set_pc p (Awaiting (Some res) 0 p) c"
    using assms(2-5) by (simp add: apiFetch_on_response_def refresh_attempt_def refreshOnce_def)
  then have "awaits p (client_pc ?d p)" "refreshInFlight ?d = Some p"
    using p assms(2) by (simp_all add: client_pc_def set_pc_def)
  then have "keeps_waiting p ?d c'"
    using keeps_steps [OF assms(6)] inv_response [OF inv p(1)] by blast
  then show ?thesis
    using d p assms(3) by (auto simp: keeps_waiting_def client_pc_def set_pc_def nth_list_update)
qed

theorem refresh_401_never_settles_witness:
  "let c = logout_start (apiFetch_on_response 2 demo_refused demo_expired)
   in client_pc c 2 = Awaiting (Some demo_refused) 0 2 \<and>
      client_pc c 1 = Awaiting (Some demo_refused) 0 2"
proof -
  let ?c = "logout_start (apiFetch_on_response 2 demo_refused demo_expired)"
  have s: "session_step\<^sup>*\<^sup>* (apiFetch_on_response 2 demo_refused demo_expired) ?c"
    by (intro r_into_rtranclp st_logout)
  have "client_pc ?c 2 = Awaiting (Some demo_refused) 0 2 \<and>
      client_pc ?c (Suc 0) = client_pc demo_expired (Suc 0)"
    using refresh_401_never_settles [OF demo_expired_reachable demo_expired_state(2,4) _ demo_refused_status s]
    by (simp add: demo_expired_state)
  then show ?thesis by (simp add: demo_expired_state)
qed

text \<open>
  Property C20. When the refresh succeeds, the new token is installed, the shared promise is gone and
  every waiting call, when it resumes, sends its own request again, once, under the new token.\<close>

theorem refresh_resumes_waiting_calls:
  assumes "session_reachable c" and "refreshInFlight c = Some p" and "client_pc c p = Sent"
    and "res_ok res" and "res_json res = Some (JObject fs)"
    and "map_of (rev fs) ''access_token'' = Some (JString tok)" and "tok \<noteq> []"
    and "j < length (c_tasks c)" and "client_pc c j = Awaiting (Some r0) n p"
  shows "let c' = apiFetch_on_response p res c; c'' = refresh_resume j c' in
      accessToken c' = Some (JString tok) \<and> refreshInFlight c' = None \<and>
      client_pc c'' j = Resent (Some r0) \<and>
      (\<exists>f. c_fetched c'' = c_fetched c @ [f] \<and> fe_task f = j \<and> fe_path f = tk_path (c_tasks c ! j) \<and>
         fe_body f = ai_body (tk_init (c_tasks c ! j)) \<and> fe_retry f \<and>
         js_map_get (fe_headers f) ''authorization'' = Some (''Bearer '' @ tok))"
proof -
  note inv = reachable_inv [OF assms(1)]
  have p: "p < length (c_tasks c)" "client_kind c p = KRefresh"
    using in_flight_refresh [OF inv assms(2)] by simp_all
  have pj: "p \<noteq> j" using assms(3, 9) by auto
  have st: "res_status res \<noteq> 401" using assms(4) by (simp add: res_ok_def)
  have r: "requestJson_result res = Inr (JObject fs)"
    using assms(4, 5) by (simp add: requestJson_result_def)
  let ?c' = "apiFetch_on_response p res c"
  have c': "?c' = wake_all p (Inr (JObject fs)) (set_pc p (Settled (Inr (VJson (Some (JObject fs)))))
      (c\<lparr>accessToken := Some (JString tok), refreshInFlight := None\<rparr>))"
    using p assms(3, 6) st r
    by (simp add: apiFetch_on_response_def finish_def settle_refresh_def setSession_def)
  have tj: "c_tasks ?c' ! j = (c_tasks c ! j)\<lparr>tk_pc := Woken (Some r0) n (Inr (JObject fs))\<rparr>"
    using assms(8, 9) pj by (simp add: c' wake_all_def set_pc_def wake_task_def client_pc_def)
  have len: "length (c_tasks ?c') = length (c_tasks c)"
    by (simp add: c' wake_all_def set_pc_def)
  have tok: "accessToken ?c' = Some (JString tok)" "refreshInFlight ?c' = None" "c_fetched ?c' = c_fetched c"
    by (simp_all add: c' wake_all_def set_pc_def)
  have hd: "js_map_get (fetch_headers (Some (JString tok)) init) ''authorization'' = Some (''Bearer '' @ tok)"
    for init
    using assms(7)
    by (simp add: fetch_headers_def Let_def js_map_get_def js_map_set_def update_conv js_string_of_def)
  show ?thesis
    using tj tok len hd assms(8)
    by (simp add: refresh_resume_def refreshed_in_def do_fetch_def client_pc_def set_pc_def)
qed

theorem refresh_resumes_waiting_calls_witness:
  "client_pc (refresh_resume 1 (apiFetch_on_response 2 demo_tokens demo_expired)) 1 = Resent (Some demo_refused)"
proof -
  have ok: "res_ok demo_tokens" "res_json demo_tokens = Some (JObject [(''access_token'', JString ''t'')])"
    "map_of (rev [(''access_token'', JString ''t'')]) ''access_token'' = Some (JString ''t'')"
    "''t'' \<noteq> []"
    by (simp_all add: demo_tokens_def res_ok_def)
  show ?thesis
    using refresh_resumes_waiting_calls [OF demo_expired_reachable demo_expired_state(2,4) ok _ demo_expired_state(3)]
    by (simp add: demo_expired_state Let_def)
qed

text \<open>
  Sign-out clears the token and tells the other tabs in every case. When the server
  answers, the user interface drops the user and its cached data and redirects to the login page;
  when the request cannot be sent, it keeps the signed-in page and the user although no token is
  left.\<close>

theorem sign_out_outcomes:
  fixes a :: "'u Auth"
  assumes "i < length (c_tasks c)" and "client_kind c i = KLogout" and "client_pc c i = Sent"
    and "au_status a = StAuthenticated" and "res_status res \<noteq> 401"
  shows "(let c' = apiFetch_on_response i res c in
       (\<exists>r. client_pc c' i = Settled r \<and> \<not> isAuthenticated c' \<and>
          RequireAuth (auth_signedOut r a) = RedirectToLogin \<and>
          au_me (auth_signedOut r a) = None \<and> au_cache (auth_signedOut r a) = [])) \<and>
    (let c' = apiFetch_on_failure i c in
       (\<exists>r. client_pc c' i = Settled r \<and> \<not> isAuthenticated c' \<and>
          c_calls c' = c_calls c \<and> (c_channel c \<longrightarrow> c_posted c' = c_posted c @ [SLogout]) \<and>
          RequireAuth (auth_signedOut r a) = ShowPage \<and> au_me (auth_signedOut r a) = au_me a))"
  using assms
  by (simp add: apiFetch_on_response_def apiFetch_on_failure_def finish_def client_pc_def
      client_kind_def set_pc_def broadcast_def clearSession_def isAuthenticated_def auth_defs Let_def)

theorem sign_out_outcomes_witness:
  "\<exists>r. client_pc (apiFetch_on_failure 0 (logout_start (initial_client True))) 0 = Settled r \<and>
     RequireAuth (auth_signedOut r (auth_signIn (auth_init []))) = ShowPage"
proof -
  let ?c = "logout_start (initial_client True)"
  have "0 < length (c_tasks ?c)" "client_kind ?c 0 = KLogout" "client_pc ?c 0 = Sent"
    "au_status (auth_signIn (auth_init [])) = StAuthenticated"
    by (simp_all add: session_defs auth_defs Let_def)
  from sign_out_outcomes [OF this, of "\<lparr>res_status = 204, res_text = [], res_json = None\<rparr>"]
  show ?thesis unfolding Let_def by auto
qed

section \<open>Starting without a session\<close>

text \<open>
  One turn of the loop of \<open>refresh()\<close> for \<open>bootstrap()\<close> without a session: the state in which it
  awaits the answer to attempt \<open>n\<close>, with listener \<open>l\<close>.
\<close>

definition boot_waiting :: "nat \<Rightarrow> nat \<Rightarrow> Client \<Rightarrow> bool" where
  "boot_waiting l n c \<longleftrightarrow>
     length (c_tasks c) = n + 2 \<and> client_pc c 0 = Awaiting None n (Suc n) \<and>
     client_pc c (Suc n) = Sent \<and> client_kind c (Suc n) = KRefresh \<and>
     refreshInFlight c = Some (Suc n) \<and> accessToken c = Some JNull \<and>
     map fe_path (c_fetched c) = replicate (Suc n) ''/api/v1/auth/refresh'' \<and>
     sessionListeners c = [l] \<and> c_calls c = []"

lemma boot_waiting_start: "boot_waiting l 0 (bootstrap_start (subscribeSession l (initial_client ch)))"
  by (simp add: boot_waiting_def session_defs numeral_2_eq_2)

lemma boot_refused:
  assumes "boot_waiting l n c" and "\<not> res_ok r"
  shows "apiFetch_on_response (Suc n) r c =
    wake_all (Suc n) (Inl (errorFromResponse r))
      (set_pc (Suc n) (Settled (Inl (errorFromResponse r))) (c\<lparr>refreshInFlight := None\<rparr>))"
  using assms
  by (simp add: boot_waiting_def apiFetch_on_response_def finish_def requestJson_result_def
      settle_refresh_def)

lemma boot_refused_pc:
  assumes "boot_waiting l n c" and "\<not> res_ok r"
  shows "client_pc (apiFetch_on_response (Suc n) r c) 0 = Woken None n (Inl (errorFromResponse r))"
  unfolding boot_refused [OF assms]
  using assms(1)
  by (simp add: boot_waiting_def client_pc_def wake_all_def set_pc_def wake_task_def)

lemma boot_next:
  assumes "boot_waiting l n c" and "\<not> res_ok r" and "Suc n < REFRESH_ATTEMPTS"
  defines "c' \<equiv> refresh_resume 0 (apiFetch_on_response (Suc n) r c)"
  shows "client_pc c' 0 = Sleeping None (Suc n) \<and> boot_waiting l (Suc n) (refresh_timer 0 c')"
proof -
  let ?d = "apiFetch_on_response (Suc n) r c"
  note d = boot_refused [OF assms(1, 2)]
  have c': "c' = set_pc 0 (Sleeping None (Suc n)) ?d"
    using assms(3) boot_refused_pc [OF assms(1, 2)] by (simp add: c'_def refresh_resume_def)
  have f: "length (c_tasks c') = n + 2" "refreshInFlight c' = None" "accessToken c' = Some JNull"
    "map fe_path (c_fetched c') = replicate (Suc n) ''/api/v1/auth/refresh''"
    "sessionListeners c' = [l]" "c_calls c' = []"
    using assms(1) by (simp_all add: c' d boot_waiting_def wake_all_def set_pc_def)
  have z: "client_pc c' 0 = Sleeping None (Suc n)"
    using f(1) by (simp add: c' client_pc_def set_pc_def)
  have "refresh_timer 0 c' = set_pc 0 (Awaiting None (Suc n) (n + 2))
      ((apiFetch_start KRefresh ''/api/v1/auth/refresh'' refresh_init c')\<lparr>refreshInFlight := Some (n + 2)\<rparr>)"
    using z f by (simp add: refresh_timer_def refresh_attempt_def refreshOnce_def)
  with z f show ?thesis
    by (simp add: boot_waiting_def apiFetch_start_def do_fetch_def set_pc_def client_pc_def
        client_kind_def nth_append replicate_append_same)
qed

lemma boot_lost:
  assumes "boot_waiting l n c" and "\<not> res_ok r" and "\<not> Suc n < REFRESH_ATTEMPTS"
  defines "c' \<equiv> refresh_resume 0 (apiFetch_on_response (Suc n) r c)"
  shows "client_pc c' 0 = Settled (Inr (VBool False)) \<and> \<not> isAuthenticated c' \<and>
    map fe_path (c_fetched c') = replicate (Suc n) ''/api/v1/auth/refresh'' \<and> c_calls c' = [(l, SLogout)]"
proof -
  let ?d = "apiFetch_on_response (Suc n) r c"
  have c': "c' = set_pc 0 (Settled (Inr (VBool False))) (handleSessionLost ?d)"
    using assms(3) boot_refused_pc [OF assms(1, 2)]
    by (simp add: c'_def refresh_resume_def session_lost_in_def)
  show ?thesis
    unfolding c' boot_refused [OF assms(1, 2)] using assms(1)
    by (simp add: boot_waiting_def wake_all_def set_pc_def client_pc_def handleSessionLost_def
        notify_def clearSession_def isAuthenticated_def)
qed

text \<open>
  Property C34. Opening the application without a session: \<open>bootstrap()\<close> sends the refresh request
  exactly three times when the server refuses each of them, waits before the second and the third,
  then resolves to \<open>false\<close>, holds no token and has told every listener about the logout; the page
  that was loading redirects to the login.\<close>

theorem bootstrap_gives_up_after_three:
  assumes "\<not> res_ok r1" and "\<not> res_ok r2" and "\<not> res_ok r3"
  shows "let c0 = bootstrap_start (subscribeSession l (initial_client ch));
      c1 = refresh_resume 0 (apiFetch_on_response 1 r1 c0);
      c2 = refresh_resume 0 (apiFetch_on_response 2 r2 (refresh_timer 0 c1));
      c3 = refresh_resume 0 (apiFetch_on_response 3 r3 (refresh_timer 0 c2)) in
    client_pc c1 0 = Sleeping None 1 \<and> client_pc c2 0 = Sleeping None 2 \<and>
    client_pc c3 0 = Settled (Inr (VBool False)) \<and>
    map fe_path (c_fetched c3) = replicate 3 ''/api/v1/auth/refresh'' \<and>
    \<not> isAuthenticated c3 \<and> c_calls c3 = [(l, SLogout)] \<and>
    RequireAuth (fst (auth_bootstrapped False (auth_init cache))) = RedirectToLogin"
proof -
  let ?c0 = "bootstrap_start (subscribeSession l (initial_client ch))"
  let ?c1 = "refresh_resume 0 (apiFetch_on_response 1 r1 ?c0)"
  let ?c2 = "refresh_resume 0 (apiFetch_on_response 2 r2 (refresh_timer 0 ?c1))"
  let ?c3 = "refresh_resume 0 (apiFetch_on_response 3 r3 (refresh_timer 0 ?c2))"
  have 1: "client_pc ?c1 0 = Sleeping None 1 \<and> boot_waiting l 1 (refresh_timer 0 ?c1)"
    using boot_next [OF boot_waiting_start assms(1)] by (simp add: REFRESH_ATTEMPTS_def)
  have 2: "client_pc ?c2 0 = Sleeping None 2 \<and> boot_waiting l 2 (refresh_timer 0 ?c2)"
    using boot_next [OF conjunct2 [OF 1] assms(2)] by (simp add: REFRESH_ATTEMPTS_def numeral_2_eq_2)
  have 3: "client_pc ?c3 0 = Settled (Inr (VBool False)) \<and> \<not> isAuthenticated ?c3 \<and>
      map fe_path (c_fetched ?c3) = replicate 3 ''/api/v1/auth/refresh'' \<and> c_calls ?c3 = [(l, SLogout)]"
    using boot_lost [OF conjunct2 [OF 2] assms(3)]
    by (simp add: REFRESH_ATTEMPTS_def numeral_3_eq_3 numeral_2_eq_2)
  have "RequireAuth (fst (auth_bootstrapped False (auth_init cache))) = RedirectToLogin"
    by (simp add: auth_defs Let_def)
  with 1 2 3 show ?thesis unfolding Let_def by blast
qed

theorem bootstrap_gives_up_after_three_witness:
  "\<not> res_ok demo_refused \<and>
   (let c0 = bootstrap_start (subscribeSession 7 (initial_client True));
        c1 = refresh_resume 0 (apiFetch_on_response 1 demo_refused c0)
    in client_pc c1 0 = Sleeping None 1)"
proof -
  have r: "\<not> res_ok demo_refused" by (simp add: demo_refused_def res_ok_def)
  from bootstrap_gives_up_after_three [OF r r r, of 7 True "[]"] r
  show ?thesis unfolding Let_def by blast
qed

end
