(* ===== verification/Uri.thy ===== *)
theory Uri
  imports Js_Prelude
begin

text \<open>
  URLs as the client builds them and as a server reads them: \<open>encodeURIComponent\<close>,
  \<open>decodeURIComponent\<close>, \<open>URLSearchParams\<close>, and the split of a URL into its path segments and its
  query. A string is its UTF-8 bytes, so percent-encoding works byte by byte; lone surrogates, on
  which \<open>encodeURIComponent\<close> throws, are not strings of the model.
\<close>

section \<open>Percent-encoding\<close>

definition hex_upper :: "nat \<Rightarrow> char" where
  "hex_upper n = ''0123456789ABCDEF'' ! n"

definition hex_value :: "char \<Rightarrow> nat option" where
  "hex_value c = (let n = of_char c :: nat in
     if 48 \<le> n \<and> n \<le> 57 then Some (n - 48)
     else if 65 \<le> n \<and> n \<le> 70 then Some (n - 55)
     else if 97 \<le> n \<and> n \<le> 102 then Some (n - 87)
     else None)"

definition is_alnum :: "char \<Rightarrow> bool" where
  "is_alnum c \<longleftrightarrow> (let n = of_char c :: nat in
     (48 \<le> n \<and> n \<le> 57) \<or> (65 \<le> n \<and> n \<le> 90) \<or> (97 \<le> n \<and> n \<le> 122))"

definition percent_encode :: "char \<Rightarrow> string" where
  "percent_encode c = (let n = of_char c :: nat in [CHR ''%'', hex_upper (n div 16), hex_upper (n mod 16)])"

text \<open>The characters that \<open>encodeURIComponent\<close> keeps; 39 is the apostrophe.\<close>

definition uri_unreserved :: "char \<Rightarrow> bool" where
  "uri_unreserved c \<longleftrightarrow> is_alnum c \<or> c \<in> set ''-_.!~*()'' \<or> c = CHR 0x27"

definition encodeURIComponent :: "string \<Rightarrow> string" where
  "encodeURIComponent s = concat (map (\<lambda>c. if uri_unreserved c then [c] else percent_encode c) s)"

text \<open>\<open>None\<close> is the \<open>URIError\<close> of a malformed escape.\<close>

fun decodeURIComponent :: "string \<Rightarrow> string option" where
  "decodeURIComponent [] = Some []"
| "decodeURIComponent (c # s) =
     (if c = CHR ''%'' then
        (case s of
           a # b # r \<Rightarrow>
             (case (hex_value a, hex_value b) of
                (Some x, Some y) \<Rightarrow> map_option ((#) (char_of (16 * x + y))) (decodeURIComponent r)
              | _ \<Rightarrow> None)
         | _ \<Rightarrow> None)
      else map_option ((#) c) (decodeURIComponent s))"

section \<open>URLSearchParams\<close>

type_synonym params = "(string, string) js_map"

text \<open>The serializer of \<open>application/x-www-form-urlencoded\<close>.\<close>

definition form_char :: "char \<Rightarrow> string" where
  "form_char c =
     (if is_alnum c \<or> c \<in> set ''*-._'' then [c]
      else if c = CHR '' '' then ''+''
      else percent_encode c)"

definition form_encode :: "string \<Rightarrow> string" where
  "form_encode s = concat (map form_char s)"

definition params_toString :: "params \<Rightarrow> string" where
  "params_toString ps = js_join ''&'' (map (\<lambda>(k, v). form_encode k @ ''='' @ form_encode v) ps)"

text \<open>The reader on the other side of the request.\<close>

definition form_decode :: "string \<Rightarrow> string option" where
  "form_decode s = decodeURIComponent (map (\<lambda>c. if c = CHR ''+'' then CHR '' '' else c) s)"

definition parse_pair :: "string \<Rightarrow> (string \<times> string) option" where
  "parse_pair p =
     (case js_split (CHR ''='') p of
        k # rest \<Rightarrow> (case (form_decode k, form_decode (js_join ''='' rest)) of
            (Some k', Some v') \<Rightarrow> Some (k', v') | _ \<Rightarrow> None)
      | [] \<Rightarrow> None)"

definition parse_params :: "string \<Rightarrow> params option" where
  "parse_params q =
     (if q = [] then Some [] else those (map parse_pair (js_split (CHR ''&'') q)))"

section \<open>The parts of a URL\<close>

definition url_path :: "string \<Rightarrow> string" where
  "url_path u = takeWhile (\<lambda>c. c \<noteq> CHR ''?'') u"

definition url_query :: "string \<Rightarrow> string" where
  "url_query u = drop 1 (dropWhile (\<lambda>c. c \<noteq> CHR ''?'') u)"

text \<open>
  The segments after the leading slash, each decoded on its own, which is how the router of the pages reads an
  address. Removing \<open>.\<close> and \<open>..\<close> segments, as browsers do when they resolve a URL, is left to \<open>resolve_dots\<close>.
\<close>

definition url_segments :: "string \<Rightarrow> string option list" where
  "url_segments u = map decodeURIComponent (tl (js_split (CHR ''/'') (url_path u)))"

text \<open>
  Browsers resolve a URL first: a segment \<open>.\<close> is dropped and a segment \<open>..\<close> takes the one before it along, both also
  with the dots written as \<open>%2e\<close>; at the end of the path an empty segment remains.
\<close>

definition single_dots :: "string list" where
  "single_dots = [''.'', ''%2e'', ''%2E'']"

definition double_dots :: "string list" where
  "double_dots = map (\<lambda>(x, y). x @ y) (List.product single_dots single_dots)"

fun resolve_dots :: "string list \<Rightarrow> string list \<Rightarrow> string list" where
  "resolve_dots acc [] = rev acc"
| "resolve_dots acc (s # ss) =
     (if s \<in> set double_dots then resolve_dots (if ss = [] then [] # tl acc else tl acc) ss
      else if s \<in> set single_dots then resolve_dots (if ss = [] then [] # acc else acc) ss
      else resolve_dots (s # acc) ss)"

text \<open>
  The segments a server sees that decodes the whole path, as \<open>net/url\<close> does, and splits it at the slashes then, so
  that an encoded slash separates segments too.
\<close>

definition request_segments :: "string \<Rightarrow> string list option" where
  "request_segments u =
     map_option (js_split (CHR ''/'')) (decodeURIComponent (js_join ''/'' (resolve_dots [] (tl (js_split (CHR ''/'') (url_path u))))))"

lemmas uri_defs [js_defs] =
  hex_upper_def hex_value_def is_alnum_def percent_encode_def uri_unreserved_def
  encodeURIComponent_def form_char_def form_encode_def params_toString_def form_decode_def
  parse_pair_def parse_params_def url_path_def url_query_def url_segments_def

section \<open>Laws of the encoding\<close>

lemma hex_upper_cases:
  "n < 16 \<Longrightarrow> of_char (hex_upper n) = (if n < 10 then 48 + n else 55 + n)"
proof -
  have "list_all (\<lambda>n. of_char (hex_upper n) = (if n < 10 then 48 + n else 55 + n)) [0..<16]"
    by code_simp
  then show "n < 16 \<Longrightarrow> ?thesis" by (simp add: list_all_iff)
qed

lemma hex_value_upper: "n < 16 \<Longrightarrow> hex_value (hex_upper n) = Some n"
  by (simp add: hex_value_def hex_upper_cases)

lemma is_alnum_hex: "n < 16 \<Longrightarrow> is_alnum (hex_upper n)"
  by (simp add: is_alnum_def hex_upper_cases)

lemma of_char_less: "(of_char c :: nat) < 256"
  by (rule nat_of_char_less_256)

lemma hex_digits: "(of_char c :: nat) div 16 < 16" "(of_char c :: nat) mod 16 < 16"
  using of_char_less [of c] by (auto intro: less_mult_imp_div_less)

lemma decode_percent:
  "decodeURIComponent (percent_encode c @ r) = map_option ((#) c) (decodeURIComponent r)"
proof -
  have "16 * ((of_char c :: nat) div 16) + of_char c mod 16 = of_char c" by simp
  then show ?thesis
    using hex_digits [of c]
    by (simp add: percent_encode_def Let_def hex_value_upper)
qed

lemma decode_plain: "c \<noteq> CHR ''%'' \<Longrightarrow> decodeURIComponent (c # r) = map_option ((#) c) (decodeURIComponent r)"
  by simp

lemma alnum_not_percent: "is_alnum c \<Longrightarrow> c \<noteq> CHR ''%''"
  by (auto simp: is_alnum_def)

lemma unreserved_not_percent: "uri_unreserved c \<Longrightarrow> c \<noteq> CHR ''%''"
  by (auto simp: uri_unreserved_def is_alnum_def)

text \<open>Decoding inverts encoding, also in front of more text.\<close>

lemma decode_encode_append:
  "decodeURIComponent (encodeURIComponent s @ r) = map_option ((@) s) (decodeURIComponent r)"
proof (induction s)
  case Nil
  then show ?case by (simp add: encodeURIComponent_def option.map_ident)
next
  case (Cons c s)
  have step: "encodeURIComponent (c # s) @ r =
      (if uri_unreserved c then [c] else percent_encode c) @ (encodeURIComponent s @ r)"
    by (simp add: encodeURIComponent_def)
  show ?case
    unfolding step using Cons unreserved_not_percent [of c]
    by (cases "decodeURIComponent r") (auto simp: decode_percent decode_plain)
qed

lemma decode_encode [simp]: "decodeURIComponent (encodeURIComponent s) = Some s"
  using decode_encode_append [of s "[]"] by simp

lemma encodeURIComponent_inj: "encodeURIComponent s = encodeURIComponent t \<longleftrightarrow> s = t"
  by (metis decode_encode option.inject)

lemma encode_chars:
  "c \<in> set (encodeURIComponent s) \<Longrightarrow> uri_unreserved c \<or> c = CHR ''%''"
proof (induction s)
  case (Cons x s)
  have hex: "uri_unreserved (hex_upper n)" if "n < 16" for n
    using is_alnum_hex [OF that] by (simp add: uri_unreserved_def)
  from Cons hex hex_digits [of x] show ?case
    by (auto simp: encodeURIComponent_def percent_encode_def Let_def split: if_splits)
qed (simp add: encodeURIComponent_def)

text \<open>None of the characters with a meaning in a URL survives the encoding.\<close>

lemma encode_no_delimiter:
  assumes "d \<in> set ''/?#&=+ :@;,$<>'' \<or> d = CHR 0x22"
  shows "d \<notin> set (encodeURIComponent s)"
  using assms encode_chars [of d s] by (auto simp: uri_unreserved_def is_alnum_def)

lemma encode_no_slash [simp]: "CHR ''/'' \<notin> set (encodeURIComponent s)"
  and encode_no_question [simp]: "CHR ''?'' \<notin> set (encodeURIComponent s)"
  by (rule encode_no_delimiter; simp)+

lemma encode_empty_iff [simp]: "encodeURIComponent s = [] \<longleftrightarrow> s = []"
  by (cases s) (auto simp: encodeURIComponent_def percent_encode_def Let_def)

section \<open>Laws of the query string\<close>

lemma form_chars: "c \<in> set (form_encode s) \<Longrightarrow> is_alnum c \<or> c \<in> set ''*-._+%''"
proof -
  have char: "is_alnum c \<or> c \<in> set ''*-._+%''" if "c \<in> set (form_char x)" for x
    using that is_alnum_hex [OF hex_digits(1) [of x]] is_alnum_hex [OF hex_digits(2) [of x]]
    by (cases "is_alnum x") (auto simp: form_char_def percent_encode_def Let_def split: if_splits)
  assume "c \<in> set (form_encode s)"
  then obtain x where "c \<in> set (form_char x)" by (auto simp: form_encode_def)
  then show ?thesis by (rule char)
qed

lemma form_no_amp [simp]: "CHR ''&'' \<notin> set (form_encode s)"
  and form_no_eq [simp]: "CHR ''='' \<notin> set (form_encode s)"
  and form_no_question [simp]: "CHR ''?'' \<notin> set (form_encode s)"
  using form_chars [of "CHR ''&''" s] form_chars [of "CHR ''=''" s] form_chars [of "CHR ''?''" s]
  by (auto simp: is_alnum_def)

lemma alnum_not_plus: "is_alnum c \<Longrightarrow> c \<noteq> CHR ''+''"
  by (auto simp: is_alnum_def)

lemma form_decode_encode [simp]: "form_decode (form_encode s) = Some s"
proof (induction s)
  case (Cons c s)
  let ?plus = "\<lambda>c. if c = CHR ''+'' then CHR '' '' else c"
  have IH: "decodeURIComponent (map ?plus (form_encode s)) = Some s"
    using Cons by (simp add: form_decode_def)
  have step: "map ?plus (form_encode (c # s)) = map ?plus (form_char c) @ map ?plus (form_encode s)"
    by (simp add: form_encode_def)
  have pct: "map ?plus (percent_encode c) = percent_encode c"
    using hex_digits [of c] alnum_not_plus [OF is_alnum_hex]
    by (auto simp: percent_encode_def Let_def)
  consider "is_alnum c \<or> c \<in> set ''*-._''" | "c = CHR '' ''"
    | "\<not> (is_alnum c \<or> c \<in> set ''*-._'')" "c \<noteq> CHR '' ''"
    by blast
  then show ?case
  proof cases
    case 1
    then have "c \<noteq> CHR ''%''" "c \<noteq> CHR ''+''" by (auto simp: is_alnum_def)
    then have "map ?plus (form_char c) = [c]" "c \<noteq> CHR ''%''" using 1 by (auto simp: form_char_def)
    then show ?thesis unfolding form_decode_def step using IH by (simp add: decode_plain)
  next
    case 2
    then have "map ?plus (form_char c) = [CHR '' '']" by (simp add: form_char_def is_alnum_def)
    then show ?thesis unfolding form_decode_def step using IH 2 by (simp add: decode_plain)
  next
    case 3
    then have "map ?plus (form_char c) = percent_encode c" using pct by (auto simp: form_char_def)
    then show ?thesis unfolding form_decode_def step using IH by (simp add: decode_percent)
  qed
qed (simp add: form_decode_def form_encode_def)

lemma parse_pair_encode [simp]: "parse_pair (form_encode k @ CHR ''='' # form_encode v) = Some (k, v)"
  by (simp add: parse_pair_def js_split_append_sep js_split_no_sep)

lemma those_map_Some: "(\<And>x. x \<in> set xs \<Longrightarrow> f x = Some (g x)) \<Longrightarrow> those (map f xs) = Some (map g xs)"
  by (induction xs) auto

lemma parse_params_toString [simp]: "parse_params (params_toString ps) = Some ps"
proof (cases ps)
  case Nil
  then show ?thesis by (simp add: params_toString_def parse_params_def)
next
  case (Cons p qs)
  let ?enc = "\<lambda>(k, v). form_encode k @ ''='' @ form_encode v"
  have nonempty: "js_join ''&'' (map ?enc ps) \<noteq> []"
    using Cons by (cases qs) (auto split: prod.splits)
  have split: "js_split (CHR ''&'') (js_join ''&'' (map ?enc ps)) = map ?enc ps"
    by (rule js_split_join) (use Cons in \<open>auto\<close>)
  have "those (map parse_pair (map ?enc ps)) = Some (map id ps)"
    by (simp only: map_map, rule those_map_Some) auto
  with nonempty split show ?thesis by (simp add: params_toString_def parse_params_def)
qed

lemma params_no_question [simp]: "CHR ''?'' \<notin> set (params_toString ps)"
proof -
  have "CHR ''?'' \<notin> set (js_join ''&'' xs)" if "\<forall>x \<in> set xs. CHR ''?'' \<notin> set x" for xs
    using that by (induction xs rule: induct_list012) auto
  then show ?thesis by (auto simp: params_toString_def)
qed

lemma params_toString_Nil [simp]: "params_toString [] = []"
  by (simp add: params_toString_def)

lemma params_toString_empty_iff [simp]: "params_toString ps = [] \<longleftrightarrow> ps = []"
  using parse_params_toString [of ps] by (auto simp: parse_params_def)

section \<open>Laws of the parts of a URL\<close>

text \<open>
  The rules by which the segments of a URL built from literals and encoded parameters are computed.
\<close>

lemma takeWhile_encode [simp]:
  "takeWhile (\<lambda>c. c \<noteq> CHR ''?'') (encodeURIComponent s @ r) =
     encodeURIComponent s @ takeWhile (\<lambda>c. c \<noteq> CHR ''?'') r"
  by (rule takeWhile_append2) (metis encode_no_question)

lemma dropWhile_encode [simp]:
  "dropWhile (\<lambda>c. c \<noteq> CHR ''?'') (encodeURIComponent s @ r) = dropWhile (\<lambda>c. c \<noteq> CHR ''?'') r"
  by (rule dropWhile_append2) (metis encode_no_question)

lemma takeWhile_encode_end [simp]:
  "takeWhile (\<lambda>c. c \<noteq> CHR ''?'') (encodeURIComponent s) = encodeURIComponent s"
  using takeWhile_encode [of s "[]"] by simp

lemma dropWhile_encode_end [simp]:
  "dropWhile (\<lambda>c. c \<noteq> CHR ''?'') (encodeURIComponent s) = []"
  using dropWhile_encode [of s "[]"] by simp

lemma split_encode [simp]:
  "js_split (CHR ''/'') (encodeURIComponent s @ CHR ''/'' # r) =
     encodeURIComponent s # js_split (CHR ''/'') r"
  by (simp add: js_split_append_sep)

lemma split_encode_end [simp]: "js_split (CHR ''/'') (encodeURIComponent s) = [encodeURIComponent s]"
  by (simp add: js_split_no_sep)

section \<open>Requests as a server sees them\<close>

text \<open>A segment that is neither empty nor a dot segment and has no slash.\<close>

definition plain_segment :: "string \<Rightarrow> bool" where
  "plain_segment s \<longleftrightarrow> s \<noteq> [] \<and> CHR ''/'' \<notin> set s \<and> s \<noteq> ''.'' \<and> s \<noteq> ''..''"

lemma decode_dots:
  "list_all (\<lambda>s. decodeURIComponent s = Some ''.'') single_dots \<and> list_all (\<lambda>s. decodeURIComponent s = Some ''..'') double_dots"
  by code_simp

lemma decode_plain_no_dots:
  assumes "decodeURIComponent r = Some s" "plain_segment s"
  shows "r \<notin> set single_dots" "r \<notin> set double_dots"
  using decode_dots assms by (auto simp: list_all_iff plain_segment_def)

lemma resolve_no_dots:
  "\<forall>s \<in> set ss. s \<notin> set single_dots \<and> s \<notin> set double_dots \<Longrightarrow> resolve_dots acc ss = rev acc @ ss"
  by (induction ss arbitrary: acc) auto

lemma decode_append:
  "decodeURIComponent s = Some t \<Longrightarrow> decodeURIComponent (s @ r) = map_option ((@) t) (decodeURIComponent r)"
proof (induction s arbitrary: t rule: decodeURIComponent.induct)
  case 1
  then show ?case by (simp add: option.map_ident)
next
  case (2 c s)
  show ?case
  proof (cases "c = CHR ''%''")
    case False
    then obtain t' where t: "decodeURIComponent s = Some t'" "t = c # t'" using 2(3) by auto
    then show ?thesis using False 2(2) [OF False t(1)] by (simp add: option.map_comp comp_def)
  next
    case True
    with 2(3) obtain a b q x y t' where s: "s = a # b # q" "hex_value a = Some x" "hex_value b = Some y"
        "decodeURIComponent q = Some t'" "t = char_of (16 * x + y) # t'"
      by (auto split: list.splits option.splits)
    have "decodeURIComponent (q @ r) = map_option ((@) t') (decodeURIComponent r)" using 2(1) True s by blast
    then show ?thesis using True s by (simp add: option.map_comp comp_def)
  qed
qed

lemma decode_join:
  "those (map decodeURIComponent rs) = Some ss \<Longrightarrow> decodeURIComponent (js_join ''/'' rs) = Some (js_join ''/'' ss)"
proof (induction rs arbitrary: ss rule: induct_list012)
  case (3 a b rs)
  then obtain t u where t: "decodeURIComponent a = Some t" "those (map decodeURIComponent (b # rs)) = Some u" "ss = t # u"
    by (auto split: option.splits)
  then have u: "u \<noteq> []" by (auto split: option.splits)
  have "decodeURIComponent (''/'' @ js_join ''/'' (b # rs)) = Some (''/'' @ js_join ''/'' u)" using 3(2) t(2) by simp
  then show ?case using decode_append [OF t(1), of "''/'' @ js_join ''/'' (b # rs)"] t(3) u by (simp add: js_join_Cons)
qed (auto split: option.splits)

text \<open>For plain segments the two readings agree.\<close>

lemma request_plain_segments:
  assumes "those (url_segments u) = Some ss" "ss \<noteq> []" "list_all plain_segment ss"
  shows "request_segments u = Some ss"
proof -
  define rs where "rs = tl (js_split (CHR ''/'') (url_path u))"
  have d: "those (map decodeURIComponent rs) = Some ss" using assms(1) by (simp add: url_segments_def rs_def)
  then have "\<forall>x \<in> set rs. \<exists>s \<in> set ss. decodeURIComponent x = Some s"
    by (induction rs arbitrary: ss) (auto split: option.splits)
  then have "\<forall>x \<in> set rs. x \<notin> set single_dots \<and> x \<notin> set double_dots"
    using decode_plain_no_dots assms(3) by (fastforce simp: list_all_iff)
  then have "resolve_dots [] rs = rs" using resolve_no_dots [of rs "[]"] by simp
  moreover have "js_split (CHR ''/'') (js_join ''/'' ss) = ss"
    using assms(2,3) by (intro js_split_join) (auto simp: list_all_iff plain_segment_def)
  ultimately show ?thesis using decode_join [OF d] by (simp add: request_segments_def rs_def)
qed

end
