(* ===== verification/Endpoints.thy ===== *)
theory Endpoints
  imports Uri Json Web_Session
begin

text \<open>
  The calls of the web client to the server, \<open>web/src/api/endpoints.ts\<close>, and the links of the
  repository pages, \<open>web/src/components/repo/repoPaths.ts\<close>: one definition per function, giving
  the request it sends. The second half states what a server makes of these requests: the routes
  registered under \<open>src/internal/http/api\<close> and \<open>src/ee\<close> are listed in \<open>Api_Routes\<close>, where every request is
  shown to be an instance of one of them.
\<close>

section \<open>Requests\<close>

record ApiCall =
  ep_method :: string
  ep_url :: string
  ep_body :: "string option"

definition api_get :: "string \<Rightarrow> ApiCall" where
  "api_get url = \<lparr>ep_method = ''GET'', ep_url = url, ep_body = None\<rparr>"

definition api_delete :: "string \<Rightarrow> ApiCall" where
  "api_delete url = \<lparr>ep_method = ''DELETE'', ep_url = url, ep_body = None\<rparr>"

definition api_send :: "string \<Rightarrow> string \<Rightarrow> json \<Rightarrow> ApiCall" where
  "api_send meth url body = \<lparr>ep_method = meth, ep_url = url, ep_body = Some (json_stringify body)\<rparr>"

text \<open>\<open>if (v) params.set(k, v)\<close>, and the suffix a non-empty query adds.\<close>

definition set_if :: "bool \<Rightarrow> string \<Rightarrow> string \<Rightarrow> params \<Rightarrow> params" where
  "set_if b k v ps = (if b then js_map_set ps k v else ps)"

definition set_opt :: "string \<Rightarrow> string option \<Rightarrow> params \<Rightarrow> params" where
  "set_opt k v ps = set_if (truthy v) k (coalesce v []) ps"

definition set_num :: "string \<Rightarrow> int option \<Rightarrow> params \<Rightarrow> params" where
  "set_num k v ps = set_if (coalesce v 0 \<noteq> 0) k (js_show_int (coalesce v 0)) ps"

definition with_query :: "string \<Rightarrow> params \<Rightarrow> string" where
  "with_query base ps =
     (let query = params_toString ps in base @ (if query \<noteq> [] then ''?'' @ query else []))"

definition js_bool :: "bool \<Rightarrow> string" where
  "js_bool b = (if b then ''true'' else ''false'')"

text \<open>An object literal whose undefined properties \<open>JSON.stringify\<close> leaves out.\<close>

definition json_object :: "(string \<times> json option) list \<Rightarrow> json" where
  "json_object fs = JObject (map (\<lambda>(k, v). (k, the v)) (filter (\<lambda>(k, v). v \<noteq> None) fs))"

definition json_strings :: "string list \<Rightarrow> json" where
  "json_strings xs = JArray (map JString xs)"

definition projectBase :: "string \<Rightarrow> string \<Rightarrow> string" where
  "projectBase org project =
     ''/api/v1/orgs/'' @ encodeURIComponent org @ ''/projects/'' @ encodeURIComponent project"

definition mergeRequestBase :: "string \<Rightarrow> string \<Rightarrow> string \<Rightarrow> string" where
  "mergeRequestBase org project i =
     projectBase org project @ ''/merge-requests/'' @ encodeURIComponent i"

definition webhookBase :: "string \<Rightarrow> string \<Rightarrow> string \<Rightarrow> string" where
  "webhookBase org project wid = projectBase org project @ ''/webhooks/'' @ encodeURIComponent wid"

definition orgBase :: "string \<Rightarrow> string" where
  "orgBase org = ''/api/v1/orgs/'' @ encodeURIComponent org"

section \<open>Response bodies\<close>

text \<open>
  \<open>getOnboardingCapabilities\<close>, \<open>listIdentities\<close>, \<open>getOrgStorage\<close> and \<open>getMyBilling\<close>: a 404 means
  that the server has no such feature and gives \<open>null\<close>.
\<close>

definition null_on_404 :: "Response \<Rightarrow> session_error + json" where
  "null_on_404 res =
     (if res_status res = 404 then Inr JNull
      else if \<not> res_ok res then Inl (errorFromResponse res)
      else case res_json res of None \<Rightarrow> Inl SyntaxError | Some j \<Rightarrow> Inr j)"

record BlobResponse =
  bl_text :: string
  bl_contentType :: string
  bl_size :: nat
  bl_isBinary :: bool

definition blob_result :: "Response \<Rightarrow> string option \<Rightarrow> session_error + BlobResponse" where
  "blob_result res contentType =
     (if \<not> res_ok res then Inl (errorFromResponse res)
      else let ct = coalesce contentType ''application/octet-stream'' in
        Inr \<lparr>bl_text = res_text res, bl_contentType = ct, bl_size = length (res_text res),
             bl_isBinary = (\<not> js_startsWith ct ''text/'' \<and> \<not> js_includes ct ''json'')\<rparr>)"

section \<open>Account\<close>

definition getMe :: "ApiCall" where
  "getMe = api_get ''/api/v1/me''"

definition getOnboardingCapabilities :: "ApiCall" where
  "getOnboardingCapabilities = api_get ''/api/v1/auth/capabilities''"

definition registerAccount :: "string \<Rightarrow> string \<Rightarrow> ApiCall" where
  "registerAccount name email = api_send ''POST'' ''/api/v1/auth/register'' (JObject [(''name'', JString name), (''email'', JString email)])"

definition resendVerification :: "string \<Rightarrow> ApiCall" where
  "resendVerification email = api_send ''POST'' ''/api/v1/auth/register/resend'' (JObject [(''email'', JString email)])"

definition oauthStartURL :: "string \<Rightarrow> string \<Rightarrow> string" where
  "oauthStartURL provider redirect =
     ''/api/v1/auth/oauth/'' @ encodeURIComponent provider @ ''/start?redirect='' @ encodeURIComponent redirect"

definition listIdentities :: "ApiCall" where
  "listIdentities = api_get ''/api/v1/me/identities''"

definition startIdentityLink :: "string \<Rightarrow> string \<Rightarrow> ApiCall" where
  "startIdentityLink provider redirect = api_get (''/api/v1/me/identities/'' @ encodeURIComponent provider @
     ''/start?redirect='' @ encodeURIComponent redirect)"

definition disconnectIdentity :: "string \<Rightarrow> ApiCall" where
  "disconnectIdentity i = api_delete (''/api/v1/me/identities/'' @ encodeURIComponent i)"

definition updateMyProfile :: "string \<Rightarrow> string \<Rightarrow> bool \<Rightarrow> ApiCall" where
  "updateMyProfile name photoUrl notifyEmail = api_send ''PATCH'' ''/api/v1/me''
     (JObject [(''name'', JString name), (''photo_url'', JString photoUrl), (''notify_email'', JBool notifyEmail)])"

definition changeMyPassword :: "string \<Rightarrow> string \<Rightarrow> ApiCall" where
  "changeMyPassword oldPassword newPassword = api_send ''POST'' ''/api/v1/me/password''
     (JObject [(''old_password'', JString oldPassword), (''new_password'', JString newPassword)])"

definition listMySSHKeys :: "ApiCall" where
  "listMySSHKeys = api_get ''/api/v1/keys''"

definition addMySSHKey :: "string \<Rightarrow> string \<Rightarrow> ApiCall" where
  "addMySSHKey name publicKey = api_send ''POST'' ''/api/v1/keys'' (JObject [(''name'', JString name), (''public_key'', JString publicKey)])"

definition removeMySSHKey :: "string \<Rightarrow> ApiCall" where
  "removeMySSHKey i = api_delete (''/api/v1/keys/'' @ encodeURIComponent i)"

section \<open>Organizations and projects\<close>

definition listOrgs :: "ApiCall" where
  "listOrgs = api_get ''/api/v1/orgs''"

definition createOrg :: "string \<Rightarrow> string \<Rightarrow> ApiCall" where
  "createOrg name slug = api_send ''POST'' ''/api/v1/orgs'' (JObject [(''name'', JString name), (''slug'', JString slug)])"

definition listProjects :: "string \<Rightarrow> ApiCall" where
  "listProjects org = api_get (orgBase org @ ''/projects'')"

definition createProject :: "string \<Rightarrow> string \<Rightarrow> string \<Rightarrow> string \<Rightarrow> ApiCall" where
  "createProject org name description slug = api_send ''POST'' (orgBase org @ ''/projects'')
     (JObject [(''name'', JString name), (''description'', JString description), (''slug'', JString slug)])"

definition updateProject :: "string \<Rightarrow> string \<Rightarrow> string \<Rightarrow> string \<Rightarrow> ApiCall" where
  "updateProject org project name description = api_send ''PATCH'' (projectBase org project)
     (JObject [(''name'', JString name), (''description'', JString description)])"

definition deleteProject :: "string \<Rightarrow> string \<Rightarrow> ApiCall" where
  "deleteProject org project = api_delete (projectBase org project)"

section \<open>Trees, branches, tags and commits\<close>

definition getTree :: "string \<Rightarrow> string \<Rightarrow> string \<Rightarrow> string \<Rightarrow> bool \<Rightarrow> bool \<Rightarrow> ApiCall" where
  "getTree org project revn path history recursive = api_get (with_query (projectBase org project @ ''/tree'')
     (set_if recursive ''recursive'' ''1'' (set_if history ''history'' ''1''
       (set_if (path \<noteq> []) ''path'' path (set_if (revn \<noteq> []) ''rev'' revn [])))))"

definition fetchBlob :: "string \<Rightarrow> string \<Rightarrow> string \<Rightarrow> string \<Rightarrow> ApiCall" where
  "fetchBlob org project revn path = api_get (projectBase org project @ ''/blob?'' @
     params_toString (set_if (revn \<noteq> []) ''rev'' revn [(''path'', path)]))"

definition listBranches :: "string \<Rightarrow> string \<Rightarrow> int option \<Rightarrow> (string \<times> string) option \<Rightarrow> ApiCall" where
  "listBranches org project limit after = api_get (with_query (projectBase org project @ ''/branches'')
     (let ps = set_num ''limit'' limit [] in
      case after of None \<Rightarrow> ps
      | Some (last_id, stamp) \<Rightarrow> js_map_set (js_map_set ps ''last_id'' last_id) ''last_updated_at'' stamp))"

definition createBranch :: "string \<Rightarrow> string \<Rightarrow> string \<Rightarrow> string \<Rightarrow> ApiCall" where
  "createBranch org project name from = api_send ''POST'' (projectBase org project @ ''/branches'')
     (JObject [(''name'', JString name), (''from'', JString from)])"

definition renameBranch :: "string \<Rightarrow> string \<Rightarrow> string \<Rightarrow> string \<Rightarrow> ApiCall" where
  "renameBranch org project name newName = api_send ''PATCH'' (projectBase org project @ ''/branches/'' @ encodeURIComponent name)
     (JObject [(''name'', JString newName)])"

definition deleteBranch :: "string \<Rightarrow> string \<Rightarrow> string \<Rightarrow> ApiCall" where
  "deleteBranch org project name = api_delete (projectBase org project @ ''/branches/'' @ encodeURIComponent name)"

definition setDefaultBranch :: "string \<Rightarrow> string \<Rightarrow> string \<Rightarrow> ApiCall" where
  "setDefaultBranch org project name = api_send ''POST'' (projectBase org project @ ''/branches/'' @ encodeURIComponent name @ ''/default'') (JObject [])"

definition setBranchProtection :: "string \<Rightarrow> string \<Rightarrow> string \<Rightarrow> bool \<Rightarrow> int option \<Rightarrow> bool option \<Rightarrow> bool option \<Rightarrow> string list option \<Rightarrow> string list option \<Rightarrow> ApiCall" where
  "setBranchProtection org project name prot approvals dismiss checks reviewers required = api_send ''PUT'' (projectBase org project @ ''/branches/'' @ encodeURIComponent name @ ''/protection'')
     (json_object [(''protected'', Some (JBool prot)),
        (''required_approvals'', map_option JNum approvals),
        (''dismiss_stale_approvals'', map_option JBool dismiss),
        (''require_status_checks'', map_option JBool checks),
        (''required_reviewers'', map_option json_strings reviewers),
        (''required_checks'', map_option json_strings required)])"

definition listTags :: "string \<Rightarrow> string \<Rightarrow> int option \<Rightarrow> (string \<times> string) option \<Rightarrow> ApiCall" where
  "listTags org project limit after = api_get (with_query (projectBase org project @ ''/tags'')
     (let ps = set_num ''limit'' limit [] in
      case after of None \<Rightarrow> ps
      | Some (last_id, stamp) \<Rightarrow> js_map_set (js_map_set ps ''last_id'' last_id) ''last_created_at'' stamp))"

definition getTag :: "string \<Rightarrow> string \<Rightarrow> string \<Rightarrow> ApiCall" where
  "getTag org project name = api_get (projectBase org project @ ''/tags/'' @ encodeURIComponent name)"

definition createTag :: "string \<Rightarrow> string \<Rightarrow> string \<Rightarrow> string \<Rightarrow> string \<Rightarrow> ApiCall" where
  "createTag org project name from msg = api_send ''POST'' (projectBase org project @ ''/tags'')
     (JObject [(''name'', JString name), (''from'', JString from), (''message'', JString msg)])"

definition deleteTag :: "string \<Rightarrow> string \<Rightarrow> string \<Rightarrow> ApiCall" where
  "deleteTag org project name = api_delete (projectBase org project @ ''/tags/'' @ encodeURIComponent name)"

definition listCommits :: "string \<Rightarrow> string \<Rightarrow> string \<Rightarrow> string \<Rightarrow> string option \<Rightarrow> int option \<Rightarrow> ApiCall" where
  "listCommits org project branch path start limit = api_get (with_query (projectBase org project @ ''/commits'')
     (set_num ''limit'' limit (set_opt ''start'' start
       (set_if (path \<noteq> []) ''path'' path (set_if (branch \<noteq> []) ''branch'' branch [])))))"

definition getCommitDiff :: "string \<Rightarrow> string \<Rightarrow> string \<Rightarrow> string option \<Rightarrow> ApiCall" where
  "getCommitDiff org project commit base = api_get (projectBase org project @ ''/commits/'' @ encodeURIComponent commit @ ''/diff'' @
     (if truthy base then ''?base='' @ encodeURIComponent (coalesce base []) else []))"

section \<open>Merge requests\<close>

record MergeRequestFilter =
  mf_status :: "string option"
  mf_author :: "string option"
  mf_source :: "string option"
  mf_target :: "string option"
  mf_draft :: "bool option"
  mf_search :: "string option"
  mf_assignee :: "string option"
  mf_after :: "string option"
  mf_limit :: "int option"

definition merge_request_params :: "MergeRequestFilter \<Rightarrow> params" where
  "merge_request_params f =
     set_num ''limit'' (mf_limit f) (set_opt ''after'' (mf_after f)
       (set_opt ''assignee'' (mf_assignee f) (set_opt ''search'' (mf_search f)
         (set_if (mf_draft f \<noteq> None) ''draft'' (js_bool (coalesce (mf_draft f) False))
           (set_opt ''target'' (mf_target f) (set_opt ''source'' (mf_source f)
             (set_opt ''author'' (mf_author f) (set_opt ''status'' (mf_status f) []))))))))"

definition listMergeRequests :: "string \<Rightarrow> string \<Rightarrow> MergeRequestFilter \<Rightarrow> ApiCall" where
  "listMergeRequests org project f = api_get (with_query (projectBase org project @ ''/merge-requests'') (merge_request_params f))"

definition createMergeRequest :: "string \<Rightarrow> string \<Rightarrow> string \<Rightarrow> string \<Rightarrow> string \<Rightarrow> string \<Rightarrow> bool \<Rightarrow> ApiCall" where
  "createMergeRequest org project title description sourceBranch targetBranch draft = api_send ''POST'' (projectBase org project @ ''/merge-requests'')
     (JObject [(''title'', JString title), (''description'', JString description), (''source_branch'', JString sourceBranch), (''target_branch'', JString targetBranch), (''draft'', JBool draft)])"

definition getMergeRequest :: "string \<Rightarrow> string \<Rightarrow> string \<Rightarrow> ApiCall" where
  "getMergeRequest org project i = api_get (projectBase org project @ ''/merge-requests/'' @ encodeURIComponent i)"

definition setMergeRequestAssignees :: "string \<Rightarrow> string \<Rightarrow> string \<Rightarrow> string list \<Rightarrow> ApiCall" where
  "setMergeRequestAssignees org project i userIds = api_send ''POST'' (projectBase org project @ ''/merge-requests/'' @ encodeURIComponent i @ ''/assignees'')
     (JObject [(''user_ids'', json_strings userIds)])"

definition updateMergeRequest :: "string \<Rightarrow> string \<Rightarrow> string \<Rightarrow> string \<Rightarrow> string \<Rightarrow> bool option \<Rightarrow> ApiCall" where
  "updateMergeRequest org project i title description draft = api_send ''PATCH'' (projectBase org project @ ''/merge-requests/'' @ encodeURIComponent i)
     (json_object [(''title'', Some (JString title)), (''description'', Some (JString description)),
        (''draft'', map_option JBool draft)])"

definition mergeMergeRequest :: "string \<Rightarrow> string \<Rightarrow> string \<Rightarrow> string \<Rightarrow> bool \<Rightarrow> ApiCall" where
  "mergeMergeRequest org project i strategy deleteSource = api_send ''POST'' (projectBase org project @ ''/merge-requests/'' @ encodeURIComponent i @ ''/merge'')
     (JObject [(''strategy'', JString strategy), (''delete_source'', JBool deleteSource)])"

definition closeMergeRequest :: "string \<Rightarrow> string \<Rightarrow> string \<Rightarrow> ApiCall" where
  "closeMergeRequest org project i = api_send ''POST'' (projectBase org project @ ''/merge-requests/'' @ encodeURIComponent i @ ''/close'') (JObject [])"

definition reopenMergeRequest :: "string \<Rightarrow> string \<Rightarrow> string \<Rightarrow> ApiCall" where
  "reopenMergeRequest org project i = api_send ''POST'' (projectBase org project @ ''/merge-requests/'' @ encodeURIComponent i @ ''/reopen'') (JObject [])"

definition getMergeRequestDiff :: "string \<Rightarrow> string \<Rightarrow> string \<Rightarrow> ApiCall" where
  "getMergeRequestDiff org project i = api_get (projectBase org project @ ''/merge-requests/'' @ encodeURIComponent i @ ''/diff'')"

definition listMergeRequestChecks :: "string \<Rightarrow> string \<Rightarrow> string \<Rightarrow> ApiCall" where
  "listMergeRequestChecks org project i = api_get (projectBase org project @ ''/merge-requests/'' @ encodeURIComponent i @ ''/checks'')"

definition listMergeRequestCommits :: "string \<Rightarrow> string \<Rightarrow> string \<Rightarrow> ApiCall" where
  "listMergeRequestCommits org project i = api_get (mergeRequestBase org project i @ ''/commits'')"

definition listMergeRequestReviews :: "string \<Rightarrow> string \<Rightarrow> string \<Rightarrow> ApiCall" where
  "listMergeRequestReviews org project i = api_get (mergeRequestBase org project i @ ''/reviews'')"

definition getMergeRequestReviewState :: "string \<Rightarrow> string \<Rightarrow> string \<Rightarrow> ApiCall" where
  "getMergeRequestReviewState org project i = api_get (mergeRequestBase org project i @ ''/review-state'')"

definition review_state_name :: "ReviewState \<Rightarrow> string" where
  "review_state_name s = (case s of
     RCommented \<Rightarrow> ''commented'' | RApproved \<Rightarrow> ''approved'' | RChangesRequested \<Rightarrow> ''changes_requested'')"

definition thread_comment_json :: "ThreadCommentInput \<Rightarrow> json" where
  "thread_comment_json t =
     json_object [(''file_path'', Some (JString (tc_file_path t))), (''old_line'', map_option JNum (tc_old_line t)),
       (''new_line'', map_option JNum (tc_new_line t)), (''body'', Some (JString (tc_body t)))]"

definition submit_review_json :: "SubmitReviewRequest \<Rightarrow> json" where
  "submit_review_json r =
     JObject [(''state'', JString (review_state_name (sr_state r))), (''body'', JString (sr_body r)),
       (''comments'', JArray (map thread_comment_json (sr_comments r)))]"

definition submitMergeRequestReview :: "string \<Rightarrow> string \<Rightarrow> string \<Rightarrow> SubmitReviewRequest \<Rightarrow> ApiCall" where
  "submitMergeRequestReview org project i payload = api_send ''POST'' (mergeRequestBase org project i @ ''/reviews'') (submit_review_json payload)"

definition withdrawMergeRequestReview :: "string \<Rightarrow> string \<Rightarrow> string \<Rightarrow> string \<Rightarrow> ApiCall" where
  "withdrawMergeRequestReview org project i reviewId = api_delete (mergeRequestBase org project i @ ''/reviews/'' @ encodeURIComponent reviewId)"

definition dismissMergeRequestReview :: "string \<Rightarrow> string \<Rightarrow> string \<Rightarrow> string \<Rightarrow> ApiCall" where
  "dismissMergeRequestReview org project i reviewId = \<lparr>ep_method = ''POST'',
     ep_url = mergeRequestBase org project i @ ''/reviews/'' @ encodeURIComponent reviewId @ ''/dismiss'',
     ep_body = Some ''{}''\<rparr>"

definition listMergeRequestThreads :: "string \<Rightarrow> string \<Rightarrow> string \<Rightarrow> bool option \<Rightarrow> ApiCall" where
  "listMergeRequestThreads org project i resolved = api_get (mergeRequestBase org project i @ ''/threads'' @
     (case resolved of None \<Rightarrow> [] | Some r \<Rightarrow> ''?resolved='' @ js_bool r))"

definition addMergeRequestComment :: "string \<Rightarrow> string \<Rightarrow> string \<Rightarrow> ThreadCommentInput \<Rightarrow> ApiCall" where
  "addMergeRequestComment org project i input = api_send ''POST'' (mergeRequestBase org project i @ ''/threads'') (thread_comment_json input)"

definition replyMergeRequestThread :: "string \<Rightarrow> string \<Rightarrow> string \<Rightarrow> string \<Rightarrow> string \<Rightarrow> ApiCall" where
  "replyMergeRequestThread org project i threadId body = api_send ''POST'' (mergeRequestBase org project i @ ''/threads/'' @ encodeURIComponent threadId @ ''/comments'')
     (JObject [(''body'', JString body)])"

definition updateMergeRequestComment :: "string \<Rightarrow> string \<Rightarrow> string \<Rightarrow> string \<Rightarrow> string \<Rightarrow> string \<Rightarrow> ApiCall" where
  "updateMergeRequestComment org project i threadId commentId body = api_send ''PATCH'' (mergeRequestBase org project i @ ''/threads/'' @ encodeURIComponent threadId @
     ''/comments/'' @ encodeURIComponent commentId)
     (JObject [(''body'', JString body)])"

definition deleteMergeRequestComment :: "string \<Rightarrow> string \<Rightarrow> string \<Rightarrow> string \<Rightarrow> string \<Rightarrow> ApiCall" where
  "deleteMergeRequestComment org project i threadId commentId = api_delete (mergeRequestBase org project i @ ''/threads/'' @ encodeURIComponent threadId @
     ''/comments/'' @ encodeURIComponent commentId)"

definition resolveMergeRequestThread :: "string \<Rightarrow> string \<Rightarrow> string \<Rightarrow> string \<Rightarrow> bool \<Rightarrow> ApiCall" where
  "resolveMergeRequestThread org project i threadId resolved = api_send ''POST'' (mergeRequestBase org project i @ ''/threads/'' @ encodeURIComponent threadId @ ''/resolve'')
     (JObject [(''resolved'', JBool resolved)])"

definition deleteMergeRequestThread :: "string \<Rightarrow> string \<Rightarrow> string \<Rightarrow> string \<Rightarrow> ApiCall" where
  "deleteMergeRequestThread org project i threadId = api_delete (mergeRequestBase org project i @ ''/threads/'' @ encodeURIComponent threadId)"

definition listMergeRequestReviewRequests :: "string \<Rightarrow> string \<Rightarrow> string \<Rightarrow> ApiCall" where
  "listMergeRequestReviewRequests org project i = api_get (mergeRequestBase org project i @ ''/review-requests'')"

definition requestMergeRequestReview :: "string \<Rightarrow> string \<Rightarrow> string \<Rightarrow> string \<Rightarrow> ApiCall" where
  "requestMergeRequestReview org project i userId = api_send ''POST'' (mergeRequestBase org project i @ ''/review-requests'')
     (JObject [(''user_id'', JString userId)])"

definition removeMergeRequestReviewRequest :: "string \<Rightarrow> string \<Rightarrow> string \<Rightarrow> string \<Rightarrow> ApiCall" where
  "removeMergeRequestReviewRequest org project i userId = api_send ''DELETE'' (mergeRequestBase org project i @ ''/review-requests'')
     (JObject [(''user_id'', JString userId)])"

definition getMergeRequestTimeline :: "string \<Rightarrow> string \<Rightarrow> string \<Rightarrow> ApiCall" where
  "getMergeRequestTimeline org project i = api_get (mergeRequestBase org project i @ ''/timeline'')"

section \<open>Locks and permissions\<close>

definition listFileLocks :: "string \<Rightarrow> string \<Rightarrow> ApiCall" where
  "listFileLocks org project = api_get (projectBase org project @ ''/locks'')"

definition lockFile :: "string \<Rightarrow> string \<Rightarrow> string \<Rightarrow> string \<Rightarrow> ApiCall" where
  "lockFile org project path branch = api_send ''POST'' (projectBase org project @ ''/locks'')
     (JObject [(''path'', JString path), (''branch'', JString branch)])"

definition unlockFile :: "string \<Rightarrow> string \<Rightarrow> string \<Rightarrow> string \<Rightarrow> ApiCall" where
  "unlockFile org project path branch = api_send ''POST'' (projectBase org project @ ''/locks/release'')
     (JObject [(''path'', JString path), (''branch'', JString branch)])"

definition getMyProjectPermissions :: "string \<Rightarrow> string \<Rightarrow> ApiCall" where
  "getMyProjectPermissions org project = api_get (projectBase org project @ ''/permissions/me'')"

definition listProjectRules :: "string \<Rightarrow> string \<Rightarrow> ApiCall" where
  "listProjectRules org project = api_get (projectBase org project @ ''/permissions/rules'')"

definition createProjectRule :: "string \<Rightarrow> string \<Rightarrow> string \<Rightarrow> string \<Rightarrow> string \<Rightarrow> int \<Rightarrow> ApiCall" where
  "createProjectRule org project userID groupID pathPrefix permission = api_send ''POST'' (projectBase org project @ ''/permissions/rules'')
     (JObject [(''user_id'', JString userID), (''group_id'', JString groupID), (''path_prefix'', JString pathPrefix), (''permission'', JNum permission)])"

definition deleteProjectRule :: "string \<Rightarrow> string \<Rightarrow> int \<Rightarrow> ApiCall" where
  "deleteProjectRule org project n = api_delete (projectBase org project @ ''/permissions/rules/'' @ js_show_int n)"

definition listProjectDefaults :: "string \<Rightarrow> string \<Rightarrow> ApiCall" where
  "listProjectDefaults org project = api_get (projectBase org project @ ''/permissions/defaults'')"

definition setProjectDefault :: "string \<Rightarrow> string \<Rightarrow> string \<Rightarrow> int \<Rightarrow> ApiCall" where
  "setProjectDefault org project pathPrefix permission = api_send ''PUT'' (projectBase org project @ ''/permissions/defaults'')
     (JObject [(''path_prefix'', JString pathPrefix), (''permission'', JNum permission)])"

definition deleteProjectDefault :: "string \<Rightarrow> string \<Rightarrow> string \<Rightarrow> ApiCall" where
  "deleteProjectDefault org project pathPrefix = api_delete (projectBase org project @ ''/permissions/defaults?'' @
     params_toString [(''path'', pathPrefix)])"

section \<open>Members, groups and users\<close>

definition listOrgMembers :: "string \<Rightarrow> ApiCall" where
  "listOrgMembers org = api_get (orgBase org @ ''/members'')"

definition addOrgMember :: "string \<Rightarrow> string \<Rightarrow> string \<Rightarrow> ApiCall" where
  "addOrgMember org identifier role = api_send ''POST'' (orgBase org @ ''/members'')
     (JObject [(if js_includes identifier ''@'' then ''email'' else ''user_id'', JString identifier),
        (''role'', JString role)])"

definition updateOrgMember :: "string \<Rightarrow> string \<Rightarrow> string \<Rightarrow> ApiCall" where
  "updateOrgMember org userID role = api_send ''PATCH'' (orgBase org @ ''/members/'' @ encodeURIComponent userID)
     (JObject [(''role'', JString role)])"

definition removeOrgMember :: "string \<Rightarrow> string \<Rightarrow> ApiCall" where
  "removeOrgMember org userID = api_delete (orgBase org @ ''/members/'' @ encodeURIComponent userID)"

definition listGroups :: "string \<Rightarrow> ApiCall" where
  "listGroups org = api_get (orgBase org @ ''/groups'')"

definition createGroup :: "string \<Rightarrow> string \<Rightarrow> string \<Rightarrow> ApiCall" where
  "createGroup org name description = api_send ''POST'' (orgBase org @ ''/groups'')
     (JObject [(''name'', JString name), (''description'', JString description)])"

definition getGroup :: "string \<Rightarrow> string \<Rightarrow> ApiCall" where
  "getGroup org i = api_get (orgBase org @ ''/groups/'' @ encodeURIComponent i)"

definition addGroupMember :: "string \<Rightarrow> string \<Rightarrow> string \<Rightarrow> ApiCall" where
  "addGroupMember org groupID userID = api_send ''POST''
     (orgBase org @ ''/groups/'' @ encodeURIComponent groupID @ ''/members'') (JObject [(''user_id'', JString userID)])"

definition removeGroupMember :: "string \<Rightarrow> string \<Rightarrow> string \<Rightarrow> ApiCall" where
  "removeGroupMember org groupID userID = api_delete (orgBase org @ ''/groups/'' @ encodeURIComponent groupID @
     ''/members/'' @ encodeURIComponent userID)"

definition listUsers :: "ApiCall" where
  "listUsers = api_get ''/api/v1/users''"

definition createUser :: "string \<Rightarrow> string \<Rightarrow> string \<Rightarrow> ApiCall" where
  "createUser name email password = api_send ''POST'' ''/api/v1/users''
     (JObject [(''name'', JString name), (''email'', JString email), (''password'', JString password)])"

definition updateUserEmail :: "string \<Rightarrow> string \<Rightarrow> ApiCall" where
  "updateUserEmail userID email = api_send ''PATCH'' (''/api/v1/users/'' @ encodeURIComponent userID)
     (JObject [(''email'', JString email)])"

definition deactivateUser :: "string \<Rightarrow> ApiCall" where
  "deactivateUser userID = api_delete (''/api/v1/users/'' @ encodeURIComponent userID)"

definition resetUserPassword :: "string \<Rightarrow> string \<Rightarrow> ApiCall" where
  "resetUserPassword userID password = api_send ''POST'' (''/api/v1/users/'' @ encodeURIComponent userID @ ''/password'')
     (JObject [(''password'', JString password)])"

definition updateUserFlags :: "string \<Rightarrow> bool \<Rightarrow> bool \<Rightarrow> ApiCall" where
  "updateUserFlags userID isAdmin isSuperAdmin = api_send ''PATCH'' (''/api/v1/users/'' @ encodeURIComponent userID @ ''/admin'')
     (JObject [(''is_admin'', JBool isAdmin), (''is_super_admin'', JBool isSuperAdmin)])"

section \<open>Webhooks, mail and storage\<close>

definition create_webhook_json :: "CreateWebhookInput \<Rightarrow> json" where
  "create_webhook_json w =
     JObject [(''name'', JString (cw_name w)), (''url'', JString (cw_url w)),
       (''events'', json_strings (cw_events w)), (''path_prefix'', JString (cw_path_prefix w)),
       (''is_active'', JBool (cw_is_active w)), (''insecure_tls'', JBool (cw_insecure_tls w))]"

definition update_webhook_json :: "UpdateWebhookInput \<Rightarrow> json" where
  "update_webhook_json w =
     json_object [(''name'', map_option JString (uw_name w)), (''url'', map_option JString (uw_url w)),
       (''events'', map_option json_strings (uw_events w)),
       (''path_prefix'', map_option JString (uw_path_prefix w)),
       (''is_active'', map_option JBool (uw_is_active w)),
       (''insecure_tls'', map_option JBool (uw_insecure_tls w))]"

definition listWebhooks :: "string \<Rightarrow> string \<Rightarrow> ApiCall" where
  "listWebhooks org project = api_get (projectBase org project @ ''/webhooks'')"

definition createWebhook :: "string \<Rightarrow> string \<Rightarrow> CreateWebhookInput \<Rightarrow> ApiCall" where
  "createWebhook org project input = api_send ''POST'' (projectBase org project @ ''/webhooks'') (create_webhook_json input)"

definition updateWebhook :: "string \<Rightarrow> string \<Rightarrow> string \<Rightarrow> UpdateWebhookInput \<Rightarrow> ApiCall" where
  "updateWebhook org project i input = api_send ''PATCH'' (webhookBase org project i) (update_webhook_json input)"

definition deleteWebhook :: "string \<Rightarrow> string \<Rightarrow> string \<Rightarrow> ApiCall" where
  "deleteWebhook org project i = api_delete (webhookBase org project i)"

definition rotateWebhookSecret :: "string \<Rightarrow> string \<Rightarrow> string \<Rightarrow> ApiCall" where
  "rotateWebhookSecret org project i = api_send ''POST'' (webhookBase org project i @ ''/rotate-secret'') (JObject [])"

definition testWebhook :: "string \<Rightarrow> string \<Rightarrow> string \<Rightarrow> ApiCall" where
  "testWebhook org project i = api_send ''POST'' (webhookBase org project i @ ''/test'') (JObject [])"

definition listWebhookDeliveries :: "string \<Rightarrow> string \<Rightarrow> string \<Rightarrow> int \<Rightarrow> int \<Rightarrow> ApiCall" where
  "listWebhookDeliveries org project i limit offset = api_get (webhookBase org project i @ ''/deliveries?'' @
     params_toString [(''limit'', js_show_int limit), (''offset'', js_show_int offset)])"

definition redeliverWebhookDelivery :: "string \<Rightarrow> string \<Rightarrow> string \<Rightarrow> string \<Rightarrow> ApiCall" where
  "redeliverWebhookDelivery org project i deliveryID = api_send ''POST''
     (webhookBase org project i @ ''/deliveries/'' @ encodeURIComponent deliveryID @ ''/redeliver'') (JObject [])"

definition listEmailDeliveries :: "string \<Rightarrow> string \<Rightarrow> string \<Rightarrow> string \<Rightarrow> int \<Rightarrow> ApiCall" where
  "listEmailDeliveries org project state after limit = api_get (projectBase org project @ ''/emails/deliveries?'' @
     params_toString (set_if (after \<noteq> []) ''after'' after (set_if (state \<noteq> []) ''state'' state
       [(''limit'', js_show_int limit)])))"

definition redeliverEmailDelivery :: "string \<Rightarrow> string \<Rightarrow> string \<Rightarrow> ApiCall" where
  "redeliverEmailDelivery org project i = api_send ''POST''
     (projectBase org project @ ''/emails/deliveries/'' @ encodeURIComponent i @ ''/redeliver'') (JObject [])"

definition getOrgStorage :: "string \<Rightarrow> ApiCall" where
  "getOrgStorage org = api_get (orgBase org @ ''/storage'')"

definition getMyBilling :: "ApiCall" where
  "getMyBilling = api_get ''/api/v1/billing/me''"

definition setOwnerQuota :: "string \<Rightarrow> int option \<Rightarrow> ApiCall" where
  "setOwnerQuota userId quotaBytes = api_send ''PUT''
     (''/api/v1/admin/billing/owners/'' @ encodeURIComponent userId @ ''/quota'')
     (JObject [(''quota_bytes'', case quotaBytes of None \<Rightarrow> JNull | Some q \<Rightarrow> JNum q)])"

definition setOrgBillingOwner :: "string \<Rightarrow> string \<Rightarrow> ApiCall" where
  "setOrgBillingOwner org userId = api_send ''PUT''
     (''/api/v1/admin/orgs/'' @ encodeURIComponent org @ ''/billing-owner'') (JObject [(''user_id'', JString userId)])"

definition recountOrgStorage :: "string \<Rightarrow> ApiCall" where
  "recountOrgStorage org = api_send ''POST''
     (''/api/v1/admin/orgs/'' @ encodeURIComponent org @ ''/storage/recount'') (JObject [])"

section \<open>Links of the repository pages\<close>

definition encodePath :: "string \<Rightarrow> string" where
  "encodePath path =
     js_join ''/'' (map encodeURIComponent (filter (\<lambda>s. s \<noteq> []) (js_split (CHR ''/'') path)))"

definition repoUrl :: "string \<Rightarrow> string \<Rightarrow> string" where
  "repoUrl org project = ''/'' @ encodeURIComponent org @ ''/'' @ encodeURIComponent project"

definition treeUrl :: "string \<Rightarrow> string \<Rightarrow> string \<Rightarrow> string \<Rightarrow> string" where
  "treeUrl org project revn path =
     (let base = repoUrl org project @ ''/tree'' in
      if revn = [] then (if path \<noteq> [] then base @ ''?path='' @ encodeURIComponent path else base)
      else let suffix = (if path \<noteq> [] then ''/'' @ encodePath path else [])
           in base @ ''/'' @ encodeURIComponent revn @ suffix)"

definition blobUrl :: "string \<Rightarrow> string \<Rightarrow> string \<Rightarrow> string \<Rightarrow> string" where
  "blobUrl org project revn path =
     (let base = repoUrl org project @ ''/blob'' in
      if revn = [] then base @ ''?path='' @ encodeURIComponent path
      else base @ ''/'' @ encodeURIComponent revn @ ''/'' @ encodePath path)"

definition commitsUrl :: "string \<Rightarrow> string \<Rightarrow> string \<Rightarrow> string \<Rightarrow> string" where
  "commitsUrl org project revn path =
     with_query (repoUrl org project @ ''/commits'')
       (set_if (path \<noteq> []) ''path'' path (set_if (revn \<noteq> []) ''branch'' revn []))"

definition commitUrl :: "string \<Rightarrow> string \<Rightarrow> string \<Rightarrow> string \<Rightarrow> string" where
  "commitUrl org project i revn =
     with_query (repoUrl org project @ ''/commits/'' @ encodeURIComponent i)
       (set_if (revn \<noteq> []) ''branch'' revn [])"

definition parentPath :: "string \<Rightarrow> string" where
  "parentPath path = js_join ''/'' (butlast (filter (\<lambda>s. s \<noteq> []) (js_split (CHR ''/'') path)))"

named_theorems endpoint_defs "the requests of the client"

lemmas endpoint_definitions [endpoint_defs] =
  getMe_def getOnboardingCapabilities_def registerAccount_def resendVerification_def
  listIdentities_def startIdentityLink_def disconnectIdentity_def updateMyProfile_def
  changeMyPassword_def listMySSHKeys_def addMySSHKey_def removeMySSHKey_def listOrgs_def
  createOrg_def listProjects_def createProject_def updateProject_def deleteProject_def
  getTree_def fetchBlob_def listBranches_def createBranch_def renameBranch_def deleteBranch_def
  setDefaultBranch_def setBranchProtection_def listTags_def getTag_def createTag_def
  deleteTag_def listCommits_def getCommitDiff_def listMergeRequests_def createMergeRequest_def
  getMergeRequest_def setMergeRequestAssignees_def updateMergeRequest_def mergeMergeRequest_def
  closeMergeRequest_def reopenMergeRequest_def getMergeRequestDiff_def
  listMergeRequestChecks_def listMergeRequestCommits_def listMergeRequestReviews_def
  getMergeRequestReviewState_def submitMergeRequestReview_def withdrawMergeRequestReview_def
  dismissMergeRequestReview_def listMergeRequestThreads_def addMergeRequestComment_def
  replyMergeRequestThread_def updateMergeRequestComment_def deleteMergeRequestComment_def
  resolveMergeRequestThread_def deleteMergeRequestThread_def listMergeRequestReviewRequests_def
  requestMergeRequestReview_def removeMergeRequestReviewRequest_def getMergeRequestTimeline_def
  listFileLocks_def lockFile_def unlockFile_def getMyProjectPermissions_def listProjectRules_def
  createProjectRule_def deleteProjectRule_def listProjectDefaults_def setProjectDefault_def
  deleteProjectDefault_def listOrgMembers_def addOrgMember_def updateOrgMember_def
  removeOrgMember_def listGroups_def createGroup_def getGroup_def addGroupMember_def
  removeGroupMember_def listUsers_def createUser_def updateUserEmail_def deactivateUser_def
  resetUserPassword_def updateUserFlags_def listWebhooks_def createWebhook_def updateWebhook_def
  deleteWebhook_def rotateWebhookSecret_def testWebhook_def listWebhookDeliveries_def
  redeliverWebhookDelivery_def listEmailDeliveries_def redeliverEmailDelivery_def
  getOrgStorage_def getMyBilling_def setOwnerQuota_def setOrgBillingOwner_def recountOrgStorage_def


section \<open>Links and queries\<close>

text \<open>A repository path: segments without slashes, none of them empty.\<close>

definition path_segments :: "string \<Rightarrow> string list" where
  "path_segments path = filter (\<lambda>s. s \<noteq> []) (js_split (CHR ''/'') path)"

definition clean_path :: "string \<Rightarrow> bool" where
  "clean_path path \<longleftrightarrow> path \<noteq> [] \<and> [] \<notin> set (js_split (CHR ''/'') path)"

lemma path_segments_clean:
  assumes "clean_path path"
  shows "path_segments path = js_split (CHR ''/'') path" "js_join ''/'' (path_segments path) = path"
proof -
  show *: "path_segments path = js_split (CHR ''/'') path"
    using assms by (auto simp: path_segments_def clean_path_def filter_id_conv)
  show "js_join ''/'' (path_segments path) = path" unfolding * by simp
qed

lemma encodePath_split:
  "js_split (CHR ''/'') (encodePath path) =
     (if path_segments path = [] then [[]] else map encodeURIComponent (path_segments path))"
proof (cases "path_segments path = []")
  case True
  then show ?thesis by (simp add: encodePath_def path_segments_def)
next
  case False
  then show ?thesis
    by (simp add: encodePath_def flip: path_segments_def) (rule js_split_join, auto)
qed

lemma those_map_id: "those (map Some xs) = Some xs"
  by (induction xs) auto

lemma encodePath_no_question: "CHR ''?'' \<notin> set (encodePath path)"
proof -
  have "CHR ''?'' \<notin> set (js_join ''/'' (map encodeURIComponent xs))" for xs
    by (induction xs rule: induct_list012) auto
  then show ?thesis by (simp add: encodePath_def)
qed

lemma takeWhile_encodePath [simp]: "takeWhile (\<lambda>c. c \<noteq> CHR ''?'') (encodePath path) = encodePath path"
  using encodePath_no_question [of path] by (auto simp: takeWhile_eq_all_conv)

lemma encodePath_segments:
  assumes "clean_path path"
  shows "map decodeURIComponent (js_split (CHR ''/'') (encodePath path)) = map Some (js_split (CHR ''/'') path)"
  using path_segments_clean [OF assms] by (simp add: encodePath_split comp_def)

lemma form_decode_component [simp]: "form_decode (encodeURIComponent s) = Some s"
proof -
  have "map (\<lambda>c. if c = CHR ''+'' then CHR '' '' else c) (encodeURIComponent s) = encodeURIComponent s"
    using encode_no_delimiter [of "CHR ''+''" s] by (intro map_idI) auto
  then show ?thesis by (simp add: form_decode_def)
qed

lemma form_decode_plain:
  "\<forall>c \<in> set s. c \<noteq> CHR ''%'' \<and> c \<noteq> CHR ''+'' \<Longrightarrow> form_decode s = Some s"
proof -
  assume *: "\<forall>c \<in> set s. c \<noteq> CHR ''%'' \<and> c \<noteq> CHR ''+''"
  then have "map (\<lambda>c. if c = CHR ''+'' then CHR '' '' else c) s = s" by (intro map_idI) auto
  moreover have "decodeURIComponent s = Some s" using * by (induction s) auto
  ultimately show ?thesis by (simp add: form_decode_def)
qed

text \<open>A query of one parameter written with \<open>encodeURIComponent\<close>.\<close>

lemma parse_component_query:
  assumes "\<forall>c \<in> set k. c \<noteq> CHR ''%'' \<and> c \<noteq> CHR ''+'' \<and> c \<noteq> CHR ''='' \<and> c \<noteq> CHR ''&''"
  shows "parse_params (k @ CHR ''='' # encodeURIComponent v) = Some [(k, v)]"
proof -
  have "CHR ''&'' \<notin> set (encodeURIComponent v)" "CHR ''='' \<notin> set (encodeURIComponent v)"
    by (rule encode_no_delimiter; simp)+
  moreover have "CHR ''&'' \<notin> set (k @ CHR ''='' # encodeURIComponent v)"
    using calculation assms by auto
  moreover have "form_decode k = Some k" using assms by (intro form_decode_plain) auto
  moreover have "CHR ''='' \<notin> set k" using assms by auto
  ultimately show ?thesis
    by (simp add: parse_params_def parse_pair_def js_split_no_sep js_split_append_sep)
qed

lemmas path_query = parse_component_query [of "''path''", simplified]

text \<open>
  Property C36. The link to a file or a directory names it: reading the link as the router does
  (split at the slashes, each segment decoded) gives back the organization, the project, the
  revision and the segments of the path, for any bytes in them; without a revision the path is the
  \<open>path\<close> parameter of the query.\<close>

theorem links_name_their_target:
  assumes "clean_path path" and "revn \<noteq> []"
  shows "those (url_segments (blobUrl org project revn path)) =
      Some ([org, project, ''blob'', revn] @ js_split (CHR ''/'') path) \<and>
    those (url_segments (treeUrl org project revn path)) =
      Some ([org, project, ''tree'', revn] @ js_split (CHR ''/'') path) \<and>
    parse_params (url_query (treeUrl org project [] path)) = Some [(''path'', path)] \<and>
    parse_params (url_query (blobUrl org project [] path)) = Some [(''path'', path)]"
proof -
  have "path \<noteq> []" using assms(1) by (simp add: clean_path_def)
  then show ?thesis
    using assms(2) path_query [of path]
    by (simp add: url_segments_def url_path_def url_query_def blobUrl_def treeUrl_def repoUrl_def Let_def
        encodePath_segments [OF assms(1)] those_map_id)
qed

theorem links_name_their_target_witness:
  "those (url_segments (blobUrl ''o'' ''p'' ''main'' ''a b/c?d'')) =
     Some [''o'', ''p'', ''blob'', ''main'', ''a b'', ''c?d'']"
  using links_name_their_target [of "''a b/c?d''" "''main''" "''o''" "''p''"]
  by (simp add: clean_path_def)

text \<open>
  The parent of a path: for a non-empty parent it is the path without its last
  segment, and the parent of a name at the root is the root.\<close>

theorem parentPath_of_child:
  assumes "clean_path parent" and "name \<noteq> []" and "CHR ''/'' \<notin> set name"
  shows "parentPath (parent @ ''/'' @ name) = parent \<and> parentPath name = []"
proof -
  have split: "js_split (CHR ''/'') (parent @ ''/'' @ name) = js_split (CHR ''/'') parent @ [name]"
  proof -
    have "js_join ''/'' (js_split (CHR ''/'') parent @ [name]) = parent @ ''/'' @ name"
      by (subst js_join_append) auto
    moreover have "\<forall>x \<in> set (js_split (CHR ''/'') parent @ [name]). CHR ''/'' \<notin> set x"
      using assms(3) js_split_pieces by fastforce
    ultimately show ?thesis
      using js_split_join [of "js_split (CHR ''/'') parent @ [name]" "CHR ''/''"] by simp
  qed
  have "path_segments (parent @ ''/'' @ name) = js_split (CHR ''/'') parent @ [name]"
    using assms path_segments_clean(1) [OF assms(1)] split by (simp add: path_segments_def)
  then show ?thesis
    using assms by (simp add: parentPath_def js_split_no_sep flip: path_segments_def)
qed

theorem parentPath_of_child_witness:
  "parentPath ''src/lib/diff.ts'' = ''src/lib''"
  using parentPath_of_child [of "''src/lib''" "''diff.ts''"] by (simp add: clean_path_def)

lemma set_opt_get:
  "js_map_get (set_opt k v ps) j = (if j = k \<and> truthy v then v else js_map_get ps j)"
  by (cases v) (auto simp: set_opt_def set_if_def js_map_get_def js_map_set_def update_conv)

lemma set_num_get:
  "js_map_get (set_num k v ps) j =
     (if j = k \<and> coalesce v 0 \<noteq> 0 then Some (js_show_int (coalesce v 0)) else js_map_get ps j)"
  by (auto simp: set_num_def set_if_def js_map_get_def js_map_set_def update_conv)

lemma set_if_get: "js_map_get (set_if b k v ps) j = (if j = k \<and> b then Some v else js_map_get ps j)"
  by (auto simp: set_if_def js_map_get_def js_map_set_def update_conv)

lemma with_query_query [simp]:
  "CHR ''?'' \<notin> set base \<Longrightarrow> url_query (with_query base ps) = params_toString ps"
proof -
  assume *: "CHR ''?'' \<notin> set base"
  then have d: "dropWhile (\<lambda>c. c \<noteq> CHR ''?'') (base @ r) = dropWhile (\<lambda>c. c \<noteq> CHR ''?'') r" for r
    by (intro dropWhile_append2) metis
  have e: "dropWhile (\<lambda>c. c \<noteq> CHR ''?'') base = []" using d [of "[]"] by simp
  show ?thesis
    by (cases "ps = []") (simp_all add: url_query_def with_query_def d e)
qed

text \<open>The filter that a parameter carries: an empty one is not sent.\<close>

definition sent_filter :: "string option \<Rightarrow> string option" where
  "sent_filter v = (if truthy v then v else None)"

text \<open>
  The server reads back exactly the filters of a merge request search: each text filter
  under its own name when it is not empty, \<open>draft\<close> also when it is false, and the limit as a
  decimal number, in whatever combination they are given.\<close>

theorem merge_request_filters_arrive:
  "\<exists>ps. parse_params (url_query (ep_url (listMergeRequests org project f))) = Some ps \<and>
     js_map_get ps ''status'' = sent_filter (mf_status f) \<and>
     js_map_get ps ''author'' = sent_filter (mf_author f) \<and>
     js_map_get ps ''source'' = sent_filter (mf_source f) \<and>
     js_map_get ps ''target'' = sent_filter (mf_target f) \<and>
     js_map_get ps ''search'' = sent_filter (mf_search f) \<and>
     js_map_get ps ''assignee'' = sent_filter (mf_assignee f) \<and>
     js_map_get ps ''after'' = sent_filter (mf_after f) \<and>
     js_map_get ps ''draft'' = map_option js_bool (mf_draft f) \<and>
     js_map_get ps ''limit'' =
       (if coalesce (mf_limit f) 0 \<noteq> 0 then Some (js_show_int (coalesce (mf_limit f) 0)) else None)"
proof (intro exI conjI)
  show "parse_params (url_query (ep_url (listMergeRequests org project f))) = Some (merge_request_params f)"
    by (simp add: listMergeRequests_def api_get_def projectBase_def)
qed (simp_all add: merge_request_params_def set_opt_get set_num_get set_if_get sent_filter_def
    js_map_get_def [of "[]"] coalesce_def split: option.split)

end
