(* ===== verification/Api_Routes.thy ===== *)
theory Api_Routes
  imports Endpoints
begin

text \<open>
  The interface between the web client and the server: the routes the server registers (the route
  tables of \<open>src/internal/http/api\<close> and of the enterprise packages under \<open>src/ee\<close>), the route each
  call of \<open>Endpoints\<close> and of the session client is meant for, and the theorem that each request is an
  instance of that route whose parameters are the caller's arguments. The dispatch of go-restful itself is
  not modelled; what it dispatches on is: the path that the browser resolved, decoded as a whole and split at
  the slashes.
\<close>

section \<open>The routes of the server\<close>

definition auth_routes :: "(string \<times> string) list" where
  "auth_routes = [
     (''POST'', ''/api/v1/auth/login''),
     (''POST'', ''/api/v1/auth/refresh''),
     (''POST'', ''/api/v1/auth/logout'')]"

definition registration_routes :: "(string \<times> string) list" where
  "registration_routes = [
     (''GET'', ''/api/v1/auth/capabilities''),
     (''POST'', ''/api/v1/auth/register''),
     (''POST'', ''/api/v1/auth/register/resend''),
     (''POST'', ''/api/v1/auth/verify'')]"

definition user_routes :: "(string \<times> string) list" where
  "user_routes = [
     (''GET'', ''/api/v1/me''),
     (''PATCH'', ''/api/v1/me''),
     (''POST'', ''/api/v1/me/password''),
     (''GET'', ''/api/v1/users''),
     (''POST'', ''/api/v1/users''),
     (''PATCH'', ''/api/v1/users/{user}''),
     (''DELETE'', ''/api/v1/users/{user}''),
     (''POST'', ''/api/v1/users/{user}/password''),
     (''PATCH'', ''/api/v1/users/{user}/admin'')]"

definition ssh_key_routes :: "(string \<times> string) list" where
  "ssh_key_routes = [
     (''GET'', ''/api/v1/keys''),
     (''POST'', ''/api/v1/keys''),
     (''DELETE'', ''/api/v1/keys/{key}'')]"

definition project_routes :: "(string \<times> string) list" where
  "project_routes = [
     (''GET'', ''/api/v1/orgs/{org}/projects''),
     (''POST'', ''/api/v1/orgs/{org}/projects''),
     (''GET'', ''/api/v1/orgs/{org}/projects/{project}''),
     (''PATCH'', ''/api/v1/orgs/{org}/projects/{project}''),
     (''DELETE'', ''/api/v1/orgs/{org}/projects/{project}'')]"

definition browser_routes :: "(string \<times> string) list" where
  "browser_routes = [
     (''GET'', ''/api/v1/orgs/{org}/projects/{project}/branches''),
     (''POST'', ''/api/v1/orgs/{org}/projects/{project}/branches''),
     (''PATCH'', ''/api/v1/orgs/{org}/projects/{project}/branches/{name}''),
     (''DELETE'', ''/api/v1/orgs/{org}/projects/{project}/branches/{name}''),
     (''POST'', ''/api/v1/orgs/{org}/projects/{project}/branches/{name}/default''),
     (''PUT'', ''/api/v1/orgs/{org}/projects/{project}/branches/{name}/protection''),
     (''GET'', ''/api/v1/orgs/{org}/projects/{project}/commits''),
     (''GET'', ''/api/v1/orgs/{org}/projects/{project}/commits/{commit}/diff''),
     (''GET'', ''/api/v1/orgs/{org}/projects/{project}/tree''),
     (''GET'', ''/api/v1/orgs/{org}/projects/{project}/blob'')]"

definition tag_routes :: "(string \<times> string) list" where
  "tag_routes = [
     (''GET'', ''/api/v1/orgs/{org}/projects/{project}/tags''),
     (''POST'', ''/api/v1/orgs/{org}/projects/{project}/tags''),
     (''GET'', ''/api/v1/orgs/{org}/projects/{project}/tags/{name}''),
     (''DELETE'', ''/api/v1/orgs/{org}/projects/{project}/tags/{name}'')]"

definition merge_request_routes :: "(string \<times> string) list" where
  "merge_request_routes = [
     (''GET'', ''/api/v1/orgs/{org}/projects/{project}/merge-requests''),
     (''POST'', ''/api/v1/orgs/{org}/projects/{project}/merge-requests''),
     (''GET'', ''/api/v1/orgs/{org}/projects/{project}/merge-requests/{id}''),
     (''PATCH'', ''/api/v1/orgs/{org}/projects/{project}/merge-requests/{id}''),
     (''POST'', ''/api/v1/orgs/{org}/projects/{project}/merge-requests/{id}/assignees''),
     (''GET'', ''/api/v1/orgs/{org}/projects/{project}/merge-requests/{id}/check''),
     (''POST'', ''/api/v1/orgs/{org}/projects/{project}/merge-requests/{id}/merge''),
     (''POST'', ''/api/v1/orgs/{org}/projects/{project}/merge-requests/{id}/close''),
     (''POST'', ''/api/v1/orgs/{org}/projects/{project}/merge-requests/{id}/reopen''),
     (''GET'', ''/api/v1/orgs/{org}/projects/{project}/merge-requests/{id}/checks''),
     (''POST'', ''/api/v1/orgs/{org}/projects/{project}/merge-requests/{id}/checks''),
     (''GET'', ''/api/v1/orgs/{org}/projects/{project}/merge-requests/{id}/diff''),
     (''GET'', ''/api/v1/orgs/{org}/projects/{project}/merge-requests/{id}/commits'')]"

definition review_routes :: "(string \<times> string) list" where
  "review_routes = [
     (''GET'', ''/api/v1/orgs/{org}/projects/{project}/merge-requests/{id}/reviews''),
     (''GET'', ''/api/v1/orgs/{org}/projects/{project}/merge-requests/{id}/review-state''),
     (''POST'', ''/api/v1/orgs/{org}/projects/{project}/merge-requests/{id}/reviews''),
     (''DELETE'', ''/api/v1/orgs/{org}/projects/{project}/merge-requests/{id}/reviews/{reviewId}''),
     (''POST'', ''/api/v1/orgs/{org}/projects/{project}/merge-requests/{id}/reviews/{reviewId}/dismiss''),
     (''GET'', ''/api/v1/orgs/{org}/projects/{project}/merge-requests/{id}/threads''),
     (''POST'', ''/api/v1/orgs/{org}/projects/{project}/merge-requests/{id}/threads''),
     (''POST'', ''/api/v1/orgs/{org}/projects/{project}/merge-requests/{id}/threads/{threadId}/comments''),
     (''POST'', ''/api/v1/orgs/{org}/projects/{project}/merge-requests/{id}/threads/{threadId}/resolve''),
     (''DELETE'', ''/api/v1/orgs/{org}/projects/{project}/merge-requests/{id}/threads/{threadId}''),
     (''PATCH'', ''/api/v1/orgs/{org}/projects/{project}/merge-requests/{id}/threads/{threadId}/comments/{commentId}''),
     (''DELETE'', ''/api/v1/orgs/{org}/projects/{project}/merge-requests/{id}/threads/{threadId}/comments/{commentId}''),
     (''GET'', ''/api/v1/orgs/{org}/projects/{project}/merge-requests/{id}/review-requests''),
     (''POST'', ''/api/v1/orgs/{org}/projects/{project}/merge-requests/{id}/review-requests''),
     (''DELETE'', ''/api/v1/orgs/{org}/projects/{project}/merge-requests/{id}/review-requests''),
     (''GET'', ''/api/v1/orgs/{org}/projects/{project}/merge-requests/{id}/timeline'')]"

definition file_lock_routes :: "(string \<times> string) list" where
  "file_lock_routes = [
     (''GET'', ''/api/v1/orgs/{org}/projects/{project}/locks''),
     (''POST'', ''/api/v1/orgs/{org}/projects/{project}/locks''),
     (''POST'', ''/api/v1/orgs/{org}/projects/{project}/locks/release'')]"

definition org_routes :: "(string \<times> string) list" where
  "org_routes = [
     (''GET'', ''/api/v1/orgs''),
     (''POST'', ''/api/v1/orgs''),
     (''GET'', ''/api/v1/orgs/{org}/members''),
     (''POST'', ''/api/v1/orgs/{org}/members''),
     (''PATCH'', ''/api/v1/orgs/{org}/members/{user}''),
     (''DELETE'', ''/api/v1/orgs/{org}/members/{user}'')]"

definition group_routes :: "(string \<times> string) list" where
  "group_routes = [
     (''GET'', ''/api/v1/orgs/{org}/groups''),
     (''POST'', ''/api/v1/orgs/{org}/groups''),
     (''GET'', ''/api/v1/orgs/{org}/groups/{group}''),
     (''POST'', ''/api/v1/orgs/{org}/groups/{group}/members''),
     (''DELETE'', ''/api/v1/orgs/{org}/groups/{group}/members/{user}'')]"

definition permission_routes :: "(string \<times> string) list" where
  "permission_routes = [
     (''GET'', ''/api/v1/orgs/{org}/projects/{project}/permissions/me''),
     (''GET'', ''/api/v1/orgs/{org}/projects/{project}/permissions/rules''),
     (''POST'', ''/api/v1/orgs/{org}/projects/{project}/permissions/rules''),
     (''DELETE'', ''/api/v1/orgs/{org}/projects/{project}/permissions/rules/{id}''),
     (''GET'', ''/api/v1/orgs/{org}/projects/{project}/permissions/defaults''),
     (''PUT'', ''/api/v1/orgs/{org}/projects/{project}/permissions/defaults''),
     (''DELETE'', ''/api/v1/orgs/{org}/projects/{project}/permissions/defaults'')]"

definition webhook_routes :: "(string \<times> string) list" where
  "webhook_routes = [
     (''GET'', ''/api/v1/orgs/{org}/projects/{project}/webhooks''),
     (''POST'', ''/api/v1/orgs/{org}/projects/{project}/webhooks''),
     (''GET'', ''/api/v1/orgs/{org}/projects/{project}/webhooks/{id}''),
     (''PATCH'', ''/api/v1/orgs/{org}/projects/{project}/webhooks/{id}''),
     (''DELETE'', ''/api/v1/orgs/{org}/projects/{project}/webhooks/{id}''),
     (''POST'', ''/api/v1/orgs/{org}/projects/{project}/webhooks/{id}/rotate-secret''),
     (''POST'', ''/api/v1/orgs/{org}/projects/{project}/webhooks/{id}/test''),
     (''GET'', ''/api/v1/orgs/{org}/projects/{project}/webhooks/{id}/deliveries''),
     (''POST'', ''/api/v1/orgs/{org}/projects/{project}/webhooks/{id}/deliveries/{deliveryId}/redeliver'')]"

definition email_routes :: "(string \<times> string) list" where
  "email_routes = [
     (''GET'', ''/api/v1/orgs/{org}/projects/{project}/emails/deliveries''),
     (''POST'', ''/api/v1/orgs/{org}/projects/{project}/emails/deliveries/{id}/redeliver'')]"

definition storage_routes :: "(string \<times> string) list" where
  "storage_routes = [
     (''GET'', ''/api/v1/orgs/{org}/storage''),
     (''GET'', ''/api/v1/billing/me''),
     (''PUT'', ''/api/v1/admin/billing/owners/{user}/quota''),
     (''DELETE'', ''/api/v1/admin/billing/owners/{user}/quota''),
     (''PUT'', ''/api/v1/admin/orgs/{org}/billing-owner''),
     (''POST'', ''/api/v1/admin/orgs/{org}/storage/recount'')]"

definition oauth_routes :: "(string \<times> string) list" where
  "oauth_routes = [
     (''GET'', ''/api/v1/auth/oauth/{provider}/start''),
     (''GET'', ''/api/v1/auth/oauth/{provider}/callback''),
     (''POST'', ''/api/v1/auth/oauth/complete''),
     (''GET'', ''/api/v1/me/identities''),
     (''GET'', ''/api/v1/me/identities/{provider}/start''),
     (''DELETE'', ''/api/v1/me/identities/{id}'')]"

definition server_routes :: "(string \<times> string) list" where
  "server_routes =
     auth_routes @ registration_routes @ user_routes @ ssh_key_routes @ project_routes @
     browser_routes @ tag_routes @ merge_request_routes @ review_routes @ file_lock_routes
     @ org_routes @ group_routes @ permission_routes @ webhook_routes @ email_routes @
     storage_routes @ oauth_routes"

section \<open>The calls of the client and the routes they are meant for\<close>

type_synonym expectation = "ApiCall \<times> string \<times> string \<times> string list"

definition account_calls :: "string \<Rightarrow> string \<Rightarrow> bool \<Rightarrow> expectation list" where
  "account_calls a b q = [
     (getMe, ''GET'', ''/api/v1/me'', []),
     (getOnboardingCapabilities, ''GET'', ''/api/v1/auth/capabilities'', []),
     (registerAccount a b, ''POST'', ''/api/v1/auth/register'', []),
     (resendVerification a, ''POST'', ''/api/v1/auth/register/resend'', []),
     (api_get (oauthStartURL a b), ''GET'', ''/api/v1/auth/oauth/{provider}/start'', [a]),
     (listIdentities, ''GET'', ''/api/v1/me/identities'', []),
     (startIdentityLink a b, ''GET'', ''/api/v1/me/identities/{provider}/start'', [a]),
     (disconnectIdentity a, ''DELETE'', ''/api/v1/me/identities/{id}'', [a]),
     (updateMyProfile a b q, ''PATCH'', ''/api/v1/me'', []),
     (changeMyPassword a b, ''POST'', ''/api/v1/me/password'', []),
     (listMySSHKeys, ''GET'', ''/api/v1/keys'', []),
     (addMySSHKey a b, ''POST'', ''/api/v1/keys'', []),
     (removeMySSHKey a, ''DELETE'', ''/api/v1/keys/{key}'', [a])]"

definition project_calls :: "string \<Rightarrow> string \<Rightarrow> string \<Rightarrow> string \<Rightarrow> string \<Rightarrow> bool \<Rightarrow> bool \<Rightarrow> int option \<Rightarrow> string option \<Rightarrow> bool option \<Rightarrow> string list option \<Rightarrow> (string \<times> string) option \<Rightarrow> expectation list" where
  "project_calls org project a b c q r n oa ob os cur = [
     (listOrgs, ''GET'', ''/api/v1/orgs'', []),
     (createOrg a b, ''POST'', ''/api/v1/orgs'', []),
     (listProjects org, ''GET'', ''/api/v1/orgs/{org}/projects'', [org]),
     (createProject org a b c, ''POST'', ''/api/v1/orgs/{org}/projects'', [org]),
     (updateProject org project a b, ''PATCH'', ''/api/v1/orgs/{org}/projects/{project}'', [org, project]),
     (deleteProject org project, ''DELETE'', ''/api/v1/orgs/{org}/projects/{project}'', [org, project]),
     (getTree org project a b q r, ''GET'', ''/api/v1/orgs/{org}/projects/{project}/tree'', [org, project]),
     (fetchBlob org project a b, ''GET'', ''/api/v1/orgs/{org}/projects/{project}/blob'', [org, project]),
     (listBranches org project n cur, ''GET'', ''/api/v1/orgs/{org}/projects/{project}/branches'', [org, project]),
     (createBranch org project a b, ''POST'', ''/api/v1/orgs/{org}/projects/{project}/branches'', [org, project]),
     (renameBranch org project a b, ''PATCH'', ''/api/v1/orgs/{org}/projects/{project}/branches/{name}'', [org, project, a]),
     (deleteBranch org project a, ''DELETE'', ''/api/v1/orgs/{org}/projects/{project}/branches/{name}'', [org, project, a]),
     (setDefaultBranch org project a, ''POST'', ''/api/v1/orgs/{org}/projects/{project}/branches/{name}/default'', [org, project, a]),
     (setBranchProtection org project a q n ob ob os os, ''PUT'', ''/api/v1/orgs/{org}/projects/{project}/branches/{name}/protection'', [org, project, a]),
     (listTags org project n cur, ''GET'', ''/api/v1/orgs/{org}/projects/{project}/tags'', [org, project]),
     (getTag org project a, ''GET'', ''/api/v1/orgs/{org}/projects/{project}/tags/{name}'', [org, project, a]),
     (createTag org project a b c, ''POST'', ''/api/v1/orgs/{org}/projects/{project}/tags'', [org, project]),
     (deleteTag org project a, ''DELETE'', ''/api/v1/orgs/{org}/projects/{project}/tags/{name}'', [org, project, a]),
     (listCommits org project a b oa n, ''GET'', ''/api/v1/orgs/{org}/projects/{project}/commits'', [org, project]),
     (getCommitDiff org project a oa, ''GET'', ''/api/v1/orgs/{org}/projects/{project}/commits/{commit}/diff'', [org, project, a])]"

definition merge_request_calls :: "string \<Rightarrow> string \<Rightarrow> string \<Rightarrow> string \<Rightarrow> string \<Rightarrow> string \<Rightarrow> bool \<Rightarrow> bool option \<Rightarrow> string list \<Rightarrow> MergeRequestFilter \<Rightarrow> expectation list" where
  "merge_request_calls org project a b c d q ob ss f = [
     (listMergeRequests org project f, ''GET'', ''/api/v1/orgs/{org}/projects/{project}/merge-requests'', [org, project]),
     (createMergeRequest org project a b c d q, ''POST'', ''/api/v1/orgs/{org}/projects/{project}/merge-requests'', [org, project]),
     (getMergeRequest org project a, ''GET'', ''/api/v1/orgs/{org}/projects/{project}/merge-requests/{id}'', [org, project, a]),
     (setMergeRequestAssignees org project a ss, ''POST'', ''/api/v1/orgs/{org}/projects/{project}/merge-requests/{id}/assignees'', [org, project, a]),
     (updateMergeRequest org project a b c ob, ''PATCH'', ''/api/v1/orgs/{org}/projects/{project}/merge-requests/{id}'', [org, project, a]),
     (mergeMergeRequest org project a b q, ''POST'', ''/api/v1/orgs/{org}/projects/{project}/merge-requests/{id}/merge'', [org, project, a]),
     (closeMergeRequest org project a, ''POST'', ''/api/v1/orgs/{org}/projects/{project}/merge-requests/{id}/close'', [org, project, a]),
     (reopenMergeRequest org project a, ''POST'', ''/api/v1/orgs/{org}/projects/{project}/merge-requests/{id}/reopen'', [org, project, a]),
     (getMergeRequestDiff org project a, ''GET'', ''/api/v1/orgs/{org}/projects/{project}/merge-requests/{id}/diff'', [org, project, a]),
     (listMergeRequestChecks org project a, ''GET'', ''/api/v1/orgs/{org}/projects/{project}/merge-requests/{id}/checks'', [org, project, a]),
     (listMergeRequestCommits org project a, ''GET'', ''/api/v1/orgs/{org}/projects/{project}/merge-requests/{id}/commits'', [org, project, a])]"

definition review_calls :: "string \<Rightarrow> string \<Rightarrow> string \<Rightarrow> string \<Rightarrow> string \<Rightarrow> string \<Rightarrow> bool \<Rightarrow> bool option \<Rightarrow> SubmitReviewRequest \<Rightarrow> ThreadCommentInput \<Rightarrow> expectation list" where
  "review_calls org project a b c d q ob sub tc = [
     (listMergeRequestReviews org project a, ''GET'', ''/api/v1/orgs/{org}/projects/{project}/merge-requests/{id}/reviews'', [org, project, a]),
     (getMergeRequestReviewState org project a, ''GET'', ''/api/v1/orgs/{org}/projects/{project}/merge-requests/{id}/review-state'', [org, project, a]),
     (submitMergeRequestReview org project a sub, ''POST'', ''/api/v1/orgs/{org}/projects/{project}/merge-requests/{id}/reviews'', [org, project, a]),
     (withdrawMergeRequestReview org project a b, ''DELETE'', ''/api/v1/orgs/{org}/projects/{project}/merge-requests/{id}/reviews/{reviewId}'', [org, project, a, b]),
     (dismissMergeRequestReview org project a b, ''POST'', ''/api/v1/orgs/{org}/projects/{project}/merge-requests/{id}/reviews/{reviewId}/dismiss'', [org, project, a, b]),
     (listMergeRequestThreads org project a ob, ''GET'', ''/api/v1/orgs/{org}/projects/{project}/merge-requests/{id}/threads'', [org, project, a]),
     (addMergeRequestComment org project a tc, ''POST'', ''/api/v1/orgs/{org}/projects/{project}/merge-requests/{id}/threads'', [org, project, a]),
     (replyMergeRequestThread org project a b c, ''POST'', ''/api/v1/orgs/{org}/projects/{project}/merge-requests/{id}/threads/{threadId}/comments'', [org, project, a, b]),
     (updateMergeRequestComment org project a b c d, ''PATCH'', ''/api/v1/orgs/{org}/projects/{project}/merge-requests/{id}/threads/{threadId}/comments/{commentId}'', [org, project, a, b, c]),
     (deleteMergeRequestComment org project a b c, ''DELETE'', ''/api/v1/orgs/{org}/projects/{project}/merge-requests/{id}/threads/{threadId}/comments/{commentId}'', [org, project, a, b, c]),
     (resolveMergeRequestThread org project a b q, ''POST'', ''/api/v1/orgs/{org}/projects/{project}/merge-requests/{id}/threads/{threadId}/resolve'', [org, project, a, b]),
     (deleteMergeRequestThread org project a b, ''DELETE'', ''/api/v1/orgs/{org}/projects/{project}/merge-requests/{id}/threads/{threadId}'', [org, project, a, b]),
     (listMergeRequestReviewRequests org project a, ''GET'', ''/api/v1/orgs/{org}/projects/{project}/merge-requests/{id}/review-requests'', [org, project, a]),
     (requestMergeRequestReview org project a b, ''POST'', ''/api/v1/orgs/{org}/projects/{project}/merge-requests/{id}/review-requests'', [org, project, a]),
     (removeMergeRequestReviewRequest org project a b, ''DELETE'', ''/api/v1/orgs/{org}/projects/{project}/merge-requests/{id}/review-requests'', [org, project, a]),
     (getMergeRequestTimeline org project a, ''GET'', ''/api/v1/orgs/{org}/projects/{project}/merge-requests/{id}/timeline'', [org, project, a])]"

definition permission_calls :: "string \<Rightarrow> string \<Rightarrow> string \<Rightarrow> string \<Rightarrow> string \<Rightarrow> int \<Rightarrow> expectation list" where
  "permission_calls org project a b c k = [
     (listFileLocks org project, ''GET'', ''/api/v1/orgs/{org}/projects/{project}/locks'', [org, project]),
     (lockFile org project a b, ''POST'', ''/api/v1/orgs/{org}/projects/{project}/locks'', [org, project]),
     (unlockFile org project a b, ''POST'', ''/api/v1/orgs/{org}/projects/{project}/locks/release'', [org, project]),
     (getMyProjectPermissions org project, ''GET'', ''/api/v1/orgs/{org}/projects/{project}/permissions/me'', [org, project]),
     (listProjectRules org project, ''GET'', ''/api/v1/orgs/{org}/projects/{project}/permissions/rules'', [org, project]),
     (createProjectRule org project a b c k, ''POST'', ''/api/v1/orgs/{org}/projects/{project}/permissions/rules'', [org, project]),
     (deleteProjectRule org project k, ''DELETE'', ''/api/v1/orgs/{org}/projects/{project}/permissions/rules/{id}'', [org, project, js_show_int k]),
     (listProjectDefaults org project, ''GET'', ''/api/v1/orgs/{org}/projects/{project}/permissions/defaults'', [org, project]),
     (setProjectDefault org project a k, ''PUT'', ''/api/v1/orgs/{org}/projects/{project}/permissions/defaults'', [org, project]),
     (deleteProjectDefault org project a, ''DELETE'', ''/api/v1/orgs/{org}/projects/{project}/permissions/defaults'', [org, project])]"

definition member_calls :: "string \<Rightarrow> string \<Rightarrow> string \<Rightarrow> string \<Rightarrow> bool \<Rightarrow> bool \<Rightarrow> expectation list" where
  "member_calls org a b c q r = [
     (listOrgMembers org, ''GET'', ''/api/v1/orgs/{org}/members'', [org]),
     (addOrgMember org a b, ''POST'', ''/api/v1/orgs/{org}/members'', [org]),
     (updateOrgMember org a b, ''PATCH'', ''/api/v1/orgs/{org}/members/{user}'', [org, a]),
     (removeOrgMember org a, ''DELETE'', ''/api/v1/orgs/{org}/members/{user}'', [org, a]),
     (listGroups org, ''GET'', ''/api/v1/orgs/{org}/groups'', [org]),
     (createGroup org a b, ''POST'', ''/api/v1/orgs/{org}/groups'', [org]),
     (getGroup org a, ''GET'', ''/api/v1/orgs/{org}/groups/{group}'', [org, a]),
     (addGroupMember org a b, ''POST'', ''/api/v1/orgs/{org}/groups/{group}/members'', [org, a]),
     (removeGroupMember org a b, ''DELETE'', ''/api/v1/orgs/{org}/groups/{group}/members/{user}'', [org, a, b]),
     (listUsers, ''GET'', ''/api/v1/users'', []),
     (createUser a b c, ''POST'', ''/api/v1/users'', []),
     (updateUserEmail a b, ''PATCH'', ''/api/v1/users/{user}'', [a]),
     (deactivateUser a, ''DELETE'', ''/api/v1/users/{user}'', [a]),
     (resetUserPassword a b, ''POST'', ''/api/v1/users/{user}/password'', [a]),
     (updateUserFlags a q r, ''PATCH'', ''/api/v1/users/{user}/admin'', [a])]"

definition webhook_calls :: "string \<Rightarrow> string \<Rightarrow> string \<Rightarrow> string \<Rightarrow> int option \<Rightarrow> int \<Rightarrow> CreateWebhookInput \<Rightarrow> UpdateWebhookInput \<Rightarrow> expectation list" where
  "webhook_calls org project a b n k cw uw = [
     (listWebhooks org project, ''GET'', ''/api/v1/orgs/{org}/projects/{project}/webhooks'', [org, project]),
     (createWebhook org project cw, ''POST'', ''/api/v1/orgs/{org}/projects/{project}/webhooks'', [org, project]),
     (updateWebhook org project a uw, ''PATCH'', ''/api/v1/orgs/{org}/projects/{project}/webhooks/{id}'', [org, project, a]),
     (deleteWebhook org project a, ''DELETE'', ''/api/v1/orgs/{org}/projects/{project}/webhooks/{id}'', [org, project, a]),
     (rotateWebhookSecret org project a, ''POST'', ''/api/v1/orgs/{org}/projects/{project}/webhooks/{id}/rotate-secret'', [org, project, a]),
     (testWebhook org project a, ''POST'', ''/api/v1/orgs/{org}/projects/{project}/webhooks/{id}/test'', [org, project, a]),
     (listWebhookDeliveries org project a k k, ''GET'', ''/api/v1/orgs/{org}/projects/{project}/webhooks/{id}/deliveries'', [org, project, a]),
     (redeliverWebhookDelivery org project a b, ''POST'', ''/api/v1/orgs/{org}/projects/{project}/webhooks/{id}/deliveries/{deliveryId}/redeliver'', [org, project, a, b]),
     (listEmailDeliveries org project a b k, ''GET'', ''/api/v1/orgs/{org}/projects/{project}/emails/deliveries'', [org, project]),
     (redeliverEmailDelivery org project a, ''POST'', ''/api/v1/orgs/{org}/projects/{project}/emails/deliveries/{id}/redeliver'', [org, project, a]),
     (getOrgStorage org, ''GET'', ''/api/v1/orgs/{org}/storage'', [org]),
     (getMyBilling, ''GET'', ''/api/v1/billing/me'', []),
     (setOwnerQuota a n, ''PUT'', ''/api/v1/admin/billing/owners/{user}/quota'', [a]),
     (setOrgBillingOwner org a, ''PUT'', ''/api/v1/admin/orgs/{org}/billing-owner'', [org]),
     (recountOrgStorage org, ''POST'', ''/api/v1/admin/orgs/{org}/storage/recount'', [org])]"

text \<open>
  The requests of the session client: signing in and out, the refresh, and the two pages that end with a session,
  each as the request its definition sends in a given state of the client.
\<close>

definition last_request :: "Client \<Rightarrow> ApiCall" where
  "last_request c = (let f = last (c_fetched c) in \<lparr>ep_method = fe_method f, ep_url = fe_path f, ep_body = fe_body f\<rparr>)"

definition verify_session :: "string \<Rightarrow> string \<Rightarrow> Client \<Rightarrow> Client" where
  "verify_session token password =
     establishSession_start ''/api/v1/auth/verify'' (JObject [(''token'', JString token), (''password'', JString password)])"

definition oauth_session :: "string \<Rightarrow> Client \<Rightarrow> Client" where
  "oauth_session code = establishSession_start ''/api/v1/auth/oauth/complete'' (JObject [(''code'', JString code)])"

definition session_calls :: "Client \<Rightarrow> LoginRequest \<Rightarrow> string \<Rightarrow> string \<Rightarrow> expectation list" where
  "session_calls cl req a b = [
     (last_request (login_start req cl), ''POST'', ''/api/v1/auth/login'', []),
     (last_request (snd (refreshOnce (cl\<lparr>refreshInFlight := None\<rparr>))), ''POST'', ''/api/v1/auth/refresh'', []),
     (last_request (logout_start cl), ''POST'', ''/api/v1/auth/logout'', []),
     (last_request (verify_session a b cl), ''POST'', ''/api/v1/auth/verify'', []),
     (last_request (oauth_session a cl), ''POST'', ''/api/v1/auth/oauth/complete'', [])]"

section \<open>What a request has to satisfy\<close>

text \<open>The segments of a route template, its \<open>{name}\<close> parts replaced by the arguments in order.\<close>

fun bind_route :: "string list \<Rightarrow> string list \<Rightarrow> string list option" where
  "bind_route [] [] = Some []"
| "bind_route [] (a # as) = None"
| "bind_route (t # ts) args =
     (if js_startsWith t ''{'' then
        (case args of [] \<Rightarrow> None | a # as \<Rightarrow> map_option ((#) a) (bind_route ts as))
      else map_option ((#) t) (bind_route ts args))"

definition route_segments :: "string \<Rightarrow> string list" where
  "route_segments route = tl (js_split (CHR ''/'') route)"

definition call_on_route :: "expectation \<Rightarrow> bool" where
  "call_on_route e = (case e of (call, meth, route, args) \<Rightarrow>
     ep_method call = meth \<and> request_segments (ep_url call) \<noteq> None \<and>
     request_segments (ep_url call) = bind_route (route_segments route) args)"

text \<open>
  The arguments that take the place of a parameter are plain segments. Organizations and projects are named by
  slugs, the names of branches and tags are checked by \<open>validateBranchName\<close> and \<open>validateTagName\<close> (no slash, not \<open>.\<close>
  or \<open>..\<close>), and everything else is an identifier.
\<close>

definition plain_arguments :: "expectation \<Rightarrow> bool" where
  "plain_arguments e = (case e of (call, meth, route, args) \<Rightarrow> list_all plain_segment args)"

text \<open>The same with each segment decoded on its own, which holds for any arguments.\<close>

definition call_in_segments :: "expectation \<Rightarrow> bool" where
  "call_in_segments e = (case e of (call, meth, route, args) \<Rightarrow>
     ep_method call = meth \<and> those (url_segments (ep_url call)) = bind_route (route_segments route) args \<and>
     bind_route (route_segments route) args \<noteq> None)"

definition route_registered :: "(string \<times> string) list \<Rightarrow> expectation \<Rightarrow> bool" where
  "route_registered routes e = (case e of (call, meth, route, args) \<Rightarrow> List.member routes (meth, route))"

lemmas call_rules =
  endpoint_defs oauthStartURL_def api_get_def api_delete_def api_send_def projectBase_def mergeRequestBase_def
  webhookBase_def orgBase_def  url_segments_def url_path_def route_segments_def

lemma with_query_path [simp]:
  "takeWhile (\<lambda>c. c \<noteq> CHR ''?'') (with_query base ps) = takeWhile (\<lambda>c. c \<noteq> CHR ''?'') base"
  by (cases "ps = []") (simp_all add: with_query_def takeWhile_tail)

lemma show_int_no_question: "CHR ''?'' \<notin> set (js_show_int k)" "CHR ''/'' \<notin> set (js_show_int k)"
  "CHR ''%'' \<notin> set (js_show_int k)"
  by (auto simp: js_show_int_def js_is_digit_def dest!: js_show_nat_digits)

lemma decode_no_percent: "CHR ''%'' \<notin> set s \<Longrightarrow> decodeURIComponent s = Some s"
  by (induction s) auto

lemma show_int_segment [simp]:
  "takeWhile (\<lambda>c. c \<noteq> CHR ''?'') (js_show_int k) = js_show_int k"
  "js_split (CHR ''/'') (js_show_int k) = [js_show_int k]"
  "decodeURIComponent (js_show_int k) = Some (js_show_int k)"
  using show_int_no_question [of k]
  by (auto simp: takeWhile_eq_all_conv js_split_no_sep decode_no_percent)

section \<open>Every call is on its route\<close>

lemma list_all_conj: "list_all (\<lambda>x. P x \<and> Q x) xs \<longleftrightarrow> list_all P xs \<and> list_all Q xs"
  by (induction xs) auto

lemma registered_mono:
  "list_all (route_registered rs) es \<Longrightarrow> set rs \<subseteq> set rs' \<Longrightarrow> list_all (route_registered rs') es"
  by (auto simp: list_all_iff route_registered_def)

lemma account_in_segments: "list_all call_in_segments (account_calls a b q)"
  by (simp add: account_calls_def call_in_segments_def call_rules js_startsWith_def split: option.split)

lemma account_registered: "list_all (route_registered server_routes) (account_calls a b q)"
proof (rule registered_mono)
  show "list_all (route_registered (registration_routes @ user_routes @ ssh_key_routes @ oauth_routes)) (account_calls a b q)"
    unfolding account_calls_def route_registered_def list.pred_inject prod.case by code_simp
qed (auto simp: server_routes_def)

lemma project_in_segments: "list_all call_in_segments (project_calls org project a b c q r n oa ob os cur)"
  by (simp add: project_calls_def call_in_segments_def call_rules js_startsWith_def split: option.split)

lemma project_registered: "list_all (route_registered server_routes) (project_calls org project a b c q r n oa ob os cur)"
proof (rule registered_mono)
  show "list_all (route_registered (org_routes @ project_routes @ browser_routes @ tag_routes)) (project_calls org project a b c q r n oa ob os cur)"
    unfolding project_calls_def route_registered_def list.pred_inject prod.case by code_simp
qed (auto simp: server_routes_def)

lemma merge_request_in_segments: "list_all call_in_segments (merge_request_calls org project a b c d q ob ss f)"
  by (simp add: merge_request_calls_def call_in_segments_def call_rules js_startsWith_def split: option.split)

lemma merge_request_registered: "list_all (route_registered server_routes) (merge_request_calls org project a b c d q ob ss f)"
proof (rule registered_mono)
  show "list_all (route_registered (merge_request_routes)) (merge_request_calls org project a b c d q ob ss f)"
    unfolding merge_request_calls_def route_registered_def list.pred_inject prod.case by code_simp
qed (auto simp: server_routes_def)

lemma review_in_segments: "list_all call_in_segments (review_calls org project a b c d q ob sub tc)"
  by (simp add: review_calls_def call_in_segments_def call_rules js_startsWith_def split: option.split)

lemma review_registered: "list_all (route_registered server_routes) (review_calls org project a b c d q ob sub tc)"
proof (rule registered_mono)
  show "list_all (route_registered (review_routes)) (review_calls org project a b c d q ob sub tc)"
    unfolding review_calls_def route_registered_def list.pred_inject prod.case by code_simp
qed (auto simp: server_routes_def)

lemma permission_in_segments: "list_all call_in_segments (permission_calls org project a b c k)"
  by (simp add: permission_calls_def call_in_segments_def call_rules js_startsWith_def split: option.split)

lemma permission_registered: "list_all (route_registered server_routes) (permission_calls org project a b c k)"
proof (rule registered_mono)
  show "list_all (route_registered (file_lock_routes @ permission_routes)) (permission_calls org project a b c k)"
    unfolding permission_calls_def route_registered_def list.pred_inject prod.case by code_simp
qed (auto simp: server_routes_def)

lemma member_in_segments: "list_all call_in_segments (member_calls org a b c q r)"
  by (simp add: member_calls_def call_in_segments_def call_rules js_startsWith_def split: option.split)

lemma member_registered: "list_all (route_registered server_routes) (member_calls org a b c q r)"
proof (rule registered_mono)
  show "list_all (route_registered (org_routes @ group_routes @ user_routes)) (member_calls org a b c q r)"
    unfolding member_calls_def route_registered_def list.pred_inject prod.case by code_simp
qed (auto simp: server_routes_def)

lemma webhook_in_segments: "list_all call_in_segments (webhook_calls org project a b n k cw uw)"
  by (simp add: webhook_calls_def call_in_segments_def call_rules js_startsWith_def split: option.split)

lemma webhook_registered: "list_all (route_registered server_routes) (webhook_calls org project a b n k cw uw)"
proof (rule registered_mono)
  show "list_all (route_registered (webhook_routes @ email_routes @ storage_routes)) (webhook_calls org project a b n k cw uw)"
    unfolding webhook_calls_def route_registered_def list.pred_inject prod.case by code_simp
qed (auto simp: server_routes_def)

lemmas session_start_defs = session_calls_def last_request_def verify_session_def oauth_session_def login_start_def logout_start_def
  refreshOnce_def establishSession_start_def apiFetch_start_def do_fetch_def post_init_def refresh_init_def

lemma session_in_segments: "list_all call_in_segments (session_calls cl req a b)"
  by (simp add: session_start_defs call_in_segments_def call_rules js_startsWith_def Let_def)

lemma session_registered: "list_all (route_registered server_routes) (session_calls cl req a b)"
proof (rule registered_mono)
  show "list_all (route_registered (auth_routes @ registration_routes @ oauth_routes)) (session_calls cl req a b)"
    unfolding session_calls_def route_registered_def list.pred_inject prod.case by code_simp
qed (auto simp: server_routes_def)

lemmas calls_in_segments =
  account_in_segments project_in_segments merge_request_in_segments review_in_segments permission_in_segments member_in_segments
  webhook_in_segments session_in_segments

lemmas calls_registered =
  account_registered project_registered merge_request_registered review_registered permission_registered member_registered webhook_registered session_registered

text \<open>All calls of the client, for arbitrary arguments.\<close>

definition client_calls :: "string \<Rightarrow> string \<Rightarrow> string \<Rightarrow> string \<Rightarrow> string \<Rightarrow> string \<Rightarrow> bool \<Rightarrow> bool \<Rightarrow> int option \<Rightarrow> int \<Rightarrow> string option \<Rightarrow> bool option \<Rightarrow> string list option \<Rightarrow> string list \<Rightarrow> (string \<times> string) option \<Rightarrow> MergeRequestFilter \<Rightarrow> SubmitReviewRequest \<Rightarrow> ThreadCommentInput \<Rightarrow> CreateWebhookInput \<Rightarrow> UpdateWebhookInput \<Rightarrow> Client \<Rightarrow> LoginRequest \<Rightarrow> expectation list" where
  "client_calls org project a b c d q r n k oa ob os ss cur f sub tc cw uw cl req =
     account_calls a b q @ project_calls org project a b c q r n oa ob os cur @
     merge_request_calls org project a b c d q ob ss f @ review_calls org project a b c d
     q ob sub tc @ permission_calls org project a b c k @ member_calls org a b c q r @
     webhook_calls org project a b n k cw uw @ session_calls cl req a b"

lemma bind_plain:
  "bind_route ts args = Some ss \<Longrightarrow> list_all (\<lambda>t. js_startsWith t ''{'' \<or> plain_segment t) ts \<Longrightarrow> list_all plain_segment args \<Longrightarrow>
   list_all plain_segment ss \<and> length ss = length ts"
  by (induction ts args arbitrary: ss rule: bind_route.induct) (auto split: if_splits list.splits)

lemma routes_plain:
  "list_all (\<lambda>(meth, route). route_segments route \<noteq> [] \<and>
     list_all (\<lambda>t. js_startsWith t ''{'' \<or> plain_segment t) (route_segments route)) server_routes"
  by code_simp

lemma in_segments_on_route:
  assumes "call_in_segments e" "route_registered server_routes e" "plain_arguments e"
  shows "call_on_route e"
proof -
  obtain call meth route args where e: "e = (call, meth, route, args)" by (cases e)
  have route: "route_segments route \<noteq> []" "list_all (\<lambda>t. js_startsWith t ''{'' \<or> plain_segment t) (route_segments route)"
    using routes_plain assms(2) by (auto simp: e route_registered_def list_all_iff)
  obtain ss where ss: "ep_method call = meth" "those (url_segments (ep_url call)) = Some ss" "bind_route (route_segments route) args = Some ss"
    using assms(1) by (auto simp: e call_in_segments_def)
  have "list_all plain_segment ss" "ss \<noteq> []"
    using bind_plain [OF ss(3) route(2)] assms(3) route(1) by (auto simp: e plain_arguments_def)
  then show ?thesis using request_plain_segments [OF ss(2)] ss by (simp add: e call_on_route_def)
qed

text \<open>
  Property C3. Every request of the web client, those of \<open>endpoints.ts\<close>, of the session and of the pages that end with one,
  is meant for a route that the server registers, and for plain arguments it is an instance of it: it has the method
  of the route, and the path that arrives, resolved by the browser, decoded and split at the slashes, is that of the
  route with the caller's arguments, unchanged, in the place of its parameters. With any other argument, such as \<open>..\<close>
  or one with a slash, the request can miss its route, as \<open>dots_leave_the_route\<close> shows.\<close>

theorem client_calls_hit_server_routes:
  "list_all (\<lambda>e. route_registered server_routes e \<and> (plain_arguments e \<longrightarrow> call_on_route e))
     (client_calls org project a b c d q r n k oa ob os ss cur f sub tc cw uw cl req)"
proof -
  have "list_all call_in_segments (client_calls org project a b c d q r n k oa ob os ss cur f sub tc cw uw cl req)"
    "list_all (route_registered server_routes) (client_calls org project a b c d q r n k oa ob os ss cur f sub tc cw uw cl req)"
    using calls_in_segments calls_registered by (simp_all add: client_calls_def)
  then show ?thesis using in_segments_on_route by (auto simp: list_all_iff)
qed

definition sample_request :: expectation where
  "sample_request = (renameBranch ''acme'' ''game'' ''art?1'' ''art'', ''PATCH'', ''/api/v1/orgs/{org}/projects/{project}/branches/{name}'',
     [''acme'', ''game'', ''art?1''])"

definition sample_calls :: "expectation list" where
  "sample_calls = client_calls ''acme'' ''game'' ''art?1'' ''art'' [] [] False False None 0 None None None [] None
     \<lparr>mf_status = None, mf_author = None, mf_source = None, mf_target = None, mf_draft = None, mf_search = None, mf_assignee = None,
       mf_after = None, mf_limit = None\<rparr>
     \<lparr>sr_state = RApproved, sr_body = [], sr_comments = []\<rparr> \<lparr>tc_file_path = [], tc_old_line = None, tc_new_line = None, tc_body = []\<rparr>
     \<lparr>cw_name = [], cw_url = [], cw_events = [], cw_path_prefix = [], cw_is_active = True, cw_insecure_tls = False\<rparr>
     \<lparr>uw_name = None, uw_url = None, uw_events = None, uw_path_prefix = None, uw_is_active = None, uw_insecure_tls = None\<rparr>
     (initial_client False) \<lparr>lr_email = [], lr_password = []\<rparr>"

theorem client_calls_hit_server_routes_witness:
  "call_on_route sample_request \<and> route_registered server_routes sample_request"
proof -
  have "sample_request \<in> set sample_calls"
    by (simp add: sample_calls_def client_calls_def project_calls_def sample_request_def)
  moreover have "plain_arguments sample_request" by (simp add: plain_arguments_def sample_request_def plain_segment_def)
  moreover have "list_all (\<lambda>e. route_registered server_routes e \<and> (plain_arguments e \<longrightarrow> call_on_route e)) sample_calls"
    unfolding sample_calls_def by (rule client_calls_hit_server_routes)
  ultimately show ?thesis by (auto simp: list_all_iff)
qed

text \<open>
  Deleting a branch called \<open>..\<close>, which the server refuses to create, would be sent to the address of the project, and one
  with a slash to an address below that of another branch.
\<close>

theorem dots_leave_the_route:
  "request_segments (ep_url (deleteBranch ''o'' ''p'' ''..'')) = Some [''api'', ''v1'', ''orgs'', ''o'', ''projects'', ''p'', []] \<and>
   request_segments (ep_url (deleteBranch ''o'' ''p'' ''a/b'')) =
     Some [''api'', ''v1'', ''orgs'', ''o'', ''projects'', ''p'', ''branches'', ''a'', ''b'']"
  by code_simp

end
