(* ===== verification/Js_Date.thy ===== *)
theory Js_Date
  imports Js_Prelude
begin

text \<open>
  \<open>Date\<close> and \<open>parseInt\<close>, as far as the user interfaces use them. \<open>js_date s\<close> is
  \<open>new Date(s).getTime()\<close> for the RFC 3339 time stamps the server writes
  (\<open>2024-05-06T07:08:09.123456Z\<close> or with a numeric offset); a string of any other form gives
  \<open>None\<close>, which stands for NaN.
\<close>

section \<open>Calendar\<close>

text \<open>Days since 1970-01-01 of a civil date, counting years from March.\<close>

definition days_from_civil :: "int \<Rightarrow> int \<Rightarrow> int \<Rightarrow> int" where
  "days_from_civil y m d =
     (let y' = (if m \<le> 2 then y - 1 else y);
          era = y' div 400;
          yoe = y' - era * 400;
          doy = (153 * (m + (if m > 2 then -3 else 9)) + 2) div 5 + d - 1;
          doe = yoe * 365 + yoe div 4 - yoe div 100 + doy
      in era * 146097 + doe - 719468)"

definition is_leap :: "int \<Rightarrow> bool" where
  "is_leap y \<longleftrightarrow> y mod 4 = 0 \<and> (y mod 100 \<noteq> 0 \<or> y mod 400 = 0)"

definition days_in_month :: "int \<Rightarrow> int \<Rightarrow> int" where
  "days_in_month y m =
     (if m = 2 then (if is_leap y then 29 else 28) else if m \<in> {4, 6, 9, 11} then 30 else 31)"

section \<open>Reading digits\<close>

definition digits_at :: "string \<Rightarrow> nat \<Rightarrow> nat \<Rightarrow> int option" where
  "digits_at s i n =
     (let w = take n (drop i s) in
      if length w = n \<and> list_all js_is_digit w then Some (int (js_digits_value w)) else None)"

definition char_at :: "string \<Rightarrow> nat \<Rightarrow> char \<Rightarrow> bool" where
  "char_at s i c \<longleftrightarrow> i < length s \<and> s ! i = c"

text \<open>The fraction of a second, cut to milliseconds, and what follows it.\<close>

definition fraction_ms :: "string \<Rightarrow> int \<times> string" where
  "fraction_ms r =
     (case r of
        c # cs \<Rightarrow>
          if c = CHR ''.'' then
            (let ds = takeWhile js_is_digit cs
             in (int (js_digits_value (take 3 (ds @ ''000''))), dropWhile js_is_digit cs))
          else (0, r)
      | [] \<Rightarrow> (0, r))"

text \<open>The offset in minutes: \<open>Z\<close> or \<open>+hh:mm\<close>.\<close>

definition zone_minutes :: "string \<Rightarrow> int option" where
  "zone_minutes r =
     (if r = ''Z'' then Some 0
      else if length r = 6 \<and> char_at r 3 (CHR '':'') \<and> (char_at r 0 (CHR ''+'') \<or> char_at r 0 (CHR ''-'')) then
        (case (digits_at r 1 2, digits_at r 4 2) of
           (Some h, Some m) \<Rightarrow>
             if h \<le> 23 \<and> m \<le> 59 then Some ((if char_at r 0 (CHR ''-'') then -1 else 1) * (60 * h + m)) else None
         | _ \<Rightarrow> None)
      else None)"

definition js_date :: "string \<Rightarrow> int option" where
  "js_date s =
     (case (digits_at s 0 4, digits_at s 5 2, digits_at s 8 2,
            digits_at s 11 2, digits_at s 14 2, digits_at s 17 2) of
        (Some y, Some mo, Some d, Some h, Some mi, Some sec) \<Rightarrow>
          (if char_at s 4 (CHR ''-'') \<and> char_at s 7 (CHR ''-'') \<and> char_at s 10 (CHR ''T'') \<and>
              char_at s 13 (CHR '':'') \<and> char_at s 16 (CHR '':'') \<and>
              1 \<le> mo \<and> mo \<le> 12 \<and> 1 \<le> d \<and> d \<le> days_in_month y mo \<and> h \<le> 23 \<and> mi \<le> 59 \<and> sec \<le> 59
           then (case fraction_ms (drop 19 s) of (ms, zone) \<Rightarrow>
                   map_option (\<lambda>off.
                     ((days_from_civil y mo d * 24 + h) * 60 + mi - off) * 60000 + sec * 1000 + ms)
                   (zone_minutes zone))
           else None)
      | _ \<Rightarrow> None)"

text \<open>\<open>new Date(a) > new Date(b)\<close>; a comparison with NaN is false.\<close>

definition date_after :: "string \<Rightarrow> string \<Rightarrow> bool" where
  "date_after a b = (case (js_date a, js_date b) of (Some x, Some y) \<Rightarrow> x > y | _ \<Rightarrow> False)"

text \<open>
  The order that \<open>(a, b) => a.getTime() - b.getTime()\<close> sorts by. For a time stamp that is not
  a date the difference is NaN and JavaScript leaves the order open; the model puts such stamps first, and
  the statements about the order of a sorted list ask for valid dates.
\<close>

definition date_le :: "string \<Rightarrow> string \<Rightarrow> bool" where
  "date_le a b = (case (js_date a, js_date b) of
     (Some x, Some y) \<Rightarrow> x \<le> y | (None, _) \<Rightarrow> True | (Some x, None) \<Rightarrow> False)"

text \<open>\<open>Number.parseInt(s, 10)\<close>; \<open>None\<close> is NaN.\<close>

definition js_parseInt :: "string \<Rightarrow> int option" where
  "js_parseInt s =
     (let t = dropWhile js_is_space s;
          neg = js_startsWith t ''-'';
          u = (if neg \<or> js_startsWith t ''+'' then tl t else t);
          ds = takeWhile js_is_digit u
      in if ds = [] then None
         else Some ((if neg then -1 else 1) * int (js_digits_value ds)))"

lemmas date_defs [js_defs] =
  days_from_civil_def is_leap_def days_in_month_def digits_at_def char_at_def fraction_ms_def
  zone_minutes_def js_date_def date_after_def date_le_def js_parseInt_def js_is_digit_def
  js_digits_value_def

section \<open>Laws\<close>

interpretation date_key: sort_order "\<lambda>x y. date_le (f x) (f y)" for f :: "'a \<Rightarrow> string"
  by unfold_locales (auto simp: date_le_def split: option.splits)

lemma js_parseInt_show [simp]: "js_parseInt (js_show_nat n) = Some (int n)"
proof -
  have digits: "\<forall>c \<in> set (js_show_nat n). js_is_digit c" using js_show_nat_digits by blast
  then have t: "takeWhile js_is_digit (js_show_nat n) = js_show_nat n"
    by (metis takeWhile_eq_all_conv)
  obtain c cs where c: "js_show_nat n = c # cs" by (cases "js_show_nat n") auto
  with digits have d: "js_is_digit c" by simp
  then have "\<not> js_is_space c" by (auto simp: js_is_digit_def js_is_space_def Let_def)
  then have "dropWhile js_is_space (js_show_nat n) = js_show_nat n" by (simp add: c)
  moreover have "c \<noteq> CHR ''-''" "c \<noteq> CHR ''+''" using d by (auto simp: js_is_digit_def)
  then have "\<not> js_startsWith (js_show_nat n) ''-''" "\<not> js_startsWith (js_show_nat n) ''+''"
    by (simp_all add: c js_startsWith_def)
  ultimately show ?thesis by (simp add: js_parseInt_def Let_def t)
qed

text \<open>The epoch, and a leap day with fraction and offset.\<close>

lemma js_date_epoch: "js_date ''1970-01-01T00:00:00Z'' = Some 0"
  by (simp add: js_defs Let_def)

lemma js_date_example: "js_date ''2024-02-29T12:00:00.25+02:00'' = Some 1709200800250"
  by (simp add: js_defs Let_def)

end
