(* ===== verification/Merge_Request.thy ===== *)
theory Merge_Request
  imports Web_Models Js_Date Endpoints
begin

text \<open>
  The merge request page of the web client, \<open>MergeRequestOverview.tsx\<close> and \<open>ActorAvatar.tsx\<close>:
  the list of reviewers, the conversation, the review form with its inline drafts, the sidebar
  operations and the merge box; and the same logic of the desktop client, \<open>lib/mergeRequests.ts\<close>.
  Markup is reduced to the text, the links and the controls it shows.
\<close>

section \<open>Actors\<close>

record ActorLike =
  al_user_id :: string
  al_name :: "string option"
  al_photo_url :: "string option"

definition actor_of :: "ReviewActorResponse \<Rightarrow> ActorLike" where
  "actor_of a = \<lparr>al_user_id = ra_user_id a, al_name = Some (ra_name a), al_photo_url = ra_photo_url a\<rparr>"

definition actor_of_member :: "OrgMemberResponse \<Rightarrow> ActorLike" where
  "actor_of_member m =
     \<lparr>al_user_id = om_user_id m, al_name = Some (om_name m), al_photo_url = Some (om_photo_url m)\<rparr>"

definition actorName :: "ActorLike option \<Rightarrow> string" where
  "actorName a = (case a of
     None \<Rightarrow> ''unknown''
   | Some a \<Rightarrow> if truthy (al_name a) then the (al_name a) else al_user_id a)"

text \<open>\<open>ActorAvatar\<close>: the photo, or the initials in a circle of the given size.\<close>

datatype avatar = Photo string nat string | Initials string nat int

definition ActorAvatar :: "ActorLike option \<Rightarrow> nat \<Rightarrow> avatar" where
  "ActorAvatar a sz =
     (let label = actorName a;
          photo = (case a of None \<Rightarrow> None | Some a \<Rightarrow> al_photo_url a)
      in if truthy photo then Photo (the photo) sz label
         else Initials (map js_upper_char (js_slice label 0 2)) sz (js_round_div (int sz * 45) 100))"

definition mergeActorMaps :: "(string, ActorLike) js_map list \<Rightarrow> (string, ActorLike) js_map" where
  "mergeActorMaps maps =
     fold (\<lambda>m merged. fold (\<lambda>(i, a) merged. if js_map_has merged i then merged else js_map_set merged i a)
        m merged) maps []"

definition add_actor :: "ActorLike option \<Rightarrow> (string, ActorLike) js_map \<Rightarrow> (string, ActorLike) js_map" where
  "add_actor a m = (case a of
     None \<Rightarrow> m
   | Some a \<Rightarrow> if js_map_has m (al_user_id a) then m else js_map_set m (al_user_id a) a)"

definition actorsFrom :: "ActorLike option list list \<Rightarrow> (string, ActorLike) js_map" where
  "actorsFrom groups = fold (\<lambda>group m. fold add_actor group m) groups []"

section \<open>Labels\<close>

datatype ReviewerStatus = SPending | SApproved | SChangesRequested | SCommented | SDismissed

datatype icon =
    CheckIcon | XIcon | CommentIcon | EyeIcon | ClockIcon | GitCommitIcon | XCircleIcon
  | GitMergeIcon | GitPullRequestIcon

record status_view =
  sv_icon :: icon
  sv_color :: string
  sv_label :: string

definition reviewerStatus :: "ReviewerStatus \<Rightarrow> status_view" where
  "reviewerStatus s = (case s of
     SApproved \<Rightarrow> \<lparr>sv_icon = CheckIcon, sv_color = ''var(--fgColor-success)'', sv_label = ''approved these changes''\<rparr>
   | SChangesRequested \<Rightarrow> \<lparr>sv_icon = XIcon, sv_color = ''var(--fgColor-danger)'', sv_label = ''requested changes''\<rparr>
   | SCommented \<Rightarrow> \<lparr>sv_icon = CommentIcon, sv_color = ''var(--fgColor-muted)'', sv_label = ''reviewed''\<rparr>
   | SDismissed \<Rightarrow> \<lparr>sv_icon = EyeIcon, sv_color = ''var(--fgColor-muted)'', sv_label = ''review dismissed''\<rparr>
   | SPending \<Rightarrow> \<lparr>sv_icon = ClockIcon, sv_color = ''var(--fgColor-attention)'', sv_label = ''review pending''\<rparr>)"

definition reviewVerb :: "ReviewResponse \<Rightarrow> string" where
  "reviewVerb r =
     (if truthy (rv_dismissed_at r) then ''had their review dismissed''
      else if rv_state r = RApproved
           then (if rv_stale r then ''approved these changes (outdated)'' else ''approved these changes'')
      else if rv_state r = RChangesRequested then ''requested changes''
      else ''reviewed'')"

definition eventIcon :: "string \<Rightarrow> icon" where
  "eventIcon kind =
     (if kind = ''pushed'' then GitCommitIcon
      else if kind = ''review_requested'' \<or> kind = ''review_request_removed'' then EyeIcon
      else if kind = ''review_dismissed'' then XCircleIcon
      else if kind = ''merged'' then GitMergeIcon
      else if kind = ''closed'' then XCircleIcon
      else if kind = ''reopened'' then GitPullRequestIcon
      else CommentIcon)"

datatype node = Txt string | Strong string | MonoText string | LinkTo string string

text \<open>\<open>hash?.slice(0, 10) || id?.slice(0, 10) || ''\<close>.\<close>

definition short_commit :: "string option \<Rightarrow> string option \<Rightarrow> string" where
  "short_commit hash i =
     (if truthy (map_option (\<lambda>h. js_slice h 0 10) hash) then js_slice (the hash) 0 10
      else js_slice (coalesce i []) 0 10)"

definition eventLabel :: "TimelineItemResponse \<Rightarrow> string \<Rightarrow> string \<Rightarrow> node list" where
  "eventLabel item org project =
     (let actor = Strong (actorName (Some (actor_of (ti_actor item))));
          subject = Strong (actorName (map_option actor_of (ti_subject item)));
          kind = ti_kind item
      in if kind = ''pushed'' then
           [actor, Txt '' pushed new commits''] @
           (if truthy (ti_commit_id item)
            then [Txt '' '', LinkTo (''/'' @ org @ ''/'' @ project @ ''/commits/'' @ the (ti_commit_id item))
                    (short_commit (ti_commit_hash item) (ti_commit_id item))]
            else [])
         else if kind = ''review_requested'' then [actor, Txt '' requested a review from '', subject]
         else if kind = ''review_request_removed'' then
           [actor, Txt '' removed the review request for '', subject]
         else if kind = ''review_dismissed'' then [actor, Txt '' dismissed a review'']
         else if kind = ''merged'' then
           [actor, Txt '' merged commit '', MonoText (short_commit (ti_commit_hash item) (ti_commit_id item))]
         else if kind = ''closed'' then [actor, Txt '' closed this merge request'']
         else if kind = ''reopened'' then [actor, Txt '' reopened this merge request'']
         else [actor, Txt ('' '' @ js_replace_char (CHR ''_'') '' '' kind)])"

section \<open>Reviewers\<close>

record ReviewerEntry =
  re_user :: ActorLike
  re_status :: ReviewerStatus
  re_review :: "ReviewResponse option"
  re_requestId :: "string option"

type_synonym reviewer_state = "ReviewerEntry list \<times> (string, ReviewerEntry) js_map"

definition review_status :: "ReviewResponse \<Rightarrow> ReviewerStatus" where
  "review_status r =
     (if truthy (rv_dismissed_at r) then SDismissed
      else case rv_state r of
             RCommented \<Rightarrow> SCommented | RApproved \<Rightarrow> SApproved | RChangesRequested \<Rightarrow> SChangesRequested)"

definition review_entry :: "ReviewResponse \<Rightarrow> ReviewerEntry" where
  "review_entry r =
     \<lparr>re_user = actor_of (rv_reviewer r), re_status = review_status r, re_review = Some r, re_requestId = None\<rparr>"

text \<open>\<open>xs.splice(xs.indexOf(old), 1, new)\<close>; for an absent element -1 addresses the last one.\<close>

definition splice_entry :: "'a list \<Rightarrow> 'a \<Rightarrow> 'a \<Rightarrow> 'a list" where
  "splice_entry xs old new = (case js_indexOf xs old 0 of
     Some i \<Rightarrow> xs[i := new]
   | None \<Rightarrow> xs[length xs - 1 := new])"

definition add_review :: "ReviewResponse \<Rightarrow> reviewer_state \<Rightarrow> reviewer_state" where
  "add_review r st = (case st of (reviewers, idx) \<Rightarrow>
     let uid = ra_user_id (rv_reviewer r); entry = review_entry r in
     (case js_map_get idx uid of
        None \<Rightarrow> (reviewers @ [entry], js_map_set idx uid entry)
      | Some current \<Rightarrow>
          if (case re_review current of
                None \<Rightarrow> False | Some old \<Rightarrow> date_after (rv_created_at old) (rv_created_at r))
          then st
          else (splice_entry reviewers current entry, js_map_set idx uid entry)))"

definition add_request :: "ReviewRequestResponse \<Rightarrow> reviewer_state \<Rightarrow> reviewer_state" where
  "add_request q st = (case st of (reviewers, idx) \<Rightarrow>
     let uid = ra_user_id (rq_reviewer q) in
     if js_map_has idx uid then st
     else let entry = \<lparr>re_user = actor_of (rq_reviewer q), re_status = SPending, re_review = None,
                       re_requestId = Some (rq_id q)\<rparr>
          in (reviewers @ [entry], js_map_set idx uid entry))"

definition reviewers_of :: "ReviewResponse list \<Rightarrow> ReviewRequestResponse list \<Rightarrow> ReviewerEntry list" where
  "reviewers_of reviews reviewRequests =
     fst (fold add_request reviewRequests (fold add_review reviews ([], [])))"

section \<open>The conversation\<close>

datatype Entry =
    EventEntry string TimelineItemResponse
  | ReviewEntry string ReviewResponse
  | ThreadEntry string ThreadResponse

definition entry_at :: "Entry \<Rightarrow> string" where
  "entry_at e = (case e of EventEntry t _ \<Rightarrow> t | ReviewEntry t _ \<Rightarrow> t | ThreadEntry t _ \<Rightarrow> t)"

definition entries_unsorted ::
  "ThreadResponse list \<Rightarrow> ReviewResponse list \<Rightarrow> TimelineItemResponse list \<Rightarrow> Entry list" where
  "entries_unsorted threads reviews timeline =
     map (\<lambda>t. ThreadEntry (th_created_at t) t) threads @
     map (\<lambda>r. ReviewEntry (rv_created_at r) r) reviews @
     map (\<lambda>i. EventEntry (ti_created_at i) i)
       (filter (\<lambda>i. ti_kind i \<noteq> ''review_submitted'' \<and> ti_kind i \<noteq> ''opened'') timeline)"

definition entries ::
  "ThreadResponse list \<Rightarrow> ReviewResponse list \<Rightarrow> TimelineItemResponse list \<Rightarrow> Entry list" where
  "entries threads reviews timeline =
     js_sort (\<lambda>a b. date_le (entry_at a) (entry_at b)) (entries_unsorted threads reviews timeline)"

datatype ThreadFilter = AllThreads | UnresolvedThreads | ResolvedThreads

definition entry_visible :: "ThreadFilter \<Rightarrow> Entry \<Rightarrow> bool" where
  "entry_visible f e = (case e of
     ThreadEntry _ t \<Rightarrow> f = AllThreads \<or> th_resolved t = (f = ResolvedThreads)
   | _ \<Rightarrow> True)"

definition visibleEntries :: "ThreadFilter \<Rightarrow> Entry list \<Rightarrow> Entry list" where
  "visibleEntries f es = filter (entry_visible f) es"

section \<open>Sidebar lists\<close>

definition threadActors :: "ThreadResponse \<Rightarrow> ActorLike option list" where
  "threadActors t = Some (actor_of (th_created_by t)) # map (\<lambda>c. Some (actor_of (cm_user c))) (th_comments t)"

definition participants ::
  "ThreadResponse list \<Rightarrow> ReviewResponse list \<Rightarrow> ReviewRequestResponse list \<Rightarrow> TimelineItemResponse list \<Rightarrow>
     (string, ActorLike) js_map" where
  "participants threads reviews reviewRequests timeline =
     actorsFrom [concat (map threadActors threads),
       concat (map (\<lambda>r. [Some (actor_of (rv_reviewer r)), map_option actor_of (rv_dismissed_by r)]) reviews),
       concat (map (\<lambda>q. [Some (actor_of (rq_reviewer q)), Some (actor_of (rq_requested_by q))]) reviewRequests),
       concat (map (\<lambda>i. [Some (actor_of (ti_actor i)), map_option actor_of (ti_subject i)]) timeline)]"

definition author_of ::
  "(string, ActorLike) js_map \<Rightarrow> OrgMemberResponse list \<Rightarrow> MergeRequestResponse option \<Rightarrow> ActorLike option" where
  "author_of known members request =
     (case js_map_get known (case request of None \<Rightarrow> [] | Some r \<Rightarrow> mr_created_by r) of
        Some a \<Rightarrow> Some a
      | None \<Rightarrow> map_option actor_of_member
          (find (\<lambda>m. Some (om_user_id m) = map_option mr_created_by request) members))"

definition candidates ::
  "OrgMemberResponse list \<Rightarrow> MergeRequestResponse option \<Rightarrow> ReviewRequestResponse list \<Rightarrow> OrgMemberResponse list" where
  "candidates members request reviewRequests =
     filter (\<lambda>m. Some (om_user_id m) \<noteq> map_option mr_created_by request \<and>
        \<not> list_ex (\<lambda>q. ra_user_id (rq_reviewer q) = om_user_id m) reviewRequests) members"

definition assignees_of :: "MergeRequestResponse option \<Rightarrow> ReviewActorResponse list" where
  "assignees_of request = (case request of None \<Rightarrow> [] | Some r \<Rightarrow> coalesce (mr_assignees r) [])"

definition assigneeCandidates ::
  "OrgMemberResponse list \<Rightarrow> MergeRequestResponse option \<Rightarrow> OrgMemberResponse list" where
  "assigneeCandidates members request =
     filter (\<lambda>m. \<not> list_ex (\<lambda>a. ra_user_id a = om_user_id m) (assignees_of request)) members"

text \<open>The user ids that the unassign and the assign button send.\<close>

definition unassign_ids :: "MergeRequestResponse option \<Rightarrow> ReviewActorResponse \<Rightarrow> string list" where
  "unassign_ids request assignee =
     map ra_user_id (filter (\<lambda>e. ra_user_id e \<noteq> ra_user_id assignee) (assignees_of request))"

definition assign_ids :: "MergeRequestResponse option \<Rightarrow> string \<Rightarrow> string list" where
  "assign_ids request assignee = map ra_user_id (assignees_of request) @ [assignee]"

section \<open>The review form\<close>

datatype Side = NewSide | OldSide

record InlineDraft =
  dr_filePath :: string
  dr_side :: Side
  dr_line :: int
  dr_body :: string

record Overview =
  ov_body :: string
  ov_reviewer :: string
  ov_assignee :: string
  ov_error :: "string option"
  ov_threadFilter :: ThreadFilter
  ov_sending :: bool
  ov_strategy :: string
  ov_deleteSource :: bool
  ov_inlineDrafts :: "InlineDraft list"
  ov_inlineOpen :: bool
  ov_inlineFile :: string
  ov_inlineSide :: Side
  ov_inlineLine :: string
  ov_inlineBody :: string

definition overview_init :: Overview where
  "overview_init =
     \<lparr>ov_body = [], ov_reviewer = [], ov_assignee = [], ov_error = None, ov_threadFilter = AllThreads,
      ov_sending = False, ov_strategy = ''ff'', ov_deleteSource = False, ov_inlineDrafts = [],
      ov_inlineOpen = False, ov_inlineFile = [], ov_inlineSide = NewSide, ov_inlineLine = [],
      ov_inlineBody = []\<rparr>"

definition isAuthor :: "string option \<Rightarrow> MergeRequestResponse option \<Rightarrow> bool" where
  "isAuthor me request =
     (truthy me \<and> (case request of None \<Rightarrow> False | Some r \<Rightarrow> Some (mr_created_by r) = me))"

definition request_open :: "MergeRequestResponse option \<Rightarrow> bool" where
  "request_open request = (case request of None \<Rightarrow> False | Some r \<Rightarrow> mr_status r = ''open'')"

definition canDecide :: "bool \<Rightarrow> string option \<Rightarrow> MergeRequestResponse option \<Rightarrow> bool" where
  "canDecide canWrite me request \<longleftrightarrow> canWrite \<and> request_open request \<and> \<not> isAuthor me request"

definition textFiles :: "DiffFileResponse list \<Rightarrow> DiffFileResponse list" where
  "textFiles files = filter (\<lambda>f. \<not> df_binary f) files"

definition canAddInline :: "Overview \<Rightarrow> bool" where
  "canAddInline o1 \<longleftrightarrow> ov_inlineFile o1 \<noteq> [] \<and>
     (case js_parseInt (ov_inlineLine o1) of None \<Rightarrow> False | Some n \<Rightarrow> n > 0) \<and>
     js_trim (ov_inlineBody o1) \<noteq> []"

definition addInlineDraft :: "Overview \<Rightarrow> Overview" where
  "addInlineDraft o1 =
     (if \<not> canAddInline o1 then o1
      else o1\<lparr>ov_inlineDrafts := ov_inlineDrafts o1 @
               [\<lparr>dr_filePath = ov_inlineFile o1, dr_side = ov_inlineSide o1,
                 dr_line = the (js_parseInt (ov_inlineLine o1)), dr_body = js_trim (ov_inlineBody o1)\<rparr>],
             ov_inlineOpen := False, ov_inlineFile := [], ov_inlineSide := NewSide,
             ov_inlineLine := [], ov_inlineBody := []\<rparr>)"

definition cancelInline :: "Overview \<Rightarrow> Overview" where
  "cancelInline o1 =
     o1\<lparr>ov_inlineOpen := False, ov_inlineFile := [], ov_inlineLine := [], ov_inlineBody := []\<rparr>"

definition removeInlineDraft :: "nat \<Rightarrow> Overview \<Rightarrow> Overview" where
  "removeInlineDraft index o1 =
     o1\<lparr>ov_inlineDrafts :=
         map snd (filter (\<lambda>(i, _). i \<noteq> index) (enumerate 0 (ov_inlineDrafts o1)))\<rparr>"

definition inlineComments :: "Overview \<Rightarrow> ThreadCommentInput list" where
  "inlineComments o1 =
     map (\<lambda>d. \<lparr>tc_file_path = dr_filePath d,
               tc_old_line = (if dr_side d = OldSide then Some (dr_line d) else None),
               tc_new_line = (if dr_side d = OldSide then None else Some (dr_line d)),
               tc_body = dr_body d\<rparr>) (ov_inlineDrafts o1)"

text \<open>\<open>run\<close>: before the action, after it has succeeded and after it has thrown.\<close>

definition run_start :: "Overview \<Rightarrow> Overview" where
  "run_start o1 = o1\<lparr>ov_error := None, ov_sending := True\<rparr>"

definition run_done :: "Overview \<Rightarrow> Overview" where
  "run_done o1 = o1\<lparr>ov_sending := False\<rparr>"

definition run_failed :: "string \<Rightarrow> Overview \<Rightarrow> Overview" where
  "run_failed msg o1 = o1\<lparr>ov_error := Some msg, ov_sending := False\<rparr>"

definition decision_payload :: "ReviewState \<Rightarrow> Overview \<Rightarrow> SubmitReviewRequest" where
  "decision_payload st o1 =
     \<lparr>sr_state = st, sr_body = js_trim (ov_body o1), sr_comments = inlineComments o1\<rparr>"

definition submitDecision :: "string \<Rightarrow> string \<Rightarrow> string \<Rightarrow> ReviewState \<Rightarrow> Overview \<Rightarrow> ApiCall \<times> Overview" where
  "submitDecision org project i st o1 =
     (submitMergeRequestReview org project i (decision_payload st o1), run_start o1)"

definition decision_sent :: "Overview \<Rightarrow> Overview" where
  "decision_sent o1 = run_done (o1\<lparr>ov_body := [], ov_inlineDrafts := []\<rparr>)"

definition postComment :: "string \<Rightarrow> string \<Rightarrow> string \<Rightarrow> Overview \<Rightarrow> ApiCall \<times> Overview" where
  "postComment org project i o1 =
     (addMergeRequestComment org project i
        \<lparr>tc_file_path = [], tc_old_line = None, tc_new_line = None, tc_body = js_trim (ov_body o1)\<rparr>,
      run_start o1)"

definition comment_sent :: "Overview \<Rightarrow> Overview" where
  "comment_sent o1 = run_done (o1\<lparr>ov_body := []\<rparr>)"

text \<open>The buttons under the comment box: label, whether it is enabled, and the decision it sends.\<close>

type_synonym button = "string \<times> bool \<times> ReviewState option"

definition comment_buttons ::
  "bool \<Rightarrow> string option \<Rightarrow> MergeRequestResponse option \<Rightarrow> bool \<Rightarrow> Overview \<Rightarrow> button list" where
  "comment_buttons canWrite me request busy o1 =
     (let pending = busy \<or> ov_sending o1;
          empty = (js_trim (ov_body o1) = [] \<and> ov_inlineDrafts o1 = [])
      in if \<not> canWrite then []
         else if canDecide canWrite me request then
           [(''Comment'', \<not> (pending \<or> empty), Some RCommented),
            (''Approve'', \<not> (pending \<or> empty), Some RApproved),
            (''Request changes'', \<not> (pending \<or> empty), Some RChangesRequested)]
         else [(''Comment'', \<not> (pending \<or> js_trim (ov_body o1) = []), None)])"

text \<open>The buttons of a review of the conversation: withdraw one's own, dismiss another's.\<close>

datatype review_action = Withdraw | Dismiss

definition review_actions :: "bool \<Rightarrow> string option \<Rightarrow> ReviewResponse \<Rightarrow> review_action list" where
  "review_actions canWrite me r =
     (if canWrite \<and> \<not> truthy (rv_dismissed_at r)
      then (if me = Some (ra_user_id (rv_reviewer r)) then [Withdraw] else []) @
           (if me \<noteq> Some (ra_user_id (rv_reviewer r)) then [Dismiss] else [])
      else [])"

section \<open>The merge box\<close>

type_synonym box_text = "string \<times> string"

definition MERGE_BOX_TEXT :: "(string \<times> box_text) list" where
  "MERGE_BOX_TEXT = [
     (''mergeable'', (''This branch has no conflicts with the base branch.'', ''Merging can be performed automatically.'')),
     (''behind_target'', (''The source branch is behind the target branch.'', ''Update the source branch to include the target commits.'')),
     (''up_to_date'', (''The source branch is already up to date with the target branch.'', ''There is nothing left to merge.'')),
     (''invalid'', (''The source or target branch no longer exists.'', ''Recreate the missing branch or close this merge request.''))]"

definition BLOCKED_BOX_TEXT :: "(string \<times> box_text) list" where
  "BLOCKED_BOX_TEXT = [
     (''draft'', (''This merge request is a draft.'', ''Mark it ready for review before it can be merged.'')),
     (''changes_requested'', (''Changes were requested on this merge request.'', ''Address the review feedback; a new review clears the block.'')),
     (''insufficient_approvals'', (''This merge request does not have enough approvals yet.'', ''The target branch requires approvals before merging.'')),
     (''required_reviewers'', (''A required reviewer has not approved this merge request.'', ''Every required reviewer must approve before merging.'')),
     (''status_checks'', (''Required status checks have not passed.'', ''All required checks must succeed for the current source head.''))]"

datatype MergeBox =
    NoBox
  | MergedBox string string
  | ClosedBox "bool option"
  | OpenBox bool box_text "(bool \<times> bool) option"

text \<open>
  \<open>ClosedBox\<close> carries whether the reopen button is enabled, \<open>OpenBox\<close> whether the request is
  mergeable, the text, and whether the merge and the close button are enabled; the buttons are
  absent without write access.
\<close>

definition mergeability_status :: "MergeRequestResponse \<Rightarrow> string option" where
  "mergeability_status r = map_option mg_status (mr_mergeability r)"

definition blockedBy :: "MergeRequestResponse \<Rightarrow> string option" where
  "blockedBy r = (case mr_mergeability r of None \<Rightarrow> None | Some m \<Rightarrow> mg_blocked_by m)"

definition divergedMergeable :: "string \<Rightarrow> MergeRequestResponse \<Rightarrow> bool" where
  "divergedMergeable strategy r \<longleftrightarrow> strategy \<noteq> ''ff'' \<and> mergeability_status r = Some ''behind_target''"

definition mergeable :: "string \<Rightarrow> MergeRequestResponse \<Rightarrow> bool" where
  "mergeable strategy r \<longleftrightarrow>
     (mergeability_status r = Some ''mergeable'' \<or> divergedMergeable strategy r) \<and> \<not> truthy (blockedBy r)"

definition mergeBoxText :: "string \<Rightarrow> MergeRequestResponse \<Rightarrow> box_text" where
  "mergeBoxText strategy r =
     (if divergedMergeable strategy r
      then (''The source branch is behind the target branch.'', ''Merging will combine both sides.'')
      else case (if truthy (blockedBy r) then map_of BLOCKED_BOX_TEXT (the (blockedBy r)) else None) of
             Some t \<Rightarrow> t
           | None \<Rightarrow> coalesce (map_of MERGE_BOX_TEXT (coalesce (mergeability_status r) []))
               (''This merge request cannot be merged.'', ''Refresh the page for the current merge status.''))"

definition mergeBox :: "bool \<Rightarrow> bool \<Rightarrow> Overview \<Rightarrow> MergeRequestResponse option \<Rightarrow> MergeBox" where
  "mergeBox canWrite busy o1 request =
     (let pending = busy \<or> ov_sending o1 in
      case request of
        None \<Rightarrow> NoBox
      | Some r \<Rightarrow>
          if mr_status r = ''merged'' then
            MergedBox (js_slice (coalesce (mr_merge_commit_id r) []) 0 10) (mr_target_branch r)
          else if mr_status r = ''closed'' then ClosedBox (if canWrite then Some (\<not> pending) else None)
          else OpenBox (mergeable (ov_strategy o1) r) (mergeBoxText (ov_strategy o1) r)
            (if canWrite then Some (\<not> (\<not> mergeable (ov_strategy o1) r \<or> pending), \<not> pending) else None))"

section \<open>The desktop client\<close>

record Person =
  pe_id :: string
  pe_name :: string

record Comment =
  co_id :: string
  co_author :: Person
  co_body :: string
  co_createdAt :: string
  co_edited :: bool

record Thread =
  t_id :: string
  t_path :: string
  t_oldLine :: int
  t_newLine :: int
  t_outdated :: bool
  t_resolved :: bool
  t_resolvedBy :: string
  t_createdAt :: string
  t_comments :: "Comment list"

record TimelineEvent =
  e_id :: string
  e_kind :: string
  e_actor :: Person
  e_subject :: Person
  e_body :: string
  e_commitId :: string
  e_createdAt :: string

record Review =
  r_id :: string
  r_reviewer :: Person
  r_state :: string
  r_body :: string
  r_stale :: bool
  r_dismissed :: bool
  r_createdAt :: string

record Activity =
  a_reviews :: "Review list"
  a_threads :: "Thread list"
  a_timeline :: "TimelineEvent list"

datatype ConversationItem =
    EventItem string TimelineEvent
  | ReviewItem string Review
  | ThreadItem string Thread

definition item_at :: "ConversationItem \<Rightarrow> string" where
  "item_at c = (case c of EventItem t _ \<Rightarrow> t | ReviewItem t _ \<Rightarrow> t | ThreadItem t _ \<Rightarrow> t)"

definition conversation_items :: "Activity \<Rightarrow> ConversationItem list" where
  "conversation_items act =
     map (\<lambda>e. EventItem (e_createdAt e) e) (filter (\<lambda>e. e_kind e \<noteq> ''review_submitted'') (a_timeline act)) @
     map (\<lambda>r. ReviewItem (r_createdAt r) r) (a_reviews act) @
     map (\<lambda>t. ThreadItem (t_createdAt t) t) (filter (\<lambda>t. t_path t = []) (a_threads act))"

text \<open>
  \<open>a.at.localeCompare(b.at)\<close> depends on the locale; \<open>collates\<close> is the order \<open>compare(a, b) <= 0\<close>
  of the locale in use.
\<close>

definition conversation :: "(string \<Rightarrow> string \<Rightarrow> bool) \<Rightarrow> Activity \<Rightarrow> ConversationItem list" where
  "conversation collates act =
     js_sort (\<lambda>a b. collates (item_at a) (item_at b)) (conversation_items act)"

record LineAnchor =
  an_oldLine :: int
  an_newLine :: int

text \<open>Line numbers start at one; an absent line is 0.\<close>

definition threadAt :: "Thread \<Rightarrow> LineAnchor \<Rightarrow> bool" where
  "threadAt t a =
     (if an_newLine a \<noteq> 0 then t_newLine t = an_newLine a
      else t_newLine t = 0 \<and> t_oldLine t = an_oldLine a)"

definition fileThreads :: "Thread list \<Rightarrow> string \<Rightarrow> string \<Rightarrow> Thread list \<times> Thread list" where
  "fileThreads threads path oldPath =
     (let mine = filter (\<lambda>t. t_path t = path \<or> (oldPath \<noteq> [] \<and> t_path t = oldPath)) threads
      in (filter (\<lambda>t. \<not> t_outdated t) mine, filter t_outdated mine))"

definition blockers :: "(string \<times> string) list" where
  "blockers = [
     (''draft'', ''It is a draft. Mark it ready for review first.''),
     (''changes_requested'', ''A reviewer requested changes.''),
     (''insufficient_approvals'', ''It needs more approvals.''),
     (''required_reviewers'', ''A required reviewer has not approved yet.''),
     (''status_checks'', ''Required status checks have not passed.'')]"

definition blockedReason :: "string \<Rightarrow> string" where
  "blockedReason b = (case map_of blockers b of
     Some t \<Rightarrow> t
   | None \<Rightarrow> if b \<noteq> [] then ''Blocked: '' @ js_replace_char (CHR ''_'') '' '' b else [])"

definition statuses :: "(string \<times> string) list" where
  "statuses = [
     (''mergeable'', ''Ready to merge''),
     (''behind_target'', ''The target branch moved on. A fast-forward is not possible; pick another strategy.''),
     (''up_to_date'', ''Nothing to merge: the target already has these changes.''),
     (''invalid'', ''The source or target branch is gone.'')]"

definition mergeabilityText :: "string \<Rightarrow> string" where
  "mergeabilityText status = coalesce (map_of statuses status) status"

definition strategies :: "(string \<times> string \<times> string) list" where
  "strategies = [
     (''merge'', ''Merge commit'', ''Keeps every commit and adds a merge commit''),
     (''squash'', ''Squash'', ''One commit with the request'' @ [CHR 0x27] @ ''s title''),
     (''rebase'', ''Rebase'', ''Replays the commits on the target''),
     (''ff'', ''Fast-forward'', ''Only when the target has not moved'')]"

definition events :: "(string \<times> string) list" where
  "events = [
     (''opened'', ''opened this request''), (''pushed'', ''pushed new commits''),
     (''review_dismissed'', ''dismissed a review''), (''review_requested'', ''asked for a review from''),
     (''review_request_removed'', ''removed the review request for''), (''merged'', ''merged this request''),
     (''closed'', ''closed this request''), (''reopened'', ''reopened this request''),
     (''ready_for_review'', ''marked this request ready for review'')]"

definition eventText :: "string \<Rightarrow> string" where
  "eventText kind = coalesce (map_of events kind) (js_replace_char (CHR ''_'') '' '' kind)"

definition reviewText :: "(string \<times> string) list" where
  "reviewText = [(''approved'', ''approved these changes''), (''changes_requested'', ''requested changes''),
     (''commented'', ''reviewed'')]"

section \<open>The reviewers list\<close>

lemmas overview_defs [js_defs] =
  actor_of_def actor_of_member_def actorName_def review_status_def review_entry_def splice_entry_def
  add_review_def add_request_def reviewers_of_def entry_at_def entries_unsorted_def entries_def
  entry_visible_def visibleEntries_def threadActors_def assignees_of_def candidates_def
  assigneeCandidates_def unassign_ids_def assign_ids_def isAuthor_def request_open_def canDecide_def
  canAddInline_def addInlineDraft_def cancelInline_def removeInlineDraft_def inlineComments_def
  run_start_def run_done_def run_failed_def decision_payload_def submitDecision_def decision_sent_def
  comment_buttons_def mergeability_status_def blockedBy_def divergedMergeable_def mergeable_def
  mergeBoxText_def mergeBox_def

definition entry_uid :: "ReviewerEntry \<Rightarrow> string" where
  "entry_uid e = al_user_id (re_user e)"

definition review_uid :: "ReviewResponse \<Rightarrow> string" where
  "review_uid r = ra_user_id (rv_reviewer r)"

definition request_uid :: "ReviewRequestResponse \<Rightarrow> string" where
  "request_uid q = ra_user_id (rq_reviewer q)"

text \<open>The list and the index hold the same entries, in the same order, one per user.\<close>

definition rev_inv :: "reviewer_state \<Rightarrow> bool" where
  "rev_inv st = (case st of (rs, idx) \<Rightarrow>
     distinct (map entry_uid rs) \<and> idx = map (\<lambda>e. (entry_uid e, e)) rs)"

lemma entry_uid_review [simp]: "entry_uid (review_entry r) = review_uid r"
  by (simp add: entry_uid_def review_entry_def actor_of_def review_uid_def)

lemma index_get:
  "distinct (map entry_uid rs) \<Longrightarrow> js_map_get (map (\<lambda>e. (entry_uid e, e)) rs) u = Some e \<longleftrightarrow>
     e \<in> set rs \<and> entry_uid e = u"
  by (induction rs) (auto simp: js_map_get_def image_iff)

lemma index_get_None:
  "js_map_get (map (\<lambda>e. (entry_uid e, e)) rs) u = None \<longleftrightarrow> u \<notin> entry_uid ` set rs"
  by (simp add: js_map_get_def map_of_eq_None_iff image_image)

lemma index_set_new:
  "u \<notin> entry_uid ` set rs \<Longrightarrow>
     js_map_set (map (\<lambda>e. (entry_uid e, e)) rs) u x = map (\<lambda>e. (entry_uid e, e)) rs @ [(u, x)]"
  by (rule js_map_set_new) (auto simp: js_map_keys_def)

text \<open>Replacing the entry of a user is a map over the list.\<close>

lemma splice_entry_map:
  assumes "distinct (map entry_uid rs)" and "e \<in> set rs" and "entry_uid e = entry_uid e'"
  shows "splice_entry rs e e' = map (\<lambda>x. if entry_uid x = entry_uid e' then e' else x) rs"
proof -
  obtain i where i: "js_indexOf rs e 0 = Some i"
    using assms(2) by (cases "js_indexOf rs e 0") (auto simp: js_indexOf_def js_findIndex_None)
  then have *: "i < length rs" "rs ! i = e" by (auto simp: js_indexOf_Some)
  have "rs[i := e'] ! j = (if entry_uid (rs ! j) = entry_uid e' then e' else rs ! j)" if "j < length rs" for j
    using assms(1,3) * that
    by (auto simp: nth_list_update distinct_conv_nth) metis
  then show ?thesis
    using i by (auto simp: splice_entry_def intro!: nth_equalityI)
qed

lemma index_set_old:
  assumes "distinct (map entry_uid rs)" and "entry_uid e' \<in> entry_uid ` set rs"
  shows "js_map_set (map (\<lambda>e. (entry_uid e, e)) rs) (entry_uid e') e' =
    map (\<lambda>e. (entry_uid e, e)) (map (\<lambda>x. if entry_uid x = entry_uid e' then e' else x) rs)"
  using assms
proof (induction rs)
  case (Cons x rs)
  show ?case
  proof (cases "entry_uid x = entry_uid e'")
    case True
    then have "map (\<lambda>x. if entry_uid x = entry_uid e' then e' else x) rs = rs"
      using Cons.prems(1) by (intro map_idI) (auto simp: image_iff)
    with True show ?thesis by (simp add: js_map_set_def comp_def)
  next
    case False
    with Cons show ?thesis by (auto simp: js_map_set_def)
  qed
qed simp

text \<open>What one review does to the list.\<close>

definition newer_or_same :: "ReviewResponse \<Rightarrow> ReviewerEntry \<Rightarrow> bool" where
  "newer_or_same r e = (case re_review e of
     None \<Rightarrow> True | Some old \<Rightarrow> \<not> date_after (rv_created_at old) (rv_created_at r))"

definition put_review :: "ReviewResponse \<Rightarrow> ReviewerEntry list \<Rightarrow> ReviewerEntry list" where
  "put_review r rs =
     (if review_uid r \<in> entry_uid ` set rs
      then map (\<lambda>e. if entry_uid e = review_uid r \<and> newer_or_same r e then review_entry r else e) rs
      else rs @ [review_entry r])"

lemma map_uid_put: "map entry_uid (put_review r rs) =
    (if review_uid r \<in> entry_uid ` set rs then map entry_uid rs else map entry_uid rs @ [review_uid r])"
  by (auto simp: put_review_def)

lemma add_review_put:
  assumes "rev_inv (rs, idx)"
  shows "fst (add_review r (rs, idx)) = put_review r rs \<and> rev_inv (add_review r (rs, idx))"
proof -
  have d: "distinct (map entry_uid rs)" and idx: "idx = map (\<lambda>e. (entry_uid e, e)) rs"
    using assms by (auto simp: rev_inv_def)
  show ?thesis
  proof (cases "js_map_get idx (review_uid r)")
    case None
    then have u: "review_uid r \<notin> entry_uid ` set rs" by (simp add: idx index_get_None)
    with None d show ?thesis
      by (simp add: add_review_def put_review_def rev_inv_def idx index_set_new Let_def flip: review_uid_def)
  next
    case (Some e)
    then have e: "e \<in> set rs" "entry_uid e = review_uid r" using d by (auto simp: idx index_get)
    then have u: "review_uid r \<in> entry_uid ` set rs" by force
    have one: "x = e" if "x \<in> set rs" "entry_uid x = review_uid r" for x
      using that e d by (metis distinct_map inj_onD)
    show ?thesis
    proof (cases "newer_or_same r e")
      case True
      then have add: "add_review r (rs, idx) =
          (splice_entry rs e (review_entry r), js_map_set idx (review_uid r) (review_entry r))"
        using Some by (auto simp: add_review_def newer_or_same_def Let_def simp flip: review_uid_def split: option.splits)
      have sp: "splice_entry rs e (review_entry r) =
          map (\<lambda>x. if entry_uid x = review_uid r then review_entry r else x) rs"
        using splice_entry_map [OF d e(1), of "review_entry r"] e(2) by simp
      moreover have "map (\<lambda>x. if entry_uid x = review_uid r then review_entry r else x) rs = put_review r rs"
        using u one True by (auto simp: put_review_def)
      moreover have "js_map_set idx (review_uid r) (review_entry r) =
          map (\<lambda>e. (entry_uid e, e)) (put_review r rs)"
        using index_set_old [OF d, of "review_entry r"] u calculation(2) by (simp add: idx)
      ultimately show ?thesis
        using add d u by (simp add: rev_inv_def map_uid_put)
    next
      case False
      then have "add_review r (rs, idx) = (rs, idx)"
        using Some by (auto simp: add_review_def newer_or_same_def Let_def simp flip: review_uid_def split: option.splits)
      moreover have "put_review r rs = rs"
      proof -
        have "\<not> (entry_uid x = review_uid r \<and> newer_or_same r x)" if "x \<in> set rs" for x
          using one False that by blast
        with u show ?thesis by (auto simp: put_review_def intro!: map_idI)
      qed
      ultimately show ?thesis using assms by simp
    qed
  qed
qed

text \<open>The entries after some reviews: each user's latest one.\<close>

definition latest :: "ReviewResponse list \<Rightarrow> ReviewResponse \<Rightarrow> bool" where
  "latest reviews r \<longleftrightarrow> r \<in> set reviews \<and>
     (\<forall>r' \<in> set reviews. review_uid r' = review_uid r \<longrightarrow> \<not> date_after (rv_created_at r') (rv_created_at r))"

definition dated :: "ReviewResponse \<Rightarrow> bool" where
  "dated r \<longleftrightarrow> js_date (rv_created_at r) \<noteq> None"

definition latest_inv :: "ReviewResponse list \<Rightarrow> ReviewerEntry list \<Rightarrow> bool" where
  "latest_inv reviews rs \<longleftrightarrow>
     entry_uid ` set rs = review_uid ` set reviews \<and>
     (\<forall>e \<in> set rs. \<exists>r. latest reviews r \<and> e = review_entry r)"

lemma not_after_trans:
  "js_date b \<noteq> None \<Longrightarrow> \<not> date_after a b \<Longrightarrow> \<not> date_after b c \<Longrightarrow> \<not> date_after a c"
  by (auto simp: date_after_def split: option.splits)

lemma not_after_refl: "\<not> date_after a a"
  by (auto simp: date_after_def split: option.splits)

lemma latest_snoc_other: "latest reviews r \<Longrightarrow> review_uid q \<noteq> review_uid r \<Longrightarrow> latest (reviews @ [q]) r"
  by (auto simp: latest_def)

lemma latest_snoc_kept:
  "latest reviews r \<Longrightarrow> \<not> newer_or_same q (review_entry r) \<Longrightarrow> latest (reviews @ [q]) r"
  by (auto simp: latest_def newer_or_same_def review_entry_def date_after_def split: option.splits)

lemma latest_snoc_new:
  assumes "latest reviews r" and "review_uid q = review_uid r" and "newer_or_same q (review_entry r)"
    and "\<forall>x \<in> set reviews. dated x"
  shows "latest (reviews @ [q]) q"
proof -
  have "\<not> date_after (rv_created_at x) (rv_created_at q)" if "x \<in> set reviews" "review_uid x = review_uid q" for x
    using not_after_trans [of "rv_created_at r" "rv_created_at x" "rv_created_at q"] assms that
    by (auto simp: latest_def newer_or_same_def review_entry_def dated_def)
  then show ?thesis by (auto simp: latest_def not_after_refl)
qed

lemma latest_snoc_first: "review_uid q \<notin> review_uid ` set reviews \<Longrightarrow> latest (reviews @ [q]) q"
  by (auto simp: latest_def not_after_refl image_iff)

lemma latest_inv_put:
  assumes "latest_inv reviews rs" and "\<forall>x \<in> set reviews. dated x"
  shows "latest_inv (reviews @ [q]) (put_review q rs)"
proof (cases "review_uid q \<in> entry_uid ` set rs")
  case True
  have uids: "entry_uid ` set (put_review q rs) = review_uid ` set (reviews @ [q])"
    using assms(1) True arg_cong [OF map_uid_put [of q rs], of set]
    by (auto simp: latest_inv_def)
  have "\<exists>r. latest (reviews @ [q]) r \<and> e = review_entry r" if "e \<in> set (put_review q rs)" for e
  proof -
    from that True obtain e0 where e0: "e0 \<in> set rs"
      "e = (if entry_uid e0 = review_uid q \<and> newer_or_same q e0 then review_entry q else e0)"
      by (auto simp: put_review_def)
    then obtain r where r: "latest reviews r" "e0 = review_entry r"
      using assms(1) by (auto simp: latest_inv_def)
    show ?thesis
    proof (cases "review_uid r = review_uid q \<and> newer_or_same q e0")
      case True
      then show ?thesis using e0 r latest_snoc_new [OF r(1)] assms(2) by auto
    next
      case False
      then show ?thesis using e0 r latest_snoc_kept latest_snoc_other by (metis entry_uid_review)
    qed
  qed
  with uids show ?thesis by (auto simp: latest_inv_def)
next
  case False
  then have "review_uid q \<notin> review_uid ` set reviews"
    using assms(1) by (simp add: latest_inv_def)
  moreover have "latest (reviews @ [q]) r" if "latest reviews r" for r
    using that calculation by (intro latest_snoc_other) (auto simp: latest_def)
  ultimately show ?thesis
    using assms(1) False latest_snoc_first by (fastforce simp: latest_inv_def put_review_def)
qed

lemma reviews_folded:
  assumes "\<forall>r \<in> set reviews. dated r"
  shows "rev_inv (fold add_review reviews ([], [])) \<and> latest_inv reviews (fst (fold add_review reviews ([], [])))"
  using assms
proof (induction reviews rule: rev_induct)
  case Nil
  then show ?case by (simp add: rev_inv_def latest_inv_def)
next
  case (snoc q reviews)
  obtain rs idx where f: "fold add_review reviews ([], []) = (rs, idx)" by fastforce
  with snoc have "rev_inv (rs, idx)" "latest_inv reviews rs" by auto
  with add_review_put [of rs idx q] latest_inv_put [of reviews rs q] snoc.prems f show ?case by simp
qed

text \<open>Then the open requests, for the users who have not reviewed.\<close>

definition pending_entry :: "ReviewRequestResponse list \<Rightarrow> ReviewerEntry \<Rightarrow> bool" where
  "pending_entry requests e \<longleftrightarrow> re_status e = SPending \<and> re_review e = None \<and>
     (\<exists>q \<in> set requests. entry_uid e = request_uid q \<and> re_requestId e = Some (rq_id q))"

lemma add_request_spec:
  assumes "rev_inv (rs, idx)"
  shows "rev_inv (add_request q (rs, idx)) \<and>
    (\<exists>new. fst (add_request q (rs, idx)) = rs @ new \<and>
       entry_uid ` set (rs @ new) = insert (request_uid q) (entry_uid ` set rs) \<and>
       (\<forall>e \<in> set new. pending_entry [q] e \<and> entry_uid e \<notin> entry_uid ` set rs))"
proof (cases "request_uid q \<in> entry_uid ` set rs")
  case True
  then have "add_request q (rs, idx) = (rs, idx)"
    using assms by (auto simp: add_request_def rev_inv_def js_map_has_def request_uid_def image_image)
  with assms True show ?thesis by (auto intro!: exI [of _ "[]"])
next
  case False
  let ?e = "\<lparr>re_user = actor_of (rq_reviewer q), re_status = SPending, re_review = None, re_requestId = Some (rq_id q)\<rparr>"
  have u: "entry_uid ?e = request_uid q" by (simp add: entry_uid_def actor_of_def request_uid_def)
  have "add_request q (rs, idx) = (rs @ [?e], js_map_set idx (request_uid q) ?e)"
    using assms False by (auto simp: add_request_def rev_inv_def js_map_has_def request_uid_def Let_def image_image)
  moreover have "js_map_set idx (request_uid q) ?e = map (\<lambda>e. (entry_uid e, e)) (rs @ [?e])"
    using assms False u by (simp add: rev_inv_def index_set_new)
  ultimately show ?thesis
    using assms False u
    by (auto simp: rev_inv_def pending_entry_def intro!: exI [of _ "[?e]"])
qed

lemma requests_folded:
  assumes "rev_inv (rs, idx)"
  shows "\<exists>new idx'. fold add_request requests (rs, idx) = (rs @ new, idx') \<and> rev_inv (rs @ new, idx') \<and>
    entry_uid ` set (rs @ new) = entry_uid ` set rs \<union> request_uid ` set requests \<and>
    (\<forall>e \<in> set new. pending_entry requests e \<and> entry_uid e \<notin> entry_uid ` set rs)"
proof (induction requests rule: rev_induct)
  case Nil
  then show ?case using assms by auto
next
  case (snoc q requests)
  then obtain new idx' where IH: "fold add_request requests (rs, idx) = (rs @ new, idx')"
    "rev_inv (rs @ new, idx')" "entry_uid ` set (rs @ new) = entry_uid ` set rs \<union> request_uid ` set requests"
    "\<forall>e \<in> set new. pending_entry requests e \<and> entry_uid e \<notin> entry_uid ` set rs" by blast
  obtain new2 idx2 where q: "add_request q (rs @ new, idx') = ((rs @ new) @ new2, idx2)"
    "rev_inv ((rs @ new) @ new2, idx2)"
    "entry_uid ` set ((rs @ new) @ new2) = insert (request_uid q) (entry_uid ` set (rs @ new))"
    "\<forall>e \<in> set new2. pending_entry [q] e \<and> entry_uid e \<notin> entry_uid ` set (rs @ new)"
    using add_request_spec [OF IH(2), of q] by (metis eq_fst_iff)
  show ?case
    using IH q by (intro exI [of _ "new @ new2"] exI [of _ idx2]) (auto simp: pending_entry_def)
qed

text \<open>
  Property C10. The reviewers box lists every person who reviewed or was asked to, once: with the
  status of their latest review if they have reviewed, whatever the order the server sends the
  reviews in, and as pending with the open request otherwise.\<close>

theorem reviewers_show_latest_review:
  assumes "\<forall>r \<in> set reviews. dated r"
  shows "let rs = reviewers_of reviews requests in
    distinct (map entry_uid rs) \<and>
    entry_uid ` set rs = review_uid ` set reviews \<union> request_uid ` set requests \<and>
    (\<forall>e \<in> set rs. (\<exists>r. latest reviews r \<and> e = review_entry r) \<or>
       (entry_uid e \<notin> review_uid ` set reviews \<and> pending_entry requests e))"
proof -
  obtain rs idx where f: "fold add_review reviews ([], []) = (rs, idx)" by fastforce
  have r: "rev_inv (rs, idx)" "latest_inv reviews rs" using reviews_folded [OF assms] f by auto
  obtain new idx' where q: "fold add_request requests (rs, idx) = (rs @ new, idx')"
    "rev_inv (rs @ new, idx')" "entry_uid ` set (rs @ new) = entry_uid ` set rs \<union> request_uid ` set requests"
    "\<forall>e \<in> set new. pending_entry requests e \<and> entry_uid e \<notin> entry_uid ` set rs"
    using requests_folded [OF r(1), of requests] by blast
  have out: "reviewers_of reviews requests = rs @ new" by (simp add: reviewers_of_def f q)
  have "entry_uid ` set rs = review_uid ` set reviews"
    using r(2) by (simp add: latest_inv_def)
  moreover have "\<forall>e \<in> set rs. \<exists>r. latest reviews r \<and> e = review_entry r"
    using r(2) by (simp add: latest_inv_def)
  moreover have "distinct (map entry_uid (rs @ new))" using q(2) by (simp add: rev_inv_def)
  ultimately show ?thesis using out q(3,4) by auto
qed

definition demo_actor :: "string \<Rightarrow> ReviewActorResponse" where
  "demo_actor u = \<lparr>ra_user_id = u, ra_name = u, ra_photo_url = None\<rparr>"

definition demo_review :: "string \<Rightarrow> ReviewState \<Rightarrow> string \<Rightarrow> ReviewResponse" where
  "demo_review u st at1 =
     \<lparr>rv_id = u, rv_merge_request_id = 1, rv_reviewer = demo_actor u, rv_state = st, rv_body = [],
      rv_head_commit_id = [], rv_stale = False, rv_dismissed_at = None, rv_dismissed_by = None,
      rv_dismissed_reason = None, rv_created_at = at1, rv_updated_at = at1\<rparr>"

theorem reviewers_show_latest_review_witness:
  "distinct (map entry_uid (reviewers_of
     [demo_review ''ann'' RApproved ''2024-05-02T10:00:00Z'', demo_review ''ann'' RChangesRequested ''2024-05-01T10:00:00Z''] []))"
  using reviewers_show_latest_review [of
    "[demo_review ''ann'' RApproved ''2024-05-02T10:00:00Z'', demo_review ''ann'' RChangesRequested ''2024-05-01T10:00:00Z'']" "[]"]
  by (simp add: dated_def demo_review_def Let_def date_defs)

section \<open>The conversation\<close>

lemma entry_visible_iff:
  "entry_visible f e \<longleftrightarrow>
     (\<forall>s t. e = ThreadEntry s t \<longrightarrow> f = AllThreads \<or> (f = ResolvedThreads \<longleftrightarrow> th_resolved t))"
  by (cases e; cases f) (auto simp: entry_visible_def)

text \<open>What the filter asks of a thread, and the events that have an entry of their own.\<close>

fun thread_wanted :: "ThreadFilter \<Rightarrow> ThreadResponse \<Rightarrow> bool" where
  "thread_wanted AllThreads t = True"
| "thread_wanted UnresolvedThreads t = (\<not> th_resolved t)"
| "thread_wanted ResolvedThreads t = th_resolved t"

definition event_wanted :: "TimelineItemResponse \<Rightarrow> bool" where
  "event_wanted i \<longleftrightarrow> ti_kind i \<notin> {''review_submitted'', ''opened''}"

definition at_time :: "('a \<Rightarrow> string) \<Rightarrow> int \<Rightarrow> 'a list \<Rightarrow> 'a list" where
  "at_time f t xs = filter (\<lambda>x. js_date (f x) = Some t) xs"

lemma thread_visible: "entry_visible f (ThreadEntry s t) = thread_wanted f t"
  by (cases f) (simp_all add: entry_visible_def)

lemma visible_unsorted:
  "filter (entry_visible f) (entries_unsorted threads reviews timeline) =
     map (\<lambda>t. ThreadEntry (th_created_at t) t) (filter (thread_wanted f) threads) @
     map (\<lambda>r. ReviewEntry (rv_created_at r) r) reviews @
     map (\<lambda>i. EventEntry (ti_created_at i) i) (filter event_wanted timeline)"
proof -
  have "filter (entry_visible f) (map (\<lambda>t. ThreadEntry (th_created_at t) t) threads) =
      map (\<lambda>t. ThreadEntry (th_created_at t) t) (filter (thread_wanted f) threads)"
    by (simp add: filter_map comp_def thread_visible)
  moreover have "filter (entry_visible f) (map (\<lambda>r. ReviewEntry (rv_created_at r) r) reviews) = map (\<lambda>r. ReviewEntry (rv_created_at r) r) reviews"
    by (induction reviews) (auto simp: entry_visible_def)
  moreover have "filter (entry_visible f) (map (\<lambda>i. EventEntry (ti_created_at i) i) is) = map (\<lambda>i. EventEntry (ti_created_at i) i) is" for "is"
    by (induction "is") (auto simp: entry_visible_def)
  ultimately show ?thesis by (simp add: entries_unsorted_def event_wanted_def [abs_def])
qed

lemma filter_order: "filter P (filter Q xs) = filter Q (filter P xs)"
  by (simp add: conj_commute)

text \<open>
  Property C37. With every filter the conversation shows each thread the filter asks for, that is all of them,
  those that are not resolved, or those that are, each review, and each event but the opening and the
  submission of reviews, exactly once and nothing else. If all times are valid, they are in the order of
  time, and of one time, first the threads, then the reviews, then the events, each in the order of the
  server.\<close>

theorem conversation_complete_and_ordered:
  "mset (visibleEntries f (entries threads reviews timeline)) =
     mset (map (\<lambda>t. ThreadEntry (th_created_at t) t) (filter (thread_wanted f) threads)) +
     mset (map (\<lambda>r. ReviewEntry (rv_created_at r) r) reviews) +
     mset (map (\<lambda>i. EventEntry (ti_created_at i) i) (filter event_wanted timeline)) \<and>
   (list_all (\<lambda>x. js_date x \<noteq> None) (map th_created_at threads @ map rv_created_at reviews @ map ti_created_at timeline) \<longrightarrow>
     sorted (map (\<lambda>e. the (js_date (entry_at e))) (visibleEntries f (entries threads reviews timeline))) \<and>
     at_time entry_at t (visibleEntries f (entries threads reviews timeline)) =
       map (\<lambda>x. ThreadEntry (th_created_at x) x) (at_time th_created_at t (filter (thread_wanted f) threads)) @
       map (\<lambda>r. ReviewEntry (rv_created_at r) r) (at_time rv_created_at t reviews) @
       map (\<lambda>i. EventEntry (ti_created_at i) i) (at_time ti_created_at t (filter event_wanted timeline)))"
proof (intro conjI impI)
  let ?u = "entries_unsorted threads reviews timeline"
  have "mset (visibleEntries f (entries threads reviews timeline)) = mset (filter (entry_visible f) ?u)"
    by (simp add: visibleEntries_def entries_def mset_filter)
  then show "mset (visibleEntries f (entries threads reviews timeline)) =
     mset (map (\<lambda>t. ThreadEntry (th_created_at t) t) (filter (thread_wanted f) threads)) +
     mset (map (\<lambda>r. ReviewEntry (rv_created_at r) r) reviews) +
     mset (map (\<lambda>i. EventEntry (ti_created_at i) i) (filter event_wanted timeline))"
    by (simp add: visible_unsorted)
  assume dated: "list_all (\<lambda>x. js_date x \<noteq> None) (map th_created_at threads @ map rv_created_at reviews @ map ti_created_at timeline)"
  have valid: "js_date (entry_at e) \<noteq> None" if "e \<in> set (visibleEntries f (entries threads reviews timeline))" for e
  proof -
    have "e \<in> set (entries threads reviews timeline)" using that by (simp add: visibleEntries_def)
    then have "e \<in> set ?u" by (simp add: entries_def)
    then show ?thesis using dated by (auto simp: entries_unsorted_def entry_at_def list_all_iff)
  qed
  have "sorted_wrt (\<lambda>a b. date_le (entry_at a) (entry_at b)) (visibleEntries f (entries threads reviews timeline))"
    by (simp add: visibleEntries_def entries_def sorted_wrt_filter date_key.sorted_sort)
  moreover have "the (js_date (entry_at x)) \<le> the (js_date (entry_at y))"
    if "x \<in> set (visibleEntries f (entries threads reviews timeline))" and "y \<in> set (visibleEntries f (entries threads reviews timeline))"
      and "date_le (entry_at x) (entry_at y)" for x y
    using valid [OF that(1)] valid [OF that(2)] that(3) by (auto simp: date_le_def)
  ultimately show "sorted (map (\<lambda>e. the (js_date (entry_at e))) (visibleEntries f (entries threads reviews timeline)))"
    unfolding sorted_map by (rule sorted_wrt_mono_rel [rotated])
next
  let ?u = "entries_unsorted threads reviews timeline"
  have "at_time entry_at t (visibleEntries f (entries threads reviews timeline)) =
      filter (entry_visible f) (filter (\<lambda>e. js_date (entry_at e) = Some t) (entries threads reviews timeline))"
    by (simp add: at_time_def visibleEntries_def conj_commute)
  also have "filter (\<lambda>e. js_date (entry_at e) = Some t) (entries threads reviews timeline) = filter (\<lambda>e. js_date (entry_at e) = Some t) ?u"
    unfolding entries_def by (rule date_key.sort_stable) (auto simp: date_le_def)
  also have "filter (entry_visible f) (filter (\<lambda>e. js_date (entry_at e) = Some t) ?u) =
      filter (\<lambda>e. js_date (entry_at e) = Some t) (filter (entry_visible f) ?u)" by (rule filter_order)
  finally show "at_time entry_at t (visibleEntries f (entries threads reviews timeline)) =
     map (\<lambda>x. ThreadEntry (th_created_at x) x) (at_time th_created_at t (filter (thread_wanted f) threads)) @
     map (\<lambda>r. ReviewEntry (rv_created_at r) r) (at_time rv_created_at t reviews) @
     map (\<lambda>i. EventEntry (ti_created_at i) i) (at_time ti_created_at t (filter event_wanted timeline))"
    unfolding visible_unsorted by (simp add: at_time_def filter_map comp_def entry_at_def)
qed

definition demo_thread :: "string \<Rightarrow> bool \<Rightarrow> string \<Rightarrow> ThreadResponse" where
  "demo_thread i done1 at1 =
     \<lparr>th_id = i, th_merge_request_id = 1, th_review_id = None, th_file_path = None, th_old_line = None,
      th_new_line = None, th_side = [], th_outdated = False, th_resolved = done1, th_resolved_by = None,
      th_resolved_at = None, th_created_by = demo_actor ''ann'', th_created_at = at1, th_updated_at = at1,
      th_comments = []\<rparr>"

definition demo_event :: "string \<Rightarrow> string \<Rightarrow> TimelineItemResponse" where
  "demo_event kind at1 =
     \<lparr>ti_id = kind, ti_kind = kind, ti_actor = demo_actor ''ann'', ti_subject = None, ti_body = None,
      ti_commit_id = None, ti_commit_hash = None, ti_created_at = at1\<rparr>"

theorem conversation_complete_and_ordered_witness:
  "sorted (map (\<lambda>e. the (js_date (entry_at e)))
     (visibleEntries UnresolvedThreads (entries
       [demo_thread ''t1'' False ''2024-05-03T10:00:00Z'', demo_thread ''t2'' True ''2024-05-01T10:00:00Z'']
       [demo_review ''ann'' RApproved ''2024-05-02T10:00:00Z'']
       [demo_event ''opened'' ''2024-05-01T10:00:00Z'', demo_event ''pushed'' ''2024-05-01T11:00:00Z''])))"
  using conversation_complete_and_ordered [of UnresolvedThreads
    "[demo_thread ''t1'' False ''2024-05-03T10:00:00Z'', demo_thread ''t2'' True ''2024-05-01T10:00:00Z'']"
    "[demo_review ''ann'' RApproved ''2024-05-02T10:00:00Z'']"
    "[demo_event ''opened'' ''2024-05-01T10:00:00Z'', demo_event ''pushed'' ''2024-05-01T11:00:00Z'']"]
  by (simp add: demo_thread_def demo_review_def demo_event_def date_defs)

text \<open>
  The conversation of the desktop client, for any collation order: everything but the
  review events and the threads on files, once, in that order.\<close>

theorem desktop_conversation_ordered:
  assumes "sort_order collates"
  shows "mset (conversation collates act) = mset (conversation_items act) \<and>
    sorted_wrt (\<lambda>a b. collates (item_at a) (item_at b)) (conversation collates act)"
proof -
  have "sort_order (\<lambda>a b. collates (item_at a) (item_at b))"
    using assms by (auto simp: sort_order_def)
  then show ?thesis by (simp add: conversation_def sort_order.sorted_sort)
qed

theorem desktop_conversation_ordered_witness:
  "conversation (\<le>) \<lparr>a_reviews = [], a_threads = [], a_timeline = []\<rparr> = []"
proof -
  have "sort_order ((\<le>) :: string \<Rightarrow> string \<Rightarrow> bool)" by unfold_locales auto
  from desktop_conversation_ordered [OF this, of "\<lparr>a_reviews = [], a_threads = [], a_timeline = []\<rparr>"]
  show ?thesis by (simp add: conversation_items_def)
qed

section \<open>The review form\<close>

text \<open>A draft that the form accepts.\<close>

definition draft_ok :: "InlineDraft \<Rightarrow> bool" where
  "draft_ok d \<longleftrightarrow> dr_filePath d \<noteq> [] \<and> dr_line d > 0 \<and> dr_body d \<noteq> []"

definition form_ok :: "Overview \<Rightarrow> bool" where
  "form_ok o1 \<longleftrightarrow> (\<forall>d \<in> set (ov_inlineDrafts o1). draft_ok d)"

lemma form_ok_init: "form_ok overview_init"
  by (simp add: form_ok_def overview_init_def)

lemma form_ok_add: "form_ok o1 \<Longrightarrow> form_ok (addInlineDraft o1)"
  by (auto simp: form_ok_def addInlineDraft_def canAddInline_def draft_ok_def split: option.splits)

lemma form_ok_remove: "form_ok o1 \<Longrightarrow> form_ok (removeInlineDraft i o1)"
  by (auto simp: form_ok_def removeInlineDraft_def in_set_enumerate_eq)

lemma form_ok_others:
  "form_ok o1 \<Longrightarrow> form_ok (cancelInline o1)" "form_ok o1 \<Longrightarrow> form_ok (run_start o1)"
  "form_ok o1 \<Longrightarrow> form_ok (run_failed msg o1)" "form_ok (decision_sent o1)"
  "form_ok o1 \<Longrightarrow> form_ok (comment_sent o1)"
  by (simp_all add: form_ok_def cancelInline_def run_start_def run_failed_def decision_sent_def
      comment_sent_def run_done_def)

text \<open>The operations of the form, in any order and with any input.\<close>

inductive form_reachable :: "Overview \<Rightarrow> bool" where
  fr_init: "form_reachable overview_init"
| fr_type: "form_reachable o1 \<Longrightarrow> form_reachable (o1\<lparr>ov_body := b\<rparr>)"
| fr_fields: "form_reachable o1 \<Longrightarrow>
    form_reachable (o1\<lparr>ov_inlineOpen := op, ov_inlineFile := f, ov_inlineSide := sd, ov_inlineLine := l, ov_inlineBody := b\<rparr>)"
| fr_add: "form_reachable o1 \<Longrightarrow> form_reachable (addInlineDraft o1)"
| fr_cancel: "form_reachable o1 \<Longrightarrow> form_reachable (cancelInline o1)"
| fr_remove: "form_reachable o1 \<Longrightarrow> form_reachable (removeInlineDraft i o1)"
| fr_start: "form_reachable o1 \<Longrightarrow> form_reachable (run_start o1)"
| fr_failed: "form_reachable o1 \<Longrightarrow> form_reachable (run_failed msg o1)"
| fr_sent: "form_reachable o1 \<Longrightarrow> form_reachable (decision_sent o1)"
| fr_comment: "form_reachable o1 \<Longrightarrow> form_reachable (comment_sent o1)"

lemma form_reachable_ok: "form_reachable o1 \<Longrightarrow> form_ok o1"
proof (induction rule: form_reachable.induct)
  case (fr_type o1 b)
  then show ?case by (simp add: form_ok_def)
next
  case (fr_fields o1 op f sd l b)
  then show ?case by (simp add: form_ok_def)
qed (auto intro: form_ok_init form_ok_add form_ok_remove form_ok_others)

text \<open>
  However the form was filled, the review it sends carries one comment per draft, in
  the order of the drafts, each on a named file, with a non-empty body and exactly one line number,
  positive and on the side the draft was made for; a failure keeps the text and the drafts, a
  success empties both.\<close>

theorem submitted_comments_are_anchored:
  assumes "form_reachable o1"
  shows "list_all2 (\<lambda>c d. tc_file_path c = dr_filePath d \<and> tc_file_path c \<noteq> [] \<and> tc_body c = dr_body d \<and>
      tc_body c \<noteq> [] \<and> dr_line d > 0 \<and>
      (if dr_side d = OldSide then tc_old_line c = Some (dr_line d) \<and> tc_new_line c = None
       else tc_old_line c = None \<and> tc_new_line c = Some (dr_line d)))
    (sr_comments (decision_payload st o1)) (ov_inlineDrafts o1) \<and>
    (let o2 = run_failed msg (snd (submitDecision org project i st o1))
     in ov_body o2 = ov_body o1 \<and> ov_inlineDrafts o2 = ov_inlineDrafts o1 \<and> \<not> ov_sending o2) \<and>
    (let o2 = decision_sent (snd (submitDecision org project i st o1))
     in ov_body o2 = [] \<and> ov_inlineDrafts o2 = [] \<and> \<not> ov_sending o2)"
proof -
  have "draft_ok d" if "d \<in> set (ov_inlineDrafts o1)" for d
    using form_reachable_ok [OF assms] that by (simp add: form_ok_def)
  then show ?thesis
    by (auto simp: decision_payload_def inlineComments_def list_all2_map1 list.rel_refl_strong draft_ok_def
        run_failed_def submitDecision_def run_start_def decision_sent_def run_done_def Let_def
        intro!: list.rel_refl_strong)
qed

definition demo_form :: Overview where
  "demo_form = addInlineDraft (overview_init
     \<lparr>ov_inlineOpen := True, ov_inlineFile := ''a.c'', ov_inlineSide := OldSide, ov_inlineLine := ''12'',
      ov_inlineBody := ''why''\<rparr>)"

theorem submitted_comments_are_anchored_witness:
  "ov_inlineDrafts demo_form = [\<lparr>dr_filePath = ''a.c'', dr_side = OldSide, dr_line = 12, dr_body = ''why''\<rparr>] \<and>
   length (sr_comments (decision_payload RApproved demo_form)) = 1"
proof -
  have r: "form_reachable demo_form" unfolding demo_form_def by (intro fr_add fr_fields fr_init)
  have d: "ov_inlineDrafts demo_form = [\<lparr>dr_filePath = ''a.c'', dr_side = OldSide, dr_line = 12, dr_body = ''why''\<rparr>]"
    by (simp add: demo_form_def addInlineDraft_def canAddInline_def overview_init_def js_defs Let_def)
  have "length (sr_comments (decision_payload RApproved demo_form)) = length (ov_inlineDrafts demo_form)"
    using submitted_comments_are_anchored [OF r, of RApproved "[]" "[]" "[]" "[]"]
    by (blast dest: list_all2_lengthD)
  with d show ?thesis by simp
qed

text \<open>
  Who may decide: the buttons that send a decision are offered only to someone with
  write access who is not the author of an open request, and they are disabled while a request is
  pending and when there is nothing to send.\<close>

theorem decision_buttons_guarded:
  assumes "(label, enabled, Some st) \<in> set (comment_buttons canWrite me request busy o1)"
  shows "canWrite \<and> request_open request \<and> \<not> isAuthor me request \<and>
    (enabled \<longleftrightarrow> \<not> busy \<and> \<not> ov_sending o1 \<and> (js_trim (ov_body o1) \<noteq> [] \<or> inlineComments o1 \<noteq> []))"
  using assms
  by (auto simp: comment_buttons_def canDecide_def inlineComments_def Let_def split: if_splits)

definition demo_request :: "string \<Rightarrow> string option \<Rightarrow> MergeRequestResponse" where
  "demo_request status blocked =
     \<lparr>mr_id = ''1'', mr_number = 1, mr_project_id = ''p'', mr_source_branch = ''topic'', mr_target_branch = ''main'',
      mr_title = [], mr_description = [], mr_status = ''open'', mr_draft = False, mr_merge_commit_id = None,
      mr_merge_base_commit_id = None, mr_created_by = ''bob'', mr_created_at = [], mr_updated_at = [],
      mr_assignees = Some [demo_actor ''ann''],
      mr_mergeability = Some \<lparr>mg_status = status, mg_source_commit_id = None, mg_target_commit_id = None,
        mg_merge_base_commit_id = None, mg_blocked_by = blocked\<rparr>,
      mr_review = None\<rparr>"

theorem decision_buttons_guarded_witness:
  "(''Approve'', True, Some RApproved) \<in>
     set (comment_buttons True (Some ''ann'') (Some (demo_request ''mergeable'' None)) False (overview_init\<lparr>ov_body := ''ok''\<rparr>)) \<and>
   request_open (Some (demo_request ''mergeable'' None))"
proof -
  have b: "(''Approve'', True, Some RApproved) \<in>
     set (comment_buttons True (Some ''ann'') (Some (demo_request ''mergeable'' None)) False (overview_init\<lparr>ov_body := ''ok''\<rparr>))"
    by (simp add: comment_buttons_def canDecide_def request_open_def isAuthor_def demo_request_def
        overview_init_def js_defs Let_def)
  from decision_buttons_guarded [OF b] b show ?thesis by blast
qed

section \<open>Assignees\<close>

text \<open>
  Assigning a member that the list offers never sends a user twice, and unassigning
  sends everyone but that user.\<close>

theorem assignment_keeps_users_distinct:
  assumes "distinct (map ra_user_id (assignees_of request))" and "m \<in> set (assigneeCandidates members request)"
  shows "distinct (assign_ids request (om_user_id m)) \<and>
    set (assign_ids request (om_user_id m)) = insert (om_user_id m) (ra_user_id ` set (assignees_of request)) \<and>
    distinct (unassign_ids request a) \<and>
    set (unassign_ids request a) = ra_user_id ` set (assignees_of request) - {ra_user_id a}"
proof -
  have "om_user_id m \<notin> ra_user_id ` set (assignees_of request)"
    using assms(2) by (auto simp: assigneeCandidates_def list_ex_iff)
  with assms(1) show ?thesis
    by (auto simp: assign_ids_def unassign_ids_def distinct_map_filter)
qed

definition demo_member :: OrgMemberResponse where
  "demo_member = \<lparr>om_user_id = ''eve'', om_name = ''Eve'', om_email = [], om_photo_url = [], om_is_admin = False,
     om_is_super_admin = False, om_role = [], om_joined_at = None\<rparr>"

theorem assignment_keeps_users_distinct_witness:
  "distinct (assign_ids (Some (demo_request ''mergeable'' None)) ''eve'')"
proof -
  have "distinct (map ra_user_id (assignees_of (Some (demo_request ''mergeable'' None))))"
    "demo_member \<in> set (assigneeCandidates [demo_member] (Some (demo_request ''mergeable'' None)))"
    by (simp_all add: assignees_of_def assigneeCandidates_def demo_request_def demo_member_def demo_actor_def)
  from assignment_keeps_users_distinct [OF this] show ?thesis by (simp add: demo_member_def)
qed

section \<open>The merge box\<close>

text \<open>
  The merge button of an open request is enabled exactly when nothing blocks the
  request, no other operation is running and the branches can be merged with the chosen strategy:
  a source that is behind its target needs a strategy other than fast-forward.\<close>

theorem merge_button_enabled:
  assumes "mr_status r \<noteq> ''merged''" and "mr_status r \<noteq> ''closed''"
  shows "\<exists>ok text1. mergeBox True busy o1 (Some r) =
      OpenBox ok text1 (Some (ok \<and> \<not> busy \<and> \<not> ov_sending o1, \<not> (busy \<or> ov_sending o1))) \<and>
    (ok \<longleftrightarrow> \<not> truthy (blockedBy r) \<and>
       (mergeability_status r = Some ''mergeable'' \<or>
        mergeability_status r = Some ''behind_target'' \<and> ov_strategy o1 \<noteq> ''ff''))"
  using assms by (auto simp: mergeBox_def mergeable_def divergedMergeable_def Let_def)

theorem merge_button_enabled_witness:
  "\<exists>text1. mergeBox True False overview_init (Some (demo_request ''mergeable'' None)) = OpenBox True text1 (Some (True, True))"
proof -
  have "mr_status (demo_request ''mergeable'' None) \<noteq> ''merged''" "mr_status (demo_request ''mergeable'' None) \<noteq> ''closed''"
    by (simp_all add: demo_request_def)
  from merge_button_enabled [OF this, of False overview_init] show ?thesis
    by (auto simp: demo_request_def mergeability_status_def blockedBy_def overview_init_def)
qed

text \<open>
  With another strategy than fast-forward, a request that is behind its target and
  blocked (a draft, missing approvals, failed checks) cannot be merged, but the box announces that
  merging will combine both sides and does not name the block, although the table has a text for it.\<close>

theorem merge_box_hides_the_block:
  assumes "ov_strategy o1 \<noteq> ''ff''" and "mergeability_status r = Some ''behind_target''"
    and "blockedBy r = Some b" and "b \<in> fst ` set BLOCKED_BOX_TEXT"
    and "mr_status r \<noteq> ''merged''" and "mr_status r \<noteq> ''closed''"
  shows "mergeBox canWrite busy o1 (Some r) =
      OpenBox False (''The source branch is behind the target branch.'', ''Merging will combine both sides.'')
        (if canWrite then Some (False, \<not> (busy \<or> ov_sending o1)) else None) \<and>
    mergeBoxText ''ff'' r = the (map_of BLOCKED_BOX_TEXT b)"
proof -
  have b: "b \<noteq> []" "map_of BLOCKED_BOX_TEXT b \<noteq> None"
    using assms(4) by (auto simp: BLOCKED_BOX_TEXT_def)
  then show ?thesis
    using assms by (auto simp: mergeBox_def mergeable_def divergedMergeable_def mergeBoxText_def Let_def)
qed

theorem merge_box_hides_the_block_witness:
  "mergeBoxText ''ff'' (demo_request ''behind_target'' (Some ''draft'')) =
     (''This merge request is a draft.'', ''Mark it ready for review before it can be merged.'')"
  using merge_box_hides_the_block [of "overview_init\<lparr>ov_strategy := ''merge''\<rparr>"
      "demo_request ''behind_target'' (Some ''draft'')" "''draft''" True False]
  by (simp add: demo_request_def mergeability_status_def blockedBy_def BLOCKED_BOX_TEXT_def)

text \<open>
  On the desktop the threads of a file split into those on its lines and the outdated
  ones, none lost and none twice, and a file without an old path takes no other file's threads.\<close>

theorem file_threads_partition:
  "(let (inline1, outdated1) = fileThreads threads path oldPath in
     mset inline1 + mset outdated1 =
       mset (filter (\<lambda>t. t_path t = path \<or> (oldPath \<noteq> [] \<and> t_path t = oldPath)) threads) \<and>
     list_all (\<lambda>t. \<not> t_outdated t) inline1 \<and> list_all t_outdated outdated1) \<and>
   (\<forall>t. t \<in> set (fst (fileThreads threads path [])) \<union> set (snd (fileThreads threads path [])) \<longleftrightarrow>
      t \<in> set threads \<and> t_path t = path)"
proof -
  have "mset (filter (\<lambda>t. \<not> t_outdated t) ts) + mset (filter t_outdated ts) = mset ts" for ts
    by (induction ts) auto
  then show ?thesis
    by (auto simp: fileThreads_def Let_def list_all_iff simp del: mset_filter filter_filter)
qed

end
