(* ===== verification/Sparse.thy ===== *)
theory Sparse
  imports Js_Prelude
begin

text \<open>
  Sparse checkouts of the desktop client, \<open>lib/sparse.ts\<close>: a selection is a list of folder
  prefixes, and a folder is part of the checkout when it or one of its ancestors is selected. Also
  the clone address and the local path of the same file.
\<close>

section \<open>Operations\<close>

definition trimSlashes :: "string \<Rightarrow> string" where
  "trimSlashes p =
     rev (dropWhile (\<lambda>c. c = CHR ''/'') (rev (dropWhile (\<lambda>c. c = CHR ''/'') p)))"

definition within_folder :: "string \<Rightarrow> string \<Rightarrow> bool" where
  "within_folder path pre \<longleftrightarrow> path = pre \<or> js_startsWith path (pre @ ''/'')"

text \<open>The elements of \<open>new Set(xs)\<close> in the order in which they are first added.\<close>

definition js_set :: "'a list \<Rightarrow> 'a list" where
  "js_set xs = fold (\<lambda>x s. if x \<in> set s then s else s @ [x]) xs []"

definition clean_selection :: "string list \<Rightarrow> string list" where
  "clean_selection paths = js_sort (\<le>) (js_set (filter (\<lambda>p. p \<noteq> []) (map trimSlashes paths)))"

definition normalizeSelection :: "string list \<Rightarrow> string list" where
  "normalizeSelection paths =
     (let clean = clean_selection paths
      in filter (\<lambda>p. \<not> list_ex (\<lambda>q. q \<noteq> p \<and> within_folder p q) clean) clean)"

definition isCovered :: "string \<Rightarrow> string list \<Rightarrow> bool" where
  "isCovered path selection \<longleftrightarrow> list_ex (\<lambda>p. within_folder path p) selection"

definition coveredByAncestor :: "string \<Rightarrow> string list \<Rightarrow> bool" where
  "coveredByAncestor path selection \<longleftrightarrow> list_ex (\<lambda>p. p \<noteq> path \<and> within_folder path p) selection"

definition hasSelectedDescendant :: "string \<Rightarrow> string list \<Rightarrow> bool" where
  "hasSelectedDescendant path selection \<longleftrightarrow> list_ex (\<lambda>p. p \<noteq> path \<and> within_folder p path) selection"

definition toggleFolder :: "string list \<Rightarrow> string \<Rightarrow> string list" where
  "toggleFolder selection path =
     (if coveredByAncestor path selection then selection
      else if path \<in> set selection then filter (\<lambda>p. p \<noteq> path) selection
      else normalizeSelection (filter (\<lambda>p. \<not> within_folder p path) selection @ [path]))"

record RepoAddress =
  ad_server :: string
  ad_org :: string
  ad_project :: string

text \<open>\<open>/^(https?:\/\/[^/]+)\/([^/]+)\/([^/]+)/.exec(url.trim())\<close>.\<close>

definition parseRepoUrl :: "string \<Rightarrow> RepoAddress option" where
  "parseRepoUrl url =
     (case js_split (CHR ''/'') (js_trim url) of
        scheme # e # host # org # project # rest \<Rightarrow>
          if (scheme = ''http:'' \<or> scheme = ''https:'') \<and> e = [] \<and> host \<noteq> [] \<and> org \<noteq> [] \<and> project \<noteq> []
          then Some \<lparr>ad_server = scheme @ ''//'' @ host, ad_org = org, ad_project = project\<rparr>
          else None
      | _ \<Rightarrow> None)"

definition joinPath :: "string \<Rightarrow> string \<Rightarrow> string" where
  "joinPath parent name =
     (let sep = (if CHR 0x5C \<in> set parent \<and> CHR ''/'' \<notin> set parent then [CHR 0x5C] else ''/'')
      in rev (dropWhile (\<lambda>c. c = CHR ''/'' \<or> c = CHR 0x5C) (rev parent)) @ sep @ name)"

lemmas sparse_defs [js_defs] =
  trimSlashes_def within_folder_def js_set_def clean_selection_def normalizeSelection_def isCovered_def
  coveredByAncestor_def hasSelectedDescendant_def toggleFolder_def parseRepoUrl_def joinPath_def

section \<open>Folders\<close>

lemma within_refl [simp]: "within_folder p p"
  by (simp add: within_folder_def)

lemma within_prefix: "within_folder p q \<longleftrightarrow> p = q \<or> prefix (q @ ''/'') p"
  by (simp add: within_folder_def js_startsWith_prefix)

lemma within_trans: "within_folder p q \<Longrightarrow> within_folder q r \<Longrightarrow> within_folder p r"
  by (auto simp: within_prefix) (metis append_assoc prefix_order.trans prefixI)

lemma within_length: "within_folder p q \<Longrightarrow> p = q \<or> length q < length p"
  by (auto simp: within_prefix dest: prefix_length_le)

lemma within_antisym: "within_folder p q \<Longrightarrow> within_folder q p \<Longrightarrow> p = q"
  using within_length [of p q] within_length [of q p] by auto

text \<open>Two folders that contain the same path contain one another.\<close>

lemma within_linear: "within_folder p q \<Longrightarrow> within_folder p r \<Longrightarrow> within_folder q r \<or> within_folder r q"
proof -
  assume "within_folder p q" "within_folder p r"
  then have "prefix (q @ ''/'') (p @ ''/'')" "prefix (r @ ''/'') (p @ ''/'')"
    by (auto simp: within_prefix intro: prefix_prefix)
  then have "prefix (q @ ''/'') (r @ ''/'') \<or> prefix (r @ ''/'') (q @ ''/'')"
    using prefix_same_cases by blast
  then show ?thesis
    by (auto simp: within_prefix prefix_snoc)
qed

lemma within_slash: "within_folder p q \<longleftrightarrow> prefix (q @ ''/'') (p @ ''/'')"
  by (auto simp: within_prefix prefix_snoc)

section \<open>Sets in insertion order\<close>

lemma js_set_snoc:
  "js_set (xs @ [x]) = (if x \<in> set (js_set xs) then js_set xs else js_set xs @ [x])"
  by (simp add: js_set_def)

lemma set_js_set [simp]: "set (js_set xs) = set xs"
  by (induction xs rule: rev_induct) (auto simp: js_set_snoc, simp add: js_set_def)

lemma distinct_js_set [simp]: "distinct (js_set xs)"
  by (induction xs rule: rev_induct) (auto simp: js_set_snoc, simp add: js_set_def)

section \<open>Normalizing\<close>

lemma set_clean: "set (clean_selection paths) = trimSlashes ` set paths - {[]}"
  by (auto simp: clean_selection_def)

lemma sorted_clean: "sorted (clean_selection paths)"
  using string_key.sorted_sort [of "\<lambda>x. x"] by (simp add: clean_selection_def)

lemma distinct_clean: "distinct (clean_selection paths)"
  by (simp add: clean_selection_def)

lemma set_normalize:
  "p \<in> set (normalizeSelection paths) \<longleftrightarrow>
     p \<in> set (clean_selection paths) \<and> (\<forall>q \<in> set (clean_selection paths). within_folder p q \<longrightarrow> q = p)"
  by (auto simp: normalizeSelection_def Let_def list_ex_iff)

text \<open>Every folder of the selection lies in one that is kept.\<close>

lemma kept_ancestor:
  assumes "p \<in> set (clean_selection paths)"
  shows "\<exists>q \<in> set (normalizeSelection paths). within_folder p q"
proof -
  let ?A = "{q \<in> set (clean_selection paths). within_folder p q}"
  have "finite ?A" "?A \<noteq> {}" using assms by auto
  then obtain q where q: "q \<in> ?A" "\<forall>r \<in> ?A. length q \<le> length r"
    using ex_min_if_finite [of "length ` ?A"] by (metis (no_types, lifting) arg_min_if_finite(1) arg_min_least)
  have "r = q" if "r \<in> set (clean_selection paths)" "within_folder q r" for r
    using q that within_trans [of p q r] within_length [of q r] by force
  then show ?thesis using q(1) by (auto simp: set_normalize)
qed

lemma covered_normalize:
  "isCovered path (normalizeSelection paths) \<longleftrightarrow> (\<exists>p \<in> set paths. trimSlashes p \<noteq> [] \<and> within_folder path (trimSlashes p))"
proof
  assume "isCovered path (normalizeSelection paths)"
  then show "\<exists>p \<in> set paths. trimSlashes p \<noteq> [] \<and> within_folder path (trimSlashes p)"
    by (auto simp: isCovered_def list_ex_iff set_normalize set_clean)
next
  assume "\<exists>p \<in> set paths. trimSlashes p \<noteq> [] \<and> within_folder path (trimSlashes p)"
  then obtain p where "trimSlashes p \<in> set (clean_selection paths)" "within_folder path (trimSlashes p)"
    by (auto simp: set_clean)
  with kept_ancestor [of "trimSlashes p" paths] show "isCovered path (normalizeSelection paths)"
    by (auto simp: isCovered_def list_ex_iff intro: within_trans)
qed

text \<open>A selection as \<open>normalizeSelection\<close> leaves it.\<close>

definition trimmed :: "string \<Rightarrow> bool" where
  "trimmed p \<longleftrightarrow> p \<noteq> [] \<and> trimSlashes p = p"

definition normal_selection :: "string list \<Rightarrow> bool" where
  "normal_selection sel \<longleftrightarrow>
     sorted sel \<and> distinct sel \<and> (\<forall>p \<in> set sel. trimmed p) \<and>
     (\<forall>p \<in> set sel. \<forall>q \<in> set sel. within_folder p q \<longrightarrow> q = p)"

lemma trimSlashes_idem [simp]: "trimSlashes (trimSlashes p) = trimSlashes p"
proof -
  let ?P = "\<lambda>c. c = CHR ''/''"
  let ?a = "dropWhile ?P p"
  have front: "dropWhile ?P (trimSlashes p) = trimSlashes p"
  proof (cases "trimSlashes p")
    case (Cons c cs)
    obtain zs where z: "?a = trimSlashes p @ zs"
      unfolding trimSlashes_def by (metis append.right_neutral rev_append rev_rev_ident takeWhile_dropWhile_id)
    with Cons have "hd ?a = c" "?a \<noteq> []" by auto
    then have "c \<noteq> CHR ''/''" using hd_dropWhile [of ?P p] by auto
    with Cons show ?thesis by simp
  qed simp
  have "trimSlashes (trimSlashes p) = rev (dropWhile ?P (rev (trimSlashes p)))"
    by (simp only: trimSlashes_def [of "trimSlashes p"] front)
  also have "\<dots> = trimSlashes p"
    by (simp add: trimSlashes_def dropWhile_idem)
  finally show ?thesis .
qed

lemma normalize_normal: "normal_selection (normalizeSelection paths)"
proof -
  have "sorted (normalizeSelection paths)" "distinct (normalizeSelection paths)"
    using sorted_clean distinct_clean by (auto simp: normalizeSelection_def Let_def sorted_wrt_filter)
  moreover have "\<forall>p \<in> set (normalizeSelection paths). trimmed p"
    by (auto simp: set_normalize set_clean trimmed_def)
  ultimately show ?thesis
    by (auto simp: normal_selection_def set_normalize)
qed

text \<open>
  Property C13. Normalizing a selection sorts it, removes duplicates, empty entries and every folder
  that lies in another selected one, and changes nothing about the checkout: a path is covered
  exactly when one of the given folders, without its outer slashes, contains it.\<close>

theorem normalizeSelection_same_checkout:
  "normal_selection (normalizeSelection paths) \<and>
   (isCovered path (normalizeSelection paths) \<longleftrightarrow>
      (\<exists>p \<in> set paths. trimSlashes p \<noteq> [] \<and> within_folder path (trimSlashes p)))"
  using normalize_normal covered_normalize by blast

lemma normal_covered: "normal_selection sel \<Longrightarrow> p \<in> set sel \<Longrightarrow> trimSlashes p = p \<and> p \<noteq> []"
  by (auto simp: normal_selection_def trimmed_def)

text \<open>
  Toggling a folder of a normal selection that no selected ancestor covers switches
  exactly that folder: it and everything in it become covered if it was not selected, and stop being
  covered if it was; what lies outside of it keeps its state, and the selection stays normal. A
  folder inside a selected one cannot be toggled.\<close>

theorem toggleFolder_switches_one_folder:
  assumes "normal_selection sel" and "trimmed path"
  shows "normal_selection (toggleFolder sel path) \<and>
    (\<not> coveredByAncestor path sel \<longrightarrow> within_folder p path \<longrightarrow>
       (isCovered p (toggleFolder sel path) \<longleftrightarrow> path \<notin> set sel)) \<and>
    (\<not> within_folder p path \<longrightarrow> (isCovered p (toggleFolder sel path) \<longleftrightarrow> isCovered p sel)) \<and>
    (coveredByAncestor path sel \<longrightarrow> toggleFolder sel path = sel)"
proof (cases "coveredByAncestor path sel")
  case True
  then show ?thesis using assms by (simp add: toggleFolder_def)
next
  case False
  then have anc: "\<forall>q \<in> set sel. within_folder path q \<longrightarrow> q = path"
    by (auto simp: coveredByAncestor_def list_ex_iff)
  show ?thesis
  proof (cases "path \<in> set sel")
    case True
    let ?t = "filter (\<lambda>p. p \<noteq> path) sel"
    have t: "toggleFolder sel path = ?t" using False True by (simp add: toggleFolder_def)
    have n: "normal_selection ?t"
      using assms(1) by (auto simp: normal_selection_def sorted_wrt_filter)
    have off: "\<not> isCovered p ?t" if "within_folder p path"
    proof -
      have "q = path" if "q \<in> set sel" "within_folder p q" for q
        using within_linear [OF \<open>within_folder p path\<close> that(2)] anc that(1) assms(1) True
        by (auto simp: normal_selection_def)
      then show ?thesis by (auto simp: isCovered_def list_ex_iff)
    qed
    have out: "isCovered p ?t \<longleftrightarrow> isCovered p sel" if "\<not> within_folder p path"
      using that by (auto simp: isCovered_def list_ex_iff)
    from t n off out True False show ?thesis by auto
  next
    case notin: False
    let ?ps = "filter (\<lambda>p. \<not> within_folder p path) sel @ [path]"
    have t: "toggleFolder sel path = normalizeSelection ?ps" using False notin by (simp add: toggleFolder_def)
    have trim: "\<forall>q \<in> set ?ps. trimSlashes q = q \<and> q \<noteq> []"
      using normal_covered [OF assms(1)] assms(2) by (auto simp: trimmed_def)
    have cov: "isCovered p (normalizeSelection ?ps) \<longleftrightarrow> (\<exists>q \<in> set ?ps. within_folder p q)"
      using trim by (auto simp: covered_normalize)
    have "isCovered p (normalizeSelection ?ps) \<longleftrightarrow> isCovered p sel" if "\<not> within_folder p path"
      unfolding cov using that by (auto simp: isCovered_def list_ex_iff dest: within_trans)
    moreover have "isCovered p (normalizeSelection ?ps)" if "within_folder p path"
      using that by (auto simp: cov)
    moreover have "normal_selection (normalizeSelection ?ps)"
      by (rule normalize_normal)
    ultimately show ?thesis using t notin False by auto
  qed
qed

theorem toggleFolder_switches_one_folder_witness:
  "isCovered ''art/env'' (toggleFolder [''docs''] ''art'')"
proof -
  have "normal_selection [''docs'']" "trimmed ''art''" "within_folder ''art/env'' ''art''"
    "\<not> coveredByAncestor ''art'' [''docs'']"
    by (simp_all add: normal_selection_def trimmed_def sparse_defs js_startsWith_def)
  with toggleFolder_switches_one_folder [of "[''docs'']" "''art''" "''art/env''"] show ?thesis by simp
qed

section \<open>Addresses\<close>

lemma trim_id: "\<not> js_is_space (last u) \<Longrightarrow> \<not> js_is_space (hd u) \<Longrightarrow> u \<noteq> [] \<Longrightarrow> js_trim u = u"
proof -
  have dw: "xs \<noteq> [] \<Longrightarrow> \<not> P (hd xs) \<Longrightarrow> dropWhile P xs = xs" for P and xs :: string
    by (cases xs) auto
  assume "\<not> js_is_space (last u)" "\<not> js_is_space (hd u)" "u \<noteq> []"
  then show ?thesis by (simp add: js_trim_def dw hd_rev)
qed

text \<open>
  A clone address is read back from its parts: for a server, an organization and a
  project without slashes and white space, with or without a path behind them.\<close>

theorem parseRepoUrl_reads_parts:
  assumes "scheme = ''http:'' \<or> scheme = ''https:''"
    and "\<forall>part \<in> {host, org, project}. part \<noteq> [] \<and> CHR ''/'' \<notin> set part \<and> (\<forall>c \<in> set part. \<not> js_is_space c)"
    and "rest = [] \<or> (hd rest = CHR ''/'' \<and> \<not> js_is_space (last rest))"
  shows "parseRepoUrl (scheme @ ''//'' @ host @ ''/'' @ org @ ''/'' @ project @ rest) =
    Some \<lparr>ad_server = scheme @ ''//'' @ host, ad_org = org, ad_project = project\<rparr>"
proof -
  let ?u = "scheme @ ''//'' @ host @ ''/'' @ org @ ''/'' @ project @ rest"
  have "\<not> js_is_space (last (project @ rest))"
    using assms(2,3) by (cases "rest = []") auto
  then have "\<not> js_is_space (last ?u)" using assms(2) by simp
  moreover have "\<not> js_is_space (hd ?u)" using assms(1) by (auto simp: js_is_space_def)
  moreover have "?u \<noteq> []" by simp
  ultimately have trim: "js_trim ?u = ?u" by (rule trim_id)
  have tail: "\<exists>ps. js_split (CHR ''/'') (project @ rest) = project # ps"
  proof (cases rest)
    case Nil
    then show ?thesis using assms(2) by (simp add: js_split_no_sep)
  next
    case (Cons c cs)
    then show ?thesis using assms(2,3) by (simp add: js_split_append_sep)
  qed
  then obtain ps where ps: "js_split (CHR ''/'') (project @ rest) = project # ps" by blast
  have sc: "CHR ''/'' \<notin> set scheme" using assms(1) by auto
  have "js_split (CHR ''/'') ?u = scheme # [] # host # org # project # ps"
    using assms(2) sc ps by (simp add: js_split_append_sep)
  then show ?thesis using assms(1,2) trim by (simp add: parseRepoUrl_def)
qed

theorem parseRepoUrl_reads_parts_witness:
  "parseRepoUrl ''https://nipa.dev/acme/game/tree'' =
     Some \<lparr>ad_server = ''https://nipa.dev'', ad_org = ''acme'', ad_project = ''game''\<rparr>"
  using parseRepoUrl_reads_parts [of "''https:''" "''nipa.dev''" "''acme''" "''game''" "''/tree''"]
  by (simp add: js_is_space_def)

end
