(* ===== verification/Layers.thy ===== *)
theory Layers
  imports Js_Prelude
begin

text \<open>
  The comparison of two layer stacks of an image, \<open>lib/layers.ts\<close> of the desktop client: layers are
  matched by kind, name and the number of earlier layers of the same name, changed properties are
  listed, and removed layers are put back behind the layer that preceded them.
\<close>

section \<open>Operations\<close>

record ImageLayer =
  il_name :: string
  il_kind :: string
  il_depth :: int
  il_visible :: bool
  il_opacity :: int
  il_blend :: string
  il_x :: int
  il_y :: int
  il_width :: int
  il_height :: int
  il_hash :: string

datatype LayerStatus = LAdded | LRemoved | LChanged | LUnchanged

record LayerRow =
  lr_layer :: ImageLayer
  lr_status :: LayerStatus
  lr_changes :: "string list"

definition blendNames :: "(string \<times> string) list" where
  "blendNames = [
     (''norm'', ''Normal''), (''pass'', ''Pass through''), (''diss'', ''Dissolve''), (''dark'', ''Darken''),
     (''mul'', ''Multiply''), (''idiv'', ''Color burn''), (''lbrn'', ''Linear burn''), (''lite'', ''Lighten''),
     (''scrn'', ''Screen''), (''div '', ''Color dodge''), (''lddg'', ''Linear dodge''), (''over'', ''Overlay''),
     (''sLit'', ''Soft light''), (''hLit'', ''Hard light''), (''diff'', ''Difference''), (''smud'', ''Exclusion''),
     (''hue'', ''Hue''), (''sat'', ''Saturation''), (''colr'', ''Color''), (''lum'', ''Luminosity'')]"

definition blendName :: "string \<Rightarrow> string" where
  "blendName key = (case map_of blendNames key of
     Some n \<Rightarrow> n
   | None \<Rightarrow> (case map_of blendNames (js_trim key) of Some n \<Rightarrow> n | None \<Rightarrow> js_trim key))"

text \<open>The separator \<open>\u0000\<close> and the two keys built with it.\<close>

definition nul :: string where
  "nul = [CHR 0x00]"

definition layer_base :: "ImageLayer \<Rightarrow> string" where
  "layer_base l = il_kind l @ nul @ il_name l"

definition layer_key :: "string \<Rightarrow> nat \<Rightarrow> string" where
  "layer_key base n = base @ nul @ js_show_nat n"

definition keyed_step ::
  "ImageLayer \<Rightarrow> (string, nat) js_map \<times> (string, ImageLayer) js_map \<Rightarrow>
     (string, nat) js_map \<times> (string, ImageLayer) js_map" where
  "keyed_step l st = (case st of (seen, out) \<Rightarrow>
     let base = layer_base l;
         n = (case js_map_get seen base of None \<Rightarrow> 0 | Some n \<Rightarrow> n)
     in (js_map_set seen base (n + 1), js_map_set out (layer_key base n) l))"

definition keyed :: "ImageLayer list \<Rightarrow> (string, ImageLayer) js_map" where
  "keyed layers = snd (fold keyed_step layers ([], []))"

text \<open>\<open>Math.round((opacity / 255) * 100)\<close>; the quotient is never halfway between two integers.\<close>

definition percent :: "int \<Rightarrow> string" where
  "percent opacity = js_show_int (js_round_div (opacity * 100) 255) @ [CHR ''%'']"

definition arrow :: string where
  "arrow = '' '' @ [CHR 0xE2, CHR 0x86, CHR 0x92] @ '' ''"

definition changesBetween :: "ImageLayer \<Rightarrow> ImageLayer \<Rightarrow> string list" where
  "changesBetween a b =
     (if il_hash a \<noteq> il_hash b then [''pixels''] else []) @
     (if il_x a \<noteq> il_x b \<or> il_y a \<noteq> il_y b \<or> il_width a \<noteq> il_width b \<or> il_height a \<noteq> il_height b
      then [''bounds''] else []) @
     (if il_visible a \<noteq> il_visible b then [if il_visible b then ''shown'' else ''hidden''] else []) @
     (if il_opacity a \<noteq> il_opacity b
      then [''opacity '' @ percent (il_opacity a) @ arrow @ percent (il_opacity b)] else []) @
     (if il_blend a \<noteq> il_blend b then [blendName (il_blend a) @ arrow @ blendName (il_blend b)] else []) @
     (if il_depth a \<noteq> il_depth b then [''moved''] else [])"

type_synonym keyed_row = "string \<times> LayerRow"

definition new_row :: "(string, ImageLayer) js_map \<Rightarrow> string \<times> ImageLayer \<Rightarrow> keyed_row" where
  "new_row oldKeyed kl = (case kl of (key, layer) \<Rightarrow>
     (case js_map_get oldKeyed key of
        None \<Rightarrow> (key, \<lparr>lr_layer = layer, lr_status = LAdded, lr_changes = []\<rparr>)
      | Some before \<Rightarrow>
          let changes = changesBetween before layer
          in (key, \<lparr>lr_layer = layer, lr_status = (if changes \<noteq> [] then LChanged else LUnchanged),
                    lr_changes = changes\<rparr>)))"

definition removed_row :: "ImageLayer \<Rightarrow> LayerRow" where
  "removed_row layer = \<lparr>lr_layer = layer, lr_status = LRemoved, lr_changes = []\<rparr>"

text \<open>\<open>rows.splice(at, 0, row)\<close>, with \<open>findIndex(...) + 1\<close>, which is 0 when there is no such row.\<close>

definition insert_after :: "string option \<Rightarrow> keyed_row \<Rightarrow> keyed_row list \<Rightarrow> keyed_row list" where
  "insert_after previous row rows =
     (let i = (case previous of
                 None \<Rightarrow> 0
               | Some k \<Rightarrow> (case js_findIndex (\<lambda>r. fst r = k) rows of None \<Rightarrow> 0 | Some i \<Rightarrow> i + 1))
      in take i rows @ row # drop i rows)"

definition removed_step ::
  "(string, ImageLayer) js_map \<Rightarrow> string \<times> ImageLayer \<Rightarrow> keyed_row list \<times> string option \<Rightarrow>
     keyed_row list \<times> string option" where
  "removed_step newKeyed kl st = (case (kl, st) of ((key, layer), (rows, previous)) \<Rightarrow>
     ((if js_map_has newKeyed key then rows else insert_after previous (key, removed_row layer) rows),
      Some key))"

definition diff_rows :: "(string, ImageLayer) js_map \<Rightarrow> (string, ImageLayer) js_map \<Rightarrow> keyed_row list" where
  "diff_rows oldKeyed newKeyed =
     fst (fold (removed_step newKeyed) oldKeyed (map (new_row oldKeyed) newKeyed, None))"

definition diffLayers :: "ImageLayer list \<Rightarrow> ImageLayer list \<Rightarrow> LayerRow list" where
  "diffLayers oldLayers newLayers = map snd (diff_rows (keyed oldLayers) (keyed newLayers))"

section \<open>Keys are unique\<close>

lemma nul_not_digit: "CHR 0x00 \<notin> set (js_show_nat n)"
  using js_show_nat_digits [of "CHR 0x00" n] by (auto simp: js_is_digit_def)

lemma layer_key_inj: "layer_key b n = layer_key c m \<longleftrightarrow> b = c \<and> n = m"
proof
  assume "layer_key b n = layer_key c m"
  then have eq: "rev (js_show_nat n) @ CHR 0x00 # rev b = rev (js_show_nat m) @ CHR 0x00 # rev c"
    unfolding layer_key_def nul_def by (metis append.assoc append_Cons append_Nil rev.simps(2) rev_append rev_rev_ident)
  have t: "takeWhile (\<lambda>x. x \<noteq> CHR 0x00) (rev (js_show_nat k) @ CHR 0x00 # r) = rev (js_show_nat k)" for k r
    using nul_not_digit [of k] by (subst takeWhile_append2) auto
  from eq have "rev (js_show_nat n) = rev (js_show_nat m)" by (metis t)
  with eq show "b = c \<and> n = m" by simp
qed simp

text \<open>The state of the loop: the counts of the names seen, one entry per layer, every key used.\<close>

definition keyed_inv :: "ImageLayer list \<Rightarrow> (string, nat) js_map \<Rightarrow> (string, ImageLayer) js_map \<Rightarrow> bool" where
  "keyed_inv ls seen out \<longleftrightarrow>
     map snd out = ls \<and> distinct (map fst out) \<and>
     (\<forall>b n. layer_key b n \<in> fst ` set out \<longrightarrow> (\<exists>m. js_map_get seen b = Some m \<and> n < m))"

lemma keyed_fold:
  "keyed_inv ls (fst (fold keyed_step ls ([], []))) (snd (fold keyed_step ls ([], [])))"
proof (induction ls rule: rev_induct)
  case Nil
  then show ?case by (simp add: keyed_inv_def)
next
  case (snoc l ls)
  obtain seen out where f: "fold keyed_step ls ([], []) = (seen, out)" by fastforce
  with snoc have inv: "keyed_inv ls seen out" by simp
  let ?b = "layer_base l"
  define n where "n = (case js_map_get seen ?b of None \<Rightarrow> 0 | Some n \<Rightarrow> n)"
  have used: "\<exists>m. js_map_get seen b = Some m \<and> k < m" if "layer_key b k \<in> fst ` set out" for b k
    using inv that by (simp add: keyed_inv_def)
  have new: "layer_key ?b n \<notin> fst ` set out"
  proof
    assume "layer_key ?b n \<in> fst ` set out"
    from used [OF this] show False by (auto simp: n_def)
  qed
  then have out: "js_map_set out (layer_key ?b n) l = out @ [(layer_key ?b n, l)]"
    by (simp add: js_map_set_new js_map_keys_def)
  have step: "keyed_step l (seen, out) = (js_map_set seen ?b (n + 1), out @ [(layer_key ?b n, l)])"
    using out by (simp add: keyed_step_def n_def Let_def)
  have "\<exists>m. js_map_get (js_map_set seen ?b (n + 1)) b = Some m \<and> k < m"
    if "layer_key b k \<in> fst ` set out \<or> b = ?b \<and> k = n" for b k
  proof (cases "b = ?b")
    case True
    then have "k = n \<or> (\<exists>m. js_map_get seen ?b = Some m \<and> k < m)" using that used by blast
    then have "k \<le> n" by (auto simp: n_def)
    with True show ?thesis by (simp add: js_map.get_put)
  next
    case False
    with that used [of b k] show ?thesis by (simp add: js_map.get_put)
  qed
  then show ?case
    using f step inv new by (auto simp: keyed_inv_def layer_key_inj)
qed

lemma keyed_layers: "map snd (keyed ls) = ls" "distinct (map fst (keyed ls))"
  using keyed_fold [of ls] by (auto simp: keyed_inv_def keyed_def)

section \<open>Where removed layers go\<close>

definition row_keys :: "keyed_row list \<Rightarrow> string list" where
  "row_keys rows = map fst rows"

definition adjacent :: "'a \<Rightarrow> 'a \<Rightarrow> 'a list \<Rightarrow> bool" where
  "adjacent x y xs \<longleftrightarrow> (\<exists>as bs. xs = as @ x # y # bs)"

text \<open>Inserting behind a key that occurs once.\<close>

lemma insert_after_split:
  assumes "distinct (row_keys rows)" and "rows = as @ (k, r) # bs"
  shows "insert_after (Some k) row rows = as @ (k, r) # row # bs"
proof -
  have "js_findIndex (\<lambda>x. fst x = k) rows = Some (length as)"
    using assms by (auto simp: js_findIndex_Some row_keys_def nth_append)
  then show ?thesis by (simp add: insert_after_def assms(2))
qed

lemma insert_after_keys:
  assumes "distinct (row_keys rows)" and "k \<in> set (row_keys rows)"
  obtains as bs where "row_keys rows = as @ k # bs"
    "row_keys (insert_after (Some k) row rows) = as @ k # fst row # bs"
    "mset (insert_after (Some k) row rows) = add_mset row (mset rows)"
proof -
  from assms(2) obtain r as bs where s: "rows = as @ (k, r) # bs"
    by (force simp: row_keys_def dest: split_list)
  note i = insert_after_split [OF assms(1) s, of row]
  show thesis
    by (rule that [of "map fst as" "map fst bs"], unfold i) (simp_all add: s row_keys_def)
qed

lemma adjacent_insert:
  assumes "adjacent x y (as @ k # bs)" and "x \<noteq> k" and "distinct (as @ k # bs)"
  shows "adjacent x y (as @ k # z # bs)"
proof -
  obtain cs ds where e: "as @ k # bs = cs @ x # y # ds" using assms(1) by (auto simp: adjacent_def)
  then consider us where "as = cs @ x # us" "us @ k # bs = y # ds"
    | us where "cs = as @ k # us" "bs = us @ x # y # ds"
    using assms(2) by (auto simp: append_eq_append_conv2 append_eq_Cons_conv Cons_eq_append_conv)
  then show ?thesis
  proof cases
    case 1
    then show ?thesis
      unfolding adjacent_def
      by (cases us) (auto intro: exI [of _ cs])
  next
    case 2
    then show ?thesis unfolding adjacent_def by (intro exI [of _ "as @ k # z # us"] exI [of _ ds]) simp
  qed
qed

text \<open>
  The rows after part of the old stack: the new layers in their order, the removed ones among them,
  and each removed key right behind its predecessor.
\<close>

definition placed :: "string list \<Rightarrow> string list \<Rightarrow> string list \<Rightarrow> bool" where
  "placed newKeys done1 keys \<longleftrightarrow>
     distinct keys \<and> set keys = set newKeys \<union> set done1 \<and>
     filter (\<lambda>k. k \<in> set newKeys) keys = newKeys \<and>
     (\<forall>x y us vs. done1 = us @ x # y # vs \<and> y \<notin> set newKeys \<longrightarrow> adjacent x y keys) \<and>
     (done1 \<noteq> [] \<and> hd done1 \<notin> set newKeys \<longrightarrow> keys \<noteq> [] \<and> hd keys = hd done1)"

lemma placed_first:
  assumes "distinct newKeys" and "k \<notin> set newKeys"
  shows "placed newKeys [k] (k # newKeys)"
  using assms by (auto simp: placed_def Cons_eq_append_conv append_eq_Cons_conv filter_id_conv)

lemma placed_skip:
  assumes "placed newKeys done1 keys" and "k \<in> set newKeys" and "distinct (done1 @ [k])"
  shows "placed newKeys (done1 @ [k]) keys"
proof -
  have "adjacent x y keys" if "done1 @ [k] = us @ x # y # vs" "y \<notin> set newKeys" for x y us vs
  proof (cases vs rule: rev_cases)
    case Nil
    with that assms(2) show ?thesis by (simp add: append_eq_append_conv2 Cons_eq_append_conv)
  next
    case (snoc ws w)
    with that have "done1 = us @ x # y # ws" by (simp flip: append_assoc append_Cons)
    with that(2) assms(1) show ?thesis unfolding placed_def by blast
  qed
  then show ?thesis
    using assms by (cases done1) (auto simp: placed_def)
qed

lemma snoc_pair:
  assumes "xs @ [z] = us @ x # y # vs"
  shows "(\<exists>ws. xs = us @ x # y # ws) \<or> (xs = us @ [x] \<and> y = z)"
  using assms by (cases vs rule: rev_cases) auto

lemma placed_insert:
  assumes p: "placed newKeys (done1 @ [k]) (as @ k # bs)" and z: "z \<notin> set newKeys"
    and dd: "distinct (done1 @ [k, z])"
  shows "placed newKeys (done1 @ [k, z]) (as @ k # z # bs)"
proof -
  have d: "distinct (as @ k # bs)" and s: "set (as @ k # bs) = set newKeys \<union> set (done1 @ [k])"
    using p by (auto simp: placed_def)
  have zn: "z \<notin> set (as @ k # bs)" using s z dd by auto
  have adj: "adjacent x y (as @ k # z # bs)"
    if e: "done1 @ [k, z] = us @ x # y # vs" and y: "y \<notin> set newKeys" for x y us vs
  proof -
    from snoc_pair [of "done1 @ [k]" z us x y vs] e
    consider ws where "done1 @ [k] = us @ x # y # ws" | "done1 @ [k] = us @ [x]" "y = z" by auto
    then show ?thesis
    proof cases
      case 1
      then have "adjacent x y (as @ k # bs)" using p y unfolding placed_def by blast
      moreover have "x \<noteq> k" using 1 dd by (cases ws rule: rev_cases) auto
      ultimately show ?thesis using d by (intro adjacent_insert)
    next
      case 2
      then show ?thesis by (auto simp: adjacent_def)
    qed
  qed
  have first: "hd (as @ k # z # bs) = hd (done1 @ [k, z])" if "hd (done1 @ [k, z]) \<notin> set newKeys"
  proof -
    have "hd (done1 @ [k, z]) = hd (done1 @ [k])" by (cases done1) auto
    moreover have "hd (as @ k # z # bs) = hd (as @ k # bs)" by (cases as) auto
    ultimately show ?thesis using p that by (simp add: placed_def)
  qed
  have "filter (\<lambda>x. x \<in> set newKeys) (as @ k # z # bs) = filter (\<lambda>x. x \<in> set newKeys) (as @ k # bs)"
    using z by simp
  moreover have "\<dots> = newKeys" using p unfolding placed_def by blast
  ultimately have "filter (\<lambda>x. x \<in> set newKeys) (as @ k # z # bs) = newKeys" by simp
  with d zn s adj first show ?thesis by (auto simp: placed_def)
qed

lemma diff_rows_placed:
  assumes "distinct (map fst (old :: (string \<times> ImageLayer) list))" and "distinct (map fst new)"
  shows "case fold (removed_step new) old (map (new_row full) new, None) of (rows, previous) \<Rightarrow>
    placed (map fst new) (map fst old) (row_keys rows) \<and>
    previous = (if old = [] then None else Some (fst (last old))) \<and>
    mset rows = mset (map (new_row full) new) +
      mset (map (\<lambda>(k, l). (k, removed_row l)) (filter (\<lambda>(k, l). k \<notin> fst ` set new) old))"
  using assms(1)
proof (induction old rule: rev_induct)
  case Nil
  have "row_keys (map (new_row full) new) = map fst new"
    by (auto simp: row_keys_def new_row_def Let_def split: option.splits)
  then show ?case using assms(2) by (auto simp: placed_def filter_id_conv)
next
  case (snoc kl old)
  obtain k l where kl: "kl = (k, l)" by fastforce
  obtain rows previous where f: "fold (removed_step new) old (map (new_row full) new, None) = (rows, previous)"
    by fastforce
  with snoc have pl: "placed (map fst new) (map fst old) (row_keys rows)"
    and pv: "previous = (if old = [] then None else Some (fst (last old)))"
    and ms: "mset rows = mset (map (new_row full) new) +
      mset (map (\<lambda>(k, l). (k, removed_row l)) (filter (\<lambda>(k, l). k \<notin> fst ` set new) old))"
    by auto
  have dk: "distinct (map fst old @ [k])" using snoc.prems kl by simp
  show ?case
  proof (cases "k \<in> fst ` set new")
    case True
    then have "removed_step new kl (rows, previous) = (rows, Some k)"
      by (simp add: removed_step_def kl js_map_has_def)
    with True placed_skip [OF pl _ dk] ms f kl show ?thesis by simp
  next
    case False
    let ?row = "(k, removed_row l)"
    have st: "removed_step new kl (rows, previous) = (insert_after previous ?row rows, Some k)"
      using False by (simp add: removed_step_def kl js_map_has_def)
    have dr: "distinct (row_keys rows)" using pl by (simp add: placed_def)
    show ?thesis
    proof (cases old rule: rev_cases)
      case Nil
      then have r: "row_keys rows = map fst new" "previous = None"
        using pl pv by (auto simp: placed_def filter_id_conv dest: sym)
      then have "row_keys (insert_after previous ?row rows) = k # map fst new"
        "mset (insert_after previous ?row rows) = add_mset ?row (mset rows)"
        by (simp_all add: insert_after_def row_keys_def)
      with placed_first [of "map fst new" k] assms(2) False st ms Nil f kl show ?thesis by simp
    next
      case (snoc old' q)
      then have pv': "previous = Some (fst q)" using pv by simp
      have "fst q \<in> set (row_keys rows)" using pl snoc by (simp add: placed_def)
      then obtain as bs where ab: "row_keys rows = as @ fst q # bs"
        "row_keys (insert_after (Some (fst q)) ?row rows) = as @ fst q # k # bs"
        "mset (insert_after (Some (fst q)) ?row rows) = add_mset ?row (mset rows)"
        using insert_after_keys [OF dr, of "fst q" ?row] by (metis fst_conv)
      have "placed (map fst new) (map fst old' @ [fst q, k]) (as @ fst q # k # bs)"
        using placed_insert [of "map fst new" "map fst old'" "fst q" as bs k] pl ab(1) False dk snoc by simp
      with ab st ms f kl False snoc pv' show ?thesis by simp
    qed
  qed
qed

section \<open>The result\<close>

lemma same_keys_same_list:
  assumes "map fst xs = map fst ys" and "distinct (map fst xs)" and "set xs = set ys"
  shows "xs = ys"
proof (rule nth_equalityI)
  show len: "length xs = length ys" using assms(1) by (metis length_map)
  fix i assume i: "i < length xs"
  then have "fst (xs ! i) = fst (ys ! i)" using assms(1) len by (metis nth_map)
  moreover have "ys ! i \<in> set xs" using i len assms(3) by simp
  moreover have "xs ! i \<in> set xs" using i by simp
  ultimately show "xs ! i = ys ! i" using assms(2) by (metis distinct_map inj_onD)
qed

lemma fst_new_row [simp]: "fst (new_row full kl) = fst kl"
  by (simp add: new_row_def Let_def split: prod.split option.split)

lemma snd_new_row [simp]: "lr_layer (snd (new_row full kl)) = snd kl" "lr_status (snd (new_row full kl)) \<noteq> LRemoved"
  by (auto simp: new_row_def Let_def split: prod.split option.split)

lemma diff_rows_facts:
  fixes old new :: "ImageLayer list"
  defines "rows \<equiv> diff_rows (keyed old) (keyed new)"
  shows "placed (map fst (keyed new)) (map fst (keyed old)) (row_keys rows)"
    and "mset rows = mset (map (new_row (keyed old)) (keyed new)) +
      mset (map (\<lambda>(k, l). (k, removed_row l)) (filter (\<lambda>(k, l). k \<notin> fst ` set (keyed new)) (keyed old)))"
proof -
  obtain rows0 pv where f: "fold (removed_step (keyed new)) (keyed old)
      (map (new_row (keyed old)) (keyed new), None) = (rows0, pv)" by fastforce
  then have r: "rows = rows0" by (simp add: rows_def diff_rows_def)
  note p = diff_rows_placed [OF keyed_layers(2) [of old] keyed_layers(2) [of new], of "keyed old",
      unfolded f prod.case]
  from p show "placed (map fst (keyed new)) (map fst (keyed old)) (row_keys rows)" unfolding r by blast
  from p show "mset rows = mset (map (new_row (keyed old)) (keyed new)) +
      mset (map (\<lambda>(k, l). (k, removed_row l)) (filter (\<lambda>(k, l). k \<notin> fst ` set (keyed new)) (keyed old)))"
    unfolding r by blast
qed

lemma kept_rows:
  "filter (\<lambda>r. lr_status (snd r) \<noteq> LRemoved) (diff_rows (keyed old) (keyed new)) =
     map (new_row (keyed old)) (keyed new)"
proof (rule same_keys_same_list)
  let ?rows = "diff_rows (keyed old) (keyed new)"
  note f = diff_rows_facts [where old = old and new = new]
  have set_rows: "set ?rows = new_row (keyed old) ` set (keyed new) \<union>
      (\<lambda>(k, l). (k, removed_row l)) ` {(k, l) \<in> set (keyed old). k \<notin> fst ` set (keyed new)}"
    using arg_cong [OF f(2), of set_mset] by (auto simp: Un_commute)
  then show "set (filter (\<lambda>r. lr_status (snd r) \<noteq> LRemoved) ?rows) = set (map (new_row (keyed old)) (keyed new))"
    by (auto simp: removed_row_def)
  have kept: "lr_status (snd r) \<noteq> LRemoved \<longleftrightarrow> fst r \<in> set (map fst (keyed new))" if "r \<in> set ?rows" for r
    using that unfolding set_rows by (force simp: removed_row_def)
  have "map fst (filter (\<lambda>r. lr_status (snd r) \<noteq> LRemoved) ?rows) =
      filter (\<lambda>k. k \<in> set (map fst (keyed new))) (row_keys ?rows)"
    using kept by (simp add: row_keys_def filter_map comp_def cong: filter_cong)
  also have "\<dots> = map fst (keyed new)" using f(1) unfolding placed_def by blast
  finally show *: "map fst (filter (\<lambda>r. lr_status (snd r) \<noteq> LRemoved) ?rows) =
      map fst (map (new_row (keyed old)) (keyed new))" by (simp add: comp_def)
  show "distinct (map fst (filter (\<lambda>r. lr_status (snd r) \<noteq> LRemoved) ?rows))"
    unfolding * using keyed_layers(2) [of new] by (simp add: comp_def)
qed

lemma changes_self [simp]: "changesBetween l l = []"
  by (simp add: changesBetween_def)

definition gone :: "ImageLayer list \<Rightarrow> ImageLayer list \<Rightarrow> (string \<times> ImageLayer) list" where
  "gone old new = filter (\<lambda>(k, l). k \<notin> fst ` set (keyed new)) (keyed old)"

lemma filter_removed:
  "filter (\<lambda>r. lr_status (snd r) = LRemoved) (map (new_row full) xs) = []"
  "filter (\<lambda>r. lr_status (snd r) = LRemoved) (map (\<lambda>(k, l). (k, removed_row l)) ys) =
     map (\<lambda>(k, l). (k, removed_row l)) ys"
  by (induction xs, simp_all) (induction ys, auto simp: removed_row_def)

lemma removed_rows:
  "mset (map lr_layer (filter (\<lambda>r. lr_status r = LRemoved) (diffLayers old new))) = mset (map snd (gone old new))"
proof -
  let ?rows = "diff_rows (keyed old) (keyed new)"
  let ?P = "\<lambda>r :: keyed_row. lr_status (snd r) = LRemoved"
  let ?mark = "map (\<lambda>(k, l). (k, removed_row l)) (gone old new)"
  have "mset (filter ?P ?rows) = filter_mset ?P (mset ?rows)" by simp
  also have "\<dots> = filter_mset ?P (mset (map (new_row (keyed old)) (keyed new)) + mset ?mark)"
    by (simp only: diff_rows_facts(2) gone_def)
  also have "\<dots> = mset (filter ?P (map (new_row (keyed old)) (keyed new))) + mset (filter ?P ?mark)"
    by (simp only: filter_union_mset mset_filter)
  also have "\<dots> = mset ?mark" by (simp only: filter_removed mset.simps add_0)
  finally have "mset (filter ?P ?rows) = mset ?mark" .
  from arg_cong [OF this, of "image_mset (\<lambda>r. lr_layer (snd r))"]
  have "mset (map (\<lambda>r. lr_layer (snd r)) (filter ?P ?rows)) = mset (map (\<lambda>r. lr_layer (snd r)) ?mark)"
    by (simp only: mset_map)
  moreover have "map (\<lambda>r. lr_layer (snd r)) ?mark = map snd (gone old new)"
    by (simp add: removed_row_def case_prod_unfold)
  moreover have "map lr_layer (filter (\<lambda>r. lr_status r = LRemoved) (diffLayers old new)) =
      map (\<lambda>r. lr_layer (snd r)) (filter ?P ?rows)"
    by (simp add: diffLayers_def filter_map comp_def)
  ultimately show ?thesis by (simp only:)
qed

lemma self_diff: "diffLayers ls ls = map (\<lambda>l. \<lparr>lr_layer = l, lr_status = LUnchanged, lr_changes = []\<rparr>) ls"
proof -
  let ?rows = "diff_rows (keyed ls) (keyed ls)"
  have "filter (\<lambda>(k, l). k \<notin> fst ` set (keyed ls)) (keyed ls) = []"
    by (auto simp: filter_empty_conv image_iff)
  then have "mset ?rows = mset (map (new_row (keyed ls)) (keyed ls))"
    using diff_rows_facts(2) [of ls ls] by simp
  then have "set ?rows = new_row (keyed ls) ` set (keyed ls)"
    by (metis mset_eq_setD set_map)
  then have "filter (\<lambda>r. lr_status (snd r) \<noteq> LRemoved) ?rows = ?rows" by (auto simp: filter_id_conv)
  then have rows: "?rows = map (new_row (keyed ls)) (keyed ls)" using kept_rows [of ls ls] by simp
  have "new_row (keyed ls) kl = (fst kl, \<lparr>lr_layer = snd kl, lr_status = LUnchanged, lr_changes = []\<rparr>)"
    if "kl \<in> set (keyed ls)" for kl
  proof -
    obtain k l where kl: "kl = (k, l)" by fastforce
    then have "js_map_get (keyed ls) k = Some l"
      using that keyed_layers(2) [of ls] by (simp add: js_map_get_def)
    then show ?thesis by (simp add: new_row_def kl)
  qed
  then have "map snd ?rows = map (\<lambda>kl. \<lparr>lr_layer = snd kl, lr_status = LUnchanged, lr_changes = []\<rparr>) (keyed ls)"
    by (simp add: rows)
  then show ?thesis
    using arg_cong [OF keyed_layers(1) [of ls], of "map (\<lambda>l. \<lparr>lr_layer = l, lr_status = LUnchanged, lr_changes = []\<rparr>)"]
    by (simp add: diffLayers_def comp_def)
qed

lemma new_layers_in_order:
  "map lr_layer (filter (\<lambda>r. lr_status r \<noteq> LRemoved) (diffLayers old new)) = new"
  using arg_cong [OF kept_rows [of old new], of "map (\<lambda>x. lr_layer (snd x))"] keyed_layers(1) [of new]
  by (simp add: diffLayers_def filter_map comp_def)

text \<open>
  The comparison of two layer stacks shows the new stack completely and in its order,
  every layer of the old stack without a counterpart exactly once as removed, each directly behind
  the layer that preceded it in the old stack; and a stack compared with itself has only unchanged
  layers.\<close>

theorem layer_diff_places_layers:
  "map lr_layer (filter (\<lambda>r. lr_status r \<noteq> LRemoved) (diffLayers old new)) = new \<and>
   mset (map lr_layer (filter (\<lambda>r. lr_status r = LRemoved) (diffLayers old new))) = mset (map snd (gone old new)) \<and>
   (\<forall>us x y vs. map fst (keyed old) = us @ x # y # vs \<and> y \<notin> fst ` set (keyed new) \<longrightarrow>
      adjacent x y (map fst (diff_rows (keyed old) (keyed new)))) \<and>
   diffLayers new new = map (\<lambda>l. \<lparr>lr_layer = l, lr_status = LUnchanged, lr_changes = []\<rparr>) new"
proof (intro conjI)
  show "\<forall>us x y vs. map fst (keyed old) = us @ x # y # vs \<and> y \<notin> fst ` set (keyed new) \<longrightarrow>
      adjacent x y (map fst (diff_rows (keyed old) (keyed new)))"
    using diff_rows_facts(1) [where old = old and new = new]
    by (simp add: placed_def row_keys_def) blast
qed (rule new_layers_in_order removed_rows self_diff)+

definition demo_layer :: "string \<Rightarrow> ImageLayer" where
  "demo_layer n = \<lparr>il_name = n, il_kind = ''layer'', il_depth = 0, il_visible = True, il_opacity = 255,
     il_blend = ''norm'', il_x = 0, il_y = 0, il_width = 8, il_height = 8, il_hash = n\<rparr>"

theorem layer_diff_places_layers_witness:
  "map lr_layer (filter (\<lambda>r. lr_status r \<noteq> LRemoved)
     (diffLayers [demo_layer ''sky'', demo_layer ''sun''] [demo_layer ''sky'', demo_layer ''sea''])) =
   [demo_layer ''sky'', demo_layer ''sea'']"
  using layer_diff_places_layers [of "[demo_layer ''sky'', demo_layer ''sun'']" "[demo_layer ''sky'', demo_layer ''sea'']"]
  by simp

end
