(* ===== verification/Access.thy ===== *)
theory Access
  imports Js_Prelude Uri "HOL-Library.Word"
begin

unbundle bit_operations_syntax

text \<open>
  Permissions and slugs of the web client: \<open>api/permissions.ts\<close> and \<open>formatPermission\<close> of
  \<open>api/models.ts\<close>, \<open>PermissionBadge.tsx\<close>, \<open>PermissionCheckboxes.tsx\<close>; \<open>slug.ts\<close>,
  \<open>SlugFields.tsx\<close> and the routes of \<open>App.tsx\<close> that slugs have to live beside. The bitwise operators
  of JavaScript work on 32-bit integers, so a permission mask is a 32-bit word.
\<close>

section \<open>Permissions\<close>

type_synonym mask = "32 word"

definition PERMISSION_READ :: mask where
  "PERMISSION_READ = 1"

definition PERMISSION_WRITE :: mask where
  "PERMISSION_WRITE = 2"

definition PERMISSION_LOCK :: mask where
  "PERMISSION_LOCK = 4"

definition PERMISSION_ADMIN :: mask where
  "PERMISSION_ADMIN = push_bit 16 1"

definition formatPermission :: "mask \<Rightarrow> string" where
  "formatPermission m =
     (let parts =
        (if m AND PERMISSION_READ \<noteq> 0 then [''read''] else []) @
        (if m AND PERMISSION_WRITE \<noteq> 0 then [''write''] else []) @
        (if m AND PERMISSION_LOCK \<noteq> 0 then [''lock''] else []) @
        (if m AND PERMISSION_ADMIN \<noteq> 0 then [''admin''] else [])
      in if parts \<noteq> [] then js_join '','' parts else ''none'')"

datatype permission_error = UnknownPermission string | NoPermission

definition add_permission :: "string \<Rightarrow> permission_error + mask \<Rightarrow> permission_error + mask" where
  "add_permission part acc = (case acc of
     Inl e \<Rightarrow> Inl e
   | Inr m \<Rightarrow>
       (let p = js_toLowerCase (js_trim part) in
        if p = ''read'' then Inr (m OR PERMISSION_READ)
        else if p = ''write'' then Inr (m OR PERMISSION_WRITE)
        else if p = ''lock'' then Inr (m OR PERMISSION_LOCK)
        else if p = ''admin'' then Inr (m OR PERMISSION_ADMIN)
        else if p = [] then Inr m
        else Inl (UnknownPermission (js_trim part))))"

definition parsePermission :: "string \<Rightarrow> permission_error + mask" where
  "parsePermission raw =
     (case fold add_permission (js_split (CHR '','') raw) (Inr 0) of
        Inl e \<Rightarrow> Inl e
      | Inr m \<Rightarrow> if m = 0 then Inl NoPermission else Inr m)"

datatype PermissionLabelVariant = LNone | LRead | LLock | LWriteLock | LWrite | LAdmin

definition permissionLabel :: "mask \<Rightarrow> PermissionLabelVariant" where
  "permissionLabel p =
     (if p = 0 then LNone
      else if p AND PERMISSION_ADMIN \<noteq> 0 then LAdmin
      else if p AND PERMISSION_WRITE \<noteq> 0 \<and> p AND PERMISSION_LOCK \<noteq> 0 then LWriteLock
      else if p AND PERMISSION_WRITE \<noteq> 0 then LWrite
      else if p AND PERMISSION_LOCK \<noteq> 0 then LLock
      else if p AND PERMISSION_READ \<noteq> 0 then LRead
      else LNone)"

definition PermissionBadge :: "mask \<Rightarrow> string \<times> string" where
  "PermissionBadge p = (case permissionLabel p of
     LAdmin \<Rightarrow> (''danger'', ''Admin'')
   | LWriteLock \<Rightarrow> (''success'', ''Write + Lock'')
   | LWrite \<Rightarrow> (''success'', ''Write'')
   | LLock \<Rightarrow> (''attention'', ''Lock'')
   | LRead \<Rightarrow> (''accent'', ''Read'')
   | LNone \<Rightarrow> (''done'', ''None''))"

definition PERMISSION_OPTIONS :: "(mask \<times> string \<times> string) list" where
  "PERMISSION_OPTIONS = [
     (PERMISSION_READ, ''Read'', ''View and download files''),
     (PERMISSION_WRITE, ''Write'', ''Push changes and create branches''),
     (PERMISSION_LOCK, ''Lock'', ''Lock and unlock binary files''),
     (PERMISSION_ADMIN, ''Admin'', ''Manage access rules and settings'')]"

definition toggle :: "mask \<Rightarrow> mask \<Rightarrow> mask" where
  "toggle val1 bit1 = (if val1 AND bit1 \<noteq> 0 then val1 AND NOT bit1 else val1 OR bit1)"

definition PermissionCheckboxes :: "mask \<Rightarrow> (string \<times> bool \<times> mask) list" where
  "PermissionCheckboxes val1 =
     map (\<lambda>(b, label, _). (label, val1 AND b \<noteq> 0, toggle val1 b)) PERMISSION_OPTIONS"

section \<open>Slugs\<close>

definition slug_char :: "char \<Rightarrow> bool" where
  "slug_char c \<longleftrightarrow> (let n = of_char c :: nat in (97 \<le> n \<and> n \<le> 122) \<or> (48 \<le> n \<and> n \<le> 57))"

text \<open>\<open>SLUG_PATTERN.test(s)\<close>.\<close>

definition SLUG_PATTERN :: "string \<Rightarrow> bool" where
  "SLUG_PATTERN s = (case s of
     [] \<Rightarrow> False
   | c # cs \<Rightarrow> slug_char c \<and> list_all (\<lambda>x. slug_char x \<or> x = CHR ''-'') cs)"

definition RESERVED_ORG_SLUGS :: "string list" where
  "RESERVED_ORG_SLUGS = [''admin'', ''api'', ''assets'', ''auth'', ''contact'', ''dashboard'', ''debug'', ''docs'',
     ''download'', ''guides'', ''healthz'', ''login'', ''metrics'', ''oauth'', ''onboarding'', ''pricing'',
     ''privacy'', ''readyz'', ''register'', ''screenshots'', ''settings'', ''support'', ''terms'', ''verify'',
     ''version'', ''web'']"

definition RESERVED_PROJECT_SLUGS :: "string list" where
  "RESERVED_PROJECT_SLUGS = [''new'', ''settings'']"

text \<open>\<open>replace(/[^a-z0-9]+/g, '-')\<close>: each run becomes one dash.\<close>

fun dash_runs :: "bool \<Rightarrow> string \<Rightarrow> string" where
  "dash_runs inRun [] = []"
| "dash_runs inRun (c # cs) =
     (if slug_char c then c # dash_runs False cs
      else if inRun then dash_runs True cs
      else CHR ''-'' # dash_runs True cs)"

text \<open>\<open>replace(/^-+|-+$/g, '')\<close>.\<close>

definition strip_dashes :: "string \<Rightarrow> string" where
  "strip_dashes s =
     rev (dropWhile (\<lambda>c. c = CHR ''-'') (rev (dropWhile (\<lambda>c. c = CHR ''-'') s)))"

definition slugify :: "string \<Rightarrow> string" where
  "slugify v = strip_dashes (dash_runs False (js_toLowerCase (js_trim v)))"

definition slugMessage :: "string \<Rightarrow> string list \<Rightarrow> string option" where
  "slugMessage slug reserved =
     (if slug = [] then Some ''Slug is required.''
      else if \<not> SLUG_PATTERN slug then
        Some ''Slug must start with a letter or digit and contain only lowercase letters, digits and dashes.''
      else if slug \<in> set reserved then Some ''This slug is reserved. Choose a different one.''
      else None)"

record SlugFields =
  sf_name :: string
  sf_rawSlug :: string
  sf_edited :: bool
  sf_taken :: bool

definition slug_fields_init :: SlugFields where
  "slug_fields_init = \<lparr>sf_name = [], sf_rawSlug = [], sf_edited = False, sf_taken = False\<rparr>"

definition sf_slug :: "SlugFields \<Rightarrow> string" where
  "sf_slug f = (if sf_edited f then sf_rawSlug f else slugify (sf_name f))"

definition sf_valid :: "string list \<Rightarrow> SlugFields \<Rightarrow> bool" where
  "sf_valid reserved f \<longleftrightarrow>
     slugMessage (sf_slug f) reserved = None \<and> \<not> sf_taken f \<and> js_trim (sf_name f) \<noteq> []"

definition sf_setName :: "string \<Rightarrow> SlugFields \<Rightarrow> SlugFields" where
  "sf_setName v f = f\<lparr>sf_name := v, sf_taken := False\<rparr>"

definition sf_setSlug :: "string \<Rightarrow> SlugFields \<Rightarrow> SlugFields" where
  "sf_setSlug v f =
     f\<lparr>sf_edited := (js_trim v \<noteq> []), sf_rawSlug := (if js_trim v = [] then [] else v), sf_taken := False\<rparr>"

definition sf_markTaken :: "SlugFields \<Rightarrow> SlugFields" where
  "sf_markTaken f = f\<lparr>sf_taken := True\<rparr>"

section \<open>The routes of the application\<close>

definition app_routes :: "string list" where
  "app_routes = [
     ''/'', ''/login'', ''/register'', ''/verify'', ''/oauth/callback'', ''/dashboard'', ''/onboarding'',
     ''/admin/users'', ''/admin/users/new'', ''/settings/profile'', ''/settings/billing'', ''/:org'',
     ''/:org/settings'', ''/:org/new'', ''/:org/:project'', ''/:org/:project/tree'',
     ''/:org/:project/tree/:rev/*'', ''/:org/:project/blob'', ''/:org/:project/blob/:rev/*'',
     ''/:org/:project/commits'', ''/:org/:project/commits/:commit'', ''/:org/:project/branches'',
     ''/:org/:project/branches/new'', ''/:org/:project/compare'', ''/:org/:project/tags'',
     ''/:org/:project/merges'', ''/:org/:project/merges/new'', ''/:org/:project/merges/:id'',
     ''/:org/:project/locks'', ''/:org/:project/settings'', ''*'']"

lemmas access_defs [js_defs] =
  PERMISSION_READ_def PERMISSION_WRITE_def PERMISSION_LOCK_def PERMISSION_ADMIN_def
  formatPermission_def add_permission_def parsePermission_def permissionLabel_def PermissionBadge_def
  PERMISSION_OPTIONS_def toggle_def PermissionCheckboxes_def slug_char_def SLUG_PATTERN_def
  strip_dashes_def slugify_def slugMessage_def sf_slug_def sf_valid_def sf_setName_def
  sf_setSlug_def sf_markTaken_def

section \<open>Permission masks\<close>

text \<open>The masks that the four permissions make up.\<close>

definition known_bits :: mask where
  "known_bits = PERMISSION_READ OR PERMISSION_WRITE OR PERMISSION_LOCK OR PERMISSION_ADMIN"

lemma permission_values:
  "PERMISSION_READ = 1" "PERMISSION_WRITE = 2" "PERMISSION_LOCK = 4" "PERMISSION_ADMIN = 65536"
  by (simp_all add: PERMISSION_READ_def PERMISSION_WRITE_def PERMISSION_LOCK_def PERMISSION_ADMIN_def push_bit_eq_mult)

lemma single_bit_test: "n < 32 \<Longrightarrow> m AND 2 ^ n \<noteq> 0 \<longleftrightarrow> bit m n" for m :: mask
  by (simp add: and_exp_eq_0_iff_not_bit)

lemma permission_bits:
  "m AND PERMISSION_READ \<noteq> 0 \<longleftrightarrow> bit m 0" "m AND PERMISSION_WRITE \<noteq> 0 \<longleftrightarrow> bit m 1"
  "m AND PERMISSION_LOCK \<noteq> 0 \<longleftrightarrow> bit m 2" "m AND PERMISSION_ADMIN \<noteq> 0 \<longleftrightarrow> bit m 16"
  using single_bit_test [of 0 m] single_bit_test [of 1 m] single_bit_test [of 2 m] single_bit_test [of 16 m]
  by (simp_all add: permission_values)

lemma power_bit: "k < 32 \<Longrightarrow> bit (2 ^ k :: mask) n \<longleftrightarrow> n = k"
  by (auto simp: bit_exp_iff)

lemma constant_bits:
  "bit (1 :: mask) n \<longleftrightarrow> n = 0" "bit (2 :: mask) n \<longleftrightarrow> n = 1" "bit (4 :: mask) n \<longleftrightarrow> n = 2"
  "bit (65536 :: mask) n \<longleftrightarrow> n = 16"
  using power_bit [of 0 n] power_bit [of 1 n] power_bit [of 2 n] power_bit [of 16 n] by simp_all

lemma known_bits_iff: "m AND NOT known_bits = 0 \<longleftrightarrow> (\<forall>n. bit m n \<longrightarrow> n \<in> {0, 1, 2, 16})"
proof -
  have k: "bit known_bits n \<longleftrightarrow> n \<in> {0, 1, 2, 16}" for n
    unfolding known_bits_def permission_values by (auto simp only: bit_or_iff constant_bits)
  have "m AND NOT known_bits = 0 \<longleftrightarrow> (\<forall>n. \<not> bit (m AND NOT known_bits) n)"
    by (metis bit_0_eq bit_eqI bot_apply bot_bool_def)
  also have "\<dots> \<longleftrightarrow> (\<forall>n. bit m n \<longrightarrow> n \<in> {0, 1, 2, 16})"
    using bit_imp_le_length [of m] by (auto simp: bit_and_iff bit_not_iff k)
  finally show ?thesis .
qed

lemma if_bit: "bit (if b then x else 0 :: mask) n \<longleftrightarrow> b \<and> bit x n"
  by simp

lemma mask_of_bits:
  assumes "m AND NOT known_bits = 0"
  shows "m = (if bit m 0 then 1 else 0) OR (if bit m 1 then 2 else 0) OR (if bit m 2 then 4 else 0) OR
    (if bit m 16 then 65536 else 0)"
proof (rule bit_word_eqI)
  fix n assume "n < LENGTH(32)"
  show "bit m n = bit ((if bit m 0 then 1 else 0) OR (if bit m 1 then 2 else 0) OR (if bit m 2 then 4 else 0) OR
    (if bit m 16 then 65536 else 0) :: mask) n"
    using assms unfolding known_bits_iff bit_or_iff if_bit constant_bits by auto
qed

text \<open>
  Writing a permission mask and reading it back gives the mask, for every non-empty
  combination of the four permissions; the empty mask is written \<open>none\<close>, which is not read as a
  permission.\<close>

theorem permission_roundtrip:
  assumes "m AND NOT known_bits = 0"
  shows "parsePermission (formatPermission m) = (if m = 0 then Inl (UnknownPermission ''none'') else Inr m)"
proof -
  have f: "formatPermission m = (let parts = (if bit m 0 then [''read''] else []) @
      (if bit m 1 then [''write''] else []) @ (if bit m 2 then [''lock''] else []) @
      (if bit m 16 then [''admin''] else []) in if parts \<noteq> [] then js_join '','' parts else ''none'')"
    by (simp add: formatPermission_def permission_bits)
  note parse = parsePermission_def add_permission_def permission_values js_toLowerCase_def js_lower_char_def
    js_trim_def js_is_space_def
  show ?thesis
    using mask_of_bits [OF assms] unfolding f
    by (cases "bit m 0"; cases "bit m 1"; cases "bit m 2"; cases "bit m 16") (simp_all add: parse)
qed

theorem permission_roundtrip_witness:
  "parsePermission (formatPermission (PERMISSION_READ OR PERMISSION_ADMIN)) = Inr (PERMISSION_READ OR PERMISSION_ADMIN)"
  using permission_roundtrip [of "PERMISSION_READ OR PERMISSION_ADMIN"]
  by (simp add: known_bits_def permission_values)

section \<open>Slugs\<close>

lemma dash_runs_chars: "c \<in> set (dash_runs b s) \<Longrightarrow> slug_char c \<or> c = CHR ''-''"
  by (induction b s rule: dash_runs.induct) (auto split: if_splits)

lemma strip_dashes_sub: "set (strip_dashes s) \<subseteq> set s"
  by (auto simp: strip_dashes_def dest!: set_dropWhileD)

lemma strip_dashes_ends:
  assumes "strip_dashes s \<noteq> []"
  shows "hd (strip_dashes s) \<noteq> CHR ''-''" "last (strip_dashes s) \<noteq> CHR ''-''"
proof -
  let ?P = "\<lambda>c. c = CHR ''-''"
  let ?a = "dropWhile ?P s"
  have l: "strip_dashes s = rev (dropWhile ?P (rev ?a))" by (simp add: strip_dashes_def)
  then have "last (strip_dashes s) = hd (dropWhile ?P (rev ?a))" using assms by (simp add: last_rev)
  then show "last (strip_dashes s) \<noteq> CHR ''-''" using assms hd_dropWhile [of ?P "rev ?a"] l by auto
  obtain zs where z: "?a = strip_dashes s @ zs"
    unfolding l by (metis append.right_neutral rev_append rev_rev_ident takeWhile_dropWhile_id)
  then have "?a \<noteq> []" "hd ?a = hd (strip_dashes s)" using assms by auto
  then show "hd (strip_dashes s) \<noteq> CHR ''-''" using hd_dropWhile [of ?P s] by auto
qed

lemma strip_dashes_id: "s \<noteq> [] \<Longrightarrow> hd s \<noteq> CHR ''-'' \<Longrightarrow> last s \<noteq> CHR ''-'' \<Longrightarrow> strip_dashes s = s"
proof -
  have dw: "xs \<noteq> [] \<Longrightarrow> \<not> P (hd xs) \<Longrightarrow> dropWhile P xs = xs" for P and xs :: string
    by (cases xs) auto
  assume "s \<noteq> []" "hd s \<noteq> CHR ''-''" "last s \<noteq> CHR ''-''"
  then show ?thesis by (simp add: strip_dashes_def dw hd_rev)
qed

text \<open>No two dashes in a row.\<close>

fun single_dashes :: "string \<Rightarrow> bool" where
  "single_dashes (a # b # s) \<longleftrightarrow> \<not> (a = CHR ''-'' \<and> b = CHR ''-'') \<and> single_dashes (b # s)"
| "single_dashes _ \<longleftrightarrow> True"

lemma single_dashes_append: "single_dashes (xs @ ys) \<Longrightarrow> single_dashes xs \<and> single_dashes ys"
  by (induction xs rule: single_dashes.induct; cases ys) auto

lemma slug_char_dash [simp]: "\<not> slug_char (CHR ''-'')"
  by (simp add: slug_char_def)

lemma dash_runs_head: "dash_runs True s = [] \<or> hd (dash_runs True s) \<noteq> CHR ''-''"
  by (induction s) auto

lemma dash_runs_single: "single_dashes (dash_runs b s)"
proof (induction b s rule: dash_runs.induct)
  case (2 b c cs)
  have "single_dashes (x # t)" if "single_dashes t" "t = [] \<or> x \<noteq> CHR ''-'' \<or> hd t \<noteq> CHR ''-''" for x t
    using that by (cases t) auto
  note cons = this
  show ?case
  proof (cases "slug_char c")
    case True
    then have "c \<noteq> CHR ''-''" using slug_char_dash by blast
    with True 2(1) cons show ?thesis by simp
  next
    case False
    with 2(2,3) cons dash_runs_head [of cs] show ?thesis by (cases b) simp_all
  qed
qed simp

lemma dash_runs_id:
  "single_dashes s \<Longrightarrow> \<forall>c \<in> set s. slug_char c \<or> c = CHR ''-'' \<Longrightarrow>
    dash_runs False s = s \<and> (s = [] \<or> hd s \<noteq> CHR ''-'' \<longrightarrow> dash_runs True s = s)"
proof (induction s)
  case (Cons c cs)
  have tl: "single_dashes cs" and next1: "c = CHR ''-'' \<Longrightarrow> cs = [] \<or> hd cs \<noteq> CHR ''-''"
    using Cons.prems(1) by (cases cs; simp)+
  have IH: "dash_runs False cs = cs" "cs = [] \<or> hd cs \<noteq> CHR ''-'' \<Longrightarrow> dash_runs True cs = cs"
    using Cons.IH [OF tl] Cons.prems(2) by auto
  show ?case
  proof (cases "slug_char c")
    case True
    with IH show ?thesis by simp
  next
    case False
    then have "c = CHR ''-''" using Cons.prems(2) by auto
    with IH next1 show ?thesis by simp
  qed
qed simp

lemma strip_dashes_single: "single_dashes s \<Longrightarrow> single_dashes (strip_dashes s)"
proof -
  assume "single_dashes s"
  then have "single_dashes (dropWhile (\<lambda>c. c = CHR ''-'') s)"
    by (metis single_dashes_append takeWhile_dropWhile_id)
  moreover obtain zs where "dropWhile (\<lambda>c. c = CHR ''-'') s = strip_dashes s @ zs"
    unfolding strip_dashes_def by (metis append.right_neutral rev_append rev_rev_ident takeWhile_dropWhile_id)
  ultimately show ?thesis by (metis single_dashes_append)
qed

lemma slugify_shape:
  "single_dashes (slugify v)" "c \<in> set (slugify v) \<Longrightarrow> slug_char c \<or> c = CHR ''-''"
  "slugify v \<noteq> [] \<Longrightarrow> hd (slugify v) \<noteq> CHR ''-'' \<and> last (slugify v) \<noteq> CHR ''-''"
  using strip_dashes_single [OF dash_runs_single] strip_dashes_sub dash_runs_chars strip_dashes_ends
  unfolding slugify_def by blast+

lemma slugify_pattern: "slugify v \<noteq> [] \<Longrightarrow> SLUG_PATTERN (slugify v)"
  using slugify_shape(2) [where v = v] slugify_shape(3) [of v]
  by (cases "slugify v") (auto simp: SLUG_PATTERN_def list_all_iff)

lemma slug_char_plain: "slug_char c \<or> c = CHR ''-'' \<Longrightarrow> js_lower_char c = c \<and> \<not> js_is_space c"
  by (auto simp: slug_char_def js_lower_char_def js_is_space_def Let_def)

lemma slugify_id:
  assumes "single_dashes s" and "\<forall>c \<in> set s. slug_char c \<or> c = CHR ''-''"
    and "s \<noteq> [] \<longrightarrow> hd s \<noteq> CHR ''-'' \<and> last s \<noteq> CHR ''-''"
  shows "slugify s = s"
proof (cases "s = []")
  case True
  then show ?thesis by (simp add: slugify_def js_trim_def js_toLowerCase_def strip_dashes_def)
next
  case False
  have dw: "dropWhile js_is_space t = t" if "\<forall>c \<in> set t. \<not> js_is_space c" for t
    using that by (cases t) auto
  have "js_trim s = s" using assms(2) slug_char_plain by (simp add: js_trim_def dw)
  moreover have "js_toLowerCase s = s"
    using assms(2) slug_char_plain by (auto simp: js_toLowerCase_def intro!: map_idI)
  ultimately show ?thesis
    using assms False dash_runs_id strip_dashes_id by (simp add: slugify_def)
qed

text \<open>
  The slug suggested for a name is empty or accepted by the pattern, and suggesting a
  slug for a slug changes nothing.\<close>

theorem slugify_well_formed:
  "slugify (slugify v) = slugify v \<and> (slugify v = [] \<or> SLUG_PATTERN (slugify v))"
  using slugify_id slugify_shape slugify_pattern by blast

text \<open>The segments of a route.\<close>

definition route_parts :: "string \<Rightarrow> string list" where
  "route_parts r = (if r = ''*'' then [''*''] else tl (js_split (CHR ''/'') r))"

text \<open>The routes whose first, and whose second segment is a literal.\<close>

definition first_literals :: "string list" where
  "first_literals = filter (\<lambda>s. \<not> js_startsWith s '':'' \<and> s \<noteq> ''*'' \<and> s \<noteq> []) (map (hd \<circ> route_parts) app_routes)"

definition second_literals :: "string list" where
  "second_literals =
     filter (\<lambda>s. \<not> js_startsWith s '':'' \<and> s \<noteq> [])
       (map (\<lambda>r. case route_parts r of a # b # _ \<Rightarrow> if a = '':org'' then b else [] | _ \<Rightarrow> []) app_routes)"

text \<open>
  An organization whose slug the form accepts is never shadowed by a page of the
  application, and neither is a project in it: no literal first segment of a route is an accepted
  organization slug, and no literal second segment an accepted project slug.\<close>

theorem accepted_slugs_do_not_shadow_pages:
  "(slugMessage slug RESERVED_ORG_SLUGS = None \<longrightarrow> slug \<notin> set first_literals) \<and>
   (slugMessage slug RESERVED_PROJECT_SLUGS = None \<longrightarrow> slug \<notin> set second_literals)"
proof -
  have "list_all (\<lambda>s. List.member RESERVED_ORG_SLUGS s) first_literals"
    "list_all (\<lambda>s. List.member RESERVED_PROJECT_SLUGS s) second_literals"
    by code_simp+
  then show ?thesis by (auto simp: slugMessage_def list_all_iff split: if_splits)
qed

theorem accepted_slugs_do_not_shadow_pages_witness:
  "slugMessage ''acme'' RESERVED_ORG_SLUGS = None \<and> ''acme'' \<notin> set first_literals"
proof -
  have "slugMessage ''acme'' RESERVED_ORG_SLUGS = None"
    by (simp add: slugMessage_def SLUG_PATTERN_def slug_char_def RESERVED_ORG_SLUGS_def)
  with accepted_slugs_do_not_shadow_pages [of "''acme''"] show ?thesis by simp
qed

end
