(* ===== verification/Paging.thy ===== *)
theory Paging
  imports Js_Prelude Web_Models Endpoints
begin

text \<open>
  Loading data in the web client: \<open>useAsync\<close>, \<open>usePaged\<close> and \<open>sliceCursorPage\<close> of \<open>hooks.ts\<close>,
  \<open>LoadMore.tsx\<close>, and the merge request list of \<open>MergeRequestsPage.tsx\<close>, which pages by itself. A
  step of the model is one thing that happens to a mounted hook together with the effects React runs
  for it: a render with other dependencies, a reload, a click, or the settlement of one of the calls
  in flight, in any order. The server is a parameter; the outcome of a call is the message of its
  error or its result.
\<close>

section \<open>One load\<close>

type_synonym 'a outcome = "string + 'a"

text \<open>
  The state of \<open>useAsync\<close>: its four \<open>useState\<close> cells, the dependencies of the last render, the
  dependencies under which every call of \<open>fn\<close> was made, and the call whose \<open>active\<close> flag is set.
\<close>

record ('d, 'a) AsyncState =
  as_data :: "'a option"
  as_error :: "string option"
  as_loading :: bool
  as_nonce :: nat
  as_deps :: 'd
  as_calls :: "'d list"
  as_active :: "nat option"

definition useAsync_effect :: "('d, 'a) AsyncState \<Rightarrow> ('d, 'a) AsyncState" where
  "useAsync_effect s = s\<lparr>as_loading := True, as_error := None,
     as_active := Some (length (as_calls s)), as_calls := as_calls s @ [as_deps s]\<rparr>"

definition useAsync_mount :: "'d \<Rightarrow> ('d, 'a) AsyncState" where
  "useAsync_mount d = useAsync_effect \<lparr>as_data = None, as_error = None, as_loading = True, as_nonce = 0,
     as_deps = d, as_calls = [], as_active = None\<rparr>"

definition useAsync_render :: "'d \<Rightarrow> ('d, 'a) AsyncState \<Rightarrow> ('d, 'a) AsyncState" where
  "useAsync_render d s = (if d = as_deps s then s else useAsync_effect (s\<lparr>as_deps := d\<rparr>))"

definition useAsync_reload :: "('d, 'a) AsyncState \<Rightarrow> ('d, 'a) AsyncState" where
  "useAsync_reload s = useAsync_effect (s\<lparr>as_nonce := as_nonce s + 1\<rparr>)"

definition useAsync_settle :: "nat \<Rightarrow> 'a outcome \<Rightarrow> ('d, 'a) AsyncState \<Rightarrow> ('d, 'a) AsyncState" where
  "useAsync_settle i r s =
     (if as_active s = Some i then
        (case r of
           Inr result \<Rightarrow> s\<lparr>as_data := Some result, as_loading := False\<rparr>
         | Inl err \<Rightarrow> s\<lparr>as_error := Some err, as_loading := False\<rparr>)
      else s)"

definition useAsync_unmount :: "('d, 'a) AsyncState \<Rightarrow> ('d, 'a) AsyncState" where
  "useAsync_unmount s = s\<lparr>as_active := None\<rparr>"

section \<open>Pages\<close>

record ('t, 'c) PageResult =
  pg_items :: "'t list"
  pg_next :: "'c option"

text \<open>A call of \<open>fetchPage\<close> by \<open>loadMore\<close>, with what its closure captured.\<close>

record ('d, 'c) MoreCall =
  mc_id :: nat
  mc_deps :: 'd
  mc_cursor :: 'c
  mc_generation :: nat

record ('d, 't, 'c) Paged =
  pd_first :: "('d, ('t, 'c) PageResult) AsyncState"
  pd_more :: "('t, 'c) PageResult option"
  pd_loadingMore :: bool
  pd_moreError :: "string option"
  pd_generation :: nat
  pd_flight :: "('d, 'c) MoreCall list"
  pd_fresh :: nat

definition usePaged_mount :: "'d \<Rightarrow> ('d, 't, 'c) Paged" where
  "usePaged_mount d = \<lparr>pd_first = useAsync_mount d, pd_more = None, pd_loadingMore = False, pd_moreError = None,
     pd_generation = 1, pd_flight = [], pd_fresh = 0\<rparr>"

definition usePaged_render :: "'d \<Rightarrow> ('d, 't, 'c) Paged \<Rightarrow> ('d, 't, 'c) Paged" where
  "usePaged_render d s =
     (if d = as_deps (pd_first s) then s
      else s\<lparr>pd_first := useAsync_render d (pd_first s), pd_generation := pd_generation s + 1,
             pd_loadingMore := False\<rparr>)"

definition usePaged_reload :: "('d, 't, 'c) Paged \<Rightarrow> ('d, 't, 'c) Paged" where
  "usePaged_reload s = s\<lparr>pd_first := useAsync_reload (pd_first s)\<rparr>"

text \<open>
  The first page settles. A result of the active call replaces \<open>first.data\<close> by a new object, so the
  effect on \<open>[first.data]\<close> runs.
\<close>

definition usePaged_first_settled ::
  "nat \<Rightarrow> ('t, 'c) PageResult outcome \<Rightarrow> ('d, 't, 'c) Paged \<Rightarrow> ('d, 't, 'c) Paged" where
  "usePaged_first_settled i r s =
     (let t = s\<lparr>pd_first := useAsync_settle i r (pd_first s)\<rparr> in
      case r of
        Inr _ \<Rightarrow> if as_active (pd_first s) = Some i then t\<lparr>pd_more := None, pd_moreError := None\<rparr> else t
      | Inl _ \<Rightarrow> t)"

definition paged_next :: "('d, 't, 'c) Paged \<Rightarrow> 'c option" where
  "paged_next s = (case pd_more s of
     Some m \<Rightarrow> pg_next m
   | None \<Rightarrow> Option.bind (as_data (pd_first s)) pg_next)"

definition paged_items :: "('d, 't, 'c) Paged \<Rightarrow> 't list" where
  "paged_items s =
     (case as_data (pd_first s) of Some p \<Rightarrow> pg_items p | None \<Rightarrow> []) @
     (case pd_more s of Some m \<Rightarrow> pg_items m | None \<Rightarrow> [])"

definition usePaged_loadMore :: "('d, 't, 'c) Paged \<Rightarrow> ('d, 't, 'c) Paged" where
  "usePaged_loadMore s = (case paged_next s of
     None \<Rightarrow> s
   | Some c \<Rightarrow>
       if pd_loadingMore s then s
       else s\<lparr>pd_loadingMore := True, pd_moreError := None,
              pd_flight := pd_flight s @ [\<lparr>mc_id = pd_fresh s, mc_deps = as_deps (pd_first s), mc_cursor = c,
                                          mc_generation = pd_generation s\<rparr>],
              pd_fresh := pd_fresh s + 1\<rparr>)"

text \<open>A call of \<open>loadMore\<close> settles: the code after \<open>await fetchPage(next)\<close>.\<close>

definition usePaged_more_settled ::
  "('d, 'c) MoreCall \<Rightarrow> ('t, 'c) PageResult outcome \<Rightarrow> ('d, 't, 'c) Paged \<Rightarrow> ('d, 't, 'c) Paged" where
  "usePaged_more_settled call r s =
     (let t = s\<lparr>pd_flight := filter (\<lambda>m. mc_id m \<noteq> mc_id call) (pd_flight s)\<rparr> in
      if pd_generation s \<noteq> mc_generation call then t
      else case r of
        Inr page \<Rightarrow> t\<lparr>pd_more := Some \<lparr>pg_items = (case pd_more s of Some m \<Rightarrow> pg_items m | None \<Rightarrow> []) @ pg_items page,
                                        pg_next = pg_next page\<rparr>, pd_loadingMore := False\<rparr>
      | Inl err \<Rightarrow> t\<lparr>pd_moreError := Some err, pd_loadingMore := False\<rparr>)"

record 't PagedView =
  pv_items :: "'t list"
  pv_loading :: bool
  pv_error :: "string option"
  pv_hasMore :: bool
  pv_loadingMore :: bool

definition usePaged :: "('d, 't, 'c) Paged \<Rightarrow> 't PagedView" where
  "usePaged s = \<lparr>pv_items = paged_items s, pv_loading = as_loading (pd_first s),
     pv_error = (case as_error (pd_first s) of Some e \<Rightarrow> Some e | None \<Rightarrow> pd_moreError s),
     pv_hasMore = (paged_next s \<noteq> None), pv_loadingMore = pd_loadingMore s\<rparr>"

definition sliceCursorPage :: "'t list \<Rightarrow> nat \<Rightarrow> ('t list \<Rightarrow> 'c) \<Rightarrow> ('t, 'c) PageResult" where
  "sliceCursorPage rows limit cursorOf =
     (if length rows \<le> limit then \<lparr>pg_items = rows, pg_next = None\<rparr>
      else \<lparr>pg_items = take limit rows, pg_next = Some (cursorOf rows)\<rparr>)"

text \<open>The button, if any, and whether it shows a spinner.\<close>

definition LoadMore :: "bool \<Rightarrow> bool \<Rightarrow> bool option" where
  "LoadMore hasMore loading = (if \<not> hasMore then None else Some loading)"

section \<open>The latest call wins\<close>

text \<open>
  What can happen to \<open>useAsync\<close>; \<open>answer i d\<close> is the outcome of the \<open>i\<close>-th call, made under the
  dependencies \<open>d\<close>.
\<close>

inductive async_reach :: "(nat \<Rightarrow> 'd \<Rightarrow> 'a outcome) \<Rightarrow> ('d, 'a) AsyncState \<Rightarrow> bool"
  for answer where
  mount: "async_reach answer (useAsync_mount d)"
| render: "async_reach answer s \<Longrightarrow> async_reach answer (useAsync_render d s)"
| reload: "async_reach answer s \<Longrightarrow> async_reach answer (useAsync_reload s)"
| settle: "async_reach answer s \<Longrightarrow> i < length (as_calls s) \<Longrightarrow>
    async_reach answer (useAsync_settle i (answer i (as_calls s ! i)) s)"

definition async_inv :: "(nat \<Rightarrow> 'd \<Rightarrow> 'a outcome) \<Rightarrow> ('d, 'a) AsyncState \<Rightarrow> bool" where
  "async_inv answer s \<longleftrightarrow>
     as_calls s \<noteq> [] \<and> as_active s = Some (length (as_calls s) - 1) \<and> last (as_calls s) = as_deps s \<and>
     (as_loading s \<longrightarrow> as_error s = None) \<and>
     (\<not> as_loading s \<longrightarrow>
        (case answer (length (as_calls s) - 1) (as_deps s) of
           Inr v \<Rightarrow> as_data s = Some v \<and> as_error s = None
         | Inl e \<Rightarrow> as_error s = Some e))"

lemma async_inv_effect: "async_inv answer (useAsync_effect s)"
  by (simp add: async_inv_def useAsync_effect_def)

lemma async_inv_settle:
  assumes "async_inv answer s" and "i < length (as_calls s)"
  shows "async_inv answer (useAsync_settle i (answer i (as_calls s ! i)) s)"
proof (cases "as_active s = Some i")
  case True
  with assms have "i = length (as_calls s) - 1" "as_calls s ! i = as_deps s"
    by (auto simp: async_inv_def last_conv_nth)
  with assms show ?thesis
    by (auto simp: async_inv_def useAsync_settle_def split: sum.splits)
qed (simp add: useAsync_settle_def assms)

lemma async_reach_inv: "async_reach answer s \<Longrightarrow> async_inv answer s"
  by (induction rule: async_reach.induct)
    (auto simp: useAsync_mount_def useAsync_render_def useAsync_reload_def async_inv_effect async_inv_settle)

text \<open>
  Property C25. However renders, reloads and settlements interleave, a component that is not loading
  shows the outcome of the last call, and that call was made with the current dependencies: answers
  to earlier calls that arrive late are dropped. The settlement of the last call ends the loading.\<close>

theorem latest_call_wins:
  assumes "async_reach answer s"
  shows "(\<not> as_loading s \<longrightarrow> (case answer (length (as_calls s) - 1) (as_deps s) of
            Inr v \<Rightarrow> as_data s = Some v \<and> as_error s = None
          | Inl e \<Rightarrow> as_error s = Some e)) \<and>
    \<not> as_loading (useAsync_settle (length (as_calls s) - 1) r s) \<and>
    (i < length (as_calls s) - 1 \<longrightarrow> useAsync_settle i r s = s)"
  using async_reach_inv [OF assms]
  by (auto simp: async_inv_def useAsync_settle_def split: sum.splits)

definition demo_answer :: "nat \<Rightarrow> string \<Rightarrow> string outcome" where
  "demo_answer i d = Inr (d @ ''!'')"

text \<open>Two renders; the answer to the second call arrives before the answer to the first.\<close>

theorem latest_call_wins_witness:
  "as_data (useAsync_settle 0 (Inr ''a!'') (useAsync_settle 1 (Inr ''b!'') (useAsync_render ''b'' (useAsync_mount ''a''))))
     = Some ''b!''"
proof -
  let ?s1 = "useAsync_render ''b'' (useAsync_mount ''a'') :: (string, string) AsyncState"
  let ?s2 = "useAsync_settle 1 (Inr ''b!'') ?s1"
  have calls: "as_calls ?s1 = [''a'', ''b'']" "as_deps ?s1 = ''b''"
    by (simp_all add: useAsync_render_def useAsync_mount_def useAsync_effect_def)
  have s2: "as_calls ?s2 = [''a'', ''b'']" "as_deps ?s2 = ''b''" "\<not> as_loading ?s2"
    by (simp_all add: useAsync_settle_def useAsync_render_def useAsync_mount_def useAsync_effect_def)
  have "async_reach demo_answer ?s1"
    by (intro async_reach.render async_reach.mount)
  from async_reach.settle [OF this, of 1] have "async_reach demo_answer ?s2"
    by (simp add: calls demo_answer_def)
  from latest_call_wins [OF this, of "Inr ''a!''" 0] show ?thesis
    by (simp add: s2 [unfolded One_nat_def] demo_answer_def)
qed

section \<open>The list is a prefix of the server's list\<close>

text \<open>The first \<open>n + 1\<close> pages of the server's list, by following the cursors, and the next cursor.\<close>

fun page_chain :: "('d \<Rightarrow> 'c option \<Rightarrow> ('t, 'c) PageResult) \<Rightarrow> 'd \<Rightarrow> nat \<Rightarrow> 't list \<times> 'c option" where
  "page_chain srv d 0 = (pg_items (srv d None), pg_next (srv d None))"
| "page_chain srv d (Suc n) = (case page_chain srv d n of
     (its, None) \<Rightarrow> (its, None)
   | (its, Some c) \<Rightarrow> (its @ pg_items (srv d (Some c)), pg_next (srv d (Some c))))"

definition first_shown :: "('d, 't, 'c) Paged \<Rightarrow> bool" where
  "first_shown s \<longleftrightarrow> \<not> as_loading (pd_first s) \<and> as_error (pd_first s) = None"

text \<open>
  What can happen to a list, in any order: the pages offer \<open>loadMore\<close> whenever there is a cursor, also
  while the first page is loading or has failed, and \<open>reload\<close> at any time. The server answers with its
  pages or fails; a promise settles once, so the active call settles only while the hook is loading. The
  flag records whether the list is undisturbed. It is set when a list starts: by mounting, by other
  dependencies, or by a reload while no further page is on its way. It is lost by a reload that
  overtakes a further page, and by asking for a further page before the first one is shown.
\<close>

inductive paged_reach :: "('d \<Rightarrow> 'c option \<Rightarrow> ('t, 'c) PageResult) \<Rightarrow> bool \<Rightarrow> ('d, 't, 'c) Paged \<Rightarrow> bool"
  for srv where
  mount: "paged_reach srv True (usePaged_mount d)"
| render: "paged_reach srv calm s \<Longrightarrow> paged_reach srv (calm \<or> d \<noteq> as_deps (pd_first s)) (usePaged_render d s)"
| reload: "paged_reach srv calm s \<Longrightarrow> paged_reach srv (\<not> pd_loadingMore s) (usePaged_reload s)"
| first: "paged_reach srv calm s \<Longrightarrow> i < length (as_calls (pd_first s)) \<Longrightarrow>
    as_active (pd_first s) = Some i \<longrightarrow> as_loading (pd_first s) \<Longrightarrow>
    r = Inr (srv (as_calls (pd_first s) ! i) None) \<or> (\<exists>e. r = Inl e) \<Longrightarrow>
    paged_reach srv calm (usePaged_first_settled i r s)"
| loadMore: "paged_reach srv calm s \<Longrightarrow>
    paged_reach srv (calm \<and> (first_shown s \<or> usePaged_loadMore s = s)) (usePaged_loadMore s)"
| more: "paged_reach srv calm s \<Longrightarrow> call \<in> set (pd_flight s) \<Longrightarrow>
    r = Inr (srv (mc_deps call) (Some (mc_cursor call))) \<or> (\<exists>e. r = Inl e) \<Longrightarrow>
    paged_reach srv calm (usePaged_more_settled call r s)"

text \<open>The calls whose page will be accepted.\<close>

definition live_calls :: "('d, 't, 'c) Paged \<Rightarrow> ('d, 'c) MoreCall list" where
  "live_calls s = filter (\<lambda>m. mc_generation m = pd_generation s) (pd_flight s)"

text \<open>The pages at a list of cursors, and the cursor behind the last of them.\<close>

definition pages_at :: "('d \<Rightarrow> 'c option \<Rightarrow> ('t, 'c) PageResult) \<Rightarrow> 'd \<Rightarrow> 'c list \<Rightarrow> 't list \<times> 'c option" where
  "pages_at srv d cs = (concat (map (\<lambda>c. pg_items (srv d c)) (None # map Some cs)), pg_next (srv d (last (None # map Some cs))))"

text \<open>
  In every state the further page on its way, if any, was asked for under the current dependencies, and
  a list that is shown is made of pages for these dependencies. If the list is undisturbed, a further page is only on its
  way behind the last page shown, and the pages shown are those one gets by following the cursors.
\<close>

definition flight_inv :: "('d, 't, 'c) Paged \<Rightarrow> bool" where
  "flight_inv s \<longleftrightarrow>
     as_calls (pd_first s) \<noteq> [] \<and> as_active (pd_first s) = Some (length (as_calls (pd_first s)) - 1) \<and>
     last (as_calls (pd_first s)) = as_deps (pd_first s) \<and>
     distinct (map mc_id (pd_flight s)) \<and> (\<forall>m \<in> set (pd_flight s). mc_id m < pd_fresh s) \<and>
     (\<forall>m \<in> set (pd_flight s). mc_generation m \<le> pd_generation s) \<and>
     (if pd_loadingMore s then \<exists>m. live_calls s = [m] \<and> mc_deps m = as_deps (pd_first s) else live_calls s = [])"

definition shown_inv :: "('d \<Rightarrow> 'c option \<Rightarrow> ('t, 'c) PageResult) \<Rightarrow> ('d, 't, 'c) Paged \<Rightarrow> bool" where
  "shown_inv srv s \<longleftrightarrow> (first_shown s \<longrightarrow> (\<exists>cs. (paged_items s, paged_next s) = pages_at srv (as_deps (pd_first s)) cs))"

definition calm_inv :: "('d \<Rightarrow> 'c option \<Rightarrow> ('t, 'c) PageResult) \<Rightarrow> ('d, 't, 'c) Paged \<Rightarrow> bool" where
  "calm_inv srv s \<longleftrightarrow>
     (pd_loadingMore s \<longrightarrow> first_shown s \<and> (\<forall>m \<in> set (live_calls s). paged_next s = Some (mc_cursor m))) \<and>
     (first_shown s \<longrightarrow> (\<exists>n. (paged_items s, paged_next s) = page_chain srv (as_deps (pd_first s)) n))"

definition paged_inv :: "('d \<Rightarrow> 'c option \<Rightarrow> ('t, 'c) PageResult) \<Rightarrow> bool \<Rightarrow> ('d, 't, 'c) Paged \<Rightarrow> bool" where
  "paged_inv srv calm s \<longleftrightarrow> flight_inv s \<and> shown_inv srv s \<and> (calm \<longrightarrow> calm_inv srv s)"

lemmas paged_inv_defs = paged_inv_def flight_inv_def shown_inv_def calm_inv_def first_shown_def live_calls_def

lemmas paged_state_defs = useAsync_effect_def useAsync_render_def useAsync_reload_def useAsync_settle_def
  usePaged_render_def usePaged_reload_def

lemma paged_inv_mount: "paged_inv srv True (usePaged_mount d)"
  by (simp add: paged_inv_defs usePaged_mount_def useAsync_mount_def useAsync_effect_def)

lemma no_live: "(\<forall>m \<in> set ms. mc_generation m \<le> g) \<Longrightarrow> filter (\<lambda>m. mc_generation m = Suc g) ms = []"
  by (auto simp: filter_empty_conv)

lemma paged_inv_render:
  "paged_inv srv calm s \<Longrightarrow> paged_inv srv (calm \<or> d \<noteq> as_deps (pd_first s)) (usePaged_render d s)"
  by (auto simp: paged_inv_defs usePaged_render_def useAsync_render_def useAsync_effect_def no_live le_SucI)

lemma paged_inv_reload: "paged_inv srv calm s \<Longrightarrow> paged_inv srv (\<not> pd_loadingMore s) (usePaged_reload s)"
  by (auto simp: paged_inv_defs usePaged_reload_def useAsync_reload_def useAsync_effect_def)

lemma paged_inv_first:
  assumes "paged_inv srv calm s" and "i < length (as_calls (pd_first s))"
    and once: "as_active (pd_first s) = Some i \<longrightarrow> as_loading (pd_first s)"
    and "r = Inr (srv (as_calls (pd_first s) ! i) None) \<or> (\<exists>e. r = Inl e)"
  shows "paged_inv srv calm (usePaged_first_settled i r s)"
proof (cases "as_active (pd_first s) = Some i")
  case True
  with assms have i: "as_calls (pd_first s) ! i = as_deps (pd_first s)"
    by (auto simp: paged_inv_def flight_inv_def last_conv_nth)
  from True once have load: "as_loading (pd_first s)" by simp
  show ?thesis
  proof (cases r)
    case (Inl e)
    with True load assms(1) show ?thesis
      by (auto simp: paged_inv_defs usePaged_first_settled_def useAsync_settle_def)
  next
    case (Inr p)
    with assms(4) i have p: "p = srv (as_deps (pd_first s)) None" by auto
    let ?t = "usePaged_first_settled i r s"
    have t: "(paged_items ?t, paged_next ?t) = (pg_items p, pg_next p)" "as_deps (pd_first ?t) = as_deps (pd_first s)"
      using Inr True by (simp_all add: usePaged_first_settled_def useAsync_settle_def paged_items_def paged_next_def)
    have "shown_inv srv ?t"
      unfolding shown_inv_def t by (auto simp: pages_at_def p intro: exI [of _ "[]"])
    moreover have "\<exists>n. (paged_items ?t, paged_next ?t) = page_chain srv (as_deps (pd_first ?t)) n"
      unfolding t by (rule exI [of _ 0]) (simp add: p)
    moreover have "flight_inv ?t" "calm \<longrightarrow> \<not> pd_loadingMore ?t"
      using Inr True load assms(1) by (auto simp: paged_inv_defs usePaged_first_settled_def useAsync_settle_def)
    ultimately show ?thesis by (auto simp: paged_inv_def calm_inv_def)
  qed
next
  case False
  then have "usePaged_first_settled i r s = s"
    by (simp add: usePaged_first_settled_def useAsync_settle_def split: sum.splits)
  with assms show ?thesis by simp
qed

lemma paged_inv_loadMore:
  assumes inv: "paged_inv srv calm s"
  shows "paged_inv srv (calm \<and> (first_shown s \<or> usePaged_loadMore s = s)) (usePaged_loadMore s)"
proof (cases "usePaged_loadMore s = s")
  case True
  with inv show ?thesis by simp
next
  case False
  then obtain c where c: "paged_next s = Some c" "\<not> pd_loadingMore s"
    by (auto simp: usePaged_loadMore_def split: option.splits if_splits)
  let ?t = "usePaged_loadMore s"
  have t: "paged_next ?t = Some c" "paged_items ?t = paged_items s" "pd_first ?t = pd_first s" "pd_loadingMore ?t"
    "first_shown ?t = first_shown s"
    using c by (simp_all add: usePaged_loadMore_def paged_next_def paged_items_def first_shown_def cong: option.case_cong)
  have l: "live_calls ?t = [\<lparr>mc_id = pd_fresh s, mc_deps = as_deps (pd_first s), mc_cursor = c,
      mc_generation = pd_generation s\<rparr>]"
    using c inv by (simp add: usePaged_loadMore_def paged_inv_defs)
  have "distinct (map mc_id (pd_flight ?t))" "\<forall>m \<in> set (pd_flight ?t). mc_id m < pd_fresh ?t"
    "\<forall>m \<in> set (pd_flight ?t). mc_generation m \<le> pd_generation ?t"
    using c inv by (auto simp: usePaged_loadMore_def paged_inv_def flight_inv_def less_SucI)
  then have "flight_inv ?t" using inv t l by (simp add: paged_inv_def flight_inv_def)
  moreover have "shown_inv srv ?t" using inv t c by (simp add: paged_inv_def shown_inv_def)
  moreover have "calm_inv srv ?t" if "calm" "first_shown s"
    using inv t c l that by (simp add: paged_inv_def calm_inv_def)
  ultimately show ?thesis using False by (simp add: paged_inv_def)
qed

lemma live_after_settle:
  "filter (\<lambda>m. mc_generation m = pd_generation s) (filter (\<lambda>m. mc_id m \<noteq> mc_id call) (pd_flight s)) =
    filter (\<lambda>m. mc_id m \<noteq> mc_id call) (live_calls s)"
  by (simp add: live_calls_def conj_commute)

lemma pages_at_snoc:
  "pages_at srv d (cs @ [c]) = (fst (pages_at srv d cs) @ pg_items (srv d (Some c)), pg_next (srv d (Some c)))"
  by (simp add: pages_at_def)

text \<open>A further page that is accepted: only the current one can be, and it is appended.\<close>

lemma more_accepted:
  fixes r and s
  assumes inv: "paged_inv srv calm s" and call: "call \<in> set (pd_flight s)" and gen: "mc_generation call = pd_generation s"
  defines "t \<equiv> usePaged_more_settled call r s"
  shows "flight_inv t" "pd_loadingMore s" "live_calls s = [call]" "mc_deps call = as_deps (pd_first s)" "\<not> pd_loadingMore t"
    "pd_first t = pd_first s" "first_shown t = first_shown s"
    "r = Inl e \<Longrightarrow> (paged_items t, paged_next t) = (paged_items s, paged_next s)"
    "r = Inr p \<Longrightarrow> (paged_items t, paged_next t) = (paged_items s @ pg_items p, pg_next p)"
proof -
  have "call \<in> set (live_calls s)" using call gen by (simp add: live_calls_def)
  then show live: "pd_loadingMore s" "live_calls s = [call]" "mc_deps call = as_deps (pd_first s)"
    using inv by (auto simp: paged_inv_def flight_inv_def split: if_splits)
  show t: "\<not> pd_loadingMore t" "pd_first t = pd_first s" "first_shown t = first_shown s"
    using gen by (cases r; simp add: t_def usePaged_more_settled_def first_shown_def)+
  have "live_calls t = []" "distinct (map mc_id (pd_flight t))" "\<forall>m \<in> set (pd_flight t). mc_id m < pd_fresh t"
    "\<forall>m \<in> set (pd_flight t). mc_generation m \<le> pd_generation t"
    using inv gen live_after_settle [of s call] live
    by (cases r; simp add: t_def usePaged_more_settled_def paged_inv_def flight_inv_def live_calls_def distinct_map_filter)+
  then show "flight_inv t" using inv t by (simp add: paged_inv_def flight_inv_def)
  show "(paged_items t, paged_next t) = (paged_items s, paged_next s)" if "r = Inl e"
    using gen that by (simp add: t_def usePaged_more_settled_def paged_items_def paged_next_def cong: option.case_cong)
  show "(paged_items t, paged_next t) = (paged_items s @ pg_items p, pg_next p)" if "r = Inr p"
    using gen that by (simp add: t_def usePaged_more_settled_def paged_items_def paged_next_def split: option.splits)
qed

lemma more_dropped:
  assumes inv: "paged_inv srv calm s" and call: "call \<in> set (pd_flight s)" and gen: "mc_generation call \<noteq> pd_generation s"
  shows "paged_inv srv calm (usePaged_more_settled call r s)"
proof -
  let ?t = "usePaged_more_settled call r s"
  have t: "?t = s\<lparr>pd_flight := filter (\<lambda>m. mc_id m \<noteq> mc_id call) (pd_flight s)\<rparr>"
    using gen by (simp add: usePaged_more_settled_def)
  have "mc_id m \<noteq> mc_id call" if "m \<in> set (live_calls s)" for m
    using that gen inv call unfolding paged_inv_def flight_inv_def live_calls_def distinct_map by (auto dest: inj_onD)
  then have "filter (\<lambda>m. mc_id m \<noteq> mc_id call) (live_calls s) = live_calls s" by simp
  then have "live_calls ?t = live_calls s"
    using live_after_settle [of s call] t by (simp add: live_calls_def)
  moreover have "paged_items ?t = paged_items s" "paged_next ?t = paged_next s" "first_shown ?t = first_shown s"
    by (simp_all add: t paged_items_def paged_next_def first_shown_def cong: option.case_cong)
  ultimately show ?thesis
    using inv unfolding paged_inv_def flight_inv_def shown_inv_def calm_inv_def by (auto simp: t distinct_map_filter)
qed

lemma paged_inv_more:
  assumes inv: "paged_inv srv calm s" and call: "call \<in> set (pd_flight s)"
    and r: "r = Inr (srv (mc_deps call) (Some (mc_cursor call))) \<or> (\<exists>e. r = Inl e)"
  shows "paged_inv srv calm (usePaged_more_settled call r s)"
proof (cases "mc_generation call = pd_generation s")
  case True
  let ?t = "usePaged_more_settled call r s" and ?d = "as_deps (pd_first s)"
  note acc = more_accepted [OF inv call True]
  have page: "(paged_items ?t, paged_next ?t) = (paged_items s, paged_next s) \<or>
      (paged_items ?t, paged_next ?t) = (paged_items s @ pg_items (srv ?d (Some (mc_cursor call))), pg_next (srv ?d (Some (mc_cursor call))))"
    using r acc(4,8,9) by fastforce
  have "shown_inv srv ?t"
    unfolding shown_inv_def acc(6,7)
  proof
    assume "first_shown s"
    then obtain cs where cs: "(paged_items s, paged_next s) = pages_at srv ?d cs" using inv by (auto simp: paged_inv_def shown_inv_def)
    then have "fst (pages_at srv ?d cs) = paged_items s" by (metis fst_conv)
    then show "\<exists>cs. (paged_items ?t, paged_next ?t) = pages_at srv ?d cs"
      using page cs pages_at_snoc [of srv ?d cs "mc_cursor call"] by metis
  qed
  moreover have "calm_inv srv ?t" if calm
  proof -
    have nx: "paged_next s = Some (mc_cursor call)" and sh: "first_shown s"
      using inv that acc(2,3) by (auto simp: paged_inv_def calm_inv_def)
    then obtain n where n: "page_chain srv ?d n = (paged_items s, Some (mc_cursor call))"
      using inv \<open>calm\<close> by (auto simp: paged_inv_def calm_inv_def)
    have "page_chain srv ?d (Suc n) =
        (paged_items s @ pg_items (srv ?d (Some (mc_cursor call))), pg_next (srv ?d (Some (mc_cursor call))))"
      by (simp add: n)
    then show ?thesis using page n nx acc(5,6) unfolding calm_inv_def by metis
  qed
  ultimately show ?thesis using acc(1) by (simp add: paged_inv_def)
qed (rule more_dropped [OF inv call])

lemma paged_reach_inv: "paged_reach srv calm s \<Longrightarrow> paged_inv srv calm s"
  by (induction rule: paged_reach.induct)
    (blast intro: paged_inv_mount paged_inv_render paged_inv_reload paged_inv_first paged_inv_loadMore paged_inv_more)+

text \<open>
  Property C7. For every interleaving of renders, reloads, clicks, answers and failures, a list whose
  first page is shown consists of that page and of further pages for the current dependencies: no page
  of a list with other dependencies is ever mixed in, and more is offered exactly if the last of these
  pages has a cursor. If moreover the list is undisturbed, the pages are the first ones of the server's
  list in order, none skipped or repeated: those one gets by following the cursors from the start. A
  list is undisturbed if, since it was mounted, got its dependencies or was reloaded while no further
  page was on its way, it was not reloaded while one was, and none was asked for before the first page
  was shown.\<close>

theorem paged_list_is_prefix:
  assumes "paged_reach srv calm s" and "\<not> pv_loading (usePaged s)" and "as_error (pd_first s) = None"
  shows "(\<exists>cs. let ps = map (srv (as_deps (pd_first s))) (None # map Some cs)
               in pv_items (usePaged s) = concat (map pg_items ps) \<and> (pv_hasMore (usePaged s) \<longleftrightarrow> pg_next (last ps) \<noteq> None)) \<and>
    (calm \<longrightarrow> (\<exists>n. pv_items (usePaged s) = fst (page_chain srv (as_deps (pd_first s)) n) \<and>
      pv_hasMore (usePaged s) = (snd (page_chain srv (as_deps (pd_first s)) n) \<noteq> None)))"
proof -
  have sh: "first_shown s" using assms by (simp add: first_shown_def usePaged_def)
  have inv: "paged_inv srv calm s" by (rule paged_reach_inv [OF assms(1)])
  let ?d = "as_deps (pd_first s)"
  obtain cs where "(paged_items s, paged_next s) = pages_at srv ?d cs"
    using inv sh by (auto simp: paged_inv_def shown_inv_def)
  then have "let ps = map (srv ?d) (None # map Some cs)
      in pv_items (usePaged s) = concat (map pg_items ps) \<and> (pv_hasMore (usePaged s) \<longleftrightarrow> pg_next (last ps) \<noteq> None)"
    by (auto simp: pages_at_def usePaged_def Let_def comp_def last_map)
  moreover have "\<exists>n. pv_items (usePaged s) = fst (page_chain srv ?d n) \<and> pv_hasMore (usePaged s) = (snd (page_chain srv ?d n) \<noteq> None)"
    if calm
  proof -
    from inv sh that obtain n where n: "(paged_items s, paged_next s) = page_chain srv ?d n" by (auto simp: paged_inv_def calm_inv_def)
    show ?thesis by (rule exI [of _ n]) (simp add: usePaged_def n [symmetric])
  qed
  ultimately show ?thesis by blast
qed

text \<open>A server with the numbers below six in pages of two, starting at the cursor.\<close>

definition demo_pages :: "unit \<Rightarrow> nat option \<Rightarrow> (nat, nat) PageResult" where
  "demo_pages d c = (let k = (case c of None \<Rightarrow> 0 | Some k \<Rightarrow> k) in
     sliceCursorPage (drop k [0..<6]) 2 (\<lambda>rows. k + 2))"

lemma demo_first:
  "paged_reach demo_pages True (usePaged_first_settled 0 (Inr (demo_pages () None)) (usePaged_mount ()))"
  by (rule paged_reach.first [OF paged_reach.mount])
    (simp_all add: usePaged_mount_def useAsync_mount_def useAsync_effect_def)

lemmas paging_defs = usePaged_mount_def useAsync_mount_def useAsync_effect_def usePaged_first_settled_def
  useAsync_settle_def usePaged_loadMore_def usePaged_more_settled_def paged_next_def paged_items_def
  usePaged_reload_def useAsync_reload_def usePaged_def demo_pages_def sliceCursorPage_def

theorem paged_list_is_prefix_witness:
  "\<exists>n. pv_items (usePaged (usePaged_first_settled 0 (Inr (demo_pages () None)) (usePaged_mount ()))) =
     fst (page_chain demo_pages () n)"
proof -
  let ?s = "usePaged_first_settled 0 (Inr (demo_pages () None)) (usePaged_mount ()) :: (unit, nat, nat) Paged"
  have "\<not> pv_loading (usePaged ?s)" "as_error (pd_first ?s) = None"
    by (simp_all add: paging_defs)
  from paged_list_is_prefix [OF demo_first this] show ?thesis by auto
qed

section \<open>Reloading while a page is loading\<close>

text \<open>
  A disturbed list can lose pages. \<open>reload\<close> does not advance \<open>generation\<close>, so a page
  that is loading when the list is reloaded is accepted afterwards: with the third page on its way, the
  reloaded list shows the first and the third page, continues behind the third, and the second page
  can no longer be reached.\<close>

theorem reload_loses_page:
  assumes "srv d None = \<lparr>pg_items = p1, pg_next = Some c1\<rparr>"
    and "srv d (Some c1) = \<lparr>pg_items = p2, pg_next = Some c2\<rparr>"
    and "srv d (Some c2) = \<lparr>pg_items = p3, pg_next = c3\<rparr>"
  defines "call k c \<equiv> \<lparr>mc_id = k, mc_deps = d, mc_cursor = c, mc_generation = 1\<rparr>"
  defines "s1 \<equiv> usePaged_first_settled 0 (Inr (srv d None)) (usePaged_mount d)"
  defines "s2 \<equiv> usePaged_more_settled (call 0 c1) (Inr (srv d (Some c1))) (usePaged_loadMore s1)"
  defines "s3 \<equiv> usePaged_first_settled 1 (Inr (srv d None)) (usePaged_reload (usePaged_loadMore s2))"
  defines "s4 \<equiv> usePaged_more_settled (call 1 c2) (Inr (srv d (Some c2))) s3"
  shows "pv_items (usePaged s2) = p1 @ p2 \<and> call 1 c2 \<in> set (pd_flight s3) \<and>
    pv_items (usePaged s4) = p1 @ p3 \<and> paged_next s4 = c3 \<and>
    \<not> pv_loading (usePaged s4) \<and> pv_error (usePaged s4) = None"
proof -
  have f: "as_data (pd_first s4) = Some (srv d None)" "pd_more s4 = Some \<lparr>pg_items = p3, pg_next = c3\<rparr>"
    "\<not> as_loading (pd_first s4)" "as_error (pd_first s4) = None" "pd_moreError s4 = None"
    "call 1 c2 \<in> set (pd_flight s3)"
    "as_data (pd_first s2) = Some (srv d None)" "pd_more s2 = Some \<lparr>pg_items = p2, pg_next = Some c2\<rparr>"
    by (simp_all add: s4_def s3_def s2_def s1_def call_def paging_defs assms(1-3))
  then show ?thesis by (simp add: usePaged_def paged_items_def paged_next_def assms(1))
qed

theorem reload_loses_page_witness:
  "pv_items (usePaged
     (usePaged_more_settled \<lparr>mc_id = 1, mc_deps = (), mc_cursor = 4, mc_generation = 1\<rparr> (Inr (demo_pages () (Some 4)))
       (usePaged_first_settled 1 (Inr (demo_pages () None)) (usePaged_reload (usePaged_loadMore
         (usePaged_more_settled \<lparr>mc_id = 0, mc_deps = (), mc_cursor = 2, mc_generation = 1\<rparr> (Inr (demo_pages () (Some 2)))
           (usePaged_loadMore (usePaged_first_settled 0 (Inr (demo_pages () None)) (usePaged_mount ()))))))))) =
   [0, 1, 4, 5]"
proof -
  have "demo_pages () None = \<lparr>pg_items = [0, 1], pg_next = Some 2\<rparr>"
    "demo_pages () (Some 2) = \<lparr>pg_items = [2, 3], pg_next = Some 4\<rparr>"
    "demo_pages () (Some 4) = \<lparr>pg_items = [4, 5], pg_next = None\<rparr>"
    by (simp_all add: demo_pages_def sliceCursorPage_def upt_rec)
  with reload_loses_page [of demo_pages "()" "[0, 1]" 2 "[2, 3]" 4 "[4, 5]" None] show ?thesis by simp
qed

text \<open>
  The other disturbance: the button to load more stays while the first page for other dependencies is
  loading, with the cursor of the list before. A click then asks for a page of the new list at the cursor
  of the old one, which is appended to the first page of the new list when both have arrived.\<close>

theorem early_click_mixes_lists:
  assumes "d \<noteq> d'" and "srv d None = \<lparr>pg_items = p1, pg_next = Some c1\<rparr>"
    and "srv d' None = \<lparr>pg_items = q1, pg_next = n1\<rparr>" and "srv d' (Some c1) = \<lparr>pg_items = q2, pg_next = n2\<rparr>"
  defines "s1 \<equiv> usePaged_render d' (usePaged_first_settled 0 (Inr (srv d None)) (usePaged_mount d))"
  defines "s2 \<equiv> usePaged_first_settled 1 (Inr (srv d' None)) (usePaged_loadMore s1)"
  defines "call \<equiv> \<lparr>mc_id = 0, mc_deps = d', mc_cursor = c1, mc_generation = 2\<rparr>"
  defines "s3 \<equiv> usePaged_more_settled call (Inr (srv d' (Some c1))) s2"
  shows "pv_loading (usePaged s1) \<and> LoadMore (pv_hasMore (usePaged s1)) (pv_loadingMore (usePaged s1)) = Some False \<and>
    call \<in> set (pd_flight s2) \<and> pv_items (usePaged s3) = q1 @ q2 \<and> paged_next s3 = n2 \<and>
    \<not> pv_loading (usePaged s3) \<and> pv_error (usePaged s3) = None"
proof -
  have s1: "as_data (pd_first s1) = Some (srv d None)" "pd_more s1 = None" "as_loading (pd_first s1)" "\<not> pd_loadingMore s1"
    "pd_generation s1 = 2" "as_deps (pd_first s1) = d'" "as_active (pd_first s1) = Some 1" "pd_fresh s1 = 0" "pd_flight s1 = []"
    "as_error (pd_first s1) = None"
    using assms(1) by (auto simp: s1_def paging_defs usePaged_render_def useAsync_render_def)
  then have s3: "as_data (pd_first s3) = Some (srv d' None)" "pd_more s3 = Some \<lparr>pg_items = q2, pg_next = n2\<rparr>"
    "\<not> as_loading (pd_first s3)" "as_error (pd_first s3) = None" "pd_moreError s3 = None" "call \<in> set (pd_flight s2)"
    by (simp_all add: s3_def s2_def call_def usePaged_loadMore_def usePaged_first_settled_def usePaged_more_settled_def
        useAsync_settle_def paged_next_def assms(2-4))
  with s1 show ?thesis by (simp add: usePaged_def paged_items_def paged_next_def LoadMore_def assms(2,3))
qed

theorem early_click_mixes_lists_witness:
  "pv_items (usePaged
     (usePaged_more_settled \<lparr>mc_id = 0, mc_deps = True, mc_cursor = 2 :: nat, mc_generation = 2\<rparr> (Inr \<lparr>pg_items = [12], pg_next = None\<rparr>)
       (usePaged_first_settled 1 (Inr \<lparr>pg_items = [10], pg_next = Some 1\<rparr>) (usePaged_loadMore (usePaged_render True
         (usePaged_first_settled 0 (Inr \<lparr>pg_items = [0, 1], pg_next = Some 2\<rparr>) (usePaged_mount False))))))) =
   [10, 12 :: nat]"
proof -
  let ?srv = "\<lambda>(d :: bool) (c :: nat option). if \<not> d then \<lparr>pg_items = [0, 1 :: nat], pg_next = Some 2\<rparr>
    else if c = None then \<lparr>pg_items = [10], pg_next = Some 1\<rparr> else \<lparr>pg_items = [12], pg_next = None\<rparr>"
  show ?thesis
    using early_click_mixes_lists [of False True ?srv "[0, 1]" 2 "[10]" "Some 1" "[12]" None] by simp
qed

end
