(* ===== verification/Repo_Pages.thy ===== *)
theory Repo_Pages
  imports Paging Access
begin

text \<open>
  The repository pages of the web client that list things: tags, branches, commits, file locks and
  merge requests (\<open>TagsPage.tsx\<close>, \<open>BranchesPage.tsx\<close>, \<open>CommitsPage.tsx\<close>, \<open>LocksPage.tsx\<close>,
  \<open>MergeRequestsPage.tsx\<close>), with \<open>FormDialog.tsx\<close>, \<open>useAction\<close> of \<open>hooks.ts\<close>, \<open>useRepoChrome.ts\<close> and
  \<open>StateBadge.tsx\<close>. A page is the calls it makes, the rows and buttons it offers and the state it
  keeps; layout is left out.
\<close>

section \<open>Responses\<close>

record BranchResponse =
  br_id :: string
  br_name :: string
  br_is_default :: bool
  br_is_protected :: bool
  br_required_approvals :: int
  br_dismiss_stale_approvals :: bool
  br_require_status_checks :: bool
  br_required_reviewers :: "ReviewActorResponse list option"
  br_required_checks :: "string list option"
  br_commit_id :: "string option"
  br_updated_at :: string

record TagResponse =
  tg_id :: string
  tg_name :: string
  tg_commit_id :: string
  tg_message :: "string option"
  tg_user_id :: string
  tg_created_at :: string

record CommitResponse =
  cm_id :: string
  cm_parent_1_id :: "string option"
  cm_parent_2_id :: "string option"
  cm_message :: string
  cm_author_name :: "string option"
  cm_author_email :: "string option"
  cm_created_at :: string

record FileLockResponse =
  fl_id :: string
  fl_path :: string
  fl_branch :: "string option"
  fl_global :: bool
  fl_held_by :: string
  fl_held_by_name :: string
  fl_merge_request_number :: "int option"
  fl_acquired_at :: string

record MergeRequestListResponse =
  ml_merge_requests :: "MergeRequestResponse list"
  ml_next_cursor :: "string option"

section \<open>Actions and dialogs\<close>

record ActionState =
  ac_busy :: bool
  ac_error :: "string option"

definition action_init :: ActionState where
  "action_init = \<lparr>ac_busy = False, ac_error = None\<rparr>"

definition action_run :: "ActionState \<Rightarrow> ActionState" where
  "action_run s = s\<lparr>ac_busy := True, ac_error := None\<rparr>"

text \<open>The second component says whether \<open>onSuccess\<close> is called.\<close>

definition action_settle :: "'a outcome \<Rightarrow> ActionState \<Rightarrow> ActionState \<times> bool" where
  "action_settle r s = (case r of
     Inr _ \<Rightarrow> (s\<lparr>ac_busy := False\<rparr>, True)
   | Inl e \<Rightarrow> (s\<lparr>ac_error := Some e, ac_busy := False\<rparr>, False))"

definition action_clearError :: "ActionState \<Rightarrow> ActionState" where
  "action_clearError s = s\<lparr>ac_error := None\<rparr>"

record FormDialog =
  fd_busy :: bool
  fd_error :: "string option"
  fd_closed :: bool

definition form_open :: FormDialog where
  "form_open = \<lparr>fd_busy = False, fd_error = None, fd_closed = False\<rparr>"

text \<open>\<open>submit\<close> up to the call of \<open>onSubmit\<close>; the second component says whether it is called.\<close>

definition form_submit :: "bool \<Rightarrow> FormDialog \<Rightarrow> FormDialog \<times> bool" where
  "form_submit submitDisabled d =
     (if fd_busy d \<or> submitDisabled then (d, False)
      else (d\<lparr>fd_busy := True, fd_error := None\<rparr>, True))"

text \<open>The rest of \<open>submit\<close>; \<open>Inr False\<close> is the result \<open>false\<close> of \<open>onSubmit\<close>.\<close>

definition form_settle :: "bool outcome \<Rightarrow> FormDialog \<Rightarrow> FormDialog" where
  "form_settle r d = (case r of
     Inr keepGoing \<Rightarrow> if keepGoing then d\<lparr>fd_closed := True\<rparr> else d\<lparr>fd_busy := False\<rparr>
   | Inl e \<Rightarrow> d\<lparr>fd_error := Some e, fd_busy := False\<rparr>)"

definition form_close :: "FormDialog \<Rightarrow> FormDialog" where
  "form_close d = (if fd_busy d then d else d\<lparr>fd_closed := True\<rparr>)"

section \<open>What a user may do\<close>

record UserResponse =
  us_id :: string
  us_name :: string
  us_email :: string
  us_photo_url :: string
  us_is_admin :: bool
  us_is_super_admin :: bool
  us_notify_email :: bool
  us_deleted :: bool

definition chrome_mask :: "UserResponse option \<Rightarrow> mask option \<Rightarrow> mask \<Rightarrow> bool" where
  "chrome_mask me permission bit1 \<longleftrightarrow>
     (case me of Some m \<Rightarrow> us_is_admin m \<or> us_is_super_admin m | None \<Rightarrow> False) \<or>
     (case permission of Some p \<Rightarrow> p | None \<Rightarrow> 0) AND bit1 \<noteq> 0"

record RepoChrome =
  rc_canWrite :: bool
  rc_canAdmin :: bool
  rc_defaultBranch :: string
  rc_emptyProject :: bool

definition useRepoChrome ::
  "UserResponse option \<Rightarrow> mask option \<Rightarrow> ('d, BranchResponse list) AsyncState \<Rightarrow> RepoChrome" where
  "useRepoChrome me permission branches =
     \<lparr>rc_canWrite = chrome_mask me permission PERMISSION_WRITE,
      rc_canAdmin = chrome_mask me permission PERMISSION_ADMIN,
      rc_defaultBranch = (case as_data branches of
         None \<Rightarrow> []
       | Some bs \<Rightarrow> (case find br_is_default bs of Some b \<Rightarrow> br_name b | None \<Rightarrow> [])),
      rc_emptyProject = (\<not> as_loading branches \<and> as_data branches = Some [])\<rparr>"

section \<open>Badges\<close>

definition VARIANTS :: "(string \<times> string) list" where
  "VARIANTS = [
     (''open'', ''accent''), (''merged'', ''done''), (''mergeable'', ''success''), (''success'', ''success''),
     (''succeeded'', ''success''), (''delivered'', ''success''), (''active'', ''success''), (''closed'', ''danger''),
     (''invalid'', ''danger''), (''failed'', ''danger''), (''failure'', ''danger''), (''error'', ''danger''),
     (''behind_target'', ''attention''), (''pending'', ''attention''), (''queued'', ''attention''),
     (''running'', ''attention''), (''draft'', ''default'')]"

definition stateVariant :: "string \<Rightarrow> string" where
  "stateVariant status = (case map_of VARIANTS (js_toLowerCase status) of Some v \<Rightarrow> v | None \<Rightarrow> ''default'')"

definition stateLabel :: "string \<Rightarrow> string" where
  "stateLabel status = (case js_replace_char (CHR ''_'') '' '' status of
     [] \<Rightarrow> []
   | c # cs \<Rightarrow> js_upper_char c # cs)"

definition StateBadge :: "string \<Rightarrow> string \<times> string" where
  "StateBadge status = (stateVariant status, stateLabel status)"

section \<open>Tags\<close>

definition PAGE_SIZE :: nat where
  "PAGE_SIZE = 50"

text \<open>The request for a page and what is made of the rows it returns.\<close>

definition tags_call :: "string \<Rightarrow> string \<Rightarrow> TagResponse option \<Rightarrow> ApiCall" where
  "tags_call org project after =
     listTags org project (Some (int PAGE_SIZE + 1)) (map_option (\<lambda>t. (tg_id t, tg_created_at t)) after)"

definition tags_page :: "TagResponse list \<Rightarrow> (TagResponse, TagResponse) PageResult" where
  "tags_page rows = sliceCursorPage rows PAGE_SIZE (\<lambda>rows. rows ! (PAGE_SIZE - 1))"

definition createTag_disabled :: "string \<Rightarrow> bool" where
  "createTag_disabled name \<longleftrightarrow> js_trim name = []"

definition createTag_submit :: "string \<Rightarrow> string \<Rightarrow> string \<Rightarrow> string \<Rightarrow> string \<Rightarrow> ApiCall" where
  "createTag_submit org project name from message = createTag org project (js_trim name) (js_trim from) message"

text \<open>\<open>remove\<close>: the call after the confirmation.\<close>

definition tag_remove :: "string \<Rightarrow> string \<Rightarrow> TagResponse \<Rightarrow> bool \<Rightarrow> ApiCall option" where
  "tag_remove org project tag ok = (if ok then Some (deleteTag org project (tg_name tag)) else None)"

definition em_dash :: string where
  "em_dash = [CHR 0xE2, CHR 0x80, CHR 0x94]"

definition shortSha :: "string \<Rightarrow> nat \<Rightarrow> string" where
  "shortSha hash n = take n hash"

record TagRow =
  tr_link :: string
  tr_name :: string
  tr_message :: string
  tr_commit_link :: string
  tr_commit :: string
  tr_deletable :: bool

definition tag_row :: "string \<Rightarrow> string \<Rightarrow> bool \<Rightarrow> TagResponse \<Rightarrow> TagRow" where
  "tag_row org project canWrite tag =
     \<lparr>tr_link = treeUrl org project (tg_commit_id tag) [], tr_name = tg_name tag,
      tr_message = (case tg_message tag of Some m \<Rightarrow> if m = [] then em_dash else m | None \<Rightarrow> em_dash),
      tr_commit_link = commitUrl org project (tg_commit_id tag) [], tr_commit = shortSha (tg_commit_id tag) 10,
      tr_deletable = canWrite\<rparr>"

text \<open>The number beside the heading.\<close>

definition tags_count :: "'t PagedView \<Rightarrow> string option" where
  "tags_count v =
     (if pv_items v = [] then None
      else Some (js_show_nat (length (pv_items v)) @ (if pv_hasMore v then ''+'' else [])))"

section \<open>Branches\<close>

definition branches_call :: "string \<Rightarrow> string \<Rightarrow> BranchResponse option \<Rightarrow> ApiCall" where
  "branches_call org project after =
     listBranches org project (Some (int PAGE_SIZE + 1)) (map_option (\<lambda>b. (br_id b, br_updated_at b)) after)"

definition branches_page :: "BranchResponse list \<Rightarrow> (BranchResponse, BranchResponse) PageResult" where
  "branches_page rows = sliceCursorPage rows PAGE_SIZE (\<lambda>rows. rows ! (PAGE_SIZE - 1))"

definition renameBranch_disabled :: "BranchResponse \<Rightarrow> string \<Rightarrow> bool" where
  "renameBranch_disabled branch name \<longleftrightarrow> js_trim name = [] \<or> js_trim name = br_name branch"

definition renameBranch_submit :: "string \<Rightarrow> string \<Rightarrow> BranchResponse \<Rightarrow> string \<Rightarrow> ApiCall" where
  "renameBranch_submit org project branch name = renameBranch org project (br_name branch) (js_trim name)"

text \<open>\<open>toggleProtection\<close>: lifting a protection asks first, \<open>ok\<close> is the answer.\<close>

definition toggleProtection :: "string \<Rightarrow> string \<Rightarrow> BranchResponse \<Rightarrow> bool \<Rightarrow> ApiCall option" where
  "toggleProtection org project branch ok =
     (if br_is_protected branch \<and> \<not> ok then None
      else Some (setBranchProtection org project (br_name branch) (\<not> br_is_protected branch) None None None None None))"

definition branch_remove :: "string \<Rightarrow> string \<Rightarrow> BranchResponse \<Rightarrow> bool \<Rightarrow> ApiCall option" where
  "branch_remove org project branch ok = (if ok then Some (deleteBranch org project (br_name branch)) else None)"

datatype BranchButton = MakeDefault | Protect | Unprotect | RenameB | DeleteB

record BranchRow =
  bw_link :: string
  bw_labels :: "string list"
  bw_head :: string
  bw_buttons :: "BranchButton list"

definition branch_row :: "string \<Rightarrow> string \<Rightarrow> bool \<Rightarrow> BranchResponse PagedView \<Rightarrow> BranchResponse \<Rightarrow> BranchRow" where
  "branch_row org project canAdmin v b =
     \<lparr>bw_link = treeUrl org project (br_name b) [],
      bw_labels = (if br_is_default b then [''default''] else []) @ (if br_is_protected b then [''protected''] else []),
      bw_head = (case br_commit_id b of Some c \<Rightarrow> take 10 c | None \<Rightarrow> ''empty''),
      bw_buttons = (if \<not> canAdmin then [] else
        (if \<not> br_is_default b then [MakeDefault] else []) @
        [if br_is_protected b then Unprotect else Protect, RenameB] @
        (if \<not> br_is_default b \<and> (length (pv_items v) > 1 \<or> pv_hasMore v) then [DeleteB] else []))\<rparr>"

section \<open>Commits\<close>

definition commits_call :: "string \<Rightarrow> string \<Rightarrow> string \<Rightarrow> string \<Rightarrow> string option \<Rightarrow> ApiCall" where
  "commits_call org project branch path start = listCommits org project branch path start (Some (int PAGE_SIZE + 1))"

definition commits_page :: "CommitResponse list \<Rightarrow> (CommitResponse, string) PageResult" where
  "commits_page rows = sliceCursorPage rows PAGE_SIZE (\<lambda>rows. cm_id (rows ! PAGE_SIZE))"

text \<open>What \<open>fetchPage\<close> of the page does: no request for a project without commits.\<close>

definition commits_fetch ::
  "bool \<Rightarrow> (string option \<Rightarrow> CommitResponse list) \<Rightarrow> string option \<Rightarrow> (CommitResponse, string) PageResult" where
  "commits_fetch skipCommits rows start =
     (if skipCommits then \<lparr>pg_items = [], pg_next = None\<rparr> else commits_page (rows start))"

definition commit_author :: "CommitResponse \<Rightarrow> string" where
  "commit_author c = (case cm_author_name c of
     Some n \<Rightarrow> n
   | None \<Rightarrow> (case cm_author_email c of Some e \<Rightarrow> e | None \<Rightarrow> []))"

definition middot :: string where
  "middot = '' '' @ [CHR 0xC2, CHR 0xB7] @ '' ''"

definition commits_heading :: "string \<Rightarrow> string \<Rightarrow> string" where
  "commits_heading branch path =
     ''Commits'' @ (if branch \<noteq> [] then middot @ branch else []) @ (if path \<noteq> [] then middot @ path else [])"

section \<open>File locks\<close>

record LocksForm =
  lf_path :: string
  lf_branch :: string

definition handleLock :: "string \<Rightarrow> string \<Rightarrow> LocksForm \<Rightarrow> ApiCall" where
  "handleLock org project f = lockFile org project (lf_path f) (lf_branch f)"

text \<open>After a successful lock the path is cleared, the branch stays.\<close>

definition lock_done :: "LocksForm \<Rightarrow> LocksForm" where
  "lock_done f = f\<lparr>lf_path := []\<rparr>"

definition handleUnlock :: "string \<Rightarrow> string \<Rightarrow> FileLockResponse \<Rightarrow> bool \<Rightarrow> ApiCall option" where
  "handleUnlock org project lock ok =
     (if ok then Some (unlockFile org project (fl_path lock) (if fl_global lock then [] else coalesce (fl_branch lock) []))
      else None)"

definition lock_scope :: "FileLockResponse \<Rightarrow> string" where
  "lock_scope lock = (if fl_global lock then ''mainline''
     else ''branch '' @ (case fl_branch lock of Some b \<Rightarrow> b | None \<Rightarrow> ''undefined''))"

definition lock_holder :: "FileLockResponse \<Rightarrow> string" where
  "lock_holder lock =
     (if fl_held_by_name lock \<noteq> [] then fl_held_by_name lock else fl_held_by lock) @
     (case fl_merge_request_number lock of Some n \<Rightarrow> middot @ ''MR #'' @ js_show_int n | None \<Rightarrow> [])"

section \<open>Merge requests\<close>

record ListFilter =
  ls_status :: string
  ls_author :: string
  ls_source :: string
  ls_target :: string
  ls_search :: string
  ls_assignee :: string

definition list_filter_init :: ListFilter where
  "list_filter_init = \<lparr>ls_status = ''open'', ls_author = [], ls_source = [], ls_target = [], ls_search = [],
     ls_assignee = []\<rparr>"

definition listParams :: "ListFilter \<Rightarrow> string option \<Rightarrow> MergeRequestFilter" where
  "listParams f after =
     \<lparr>mf_status = Some (if ls_status f = ''draft'' then ''open'' else ls_status f), mf_author = Some (ls_author f),
      mf_source = Some (ls_source f), mf_target = Some (ls_target f),
      mf_draft = (if ls_status f = ''draft'' then Some True else None), mf_search = Some (ls_search f),
      mf_assignee = Some (ls_assignee f),
      mf_after = (case after of Some a \<Rightarrow> if a = [] then None else Some a | None \<Rightarrow> None), mf_limit = None\<rparr>"

text \<open>The organization, the project and the filters: the dependencies of the page's \<open>useAsync\<close>.\<close>

type_synonym list_deps = "string \<times> string \<times> ListFilter"

definition merge_list_call :: "list_deps \<Rightarrow> string option \<Rightarrow> ApiCall" where
  "merge_list_call d after = (case d of (org, project, f) \<Rightarrow> listMergeRequests org project (listParams f after))"

record MergeList =
  mq_first :: "(list_deps, MergeRequestListResponse) AsyncState"
  mq_extra :: "MergeRequestResponse list"
  mq_extraCursor :: "string option"
  mq_loadingMore :: bool
  mq_moreError :: "string option"
  mq_flight :: "(nat \<times> list_deps \<times> string) list"
  mq_fresh :: nat

definition merge_list_mount :: "list_deps \<Rightarrow> MergeList" where
  "merge_list_mount d = \<lparr>mq_first = useAsync_mount d, mq_extra = [], mq_extraCursor = None, mq_loadingMore = False,
     mq_moreError = None, mq_flight = [], mq_fresh = 0\<rparr>"

definition merge_list_requests :: "MergeList \<Rightarrow> MergeRequestResponse list" where
  "merge_list_requests s =
     (case as_data (mq_first s) of Some r \<Rightarrow> ml_merge_requests r | None \<Rightarrow> []) @ mq_extra s"

definition nextCursor :: "MergeList \<Rightarrow> string" where
  "nextCursor s = (case mq_extraCursor s of
     Some c \<Rightarrow> c
   | None \<Rightarrow> coalesce (Option.bind (as_data (mq_first s)) ml_next_cursor) [])"

text \<open>A change of a filter, and the render it causes.\<close>

definition changeFilter :: "(ListFilter \<Rightarrow> ListFilter) \<Rightarrow> MergeList \<Rightarrow> MergeList" where
  "changeFilter upd s =
     (case as_deps (mq_first s) of (org, project, f) \<Rightarrow>
        s\<lparr>mq_first := useAsync_render (org, project, upd f) (mq_first s), mq_extra := [], mq_extraCursor := None\<rparr>)"

definition merge_list_first_settled :: "nat \<Rightarrow> MergeRequestListResponse outcome \<Rightarrow> MergeList \<Rightarrow> MergeList" where
  "merge_list_first_settled i r s = s\<lparr>mq_first := useAsync_settle i r (mq_first s)\<rparr>"

definition merge_list_loadMore :: "MergeList \<Rightarrow> MergeList" where
  "merge_list_loadMore s =
     (if nextCursor s = [] \<or> mq_loadingMore s then s
      else s\<lparr>mq_loadingMore := True, mq_moreError := None,
             mq_flight := mq_flight s @ [(mq_fresh s, as_deps (mq_first s), nextCursor s)],
             mq_fresh := mq_fresh s + 1\<rparr>)"

definition merge_list_more_settled :: "nat \<Rightarrow> MergeRequestListResponse outcome \<Rightarrow> MergeList \<Rightarrow> MergeList" where
  "merge_list_more_settled i r s =
     (let t = s\<lparr>mq_flight := filter (\<lambda>c. fst c \<noteq> i) (mq_flight s), mq_loadingMore := False\<rparr> in
      case r of
        Inr page \<Rightarrow> t\<lparr>mq_extra := mq_extra s @ ml_merge_requests page,
                       mq_extraCursor := Some (coalesce (ml_next_cursor page) [])\<rparr>
      | Inl e \<Rightarrow> t\<lparr>mq_moreError := Some e\<rparr>)"

text \<open>The button is offered for a cursor once the first page is there.\<close>

definition merge_list_button :: "MergeList \<Rightarrow> bool option" where
  "merge_list_button s =
     (if nextCursor s \<noteq> [] \<and> \<not> as_loading (mq_first s) then Some (mq_loadingMore s) else None)"

definition merge_request_row :: "string \<Rightarrow> string \<Rightarrow> MergeRequestResponse \<Rightarrow> string \<times> string \<times> string" where
  "merge_request_row org project r =
     (''/'' @ org @ ''/'' @ project @ ''/merges/'' @ js_show_int (mr_number r),
      ''#'' @ js_show_int (mr_number r) @ '' '' @ mr_title r,
      mr_source_branch r @ '' '' @ [CHR 0xE2, CHR 0x86, CHR 0x92] @ '' '' @ mr_target_branch r @ middot @
      snd (StateBadge (if mr_draft r then ''draft'' else mr_status r)) @
      (case mr_review r of
         None \<Rightarrow> []
       | Some v \<Rightarrow> middot @ js_show_int (rs_approvals v) @ '' approved'' @
           (if rs_changes_requested v > 0
            then middot @ js_show_int (rs_changes_requested v) @ '' changes requested'' else [])))"

section \<open>Paging through a listing\<close>

text \<open>
  An interface of a server that lists \<open>items l\<close> in pages: \<open>rest l c\<close> is what it lists from the cursor on,
  and the cursor a client makes of \<open>size + 1\<close> rows continues behind the first \<open>size\<close> of them.
\<close>

locale cursor_paging =
  fixes valid :: "'l \<Rightarrow> bool"
    and rest :: "'l \<Rightarrow> 'c option \<Rightarrow> 't list"
    and pageSize :: nat
    and cursorOf :: "'t list \<Rightarrow> 'c"
  assumes pageSize_pos: "0 < pageSize"
    and continues: "valid l \<Longrightarrow> pageSize < length (rest l c) \<Longrightarrow>
      rest l (Some (cursorOf (take (pageSize + 1) (rest l c)))) = drop pageSize (rest l c)"
begin

definition page :: "'l \<Rightarrow> 'c option \<Rightarrow> ('t, 'c) PageResult" where
  "page l c = sliceCursorPage (take (pageSize + 1) (rest l c)) pageSize cursorOf"

lemma page_items: "pg_items (page l c) = take pageSize (rest l c)"
  by (simp add: page_def sliceCursorPage_def min_def)

lemma page_next: "pg_next (page l c) =
    (if pageSize < length (rest l c) then Some (cursorOf (take (pageSize + 1) (rest l c))) else None)"
  by (auto simp: page_def sliceCursorPage_def)

text \<open>The pages followed from the start cover the list from its beginning.\<close>

lemma chain_covers:
  assumes "valid l"
  shows "fst (page_chain page l n) = take (pageSize * (n + 1)) (rest l None) \<and>
    (case snd (page_chain page l n) of
       None \<Rightarrow> length (rest l None) \<le> pageSize * (n + 1)
     | Some c \<Rightarrow> pageSize * (n + 1) < length (rest l None) \<and> rest l (Some c) = drop (pageSize * (n + 1)) (rest l None))"
proof (induction n)
  case 0
  then show ?case using continues [OF assms, of None] by (simp add: page_items page_next)
next
  case (Suc n)
  obtain its nx where e: "page_chain page l n = (its, nx)" by fastforce
  let ?k = "pageSize * (n + 1)"
  show ?case
  proof (cases nx)
    case None
    with Suc e show ?thesis by simp
  next
    case (Some c)
    with Suc e have its: "its = take ?k (rest l None)" and c: "rest l (Some c) = drop ?k (rest l None)"
      and len: "?k < length (rest l None)" by simp_all
    have "its @ take pageSize (drop ?k (rest l None)) = take (pageSize * (Suc n + 1)) (rest l None)"
      unfolding its by (simp add: take_add [symmetric] algebra_simps)
    moreover have "pageSize < length (drop ?k (rest l None)) \<Longrightarrow>
        rest l (Some (cursorOf (take (pageSize + 1) (drop ?k (rest l None))))) = drop (pageSize * (Suc n + 1)) (rest l None)"
      using continues [OF assms, of "Some c"] c by (simp add: algebra_simps)
    ultimately show ?thesis
      using e Some c by (auto simp: page_items page_next algebra_simps)
  qed
qed

lemma chain_prefix: "valid l \<Longrightarrow> fst (page_chain page l n) = take (pageSize * (n + 1)) (rest l None)"
  using chain_covers by blast

lemma chain_more: "valid l \<Longrightarrow> snd (page_chain page l n) \<noteq> None \<longleftrightarrow> pageSize * (n + 1) < length (rest l None)"
  using chain_covers [of l n] by (auto split: option.splits)

end

text \<open>
  The two kinds of cursor the server has: the last row shown, behind which to continue, and the key of
  the first row to show. Both need the rows, respectively their keys, to be distinct.
\<close>

definition after_rest :: "'t list \<Rightarrow> 't option \<Rightarrow> 't list" where
  "after_rest l c = (case c of None \<Rightarrow> l | Some t \<Rightarrow> tl (dropWhile (\<lambda>x. x \<noteq> t) l))"

definition start_rest :: "('t \<Rightarrow> 'c) \<Rightarrow> 't list \<Rightarrow> 'c option \<Rightarrow> 't list" where
  "start_rest key l c = (case c of None \<Rightarrow> l | Some k \<Rightarrow> dropWhile (\<lambda>x. key x \<noteq> k) l)"

lemma suffix_drop: "suffix r l \<Longrightarrow> \<exists>k. r = drop k l"
  by (metis suffix_def append_eq_conv_conj)

lemma suffix_after_rest: "suffix (after_rest l c) l"
  by (auto simp: after_rest_def split: option.splits intro: suffix_tl suffix_dropWhile suffix_order.trans)

lemma suffix_start_rest: "suffix (start_rest key l c) l"
  by (auto simp: start_rest_def split: option.splits intro: suffix_dropWhile)

lemma dropWhile_distinct:
  assumes "distinct (map key l)" and "i < length l"
  shows "dropWhile (\<lambda>x. key x \<noteq> key (l ! i)) l = drop i l"
  using assms
proof (induction l arbitrary: i)
  case (Cons x l)
  show ?case
  proof (cases i)
    case (Suc j)
    with Cons have "j < length l" "key x \<noteq> key (l ! j)" by auto
    then show ?thesis using Cons Suc by simp
  qed simp
qed simp

lemma dropWhile_suffix:
  assumes "distinct (map key l)" and "suffix r l" and "i < length r"
  shows "dropWhile (\<lambda>x. key x \<noteq> key (r ! i)) l = drop i r"
proof -
  obtain k where r: "r = drop k l" using suffix_drop [OF assms(2)] by blast
  with assms(3) have "k + i < length l" "r ! i = l ! (k + i)" by auto
  then show ?thesis using dropWhile_distinct [OF assms(1), of "k + i"] r by (simp add: add.commute)
qed

interpretation after_cursor: cursor_paging distinct after_rest PAGE_SIZE "\<lambda>rows. rows ! (PAGE_SIZE - 1)"
proof
  show "0 < PAGE_SIZE" by (simp add: PAGE_SIZE_def)
next
  fix l :: "'t list" and c
  let ?r = "after_rest l c"
  assume l: "distinct l" and len: "PAGE_SIZE < length ?r"
  have p: "take (PAGE_SIZE + 1) ?r ! (PAGE_SIZE - 1) = ?r ! (PAGE_SIZE - 1)"
    by (simp add: PAGE_SIZE_def)
  have "dropWhile (\<lambda>x. x \<noteq> ?r ! (PAGE_SIZE - 1)) l = drop (PAGE_SIZE - 1) ?r"
    using dropWhile_suffix [of "\<lambda>x. x" l ?r "PAGE_SIZE - 1"] l len suffix_after_rest [of l c]
    by (simp add: PAGE_SIZE_def)
  then have "after_rest l (Some (?r ! (PAGE_SIZE - 1))) = tl (drop (PAGE_SIZE - 1) ?r)"
    by (simp add: after_rest_def)
  then show "after_rest l (Some (take (PAGE_SIZE + 1) ?r ! (PAGE_SIZE - 1))) = drop PAGE_SIZE ?r"
    unfolding p using drop_Suc [of 49 ?r] by (simp add: PAGE_SIZE_def tl_drop)
qed

interpretation start_cursor: cursor_paging "\<lambda>l. distinct (map cm_id l)" "start_rest cm_id" PAGE_SIZE
  "\<lambda>rows. cm_id (rows ! PAGE_SIZE)"
proof
  show "0 < PAGE_SIZE" by (simp add: PAGE_SIZE_def)
next
  fix l c
  let ?r = "start_rest cm_id l c"
  assume l: "distinct (map cm_id l)" and len: "PAGE_SIZE < length ?r"
  have p: "take (PAGE_SIZE + 1) ?r ! PAGE_SIZE = ?r ! PAGE_SIZE"
    by simp
  show "start_rest cm_id l (Some (cm_id (take (PAGE_SIZE + 1) ?r ! PAGE_SIZE))) = drop PAGE_SIZE ?r"
    unfolding p using dropWhile_suffix [OF l suffix_start_rest len] by (simp add: start_rest_def)
qed

text \<open>
  The answers of a server with the given tags, branches and commits to the requests of the pages:
  \<open>limit\<close> is \<open>PAGE_SIZE + 1\<close>, and the lists depend on the dependencies of the page.
\<close>

definition tags_server :: "('d \<Rightarrow> TagResponse list) \<Rightarrow> 'd \<Rightarrow> TagResponse option \<Rightarrow> (TagResponse, TagResponse) PageResult" where
  "tags_server l d c = tags_page (take (PAGE_SIZE + 1) (after_rest (l d) c))"

definition branches_server ::
  "('d \<Rightarrow> BranchResponse list) \<Rightarrow> 'd \<Rightarrow> BranchResponse option \<Rightarrow> (BranchResponse, BranchResponse) PageResult" where
  "branches_server l d c = branches_page (take (PAGE_SIZE + 1) (after_rest (l d) c))"

definition commits_server :: "('d \<Rightarrow> CommitResponse list) \<Rightarrow> 'd \<Rightarrow> string option \<Rightarrow> (CommitResponse, string) PageResult" where
  "commits_server l d c = commits_fetch False (\<lambda>c. take (PAGE_SIZE + 1) (start_rest cm_id (l d) c)) c"

lemma page_chain_deps: "page_chain (\<lambda>d. f (l d)) d n = page_chain f (l d) n"
  by (induction n) (simp_all split: prod.splits option.splits)

lemma server_pages:
  "tags_server l = (\<lambda>d. after_cursor.page (l d))" "branches_server l' = (\<lambda>d. after_cursor.page (l' d))"
  "commits_server l'' = (\<lambda>d. start_cursor.page (l'' d))"
  by (auto simp: fun_eq_iff tags_server_def branches_server_def commits_server_def tags_page_def branches_page_def
      commits_fetch_def commits_page_def after_cursor.page_def start_cursor.page_def simp del: One_nat_def)

definition shows_prefix_of :: "'t list \<Rightarrow> 't PagedView \<Rightarrow> bool" where
  "shows_prefix_of l v \<longleftrightarrow>
     (\<exists>n. pv_items v = take (PAGE_SIZE * (n + 1)) l \<and> (pv_hasMore v \<longleftrightarrow> PAGE_SIZE * (n + 1) < length l))"

lemma shown_prefix:
  assumes "paged_reach srv True s" and "first_shown s"
    and "\<And>n. fst (page_chain srv (as_deps (pd_first s)) n) = take (PAGE_SIZE * (n + 1)) l"
    and "\<And>n. snd (page_chain srv (as_deps (pd_first s)) n) \<noteq> None \<longleftrightarrow> PAGE_SIZE * (n + 1) < length l"
  shows "shows_prefix_of l (usePaged s)"
proof -
  obtain n where n: "(paged_items s, paged_next s) = page_chain srv (as_deps (pd_first s)) n"
    using paged_reach_inv [OF assms(1)] assms(2) by (auto simp: paged_inv_def calm_inv_def)
  have "pv_items (usePaged s) = take (PAGE_SIZE * (n + 1)) l"
    using assms(3) [of n] by (simp add: usePaged_def n [symmetric])
  moreover have "pv_hasMore (usePaged s) \<longleftrightarrow> PAGE_SIZE * (n + 1) < length l"
    using assms(4) [of n] by (simp add: usePaged_def n [symmetric])
  ultimately show ?thesis unfolding shows_prefix_of_def by blast
qed

text \<open>
  Property C15. The pages of tags, branches and commits page through the server's lists without losing or
  repeating a row, as long as the list is undisturbed: not reloaded while a further page is on its way,
  and not asked for a further page before its first page is shown, since it was mounted, changed or
  reloaded. While its first page is shown without an error, the rows are the first full pages of the list, or all of it, and
  more is offered exactly while rows are missing. The cursors of tags and branches are the last row
  shown, that of commits the id of the first row not shown.\<close>

theorem listings_complete:
  assumes "\<And>d. distinct (tags d)" and "\<And>d. distinct (branches d)" and "\<And>d. distinct (map cm_id (commits d))"
  shows "(paged_reach (tags_server tags) True st \<longrightarrow> first_shown st \<longrightarrow>
            shows_prefix_of (tags (as_deps (pd_first st))) (usePaged st)) \<and>
         (paged_reach (branches_server branches) True sb \<longrightarrow> first_shown sb \<longrightarrow>
            shows_prefix_of (branches (as_deps (pd_first sb))) (usePaged sb)) \<and>
         (paged_reach (commits_server commits) True sc \<longrightarrow> first_shown sc \<longrightarrow>
            shows_prefix_of (commits (as_deps (pd_first sc))) (usePaged sc))"
proof (intro conjI impI)
  assume "paged_reach (tags_server tags) True st" "first_shown st"
  then show "shows_prefix_of (tags (as_deps (pd_first st))) (usePaged st)"
    by (rule shown_prefix)
      (simp_all only: server_pages page_chain_deps after_cursor.chain_prefix after_cursor.chain_more assms
        after_rest_def option.case)
next
  assume "paged_reach (branches_server branches) True sb" "first_shown sb"
  then show "shows_prefix_of (branches (as_deps (pd_first sb))) (usePaged sb)"
    by (rule shown_prefix)
      (simp_all only: server_pages page_chain_deps after_cursor.chain_prefix after_cursor.chain_more assms
        after_rest_def option.case)
next
  assume "paged_reach (commits_server commits) True sc" "first_shown sc"
  then show "shows_prefix_of (commits (as_deps (pd_first sc))) (usePaged sc)"
    by (rule shown_prefix)
      (simp_all only: server_pages page_chain_deps start_cursor.chain_prefix start_cursor.chain_more assms
        start_rest_def option.case)
qed

definition demo_tag :: TagResponse where
  "demo_tag = \<lparr>tg_id = ''1'', tg_name = ''v1'', tg_commit_id = ''c0ffee'', tg_message = None, tg_user_id = ''u'',
     tg_created_at = ''2024-01-01T00:00:00Z''\<rparr>"

theorem listings_complete_witness:
  "shows_prefix_of [demo_tag]
     (usePaged (usePaged_first_settled 0 (Inr (tags_server (\<lambda>_. [demo_tag]) () None)) (usePaged_mount ())))"
proof -
  let ?s = "usePaged_first_settled 0 (Inr (tags_server (\<lambda>_. [demo_tag]) () None)) (usePaged_mount ()) ::
    (unit, TagResponse, TagResponse) Paged"
  have "paged_reach (tags_server (\<lambda>_. [demo_tag])) True ?s"
    by (rule paged_reach.first [OF paged_reach.mount])
      (simp_all add: usePaged_mount_def useAsync_mount_def useAsync_effect_def)
  moreover have "first_shown ?s" "as_deps (pd_first ?s) = ()"
    by (simp_all add: first_shown_def paging_defs)
  ultimately show ?thesis
    using listings_complete [of "\<lambda>_. [demo_tag]" "\<lambda>_. []" "\<lambda>_. []" ?s "usePaged_mount ()" "usePaged_mount ()"]
    by simp
qed

section \<open>Changing a filter while a page is loading\<close>

text \<open>
  The merge request list has no guard against late pages: with a page of the list for one
  filter on its way, a change of the filter leads to a list that shows the requests of the new filter
  followed by those of the old one, and continues with the cursor of the old list under the new
  filter, without an error.\<close>

theorem filter_change_mixes_lists:
  assumes "upd f \<noteq> f"
    and "srv (org, project, f) None = \<lparr>ml_merge_requests = p1, ml_next_cursor = Some c1\<rparr>" and "c1 \<noteq> []"
    and "srv (org, project, f) (Some c1) = \<lparr>ml_merge_requests = p2, ml_next_cursor = Some c2\<rparr>"
    and "srv (org, project, upd f) None = \<lparr>ml_merge_requests = q1, ml_next_cursor = cq\<rparr>"
  defines "s1 \<equiv> merge_list_loadMore
      (merge_list_first_settled 0 (Inr (srv (org, project, f) None)) (merge_list_mount (org, project, f)))"
  defines "s2 \<equiv> merge_list_first_settled 1 (Inr (srv (org, project, upd f) None)) (changeFilter upd s1)"
  defines "s3 \<equiv> merge_list_more_settled 0 (Inr (srv (org, project, f) (Some c1))) s2"
  shows "(0, (org, project, f), c1) \<in> set (mq_flight s2) \<and> merge_list_requests s2 = q1 \<and>
    as_deps (mq_first s3) = (org, project, upd f) \<and> merge_list_requests s3 = q1 @ p2 \<and> nextCursor s3 = c2 \<and>
    as_error (mq_first s3) = None \<and> mq_moreError s3 = None"
proof -
  note defs = merge_list_loadMore_def merge_list_first_settled_def merge_list_mount_def useAsync_mount_def
    useAsync_effect_def useAsync_settle_def changeFilter_def useAsync_render_def merge_list_more_settled_def
    nextCursor_def merge_list_requests_def coalesce_def
  show ?thesis
    using assms(1,3) by (simp add: s3_def s2_def s1_def defs assms(2,4,5) Let_def)
qed

theorem filter_change_mixes_lists_witness:
  "nextCursor (merge_list_more_settled 0 (Inr \<lparr>ml_merge_requests = [], ml_next_cursor = Some ''30''\<rparr>)
     (merge_list_first_settled 1 (Inr \<lparr>ml_merge_requests = [], ml_next_cursor = None\<rparr>)
       (changeFilter (ls_status_update (\<lambda>_. ''closed'')) (merge_list_loadMore
         (merge_list_first_settled 0 (Inr \<lparr>ml_merge_requests = [], ml_next_cursor = Some ''20''\<rparr>)
           (merge_list_mount (''o'', ''p'', list_filter_init))))))) = ''30''"
proof -
  let ?upd = "ls_status_update (\<lambda>_. ''closed'')"
  let ?srv = "\<lambda>d c. \<lparr>ml_merge_requests = [],
    ml_next_cursor = (if ls_status (snd (snd d)) = ''closed'' then None else Some (if c = None then ''20'' else ''30''))\<rparr>
      :: MergeRequestListResponse"
  have "?upd list_filter_init \<noteq> list_filter_init" by (simp add: list_filter_init_def)
  then show ?thesis
    using filter_change_mixes_lists [of ?upd list_filter_init ?srv "''o''" "''p''" "[]" "''20''" "[]" "''30''" "[]" None]
    by (simp add: list_filter_init_def)
qed

end
