(* ===== verification/Web_Hooks.thy ===== *)
theory Web_Hooks
  imports Paging Endpoints
begin

text \<open>
  The smaller hooks of the web client: the cache of organization members (\<open>orgMembersCache.ts\<close>,
  \<open>fetchOrgMembers\<close> and \<open>useOrgMembers\<close> of \<open>orgHooks.ts\<close>), \<open>useOrgRole\<close>, \<open>useResendVerification\<close>, and
  \<open>useClipboard\<close> of \<open>hooks.ts\<close>. Promises are numbered in the order in which they are made.
\<close>

section \<open>The cache of organization members\<close>

definition MEMBERS_TTL_MS :: int where
  "MEMBERS_TTL_MS = 30000"

record CachedMembers =
  ca_at :: int
  ca_request :: nat

text \<open>The cache, and the requests made so far: organization and time.\<close>

record MemberCache =
  mb_cache :: "(string, CachedMembers) js_map"
  mb_requests :: "(string \<times> int) list"

definition js_map_delete :: "('k, 'v) js_map \<Rightarrow> 'k \<Rightarrow> ('k, 'v) js_map" where
  "js_map_delete m k = filter (\<lambda>e. fst e \<noteq> k) m"

definition clearOrgMembersCache :: "MemberCache \<Rightarrow> MemberCache" where
  "clearOrgMembersCache s = s\<lparr>mb_cache := []\<rparr>"

text \<open>\<open>fetchOrgMembers\<close> at time \<open>now\<close>, with the number of the promise it returns.\<close>

definition fetchOrgMembers :: "string \<Rightarrow> bool \<Rightarrow> int \<Rightarrow> MemberCache \<Rightarrow> nat \<times> MemberCache" where
  "fetchOrgMembers org force now s =
     (let fresh = (length (mb_requests s),
            s\<lparr>mb_cache := js_map_set (mb_cache s) org \<lparr>ca_at = now, ca_request = length (mb_requests s)\<rparr>,
              mb_requests := mb_requests s @ [(org, now)]\<rparr>)
      in case js_map_get (mb_cache s) org of
           Some cached \<Rightarrow>
             if \<not> force \<and> now - ca_at cached < MEMBERS_TTL_MS then (ca_request cached, s) else fresh
         | None \<Rightarrow> fresh)"

text \<open>The \<open>catch\<close> on a request of \<open>org\<close>.\<close>

definition members_failed :: "string \<Rightarrow> nat \<Rightarrow> MemberCache \<Rightarrow> MemberCache" where
  "members_failed org request s =
     (case js_map_get (mb_cache s) org of
        Some cached \<Rightarrow> if ca_request cached = request then s\<lparr>mb_cache := js_map_delete (mb_cache s) org\<rparr> else s
      | None \<Rightarrow> s)"

text \<open>\<open>reload\<close> of \<open>useOrgMembers\<close>: the cache entry goes, and the hook loads again.\<close>

definition members_reload :: "string \<Rightarrow> MemberCache \<Rightarrow> MemberCache" where
  "members_reload org s = s\<lparr>mb_cache := js_map_delete (mb_cache s) org\<rparr>"

section \<open>Roles\<close>

record OrgResponse =
  og_id :: string
  og_slug :: string
  og_name :: string
  og_role :: string

definition useOrgRole :: "bool \<Rightarrow> bool \<Rightarrow> OrgResponse list option \<Rightarrow> string \<Rightarrow> string option \<times> bool" where
  "useOrgRole isAdmin isSuperAdmin orgs org =
     (let role = (case orgs of
            None \<Rightarrow> None
          | Some os \<Rightarrow> map_option og_role (find (\<lambda>item. og_slug item = org) os))
      in (role, isAdmin \<or> isSuperAdmin \<or> role = Some ''owner''))"

section \<open>Resending the verification mail\<close>

definition RESEND_NOTICE :: string where
  "RESEND_NOTICE = ''If the account is unconfirmed, a new email is on its way.''"

record Resend =
  re_busy :: bool
  re_notice :: "string option"
  re_error :: "string option"

definition resend_init :: Resend where
  "resend_init = \<lparr>re_busy = False, re_notice = None, re_error = None\<rparr>"

text \<open>The call made, if any.\<close>

definition resend_start :: "string \<Rightarrow> Resend \<Rightarrow> Resend \<times> ApiCall option" where
  "resend_start email s =
     (let address = js_trim email in
      if address = [] then (s, None)
      else (s\<lparr>re_busy := True, re_notice := None, re_error := None\<rparr>, Some (resendVerification address)))"

text \<open>What \<open>resend\<close> returns in the end.\<close>

definition resend_settle :: "'a outcome \<Rightarrow> Resend \<Rightarrow> Resend \<times> bool" where
  "resend_settle r s = (case r of
     Inr _ \<Rightarrow> (s\<lparr>re_notice := Some RESEND_NOTICE, re_busy := False\<rparr>, True)
   | Inl e \<Rightarrow> (s\<lparr>re_error := Some e, re_busy := False\<rparr>, False))"

definition resend_reset :: "Resend \<Rightarrow> Resend" where
  "resend_reset s = s\<lparr>re_notice := None, re_error := None\<rparr>"

section \<open>The clipboard\<close>

text \<open>The state of \<open>useClipboard\<close>: whether the confirmation shows, and when its timer fires.\<close>

record Clipboard =
  cl_copied :: bool
  cl_timer :: "int option"

definition clipboard_copy :: "int \<Rightarrow> int \<Rightarrow> bool \<Rightarrow> Clipboard \<Rightarrow> Clipboard \<times> bool" where
  "clipboard_copy resetMs now written s =
     (if \<not> written then (s, False)
      else (s\<lparr>cl_copied := True, cl_timer := Some (now + resetMs)\<rparr>, True))"

definition clipboard_tick :: "int \<Rightarrow> Clipboard \<Rightarrow> Clipboard" where
  "clipboard_tick now s = (case cl_timer s of
     Some t \<Rightarrow> if t \<le> now then \<lparr>cl_copied = False, cl_timer = None\<rparr> else s
   | None \<Rightarrow> s)"

section \<open>Cached members are fresh and have not failed\<close>

text \<open>
  The cache over time: \<open>cache_reach now failed s\<close> for the requests that have failed so far. The clock does
  not run backwards, and a failed request runs its handler.
\<close>

inductive cache_reach :: "int \<Rightarrow> nat set \<Rightarrow> MemberCache \<Rightarrow> bool" where
  start: "cache_reach now {} \<lparr>mb_cache = [], mb_requests = []\<rparr>"
| tick: "cache_reach now failed s \<Longrightarrow> now \<le> later \<Longrightarrow> cache_reach later failed s"
| fetch: "cache_reach now failed s \<Longrightarrow> cache_reach now failed (snd (fetchOrgMembers org force now s))"
| fail: "cache_reach now failed s \<Longrightarrow> request < length (mb_requests s) \<Longrightarrow> fst (mb_requests s ! request) = org \<Longrightarrow>
    cache_reach now (insert request failed) (members_failed org request s)"
| reload: "cache_reach now failed s \<Longrightarrow> cache_reach now failed (members_reload org s)"
| clear: "cache_reach now failed s \<Longrightarrow> cache_reach now failed (clearOrgMembersCache s)"

definition cache_inv :: "int \<Rightarrow> nat set \<Rightarrow> MemberCache \<Rightarrow> bool" where
  "cache_inv now failed s \<longleftrightarrow>
     (\<forall>r \<in> failed. r < length (mb_requests s)) \<and>
     (\<forall>org c. js_map_get (mb_cache s) org = Some c \<longrightarrow>
        ca_request c < length (mb_requests s) \<and> mb_requests s ! ca_request c = (org, ca_at c) \<and>
        ca_at c \<le> now \<and> ca_request c \<notin> failed)"

lemma js_map_get_delete: "js_map_get (js_map_delete m k) k' = (if k' = k then None else js_map_get m k')"
  by (induction m) (auto simp: js_map_get_def js_map_delete_def)

lemma cache_inv_fetch: "cache_inv now failed s \<Longrightarrow> cache_inv now failed (snd (fetchOrgMembers org force now s))"
  by (auto simp: cache_inv_def fetchOrgMembers_def Let_def js_map.get_put nth_append less_SucI
      split: option.splits if_splits)

lemma cache_inv_failed:
  assumes "cache_inv now failed s" and "request < length (mb_requests s)" and "fst (mb_requests s ! request) = org"
  shows "cache_inv now (insert request failed) (members_failed org request s)"
proof -
  let ?t = "members_failed org request s"
  have req: "mb_requests ?t = mb_requests s"
    by (simp add: members_failed_def split: option.split)
  have old: "js_map_get (mb_cache s) o' = Some c \<and> ca_request c \<noteq> request"
    if "js_map_get (mb_cache ?t) o' = Some c" for o' c
  proof (cases "o' = org")
    case True
    with that show ?thesis
      by (auto simp: members_failed_def js_map_get_delete split: option.splits if_splits)
  next
    case False
    with that have "js_map_get (mb_cache s) o' = Some c"
      by (auto simp: members_failed_def js_map_get_delete split: option.splits if_splits)
    moreover from this assms have "mb_requests s ! ca_request c = (o', ca_at c)" by (auto simp: cache_inv_def)
    ultimately show ?thesis using assms(3) False by auto
  qed
  show ?thesis
    using assms(1,2) unfolding cache_inv_def req by (auto dest!: old)
qed

lemma cache_reach_inv: "cache_reach now failed s \<Longrightarrow> cache_inv now failed s"
proof (induction rule: cache_reach.induct)
  case (start now)
  then show ?case by (simp add: cache_inv_def js_map_get_def)
next
  case (reload now failed s org)
  then show ?case by (auto simp: cache_inv_def members_reload_def js_map_get_delete)
next
  case (clear now failed s)
  then show ?case by (simp add: cache_inv_def clearOrgMembersCache_def js_map_get_def)
next
  case (tick now failed s later)
  then show ?case by (fastforce simp: cache_inv_def)
qed (simp_all add: cache_inv_fetch cache_inv_failed)

text \<open>
  Asking for the members of an organization gives a request for that organization which has
  not failed and is less than thirty seconds old, or a new one; with \<open>force\<close> always a new one. Asking
  again within that time gives the same request.\<close>

theorem member_cache_fresh:
  fixes org force
  assumes "cache_reach now failed s"
  defines "r \<equiv> fst (fetchOrgMembers org force now s)" and "s' \<equiv> snd (fetchOrgMembers org force now s)"
  shows "r < length (mb_requests s') \<and> fst (mb_requests s' ! r) = org \<and> r \<notin> failed \<and>
    now - snd (mb_requests s' ! r) < MEMBERS_TTL_MS \<and>
    (force \<longrightarrow> r = length (mb_requests s)) \<and>
    (later - snd (mb_requests s' ! r) < MEMBERS_TTL_MS \<longrightarrow> fetchOrgMembers org False later s' = (r, s'))"
proof -
  have inv: "cache_inv now failed s" using cache_reach_inv [OF assms(1)] .
  have new: "length (mb_requests s) \<notin> failed" using inv by (auto simp: cache_inv_def)
  show ?thesis
    using inv new unfolding r_def s'_def cache_inv_def
    by (auto simp: fetchOrgMembers_def Let_def js_map.get_put nth_append MEMBERS_TTL_MS_def
        split: option.splits if_splits)
qed

theorem member_cache_fresh_witness:
  "fst (fetchOrgMembers ''acme'' False 20000 (snd (fetchOrgMembers ''acme'' False 0
     \<lparr>mb_cache = [], mb_requests = []\<rparr>))) = 0"
  using member_cache_fresh [OF cache_reach.start [of 0], of "''acme''" False 20000]
  by (simp add: fetchOrgMembers_def js_map_get_def js_map_set_def MEMBERS_TTL_MS_def)

end
