(* ===== verification/Js_Number.thy ===== *)
theory Js_Number
  imports Js_Prelude "HOL-Library.Log_Nat"
begin

text \<open>
  Numbers with a fraction. A JavaScript number is a double: \<open>(m, s)\<close> stands for \<open>m * 2 powr s\<close> with a
  significand \<open>m\<close> of at most 53 bits. Division and multiplication give the double nearest to the exact
  result, ties to even; the programs stay far from overflow and from subnormal numbers, which are left
  out. All of it is integer arithmetic and computes.
\<close>

type_synonym dbl = "int \<times> int"

text \<open>The integer nearest to \<open>p / q\<close>, ties to even, for \<open>q > 0\<close>.\<close>

definition round_even :: "int \<Rightarrow> int \<Rightarrow> int" where
  "round_even p q = (let d = p div q; r = p mod q in if 2 * r < q \<or> (2 * r = q \<and> even d) then d else d + 1)"

text \<open>The largest \<open>e\<close> with \<open>2 powr e * q \<le> p\<close>, for positive \<open>p\<close> and \<open>q\<close>.\<close>

definition pow_le :: "int \<Rightarrow> int \<Rightarrow> int \<Rightarrow> bool" where
  "pow_le e q p \<longleftrightarrow> (if 0 \<le> e then 2 ^ nat e * q \<le> p else q \<le> p * 2 ^ nat (- e))"

definition dbl_exp :: "int \<Rightarrow> int \<Rightarrow> int" where
  "dbl_exp p q = (let e = bitlen p - bitlen q in if pow_le e q p then e else e - 1)"

text \<open>The double nearest to \<open>p / q\<close>, for \<open>q > 0\<close>.\<close>

definition dbl_pos_div :: "int \<Rightarrow> int \<Rightarrow> dbl" where
  "dbl_pos_div p q =
     (let s = dbl_exp p q - 52
      in (if 0 \<le> s then round_even p (q * 2 ^ nat s) else round_even (p * 2 ^ nat (- s)) q, s))"

definition dbl_div :: "int \<Rightarrow> int \<Rightarrow> dbl" where
  "dbl_div p q =
     (if p = 0 then (0, 0)
      else if p < 0 then (case dbl_pos_div (- p) q of (m, s) \<Rightarrow> (- m, s))
      else dbl_pos_div p q)"

text \<open>The double nearest to the product of a double and an integer.\<close>

definition dbl_scale :: "dbl \<Rightarrow> int \<Rightarrow> dbl" where
  "dbl_scale x k = (case x of (m, s) \<Rightarrow>
     if 0 \<le> s then dbl_div (m * k * 2 ^ nat s) 1 else dbl_div (m * k) (2 ^ nat (- s)))"

text \<open>
  The double nearest to \<open>m * 2 powr s\<close>; with it products, sums, differences and the
  comparison of doubles.
\<close>

definition dbl_norm :: "int \<Rightarrow> int \<Rightarrow> dbl" where
  "dbl_norm m s = (if 0 \<le> s then dbl_div (m * 2 ^ nat s) 1 else dbl_div m (2 ^ nat (- s)))"

definition dbl_align :: "dbl \<Rightarrow> dbl \<Rightarrow> int \<times> int \<times> int" where
  "dbl_align x y = (case (x, y) of ((m, s), (m', s')) \<Rightarrow>
     let t = min s s' in (m * 2 ^ nat (s - t), m' * 2 ^ nat (s' - t), t))"

definition dbl_mul :: "dbl \<Rightarrow> dbl \<Rightarrow> dbl" where
  "dbl_mul x y = dbl_norm (fst x * fst y) (snd x + snd y)"

definition dbl_add :: "dbl \<Rightarrow> dbl \<Rightarrow> dbl" where
  "dbl_add x y = (case dbl_align x y of (m, n, t) \<Rightarrow> dbl_norm (m + n) t)"

definition dbl_sub :: "dbl \<Rightarrow> dbl \<Rightarrow> dbl" where
  "dbl_sub x y = (case dbl_align x y of (m, n, t) \<Rightarrow> dbl_norm (m - n) t)"

definition dbl_less :: "dbl \<Rightarrow> dbl \<Rightarrow> bool" where
  "dbl_less x y = (case dbl_align x y of (m, n, t) \<Rightarrow> m < n)"

text \<open>\<open>Math.round\<close>.\<close>

definition dbl_round :: "dbl \<Rightarrow> int" where
  "dbl_round x = (case x of (m, s) \<Rightarrow>
     if 0 \<le> s then m * 2 ^ nat s else (2 * m + 2 ^ nat (- s)) div 2 ^ (nat (- s) + 1))"

text \<open>\<open>Math.round((a / b) * 100)\<close>.\<close>

definition js_percent :: "int \<Rightarrow> int \<Rightarrow> int" where
  "js_percent a b = dbl_round (dbl_scale (dbl_div a b) 100)"

lemma round_even_nonneg: "0 \<le> p \<Longrightarrow> 0 < q \<Longrightarrow> 0 \<le> round_even p q"
  by (simp add: round_even_def Let_def pos_imp_zdiv_nonneg_iff)

lemma dbl_div_nonneg: "0 \<le> p \<Longrightarrow> 0 < q \<Longrightarrow> 0 \<le> fst (dbl_div p q)"
  by (auto simp: dbl_div_def dbl_pos_div_def Let_def intro!: round_even_nonneg)

lemma dbl_round_nonneg: "0 \<le> fst x \<Longrightarrow> 0 \<le> dbl_round x"
  by (auto simp: dbl_round_def pos_imp_zdiv_nonneg_iff split: prod.splits)

lemma js_percent_nonneg: "0 \<le> a \<Longrightarrow> 0 < b \<Longrightarrow> 0 \<le> js_percent a b"
  by (cases "dbl_div a b")
    (use dbl_div_nonneg [of a b] in \<open>auto simp: js_percent_def dbl_scale_def intro!: dbl_round_nonneg dbl_div_nonneg\<close>)

section \<open>Numbers in a text field\<close>

text \<open>A number, exact up to the rounding of the literal to a double; \<open>===\<close> compares numbers.\<close>

datatype jsnum = Finite rat | NotANumber | Infinite bool

definition js_same :: "jsnum \<Rightarrow> jsnum \<Rightarrow> bool" where
  "js_same a b \<longleftrightarrow> a = b \<and> a \<noteq> NotANumber"

definition digit_value :: "char \<Rightarrow> nat option" where
  "digit_value c =
     (let n = of_char c :: nat in
      if 48 \<le> n \<and> n \<le> 57 then Some (n - 48) else if 97 \<le> n \<and> n \<le> 102 then Some (n - 87)
      else if 65 \<le> n \<and> n \<le> 70 then Some (n - 55) else None)"

definition is_digit_of :: "nat \<Rightarrow> char \<Rightarrow> bool" where
  "is_digit_of base c = (case digit_value c of None \<Rightarrow> False | Some d \<Rightarrow> d < base)"

definition digits_value :: "nat \<Rightarrow> string \<Rightarrow> nat" where
  "digits_value base s = fold (\<lambda>c n. n * base + (case digit_value c of None \<Rightarrow> 0 | Some d \<Rightarrow> d)) s 0"

text \<open>The double nearest to a rational, with the limits of the format.\<close>

definition double_of :: "rat \<Rightarrow> jsnum" where
  "double_of r =
     (if \<bar>r\<bar> \<ge> 2 ^ 1024 - 2 ^ 970 then Infinite (r > 0)
      else if \<bar>r\<bar> \<le> 1 / 2 ^ 1075 then Finite 0
      else (case quotient_of r of (p, q) \<Rightarrow>
        (case dbl_div p q of (m, s) \<Rightarrow> Finite (if 0 \<le> s then of_int (m * 2 ^ nat s) else of_int m / of_int (2 ^ nat (- s))))))"

text \<open>\<open>[eE][+-]?[0-9]+\<close> at the end of a decimal literal.\<close>

definition exponent_of :: "string \<Rightarrow> int option" where
  "exponent_of s = (case s of
     [] \<Rightarrow> Some 0
   | c # t \<Rightarrow>
       if c = CHR ''e'' \<or> c = CHR ''E'' then
         (let (neg, ds) = (case t of d # u \<Rightarrow> if d = CHR ''-'' then (True, u) else if d = CHR ''+'' then (False, u) else (False, t)
                           | [] \<Rightarrow> (False, []))
          in if ds \<noteq> [] \<and> list_all (is_digit_of 10) ds
             then Some (if neg then - int (digits_value 10 ds) else int (digits_value 10 ds)) else None)
       else None)"

definition decimal_of :: "string \<Rightarrow> jsnum" where
  "decimal_of s =
     (let whole = takeWhile (is_digit_of 10) s; rest = dropWhile (is_digit_of 10) s;
          (frac, tail) = (case rest of
             c # t \<Rightarrow> if c = CHR ''.'' then (takeWhile (is_digit_of 10) t, dropWhile (is_digit_of 10) t) else ([], rest)
           | [] \<Rightarrow> ([], []))
      in if whole = [] \<and> frac = [] then NotANumber
         else case exponent_of tail of
           None \<Rightarrow> NotANumber
         | Some e \<Rightarrow>
             (let k = e - int (length frac); n = of_nat (digits_value 10 (whole @ frac))
              in double_of (if 0 \<le> k then n * 10 ^ nat k else n / 10 ^ nat (- k))))"

definition negate :: "jsnum \<Rightarrow> jsnum" where
  "negate x = (case x of Finite r \<Rightarrow> Finite (- r) | Infinite b \<Rightarrow> Infinite (\<not> b) | NotANumber \<Rightarrow> NotANumber)"

definition unsigned_of :: "string \<Rightarrow> jsnum" where
  "unsigned_of s = (if s = ''Infinity'' then Infinite True else decimal_of s)"

definition radix_of :: "nat \<Rightarrow> string \<Rightarrow> jsnum" where
  "radix_of base s =
     (if s \<noteq> [] \<and> list_all (is_digit_of base) s then double_of (of_nat (digits_value base s)) else NotANumber)"

text \<open>\<open>Number(s)\<close>.\<close>

definition js_Number :: "string \<Rightarrow> jsnum" where
  "js_Number s =
     (let t = js_trim s in
      if t = [] then Finite 0
      else if take 2 t \<in> {''0x'', ''0X''} then radix_of 16 (drop 2 t)
      else if take 2 t \<in> {''0o'', ''0O''} then radix_of 8 (drop 2 t)
      else if take 2 t \<in> {''0b'', ''0B''} then radix_of 2 (drop 2 t)
      else if hd t = CHR ''-'' then negate (unsigned_of (tl t))
      else if hd t = CHR ''+'' then unsigned_of (tl t)
      else unsigned_of t)"

subsection \<open>Digits\<close>

lemma dbl_exp_int: "0 < n \<Longrightarrow> n < 2 ^ 53 \<Longrightarrow> dbl_exp n 1 \<le> 52"
proof -
  assume "0 < n" "n < 2 ^ 53"
  then have "bitlen n \<le> 53" by (simp add: bitlen_le_iff_power)
  moreover have "bitlen 1 = 1" by (simp add: compute_bitlen)
  ultimately show ?thesis by (simp add: dbl_exp_def Let_def)
qed

text \<open>Whole numbers below 2 to the 53 are doubles.\<close>

lemma double_of_nat:
  assumes "n < 2 ^ 53"
  shows "double_of (of_nat n) = Finite (of_nat n)"
proof (cases "n = 0")
  case False
  have small: "(of_nat n :: rat) < 2 ^ 53" using assms by (metis of_nat_less_iff of_nat_numeral of_nat_power)
  have "(2 :: rat) ^ 53 \<le> 2 ^ 1024 - 2 ^ 970" by simp
  then have big: "\<not> \<bar>of_nat n :: rat\<bar> \<ge> 2 ^ 1024 - 2 ^ 970" using small by linarith
  have "(1 :: rat) \<le> of_nat n" using False by simp
  moreover have "(1 :: rat) / 2 ^ 1075 < 1" by simp
  ultimately have tiny: "\<not> \<bar>of_nat n :: rat\<bar> \<le> 1 / 2 ^ 1075" by linarith
  define s where "s = dbl_exp (int n) 1 - 52"
  have "s \<le> 0" using dbl_exp_int [of "int n"] False assms by (simp add: s_def)
  then have "dbl_pos_div (int n) 1 = (int n * 2 ^ nat (- s), s)"
    by (cases "s = 0") (simp_all add: dbl_pos_div_def Let_def round_even_def flip: s_def)
  then have "dbl_div (int n) 1 = (int n * 2 ^ nat (- s), s)" using False by (simp add: dbl_div_def)
  moreover have "quotient_of (of_nat n) = (int n, 1)" using quotient_of_int [of "int n"] by simp
  ultimately show ?thesis using big tiny \<open>s \<le> 0\<close> by (cases "s = 0") (simp_all add: double_of_def)
qed (simp add: double_of_def)

lemma digit_of: "js_is_digit c \<Longrightarrow> is_digit_of 10 c \<and> digit_value c = Some (of_char c - 48)"
  by (auto simp: js_is_digit_def is_digit_of_def digit_value_def Let_def)

lemma digits_value_js: "list_all js_is_digit s \<Longrightarrow> digits_value 10 s = js_digits_value s"
  by (induction s rule: rev_induct) (auto simp: digits_value_def js_digits_value_def digit_of)

lemma digits_only:
  assumes "list_all js_is_digit s"
  shows "takeWhile (is_digit_of 10) s = s" "dropWhile (is_digit_of 10) s = []" "js_trim s = s"
proof -
  show "takeWhile (is_digit_of 10) s = s" "dropWhile (is_digit_of 10) s = []"
    using assms by (induction s) (auto simp: digit_of)
  have "\<not> js_is_space c" if "js_is_digit c" for c
    using that by (auto simp: js_is_digit_def js_is_space_def Let_def)
  then have "dropWhile js_is_space t = t" if "list_all js_is_digit t" for t
    using that by (cases t) auto
  then show "js_trim s = s" using assms by (simp add: js_trim_def)
qed

lemma js_Number_digits:
  assumes "list_all js_is_digit s" "s \<noteq> []" "js_digits_value s < 2 ^ 53"
  shows "js_Number s = Finite (of_nat (js_digits_value s))"
proof -
  have "list_all js_is_digit (take 2 s)" using assms(1) by (auto simp: list_all_iff dest: in_set_takeD)
  then have two: "take 2 s \<noteq> [a, b]" if "\<not> js_is_digit b" for a b using that by auto
  have one: "hd s \<noteq> c" if "\<not> js_is_digit c" for c using assms(1,2) that by (cases s) auto
  have "take 2 s \<notin> {''0x'', ''0X''}" "take 2 s \<notin> {''0o'', ''0O''}" "take 2 s \<notin> {''0b'', ''0B''}"
    using two by (simp_all add: js_is_digit_def)
  moreover have "hd s \<noteq> CHR ''-''" "hd s \<noteq> CHR ''+''" "hd s \<noteq> CHR ''I''" using one by (simp_all add: js_is_digit_def)
  moreover have "s \<noteq> ''Infinity''" using \<open>hd s \<noteq> CHR ''I''\<close> by auto
  ultimately have "js_Number s = decimal_of s"
    using digits_only(3) [OF assms(1)] assms(2) by (simp add: js_Number_def unsigned_of_def)
  also have "\<dots> = double_of (of_nat (js_digits_value s))"
    unfolding decimal_of_def digits_only(1,2) [OF assms(1)] Let_def
    using assms(2) digits_value_js [OF assms(1)] by (simp add: exponent_of_def)
  finally show ?thesis by (simp add: double_of_nat [OF assms(3)])
qed

end
