(* ===== verification/Desktop_Hooks.thy ===== *)
theory Desktop_Hooks
  imports Js_Number Diff_Rows
begin

text \<open>
  The hooks of the desktop client: \<open>useRepoOperation\<close>, which runs one push, update or checkout at a time
  and follows its progress, \<open>describeProgress\<close>, the update banner (\<open>useUpdates.ts\<close>), pane and column
  widths (\<open>useResizableWidth.ts\<close>, \<open>useColumnWidths.ts\<close>) and lock results (\<open>useLocks.ts\<close>). The calls to the
  service are numbered in the order in which they start; they settle in any order and at any time.
\<close>

section \<open>Operations on a clone\<close>

datatype OpName = OpPush | OpUpdate | OpSparse | OpClone | OpSwitch | OpRevert | OpMerge

definition op_text :: "OpName \<Rightarrow> string" where
  "op_text op = (case op of OpPush \<Rightarrow> ''push'' | OpUpdate \<Rightarrow> ''update'' | OpSparse \<Rightarrow> ''sparse'' | OpClone \<Rightarrow> ''clone''
     | OpSwitch \<Rightarrow> ''switch'' | OpRevert \<Rightarrow> ''revert'' | OpMerge \<Rightarrow> ''merge'')"

record OpProgress =
  pr_root :: string
  pr_op :: string
  pr_phase :: string
  pr_ahead :: int
  pr_objectsDone :: nat
  pr_objectsTotal :: nat
  pr_bytesDone :: nat
  pr_bytesTotal :: nat

record OpState =
  os_op :: OpName
  os_progress :: "OpProgress option"
  os_cancelling :: bool

text \<open>The entry in \<open>pending\<close>: the number of the call, whether it can be cancelled, the flag \<open>cancelled\<close>.\<close>

record PendingOp =
  po_call :: nat
  po_cancellable :: bool
  po_cancelled :: bool

datatype 'o op_event = OnDone OpName 'o | OnError OpName string | OnCancelled OpName

text \<open>
  The hook, with the operations started so far, the calls that settled but whose \<open>finally\<close> has not run
  yet, the calls that were cancelled, and the handlers that were called, each with its call.
\<close>

record 'o RepoOperation =
  ro_root :: string
  ro_state :: "OpState option"
  ro_pending :: "PendingOp option"
  ro_started :: "OpName list"
  ro_settling :: "nat list"
  ro_cancels :: "nat list"
  ro_handled :: "(nat \<times> 'o op_event) list"

definition op_init :: "string \<Rightarrow> 'o RepoOperation" where
  "op_init r0 = \<lparr>ro_root = r0, ro_state = None, ro_pending = None, ro_started = [], ro_settling = [],
     ro_cancels = [], ro_handled = []\<rparr>"

definition op_progress :: "OpProgress \<Rightarrow> 'o RepoOperation \<Rightarrow> 'o RepoOperation" where
  "op_progress p s =
     (if pr_root p \<noteq> ro_root s then s
      else s\<lparr>ro_state := (case ro_state s of
               Some st \<Rightarrow> if op_text (os_op st) = pr_op p then Some (st\<lparr>os_progress := Some p\<rparr>) else Some st
             | None \<Rightarrow> None)\<rparr>)"

definition op_run :: "OpName \<Rightarrow> bool \<Rightarrow> 'o RepoOperation \<Rightarrow> 'o RepoOperation" where
  "op_run op cancellable s =
     (if ro_pending s \<noteq> None then s
      else s\<lparr>ro_pending := Some \<lparr>po_call = length (ro_started s), po_cancellable = cancellable, po_cancelled = False\<rparr>,
             ro_started := ro_started s @ [op],
             ro_state := Some \<lparr>os_op = op, os_progress = None, os_cancelling = False\<rparr>\<rparr>)"

definition op_cancel :: "'o RepoOperation \<Rightarrow> 'o RepoOperation" where
  "op_cancel s = (case ro_pending s of
     None \<Rightarrow> s
   | Some e \<Rightarrow>
       if \<not> po_cancellable e then s
       else s\<lparr>ro_pending := Some (e\<lparr>po_cancelled := True\<rparr>),
              ro_state := map_option (\<lambda>st. st\<lparr>os_cancelling := True\<rparr>) (ro_state s),
              ro_cancels := ro_cancels s @ [po_call e]\<rparr>)"

text \<open>A call settles: the handler runs; \<open>entry\<close> is the one of the closure.\<close>

definition op_settle :: "PendingOp \<Rightarrow> string + 'o \<Rightarrow> 'o RepoOperation \<Rightarrow> 'o RepoOperation" where
  "op_settle entry r s =
     (let op = ro_started s ! po_call entry;
          ev = (case r of
                  Inr outcome \<Rightarrow> OnDone op outcome
                | Inl err \<Rightarrow> if po_cancelled entry then OnCancelled op else OnError op err)
      in s\<lparr>ro_handled := ro_handled s @ [(po_call entry, ev)], ro_settling := ro_settling s @ [po_call entry]\<rparr>)"

text \<open>The \<open>finally\<close> of a call that has settled.\<close>

definition op_finally :: "nat \<Rightarrow> 'o RepoOperation \<Rightarrow> 'o RepoOperation" where
  "op_finally call s = s\<lparr>ro_settling := filter (\<lambda>c. c \<noteq> call) (ro_settling s), ro_pending := None, ro_state := None\<rparr>"

section \<open>Progress\<close>

definition ellipsis :: string where
  "ellipsis = [CHR 0xE2, CHR 0x80, CHR 0xA6]"

definition verbs :: "OpName \<Rightarrow> string" where
  "verbs op = (case op of OpPush \<Rightarrow> ''Pushing'' | OpUpdate \<Rightarrow> ''Updating'' | OpSparse \<Rightarrow> ''Updating checkout''
     | OpClone \<Rightarrow> ''Cloning'' | OpSwitch \<Rightarrow> ''Switching'' | OpRevert \<Rightarrow> ''Reverting'' | OpMerge \<Rightarrow> ''Merging'')"

definition describeProgress :: "OpState \<Rightarrow> string \<times> int option" where
  "describeProgress st =
     (if os_cancelling st then (''Cancelling'' @ ellipsis, None)
      else case os_progress st of
        None \<Rightarrow> (verbs (os_op st) @ ellipsis, None)
      | Some p \<Rightarrow>
          if pr_phase p = ''queued'' then
            (if pr_ahead p > 0
             then ''Waiting for '' @ js_show_int (pr_ahead p) @ '' other operation'' @ (if pr_ahead p = 1 then [] else ''s'') @ ellipsis
             else ''Waiting for another operation'' @ ellipsis, None)
          else if (pr_phase p = ''upload'' \<or> pr_phase p = ''download'') \<and> pr_objectsTotal p > 0 then
            ((if pr_phase p = ''upload'' then ''Uploading'' else ''Downloading'') @ '' '' @
               js_show_nat (pr_objectsDone p) @ ''/'' @ js_show_nat (pr_objectsTotal p) @
               (if pr_bytesTotal p > 0
                then '' '' @ [CHR 0xC2, CHR 0xB7] @ '' '' @ formatBytes (pr_bytesDone p) @ '' of '' @ formatBytes (pr_bytesTotal p)
                else []),
             Some (min 100 (if pr_bytesTotal p > 0 then js_percent (int (pr_bytesDone p)) (int (pr_bytesTotal p))
                            else js_percent (int (pr_objectsDone p)) (int (pr_objectsTotal p)))))
          else (verbs (os_op st) @ ellipsis, None))"

section \<open>Updates of the application\<close>

datatype UpdatePhase = UIdle | UChecking | UUpToDate | UAvailable | UDownloading | UReady | UError

record Release =
  rl_version :: string
  rl_notes :: string
  rl_publishedAt :: string
  rl_page :: string

record UpdateState =
  up_current :: string
  up_enabled :: bool
  up_inPlace :: bool
  up_phase :: UpdatePhase
  up_release :: "Release option"
  up_written :: nat
  up_total :: int
  up_error :: string
  up_checkedAt :: string

definition downloadPercent :: "UpdateState \<Rightarrow> int" where
  "downloadPercent s = (if up_total s \<le> 0 then 0 else min 100 (js_percent (int (up_written s)) (up_total s)))"

datatype UpdateAction = UCheck | UInstall | UOpen | URestart

record UpdateText =
  ut_text :: string
  ut_action :: "UpdateAction option"
  ut_label :: string

definition describeUpdate :: "UpdateState \<Rightarrow> UpdateText" where
  "describeUpdate s =
     (let next = (case up_release s of Some r \<Rightarrow> rl_version r | None \<Rightarrow> []) in
      case up_phase s of
        UChecking \<Rightarrow> \<lparr>ut_text = ''Checking for updates'' @ ellipsis, ut_action = None, ut_label = []\<rparr>
      | UAvailable \<Rightarrow>
          (if up_inPlace s
           then \<lparr>ut_text = ''Nipa '' @ next @ '' is available.'', ut_action = Some UInstall, ut_label = ''Download''\<rparr>
           else \<lparr>ut_text = ''Nipa '' @ next @ '' is available.'', ut_action = Some UOpen, ut_label = ''Get it from the website''\<rparr>)
      | UDownloading \<Rightarrow> \<lparr>ut_text = ''Downloading Nipa '' @ next @ ellipsis @ '' '' @ js_show_int (downloadPercent s) @ [CHR ''%''],
                       ut_action = None, ut_label = []\<rparr>
      | UReady \<Rightarrow> \<lparr>ut_text = ''Nipa '' @ next @ '' is ready.'', ut_action = Some URestart, ut_label = ''Restart to update''\<rparr>
      | UUpToDate \<Rightarrow> \<lparr>ut_text = ''Nipa '' @ up_current s @ '' is up to date.'', ut_action = Some UCheck, ut_label = ''Check now''\<rparr>
      | UError \<Rightarrow>
          (if up_release s \<noteq> None
           then \<lparr>ut_text = ''Could not download Nipa '' @ next @ '': '' @ up_error s,
                 ut_action = Some (if up_inPlace s then UInstall else UOpen), ut_label = ''Try again''\<rparr>
           else \<lparr>ut_text = ''Could not check for updates: '' @ up_error s, ut_action = Some UCheck, ut_label = ''Try again''\<rparr>)
      | UIdle \<Rightarrow> \<lparr>ut_text = ''Nipa '' @ up_current s, ut_action = Some UCheck, ut_label = ''Check now''\<rparr>)"

section \<open>Lock results\<close>

record LockFailure =
  lk_path :: string
  lk_message :: string

record LockResult =
  lr_locked :: "string list"
  lr_failed :: "LockFailure list"

definition describeLockResult :: "LockResult \<Rightarrow> string option" where
  "describeLockResult r = (case lr_failed r of
     [] \<Rightarrow> None
   | f # fs \<Rightarrow> Some (''Could not lock '' @ lk_path f @ '': '' @ lk_message f @
       (if fs \<noteq> [] then '' (+'' @ js_show_nat (length fs) @ '' more)'' else [])))"

text \<open>What \<open>onSuccess\<close> of \<open>lock\<close> notifies: the message, and whether it is a success.\<close>

definition lock_notice :: "LockResult \<Rightarrow> (string \<times> bool) option" where
  "lock_notice r = (case describeLockResult r of
     Some failure \<Rightarrow> Some (failure, False)
   | None \<Rightarrow> (case lr_locked r of
       [] \<Rightarrow> None
     | [p] \<Rightarrow> Some (''Locked '' @ p, True)
     | ps \<Rightarrow> Some (''Locked '' @ js_show_nat (length ps) @ '' files'', True)))"

section \<open>Pane and column widths\<close>

text \<open>
  Widths come from pointer positions and may have a fraction; \<open>None\<close> as a container is \<open>Infinity\<close>. The
  settings keep the number that was written.
\<close>

definition RESERVED_MAIN :: rat where
  "RESERVED_MAIN = 320"

definition js_round :: "rat \<Rightarrow> int" where
  "js_round x = \<lfloor>x + 1 / 2\<rfloor>"

definition clampWidth :: "rat \<Rightarrow> rat \<Rightarrow> rat \<Rightarrow> rat option \<Rightarrow> int" where
  "clampWidth val1 mn mx container =
     (let upper = max mn (case container of Some c \<Rightarrow> min mx (c - RESERVED_MAIN) | None \<Rightarrow> mx)
      in js_round (min upper (max mn val1)))"

definition load_width :: "rat option \<Rightarrow> rat \<Rightarrow> rat" where
  "load_width stored initial = (case stored of Some w \<Rightarrow> if w > 0 then w else initial | None \<Rightarrow> initial)"

record WidthBounds =
  wb_initial :: rat
  wb_min :: rat
  wb_max :: rat

record Pane =
  pn_bounds :: WidthBounds
  pn_requested :: rat
  pn_container :: "rat option"
  pn_setting :: "rat option"

definition pane_mount :: "WidthBounds \<Rightarrow> rat option \<Rightarrow> rat option \<Rightarrow> Pane" where
  "pane_mount b stored viewport = \<lparr>pn_bounds = b, pn_requested = load_width stored (wb_initial b),
     pn_container = viewport, pn_setting = stored\<rparr>"

definition pane_measure :: "rat option \<Rightarrow> Pane \<Rightarrow> Pane" where
  "pane_measure c p = p\<lparr>pn_container := c\<rparr>"

definition pane_clamp :: "Pane \<Rightarrow> rat \<Rightarrow> int" where
  "pane_clamp p w = clampWidth w (wb_min (pn_bounds p)) (wb_max (pn_bounds p)) (pn_container p)"

definition pane_preview :: "rat \<Rightarrow> Pane \<Rightarrow> Pane" where
  "pane_preview w p = p\<lparr>pn_requested := of_int (pane_clamp p w)\<rparr>"

definition pane_commit :: "rat \<Rightarrow> Pane \<Rightarrow> Pane" where
  "pane_commit w p = p\<lparr>pn_requested := of_int (pane_clamp p w), pn_setting := Some (of_int (pane_clamp p w))\<rparr>"

definition pane_reset :: "Pane \<Rightarrow> Pane" where
  "pane_reset p = p\<lparr>pn_requested := wb_initial (pn_bounds p), pn_setting := None\<rparr>"

definition pane_width :: "Pane \<Rightarrow> int" where
  "pane_width p = pane_clamp p (pn_requested p)"

definition pane_max :: "Pane \<Rightarrow> int" where
  "pane_max p = pane_clamp p (wb_max (pn_bounds p))"

definition COLUMN_MAX :: rat where
  "COLUMN_MAX = 1200"

definition column_clamp :: "rat \<Rightarrow> rat \<Rightarrow> int" where
  "column_clamp w mn = js_round (min COLUMN_MAX (max mn w))"

text \<open>\<open>load\<close> of the column widths, from the entries of the stored object that are numbers.\<close>

definition load_columns :: "(string \<times> rat) list option \<Rightarrow> rat \<Rightarrow> (string, int) js_map" where
  "load_columns stored mn = (case stored of
     None \<Rightarrow> []
   | Some ws \<Rightarrow> fold (\<lambda>(i, w) m. js_map_set m i (column_clamp w mn)) ws [])"

record Columns =
  co_min :: rat
  co_stored :: "(string, int) js_map"
  co_setting :: "(string \<times> rat) list option"

definition columns_mount :: "rat \<Rightarrow> (string \<times> rat) list option \<Rightarrow> Columns" where
  "columns_mount mn stored = \<lparr>co_min = mn, co_stored = load_columns stored mn, co_setting = stored\<rparr>"

definition columns_save :: "(string, int) js_map \<Rightarrow> (string \<times> rat) list option" where
  "columns_save ws = (if ws = [] then None else Some (map (\<lambda>(i, w). (i, of_int w)) ws))"

definition column_width :: "(string, int) js_map \<Rightarrow> string \<Rightarrow> int \<Rightarrow> Columns \<Rightarrow> int" where
  "column_width defaults i fallback c = (case js_map_get (co_stored c) i of
     Some w \<Rightarrow> w
   | None \<Rightarrow> (case js_map_get defaults i of Some w \<Rightarrow> w | None \<Rightarrow> fallback))"

definition column_preview :: "string \<Rightarrow> rat \<Rightarrow> Columns \<Rightarrow> Columns" where
  "column_preview i w c = c\<lparr>co_stored := js_map_set (co_stored c) i (column_clamp w (co_min c))\<rparr>"

definition column_commit :: "string \<Rightarrow> rat \<Rightarrow> Columns \<Rightarrow> Columns" where
  "column_commit i w c =
     (let next = js_map_set (co_stored c) i (column_clamp w (co_min c))
      in c\<lparr>co_stored := next, co_setting := columns_save next\<rparr>)"

definition column_reset :: "string \<Rightarrow> Columns \<Rightarrow> Columns" where
  "column_reset i c =
     (let next = filter (\<lambda>e. fst e \<noteq> i) (co_stored c)
      in c\<lparr>co_stored := next, co_setting := columns_save next\<rparr>)"

section \<open>One operation at a time\<close>

inductive op_reach :: "string \<Rightarrow> 'o RepoOperation \<Rightarrow> bool" for r0 where
  mount: "op_reach r0 (op_init r0)"
| progress: "op_reach r0 s \<Longrightarrow> op_reach r0 (op_progress p s)"
| run: "op_reach r0 s \<Longrightarrow> op_reach r0 (op_run op cancellable s)"
| cancel: "op_reach r0 s \<Longrightarrow> op_reach r0 (op_cancel s)"
| settle: "op_reach r0 s \<Longrightarrow> ro_pending s = Some e \<Longrightarrow> po_call e \<notin> set (ro_settling s) \<Longrightarrow>
    op_reach r0 (op_settle e r s)"
| final: "op_reach r0 s \<Longrightarrow> call \<in> set (ro_settling s) \<Longrightarrow> op_reach r0 (op_finally call s)"

fun event_op :: "'o op_event \<Rightarrow> OpName" where
  "event_op (OnDone op _) = op"
| "event_op (OnError op _) = op"
| "event_op (OnCancelled op) = op"

definition handled_ok :: "'o RepoOperation \<Rightarrow> bool" where
  "handled_ok s \<longleftrightarrow> (\<forall>(i, ev) \<in> set (ro_handled s).
     i < length (ro_started s) \<and> event_op ev = ro_started s ! i \<and> (ev = OnCancelled (event_op ev) \<longrightarrow> i \<in> set (ro_cancels s)))"

definition shown_ok :: "'o RepoOperation \<Rightarrow> bool" where
  "shown_ok s \<longleftrightarrow> (case ro_pending s of
     None \<Rightarrow> ro_state s = None
   | Some e \<Rightarrow> \<exists>st. ro_state s = Some st \<and> ro_started s \<noteq> [] \<and> os_op st = last (ro_started s) \<and>
       os_cancelling st = po_cancelled e \<and> po_cancelled e = (po_call e \<in> set (ro_cancels s)) \<and>
       (\<forall>p. os_progress st = Some p \<longrightarrow> pr_root p = ro_root s \<and> pr_op p = op_text (os_op st)))"

definition calls_ok :: "'o RepoOperation \<Rightarrow> bool" where
  "calls_ok s \<longleftrightarrow> (\<forall>i \<in> set (ro_cancels s). i < length (ro_started s)) \<and> (case ro_pending s of
     None \<Rightarrow> ro_settling s = [] \<and> map fst (ro_handled s) = [0..<length (ro_started s)]
   | Some e \<Rightarrow> Suc (po_call e) = length (ro_started s) \<and>
       (ro_settling s = [] \<and> map fst (ro_handled s) = [0..<po_call e] \<or>
        ro_settling s = [po_call e] \<and> map fst (ro_handled s) = [0..<length (ro_started s)]))"

definition op_inv :: "string \<Rightarrow> 'o RepoOperation \<Rightarrow> bool" where
  "op_inv r0 s \<longleftrightarrow> ro_root s = r0 \<and> handled_ok s \<and> shown_ok s \<and> calls_ok s"

lemmas op_inv_defs = op_inv_def handled_ok_def shown_ok_def calls_ok_def

lemma op_inv_progress: "op_inv r0 s \<Longrightarrow> op_inv r0 (op_progress p s)"
  by (auto simp: op_inv_defs op_progress_def split: option.splits)

lemma op_inv_run: "op_inv r0 s \<Longrightarrow> op_inv r0 (op_run op cancellable s)"
  by (auto simp: op_inv_defs op_run_def nth_append less_SucI split: option.splits)

lemma op_inv_cancel: "op_inv r0 s \<Longrightarrow> op_inv r0 (op_cancel s)"
  by (auto simp: op_inv_defs op_cancel_def split: option.splits)

lemma op_inv_settle:
  "op_inv r0 s \<Longrightarrow> ro_pending s = Some e \<Longrightarrow> po_call e \<notin> set (ro_settling s) \<Longrightarrow> op_inv r0 (op_settle e r s)"
  by (auto simp: op_inv_defs op_settle_def Let_def simp flip: upt_Suc_append split: sum.splits)

lemma op_inv_finally: "op_inv r0 s \<Longrightarrow> call \<in> set (ro_settling s) \<Longrightarrow> op_inv r0 (op_finally call s)"
  by (auto simp: op_inv_defs op_finally_def split: option.splits)

lemma op_reach_inv: "op_reach r0 s \<Longrightarrow> op_inv r0 s"
proof (induction rule: op_reach.induct)
  case mount
  then show ?case by (simp add: op_inv_defs op_init_def)
qed (auto intro: op_inv_progress op_inv_run op_inv_cancel op_inv_settle op_inv_finally)

lemma run_while_pending: "ro_pending s \<noteq> None \<Longrightarrow> op_run op c s = s"
  by (simp add: op_run_def)

text \<open>
  Property C8. However clicks, progress events and settlements interleave, a clone runs one operation at
  a time: a start while one is pending changes nothing, every operation but possibly the last started
  has been reported to the handlers exactly once and in the order of the starts, each report names the
  operation it is about, a cancellation is reported only for a call that was cancelled, and a bar with
  the progress of the running operation is shown exactly while it is pending.\<close>

theorem operations_run_one_by_one:
  assumes "op_reach r0 s"
  shows "map fst (ro_handled s) = [0..<length (ro_handled s)] \<and>
    length (ro_handled s) \<le> length (ro_started s) \<and> length (ro_started s) \<le> Suc (length (ro_handled s)) \<and>
    (\<forall>(i, ev) \<in> set (ro_handled s). event_op ev = ro_started s ! i \<and>
       (ev = OnCancelled (event_op ev) \<longrightarrow> i \<in> set (ro_cancels s))) \<and>
    (ro_state s = None \<longleftrightarrow> ro_pending s = None) \<and>
    (ro_pending s \<noteq> None \<longrightarrow> op_run op c s = s) \<and>
    (ro_pending s = None \<longrightarrow> length (ro_started s) = length (ro_handled s))"
proof -
  have inv: "handled_ok s" "shown_ok s" "calls_ok s"
    using op_reach_inv [OF assms] by (auto simp: op_inv_def)
  from inv(3) have len: "length (ro_handled s) = length (map fst (ro_handled s))" by simp
  have order: "map fst (ro_handled s) = [0..<length (ro_handled s)]"
    "length (ro_handled s) \<le> length (ro_started s)" "length (ro_started s) \<le> Suc (length (ro_handled s))"
    "ro_pending s = None \<longrightarrow> length (ro_started s) = length (ro_handled s)"
    using inv(3) unfolding len by (auto simp: calls_ok_def simp del: length_map split: option.splits)
  have reports: "\<forall>(i, ev) \<in> set (ro_handled s). event_op ev = ro_started s ! i \<and>
      (ev = OnCancelled (event_op ev) \<longrightarrow> i \<in> set (ro_cancels s))"
    using inv(1) by (auto simp: handled_ok_def)
  have shown: "ro_state s = None \<longleftrightarrow> ro_pending s = None"
    using inv(2) by (auto simp: shown_ok_def split: option.splits)
  from order reports shown run_while_pending show ?thesis by blast
qed

text \<open>A push is started and cancelled, an update is refused meanwhile, and the push fails.\<close>

theorem operations_run_one_by_one_witness:
  "map fst (ro_handled (op_settle \<lparr>po_call = 0, po_cancellable = True, po_cancelled = True\<rparr> (Inl ''aborted'')
     (op_run OpUpdate True (op_cancel (op_run OpPush True (op_init ''/repo'' :: unit RepoOperation)))))) = [0]"
proof -
  let ?s = "op_run OpUpdate True (op_cancel (op_run OpPush True (op_init ''/repo'' :: unit RepoOperation)))"
  let ?e = "\<lparr>po_call = 0, po_cancellable = True, po_cancelled = True\<rparr>"
  have "ro_pending ?s = Some ?e" "po_call ?e \<notin> set (ro_settling ?s)" "ro_handled ?s = []"
    by (simp_all add: op_run_def op_cancel_def op_init_def)
  moreover have "op_reach ''/repo'' ?s" by (intro op_reach.intros)
  ultimately have "op_reach ''/repo'' (op_settle ?e (Inl ''aborted'') ?s)" "ro_handled ?s = []"
    by (auto intro: op_reach.settle)
  from operations_run_one_by_one [OF this(1), of OpMerge True] this(2) show ?thesis
    by (simp add: op_settle_def)
qed

lemma progress_percent_bounds: "snd (describeProgress st) = Some k \<Longrightarrow> 0 \<le> k \<and> k \<le> 100"
  by (auto simp: describeProgress_def js_percent_nonneg split: if_splits option.splits)

lemma downloadPercent_bounds: "0 \<le> downloadPercent s \<and> downloadPercent s \<le> 100"
  by (simp add: downloadPercent_def js_percent_nonneg)

section \<open>Widths stay in bounds and survive a restart\<close>

lemma js_round_int [simp]: "js_round (of_int k) = k"
  by (simp add: js_round_def floor_unique)

lemma js_round_mono: "x \<le> y \<Longrightarrow> js_round x \<le> js_round y"
  by (simp add: js_round_def floor_mono)

lemma js_round_bounds: "of_int a \<le> x \<Longrightarrow> x \<le> of_int b \<Longrightarrow> a \<le> js_round x \<and> js_round x \<le> b"
  using js_round_mono [of "of_int a" x] js_round_mono [of x "of_int b"] by simp

lemma column_clamp_bounds: "k \<le> 1200 \<Longrightarrow> k \<le> column_clamp w (of_int k) \<and> column_clamp w (of_int k) \<le> 1200"
  unfolding column_clamp_def COLUMN_MAX_def by (rule js_round_bounds) auto

lemma column_clamp_id: "k \<le> w \<Longrightarrow> w \<le> 1200 \<Longrightarrow> column_clamp (of_int w) (of_int k) = w"
proof -
  assume "k \<le> w" "w \<le> 1200"
  then have "min COLUMN_MAX (max (of_int k) (of_int w)) = (of_int w :: rat)"
    by (simp add: COLUMN_MAX_def min_def max_def)
  then show ?thesis by (simp add: column_clamp_def)
qed

definition columns_inv :: "int \<Rightarrow> Columns \<Rightarrow> bool" where
  "columns_inv k c \<longleftrightarrow> k \<le> 1200 \<and> co_min c = of_int k \<and> distinct (js_map_keys (co_stored c)) \<and>
     (\<forall>(i, w) \<in> set (co_stored c). k \<le> w \<and> w \<le> 1200)"

lemma js_map_set_entry: "(i, w) \<in> set (js_map_set m j v) \<Longrightarrow> (i, w) \<in> set m \<or> (i = j \<and> w = v)"
  by (induction m) (auto simp: js_map_set_def split: if_splits)

lemma columns_inv_set:
  "columns_inv k c \<Longrightarrow> columns_inv k (c\<lparr>co_stored := js_map_set (co_stored c) i (column_clamp w (co_min c))\<rparr>)"
  using column_clamp_bounds [of k w]
  by (auto simp: columns_inv_def js_map.distinct_keys_put dest!: js_map_set_entry)

lemma columns_inv_setting [simp]: "columns_inv k (c\<lparr>co_setting := x\<rparr>) = columns_inv k c"
  by (simp add: columns_inv_def)

lemma load_saved:
  assumes "k \<le> 1200" and "\<forall>(i, w) \<in> set ws. k \<le> w \<and> w \<le> 1200" and "distinct (js_map_keys (m @ ws))"
  shows "fold (\<lambda>(i, w) m. js_map_set m i (column_clamp w (of_int k))) (map (\<lambda>(i, w). (i, of_int w)) ws) m = m @ ws"
  using assms
proof (induction ws arbitrary: m)
  case (Cons e ws)
  obtain i w where e: "e = (i, w)" by fastforce
  with Cons.prems have "column_clamp (of_int w) (of_int k) = w" "i \<notin> set (js_map_keys m)"
    by (auto simp: column_clamp_id js_map_keys_def)
  then show ?case using Cons.IH [of "m @ [e]"] Cons.prems e by (simp add: js_map_set_new)
qed simp

lemma load_columns_saved: "columns_inv k c \<Longrightarrow> load_columns (columns_save (co_stored c)) (co_min c) = co_stored c"
  using load_saved [of k "co_stored c" "[]"]
  by (auto simp: columns_inv_def load_columns_def columns_save_def)

inductive columns_reach :: "int \<Rightarrow> Columns \<Rightarrow> bool" for k where
  mount: "columns_reach k (columns_mount (of_int k) stored)"
| preview: "columns_reach k c \<Longrightarrow> columns_reach k (column_preview i w c)"
| commit: "columns_reach k c \<Longrightarrow> columns_reach k (column_commit i w c)"
| reset: "columns_reach k c \<Longrightarrow> columns_reach k (column_reset i c)"

lemma columns_inv_mount: "k \<le> 1200 \<Longrightarrow> columns_inv k (columns_mount (of_int k) stored)"
proof -
  assume k: "k \<le> 1200"
  have "columns_inv k \<lparr>co_min = of_int k,
      co_stored = fold (\<lambda>(i, w) m. js_map_set m i (column_clamp w (of_int k))) ws m, co_setting = st\<rparr>"
    if "columns_inv k \<lparr>co_min = of_int k, co_stored = m, co_setting = st\<rparr>" for ws m st
    using that
  proof (induction ws arbitrary: m)
    case (Cons e ws)
    obtain i w where e: "e = (i, w)" by fastforce
    have "columns_inv k \<lparr>co_min = of_int k, co_stored = js_map_set m i (column_clamp w (of_int k)), co_setting = st\<rparr>"
      using columns_inv_set [OF Cons.prems, of i w] by simp
    with Cons.IH show ?case by (simp add: e)
  qed simp
  moreover have "columns_inv k \<lparr>co_min = of_int k, co_stored = [], co_setting = stored\<rparr>"
    using k by (simp add: columns_inv_def js_map_keys_def)
  ultimately show ?thesis by (cases stored) (auto simp: columns_mount_def load_columns_def)
qed

lemma columns_inv_reset: "columns_inv k c \<Longrightarrow> columns_inv k (c\<lparr>co_stored := filter (\<lambda>e. fst e \<noteq> i) (co_stored c)\<rparr>)"
  by (auto simp: columns_inv_def js_map_keys_def distinct_map_filter)

lemma columns_reach_inv: "columns_reach k c \<Longrightarrow> k \<le> 1200 \<Longrightarrow> columns_inv k c"
  by (induction rule: columns_reach.induct)
    (auto simp: column_preview_def column_commit_def column_reset_def Let_def columns_inv_mount columns_inv_set
      columns_inv_reset)

text \<open>
  Column widths stay between the minimum and \<open>COLUMN_MAX\<close>, whatever the settings held and
  however columns are dragged, and the widths after the end of a drag or a reset are exactly those the
  next start of the application loads from the settings.\<close>

theorem column_widths_survive_restart:
  assumes "columns_reach k c" and "k \<le> 1200"
  shows "(\<forall>w. js_map_get (co_stored c) i = Some w \<longrightarrow> k \<le> w \<and> w \<le> 1200) \<and>
    columns_mount (co_min c) (co_setting (column_commit i w c)) = column_commit i w c \<and>
    columns_mount (co_min c) (co_setting (column_reset i c)) = column_reset i c"
proof (intro conjI allI impI)
  have inv: "columns_inv k c" using columns_reach_inv [OF assms] .
  show "k \<le> w" "w \<le> 1200" if "js_map_get (co_stored c) i = Some w" for w
    using that inv map_of_SomeD [of "co_stored c" i w] by (auto simp: columns_inv_def js_map_get_def)
  show "columns_mount (co_min c) (co_setting (column_commit i w c)) = column_commit i w c"
    using load_columns_saved [OF columns_inv_set [OF inv, of i w]]
    by (simp add: columns_mount_def column_commit_def Let_def)
  show "columns_mount (co_min c) (co_setting (column_reset i c)) = column_reset i c"
    using load_columns_saved [OF columns_inv_reset [OF inv, of i]]
    by (simp add: columns_mount_def column_reset_def Let_def)
qed

theorem column_widths_survive_restart_witness:
  "columns_mount 48 (co_setting (column_commit ''path'' (5001 / 2) (columns_mount 48 None))) =
     \<lparr>co_min = 48, co_stored = [(''path'', 1200)], co_setting = Some [(''path'', 1200)]\<rparr>"
proof -
  have "\<lfloor>2401 / 2 :: rat\<rfloor> = 1200" by (rule floor_unique) simp_all
  moreover have "columns_reach 48 (columns_mount 48 None)" using columns_reach.mount [of 48 None] by simp
  ultimately show ?thesis
    using column_widths_survive_restart [of 48 "columns_mount 48 None" "''path''" "5001 / 2"]
    by (simp add: columns_mount_def column_commit_def load_columns_def js_map_set_def column_clamp_def COLUMN_MAX_def
        columns_save_def js_round_def)
qed

lemma clampWidth_bounds:
  assumes "k \<le> l" and "container = map_option of_int c"
  shows "k \<le> clampWidth w (of_int k) (of_int l) container \<and>
    clampWidth w (of_int k) (of_int l) container \<le> max k (case c of Some c \<Rightarrow> min l (c - 320) | None \<Rightarrow> l)"
proof -
  let ?u = "max k (case c of Some c \<Rightarrow> min l (c - 320) | None \<Rightarrow> l)"
  have u: "max (of_int k) (case container of Some c \<Rightarrow> min (of_int l) (c - RESERVED_MAIN) | None \<Rightarrow> of_int l) = (of_int ?u :: rat)"
    using assms by (auto simp: RESERVED_MAIN_def max_def min_def split: option.splits)
  show ?thesis unfolding clampWidth_def Let_def u by (rule js_round_bounds) auto
qed

end
