(* ===== verification/Working_Copy.thy ===== *)
theory Working_Copy
  imports Desktop_Hooks Conflicts
begin

text \<open>
  The working copy in the desktop client: the changed files and the selection in them
  (\<open>ChangesView.tsx\<close>, \<open>FileList.tsx\<close>, \<open>FileIcon.tsx\<close>), the push box (\<open>CommitBox.tsx\<close>), and \<open>RepoView.tsx\<close>,
  which runs the operations on the clone, reports their outcomes and shows the banners of a waiting
  merge or revert. Answers of the service are inputs; markup is left out.
\<close>

section \<open>Data\<close>

record FileChange =
  fc_path :: string
  fc_status :: string
  fc_kind :: string

text \<open>The answer of the service, with its \<open>null\<close>s, and the change set made of it.\<close>

record Changes =
  ch_branch :: string
  ch_detached :: "string option"
  ch_staged :: "FileChange list option"
  ch_unstaged :: "FileChange list option"
  ch_conflicts :: "string list option"
  ch_resolved :: "string list option"
  ch_pending :: "string option"
  ch_pendingRemaining :: "int option"

datatype PendingKind = PendingMerge | PendingRevert

record ChangeSet =
  cs_branch :: string
  cs_detached :: "string option"
  cs_pending :: "PendingKind option"
  cs_pendingRemaining :: int
  cs_staged :: "FileChange list"
  cs_unstaged :: "FileChange list"
  cs_conflicts :: "string list"
  cs_resolved :: "string list"

definition or_empty :: "'a list option \<Rightarrow> 'a list" where
  "or_empty xs = (case xs of Some l \<Rightarrow> l | None \<Rightarrow> [])"

definition changeSet :: "Changes \<Rightarrow> ChangeSet" where
  "changeSet c =
     \<lparr>cs_branch = ch_branch c,
      cs_detached = (case ch_detached c of Some d \<Rightarrow> if d = [] then None else Some d | None \<Rightarrow> None),
      cs_pending = (if ch_pending c = Some ''merge'' then Some PendingMerge
                    else if ch_pending c = Some ''revert'' then Some PendingRevert else None),
      cs_pendingRemaining = (case ch_pendingRemaining c of Some n \<Rightarrow> n | None \<Rightarrow> 0),
      cs_staged = or_empty (ch_staged c), cs_unstaged = or_empty (ch_unstaged c),
      cs_conflicts = or_empty (ch_conflicts c), cs_resolved = or_empty (ch_resolved c)\<rparr>"

record FileLockState =
  ls_path :: string
  ls_state :: string
  ls_lockPath :: string
  ls_heldByName :: string
  ls_tracked :: bool

record MetaWarning =
  mw_path :: string
  mw_kind :: string
  mw_related :: string
  mw_message :: string

section \<open>Selection\<close>

record Selection =
  sl_path :: string
  sl_staged :: bool

definition firstFile :: "ChangeSet \<Rightarrow> Selection option" where
  "firstFile c = (case cs_staged c of
     f # _ \<Rightarrow> Some \<lparr>sl_path = fc_path f, sl_staged = True\<rparr>
   | [] \<Rightarrow> (case cs_unstaged c of
       f # _ \<Rightarrow> Some \<lparr>sl_path = fc_path f, sl_staged = False\<rparr>
     | [] \<Rightarrow> None))"

definition has_path :: "FileChange list \<Rightarrow> string \<Rightarrow> bool" where
  "has_path fs p \<longleftrightarrow> list_ex (\<lambda>f. fc_path f = p) fs"

definition stillListed :: "ChangeSet \<Rightarrow> Selection option \<Rightarrow> Selection option" where
  "stillListed c sel = (case sel of
     None \<Rightarrow> None
   | Some sl \<Rightarrow>
       if has_path (if sl_staged sl then cs_staged c else cs_unstaged c) (sl_path sl) then Some sl
       else if has_path (if sl_staged sl then cs_unstaged c else cs_staged c) (sl_path sl)
       then Some \<lparr>sl_path = sl_path sl, sl_staged = \<not> sl_staged sl\<rparr> else None)"

definition selected_file :: "ChangeSet \<Rightarrow> Selection option \<Rightarrow> Selection option" where
  "selected_file c picked = (case stillListed c picked of Some sl \<Rightarrow> Some sl | None \<Rightarrow> firstFile c)"

text \<open>A click on a warning of the Unity metadata; \<open>None\<close> leaves the selection.\<close>

definition select_warning :: "ChangeSet \<Rightarrow> MetaWarning \<Rightarrow> Selection option" where
  "select_warning c w =
     (case find (\<lambda>p. has_path (cs_staged c) p \<or> has_path (cs_unstaged c) p) [mw_path w, mw_related w] of
        Some p \<Rightarrow> Some \<lparr>sl_path = p, sl_staged = has_path (cs_staged c) p\<rparr>
      | None \<Rightarrow> None)"

definition add_warning :: "MetaWarning \<Rightarrow> (string, string) js_map \<Rightarrow> (string, string) js_map" where
  "add_warning w m = fold (\<lambda>p m. if js_map_has m p then m else js_map_set m p (mw_path w @ '': '' @ mw_message w))
     [mw_path w, mw_related w] m"

definition warnings_map :: "MetaWarning list \<Rightarrow> (string, string) js_map" where
  "warnings_map ws = fold add_warning ws []"

definition metaKinds :: "string \<Rightarrow> string" where
  "metaKinds kind = (case map_of [(''missing-meta'', ''Missing .meta''), (''orphan-meta'', ''Orphan .meta''),
     (''meta-not-staged'', ''.meta not staged''), (''guid-changed'', ''GUID changed'')] kind of
     Some l \<Rightarrow> l | None \<Rightarrow> kind)"

section \<open>The list of files\<close>

datatype Row = HeaderRow bool nat | FileRow bool FileChange

definition section_rows :: "bool \<Rightarrow> FileChange list \<Rightarrow> Row list" where
  "section_rows staged fs = (if fs \<noteq> [] then HeaderRow staged (length fs) # map (FileRow staged) fs else [])"

definition buildRows :: "ChangeSet \<Rightarrow> Row list" where
  "buildRows c = section_rows True (cs_staged c) @ section_rows False (cs_unstaged c)"

fun is_file_row :: "Row \<Rightarrow> bool" where
  "is_file_row (FileRow _ _) = True"
| "is_file_row (HeaderRow _ _) = False"

definition fileIndexes :: "Row list \<Rightarrow> nat list" where
  "fileIndexes rows = filter (\<lambda>i. is_file_row (rows ! i)) [0..<length rows]"

fun row_selection :: "Row \<Rightarrow> Selection option" where
  "row_selection (FileRow staged f) = Some \<lparr>sl_path = fc_path f, sl_staged = staged\<rparr>"
| "row_selection (HeaderRow _ _) = None"

definition selectedIndex :: "Row list \<Rightarrow> Selection option \<Rightarrow> nat option" where
  "selectedIndex rows sel = (case sel of
     None \<Rightarrow> None
   | Some _ \<Rightarrow> js_findIndex (\<lambda>r. row_selection r = sel) rows)"

text \<open>
  \<open>onKeyDown\<close> for an arrow key: the position of the selected row in \<open>fileIndexes\<close>, or \<open>-1\<close>, moved by one
  and kept in range; \<open>None\<close> when there is no file.
\<close>

definition arrow_key :: "Row list \<Rightarrow> Selection option \<Rightarrow> bool \<Rightarrow> Selection option" where
  "arrow_key rows sel down =
     (let ixs = fileIndexes rows;
          pos = (case selectedIndex rows sel of
                   None \<Rightarrow> -1
                 | Some i \<Rightarrow> (case js_indexOf ixs i 0 of Some k \<Rightarrow> int k | None \<Rightarrow> -1));
          next = max 0 (min (int (length ixs) - 1) (pos + (if down then 1 else -1)))
      in if nat next < length ixs then row_selection (rows ! (ixs ! nat next)) else None)"

text \<open>The paths a click on a section header stages or unstages.\<close>

definition section_paths :: "ChangeSet \<Rightarrow> bool \<Rightarrow> string list" where
  "section_paths c staged = map fc_path (if staged then cs_staged c else cs_unstaged c)"

definition discardable :: "bool \<Rightarrow> FileChange \<Rightarrow> bool" where
  "discardable staged f \<longleftrightarrow> \<not> staged \<and> fc_status f \<noteq> ''untracked''"

definition statuses_table :: "(string \<times> string \<times> string) list" where
  "statuses_table = [(''added'', ''A'', ''Added''), (''untracked'', ''U'', ''New, not tracked yet''),
     (''modified'', ''M'', ''Modified''), (''deleted'', ''D'', ''Deleted''), (''renamed'', ''R'', ''Renamed'')]"

definition StatusLetter :: "string \<Rightarrow> string \<times> string" where
  "StatusLetter status = (case map_of statuses_table status of Some l \<Rightarrow> l | None \<Rightarrow> (''?'', status))"

text \<open>The badge of a lock: its label and whether a click locks the file; \<open>None\<close> shows nothing.\<close>

definition LockBadge :: "FileLockState \<Rightarrow> bool \<Rightarrow> (string \<times> bool) option" where
  "LockBadge l canLock =
     (if ls_state l = ''mine'' then Some (''Locked by you'', False)
      else if ls_state l = ''theirs'' then
        Some (''Locked by '' @ (if ls_heldByName l \<noteq> [] then ls_heldByName l else ''someone else'') @
          (if ls_lockPath l \<noteq> ls_path l then '' (folder '' @ ls_lockPath l @ '')'' else []), False)
      else if \<not> canLock then (if ls_state l = ''needed'' then Some (''Needs a lock to push'', False) else None)
      else Some (if ls_state l = ''needed'' then ''Needs a lock to push: lock it'' else ''Lock this file'', True))"

section \<open>Locks and the push box\<close>

definition lockStateMap :: "FileLockState list \<Rightarrow> (string, FileLockState) js_map" where
  "lockStateMap fs = fold (\<lambda>f m. js_map_set m (ls_path f) f) fs []"

definition plural :: "nat \<Rightarrow> string \<Rightarrow> string" where
  "plural n word = js_show_nat n @ '' '' @ word @ (if n = 1 then [] else ''s'')"

text \<open>A message, and the paths its button locks.\<close>

record LockIssue =
  li_message :: string
  li_lock :: "string list option"

definition staged_locks :: "ChangeSet \<Rightarrow> (string, FileLockState) js_map \<Rightarrow> FileLockState list" where
  "staged_locks c states = List.map_filter (\<lambda>f. js_map_get states (fc_path f)) (cs_staged c)"

definition stagedLockIssue :: "ChangeSet \<Rightarrow> (string, FileLockState) js_map \<Rightarrow> LockIssue option" where
  "stagedLockIssue c states =
     (let staged = staged_locks c states;
          theirs = filter (\<lambda>s. ls_state s = ''theirs'') staged;
          needed = filter (\<lambda>s. ls_state s = ''needed'') staged
      in case theirs of
           f # fs \<Rightarrow> Some \<lparr>li_message = ls_path f @ '' is locked by '' @
               (if ls_heldByName f \<noteq> [] then ls_heldByName f else ''someone else'') @
               (if fs \<noteq> [] then '' (+'' @ js_show_nat (length fs) @ '' more)'' else []) @
               ''. Unstage it or ask them to release the lock.'', li_lock = None\<rparr>
         | [] \<Rightarrow>
             if needed = [] then None
             else Some \<lparr>li_message = plural (length needed) ''staged file'' @
                 (if length needed = 1 then '' needs'' else '' need'') @ '' a lock before you can push.'',
               li_lock = Some (map ls_path needed)\<rparr>)"

definition blocked_reason :: "ChangeSet \<Rightarrow> string option" where
  "blocked_reason c = map_option (\<lambda>d. ''HEAD is at tag '' @ d @ ''. Switch to a branch to push.'') (cs_detached c)"

definition open_conflicts :: "ChangeSet \<Rightarrow> nat" where
  "open_conflicts c = length (filter (\<lambda>p. p \<notin> set (cs_resolved c)) (cs_conflicts c))"

definition canPush :: "nat \<Rightarrow> string option \<Rightarrow> LockIssue option \<Rightarrow> OpState option \<Rightarrow> bool \<Rightarrow> string \<Rightarrow> bool" where
  "canPush stagedCount blockedReason lockIssue op busy message \<longleftrightarrow>
     stagedCount > 0 \<and> js_trim message \<noteq> [] \<and> op = None \<and> \<not> busy \<and>
     (case blockedReason of Some r \<Rightarrow> r = [] | None \<Rightarrow> True) \<and> lockIssue = None"

text \<open>\<open>submit\<close> of the push box in the changes view: the message it pushes.\<close>

definition commit_submit ::
  "ChangeSet \<Rightarrow> (string, FileLockState) js_map \<Rightarrow> OpState option \<Rightarrow> bool \<Rightarrow> string \<Rightarrow> string option" where
  "commit_submit c states op mutating message =
     (let blocked = blocked_reason c;
          lockIssue = (if blocked \<noteq> None then None else stagedLockIssue c states);
          pushing = (case op of Some st \<Rightarrow> if os_op st = OpPush then op else None | None \<Rightarrow> None);
          busy = mutating \<or> op \<noteq> None
      in if canPush (length (cs_staged c)) blocked lockIssue pushing busy message then Some (js_trim message) else None)"

definition push_label :: "nat \<Rightarrow> string" where
  "push_label n = (if n > 0 then ''Push '' @ plural n ''file'' else ''Push'')"

section \<open>The view of a clone\<close>

record MergeOutcome =
  mo_upToDate :: bool
  mo_fastForwarded :: bool
  mo_mergeCommitted :: bool
  mo_aborted :: bool
  mo_conflicts :: "string list option"

record RevertOutcome =
  rt_committed :: bool
  rt_noChange :: bool
  rt_skipped :: bool
  rt_aborted :: bool
  rt_conflicts :: "string list option"

record OpOutcome =
  oo_branch :: "string option"
  oo_commitId :: "string option"
  oo_commitHash :: "string option"
  oo_revert :: "RevertOutcome option"
  oo_merge :: "MergeOutcome option"

datatype Tone = ToneError | ToneSuccess

type_synonym notice = "string \<times> Tone option"

definition describeMerge :: "OpOutcome \<Rightarrow> string \<Rightarrow> notice" where
  "describeMerge outcome branch =
     (let conflicts = (case oo_merge outcome of Some m \<Rightarrow> or_empty (mo_conflicts m) | None \<Rightarrow> []);
          flag = (\<lambda>f. case oo_merge outcome of Some m \<Rightarrow> f m | None \<Rightarrow> False)
      in if conflicts \<noteq> [] then (''The merge stopped: '' @ plural (length conflicts) ''file'' @
             '' conflict. Resolve them, then finish the merge.'', Some ToneError)
         else if flag mo_aborted then (''Merge aborted; the clone is back at the branch head'', Some ToneSuccess)
         else if flag mo_upToDate then (branch @ '' already has those changes'', Some ToneSuccess)
         else if flag mo_fastForwarded then (''Fast-forwarded '' @ branch, Some ToneSuccess)
         else (''Merged and pushed to '' @ branch, Some ToneSuccess))"

definition describeRevert :: "OpOutcome \<Rightarrow> notice" where
  "describeRevert outcome =
     (let conflicts = (case oo_revert outcome of Some r \<Rightarrow> or_empty (rt_conflicts r) | None \<Rightarrow> []);
          flag = (\<lambda>f. case oo_revert outcome of Some r \<Rightarrow> f r | None \<Rightarrow> False)
      in if conflicts \<noteq> [] then (''Revert stopped: '' @ plural (length conflicts) ''file'' @
             '' conflict. Resolve them, then continue.'', Some ToneError)
         else if flag rt_aborted then (''Revert aborted; the clone is back where it was'', Some ToneSuccess)
         else if flag rt_skipped then (''Skipped that commit'', Some ToneSuccess)
         else if flag rt_noChange then (''Nothing to revert: the changes are already gone'', Some ToneSuccess)
         else (''Reverted and pushed'', Some ToneSuccess))"

datatype TabId = TChanges | TConflicts | THistory | TBranches | TMrs | TLocks | TDetails

text \<open>The calls an operation starts.\<close>

datatype StartCall = SPush string | SUpdate | SSwitch string | SCheckoutTag string | SRevertMode string
  | SRevertCommit string | SMerge string | SAbortMerge | SSetSparse "string list"

record RepoView =
  vw_branch :: string
  vw_tab :: TabId
  vw_updated :: bool
  vw_message :: string
  vw_finishing :: bool
  vw_tagCheckout :: string
  vw_op :: "OpOutcome RepoOperation"
  vw_calls :: "StartCall list"
  vw_notices :: "notice list"

definition view_init :: "string \<Rightarrow> string \<Rightarrow> RepoView" where
  "view_init r0 branch = \<lparr>vw_branch = branch, vw_tab = TChanges, vw_updated = False, vw_message = [],
     vw_finishing = False, vw_tagCheckout = [], vw_op = op_init r0, vw_calls = [], vw_notices = []\<rparr>"

definition view_notify :: "notice \<Rightarrow> RepoView \<Rightarrow> RepoView" where
  "view_notify n v = v\<lparr>vw_notices := vw_notices v @ [n]\<rparr>"

text \<open>\<open>operation.run\<close>; every call of the service can be cancelled.\<close>

definition view_run :: "OpName \<Rightarrow> StartCall \<Rightarrow> RepoView \<Rightarrow> RepoView" where
  "view_run op call v =
     (if ro_pending (vw_op v) \<noteq> None then v
      else v\<lparr>vw_op := op_run op True (vw_op v), vw_calls := vw_calls v @ [call]\<rparr>)"

definition switchTo :: "string \<Rightarrow> RepoView \<Rightarrow> RepoView" where
  "switchTo branch v = view_run OpSwitch (SSwitch branch) (v\<lparr>vw_tagCheckout := []\<rparr>)"

definition checkoutTag :: "string \<Rightarrow> RepoView \<Rightarrow> RepoView" where
  "checkoutTag name v = view_run OpSwitch (SCheckoutTag name) (v\<lparr>vw_tagCheckout := name\<rparr>)"

definition view_revert :: "string \<Rightarrow> RepoView \<Rightarrow> RepoView" where
  "view_revert mode v = view_run OpRevert (SRevertMode mode) v"

definition view_merge :: "string \<Rightarrow> RepoView \<Rightarrow> RepoView" where
  "view_merge source v = view_run OpMerge (SMerge source) v"

definition abortMerge :: "RepoView \<Rightarrow> RepoView" where
  "abortMerge v = view_run OpMerge SAbortMerge v"

definition finishMerge :: "string option \<Rightarrow> RepoView \<Rightarrow> RepoView" where
  "finishMerge source v =
     view_run OpPush (SPush (case source of
         Some s \<Rightarrow> if s \<noteq> [] then ''Merge branch '' @ [CHR 0x27] @ s @ [CHR 0x27] @ '' into '' @ [CHR 0x27] @ vw_branch v @ [CHR 0x27]
                   else ''Merge into '' @ [CHR 0x27] @ vw_branch v @ [CHR 0x27]
       | None \<Rightarrow> ''Merge into '' @ [CHR 0x27] @ vw_branch v @ [CHR 0x27]))
       (v\<lparr>vw_finishing := True\<rparr>)"

definition view_push :: "string \<Rightarrow> RepoView \<Rightarrow> RepoView" where
  "view_push msg v = view_run OpPush (SPush msg) v"

definition opLabel :: "OpName \<Rightarrow> string" where
  "opLabel op = (case op of OpPush \<Rightarrow> ''Push'' | OpUpdate \<Rightarrow> ''Update'' | OpSparse \<Rightarrow> ''Checkout change''
     | OpClone \<Rightarrow> ''Clone'' | OpSwitch \<Rightarrow> ''Switch'' | OpRevert \<Rightarrow> ''Revert'' | OpMerge \<Rightarrow> ''Merge'')"

definition or_text :: "string option \<Rightarrow> string \<Rightarrow> string" where
  "or_text a b = (case a of Some s \<Rightarrow> if s \<noteq> [] then s else b | None \<Rightarrow> b)"

definition view_onDone :: "OpName \<Rightarrow> OpOutcome \<Rightarrow> RepoView \<Rightarrow> RepoView" where
  "view_onDone op outcome v =
     (case op of
        OpPush \<Rightarrow>
          view_notify ((if vw_finishing v then ''Merged and pushed'' else ''Pushed'') @ '' to '' @ vw_branch v @
            (case oo_commitId outcome of Some i \<Rightarrow> if i \<noteq> [] then '' ('' @ i @ '')'' else [] | None \<Rightarrow> []), Some ToneSuccess)
            (v\<lparr>vw_message := [], vw_finishing := False\<rparr>)
      | OpRevert \<Rightarrow>
          (let w = view_notify (describeRevert outcome) v in
           if (case oo_revert outcome of Some r \<Rightarrow> or_empty (rt_conflicts r) \<noteq> [] | None \<Rightarrow> False)
           then w\<lparr>vw_tab := TConflicts\<rparr> else w)
      | OpMerge \<Rightarrow>
          (let w = view_notify (describeMerge outcome (vw_branch v)) v in
           if (case oo_merge outcome of Some m \<Rightarrow> or_empty (mo_conflicts m) \<noteq> [] | None \<Rightarrow> False)
           then w\<lparr>vw_tab := TConflicts\<rparr> else w)
      | _ \<Rightarrow>
          view_notify
            (if op = OpSparse then ''Checkout updated''
             else if op = OpSwitch then
               (if vw_tagCheckout v \<noteq> [] then ''Checked out tag '' @ vw_tagCheckout v
                else ''Switched to '' @ or_text (oo_branch outcome) (vw_branch v))
             else ''Up to date with '' @ or_text (oo_branch outcome) (vw_branch v), Some ToneSuccess)
            (v\<lparr>vw_updated := True\<rparr>))"

definition view_onError :: "OpName \<Rightarrow> string \<Rightarrow> RepoView \<Rightarrow> RepoView" where
  "view_onError op err v = view_notify (opLabel op @ '' failed: '' @ err, None) (v\<lparr>vw_finishing := False\<rparr>)"

definition view_onCancelled :: "OpName \<Rightarrow> RepoView \<Rightarrow> RepoView" where
  "view_onCancelled op v = view_notify (opLabel op @ '' cancelled'', None) v"

text \<open>A call settles: the operation hook calls the handler of the view.\<close>

definition view_settle :: "PendingOp \<Rightarrow> string + OpOutcome \<Rightarrow> RepoView \<Rightarrow> RepoView" where
  "view_settle e r v =
     (let w = v\<lparr>vw_op := op_settle e r (vw_op v)\<rparr> in
      case snd (last (ro_handled (vw_op w))) of
        OnDone op outcome \<Rightarrow> view_onDone op outcome w
      | OnError op err \<Rightarrow> view_onError op err w
      | OnCancelled op \<Rightarrow> view_onCancelled op w)"

definition view_finally :: "nat \<Rightarrow> RepoView \<Rightarrow> RepoView" where
  "view_finally call v = v\<lparr>vw_op := op_finally call (vw_op v)\<rparr>"

definition view_cancel :: "RepoView \<Rightarrow> RepoView" where
  "view_cancel v = v\<lparr>vw_op := op_cancel (vw_op v)\<rparr>"

definition hasConflicts :: "ChangeSet \<Rightarrow> bool" where
  "hasConflicts c \<longleftrightarrow> cs_pending c \<noteq> None \<and> cs_conflicts c \<noteq> []"

definition current_tab :: "ChangeSet option \<Rightarrow> RepoView \<Rightarrow> TabId" where
  "current_tab c v =
     (if vw_tab v = TConflicts \<and> \<not> (case c of Some d \<Rightarrow> hasConflicts d | None \<Rightarrow> False) then TChanges else vw_tab v)"

section \<open>Banners\<close>

text \<open>A banner: its text and its buttons, each with whether it is enabled.\<close>

datatype BannerButton = BResolve | BContinue | BSkip | BAbortRevert | BFinish | BAbortMerge | BSwitchBack

record Banner =
  bn_text :: string
  bn_buttons :: "(BannerButton \<times> bool) list"

definition Banners :: "ChangeSet \<Rightarrow> string option \<Rightarrow> string \<Rightarrow> bool \<Rightarrow> Banner option" where
  "Banners c source branch busy =
     (let left = open_conflicts c;
          resolve = (if left > 0 then [(BResolve, \<not> busy)] else [])
      in case cs_pending c of
           Some PendingRevert \<Rightarrow> Some \<lparr>bn_text =
               (if left > 0 then ''A revert is waiting: '' @ plural left ''conflicting file'' @ ''. Fix '' @
                    (if left = 1 then ''it'' else ''them'') @ '', then continue.''
                else ''A revert is waiting to be continued.'') @
               (if cs_pendingRemaining c > 1
                then '' '' @ js_show_int (cs_pendingRemaining c - 1) @ '' more commit'' @
                     (if cs_pendingRemaining c = 2 then [] else ''s'') @ '' to revert after this one.'' else []),
             bn_buttons = resolve @ [(BContinue, \<not> (busy \<or> left > 0)), (BSkip, \<not> busy), (BAbortRevert, \<not> busy)]\<rparr>
         | Some PendingMerge \<Rightarrow> Some \<lparr>bn_text =
               (case source of Some s \<Rightarrow> if s \<noteq> [] then ''Merging '' @ s @ '' into '' @ branch @ '': '' else ''A merge is waiting: ''
                | None \<Rightarrow> ''A merge is waiting: '') @
               (if left > 0 then plural left ''conflicting file'' @ '' left to resolve.''
                else ''everything is resolved. Finish to push the merge commit.''),
             bn_buttons = resolve @ [(BFinish, \<not> (busy \<or> left > 0)), (BAbortMerge, \<not> busy)]\<rparr>
         | None \<Rightarrow> (case cs_detached c of
             Some d \<Rightarrow> Some \<lparr>bn_text = ''Checked out at tag '' @ d @
                 ''. You can look and build, but not push: switch back to a branch to make changes.'',
               bn_buttons = [(BSwitchBack, \<not> busy)]\<rparr>
           | None \<Rightarrow> None))"

section \<open>The number of new commits on the update button\<close>

definition incoming_count :: "RepoView \<Rightarrow> ChangeSet option \<Rightarrow> nat option \<Rightarrow> nat" where
  "incoming_count v c activity =
     (if vw_updated v \<or> (case c of Some d \<Rightarrow> cs_detached d \<noteq> None | None \<Rightarrow> False) then 0
      else case activity of Some n \<Rightarrow> n | None \<Rightarrow> 0)"

definition incomingLabel :: "nat \<Rightarrow> string" where
  "incomingLabel n = (if n \<ge> 100 then ''100+'' else js_show_nat n)"

section \<open>The selection follows the files\<close>

lemma has_path_iff: "has_path fs p \<longleftrightarrow> p \<in> fc_path ` set fs"
  by (auto simp: has_path_def list_ex_iff)

lemma firstFile_listed:
  "firstFile c = Some sl \<Longrightarrow> has_path (if sl_staged sl then cs_staged c else cs_unstaged c) (sl_path sl)"
  by (auto simp: firstFile_def has_path_def split: list.splits)

lemma firstFile_None: "firstFile c = None \<longleftrightarrow> cs_staged c = [] \<and> cs_unstaged c = []"
  by (auto simp: firstFile_def split: list.splits)

lemma stillListed_listed:
  "stillListed c picked = Some sl \<Longrightarrow> has_path (if sl_staged sl then cs_staged c else cs_unstaged c) (sl_path sl)"
  by (auto simp: stillListed_def split: option.splits if_splits)

text \<open>
  The file whose diff is shown is always one of the listed files, in the section it is
  listed in; there is none only when nothing is changed; and a file the user picked stays selected as
  long as it is listed at all, also when staging or unstaging moves it to the other section.\<close>

theorem selection_follows_file:
  "(selected_file c picked = None \<longleftrightarrow> cs_staged c = [] \<and> cs_unstaged c = []) \<and>
   (selected_file c picked = Some sl \<longrightarrow>
      has_path (if sl_staged sl then cs_staged c else cs_unstaged c) (sl_path sl)) \<and>
   (picked = Some pk \<longrightarrow> has_path (cs_staged c) (sl_path pk) \<or> has_path (cs_unstaged c) (sl_path pk) \<longrightarrow>
      (\<exists>sl. selected_file c picked = Some sl \<and> sl_path sl = sl_path pk \<and>
         (has_path (if sl_staged pk then cs_staged c else cs_unstaged c) (sl_path pk) \<longrightarrow> sl = pk)))"
proof (intro conjI impI)
  show "selected_file c picked = None \<longleftrightarrow> cs_staged c = [] \<and> cs_unstaged c = []"
    using stillListed_listed [of c picked] firstFile_None [of c]
    by (auto simp: selected_file_def has_path_def split: option.splits if_splits)
  show "has_path (if sl_staged sl then cs_staged c else cs_unstaged c) (sl_path sl)"
    if "selected_file c picked = Some sl"
    using that stillListed_listed [of c picked sl] firstFile_listed [of c sl]
    by (cases "stillListed c picked") (simp_all add: selected_file_def)
  show "\<exists>sl. selected_file c picked = Some sl \<and> sl_path sl = sl_path pk \<and>
      (has_path (if sl_staged pk then cs_staged c else cs_unstaged c) (sl_path pk) \<longrightarrow> sl = pk)"
    if "picked = Some pk" "has_path (cs_staged c) (sl_path pk) \<or> has_path (cs_unstaged c) (sl_path pk)"
    using that by (auto simp: selected_file_def stillListed_def)
qed

definition demo_change :: "string \<Rightarrow> FileChange" where
  "demo_change p = \<lparr>fc_path = p, fc_status = ''modified'', fc_kind = ''text''\<rparr>"

definition demo_changes :: ChangeSet where
  "demo_changes = \<lparr>cs_branch = ''main'', cs_detached = None, cs_pending = None, cs_pendingRemaining = 0,
     cs_staged = [demo_change ''b''], cs_unstaged = [demo_change ''a''], cs_conflicts = [], cs_resolved = []\<rparr>"

theorem selection_follows_file_witness:
  "\<exists>sl. selected_file demo_changes (Some \<lparr>sl_path = ''b'', sl_staged = False\<rparr>) = Some sl \<and> sl_path sl = ''b''"
  using selection_follows_file [of demo_changes "Some \<lparr>sl_path = ''b'', sl_staged = False\<rparr>" _
      "\<lparr>sl_path = ''b'', sl_staged = False\<rparr>"]
  by (auto simp: demo_changes_def demo_change_def has_path_def)

section \<open>Arrow keys\<close>

text \<open>The files in the order of the list.\<close>

definition file_order :: "ChangeSet \<Rightarrow> Selection list" where
  "file_order c = map (\<lambda>f. \<lparr>sl_path = fc_path f, sl_staged = True\<rparr>) (cs_staged c) @
     map (\<lambda>f. \<lparr>sl_path = fc_path f, sl_staged = False\<rparr>) (cs_unstaged c)"

lemma map_fileIndexes: "map ((!) rows) (fileIndexes rows) = filter is_file_row rows"
proof -
  have "map ((!) rows) (fileIndexes rows) = filter is_file_row (map ((!) rows) [0..<length rows])"
    by (simp add: fileIndexes_def filter_map comp_def)
  then show ?thesis by (simp add: map_nth)
qed

lemma section_file_rows: "filter is_file_row (section_rows b fs) = map (FileRow b) fs"
  by (induction fs) (auto simp: section_rows_def)

lemma file_rows: "map row_selection (filter is_file_row (buildRows c)) = map Some (file_order c)"
  by (simp add: buildRows_def section_file_rows file_order_def)

lemma fileIndexes_selection:
  "map (\<lambda>i. row_selection (buildRows c ! i)) (fileIndexes (buildRows c)) = map Some (file_order c)"
  unfolding file_rows [symmetric] map_fileIndexes [symmetric] by (simp add: comp_def)

lemma length_fileIndexes: "length (fileIndexes (buildRows c)) = length (file_order c)"
  using arg_cong [OF fileIndexes_selection, of length] by simp

lemma nth_fileIndexes:
  "k < length (file_order c) \<Longrightarrow> row_selection (buildRows c ! (fileIndexes (buildRows c) ! k)) = Some (file_order c ! k)"
  using arg_cong [OF fileIndexes_selection [of c], of "\<lambda>l. l ! k"] by (simp add: length_fileIndexes)

lemma fileIndexes_props: "distinct (fileIndexes rows)"
  "i \<in> set (fileIndexes rows) \<longleftrightarrow> i < length rows \<and> is_file_row (rows ! i)"
  by (auto simp: fileIndexes_def)

lemma selected_position:
  assumes "distinct (file_order c)" and "k < length (file_order c)"
  shows "selectedIndex (buildRows c) (Some (file_order c ! k)) = Some (fileIndexes (buildRows c) ! k)"
proof -
  let ?rows = "buildRows c" and ?ixs = "fileIndexes (buildRows c)"
  have k: "k < length ?ixs" using assms(2) by (simp add: length_fileIndexes)
  then have mem: "?ixs ! k \<in> set ?ixs" by simp
  have "row_selection (?rows ! j) \<noteq> Some (file_order c ! k)" if j: "j < ?ixs ! k" for j
  proof
    assume sel: "row_selection (?rows ! j) = Some (file_order c ! k)"
    then have "is_file_row (?rows ! j)" by (cases "?rows ! j") auto
    moreover have "j < length ?rows" using j mem fileIndexes_props(2) [of "?ixs ! k" ?rows] by simp
    ultimately have "j \<in> set ?ixs" by (simp add: fileIndexes_props(2))
    then obtain i where i: "i < length ?ixs" "?ixs ! i = j" by (auto simp: in_set_conv_nth)
    with sel nth_fileIndexes [of i c] have "file_order c ! i = file_order c ! k" by (simp add: length_fileIndexes)
    with assms i(1) have "i = k" by (simp add: nth_eq_iff_index_eq length_fileIndexes)
    with i(2) j show False by simp
  qed
  then show ?thesis
    using mem nth_fileIndexes [OF assms(2)] fileIndexes_props(2) [of "?ixs ! k" ?rows]
    by (simp add: selectedIndex_def js_findIndex_Some)
qed

lemma position_in_indexes: "k < length ixs \<Longrightarrow> distinct ixs \<Longrightarrow> js_indexOf ixs (ixs ! k) 0 = Some k"
  by (auto simp: js_indexOf_Some nth_eq_iff_index_eq)

text \<open>
  The arrow keys walk through the changed files, staged ones first: down goes to the next
  file and stays at the last, up goes to the previous file and stays at the first; section headers are
  skipped, and with nothing selected both go to the first file.\<close>

theorem arrow_keys_walk_files:
  assumes "distinct (file_order c)"
  shows "(k < length (file_order c) \<longrightarrow>
      arrow_key (buildRows c) (Some (file_order c ! k)) True =
        Some (file_order c ! min (k + 1) (length (file_order c) - 1)) \<and>
      arrow_key (buildRows c) (Some (file_order c ! k)) False = Some (file_order c ! (k - 1))) \<and>
    arrow_key (buildRows c) None down = (if file_order c = [] then None else Some (file_order c ! 0))"
proof -
  let ?n = "length (file_order c)" and ?rows = "buildRows c" and ?ixs = "fileIndexes (buildRows c)"
  have at_pos: "nth_row < ?n \<Longrightarrow> row_selection (?rows ! (?ixs ! nth_row)) = Some (file_order c ! nth_row)" for nth_row
    by (rule nth_fileIndexes)
  have none: "arrow_key ?rows None down = (if file_order c = [] then None else Some (file_order c ! 0))"
  proof (cases "file_order c = []")
    case True
    then have "fileIndexes ?rows = []" using length_fileIndexes [of c] by simp
    then show ?thesis using True by (simp add: arrow_key_def selectedIndex_def)
  next
    case False
    moreover from this have "?ixs \<noteq> []" using length_fileIndexes [of c] by auto
    ultimately show ?thesis using at_pos [of 0]
      by (auto simp: arrow_key_def selectedIndex_def length_fileIndexes Let_def min_def)
  qed
  have some: "arrow_key ?rows (Some (file_order c ! k)) d =
      Some (file_order c ! (if d then min (k + 1) (?n - 1) else k - 1))" if k: "k < ?n" for d
  proof -
    have ix: "js_indexOf ?ixs (?ixs ! k) 0 = Some k"
      using k by (intro position_in_indexes) (auto simp: length_fileIndexes fileIndexes_props)
    let ?m = "if d then min (k + 1) (?n - 1) else k - 1"
    have m: "nat (max 0 (min (int ?n - 1) (int k + (if d then 1 else -1)))) = ?m" "?m < ?n"
      using k by auto
    show ?thesis
      using at_pos [OF m(2)] m
      by (simp add: arrow_key_def selected_position [OF assms k] ix length_fileIndexes Let_def)
  qed
  from none some [of True] some [of False] show ?thesis by simp
qed

theorem arrow_keys_walk_files_witness:
  "arrow_key (buildRows demo_changes) (Some \<lparr>sl_path = ''b'', sl_staged = True\<rparr>) True =
     Some \<lparr>sl_path = ''a'', sl_staged = False\<rparr>"
  using arrow_keys_walk_files [of demo_changes 0 True] by (simp add: file_order_def demo_changes_def demo_change_def)

section \<open>What may be pushed\<close>

lemma staged_lock_mem:
  "s \<in> set (staged_locks c states) \<longleftrightarrow> (\<exists>f \<in> set (cs_staged c). js_map_get states (fc_path f) = Some s)"
  by (force simp: staged_locks_def List.map_filter_def image_iff split: option.splits)

lemma no_lock_issue:
  "stagedLockIssue c states = None \<longleftrightarrow>
     (\<forall>s \<in> set (staged_locks c states). ls_state s \<noteq> ''theirs'' \<and> ls_state s \<noteq> ''needed'')"
proof -
  have "stagedLockIssue c states = None \<longleftrightarrow>
      filter (\<lambda>s. ls_state s = ''theirs'') (staged_locks c states) = [] \<and>
      filter (\<lambda>s. ls_state s = ''needed'') (staged_locks c states) = []"
    by (auto simp: stagedLockIssue_def Let_def split: list.splits)
  then show ?thesis by (auto simp: filter_empty_conv)
qed

lemma blocked_detached: "blocked_reason c = None \<longleftrightarrow> cs_detached c = None"
  by (simp add: blocked_reason_def)

lemma blocked_text: "blocked_reason c = Some r \<Longrightarrow> r \<noteq> []"
  by (auto simp: blocked_reason_def)

text \<open>
  The push box pushes exactly when a file is staged, the message is not blank, no operation
  and no change of the index is running, the clone is on a branch, and no staged file is locked by
  someone else or lacks a lock it needs; what it sends is the trimmed message.\<close>

theorem push_guarded:
  "commit_submit c states op mutating message = Some msg \<longleftrightarrow>
     cs_staged c \<noteq> [] \<and> js_trim message \<noteq> [] \<and> msg = js_trim message \<and> op = None \<and> \<not> mutating \<and>
     cs_detached c = None \<and>
     (\<forall>f \<in> set (cs_staged c). \<forall>s. js_map_get states (fc_path f) = Some s \<longrightarrow>
        ls_state s \<noteq> ''theirs'' \<and> ls_state s \<noteq> ''needed'')"
proof -
  have locks: "stagedLockIssue c states = None \<longleftrightarrow>
      (\<forall>f \<in> set (cs_staged c). \<forall>s. js_map_get states (fc_path f) = Some s \<longrightarrow>
         ls_state s \<noteq> ''theirs'' \<and> ls_state s \<noteq> ''needed'')"
    unfolding no_lock_issue using staged_lock_mem [of _ c states] by blast
  show ?thesis
    unfolding locks [symmetric]
    by (cases "blocked_reason c")
      (auto simp: commit_submit_def canPush_def Let_def blocked_detached [symmetric] dest: blocked_text)
qed

theorem push_guarded_witness:
  "commit_submit demo_changes [(''b'', \<lparr>ls_path = ''b'', ls_state = ''mine'', ls_lockPath = ''b'', ls_heldByName = ''me'',
      ls_tracked = True\<rparr>)] None False '' fix '' = Some ''fix''"
  unfolding push_guarded
  by (simp add: demo_changes_def demo_change_def js_map_get_def js_trim_def js_is_space_def)

section \<open>A cancelled merge push leaves a mark\<close>

text \<open>
  \<open>onCancelled\<close> does not take back \<open>finishing\<close>: when the push that finishes a merge is
  cancelled, the next ordinary push is reported as ``Merged and pushed''.\<close>

theorem cancelled_finish_mislabels_push:
  fixes source err outcome msg
  assumes "ro_pending (vw_op v) = None" and "ro_settling (vw_op v) = []"
  defines "n \<equiv> length (ro_started (vw_op v))"
  defines "v1 \<equiv> view_cancel (finishMerge source v)"
  defines "v2 \<equiv> view_finally n (view_settle \<lparr>po_call = n, po_cancellable = True, po_cancelled = True\<rparr> (Inl err) v1)"
  defines "v3 \<equiv> view_settle \<lparr>po_call = n + 1, po_cancellable = True, po_cancelled = False\<rparr> (Inr outcome) (view_push msg v2)"
  shows "last (vw_notices v2) = (''Push cancelled'', None) \<and> ro_pending (vw_op v2) = None \<and>
    last (vw_calls v3) = SPush msg \<and> js_startsWith (fst (last (vw_notices v3))) ''Merged and pushed to ''"
proof -
  note defs = view_cancel_def finishMerge_def view_run_def op_run_def op_cancel_def view_finally_def view_settle_def
    op_settle_def op_finally_def view_onCancelled_def view_onDone_def view_notify_def view_push_def opLabel_def
  have v1: "vw_finishing v1" "ro_started (vw_op v1) = ro_started (vw_op v) @ [OpPush]" "ro_settling (vw_op v1) = []"
    using assms(1,2) by (simp_all add: v1_def defs)
  have v2: "vw_finishing v2" "ro_started (vw_op v2) = ro_started (vw_op v) @ [OpPush]" "ro_pending (vw_op v2) = None"
    "last (vw_notices v2) = (''Push cancelled'', None)"
    using v1 by (simp_all add: v2_def defs Let_def nth_append n_def)
  have v3: "last (vw_calls v3) = SPush msg"
    "fst (last (vw_notices v3)) = ''Merged and pushed to '' @ vw_branch (view_push msg v2) @
       (case oo_commitId outcome of Some i \<Rightarrow> if i \<noteq> [] then '' ('' @ i @ '')'' else [] | None \<Rightarrow> [])"
    using v2(1-3) by (simp_all add: v3_def defs Let_def nth_append n_def)
  from v2 v3 show ?thesis by (simp add: js_startsWith_def)
qed

theorem cancelled_finish_mislabels_push_witness:
  "js_startsWith (fst (last (vw_notices (view_settle \<lparr>po_call = 1, po_cancellable = True, po_cancelled = False\<rparr>
      (Inr \<lparr>oo_branch = None, oo_commitId = Some ''c1'', oo_commitHash = None, oo_revert = None, oo_merge = None\<rparr>)
      (view_push ''fix'' (view_finally 0 (view_settle \<lparr>po_call = 0, po_cancellable = True, po_cancelled = True\<rparr> (Inl ''aborted'')
        (view_cancel (finishMerge None (view_init ''/repo'' ''main''))))))))))
    ''Merged and pushed to ''"
  using cancelled_finish_mislabels_push [where v = "view_init ''/repo'' ''main''" and source = None and
      err = "''aborted''" and msg = "''fix''" and
      outcome = "\<lparr>oo_branch = None, oo_commitId = Some ''c1'', oo_commitHash = None, oo_revert = None, oo_merge = None\<rparr>"]
  by (simp add: view_init_def op_init_def)

end
