(* ===== verification/Desktop_Service.thy ===== *)
theory Desktop_Service
  imports Endpoints "HOL-Library.Word"
begin

unbundle bit_operations_syntax

text \<open>
  The calls of the desktop client into its Go service: the generated bindings (\<open>service.ts\<close> and the
  argument types of \<open>models.ts\<close>) and the exported methods of \<open>desktop/internal/service\<close>. A call names its
  method by a number; the arguments travel as JSON. The runtime resolves the number as the 32-bit
  FNV-1a hash of the qualified name of the method.
\<close>

section \<open>Argument types\<close>

datatype arg_type = TStr | TNum | TBool | TNull arg_type | TList arg_type | TObj "(string \<times> bool \<times> arg_type) list"

text \<open>
  Whether a JSON value can be decoded as an argument. The flag of a field says that it may be absent.
\<close>

fun has_type :: "arg_type \<Rightarrow> json \<Rightarrow> bool" where
  "has_type TStr v = (case v of JString _ \<Rightarrow> True | _ \<Rightarrow> False)"
| "has_type TNum v = (case v of JNum _ \<Rightarrow> True | _ \<Rightarrow> False)"
| "has_type TBool v = (case v of JBool _ \<Rightarrow> True | _ \<Rightarrow> False)"
| "has_type (TNull t) v = (v = JNull \<or> has_type t v)"
| "has_type (TList t) v = (case v of JArray vs \<Rightarrow> list_all (has_type t) vs | _ \<Rightarrow> False)"
| "has_type (TObj spec) v = (case v of
     JObject fs \<Rightarrow> list_all (\<lambda>(k, optional, t). case map_of fs k of Some w \<Rightarrow> has_type t w | None \<Rightarrow> optional) spec
   | _ \<Rightarrow> False)"

definition field :: "string \<Rightarrow> arg_type \<Rightarrow> string \<times> bool \<times> arg_type" where
  "field k t = (k, False, t)"

definition field_opt :: "string \<Rightarrow> arg_type \<Rightarrow> string \<times> bool \<times> arg_type" where
  "field_opt k t = (k, True, t)"

definition ImageRef_t :: arg_type where
  "ImageRef_t = TObj [field ''source'' TStr, field_opt ''revision'' TStr, field ''path'' TStr]"

definition CloneRequest_t :: arg_type where
  "CloneRequest_t = TObj [field ''server'' TStr, field ''org'' TStr, field ''project'' TStr, field ''branch'' TStr,
     field ''sparse'' (TNull (TList TStr)), field ''target'' TStr]"

definition CommentInput_t :: arg_type where
  "CommentInput_t = TObj [field ''path'' TStr, field ''oldLine'' TNum, field ''newLine'' TNum, field ''body'' TStr]"

definition NewMergeRequest_t :: arg_type where
  "NewMergeRequest_t = TObj [field ''title'' TStr, field ''description'' TStr, field ''source'' TStr, field ''target'' TStr,
     field ''draft'' TBool]"

definition HistoryQuery_t :: arg_type where
  "HistoryQuery_t = TObj [field ''branch'' TStr, field ''path'' TStr, field ''start'' TStr, field ''limit'' TNum]"

definition ImageOptions_t :: arg_type where
  "ImageOptions_t = TObj [field ''maxSize'' TNum, field ''level'' TNum, field ''face'' TNum]"

definition MergeRequestFilter_t :: arg_type where
  "MergeRequestFilter_t = TObj [field ''status'' TStr, field ''search'' TStr, field ''author'' TStr, field ''after'' TNum]"

definition Navigation_t :: arg_type where
  "Navigation_t = TObj [field ''root'' TStr, field ''tab'' TStr, field ''number'' TNum, field ''commit'' TStr, field ''server'' TStr,
     field ''org'' TStr, field ''project'' TStr]"

definition ResolveInput_t :: arg_type where
  "ResolveInput_t = TObj [field ''path'' TStr, field ''choice'' TStr, field ''content'' TStr]"

definition RevertRequest_t :: arg_type where
  "RevertRequest_t = TObj [field ''target'' TStr, field ''mode'' TStr]"

definition IgnoreRules_t :: arg_type where
  "IgnoreRules_t = TObj [field ''shared'' TStr, field ''local'' TStr]"

definition NotifySettings_t :: arg_type where
  "NotifySettings_t = TObj [field ''pushes'' TBool, field ''locks'' TBool, field ''reviews'' TBool]"

definition Tool_t :: arg_type where
  "Tool_t = TObj [field ''extension'' TStr, field ''command'' TStr]"

definition Settings_t :: arg_type where
  "Settings_t = TObj [field ''keepInTray'' TBool, field ''startAtLogin'' TBool, field ''pollSeconds'' TNum,
     field ''notify'' NotifySettings_t, field ''tools'' (TNull (TList Tool_t)), field ''manualUpdates'' TBool]"

section \<open>Bindings\<close>

record ServiceCall =
  sv_id :: "32 word"
  sv_args :: "json list"

definition by_id :: "32 word \<Rightarrow> json list \<Rightarrow> ServiceCall" where
  "by_id i args = \<lparr>sv_id = i, sv_args = args\<rparr>"

definition Service_AbortMerge :: "string \<Rightarrow> ServiceCall" where
  "Service_AbortMerge r = by_id 593526730 [JString r]"

definition Service_AccountStatus :: "string \<Rightarrow> ServiceCall" where
  "Service_AccountStatus server = by_id 281571113 [JString server]"

definition Service_Activity :: "ServiceCall" where
  "Service_Activity = by_id 3793922685 []"

definition Service_AddRepo :: "string \<Rightarrow> ServiceCall" where
  "Service_AddRepo path = by_id 2386251915 [JString path]"

definition Service_AudioDiff :: "string \<Rightarrow> json \<Rightarrow> json \<Rightarrow> ServiceCall" where
  "Service_AudioDiff r od nw = by_id 1531093345 [JString r, od, nw]"

definition Service_Branches :: "string \<Rightarrow> ServiceCall" where
  "Service_Branches r = by_id 3835456308 [JString r]"

definition Service_Changes :: "string \<Rightarrow> ServiceCall" where
  "Service_Changes r = by_id 3050126129 [JString r]"

definition Service_CheckForUpdate :: "ServiceCall" where
  "Service_CheckForUpdate = by_id 1371120150 []"

definition Service_CheckoutTag :: "string \<Rightarrow> string \<Rightarrow> ServiceCall" where
  "Service_CheckoutTag r tag = by_id 1096823316 [JString r, JString tag]"

definition Service_ChooseFolder :: "string \<Rightarrow> ServiceCall" where
  "Service_ChooseFolder title = by_id 45898873 [JString title]"

definition Service_ChooseProgram :: "ServiceCall" where
  "Service_ChooseProgram = by_id 2906686191 []"

definition Service_Clone :: "json \<Rightarrow> ServiceCall" where
  "Service_Clone req = by_id 1415474973 [req]"

definition Service_CloseMergeRequest :: "string \<Rightarrow> int \<Rightarrow> ServiceCall" where
  "Service_CloseMergeRequest r num = by_id 524711353 [JString r, JNum num]"

definition Service_Comment :: "string \<Rightarrow> int \<Rightarrow> json \<Rightarrow> ServiceCall" where
  "Service_Comment r num inp = by_id 2279986949 [JString r, JNum num, inp]"

definition Service_CommitFiles :: "string \<Rightarrow> string \<Rightarrow> string \<Rightarrow> ServiceCall" where
  "Service_CommitFiles r commitID par = by_id 873613144 [JString r, JString commitID, JString par]"

definition Service_ConflictDiff :: "string \<Rightarrow> string \<Rightarrow> ServiceCall" where
  "Service_ConflictDiff r path = by_id 3866103609 [JString r, JString path]"

definition Service_ConflictTexts :: "string \<Rightarrow> string \<Rightarrow> ServiceCall" where
  "Service_ConflictTexts r path = by_id 1952408398 [JString r, JString path]"

definition Service_Conflicts :: "string \<Rightarrow> ServiceCall" where
  "Service_Conflicts r = by_id 2616723811 [JString r]"

definition Service_Connect :: "ServiceCall" where
  "Service_Connect = by_id 1199806166 []"

definition Service_CreateBranch :: "string \<Rightarrow> string \<Rightarrow> string \<Rightarrow> string \<Rightarrow> ServiceCall" where
  "Service_CreateBranch r name fromBranch fromCommit = by_id 2968796748 [JString r, JString name, JString fromBranch, JString fromCommit]"

definition Service_CreateMergeRequest :: "string \<Rightarrow> json \<Rightarrow> ServiceCall" where
  "Service_CreateMergeRequest r inp = by_id 2342402457 [JString r, inp]"

definition Service_CreateTag :: "string \<Rightarrow> string \<Rightarrow> string \<Rightarrow> string \<Rightarrow> string \<Rightarrow> ServiceCall" where
  "Service_CreateTag r name fromBranch fromCommit msg = by_id 1672893836 [JString r, JString name, JString fromBranch, JString fromCommit, JString msg]"

definition Service_DeleteBranch :: "string \<Rightarrow> string \<Rightarrow> ServiceCall" where
  "Service_DeleteBranch r name = by_id 1239035635 [JString r, JString name]"

definition Service_DeleteTag :: "string \<Rightarrow> string \<Rightarrow> ServiceCall" where
  "Service_DeleteTag r name = by_id 3095476201 [JString r, JString name]"

definition Service_Discard :: "string \<Rightarrow> string list \<Rightarrow> ServiceCall" where
  "Service_Discard r paths = by_id 4030220442 [JString r, json_strings paths]"

definition Service_EditMergeRequest :: "string \<Rightarrow> int \<Rightarrow> string \<Rightarrow> string \<Rightarrow> ServiceCall" where
  "Service_EditMergeRequest r num title description = by_id 303320665 [JString r, JNum num, JString title, JString description]"

definition Service_FileDiff :: "string \<Rightarrow> string \<Rightarrow> ServiceCall" where
  "Service_FileDiff r path = by_id 546872149 [JString r, JString path]"

definition Service_History :: "string \<Rightarrow> json \<Rightarrow> ServiceCall" where
  "Service_History r q = by_id 750957240 [JString r, q]"

definition Service_IgnoreRules :: "string \<Rightarrow> ServiceCall" where
  "Service_IgnoreRules r = by_id 1199055333 [JString r]"

definition Service_ImageDiff :: "string \<Rightarrow> json \<Rightarrow> json \<Rightarrow> json \<Rightarrow> ServiceCall" where
  "Service_ImageDiff r od nw opts = by_id 2294302882 [JString r, od, nw, opts]"

definition Service_InstallUpdate :: "ServiceCall" where
  "Service_InstallUpdate = by_id 3246874434 []"

definition Service_ListProjects :: "string \<Rightarrow> ServiceCall" where
  "Service_ListProjects server = by_id 1954310762 [JString server]"

definition Service_Lock :: "string \<Rightarrow> string \<Rightarrow> string list \<Rightarrow> ServiceCall" where
  "Service_Lock r branch paths = by_id 3433276999 [JString r, JString branch, json_strings paths]"

definition Service_LockStatus :: "string \<Rightarrow> ServiceCall" where
  "Service_LockStatus r = by_id 3463155089 [JString r]"

definition Service_Merge :: "string \<Rightarrow> string \<Rightarrow> ServiceCall" where
  "Service_Merge r src = by_id 3103744124 [JString r, JString src]"

definition Service_MergeMergeRequest :: "string \<Rightarrow> int \<Rightarrow> string \<Rightarrow> bool \<Rightarrow> ServiceCall" where
  "Service_MergeMergeRequest r num strategy deleteSource = by_id 109856929 [JString r, JNum num, JString strategy, JBool deleteSource]"

definition Service_MergeRequest :: "string \<Rightarrow> int \<Rightarrow> ServiceCall" where
  "Service_MergeRequest r num = by_id 1631193253 [JString r, JNum num]"

definition Service_MergeRequestActivity :: "string \<Rightarrow> int \<Rightarrow> ServiceCall" where
  "Service_MergeRequestActivity r num = by_id 615338412 [JString r, JNum num]"

definition Service_MergeRequestCommits :: "string \<Rightarrow> int \<Rightarrow> ServiceCall" where
  "Service_MergeRequestCommits r num = by_id 487309277 [JString r, JNum num]"

definition Service_MergeRequests :: "string \<Rightarrow> json \<Rightarrow> ServiceCall" where
  "Service_MergeRequests r f = by_id 3831228642 [JString r, f]"

definition Service_MetaWarnings :: "string \<Rightarrow> ServiceCall" where
  "Service_MetaWarnings r = by_id 1341820532 [JString r]"

definition Service_ModelDiff :: "string \<Rightarrow> json \<Rightarrow> json \<Rightarrow> ServiceCall" where
  "Service_ModelDiff r od nw = by_id 2021065394 [JString r, od, nw]"

definition Service_Navigate :: "json \<Rightarrow> ServiceCall" where
  "Service_Navigate nav = by_id 3037647619 [nav]"

definition Service_OpenFile :: "string \<Rightarrow> string \<Rightarrow> ServiceCall" where
  "Service_OpenFile r path = by_id 3101717086 [JString r, JString path]"

definition Service_OpenLink :: "string \<Rightarrow> ServiceCall" where
  "Service_OpenLink raw = by_id 4065448792 [JString raw]"

definition Service_OpenUpdatePage :: "ServiceCall" where
  "Service_OpenUpdatePage = by_id 744458090 []"

definition Service_PickFile :: "string \<Rightarrow> ServiceCall" where
  "Service_PickFile r = by_id 2458010751 [JString r]"

definition Service_PickRepo :: "ServiceCall" where
  "Service_PickRepo = by_id 766486257 []"

definition Service_Push :: "string \<Rightarrow> string \<Rightarrow> ServiceCall" where
  "Service_Push r msg = by_id 1543879524 [JString r, JString msg]"

definition Service_RemoteBranches :: "string \<Rightarrow> string \<Rightarrow> string \<Rightarrow> ServiceCall" where
  "Service_RemoteBranches server org project = by_id 2612479582 [JString server, JString org, JString project]"

definition Service_RemoteTree :: "string \<Rightarrow> string \<Rightarrow> string \<Rightarrow> string \<Rightarrow> string \<Rightarrow> ServiceCall" where
  "Service_RemoteTree server org project branch path = by_id 1680807034 [JString server, JString org, JString project, JString branch, JString path]"

definition Service_RemoveRepo :: "string \<Rightarrow> ServiceCall" where
  "Service_RemoveRepo r = by_id 878392724 [JString r]"

definition Service_ReopenMergeRequest :: "string \<Rightarrow> int \<Rightarrow> ServiceCall" where
  "Service_ReopenMergeRequest r num = by_id 870479912 [JString r, JNum num]"

definition Service_Reply :: "string \<Rightarrow> int \<Rightarrow> string \<Rightarrow> string \<Rightarrow> ServiceCall" where
  "Service_Reply r num threadID body = by_id 3796417604 [JString r, JNum num, JString threadID, JString body]"

definition Service_Repos :: "ServiceCall" where
  "Service_Repos = by_id 3963752509 []"

definition Service_ResolveConflict :: "string \<Rightarrow> json \<Rightarrow> ServiceCall" where
  "Service_ResolveConflict r inp = by_id 1554234326 [JString r, inp]"

definition Service_ResolveThread :: "string \<Rightarrow> int \<Rightarrow> string \<Rightarrow> bool \<Rightarrow> ServiceCall" where
  "Service_ResolveThread r num threadID resolved = by_id 48624308 [JString r, JNum num, JString threadID, JBool resolved]"

definition Service_RestartDaemon :: "ServiceCall" where
  "Service_RestartDaemon = by_id 1686683011 []"

definition Service_RestartToUpdate :: "ServiceCall" where
  "Service_RestartToUpdate = by_id 260610607 []"

definition Service_Revert :: "string \<Rightarrow> json \<Rightarrow> ServiceCall" where
  "Service_Revert r req = by_id 1832166846 [JString r, req]"

definition Service_RevisionFiles :: "string \<Rightarrow> string \<Rightarrow> string \<Rightarrow> ServiceCall" where
  "Service_RevisionFiles r oldRev newRev = by_id 2666180448 [JString r, JString oldRev, JString newRev]"

definition Service_SaveIgnoreRules :: "string \<Rightarrow> json \<Rightarrow> ServiceCall" where
  "Service_SaveIgnoreRules r rules = by_id 3164512178 [JString r, rules]"

definition Service_SaveSettings :: "json \<Rightarrow> ServiceCall" where
  "Service_SaveSettings inp = by_id 3035590848 [inp]"

definition Service_SetDraft :: "string \<Rightarrow> int \<Rightarrow> bool \<Rightarrow> ServiceCall" where
  "Service_SetDraft r num draft = by_id 2888872339 [JString r, JNum num, JBool draft]"

definition Service_SetSparse :: "string \<Rightarrow> string list \<Rightarrow> ServiceCall" where
  "Service_SetSparse r paths = by_id 4162667504 [JString r, json_strings paths]"

definition Service_SetUploadWorkers :: "int \<Rightarrow> ServiceCall" where
  "Service_SetUploadWorkers workers = by_id 527135944 [JNum workers]"

definition Service_Settings :: "ServiceCall" where
  "Service_Settings = by_id 2871780589 []"

definition Service_SignIn :: "string \<Rightarrow> string \<Rightarrow> string \<Rightarrow> ServiceCall" where
  "Service_SignIn server email password = by_id 1917223218 [JString server, JString email, JString password]"

definition Service_SignInSSH :: "string \<Rightarrow> string \<Rightarrow> ServiceCall" where
  "Service_SignInSSH server email = by_id 2025107512 [JString server, JString email]"

definition Service_Stage :: "string \<Rightarrow> string list \<Rightarrow> ServiceCall" where
  "Service_Stage r paths = by_id 742824190 [JString r, json_strings paths]"

definition Service_SubmitReview :: "string \<Rightarrow> int \<Rightarrow> string \<Rightarrow> string \<Rightarrow> ServiceCall" where
  "Service_SubmitReview r num st body = by_id 3366865276 [JString r, JNum num, JString st, JString body]"

definition Service_SwitchBranch :: "string \<Rightarrow> string \<Rightarrow> ServiceCall" where
  "Service_SwitchBranch r branch = by_id 1378127380 [JString r, JString branch]"

definition Service_TableDiff :: "string \<Rightarrow> json \<Rightarrow> json \<Rightarrow> ServiceCall" where
  "Service_TableDiff r od nw = by_id 1291294083 [JString r, od, nw]"

definition Service_Tags :: "string \<Rightarrow> ServiceCall" where
  "Service_Tags r = by_id 4045922345 [JString r]"

definition Service_TakeNavigation :: "ServiceCall" where
  "Service_TakeNavigation = by_id 198429045 []"

definition Service_Unlock :: "string \<Rightarrow> string \<Rightarrow> string \<Rightarrow> ServiceCall" where
  "Service_Unlock r branch path = by_id 4285180956 [JString r, JString branch, JString path]"

definition Service_Unstage :: "string \<Rightarrow> string list \<Rightarrow> ServiceCall" where
  "Service_Unstage r paths = by_id 1730317183 [JString r, json_strings paths]"

definition Service_Update :: "string \<Rightarrow> ServiceCall" where
  "Service_Update r = by_id 2237493537 [JString r]"

definition Service_UpdateStatus :: "ServiceCall" where
  "Service_UpdateStatus = by_id 1821496387 []"

definition Service_UploadWorkers :: "ServiceCall" where
  "Service_UploadWorkers = by_id 574941112 []"

section \<open>Methods of the service\<close>

definition fnv_step :: "char \<Rightarrow> 32 word \<Rightarrow> 32 word" where
  "fnv_step c h = (h XOR word_of_nat (of_char c)) * 16777619"

definition fnv1a :: "string \<Rightarrow> 32 word" where
  "fnv1a s = fold fnv_step s 2166136261"

definition service_package :: string where
  "service_package = ''github.com/nipalab/nipa/desktop/internal/service.Service.''"

text \<open>The exported methods with the types of their parameters, the context left out.\<close>

definition service_methods :: "(string \<times> arg_type list) list" where
  "service_methods = [
     (''AbortMerge'', [TStr]), (''AccountStatus'', [TStr]), (''Activity'', []), (''AddRepo'', [TStr]),
     (''AudioDiff'', [TStr, TNull ImageRef_t, TNull ImageRef_t]), (''Branches'', [TStr]),
     (''Changes'', [TStr]), (''CheckForUpdate'', []), (''CheckoutTag'', [TStr, TStr]),
     (''ChooseFolder'', [TStr]), (''ChooseProgram'', []), (''Clone'', [CloneRequest_t]),
     (''CloseMergeRequest'', [TStr, TNum]), (''Comment'', [TStr, TNum, CommentInput_t]),
     (''CommitFiles'', [TStr, TStr, TStr]), (''ConflictDiff'', [TStr, TStr]),
     (''ConflictTexts'', [TStr, TStr]), (''Conflicts'', [TStr]), (''Connect'', []),
     (''CreateBranch'', [TStr, TStr, TStr, TStr]), (''CreateMergeRequest'', [TStr, NewMergeRequest_t]),
     (''CreateTag'', [TStr, TStr, TStr, TStr, TStr]), (''DeleteBranch'', [TStr, TStr]),
     (''DeleteTag'', [TStr, TStr]), (''Discard'', [TStr, TNull (TList TStr)]),
     (''EditMergeRequest'', [TStr, TNum, TStr, TStr]), (''FileDiff'', [TStr, TStr]),
     (''History'', [TStr, HistoryQuery_t]), (''IgnoreRules'', [TStr]),
     (''ImageDiff'', [TStr, TNull ImageRef_t, TNull ImageRef_t, ImageOptions_t]), (''InstallUpdate'', []),
     (''ListProjects'', [TStr]), (''Lock'', [TStr, TStr, TNull (TList TStr)]), (''LockStatus'', [TStr]),
     (''Merge'', [TStr, TStr]), (''MergeMergeRequest'', [TStr, TNum, TStr, TBool]),
     (''MergeRequest'', [TStr, TNum]), (''MergeRequestActivity'', [TStr, TNum]),
     (''MergeRequestCommits'', [TStr, TNum]), (''MergeRequests'', [TStr, MergeRequestFilter_t]),
     (''MetaWarnings'', [TStr]), (''ModelDiff'', [TStr, TNull ImageRef_t, TNull ImageRef_t]),
     (''Navigate'', [Navigation_t]), (''OpenFile'', [TStr, TStr]), (''OpenLink'', [TStr]),
     (''OpenUpdatePage'', []), (''PickFile'', [TStr]), (''PickRepo'', []), (''Push'', [TStr, TStr]),
     (''RemoteBranches'', [TStr, TStr, TStr]), (''RemoteTree'', [TStr, TStr, TStr, TStr, TStr]),
     (''RemoveRepo'', [TStr]), (''ReopenMergeRequest'', [TStr, TNum]), (''Reply'', [TStr, TNum, TStr, TStr]),
     (''Repos'', []), (''ResolveConflict'', [TStr, ResolveInput_t]),
     (''ResolveThread'', [TStr, TNum, TStr, TBool]), (''RestartDaemon'', []), (''RestartToUpdate'', []),
     (''Revert'', [TStr, RevertRequest_t]), (''RevisionFiles'', [TStr, TStr, TStr]),
     (''SaveIgnoreRules'', [TStr, IgnoreRules_t]), (''SaveSettings'', [Settings_t]),
     (''SetDraft'', [TStr, TNum, TBool]), (''SetSparse'', [TStr, TNull (TList TStr)]),
     (''SetUploadWorkers'', [TNum]), (''Settings'', []), (''SignIn'', [TStr, TStr, TStr]),
     (''SignInSSH'', [TStr, TStr]), (''Stage'', [TStr, TNull (TList TStr)]),
     (''SubmitReview'', [TStr, TNum, TStr, TStr]), (''SwitchBranch'', [TStr, TStr]),
     (''TableDiff'', [TStr, TNull ImageRef_t, TNull ImageRef_t]), (''Tags'', [TStr]),
     (''TakeNavigation'', []), (''Unlock'', [TStr, TStr, TStr]), (''Unstage'', [TStr, TNull (TList TStr)]),
     (''Update'', [TStr]), (''UpdateStatus'', []), (''UploadWorkers'', [])]"

definition method_id :: "string \<Rightarrow> 32 word" where
  "method_id name = fnv1a (service_package @ name)"

text \<open>A call reaches a method and can be decoded by it.\<close>

definition reaches :: "string \<times> arg_type list \<Rightarrow> ServiceCall \<Rightarrow> bool" where
  "reaches m c \<longleftrightarrow> sv_id c = method_id (fst m) \<and> list_all2 has_type (snd m) (sv_args c)"

section \<open>The numbers of the bindings\<close>

text \<open>The state of the hash behind the qualifier, from which the names continue.\<close>

lemma package_hash: "fold fnv_step service_package 2166136261 = 1722771552"
  by code_simp

lemma method_id_fold: "method_id name = fold fnv_step name 1722771552"
  by (simp add: method_id_def fnv1a_def package_hash)

definition service_ids :: "(string \<times> 32 word) list" where
  "service_ids = [
     (''AbortMerge'', 593526730), (''AccountStatus'', 281571113), (''Activity'', 3793922685),
     (''AddRepo'', 2386251915), (''AudioDiff'', 1531093345), (''Branches'', 3835456308),
     (''Changes'', 3050126129), (''CheckForUpdate'', 1371120150), (''CheckoutTag'', 1096823316),
     (''ChooseFolder'', 45898873), (''ChooseProgram'', 2906686191), (''Clone'', 1415474973),
     (''CloseMergeRequest'', 524711353), (''Comment'', 2279986949), (''CommitFiles'', 873613144),
     (''ConflictDiff'', 3866103609), (''ConflictTexts'', 1952408398), (''Conflicts'', 2616723811),
     (''Connect'', 1199806166), (''CreateBranch'', 2968796748), (''CreateMergeRequest'', 2342402457),
     (''CreateTag'', 1672893836), (''DeleteBranch'', 1239035635), (''DeleteTag'', 3095476201),
     (''Discard'', 4030220442), (''EditMergeRequest'', 303320665), (''FileDiff'', 546872149),
     (''History'', 750957240), (''IgnoreRules'', 1199055333), (''ImageDiff'', 2294302882),
     (''InstallUpdate'', 3246874434), (''ListProjects'', 1954310762), (''Lock'', 3433276999),
     (''LockStatus'', 3463155089), (''Merge'', 3103744124), (''MergeMergeRequest'', 109856929),
     (''MergeRequest'', 1631193253), (''MergeRequestActivity'', 615338412),
     (''MergeRequestCommits'', 487309277), (''MergeRequests'', 3831228642), (''MetaWarnings'', 1341820532),
     (''ModelDiff'', 2021065394), (''Navigate'', 3037647619), (''OpenFile'', 3101717086),
     (''OpenLink'', 4065448792), (''OpenUpdatePage'', 744458090), (''PickFile'', 2458010751),
     (''PickRepo'', 766486257), (''Push'', 1543879524), (''RemoteBranches'', 2612479582),
     (''RemoteTree'', 1680807034), (''RemoveRepo'', 878392724), (''ReopenMergeRequest'', 870479912),
     (''Reply'', 3796417604), (''Repos'', 3963752509), (''ResolveConflict'', 1554234326),
     (''ResolveThread'', 48624308), (''RestartDaemon'', 1686683011), (''RestartToUpdate'', 260610607),
     (''Revert'', 1832166846), (''RevisionFiles'', 2666180448), (''SaveIgnoreRules'', 3164512178),
     (''SaveSettings'', 3035590848), (''SetDraft'', 2888872339), (''SetSparse'', 4162667504),
     (''SetUploadWorkers'', 527135944), (''Settings'', 2871780589), (''SignIn'', 1917223218),
     (''SignInSSH'', 2025107512), (''Stage'', 742824190), (''SubmitReview'', 3366865276),
     (''SwitchBranch'', 1378127380), (''TableDiff'', 1291294083), (''Tags'', 4045922345),
     (''TakeNavigation'', 198429045), (''Unlock'', 4285180956), (''Unstage'', 1730317183),
     (''Update'', 2237493537), (''UpdateStatus'', 1821496387), (''UploadWorkers'', 574941112)]"

lemma service_ids_hash: "list_all (\<lambda>(n, i). fold fnv_step n 1722771552 = i) service_ids"
  by code_simp

lemma service_ids_names: "map fst service_ids = map fst service_methods"
  by (simp add: service_ids_def service_methods_def)

lemma service_ids_distinct: "distinct (map snd service_ids)"
proof -
  have "sorted_wrt (<) (sort (map uint (map snd service_ids)))"
    by code_simp
  then have "distinct (map uint (map snd service_ids))"
    using strict_sorted_iff distinct_sort by blast
  from this [unfolded distinct_map [of uint]] show ?thesis by (rule conjunct1)
qed

lemma method_ids: "map (method_id \<circ> fst) service_methods = map snd service_ids"
proof -
  have "map (method_id \<circ> fst) service_ids = map snd service_ids"
    using service_ids_hash by (auto simp: list_all_iff method_id_fold)
  then show ?thesis using service_ids_names by (metis map_map)
qed

end
