(* ===== verification/Desktop_Api.thy ===== *)
theory Desktop_Api
  imports Desktop_Service Desktop_Hooks Merge_Request Conflicts
begin

text \<open>
  The API of the desktop client, \<open>api/desktop.ts\<close>: what each of its functions sends to the service, and
  how it makes the answers of the service, with their \<open>null\<close>s, into the values the views work with.
\<close>

section \<open>Requests\<close>

text \<open>\<open>{ ...defaults, ...q }\<close>.\<close>

definition js_spread :: "(string \<times> json) list \<Rightarrow> (string \<times> json) list \<Rightarrow> (string \<times> json) list" where
  "js_spread ds q = fold (\<lambda>e m. js_map_set m (fst e) (snd e)) q ds"

definition desktop_imageDiff :: "string \<Rightarrow> json \<Rightarrow> json \<Rightarrow> (string \<times> json) list \<Rightarrow> ServiceCall" where
  "desktop_imageDiff r od nw opts = Service_ImageDiff r od nw
     (JObject (js_spread [(''maxSize'', JNum 2048), (''level'', JNum 0), (''face'', JNum 0)] opts))"

definition desktop_history :: "string \<Rightarrow> (string \<times> json) list \<Rightarrow> ServiceCall" where
  "desktop_history r q = Service_History r
     (JObject (js_spread [(''branch'', JString []), (''path'', JString []), (''start'', JString []), (''limit'', JNum 0)] q))"

definition desktop_createBranch :: "string \<Rightarrow> string \<Rightarrow> string option \<Rightarrow> string option \<Rightarrow> ServiceCall" where
  "desktop_createBranch r name branch commit = Service_CreateBranch r name (coalesce branch []) (coalesce commit [])"

definition desktop_createTag :: "string \<Rightarrow> string \<Rightarrow> string option \<Rightarrow> string option \<Rightarrow> string \<Rightarrow> ServiceCall" where
  "desktop_createTag r name branch commit message =
     Service_CreateTag r name (coalesce branch []) (coalesce commit []) message"

definition desktop_mergeRequests :: "string \<Rightarrow> (string \<times> json) list \<Rightarrow> ServiceCall" where
  "desktop_mergeRequests r f = Service_MergeRequests r
     (JObject (js_spread [(''status'', JString []), (''search'', JString []), (''author'', JString []), (''after'', JNum 0)] f))"

definition desktop_comment :: "string \<Rightarrow> int \<Rightarrow> (string \<times> json) list \<Rightarrow> ServiceCall" where
  "desktop_comment r n input = Service_Comment r n
     (JObject (js_spread [(''path'', JString []), (''oldLine'', JNum 0), (''newLine'', JNum 0)] input))"

definition desktop_revert :: "string \<Rightarrow> (string \<times> json) list \<Rightarrow> ServiceCall" where
  "desktop_revert r req = Service_Revert r (JObject (js_spread [(''target'', JString []), (''mode'', JString [])] req))"

definition desktop_resolveConflict :: "string \<Rightarrow> string \<Rightarrow> string \<Rightarrow> string \<Rightarrow> ServiceCall" where
  "desktop_resolveConflict r path pick content = Service_ResolveConflict r
     (JObject [(''path'', JString path), (''choice'', JString pick), (''content'', JString content)])"

text \<open>The calls of all functions of \<open>desktop\<close>, in the order of the service's methods.\<close>

record ApiArgs =
  aa_old :: json
  aa_new :: json
  aa_imageOptions :: "(string \<times> json) list"
  aa_history :: "(string \<times> json) list"
  aa_filter :: "(string \<times> json) list"
  aa_comment :: "(string \<times> json) list"
  aa_revert :: "(string \<times> json) list"
  aa_clone :: json
  aa_newRequest :: json
  aa_settings :: json
  aa_rules :: json

definition desktop_calls ::
  "string \<Rightarrow> string \<Rightarrow> string \<Rightarrow> string \<Rightarrow> string \<Rightarrow> string \<Rightarrow> int \<Rightarrow> bool \<Rightarrow> string list \<Rightarrow> string option \<Rightarrow> string option \<Rightarrow>
     ApiArgs \<Rightarrow> ServiceCall list" where
  "desktop_calls r a b c d e n q ss fb fc x = (let od = aa_old x; nw = aa_new x; io = aa_imageOptions x;
       hq = aa_history x; mf = aa_filter x; ci = aa_comment x; rr = aa_revert x; clone = aa_clone x;
       newmr = aa_newRequest x; settings = aa_settings x; rules = aa_rules x in [
     Service_AbortMerge r, Service_AccountStatus a, Service_Activity, Service_AddRepo a,
     Service_AudioDiff r od nw, Service_Branches r, Service_Changes r, Service_CheckForUpdate,
     Service_CheckoutTag r a, Service_ChooseFolder a, Service_ChooseProgram, Service_Clone clone,
     Service_CloseMergeRequest r n, desktop_comment r n ci, Service_CommitFiles r a b,
     Service_ConflictDiff r a, Service_ConflictTexts r a, Service_Conflicts r, Service_Connect,
     desktop_createBranch r a fb fc, Service_CreateMergeRequest r newmr, desktop_createTag r a fb fc b,
     Service_DeleteBranch r a, Service_DeleteTag r a, Service_Discard r ss, Service_EditMergeRequest r n a b,
     Service_FileDiff r a, desktop_history r hq, Service_IgnoreRules r, desktop_imageDiff r od nw io,
     Service_InstallUpdate, Service_ListProjects a, Service_Lock r a ss, Service_LockStatus r,
     Service_Merge r a, Service_MergeMergeRequest r n a q, Service_MergeRequest r n,
     Service_MergeRequestActivity r n, Service_MergeRequestCommits r n, desktop_mergeRequests r mf,
     Service_MetaWarnings r, Service_ModelDiff r od nw, Service_OpenFile r a, Service_OpenLink a,
     Service_OpenUpdatePage, Service_PickFile r, Service_PickRepo, Service_Push r a,
     Service_RemoteBranches a b c, Service_RemoteTree a b c d e, Service_RemoveRepo r,
     Service_ReopenMergeRequest r n, Service_Reply r n a b, Service_Repos, desktop_resolveConflict r a b c,
     Service_ResolveThread r n a q, Service_RestartDaemon, Service_RestartToUpdate, desktop_revert r rr,
     Service_RevisionFiles r a b, Service_SaveIgnoreRules r rules, Service_SaveSettings settings,
     Service_SetDraft r n q, Service_SetSparse r ss, Service_SetUploadWorkers n, Service_Settings,
     Service_SignIn a b c, Service_SignInSSH a b, Service_Stage r ss, Service_SubmitReview r n a b,
     Service_SwitchBranch r a, Service_TableDiff r od nw, Service_Tags r, Service_TakeNavigation,
     Service_Unlock r a b, Service_Unstage r ss, Service_Update r, Service_UpdateStatus,
     Service_UploadWorkers])"

text \<open>Arguments the type checker accepts.\<close>

definition partial_of :: "arg_type \<Rightarrow> (string \<times> json) list \<Rightarrow> bool" where
  "partial_of t q \<longleftrightarrow> (case t of
     TObj spec \<Rightarrow> list_all (\<lambda>(k, v). case map_of spec k of Some (_, u) \<Rightarrow> has_type u v | None \<Rightarrow> False) q
   | _ \<Rightarrow> False)"

definition typed_args :: "ApiArgs \<Rightarrow> bool" where
  "typed_args x \<longleftrightarrow>
     has_type (TNull ImageRef_t) (aa_old x) \<and> has_type (TNull ImageRef_t) (aa_new x) \<and>
     partial_of ImageOptions_t (aa_imageOptions x) \<and> partial_of HistoryQuery_t (aa_history x) \<and>
     partial_of MergeRequestFilter_t (aa_filter x) \<and> partial_of CommentInput_t (aa_comment x) \<and>
     ''body'' \<in> fst ` set (aa_comment x) \<and> partial_of RevertRequest_t (aa_revert x) \<and>
     has_type CloneRequest_t (aa_clone x) \<and> has_type NewMergeRequest_t (aa_newRequest x) \<and>
     has_type Settings_t (aa_settings x) \<and> has_type IgnoreRules_t (aa_rules x)"

section \<open>Every call can be decoded\<close>

lemma map_of_spread: "map_of (js_spread ds q) k = (case map_of (rev q) k of Some v \<Rightarrow> Some v | None \<Rightarrow> map_of ds k)"
proof -
  have "js_map_get (js_spread ds q) k = (js_map_get ds ++ map_of (rev q)) k"
    unfolding js_spread_def js_map.get_fold_put by (simp add: case_prod_unfold)
  then show ?thesis by (simp add: js_map_get_def map_add_def split: option.splits)
qed

lemma spread_typed:
  assumes "distinct (map fst spec)" and "partial_of (TObj spec) q"
    and "\<forall>(k, optional, t) \<in> set spec. (case map_of ds k of Some v \<Rightarrow> has_type t v | None \<Rightarrow> optional \<or> k \<in> fst ` set q)"
  shows "has_type (TObj spec) (JObject (js_spread ds q))"
proof -
  have "case map_of (js_spread ds q) k of Some w \<Rightarrow> has_type t w | None \<Rightarrow> optional"
    if m: "(k, optional, t) \<in> set spec" for k optional t
  proof (cases "map_of (rev q) k")
    case None
    then have "k \<notin> fst ` set q" by (simp add: map_of_eq_None_iff)
    moreover from assms(3) m have "case map_of ds k of Some v \<Rightarrow> has_type t v | None \<Rightarrow> optional \<or> k \<in> fst ` set q"
      by blast
    ultimately show ?thesis using None by (simp add: map_of_spread split: option.splits)
  next
    case (Some v)
    then have "(k, v) \<in> set q" using map_of_SomeD by fastforce
    moreover have "map_of spec k = Some (optional, t)" using assms(1) m by simp
    ultimately have "has_type t v" using assms(2) by (force simp: partial_of_def list_all_iff)
    with Some show ?thesis by (simp add: map_of_spread)
  qed
  then show ?thesis by (auto simp: list_all_iff)
qed

lemmas service_defs = by_id_def
  Service_AbortMerge_def Service_AccountStatus_def Service_Activity_def Service_AddRepo_def
  Service_AudioDiff_def Service_Branches_def Service_Changes_def Service_CheckForUpdate_def
  Service_CheckoutTag_def Service_ChooseFolder_def Service_ChooseProgram_def Service_Clone_def
  Service_CloseMergeRequest_def Service_Comment_def Service_CommitFiles_def Service_ConflictDiff_def
  Service_ConflictTexts_def Service_Conflicts_def Service_Connect_def Service_CreateBranch_def
  Service_CreateMergeRequest_def Service_CreateTag_def Service_DeleteBranch_def Service_DeleteTag_def
  Service_Discard_def Service_EditMergeRequest_def Service_FileDiff_def Service_History_def
  Service_IgnoreRules_def Service_ImageDiff_def Service_InstallUpdate_def Service_ListProjects_def
  Service_Lock_def Service_LockStatus_def Service_Merge_def Service_MergeMergeRequest_def
  Service_MergeRequest_def Service_MergeRequestActivity_def Service_MergeRequestCommits_def
  Service_MergeRequests_def Service_MetaWarnings_def Service_ModelDiff_def Service_Navigate_def
  Service_OpenFile_def Service_OpenLink_def Service_OpenUpdatePage_def Service_PickFile_def
  Service_PickRepo_def Service_Push_def Service_RemoteBranches_def Service_RemoteTree_def
  Service_RemoveRepo_def Service_ReopenMergeRequest_def Service_Reply_def Service_Repos_def
  Service_ResolveConflict_def Service_ResolveThread_def Service_RestartDaemon_def
  Service_RestartToUpdate_def Service_Revert_def Service_RevisionFiles_def Service_SaveIgnoreRules_def
  Service_SaveSettings_def Service_SetDraft_def Service_SetSparse_def Service_SetUploadWorkers_def
  Service_Settings_def Service_SignIn_def Service_SignInSSH_def Service_Stage_def Service_SubmitReview_def
  Service_SwitchBranch_def Service_TableDiff_def Service_Tags_def Service_TakeNavigation_def
  Service_Unlock_def Service_Unstage_def Service_Update_def Service_UpdateStatus_def
  Service_UploadWorkers_def

lemmas desktop_defs = desktop_imageDiff_def desktop_history_def desktop_createBranch_def desktop_createTag_def
  desktop_mergeRequests_def desktop_comment_def desktop_revert_def desktop_resolveConflict_def

lemmas type_defs = field_def field_opt_def

lemma image_options_typed: "partial_of ImageOptions_t q \<Longrightarrow>
    has_type ImageOptions_t (JObject (js_spread [(''maxSize'', JNum 2048), (''level'', JNum 0), (''face'', JNum 0)] q))"
  unfolding ImageOptions_t_def type_defs by (rule spread_typed) simp_all

lemma history_typed: "partial_of HistoryQuery_t q \<Longrightarrow>
    has_type HistoryQuery_t (JObject (js_spread [(''branch'', JString []), (''path'', JString []), (''start'', JString []),
      (''limit'', JNum 0)] q))"
  unfolding HistoryQuery_t_def type_defs by (rule spread_typed) simp_all

lemma filter_typed: "partial_of MergeRequestFilter_t q \<Longrightarrow>
    has_type MergeRequestFilter_t (JObject (js_spread [(''status'', JString []), (''search'', JString []),
      (''author'', JString []), (''after'', JNum 0)] q))"
  unfolding MergeRequestFilter_t_def type_defs by (rule spread_typed) simp_all

lemma comment_typed: "partial_of CommentInput_t q \<Longrightarrow> ''body'' \<in> fst ` set q \<Longrightarrow>
    has_type CommentInput_t (JObject (js_spread [(''path'', JString []), (''oldLine'', JNum 0), (''newLine'', JNum 0)] q))"
  unfolding CommentInput_t_def type_defs by (rule spread_typed) simp_all

lemma revert_typed: "partial_of RevertRequest_t q \<Longrightarrow>
    has_type RevertRequest_t (JObject (js_spread [(''target'', JString []), (''mode'', JString [])] q))"
  unfolding RevertRequest_t_def type_defs by (rule spread_typed) simp_all

lemma strings_typed: "has_type (TNull (TList TStr)) (json_strings xs)"
  by (simp add: json_strings_def list_all_iff)

lemma resolve_typed: "has_type ResolveInput_t (JObject [(''path'', JString a), (''choice'', JString b), (''content'', JString c)])"
  by (simp add: ResolveInput_t_def type_defs)

definition wrapped_methods :: "(string \<times> arg_type list) list" where
  "wrapped_methods = filter (\<lambda>m. fst m \<noteq> ''Navigate'') service_methods"

lemma wrapped_ids:
  "map (method_id \<circ> fst) wrapped_methods = map snd (filter (\<lambda>e. fst e \<noteq> ''Navigate'') service_ids)"
proof -
  have pair: "map (\<lambda>m. (f m, g m)) ms = zip (map f ms) (map g ms)" for f :: "'a \<Rightarrow> 'b" and g :: "'a \<Rightarrow> 'c" and ms
    by (induction ms) auto
  have ids: "map (\<lambda>m. (fst m, (method_id \<circ> fst) m)) service_methods = service_ids"
    unfolding pair method_ids service_ids_names [symmetric] by (rule zip_map_fst_snd)
  show ?thesis
    unfolding wrapped_methods_def ids [symmetric] by (simp add: filter_map comp_def)
qed

lemma call_ids:
  "map sv_id (desktop_calls r a b c d e n q ss fb fc x) = map snd (filter (\<lambda>e. fst e \<noteq> ''Navigate'') service_ids)"
  by (simp add: desktop_calls_def Let_def desktop_defs service_defs service_ids_def)

lemma call_types:
  assumes "typed_args x"
  shows "list_all2 (\<lambda>m c. list_all2 has_type (snd m) (sv_args c)) wrapped_methods
    (desktop_calls r a b c d e n q ss fb fc x)"
proof -
  have x: "has_type (TNull ImageRef_t) (aa_old x)" "has_type (TNull ImageRef_t) (aa_new x)"
    "has_type CloneRequest_t (aa_clone x)" "has_type NewMergeRequest_t (aa_newRequest x)"
    "has_type Settings_t (aa_settings x)" "has_type IgnoreRules_t (aa_rules x)"
    using assms by (simp_all only: typed_args_def)
  have p: "partial_of ImageOptions_t (aa_imageOptions x)" "partial_of HistoryQuery_t (aa_history x)"
    "partial_of MergeRequestFilter_t (aa_filter x)" "partial_of CommentInput_t (aa_comment x)"
    "''body'' \<in> fst ` set (aa_comment x)" "partial_of RevertRequest_t (aa_revert x)"
    using assms by (simp_all only: typed_args_def)
  have s: "has_type TStr (JString y)" "has_type TNum (JNum k)" "has_type TBool (JBool p)" for y k p
    by simp_all
  show ?thesis
    unfolding wrapped_methods_def service_methods_def desktop_calls_def Let_def desktop_defs service_defs
    by (simp del: has_type.simps add: x s strings_typed resolve_typed image_options_typed [OF p(1)]
        history_typed [OF p(2)] filter_typed [OF p(3)] comment_typed [OF p(4,5)] revert_typed [OF p(6)])
qed

text \<open>
  Property C19. Every call of the desktop client reaches a method of the service and can be decoded by it:
  its number is the hash of the method's qualified name, the number and the types of its arguments are
  those of the method, also where the client fills in the fields of an object that the caller left
  out, and no two methods share a number, so no call can reach another method than the one meant.\<close>

theorem desktop_calls_decode:
  assumes "typed_args x"
  shows "list_all2 reaches wrapped_methods (desktop_calls r a b c d e n q ss fb fc x) \<and>
    distinct (map (method_id \<circ> fst) service_methods)"
proof
  have len: "length wrapped_methods = length (desktop_calls r a b c d e n q ss fb fc x)"
    using call_types [OF assms] by (rule list_all2_lengthD)
  have ids: "map (method_id \<circ> fst) wrapped_methods = map sv_id (desktop_calls r a b c d e n q ss fb fc x)"
    by (simp only: wrapped_ids call_ids)
  show "list_all2 reaches wrapped_methods (desktop_calls r a b c d e n q ss fb fc x)"
  proof (rule list_all2_all_nthI [OF len])
    fix i assume i: "i < length wrapped_methods"
    then have "method_id (fst (wrapped_methods ! i)) = sv_id (desktop_calls r a b c d e n q ss fb fc x ! i)"
      using arg_cong [OF ids, of "\<lambda>l. l ! i"] len by simp
    moreover have "list_all2 has_type (snd (wrapped_methods ! i)) (sv_args (desktop_calls r a b c d e n q ss fb fc x ! i))"
      using list_all2_nthD [OF call_types [OF assms] i] .
    ultimately show "reaches (wrapped_methods ! i) (desktop_calls r a b c d e n q ss fb fc x ! i)"
      by (simp add: reaches_def)
  qed
  show "distinct (map (method_id \<circ> fst) service_methods)"
    unfolding method_ids by (rule service_ids_distinct)
qed

definition demo_args :: ApiArgs where
  "demo_args = \<lparr>aa_old = JNull, aa_new = JNull, aa_imageOptions = [(''maxSize'', JNum 128)], aa_history = [(''branch'', JString ''main'')],
     aa_filter = [], aa_comment = [(''body'', JString ''hi'')], aa_revert = [(''mode'', JString ''skip'')],
     aa_clone = JObject [(''server'', JString []), (''org'', JString []), (''project'', JString []), (''branch'', JString []),
       (''sparse'', JNull), (''target'', JString [])],
     aa_newRequest = JObject [(''title'', JString []), (''description'', JString []), (''source'', JString []),
       (''target'', JString []), (''draft'', JBool False)],
     aa_settings = JObject [(''keepInTray'', JBool True), (''startAtLogin'', JBool True), (''pollSeconds'', JNum 60),
       (''notify'', JObject [(''pushes'', JBool True), (''locks'', JBool True), (''reviews'', JBool True)]),
       (''tools'', JNull), (''manualUpdates'', JBool False)],
     aa_rules = JObject [(''shared'', JString []), (''local'', JString [])]\<rparr>"

lemma demo_args_typed: "typed_args demo_args"
  by (simp add: typed_args_def demo_args_def partial_of_def type_defs ImageRef_t_def ImageOptions_t_def HistoryQuery_t_def
      MergeRequestFilter_t_def CommentInput_t_def RevertRequest_t_def CloneRequest_t_def NewMergeRequest_t_def Settings_t_def
      NotifySettings_t_def IgnoreRules_t_def)

theorem desktop_calls_decode_witness:
  "list_all2 reaches wrapped_methods (desktop_calls ''/repo'' ''a'' ''b'' ''c'' ''d'' ''e'' 1 True [''x''] None None demo_args)"
  using desktop_calls_decode [OF demo_args_typed] by blast

section \<open>Answers\<close>

text \<open>The functions that turn answers into values; a failure is the message of the error thrown.\<close>

definition updatePhase :: "string \<Rightarrow> UpdatePhase" where
  "updatePhase p = (case map_of [(''idle'', UIdle), (''checking'', UChecking), (''upToDate'', UUpToDate),
     (''available'', UAvailable), (''downloading'', UDownloading), (''ready'', UReady), (''error'', UError)] p of
     Some u \<Rightarrow> u | None \<Rightarrow> UIdle)"

record RawUpdateState =
  ru_current :: string
  ru_enabled :: bool
  ru_inPlace :: bool
  ru_phase :: string
  ru_release :: "Release option"
  ru_written :: nat
  ru_total :: int
  ru_error :: "string option"
  ru_checkedAt :: "string option"

definition updateState :: "RawUpdateState option \<Rightarrow> UpdateState" where
  "updateState u = (case u of
     None \<Rightarrow> \<lparr>up_current = [], up_enabled = False, up_inPlace = False, up_phase = UIdle, up_release = None,
       up_written = 0, up_total = 0, up_error = [], up_checkedAt = []\<rparr>
   | Some s \<Rightarrow> \<lparr>up_current = ru_current s, up_enabled = ru_enabled s, up_inPlace = ru_inPlace s,
       up_phase = updatePhase (ru_phase s), up_release = ru_release s, up_written = ru_written s,
       up_total = ru_total s, up_error = coalesce (ru_error s) [], up_checkedAt = coalesce (ru_checkedAt s) []\<rparr>)"

definition required :: "'a option \<Rightarrow> string \<Rightarrow> string + 'a" where
  "required v what = (case v of Some x \<Rightarrow> Inr x | None \<Rightarrow> Inl (''No '' @ what @ '' was returned''))"

record RawLockResult =
  rk_locked :: "string list option"
  rk_failed :: "LockFailure list option"

definition desktop_lock_result :: "RawLockResult option \<Rightarrow> LockResult" where
  "desktop_lock_result r =
     \<lparr>lr_locked = coalesce (Option.bind r rk_locked) [], lr_failed = coalesce (Option.bind r rk_failed) []\<rparr>"

record RemoteDir =
  rd_name :: string
  rd_path :: string

record RawRemoteListing =
  rg_dirs :: "RemoteDir list option"
  rg_files :: nat
  rg_fileBytes :: nat

record RemoteListing =
  rm_dirs :: "RemoteDir list"
  rm_files :: nat
  rm_fileBytes :: nat

definition desktop_remoteTree_result :: "RawRemoteListing option \<Rightarrow> RemoteListing" where
  "desktop_remoteTree_result l =
     \<lparr>rm_dirs = coalesce (Option.bind l rg_dirs) [], rm_files = coalesce (map_option rg_files l) 0,
      rm_fileBytes = coalesce (map_option rg_fileBytes l) 0\<rparr>"

record RawCommit =
  rw_id :: string
  rw_hash :: string
  rw_parents :: "string list option"
  rw_author :: string
  rw_email :: string
  rw_message :: string
  rw_date :: string

record Commit =
  cd_id :: string
  cd_hash :: string
  cd_parents :: "string list"
  cd_author :: string
  cd_email :: string
  cd_message :: string
  cd_date :: string

definition with_parents :: "RawCommit \<Rightarrow> Commit" where
  "with_parents c = \<lparr>cd_id = rw_id c, cd_hash = rw_hash c, cd_parents = coalesce (rw_parents c) [], cd_author = rw_author c,
     cd_email = rw_email c, cd_message = rw_message c, cd_date = rw_date c\<rparr>"

record RawHistoryPage =
  rh_commits :: "RawCommit list option"
  rh_next :: string

record HistoryPage =
  hp_commits :: "Commit list"
  hp_next :: string

definition desktop_history_result :: "RawHistoryPage option \<Rightarrow> HistoryPage" where
  "desktop_history_result p =
     \<lparr>hp_commits = map with_parents (coalesce (Option.bind p rh_commits) []), hp_next = coalesce (map_option rh_next p) []\<rparr>"

definition desktop_createBranch_result :: "'b option \<Rightarrow> string + 'b" where
  "desktop_createBranch_result b = (case b of Some x \<Rightarrow> Inr x | None \<Rightarrow> Inl ''The branch was not created'')"

definition desktop_createTag_result :: "'t option \<Rightarrow> string + 't" where
  "desktop_createTag_result t = (case t of Some x \<Rightarrow> Inr x | None \<Rightarrow> Inl ''The tag was not created'')"

record RawConflictSet =
  rc_op :: string
  rc_base :: ConflictRevision
  rc_ours :: ConflictRevision
  rc_theirs :: ConflictRevision
  rc_files :: "ConflictFile list option"

definition no_revision :: ConflictRevision where
  "no_revision = \<lparr>cr_id = [], cr_label = []\<rparr>"

definition desktop_conflicts_result :: "RawConflictSet option \<Rightarrow> ConflictSet" where
  "desktop_conflicts_result s =
     \<lparr>cs_op = (case s of Some c \<Rightarrow> if rc_op c = ''merge'' \<or> rc_op c = ''revert'' then rc_op c else [] | None \<Rightarrow> []),
      cs_base = coalesce (map_option rc_base s) no_revision, cs_ours = coalesce (map_option rc_ours s) no_revision,
      cs_theirs = coalesce (map_option rc_theirs s) no_revision, cs_files = coalesce (Option.bind s rc_files) []\<rparr>"

end
