(* ===== verification/Images.thy ===== *)
theory Images
  imports Js_Number Diff_Rows
begin

text \<open>
  Comparing images in the desktop client, \<open>lib/imageCompare.ts\<close>: single channels, the heat map of the pixels
  that differ with its counts, and the percentage shown next to it. Pixels are arrays of bytes that the
  loops fill four at a time; the section on arrays relates such a loop to the picture it draws.
\<close>

section \<open>Arrays of bytes\<close>

text \<open>Storing in a \<open>Uint8ClampedArray\<close>; a store outside of it is ignored.\<close>

definition u8_clamp :: "int \<Rightarrow> int" where
  "u8_clamp v = max 0 (min 255 v)"

definition u8_set :: "int list \<Rightarrow> nat \<Rightarrow> int \<Rightarrow> int list" where
  "u8_set out i v = out[i := u8_clamp v]"

definition put4 :: "nat \<Rightarrow> int \<times> int \<times> int \<times> int \<Rightarrow> int list \<Rightarrow> int list" where
  "put4 o1 v out = (case v of (r, g, b, a) \<Rightarrow>
     u8_set (u8_set (u8_set (u8_set out o1 r) (o1 + 1) g) (o1 + 2) b) (o1 + 3) a)"

text \<open>The four bytes at an index. The arrays of decoded images have four bytes for every pixel.\<close>

definition get4 :: "int list \<Rightarrow> nat \<Rightarrow> int \<times> int \<times> int \<times> int" where
  "get4 d i = (d ! i, d ! (i + 1), d ! (i + 2), d ! (i + 3))"

definition clamp4 :: "int \<times> int \<times> int \<times> int \<Rightarrow> int \<times> int \<times> int \<times> int" where
  "clamp4 v = (case v of (r, g, b, a) \<Rightarrow> (u8_clamp r, u8_clamp g, u8_clamp b, u8_clamp a))"

record Pixels =
  px_width :: nat
  px_height :: nat
  px_data :: "int list"

definition pixels_ok :: "Pixels \<Rightarrow> bool" where
  "pixels_ok p \<longleftrightarrow> length (px_data p) = px_width p * px_height p * 4 \<and> (\<forall>v \<in> set (px_data p). 0 \<le> v \<and> v \<le> 255)"

section \<open>Channels\<close>

record Channels =
  ch_r :: bool
  ch_g :: bool
  ch_b :: bool
  ch_a :: bool

definition allChannels :: Channels where
  "allChannels = \<lparr>ch_r = True, ch_g = True, ch_b = True, ch_a = True\<rparr>"

definition selected_channels :: "Channels \<Rightarrow> nat list" where
  "selected_channels ch =
     (if ch_r ch then [0] else []) @ (if ch_g ch then [1] else []) @ (if ch_b ch then [2] else []) @ (if ch_a ch then [3] else [])"

definition channel_of :: "nat \<Rightarrow> int \<times> int \<times> int \<times> int \<Rightarrow> int" where
  "channel_of k v = (case v of (r, g, b, a) \<Rightarrow> if k = 0 then r else if k = 1 then g else if k = 2 then b else a)"

definition isolated_pixel :: "Channels \<Rightarrow> int \<times> int \<times> int \<times> int \<Rightarrow> int \<times> int \<times> int \<times> int" where
  "isolated_pixel ch v = (case selected_channels ch of
     [k] \<Rightarrow> (channel_of k v, channel_of k v, channel_of k v, 255)
   | _ \<Rightarrow> (case v of (r, g, b, a) \<Rightarrow>
       (if ch_r ch then r else 0, if ch_g ch then g else 0, if ch_b ch then b else 0, if ch_a ch then a else 255)))"

definition isolateChannels :: "Pixels \<Rightarrow> Channels \<Rightarrow> Pixels" where
  "isolateChannels src ch =
     (if length (selected_channels ch) = 4 then src
      else src\<lparr>px_data := fold (\<lambda>k out. put4 (4 * k) (isolated_pixel ch (get4 (px_data src) (4 * k))) out)
             [0..<length (px_data src) div 4] (replicate (length (px_data src)) 0)\<rparr>)"

section \<open>Heat map\<close>

record Heatmap =
  hm_pixels :: Pixels
  hm_changed :: nat
  hm_total :: nat

definition pixelAt :: "Pixels \<Rightarrow> nat \<Rightarrow> nat \<Rightarrow> nat option" where
  "pixelAt p x y = (if x < px_width p \<and> y < px_height p then Some ((y * px_width p + x) * 4) else None)"

definition channel_delta :: "int \<times> int \<times> int \<times> int \<Rightarrow> int \<times> int \<times> int \<times> int \<Rightarrow> int" where
  "channel_delta u v = (case (u, v) of ((r, g, b, a), (r', g', b', a')) \<Rightarrow>
     if a = 0 \<and> a' = 0 then 0
     else max (max (abs (r - r')) (abs (g - g'))) (max (abs (b - b')) (abs (a - a'))))"

text \<open>\<open>Math.round(220 * (1 - delta / 255))\<close> and \<open>Math.round(24 + lum * 0.25)\<close> in doubles.\<close>

definition heat_green :: "int \<Rightarrow> int" where
  "heat_green delta = dbl_round (dbl_scale (dbl_sub (dbl_div 1 1) (dbl_div delta 255)) 220)"

definition luminance :: "int \<times> int \<times> int \<times> int \<Rightarrow> dbl" where
  "luminance v = (case v of (r, g, b, a) \<Rightarrow>
     dbl_mul (dbl_add (dbl_add (dbl_scale (dbl_div 299 1000) r) (dbl_scale (dbl_div 587 1000) g)) (dbl_scale (dbl_div 114 1000) b))
       (dbl_div a 255))"

definition dimmed_gray :: "int \<times> int \<times> int \<times> int \<Rightarrow> int" where
  "dimmed_gray v = dbl_round (dbl_add (dbl_div 24 1) (dbl_mul (luminance v) (dbl_div 1 4)))"

type_synonym heat_state = "int list \<times> nat \<times> nat"

definition heat_pixel :: "Pixels \<Rightarrow> Pixels \<Rightarrow> int \<Rightarrow> nat \<Rightarrow> nat \<times> nat \<Rightarrow> heat_state \<Rightarrow> heat_state" where
  "heat_pixel a b tolerance width xy st = (case (xy, st) of ((x, y), (out, changed, counted)) \<Rightarrow>
     let o1 = (y * width + x) * 4 in
     (case (pixelAt a x y, pixelAt b x y) of
        (None, None) \<Rightarrow> st
      | (ia, ib) \<Rightarrow>
          let delta = (case (ia, ib) of
                (Some i, Some j) \<Rightarrow> channel_delta (get4 (px_data a) i) (get4 (px_data b) j) | _ \<Rightarrow> 255)
          in if delta > tolerance then (put4 o1 (255, heat_green delta, 0, 255) out, changed + 1, counted + 1)
             else let v = dimmed_gray (case ib of Some j \<Rightarrow> get4 (px_data b) j | None \<Rightarrow> get4 (px_data a) (the ia))
                  in (put4 o1 (v, v, v, 255) out, changed, counted + 1)))"

definition heatmap :: "Pixels \<Rightarrow> Pixels \<Rightarrow> int \<Rightarrow> Heatmap" where
  "heatmap a b tolerance =
     (let width = max (px_width a) (px_width b);
          height = max (px_height a) (px_height b);
          (out, changed, counted) =
            fold (\<lambda>y st. fold (\<lambda>x. heat_pixel a b tolerance width (x, y)) [0..<width] st) [0..<height]
              (replicate (width * height * 4) 0, 0, 0)
      in \<lparr>hm_pixels = \<lparr>px_width = width, px_height = height, px_data = out\<rparr>, hm_changed = changed, hm_total = counted\<rparr>)"

text \<open>\<open>formatPercent(changed / total)\<close>.\<close>

definition dbl_to_fixed :: "nat \<Rightarrow> dbl \<Rightarrow> string" where
  "dbl_to_fixed digits x = (case x of (m, s) \<Rightarrow>
     let k = nat (if 0 \<le> s then js_round_div (10 ^ digits * m * 2 ^ nat s) 1 else js_round_div (10 ^ digits * m) (2 ^ nat (- s)));
         f = js_show_nat (k mod 10 ^ digits)
     in js_show_nat (k div 10 ^ digits) @ ''.'' @ replicate (digits - length f) (CHR ''0'') @ f)"

definition formatPercent :: "dbl \<Rightarrow> string" where
  "formatPercent ratio =
     (if fst ratio \<le> 0 then ''0%''
      else let pct = dbl_scale ratio 100
           in if dbl_less pct (dbl_div 1 100) then ''<0.01%''
              else if dbl_less pct (dbl_div 10 1) then dbl_to_fixed 2 pct @ ''%''
              else dbl_to_fixed 1 pct @ ''%'')"


section \<open>Drawing into an array\<close>

lemma length_u8_set [simp]: "length (u8_set out i v) = length out"
  by (simp add: u8_set_def)

lemma length_put4 [simp]: "length (put4 o1 v out) = length out"
  by (simp add: put4_def split: prod.splits)

lemma get4_put4:
  assumes "4 * i + 3 < length out"
  shows "get4 (put4 (4 * k) v out) (4 * i) = (if i = k then clamp4 v else get4 out (4 * i))"
proof (cases "i = k")
  case True
  then show ?thesis using assms by (simp add: get4_def put4_def u8_set_def clamp4_def split: prod.splits)
next
  case False
  then have "4 * k \<noteq> 4 * i + c" "4 * k + 1 \<noteq> 4 * i + c" "4 * k + 2 \<noteq> 4 * i + c" "4 * k + 3 \<noteq> 4 * i + c" if "c < 4" for c
    using that by presburger+
  from this [of 0] this [of 1] this [of 2] this [of 3] False show ?thesis
    by (simp add: get4_def put4_def u8_set_def split: prod.splits)
qed

text \<open>Rows by rows: the position of a pixel is its place in the loop.\<close>

definition positions :: "nat \<Rightarrow> nat \<Rightarrow> (nat \<times> nat) list" where
  "positions w h = concat (map (\<lambda>y. map (\<lambda>x. (x, y)) [0..<w]) [0..<h])"

lemma set_positions: "set (positions w h) = {0..<w} \<times> {0..<h}"
  by (auto simp: positions_def)

lemma positions_index: "map (\<lambda>(x, y). y * w + x) (positions w h) = [0..<w * h]"
proof (induction h)
  case (Suc h)
  have "map (\<lambda>(x, y). y * w + x) (positions w (Suc h)) =
      [0..<w * h] @ map (\<lambda>x. h * w + x) [0..<w]"
    using Suc by (simp add: positions_def comp_def)
  also have "map (\<lambda>x. h * w + x) [0..<w] = [w * h..<w * h + w]"
    using map_add_upt [of "h * w" w] by (simp add: ac_simps)
  also have "[0..<w * h] @ [w * h..<w * h + w] = [0..<w * Suc h]"
    by (metis le0 mult_Suc_right add.commute upt_add_eq_append)
  finally show ?case .
qed (simp add: positions_def)

lemma distinct_positions: "distinct (positions w h)"
  using distinct_map [of "\<lambda>(x, y). y * w + x" "positions w h"] by (simp add: positions_index)

lemma position_inj:
  assumes "(x, y) \<in> set (positions w h)" "(x', y') \<in> set (positions w h)" "y * w + x = y' * w + x'"
  shows "x = x' \<and> y = y'"
proof -
  have "inj_on (\<lambda>(x, y). y * w + x) (set (positions w h))"
    using distinct_map [of "\<lambda>(x, y). y * w + x" "positions w h"] by (simp add: positions_index)
  from inj_onD [OF this _ assms(1,2)] assms(3) show ?thesis by auto
qed

section \<open>The heat map as a picture\<close>

text \<open>
  What the heat map stands for: the pixel of an image at a position, if it has one; when two images count as
  different there; and the color drawn.
\<close>

definition pixel :: "Pixels \<Rightarrow> nat \<times> nat \<Rightarrow> (int \<times> int \<times> int \<times> int) option" where
  "pixel p xy = map_option (get4 (px_data p)) (pixelAt p (fst xy) (snd xy))"

fun heat_delta :: "(int \<times> int \<times> int \<times> int) option \<Rightarrow> (int \<times> int \<times> int \<times> int) option \<Rightarrow> int option" where
  "heat_delta None None = None"
| "heat_delta (Some u) (Some v) = Some (channel_delta u v)"
| "heat_delta _ _ = Some 255"

definition heat_color ::
  "int \<Rightarrow> (int \<times> int \<times> int \<times> int) option \<Rightarrow> (int \<times> int \<times> int \<times> int) option \<Rightarrow> int \<times> int \<times> int \<times> int" where
  "heat_color tolerance u v = (case heat_delta u v of
     None \<Rightarrow> (0, 0, 0, 0)
   | Some delta \<Rightarrow>
       if delta > tolerance then clamp4 (255, heat_green delta, 0, 255)
       else let g = dimmed_gray (case v of Some w \<Rightarrow> w | None \<Rightarrow> the u) in clamp4 (g, g, g, 255))"

definition heat_differs :: "int \<Rightarrow> (int \<times> int \<times> int \<times> int) option \<Rightarrow> (int \<times> int \<times> int \<times> int) option \<Rightarrow> bool" where
  "heat_differs tolerance u v = (case heat_delta u v of None \<Rightarrow> False | Some delta \<Rightarrow> delta > tolerance)"

definition heat_shown :: "(int \<times> int \<times> int \<times> int) option \<Rightarrow> (int \<times> int \<times> int \<times> int) option \<Rightarrow> bool" where
  "heat_shown u v \<longleftrightarrow> u \<noteq> None \<or> v \<noteq> None"

lemma heat_hidden: "\<not> heat_shown u v \<Longrightarrow> heat_color tol u v = (0, 0, 0, 0) \<and> \<not> heat_differs tol u v"
  by (cases u; cases v) (simp_all add: heat_shown_def heat_color_def heat_differs_def)

lemma clamp4_idem [simp]: "clamp4 (clamp4 v) = clamp4 v"
  by (simp add: clamp4_def u8_clamp_def split: prod.splits)

lemma put4_clamp [simp]: "put4 k (clamp4 v) out = put4 k v out"
  by (simp add: put4_def clamp4_def u8_set_def u8_clamp_def split: prod.splits)

lemma heat_color_clamped [simp]: "clamp4 (heat_color tol u v) = heat_color tol u v"
  by (auto simp: heat_color_def Let_def clamp4_def u8_clamp_def split: option.splits)

lemma heat_pixel_step:
  "heat_pixel a b tol w (x, y) (out, c, t) =
     (if \<not> heat_shown (pixel a (x, y)) (pixel b (x, y)) then (out, c, t)
      else (put4 (4 * (y * w + x)) (heat_color tol (pixel a (x, y)) (pixel b (x, y))) out,
            if heat_differs tol (pixel a (x, y)) (pixel b (x, y)) then c + 1 else c, t + 1))"
  by (cases "pixelAt a x y"; cases "pixelAt b x y")
    (simp_all add: heat_pixel_def pixel_def heat_shown_def heat_color_def heat_differs_def Let_def mult.commute)

lemma fold_positions: "fold (\<lambda>y. fold (\<lambda>x. f (x, y)) [0..<w]) [0..<h] st = fold f (positions w h) st"
proof -
  have "fold (\<lambda>y. fold (\<lambda>x. f (x, y)) xs) ys st = fold f (concat (map (\<lambda>y. map (\<lambda>x. (x, y)) xs) ys)) st" for xs ys st
    by (induction ys arbitrary: st) (simp_all add: fold_map comp_def)
  then show ?thesis by (simp add: positions_def)
qed

lemma heat_fold:
  assumes "set ps \<subseteq> set (positions w h)" "distinct ps" "length out = w * h * 4"
    and "fold (heat_pixel a b tol w) ps (out, c, t) = (out', c', t')"
  shows "length out' = w * h * 4 \<and>
    c' = c + length (filter (\<lambda>p. heat_differs tol (pixel a p) (pixel b p)) ps) \<and>
    t' = t + length (filter (\<lambda>p. heat_shown (pixel a p) (pixel b p)) ps) \<and>
    (\<forall>(x, y) \<in> set (positions w h). get4 out' (4 * (y * w + x)) =
       (if (x, y) \<in> set ps \<and> heat_shown (pixel a (x, y)) (pixel b (x, y))
        then heat_color tol (pixel a (x, y)) (pixel b (x, y)) else get4 out (4 * (y * w + x))))"
  using assms
proof (induction ps arbitrary: out c t)
  case (Cons p ps)
  obtain x y where p: "p = (x, y)" by (cases p)
  let ?u = "pixel a (x, y)" and ?v = "pixel b (x, y)"
  show ?case
  proof (cases "heat_shown ?u ?v")
    case False
    then have f: "fold (heat_pixel a b tol w) ps (out, c, t) = (out', c', t')"
      using Cons.prems(4) by (simp add: p heat_pixel_step)
    show ?thesis using Cons.IH [OF _ _ Cons.prems(3) f] Cons.prems(1,2) False heat_hidden [OF False] by (auto simp: p)
  next
    case True
    let ?out = "put4 (4 * (y * w + x)) (heat_color tol ?u ?v) out"
    let ?c = "if heat_differs tol ?u ?v then c + 1 else c"
    have f: "fold (heat_pixel a b tol w) ps (?out, ?c, t + 1) = (out', c', t')"
      using Cons.prems(4) True by (simp add: p heat_pixel_step)
    have idx: "get4 ?out (4 * (y' * w + x')) =
        (if (x', y') = (x, y) then heat_color tol ?u ?v else get4 out (4 * (y' * w + x')))"
      if "(x', y') \<in> set (positions w h)" for x' y'
    proof -
      have "y' * w + x' \<in> set (map (\<lambda>(x, y). y * w + x) (positions w h))" using that by force
      then have "4 * (y' * w + x') + 3 < length out" by (simp add: positions_index Cons.prems(3))
      from get4_put4 [OF this, of "y * w + x"] position_inj [OF that, of x y] Cons.prems(1)
      show ?thesis by (auto simp: p simp del: distrib_left_numeral)
    qed
    show ?thesis
      using Cons.IH [OF _ _ _ f] Cons.prems(1-3) True idx by (auto simp: p simp del: distrib_left_numeral)
  qed
qed auto

lemma pixel_positions:
  "pixel p (x, y) = (if x < px_width p \<and> y < px_height p then Some (get4 (px_data p) (4 * (y * px_width p + x))) else None)"
  by (simp add: pixel_def pixelAt_def mult.commute)

lemma pixel_None: "pixel p xy = None \<longleftrightarrow> \<not> (fst xy < px_width p \<and> snd xy < px_height p)"
  by (simp add: pixel_def pixelAt_def)

lemma heatmap_fold:
  assumes "w = max (px_width a) (px_width b)" "h = max (px_height a) (px_height b)"
    and "fold (heat_pixel a b tol w) (positions w h) (replicate (w * h * 4) 0, 0, 0) = (out, c, t)"
  shows "heatmap a b tol = \<lparr>hm_pixels = \<lparr>px_width = w, px_height = h, px_data = out\<rparr>, hm_changed = c, hm_total = t\<rparr>"
  using assms by (simp add: heatmap_def Let_def fold_positions)

lemma card_filter_positions:
  "(\<And>xy. P xy \<Longrightarrow> xy \<in> set (positions w h)) \<Longrightarrow> length (filter P (positions w h)) = card {xy. P xy}"
proof -
  assume "\<And>xy. P xy \<Longrightarrow> xy \<in> set (positions w h)"
  then have "{xy. P xy} = set (filter P (positions w h))" by auto
  then show ?thesis using distinct_card [of "filter P (positions w h)"] distinct_positions by (simp del: set_filter)
qed

lemma card_shown:
  "card {xy. heat_shown (pixel a xy) (pixel b xy)} =
     px_width a * px_height a + px_width b * px_height b - min (px_width a) (px_width b) * min (px_height a) (px_height b)"
proof -
  let ?R = "\<lambda>p. {0..<px_width p} \<times> {0..<px_height p}"
  have "{xy. heat_shown (pixel a xy) (pixel b xy)} = ?R a \<union> ?R b"
    by (auto simp: heat_shown_def pixel_None simp del: not_None_eq)
  moreover have "?R a \<inter> ?R b = {0..<min (px_width a) (px_width b)} \<times> {0..<min (px_height a) (px_height b)}" by auto
  ultimately show ?thesis using card_Un_Int [of "?R a" "?R b"] by (simp add: card_cartesian_product)
qed

lemma heatmap_picture:
  "let m = heatmap a b tol; w = max (px_width a) (px_width b); h = max (px_height a) (px_height b) in
     (\<forall>x y. pixel (hm_pixels m) (x, y) =
        (if x < w \<and> y < h then Some (heat_color tol (pixel a (x, y)) (pixel b (x, y))) else None)) \<and>
     length (px_data (hm_pixels m)) = w * h * 4 \<and>
     hm_changed m = card {xy. heat_differs tol (pixel a xy) (pixel b xy)} \<and>
     hm_total m = px_width a * px_height a + px_width b * px_height b -
       min (px_width a) (px_width b) * min (px_height a) (px_height b)"
proof -
  define w h where wh: "w = max (px_width a) (px_width b)" "h = max (px_height a) (px_height b)"
  obtain out c t where f: "fold (heat_pixel a b tol w) (positions w h) (replicate (w * h * 4) 0, 0, 0) = (out, c, t)"
    by (metis prod_cases3)
  note m = heatmap_fold [OF wh f]
  have shown: "xy \<in> set (positions w h)" if "heat_shown (pixel a xy) (pixel b xy)" for xy
    using that by (cases xy) (auto simp: heat_shown_def pixel_None set_positions wh simp del: not_None_eq)
  have differs: "xy \<in> set (positions w h)" if "heat_differs tol (pixel a xy) (pixel b xy)" for xy
    using that shown [of xy] heat_hidden by blast
  have blank: "get4 (replicate (w * h * 4) 0) (4 * (y * w + x)) = (0, 0, 0, 0)" if "(x, y) \<in> set (positions w h)" for x y
  proof -
    have "y * w + x \<in> set (map (\<lambda>(x, y). y * w + x) (positions w h))" using that by force
    then show ?thesis by (simp add: positions_index get4_def)
  qed
  note r = heat_fold [OF subset_refl distinct_positions length_replicate f]
  have "pixel \<lparr>px_width = w, px_height = h, px_data = out\<rparr> (x, y) =
      (if x < w \<and> y < h then Some (heat_color tol (pixel a (x, y)) (pixel b (x, y))) else None)" for x y
    using r blank [of x y] heat_hidden [of "pixel a (x, y)" "pixel b (x, y)" tol] by (auto simp: pixel_positions [of "\<lparr>px_width = w, px_height = h, px_data = out\<rparr>"] set_positions simp del: distrib_left_numeral)
  then show ?thesis
    using r card_filter_positions [OF differs] card_filter_positions [OF shown] card_shown [of a b]
    by (simp add: Let_def wh [symmetric] m)
qed

text \<open>Two pixels look the same: equal, or both fully transparent.\<close>

fun looks_same :: "(int \<times> int \<times> int \<times> int) option \<Rightarrow> (int \<times> int \<times> int \<times> int) option \<Rightarrow> bool" where
  "looks_same None None = True"
| "looks_same (Some u) (Some v) = (u = v \<or> (snd (snd (snd u)) = 0 \<and> snd (snd (snd v)) = 0))"
| "looks_same _ _ = False"

lemma channel_delta_zero: "channel_delta u v = 0 \<longleftrightarrow> looks_same (Some u) (Some v)" "0 \<le> channel_delta u v"
proof -
  have mx: "max i j = 0 \<longleftrightarrow> i = 0 \<and> j = 0" if "0 \<le> i" "0 \<le> j" for i j :: int using that by (auto simp: max_def)
  obtain r g b a where u: "u = (r, g, b, a)" by (cases u)
  obtain r' g' b' a' where v: "v = (r', g', b', a')" by (cases v)
  show "channel_delta u v = 0 \<longleftrightarrow> looks_same (Some u) (Some v)" "0 \<le> channel_delta u v"
    by (auto simp: channel_delta_def u v mx le_max_iff_disj)
qed

lemma looks_same_delta: "looks_same u v \<longleftrightarrow> \<not> heat_differs 0 u v"
  using channel_delta_zero by (cases u; cases v) (auto simp: heat_differs_def order_less_le simp del: looks_same.simps(2))

lemma finite_differs: "finite {xy. heat_differs tol (pixel a xy) (pixel b xy)}"
proof (rule finite_subset)
  show "{xy. heat_differs tol (pixel a xy) (pixel b xy)} \<subseteq>
      set (positions (max (px_width a) (px_width b)) (max (px_height a) (px_height b)))"
  proof
    fix xy assume "xy \<in> {xy. heat_differs tol (pixel a xy) (pixel b xy)}"
    then have "heat_shown (pixel a xy) (pixel b xy)" using heat_hidden by blast
    then show "xy \<in> set (positions (max (px_width a) (px_width b)) (max (px_height a) (px_height b)))"
      by (cases xy) (auto simp: set_positions heat_shown_def pixel_None simp del: not_None_eq)
  qed
qed simp

text \<open>
  Property C9. The heat map is the picture of the differences. It covers both images, aligned at the top
  left; the loop over its array draws at every position exactly the color of the two pixels there, and
  nothing where neither image has one. It counts the positions that at least one image has, and among
  them those whose largest channel difference exceeds the tolerance; at a position that only one image has
  the difference is 255, so that it counts for every tolerance below 255, but not for 255. With
  tolerance zero it reports no change exactly when the two images look the same: the same pixels, up to
  the color of fully transparent ones.
\<close>

theorem heatmap_draws_differences:
  "(let m = heatmap a b tol; w = max (px_width a) (px_width b); h = max (px_height a) (px_height b) in
     (\<forall>x y. pixel (hm_pixels m) (x, y) =
        (if x < w \<and> y < h then Some (heat_color tol (pixel a (x, y)) (pixel b (x, y))) else None)) \<and>
     length (px_data (hm_pixels m)) = w * h * 4 \<and>
     hm_changed m = card {xy. heat_differs tol (pixel a xy) (pixel b xy)} \<and>
     hm_total m = px_width a * px_height a + px_width b * px_height b -
       min (px_width a) (px_width b) * min (px_height a) (px_height b)) \<and>
   (hm_changed (heatmap a b 0) = 0 \<longleftrightarrow> (\<forall>xy. looks_same (pixel a xy) (pixel b xy))) \<and>
   ((pixel a xy = None) \<noteq> (pixel b xy = None) \<longrightarrow> (heat_differs tol (pixel a xy) (pixel b xy) \<longleftrightarrow> tol < 255))"
proof (intro conjI impI)
  assume "(pixel a xy = None) \<noteq> (pixel b xy = None)"
  then show "heat_differs tol (pixel a xy) (pixel b xy) \<longleftrightarrow> tol < 255"
    by (cases "pixel a xy"; cases "pixel b xy") (simp_all add: heat_differs_def)
next
  have "hm_changed (heatmap a b 0) = card {xy. heat_differs 0 (pixel a xy) (pixel b xy)}"
    using heatmap_picture [of a b 0] by (simp add: Let_def)
  then show "hm_changed (heatmap a b 0) = 0 \<longleftrightarrow> (\<forall>xy. looks_same (pixel a xy) (pixel b xy))"
    using finite_differs [of 0 a b] by (auto simp: looks_same_delta)
qed (rule heatmap_picture)

definition one_pixel :: Pixels where
  "one_pixel = \<lparr>px_width = 1, px_height = 1, px_data = [10, 20, 30, 255]\<rparr>"

definition no_pixel :: Pixels where
  "no_pixel = \<lparr>px_width = 0, px_height = 0, px_data = []\<rparr>"

theorem heatmap_draws_differences_witness:
  "heat_differs 254 (pixel one_pixel (0, 0)) (pixel no_pixel (0, 0)) \<and> hm_total (heatmap one_pixel no_pixel 254) = 1"
proof -
  have p: "(pixel one_pixel (0, 0) = None) \<noteq> (pixel no_pixel (0, 0) = None)" by (simp add: pixel_def pixelAt_def one_pixel_def no_pixel_def)
  from heatmap_draws_differences [of one_pixel no_pixel 254 "(0, 0)"] p show ?thesis
    by (simp add: Let_def one_pixel_def no_pixel_def)
qed

text \<open>
  At the largest tolerance of the slider a pixel that only one image has is not counted, although the comment on
  \<open>heatmap\<close> says that it always is.
\<close>

theorem lone_pixel_not_counted:
  "hm_changed (heatmap one_pixel no_pixel 255) = 0 \<and> hm_changed (heatmap one_pixel no_pixel 254) = 1"
  by code_simp

section \<open>Single channels\<close>

lemma fold_put4_length [simp]: "length (fold (\<lambda>p. put4 (4 * idx p) (f p)) ps out) = length out"
  by (induction ps arbitrary: out) auto

lemma fold_put4_other:
  "i \<notin> idx ` set ps \<Longrightarrow> 4 * i + 3 < length out \<Longrightarrow>
   get4 (fold (\<lambda>p. put4 (4 * idx p) (f p)) ps out) (4 * i) = get4 out (4 * i)"
  by (induction ps arbitrary: out) (auto simp: get4_put4)

lemma fold_put4:
  "distinct (map idx ps) \<Longrightarrow> p \<in> set ps \<Longrightarrow> 4 * idx p + 3 < length out \<Longrightarrow>
   get4 (fold (\<lambda>p. put4 (4 * idx p) (f p)) ps out) (4 * idx p) = clamp4 (f p)"
  by (induction ps arbitrary: out) (auto simp: get4_put4 fold_put4_other)

text \<open>
  Showing some channels of an image: one channel alone as opaque gray, otherwise the hidden colors black
  and a hidden alpha opaque; with all four the image itself.
\<close>

lemma isolateChannels_pixel:
  assumes "pixels_ok src"
  shows "pixel (isolateChannels src ch) xy =
    (if ch = allChannels then pixel src xy else map_option (isolated_pixel ch) (pixel src xy))"
proof -
  obtain x y where xy: "xy = (x, y)" by (cases xy)
  let ?n = "px_width src * px_height src" and ?k = "y * px_width src + x"
  have all: "length (selected_channels ch) = 4 \<longleftrightarrow> ch = allChannels"
    by (cases ch) (auto simp: selected_channels_def allChannels_def)
  have id: "clamp4 (isolated_pixel ch v) = isolated_pixel ch v" if "clamp4 v = v" for v
  proof -
    obtain r g b a where v: "v = (r, g, b, a)" by (cases v)
    with that have "u8_clamp r = r" "u8_clamp g = g" "u8_clamp b = b" "u8_clamp a = a" by (simp_all add: clamp4_def)
    moreover have "u8_clamp 0 = 0" "u8_clamp 255 = 255" by (simp_all add: u8_clamp_def)
    ultimately show ?thesis by (simp add: v isolated_pixel_def clamp4_def channel_of_def split: list.split)
  qed
  show ?thesis
  proof (cases "x < px_width src \<and> y < px_height src \<and> ch \<noteq> allChannels")
    case True
    then have "(x, y) \<in> set (positions (px_width src) (px_height src))" by (simp add: set_positions)
    then have "?k \<in> set (map (\<lambda>(x, y). y * px_width src + x) (positions (px_width src) (px_height src)))" by force
    then have k: "?k < ?n" by (simp add: positions_index)
    then have l: "4 * ?k + 3 < length (px_data src)" using assms by (simp add: pixels_ok_def)
    then have "clamp4 (get4 (px_data src) (4 * ?k)) = get4 (px_data src) (4 * ?k)"
      using assms by (auto simp: clamp4_def get4_def u8_clamp_def pixels_ok_def)
    with k l True show ?thesis
      using fold_put4 [of "\<lambda>k. k" "[0..<?n]" ?k "replicate (length (px_data src)) 0"] assms
      by (simp add: xy pixel_positions isolateChannels_def all id pixels_ok_def del: distrib_left_numeral)
  qed (auto simp: xy pixel_positions isolateChannels_def all)
qed

end
