(* ===== verification/Audio.thy ===== *)
theory Audio
  imports Images Web_Models
begin

text \<open>
  Comparing sounds in the desktop client, \<open>lib/audio.ts\<close>: the spectrogram, the waveform, the time labels, and
  the player that runs both versions in lockstep. The player talks to the audio context of the browser,
  which is modelled by its clock and by the sources it was told to run; times are exact.
\<close>

section \<open>Spectrogram\<close>

type_synonym Rgb = "int \<times> int \<times> int"

definition color_stops :: "Rgb list" where
  "color_stops = [(0, 0, 4), (40, 11, 84), (101, 21, 110), (159, 42, 99), (212, 72, 66), (245, 125, 21),
     (250, 193, 39), (252, 255, 164)]"

definition mix :: "int \<Rightarrow> int \<Rightarrow> dbl \<Rightarrow> int" where
  "mix a b f = dbl_round (dbl_add (dbl_div a 1) (dbl_scale f (b - a)))"

text \<open>\<open>Math.floor\<close> of a double.\<close>

definition dbl_floor :: "dbl \<Rightarrow> int" where
  "dbl_floor x = (case x of (m, s) \<Rightarrow> if 0 \<le> s then m * 2 ^ nat s else m div 2 ^ nat (- s))"

definition colormap :: "int \<Rightarrow> Rgb" where
  "colormap v =
     (let t = dbl_scale (dbl_div (max 0 (min 255 v)) 255) (int (length color_stops) - 1);
          i = min (length color_stops - 2) (nat (dbl_floor t));
          f = dbl_sub t (dbl_div (int i) 1)
      in case (color_stops ! i, color_stops ! (i + 1)) of
           ((r, g, b), (r', g', b')) \<Rightarrow> (mix r r' f, mix g g' f, mix b b' f))"

text \<open>\<open>levels[i] ?? 0\<close> and the loops of \<open>spectrogramPixels\<close>.\<close>

definition level_at :: "int list \<Rightarrow> nat \<Rightarrow> int" where
  "level_at levels i = (if i < length levels then levels ! i else 0)"

definition spectrogram_pixel :: "int list \<Rightarrow> nat \<Rightarrow> nat \<Rightarrow> nat \<Rightarrow> nat \<Rightarrow> int list \<Rightarrow> int list" where
  "spectrogram_pixel levels cols rows col row out =
     (case colormap (level_at levels (row * cols + col)) of (r, g, b) \<Rightarrow>
        put4 (((rows - 1 - row) * cols + col) * 4) (r, g, b, 255) out)"

definition spectrogramPixels :: "int list \<Rightarrow> nat \<Rightarrow> nat \<Rightarrow> int list" where
  "spectrogramPixels levels cols rows =
     fold (\<lambda>row. fold (\<lambda>col. spectrogram_pixel levels cols rows col row) [0..<cols]) [0..<rows]
       (replicate (cols * rows * 4) 0)"

section \<open>Waveform\<close>

datatype WaveCommand = FillStyle string | FillRect rat rat rat rat

definition wave_from :: "nat \<Rightarrow> nat \<Rightarrow> nat \<Rightarrow> nat" where
  "wave_from buckets width x = (x * buckets) div width"

definition wave_to :: "nat \<Rightarrow> nat \<Rightarrow> nat \<Rightarrow> nat" where
  "wave_to buckets width x = max (wave_from buckets width x + 1) (((x + 1) * buckets) div width)"

text \<open>The lowest and the highest peak of the buckets of a column, \<open>None\<close> if it has none.\<close>

definition wave_step :: "rat list \<Rightarrow> nat \<Rightarrow> (rat \<times> rat) option \<Rightarrow> (rat \<times> rat) option" where
  "wave_step peaks k r = (case r of
     None \<Rightarrow> Some (peaks ! (2 * k), peaks ! (2 * k + 1))
   | Some (lo, hi) \<Rightarrow> Some (min lo (peaks ! (2 * k)), max hi (peaks ! (2 * k + 1))))"

definition wave_range :: "rat list \<Rightarrow> nat \<Rightarrow> nat \<Rightarrow> (rat \<times> rat) option" where
  "wave_range peaks a b = fold (wave_step peaks) [a..<b] None"

definition wave_y :: "rat \<Rightarrow> rat \<Rightarrow> rat \<Rightarrow> rat" where
  "wave_y y0 height v = y0 + ((1 - max (- 1) (min 1 v)) / 2) * height"

definition wave_column :: "rat list \<Rightarrow> nat \<Rightarrow> rat \<Rightarrow> rat \<Rightarrow> nat \<Rightarrow> WaveCommand list" where
  "wave_column peaks width height y0 x =
     (let buckets = length peaks div 2
      in case wave_range peaks (wave_from buckets width x) (min buckets (wave_to buckets width x)) of
           None \<Rightarrow> []
         | Some (lo, hi) \<Rightarrow> [FillRect (of_nat x) (wave_y y0 height hi) 1
                               (max 1 (wave_y y0 height lo - wave_y y0 height hi))])"

definition drawWaveform :: "rat list \<Rightarrow> nat \<Rightarrow> rat \<Rightarrow> string \<Rightarrow> rat \<Rightarrow> WaveCommand list" where
  "drawWaveform peaks width height color y0 =
     [FillStyle color, FillRect 0 (y0 + height / 2) (of_nat width) 1] @
     (if length peaks div 2 = 0 then [] else concat (map (wave_column peaks width height y0) [0..<width]))"

section \<open>Labels\<close>

definition padStart :: "nat \<Rightarrow> char \<Rightarrow> string \<Rightarrow> string" where
  "padStart n c s = replicate (n - length s) c @ s"

definition formatTime :: "dbl \<Rightarrow> string" where
  "formatTime seconds =
     (let cs = (if fst seconds < 0 then 0 else dbl_round (dbl_scale seconds 100));
          m = cs div 6000
      in js_show_int m @ '':'' @ padStart 5 (CHR ''0'') (dbl_to_fixed 2 (dbl_div (cs - m * 6000) 100)))"

section \<open>The player\<close>

datatype PlayerSide = PlayOld | PlayNew

text \<open>A source that was started, with its gain and whether its end is reported.\<close>

record Source =
  so_side :: PlayerSide
  so_gain :: int
  so_offset :: rat
  so_onended :: bool

text \<open>
  The variables of \<open>createPlayer\<close>: the durations of the two decoded buffers stand for the buffers, \<open>pl_now\<close> is
  the clock of the audio context, and the reports through \<open>onEnded\<close> are counted.
\<close>

record Player =
  pl_ctx :: bool
  pl_old :: "rat option"
  pl_new :: "rat option"
  pl_side :: PlayerSide
  pl_running :: "Source list"
  pl_startedAt :: rat
  pl_pausedAt :: rat
  pl_isPlaying :: bool
  pl_now :: rat
  pl_ended :: nat

definition createPlayer :: Player where
  "createPlayer = \<lparr>pl_ctx = False, pl_old = None, pl_new = None, pl_side = PlayNew, pl_running = [],
     pl_startedAt = 0, pl_pausedAt = 0, pl_isPlaying = False, pl_now = 0, pl_ended = 0\<rparr>"

definition buffer_of :: "Player \<Rightarrow> PlayerSide \<Rightarrow> rat option" where
  "buffer_of p s = (case s of PlayOld \<Rightarrow> pl_old p | PlayNew \<Rightarrow> pl_new p)"

definition player_duration :: "Player \<Rightarrow> rat" where
  "player_duration p = max (coalesce (pl_old p) 0) (coalesce (pl_new p) 0)"

definition stopAll :: "Player \<Rightarrow> Player" where
  "stopAll p = p\<lparr>pl_running := []\<rparr>"

definition position :: "Player \<Rightarrow> rat" where
  "position p = (if pl_isPlaying p \<and> pl_ctx p then min (player_duration p) (pl_now p - pl_startedAt p) else pl_pausedAt p)"

definition longest_side :: "Player \<Rightarrow> PlayerSide" where
  "longest_side p = (if coalesce (pl_new p) 0 \<ge> coalesce (pl_old p) 0 then PlayNew else PlayOld)"

definition start_sources :: "Player \<Rightarrow> rat \<Rightarrow> Source list" where
  "start_sources p t = concat (map (\<lambda>s. case buffer_of p s of
       None \<Rightarrow> []
     | Some d \<Rightarrow> if t \<ge> d then []
         else [\<lparr>so_side = s, so_gain = (if s = pl_side p then 1 else 0), so_offset = t, so_onended = (s = longest_side p)\<rparr>])
     [PlayOld, PlayNew])"

definition play :: "rat \<Rightarrow> Player \<Rightarrow> Player" where
  "play from_t p =
     (if \<not> pl_ctx p then p
      else let t = max 0 (min from_t (player_duration p));
               running = start_sources p t;
               on = running \<noteq> []
           in (stopAll p)\<lparr>pl_running := running, pl_startedAt := pl_now p - t, pl_isPlaying := on,
                pl_pausedAt := (if on then 0 else t)\<rparr>)"

text \<open>\<open>load\<close>: the context is made at once, the buffers arrive when both are decoded.\<close>

definition load_start :: "Player \<Rightarrow> Player" where
  "load_start p = p\<lparr>pl_ctx := True\<rparr>"

definition load_done :: "rat option \<Rightarrow> rat option \<Rightarrow> Player \<Rightarrow> Player" where
  "load_done old new p =
     p\<lparr>pl_old := old, pl_new := new, pl_side := (if new = None then PlayOld else pl_side p)\<rparr>"

definition pause :: "Player \<Rightarrow> Player" where
  "pause p = (if \<not> pl_isPlaying p then p
     else stopAll (p\<lparr>pl_pausedAt := position p, pl_isPlaying := False\<rparr>))"

definition seek :: "rat \<Rightarrow> Player \<Rightarrow> Player" where
  "seek t p = (if pl_isPlaying p then play t p else p\<lparr>pl_pausedAt := max 0 (min t (player_duration p))\<rparr>)"

definition setSide :: "PlayerSide \<Rightarrow> Player \<Rightarrow> Player" where
  "setSide s p = p\<lparr>pl_side := s,
     pl_running := map (\<lambda>r. r\<lparr>so_gain := (if so_side r = s then 1 else 0)\<rparr>) (pl_running p)\<rparr>"

definition dispose :: "Player \<Rightarrow> Player" where
  "dispose p = (stopAll p)\<lparr>pl_isPlaying := False, pl_ctx := False\<rparr>"

text \<open>The clock of the context advances; a running source with a handler reports its end.\<close>

definition clock :: "rat \<Rightarrow> Player \<Rightarrow> Player" where
  "clock dt p = p\<lparr>pl_now := pl_now p + dt\<rparr>"

definition source_ended :: "Source \<Rightarrow> Player \<Rightarrow> Player" where
  "source_ended r p =
     (if r \<in> set (pl_running p) \<and> so_onended r
      then p\<lparr>pl_isPlaying := False, pl_pausedAt := 0, pl_running := [], pl_ended := pl_ended p + 1\<rparr> else p)"

section \<open>Every level and every peak is drawn\<close>

lemma spectrogram_index:
  "distinct (map (\<lambda>(col, row). (rows - 1 - row) * cols + col) (positions cols rows))"
proof -
  have "inj_on (\<lambda>(col, row). (rows - 1 - row) * cols + col) (set (positions cols rows))"
  proof (intro inj_onI, clarify)
    fix c r c' r' assume m: "(c, r) \<in> set (positions cols rows)" "(c', r') \<in> set (positions cols rows)"
      and e: "(rows - 1 - r) * cols + c = (rows - 1 - r') * cols + c'"
    have "c = c' \<and> rows - 1 - r = rows - 1 - r'"
      using m by (intro position_inj [OF _ _ e, of rows]) (auto simp: set_positions)
    then show "c = c' \<and> r = r'" using m by (auto simp: set_positions)
  qed
  then show ?thesis by (simp add: distinct_map distinct_positions)
qed

text \<open>The spectrogram has its lowest frequency at the bottom, and every level in its color.\<close>

lemma spectrogram_upright:
  assumes "col < cols" "row < rows"
  shows "get4 (spectrogramPixels levels cols rows) (4 * ((rows - 1 - row) * cols + col)) =
    (case colormap (level_at levels (row * cols + col)) of (r, g, b) \<Rightarrow> clamp4 (r, g, b, 255))"
proof -
  let ?idx = "\<lambda>(col, row). (rows - 1 - row) * cols + col"
  let ?f = "\<lambda>(col, row). case colormap (level_at levels (row * cols + col)) of (r, g, b) \<Rightarrow> (r, g, b, 255)"
  have step: "spectrogram_pixel levels cols rows c r = put4 (4 * ?idx (c, r)) (?f (c, r))" for c r
    by (rule ext) (simp add: spectrogram_pixel_def mult.commute split: prod.splits)
  have draw: "spectrogramPixels levels cols rows =
      fold (\<lambda>p. put4 (4 * ?idx p) (?f p)) (positions cols rows) (replicate (cols * rows * 4) 0)"
    unfolding spectrogramPixels_def step by (rule fold_positions)
  have "(rows - 1 - row) * cols + col \<in> set (map (\<lambda>(x, y). y * cols + x) (positions cols rows))"
    using assms by (force simp: set_positions)
  then have "4 * ?idx (col, row) + 3 < length (replicate (cols * rows * 4) (0 :: int))"
    by (simp add: positions_index)
  from fold_put4 [OF spectrogram_index _ this, of ?f] assms show ?thesis
    unfolding draw by (simp add: set_positions split: prod.splits)
qed

lemma wave_range_Suc: "a \<le> b \<Longrightarrow> wave_range peaks a (Suc b) = wave_step peaks b (wave_range peaks a b)"
  by (simp add: wave_range_def)

lemma wave_range_bounds:
  assumes "k \<in> {a..<b}"
  shows "\<exists>lo hi. wave_range peaks a b = Some (lo, hi) \<and> lo \<le> peaks ! (2 * k) \<and> peaks ! (2 * k + 1) \<le> hi"
proof -
  have "b > a \<Longrightarrow> \<exists>lo hi. wave_range peaks a b = Some (lo, hi) \<and>
      (\<forall>k \<in> {a..<b}. lo \<le> peaks ! (2 * k) \<and> peaks ! (2 * k + 1) \<le> hi)"
  proof (induction b)
    case (Suc b)
    show ?case
    proof (cases "a < b")
      case True
      then obtain lo hi where "wave_range peaks a b = Some (lo, hi)"
        "\<forall>k \<in> {a..<b}. lo \<le> peaks ! (2 * k) \<and> peaks ! (2 * k + 1) \<le> hi" using Suc.IH by blast
      moreover have "{a..<Suc b} = insert b {a..<b}" using True by auto
      ultimately show ?thesis using True by (auto simp: wave_range_Suc wave_step_def min_le_iff_disj le_max_iff_disj)
    next
      case False
      then have "a = b" using Suc.prems by simp
      then show ?thesis by (auto simp: wave_range_def wave_step_def)
    qed
  qed simp
  then show ?thesis using assms by fastforce
qed

text \<open>Every bucket belongs to the range of some column.\<close>

lemma bucket_column:
  assumes "b < buckets" "0 < width"
  shows "\<exists>x < width. wave_from buckets width x \<le> b \<and> b < wave_to buckets width x"
proof -
  define x where "x = (LEAST x. b < ((x + 1) * buckets) div width)"
  have ex: "b < ((width - 1 + 1) * buckets) div width" using assms by simp
  have x: "b < ((x + 1) * buckets) div width" unfolding x_def by (rule LeastI [of _ "width - 1"]) (rule ex)
  have "x \<le> width - 1" unfolding x_def by (rule Least_le) (rule ex)
  moreover have "(x * buckets) div width \<le> b"
  proof (cases x)
    case (Suc x')
    then have "\<not> b < ((x' + 1) * buckets) div width"
      unfolding x_def using not_less_Least [of x' "\<lambda>x. b < ((x + 1) * buckets) div width"] by simp
    then show ?thesis using Suc by simp
  qed simp
  ultimately show ?thesis using x assms(2) by (intro exI [of _ x]) (auto simp: wave_from_def wave_to_def)
qed

lemma wave_y_antimono: "0 \<le> height \<Longrightarrow> u \<le> v \<Longrightarrow> wave_y y0 height v \<le> wave_y y0 height u"
proof -
  assume h: "0 \<le> height" and "u \<le> v"
  then have "(1 - max (- 1) (min 1 v)) / 2 \<le> (1 - max (- 1) (min 1 u)) / (2 :: rat)" by (auto simp: max_def min_def)
  from mult_right_mono [OF this h] show ?thesis by (simp add: wave_y_def)
qed

text \<open>
  The waveform hides no peak: whatever the width, every bucket of the sound lies under a bar
  that reaches from its lowest to its highest value.
\<close>

theorem waveform_shows_every_peak:
  assumes "b < length peaks div 2" and "0 < width" and "0 \<le> height"
  shows "\<exists>x < width. \<exists>t l. FillRect (of_nat x) t 1 l \<in> set (drawWaveform peaks width height color y0) \<and>
    t \<le> wave_y y0 height (peaks ! (2 * b + 1)) \<and> wave_y y0 height (peaks ! (2 * b)) \<le> t + l"
proof -
  let ?B = "length peaks div 2"
  obtain x where x: "x < width" "wave_from ?B width x \<le> b" "b < wave_to ?B width x"
    using bucket_column [OF assms(1,2)] by blast
  then obtain lo hi where r: "wave_range peaks (wave_from ?B width x) (min ?B (wave_to ?B width x)) = Some (lo, hi)"
    "lo \<le> peaks ! (2 * b)" "peaks ! (2 * b + 1) \<le> hi"
    using wave_range_bounds [of b "wave_from ?B width x" "min ?B (wave_to ?B width x)" peaks] assms(1) by auto
  let ?t = "wave_y y0 height hi" and ?l = "max 1 (wave_y y0 height lo - wave_y y0 height hi)"
  have "FillRect (of_nat x) ?t 1 ?l \<in> set (wave_column peaks width height y0 x)"
    using r(1) by (simp add: wave_column_def)
  then have "FillRect (of_nat x) ?t 1 ?l \<in> set (drawWaveform peaks width height color y0)"
    using x(1) assms(1) by (auto simp: drawWaveform_def)
  moreover have "wave_y y0 height (peaks ! (2 * b)) \<le> ?t + ?l"
    using wave_y_antimono [OF assms(3) r(2), of y0] by linarith
  ultimately show ?thesis using x(1) wave_y_antimono [OF assms(3) r(3), of y0] by blast
qed

theorem waveform_shows_every_peak_witness:
  "\<exists>x < 1. \<exists>t l. FillRect (of_nat x) t 1 l \<in> set (drawWaveform [- 1, 1, 0, 0] 1 2 ''red'' 0) \<and>
    t \<le> wave_y 0 2 1 \<and> wave_y 0 2 (- 1) \<le> t + l"
  using waveform_shows_every_peak [of 0 "[- 1, 1, 0, 0]" 1 2 "''red''" 0] by simp

section \<open>Playing in lockstep\<close>

text \<open>The runs of a player that loads its two sounds once.\<close>

inductive player_reach :: "Player \<Rightarrow> bool" where
  create: "player_reach createPlayer"
| start: "player_reach p \<Longrightarrow> player_reach (load_start p)"
| loaded: "player_reach p \<Longrightarrow> pl_old p = None \<Longrightarrow> pl_new p = None \<Longrightarrow>
    (\<forall>d. old = Some d \<or> new = Some d \<longrightarrow> 0 \<le> d) \<Longrightarrow> player_reach (load_done old new p)"
| play: "player_reach p \<Longrightarrow> player_reach (play t p)"
| pause: "player_reach p \<Longrightarrow> player_reach (pause p)"
| seek: "player_reach p \<Longrightarrow> player_reach (seek t p)"
| side: "player_reach p \<Longrightarrow> player_reach (setSide s p)"
| dispose: "player_reach p \<Longrightarrow> player_reach (dispose p)"
| clock: "player_reach p \<Longrightarrow> 0 \<le> dt \<Longrightarrow> player_reach (clock dt p)"
| ended: "player_reach p \<Longrightarrow> player_reach (source_ended r p)"

definition player_inv :: "Player \<Rightarrow> bool" where
  "player_inv p \<longleftrightarrow>
     (\<forall>s d. buffer_of p s = Some d \<longrightarrow> 0 \<le> d) \<and>
     (\<forall>r \<in> set (pl_running p). so_gain r = (if so_side r = pl_side p then 1 else 0) \<and>
        so_onended r = (so_side r = longest_side p) \<and> buffer_of p (so_side r) \<noteq> None) \<and>
     distinct (map so_side (pl_running p)) \<and> (\<exists>t. \<forall>r \<in> set (pl_running p). so_offset r = t) \<and>
     (pl_isPlaying p \<longleftrightarrow> pl_running p \<noteq> []) \<and>
     (pl_isPlaying p \<longrightarrow> pl_ctx p \<and> pl_startedAt p \<le> pl_now p \<and> longest_side p \<in> so_side ` set (pl_running p)) \<and>
     0 \<le> pl_pausedAt p \<and> pl_pausedAt p \<le> player_duration p"
lemmas player_defs = player_duration_def buffer_of_def longest_side_def stopAll_def

lemma buffers_update [simp]:
  "player_duration (pl_ctx_update f0 p) = player_duration p" "longest_side (pl_ctx_update f0 p) = longest_side p"
  "buffer_of (pl_ctx_update f0 p) = buffer_of p"
  "player_duration (pl_side_update f1 p) = player_duration p" "longest_side (pl_side_update f1 p) = longest_side p"
  "buffer_of (pl_side_update f1 p) = buffer_of p"
  "player_duration (pl_running_update f2 p) = player_duration p" "longest_side (pl_running_update f2 p) = longest_side p"
  "buffer_of (pl_running_update f2 p) = buffer_of p"
  "player_duration (pl_startedAt_update f3 p) = player_duration p" "longest_side (pl_startedAt_update f3 p) = longest_side p"
  "buffer_of (pl_startedAt_update f3 p) = buffer_of p"
  "player_duration (pl_pausedAt_update f4 p) = player_duration p" "longest_side (pl_pausedAt_update f4 p) = longest_side p"
  "buffer_of (pl_pausedAt_update f4 p) = buffer_of p"
  "player_duration (pl_isPlaying_update f5 p) = player_duration p" "longest_side (pl_isPlaying_update f5 p) = longest_side p"
  "buffer_of (pl_isPlaying_update f5 p) = buffer_of p"
  "player_duration (pl_now_update f6 p) = player_duration p" "longest_side (pl_now_update f6 p) = longest_side p"
  "buffer_of (pl_now_update f6 p) = buffer_of p"
  "player_duration (pl_ended_update f7 p) = player_duration p" "longest_side (pl_ended_update f7 p) = longest_side p"
  "buffer_of (pl_ended_update f7 p) = buffer_of p"
  by (auto simp: player_defs fun_eq_iff split: PlayerSide.splits)

lemma duration_nonneg: "player_inv p \<Longrightarrow> 0 \<le> player_duration p"
  by (simp add: player_inv_def)

text \<open>The sources that \<open>play\<close> starts: whenever there is any, the longest is among them.\<close>

lemma start_sources_sides:
  "r \<in> set (start_sources p t) \<Longrightarrow> so_gain r = (if so_side r = pl_side p then 1 else 0) \<and>
     so_onended r = (so_side r = longest_side p) \<and> buffer_of p (so_side r) \<noteq> None \<and> so_offset r = t"
  by (auto simp: start_sources_def split: option.splits if_splits dest: sym)

lemma start_sources_map:
  "map so_side (start_sources p t) =
     filter (\<lambda>s. case buffer_of p s of None \<Rightarrow> False | Some d \<Rightarrow> t < d) [PlayOld, PlayNew]"
  by (simp add: start_sources_def split: option.splits)

lemma start_sources_distinct: "distinct (map so_side (start_sources p t))"
  by (simp add: start_sources_map)

lemma start_sources_longest:
  assumes "start_sources p t \<noteq> []" "0 \<le> t"
  shows "longest_side p \<in> so_side ` set (start_sources p t)"
proof -
  obtain s d where "buffer_of p s = Some d" "t < d"
    using assms(1) by (auto simp: start_sources_def split: option.splits if_splits)
  then have "\<exists>d'. buffer_of p (longest_side p) = Some d' \<and> t < d'"
    using assms(2) by (cases "pl_old p"; cases "pl_new p"; cases s) (auto simp: player_defs coalesce_def split: if_splits)
  then have "longest_side p \<in> set (map so_side (start_sources p t))"
    unfolding start_sources_map by (cases "longest_side p") auto
  then show ?thesis by simp
qed

lemma player_inv_play:
  assumes "player_inv p"
  shows "player_inv (play t p)"
proof (cases "pl_ctx p")
  case True
  let ?t = "max 0 (min t (player_duration p))"
  have "0 \<le> ?t" "?t \<le> player_duration p" using duration_nonneg [OF assms] by auto
  with assms True show ?thesis
    using start_sources_sides [of _ p ?t] start_sources_distinct [of p ?t] start_sources_longest [of p ?t]
      duration_nonneg [OF assms]
    by (auto simp: play_def Let_def stopAll_def player_inv_def)
qed (use assms in \<open>simp add: play_def\<close>)

lemma player_invariant: "player_reach p \<Longrightarrow> player_inv p"
proof (induction rule: player_reach.induct)
  case create
  then show ?case by (auto simp: player_inv_def createPlayer_def player_defs coalesce_def split: PlayerSide.splits)
next
  case (start p)
  then show ?case by (simp add: player_inv_def load_start_def)
next
  case (loaded p old new)
  then have "pl_running p = []" "pl_pausedAt p = 0"
    by (auto simp: player_inv_def player_defs coalesce_def neq_Nil_conv split: PlayerSide.splits)
  with loaded show ?case
    by (auto simp: player_inv_def load_done_def player_defs coalesce_def max_def split: PlayerSide.splits option.splits)
next
  case (play p t)
  then show ?case by (simp add: player_inv_play)
next
  case (pause p)
  then show ?case using duration_nonneg [of p]
    by (auto simp: player_inv_def pause_def stopAll_def position_def)
next
  case (seek p t)
  then show ?case using player_inv_play [of p t] duration_nonneg [of p]
    by (auto simp: seek_def player_inv_def)
next
  case (side p s)
  then show ?case by (auto simp: player_inv_def setSide_def comp_def image_image)
next
  case (dispose p)
  then show ?case by (auto simp: player_inv_def dispose_def stopAll_def)
next
  case (clock p dt)
  then show ?case by (auto simp: player_inv_def clock_def)
next
  case (ended p r)
  then show ?case using duration_nonneg [of p] by (auto simp: player_inv_def source_ended_def)
qed

lemma play_position:
  "pl_ctx p \<Longrightarrow> 0 \<le> t \<Longrightarrow> t \<le> player_duration p \<Longrightarrow> position (play t p) = t"
  by (simp add: play_def Let_def position_def stopAll_def)

text \<open>
  Property C16. The player keeps both versions in lockstep. The running sources all started at the same
  offset, at most one for each version; exactly that of the chosen version is audible, and switching the
  version changes neither what runs nor the position. The position stays between the start and the end;
  it plays exactly while a source runs, and the longer version, which runs until the end, reports it.
  Pausing and playing again goes on where it stopped.
\<close>

theorem player_keeps_lockstep:
  assumes "player_reach p"
  shows "(\<exists>t. \<forall>r \<in> set (pl_running p). so_offset r = t) \<and> distinct (map so_side (pl_running p)) \<and>
    (\<forall>r \<in> set (pl_running p). so_gain r = (if so_side r = pl_side p then 1 else 0)) \<and>
    map so_side (pl_running (setSide s p)) = map so_side (pl_running p) \<and> position (setSide s p) = position p \<and>
    0 \<le> position p \<and> position p \<le> player_duration p \<and>
    (pl_isPlaying p \<longleftrightarrow> pl_running p \<noteq> []) \<and>
    (pl_isPlaying p \<longrightarrow> (\<exists>r \<in> set (pl_running p). so_onended r \<and> buffer_of p (so_side r) = Some (player_duration p))) \<and>
    (pl_ctx p \<longrightarrow> position (play (position (pause p)) (pause p)) = position p)"
proof -
  have inv: "player_inv p" by (rule player_invariant [OF assms])
  have pos: "0 \<le> position p" "position p \<le> player_duration p"
    using inv duration_nonneg [OF inv] by (auto simp: position_def player_inv_def)
  have paused: "position (pause p) = position p" "pl_ctx (pause p) = pl_ctx p" "player_duration (pause p) = player_duration p"
    by (simp_all add: pause_def position_def stopAll_def)
  have "buffer_of p (longest_side p) = Some (player_duration p)" if "pl_isPlaying p"
  proof -
    have "buffer_of p (longest_side p) \<noteq> None" using inv that by (auto simp: player_inv_def)
    moreover have "\<forall>s d. buffer_of p s = Some d \<longrightarrow> 0 \<le> d" using inv by (simp add: player_inv_def)
    ultimately show ?thesis
      by (cases "pl_old p"; cases "pl_new p") (auto simp: player_defs coalesce_def max_def split: if_splits PlayerSide.splits)
  qed
  note long = this
  have ended: "pl_isPlaying p \<longrightarrow>
      (\<exists>r \<in> set (pl_running p). so_onended r \<and> buffer_of p (so_side r) = Some (player_duration p))"
  proof
    assume on: "pl_isPlaying p"
    then have "longest_side p \<in> so_side ` set (pl_running p)" using inv by (simp add: player_inv_def)
    then obtain r where r: "longest_side p = so_side r" "r \<in> set (pl_running p)" by (rule imageE)
    moreover have "so_onended r" using inv r by (simp add: player_inv_def)
    ultimately show "\<exists>r \<in> set (pl_running p). so_onended r \<and> buffer_of p (so_side r) = Some (player_duration p)"
      using long [OF on] by metis
  qed
  have again: "pl_ctx p \<longrightarrow> position (play (position (pause p)) (pause p)) = position p"
    using play_position [of "pause p" "position p"] pos paused by simp
  have side: "map so_side (pl_running (setSide s p)) = map so_side (pl_running p)" "position (setSide s p) = position p"
    by (simp_all add: setSide_def comp_def position_def)
  have lock: "\<exists>t. \<forall>r \<in> set (pl_running p). so_offset r = t" "distinct (map so_side (pl_running p))"
    "\<forall>r \<in> set (pl_running p). so_gain r = (if so_side r = pl_side p then 1 else 0)"
    "pl_isPlaying p \<longleftrightarrow> pl_running p \<noteq> []"
    using inv by (simp_all add: player_inv_def)
  show ?thesis by (intro conjI lock side pos ended again)
qed

definition sample_player :: Player where
  "sample_player = clock 1 (play 2 (load_done (Some 4) (Some 3) (load_start createPlayer)))"

lemma sample_player_reach: "player_reach sample_player"
  unfolding sample_player_def by (intro player_reach.intros) (auto simp: createPlayer_def load_start_def)

theorem player_keeps_lockstep_witness:
  "\<exists>r \<in> set (pl_running sample_player). so_onended r \<and> buffer_of sample_player (so_side r) = Some (player_duration sample_player)"
proof -
  have "pl_isPlaying sample_player" by code_simp
  with player_keeps_lockstep [OF sample_player_reach] show ?thesis by blast
qed

end
