(* ===== verification/Clone.thy ===== *)
theory Clone
  imports Sparse Desktop_Hooks Desktop_Api
begin

text \<open>
  Cloning in the desktop client: the steps of \<open>CloneDialog.tsx\<close>, the folder tree of \<open>SparsePicker.tsx\<close>
  and \<open>SparseDialog.tsx\<close>, which changes the folders of an existing clone. The dialog is a state machine
  over what the user does and over the answers of the service, which arrive in any order and also after
  the step that asked for them has been left.
\<close>

section \<open>Data of the service\<close>

record Account =
  ac_host :: string
  ac_address :: string
  ac_signedIn :: bool
  ac_email :: string
  ac_userId :: string

record RemoteProject =
  rp_org :: string
  rp_orgName :: string
  rp_orgRole :: string
  rp_project :: string
  rp_name :: string
  rp_description :: string

record RemoteBranch =
  rb_name :: string
  rb_isDefault :: bool
  rb_protected :: bool

record Repo =
  rr_root :: string
  rr_name :: string
  rr_url :: string
  rr_branch :: string
  rr_sparse :: "string list option"
  rr_error :: "string option"

record CloneRequest =
  cq_server :: string
  cq_org :: string
  cq_project :: string
  cq_branch :: string
  cq_sparse :: "string list"
  cq_target :: string

section \<open>The state of the dialog\<close>

datatype Step = StepServer | StepSignIn | StepProject | StepOptions | StepCloning

datatype credential = SshKey string | Password string string

text \<open>
  The calls that wait for an answer. The flag says whether the step that made the call is still mounted;
  the last component is the server field in the closure that handles the answer. A sign-in is followed by
  a status call, inside the same mutation.
\<close>

datatype DialogCall =
    CheckCall (call_live: bool) (call_address: string) (call_server: string)
  | SignInCall (call_live: bool) (call_address: string) (call_server: string) credential
  | StatusCall (call_live: bool) (call_address: string) (call_server: string)

text \<open>The state of one mounted \<open>OptionsStep\<close>, with the clones it started.\<close>

record Options =
  ot_branch :: string
  ot_sparse :: "string list option"
  ot_parent :: string
  ot_name :: string
  ot_progress :: "OpProgress option"
  ot_error :: "string option"
  ot_call :: "nat option"
  ot_own :: "nat list"

datatype DialogEvent = DialogClosed | DialogCloned Repo

record CloneDialog =
  cd_open :: bool
  cd_step :: Step
  cd_server :: string
  cd_account :: "Account option"
  cd_project :: "RemoteProject option"
  cd_options :: "Options option"
  cd_lastServer :: "string option"
  cd_cloneParent :: "string option"
  cd_calls :: "DialogCall list"
  cd_sent :: "CloneRequest list"
  cd_running :: "nat list"
  cd_cancels :: "nat list"
  cd_events :: "DialogEvent list"

text \<open>\<open>CloneHint\<close> prefills the server and the filter of the project step.\<close>

record CloneHint =
  ch_server :: string
  ch_project :: string

definition clone_init :: "CloneHint option \<Rightarrow> string option \<Rightarrow> string option \<Rightarrow> CloneDialog" where
  "clone_init hint lastServer cloneParent =
     \<lparr>cd_open = True, cd_step = StepServer,
      cd_server = (case hint of Some h \<Rightarrow> if ch_server h \<noteq> [] then ch_server h else coalesce lastServer []
                              | None \<Rightarrow> coalesce lastServer []),
      cd_account = None, cd_project = None, cd_options = None, cd_lastServer = lastServer,
      cd_cloneParent = cloneParent, cd_calls = [], cd_sent = [], cd_running = [], cd_cancels = [], cd_events = []\<rparr>"

definition options_init :: "CloneDialog \<Rightarrow> RemoteProject \<Rightarrow> Options" where
  "options_init d p = \<lparr>ot_branch = [], ot_sparse = None, ot_parent = coalesce (cd_cloneParent d) [],
     ot_name = rp_project p, ot_progress = None, ot_error = None, ot_call = None, ot_own = []\<rparr>"

section \<open>Steps\<close>

definition is_check :: "DialogCall \<Rightarrow> bool" where
  "is_check c = (case c of CheckCall _ _ _ \<Rightarrow> True | _ \<Rightarrow> False)"

definition unmount_call :: "DialogCall \<Rightarrow> DialogCall" where
  "unmount_call c = (case c of
     CheckCall _ a s \<Rightarrow> CheckCall False a s
   | SignInCall _ a s k \<Rightarrow> SignInCall False a s k
   | StatusCall _ a s \<Rightarrow> StatusCall False a s)"

definition options_step :: "Step \<Rightarrow> bool" where
  "options_step s \<longleftrightarrow> s = StepOptions \<or> s = StepCloning"

text \<open>
  \<open>setStep\<close> with the mounting and unmounting it causes: a step that is left loses its state and the
  handling of its pending flags, the sign-in step tries the SSH keys once when it is mounted, and the
  options stay mounted between \<open>options\<close> and \<open>cloning\<close>.
\<close>

definition setStep :: "Step \<Rightarrow> CloneDialog \<Rightarrow> CloneDialog" where
  "setStep s d =
     (let left = map (\<lambda>c. if (cd_step d = StepServer \<and> s \<noteq> StepServer \<and> is_check c) \<or>
                            (cd_step d = StepSignIn \<and> s \<noteq> StepSignIn \<and> \<not> is_check c)
                         then unmount_call c else c) (cd_calls d);
          ssh = (case cd_account d of
                   Some a \<Rightarrow> if s = StepSignIn \<and> cd_step d \<noteq> StepSignIn
                             then [SignInCall True (ac_address a) (cd_server d) (SshKey (js_trim (ac_email a)))] else []
                 | None \<Rightarrow> [])
      in d\<lparr>cd_step := s, cd_calls := left @ ssh,
           cd_options := (case (cd_account d, cd_project d) of
              (Some a, Some p) \<Rightarrow>
                if options_step s
                then Some (case cd_options d of Some o1 \<Rightarrow> o1 | None \<Rightarrow> options_init d p) else None
            | _ \<Rightarrow> None)\<rparr>)"

text \<open>\<open>signedIn\<close>. After the dialog is gone only the setting is written.\<close>

definition signedIn :: "Account \<Rightarrow> string \<Rightarrow> CloneDialog \<Rightarrow> CloneDialog" where
  "signedIn a server d =
     (let e = d\<lparr>cd_lastServer := Some (js_trim server)\<rparr>
      in if cd_open d then setStep (if ac_signedIn a then StepProject else StepSignIn) (e\<lparr>cd_account := Some a\<rparr>)
         else e)"

definition dialog_title :: "CloneDialog \<Rightarrow> string" where
  "dialog_title d = (case cd_step d of
     StepServer \<Rightarrow> ''Clone a repository''
   | StepSignIn \<Rightarrow> ''Sign in''
   | StepProject \<Rightarrow> ''Choose a project''
   | StepOptions \<Rightarrow> (case cd_project d of
        Some p \<Rightarrow> ''Clone '' @ (if rp_name p \<noteq> [] then rp_name p else rp_project p)
      | None \<Rightarrow> ''Clone'')
   | StepCloning \<Rightarrow> ''Cloning'' @ ellipsis)"

definition dialog_account :: "CloneDialog \<Rightarrow> string option" where
  "dialog_account d = (case cd_account d of
     Some a \<Rightarrow> if ac_signedIn a \<and> cd_step d \<noteq> StepServer
               then Some (if ac_email a \<noteq> [] then ac_email a @ '' '' @ [CHR 0xC2, CHR 0xB7] @ '' '' @ ac_host a
                          else ac_host a)
               else None
   | None \<Rightarrow> None)"

text \<open>The back button, and the close button with the Escape key, which are off while cloning.\<close>

definition dialog_back :: "CloneDialog \<Rightarrow> CloneDialog" where
  "dialog_back d =
     (if cd_open d \<and> cd_step d \<in> {StepProject, StepOptions, StepSignIn}
      then setStep (if cd_step d = StepOptions then StepProject else StepServer) d else d)"

definition can_close :: "CloneDialog \<Rightarrow> bool" where
  "can_close d \<longleftrightarrow> cd_open d \<and> cd_step d \<noteq> StepCloning"

definition dialog_close :: "CloneDialog \<Rightarrow> CloneDialog" where
  "dialog_close d =
     (if can_close d
      then d\<lparr>cd_open := False, cd_options := None, cd_events := cd_events d @ [DialogClosed]\<rparr> else d)"

section \<open>Server and sign-in\<close>

definition check_pending :: "CloneDialog \<Rightarrow> bool" where
  "check_pending d \<longleftrightarrow> list_ex (\<lambda>c. is_check c \<and> call_live c) (cd_calls d)"

definition server_edit :: "string \<Rightarrow> CloneDialog \<Rightarrow> CloneDialog" where
  "server_edit s d =
     (if cd_open d \<and> cd_step d = StepServer
      then d\<lparr>cd_server := s,
             cd_calls := map (\<lambda>c. case c of CheckCall True a _ \<Rightarrow> CheckCall True a s | _ \<Rightarrow> c) (cd_calls d)\<rparr>
      else d)"

definition server_submit :: "CloneDialog \<Rightarrow> CloneDialog" where
  "server_submit d =
     (if cd_open d \<and> cd_step d = StepServer \<and> js_trim (cd_server d) \<noteq> [] \<and> \<not> check_pending d
      then d\<lparr>cd_calls := cd_calls d @ [CheckCall True (js_trim (cd_server d)) (cd_server d)]\<rparr> else d)"

definition signing_in :: "CloneDialog \<Rightarrow> bool" where
  "signing_in d \<longleftrightarrow> list_ex (\<lambda>c. \<not> is_check c \<and> call_live c) (cd_calls d)"

definition sign_in :: "credential \<Rightarrow> CloneDialog \<Rightarrow> CloneDialog" where
  "sign_in k d = (case cd_account d of
     Some a \<Rightarrow>
       if cd_open d \<and> cd_step d = StepSignIn \<and> \<not> signing_in d \<and>
          (case k of SshKey _ \<Rightarrow> True | Password email pw \<Rightarrow> js_trim email \<noteq> [] \<and> pw \<noteq> [])
       then d\<lparr>cd_calls := cd_calls d @ [SignInCall True (ac_address a) (cd_server d)
               (case k of SshKey email \<Rightarrow> SshKey (js_trim email) | Password email pw \<Rightarrow> Password email pw)]\<rparr>
       else d
   | None \<Rightarrow> d)"

text \<open>The answers: of a check or a status call an account, of a sign-in nothing.\<close>

definition answer_account :: "DialogCall \<Rightarrow> string + Account \<Rightarrow> CloneDialog \<Rightarrow> CloneDialog" where
  "answer_account c r d =
     (let e = d\<lparr>cd_calls := remove1 c (cd_calls d)\<rparr>
      in case r of Inr a \<Rightarrow> signedIn a (call_server c) e | Inl err \<Rightarrow> e)"

definition answer_signIn :: "DialogCall \<Rightarrow> string + unit \<Rightarrow> CloneDialog \<Rightarrow> CloneDialog" where
  "answer_signIn c r d =
     d\<lparr>cd_calls := remove1 c (cd_calls d) @
        (case r of Inr _ \<Rightarrow> [StatusCall (call_live c) (call_address c) (call_server c)] | Inl err \<Rightarrow> [])\<rparr>"

section \<open>Projects\<close>

text \<open>The projects that match the filter, grouped by the name of their organization.\<close>

definition project_matches :: "string \<Rightarrow> RemoteProject \<Rightarrow> bool" where
  "project_matches query p \<longleftrightarrow>
     (let q = js_toLowerCase (js_trim query)
      in q = [] \<or> list_ex (\<lambda>v. js_includes (js_toLowerCase v) q)
           [rp_project p, rp_name p, rp_org p, rp_orgName p, rp_description p])"

definition group_name :: "RemoteProject \<Rightarrow> string" where
  "group_name p = (if rp_orgName p \<noteq> [] then rp_orgName p else rp_org p)"

definition add_project :: "RemoteProject \<Rightarrow> (string, RemoteProject list) js_map \<Rightarrow> (string, RemoteProject list) js_map" where
  "add_project p m = js_map_set m (group_name p) (coalesce (js_map_get m (group_name p)) [] @ [p])"

definition project_groups :: "string \<Rightarrow> RemoteProject list \<Rightarrow> (string, RemoteProject list) js_map" where
  "project_groups query projects =
     fold (\<lambda>p m. if \<not> project_matches query p then m else add_project p m) projects []"

definition pick_project :: "RemoteProject \<Rightarrow> CloneDialog \<Rightarrow> CloneDialog" where
  "pick_project p d =
     (if cd_open d \<and> cd_step d = StepProject \<and> cd_account d \<noteq> None
      then setStep StepOptions (d\<lparr>cd_project := Some p\<rparr>) else d)"

text \<open>\<open>Sign in again\<close>, offered when the projects or the branches cannot be read.\<close>

definition sign_in_again :: "CloneDialog \<Rightarrow> CloneDialog" where
  "sign_in_again d =
     (if cd_open d \<and> cd_step d \<in> {StepProject, StepOptions} then setStep StepSignIn d else d)"

section \<open>Options and the clone\<close>

text \<open>The query of the branches: an error, or their list once it has arrived.\<close>

record BranchQuery =
  bq_error :: "string option"
  bq_data :: "RemoteBranch list option"

definition chosen_branch :: "BranchQuery \<Rightarrow> Options \<Rightarrow> string" where
  "chosen_branch q o1 =
     (if ot_branch o1 \<noteq> [] then ot_branch o1
      else case Option.bind (bq_data q) (find rb_isDefault) of Some b \<Rightarrow> rb_name b | None \<Rightarrow> [])"

definition clone_target :: "Options \<Rightarrow> string" where
  "clone_target o1 =
     (if js_trim (ot_parent o1) \<noteq> [] \<and> js_trim (ot_name o1) \<noteq> []
      then joinPath (js_trim (ot_parent o1)) (js_trim (ot_name o1)) else [])"

definition on_options :: "(Options \<Rightarrow> Options) \<Rightarrow> CloneDialog \<Rightarrow> CloneDialog" where
  "on_options f d =
     (if cd_open d \<and> cd_step d = StepOptions then d\<lparr>cd_options := map_option f (cd_options d)\<rparr> else d)"

definition set_branch :: "string \<Rightarrow> CloneDialog \<Rightarrow> CloneDialog" where
  "set_branch b = on_options (\<lambda>o1. o1\<lparr>ot_branch := b\<rparr>)"

definition set_sparse :: "string list option \<Rightarrow> CloneDialog \<Rightarrow> CloneDialog" where
  "set_sparse v = on_options (\<lambda>o1. o1\<lparr>ot_sparse := v\<rparr>)"

definition set_parent :: "string \<Rightarrow> CloneDialog \<Rightarrow> CloneDialog" where
  "set_parent p = on_options (\<lambda>o1. o1\<lparr>ot_parent := p\<rparr>)"

definition set_name :: "string \<Rightarrow> CloneDialog \<Rightarrow> CloneDialog" where
  "set_name n = on_options (\<lambda>o1. o1\<lparr>ot_name := n\<rparr>)"

text \<open>\<open>browse\<close>, when the folder dialog answers: also while a clone runs, since the options stay mounted.\<close>

definition browse :: "string + string \<Rightarrow> CloneDialog \<Rightarrow> CloneDialog" where
  "browse r d = d\<lparr>cd_options := map_option (\<lambda>o1. case r of
     Inr dir \<Rightarrow> if dir \<noteq> [] then o1\<lparr>ot_parent := dir\<rparr> else o1
   | Inl err \<Rightarrow> o1\<lparr>ot_error := Some err\<rparr>) (cd_options d)\<rparr>"

definition clone_enabled :: "BranchQuery \<Rightarrow> Options \<Rightarrow> bool" where
  "clone_enabled q o1 \<longleftrightarrow> bq_error q = None \<and> bq_data q \<noteq> Some [] \<and> clone_target o1 \<noteq> [] \<and>
     chosen_branch q o1 \<noteq> [] \<and> ot_sparse o1 \<noteq> Some []"

definition clone_request :: "BranchQuery \<Rightarrow> Account \<Rightarrow> RemoteProject \<Rightarrow> Options \<Rightarrow> CloneRequest" where
  "clone_request q a p o1 = \<lparr>cq_server = ac_address a, cq_org = rp_org p, cq_project = rp_project p,
     cq_branch = chosen_branch q o1, cq_sparse = coalesce (ot_sparse o1) [], cq_target = clone_target o1\<rparr>"

definition start_clone :: "BranchQuery \<Rightarrow> CloneDialog \<Rightarrow> CloneDialog" where
  "start_clone q d = (case (cd_account d, cd_project d, cd_options d) of
     (Some a, Some p, Some o1) \<Rightarrow>
       if cd_open d \<and> cd_step d = StepOptions \<and> clone_enabled q o1
       then let i = length (cd_sent d) in
         (setStep StepCloning d)
           \<lparr>cd_cloneParent := Some (js_trim (ot_parent o1)),
            cd_options := Some (o1\<lparr>ot_error := None, ot_progress := None, ot_call := Some i, ot_own := ot_own o1 @ [i]\<rparr>),
            cd_sent := cd_sent d @ [clone_request q a p o1], cd_running := cd_running d @ [i]\<rparr>
       else d
   | _ \<Rightarrow> d)"

definition clone_progress :: "OpProgress \<Rightarrow> CloneDialog \<Rightarrow> CloneDialog" where
  "clone_progress p d =
     d\<lparr>cd_options := map_option (\<lambda>o1. if pr_op p = ''clone'' \<and> pr_root p = clone_target o1
                                      then o1\<lparr>ot_progress := Some p\<rparr> else o1) (cd_options d)\<rparr>"

definition clone_cancel :: "CloneDialog \<Rightarrow> CloneDialog" where
  "clone_cancel d =
     (if cd_open d \<and> cd_step d = StepCloning
      then d\<lparr>cd_cancels := cd_cancels d @ (case Option.bind (cd_options d) ot_call of Some i \<Rightarrow> [i] | None \<Rightarrow> [])\<rparr>
      else d)"

text \<open>
  The answer to a clone. The instance of the options that started it forgets the call; a repository goes
  to the application, which closes the dialog; an error sends the dialog back to the options.
\<close>

definition forget_call :: "nat \<Rightarrow> string + Repo option \<Rightarrow> Options \<Rightarrow> Options" where
  "forget_call i r o1 =
     (if i \<notin> set (ot_own o1) then o1
      else case r of Inr _ \<Rightarrow> o1\<lparr>ot_call := None\<rparr> | Inl err \<Rightarrow> o1\<lparr>ot_call := None, ot_error := Some err\<rparr>)"

definition clone_settle :: "nat \<Rightarrow> string + Repo option \<Rightarrow> CloneDialog \<Rightarrow> CloneDialog" where
  "clone_settle i r d =
     (if i \<notin> set (cd_running d) then d
      else let e = d\<lparr>cd_running := remove1 i (cd_running d),
                     cd_options := map_option (forget_call i r) (cd_options d)\<rparr>
           in case r of
             Inr (Some repo) \<Rightarrow> e\<lparr>cd_open := False, cd_options := None, cd_events := cd_events d @ [DialogCloned repo]\<rparr>
           | Inr None \<Rightarrow> e
           | Inl err \<Rightarrow> if cd_open d then setStep StepOptions e else e)"

text \<open>The text of the progress bar.\<close>

definition clone_label :: "Options \<Rightarrow> string \<times> int option" where
  "clone_label o1 = describeProgress \<lparr>os_op = OpClone, os_progress = ot_progress o1, os_cancelling = False\<rparr>"

subsection \<open>What the options show\<close>

text \<open>
  The list of branches shows the option whose value is the chosen branch, and its first option when none has
  that value.
\<close>

definition select_shows :: "string list \<Rightarrow> string \<Rightarrow> string option" where
  "select_shows values v = (if v \<in> set values then Some v else case values of x # _ \<Rightarrow> Some x | [] \<Rightarrow> None)"

definition branch_names :: "BranchQuery \<Rightarrow> string list" where
  "branch_names q = map rb_name (coalesce (bq_data q) [])"

record OptionsForm =
  of_branches :: "string list"
  of_branch :: "string option"
  of_selectable :: bool
  of_sparse :: "string list option"
  of_parent :: string
  of_name :: string
  of_target :: "string option"
  of_error :: "string option"
  of_enabled :: bool

datatype OptionsPane = PaneCloning "string \<times> int option" string | PaneTrouble "string option" | PaneForm OptionsForm

definition OptionsStep :: "BranchQuery \<Rightarrow> bool \<Rightarrow> Options \<Rightarrow> OptionsPane" where
  "OptionsStep q cloning o1 =
     (if cloning then PaneCloning (clone_label o1) (clone_target o1)
      else if bq_error q \<noteq> None \<or> bq_data q = Some [] then PaneTrouble (bq_error q)
      else PaneForm
        \<lparr>of_branches = map (\<lambda>b. rb_name b @ (if rb_isDefault b then '' (default)'' else [])) (coalesce (bq_data q) []),
         of_branch = select_shows (branch_names q) (chosen_branch q o1), of_selectable = (bq_data q \<noteq> None),
         of_sparse = ot_sparse o1, of_parent = ot_parent o1, of_name = ot_name o1,
         of_target = (if clone_target o1 \<noteq> [] then Some (clone_target o1) else None), of_error = ot_error o1,
         of_enabled = (clone_target o1 \<noteq> [] \<and> chosen_branch q o1 \<noteq> [] \<and> ot_sparse o1 \<noteq> Some [])\<rparr>)"

section \<open>Folders\<close>

text \<open>
  \<open>SparsePicker\<close>: the selection is \<open>None\<close> for everything. One level of its tree shows the folders with
  their boxes, and a summary of the files.
\<close>

record FolderRow =
  fd_path :: string
  fd_name :: string
  fd_checked :: bool
  fd_disabled :: bool
  fd_partial :: bool

definition folder_row :: "string list \<Rightarrow> RemoteDir \<Rightarrow> FolderRow" where
  "folder_row selection d =
     \<lparr>fd_path = rd_path d, fd_name = rd_name d, fd_checked = isCovered (rd_path d) selection,
      fd_disabled = coveredByAncestor (rd_path d) selection,
      fd_partial = \<not> isCovered (rd_path d) selection \<and> hasSelectedDescendant (rd_path d) selection\<rparr>"

record LevelView =
  lv_rows :: "FolderRow list"
  lv_files :: "string option"
  lv_empty :: bool

definition Level :: "string list \<Rightarrow> nat \<Rightarrow> RemoteListing \<Rightarrow> LevelView" where
  "Level selection depth l =
     \<lparr>lv_rows = map (folder_row selection) (rm_dirs l),
      lv_files = (if rm_files l > 0
        then Some (js_show_nat (rm_files l) @ '' file'' @ (if rm_files l = 1 then [] else ''s'') @ '' '' @
               [CHR 0xC2, CHR 0xB7] @ '' '' @ formatBytes (rm_fileBytes l) @
               (if depth = 0 then '' at the top level (only with Everything)'' else [])) else None),
      lv_empty = (rm_dirs l = [] \<and> rm_files l = 0)\<rparr>"

definition picker_everything :: "string list option \<Rightarrow> string list option" where
  "picker_everything value = None"

definition picker_some :: "string list option \<Rightarrow> string list option" where
  "picker_some value = Some (coalesce value [])"

definition picker_toggle :: "string \<Rightarrow> string list option \<Rightarrow> string list option" where
  "picker_toggle path value = Some (toggleFolder (coalesce value []) path)"

definition picker_hint :: "string list \<Rightarrow> string" where
  "picker_hint selection =
     (if selection = [] then ''Tick the folders to download.''
      else js_show_nat (length selection) @ '' folder'' @ (if length selection = 1 then [] else ''s'') @ '' selected.'')"

text \<open>\<open>SparseDialog\<close>: the selection it starts with, and what its \<open>Apply\<close> button sends.\<close>

definition sparse_initial :: "Repo \<Rightarrow> string list option" where
  "sparse_initial repo = (case rr_sparse repo of
     Some s \<Rightarrow> if s \<noteq> [] then Some (normalizeSelection s) else None | None \<Rightarrow> None)"

definition sparse_next :: "string list option \<Rightarrow> string list" where
  "sparse_next value = (case value of None \<Rightarrow> [] | Some v \<Rightarrow> normalizeSelection v)"

definition sameSet :: "string list \<Rightarrow> string list \<Rightarrow> bool" where
  "sameSet a b \<longleftrightarrow> length a = length b \<and> (\<forall>i < length a. a ! i = b ! i)"

definition sparse_apply :: "Repo \<Rightarrow> string list option \<Rightarrow> string list option" where
  "sparse_apply repo value =
     (if parseRepoUrl (rr_url repo) = None \<or> sameSet (sparse_next value) (coalesce (sparse_initial repo) []) \<or>
         (value \<noteq> None \<and> sparse_next value = [])
      then None else Some (sparse_next value))"

section \<open>Runs of the dialog\<close>

text \<open>
  The states the dialog can reach. The parameter says whether the service may answer a clone with
  neither a repository nor an error.
\<close>

inductive clone_reach :: "bool \<Rightarrow> CloneDialog \<Rightarrow> bool" for nulls :: bool where
  init: "clone_reach nulls (clone_init hint ls cp)"
| edit: "clone_reach nulls d \<Longrightarrow> clone_reach nulls (server_edit s d)"
| submit: "clone_reach nulls d \<Longrightarrow> clone_reach nulls (server_submit d)"
| sign: "clone_reach nulls d \<Longrightarrow> clone_reach nulls (sign_in k d)"
| go_back: "clone_reach nulls d \<Longrightarrow> clone_reach nulls (dialog_back d)"
| close: "clone_reach nulls d \<Longrightarrow> clone_reach nulls (dialog_close d)"
| pick: "clone_reach nulls d \<Longrightarrow> clone_reach nulls (pick_project p d)"
| again: "clone_reach nulls d \<Longrightarrow> clone_reach nulls (sign_in_again d)"
| branch: "clone_reach nulls d \<Longrightarrow> clone_reach nulls (set_branch b d)"
| sparse: "clone_reach nulls d \<Longrightarrow> clone_reach nulls (set_sparse v d)"
| parent: "clone_reach nulls d \<Longrightarrow> clone_reach nulls (set_parent s d)"
| name: "clone_reach nulls d \<Longrightarrow> clone_reach nulls (set_name s d)"
| browse: "clone_reach nulls d \<Longrightarrow> clone_reach nulls (browse b d)"
| start: "clone_reach nulls d \<Longrightarrow> clone_reach nulls (start_clone q d)"
| progress: "clone_reach nulls d \<Longrightarrow> clone_reach nulls (clone_progress pr d)"
| cancel: "clone_reach nulls d \<Longrightarrow> clone_reach nulls (clone_cancel d)"
| account: "clone_reach nulls d \<Longrightarrow> c \<in> set (cd_calls d) \<Longrightarrow> \<forall>l a s k. c \<noteq> SignInCall l a s k \<Longrightarrow>
    clone_reach nulls (answer_account c r d)"
| signed: "clone_reach nulls d \<Longrightarrow> SignInCall l a s k \<in> set (cd_calls d) \<Longrightarrow>
    clone_reach nulls (answer_signIn (SignInCall l a s k) u d)"
| settle: "clone_reach nulls d \<Longrightarrow> r = Inr None \<longrightarrow> nulls \<Longrightarrow> clone_reach nulls (clone_settle i r d)"

text \<open>
  What holds in all of them: the options are mounted exactly in their two steps, a call they know is
  their own and still running, and every clone sent names a branch and a target.
\<close>

definition options_ok :: "CloneDialog \<Rightarrow> bool" where
  "options_ok d \<longleftrightarrow>
     (cd_open d \<and> options_step (cd_step d) \<longrightarrow> cd_options d \<noteq> None) \<and>
     (\<forall>o1. cd_options d = Some o1 \<longrightarrow>
        cd_open d \<and> options_step (cd_step d) \<and> cd_account d \<noteq> None \<and> cd_project d \<noteq> None \<and>
        set (ot_own o1) \<subseteq> {..<length (cd_sent d)} \<and>
        (\<forall>i. ot_call o1 = Some i \<longrightarrow> i \<in> set (ot_own o1) \<and> i \<in> set (cd_running d)))"

definition clone_inv :: "bool \<Rightarrow> CloneDialog \<Rightarrow> bool" where
  "clone_inv nulls d \<longleftrightarrow> options_ok d \<and>
     (cd_sent d \<noteq> [] \<longrightarrow> cd_account d \<noteq> None \<and> cd_project d \<noteq> None) \<and>
     (cd_open d \<and> cd_step d = StepCloning \<and> \<not> nulls \<longrightarrow> (\<exists>i. Option.bind (cd_options d) ot_call = Some i)) \<and>
     set (cd_running d) \<subseteq> {..<length (cd_sent d)} \<and> distinct (cd_running d) \<and>
     (\<forall>r \<in> set (cd_sent d). cq_branch r \<noteq> [] \<and> cq_target r \<noteq> [])"

lemmas clone_inv_defs = clone_inv_def options_ok_def options_step_def

lemma setStep_sel [simp]:
  "cd_open (setStep s d) = cd_open d" "cd_step (setStep s d) = s" "cd_account (setStep s d) = cd_account d"
  "cd_project (setStep s d) = cd_project d" "cd_sent (setStep s d) = cd_sent d"
  "cd_running (setStep s d) = cd_running d" "cd_events (setStep s d) = cd_events d"
  "cd_lastServer (setStep s d) = cd_lastServer d" "cd_cancels (setStep s d) = cd_cancels d"
  by (simp_all add: setStep_def Let_def)

lemma setStep_options:
  "cd_options (setStep s d) =
     (if options_step s \<and> cd_account d \<noteq> None \<and> cd_project d \<noteq> None
      then Some (case cd_options d of Some o1 \<Rightarrow> o1 | None \<Rightarrow> options_init d (the (cd_project d))) else None)"
  by (auto simp: setStep_def Let_def split: option.splits)

lemma clone_inv_leave:
  "clone_inv nulls d \<Longrightarrow> \<not> options_step s \<Longrightarrow> clone_inv nulls (setStep s d)"
  by (auto simp: clone_inv_defs setStep_options)

lemma clone_inv_options:
  "clone_inv nulls d \<Longrightarrow> cd_open d \<Longrightarrow> cd_account d \<noteq> None \<Longrightarrow> cd_project d \<noteq> None \<Longrightarrow>
   clone_inv nulls (setStep StepOptions d)"
  by (auto simp: clone_inv_defs setStep_options options_init_def split: option.splits)

lemma clone_inv_calls [simp]: "clone_inv nulls (d\<lparr>cd_calls := cs\<rparr>) = clone_inv nulls d"
  by (simp add: clone_inv_defs)

lemma clone_inv_signedIn:
  assumes "clone_inv nulls d"
  shows "clone_inv nulls (signedIn a s d)"
proof -
  have "clone_inv nulls (d\<lparr>cd_lastServer := x\<rparr>)" for x using assms by (simp add: clone_inv_defs)
  moreover have "clone_inv nulls (setStep t (d\<lparr>cd_lastServer := x, cd_account := Some a\<rparr>))"
    if "t \<in> {StepProject, StepSignIn}" for x t
    using assms that by (auto simp: clone_inv_defs setStep_options)
  ultimately show ?thesis by (simp add: signedIn_def Let_def)
qed

lemma clone_inv_on_options:
  "clone_inv nulls d \<Longrightarrow> (\<And>o1. ot_call (f o1) = ot_call o1) \<Longrightarrow> (\<And>o1. ot_own (f o1) = ot_own o1) \<Longrightarrow>
   clone_inv nulls (d\<lparr>cd_options := map_option f (cd_options d)\<rparr>)"
  by (cases "cd_options d") (auto simp: clone_inv_defs)

lemma clone_inv_start: 
  assumes "clone_inv nulls d" shows "clone_inv nulls (start_clone q d)"
proof (cases "cd_account d = None \<or> cd_project d = None \<or> cd_options d = None")
  case False
  then obtain a p o1 where d: "cd_account d = Some a" "cd_project d = Some p" "cd_options d = Some o1" by auto
  show ?thesis
    using assms unfolding start_clone_def d
    by (auto simp: clone_inv_defs d Let_def clone_enabled_def clone_request_def less_Suc_eq)
qed (use assms in \<open>auto simp: start_clone_def split: option.splits\<close>)

lemma forget_call_own [simp]: "ot_own (forget_call i r o1) = ot_own o1"
  by (simp add: forget_call_def split: sum.splits)

lemma forget_call_other:
  "ot_call (forget_call i r o1) = Some j \<Longrightarrow> (\<And>k. ot_call o1 = Some k \<Longrightarrow> k \<in> set (ot_own o1)) \<Longrightarrow>
   ot_call o1 = Some j \<and> j \<noteq> i"
  by (auto simp: forget_call_def split: sum.splits if_splits)

lemma clone_inv_settle:
  assumes inv: "clone_inv nulls d" and nn: "r = Inr None \<longrightarrow> nulls"
  shows "clone_inv nulls (clone_settle i r d)"
proof (cases "i \<in> set (cd_running d)")
  case True
  then have i: "cd_account d \<noteq> None" "cd_project d \<noteq> None"
    using inv by (auto simp: clone_inv_def)
  let ?e = "d\<lparr>cd_running := remove1 i (cd_running d), cd_options := map_option (forget_call i r) (cd_options d)\<rparr>"
  have ok: "options_ok ?e"
    using inv by (auto simp: clone_inv_defs dest!: forget_call_other)
  have run: "set (remove1 i (cd_running d)) \<subseteq> {..<length (cd_sent d)}" "distinct (remove1 i (cd_running d))"
    using inv set_remove1_subset by (auto simp: clone_inv_def)
  show ?thesis
  proof (cases r)
    case (Inl err)
    then have e: "clone_settle i r d = (if cd_open d then setStep StepOptions ?e else ?e)"
      using True by (simp add: clone_settle_def)
    from ok have "options_ok (setStep StepOptions ?e)" if "cd_open d"
      using that i by (auto simp: options_ok_def options_step_def setStep_options options_init_def split: option.splits)
    then show ?thesis
      using inv ok run by (auto simp: e clone_inv_def)
  next
    case (Inr x)
    then show ?thesis
      using inv ok run nn True
      by (cases x) (auto simp: clone_settle_def Let_def clone_inv_def options_ok_def)
  qed
qed (use inv in \<open>simp add: clone_settle_def\<close>)

theorem clone_invariant: "clone_reach nulls d \<Longrightarrow> clone_inv nulls d"
proof (induction rule: clone_reach.induct)
  case (init hint ls cp)
  then show ?case by (simp add: clone_inv_defs clone_init_def)
next
  case (edit d s)
  then show ?case by (auto simp: server_edit_def clone_inv_defs)
next
  case (submit d)
  then show ?case by (simp add: server_submit_def)
next
  case (sign d k)
  then show ?case by (simp add: sign_in_def split: option.splits)
next
  case (go_back d)
  then show ?case by (auto simp: dialog_back_def options_step_def intro!: clone_inv_leave)
next
  case (close d)
  then show ?case by (auto simp: dialog_close_def can_close_def clone_inv_defs)
next
  case (pick d p)
  then show ?case 
    by (auto simp: pick_project_def intro!: clone_inv_options) (simp add: clone_inv_defs)
next
  case (again d)
  then show ?case by (auto simp: sign_in_again_def options_step_def intro!: clone_inv_leave)
next
  case (start d q)
  then show ?case by (simp add: clone_inv_start)
next
  case (cancel d)
  then show ?case by (auto simp: clone_cancel_def clone_inv_defs)
next
  case (account d c r)
  then show ?case by (simp add: answer_account_def clone_inv_signedIn Let_def split: sum.splits)
next
  case (signed d l a s k u)
  then show ?case by (simp add: answer_signIn_def)
next
  case (settle d r i)
  then show ?case by (simp add: clone_inv_settle)
qed (auto simp: on_options_def set_branch_def set_sparse_def set_parent_def set_name_def browse_def
      clone_progress_def intro!: clone_inv_on_options split: sum.splits)

section \<open>What the dialog guarantees\<close>

text \<open>
  Property C14. A press of Clone that starts a clone finds the form on the screen with its button enabled,
  and asks for what the form shows: the server of the account and the project of the dialog, the target
  that is displayed, which is the chosen folder joined with the chosen name, and the ticked folders, where
  everything is asked for only if everything was chosen. The branch is the one picked in the list, and
  the default branch if none was picked; it is the one the list shows, unless a branch was picked that the
  list no longer has. Right after the press the dialog cannot be closed, and every clone that was ever started names
  a branch and a target.
\<close>

theorem clone_sends_what_was_chosen:
  assumes "clone_reach nulls d" and "cd_sent (start_clone q d) \<noteq> cd_sent d"
  shows "\<exists>a p o1 v b t. cd_account d = Some a \<and> cd_project d = Some p \<and> cd_options d = Some o1 \<and>
    OptionsStep q (cd_step d = StepCloning) o1 = PaneForm v \<and> of_enabled v \<and>
    cd_sent (start_clone q d) = cd_sent d @
      [\<lparr>cq_server = ac_address a, cq_org = rp_org p, cq_project = rp_project p, cq_branch = b,
        cq_sparse = (case of_sparse v of Some folders \<Rightarrow> folders | None \<Rightarrow> []), cq_target = t\<rparr>] \<and>
    of_target v = Some t \<and> t = joinPath (js_trim (of_parent v)) (js_trim (of_name v)) \<and> of_sparse v \<noteq> Some [] \<and>
    (if ot_branch o1 \<noteq> [] then b = ot_branch o1
     else \<exists>r \<in> set (coalesce (bq_data q) []). rb_isDefault r \<and> b = rb_name r) \<and>
    (ot_branch o1 = [] \<or> ot_branch o1 \<in> set (branch_names q) \<longrightarrow> of_branch v = Some b) \<and>
    \<not> can_close (start_clone q d) \<and> (\<forall>r \<in> set (cd_sent (start_clone q d)). cq_branch r \<noteq> [] \<and> cq_target r \<noteq> [])"
proof -
  from assms(2) obtain a p o1 where d: "cd_account d = Some a" "cd_project d = Some p" "cd_options d = Some o1"
      "cd_open d" "cd_step d = StepOptions" "clone_enabled q o1"
    by (auto simp: start_clone_def Let_def split: option.splits if_splits)
  let ?b = "chosen_branch q o1" and ?t = "clone_target o1"
  have sent: "cd_sent (start_clone q d) = cd_sent d @ [clone_request q a p o1]" "\<not> can_close (start_clone q d)"
    using d by (simp_all add: start_clone_def Let_def can_close_def)
  obtain v where v: "OptionsStep q (cd_step d = StepCloning) o1 = PaneForm v" "of_enabled v" "of_target v = Some ?t"
      "of_sparse v = ot_sparse o1" "of_parent v = ot_parent o1" "of_name v = ot_name o1" "of_branch v = select_shows (branch_names q) ?b"
    using d(5,6) by (auto simp: OptionsStep_def clone_enabled_def)
  have "?t = joinPath (js_trim (ot_parent o1)) (js_trim (ot_name o1))" "ot_sparse o1 \<noteq> Some []" "?b \<noteq> []" "?t \<noteq> []"
    using d(6) by (auto simp: clone_enabled_def clone_target_def split: if_splits)
  moreover have picked: "if ot_branch o1 \<noteq> [] then ?b = ot_branch o1
      else \<exists>r \<in> set (coalesce (bq_data q) []). rb_isDefault r \<and> ?b = rb_name r"
  proof (cases "ot_branch o1 = []")
    case True
    with \<open>?b \<noteq> []\<close> obtain bs r where "bq_data q = Some bs" "find rb_isDefault bs = Some r" "?b = rb_name r"
      by (auto simp: chosen_branch_def bind_eq_Some_conv split: option.splits)
    with True show ?thesis by (auto simp: coalesce_def find_Some_iff)
  qed (simp add: chosen_branch_def)
  moreover have "of_branch v = Some ?b" if "ot_branch o1 = [] \<or> ot_branch o1 \<in> set (branch_names q)"
    using that picked v(7) by (auto simp: select_shows_def branch_names_def split: if_splits)
  moreover have "\<forall>r \<in> set (cd_sent d). cq_branch r \<noteq> [] \<and> cq_target r \<noteq> []"
    using clone_invariant [OF assms(1)] by (simp add: clone_inv_def)
  ultimately show ?thesis using d sent v
    by (intro exI [of _ a] exI [of _ p] exI [of _ o1] exI [of _ v] exI [of _ ?b] exI [of _ ?t])
      (simp add: clone_request_def coalesce_def)
qed

text \<open>
  A branch that was picked and is gone when the list is fetched again is still the one that is sent, while
  the list shows another one.
\<close>

lemma vanished_branch_is_sent:
  assumes "ot_branch o1 \<noteq> []" "ot_branch o1 \<notin> set (branch_names q)" "bq_data q = Some (r # rs)" "bq_error q = None"
    "clone_target o1 \<noteq> []" "ot_sparse o1 \<noteq> Some []"
  shows "\<exists>v. OptionsStep q False o1 = PaneForm v \<and> of_enabled v \<and> of_branch v = Some (rb_name r) \<and>
    cq_branch (clone_request q a p o1) = ot_branch o1 \<and> ot_branch o1 \<noteq> rb_name r"
  using assms by (simp add: OptionsStep_def select_shows_def branch_names_def chosen_branch_def clone_request_def coalesce_def)

text \<open>
  The answer of the folder dialog may come while the clone runs: the dialog then says that it clones into a folder
  that is not the one the request names.
\<close>

lemma late_browse_changes_shown_target:
  assumes "cd_options d = Some o1" "dir \<noteq> []"
  shows "\<exists>o2. cd_options (browse (Inr dir) d) = Some o2 \<and> cd_sent (browse (Inr dir) d) = cd_sent d \<and>
    OptionsStep q True o2 = PaneCloning (clone_label o1) (clone_target (o1\<lparr>ot_parent := dir\<rparr>))"
  using assms by (simp add: browse_def OptionsStep_def clone_label_def)

text \<open>
  While the dialog shows a clone, that clone is running and the cancel button reaches it; when
  it succeeds the dialog hands the repository over and closes, when it fails the dialog returns to the
  options, shows the error and can be closed. This needs that the service answers a clone with a
  repository or an error.
\<close>

theorem cloning_step_follows_its_clone:
  assumes "clone_reach False d" and "cd_open d" and "cd_step d = StepCloning"
  shows "\<exists>i. i \<in> set (cd_running d) \<and> cd_cancels (clone_cancel d) = cd_cancels d @ [i] \<and>
    (\<forall>repo. \<not> cd_open (clone_settle i (Inr (Some repo)) d) \<and>
       cd_events (clone_settle i (Inr (Some repo)) d) = cd_events d @ [DialogCloned repo]) \<and>
    (\<forall>err. cd_step (clone_settle i (Inl err) d) = StepOptions \<and> can_close (clone_settle i (Inl err) d) \<and>
       Option.bind (cd_options (clone_settle i (Inl err) d)) ot_error = Some err)"
proof -
  from clone_invariant [OF assms(1)] assms(2,3)
  obtain o1 i where o: "cd_options d = Some o1" "ot_call o1 = Some i" "i \<in> set (ot_own o1)" "i \<in> set (cd_running d)"
    "cd_account d \<noteq> None" "cd_project d \<noteq> None"
    by (fastforce simp: clone_inv_def options_ok_def bind_eq_Some_conv)
  then show ?thesis using assms(2,3)
    by (intro exI [of _ i])
      (auto simp: clone_cancel_def clone_settle_def Let_def can_close_def setStep_options options_step_def forget_call_def)
qed

text \<open>
  A sign-in that is answered late takes the dialog away from a running clone: the dialog then
  shows the projects of the other server or its sign-in, can be closed, and its cancel button no longer
  reaches the clone, which goes on.
\<close>

theorem late_sign_in_hides_clone:
  assumes "clone_reach nulls d" and "cd_open d" and "cd_step d = StepCloning"
    and "StatusCall l address server \<in> set (cd_calls d)"
  shows "let e = answer_account (StatusCall l address server) (Inr a) d in
     can_close e \<and> cd_options e = None \<and> cd_running e = cd_running d \<and>
     cd_step e = (if ac_signedIn a then StepProject else StepSignIn) \<and> cd_cancels (clone_cancel e) = cd_cancels d"
  using assms(2,3)
  by (auto simp: answer_account_def signedIn_def Let_def can_close_def clone_cancel_def setStep_options options_step_def)

text \<open>
  A run in which that happens: the sign-in to a first server hangs, the user goes back, clones from a second
  server, and then the first sign-in succeeds.
\<close>

definition sample_account :: "string \<Rightarrow> bool \<Rightarrow> Account" where
  "sample_account host b = \<lparr>ac_host = host, ac_address = host, ac_signedIn = b, ac_email = [], ac_userId = []\<rparr>"

definition sample_project :: RemoteProject where
  "sample_project = \<lparr>rp_org = ''acme'', rp_orgName = [], rp_orgRole = [], rp_project = ''game'', rp_name = [],
     rp_description = []\<rparr>"

definition sample_branches :: BranchQuery where
  "sample_branches = \<lparr>bq_error = None, bq_data = Some [\<lparr>rb_name = ''main'', rb_isDefault = True, rb_protected = False\<rparr>]\<rparr>"

definition sample_hanging :: CloneDialog where
  "sample_hanging = dialog_back (answer_account (CheckCall True ''a'' ''a'') (Inr (sample_account ''a'' False))
     (server_submit (server_edit ''a'' (clone_init None None None))))"

definition sample_options :: CloneDialog where
  "sample_options = set_parent ''/w'' (pick_project sample_project
     (answer_account (CheckCall True ''b'' ''b'') (Inr (sample_account ''b'' True))
       (server_submit (server_edit ''b'' sample_hanging))))"

definition sample_cloning :: CloneDialog where
  "sample_cloning = answer_signIn (SignInCall False ''a'' ''a'' (SshKey [])) (Inr ()) (start_clone sample_branches sample_options)"

lemma sample_hanging_reach: "clone_reach nulls sample_hanging"
proof -
  have "CheckCall True ''a'' ''a'' \<in> set (cd_calls (server_submit (server_edit ''a'' (clone_init None None None))))"
    by code_simp
  then show ?thesis unfolding sample_hanging_def by (intro clone_reach.intros) auto
qed

lemma sample_options_reach: "clone_reach nulls sample_options"
proof -
  have "CheckCall True ''b'' ''b'' \<in> set (cd_calls (server_submit (server_edit ''b'' sample_hanging)))"
    by code_simp
  then show ?thesis
    unfolding sample_options_def by (intro clone_reach.intros sample_hanging_reach) auto
qed

lemma sample_cloning_reach: "clone_reach nulls sample_cloning"
proof -
  have "SignInCall False ''a'' ''a'' (SshKey []) \<in> set (cd_calls (start_clone sample_branches sample_options))"
    by code_simp
  then show ?thesis
    unfolding sample_cloning_def by (intro clone_reach.intros sample_options_reach)
qed

lemma sample_cloning_state:
  "cd_open sample_cloning" "cd_step sample_cloning = StepCloning" "cd_running sample_cloning = [0]"
  "StatusCall False ''a'' ''a'' \<in> set (cd_calls sample_cloning)"
  by code_simp+

theorem late_sign_in_hides_clone_witness:
  "\<exists>d. clone_reach False d \<and> cd_running d = [0] \<and> can_close d \<and> cd_options d = None"
  using late_sign_in_hides_clone [OF sample_cloning_reach sample_cloning_state(1,2,4), of "sample_account ''a'' True"]
    clone_reach.account [OF sample_cloning_reach sample_cloning_state(4), of False "Inr (sample_account ''a'' True)"]
    sample_cloning_state(3)
  by (auto simp: Let_def)

theorem cloning_step_follows_its_clone_witness:
  "\<exists>i. i \<in> set (cd_running sample_cloning) \<and> cd_cancels (clone_cancel sample_cloning) = cd_cancels sample_cloning @ [i]"
  using cloning_step_follows_its_clone [OF sample_cloning_reach sample_cloning_state(1,2)] by blast

theorem clone_sends_what_was_chosen_witness:
  "cd_sent (start_clone sample_branches sample_options) =
     [\<lparr>cq_server = ''b'', cq_org = ''acme'', cq_project = ''game'', cq_branch = ''main'', cq_sparse = [], cq_target = ''/w/game''\<rparr>] \<and>
   \<not> can_close (start_clone sample_branches sample_options)"
proof -
  have "cd_sent (start_clone sample_branches sample_options) \<noteq> cd_sent sample_options" by code_simp
  from clone_sends_what_was_chosen [OF sample_options_reach this] have "\<not> can_close (start_clone sample_branches sample_options)"
    by blast
  moreover have "cd_sent (start_clone sample_branches sample_options) =
     [\<lparr>cq_server = ''b'', cq_org = ''acme'', cq_project = ''game'', cq_branch = ''main'', cq_sparse = [], cq_target = ''/w/game''\<rparr>]"
    by code_simp
  ultimately show ?thesis by simp
qed

section \<open>Changing the folders of a clone\<close>

text \<open>The folders of a checkout with this selection; the service reads an empty one as everything.\<close>

definition in_checkout :: "string list \<Rightarrow> string \<Rightarrow> bool" where
  "in_checkout sel path \<longleftrightarrow> sel = [] \<or> isCovered path sel"

lemma covered_self: "p \<in> set sel \<Longrightarrow> isCovered p sel"
  using within_refl [of p] by (auto simp: isCovered_def list_ex_iff simp del: within_refl)

lemma normal_subset:
  assumes "normal_selection a" "normal_selection b" "\<forall>p. isCovered p a \<longleftrightarrow> isCovered p b"
  shows "set a \<subseteq> set b"
proof
  fix p assume p: "p \<in> set a"
  then obtain q where q: "q \<in> set b" "within_folder p q"
    using assms(3) covered_self [of p a] by (auto simp: isCovered_def list_ex_iff)
  then obtain r where r: "r \<in> set a" "within_folder q r"
    using assms(3) covered_self [of q b] by (auto simp: isCovered_def list_ex_iff)
  with q p assms(1) have "r = p" by (auto simp: normal_selection_def dest: within_trans)
  with r q show "p \<in> set b" using within_antisym by blast
qed

lemma normal_selection_unique:
  assumes "normal_selection a" "normal_selection b" "\<forall>p. in_checkout a p \<longleftrightarrow> in_checkout b p"
  shows "a = b"
proof -
  have root: "\<not> isCovered [] s" if "normal_selection s" for s
    using that by (auto simp: normal_selection_def trimmed_def isCovered_def list_ex_iff within_prefix)
  show ?thesis
  proof (cases "a = [] \<or> b = []")
    case True
    then show ?thesis using assms(3) root [OF assms(1)] root [OF assms(2)] by (auto simp: in_checkout_def)
  next
    case False
    then have "\<forall>p. isCovered p a \<longleftrightarrow> isCovered p b" using assms(3) by (simp add: in_checkout_def)
    then have "set a = set b" using normal_subset assms(1,2) by (metis subset_antisym)
    then show ?thesis using assms(1,2) by (simp add: normal_selection_def sorted_distinct_set_unique)
  qed
qed

lemma sameSet_eq: "sameSet a b \<longleftrightarrow> a = b"
  by (auto simp: sameSet_def list_eq_iff_nth_eq)

lemma normal_selection_Nil [simp]: "normal_selection []"
  by (simp add: normal_selection_def)

lemma normal_sparse: "normal_selection (sparse_next v)" "normal_selection (coalesce (sparse_initial repo) [])"
  by (auto simp: sparse_next_def sparse_initial_def coalesce_def normalize_normal split: option.splits)

text \<open>
  The folder dialog of a clone offers \<open>Apply\<close> exactly when the address of the clone can be
  read, the new selection would change which folders are checked out, and it is not an empty selection
  standing for nothing; what it sends is the new selection in normal form.
\<close>

theorem apply_changes_the_checkout:
  "sparse_apply repo v = Some paths \<longleftrightarrow>
     parseRepoUrl (rr_url repo) \<noteq> None \<and> paths = sparse_next v \<and> \<not> (v \<noteq> None \<and> paths = []) \<and>
     (\<exists>p. in_checkout paths p \<noteq> in_checkout (coalesce (sparse_initial repo) []) p)"
proof -
  have "sameSet (sparse_next v) (coalesce (sparse_initial repo) []) \<longleftrightarrow>
      (\<forall>p. in_checkout (sparse_next v) p \<longleftrightarrow> in_checkout (coalesce (sparse_initial repo) []) p)"
    using normal_selection_unique [OF normal_sparse, of v repo] by (auto simp: sameSet_eq)
  then show ?thesis by (auto simp: sparse_apply_def)
qed

text \<open>The projects on offer: every matching project once, under its organization, in the given order.\<close>

lemma project_groups_step:
  "js_map_get (add_project p m) g = (if g = group_name p then Some (coalesce (js_map_get m g) [] @ [p]) else js_map_get m g)"
  by (simp add: add_project_def js_map.get_put)

lemma project_groups_complete:
  "coalesce (js_map_get (project_groups query ps) g) [] = filter (\<lambda>p. project_matches query p \<and> group_name p = g) ps"
proof (induction ps rule: rev_induct)
  case Nil
  then show ?case by (simp add: project_groups_def js_map_get_def coalesce_def)
next
  case (snoc p ps)
  have "project_groups query (ps @ [p]) =
      (if project_matches query p then add_project p (project_groups query ps) else project_groups query ps)"
    by (simp add: project_groups_def)
  with snoc show ?case by (auto simp: project_groups_step coalesce_def)
qed

end
