(* ===== verification/Desktop_App.thy ===== *)
theory Desktop_App
  imports Clone Working_Copy
begin

text \<open>
  The application of the desktop client, \<open>App.tsx\<close>: the list of clones and which of them is shown, the
  navigation from links and notifications, the activity of the team (\<open>Sidebar.tsx\<close>), and the clone dialog
  it opens. The dialog is the state machine of theory \<open>Clone\<close>; the application reacts to its two events.
\<close>

section \<open>State\<close>

record TeamEvent =
  te_kind :: string
  te_actor :: string
  te_branch :: string
  te_commitId :: string
  te_message :: string
  te_count :: int
  te_path :: string
  te_number :: int

record RepoActivity =
  rc_root :: string
  rc_name :: string
  rc_incoming :: int
  rc_reviewRequests :: int
  rc_error :: string
  rc_events :: "TeamEvent list"

record Navigation =
  nv_root :: string
  nv_tab :: string
  nv_number :: int
  nv_commit :: string
  nv_server :: string
  nv_org :: string
  nv_project :: string

record Intent =
  it_root :: string
  it_tab :: string
  it_number :: "int option"
  it_commit :: "string option"
  it_seq :: nat

text \<open>
  The state cells of \<open>App\<close> with the two settings it keeps, the cached lists of clones and activity, and the
  queries it invalidated. A clone dialog that was closed while its clone was running is kept aside, for the
  answer that is still to come.
\<close>

record App =
  ap_selected :: "string option"
  ap_selectedSetting :: "string option"
  ap_dialog :: "CloneDialog option"
  ap_left :: "CloneDialog list"
  ap_cloneHint :: "CloneHint option"
  ap_settingsOpen :: bool
  ap_sidebarHidden :: bool
  ap_sidebarSetting :: "string option"
  ap_intent :: "Intent option"
  ap_seq :: nat
  ap_toast :: "(string \<times> Tone) option"
  ap_repos :: "Repo list"
  ap_activity :: "RepoActivity list"
  ap_invalidated :: "(string \<times> string) list"

definition app_mount :: "string option \<Rightarrow> string option \<Rightarrow> Repo list \<Rightarrow> RepoActivity list \<Rightarrow> App" where
  "app_mount selected sidebar repos activity =
     \<lparr>ap_selected = selected, ap_selectedSetting = selected, ap_dialog = None, ap_left = [], ap_cloneHint = None,
      ap_settingsOpen = False, ap_sidebarHidden = (sidebar = Some ''1''), ap_sidebarSetting = sidebar,
      ap_intent = None, ap_seq = 0, ap_toast = None, ap_repos = repos, ap_activity = activity, ap_invalidated = []\<rparr>"

section \<open>Handlers\<close>

definition app_notify :: "string \<Rightarrow> Tone \<Rightarrow> App \<Rightarrow> App" where
  "app_notify message tone a = a\<lparr>ap_toast := Some (message, tone)\<rparr>"

definition app_dismiss :: "App \<Rightarrow> App" where
  "app_dismiss a = a\<lparr>ap_toast := None\<rparr>"

definition setSidebarHidden :: "bool \<Rightarrow> App \<Rightarrow> App" where
  "setSidebarHidden hidden a =
     a\<lparr>ap_sidebarSetting := (if hidden then Some ''1'' else None), ap_sidebarHidden := hidden\<rparr>"

text \<open>The shortcut Ctrl+B.\<close>

definition toggleSidebar :: "App \<Rightarrow> App" where
  "toggleSidebar a =
     a\<lparr>ap_sidebarSetting := (if ap_sidebarHidden a then None else Some ''1''), ap_sidebarHidden := \<not> ap_sidebarHidden a\<rparr>"

definition refreshOn :: "string \<Rightarrow> string list" where
  "refreshOn kind =
     (if kind = ''pushed'' then [''history'', ''branches'']
      else if kind = ''lock_released'' then [''locks'']
      else if kind = ''review_requested'' then [''mrs''] else [])"

definition app_onActivity :: "RepoActivity \<Rightarrow> App \<Rightarrow> App" where
  "app_onActivity x a =
     a\<lparr>ap_activity := filter (\<lambda>y. rc_root y \<noteq> rc_root x) (ap_activity a) @ [x\<lparr>rc_events := []\<rparr>],
       ap_invalidated := ap_invalidated a @
         map (\<lambda>key. (key, rc_root x)) (js_set (concat (map (\<lambda>e. refreshOn (te_kind e)) (rc_events x))))\<rparr>"

definition app_select :: "string option \<Rightarrow> App \<Rightarrow> App" where
  "app_select root_opt a = a\<lparr>ap_selectedSetting := root_opt, ap_selected := root_opt\<rparr>"

text \<open>Opening the clone dialog; while it is open, a new hint does not reach it.\<close>

definition open_clone :: "string option \<Rightarrow> string option \<Rightarrow> App \<Rightarrow> App" where
  "open_clone lastServer cloneParent a = (case ap_dialog a of
     Some d \<Rightarrow> a
   | None \<Rightarrow> a\<lparr>ap_dialog := Some (clone_init (ap_cloneHint a) lastServer cloneParent)\<rparr>)"

definition navigate :: "string option \<Rightarrow> string option \<Rightarrow> Navigation \<Rightarrow> App \<Rightarrow> App" where
  "navigate lastServer cloneParent nav a =
     (if nv_root nav = [] \<and> nv_tab nav = ''settings'' then a\<lparr>ap_settingsOpen := True\<rparr>
      else if nv_root nav \<noteq> [] then
        (app_select (Some (nv_root nav)) a)
          \<lparr>ap_seq := Suc (ap_seq a),
           ap_intent := Some \<lparr>it_root = nv_root nav, it_tab = nv_tab nav,
             it_number = (if nv_number nav = 0 then None else Some (nv_number nav)),
             it_commit = (if nv_commit nav = [] then None else Some (nv_commit nav)), it_seq = Suc (ap_seq a)\<rparr>\<rparr>
      else if nv_project nav \<noteq> [] then
        open_clone lastServer cloneParent
          ((app_notify (nv_org nav @ ''/'' @ nv_project nav @ '' is not cloned on this computer yet'') ToneError a)
             \<lparr>ap_cloneHint := Some \<lparr>ch_server = nv_server nav, ch_project = nv_project nav\<rparr>\<rparr>)
      else a)"

definition put_repo :: "Repo \<Rightarrow> Repo list \<Rightarrow> Repo list" where
  "put_repo repo old =
     (if list_ex (\<lambda>r. rr_root r = rr_root repo) old
      then map (\<lambda>r. if rr_root r = rr_root repo then repo else r) old else old @ [repo])"

definition remember :: "Repo \<Rightarrow> App \<Rightarrow> App" where
  "remember repo a = app_select (Some (rr_root repo)) (a\<lparr>ap_repos := put_repo repo (ap_repos a)\<rparr>)"

definition add_settled :: "string + Repo option \<Rightarrow> App \<Rightarrow> App" where
  "add_settled r a = (case r of
     Inr (Some repo) \<Rightarrow> remember repo a
   | Inr None \<Rightarrow> a
   | Inl err \<Rightarrow> app_notify err ToneError a)"

definition remove_settled :: "string \<Rightarrow> string + unit \<Rightarrow> App \<Rightarrow> App" where
  "remove_settled r0 r a = (case r of
     Inr _ \<Rightarrow>
       (let b = a\<lparr>ap_repos := filter (\<lambda>x. rr_root x \<noteq> r0) (ap_repos a)\<rparr>
        in if ap_selected a = Some r0 then app_select None b else b)
   | Inl err \<Rightarrow> app_notify err ToneError a)"

section \<open>The clone dialog\<close>

definition close_clone :: "App \<Rightarrow> App" where
  "close_clone a = a\<lparr>ap_dialog := None, ap_cloneHint := None\<rparr>"

definition on_dialog_event :: "DialogEvent \<Rightarrow> App \<Rightarrow> App" where
  "on_dialog_event e a = (case e of
     DialogClosed \<Rightarrow> close_clone a
   | DialogCloned repo \<Rightarrow> app_notify (''Cloned '' @ rr_name repo) ToneSuccess (remember repo (close_clone a)))"

text \<open>
  A step of the open dialog, followed by the reaction to the events it caused. A dialog that closes while
  clones are running stays behind for their answers.
\<close>

definition leave :: "CloneDialog \<Rightarrow> App \<Rightarrow> App" where
  "leave d a = (if \<not> cd_open d \<and> cd_running d \<noteq> [] then a\<lparr>ap_left := ap_left a @ [d]\<rparr> else a)"

definition app_dialog :: "(CloneDialog \<Rightarrow> CloneDialog) \<Rightarrow> App \<Rightarrow> App" where
  "app_dialog f a = (case ap_dialog a of
     None \<Rightarrow> a
   | Some d \<Rightarrow> fold on_dialog_event (drop (length (cd_events d)) (cd_events (f d)))
                 (leave (f d) (a\<lparr>ap_dialog := Some (f d)\<rparr>)))"

text \<open>An answer to a clone of a dialog that has been closed.\<close>

definition app_left_settle :: "nat \<Rightarrow> nat \<Rightarrow> string + Repo option \<Rightarrow> App \<Rightarrow> App" where
  "app_left_settle k i r a =
     (if k < length (ap_left a)
      then let d = ap_left a ! k; e = clone_settle i r d
           in fold on_dialog_event (drop (length (cd_events d)) (cd_events e)) (a\<lparr>ap_left := (ap_left a)[k := e]\<rparr>)
      else a)"

section \<open>What is shown\<close>

definition current_repo :: "App \<Rightarrow> Repo option" where
  "current_repo a = (case find (\<lambda>r. Some (rr_root r) = ap_selected a) (ap_repos a) of
     Some r \<Rightarrow> Some r
   | None \<Rightarrow> (case ap_repos a of r # _ \<Rightarrow> Some r | [] \<Rightarrow> None))"

definition activity_pending :: "App \<Rightarrow> bool" where
  "activity_pending a \<longleftrightarrow> list_ex (\<lambda>x. rc_incoming x > 0 \<or> rc_reviewRequests x > 0) (ap_activity a)"

definition current_activity :: "App \<Rightarrow> RepoActivity option" where
  "current_activity a = (case current_repo a of
     Some r \<Rightarrow> find (\<lambda>x. rc_root x = rr_root r) (ap_activity a) | None \<Rightarrow> None)"

definition current_intent :: "App \<Rightarrow> Intent option" where
  "current_intent a = (case (current_repo a, ap_intent a) of
     (Some r, Some i) \<Rightarrow> if it_root i = rr_root r then Some i else None | _ \<Rightarrow> None)"

text \<open>The entry of a clone in the sidebar and its badges.\<close>

record Badges =
  bd_unreachable :: "string option"
  bd_incoming :: "string option"
  bd_reviews :: "int option"

definition ActivityBadges :: "RepoActivity option \<Rightarrow> Badges option" where
  "ActivityBadges x = map_option (\<lambda>y.
     \<lparr>bd_unreachable = (if rc_error y \<noteq> [] then Some (rc_error y) else None),
      bd_incoming = (if rc_incoming y > 0
        then Some (if rc_incoming y \<ge> 100 then ''100+'' else js_show_int (rc_incoming y)) else None),
      bd_reviews = (if rc_reviewRequests y > 0 then Some (rc_reviewRequests y) else None)\<rparr>) x"

record SidebarRow =
  sr_root :: string
  sr_name :: string
  sr_current :: bool
  sr_detail :: string
  sr_badges :: "Badges option"

definition Sidebar :: "App \<Rightarrow> SidebarRow list" where
  "Sidebar a = map (\<lambda>r.
     \<lparr>sr_root = rr_root r, sr_name = rr_name r, sr_current = (Some (rr_root r) = map_option rr_root (current_repo a)),
      sr_detail = (if truthy (rr_error r) then ''Unavailable'' else rr_branch r),
      sr_badges = ActivityBadges (if truthy (rr_error r) then None
        else find (\<lambda>x. rc_root x = rr_root r) (ap_activity a))\<rparr>) (ap_repos a)"

text \<open>The list of clones as the service sends it again.\<close>

definition app_repos_loaded :: "Repo list \<Rightarrow> App \<Rightarrow> App" where
  "app_repos_loaded repos a = a\<lparr>ap_repos := repos\<rparr>"

section \<open>Runs of the application\<close>

text \<open>
  The service lists every clone once. The steps of the dialog are any that keep it among its reachable
  states, so that all of its handlers are covered.
\<close>

inductive app_reach :: "App \<Rightarrow> bool" where
  mount: "distinct (map rr_root repos) \<Longrightarrow> distinct (map rc_root activity) \<Longrightarrow>
    app_reach (app_mount selected sidebar repos activity)"
| loaded: "app_reach a \<Longrightarrow> distinct (map rr_root repos) \<Longrightarrow> app_reach (app_repos_loaded repos a)"
| notify: "app_reach a \<Longrightarrow> app_reach (app_notify m t a)"
| dismiss: "app_reach a \<Longrightarrow> app_reach (app_dismiss a)"
| hide: "app_reach a \<Longrightarrow> app_reach (setSidebarHidden h a)"
| toggle: "app_reach a \<Longrightarrow> app_reach (toggleSidebar a)"
| activity: "app_reach a \<Longrightarrow> app_reach (app_onActivity x a)"
| select: "app_reach a \<Longrightarrow> app_reach (app_select s a)"
| nav: "app_reach a \<Longrightarrow> app_reach (navigate ls cp n a)"
| add: "app_reach a \<Longrightarrow> app_reach (add_settled r a)"
| remove: "app_reach a \<Longrightarrow> app_reach (remove_settled r0 u a)"
| clone: "app_reach a \<Longrightarrow> app_reach (open_clone ls cp a)"
| dialog: "app_reach a \<Longrightarrow> \<forall>d. clone_reach True d \<longrightarrow> clone_reach True (f d) \<Longrightarrow> app_reach (app_dialog f a)"
| left: "app_reach a \<Longrightarrow> app_reach (app_left_settle k i c a)"

definition app_inv :: "App \<Rightarrow> bool" where
  "app_inv a \<longleftrightarrow> distinct (map rr_root (ap_repos a)) \<and> distinct (map rc_root (ap_activity a)) \<and>
     ap_selectedSetting a = ap_selected a \<and> (ap_sidebarHidden a \<longleftrightarrow> ap_sidebarSetting a = Some ''1'')"

lemma put_repo_roots:
  "map rr_root (put_repo repo old) =
     (if rr_root repo \<in> rr_root ` set old then map rr_root old else map rr_root old @ [rr_root repo])"
proof -
  have "map rr_root (map (\<lambda>r. if rr_root r = rr_root repo then repo else r) old) = map rr_root old" by simp
  moreover have "list_ex (\<lambda>r. rr_root r = rr_root repo) old \<longleftrightarrow> rr_root repo \<in> rr_root ` set old"
    unfolding list_ex_iff by (metis imageE imageI)
  ultimately show ?thesis by (simp add: put_repo_def del: map_map)
qed

lemma put_repo_distinct: "distinct (map rr_root old) \<Longrightarrow> distinct (map rr_root (put_repo repo old))"
  by (simp add: put_repo_roots del: map_map)

lemma put_repo_find: "find (\<lambda>r. rr_root r = rr_root repo) (put_repo repo old) = Some repo"
proof (cases "list_ex (\<lambda>r. rr_root r = rr_root repo) old")
  case True
  then show ?thesis unfolding put_repo_def by (induction old) auto
next
  case False
  then show ?thesis unfolding put_repo_def by (induction old) auto
qed

lemmas app_defs = app_notify_def app_dismiss_def setSidebarHidden_def toggleSidebar_def app_onActivity_def app_select_def
  open_clone_def navigate_def remember_def add_settled_def remove_settled_def close_clone_def on_dialog_event_def
  leave_def app_repos_loaded_def

lemma app_inv_remember: "app_inv a \<Longrightarrow> app_inv (remember repo a)"
  by (simp add: app_inv_def remember_def app_select_def put_repo_distinct)

lemma app_inv_events: "app_inv a \<Longrightarrow> app_inv (fold on_dialog_event es a)"
proof (induction es arbitrary: a)
  case (Cons e es)
  have "app_inv (close_clone a)" using Cons.prems by (simp add: app_inv_def close_clone_def)
  then have "app_inv (on_dialog_event e a)"
    using app_inv_remember [of "close_clone a"]
    by (auto simp: on_dialog_event_def app_notify_def app_inv_def split: DialogEvent.splits)
  then show ?case using Cons.IH by simp
qed simp

lemma app_invariant: "app_reach a \<Longrightarrow> app_inv a"
proof (induction rule: app_reach.induct)
  case (add a r)
  then show ?case using app_inv_remember [of a]
    by (auto simp: add_settled_def app_notify_def app_inv_def split: sum.splits option.splits)
next
  case (dialog a f)
  then show ?case
    by (auto simp: app_dialog_def app_inv_def leave_def split: option.splits intro!: app_inv_events [unfolded app_inv_def])
next
  case (left a k i c)
  then show ?case
    by (auto simp: app_left_settle_def Let_def app_inv_def intro!: app_inv_events [unfolded app_inv_def])
next
  case (activity a x)
  then show ?case by (auto simp: app_onActivity_def app_inv_def distinct_map_filter)
next
  case (remove a r0 u)
  then show ?case by (auto simp: remove_settled_def app_defs app_inv_def distinct_map_filter Let_def split: sum.splits)
next
  case (nav a ls cp n)
  then show ?case by (auto simp: app_inv_def app_defs split: option.splits)
next
  case (clone a ls cp)
  then show ?case by (auto simp: app_inv_def app_defs split: option.splits)
qed (auto simp: app_inv_def app_defs app_mount_def)

lemma current_repo_in: "current_repo a = Some r \<Longrightarrow> r \<in> set (ap_repos a)"
  by (auto simp: current_repo_def find_Some_iff in_set_conv_nth split: option.splits list.splits)

lemma find_root:
  assumes "distinct (map rr_root rs)" "r \<in> set rs"
  shows "find (\<lambda>x. Some (rr_root x) = Some (rr_root r)) rs = Some r"
  using assms by (induction rs) auto

lemma current_repo_selected:
  assumes "distinct (map rr_root (ap_repos a))" "r \<in> set (ap_repos a)" "ap_selected a = Some (rr_root r)"
  shows "current_repo a = Some r"
  using find_root [OF assms(1,2)] by (simp add: current_repo_def assms(3))

text \<open>
  Property C26. In every state of the application no clone is listed twice. If there are clones, exactly one
  is shown: the selected one as long as it is listed, and otherwise the first of the list; the sidebar
  marks it and no other. Without clones none is shown or marked. What is remembered for the next start is
  the selection and the state of the sidebar, so that a start with the same list of clones shows
  the same clone, and the sidebar as it was left.
\<close>

theorem one_clone_is_shown:
  assumes "app_reach a"
  shows "distinct (map rr_root (ap_repos a)) \<and>
    map sr_root (filter sr_current (Sidebar a)) = map rr_root (case current_repo a of Some r \<Rightarrow> [r] | None \<Rightarrow> []) \<and>
    (\<forall>r \<in> set (ap_repos a). ap_selected a = Some (rr_root r) \<longrightarrow> current_repo a = Some r) \<and>
    (ap_selected a \<notin> Some ` rr_root ` set (ap_repos a) \<longrightarrow>
       current_repo a = (case ap_repos a of r # _ \<Rightarrow> Some r | [] \<Rightarrow> None)) \<and>
    (let b = app_mount (ap_selectedSetting a) (ap_sidebarSetting a) (ap_repos a) activity
     in current_repo b = current_repo a \<and> ap_sidebarHidden b = ap_sidebarHidden a)"
proof -
  have inv: "app_inv a" by (rule app_invariant [OF assms])
  then have d: "distinct (map rr_root (ap_repos a))" by (simp add: app_inv_def)
  have one: "map rr_root (filter (\<lambda>x. rr_root x = k) rs) = [k]"
    if "distinct (map rr_root rs)" "k \<in> rr_root ` set rs" for k and rs :: "Repo list"
    using that by (induction rs) (auto simp: filter_empty_conv image_iff)
  have marked: "map sr_root (filter sr_current (Sidebar a)) = map rr_root (case current_repo a of Some r \<Rightarrow> [r] | None \<Rightarrow> [])"
  proof (cases "current_repo a")
    case None
    then have "ap_repos a = []" by (auto simp: current_repo_def split: option.splits list.splits)
    with None show ?thesis by (simp add: Sidebar_def)
  next
    case (Some r)
    have "map sr_root (filter sr_current (Sidebar a)) = map rr_root (filter (\<lambda>x. rr_root x = rr_root r) (ap_repos a))"
      by (simp add: Sidebar_def filter_map comp_def Some)
    also have "\<dots> = [rr_root r]" using d current_repo_in [OF Some] by (intro one) auto
    finally show ?thesis using Some by simp
  qed
  have "find (\<lambda>r. Some (rr_root r) = ap_selected a) (ap_repos a) = None" if "ap_selected a \<notin> Some ` rr_root ` set (ap_repos a)"
    unfolding find_None_iff using that by (metis imageI)
  then have "current_repo a = (case ap_repos a of r # _ \<Rightarrow> Some r | [] \<Rightarrow> None)" if "ap_selected a \<notin> Some ` rr_root ` set (ap_repos a)"
    using that by (simp add: current_repo_def)
  moreover have "current_repo (app_mount (ap_selectedSetting a) (ap_sidebarSetting a) (ap_repos a) activity) = current_repo a"
    "ap_sidebarHidden (app_mount (ap_selectedSetting a) (ap_sidebarSetting a) (ap_repos a) activity) = ap_sidebarHidden a"
    using inv by (simp_all add: app_inv_def app_mount_def current_repo_def cong: option.case_cong)
  ultimately show ?thesis using d marked current_repo_selected [OF d] by (simp add: Let_def)
qed

text \<open>
  When the clone of the dialog succeeds, the application closes the dialog, lists the new clone
  exactly once, shows it, remembers it as selected, and says so.
\<close>

theorem cloned_repo_is_shown:
  assumes "app_reach a" and "ap_dialog a = Some d" and "i \<in> set (cd_running d)"
  shows "let b = app_dialog (clone_settle i (Inr (Some repo))) a in
     ap_dialog b = None \<and> current_repo b = Some repo \<and> distinct (map rr_root (ap_repos b)) \<and>
     rr_root ` set (ap_repos b) = insert (rr_root repo) (rr_root ` set (ap_repos a)) \<and>
     ap_selectedSetting b = Some (rr_root repo) \<and> ap_toast b = Some (''Cloned '' @ rr_name repo, ToneSuccess)"
proof -
  let ?e = "clone_settle i (Inr (Some repo)) d"
  define b where "b = app_dialog (clone_settle i (Inr (Some repo))) a"
  have "drop (length (cd_events d)) (cd_events ?e) = [DialogCloned repo]"
    using assms(3) by (simp add: clone_settle_def Let_def)
  then have b: "b = on_dialog_event (DialogCloned repo) (leave ?e (a\<lparr>ap_dialog := Some ?e\<rparr>))"
    by (simp add: b_def app_dialog_def assms(2))
  have sel: "ap_dialog b = None" "ap_repos b = put_repo repo (ap_repos a)" "ap_selected b = Some (rr_root repo)"
    "ap_selectedSetting b = Some (rr_root repo)" "ap_toast b = Some (''Cloned '' @ rr_name repo, ToneSuccess)"
    by (simp_all add: b app_defs)
  moreover have "current_repo b = Some repo"
    using put_repo_find [of repo "ap_repos a"] by (simp add: current_repo_def sel)
  moreover have "rr_root ` set (put_repo repo (ap_repos a)) = insert (rr_root repo) (rr_root ` set (ap_repos a))"
    using arg_cong [OF put_repo_roots [of repo "ap_repos a"], of set] by (auto split: if_splits)
  moreover have "distinct (map rr_root (ap_repos b))"
    using app_invariant [OF assms(1)] by (simp add: sel put_repo_distinct app_inv_def)
  ultimately show ?thesis unfolding b_def [symmetric] by (simp add: Let_def)
qed

definition sample_repo :: "string \<Rightarrow> Repo" where
  "sample_repo r0 = \<lparr>rr_root = r0, rr_name = r0, rr_url = [], rr_branch = ''main'', rr_sparse = None, rr_error = None\<rparr>"

definition sample_app :: App where
  "sample_app = app_dialog (\<lambda>_. sample_cloning) (open_clone None None (app_mount (Some ''gone'') None [sample_repo ''/a'', sample_repo ''/b''] []))"

lemma sample_app_reach: "app_reach sample_app"
  unfolding sample_app_def
  by (intro app_reach.dialog app_reach.clone app_reach.mount) (simp_all add: sample_repo_def sample_cloning_reach)

theorem one_clone_is_shown_witness:
  "current_repo sample_app = Some (sample_repo ''/a'') \<and> map sr_root (filter sr_current (Sidebar sample_app)) = [''/a''] \<and>
   current_repo (app_select (Some ''/b'') sample_app) = Some (sample_repo ''/b'')"
proof -
  have repos: "ap_repos sample_app = [sample_repo ''/a'', sample_repo ''/b'']" "ap_selected sample_app = Some ''gone''" by code_simp+
  have "ap_selected sample_app \<notin> Some ` rr_root ` set (ap_repos sample_app)" by (simp add: repos sample_repo_def)
  with one_clone_is_shown [OF sample_app_reach] have "current_repo sample_app = Some (sample_repo ''/a'')"
    "map sr_root (filter sr_current (Sidebar sample_app)) = [''/a'']" by (simp_all add: repos sample_repo_def)
  moreover have "sample_repo ''/b'' \<in> set (ap_repos (app_select (Some ''/b'') sample_app))"
    "ap_selected (app_select (Some ''/b'') sample_app) = Some (rr_root (sample_repo ''/b''))"
    by (simp_all add: app_select_def repos) (simp add: sample_repo_def)
  then have "current_repo (app_select (Some ''/b'') sample_app) = Some (sample_repo ''/b'')"
    using one_clone_is_shown [OF app_reach.select [OF sample_app_reach, of "Some ''/b''"]] by blast
  ultimately show ?thesis by simp
qed

theorem cloned_repo_is_shown_witness:
  "current_repo (app_dialog (clone_settle 0 (Inr (Some (sample_repo ''/w/game'')))) sample_app) = Some (sample_repo ''/w/game'')"
proof -
  have "ap_dialog sample_app = Some sample_cloning" "0 \<in> set (cd_running sample_cloning)" by code_simp+
  with cloned_repo_is_shown [OF sample_app_reach, of sample_cloning 0 "sample_repo ''/w/game''"] show ?thesis
    by (simp add: Let_def)
qed

end
