(* ===== verification/File_Diff.thy ===== *)
theory File_Diff
  imports Diff_Rows Desktop_Hooks Merge_Request
begin

text \<open>
  The viewers of a changed file in the desktop client: which one is chosen (\<open>DiffViewer.tsx\<close>), the text
  diff with its places for review comments (\<open>TextDiff.tsx\<close>), the comparison of tables (\<open>TableDiff.tsx\<close>), the
  notices for what cannot be compared (\<open>Notices.tsx\<close>), and the two versions a viewer asks the service for
  (\<open>imageRefs\<close> and \<open>viewerKey\<close> of \<open>ImageDiff.tsx\<close>).
\<close>

section \<open>A changed file\<close>

record FileSide =
  fs_path :: string
  fs_mode :: nat
  fs_size :: nat
  fs_binary :: bool
  fs_hash :: string

record FileDiff =
  fd_path :: string
  fd_oldPath :: "string option"
  fd_status :: string
  fd_kind :: string
  fd_similarity :: "int option"
  fd_old :: "FileSide option"
  fd_new :: "FileSide option"
  fd_additions :: int
  fd_deletions :: int
  fd_hunks :: "DiffHunk list option"
  fd_hunksOmitted :: "bool option"
  fd_contentUnavailable :: "bool option"
  fd_untracked :: "bool option"
  fd_oldRevision :: "string option"
  fd_newRevision :: "string option"

definition diff_hunks :: "FileDiff \<Rightarrow> DiffHunk list" where
  "diff_hunks d = coalesce (fd_hunks d) []"

text \<open>The versions of a file that a viewer shows.\<close>

record ImageRef =
  ir_source :: string
  ir_revision :: "string option"
  ir_path :: string

definition first_text :: "string option list \<Rightarrow> string \<Rightarrow> string" where
  "first_text os s = (case filter truthy os of o1 # _ \<Rightarrow> coalesce o1 s | [] \<Rightarrow> s)"

definition imageRefs :: "FileDiff \<Rightarrow> ImageRef option \<times> ImageRef option" where
  "imageRefs d =
     (let oldPath = first_text [map_option fs_path (fd_old d), fd_oldPath d] (fd_path d);
          newPath = first_text [map_option fs_path (fd_new d)] (fd_path d)
      in if truthy (fd_newRevision d) then
           (map_option (\<lambda>_. \<lparr>ir_source = ''revision'', ir_revision = fd_oldRevision d, ir_path = oldPath\<rparr>) (fd_old d),
            map_option (\<lambda>_. \<lparr>ir_source = ''revision'', ir_revision = fd_newRevision d, ir_path = newPath\<rparr>) (fd_new d))
         else
           (map_option (\<lambda>_. \<lparr>ir_source = ''snapshot'', ir_revision = None, ir_path = oldPath\<rparr>) (fd_old d),
            map_option (\<lambda>_. \<lparr>ir_source = ''working'', ir_revision = None, ir_path = newPath\<rparr>) (fd_new d)))"

definition viewerKey :: "string \<Rightarrow> FileDiff \<Rightarrow> string \<Rightarrow> string list" where
  "viewerKey r d kind =
     (if truthy (fd_newRevision d) then [''commit'', r, coalesce (fd_newRevision d) [], fd_path d, kind]
      else [''diff'', r, fd_path d, kind])"

section \<open>Choosing the viewer\<close>

datatype Viewer = VNotice | VImage | VModel | VAudio | VTable | VText | VMeta

definition isText :: "FileDiff \<Rightarrow> bool" where
  "isText d \<longleftrightarrow> \<not> coalesce (map_option fs_binary (fd_old d)) False \<and> \<not> coalesce (map_option fs_binary (fd_new d)) False"

definition has_side :: "FileDiff \<Rightarrow> bool" where
  "has_side d \<longleftrightarrow> fd_old d \<noteq> None \<or> fd_new d \<noteq> None"

definition viewerFor :: "FileDiff \<Rightarrow> Viewer" where
  "viewerFor d =
     (if fd_contentUnavailable d = Some True then VNotice
      else if fd_kind d = ''image'' \<and> has_side d then VImage
      else if fd_kind d = ''model'' \<and> has_side d then VModel
      else if fd_kind d = ''audio'' \<and> has_side d then VAudio
      else if fd_kind d = ''table'' \<and>
        (coalesce (map_option fs_size (fd_old d)) 0 \<noteq> 0 \<or> coalesce (map_option fs_size (fd_new d)) 0 \<noteq> 0) then VTable
      else if fd_hunksOmitted d = Some True then VNotice
      else if isText d \<and> diff_hunks d \<noteq> [] then VText
      else if isText d then VNotice
      else VMeta)"

record DiffHeader =
  dv_kind :: string
  dv_oldPath :: "string option"
  dv_path :: string
  dv_similar :: "string option"
  dv_counts :: "(string \<times> string) option"
  dv_letter :: string
  dv_layouts :: bool

definition minus_sign :: string where
  "minus_sign = [CHR 0xE2, CHR 0x88, CHR 0x92]"

text \<open>The header of \<open>DiffViewer\<close>; \<open>dv_letter\<close> is the status handed to \<open>StatusLetter\<close>.\<close>

definition DiffViewer :: "FileDiff \<Rightarrow> DiffHeader" where
  "DiffViewer d =
     \<lparr>dv_kind = fd_kind d,
      dv_oldPath = (if truthy (fd_oldPath d) then fd_oldPath d else None),
      dv_path = fd_path d,
      dv_similar = (case fd_similarity d of
          Some n \<Rightarrow> if n \<noteq> 0 then Some (js_show_int n @ ''% similar'') else None | None \<Rightarrow> None),
      dv_counts = (if fd_additions d > 0 \<or> fd_deletions d > 0
                   then Some (''+'' @ js_show_int (fd_additions d), minus_sign @ js_show_int (fd_deletions d)) else None),
      dv_letter = (if fd_untracked d = Some True then ''untracked'' else fd_status d),
      dv_layouts = (viewerFor d = VText \<or> viewerFor d = VTable \<and> diff_hunks d \<noteq> [])\<rparr>"

section \<open>Notices\<close>

text \<open>\<open>n.toString(8)\<close>.\<close>

fun js_show_octal :: "nat \<Rightarrow> string" where
  "js_show_octal n = (if n < 8 then [js_digit n] else js_show_octal (n div 8) @ [js_digit (n mod 8)])"

declare js_show_octal.simps [simp del]

definition right_arrow :: string where
  "right_arrow = [CHR 0xE2, CHR 0x86, CHR 0x92]"

definition noticeText :: "FileDiff \<Rightarrow> string \<times> string" where
  "noticeText d =
     (if fd_contentUnavailable d = Some True then
        (''Content not available'', ''The old version of this file is not in the local cache.'')
      else if fd_hunksOmitted d = Some True then
        (''This diff is too large to show'', ''Open the file in your editor to review the change.'')
      else if fd_status d = ''deleted'' then (''File deleted'', ''The file was empty.'')
      else if fd_status d = ''renamed'' then (''File renamed'', ''The content did not change.'')
      else case (fd_old d, fd_new d) of
        (Some a, Some b) \<Rightarrow>
          if fs_mode a \<noteq> fs_mode b
          then (''File mode changed'', js_show_octal (fs_mode a) @ '' '' @ right_arrow @ '' '' @ js_show_octal (fs_mode b))
          else (''Empty file'', ''There is no content to compare.'')
      | _ \<Rightarrow> (''Empty file'', ''There is no content to compare.''))"

definition side_text :: "FileSide option \<Rightarrow> string" where
  "side_text side = (case side of
     Some s \<Rightarrow> formatBytes (fs_size s) @
       (if fs_hash s \<noteq> [] then '' '' @ [CHR 0xC2, CHR 0xB7] @ '' '' @ take 10 (fs_hash s) else [])
   | None \<Rightarrow> [CHR 0xE2, CHR 0x80, CHR 0x94])"

definition Sizes :: "FileDiff \<Rightarrow> (string \<times> string) list" where
  "Sizes d = (if fd_old d = None \<and> fd_new d = None then []
     else [(''Before'', side_text (fd_old d)), (''After'', side_text (fd_new d))])"

definition kindNames :: "(string \<times> string) list" where
  "kindNames = [(''image'', ''Image''), (''model'', ''3D model''), (''audio'', ''Audio''), (''video'', ''Video''),
     (''font'', ''Font''), (''table'', ''Table''), (''opaque'', ''Binary'')]"

definition MetaDiff :: "FileDiff \<Rightarrow> string option \<Rightarrow> string \<times> string \<times> (string \<times> string) list" where
  "MetaDiff d detail =
     (coalesce (map_of kindNames (fd_kind d)) ''Binary'' @ '' file'',
      coalesce detail ''A visual compare for this file type is coming in a later version.'', Sizes d)"

section \<open>Text\<close>

text \<open>
  \<open>LineComments\<close>: what to show under a line (\<open>None\<close> for null), and whether new threads can be started.
\<close>

record 'n LineComments =
  lc_render :: "LineAnchor \<Rightarrow> 'n option"
  lc_onAdd :: bool

definition anchorOf :: "LineKind \<Rightarrow> int \<Rightarrow> int \<Rightarrow> LineAnchor" where
  "anchorOf kind oldLine newLine =
     (if kind = Removed then \<lparr>an_oldLine = oldLine, an_newLine = 0\<rparr> else \<lparr>an_oldLine = 0, an_newLine = newLine\<rparr>)"

text \<open>The button that starts a thread: its label and the anchor it hands to \<open>onAdd\<close>.\<close>

definition AddComment :: "LineAnchor \<Rightarrow> 'n LineComments option \<Rightarrow> (string \<times> LineAnchor) option" where
  "AddComment a comments = (case comments of
     Some c \<Rightarrow>
       if lc_onAdd c then
         Some (if an_newLine a \<noteq> 0 then ''Comment on line '' @ js_show_int (an_newLine a)
               else ''Comment on removed line '' @ js_show_int (an_oldLine a), a)
       else None
   | None \<Rightarrow> None)"

definition render_at :: "'n LineComments option \<Rightarrow> LineAnchor \<Rightarrow> 'n list" where
  "render_at comments a = (case comments of
     Some c \<Rightarrow> (case lc_render c a of Some n \<Rightarrow> [n] | None \<Rightarrow> []) | None \<Rightarrow> [])"

definition line_no :: "int \<Rightarrow> string" where
  "line_no n = (if n = 0 then [] else js_show_int n)"

record LineCells =
  lx_kind :: LineKind
  lx_numbers :: "string list"
  lx_sign :: string
  lx_code :: string
  lx_noNewline :: bool
  lx_add :: "(string \<times> LineAnchor) option"

definition UnifiedLine ::
  "LineKind \<Rightarrow> int \<Rightarrow> int \<Rightarrow> string \<Rightarrow> bool \<Rightarrow> 'n LineComments option \<Rightarrow> LineCells \<times> 'n list" where
  "UnifiedLine kind old new code noNewline comments =
     (let a = anchorOf kind old new in
      (\<lparr>lx_kind = kind, lx_numbers = [line_no old, line_no new],
        lx_sign = (case kind of Added \<Rightarrow> ''+'' | Removed \<Rightarrow> minus_sign | Context \<Rightarrow> '' ''),
        lx_code = code, lx_noNewline = noNewline, lx_add = AddComment a comments\<rparr>, render_at comments a))"

definition splitAnchor :: "SplitCell option \<Rightarrow> bool \<Rightarrow> LineAnchor option" where
  "splitAnchor cell old_side = (case cell of
     None \<Rightarrow> None
   | Some c \<Rightarrow>
       if old_side then (if sc_kind c = Removed then Some \<lparr>an_oldLine = sc_line c, an_newLine = 0\<rparr> else None)
       else Some \<lparr>an_oldLine = 0, an_newLine = sc_line c\<rparr>)"

definition SplitHalf :: "SplitCell option \<Rightarrow> bool \<Rightarrow> 'n LineComments option \<Rightarrow> LineCells option" where
  "SplitHalf cell old_side comments = map_option (\<lambda>c.
     \<lparr>lx_kind = sc_kind c, lx_numbers = [line_no (sc_line c)], lx_sign = [], lx_code = sc_text c,
      lx_noNewline = sc_noNewline c,
      lx_add = Option.bind (splitAnchor cell old_side) (\<lambda>a. AddComment a comments)\<rparr>) cell"

definition rendered :: "'n LineComments option \<Rightarrow> LineAnchor option \<Rightarrow> 'n list" where
  "rendered comments a = (case a of Some x \<Rightarrow> render_at comments x | None \<Rightarrow> [])"

definition SplitLine ::
  "SplitCell option \<Rightarrow> SplitCell option \<Rightarrow> 'n LineComments option \<Rightarrow> (LineCells option \<times> LineCells option) \<times> 'n list" where
  "SplitLine l r comments =
     ((SplitHalf l True comments, SplitHalf r False comments),
      rendered comments (splitAnchor l True) @ rendered comments (splitAnchor r False))"

datatype 'n TextRow =
    HunkRow string
  | LineRow LineCells "'n list"
  | PairRow "LineCells option" "LineCells option" "'n list"

fun unified_view :: "'n LineComments option \<Rightarrow> UnifiedRow \<Rightarrow> 'n TextRow" where
  "unified_view comments (UHunk h) = HunkRow h"
| "unified_view comments (ULine kind old new code noNewline) =
     (case UnifiedLine kind old new code noNewline comments of (cells, notes) \<Rightarrow> LineRow cells notes)"

fun split_view :: "'n LineComments option \<Rightarrow> SplitRow \<Rightarrow> 'n TextRow" where
  "split_view comments (SHunk h) = HunkRow h"
| "split_view comments (SPair l r) = (case SplitLine l r comments of ((a, b), notes) \<Rightarrow> PairRow a b notes)"

definition TextDiff :: "bool \<Rightarrow> FileDiff \<Rightarrow> 'n LineComments option \<Rightarrow> 'n TextRow list" where
  "TextDiff split d comments =
     (if split then map (split_view comments) (splitRows (diff_hunks d))
      else map (unified_view comments) (unifiedRows (diff_hunks d)))"

text \<open>What a reader of the rows finds: the comments shown, and the buttons that start new ones.\<close>

fun row_notes :: "'n TextRow \<Rightarrow> 'n list" where
  "row_notes (HunkRow h) = []"
| "row_notes (LineRow c ns) = ns"
| "row_notes (PairRow a b ns) = ns"

definition cell_adds :: "LineCells option \<Rightarrow> (string \<times> LineAnchor) list" where
  "cell_adds c = (case Option.bind c lx_add of Some b \<Rightarrow> [b] | None \<Rightarrow> [])"

fun row_adds :: "'n TextRow \<Rightarrow> (string \<times> LineAnchor) list" where
  "row_adds (HunkRow h) = []"
| "row_adds (LineRow c ns) = cell_adds (Some c)"
| "row_adds (PairRow a b ns) = cell_adds a @ cell_adds b"

section \<open>Tables\<close>

record TableColumn =
  tc_name :: string
  tc_oldName :: string
  tc_old :: int
  tc_new :: int

record TableRow =
  tr_status :: string
  tr_oldLine :: int
  tr_newLine :: int
  tr_cells :: "string list option"
  tr_old :: "string list option"
  tr_changed :: "nat list option"
  tr_moved :: "bool option"

record TableCompare =
  tb_columns :: "TableColumn list option"
  tb_rows :: "TableRow list option"
  tb_keyColumn :: int
  tb_delimiter :: string
  tb_rowsAdded :: int
  tb_rowsRemoved :: int
  tb_rowsChanged :: int
  tb_rowsMoved :: int
  tb_cellsChanged :: int
  tb_columnsAdded :: int
  tb_columnsRemoved :: int
  tb_error :: "string option"

definition hasChanges :: "TableCompare \<Rightarrow> bool" where
  "hasChanges c \<longleftrightarrow> tb_rowsAdded c + tb_rowsRemoved c + tb_rowsChanged c + tb_rowsMoved c + tb_columnsAdded c + tb_columnsRemoved c > 0"

text \<open>The letters of a column, as in a spreadsheet: A to Z, then AA, AB and so on.\<close>

function letters :: "nat \<Rightarrow> string" where
  "letters i = (if i < 26 then [char_of (65 + i)] else letters (i div 26 - 1) @ letters (i mod 26))"
  by pat_completeness auto
termination
  by (relation "measure (\<lambda>i. i)") (auto intro: less_le_trans [OF mod_less_divisor])

declare letters.simps [simp del]

definition columnLabel :: "TableColumn \<Rightarrow> nat \<Rightarrow> string" where
  "columnLabel c i = (if tc_name c \<noteq> [] then tc_name c else ''column '' @ letters i)"

definition column_base :: "TableColumn \<Rightarrow> nat \<Rightarrow> string" where
  "column_base c i = (if tc_name c \<noteq> [] then tc_name c else letters i)"

definition numbered :: "string \<Rightarrow> nat \<Rightarrow> string" where
  "numbered b n = (if n = 1 then b else b @ '' #'' @ js_show_nat n)"

fun column_ids_from :: "(string, nat) js_map \<Rightarrow> nat \<Rightarrow> TableColumn list \<Rightarrow> string list" where
  "column_ids_from seen i [] = []"
| "column_ids_from seen i (c # cs) =
     (let b = column_base c i; n = coalesce (js_map_get seen b) 0 + 1
      in numbered b n # column_ids_from (js_map_set seen b n) (Suc i) cs)"

definition columnIds :: "TableColumn list \<Rightarrow> string list" where
  "columnIds columns = column_ids_from [] 0 columns"

definition ROW_HEIGHT :: int where
  "ROW_HEIGHT = 26"

definition CHANGED_ROW :: int where
  "CHANGED_ROW = 42"

definition COL_WIDTH :: int where
  "COL_WIDTH = 160"

definition GUTTER :: int where
  "GUTTER = 88"

text \<open>The state of \<open>TableCompareView\<close>: the check box and the widths that the user set.\<close>

record TableView =
  tv_onlyChanges :: bool
  tv_sizes :: Columns

definition table_mount :: "(string \<times> rat) list option \<Rightarrow> TableCompare \<Rightarrow> TableView" where
  "table_mount stored c =
     \<lparr>tv_onlyChanges = (hasChanges c \<and> length (coalesce (tb_rows c) []) > 50), tv_sizes = columns_mount 48 stored\<rparr>"

definition setOnlyChanges :: "bool \<Rightarrow> TableView \<Rightarrow> TableView" where
  "setOnlyChanges b v = v\<lparr>tv_onlyChanges := b\<rparr>"

definition resize_column :: "string \<Rightarrow> rat \<Rightarrow> TableView \<Rightarrow> TableView" where
  "resize_column i w v = v\<lparr>tv_sizes := column_commit i w (tv_sizes v)\<rparr>"

definition table_widths :: "TableCompare \<Rightarrow> TableView \<Rightarrow> int list" where
  "table_widths c v = map (\<lambda>i. column_width [] i COL_WIDTH (tv_sizes v)) (columnIds (coalesce (tb_columns c) []))"

definition table_width :: "TableCompare \<Rightarrow> TableView \<Rightarrow> int" where
  "table_width c v = foldl (\<lambda>sum w. sum + w) GUTTER (table_widths c v)"

definition table_rows :: "TableCompare \<Rightarrow> TableView \<Rightarrow> TableRow list" where
  "table_rows c v =
     (let all = coalesce (tb_rows c) []
      in if tv_onlyChanges v then filter (\<lambda>r. tr_status r \<noteq> ''same'' \<or> tr_moved r = Some True) all else all)"

definition row_height :: "TableRow \<Rightarrow> int" where
  "row_height r = (if tr_status r = ''changed'' then CHANGED_ROW else ROW_HEIGHT)"

text \<open>A header cell: what it shows, its tooltip, whether the column is new or gone, and the label of its resize handle.\<close>

record HeaderCell =
  hc_text :: string
  hc_was :: "string option"
  hc_title :: string
  hc_added :: bool
  hc_removed :: bool
  hc_resizer :: string

definition ColumnHeader :: "TableColumn \<Rightarrow> nat \<Rightarrow> string \<Rightarrow> HeaderCell" where
  "ColumnHeader c i ident =
     (let added = tc_old c < 0; removed = tc_new c < 0;
          renamed = (\<not> added \<and> \<not> removed \<and> tc_oldName c \<noteq> tc_name c \<and> tc_oldName c \<noteq> [])
      in \<lparr>hc_text = (if tc_name c \<noteq> [] then tc_name c else letters i),
          hc_was = (if renamed then Some (tc_oldName c) else None),
          hc_title = (if renamed then tc_oldName c @ '' '' @ right_arrow @ '' '' @ tc_name c else tc_name c),
          hc_added = added, hc_removed = removed,
          hc_resizer = (if tc_name c \<noteq> [] then ident else columnLabel c i)\<rparr>)"

record TableCell =
  ce_value :: string
  ce_was :: "string option"
  ce_title :: string
  ce_newColumn :: bool
  ce_goneColumn :: bool

definition cell_at :: "string list option \<Rightarrow> nat \<Rightarrow> string" where
  "cell_at cells i = coalesce (nth_opt (coalesce cells []) i) []"

definition table_cell :: "TableRow \<Rightarrow> nat \<Rightarrow> TableColumn \<Rightarrow> TableCell" where
  "table_cell r i c =
     (let v = cell_at (tr_cells r) i; isChanged = (i \<in> set (coalesce (tr_changed r) [])) in
      \<lparr>ce_value = v, ce_was = (if isChanged then Some (cell_at (tr_old r) i) else None),
       ce_title = (if isChanged then cell_at (tr_old r) i @ '' '' @ right_arrow @ '' '' @ v else v),
       ce_newColumn = (tc_old c < 0 \<and> tr_status r \<noteq> ''added''),
       ce_goneColumn = (tc_new c < 0 \<and> tr_status r \<noteq> ''removed'')\<rparr>)"

record TableLine =
  tl_status :: string
  tl_oldLine :: string
  tl_newLine :: string
  tl_moved :: bool
  tl_cells :: "TableCell list"

definition or_dot :: "int \<Rightarrow> string" where
  "or_dot n = (if n = 0 then [CHR 0xC2, CHR 0xB7] else js_show_int n)"

definition TableRowView :: "TableColumn list \<Rightarrow> TableRow \<Rightarrow> TableLine" where
  "TableRowView columns r =
     \<lparr>tl_status = tr_status r, tl_oldLine = or_dot (tr_oldLine r), tl_newLine = or_dot (tr_newLine r),
      tl_moved = (tr_moved r = Some True),
      tl_cells = map (\<lambda>(i, c). table_cell r i c) (enumerate 0 columns)\<rparr>"

text \<open>\<open>loc\<close> is \<open>n.toLocaleString()\<close>.\<close>

definition count_of :: "(int \<Rightarrow> string) \<Rightarrow> int \<Rightarrow> string \<Rightarrow> string" where
  "count_of loc n word = loc n @ '' '' @ word @ (if n = 1 then [] else ''s'')"

definition Summary :: "(int \<Rightarrow> string) \<Rightarrow> TableCompare \<Rightarrow> string list" where
  "Summary loc c =
     (let parts =
        (if tb_rowsAdded c \<noteq> 0 then [''+'' @ count_of loc (tb_rowsAdded c) ''row''] else []) @
        (if tb_rowsRemoved c \<noteq> 0 then [minus_sign @ count_of loc (tb_rowsRemoved c) ''row''] else []) @
        (if tb_rowsChanged c \<noteq> 0 then [loc (tb_rowsChanged c) @ '' changed ('' @ count_of loc (tb_cellsChanged c) ''cell'' @ '')''] else []) @
        (if tb_rowsMoved c \<noteq> 0 then [loc (tb_rowsMoved c) @ '' moved''] else []) @
        (if tb_columnsAdded c \<noteq> 0 then [''+'' @ count_of loc (tb_columnsAdded c) ''column''] else []) @
        (if tb_columnsRemoved c \<noteq> 0 then [minus_sign @ count_of loc (tb_columnsRemoved c) ''column''] else [])
      in if parts = [] \<and> \<not> truthy (tb_error c) then [''No cell changes''] else parts)"

definition matched_by :: "TableCompare \<Rightarrow> string option" where
  "matched_by c =
     (if truthy (tb_error c) then None
      else Some (case (if tb_keyColumn c \<ge> 0 then nth_opt (coalesce (tb_columns c) []) (nat (tb_keyColumn c)) else None) of
        Some k \<Rightarrow> ''Rows matched by '' @ columnLabel k (nat (tb_keyColumn c))
      | None \<Rightarrow> ''Rows matched by content''))"

datatype TableBody =
    TableError string
  | TableEmpty "HeaderCell list" string
  | TableLines "HeaderCell list" "TableLine list"

definition TableCompareView :: "TableCompare \<Rightarrow> TableView \<Rightarrow> TableBody" where
  "TableCompareView c v =
     (let columns = coalesce (tb_columns c) []; ids = columnIds columns; rows = table_rows c v;
          head = map (\<lambda>(i, col). ColumnHeader col i (ids ! i)) (enumerate 0 columns)
      in if truthy (tb_error c)
         then TableError (''This file cannot be compared as a table: '' @ coalesce (tb_error c) [] @ ''.'')
         else if rows = [] then
           TableEmpty head (if tv_onlyChanges v then ''No rows changed.'' else ''The table is empty.'')
         else TableLines head (map (TableRowView columns) rows))"

text \<open>\<open>TableDiff\<close>: the switch between table and text, and what the pane shows for the answer of the service.\<close>

datatype TableMode = ModeTable | ModeText

datatype TablePane = PaneText | PaneComparing | PaneMeta string | PaneCompare TableCompare

definition table_mode :: "bool \<Rightarrow> FileDiff \<Rightarrow> TableMode" where
  "table_mode comments d = (if comments \<and> diff_hunks d \<noteq> [] then ModeText else ModeTable)"

definition TableDiff :: "TableMode \<Rightarrow> (string + TableCompare option) option \<Rightarrow> TablePane" where
  "TableDiff mode answer =
     (if mode = ModeText then PaneText
      else case answer of
        None \<Rightarrow> PaneComparing
      | Some (Inl err) \<Rightarrow> PaneMeta (''The table could not be read: '' @ err)
      | Some (Inr None) \<Rightarrow> PaneMeta ''There is no table preview for this file.''
      | Some (Inr (Some c)) \<Rightarrow> PaneCompare c)"

section \<open>Comments in both layouts\<close>

definition line_anchor :: "DiffLine \<Rightarrow> LineAnchor" where
  "line_anchor l = anchorOf (kindOf (dl_kind l)) (dl_old l) (dl_new l)"

definition diff_lines :: "FileDiff \<Rightarrow> DiffLine list" where
  "diff_lines d = concat (map hunk_lines (diff_hunks d))"

definition add_at :: "'n LineComments option \<Rightarrow> LineAnchor \<Rightarrow> (string \<times> LineAnchor) list" where
  "add_at comments a = (case AddComment a comments of Some b \<Rightarrow> [b] | None \<Rightarrow> [])"

lemma unified_rows_lines:
  "concat (map row_notes (map (unified_view cs) (unifiedRows hs))) =
     concat (map (\<lambda>l. render_at cs (line_anchor l)) (concat (map hunk_lines hs)))"
  "concat (map row_adds (map (unified_view cs) (unifiedRows hs))) =
     concat (map (\<lambda>l. add_at cs (line_anchor l)) (concat (map hunk_lines hs)))"
  by (induction hs)
    (simp_all add: unifiedRows_def unified_line_def UnifiedLine_def comp_def line_anchor_def Let_def cell_adds_def add_at_def)

text \<open>In the side-by-side view every anchor comes from a cell of one of the two columns.\<close>

definition cell_anchors :: "bool \<Rightarrow> SplitCell list \<Rightarrow> LineAnchor list" where
  "cell_anchors old_side cells = concat (map (\<lambda>c. case splitAnchor (Some c) old_side of Some a \<Rightarrow> [a] | None \<Rightarrow> []) cells)"

lemma cell_anchors_simps [simp]:
  "cell_anchors s [] = []"
  "cell_anchors s (x # xs) = (case splitAnchor (Some x) s of Some a \<Rightarrow> [a] | None \<Rightarrow> []) @ cell_anchors s xs"
  "cell_anchors s (xs @ ys) = cell_anchors s xs @ cell_anchors s ys"
  by (simp_all add: cell_anchors_def)

lemma splitAnchor_None [simp]: "splitAnchor None s = None"
  by (simp add: splitAnchor_def)

lemma cell_adds_half:
  "cell_adds (SplitHalf cell s cs) = (case splitAnchor cell s of Some a \<Rightarrow> add_at cs a | None \<Rightarrow> [])"
  by (simp add: cell_adds_def SplitHalf_def add_at_def splitAnchor_def split: option.split)

lemma split_rows_anchors:
  "mset (concat (map row_notes (map (split_view cs) rows))) =
     mset (concat (map (render_at cs) (cell_anchors True (lefts rows) @ cell_anchors False (rights rows))))"
  "mset (concat (map row_adds (map (split_view cs) rows))) =
     mset (concat (map (add_at cs) (cell_anchors True (lefts rows) @ cell_anchors False (rights rows))))"
proof -
  have step: "mset (row_notes (split_view cs r)) =
      mset (concat (map (render_at cs) (cell_anchors True (row_left r) @ cell_anchors False (row_right r))))"
    "mset (row_adds (split_view cs r)) =
      mset (concat (map (add_at cs) (cell_anchors True (row_left r) @ cell_anchors False (row_right r))))" for r
    by (cases r; simp add: SplitLine_def rendered_def cell_adds_half split: option.split)+
  show "mset (concat (map row_notes (map (split_view cs) rows))) =
      mset (concat (map (render_at cs) (cell_anchors True (lefts rows) @ cell_anchors False (rights rows))))"
    by (induction rows) (simp_all add: step)
  show "mset (concat (map row_adds (map (split_view cs) rows))) =
      mset (concat (map (add_at cs) (cell_anchors True (lefts rows) @ cell_anchors False (rights rows))))"
    by (induction rows) (simp_all add: step)
qed

lemma columns_anchors:
  "mset (cell_anchors True (map left_cell (filter (\<lambda>l. kindOf (dl_kind l) \<noteq> Added) ls)) @
     cell_anchors False (map right_cell (filter (\<lambda>l. kindOf (dl_kind l) \<noteq> Removed) ls))) =
   mset (map line_anchor ls)"
  by (induction ls)
    (auto simp: splitAnchor_def left_cell_def right_cell_def line_anchor_def anchorOf_def)

lemma mset_concat_map_cong: "mset xs = mset ys \<Longrightarrow> mset (concat (map f xs)) = mset (concat (map f ys))"
  by (simp add: mset_concat image_mset.compositionality flip: mset_map sum_mset_sum_list) (simp add: image_mset.comp [symmetric])

text \<open>The comments and buttons of a diff, line by line, in either layout.\<close>

lemma text_notes_lines:
  "concat (map row_notes (TextDiff False d cs)) = concat (map (\<lambda>l. render_at cs (line_anchor l)) (diff_lines d))"
  "mset (concat (map row_notes (TextDiff split d cs))) = mset (concat (map (\<lambda>l. render_at cs (line_anchor l)) (diff_lines d)))"
  "mset (concat (map row_adds (TextDiff split d cs))) = mset (concat (map (\<lambda>l. add_at cs (line_anchor l)) (diff_lines d)))"
  "concat (map row_adds (TextDiff False d cs)) = concat (map (\<lambda>l. add_at cs (line_anchor l)) (diff_lines d))"
proof -
  let ?rows = "splitRows (diff_hunks d)"
  have anchors: "mset (cell_anchors True (lefts ?rows) @ cell_anchors False (rights ?rows)) =
      mset (map line_anchor (diff_lines d))"
    unfolding splitRows_columns diff_lines_def by (rule columns_anchors)
  note same = mset_concat_map_cong [OF anchors]
  show "concat (map row_notes (TextDiff False d cs)) = concat (map (\<lambda>l. render_at cs (line_anchor l)) (diff_lines d))"
    "concat (map row_adds (TextDiff False d cs)) = concat (map (\<lambda>l. add_at cs (line_anchor l)) (diff_lines d))"
    unfolding TextDiff_def if_False unified_rows_lines by (simp_all add: diff_lines_def)
  show "mset (concat (map row_notes (TextDiff split d cs))) = mset (concat (map (\<lambda>l. render_at cs (line_anchor l)) (diff_lines d)))"
    "mset (concat (map row_adds (TextDiff split d cs))) = mset (concat (map (\<lambda>l. add_at cs (line_anchor l)) (diff_lines d)))"
    by (cases split; simp add: TextDiff_def unified_rows_lines split_rows_anchors same diff_lines_def comp_def del: map_map map_append concat_append; simp add: comp_def)+
qed

section \<open>Names of columns\<close>

text \<open>Reading the letters of a column as digits from 1 to 26.\<close>

definition letters_value :: "string \<Rightarrow> nat" where
  "letters_value s = foldl (\<lambda>a c. 26 * a + (of_char c - 64)) 0 s"

lemma letters_value_snoc: "letters_value (s @ [c]) = 26 * letters_value s + (of_char c - 64)"
  by (simp add: letters_value_def)

lemma letters_small: "i < 26 \<Longrightarrow> letters i = [char_of (65 + i)]"
  by (simp add: letters.simps)

lemma of_char_letter: "i < 26 \<Longrightarrow> of_char (char_of (65 + i) :: char) = (65 + i :: nat)"
  by (simp add: of_char_of)

lemma letters_value_letters: "letters_value (letters i) = i + 1"
proof (induction i rule: letters.induct)
  case (1 i)
  show ?case
  proof (cases "i < 26")
    case True
    then show ?thesis by (simp add: letters_small letters_value_def of_char_letter)
  next
    case False
    then have "letters i = letters (i div 26 - 1) @ [char_of (65 + i mod 26)]"
      by (subst letters.simps) (simp add: letters_small)
    moreover have "letters_value (letters (i div 26 - 1)) = i div 26"
      using "1.IH"(1) [OF False] False by simp
    ultimately show ?thesis
      using of_char_letter [of "i mod 26"] by (simp add: letters_value_snoc)
  qed
qed

lemma letters_capital: "c \<in> set (letters i) \<Longrightarrow> 65 \<le> (of_char c :: nat) \<and> (of_char c :: nat) \<le> 90"
proof (induction i rule: letters.induct)
  case (1 i)
  show ?case
  proof (cases "i < 26")
    case True
    with "1.prems" show ?thesis by (simp add: letters_small of_char_letter)
  next
    case False
    with "1.prems" have "c \<in> set (letters (i div 26 - 1)) \<or> c = char_of (65 + i mod 26)"
      by (subst (asm) letters.simps) (auto simp: letters_small)
    with False "1.IH"(1) of_char_letter [of "i mod 26"] show ?thesis by auto
  qed
qed

lemma letters_no_hash: "CHR ''#'' \<notin> set (letters i)"
  using letters_capital [of "CHR ''#''" i] by auto

lemma numbered_inj:
  assumes "CHR ''#'' \<notin> set b" "CHR ''#'' \<notin> set b'" "0 < n" "0 < n'" "numbered b n = numbered b' n'"
  shows "b = b' \<and> n = n'"
proof -
  have hash: "CHR ''#'' \<in> set (numbered c k) \<longleftrightarrow> k \<noteq> 1" if "CHR ''#'' \<notin> set c" for c k
    using that js_show_nat_digits [of "CHR ''#''" k] by (auto simp: numbered_def js_is_digit_def)
  have "n = 1 \<longleftrightarrow> n' = 1" using hash [OF assms(1), of n] hash [OF assms(2), of n'] assms(5) by simp
  moreover have "b = b' \<and> js_show_nat n = js_show_nat n'" if "n \<noteq> 1" "n' \<noteq> 1"
  proof -
    have eq: "(b @ '' '') @ CHR ''#'' # js_show_nat n = (b' @ '' '') @ CHR ''#'' # js_show_nat n'"
      using that assms(5) by (simp add: numbered_def)
    have head: "takeWhile (\<lambda>c. c \<noteq> CHR ''#'') ((x @ '' '') @ CHR ''#'' # y) = x @ '' ''" if "CHR ''#'' \<notin> set x" for x y
      using that by (subst takeWhile_append2) auto
    have "b @ '' '' = b' @ '' ''"
      using arg_cong [OF eq, of "takeWhile (\<lambda>c. c \<noteq> CHR ''#'')"] unfolding head [OF assms(1)] head [OF assms(2)] .
    with eq show ?thesis by simp
  qed
  ultimately show ?thesis using assms(5) by (auto simp: numbered_def)
qed

text \<open>Every identifier carries a number that is new for its base.\<close>

lemma column_ids_pairs:
  "\<exists>ps. column_ids_from seen i cs = map (\<lambda>(b, n). numbered b n) ps \<and> length ps = length cs \<and> distinct ps \<and>
     (\<forall>(b, n) \<in> set ps. coalesce (js_map_get seen b) 0 < n \<and> (\<exists>c \<in> set cs. \<exists>k. b = column_base c k))"
proof (induction cs arbitrary: seen i)
  case (Cons c cs)
  let ?b = "column_base c i"
  let ?n = "coalesce (js_map_get seen ?b) 0 + 1"
  let ?seen = "js_map_set seen ?b ?n"
  obtain ps where ps: "column_ids_from ?seen (Suc i) cs = map (\<lambda>(b, n). numbered b n) ps"
    "length ps = length cs" "distinct ps"
    and new: "\<And>b n. (b, n) \<in> set ps \<Longrightarrow> coalesce (js_map_get ?seen b) 0 < n"
    and base: "\<And>b n. (b, n) \<in> set ps \<Longrightarrow> \<exists>c \<in> set cs. \<exists>k. b = column_base c k"
    using Cons.IH [of ?seen "Suc i"] by fast
  have get: "coalesce (js_map_get ?seen b) 0 = (if b = ?b then ?n else coalesce (js_map_get seen b) 0)" for b
    by (simp add: js_map.get_put coalesce_def)
  have bound: "coalesce (js_map_get seen b) 0 < n" if "(b, n) \<in> set ps" for b n
    using new [OF that] unfolding get by (simp split: if_splits)
  have fresh: "(?b, ?n) \<notin> set ps" using new [of ?b ?n] unfolding get by auto
  have "coalesce (js_map_get seen b) 0 < n \<and> (\<exists>x \<in> set (c # cs). \<exists>k. b = column_base x k)"
    if "(b, n) \<in> set ((?b, ?n) # ps)" for b n
    using that bound base by (cases "(b, n) = (?b, ?n)") auto
  then show ?case
    using ps fresh by (intro exI [of _ "(?b, ?n) # ps"]) (auto simp: Let_def)
qed (auto intro: exI [of _ "[]"])

lemma columnIds_length [simp]: "length (columnIds columns) = length columns"
  using column_ids_pairs [of "[]" 0 columns] by (auto simp: columnIds_def)

lemma columnIds_distinct:
  assumes "\<forall>c \<in> set columns. CHR ''#'' \<notin> set (tc_name c)"
  shows "distinct (columnIds columns)"
proof -
  obtain ps where ps: "columnIds columns = map (\<lambda>(b, n). numbered b n) ps" "distinct ps"
    and pos: "\<And>b n. (b, n) \<in> set ps \<Longrightarrow> 0 < n"
    and base: "\<And>b n. (b, n) \<in> set ps \<Longrightarrow> \<exists>c \<in> set columns. \<exists>k. b = column_base c k"
    using column_ids_pairs [of "[]" 0 columns] unfolding columnIds_def by fastforce
  have "CHR ''#'' \<notin> set b" if "(b, n) \<in> set ps" for b n
    using base [OF that] assms letters_no_hash by (auto simp: column_base_def split: if_splits)
  then have "(b, n) = (b', n')" if "(b, n) \<in> set ps" "(b', n') \<in> set ps" "numbered b n = numbered b' n'" for b n b' n'
    using numbered_inj [OF _ _ pos pos] that by blast
  then have "inj_on (\<lambda>(b, n). numbered b n) (set ps)"
    by (auto simp: inj_on_def)
  then show ?thesis using ps by (simp add: distinct_map)
qed

lemma column_width_commit:
  "column_width defaults j fallback (column_commit i w c) =
     (if j = i then column_clamp w (co_min c) else column_width defaults j fallback c)"
  by (simp add: column_width_def column_commit_def Let_def js_map.get_put)

section \<open>Properties\<close>

text \<open>
  Property C40. Both layouts of the text diff show the same review comments, each once: the comments
  under the lines and the buttons that start new ones are those of the lines of the diff, one place
  per line, in the unified view in their order and side by side as a rearrangement of it.
\<close>

theorem layouts_show_same_comments:
  "concat (map row_notes (TextDiff False d comments)) =
     concat (map (\<lambda>l. render_at comments (line_anchor l)) (diff_lines d)) \<and>
   concat (map row_adds (TextDiff False d comments)) =
     concat (map (\<lambda>l. add_at comments (line_anchor l)) (diff_lines d)) \<and>
   mset (concat (map row_notes (TextDiff True d comments))) = mset (concat (map row_notes (TextDiff False d comments))) \<and>
   mset (concat (map row_adds (TextDiff True d comments))) = mset (concat (map row_adds (TextDiff False d comments)))"
  using text_notes_lines(2) [of True d comments] text_notes_lines(3) [of True d comments] text_notes_lines(1,4) [of d comments]
  by simp

text \<open>
  Every column of a table has letters of its own: reading them as a number in base 26
  with the digits A to Z gives its position back, for any number of columns.
\<close>

theorem column_letters_roundtrip:
  "letters_value (letters i) = i + 1 \<and> letters i \<noteq> [] \<and> list_all (\<lambda>c. (of_char c :: nat) \<in> {65..90}) (letters i)"
proof -
  have "letters i \<noteq> []" using letters_value_letters [of i] by (auto simp: letters_value_def)
  then show ?thesis using letters_capital [of _ i] by (simp add: list_all_iff letters_value_letters)
qed

text \<open>
  Dragging the border of a column changes the width of this column only, whatever columns
  repeat a name or have none, as long as no name contains a number sign; the table is as wide as its
  columns and the gutter.
\<close>

theorem resize_moves_one_column:
  assumes "\<forall>c \<in> set (coalesce (tb_columns t) []). CHR ''#'' \<notin> set (tc_name c)"
    and "i < length (coalesce (tb_columns t) [])"
  shows "table_widths t (resize_column (columnIds (coalesce (tb_columns t) []) ! i) w v) =
       (table_widths t v)[i := column_clamp w (co_min (tv_sizes v))] \<and>
     table_width t v = GUTTER + sum_list (table_widths t v)"
proof -
  let ?ids = "columnIds (coalesce (tb_columns t) [])"
  have "distinct ?ids" using assms(1) by (rule columnIds_distinct)
  then have "?ids ! j = ?ids ! i \<longleftrightarrow> j = i" if "j < length ?ids" for j
    using that assms(2) by (simp add: nth_eq_iff_index_eq)
  then have widths: "table_widths t (resize_column (?ids ! i) w v) =
      (table_widths t v)[i := column_clamp w (co_min (tv_sizes v))]"
    using assms(2) by (intro nth_equalityI) (auto simp: table_widths_def resize_column_def column_width_commit nth_list_update)
  have "foldl (\<lambda>sum w. sum + w) a ws = a + sum_list ws" for a :: int and ws
    by (induction ws arbitrary: a) (simp_all add: algebra_simps)
  with widths show ?thesis by (simp add: table_width_def)
qed

definition sample_table :: TableCompare where
  "sample_table =
     \<lparr>tb_columns = Some [\<lparr>tc_name = ''v'', tc_oldName = ''v'', tc_old = 0, tc_new = 0\<rparr>,
         \<lparr>tc_name = ''v'', tc_oldName = ''v'', tc_old = 1, tc_new = 1\<rparr>,
         \<lparr>tc_name = [], tc_oldName = [], tc_old = 2, tc_new = 2\<rparr>],
      tb_rows = None, tb_keyColumn = 0, tb_delimiter = '','', tb_rowsAdded = 0, tb_rowsRemoved = 0, tb_rowsChanged = 0,
      tb_rowsMoved = 0, tb_cellsChanged = 0, tb_columnsAdded = 0, tb_columnsRemoved = 0, tb_error = None\<rparr>"

theorem resize_moves_one_column_witness:
  "columnIds (coalesce (tb_columns sample_table) []) = [''v'', ''v #2'', ''C''] \<and>
   table_widths sample_table (resize_column ''v #2'' 200 (table_mount None sample_table)) = [160, 200, 160]"
proof -
  have ids: "columnIds (coalesce (tb_columns sample_table) []) = [''v'', ''v #2'', ''C'']" by code_simp
  have cols: "\<forall>c \<in> set (coalesce (tb_columns sample_table) []). CHR ''#'' \<notin> set (tc_name c)"
    "1 < length (coalesce (tb_columns sample_table) [])"
    by (simp_all add: sample_table_def coalesce_def)
  have "table_widths sample_table (resize_column ''v #2'' 200 (table_mount None sample_table)) =
      (table_widths sample_table (table_mount None sample_table))[1 := column_clamp 200 48]"
    using resize_moves_one_column [OF cols, of 200 "table_mount None sample_table"] ids
    by (simp add: table_mount_def columns_mount_def)
  also have "\<dots> = [160, 200, 160]" by code_simp
  finally show ?thesis using ids by simp
qed

text \<open>A name with a number sign can be the identifier of another column: the two then share one width.\<close>

lemma column_ids_collide:
  "columnIds (map (\<lambda>n. \<lparr>tc_name = n, tc_oldName = n, tc_old = 0, tc_new = 0\<rparr>) [''v'', ''v'', ''v #2'']) = [''v'', ''v #2'', ''v #2'']"
  by code_simp

end
