(* ===== verification/History.thy ===== *)
theory History
  imports Desktop_Api Working_Copy Sparse File_Diff
begin

text \<open>
  The history of a clone in the desktop client: \<open>lib/history.ts\<close>, \<open>lib/time.ts\<close>, the list of commits with its
  filters and dialogs (\<open>HistoryView.tsx\<close>, \<open>ui/prompt.tsx\<close>, \<open>ui/confirm.tsx\<close>) and the details of a commit
  (\<open>CommitDetail.tsx\<close>). The answers of the queries are inputs of the views; the creation of tags and branches
  is part of the state, because its answer acts on whatever dialog is open then.
\<close>

section \<open>Commits and tags\<close>

record Tag =
  tg_name :: string
  tg_commitId :: string
  tg_message :: string
  tg_createdAt :: string
  tg_createdBy :: string

definition image_extensions :: "string list" where
  "image_extensions = [''png'', ''jpg'', ''jpeg'', ''gif'', ''bmp'', ''tga'', ''tif'', ''tiff'', ''webp'', ''dds'', ''ktx2'',
     ''exr'', ''hdr'', ''psd'', ''psb'']"

definition isImagePath :: "string \<Rightarrow> bool" where
  "isImagePath path \<longleftrightarrow> list_ex (\<lambda>ext. js_endsWith (js_toLowerCase path) (CHR ''.'' # ext)) image_extensions"

definition commitTitle :: "string \<Rightarrow> string" where
  "commitTitle message = (let t = js_trim (hd (js_split js_nl message)) in if t \<noteq> [] then t else ''(no message)'')"

definition commitBody :: "string \<Rightarrow> string" where
  "commitBody message = (case js_indexOf message js_nl 0 of
     None \<Rightarrow> [] | Some i \<Rightarrow> js_trim (drop (i + 1) message))"

definition shortId :: "string \<Rightarrow> string" where
  "shortId i = take 10 i"

definition query_words :: "string \<Rightarrow> string list" where
  "query_words query = filter (\<lambda>w. w \<noteq> []) (split_spaces (js_toLowerCase query))"

definition commit_text :: "Commit \<Rightarrow> string" where
  "commit_text c = js_toLowerCase
     (cd_author c @ '' '' @ cd_email c @ '' '' @ cd_message c @ '' '' @ cd_id c @ '' '' @ cd_hash c)"

definition filterCommits :: "Commit list \<Rightarrow> string \<Rightarrow> Commit list" where
  "filterCommits commits query =
     (let words = query_words query
      in if words = [] then commits
         else filter (\<lambda>c. list_all (\<lambda>w. js_includes (commit_text c) w) words) commits)"

definition tagsByCommit :: "Tag list \<Rightarrow> (string, Tag list) js_map" where
  "tagsByCommit tags =
     fold (\<lambda>t out. js_map_set out (tg_commitId t) (coalesce (js_map_get out (tg_commitId t)) [] @ [t])) tags []"

definition tags_of :: "Tag list \<Rightarrow> string \<Rightarrow> Tag list" where
  "tags_of tags i = coalesce (js_map_get (tagsByCommit tags) i) []"

text \<open>\<open>timeAgo\<close>; \<open>now\<close> in milliseconds, \<open>localDate\<close> is \<open>new Date(at).toLocaleDateString()\<close>.\<close>

definition timeAgo :: "(int \<Rightarrow> string) \<Rightarrow> string \<Rightarrow> int \<Rightarrow> string" where
  "timeAgo localDate date now = (case js_date date of
     None \<Rightarrow> []
   | Some t \<Rightarrow>
       (let s = max 0 (js_round_div (now - t) 1000) in
        if s < 45 then ''just now''
        else (let m = js_round_div s 60 in
          if m < 60 then js_show_int m @ '' min ago''
          else (let h = js_round_div m 60 in
            if h < 24 then js_show_int h @ '' h ago''
            else (let d = js_round_div h 24 in
              if d < 30 then js_show_int d @ '' day'' @ (if d = 1 then [] else ''s'') @ '' ago''
              else localDate t)))))"

section \<open>The prompt for a name\<close>

record Prompt =
  pm_name :: string
  pm_message :: string

definition prompt_empty :: Prompt where
  "prompt_empty = \<lparr>pm_name = [], pm_message = []\<rparr>"

text \<open>The submit button; a form whose submit button is disabled is not submitted by Enter either.\<close>

definition prompt_enabled :: "Prompt \<Rightarrow> bool \<Rightarrow> bool" where
  "prompt_enabled p busy \<longleftrightarrow> js_trim (pm_name p) \<noteq> [] \<and> \<not> busy"

definition prompt_submit :: "Prompt \<Rightarrow> bool \<Rightarrow> (string \<times> string) option" where
  "prompt_submit p busy =
     (if prompt_enabled p busy then Some (js_trim (pm_name p), js_trim (pm_message p)) else None)"

section \<open>The history view\<close>

datatype DialogKind = DialogRevert | DialogTag | DialogBranch

text \<open>A \<open>createTag\<close> or \<open>createBranch\<close> that was sent and not answered.\<close>

record Creation =
  cn_kind :: DialogKind
  cn_name :: string
  cn_message :: string
  cn_commit :: Commit

record HistoryView =
  hv_root :: string
  hv_branch :: string
  hv_detached :: "string option"
  hv_busy :: bool
  hv_path :: string
  hv_pathInput :: string
  hv_search :: string
  hv_selectedId :: "string option"
  hv_dialog :: "(DialogKind \<times> Commit) option"
  hv_prompt :: Prompt
  hv_creating :: "Creation list"
  hv_sent :: "ServiceCall list"
  hv_invalidated :: "(string \<times> string) list"
  hv_reverted :: "Commit list"
  hv_notices :: "notice list"

definition history_mount :: "string \<Rightarrow> string \<Rightarrow> string option \<Rightarrow> bool \<Rightarrow> string \<Rightarrow> string option \<Rightarrow> HistoryView" where
  "history_mount r branch detached busy path open_id =
     \<lparr>hv_root = r, hv_branch = branch, hv_detached = detached, hv_busy = busy, hv_path = path, hv_pathInput = path,
      hv_search = [], hv_selectedId = open_id, hv_dialog = None, hv_prompt = prompt_empty, hv_creating = [],
      hv_sent = [], hv_invalidated = [], hv_reverted = [], hv_notices = []\<rparr>"

text \<open>New properties from the repository view: the branch, a detached tag, and a running operation.\<close>

definition history_props :: "string \<Rightarrow> string option \<Rightarrow> bool \<Rightarrow> HistoryView \<Rightarrow> HistoryView" where
  "history_props branch detached busy v = v\<lparr>hv_branch := branch, hv_detached := detached, hv_busy := busy\<rparr>"

text \<open>The effect that follows a link to a commit.\<close>

definition history_open :: "string \<Rightarrow> HistoryView \<Rightarrow> HistoryView" where
  "history_open i v = v\<lparr>hv_selectedId := Some i\<rparr>"

definition setPathInput :: "string \<Rightarrow> HistoryView \<Rightarrow> HistoryView" where
  "setPathInput s v = v\<lparr>hv_pathInput := s\<rparr>"

definition setSearch :: "string \<Rightarrow> HistoryView \<Rightarrow> HistoryView" where
  "setSearch s v = v\<lparr>hv_search := s\<rparr>"

definition setSelectedId :: "string \<Rightarrow> HistoryView \<Rightarrow> HistoryView" where
  "setSelectedId i v = v\<lparr>hv_selectedId := Some i\<rparr>"

definition applyPath :: "HistoryView \<Rightarrow> HistoryView" where
  "applyPath v = v\<lparr>hv_path := trimSlashes (js_trim (hv_pathInput v)), hv_selectedId := None\<rparr>"

definition clearPath :: "HistoryView \<Rightarrow> HistoryView" where
  "clearPath v = v\<lparr>hv_path := [], hv_pathInput := [], hv_selectedId := None\<rparr>"

text \<open>A prompt keeps its text while a dialog of its kind stays open and is empty when it opens anew.\<close>

definition history_setDialog :: "(DialogKind \<times> Commit) option \<Rightarrow> HistoryView \<Rightarrow> HistoryView" where
  "history_setDialog d v =
     v\<lparr>hv_dialog := d,
       hv_prompt := (if map_option fst d = map_option fst (hv_dialog v) then hv_prompt v else prompt_empty)\<rparr>"

definition history_notify :: "notice \<Rightarrow> HistoryView \<Rightarrow> HistoryView" where
  "history_notify n v = v\<lparr>hv_notices := hv_notices v @ [n]\<rparr>"

subsection \<open>What is shown\<close>

text \<open>The query of the log for the branch and path shown: its pages, its error, and whether a page is on its way.\<close>

record LogQuery =
  lq_pages :: "HistoryPage list option"
  lq_error :: "string option"
  lq_fetchingNext :: bool

definition log_request :: "HistoryView \<Rightarrow> string \<Rightarrow> ServiceCall" where
  "log_request v start =
     desktop_history (hv_root v) [(''branch'', JString (hv_branch v)), (''path'', JString (hv_path v)), (''start'', JString start)]"

definition log_next :: "LogQuery \<Rightarrow> string option" where
  "log_next q = (case lq_pages q of
     None \<Rightarrow> None
   | Some ps \<Rightarrow> if ps = [] \<or> hp_next (last ps) = [] then None else Some (hp_next (last ps)))"

definition log_commits :: "LogQuery \<Rightarrow> Commit list" where
  "log_commits q = concat (map hp_commits (coalesce (lq_pages q) []))"

definition history_shown :: "LogQuery \<Rightarrow> HistoryView \<Rightarrow> Commit list" where
  "history_shown q v = filterCommits (log_commits q) (hv_search v)"

definition history_listed :: "LogQuery \<Rightarrow> HistoryView \<Rightarrow> Commit option" where
  "history_listed q v = (if truthy (hv_selectedId v)
     then find (\<lambda>c. cd_id c = coalesce (hv_selectedId v) []) (log_commits q) else None)"

text \<open>The query for a selected commit that is not listed; \<open>lookups\<close> are its answers by commit.\<close>

type_synonym lookups = "string \<Rightarrow> (string + HistoryPage) option"

definition lookup_request :: "LogQuery \<Rightarrow> HistoryView \<Rightarrow> ServiceCall option" where
  "lookup_request q v =
     (if truthy (hv_selectedId v) \<and> history_listed q v = None
      then Some (desktop_history (hv_root v)
        [(''branch'', JString (hv_branch v)), (''start'', JString (coalesce (hv_selectedId v) [])), (''limit'', JNum 1)])
      else None)"

definition looked_up :: "lookups \<Rightarrow> HistoryView \<Rightarrow> Commit option" where
  "looked_up ls v = (if truthy (hv_selectedId v) then
     (case ls (coalesce (hv_selectedId v) []) of Some (Inr p) \<Rightarrow> nth_opt (hp_commits p) 0 | _ \<Rightarrow> None) else None)"

definition history_selected :: "LogQuery \<Rightarrow> lookups \<Rightarrow> HistoryView \<Rightarrow> Commit option" where
  "history_selected q ls v = (case history_listed q v of
     Some c \<Rightarrow> Some c
   | None \<Rightarrow> (case looked_up ls v of
       Some c \<Rightarrow> Some c
     | None \<Rightarrow> if truthy (hv_selectedId v) then None else nth_opt (history_shown q v) 0))"

record CommitLine =
  ci_id :: string
  ci_title :: string
  ci_tags :: "string list"
  ci_author :: string
  ci_ago :: string
  ci_short :: string
  ci_merge :: bool
  ci_last :: bool
  ci_selected :: bool

definition or_else :: "string \<Rightarrow> string \<Rightarrow> string" where
  "or_else a b = (if a \<noteq> [] then a else b)"

definition CommitRow :: "(string \<Rightarrow> string) \<Rightarrow> Commit \<Rightarrow> Tag list \<Rightarrow> bool \<Rightarrow> bool \<Rightarrow> CommitLine" where
  "CommitRow ago c tags lst selected =
     \<lparr>ci_id = cd_id c, ci_title = commitTitle (cd_message c), ci_tags = map tg_name tags,
      ci_author = or_else (cd_author c) (cd_email c), ci_ago = ago (cd_date c), ci_short = shortId (cd_id c),
      ci_merge = (1 < length (cd_parents c)), ci_last = lst, ci_selected = selected\<rparr>"

text \<open>The list of commits; the flag of the button that loads older ones is whether it is enabled.\<close>

datatype HistoryList =
    HistoryLoading
  | HistoryFailed string
  | HistoryEmpty string "bool option"
  | HistoryRows "CommitLine list" "bool option"

definition older_button :: "LogQuery \<Rightarrow> bool option" where
  "older_button q = (if log_next q = None then None else Some (\<not> lq_fetchingNext q))"

definition history_rows :: "(string \<Rightarrow> string) \<Rightarrow> LogQuery \<Rightarrow> lookups \<Rightarrow> Tag list \<Rightarrow> HistoryView \<Rightarrow> CommitLine list" where
  "history_rows ago q ls tags v =
     (let shown = history_shown q v in
      map (\<lambda>(i, c). CommitRow ago c (tags_of tags (cd_id c)) (i = length shown - 1 \<and> log_next q = None)
             (Some (cd_id c) = map_option cd_id (history_selected q ls v)))
        (enumerate 0 shown))"

definition history_list :: "(string \<Rightarrow> string) \<Rightarrow> LogQuery \<Rightarrow> lookups \<Rightarrow> Tag list \<Rightarrow> HistoryView \<Rightarrow> HistoryList" where
  "history_list ago q ls tags v =
     (if lq_pages q = None \<and> lq_error q = None then HistoryLoading
      else case lq_error q of
        Some err \<Rightarrow> HistoryFailed err
      | None \<Rightarrow>
          if history_shown q v = [] then
            HistoryEmpty
              (if log_commits q = [] then
                 (if hv_path v \<noteq> [] then ''No commits changed '' @ hv_path v else ''No commits yet'')
               else ''No commits match the loaded history'') (older_button q)
          else HistoryRows (history_rows ago q ls tags v) (older_button q))"

datatype DetailPane = DetailCommit Commit "Tag list" | DetailLoading | DetailText string

definition history_detail :: "LogQuery \<Rightarrow> lookups \<Rightarrow> Tag list \<Rightarrow> HistoryView \<Rightarrow> DetailPane" where
  "history_detail q ls tags v = (case history_selected q ls v of
     Some c \<Rightarrow> DetailCommit c (tags_of tags (cd_id c))
   | None \<Rightarrow>
       if truthy (hv_selectedId v) \<and> ls (coalesce (hv_selectedId v) []) = None then DetailLoading
       else DetailText (if truthy (hv_selectedId v) then ''This commit could not be loaded'' else ''Select a commit''))"

text \<open>The strip of versions of an image.\<close>

definition asset_strip :: "(string \<Rightarrow> string) \<Rightarrow> LogQuery \<Rightarrow> lookups \<Rightarrow> HistoryView \<Rightarrow> (string \<times> string \<times> string \<times> bool) list" where
  "asset_strip ago q ls v =
     (if hv_path v \<noteq> [] \<and> isImagePath (hv_path v) then
        map (\<lambda>c. (cd_id c, commitTitle (cd_message c) @ '' '' @ [CHR 0xC2, CHR 0xB7] @ '' '' @ cd_author c, ago (cd_date c),
               Some (cd_id c) = map_option cd_id (history_selected q ls v)))
          (log_commits q)
      else [])"

subsection \<open>Dialogs\<close>

definition is_merge :: "Commit \<Rightarrow> bool" where
  "is_merge c \<longleftrightarrow> 1 < length (cd_parents c)"

text \<open>Why the Revert button is disabled: \<open>revertBlocked\<close> of the view, or a merge.\<close>

definition revert_blocked :: "HistoryView \<Rightarrow> Commit \<Rightarrow> string option" where
  "revert_blocked v c =
     (if truthy (hv_detached v)
      then Some (''Switch back to a branch to revert (checked out at tag '' @ coalesce (hv_detached v) [] @ '')'')
      else if is_merge c
      then Some ''Reverting a merge commit is only available from the command line (nipa revert --mainline)''
      else None)"

definition open_dialog :: "DialogKind \<Rightarrow> LogQuery \<Rightarrow> lookups \<Rightarrow> HistoryView \<Rightarrow> HistoryView" where
  "open_dialog kind q ls v = (case history_selected q ls v of
     None \<Rightarrow> v
   | Some c \<Rightarrow>
       if hv_busy v \<or> kind = DialogRevert \<and> revert_blocked v c \<noteq> None then v
       else history_setDialog (Some (kind, c)) v)"

definition cancel_dialog :: "HistoryView \<Rightarrow> HistoryView" where
  "cancel_dialog v = history_setDialog None v"

definition type_prompt :: "string \<Rightarrow> string \<Rightarrow> HistoryView \<Rightarrow> HistoryView" where
  "type_prompt name message v = (case hv_dialog v of
     Some (DialogTag, c) \<Rightarrow> v\<lparr>hv_prompt := \<lparr>pm_name = name, pm_message = message\<rparr>\<rparr>
   | Some (DialogBranch, c) \<Rightarrow> v\<lparr>hv_prompt := \<lparr>pm_name = name, pm_message = []\<rparr>\<rparr>
   | _ \<Rightarrow> v)"

definition confirm_revert :: "HistoryView \<Rightarrow> HistoryView" where
  "confirm_revert v = (case hv_dialog v of
     Some (DialogRevert, c) \<Rightarrow> (history_setDialog None v)\<lparr>hv_reverted := hv_reverted v @ [c]\<rparr>
   | _ \<Rightarrow> v)"

definition creating_kind :: "DialogKind \<Rightarrow> HistoryView \<Rightarrow> bool" where
  "creating_kind kind v = list_ex (\<lambda>n. cn_kind n = kind) (hv_creating v)"

definition creation_call :: "string \<Rightarrow> Creation \<Rightarrow> ServiceCall" where
  "creation_call r n =
     (if cn_kind n = DialogTag then desktop_createTag r (cn_name n) None (Some (cd_id (cn_commit n))) (cn_message n)
      else desktop_createBranch r (cn_name n) None (Some (cd_id (cn_commit n))))"

definition submit_prompt :: "HistoryView \<Rightarrow> HistoryView" where
  "submit_prompt v = (case hv_dialog v of
     Some (kind, c) \<Rightarrow>
       if kind = DialogRevert then v
       else (case prompt_submit (hv_prompt v) (creating_kind kind v) of
         None \<Rightarrow> v
       | Some (name, message) \<Rightarrow>
           (let n = \<lparr>cn_kind = kind, cn_name = name, cn_message = (if kind = DialogTag then message else []), cn_commit = c\<rparr>
            in v\<lparr>hv_creating := hv_creating v @ [n], hv_sent := hv_sent v @ [creation_call (hv_root v) n]\<rparr>))
   | None \<Rightarrow> v)"

text \<open>A creation is answered: the tag or branch the service made, or an error.\<close>

definition creation_settled :: "Creation \<Rightarrow> string + (string \<times> string) \<Rightarrow> HistoryView \<Rightarrow> HistoryView" where
  "creation_settled n r v =
     (let w = v\<lparr>hv_creating := remove1 n (hv_creating v)\<rparr> in
      case r of
        Inl err \<Rightarrow>
          history_notify ((if cn_kind n = DialogTag then ''Could not create the tag: '' else ''Could not create the branch: '') @ err, None) w
      | Inr (name, commitId) \<Rightarrow>
          (if cn_kind n = DialogTag
           then history_notify (''Tagged '' @ shortId commitId @ '' as '' @ name, Some ToneSuccess)
                  ((history_setDialog None w)\<lparr>hv_invalidated := hv_invalidated w @ [(''tags'', hv_root w)]\<rparr>)
           else history_notify (''Created branch '' @ name @ ''. Switch to it from Branches & tags.'', Some ToneSuccess)
                  ((history_setDialog None w)\<lparr>hv_invalidated := hv_invalidated w @ [(''branches'', hv_root w)]\<rparr>)))"

text \<open>\<open>onRevert\<close> of the repository view.\<close>

definition view_revertCommit :: "Commit \<Rightarrow> RepoView \<Rightarrow> RepoView" where
  "view_revertCommit c v = view_run OpRevert (SRevertCommit (cd_id c)) v"

section \<open>Details of a commit\<close>

record CommitDetail =
  dt_picked :: "(string \<times> string) option"
  dt_split :: bool
  dt_setting :: "string option"

definition detail_mount :: "string option \<Rightarrow> CommitDetail" where
  "detail_mount setting = \<lparr>dt_picked = None, dt_split = (setting = Some ''split''), dt_setting = setting\<rparr>"

definition setLayout :: "bool \<Rightarrow> CommitDetail \<Rightarrow> CommitDetail" where
  "setLayout split d = d\<lparr>dt_split := split, dt_setting := Some (if split then ''split'' else ''unified'')\<rparr>"

definition pick_file :: "Commit \<Rightarrow> string \<Rightarrow> CommitDetail \<Rightarrow> CommitDetail" where
  "pick_file c path d = d\<lparr>dt_picked := Some (cd_id c, path)\<rparr>"

definition commit_files_request :: "string \<Rightarrow> Commit \<Rightarrow> ServiceCall" where
  "commit_files_request r c = Service_CommitFiles r (cd_id c) (coalesce (nth_opt (cd_parents c) 0) [])"

definition wanted_path :: "Commit \<Rightarrow> string \<Rightarrow> CommitDetail \<Rightarrow> string" where
  "wanted_path c focusPath d = (case dt_picked d of
     Some (i, p) \<Rightarrow> if i = cd_id c then p else focusPath | None \<Rightarrow> focusPath)"

definition detail_selected :: "FileDiff list \<Rightarrow> Commit \<Rightarrow> string \<Rightarrow> CommitDetail \<Rightarrow> FileDiff option" where
  "detail_selected files c focusPath d =
     (let wanted = wanted_path c focusPath d in
      case find (\<lambda>f. fd_path f = wanted \<or> fd_oldPath f = Some wanted) files of
        Some f \<Rightarrow> Some f | None \<Rightarrow> nth_opt files 0)"

definition parent_links :: "Commit \<Rightarrow> (string \<times> string) list" where
  "parent_links c = map (\<lambda>(i, p). (p, (if i = 0 then ''parent'' else ''merged'') @ '' '' @ shortId p)) (enumerate 0 (cd_parents c))"

record DetailHeader =
  dd_title :: string
  dd_body :: string
  dd_author :: string
  dd_buttons :: "bool \<times> bool"
  dd_parents :: "(string \<times> string) list"

definition detail_header :: "HistoryView \<Rightarrow> Commit \<Rightarrow> DetailHeader" where
  "detail_header v c =
     \<lparr>dd_title = commitTitle (cd_message c), dd_body = commitBody (cd_message c),
      dd_author = or_else (cd_author c) (or_else (cd_email c) ''Unknown author''),
      dd_buttons = (\<not> hv_busy v, \<not> (hv_busy v \<or> revert_blocked v c \<noteq> None)), dd_parents = parent_links c\<rparr>"

section \<open>Words of a query\<close>

abbreviation (input) no_space :: "char \<Rightarrow> bool" where
  "no_space c \<equiv> \<not> js_is_space c"

definition text_words :: "string \<Rightarrow> string list" where
  "text_words s = filter (\<lambda>w. w \<noteq> []) (split_spaces s)"

lemma split_spaces_shape:
  "\<exists>t. split_spaces s = takeWhile no_space s # t \<and> filter (\<lambda>w. w \<noteq> []) t = text_words (dropWhile no_space s)"
  by (induction s rule: split_spaces.induct) (auto simp: text_words_def)

lemma text_words_Nil [simp]: "text_words [] = []"
  by (simp add: text_words_def)

lemma text_words_dropWhile: "text_words (dropWhile js_is_space s) = text_words s"
  by (induction s) (auto simp: text_words_def)

lemma text_words_space: "js_is_space x \<Longrightarrow> text_words (x # s) = text_words s"
  using text_words_dropWhile [of s] by (simp add: text_words_def)

lemma text_words_word:
  "no_space x \<Longrightarrow> text_words (x # s) = (x # takeWhile no_space s) # text_words (dropWhile no_space s)"
  using split_spaces_shape [of s] by (auto simp: text_words_def)

lemma takeWhile_stop: "\<not> P x \<Longrightarrow> takeWhile P (ys @ x # b) = takeWhile P ys"
  by (induction ys) auto

lemma dropWhile_stop: "\<not> P x \<Longrightarrow> dropWhile P (ys @ x # b) = dropWhile P ys @ x # b"
  by (induction ys) auto

lemma text_words_append:
  "js_is_space x \<Longrightarrow> text_words (a @ x # b) = text_words a @ text_words b"
proof (induction a rule: length_induct)
  case (1 a)
  show ?case
  proof (cases a)
    case Nil
    with 1 show ?thesis by (simp add: text_words_space)
  next
    case (Cons y ys)
    have "length (dropWhile no_space ys) < length a" using Cons by (simp add: le_imp_less_Suc length_dropWhile_le)
    with 1 Cons show ?thesis
      by (cases "js_is_space y") (simp_all add: text_words_space text_words_word takeWhile_stop dropWhile_stop)
  qed
qed

lemma text_words_infix: "w \<in> set (text_words s) \<Longrightarrow> js_includes s w"
proof (induction s rule: length_induct)
  case (1 s)
  show ?case
  proof (cases s)
    case (Cons x xs)
    show ?thesis
    proof (cases "js_is_space x")
      case True
      with 1 Cons show ?thesis by (simp add: text_words_space)
    next
      case False
      with "1.prems" Cons consider "w = x # takeWhile no_space xs" | "w \<in> set (text_words (dropWhile no_space xs))"
        by (auto simp: text_words_word)
      then show ?thesis
      proof cases
        case 1
        then have "s = [] @ w @ dropWhile no_space xs" using Cons by simp
        then show ?thesis unfolding js_includes_iff by blast
      next
        case 2
        have "length (dropWhile no_space xs) < length s" using Cons by (simp add: le_imp_less_Suc length_dropWhile_le)
        with 2 "1.IH" obtain a b where "dropWhile no_space xs = a @ w @ b" unfolding js_includes_iff by blast
        then have "s = (x # takeWhile no_space xs @ a) @ w @ b"
          using Cons takeWhile_dropWhile_id [of no_space xs] by simp
        then show ?thesis unfolding js_includes_iff by blast
      qed
    qed
  qed (use "1.prems" in simp)
qed

lemma query_words_words: "query_words q = text_words (js_toLowerCase q)"
  by (simp add: query_words_def text_words_def)

lemma query_words_space: "query_words (a @ '' '' @ b) = query_words a @ query_words b"
  unfolding query_words_words js_toLowerCase_def map_append
  by (simp add: js_lower_char_def text_words_append js_is_space_def)

lemma filterCommits_filter:
  "filterCommits commits query = filter (\<lambda>c. list_all (js_includes (commit_text c)) (query_words query)) commits"
  by (simp add: filterCommits_def Let_def)

lemma includes_trans: "js_includes s t \<Longrightarrow> js_includes t w \<Longrightarrow> js_includes s w"
  unfolding js_includes_iff by (metis append.assoc)

lemma substring_found:
  "js_includes (commit_text c) (js_toLowerCase query) \<Longrightarrow> list_all (js_includes (commit_text c)) (query_words query)"
  unfolding list_all_iff query_words_words using text_words_infix includes_trans by blast

lemma toLowerCase_append: "js_toLowerCase (a @ b) = js_toLowerCase a @ js_toLowerCase b"
  by (simp add: js_toLowerCase_def)

lemma commit_text_id: "js_includes (commit_text c) (js_toLowerCase (cd_id c))"
  unfolding js_includes_iff commit_text_def
  by (rule exI [of _ "js_toLowerCase (cd_author c @ '' '' @ cd_email c @ '' '' @ cd_message c @ '' '')"],
      rule exI [of _ "js_toLowerCase ('' '' @ cd_hash c)"]) (simp add: js_toLowerCase_def)

section \<open>Tags of a commit\<close>

lemma tags_fold:
  "coalesce (js_map_get (fold (\<lambda>t out. js_map_set out (tg_commitId t)
      (coalesce (js_map_get out (tg_commitId t)) [] @ [t])) tags m) i) [] =
   coalesce (js_map_get m i) [] @ filter (\<lambda>t. tg_commitId t = i) tags"
  by (induction tags arbitrary: m) (auto simp: js_map.get_put coalesce_def)

lemma tags_of_filter: "tags_of tags i = filter (\<lambda>t. tg_commitId t = i) tags"
  by (simp add: tags_of_def tagsByCommit_def tags_fold) (simp add: js_map_get_def coalesce_def)

section \<open>Times\<close>

text \<open>
  The error of each rounding is at most half a unit, so an age given in minutes, hours or days is the
  real one up to half a unit and the errors of the smaller units.
\<close>

lemma timeAgo_cases:
  assumes "js_date date = Some t" and "t \<le> now"
  obtains (now) "timeAgo localDate date now = ''just now''" "now - t \<le> 44500"
  | (minutes) m where "timeAgo localDate date now = js_show_int m @ '' min ago''" "1 \<le> m" "m < 60"
      "\<bar>now - t - 60000 * m\<bar> \<le> 30500"
  | (hours) h where "timeAgo localDate date now = js_show_int h @ '' h ago''" "1 \<le> h" "h < 24"
      "\<bar>now - t - 3600000 * h\<bar> \<le> 1830500"
  | (days) d where "timeAgo localDate date now = js_show_int d @ '' day'' @ (if d = 1 then [] else ''s'') @ '' ago''"
      "1 \<le> d" "d < 30" "\<bar>now - t - 86400000 * d\<bar> \<le> 45030500"
  | (date) "timeAgo localDate date now = localDate t" "now - t \<ge> 29 * 86400000"
proof -
  define s where "s = js_round_div (now - t) 1000"
  define m where "m = js_round_div s 60"
  define h where "h = js_round_div m 60"
  define d where "d = js_round_div h 24"
  have near: "2 * \<bar>now - t - 1000 * s\<bar> \<le> 1000" "2 * \<bar>s - 60 * m\<bar> \<le> 60" "2 * \<bar>m - 60 * h\<bar> \<le> 60" "2 * \<bar>h - 24 * d\<bar> \<le> 24"
    unfolding s_def m_def h_def d_def by (simp_all add: js_round_div_near)
  have "now - t - 1000 * s \<le> 500" using near(1) by (simp add: abs_le_iff)
  then have "0 \<le> s" using assms(2) by linarith
  then have ago: "timeAgo localDate date now =
      (if s < 45 then ''just now'' else if m < 60 then js_show_int m @ '' min ago''
       else if h < 24 then js_show_int h @ '' h ago''
       else if d < 30 then js_show_int d @ '' day'' @ (if d = 1 then [] else ''s'') @ '' ago'' else localDate t)"
    by (simp add: timeAgo_def assms(1) Let_def max_def flip: s_def m_def h_def d_def)
  consider "s < 45" | "45 \<le> s" "m < 60" | "45 \<le> s" "60 \<le> m" "h < 24" | "45 \<le> s" "60 \<le> m" "24 \<le> h" "d < 30"
    | "45 \<le> s" "60 \<le> m" "24 \<le> h" "30 \<le> d" by linarith
  then show thesis
  proof cases
    case 1
    then show ?thesis using now ago near by simp
  next
    case 2
    then show ?thesis using minutes [of m] ago near by simp
  next
    case 3
    then show ?thesis using hours [of h] ago near by simp
  next
    case 4
    then show ?thesis using days [of d] ago near by simp
  next
    case 5
    then show ?thesis using date ago near by simp
  qed
qed

section \<open>Reachable states\<close>

inductive history_reach :: "string \<Rightarrow> HistoryView \<Rightarrow> bool" for r where
  mount: "history_reach r (history_mount r branch detached busy path open_id)"
| props: "history_reach r v \<Longrightarrow> history_reach r (history_props branch detached busy v)"
| open_commit: "history_reach r v \<Longrightarrow> history_reach r (history_open i v)"
| path_input: "history_reach r v \<Longrightarrow> history_reach r (setPathInput s v)"
| search: "history_reach r v \<Longrightarrow> history_reach r (setSearch s v)"
| select: "history_reach r v \<Longrightarrow> history_reach r (setSelectedId i v)"
| path: "history_reach r v \<Longrightarrow> history_reach r (applyPath v)"
| clear_path: "history_reach r v \<Longrightarrow> history_reach r (clearPath v)"
| dialog: "history_reach r v \<Longrightarrow> history_reach r (open_dialog kind q ls v)"
| cancel: "history_reach r v \<Longrightarrow> history_reach r (cancel_dialog v)"
| type_name: "history_reach r v \<Longrightarrow> history_reach r (type_prompt name message v)"
| revert: "history_reach r v \<Longrightarrow> history_reach r (confirm_revert v)"
| submit: "history_reach r v \<Longrightarrow> history_reach r (submit_prompt v)"
| settled: "history_reach r v \<Longrightarrow> n \<in> set (hv_creating v) \<Longrightarrow> history_reach r (creation_settled n a v)"

lemmas history_step_defs =
  history_mount_def history_props_def history_open_def setPathInput_def setSearch_def setSelectedId_def applyPath_def
  clearPath_def open_dialog_def cancel_dialog_def type_prompt_def confirm_revert_def submit_prompt_def
  creation_settled_def history_setDialog_def history_notify_def

definition creation_ok :: "Creation \<Rightarrow> bool" where
  "creation_ok n \<longleftrightarrow> cn_kind n \<noteq> DialogRevert \<and> cn_name n \<noteq> [] \<and> (\<exists>s. cn_name n = js_trim s)"

definition revert_ok :: "HistoryView \<Rightarrow> bool" where
  "revert_ok v \<longleftrightarrow> (\<forall>c. hv_dialog v = Some (DialogRevert, c) \<longrightarrow> \<not> is_merge c) \<and> (\<forall>c \<in> set (hv_reverted v). \<not> is_merge c)"

definition creations_ok :: "string \<Rightarrow> HistoryView \<Rightarrow> bool" where
  "creations_ok r v \<longleftrightarrow> hv_root v = r \<and> distinct (map cn_kind (hv_creating v)) \<and> list_all creation_ok (hv_creating v) \<and>
     (\<forall>call \<in> set (hv_sent v). \<exists>n. creation_ok n \<and> call = creation_call r n)"

lemma revert_inv: "history_reach r v \<Longrightarrow> revert_ok v"
proof (induction rule: history_reach.induct)
  case (dialog v kind q ls)
  then show ?case
    by (auto simp: revert_ok_def open_dialog_def history_setDialog_def revert_blocked_def split: option.splits if_splits)
next
  case (type_name v name message)
  then show ?case by (auto simp: revert_ok_def type_prompt_def split: option.splits DialogKind.splits)
next
  case (revert v)
  then show ?case
    by (auto simp: revert_ok_def confirm_revert_def history_setDialog_def split: option.splits DialogKind.splits)
next
  case (submit v)
  then show ?case by (auto simp: revert_ok_def submit_prompt_def Let_def split: option.splits)
next
  case (settled v n a)
  then show ?case by (auto simp: revert_ok_def creation_settled_def history_setDialog_def history_notify_def Let_def split: sum.splits)
qed (auto simp: revert_ok_def history_step_defs)

lemma distinct_map_remove1: "distinct (map f xs) \<Longrightarrow> distinct (map f (remove1 x xs))"
  by (induction xs) (auto dest: subsetD [OF set_remove1_subset])

lemma creations_inv: "history_reach r v \<Longrightarrow> creations_ok r v"
proof (induction rule: history_reach.induct)
  case (dialog v kind q ls)
  then show ?case by (auto simp: creations_ok_def open_dialog_def history_setDialog_def split: option.split)
next
  case (type_name v name message)
  then show ?case by (auto simp: creations_ok_def type_prompt_def split: option.split DialogKind.split)
next
  case (revert v)
  then show ?case by (auto simp: creations_ok_def confirm_revert_def history_setDialog_def split: option.split DialogKind.split)
next
  case (submit v)
  show ?case
  proof (cases "submit_prompt v = v")
    case False
    then obtain kind c name message where d: "hv_dialog v = Some (kind, c)" "kind \<noteq> DialogRevert"
      "prompt_submit (hv_prompt v) (creating_kind kind v) = Some (name, message)"
      by (auto simp: submit_prompt_def split: option.splits prod.splits if_splits)
    define n where "n = \<lparr>cn_kind = kind, cn_name = name, cn_message = (if kind = DialogTag then message else []), cn_commit = c\<rparr>"
    have ok: "creation_ok n" "kind \<notin> cn_kind ` set (hv_creating v)"
      using d by (auto simp: n_def creation_ok_def prompt_submit_def prompt_enabled_def creating_kind_def list_ex_iff split: if_splits)
    have "submit_prompt v = v\<lparr>hv_creating := hv_creating v @ [n], hv_sent := hv_sent v @ [creation_call (hv_root v) n]\<rparr>"
      using d by (simp add: submit_prompt_def n_def Let_def)
    with submit.IH ok show ?thesis by (auto simp: creations_ok_def n_def)
  qed (use submit.IH in simp)
next
  case (settled v n a)
  have "list_all creation_ok (remove1 n (hv_creating v))"
    using settled.IH by (auto simp: creations_ok_def list_all_iff dest: notin_set_remove1)
  with settled.IH show ?case
    by (auto simp: creations_ok_def creation_settled_def history_setDialog_def history_notify_def Let_def
        distinct_map_remove1 split: sum.split)
qed (auto simp: creations_ok_def history_step_defs)

section \<open>The selected commit\<close>

definition lookups_answer :: "lookups \<Rightarrow> bool" where
  "lookups_answer ls \<longleftrightarrow> (\<forall>i p c cs. ls i = Some (Inr p) \<longrightarrow> hp_commits p = c # cs \<longrightarrow> cd_id c = i)"

lemma selected_is_wanted:
  assumes "lookups_answer ls" and "history_selected q ls v = Some c"
  shows "if truthy (hv_selectedId v) then hv_selectedId v = Some (cd_id c) else nth_opt (history_shown q v) 0 = Some c"
proof (cases "hv_selectedId v")
  case None
  with assms(2) show ?thesis by (simp add: history_selected_def history_listed_def looked_up_def)
next
  case (Some i)
  show ?thesis
  proof (cases "history_listed q v")
    case (Some d)
    then have "c = d" using assms(2) by (simp add: history_selected_def)
    with Some \<open>hv_selectedId v = Some i\<close> show ?thesis
      by (auto simp: history_listed_def find_Some_iff coalesce_def split: if_splits)
  next
    case None
    with assms \<open>hv_selectedId v = Some i\<close> show ?thesis
      by (auto simp: history_selected_def looked_up_def coalesce_def nth_opt_def lookups_answer_def neq_Nil_conv
          split: option.splits sum.splits if_splits)
  qed
qed

lemma enumerate_map_snd: "map (\<lambda>(i, c). f c) (enumerate n xs) = map f xs"
  by (induction xs arbitrary: n) auto

lemma filter_id: "distinct (map key xs) \<Longrightarrow> map key (filter (\<lambda>x. key x = k) xs) = (if k \<in> key ` set xs then [k] else [])"
  by (induction xs) (auto simp: filter_empty_conv image_iff)

lemma selected_rows:
  "map ci_id (filter ci_selected (history_rows ago q ls tags v)) =
     map cd_id (filter (\<lambda>c. Some (cd_id c) = map_option cd_id (history_selected q ls v)) (history_shown q v))"
proof -
  have "map ci_id (filter ci_selected (map (\<lambda>(i, c). CommitRow ago c (tg c) (lst i) (sel c)) (enumerate n xs))) =
      map cd_id (filter sel xs)" for tg lst sel n and xs :: "Commit list"
    by (induction xs arbitrary: n) (auto simp: CommitRow_def)
  then show ?thesis by (simp add: history_rows_def Let_def)
qed

lemma shown_distinct: "distinct (map cd_id (log_commits q)) \<Longrightarrow> distinct (map cd_id (history_shown q v))"
  by (simp add: history_shown_def filterCommits_filter distinct_map_filter)

section \<open>Properties\<close>

text \<open>
  The search box of the history keeps a commit exactly when every word of the query occurs in
  it, upper or lower case: words after a blank narrow the result further, a commit that contains the
  query as it stands is kept, its own identifier finds it, and no commit is lost for an empty query.
\<close>

theorem history_search_by_words:
  "filterCommits commits query = filter (\<lambda>c. list_all (js_includes (commit_text c)) (query_words query)) commits \<and>
   filterCommits commits (query @ '' '' @ further) = filterCommits (filterCommits commits query) further \<and>
   filter (\<lambda>c. js_includes (commit_text c) (js_toLowerCase query)) (filterCommits commits query) =
     filter (\<lambda>c. js_includes (commit_text c) (js_toLowerCase query)) commits \<and>
   filterCommits [c] (cd_id c) = [c] \<and> filterCommits commits [] = commits"
proof -
  have "list_all (js_includes (commit_text c)) (query_words (cd_id c))"
    by (rule substring_found [OF commit_text_id])
  moreover have "filter (\<lambda>c. js_includes (commit_text c) (js_toLowerCase query)) (filterCommits commits query) =
      filter (\<lambda>c. js_includes (commit_text c) (js_toLowerCase query)) commits"
    unfolding filterCommits_filter filter_filter by (rule filter_cong) (auto intro: substring_found)
  moreover have "filterCommits commits (query @ '' '' @ further) = filterCommits (filterCommits commits query) further"
    unfolding filterCommits_filter query_words_space filter_filter by (rule filter_cong) auto
  moreover have "query_words [] = []" by (simp add: query_words_def js_toLowerCase_def)
  ultimately show ?thesis by (simp add: filterCommits_filter del: append_Cons)
qed

text \<open>
  The age shown for a commit of the past is accurate: a number of minutes below 60, of hours
  below 24 or of days below 30, never zero, which differs from the real age by at most about half a
  unit (30.5 seconds, 30 minutes 30.5 seconds, 12 hours 30 minutes 30.5 seconds); younger commits are
  at most 44.5 seconds old, and a date is shown for those of 29 days and more.
\<close>

theorem commit_age_accurate:
  assumes "js_date date = Some t" and "t \<le> now"
  shows "(timeAgo localDate date now = ''just now'' \<and> now - t \<le> 44500) \<or>
    (\<exists>m. timeAgo localDate date now = js_show_int m @ '' min ago'' \<and> 1 \<le> m \<and> m < 60 \<and> \<bar>now - t - 60000 * m\<bar> \<le> 30500) \<or>
    (\<exists>h. timeAgo localDate date now = js_show_int h @ '' h ago'' \<and> 1 \<le> h \<and> h < 24 \<and> \<bar>now - t - 3600000 * h\<bar> \<le> 1830500) \<or>
    (\<exists>d. timeAgo localDate date now = js_show_int d @ '' day'' @ (if d = 1 then [] else ''s'') @ '' ago'' \<and>
       1 \<le> d \<and> d < 30 \<and> \<bar>now - t - 86400000 * d\<bar> \<le> 45030500) \<or>
    (timeAgo localDate date now = localDate t \<and> now - t \<ge> 29 * 86400000)"
  using assms by (rule timeAgo_cases [where localDate = localDate]) blast+

theorem commit_age_accurate_witness:
  "timeAgo (\<lambda>_. ''1/1/1970'') ''1970-01-01T00:00:00Z'' 5400000 = ''2 h ago'' \<and>
   ((timeAgo (\<lambda>_. ''1/1/1970'') ''1970-01-01T00:00:00Z'' 5400000 = ''just now'' \<and> (5400000 :: int) - 0 \<le> 44500) \<or>
    (\<exists>m. timeAgo (\<lambda>_. ''1/1/1970'') ''1970-01-01T00:00:00Z'' 5400000 = js_show_int m @ '' min ago'' \<and> 1 \<le> m \<and> m < 60 \<and>
       \<bar>5400000 - 0 - 60000 * m\<bar> \<le> 30500) \<or>
    (\<exists>h. timeAgo (\<lambda>_. ''1/1/1970'') ''1970-01-01T00:00:00Z'' 5400000 = js_show_int h @ '' h ago'' \<and> 1 \<le> h \<and> h < 24 \<and>
       \<bar>5400000 - 0 - 3600000 * h\<bar> \<le> 1830500) \<or>
    (\<exists>d. timeAgo (\<lambda>_. ''1/1/1970'') ''1970-01-01T00:00:00Z'' 5400000 =
       js_show_int d @ '' day'' @ (if d = 1 then [] else ''s'') @ '' ago'' \<and>
       1 \<le> d \<and> d < 30 \<and> \<bar>5400000 - 0 - 86400000 * d\<bar> \<le> 45030500) \<or>
    (timeAgo (\<lambda>_. ''1/1/1970'') ''1970-01-01T00:00:00Z'' 5400000 = ''1/1/1970'' \<and> (5400000 :: int) - 0 \<ge> 29 * 86400000))"
proof -
  have "timeAgo (\<lambda>_. ''1/1/1970'') ''1970-01-01T00:00:00Z'' 5400000 = ''2 h ago''" by code_simp
  then show ?thesis
    using commit_age_accurate [OF js_date_epoch, of 5400000 "\<lambda>_. ''1/1/1970''"] by (intro conjI) simp_all
qed

text \<open>
  The details pane follows the selection: for a selected commit it shows this commit, whether
  it is in the loaded part of the history or was looked up, and without a selection the first commit
  that the filter leaves. At most one row is marked, the one of the commit shown, and it is marked
  whenever the filter leaves it. A commit is looked up exactly when the loaded history lacks it.
\<close>

theorem history_shows_selected_commit:
  assumes "distinct (map cd_id (log_commits q))" and "lookups_answer ls"
  shows "(\<forall>c. history_selected q ls v = Some c \<longrightarrow>
      (if truthy (hv_selectedId v) then hv_selectedId v = Some (cd_id c) else nth_opt (history_shown q v) 0 = Some c)) \<and>
    map ci_id (filter ci_selected (history_rows ago q ls tags v)) =
      (case history_selected q ls v of
         None \<Rightarrow> []
       | Some c \<Rightarrow> if cd_id c \<in> cd_id ` set (history_shown q v) then [cd_id c] else []) \<and>
    (lookup_request q v \<noteq> None \<longleftrightarrow>
      truthy (hv_selectedId v) \<and> coalesce (hv_selectedId v) [] \<notin> cd_id ` set (log_commits q))"
proof (intro conjI allI impI)
  show "if truthy (hv_selectedId v) then hv_selectedId v = Some (cd_id c) else nth_opt (history_shown q v) 0 = Some c"
    if "history_selected q ls v = Some c" for c
    using selected_is_wanted [OF assms(2) that] .
next
  show "map ci_id (filter ci_selected (history_rows ago q ls tags v)) =
      (case history_selected q ls v of
         None \<Rightarrow> [] | Some c \<Rightarrow> if cd_id c \<in> cd_id ` set (history_shown q v) then [cd_id c] else [])"
    unfolding selected_rows using filter_id [OF shown_distinct [OF assms(1)]] by (simp split: option.split)
next
  have "find (\<lambda>c. cd_id c = i) cs = None \<longleftrightarrow> i \<notin> cd_id ` set cs" for i and cs :: "Commit list"
    unfolding find_None_iff by auto
  then show "lookup_request q v \<noteq> None \<longleftrightarrow>
      truthy (hv_selectedId v) \<and> coalesce (hv_selectedId v) [] \<notin> cd_id ` set (log_commits q)"
    by (simp add: lookup_request_def history_listed_def del: not_None_eq)
qed

definition sample_commit :: "string \<Rightarrow> string list \<Rightarrow> Commit" where
  "sample_commit i ps = \<lparr>cd_id = i, cd_hash = [], cd_parents = ps, cd_author = ''Ana'', cd_email = [], cd_message = ''Fix'', cd_date = []\<rparr>"

definition sample_log :: LogQuery where
  "sample_log = \<lparr>lq_pages = Some [\<lparr>hp_commits = [sample_commit ''c2'' [''c1''], sample_commit ''c1'' []], hp_next = ''c0''\<rparr>],
     lq_error = None, lq_fetchingNext = False\<rparr>"

definition sample_lookups :: lookups where
  "sample_lookups i = Some (Inr \<lparr>hp_commits = [sample_commit i []], hp_next = []\<rparr>)"

definition sample_history :: HistoryView where
  "sample_history = history_mount ''/w'' ''main'' None False [] None"

theorem history_shows_selected_commit_witness:
  "map_option cd_id (history_selected sample_log sample_lookups (setSelectedId ''c0'' sample_history)) = Some ''c0'' \<and>
   map ci_id (filter ci_selected (history_rows (\<lambda>_. []) sample_log sample_lookups [] sample_history)) = [''c2'']"
proof -
  have log: "distinct (map cd_id (log_commits sample_log))" by code_simp
  have ls: "lookups_answer sample_lookups" by (auto simp: lookups_answer_def sample_lookups_def sample_commit_def)
  have sel: "history_selected sample_log sample_lookups (setSelectedId ''c0'' sample_history) = Some (sample_commit ''c0'' [])" by code_simp
  have first: "history_selected sample_log sample_lookups sample_history = Some (sample_commit ''c2'' [''c1''])" by code_simp
  have shown: "map cd_id (history_shown sample_log sample_history) = [''c2'', ''c1'']" by code_simp
  then have "''c2'' \<in> cd_id ` set (history_shown sample_log sample_history)"
    by (metis list.set_map list.set_intros(1))
  then show ?thesis
    using history_shows_selected_commit [OF log ls, of "setSelectedId ''c0'' sample_history" "\<lambda>_. []" "[]"]
      history_shows_selected_commit [OF log ls, of sample_history "\<lambda>_. []" "[]"] sel first
    by (simp add: setSelectedId_def sample_commit_def)
qed

text \<open>
  Property C31. Whatever the user does in the history, and whenever the answers come: a merge commit is
  never handed to revert, at most one tag and one branch are being created, and every creation that
  was sent has a name that is not blank and names the commit its prompt was opened for.
\<close>

theorem history_dialogs_safe:
  assumes "history_reach r v"
  shows "list_all (\<lambda>c. \<not> is_merge c) (hv_reverted v) \<and> distinct (map cn_kind (hv_creating v)) \<and>
    list_all (\<lambda>n. cn_name n \<noteq> []) (hv_creating v) \<and>
    (\<forall>kind c. hv_dialog v = Some (kind, c) \<longrightarrow>
      hv_creating (submit_prompt v) = hv_creating v \<and> hv_sent (submit_prompt v) = hv_sent v \<or>
      (\<exists>n. hv_creating (submit_prompt v) = hv_creating v @ [n] \<and> hv_sent (submit_prompt v) = hv_sent v @ [creation_call r n] \<and>
         cn_kind n = kind \<and> cn_commit n = c \<and> cn_name n = js_trim (pm_name (hv_prompt v))))"
proof (intro conjI allI impI)
  have inv: "creations_ok r v" "revert_ok v" using assms by (rule creations_inv, rule revert_inv)
  show "list_all (\<lambda>c. \<not> is_merge c) (hv_reverted v)" using inv by (simp add: revert_ok_def list_all_iff)
  show "distinct (map cn_kind (hv_creating v))" using inv by (simp add: creations_ok_def)
  show "list_all (\<lambda>n. cn_name n \<noteq> []) (hv_creating v)" using inv by (simp add: creations_ok_def creation_ok_def list_all_iff)
  show "hv_creating (submit_prompt v) = hv_creating v \<and> hv_sent (submit_prompt v) = hv_sent v \<or>
      (\<exists>n. hv_creating (submit_prompt v) = hv_creating v @ [n] \<and> hv_sent (submit_prompt v) = hv_sent v @ [creation_call r n] \<and>
         cn_kind n = kind \<and> cn_commit n = c \<and> cn_name n = js_trim (pm_name (hv_prompt v)))"
    if "hv_dialog v = Some (kind, c)" for kind c
    using inv(1) that by (auto simp: submit_prompt_def prompt_submit_def creations_ok_def Let_def)
qed

definition sample_tagging :: HistoryView where
  "sample_tagging = submit_prompt (type_prompt '' v1 '' [] (open_dialog DialogTag sample_log sample_lookups sample_history))"

lemma sample_tagging_reach: "history_reach ''/w'' sample_tagging"
  unfolding sample_tagging_def sample_history_def by (intro history_reach.intros)

theorem history_dialogs_safe_witness:
  "map cn_name (hv_creating sample_tagging) = [''v1''] \<and> distinct (map cn_kind (hv_creating sample_tagging)) \<and>
   list_all (\<lambda>c. \<not> is_merge c) (hv_reverted sample_tagging)"
proof -
  have "map cn_name (hv_creating sample_tagging) = [''v1'']" by code_simp
  then show ?thesis using history_dialogs_safe [OF sample_tagging_reach] by simp
qed

text \<open>
  A creation that succeeds closes whatever dialog is open by then: also one that was opened for another
  commit after the prompt of the creation was cancelled, with what was typed into it.
\<close>

lemma late_creation_closes_dialog:
  "\<exists>v n. history_reach ''/w'' v \<and> n \<in> set (hv_creating v) \<and> map_option (cd_id \<circ> snd) (hv_dialog v) = Some ''c1'' \<and>
     cd_id (cn_commit n) = ''c2'' \<and> pm_name (hv_prompt v) = ''v0'' \<and>
     hv_dialog (creation_settled n (Inr (''v1'', ''c2'')) v) = None \<and>
     pm_name (hv_prompt (creation_settled n (Inr (''v1'', ''c2'')) v)) = []"
proof -
  let ?v = "type_prompt ''v0'' [] (open_dialog DialogTag sample_log sample_lookups (setSelectedId ''c1'' (cancel_dialog sample_tagging)))"
  have "history_reach ''/w'' ?v" using sample_tagging_reach by (intro history_reach.intros)
  moreover have "map_option (cd_id \<circ> snd) (hv_dialog ?v) = Some ''c1'' \<and> map (cd_id \<circ> cn_commit) (hv_creating ?v) = [''c2''] \<and>
      pm_name (hv_prompt ?v) = ''v0'' \<and> map cn_kind (hv_creating ?v) = [DialogTag]" by code_simp
  ultimately show ?thesis
    by (intro exI [of _ ?v] exI [of _ "hd (hv_creating ?v)"])
      (auto simp: creation_settled_def history_setDialog_def history_notify_def Let_def prompt_empty_def)
qed

end
