(* ===== verification/Image_View.thy ===== *)
theory Image_View
  imports Images Layers File_Diff
begin

text \<open>
  The image viewer of the desktop client: zooming (\<open>lib/imageCompare.ts\<close>) and \<open>ImageDiff.tsx\<close> with its five ways
  to compare two versions, panning and zooming, the pickers of texture levels and faces, the table of
  details, and the loading of pixels. Zoom factors, offsets and positions of the pointer are exact
  rationals; pixels are those of theory \<open>Images\<close>. Decoding an image and drawing on a canvas are left to the
  browser: loads in flight and their results are inputs.
\<close>

section \<open>Zooming\<close>

definition minZoom :: rat where
  "minZoom = 2 / 100"

definition maxZoom :: rat where
  "maxZoom = 32"

definition clampZoom :: "rat \<Rightarrow> rat" where
  "clampZoom z = min maxZoom (max minZoom z)"

definition maxFitZoom :: rat where
  "maxFitZoom = 8"

definition fitZoom :: "rat \<times> rat \<Rightarrow> int \<times> int \<Rightarrow> rat" where
  "fitZoom box img =
     (if fst img \<le> 0 \<or> snd img \<le> 0 \<or> fst box \<le> 0 \<or> snd box \<le> 0 then 1
      else clampZoom (min maxFitZoom (min ((fst box - 32) / of_int (fst img)) ((snd box - 32) / of_int (snd img)))))"

definition zoomSteps :: "rat list" where
  "zoomSteps = [2 / 100, 5 / 100, 1 / 10, 1 / 4, 1 / 2, 3 / 4, 1, 3 / 2, 2, 3, 4, 6, 8, 12, 16, 24, 32]"

definition zoom_eps :: rat where
  "zoom_eps = 1 / 1000000"

definition stepZoom :: "rat \<Rightarrow> bool \<Rightarrow> rat" where
  "stepZoom zoom up =
     (if up then (case find (\<lambda>s. s > zoom + zoom_eps) zoomSteps of Some s \<Rightarrow> s | None \<Rightarrow> maxZoom)
      else (case find (\<lambda>s. s < zoom - zoom_eps) (rev zoomSteps) of Some s \<Rightarrow> s | None \<Rightarrow> minZoom))"

section \<open>What the service sends\<close>

record ImageInfo =
  ii_width :: int
  ii_height :: int
  ii_format :: string
  ii_bitDepth :: int
  ii_hasAlpha :: bool
  ii_size :: nat
  ii_previewWidth :: int
  ii_previewHeight :: int
  ii_src :: string
  ii_encoding :: string
  ii_levels :: nat
  ii_faces :: nat
  ii_cube :: bool
  ii_level :: nat
  ii_face :: nat
  ii_hdr :: bool
  ii_layers :: "ImageLayer list option"

record ImageStats =
  is_changedPixels :: int
  is_totalPixels :: int
  is_changedRatio :: dbl
  is_maxDelta :: int
  is_boundsX :: int
  is_boundsY :: int
  is_boundsWidth :: int
  is_boundsHeight :: int
  is_sizeChanged :: bool
  is_formatChanged :: bool
  is_bitDepthChanged :: bool
  is_alphaChanged :: bool

record ImageCompare =
  ic_old :: "ImageInfo option"
  ic_new :: "ImageInfo option"
  ic_stats :: "ImageStats option"
  ic_unsupported :: "string option"

section \<open>Asking for a comparison\<close>

text \<open>The level and face the user picked, for the file it was picked in.\<close>

record Picked =
  pk_path :: string
  pk_level :: nat
  pk_face :: nat

definition picked_init :: "FileDiff \<Rightarrow> Picked" where
  "picked_init d = \<lparr>pk_path = fd_path d, pk_level = 0, pk_face = 0\<rparr>"

definition surface_of :: "FileDiff \<Rightarrow> Picked \<Rightarrow> nat \<times> nat" where
  "surface_of d p = (if pk_path p = fd_path d then (pk_level p, pk_face p) else (0, 0))"

definition pick_surface :: "FileDiff \<Rightarrow> nat \<times> nat \<Rightarrow> Picked \<Rightarrow> Picked" where
  "pick_surface d sel p = \<lparr>pk_path = fd_path d, pk_level = fst sel, pk_face = snd sel\<rparr>"

text \<open>The key of the query; the two numbers are appended to the key of the viewer.\<close>

type_synonym query_key = "string list \<times> nat \<times> nat"

definition image_key :: "string \<Rightarrow> FileDiff \<Rightarrow> Picked \<Rightarrow> query_key" where
  "image_key r d p = (viewerKey r d ''image'', surface_of d p)"

text \<open>\<open>sameKey\<close>: the previous key begins with the key of the viewer.\<close>

definition sameKey :: "query_key option \<Rightarrow> string list \<Rightarrow> bool" where
  "sameKey a b = (case a of None \<Rightarrow> False | Some k \<Rightarrow> fst k = b)"

text \<open>While a new level loads, the picture shown before stays, if it is of the same file.\<close>

definition placeholder :: "string \<Rightarrow> FileDiff \<Rightarrow> (query_key \<times> ImageCompare) option \<Rightarrow> ImageCompare option" where
  "placeholder r d prev = (case prev of
     Some (k, c) \<Rightarrow> if sameKey (Some k) (viewerKey r d ''image'') then Some c else None | None \<Rightarrow> None)"

datatype ImagePane = ImageDecoding | ImageMeta string | ImageShown ImageCompare

definition ImageDiff :: "string \<Rightarrow> FileDiff \<Rightarrow> (query_key \<times> ImageCompare) option \<Rightarrow> (string + ImageCompare option) option \<Rightarrow> ImagePane" where
  "ImageDiff r d prev answer =
     (let data = (case answer of None \<Rightarrow> map_option (\<lambda>c. Inr (Some c)) (placeholder r d prev) | Some a \<Rightarrow> Some a) in
      case data of
        None \<Rightarrow> ImageDecoding
      | Some (Inl err) \<Rightarrow> ImageMeta (''The preview failed: '' @ err)
      | Some (Inr None) \<Rightarrow> ImageMeta ''There is no preview for this image.''
      | Some (Inr (Some c)) \<Rightarrow>
          if truthy (ic_unsupported c) then ImageMeta (coalesce (ic_unsupported c) [])
          else if ic_old c = None \<and> ic_new c = None then ImageMeta ''There is no preview for this image.''
          else ImageShown c)"

section \<open>Loading pixels\<close>

text \<open>
  \<open>usePixels\<close>: the source, the pixels it shows, and the loads in flight; only the load of the last effect is
  live.
\<close>

record PixelsHook =
  ph_src :: "string option"
  ph_pixels :: "Pixels option"
  ph_live :: "nat option"
  ph_loads :: "(nat \<times> string) list"
  ph_next :: nat

definition pixels_effect :: "string option \<Rightarrow> PixelsHook \<Rightarrow> PixelsHook" where
  "pixels_effect src h =
     (if truthy src then
        h\<lparr>ph_src := src, ph_pixels := None, ph_live := Some (ph_next h),
          ph_loads := ph_loads h @ [(ph_next h, coalesce src [])], ph_next := Suc (ph_next h)\<rparr>
      else h\<lparr>ph_src := src, ph_pixels := None, ph_live := None\<rparr>)"

definition pixels_mount :: "string option \<Rightarrow> PixelsHook" where
  "pixels_mount src = pixels_effect src
     \<lparr>ph_src = None, ph_pixels = None, ph_live = None, ph_loads = [], ph_next = 0\<rparr>"

text \<open>A rendering with a source; the effect runs when it changed.\<close>

definition pixels_render :: "string option \<Rightarrow> PixelsHook \<Rightarrow> PixelsHook" where
  "pixels_render src h = (if src = ph_src h then h else pixels_effect src h)"

definition pixels_loaded :: "nat \<times> string \<Rightarrow> Pixels option \<Rightarrow> PixelsHook \<Rightarrow> PixelsHook" where
  "pixels_loaded l p h =
     (let g = h\<lparr>ph_loads := filter (\<lambda>x. fst x \<noteq> fst l) (ph_loads h)\<rparr>
      in if ph_live h = Some (fst l) then g\<lparr>ph_pixels := p\<rparr> else g)"

text \<open>\<open>useDisplayPixels\<close>: \<open>develop\<close> unpacks and tone-maps the packed pixels of a float image.\<close>

definition useDisplayPixels :: "(Pixels \<Rightarrow> Pixels) \<Rightarrow> ImageInfo option \<Rightarrow> PixelsHook \<Rightarrow> Pixels option" where
  "useDisplayPixels develop info h =
     (if coalesce (map_option ii_hdr info) False then map_option develop (ph_pixels h) else ph_pixels h)"

section \<open>The comparison\<close>

datatype CompareMode = Side | Swipe | Onion | Difference | Blink

definition mode_id :: "CompareMode \<Rightarrow> string" where
  "mode_id m = (case m of Side \<Rightarrow> ''side'' | Swipe \<Rightarrow> ''swipe'' | Onion \<Rightarrow> ''onion''
     | Difference \<Rightarrow> ''difference'' | Blink \<Rightarrow> ''blink'')"

definition modes :: "CompareMode list" where
  "modes = [Side, Swipe, Onion, Difference, Blink]"

definition readMode :: "string option \<Rightarrow> CompareMode" where
  "readMode stored = (case find (\<lambda>m. Some (mode_id m) = stored) modes of Some m \<Rightarrow> m | None \<Rightarrow> Side)"

record ImageView =
  iv_storedMode :: CompareMode
  iv_setting :: "string option"
  iv_channels :: Channels
  iv_zoom :: "rat option"
  iv_offset :: "rat \<times> rat"
  iv_swipe :: int
  iv_opacity :: int
  iv_tolerance :: int
  iv_blinkNew :: bool
  iv_drag :: "(rat \<times> rat) option"

definition image_mount :: "string option \<Rightarrow> ImageView" where
  "image_mount setting =
     \<lparr>iv_storedMode = readMode setting, iv_setting = setting, iv_channels = allChannels, iv_zoom = None,
      iv_offset = (0, 0), iv_swipe = 50, iv_opacity = 50, iv_tolerance = 0, iv_blinkNew = True, iv_drag = None\<rparr>"

definition image_mode :: "ImageCompare \<Rightarrow> ImageView \<Rightarrow> CompareMode option" where
  "image_mode c v = (if ic_old c \<noteq> None \<and> ic_new c \<noteq> None then Some (iv_storedMode v) else None)"

definition image_size :: "ImageCompare \<Rightarrow> int \<times> int" where
  "image_size c =
     (max (coalesce (map_option ii_width (ic_old c)) 0) (coalesce (map_option ii_width (ic_new c)) 0),
      max (coalesce (map_option ii_height (ic_old c)) 0) (coalesce (map_option ii_height (ic_new c)) 0))"

definition paneBox :: "ImageCompare \<Rightarrow> rat \<times> rat \<Rightarrow> ImageView \<Rightarrow> rat \<times> rat" where
  "paneBox c box v = (if image_mode c v = Some Side then (fst box / 2, snd box) else box)"

definition image_scale :: "ImageCompare \<Rightarrow> rat \<times> rat \<Rightarrow> ImageView \<Rightarrow> rat" where
  "image_scale c box v = coalesce (iv_zoom v) (fitZoom (paneBox c box v) (image_size c))"

definition chooseMode :: "CompareMode \<Rightarrow> ImageView \<Rightarrow> ImageView" where
  "chooseMode m v = v\<lparr>iv_storedMode := m, iv_setting := Some (mode_id m)\<rparr>"

definition zoomTo :: "ImageCompare \<Rightarrow> rat \<times> rat \<Rightarrow> rat \<Rightarrow> ImageView \<Rightarrow> ImageView" where
  "zoomTo c box z v =
     (let target = clampZoom z; scale = image_scale c box v
      in v\<lparr>iv_offset := (fst (iv_offset v) * target / scale, snd (iv_offset v) * target / scale), iv_zoom := Some target\<rparr>)"

definition zoom_in :: "ImageCompare \<Rightarrow> rat \<times> rat \<Rightarrow> ImageView \<Rightarrow> ImageView" where
  "zoom_in c box v = zoomTo c box (stepZoom (image_scale c box v) True) v"

definition zoom_out :: "ImageCompare \<Rightarrow> rat \<times> rat \<Rightarrow> ImageView \<Rightarrow> ImageView" where
  "zoom_out c box v = zoomTo c box (stepZoom (image_scale c box v) False) v"

definition fit_image :: "ImageView \<Rightarrow> ImageView" where
  "fit_image v = v\<lparr>iv_zoom := None, iv_offset := (0, 0)\<rparr>"

definition pan_down :: "rat \<times> rat \<Rightarrow> ImageView \<Rightarrow> ImageView" where
  "pan_down p v = v\<lparr>iv_drag := Some (fst p - fst (iv_offset v), snd p - snd (iv_offset v))\<rparr>"

definition pan_move :: "rat \<times> rat \<Rightarrow> ImageView \<Rightarrow> ImageView" where
  "pan_move p v = (case iv_drag v of
     Some d \<Rightarrow> v\<lparr>iv_offset := (fst p - fst d, snd p - snd d)\<rparr> | None \<Rightarrow> v)"

definition pan_up :: "ImageView \<Rightarrow> ImageView" where
  "pan_up v = v\<lparr>iv_drag := None\<rparr>"

definition wheel :: "ImageCompare \<Rightarrow> rat \<times> rat \<Rightarrow> int \<Rightarrow> ImageView \<Rightarrow> ImageView" where
  "wheel c box deltaY v =
     zoomTo c box (image_scale c box v * (if deltaY < 0 then 115 / 100 else 1 / (115 / 100))) v"

definition toggle_channel :: "nat \<Rightarrow> ImageView \<Rightarrow> ImageView" where
  "toggle_channel k v = v\<lparr>iv_channels := (let ch = iv_channels v in
     if k = 0 then ch\<lparr>ch_r := \<not> ch_r ch\<rparr> else if k = 1 then ch\<lparr>ch_g := \<not> ch_g ch\<rparr>
     else if k = 2 then ch\<lparr>ch_b := \<not> ch_b ch\<rparr> else ch\<lparr>ch_a := \<not> ch_a ch\<rparr>)\<rparr>"

definition setSwipe :: "int \<Rightarrow> ImageView \<Rightarrow> ImageView" where
  "setSwipe n v = v\<lparr>iv_swipe := n\<rparr>"

definition setOpacity :: "int \<Rightarrow> ImageView \<Rightarrow> ImageView" where
  "setOpacity n v = v\<lparr>iv_opacity := n\<rparr>"

definition setTolerance :: "int \<Rightarrow> ImageView \<Rightarrow> ImageView" where
  "setTolerance n v = v\<lparr>iv_tolerance := n\<rparr>"

text \<open>The interval of the blink mode ticks only in it.\<close>

definition blink_tick :: "ImageCompare \<Rightarrow> ImageView \<Rightarrow> ImageView" where
  "blink_tick c v = (if image_mode c v = Some Blink then v\<lparr>iv_blinkNew := \<not> iv_blinkNew v\<rparr> else v)"

subsection \<open>The stage\<close>

record ImageBox =
  ib_label :: string
  ib_size :: "rat \<times> rat"
  ib_pixelated :: bool
  ib_pixels :: "Pixels option"

definition image_layer :: "ImageInfo \<Rightarrow> Pixels option \<Rightarrow> rat \<Rightarrow> string \<Rightarrow> ImageBox" where
  "image_layer info pixels scale label =
     \<lparr>ib_label = label, ib_size = (of_int (ii_width info) * scale, of_int (ii_height info) * scale),
      ib_pixelated = (ii_previewWidth info > 0 \<and> of_int (ii_width info) * scale / of_int (ii_previewWidth info) > 3 / 2),
      ib_pixels = pixels\<rparr>"

text \<open>The rectangle around the changed pixels, in percent of the picture.\<close>

definition Bounds :: "ImageStats \<Rightarrow> int \<times> int \<Rightarrow> rat \<times> rat \<times> rat \<times> rat" where
  "Bounds s dims =
     (let pct = (\<lambda>v n. of_int v / of_int n * 100)
      in (pct (is_boundsX s) (fst dims), pct (is_boundsY s) (snd dims), pct (is_boundsWidth s) (fst dims), pct (is_boundsHeight s) (snd dims)))"

datatype Stage =
    StageSide ImageBox ImageBox
  | StageSwipe ImageBox ImageBox int
  | StageOnion ImageBox ImageBox rat
  | StageDifference "Heatmap option" "(rat \<times> rat \<times> rat \<times> rat) option"
  | StageBlink string ImageBox
  | StageSingle string ImageBox

definition channel_view :: "Pixels option \<Rightarrow> ImageView \<Rightarrow> Pixels option" where
  "channel_view pixels v = map_option (\<lambda>p. isolateChannels p (iv_channels v)) pixels"

definition image_heat :: "ImageCompare \<Rightarrow> Pixels option \<Rightarrow> Pixels option \<Rightarrow> ImageView \<Rightarrow> Heatmap option" where
  "image_heat c old new v = (case (image_mode c v, channel_view old v, channel_view new v) of
     (Some Difference, Some a, Some b) \<Rightarrow> Some (heatmap a b (iv_tolerance v)) | _ \<Rightarrow> None)"

definition image_stage ::
  "ImageCompare \<Rightarrow> rat \<times> rat \<Rightarrow> Pixels option \<Rightarrow> Pixels option \<Rightarrow> ImageView \<Rightarrow> Stage option" where
  "image_stage c box old new v =
     (let scale = image_scale c box v;
          before = (\<lambda>i. image_layer i (channel_view old v) scale ''Before'');
          after = (\<lambda>i. image_layer i (channel_view new v) scale ''After'')
      in case (ic_old c, ic_new c) of
        (Some a, Some b) \<Rightarrow> Some (case iv_storedMode v of
           Side \<Rightarrow> StageSide (before a) (after b)
         | Swipe \<Rightarrow> StageSwipe (before a) (after b) (iv_swipe v)
         | Onion \<Rightarrow> StageOnion (before a) (after b) (of_int (iv_opacity v) / 100)
         | Difference \<Rightarrow> StageDifference (image_heat c old new v)
             (case ic_stats c of
                Some s \<Rightarrow> if \<not> is_sizeChanged s \<and> is_boundsWidth s > 0 then Some (Bounds s (image_size c)) else None
              | None \<Rightarrow> None)
         | Blink \<Rightarrow> if iv_blinkNew v then StageBlink ''After'' (after b) else StageBlink ''Before'' (before a))
      | (None, Some b) \<Rightarrow> Some (StageSingle ''Added'' (after b))
      | (Some a, None) \<Rightarrow> Some (StageSingle ''Deleted'' (before a))
      | (None, None) \<Rightarrow> None)"

subsection \<open>Levels and faces\<close>

text \<open>\<open>a << n\<close> and \<open>a >> n\<close> on 32-bit integers.\<close>

definition to_int32 :: "int \<Rightarrow> int" where
  "to_int32 a = (a + 2 ^ 31) mod 2 ^ 32 - 2 ^ 31"

definition js_shl :: "int \<Rightarrow> nat \<Rightarrow> int" where
  "js_shl a n = to_int32 (to_int32 a * 2 ^ (n mod 32))"

definition js_shr :: "int \<Rightarrow> nat \<Rightarrow> int" where
  "js_shr a n = to_int32 a div 2 ^ (n mod 32)"

definition times_sign :: string where
  "times_sign = [CHR 0xC3, CHR 0x97]"

definition base_size :: "ImageCompare \<Rightarrow> int \<times> int" where
  "base_size c =
     (let part = (\<lambda>f i. case i of Some x \<Rightarrow> js_shl (f x) (ii_level x) | None \<Rightarrow> 0)
      in (max (part ii_width (ic_old c)) (part ii_width (ic_new c)), max (part ii_height (ic_old c)) (part ii_height (ic_new c))))"

definition level_options :: "ImageCompare \<Rightarrow> (nat \<times> string) list" where
  "level_options c =
     (let levels = max (coalesce (map_option ii_levels (ic_old c)) 1) (coalesce (map_option ii_levels (ic_new c)) 1)
      in if levels > 1 then
           map (\<lambda>l. (l, ''Mip '' @ js_show_nat l @ '' '' @ [CHR 0xC2, CHR 0xB7] @ '' '' @
             js_show_int (max 1 (js_shr (fst (base_size c)) l)) @ times_sign @ js_show_int (max 1 (js_shr (snd (base_size c)) l)))) [0..<levels]
         else [])"

definition faceNames :: "string list" where
  "faceNames = [''+X'', minus_sign @ ''X'', ''+Y'', minus_sign @ ''Y'', ''+Z'', minus_sign @ ''Z'']"

definition faceLabel :: "nat \<Rightarrow> bool \<Rightarrow> string" where
  "faceLabel face cube =
     (if \<not> cube then ''Layer '' @ js_show_nat face
      else (let name = faceNames ! (face mod 6)
            in if face \<ge> 6 then ''Layer '' @ js_show_nat (face div 6) @ '' '' @ name else name))"

definition face_options :: "ImageCompare \<Rightarrow> (nat \<times> string) list" where
  "face_options c =
     (let faces = max (coalesce (map_option ii_faces (ic_old c)) 1) (coalesce (map_option ii_faces (ic_new c)) 1);
          cube = (coalesce (map_option ii_cube (ic_old c)) False \<or> coalesce (map_option ii_cube (ic_new c)) False)
      in if faces > 1 then map (\<lambda>f. (f, faceLabel f cube)) [0..<faces] else [])"

subsection \<open>The table of details\<close>

definition no_value :: string where
  "no_value = [CHR 0xE2, CHR 0x80, CHR 0x94]"

definition meta_rows :: "(string \<times> (ImageInfo \<Rightarrow> string) \<times> (ImageInfo \<Rightarrow> bool) option) list" where
  "meta_rows = [
     (''Dimensions'', \<lambda>i. js_show_int (ii_width i) @ '' '' @ times_sign @ '' '' @ js_show_int (ii_height i), None),
     (''Format'', \<lambda>i. map js_upper_char (ii_format i), None),
     (''Encoding'', \<lambda>i. if ii_encoding i \<noteq> [] then ii_encoding i else no_value, Some (\<lambda>i. ii_encoding i \<noteq> [])),
     (''Mip levels'', \<lambda>i. js_show_nat (ii_levels i), Some (\<lambda>i. ii_levels i > 1)),
     (''Faces'', \<lambda>i. js_show_nat (ii_faces i), Some (\<lambda>i. ii_faces i > 1)),
     (''Bit depth'', \<lambda>i. if ii_bitDepth i \<noteq> 0 then js_show_int (ii_bitDepth i) @ ''-bit'' else no_value, None),
     (''Alpha'', \<lambda>i. if ii_hasAlpha i then ''Yes'' else ''No'', None),
     (''File size'', \<lambda>i. formatBytes (ii_size i), None)]"

record MetaLine =
  ml_label :: string
  ml_before :: string
  ml_after :: string
  ml_changed :: bool

definition MetaTable :: "ImageInfo option \<Rightarrow> ImageInfo option \<Rightarrow> MetaLine list" where
  "MetaTable old new =
     map (\<lambda>(label, val, shown).
         (let a = coalesce (map_option val old) no_value; b = coalesce (map_option val new) no_value
          in \<lparr>ml_label = label, ml_before = a, ml_after = b, ml_changed = (old \<noteq> None \<and> new \<noteq> None \<and> a \<noteq> b)\<rparr>))
       (filter (\<lambda>(label, val, shown). case shown of
             None \<Rightarrow> True
           | Some f \<Rightarrow> coalesce (map_option f old) False \<or> coalesce (map_option f new) False) meta_rows)"

text \<open>The list of layers: its heading, and per layer the letter, name and changes.\<close>

definition layer_letter :: "LayerStatus \<Rightarrow> string \<times> string" where
  "layer_letter s = (case s of LAdded \<Rightarrow> (''A'', ''Added'') | LRemoved \<Rightarrow> (''D'', ''Removed'')
     | LChanged \<Rightarrow> (''M'', ''Changed'') | LUnchanged \<Rightarrow> ([], ''Unchanged''))"

definition LayerList :: "ImageLayer list \<Rightarrow> ImageLayer list \<Rightarrow> string \<times> (string \<times> string \<times> string) list" where
  "LayerList old new =
     (let rows = diffLayers old new; changed = length (filter (\<lambda>r. lr_status r \<noteq> LUnchanged) rows)
      in (''Layers '' @ [CHR 0xC2, CHR 0xB7] @ '' '' @ (if changed = 0 then ''no layer changes'' else js_show_nat changed @ '' changed''),
          map (\<lambda>r. (fst (layer_letter (lr_status r)), il_name (lr_layer r), js_join '', '' (lr_changes r))) rows))"

section \<open>Zooming: laws\<close>

lemma clampZoom_bounds: "minZoom \<le> clampZoom z" "clampZoom z \<le> maxZoom"
  by (simp_all add: clampZoom_def minZoom_def maxZoom_def)

lemma clampZoom_id: "minZoom \<le> z \<Longrightarrow> z \<le> maxZoom \<Longrightarrow> clampZoom z = z"
  by (simp add: clampZoom_def)

lemma fitZoom_bounds: "minZoom \<le> fitZoom box img" "fitZoom box img \<le> maxZoom"
  using clampZoom_bounds by (simp_all add: fitZoom_def minZoom_def maxZoom_def)

lemma zoomSteps_range: "s \<in> set zoomSteps \<Longrightarrow> minZoom \<le> s \<and> s \<le> maxZoom"
  by (auto simp: zoomSteps_def minZoom_def maxZoom_def)

lemma stepZoom_in_steps: "stepZoom z up \<in> set zoomSteps"
proof -
  have "maxZoom \<in> set zoomSteps" "minZoom \<in> set zoomSteps"
    by (simp_all add: zoomSteps_def minZoom_def maxZoom_def)
  moreover have "find P zoomSteps = Some s \<Longrightarrow> s \<in> set zoomSteps" "find P (rev zoomSteps) = Some s \<Longrightarrow> s \<in> set zoomSteps" for P s
    by (auto simp: find_Some_iff) (metis nth_mem length_rev set_rev)
  ultimately show ?thesis by (auto simp: stepZoom_def split: option.split)
qed

lemma stepZoom_next:
  "i < 17 \<Longrightarrow> stepZoom (zoomSteps ! i) True = zoomSteps ! min (i + 1) 16"
  "i < 17 \<Longrightarrow> stepZoom (zoomSteps ! i) False = zoomSteps ! (i - 1)"
proof -
  have "list_all (\<lambda>i. stepZoom (zoomSteps ! i) True = zoomSteps ! min (i + 1) 16 \<and> stepZoom (zoomSteps ! i) False = zoomSteps ! (i - 1)) [0..<17]"
    by code_simp
  then show "i < 17 \<Longrightarrow> stepZoom (zoomSteps ! i) True = zoomSteps ! min (i + 1) 16"
    "i < 17 \<Longrightarrow> stepZoom (zoomSteps ! i) False = zoomSteps ! (i - 1)"
    unfolding list_all_iff by auto
qed

lemma image_scale_zoomTo: "image_scale c box (zoomTo c box z v) = clampZoom z"
  by (simp add: image_scale_def zoomTo_def Let_def coalesce_def)

lemma zoom_step_scale:
  "image_scale c box (zoom_in c box v) = stepZoom (image_scale c box v) True"
  "image_scale c box (zoom_out c box v) = stepZoom (image_scale c box v) False"
  using stepZoom_in_steps [of "image_scale c box v"] zoomSteps_range
  by (auto simp: zoom_in_def zoom_out_def image_scale_zoomTo clampZoom_id)

lemma zoom_index:
  "i < 17 \<Longrightarrow> image_scale c box v = zoomSteps ! i \<Longrightarrow> image_scale c box ((zoom_in c box ^^ n) v) = zoomSteps ! min (i + n) 16"
  "i < 17 \<Longrightarrow> image_scale c box v = zoomSteps ! i \<Longrightarrow> image_scale c box ((zoom_out c box ^^ n) v) = zoomSteps ! (i - n)"
  by (induction n) (simp_all add: zoom_step_scale stepZoom_next)

lemma first_click_lands: "\<exists>i < 17. stepZoom z up = zoomSteps ! i"
proof -
  have "length zoomSteps = 17" by (simp add: zoomSteps_def)
  then show ?thesis using stepZoom_in_steps [of z up] by (metis in_set_conv_nth)
qed

section \<open>Reachable states\<close>

inductive image_reach :: "string option \<Rightarrow> ImageView \<Rightarrow> bool" for setting where
  mount: "image_reach setting (image_mount setting)"
| mode: "image_reach setting v \<Longrightarrow> image_reach setting (chooseMode m v)"
| zoom: "image_reach setting v \<Longrightarrow> image_reach setting (zoomTo c box z v)"
| fit: "image_reach setting v \<Longrightarrow> image_reach setting (fit_image v)"
| down: "image_reach setting v \<Longrightarrow> image_reach setting (pan_down p v)"
| move: "image_reach setting v \<Longrightarrow> image_reach setting (pan_move p v)"
| up: "image_reach setting v \<Longrightarrow> image_reach setting (pan_up v)"
| channel: "image_reach setting v \<Longrightarrow> image_reach setting (toggle_channel k v)"
| swipe: "image_reach setting v \<Longrightarrow> image_reach setting (setSwipe n v)"
| opacity: "image_reach setting v \<Longrightarrow> image_reach setting (setOpacity n v)"
| tolerance: "image_reach setting v \<Longrightarrow> image_reach setting (setTolerance n v)"
| tick: "image_reach setting v \<Longrightarrow> image_reach setting (blink_tick c v)"

definition image_inv :: "ImageView \<Rightarrow> bool" where
  "image_inv v \<longleftrightarrow> (\<forall>z. iv_zoom v = Some z \<longrightarrow> minZoom \<le> z \<and> z \<le> maxZoom) \<and> iv_storedMode v = readMode (iv_setting v)"

lemma readMode_id: "readMode (Some (mode_id m)) = m"
  by (cases m) (simp_all add: readMode_def modes_def mode_id_def)

lemma image_reach_inv: "image_reach setting v \<Longrightarrow> image_inv v"
proof (induction rule: image_reach.induct)
  case (move v p)
  then show ?case by (simp add: image_inv_def pan_move_def split: option.split)
qed (simp_all add: image_inv_def image_mount_def chooseMode_def readMode_id zoomTo_def Let_def clampZoom_bounds fit_image_def
    pan_down_def pan_up_def toggle_channel_def setSwipe_def setOpacity_def setTolerance_def blink_tick_def)

lemma image_scale_bounds: "image_inv v \<Longrightarrow> minZoom \<le> image_scale c box v \<and> image_scale c box v \<le> maxZoom"
  by (cases "iv_zoom v") (simp_all add: image_inv_def image_scale_def coalesce_def fitZoom_bounds)

text \<open>The hook that loads pixels; \<open>decode\<close> is what the browser makes of a source.\<close>

inductive pixels_reach :: "(string \<Rightarrow> Pixels) \<Rightarrow> PixelsHook \<Rightarrow> bool" for decode where
  mount: "pixels_reach decode (pixels_mount src)"
| render: "pixels_reach decode h \<Longrightarrow> pixels_reach decode (pixels_render src h)"
| loaded: "pixels_reach decode h \<Longrightarrow> l \<in> set (ph_loads h) \<Longrightarrow> pixels_reach decode (pixels_loaded l (Some (decode (snd l))) h)"
| failed: "pixels_reach decode h \<Longrightarrow> l \<in> set (ph_loads h) \<Longrightarrow> pixels_reach decode (pixels_loaded l None h)"

definition pixels_inv :: "(string \<Rightarrow> Pixels) \<Rightarrow> PixelsHook \<Rightarrow> bool" where
  "pixels_inv decode h \<longleftrightarrow>
     (\<forall>p. ph_pixels h = Some p \<longrightarrow> (\<exists>s. ph_src h = Some s \<and> p = decode s)) \<and>
     (\<forall>l \<in> set (ph_loads h). fst l < ph_next h \<and> (ph_live h = Some (fst l) \<longrightarrow> ph_src h = Some (snd l)))"

lemma pixels_effect_inv: "pixels_inv decode h \<Longrightarrow> pixels_inv decode (pixels_effect src h)"
  by (cases src) (auto simp: pixels_inv_def pixels_effect_def coalesce_def)

lemma pixels_loaded_inv:
  assumes "pixels_inv decode h" "l \<in> set (ph_loads h)" "\<forall>q. p = Some q \<longrightarrow> q = decode (snd l)"
  shows "pixels_inv decode (pixels_loaded l p h)"
  using assms by (auto simp: pixels_inv_def pixels_loaded_def Let_def)

lemma pixels_reach_inv: "pixels_reach decode h \<Longrightarrow> pixels_inv decode h"
proof (induction rule: pixels_reach.induct)
  case (mount src)
  have "pixels_inv decode \<lparr>ph_src = None, ph_pixels = None, ph_live = None, ph_loads = [], ph_next = 0\<rparr>"
    by (simp add: pixels_inv_def)
  then show ?case unfolding pixels_mount_def by (rule pixels_effect_inv)
qed (simp_all add: pixels_render_def pixels_effect_inv pixels_loaded_inv)

section \<open>Properties\<close>

text \<open>
  Zooming keeps the picture in sight: the scale is always between 2% and 3200%, and every zoom
  scales the offset with it, so that the point of the picture in the middle of the pane stays there. The
  mode shown is the one that is remembered.
\<close>

theorem zoom_keeps_centre:
  assumes "image_reach setting v"
  shows "minZoom \<le> image_scale c box v \<and> image_scale c box v \<le> maxZoom \<and>
    fst (iv_offset (zoomTo c box z v)) / image_scale c box (zoomTo c box z v) = fst (iv_offset v) / image_scale c box v \<and>
    snd (iv_offset (zoomTo c box z v)) / image_scale c box (zoomTo c box z v) = snd (iv_offset v) / image_scale c box v \<and>
    iv_storedMode v = readMode (iv_setting v)"
proof -
  have inv: "image_inv v" using assms by (rule image_reach_inv)
  have "clampZoom z \<noteq> 0" using clampZoom_bounds(1) [of z] by (simp add: minZoom_def)
  then show ?thesis
    using image_scale_bounds [OF inv, of c box] inv unfolding image_scale_zoomTo
    by (simp add: zoomTo_def Let_def image_inv_def)
qed

definition sample_image :: ImageInfo where
  "sample_image = \<lparr>ii_width = 100, ii_height = 50, ii_format = ''png'', ii_bitDepth = 8, ii_hasAlpha = True, ii_size = 10,
     ii_previewWidth = 100, ii_previewHeight = 50, ii_src = ''s'', ii_encoding = [], ii_levels = 1, ii_faces = 1, ii_cube = False,
     ii_level = 0, ii_face = 0, ii_hdr = False, ii_layers = None\<rparr>"

definition sample_compare :: ImageCompare where
  "sample_compare = \<lparr>ic_old = Some sample_image, ic_new = Some sample_image, ic_stats = None, ic_unsupported = None\<rparr>"

theorem zoom_keeps_centre_witness:
  "iv_offset (zoomTo sample_compare (400, 300) 4 (pan_move (40, 20) (pan_down (0, 0) (image_mount None)))) = (40 * 4 / (168 / 100), 20 * 4 / (168 / 100)) \<and>
   fst (iv_offset (zoomTo sample_compare (400, 300) 4 (pan_move (40, 20) (pan_down (0, 0) (image_mount None))))) / 4 = 40 / (168 / 100)"
proof -
  let ?v = "pan_move (40, 20) (pan_down (0, 0) (image_mount None))"
  have "image_reach None ?v" by (intro image_reach.intros)
  moreover have "image_scale sample_compare (400, 300) ?v = 168 / 100" by code_simp
  moreover have "image_scale sample_compare (400, 300) (zoomTo sample_compare (400, 300) 4 ?v) = 4" by code_simp
  moreover have "iv_offset (zoomTo sample_compare (400, 300) 4 ?v) = (40 * 4 / (168 / 100), 20 * 4 / (168 / 100))" by code_simp
  moreover have "fst (iv_offset ?v) = 40" by code_simp
  ultimately show ?thesis
    using zoom_keeps_centre [of None ?v sample_compare "(400, 300)" 4] by simp
qed

text \<open>
  The zoom buttons always lead to the ends: from any zoom, seventeen clicks reach the largest or
  the smallest one and stay there; no step is a dead end.
\<close>

theorem zoom_buttons_reach_ends:
  "image_scale c box ((zoom_in c box ^^ (17 + n)) v) = maxZoom \<and> image_scale c box ((zoom_out c box ^^ (17 + n)) v) = minZoom"
proof -
  have clicks: "17 + n = Suc (16 + n)" by simp
  have split: "(f ^^ (17 + n)) v = (f ^^ (16 + n)) (f v)" for f :: "ImageView \<Rightarrow> ImageView"
    unfolding clicks funpow_Suc_right comp_apply by (rule refl)
  obtain i j where "i < 17" "image_scale c box (zoom_in c box v) = zoomSteps ! i"
    "j < 17" "image_scale c box (zoom_out c box v) = zoomSteps ! j"
    unfolding zoom_step_scale using first_click_lands by metis
  then show ?thesis
    unfolding split by (simp add: zoom_index) (simp add: zoomSteps_def maxZoom_def minZoom_def)
qed

text \<open>
  Fitting shows the whole picture as large as possible: where the smallest zoom fits at all, the
  picture lies within the box with its margin of 32 pixels, and no zoom up to 800% that fits is larger.
\<close>

theorem fit_zoom_is_largest:
  assumes "0 < w" "0 < h" "0 < fst box" "0 < snd box"
    and "minZoom * of_int w \<le> fst box - 32" "minZoom * of_int h \<le> snd box - 32"
  shows "fitZoom box (w, h) * of_int w \<le> fst box - 32 \<and> fitZoom box (w, h) * of_int h \<le> snd box - 32 \<and> fitZoom box (w, h) \<le> maxFitZoom \<and>
    (\<forall>z \<le> maxFitZoom. z * of_int w \<le> fst box - 32 \<longrightarrow> z * of_int h \<le> snd box - 32 \<longrightarrow> z \<le> fitZoom box (w, h))"
proof -
  let ?a = "(fst box - 32) / of_int w" and ?b = "(snd box - 32) / of_int h"
  have fits: "z * of_int w \<le> fst box - 32 \<longleftrightarrow> z \<le> ?a" "z * of_int h \<le> snd box - 32 \<longleftrightarrow> z \<le> ?b" for z
    using assms(1,2) by (simp_all add: pos_le_divide_eq)
  have "minZoom \<le> min maxFitZoom (min ?a ?b)"
    using assms(5,6) unfolding fits by (simp add: minZoom_def maxFitZoom_def)
  moreover have "min maxFitZoom (min ?a ?b) \<le> maxZoom" by (simp add: maxFitZoom_def maxZoom_def min_le_iff_disj)
  ultimately have "fitZoom box (w, h) = min maxFitZoom (min ?a ?b)"
    using assms(1-4) by (simp add: fitZoom_def clampZoom_id)
  then show ?thesis unfolding fits by auto
qed

theorem fit_zoom_is_largest_witness:
  "fitZoom (232, 132) (100, 100) = 1 \<and> fitZoom (232, 132) (100, 100) * of_int 100 \<le> (132 :: rat) - 32"
proof -
  have "fitZoom (232, 132) (100, 100) = 1" by code_simp
  then show ?thesis using fit_zoom_is_largest [of 100 100 "(232, 132)"] by (simp add: minZoom_def)
qed

text \<open>
  Property C21. The pixels of an image are never those of another version: whenever pixels are shown they are
  those of the source that is shown, in whatever order earlier loads come back.
\<close>

theorem pixels_match_source:
  assumes "pixels_reach decode h"
  shows "ph_pixels h = None \<or> (\<exists>s. ph_src h = Some s \<and> ph_pixels h = Some (decode s))"
  using pixels_reach_inv [OF assms] by (cases "ph_pixels h") (auto simp: pixels_inv_def)

theorem pixels_match_source_witness:
  "ph_pixels (pixels_loaded (0, ''a'') (Some \<lparr>px_width = 1, px_height = 0, px_data = []\<rparr>) (pixels_render (Some ''b'') (pixels_mount (Some ''a'')))) = None \<and>
   ph_src (pixels_render (Some ''b'') (pixels_mount (Some ''a''))) = Some ''b''"
proof -
  let ?d = "\<lambda>s. \<lparr>px_width = if s = ''a'' then 1 else 2, px_height = 0, px_data = []\<rparr>"
  let ?h = "pixels_render (Some ''b'') (pixels_mount (Some ''a''))"
  have load: "(0, ''a'') \<in> set (ph_loads ?h)" by code_simp
  have "pixels_reach ?d (pixels_loaded (0, ''a'') (Some (?d (snd (0 :: nat, ''a'')))) ?h)"
    by (rule pixels_reach.loaded [OF _ load]) (intro pixels_reach.intros)
  from pixels_match_source [OF this] show ?thesis
    by (auto simp: pixels_loaded_def pixels_render_def pixels_mount_def pixels_effect_def Let_def)
qed

end
