(* ===== verification/Desktop_Reviews.thy ===== *)
theory Desktop_Reviews
  imports History
begin

text \<open>
  Merge requests in the desktop client: the list with its dialog for a new request (\<open>MergeRequestsView.tsx\<close>),
  one request with its conversation, review form and merge box (\<open>MergeRequestDetail.tsx\<close>, \<open>ThreadCard.tsx\<close>), the
  changed files with their threads (\<open>MergeRequestFiles.tsx\<close>), and the actions behind them
  (\<open>useMergeRequest.ts\<close>). An action that was sent stays in the state until it is answered; the text boxes of a
  tab go with it, so an answer finds its box only while the same tab is shown.
\<close>

section \<open>Data\<close>

record MergeRequest =
  mq_number :: int
  mq_title :: string
  mq_description :: string
  mq_status :: string
  mq_draft :: bool
  mq_source :: string
  mq_target :: string
  mq_authorId :: string
  mq_createdAt :: string
  mq_updatedAt :: string
  mq_mergeCommitId :: string
  mq_mergeBaseId :: string
  mq_mergedSourceId :: string
  mq_approvals :: int
  mq_changesRequested :: int
  mq_assignees :: "Person list"

record Mergeability =
  ma_status :: string
  ma_blockedBy :: string
  ma_sourceCommitId :: string
  ma_targetCommitId :: string
  ma_mergeBaseId :: string

record MergeRequestDetail =
  de_request :: MergeRequest
  de_mergeability :: Mergeability
  de_outstanding :: "string list"

record Branch =
  bn_name :: string
  bn_commitId :: string
  bn_default :: bool
  bn_protected :: bool

record Check =
  ck_name :: string
  ck_state :: string
  ck_url :: string
  ck_reporter :: string
  ck_updatedAt :: string

definition MergeRequestStatus :: "MergeRequest \<Rightarrow> string" where
  "MergeRequestStatus mr =
     (if mq_status mr = ''merged'' then ''Merged'' else if mq_status mr = ''closed'' then ''Closed''
      else if mq_draft mr then ''Draft'' else ''Open'')"

section \<open>The list of merge requests\<close>

record MergeRequestPage =
  mp_items :: "MergeRequest list"
  mp_next :: int

record MrList =
  ml_status :: string
  ml_searchInput :: string
  ml_search :: string
  ml_selected :: "int option"
  ml_creating :: bool

definition mrs_mount :: "int option \<Rightarrow> MrList" where
  "mrs_mount open_number =
     \<lparr>ml_status = ''open'', ml_searchInput = [], ml_search = [], ml_selected = open_number, ml_creating = False\<rparr>"

definition mrs_open :: "int \<Rightarrow> MrList \<Rightarrow> MrList" where
  "mrs_open number l = l\<lparr>ml_selected := Some number\<rparr>"

definition mrs_filters :: "(string \<times> string) list" where
  "mrs_filters = [(''open'', ''Open''), (''draft'', ''Drafts''), (''merged'', ''Merged''), (''closed'', ''Closed''), ([], ''All'')]"

definition mrs_status :: "string \<Rightarrow> MrList \<Rightarrow> MrList" where
  "mrs_status s l = l\<lparr>ml_status := s, ml_selected := None\<rparr>"

definition applySearch :: "MrList \<Rightarrow> MrList" where
  "applySearch l = l\<lparr>ml_search := js_trim (ml_searchInput l), ml_selected := None\<rparr>"

definition mrs_select :: "int \<Rightarrow> MrList \<Rightarrow> MrList" where
  "mrs_select number l = l\<lparr>ml_selected := Some number\<rparr>"

definition mrs_request :: "string \<Rightarrow> MrList \<Rightarrow> int \<Rightarrow> ServiceCall" where
  "mrs_request r l after = desktop_mergeRequests r
     [(''status'', JString (ml_status l)), (''search'', JString (ml_search l)), (''after'', JNum after)]"

definition mrs_items :: "MergeRequestPage list option \<Rightarrow> MergeRequest list" where
  "mrs_items pages = concat (map mp_items (coalesce pages []))"

definition mrs_current :: "MergeRequestPage list option \<Rightarrow> MrList \<Rightarrow> int option" where
  "mrs_current pages l = (case ml_selected l of
     Some n \<Rightarrow> Some n | None \<Rightarrow> map_option mq_number (nth_opt (mrs_items pages) 0))"

definition mrs_created :: "MergeRequest \<Rightarrow> MrList \<Rightarrow> MrList" where
  "mrs_created mr l = l\<lparr>ml_creating := False, ml_status := (if mq_draft mr then ''draft'' else ''open''), ml_selected := Some (mq_number mr)\<rparr>"

record MrRow =
  mw_title :: string
  mw_number :: string
  mw_status :: string
  mw_branches :: "string \<times> string"
  mw_approvals :: "string option"
  mw_changesRequested :: bool
  mw_ago :: string
  mw_selected :: bool

definition mrs_row :: "(string \<Rightarrow> string) \<Rightarrow> int option \<Rightarrow> MergeRequest \<Rightarrow> MrRow" where
  "mrs_row ago current mr =
     \<lparr>mw_title = mq_title mr, mw_number = ''!'' @ js_show_int (mq_number mr), mw_status = MergeRequestStatus mr,
      mw_branches = (mq_source mr, mq_target mr),
      mw_approvals = (if mq_approvals mr > 0 then Some (js_show_int (mq_approvals mr)) else None),
      mw_changesRequested = (mq_changesRequested mr > 0),
      mw_ago = ago (or_else (mq_updatedAt mr) (mq_createdAt mr)), mw_selected = (Some (mq_number mr) = current)\<rparr>"

datatype MrListPane = MrsLoading | MrsFailed string | MrsEmpty string | MrsRows "MrRow list" "bool option"

definition mrs_next :: "MergeRequestPage list option \<Rightarrow> int option" where
  "mrs_next pages = (case pages of
     Some ps \<Rightarrow> if ps = [] \<or> mp_next (last ps) = 0 then None else Some (mp_next (last ps)) | None \<Rightarrow> None)"

definition mrs_list ::
  "(string \<Rightarrow> string) \<Rightarrow> MergeRequestPage list option \<Rightarrow> string option \<Rightarrow> bool \<Rightarrow> MrList \<Rightarrow> MrListPane" where
  "mrs_list ago pages err fetching l =
     (if pages = None \<and> err = None then MrsLoading
      else case err of
        Some e \<Rightarrow> MrsFailed e
      | None \<Rightarrow>
          if mrs_items pages = [] then
            MrsEmpty (if ml_search l \<noteq> [] then ''No merge requests match'' else ''No merge requests here yet'')
          else MrsRows (map (mrs_row ago (mrs_current pages l)) (mrs_items pages))
            (if mrs_next pages = None then None else Some (\<not> fetching)))"

subsection \<open>A new merge request\<close>

record NewMr =
  nm_source :: string
  nm_target :: string
  nm_title :: string
  nm_description :: string
  nm_draft :: bool
  nm_pending :: bool

definition new_mount :: "string \<Rightarrow> NewMr" where
  "new_mount branch = \<lparr>nm_source = branch, nm_target = [], nm_title = [], nm_description = [], nm_draft = False, nm_pending = False\<rparr>"

definition defaultTarget :: "Branch list option \<Rightarrow> string" where
  "defaultTarget branches = coalesce (map_option bn_name (find bn_default (coalesce branches []))) []"

definition new_into :: "Branch list option \<Rightarrow> NewMr \<Rightarrow> string" where
  "new_into branches n = or_else (nm_target n) (if defaultTarget branches \<noteq> nm_source n then defaultTarget branches else [])"

definition source_options :: "Branch list option \<Rightarrow> NewMr \<Rightarrow> string list" where
  "source_options branches n =
     (let names = map bn_name (coalesce branches []) in (if nm_source n \<notin> set names then [nm_source n] else []) @ names)"

definition target_options :: "Branch list option \<Rightarrow> NewMr \<Rightarrow> string list" where
  "target_options branches n = [] # filter (\<lambda>b. b \<noteq> nm_source n) (map bn_name (coalesce branches []))"

text \<open>Choosing in the two lists; only their options can be chosen.\<close>

definition choose_source :: "Branch list option \<Rightarrow> string \<Rightarrow> NewMr \<Rightarrow> NewMr" where
  "choose_source branches s n = (if s \<in> set (source_options branches n) then n\<lparr>nm_source := s\<rparr> else n)"

definition choose_target :: "Branch list option \<Rightarrow> string \<Rightarrow> NewMr \<Rightarrow> NewMr" where
  "choose_target branches t n = (if t \<in> set (target_options branches n) then n\<lparr>nm_target := t\<rparr> else n)"

definition new_text :: "string \<Rightarrow> string \<Rightarrow> bool \<Rightarrow> NewMr \<Rightarrow> NewMr" where
  "new_text title description draft n = n\<lparr>nm_title := title, nm_description := description, nm_draft := draft\<rparr>"

definition new_enabled :: "Branch list option \<Rightarrow> NewMr \<Rightarrow> bool" where
  "new_enabled branches n \<longleftrightarrow> \<not> (nm_pending n \<or> js_trim (nm_title n) = [] \<or> new_into branches n = [] \<or> nm_source n = [])"

definition new_call :: "string \<Rightarrow> Branch list option \<Rightarrow> NewMr \<Rightarrow> ServiceCall" where
  "new_call r branches n = Service_CreateMergeRequest r (JObject
     [(''source'', JString (nm_source n)), (''target'', JString (new_into branches n)), (''title'', JString (nm_title n)),
      (''description'', JString (nm_description n)), (''draft'', JBool (nm_draft n))])"

definition new_submit :: "string \<Rightarrow> Branch list option \<Rightarrow> NewMr \<Rightarrow> ServiceCall option \<times> NewMr" where
  "new_submit r branches n =
     (if new_enabled branches n then (Some (new_call r branches n), n\<lparr>nm_pending := True\<rparr>) else (None, n))"

section \<open>Actions on a merge request\<close>

datatype MrAction =
    AComment string int int string
  | AReply string string
  | AResolve string bool
  | AReview string string
  | AMerge string bool
  | AClose
  | AReopen
  | ADraft bool
  | AEdit string string

text \<open>The part of the view that sent an action and waits for its answer.\<close>

datatype Box = FromButton | BoxComment | BoxReview | BoxReply string | BoxLine | BoxTitle

definition action_call :: "string \<Rightarrow> int \<Rightarrow> MrAction \<Rightarrow> ServiceCall" where
  "action_call r number a = (case a of
     AComment path o1 n1 body \<Rightarrow> desktop_comment r number
       ((if path = [] then [] else [(''path'', JString path), (''oldLine'', JNum o1), (''newLine'', JNum n1)]) @ [(''body'', JString body)])
   | AReply t body \<Rightarrow> Service_Reply r number t body
   | AResolve t b \<Rightarrow> Service_ResolveThread r number t b
   | AReview st body \<Rightarrow> Service_SubmitReview r number st body
   | AMerge strategy del \<Rightarrow> Service_MergeMergeRequest r number strategy del
   | AClose \<Rightarrow> Service_CloseMergeRequest r number
   | AReopen \<Rightarrow> Service_ReopenMergeRequest r number
   | ADraft b \<Rightarrow> Service_SetDraft r number b
   | AEdit title description \<Rightarrow> Service_EditMergeRequest r number title description)"

definition action_failure :: "MrAction \<Rightarrow> string" where
  "action_failure a = (case a of
     AComment _ _ _ _ \<Rightarrow> ''Could not comment'' | AReply _ _ \<Rightarrow> ''Could not reply'' | AResolve _ _ \<Rightarrow> ''Could not update the thread''
   | AReview _ _ \<Rightarrow> ''Could not submit the review'' | AMerge _ _ \<Rightarrow> ''Could not merge'' | AClose \<Rightarrow> ''Could not close''
   | AReopen \<Rightarrow> ''Could not reopen'' | ADraft _ \<Rightarrow> ''Could not change the draft state'' | AEdit _ _ \<Rightarrow> ''Could not save'')"

definition action_success :: "int \<Rightarrow> MrAction \<Rightarrow> string option" where
  "action_success number a = (case a of
     AComment _ _ _ _ \<Rightarrow> None | AReply _ _ \<Rightarrow> None | AResolve _ _ \<Rightarrow> None
   | AReview st _ \<Rightarrow> Some (if st = ''approved'' then ''Approved'' else if st = ''changes_requested'' then ''Requested changes'' else ''Review sent'')
   | AMerge _ _ \<Rightarrow> Some (''Merged !'' @ js_show_int number)
   | AClose \<Rightarrow> Some (''Closed !'' @ js_show_int number)
   | AReopen \<Rightarrow> Some (''Reopened !'' @ js_show_int number)
   | ADraft b \<Rightarrow> Some (if b then ''Marked as draft'' else ''Marked ready for review'')
   | AEdit _ _ \<Rightarrow> Some ''Saved'')"

record Flight =
  fl_action :: MrAction
  fl_box :: Box
  fl_mount :: nat

datatype MrTab = TabConversation | TabCommits | TabFiles

record MrDetail =
  md_root :: string
  md_number :: int
  md_flight :: "Flight list"
  md_sent :: "MrAction list"
  md_notices :: "notice list"
  md_refreshed :: nat
  md_tab :: MrTab
  md_mount :: nat
  md_texts :: "(Box, string) js_map"
  md_editing :: bool
  md_title :: string
  md_description :: string
  md_strategy :: string
  md_strategySetting :: "string option"
  md_deleteSource :: bool
  md_closing :: bool
  md_picked :: string
  md_drafting :: "LineAnchor option"

definition initial_strategy :: "string option \<Rightarrow> string" where
  "initial_strategy setting = (case find (\<lambda>(i, label, hint). Some i = setting) strategies of Some (i, _) \<Rightarrow> i | None \<Rightarrow> ''merge'')"

definition detail_open :: "string \<Rightarrow> int \<Rightarrow> string option \<Rightarrow> MrDetail" where
  "detail_open r number setting =
     \<lparr>md_root = r, md_number = number, md_flight = [], md_sent = [], md_notices = [], md_refreshed = 0,
      md_tab = TabConversation, md_mount = 0, md_texts = [], md_editing = False, md_title = [], md_description = [],
      md_strategy = initial_strategy setting, md_strategySetting = setting, md_deleteSource = False, md_closing = False,
      md_picked = [], md_drafting = None\<rparr>"

definition mr_busy :: "MrDetail \<Rightarrow> bool" where
  "mr_busy v \<longleftrightarrow> md_flight v \<noteq> []"

definition mr_send :: "MrAction \<Rightarrow> Box \<Rightarrow> MrDetail \<Rightarrow> MrDetail" where
  "mr_send a b v =
     v\<lparr>md_flight := md_flight v @ [\<lparr>fl_action = a, fl_box = b, fl_mount = md_mount v\<rparr>], md_sent := md_sent v @ [a]\<rparr>"

definition box_text_of :: "Box \<Rightarrow> MrDetail \<Rightarrow> string" where
  "box_text_of b v = coalesce (js_map_get (md_texts v) b) []"

definition type_box :: "Box \<Rightarrow> string \<Rightarrow> MrDetail \<Rightarrow> MrDetail" where
  "type_box b s v = v\<lparr>md_texts := js_map_set (md_texts v) b s\<rparr>"

text \<open>Leaving a tab: its boxes, its dialog and its unsaved choices go.\<close>

definition leave_pane :: "MrDetail \<Rightarrow> MrDetail" where
  "leave_pane v =
     v\<lparr>md_mount := Suc (md_mount v), md_texts := [], md_strategy := initial_strategy (md_strategySetting v),
       md_deleteSource := False, md_closing := False, md_picked := [], md_drafting := None\<rparr>"

text \<open>
  A box that the data no longer has: the request was closed or merged meanwhile, the thread is gone or folded, the
  diff is loaded anew. Its text goes with it, and nobody waits any more for what it sent.
\<close>

definition box_gone :: "Box \<Rightarrow> MrDetail \<Rightarrow> MrDetail" where
  "box_gone b v =
     (if b = BoxTitle then v
      else v\<lparr>md_texts := js_map_set (md_texts v) b [], md_drafting := (if b = BoxLine then None else md_drafting v),
             md_flight := map (\<lambda>f. if fl_box f = b then f\<lparr>fl_box := FromButton\<rparr> else f) (md_flight v)\<rparr>)"

definition mr_setTab :: "MrTab \<Rightarrow> MrDetail \<Rightarrow> MrDetail" where
  "mr_setTab t v = (if t = md_tab v then v else (leave_pane v)\<lparr>md_tab := t\<rparr>)"

subsection \<open>Title\<close>

definition is_open :: "MergeRequestDetail \<Rightarrow> bool" where
  "is_open d \<longleftrightarrow> mq_status (de_request d) = ''open''"

definition title_edit :: "MergeRequestDetail \<Rightarrow> MrDetail \<Rightarrow> MrDetail" where
  "title_edit d v =
     (if is_open d \<and> \<not> md_editing v
      then v\<lparr>md_title := mq_title (de_request d), md_description := mq_description (de_request d), md_editing := True\<rparr> else v)"

definition title_type :: "string \<Rightarrow> string \<Rightarrow> MrDetail \<Rightarrow> MrDetail" where
  "title_type title description v = (if md_editing v then v\<lparr>md_title := title, md_description := description\<rparr> else v)"

definition title_cancel :: "MrDetail \<Rightarrow> MrDetail" where
  "title_cancel v = v\<lparr>md_editing := False\<rparr>"

definition title_save :: "MrDetail \<Rightarrow> MrDetail" where
  "title_save v =
     (if md_editing v \<and> \<not> mr_busy v \<and> js_trim (md_title v) \<noteq> []
      then mr_send (AEdit (md_title v) (md_description v)) BoxTitle v else v)"

subsection \<open>Comments, replies and reviews\<close>

definition box_enabled :: "Box \<Rightarrow> MrDetail \<Rightarrow> bool" where
  "box_enabled b v \<longleftrightarrow> \<not> mr_busy v \<and> js_trim (box_text_of b v) \<noteq> []"

definition send_comment :: "MergeRequestDetail \<Rightarrow> MrDetail \<Rightarrow> MrDetail" where
  "send_comment d v =
     (if md_tab v = TabConversation \<and> is_open d \<and> box_enabled BoxComment v
      then mr_send (AComment [] 0 0 (box_text_of BoxComment v)) BoxComment v else v)"

definition send_reply :: "string \<Rightarrow> MrDetail \<Rightarrow> MrDetail" where
  "send_reply t v =
     (if md_tab v \<noteq> TabCommits \<and> box_enabled (BoxReply t) v then mr_send (AReply t (box_text_of (BoxReply t) v)) (BoxReply t) v else v)"

definition resolve_thread :: "string \<Rightarrow> bool \<Rightarrow> MrDetail \<Rightarrow> MrDetail" where
  "resolve_thread t b v = (if md_tab v \<noteq> TabCommits \<and> \<not> mr_busy v then mr_send (AResolve t b) FromButton v else v)"

text \<open>\<open>me\<close> is the user of the clone, known once the lock status has loaded.\<close>

definition mr_isAuthor :: "string option \<Rightarrow> MergeRequestDetail \<Rightarrow> bool" where
  "mr_isAuthor me d \<longleftrightarrow> truthy me \<and> me = Some (mq_authorId (de_request d))"

definition send_review :: "string option \<Rightarrow> MergeRequestDetail \<Rightarrow> string \<Rightarrow> MrDetail \<Rightarrow> MrDetail" where
  "send_review me d st v =
     (if md_tab v = TabConversation \<and> is_open d \<and> box_enabled BoxReview v \<and> (st = ''commented'' \<or> \<not> mr_isAuthor me d)
      then mr_send (AReview st (box_text_of BoxReview v)) BoxReview v else v)"

subsection \<open>The merge box\<close>

definition setStrategy :: "string \<Rightarrow> MrDetail \<Rightarrow> MrDetail" where
  "setStrategy s v = (if s \<in> fst ` set strategies then v\<lparr>md_strategy := s, md_strategySetting := Some s\<rparr> else v)"

definition setDeleteSource :: "bool \<Rightarrow> MrDetail \<Rightarrow> MrDetail" where
  "setDeleteSource b v = v\<lparr>md_deleteSource := b\<rparr>"

definition canMerge :: "MergeRequestDetail \<Rightarrow> string \<Rightarrow> bool" where
  "canMerge d strategy \<longleftrightarrow> blockedReason (ma_blockedBy (de_mergeability d)) = [] \<and>
     (ma_status (de_mergeability d) = ''mergeable'' \<or> ma_status (de_mergeability d) = ''behind_target'' \<and> strategy \<noteq> ''ff'')"

definition merge_shown :: "MergeRequestDetail \<Rightarrow> MrDetail \<Rightarrow> bool" where
  "merge_shown d v \<longleftrightarrow> md_tab v = TabConversation \<and> mq_status (de_request d) \<noteq> ''merged'' \<and> mq_status (de_request d) \<noteq> ''closed''"

definition merge_text :: "MergeRequestDetail \<Rightarrow> string \<Rightarrow> string" where
  "merge_text d strategy =
     (let blocked = blockedReason (ma_blockedBy (de_mergeability d)); st = ma_status (de_mergeability d)
      in or_else blocked
        (if st = ''behind_target'' \<and> strategy = ''ff'' then mergeabilityText ''behind_target''
         else if st = ''behind_target'' then ''The target moved on; this strategy can still merge.''
         else mergeabilityText st))"

definition send_merge :: "MergeRequestDetail \<Rightarrow> MrDetail \<Rightarrow> MrDetail" where
  "send_merge d v =
     (if merge_shown d v \<and> \<not> mr_busy v \<and> canMerge d (md_strategy v)
      then mr_send (AMerge (md_strategy v) (md_deleteSource v)) FromButton v else v)"

definition send_draft :: "MergeRequestDetail \<Rightarrow> MrDetail \<Rightarrow> MrDetail" where
  "send_draft d v = (if merge_shown d v \<and> \<not> mr_busy v then mr_send (ADraft (\<not> mq_draft (de_request d))) FromButton v else v)"

definition ask_close :: "MergeRequestDetail \<Rightarrow> MrDetail \<Rightarrow> MrDetail" where
  "ask_close d v = (if merge_shown d v \<and> \<not> mr_busy v then v\<lparr>md_closing := True\<rparr> else v)"

definition cancel_close :: "MrDetail \<Rightarrow> MrDetail" where
  "cancel_close v = v\<lparr>md_closing := False\<rparr>"

definition confirm_close :: "MergeRequestDetail \<Rightarrow> MrDetail \<Rightarrow> MrDetail" where
  "confirm_close d v = (if merge_shown d v \<and> md_closing v then mr_send AClose FromButton (v\<lparr>md_closing := False\<rparr>) else v)"

definition send_reopen :: "MergeRequestDetail \<Rightarrow> MrDetail \<Rightarrow> MrDetail" where
  "send_reopen d v =
     (if md_tab v = TabConversation \<and> mq_status (de_request d) = ''closed'' \<and> \<not> mr_busy v then mr_send AReopen FromButton v else v)"

subsection \<open>Changed files\<close>

definition mr_base :: "MergeRequestDetail \<Rightarrow> string" where
  "mr_base d = or_else (ma_mergeBaseId (de_mergeability d)) (mq_mergeBaseId (de_request d))"

definition mr_head :: "MergeRequestDetail \<Rightarrow> Branch list option \<Rightarrow> string" where
  "mr_head d branches = or_else (mq_mergedSourceId (de_request d))
     (or_else (ma_sourceCommitId (de_mergeability d))
       (coalesce (map_option bn_commitId (find (\<lambda>b. bn_name b = mq_source (de_request d)) (coalesce branches []))) []))"

definition mr_selected :: "FileDiff list \<Rightarrow> MrDetail \<Rightarrow> FileDiff option" where
  "mr_selected files v = (case find (\<lambda>f. fd_path f = md_picked v) files of Some f \<Rightarrow> Some f | None \<Rightarrow> nth_opt files 0)"

definition mr_pick :: "string \<Rightarrow> MrDetail \<Rightarrow> MrDetail" where
  "mr_pick path v =
     (if md_tab v = TabFiles then v\<lparr>md_picked := path, md_drafting := None, md_mount := Suc (md_mount v), md_texts := []\<rparr> else v)"

text \<open>The number of threads next to a file.\<close>

definition count_thread :: "Thread \<Rightarrow> (string, nat) js_map \<Rightarrow> (string, nat) js_map" where
  "count_thread t out = (if t_path t \<noteq> [] then js_map_set out (t_path t) (coalesce (js_map_get out (t_path t)) 0 + 1) else out)"

definition count_renamed :: "FileDiff \<Rightarrow> (string, nat) js_map \<Rightarrow> (string, nat) js_map" where
  "count_renamed f out =
     (if truthy (fd_oldPath f)
      then js_map_set out (fd_path f) (coalesce (js_map_get out (fd_path f)) 0 + coalesce (js_map_get out (coalesce (fd_oldPath f) [])) 0)
      else out)"

definition thread_counts :: "Thread list \<Rightarrow> FileDiff list \<Rightarrow> (string, nat) js_map" where
  "thread_counts threads files = fold count_renamed files (fold count_thread threads [])"

text \<open>The threads under a line, and whether a new one is being written there.\<close>

definition mr_comments :: "Thread list \<Rightarrow> FileDiff \<Rightarrow> bool \<Rightarrow> MrDetail \<Rightarrow> (Thread list \<times> bool) LineComments" where
  "mr_comments threads f canComment v =
     \<lparr>lc_render = (\<lambda>a. let here = filter (\<lambda>t. threadAt t a) (fst (fileThreads threads (fd_path f) (coalesce (fd_oldPath f) [])));
            writing = (md_drafting v = Some a)
          in if here = [] \<and> \<not> writing then None else Some (here, writing)),
      lc_onAdd = canComment\<rparr>"

definition start_line :: "LineAnchor \<Rightarrow> MergeRequestDetail \<Rightarrow> MrDetail \<Rightarrow> MrDetail" where
  "start_line a d v =
     (if md_tab v = TabFiles \<and> is_open d
      then (if md_drafting v = Some a then v else v\<lparr>md_drafting := Some a, md_texts := js_map_set (md_texts v) BoxLine []\<rparr>) else v)"

definition cancel_line :: "MrDetail \<Rightarrow> MrDetail" where
  "cancel_line v = v\<lparr>md_drafting := None, md_texts := js_map_set (md_texts v) BoxLine []\<rparr>"

definition send_line :: "FileDiff list \<Rightarrow> MrDetail \<Rightarrow> MrDetail" where
  "send_line files v = (case (md_drafting v, mr_selected files v) of
     (Some a, Some f) \<Rightarrow>
       if md_tab v = TabFiles \<and> box_enabled BoxLine v
       then mr_send (AComment (fd_path f) (an_oldLine a) (an_newLine a) (box_text_of BoxLine v)) BoxLine v else v
   | _ \<Rightarrow> v)"

subsection \<open>Answers\<close>

definition clear_box :: "Flight \<Rightarrow> MrDetail \<Rightarrow> MrDetail" where
  "clear_box f v = (case fl_box f of
     FromButton \<Rightarrow> v
   | BoxTitle \<Rightarrow> v\<lparr>md_editing := False\<rparr>
   | BoxLine \<Rightarrow> if fl_mount f = md_mount v then v\<lparr>md_drafting := None, md_texts := js_map_set (md_texts v) BoxLine []\<rparr> else v
   | b \<Rightarrow> if fl_mount f = md_mount v then v\<lparr>md_texts := js_map_set (md_texts v) b []\<rparr> else v)"

definition mr_settled :: "Flight \<Rightarrow> string option \<Rightarrow> MrDetail \<Rightarrow> MrDetail" where
  "mr_settled f err v =
     (let w = v\<lparr>md_flight := remove1 f (md_flight v)\<rparr> in
      case err of
        Some e \<Rightarrow> w\<lparr>md_notices := md_notices w @ [(action_failure (fl_action f) @ '': '' @ e, None)]\<rparr>
      | None \<Rightarrow> clear_box f (w\<lparr>md_refreshed := Suc (md_refreshed w),
          md_notices := md_notices w @ (case action_success (md_number w) (fl_action f) of
            Some s \<Rightarrow> [(s, Some ToneSuccess)] | None \<Rightarrow> [])\<rparr>))"

subsection \<open>What is shown\<close>

record ThreadView =
  th_where :: string
  th_collapsed :: "string option"
  th_comments :: "(string \<times> string \<times> bool \<times> string) list"
  th_button :: string

definition thread_where :: "Thread \<Rightarrow> string" where
  "thread_where t = (if t_path t \<noteq> [] then t_path t @ '':'' @ js_show_int (if t_newLine t \<noteq> 0 then t_newLine t else t_oldLine t) else [])"

definition ThreadCard :: "(string \<Rightarrow> string) \<Rightarrow> bool \<Rightarrow> Thread \<Rightarrow> ThreadView" where
  "ThreadCard ago expanded t =
     \<lparr>th_where = thread_where t,
      th_collapsed = (if t_resolved t \<and> \<not> expanded
        then Some (''Resolved'' @ (if t_resolvedBy t \<noteq> [] then '' by '' @ t_resolvedBy t else []) @ '' '' @ [CHR 0xC2, CHR 0xB7] @ '' '' @
          js_show_nat (length (t_comments t)) @ '' comment'' @ (if length (t_comments t) = 1 then [] else ''s''))
        else None),
      th_comments = map (\<lambda>c. (or_else (pe_name (co_author c)) (pe_id (co_author c)), ago (co_createdAt c), co_edited c, co_body c)) (t_comments t),
      th_button = (if t_resolved t then ''Reopen thread'' else ''Resolve'')\<rparr>"

datatype FilesPane = FilesGone | FilesLoading | FilesFailed string | FilesNone | FilesShown FileDiff "Thread list" bool

definition mr_files :: "MergeRequestDetail \<Rightarrow> Branch list option \<Rightarrow> (string + FileDiff list) option \<Rightarrow> Thread list \<Rightarrow> MrDetail \<Rightarrow> FilesPane" where
  "mr_files d branches answer threads v =
     (if mr_base d = [] \<or> mr_head d branches = [] then FilesGone
      else case answer of
        None \<Rightarrow> FilesLoading
      | Some (Inl e) \<Rightarrow> FilesFailed e
      | Some (Inr files) \<Rightarrow>
          (case mr_selected files v of
             None \<Rightarrow> FilesNone
           | Some f \<Rightarrow> FilesShown f (snd (fileThreads threads (fd_path f) (coalesce (fd_oldPath f) []))) (\<not> isText f)))"

definition commits_rows :: "(string \<Rightarrow> string) \<Rightarrow> Commit list \<Rightarrow> (string \<times> string \<times> string \<times> string) list" where
  "commits_rows ago cs = map (\<lambda>c. (commitTitle (cd_message c), cd_author c, ago (cd_date c), shortId (cd_id c))) cs"

section \<open>Reachable states\<close>

inductive mr_reach :: "string \<Rightarrow> int \<Rightarrow> MrDetail \<Rightarrow> bool" for r number where
  mount: "mr_reach r number (detail_open r number setting)"
| tab: "mr_reach r number v \<Longrightarrow> mr_reach r number (mr_setTab t v)"
| type_text: "mr_reach r number v \<Longrightarrow> mr_reach r number (type_box b s v)"
| edit: "mr_reach r number v \<Longrightarrow> mr_reach r number (title_edit d v)"
| edit_type: "mr_reach r number v \<Longrightarrow> mr_reach r number (title_type title description v)"
| edit_cancel: "mr_reach r number v \<Longrightarrow> mr_reach r number (title_cancel v)"
| save: "mr_reach r number v \<Longrightarrow> mr_reach r number (title_save v)"
| comment: "mr_reach r number v \<Longrightarrow> mr_reach r number (send_comment d v)"
| reply: "mr_reach r number v \<Longrightarrow> mr_reach r number (send_reply i v)"
| resolve: "mr_reach r number v \<Longrightarrow> mr_reach r number (resolve_thread i c v)"
| review: "mr_reach r number v \<Longrightarrow> mr_reach r number (send_review me d st v)"
| strategy: "mr_reach r number v \<Longrightarrow> mr_reach r number (setStrategy st v)"
| delete_source: "mr_reach r number v \<Longrightarrow> mr_reach r number (setDeleteSource c v)"
| merge: "mr_reach r number v \<Longrightarrow> mr_reach r number (send_merge d v)"
| draft: "mr_reach r number v \<Longrightarrow> mr_reach r number (send_draft d v)"
| ask: "mr_reach r number v \<Longrightarrow> mr_reach r number (ask_close d v)"
| keep: "mr_reach r number v \<Longrightarrow> mr_reach r number (cancel_close v)"
| close: "mr_reach r number v \<Longrightarrow> mr_reach r number (confirm_close d v)"
| reopen: "mr_reach r number v \<Longrightarrow> mr_reach r number (send_reopen d v)"
| pick: "mr_reach r number v \<Longrightarrow> mr_reach r number (mr_pick path v)"
| line: "mr_reach r number v \<Longrightarrow> mr_reach r number (start_line a d v)"
| line_cancel: "mr_reach r number v \<Longrightarrow> mr_reach r number (cancel_line v)"
| line_send: "mr_reach r number v \<Longrightarrow> mr_reach r number (send_line files v)"
| gone: "mr_reach r number v \<Longrightarrow> mr_reach r number (box_gone b v)"
| settled: "mr_reach r number v \<Longrightarrow> f \<in> set (md_flight v) \<Longrightarrow> mr_reach r number (mr_settled f err v)"

text \<open>Actions in flight: besides closing the request at most one, and one closing, which was confirmed.\<close>

definition flights_ok :: "bool \<Rightarrow> Flight list \<Rightarrow> bool" where
  "flights_ok closing fs \<longleftrightarrow> length (filter (\<lambda>f. fl_action f \<noteq> AClose) fs) \<le> 1 \<and>
     length (filter (\<lambda>f. fl_action f = AClose) fs) \<le> (if closing then 0 else 1)"

definition mr_inv :: "string \<Rightarrow> int \<Rightarrow> MrDetail \<Rightarrow> bool" where
  "mr_inv r number v \<longleftrightarrow> md_root v = r \<and> md_number v = number \<and> flights_ok (md_closing v) (md_flight v) \<and>
     (\<exists>s. md_strategy v = initial_strategy s)"

lemma flights_ok_single: "a \<noteq> AClose \<Longrightarrow> flights_ok closing [\<lparr>fl_action = a, fl_box = b, fl_mount = m\<rparr>]"
  by (simp add: flights_ok_def)

lemma flights_ok_remove1: "flights_ok closing fs \<Longrightarrow> flights_ok closing (remove1 f fs)"
proof -
  have "length (filter P (remove1 f fs)) \<le> length (filter P fs)" for P
    by (metis filter_remove1 length_remove1 diff_le_self order.refl)
  then show "flights_ok closing fs \<Longrightarrow> flights_ok closing (remove1 f fs)"
    unfolding flights_ok_def by (meson le_trans)
qed

lemma flights_ok_closing: "flights_ok True fs \<Longrightarrow> flights_ok False (fs @ [\<lparr>fl_action = AClose, fl_box = b, fl_mount = m\<rparr>])"
  by (simp add: flights_ok_def)

lemma flights_ok_weaken: "flights_ok closing fs \<Longrightarrow> flights_ok False fs"
  by (auto simp: flights_ok_def split: if_splits)

lemma flights_ok_gone: "flights_ok closing (map (\<lambda>f. if fl_box f = b then f\<lparr>fl_box := c\<rparr> else f) fs) = flights_ok closing fs"
proof -
  have "P (fl_action (if fl_box f = b then f\<lparr>fl_box := c\<rparr> else f)) = P (fl_action f)" for P f by simp
  then have "length (filter (\<lambda>f. P (fl_action f)) (map (\<lambda>f. if fl_box f = b then f\<lparr>fl_box := c\<rparr> else f) fs)) =
      length (filter (\<lambda>f. P (fl_action f)) fs)" for P by (simp add: filter_map comp_def)
  from this [of "\<lambda>a. a \<noteq> AClose"] this [of "\<lambda>a. a = AClose"] show ?thesis by (simp add: flights_ok_def)
qed

lemma mr_inv_send:
  "mr_inv r number v \<Longrightarrow> \<not> mr_busy v \<Longrightarrow> a \<noteq> AClose \<Longrightarrow> mr_inv r number (mr_send a b v)"
  by (simp add: mr_inv_def mr_send_def mr_busy_def flights_ok_single)

lemma strategies_initial: "s \<in> fst ` set strategies \<Longrightarrow> initial_strategy (Some s) = s"
  by (auto simp: strategies_def initial_strategy_def)

lemma clear_box_keeps [simp]:
  "md_flight (clear_box f v) = md_flight v" "md_root (clear_box f v) = md_root v" "md_number (clear_box f v) = md_number v"
  "md_closing (clear_box f v) = md_closing v" "md_strategy (clear_box f v) = md_strategy v" "md_sent (clear_box f v) = md_sent v"
  by (simp_all add: clear_box_def split: Box.split)

lemma mr_inv_settled: "mr_inv r number v \<Longrightarrow> mr_inv r number (mr_settled f err v)"
  by (simp add: mr_inv_def mr_settled_def flights_ok_remove1 Let_def split: option.split)

lemmas mr_small_defs =
  type_box_def title_edit_def title_type_def title_cancel_def setDeleteSource_def mr_pick_def start_line_def cancel_line_def

lemmas mr_send_defs =
  title_save_def send_comment_def send_reply_def resolve_thread_def send_review_def send_merge_def send_draft_def
  send_reopen_def box_enabled_def

lemma mr_reach_inv: "mr_reach r number v \<Longrightarrow> mr_inv r number v"
proof (induction rule: mr_reach.induct)
  case (mount setting)
  then show ?case by (auto simp: mr_inv_def detail_open_def flights_ok_def)
next
  case (tab v t)
  then show ?case by (auto simp: mr_inv_def mr_setTab_def leave_pane_def intro: flights_ok_weaken)
next
  case (strategy v st)
  have "\<exists>s. st = initial_strategy s" if "st \<in> fst ` set strategies" using strategies_initial [OF that] by metis
  with strategy show ?case by (simp add: mr_inv_def setStrategy_def)
next
  case (ask v d)
  then show ?case by (auto simp: mr_inv_def ask_close_def mr_busy_def flights_ok_def)
next
  case (keep v)
  then show ?case by (auto simp: mr_inv_def cancel_close_def intro: flights_ok_weaken)
next
  case (close v d)
  then show ?case by (auto simp: mr_inv_def confirm_close_def mr_send_def intro: flights_ok_closing)
next
  case (line_send v files)
  then show ?case by (auto simp: send_line_def box_enabled_def mr_inv_send split: option.split)
next
  case (gone v b)
  then show ?case by (simp add: mr_inv_def box_gone_def flights_ok_gone)
next
  case (settled v f err)
  then show ?case by (intro mr_inv_settled)
qed (auto simp: mr_send_defs mr_inv_send, auto simp: mr_inv_def mr_small_defs)

section \<open>Threads of a file\<close>

lemma count_threads:
  "coalesce (js_map_get (fold count_thread ts m) p) 0 =
     coalesce (js_map_get m p) 0 + (if p = [] then 0 else length (filter (\<lambda>t. t_path t = p) ts))"
  by (induction ts arbitrary: m) (auto simp: count_thread_def js_map.get_put coalesce_def)

lemma count_renamed_other:
  "p \<notin> fd_path ` set fs \<Longrightarrow> js_map_get (fold count_renamed fs m) p = js_map_get m p"
  by (induction fs arbitrary: m) (auto simp: count_renamed_def js_map.get_put)

text \<open>No file was renamed from the path of a listed file, and no path is listed twice.\<close>

definition renames_ok :: "FileDiff list \<Rightarrow> bool" where
  "renames_ok files \<longleftrightarrow> distinct (map fd_path files) \<and>
     list_all (\<lambda>f. list_all (\<lambda>g. truthy (fd_oldPath f) \<longrightarrow> fd_oldPath f \<noteq> Some (fd_path g)) files) files"

definition count_at :: "(string, nat) js_map \<Rightarrow> string \<Rightarrow> nat" where
  "count_at m p = coalesce (js_map_get m p) 0"

lemma count_renamed_file:
  assumes "distinct (map fd_path fs)" and "f \<in> set fs"
    and "\<forall>g \<in> set fs. \<forall>h \<in> set fs. truthy (fd_oldPath g) \<longrightarrow> fd_oldPath g \<noteq> Some (fd_path h)"
  shows "count_at (fold count_renamed fs m) (fd_path f) =
     count_at m (fd_path f) + (if truthy (fd_oldPath f) then count_at m (coalesce (fd_oldPath f) []) else 0)"
  using assms
proof (induction fs arbitrary: m)
  case (Cons g gs)
  show ?case
  proof (cases "f = g")
    case True
    then have "fd_path f \<notin> fd_path ` set gs" using Cons.prems(1) by auto
    then show ?thesis using True
      by (simp add: count_at_def count_renamed_other) (simp add: count_renamed_def js_map.get_put coalesce_def)
  next
    case False
    have g: "fd_path g \<notin> fd_path ` set gs" using Cons.prems(1) by simp
    have f: "f \<in> set gs" using False Cons.prems(2) by simp
    have fg: "fd_path f \<noteq> fd_path g" using imageI [OF f, of fd_path] g by metis
    have old: "fd_oldPath f \<noteq> Some (fd_path g)" if "truthy (fd_oldPath f)" using Cons.prems(3) f that by auto
    have m: "count_at (count_renamed g m) p = count_at m p" if "p \<noteq> fd_path g" for p
      using that by (simp add: count_at_def count_renamed_def js_map.get_put)
    have "count_at (fold count_renamed gs (count_renamed g m)) (fd_path f) =
        count_at (count_renamed g m) (fd_path f) + (if truthy (fd_oldPath f) then count_at (count_renamed g m) (coalesce (fd_oldPath f) []) else 0)"
      using Cons.IH [of "count_renamed g m"] Cons.prems f by simp
    moreover have "coalesce (fd_oldPath f) [] \<noteq> fd_path g" if "truthy (fd_oldPath f)"
      using old [OF that] that by (cases "fd_oldPath f") (auto simp: coalesce_def)
    ultimately show ?thesis using m fg by simp
  qed
qed simp

lemma length_filter_disj:
  "\<forall>x \<in> set xs. \<not> (P x \<and> Q x) \<Longrightarrow> length (filter (\<lambda>x. P x \<or> Q x) xs) = length (filter P xs) + length (filter Q xs)"
  by (induction xs) auto

lemma length_filter_split: "length (filter (\<lambda>x. \<not> P x) xs) + length (filter P xs) = length xs"
  by (induction xs) auto

section \<open>Properties\<close>

text \<open>
  Property C11. Whatever the user presses and whenever answers come, at most one action on a merge request is
  on its way, besides closing it, which was confirmed in its own dialog. So a merge is never sent twice
  or together with a review, and the strategy it uses is one of the list.
\<close>

theorem one_action_at_a_time:
  assumes "mr_reach r number v"
  shows "length (filter (\<lambda>f. fl_action f \<noteq> AClose) (md_flight v)) \<le> 1 \<and>
    length (filter (\<lambda>f. fl_action f = AClose) (md_flight v)) \<le> 1 \<and> md_strategy v \<in> fst ` set strategies \<and>
    (md_sent (send_merge d v) = md_sent v \<or> md_flight v = [] \<and> canMerge d (md_strategy v))"
proof -
  have inv: "mr_inv r number v" using assms by (rule mr_reach_inv)
  have "initial_strategy s \<in> fst ` set strategies" for s
    by (auto simp: initial_strategy_def strategies_def split: option.split)
  then show ?thesis using inv by (auto simp: mr_inv_def flights_ok_def send_merge_def mr_busy_def split: if_splits)
qed

definition sample_detail :: "string \<Rightarrow> MergeRequestDetail" where
  "sample_detail blocked =
     \<lparr>de_request = \<lparr>mq_number = 7, mq_title = ''Fix'', mq_description = [], mq_status = ''open'', mq_draft = False,
        mq_source = ''fix'', mq_target = ''main'', mq_authorId = ''u1'', mq_createdAt = [], mq_updatedAt = [], mq_mergeCommitId = [],
        mq_mergeBaseId = ''c0'', mq_mergedSourceId = [], mq_approvals = 1, mq_changesRequested = 0, mq_assignees = []\<rparr>,
      de_mergeability = \<lparr>ma_status = ''behind_target'', ma_blockedBy = blocked, ma_sourceCommitId = ''c2'', ma_targetCommitId = ''c1'',
        ma_mergeBaseId = ''c0''\<rparr>,
      de_outstanding = []\<rparr>"

theorem one_action_at_a_time_witness:
  "md_sent (send_comment (sample_detail []) (type_box BoxComment ''hi'' (send_merge (sample_detail []) (detail_open ''/w'' 7 None)))) = [AMerge ''merge'' False] \<and>
   length (filter (\<lambda>f. fl_action f \<noteq> AClose)
     (md_flight (send_comment (sample_detail []) (type_box BoxComment ''hi'' (send_merge (sample_detail []) (detail_open ''/w'' 7 None)))))) \<le> 1"
proof -
  let ?v = "send_comment (sample_detail []) (type_box BoxComment ''hi'' (send_merge (sample_detail []) (detail_open ''/w'' 7 None)))"
  have "mr_reach ''/w'' 7 ?v" by (intro mr_reach.intros)
  moreover have "md_sent ?v = [AMerge ''merge'' False]" by code_simp
  ultimately show ?thesis using one_action_at_a_time [of "''/w''" 7 ?v] by simp
qed

subsection \<open>Texts\<close>

text \<open>Everything that happens to the view, as a sequence of events.\<close>

datatype MrEvent =
    EvTab MrTab
  | EvType Box string
  | EvEdit MergeRequestDetail
  | EvEditType string string
  | EvEditCancel
  | EvSave
  | EvComment MergeRequestDetail
  | EvReply string
  | EvResolve string bool
  | EvReview "string option" MergeRequestDetail string
  | EvStrategy string
  | EvDeleteSource bool
  | EvMerge MergeRequestDetail
  | EvDraft MergeRequestDetail
  | EvAskClose MergeRequestDetail
  | EvKeepOpen
  | EvClose MergeRequestDetail
  | EvReopen MergeRequestDetail
  | EvPick string
  | EvLine LineAnchor MergeRequestDetail
  | EvLineCancel
  | EvLineSend "FileDiff list"
  | EvGone Box
  | EvSettled Flight "string option"

fun mr_do :: "MrEvent \<Rightarrow> MrDetail \<Rightarrow> MrDetail" where
  "mr_do (EvTab t) v = mr_setTab t v"
| "mr_do (EvType b s) v = type_box b s v"
| "mr_do (EvEdit d) v = title_edit d v"
| "mr_do (EvEditType title description) v = title_type title description v"
| "mr_do EvEditCancel v = title_cancel v"
| "mr_do EvSave v = title_save v"
| "mr_do (EvComment d) v = send_comment d v"
| "mr_do (EvReply t) v = send_reply t v"
| "mr_do (EvResolve t c) v = resolve_thread t c v"
| "mr_do (EvReview me d st) v = send_review me d st v"
| "mr_do (EvStrategy st) v = setStrategy st v"
| "mr_do (EvDeleteSource c) v = setDeleteSource c v"
| "mr_do (EvMerge d) v = send_merge d v"
| "mr_do (EvDraft d) v = send_draft d v"
| "mr_do (EvAskClose d) v = ask_close d v"
| "mr_do EvKeepOpen v = cancel_close v"
| "mr_do (EvClose d) v = confirm_close d v"
| "mr_do (EvReopen d) v = send_reopen d v"
| "mr_do (EvPick path) v = mr_pick path v"
| "mr_do (EvLine a d) v = start_line a d v"
| "mr_do EvLineCancel v = cancel_line v"
| "mr_do (EvLineSend files) v = send_line files v"
| "mr_do (EvGone b) v = box_gone b v"
| "mr_do (EvSettled f err) v = (if f \<in> set (md_flight v) then mr_settled f err v else v)"

lemma mr_do_reach: "mr_reach r number v \<Longrightarrow> mr_reach r number (mr_do e v)"
  by (cases e) (simp_all add: mr_reach.intros)

text \<open>The button of a box; it uses the request, the user, the kind of review and the files that are shown.\<close>

definition press :: "MergeRequestDetail \<Rightarrow> string option \<Rightarrow> string \<Rightarrow> FileDiff list \<Rightarrow> Box \<Rightarrow> MrDetail \<Rightarrow> MrDetail" where
  "press d me st files b v = (case b of
     FromButton \<Rightarrow> v
   | BoxComment \<Rightarrow> send_comment d v
   | BoxReview \<Rightarrow> send_review me d st v
   | BoxReply t \<Rightarrow> send_reply t v
   | BoxLine \<Rightarrow> send_line files v
   | BoxTitle \<Rightarrow> title_save v)"

text \<open>The events that leave a box where it is: all but those that close or replace it, type into it, or send its text successfully.\<close>

fun keeps_box :: "Box \<Rightarrow> MrEvent \<Rightarrow> bool" where
  "keeps_box b (EvTab t) = (b = BoxTitle)"
| "keeps_box b (EvPick path) = (b = BoxTitle)"
| "keeps_box b (EvType c s) = (c \<noteq> b)"
| "keeps_box b (EvGone c) = (c \<noteq> b)"
| "keeps_box b (EvEditType title description) = (b \<noteq> BoxTitle)"
| "keeps_box b EvEditCancel = (b \<noteq> BoxTitle)"
| "keeps_box b (EvLine a d) = (b \<noteq> BoxLine)"
| "keeps_box b EvLineCancel = (b \<noteq> BoxLine)"
| "keeps_box b (EvSettled f None) = (fl_box f \<noteq> b)"
| "keeps_box b _ = True"

text \<open>What the button of a box depends on besides the requests that are running.\<close>

definition same_box :: "Box \<Rightarrow> MrDetail \<Rightarrow> MrDetail \<Rightarrow> bool" where
  "same_box b v w \<longleftrightarrow>
     (if b = BoxTitle
      then md_editing v \<longrightarrow> md_editing w \<and> md_title w = md_title v \<and> md_description w = md_description v
      else md_tab w = md_tab v \<and> box_text_of b w = box_text_of b v \<and>
        (b = BoxLine \<longrightarrow> md_drafting w = md_drafting v \<and> md_picked w = md_picked v))"

lemma same_box_refl [simp]: "same_box b v v"
  by (simp add: same_box_def)

lemma same_box_trans: "same_box b v w \<Longrightarrow> same_box b w u \<Longrightarrow> same_box b v u"
  by (auto simp: same_box_def split: if_splits)

lemma same_box_fields:
  "same_box b v (w\<lparr>md_flight := fs\<rparr>) = same_box b v w" "same_box b v (w\<lparr>md_sent := ss\<rparr>) = same_box b v w"
  "same_box b v (w\<lparr>md_notices := ns\<rparr>) = same_box b v w" "same_box b v (w\<lparr>md_refreshed := k\<rparr>) = same_box b v w"
  "same_box b v (w\<lparr>md_closing := c\<rparr>) = same_box b v w" "same_box b v (w\<lparr>md_deleteSource := c\<rparr>) = same_box b v w"
  "same_box b v (w\<lparr>md_strategySetting := t\<rparr>) = same_box b v w" "same_box b v (w\<lparr>md_strategy := st\<rparr>) = same_box b v w"
  by (simp_all add: same_box_def box_text_of_def)

lemma same_box_send: "same_box b v (mr_send a c v)"
  by (simp add: mr_send_def same_box_fields)

lemma same_box_other_text:
  "c \<noteq> b \<Longrightarrow> same_box b v (w\<lparr>md_texts := js_map_set (md_texts w) c s\<rparr>) = same_box b v w"
  by (simp add: same_box_def box_text_of_def js_map.get_put)

lemma same_box_cleared: "fl_box f \<noteq> b \<Longrightarrow> same_box b v (clear_box f v)"
  by (cases "fl_box f") (auto simp: clear_box_def same_box_def box_text_of_def js_map.get_put)

lemma same_box_settled:
  assumes "keeps_box b (EvSettled f err)"
  shows "same_box b v (mr_settled f err v)"
proof (cases err)
  case None
  with assms have "fl_box f \<noteq> b" by simp
  with None show ?thesis
    by (auto simp: mr_settled_def Let_def same_box_fields intro!: same_box_trans [OF _ same_box_cleared])
next
  case (Some e)
  then show ?thesis by (simp add: mr_settled_def Let_def same_box_fields)
qed

lemma same_box_do: "keeps_box b e \<Longrightarrow> same_box b v (mr_do e v)"
proof (cases e)
  case (EvSettled f err)
  then show "keeps_box b e \<Longrightarrow> ?thesis" using same_box_settled [of b f err v] by simp
next
  case (EvLineSend files)
  then show ?thesis by (simp add: send_line_def same_box_send split: option.split)
next
  case (EvClose d)
  then show ?thesis by (auto simp: confirm_close_def mr_send_def same_box_fields)
next
  case (EvGone c)
  then show "keeps_box b e \<Longrightarrow> ?thesis" by (auto simp: box_gone_def same_box_def box_text_of_def js_map.get_put)
qed (auto simp: mr_send_defs same_box_send same_box_fields setStrategy_def setDeleteSource_def ask_close_def cancel_close_def
    same_box_other_text type_box_def, auto simp: same_box_def mr_small_defs mr_setTab_def leave_pane_def box_text_of_def js_map.get_put)

lemma same_box_run: "list_all (keeps_box b) es \<Longrightarrow> same_box b v (fold mr_do es v)"
proof (induction es arbitrary: v)
  case (Cons e es)
  then have "same_box b v (mr_do e v)" "same_box b (mr_do e v) (fold mr_do es (mr_do e v))" by (simp_all add: same_box_do)
  then show ?case by (simp add: same_box_trans)
qed simp

text \<open>What the button sends depends on the box alone, once nothing is running.\<close>

lemma press_same:
  assumes "md_sent (press d me st files b v) = md_sent v @ [a]" and "same_box b v w" and "\<not> mr_busy w"
  shows "md_sent (press d me st files b w) = md_sent w @ [a]"
  using assms
  by (cases b) (auto simp: press_def same_box_def mr_send_defs mr_send_def send_line_def mr_selected_def split: if_splits option.splits)

lemma same_box_press: "same_box b v (press d me st files b v)"
  by (auto simp: press_def mr_send_defs send_line_def same_box_send split: Box.split option.split)

text \<open>
  Property C24. What was written is not lost when sending it fails, as long as the box stays open. Let the button of
  a comment, a review, a reply, a comment on a line or the title send something, and let anything happen then that
  does not close the box, type into it or send its text successfully: other boxes are used, other actions are
  confirmed, sent and answered, and the request fails before or after. The box then holds the text it held, and once
  nothing is running, in particular when the only running request fails, the same button sends the same again.
\<close>

theorem failed_text_can_be_sent_again:
  assumes "md_sent (press d me st files b v) = md_sent v @ [a]" and "list_all (keeps_box b) es"
  shows "let u = fold mr_do es (press d me st files b v) in
    same_box b v u \<and> (\<not> mr_busy u \<longrightarrow> md_sent (press d me st files b u) = md_sent u @ [a]) \<and>
    (md_flight u = [f] \<longrightarrow>
      (let w = mr_do (EvSettled f (Some err)) u in
        same_box b v w \<and> \<not> mr_busy w \<and> md_sent w = md_sent u \<and> md_sent (press d me st files b w) = md_sent u @ [a]))"
proof -
  let ?u = "fold mr_do es (press d me st files b v)"
  let ?w = "mr_do (EvSettled f (Some err)) ?u"
  have u: "same_box b v ?u" using same_box_press same_box_run [OF assms(2)] by (rule same_box_trans)
  have "same_box b ?u ?w" by (rule same_box_do) simp
  with u have w: "same_box b v ?w" by (rule same_box_trans)
  have free: "\<not> mr_busy ?w" "md_sent ?w = md_sent ?u" if "md_flight ?u = [f]"
    using that by (simp_all add: mr_busy_def mr_settled_def)
  show ?thesis unfolding Let_def using u w free press_same [OF assms(1) u] press_same [OF assms(1) w] by metis
qed

theorem failed_text_can_be_sent_again_witness:
  "md_sent (send_comment (sample_detail []) (mr_settled \<lparr>fl_action = AComment [] 0 0 ''hi'', fl_box = BoxComment, fl_mount = 0\<rparr> (Some ''offline'')
     (type_box BoxReview ''later'' (send_comment (sample_detail []) (type_box BoxComment ''hi'' (detail_open ''/w'' 7 None)))))) =
     [AComment [] 0 0 ''hi'', AComment [] 0 0 ''hi'']"
proof -
  let ?v = "type_box BoxComment ''hi'' (detail_open ''/w'' 7 None)" and ?d = "sample_detail []"
  let ?f = "\<lparr>fl_action = AComment [] 0 0 ''hi'', fl_box = BoxComment, fl_mount = 0\<rparr>"
  let ?u = "fold mr_do [EvType BoxReview ''later''] (press ?d None [] [] BoxComment ?v)"
  have sent: "md_sent (press ?d None [] [] BoxComment ?v) = md_sent ?v @ [AComment [] 0 0 ''hi'']" by code_simp
  have run: "md_flight ?u = [?f]" "md_sent ?u = [AComment [] 0 0 ''hi'']" by code_simp+
  have "list_all (keeps_box BoxComment) [EvType BoxReview ''later'']" by simp
  from failed_text_can_be_sent_again [OF sent this, of ?f "''offline''"] run
  have "md_sent (press ?d None [] [] BoxComment (mr_do (EvSettled ?f (Some ''offline'')) ?u)) = md_sent ?u @ [AComment [] 0 0 ''hi'']"
    by (simp only: Let_def)
  then show ?thesis using run by (simp add: press_def)
qed

text \<open>
  Closing the box is different: changing the tab and back while a comment is on its way empties the box, and
  when the comment then fails its text is lost.
\<close>

theorem tab_change_loses_text:
  "let v = fold mr_do [EvType BoxComment ''hi'', EvComment (sample_detail []), EvTab TabFiles, EvTab TabConversation,
       EvSettled \<lparr>fl_action = AComment [] 0 0 ''hi'', fl_box = BoxComment, fl_mount = 0\<rparr> (Some ''offline'')] (detail_open ''/w'' 7 None)
   in md_sent v = [AComment [] 0 0 ''hi''] \<and> md_flight v = [] \<and> md_notices v = [(''Could not comment: offline'', None)] \<and>
     box_text_of BoxComment v = []"
  by code_simp

lemma blockedReason_other:
  "blockedReason b \<noteq> ''Ready to merge''" "blockedReason b \<noteq> ''The target moved on; this strategy can still merge.''"
  by (auto simp: blockedReason_def blockers_def)

text \<open>
  The text of the merge box and its button agree: for every status the server has, the box says
  that the request can be merged exactly when the Merge button is enabled, and otherwise why not.
\<close>

theorem merge_box_agrees_with_button:
  assumes "ma_status (de_mergeability d) \<in> set [''mergeable'', ''behind_target'', ''up_to_date'', ''invalid'', ''merged'', ''closed'']"
  shows "canMerge d strategy \<longleftrightarrow>
    merge_text d strategy = ''Ready to merge'' \<or> merge_text d strategy = ''The target moved on; this strategy can still merge.''"
proof (cases "blockedReason (ma_blockedBy (de_mergeability d)) = []")
  case False
  then show ?thesis using blockedReason_other by (simp add: canMerge_def merge_text_def or_else_def Let_def)
next
  case True
  consider "ma_status (de_mergeability d) = ''mergeable''" | "ma_status (de_mergeability d) = ''behind_target''"
    | "ma_status (de_mergeability d) \<in> set [''up_to_date'', ''invalid'', ''merged'', ''closed'']"
    using assms by auto
  then show ?thesis
    using True by cases (auto simp: canMerge_def merge_text_def or_else_def mergeabilityText_def statuses_def coalesce_def)
qed

theorem merge_box_agrees_with_button_witness:
  "canMerge (sample_detail []) ''squash'' \<and> merge_text (sample_detail []) ''squash'' = ''The target moved on; this strategy can still merge.'' \<and>
   \<not> canMerge (sample_detail ''draft'') ''squash''"
proof -
  have st: "ma_status (de_mergeability (sample_detail b)) \<in> set [''mergeable'', ''behind_target'', ''up_to_date'', ''invalid'', ''merged'', ''closed'']" for b
    by (simp add: sample_detail_def)
  have "merge_text (sample_detail []) ''squash'' = ''The target moved on; this strategy can still merge.''"
    "merge_text (sample_detail ''draft'') ''squash'' = ''It is a draft. Mark it ready for review first.''" by code_simp+
  then show ?thesis using merge_box_agrees_with_button [OF st, of "[]" "''squash''"] merge_box_agrees_with_button [OF st, of "''draft''" "''squash''"]
    by simp
qed

text \<open>
  Next to a changed file stands the number of its threads: as many as the file shows on its lines
  and as outdated, those of the old path of a renamed file included, as long as no file was renamed from
  the path of another listed file.
\<close>

theorem file_count_matches_threads:
  assumes "renames_ok files" and "f \<in> set files" and "fd_path f \<noteq> []"
  shows "coalesce (js_map_get (thread_counts threads files) (fd_path f)) 0 =
    length (fst (fileThreads threads (fd_path f) (coalesce (fd_oldPath f) []))) +
    length (snd (fileThreads threads (fd_path f) (coalesce (fd_oldPath f) [])))"
proof -
  let ?old = "coalesce (fd_oldPath f) []"
  have ok: "distinct (map fd_path files)" "\<forall>g \<in> set files. \<forall>h \<in> set files. truthy (fd_oldPath g) \<longrightarrow> fd_oldPath g \<noteq> Some (fd_path h)"
    using assms(1) by (auto simp: renames_ok_def list_all_iff)
  have n: "count_at (fold count_thread threads []) p = (if p = [] then 0 else length (filter (\<lambda>t. t_path t = p) threads))" for p
    unfolding count_at_def count_threads by (simp add: js_map_get_def coalesce_def)
  have ne: "?old \<noteq> fd_path f" if "?old \<noteq> []"
    using ok(2) assms(2) that by (cases "fd_oldPath f") (auto simp: coalesce_def)
  have truth: "truthy (fd_oldPath f) \<longleftrightarrow> ?old \<noteq> []"
    by (cases "fd_oldPath f") (simp_all add: coalesce_def)
  let ?mine = "filter (\<lambda>t. t_path t = fd_path f \<or> (?old \<noteq> [] \<and> t_path t = ?old)) threads"
  have "length ?mine = length (filter (\<lambda>t. t_path t = fd_path f) threads) + length (filter (\<lambda>t. ?old \<noteq> [] \<and> t_path t = ?old) threads)"
    using ne by (intro length_filter_disj) auto
  moreover have "count_at (thread_counts threads files) (fd_path f) =
      length (filter (\<lambda>t. t_path t = fd_path f) threads) + length (filter (\<lambda>t. ?old \<noteq> [] \<and> t_path t = ?old) threads)"
    unfolding thread_counts_def count_renamed_file [OF ok(1) assms(2) ok(2)] n truth using assms(3) by simp
  moreover have "length (fst (fileThreads threads (fd_path f) ?old)) + length (snd (fileThreads threads (fd_path f) ?old)) = length ?mine"
    unfolding fileThreads_def Let_def fst_conv snd_conv by (rule length_filter_split)
  ultimately show ?thesis by (simp add: count_at_def)
qed

definition mr_sample_file :: "string \<Rightarrow> string option \<Rightarrow> FileDiff" where
  "mr_sample_file path old = \<lparr>fd_path = path, fd_oldPath = old, fd_status = ''modified'', fd_kind = ''text'', fd_similarity = None, fd_old = None,
     fd_new = None, fd_additions = 1, fd_deletions = 0,
     fd_hunks = Some [\<lparr>dh_oldStart = 1, dh_oldLines = 1, dh_newStart = 1, dh_newLines = 2,
       dh_lines = Some [\<lparr>dl_kind = ''context'', dl_old = 1, dl_new = 1, dl_text = ''a'', dl_noNewline = None\<rparr>,
         \<lparr>dl_kind = ''added'', dl_old = 0, dl_new = 2, dl_text = ''b'', dl_noNewline = None\<rparr>]\<rparr>],
     fd_hunksOmitted = None, fd_contentUnavailable = None, fd_untracked = None, fd_oldRevision = None, fd_newRevision = Some ''c2''\<rparr>"

definition mr_sample_thread :: "string \<Rightarrow> string \<Rightarrow> int \<Rightarrow> Thread" where
  "mr_sample_thread i path n = \<lparr>t_id = i, t_path = path, t_oldLine = 0, t_newLine = n, t_outdated = False, t_resolved = False,
     t_resolvedBy = [], t_createdAt = [], t_comments = []\<rparr>"

theorem file_count_matches_threads_witness:
  "coalesce (js_map_get (thread_counts [mr_sample_thread ''1'' ''b'' 1, mr_sample_thread ''2'' ''a'' 2] [mr_sample_file ''b'' (Some ''a'')]) ''b'') 0 = 2"
proof -
  let ?f = "mr_sample_file ''b'' (Some ''a'')" and ?ts = "[mr_sample_thread ''1'' ''b'' 1, mr_sample_thread ''2'' ''a'' 2]"
  have "renames_ok [?f]" "length (fst (fileThreads ?ts ''b'' ''a'')) + length (snd (fileThreads ?ts ''b'' ''a'')) = 2" by code_simp+
  then show ?thesis
    using file_count_matches_threads [of "[?f]" ?f ?ts] by (simp add: mr_sample_file_def coalesce_def)
qed

text \<open>With a chain of renames the count of the last file has the threads of the first as well.\<close>

lemma chained_rename_count:
  "coalesce (js_map_get (thread_counts [mr_sample_thread ''1'' ''a'' 1] [mr_sample_file ''b'' (Some ''a''), mr_sample_file ''c'' (Some ''b'')]) ''c'') 0 = 1 \<and>
   fileThreads [mr_sample_thread ''1'' ''a'' 1] ''c'' ''b'' = ([], [])"
  by code_simp

lemma threads_at_line:
  "concat (map fst (render_at (Some (mr_comments threads f canComment v)) a)) =
     filter (\<lambda>t. threadAt t a) (fst (fileThreads threads (fd_path f) (coalesce (fd_oldPath f) [])))"
  by (simp add: render_at_def mr_comments_def Let_def)

lemma concat_map_concat: "concat (map g (concat (map f xs))) = concat (map (\<lambda>x. concat (map g (f x))) xs)"
  by (induction xs) simp_all

lemma count_list_filters:
  "count_list (concat (map (\<lambda>l. filter (\<lambda>t. P t l) ts) ls)) t = count_list ts t * length (filter (P t) ls)"
proof -
  have "count_list (filter (\<lambda>t. P t l) ts) t = (if P t l then count_list ts t else 0)" for l
    by (induction ts) auto
  then show ?thesis by (induction ls) simp_all
qed

text \<open>
  Every thread on a line of the file is shown in the diff: in both layouts it stands under each
  line it is anchored to and nowhere else, so exactly once when the diff has one such line.
\<close>

theorem threads_shown_on_their_lines:
  "count_list (concat (map fst (concat (map row_notes (TextDiff split f (Some (mr_comments threads f canComment v))))))) t =
     count_list (fst (fileThreads threads (fd_path f) (coalesce (fd_oldPath f) []))) t *
     length (filter (\<lambda>l. threadAt t (line_anchor l)) (diff_lines f))"
proof -
  let ?cs = "Some (mr_comments threads f canComment v)"
  have "count_list (concat (map fst (concat (map row_notes (TextDiff split f ?cs))))) t =
      count_list (concat (map fst (concat (map (\<lambda>l. render_at ?cs (line_anchor l)) (diff_lines f))))) t"
    unfolding count_mset [symmetric] using mset_concat_map_cong [OF text_notes_lines(2) [of split f ?cs], of fst] by simp
  then show ?thesis unfolding concat_map_concat threads_at_line count_list_filters .
qed

text \<open>
  The dialog for a new merge request can open one from a branch into itself: a target stays chosen
  when its branch is then made the source, although the list of targets no longer offers it, and the
  request is sent. Without a chosen target the two branches always differ.
\<close>

theorem new_request_into_itself:
  assumes "map bn_name (coalesce branches []) = [''main'', ''fix'']" and "js_trim title \<noteq> []"
  shows "(let n = choose_source branches ''fix'' (choose_target branches ''fix'' (new_text title [] False (new_mount ''main'')))
     in nm_source n = ''fix'' \<and> new_into branches n = ''fix'' \<and> ''fix'' \<notin> set (target_options branches n) \<and>
        fst (new_submit r branches n) = Some (new_call r branches n)) \<and>
    (nm_target n0 = [] \<and> new_enabled branches n0 \<longrightarrow> new_into branches n0 \<noteq> nm_source n0)"
  using assms
  by (simp_all add: Let_def choose_source_def choose_target_def new_text_def new_mount_def source_options_def target_options_def
      new_into_def or_else_def new_submit_def new_enabled_def split: if_splits)

theorem new_request_into_itself_witness:
  "fst (new_submit ''/w'' (Some [\<lparr>bn_name = ''main'', bn_commitId = [], bn_default = True, bn_protected = True\<rparr>,
        \<lparr>bn_name = ''fix'', bn_commitId = [], bn_default = False, bn_protected = False\<rparr>])
      (choose_source (Some [\<lparr>bn_name = ''main'', bn_commitId = [], bn_default = True, bn_protected = True\<rparr>,
        \<lparr>bn_name = ''fix'', bn_commitId = [], bn_default = False, bn_protected = False\<rparr>]) ''fix''
        (choose_target (Some [\<lparr>bn_name = ''main'', bn_commitId = [], bn_default = True, bn_protected = True\<rparr>,
          \<lparr>bn_name = ''fix'', bn_commitId = [], bn_default = False, bn_protected = False\<rparr>]) ''fix'' (new_text ''T'' [] False (new_mount ''main''))))) \<noteq> None"
proof -
  let ?b = "Some [\<lparr>bn_name = ''main'', bn_commitId = [], bn_default = True, bn_protected = True\<rparr>,
        \<lparr>bn_name = ''fix'', bn_commitId = [], bn_default = False, bn_protected = False\<rparr>]"
  have "map bn_name (coalesce ?b []) = [''main'', ''fix'']" "js_trim ''T'' \<noteq> []" by code_simp+
  from new_request_into_itself [OF this, of "''/w''"] show ?thesis by (simp add: Let_def)
qed

end
