(* ===== verification/Mr_Page.thy ===== *)
theory Mr_Page
  imports Merge_Request Web_Diff Repo_Pages
begin

text \<open>
  The page of a merge request in the web client: \<open>MergeRequestPage.tsx\<close>, which runs the actions and the
  comments, the tab in the address, the cards of review threads (\<open>ThreadCard.tsx\<close>), the changed files
  (\<open>ChangesView.tsx\<close>) and the commits (\<open>MergeRequestCommits.tsx\<close>). Requests that were sent stay in the state
  until they are answered, in any order; the loaded data are inputs.
\<close>

section \<open>The page\<close>

text \<open>What \<open>run\<close> and \<open>runComment\<close> wait for; the anchor is that of a new inline thread.\<close>

datatype PageAction = RunAction ApiCall | CommentAction ApiCall "DiffAnchor option"

record MrPage =
  gp_actionError :: "string option"
  gp_commentBusy :: bool
  gp_commentError :: "string option"
  gp_draftAnchor :: "DiffAnchor option"
  gp_editOpen :: bool
  gp_params :: params
  gp_flight :: "PageAction list"
  gp_sent :: "ApiCall list"
  gp_reloads :: "string list"

definition page_mount :: "params \<Rightarrow> MrPage" where
  "page_mount ps = \<lparr>gp_actionError = None, gp_commentBusy = False, gp_commentError = None, gp_draftAnchor = None,
     gp_editOpen = False, gp_params = ps, gp_flight = [], gp_sent = [], gp_reloads = []\<rparr>"

definition page_tab :: "MrPage \<Rightarrow> string" where
  "page_tab p = coalesce (js_map_get (gp_params p) ''tab'') ''overview''"

definition selectTab :: "string \<Rightarrow> MrPage \<Rightarrow> MrPage" where
  "selectTab t p = p\<lparr>gp_params :=
     (if t = ''overview'' then filter (\<lambda>e. fst e \<noteq> ''tab'') (gp_params p) else js_map_set (gp_params p) ''tab'' t)\<rparr>"

definition reloadAll :: "MrPage \<Rightarrow> MrPage" where
  "reloadAll p = p\<lparr>gp_reloads := gp_reloads p @
     [''request'', ''state'', ''reviews'', ''threads'', ''reviewRequests'', ''timeline'', ''checks'']\<rparr>"

definition page_run :: "ApiCall \<Rightarrow> MrPage \<Rightarrow> MrPage" where
  "page_run call p = p\<lparr>gp_actionError := None, gp_flight := gp_flight p @ [RunAction call], gp_sent := gp_sent p @ [call]\<rparr>"

definition runComment :: "ApiCall \<Rightarrow> DiffAnchor option \<Rightarrow> MrPage \<Rightarrow> MrPage" where
  "runComment call inline p =
     p\<lparr>gp_commentBusy := True, gp_commentError := None,
       gp_flight := gp_flight p @ [CommentAction call inline], gp_sent := gp_sent p @ [call]\<rparr>"

text \<open>The answer; the error message, if it failed.\<close>

definition page_settled :: "PageAction \<Rightarrow> string option \<Rightarrow> MrPage \<Rightarrow> MrPage" where
  "page_settled a err p =
     (let q = p\<lparr>gp_flight := remove1 a (gp_flight p)\<rparr> in
      case a of
        RunAction call \<Rightarrow> (case err of None \<Rightarrow> reloadAll q | Some e \<Rightarrow> q\<lparr>gp_actionError := Some e\<rparr>)
      | CommentAction call inline \<Rightarrow>
          (case err of
             None \<Rightarrow> q\<lparr>gp_reloads := gp_reloads q @ [''threads''], gp_commentBusy := False,
               gp_draftAnchor := (if inline = None then gp_draftAnchor q else None)\<rparr>
           | Some e \<Rightarrow>
               if inline = None then q\<lparr>gp_actionError := Some e, gp_commentBusy := False\<rparr>
               else q\<lparr>gp_commentError := Some e, gp_commentBusy := False\<rparr>))"

definition submitDraft :: "string \<Rightarrow> string \<Rightarrow> string \<Rightarrow> DiffAnchor \<Rightarrow> string \<Rightarrow> MrPage \<Rightarrow> MrPage" where
  "submitDraft org project i a body p =
     runComment (addMergeRequestComment org project i
       \<lparr>tc_file_path = an_filePath a, tc_old_line = Web_Diff.an_oldLine a, tc_new_line = Web_Diff.an_newLine a, tc_body = body\<rparr>) (Some a) p"

definition onStartThread :: "DiffAnchor \<Rightarrow> MrPage \<Rightarrow> MrPage" where
  "onStartThread a p = p\<lparr>gp_commentError := None, gp_draftAnchor := Some a\<rparr>"

definition onCancelDraft :: "MrPage \<Rightarrow> MrPage" where
  "onCancelDraft p = p\<lparr>gp_draftAnchor := None, gp_commentError := None\<rparr>"

definition setEditOpen :: "bool \<Rightarrow> MrPage \<Rightarrow> MrPage" where
  "setEditOpen b p = p\<lparr>gp_editOpen := b\<rparr>"

definition dismiss_error :: "MrPage \<Rightarrow> MrPage" where
  "dismiss_error p = p\<lparr>gp_actionError := None\<rparr>"

definition page_canComment :: "bool \<Rightarrow> MergeRequestResponse option \<Rightarrow> bool" where
  "page_canComment canWrite request \<longleftrightarrow> canWrite \<and> map_option mr_status request = Some ''open''"

definition page_canEdit :: "string option \<Rightarrow> bool \<Rightarrow> MergeRequestResponse option \<Rightarrow> bool" where
  "page_canEdit me canAdmin request = (case request of
     None \<Rightarrow> False | Some r \<Rightarrow> mr_status r = ''open'' \<and> (me = Some (mr_created_by r) \<or> canAdmin))"

text \<open>Ready for review: an empty title and description stand for unchanged ones.\<close>

definition ready_for_review :: "string \<Rightarrow> string \<Rightarrow> string \<Rightarrow> MrPage \<Rightarrow> MrPage" where
  "ready_for_review org project i p = page_run (updateMergeRequest org project i [] [] (Some False)) p"

text \<open>The dialog asks first; \<open>ok\<close> is the answer.\<close>

definition closeRequest :: "string \<Rightarrow> string \<Rightarrow> string \<Rightarrow> bool \<Rightarrow> MrPage \<Rightarrow> MrPage" where
  "closeRequest org project i ok p = (if ok then page_run (closeMergeRequest org project i) p else p)"

definition reopenRequest :: "string \<Rightarrow> string \<Rightarrow> string \<Rightarrow> MrPage \<Rightarrow> MrPage" where
  "reopenRequest org project i p = page_run (reopenMergeRequest org project i) p"

definition mergeRequest_merge :: "string \<Rightarrow> string \<Rightarrow> string \<Rightarrow> string \<Rightarrow> bool \<Rightarrow> MrPage \<Rightarrow> MrPage" where
  "mergeRequest_merge org project i strategy deleteSource p = page_run (mergeMergeRequest org project i strategy deleteSource) p"

text \<open>The banner shows the first error there is, those of the loads in their order.\<close>

definition page_error :: "string option list \<Rightarrow> MrPage \<Rightarrow> string option" where
  "page_error loads p = (case filter (\<lambda>e. e \<noteq> None) (gp_actionError p # loads) of [] \<Rightarrow> None | e # _ \<Rightarrow> e)"

definition stateLabelStatus :: "string \<Rightarrow> string" where
  "stateLabelStatus status =
     (if status = ''merged'' then ''pullMerged'' else if status = ''closed'' then ''pullClosed'' else ''pullOpened'')"

definition stateLabelText :: "string \<Rightarrow> string" where
  "stateLabelText status =
     (if status = ''merged'' then ''Merged'' else if status = ''closed'' then ''Closed'' else ''Open'')"

definition wants_to_merge :: "ActorLike option \<Rightarrow> nat \<Rightarrow> MergeRequestResponse \<Rightarrow> string" where
  "wants_to_merge author n r =
     actorName author @ '' wants to merge '' @ js_show_nat n @ '' commit'' @ (if n = 1 then [] else ''s'') @ '' into '' @
     mr_target_branch r @ '' from '' @ mr_source_branch r"

subsection \<open>Editing\<close>

record EditDialog =
  ed_title :: string
  ed_description :: string
  ed_draft :: bool
  ed_form :: FormDialog

definition edit_mount :: "MergeRequestResponse \<Rightarrow> EditDialog" where
  "edit_mount r = \<lparr>ed_title = mr_title r, ed_description = mr_description r, ed_draft = mr_draft r, ed_form = form_open\<rparr>"

definition edit_submit :: "string \<Rightarrow> string \<Rightarrow> string \<Rightarrow> EditDialog \<Rightarrow> ApiCall option \<times> EditDialog" where
  "edit_submit org project i d =
     (case form_submit (js_trim (ed_title d) = []) (ed_form d) of
        (f, sent) \<Rightarrow>
          (if sent then Some (updateMergeRequest org project i (js_trim (ed_title d)) (ed_description d) (Some (ed_draft d))) else None,
           d\<lparr>ed_form := f\<rparr>))"

section \<open>The card of a thread\<close>

record ThreadCardState =
  tk_replyOpen :: bool
  tk_replyBody :: string
  tk_editingId :: "string option"
  tk_editBody :: string

definition card_mount :: ThreadCardState where
  "card_mount = \<lparr>tk_replyOpen = False, tk_replyBody = [], tk_editingId = None, tk_editBody = []\<rparr>"

definition card_label :: "ThreadResponse \<Rightarrow> string" where
  "card_label t =
     (if truthy (th_file_path t)
      then (if th_side t = ''left'' then ''old'' else ''new'') @ '' line '' @
        (case th_new_line t of Some n \<Rightarrow> js_show_int n
         | None \<Rightarrow> (case th_old_line t of Some n \<Rightarrow> js_show_int n | None \<Rightarrow> ''?''))
      else ''conversation'')"

definition open_reply :: "ThreadCardState \<Rightarrow> ThreadCardState" where
  "open_reply k = k\<lparr>tk_replyOpen := True\<rparr>"

definition cancel_reply :: "ThreadCardState \<Rightarrow> ThreadCardState" where
  "cancel_reply k = k\<lparr>tk_replyOpen := False\<rparr>"

definition type_reply :: "string \<Rightarrow> ThreadCardState \<Rightarrow> ThreadCardState" where
  "type_reply s k = k\<lparr>tk_replyBody := s\<rparr>"

definition send_thread_reply :: "bool \<Rightarrow> ThreadCardState \<Rightarrow> string option \<times> ThreadCardState" where
  "send_thread_reply busy k =
     (if tk_replyOpen k \<and> \<not> busy \<and> js_trim (tk_replyBody k) \<noteq> []
      then (Some (js_trim (tk_replyBody k)), k\<lparr>tk_replyBody := [], tk_replyOpen := False\<rparr>) else (None, k))"

definition comment_editable :: "bool \<Rightarrow> string option \<Rightarrow> CommentResponse \<Rightarrow> bool" where
  "comment_editable canWrite me c \<longleftrightarrow> canWrite \<and> me = Some (ra_user_id (cm_user c))"

definition edit_comment :: "bool \<Rightarrow> bool \<Rightarrow> string option \<Rightarrow> CommentResponse \<Rightarrow> ThreadCardState \<Rightarrow> ThreadCardState" where
  "edit_comment canWrite busy me c k =
     (if comment_editable canWrite me c \<and> \<not> busy
      then k\<lparr>tk_editingId := Some (CommentResponse.cm_id c), tk_editBody := cm_body c\<rparr> else k)"

definition type_edit :: "string \<Rightarrow> ThreadCardState \<Rightarrow> ThreadCardState" where
  "type_edit s k = k\<lparr>tk_editBody := s\<rparr>"

definition cancel_edit :: "ThreadCardState \<Rightarrow> ThreadCardState" where
  "cancel_edit k = k\<lparr>tk_editingId := None\<rparr>"

definition save_comment :: "bool \<Rightarrow> ThreadCardState \<Rightarrow> (string \<times> string) option \<times> ThreadCardState" where
  "save_comment busy k = (case tk_editingId k of
     Some i \<Rightarrow> if \<not> busy \<and> js_trim (tk_editBody k) \<noteq> [] then (Some (i, js_trim (tk_editBody k)), k\<lparr>tk_editingId := None\<rparr>) else (None, k)
   | None \<Rightarrow> (None, k))"

definition card_buttons :: "bool \<Rightarrow> bool \<Rightarrow> bool \<Rightarrow> bool \<Rightarrow> string option \<Rightarrow> ThreadResponse \<Rightarrow> ThreadCardState \<Rightarrow> (string \<times> bool) list" where
  "card_buttons canWrite canAdmin conversation_view busy me t k =
     (if \<not> canWrite \<or> tk_replyOpen k then []
      else [(''Reply'', True)] @
        (if \<not> conversation_view \<or> truthy (th_file_path t) then [(if th_resolved t then ''Reopen'' else ''Resolve'', \<not> busy)] else []) @
        (if me = Some (ra_user_id (th_created_by t)) \<or> canAdmin then [(''Delete thread'', \<not> busy)] else []))"

text \<open>What the cards of threads ask the page to send.\<close>

datatype ThreadAction =
    ReplyThread string string
  | ResolveThread string bool
  | EditComment string string string
  | DeleteComment string string
  | DeleteThread string

fun thread_call :: "string \<Rightarrow> string \<Rightarrow> string \<Rightarrow> ThreadAction \<Rightarrow> ApiCall" where
  "thread_call org project i (ReplyThread t body) = replyMergeRequestThread org project i t body"
| "thread_call org project i (ResolveThread t resolved) = resolveMergeRequestThread org project i t resolved"
| "thread_call org project i (EditComment t c body) = updateMergeRequestComment org project i t c body"
| "thread_call org project i (DeleteComment t c) = deleteMergeRequestComment org project i t c"
| "thread_call org project i (DeleteThread t) = deleteMergeRequestThread org project i t"

definition threadActions :: "string \<Rightarrow> string \<Rightarrow> string \<Rightarrow> ThreadAction \<Rightarrow> MrPage \<Rightarrow> MrPage" where
  "threadActions org project i a p = runComment (thread_call org project i a) None p"

text \<open>The reply of a card reaches the server through the page.\<close>

definition page_reply :: "string \<Rightarrow> string \<Rightarrow> string \<Rightarrow> ThreadResponse \<Rightarrow> ThreadCardState \<times> MrPage \<Rightarrow> ThreadCardState \<times> MrPage" where
  "page_reply org project i t kp = (case send_thread_reply (gp_commentBusy (snd kp)) (fst kp) of
     (None, k) \<Rightarrow> (k, snd kp)
   | (Some body, k) \<Rightarrow> (k, threadActions org project i (ReplyThread (th_id t) body) (snd kp)))"

section \<open>Changed files\<close>

record ChangesView =
  cx_mode :: ViewMode
  cx_filter :: string
  cx_viewed :: "string list"
  cx_collapsed :: "string list"

definition changes_mount :: ChangesView where
  "changes_mount = \<lparr>cx_mode = SplitMode, cx_filter = [], cx_viewed = [], cx_collapsed = []\<rparr>"

definition changes_query :: "ChangesView \<Rightarrow> string" where
  "changes_query v = js_toLowerCase (js_trim (cx_filter v))"

definition file_matches :: "string \<Rightarrow> DiffFileResponse \<Rightarrow> bool" where
  "file_matches query f \<longleftrightarrow> js_includes (js_toLowerCase (df_path f)) query \<or>
     (case df_old_path f of Some o1 \<Rightarrow> js_includes (js_toLowerCase o1) query | None \<Rightarrow> False)"

definition visible_files :: "DiffFileResponse list \<Rightarrow> ChangesView \<Rightarrow> DiffFileResponse list" where
  "visible_files files v = (if changes_query v \<noteq> [] then filter (file_matches (changes_query v)) files else files)"

definition toggleValue :: "string list \<Rightarrow> string \<Rightarrow> bool \<Rightarrow> string list" where
  "toggleValue xs path b = (if b then (if path \<in> set xs then xs else xs @ [path]) else filter (\<lambda>x. x \<noteq> path) xs)"

definition onToggleViewed :: "string \<Rightarrow> bool \<Rightarrow> ChangesView \<Rightarrow> ChangesView" where
  "onToggleViewed path b v = v\<lparr>cx_viewed := toggleValue (cx_viewed v) path b\<rparr>"

definition onToggleCollapsed :: "string \<Rightarrow> ChangesView \<Rightarrow> ChangesView" where
  "onToggleCollapsed path v = v\<lparr>cx_collapsed := toggleValue (cx_collapsed v) path (path \<notin> set (cx_collapsed v))\<rparr>"

definition setFilter :: "string \<Rightarrow> ChangesView \<Rightarrow> ChangesView" where
  "setFilter s v = v\<lparr>cx_filter := s\<rparr>"

definition setMode :: "nat \<Rightarrow> ChangesView \<Rightarrow> ChangesView" where
  "setMode index v = v\<lparr>cx_mode := (if index = 0 then UnifiedMode else SplitMode)\<rparr>"

text \<open>The bar of additions and deletions: the share of additions in percent, and the numbers.\<close>

definition DiffStat :: "int \<Rightarrow> int \<Rightarrow> rat option \<times> string" where
  "DiffStat additions deletions =
     (if additions + deletions > 0 then Some (of_int additions / of_int (additions + deletions) * 100) else None,
      ''+'' @ js_show_int additions @ '' '' @ [CHR 0xE2, CHR 0x88, CHR 0x92] @ js_show_int deletions)"

record ChangesPane =
  cp_heading :: string
  cp_stat :: "rat option \<times> string"
  cp_empty :: "string option"
  cp_files :: "(string \<times> bool \<times> bool) list"

definition ChangesPane_of :: "DiffFileResponse list \<Rightarrow> ChangesView \<Rightarrow> ChangesPane" where
  "ChangesPane_of files v =
     (let visible = visible_files files v; n = length visible in
      \<lparr>cp_heading = js_show_nat n @ '' file'' @ (if n = 1 then [] else ''s'') @ '' changed'',
       cp_stat = DiffStat (foldl (\<lambda>sum f. sum + df_additions f) 0 files) (foldl (\<lambda>sum f. sum + df_deletions f) 0 files),
       cp_empty = (if visible = [] then Some (if changes_query v \<noteq> [] then ''No files match the filter.'' else ''No file changes.'') else None),
       cp_files = map (\<lambda>f. (df_path f, df_path f \<in> set (cx_viewed v), df_path f \<in> set (cx_collapsed v))) visible\<rparr>)"

section \<open>Commits\<close>

definition web_commitTitle :: "string \<Rightarrow> string" where
  "web_commitTitle message = (let t = js_trim (hd (js_split js_nl message)) in if t \<noteq> [] then t else ''Untitled commit'')"

definition commitAuthor :: "CommitResponse \<Rightarrow> string \<times> string" where
  "commitAuthor c =
     (if truthy (cm_author_email c) then coalesce (cm_author_email c) [] else CommitResponse.cm_id c,
      if truthy (cm_author_name c) then coalesce (cm_author_name c) []
      else if truthy (cm_author_email c) then coalesce (cm_author_email c) [] else ''unknown'')"

text \<open>The commits, oldest first: link, title and author.\<close>

definition MergeRequestCommits :: "string \<Rightarrow> string \<Rightarrow> CommitResponse list \<Rightarrow> (string \<times> string \<times> string \<times> string) list" where
  "MergeRequestCommits org project commits =
     map (\<lambda>c. (''/'' @ org @ ''/'' @ project @ ''/commits/'' @ CommitResponse.cm_id c, web_commitTitle (cm_message c), snd (commitAuthor c),
            shortSha (CommitResponse.cm_id c) 7)) (rev commits)"

section \<open>Reachable states\<close>

inductive page_reach :: "string \<Rightarrow> string \<Rightarrow> string \<Rightarrow> MrPage \<Rightarrow> bool" for org project i where
  mount: "page_reach org project i (page_mount ps)"
| tab: "page_reach org project i p \<Longrightarrow> page_reach org project i (selectTab t p)"
| run: "page_reach org project i p \<Longrightarrow> page_reach org project i (page_run call p)"
| comment: "page_reach org project i p \<Longrightarrow> page_reach org project i (threadActions org project i act p)"
| draft: "page_reach org project i p \<Longrightarrow> page_reach org project i (submitDraft org project i a body p)"
| start: "page_reach org project i p \<Longrightarrow> page_reach org project i (onStartThread a p)"
| cancel: "page_reach org project i p \<Longrightarrow> page_reach org project i (onCancelDraft p)"
| edit: "page_reach org project i p \<Longrightarrow> page_reach org project i (setEditOpen b p)"
| dismiss: "page_reach org project i p \<Longrightarrow> page_reach org project i (dismiss_error p)"
| settled: "page_reach org project i p \<Longrightarrow> a \<in> set (gp_flight p) \<Longrightarrow> page_reach org project i (page_settled a err p)"

definition is_comment :: "PageAction \<Rightarrow> bool" where
  "is_comment a = (case a of CommentAction _ _ \<Rightarrow> True | RunAction _ \<Rightarrow> False)"

definition busy_ok :: "MrPage \<Rightarrow> bool" where
  "busy_ok p \<longleftrightarrow> (gp_commentBusy p \<longrightarrow> list_ex is_comment (gp_flight p))"

lemma list_ex_remove1: "\<not> P x \<Longrightarrow> list_ex P (remove1 x xs) = list_ex P xs"
  by (induction xs) auto

lemma busy_settled: "busy_ok p \<Longrightarrow> busy_ok (page_settled a err p)"
  by (cases a; cases err) (simp_all add: busy_ok_def page_settled_def Let_def reloadAll_def list_ex_remove1 is_comment_def)

lemma page_busy: "page_reach org project i p \<Longrightarrow> busy_ok p"
proof (induction rule: page_reach.induct)
  case (settled p a err)
  then show ?case by (intro busy_settled)
qed (auto simp: busy_ok_def page_mount_def selectTab_def page_run_def runComment_def submitDraft_def threadActions_def onStartThread_def
    onCancelDraft_def setEditOpen_def dismiss_error_def is_comment_def)

lemma get_filter_key: "js_map_get (filter (\<lambda>e. fst e \<noteq> k) m) x = (if x = k then None else js_map_get m x)"
  by (induction m) (auto simp: js_map_get_def)

lemma set_toggleValue: "set (toggleValue xs path b) = (if b then insert path (set xs) else set xs - {path})"
  by (auto simp: toggleValue_def)

section \<open>Properties\<close>

text \<open>
  The comment buttons of the page are never stuck: they are disabled only while a comment is on its
  way, so they are enabled again when everything that was sent has been answered. A new inline thread
  that fails keeps its form open and shows the error there; one that succeeds closes it and reloads the
  threads.
\<close>

theorem comments_never_stuck:
  assumes "page_reach org project i p"
  shows "(gp_commentBusy p \<longrightarrow> list_ex is_comment (gp_flight p)) \<and> (gp_flight p = [] \<longrightarrow> \<not> gp_commentBusy p) \<and>
    (let q = submitDraft org project i a body p; act = last (gp_flight q) in
      gp_commentBusy q \<and> gp_commentError q = None \<and>
      gp_draftAnchor (page_settled act (Some e) q) = gp_draftAnchor p \<and> gp_commentError (page_settled act (Some e) q) = Some e \<and>
      gp_draftAnchor (page_settled act None q) = None \<and> gp_reloads (page_settled act None q) = gp_reloads p @ [''threads''])"
  using page_busy [OF assms] by (auto simp: busy_ok_def submitDraft_def runComment_def page_settled_def Let_def)

definition sample_anchor :: "int \<Rightarrow> DiffAnchor" where
  "sample_anchor n = DiffAnchor.make ''a.txt'' None (Some n)"

theorem comments_never_stuck_witness:
  "list_ex is_comment (gp_flight (submitDraft ''o'' ''p'' ''1'' (sample_anchor 3) ''hi'' (page_mount []))) \<and>
   gp_draftAnchor (page_settled (last (gp_flight (submitDraft ''o'' ''p'' ''1'' (sample_anchor 3) ''hi'' (onStartThread (sample_anchor 3) (page_mount [])))))
     (Some ''offline'') (submitDraft ''o'' ''p'' ''1'' (sample_anchor 3) ''hi'' (onStartThread (sample_anchor 3) (page_mount [])))) = Some (sample_anchor 3)"
proof -
  have 1: "page_reach ''o'' ''p'' ''1'' (submitDraft ''o'' ''p'' ''1'' (sample_anchor 3) ''hi'' (page_mount []))"
    by (intro page_reach.intros)
  have 2: "page_reach ''o'' ''p'' ''1'' (onStartThread (sample_anchor 3) (page_mount []))" by (intro page_reach.intros)
  have "gp_commentBusy (submitDraft ''o'' ''p'' ''1'' (sample_anchor 3) ''hi'' (page_mount []))"
    by (simp add: submitDraft_def runComment_def)
  moreover have "gp_draftAnchor (onStartThread (sample_anchor 3) (page_mount [])) = Some (sample_anchor 3)" by (simp add: onStartThread_def)
  ultimately show ?thesis
    using comments_never_stuck [OF 1, of "sample_anchor 3"] comments_never_stuck [OF 2, of "sample_anchor 3" "''hi''" "''offline''"]
    by (simp add: Let_def)
qed

text \<open>
  The tab of the page is kept in the address: selecting a tab makes it the current one, the
  overview leaves no trace, and every other parameter of the address stays as it was.
\<close>

theorem tab_is_in_the_address:
  "page_tab (selectTab t p) = t \<and>
   js_map_get (gp_params (selectTab t p)) ''tab'' = (if t = ''overview'' then None else Some t) \<and>
   (k = ''tab'' \<or> js_map_get (gp_params (selectTab t p)) k = js_map_get (gp_params p) k)"
  by (auto simp: page_tab_def selectTab_def get_filter_key js_map.get_put coalesce_def)

text \<open>
  Marking a file of the changes as viewed, or folding it, changes this file and no other, and does
  not change which files are listed; the files listed are those whose path or old path contains the
  filter, upper or lower case.
\<close>

theorem file_marks_are_independent:
  "cp_files (ChangesPane_of files (onToggleViewed path b v)) =
     map (\<lambda>(p, viewed, folded). (p, if p = path then b else viewed, folded)) (cp_files (ChangesPane_of files v)) \<and>
   cp_files (ChangesPane_of files (onToggleCollapsed path v)) =
     map (\<lambda>(p, viewed, folded). (p, viewed, if p = path then \<not> folded else folded)) (cp_files (ChangesPane_of files v)) \<and>
   map fst (cp_files (ChangesPane_of files v)) = map df_path (filter (file_matches (changes_query v)) files)"
proof -
  have "js_includes s []" for s by (simp add: js_includes_iff) (metis append_Nil)
  then have all: "file_matches [] f" for f by (simp add: file_matches_def)
  have vis: "visible_files files v = filter (file_matches (changes_query v)) files"
    by (simp add: visible_files_def all)
  have same: "visible_files files (onToggleViewed path b v) = visible_files files v"
    "visible_files files (onToggleCollapsed path v) = visible_files files v"
    by (simp_all add: visible_files_def changes_query_def onToggleViewed_def onToggleCollapsed_def)
  show ?thesis
    unfolding ChangesPane_of_def Let_def same by (auto simp: vis onToggleViewed_def onToggleCollapsed_def set_toggleValue)
qed

text \<open>
  A reply whose sending fails is lost: the card of the thread clears its text and closes when the
  reply is sent, and the error shown later does not bring it back. (The form of a new inline thread
  keeps its text, and so does the desktop client.)
\<close>

theorem failed_reply_is_lost:
  assumes "tk_replyOpen k" "js_trim (tk_replyBody k) \<noteq> []" "\<not> gp_commentBusy p"
  shows "case page_reply org project i t (k, p) of (k', q) \<Rightarrow>
    gp_sent q = gp_sent p @ [replyMergeRequestThread org project i (th_id t) (js_trim (tk_replyBody k))] \<and>
    gp_actionError (page_settled (last (gp_flight q)) (Some e) q) = Some e \<and>
    tk_replyBody k' = [] \<and> \<not> tk_replyOpen k' \<and> fst (send_thread_reply False (open_reply k')) = None"
  using assms by (simp add: page_reply_def threadActions_def send_thread_reply_def runComment_def page_settled_def Let_def open_reply_def js_trim_def)

theorem failed_reply_is_lost_witness:
  "case page_reply ''o'' ''p'' ''1'' sample_thread (type_reply ''thanks'' (open_reply card_mount), page_mount []) of (k', q) \<Rightarrow>
     tk_replyBody k' = [] \<and> gp_actionError (page_settled (last (gp_flight q)) (Some ''offline'') q) = Some ''offline''"
proof -
  have "tk_replyOpen (type_reply ''thanks'' (open_reply card_mount))"
    "js_trim (tk_replyBody (type_reply ''thanks'' (open_reply card_mount))) \<noteq> []"
    "\<not> gp_commentBusy (page_mount [])" by code_simp+
  from failed_reply_is_lost [OF this, of "''o''" "''p''" "''1''" sample_thread "''offline''"]
  show ?thesis by (simp split: prod.splits)
qed

text \<open>
  A new inline thread that succeeds late closes the form of another line that was opened meanwhile.
\<close>

lemma late_thread_closes_other_form:
  "let p = onStartThread (sample_anchor 9) (submitDraft ''o'' ''p'' ''1'' (sample_anchor 3) ''hi'' (onStartThread (sample_anchor 3) (page_mount [])))
   in page_reach ''o'' ''p'' ''1'' p \<and> gp_draftAnchor p = Some (sample_anchor 9) \<and>
      gp_draftAnchor (page_settled (hd (gp_flight p)) None p) = None"
proof -
  have "page_reach ''o'' ''p'' ''1'' (onStartThread (sample_anchor 9) (submitDraft ''o'' ''p'' ''1'' (sample_anchor 3) ''hi''
      (onStartThread (sample_anchor 3) (page_mount []))))" by (intro page_reach.intros)
  then show ?thesis by (simp add: Let_def onStartThread_def submitDraft_def runComment_def page_settled_def page_mount_def)
qed

end
