(* ===== verification/Picker.thy ===== *)
theory Picker
  imports Repo_Pages Web_Hooks
begin

text \<open>
  The search field for users and groups (\<open>UserGroupPicker.tsx\<close>), which the access rules and the members of
  organizations and groups are chosen with. A search waits 200 milliseconds, loads the directory of users,
  members and groups once, and filters it. Every run of the search effect is kept with the query, organization
  and kind it closed over and with what it is waiting for, so that the answers to earlier runs arrive late,
  in any order.
\<close>

section \<open>Directory\<close>

datatype PickerKind = UserKind | GroupKind | UserOrGroupKind

record GroupMemberResponse =
  gm_user_id :: string
  gm_name :: string
  gm_email :: string

record GroupResponse =
  gr_id :: string
  gr_org_id :: string
  gr_name :: string
  gr_description :: string
  gr_member_ids :: "string list option"
  gr_members :: "GroupMemberResponse list option"
  gr_member_count :: int

record PickerEntry =
  pe_id :: string
  pe_label :: string
  pe_sublabel :: string
  pe_avatarUrl :: "string option"
  pe_isGroup :: bool

record Directory =
  dir_users :: "UserResponse list option"
  dir_members :: "OrgMemberResponse list option"
  dir_groups :: "GroupResponse list option"
  dir_searchable :: bool

definition wantsUsers :: "PickerKind \<Rightarrow> bool" where
  "wantsUsers kind \<longleftrightarrow> kind = UserKind \<or> kind = UserOrGroupKind"

definition wantsGroups :: "PickerKind \<Rightarrow> bool" where
  "wantsGroups kind \<longleftrightarrow> kind = GroupKind \<or> kind = UserOrGroupKind"

definition fulfilled :: "bool \<Rightarrow> 'a outcome \<Rightarrow> 'a option" where
  "fulfilled wanted r = (if wanted then (case r of Inr x \<Rightarrow> Some x | Inl _ \<Rightarrow> None) else None)"

text \<open>The three requests and what they settle to.\<close>

definition loadDirectory ::
  "PickerKind \<Rightarrow> UserResponse list outcome \<Rightarrow> OrgMemberResponse list outcome \<Rightarrow> GroupResponse list outcome \<Rightarrow> Directory" where
  "loadDirectory kind users members groups =
     (let u = fulfilled (wantsUsers kind) users; m = fulfilled (wantsUsers kind) members; g = fulfilled (wantsGroups kind) groups
      in \<lparr>dir_users = u, dir_members = m, dir_groups = g, dir_searchable = (u \<noteq> None \<or> m \<noteq> None \<or> g \<noteq> None)\<rparr>)"

definition person_matches :: "string \<Rightarrow> string \<Rightarrow> string \<Rightarrow> string \<Rightarrow> bool" where
  "person_matches q name email i \<longleftrightarrow> js_includes (js_toLowerCase name) q \<or> js_includes (js_toLowerCase email) q \<or> js_includes i q"

definition memberMap :: "OrgMemberResponse list \<Rightarrow> (string, OrgMemberResponse) js_map" where
  "memberMap ms = foldl (\<lambda>m x. js_map_set m (om_user_id x) x) [] ms"

definition member_hits :: "string \<Rightarrow> OrgMemberResponse list \<Rightarrow> OrgMemberResponse list" where
  "member_hits q ms = filter (\<lambda>m. person_matches q (om_name m) (om_email m) (om_user_id m)) ms"

definition member_entry :: "OrgMemberResponse \<Rightarrow> PickerEntry" where
  "member_entry m = \<lparr>pe_id = om_user_id m, pe_label = om_name m, pe_sublabel = om_email m,
     pe_avatarUrl = Some (om_photo_url m), pe_isGroup = False\<rparr>"

definition user_entry :: "(string, OrgMemberResponse) js_map \<Rightarrow> UserResponse \<Rightarrow> PickerEntry" where
  "user_entry mm u =
     (let m = js_map_get mm (us_id u);
          name = (case m of Some x \<Rightarrow> if om_name x \<noteq> [] then om_name x else us_name u | None \<Rightarrow> us_name u);
          email = (case m of Some x \<Rightarrow> if om_email x \<noteq> [] then om_email x else us_email u | None \<Rightarrow> us_email u)
      in \<lparr>pe_id = us_id u, pe_label = name, pe_sublabel = email, pe_avatarUrl = Some (us_photo_url u), pe_isGroup = False\<rparr>)"

definition entry_matches :: "string \<Rightarrow> PickerEntry \<Rightarrow> bool" where
  "entry_matches q e \<longleftrightarrow> person_matches q (pe_label e) (pe_sublabel e) (pe_id e)"

definition group_entry :: "GroupResponse \<Rightarrow> PickerEntry" where
  "group_entry g = \<lparr>pe_id = gr_id g, pe_label = gr_name g,
     pe_sublabel = (if gr_description g \<noteq> [] then gr_description g else ''Group''), pe_avatarUrl = None, pe_isGroup = True\<rparr>"

definition group_hits :: "string \<Rightarrow> GroupResponse list \<Rightarrow> GroupResponse list" where
  "group_hits q gs = filter (\<lambda>g. js_includes (js_toLowerCase (gr_name g)) q \<or> js_includes (gr_id g) q) gs"

definition directory_hits :: "Directory \<Rightarrow> string \<Rightarrow> PickerEntry list" where
  "directory_hits d query =
     (let q = js_toLowerCase query; ms = coalesce (dir_members d) []; mm = memberMap ms;
          seen = map om_user_id (member_hits q ms)
      in map member_entry (member_hits q ms) @
         filter (entry_matches q) (map (user_entry mm) (filter (\<lambda>u. us_id u \<notin> set seen) (coalesce (dir_users d) []))) @
         map group_entry (group_hits q (coalesce (dir_groups d) [])))"

definition filterDirectory :: "Directory \<Rightarrow> string \<Rightarrow> PickerEntry list" where
  "filterDirectory d query = take 10 (directory_hits d query)"

section \<open>The field\<close>

text \<open>
  A run of the search effect: its timer is set, its request is on the way, or it is over, because it was
  answered or because the cleanup cleared its timer. A cleanup does not stop a request.
\<close>

datatype RunPhase = RunWaiting | RunLoading | RunOver

record SearchRun =
  sr_query :: string
  sr_org :: string
  sr_kind :: PickerKind
  sr_phase :: RunPhase

text \<open>\<open>pk_active\<close> is the run whose \<open>active\<close> is still set.\<close>

record Picker =
  pk_org :: string
  pk_kind :: PickerKind
  pk_query :: string
  pk_open :: bool
  pk_entries :: "PickerEntry list"
  pk_loading :: bool
  pk_searchable :: "bool option"
  pk_highlight :: nat
  pk_manual :: bool
  pk_manualId :: string
  pk_manualIsGroup :: bool
  pk_directory :: "Directory option"
  pk_runs :: "SearchRun list"
  pk_active :: "nat option"

definition set_phase :: "nat \<Rightarrow> RunPhase \<Rightarrow> Picker \<Rightarrow> Picker" where
  "set_phase i ph p = p\<lparr>pk_runs := (pk_runs p)[i := (pk_runs p ! i)\<lparr>sr_phase := ph\<rparr>]\<rparr>"

text \<open>The cleanup of the last run: \<open>active = false\<close>, and its timer is cleared.\<close>

definition search_cleanup :: "Picker \<Rightarrow> Picker" where
  "search_cleanup p = (case pk_active p of
     Some i \<Rightarrow> (if sr_phase (pk_runs p ! i) = RunWaiting then set_phase i RunOver p else p)\<lparr>pk_active := None\<rparr>
   | None \<Rightarrow> p)"

definition search_effect :: "Picker \<Rightarrow> Picker" where
  "search_effect p =
     (if js_trim (pk_query p) = [] then p\<lparr>pk_entries := []\<rparr>
      else p\<lparr>pk_active := Some (length (pk_runs p)),
             pk_runs := pk_runs p @ [\<lparr>sr_query = pk_query p, sr_org = pk_org p, sr_kind = pk_kind p, sr_phase = RunWaiting\<rparr>]\<rparr>)"

definition picker_mount :: "string \<Rightarrow> PickerKind \<Rightarrow> Picker" where
  "picker_mount org kind =
     \<lparr>pk_org = org, pk_kind = kind, pk_query = [], pk_open = False, pk_entries = [], pk_loading = False, pk_searchable = None,
      pk_highlight = 0, pk_manual = False, pk_manualId = [], pk_manualIsGroup = (kind = GroupKind), pk_directory = None, pk_runs = [], pk_active = None\<rparr>"

text \<open>New properties: the directory is forgotten and the search starts again.\<close>

definition picker_render :: "string \<Rightarrow> PickerKind \<Rightarrow> Picker \<Rightarrow> Picker" where
  "picker_render org kind p =
     (if org = pk_org p \<and> kind = pk_kind p then p
      else search_effect ((search_cleanup p)\<lparr>pk_org := org, pk_kind := kind, pk_directory := None\<rparr>))"

definition setQuery :: "string \<Rightarrow> Picker \<Rightarrow> Picker" where
  "setQuery s p = (if s = pk_query p then p else search_effect ((search_cleanup p)\<lparr>pk_query := s\<rparr>))"

definition type_query :: "string \<Rightarrow> Picker \<Rightarrow> Picker" where
  "type_query s p = (setQuery s p)\<lparr>pk_open := True\<rparr>"

definition picker_focus :: "Picker \<Rightarrow> Picker" where
  "picker_focus p = p\<lparr>pk_open := True\<rparr>"

definition handleClickOutside :: "Picker \<Rightarrow> Picker" where
  "handleClickOutside p = p\<lparr>pk_open := False\<rparr>"

text \<open>
  What follows the \<open>await\<close> in the run \<open>i\<close>: nothing, unless the run is still active; otherwise the directory is
  kept if it can be searched, and filtered with the query of the run.
\<close>

definition found :: "nat \<Rightarrow> Directory \<Rightarrow> Picker \<Rightarrow> Picker" where
  "found i d p =
     (let q = set_phase i RunOver p in
      if pk_active p \<noteq> Some i then q
      else q\<lparr>pk_directory := (if dir_searchable d then Some d else pk_directory p), pk_searchable := Some (dir_searchable d),
             pk_entries := filterDirectory d (js_trim (sr_query (pk_runs p ! i))), pk_highlight := 0, pk_loading := False\<rparr>)"

text \<open>The timer of a run fires; a directory that is known needs no request.\<close>

definition timer_fires :: "nat \<Rightarrow> Picker \<Rightarrow> Picker" where
  "timer_fires i p =
     (if i < length (pk_runs p) \<and> sr_phase (pk_runs p ! i) = RunWaiting
      then (case pk_directory p of
              Some d \<Rightarrow> found i d (p\<lparr>pk_loading := True\<rparr>)
            | None \<Rightarrow> (set_phase i RunLoading p)\<lparr>pk_loading := True\<rparr>) else p)"

text \<open>The requests of a run are answered.\<close>

definition directory_loaded :: "nat \<Rightarrow> Directory \<Rightarrow> Picker \<Rightarrow> Picker" where
  "directory_loaded i d p =
     (if i < length (pk_runs p) \<and> sr_phase (pk_runs p ! i) = RunLoading then found i d p else p)"

text \<open>Choosing gives the entry to \<open>onSelect\<close>.\<close>

definition select :: "PickerEntry \<Rightarrow> Picker \<Rightarrow> PickerEntry option \<times> Picker" where
  "select e p = (Some e, (setQuery [] p)\<lparr>pk_open := False\<rparr>)"

definition handleKeyDown :: "string \<Rightarrow> Picker \<Rightarrow> PickerEntry option \<times> Picker" where
  "handleKeyDown key p =
     (if \<not> pk_open p \<or> pk_entries p = [] then (None, p)
      else if key = ''ArrowDown'' then (None, p\<lparr>pk_highlight := min (pk_highlight p + 1) (length (pk_entries p) - 1)\<rparr>)
      else if key = ''ArrowUp'' then (None, p\<lparr>pk_highlight := pk_highlight p - 1\<rparr>)
      else if key = ''Enter'' then
        (if pk_highlight p < length (pk_entries p) then select (pk_entries p ! pk_highlight p) p else (None, p))
      else if key = ''Escape'' then (None, p\<lparr>pk_open := False\<rparr>)
      else (None, p))"

definition setManual :: "bool \<Rightarrow> Picker \<Rightarrow> Picker" where
  "setManual b p = p\<lparr>pk_manual := b\<rparr>"

definition manual_from_notice :: "Picker \<Rightarrow> Picker" where
  "manual_from_notice p = p\<lparr>pk_manual := True, pk_open := False\<rparr>"

definition type_manual :: "string \<Rightarrow> Picker \<Rightarrow> Picker" where
  "type_manual s p = p\<lparr>pk_manualId := s\<rparr>"

definition choose_subject_type :: "bool \<Rightarrow> Picker \<Rightarrow> Picker" where
  "choose_subject_type isGroup p = (if pk_kind p = UserOrGroupKind then p\<lparr>pk_manualIsGroup := isGroup\<rparr> else p)"

definition handleManualSubmit :: "Picker \<Rightarrow> PickerEntry option \<times> Picker" where
  "handleManualSubmit p =
     (let i = js_trim (pk_manualId p) in
      if i = [] then (None, p)
      else (case select \<lparr>pe_id = i, pe_label = i, pe_sublabel = (if pk_manualIsGroup p then ''Group ID'' else ''User ID''),
                         pe_avatarUrl = None, pe_isGroup = pk_manualIsGroup p\<rparr> p of
              (e, q) \<Rightarrow> (e, q\<lparr>pk_manualId := [], pk_manual := False\<rparr>)))"

subsection \<open>What the field shows\<close>

record PickerList =
  pl_searching :: bool
  pl_unavailable :: bool
  pl_nothing :: bool
  pl_entries :: "(PickerEntry \<times> bool) list"

definition picker_list :: "Picker \<Rightarrow> PickerList option" where
  "picker_list p =
     (if pk_manual p \<or> \<not> pk_open p \<or> js_trim (pk_query p) = [] then None
      else Some \<lparr>pl_searching = pk_loading p,
        pl_unavailable = (\<not> pk_loading p \<and> pk_searchable p = Some False),
        pl_nothing = (\<not> pk_loading p \<and> pk_searchable p \<noteq> Some False \<and> pk_entries p = []),
        pl_entries = (if pk_loading p then [] else map (\<lambda>(i, e). (e, i = pk_highlight p)) (enumerate 0 (pk_entries p)))\<rparr>)"

text \<open>A click on an entry that is shown.\<close>

definition click_entry :: "nat \<Rightarrow> Picker \<Rightarrow> PickerEntry option \<times> Picker" where
  "click_entry i p = (case picker_list p of
     Some l \<Rightarrow> if i < length (pl_entries l) then select (fst (pl_entries l ! i)) p else (None, p) | None \<Rightarrow> (None, p))"

section \<open>Reachable states\<close>

text \<open>
  What the servers answer to the requests of the run \<open>i\<close> for an organization: the users, the members and the
  groups, or errors. The directory of a run is what it makes of these answers.
\<close>

type_synonym directory_server = "nat \<Rightarrow> string \<Rightarrow> UserResponse list outcome \<times> OrgMemberResponse list outcome \<times> GroupResponse list outcome"

definition run_directory :: "directory_server \<Rightarrow> nat \<Rightarrow> SearchRun \<Rightarrow> Directory" where
  "run_directory srv i r = (case srv i (sr_org r) of (us, ms, gs) \<Rightarrow> loadDirectory (sr_kind r) us ms gs)"

inductive picker_reach :: "directory_server \<Rightarrow> Picker \<Rightarrow> bool" for srv where
  mount: "picker_reach srv (picker_mount org kind)"
| render: "picker_reach srv p \<Longrightarrow> picker_reach srv (picker_render org kind p)"
| query: "picker_reach srv p \<Longrightarrow> picker_reach srv (type_query s p)"
| focus: "picker_reach srv p \<Longrightarrow> picker_reach srv (picker_focus p)"
| outside: "picker_reach srv p \<Longrightarrow> picker_reach srv (handleClickOutside p)"
| timer: "picker_reach srv p \<Longrightarrow> picker_reach srv (timer_fires i p)"
| loaded: "picker_reach srv p \<Longrightarrow> picker_reach srv (directory_loaded i (run_directory srv i (pk_runs p ! i)) p)"
| key: "picker_reach srv p \<Longrightarrow> picker_reach srv (snd (handleKeyDown key p))"
| click: "picker_reach srv p \<Longrightarrow> picker_reach srv (snd (click_entry i p))"
| manual: "picker_reach srv p \<Longrightarrow> picker_reach srv (setManual b p)"
| notice: "picker_reach srv p \<Longrightarrow> picker_reach srv (manual_from_notice p)"
| manual_id: "picker_reach srv p \<Longrightarrow> picker_reach srv (type_manual s p)"
| subject: "picker_reach srv p \<Longrightarrow> picker_reach srv (choose_subject_type b p)"
| submit: "picker_reach srv p \<Longrightarrow> picker_reach srv (snd (handleManualSubmit p))"

text \<open>The search of the text in the field is over.\<close>

definition picker_rests :: "Picker \<Rightarrow> bool" where
  "picker_rests p \<longleftrightarrow> (case pk_active p of None \<Rightarrow> True | Some i \<Rightarrow> sr_phase (pk_runs p ! i) = RunOver)"

text \<open>A directory that a run loaded for the organization and kind of the field.\<close>

definition from_run :: "directory_server \<Rightarrow> Picker \<Rightarrow> Directory \<Rightarrow> bool" where
  "from_run srv p d \<longleftrightarrow> (\<exists>j < length (pk_runs p). sr_org (pk_runs p ! j) = pk_org p \<and> sr_kind (pk_runs p ! j) = pk_kind p \<and>
     d = run_directory srv j (pk_runs p ! j))"

text \<open>
  The highlight is on an entry; the active run closed over what the field shows now, and only that run can
  have its timer set; the directory that is kept was loaded for this organization and kind, and could be searched; and
  when the active run is over, its result is shown.
\<close>

definition kept_ok :: "directory_server \<Rightarrow> Picker \<Rightarrow> bool" where
  "kept_ok srv p \<longleftrightarrow> (\<forall>d. pk_directory p = Some d \<longrightarrow> dir_searchable d \<and> from_run srv p d)"

definition timers_ok :: "Picker \<Rightarrow> bool" where
  "timers_ok p \<longleftrightarrow> (\<forall>i < length (pk_runs p). sr_phase (pk_runs p ! i) = RunWaiting \<longrightarrow> pk_active p = Some i)"

definition run_ok :: "directory_server \<Rightarrow> Picker \<Rightarrow> nat \<Rightarrow> bool" where
  "run_ok srv p i \<longleftrightarrow> i < length (pk_runs p) \<and>
     sr_query (pk_runs p ! i) = pk_query p \<and> sr_org (pk_runs p ! i) = pk_org p \<and> sr_kind (pk_runs p ! i) = pk_kind p \<and>
     (sr_phase (pk_runs p ! i) = RunOver \<longrightarrow> \<not> pk_loading p \<and>
        (\<exists>d. from_run srv p d \<and> pk_searchable p = Some (dir_searchable d) \<and> pk_entries p = filterDirectory d (js_trim (pk_query p))))"

definition picker_ok :: "directory_server \<Rightarrow> Picker \<Rightarrow> bool" where
  "picker_ok srv p \<longleftrightarrow> (pk_entries p = [] \<or> pk_highlight p < length (pk_entries p)) \<and> kept_ok srv p \<and> timers_ok p \<and>
     (pk_active p = None \<longleftrightarrow> js_trim (pk_query p) = []) \<and>
     (case pk_active p of None \<Rightarrow> pk_entries p = [] | Some i \<Rightarrow> run_ok srv p i)"

text \<open>What the kinds of the field mean for its directory.\<close>

definition kind_fits :: "PickerKind \<Rightarrow> Directory \<Rightarrow> bool" where
  "kind_fits kind d \<longleftrightarrow> (wantsUsers kind \<or> dir_users d = None \<and> dir_members d = None) \<and> (wantsGroups kind \<or> dir_groups d = None)"

lemma kind_fits_load [simp]: "kind_fits kind (loadDirectory kind us ms gs)"
  by (auto simp: kind_fits_def loadDirectory_def fulfilled_def Let_def)

lemma js_trim_Nil [simp]: "js_trim [] = []"
  by (simp add: js_trim_def)

lemma set_phase_sel [simp]:
  "pk_org (set_phase i ph p) = pk_org p" "pk_kind (set_phase i ph p) = pk_kind p" "pk_query (set_phase i ph p) = pk_query p"
  "pk_entries (set_phase i ph p) = pk_entries p" "pk_highlight (set_phase i ph p) = pk_highlight p"
  "pk_loading (set_phase i ph p) = pk_loading p" "pk_searchable (set_phase i ph p) = pk_searchable p"
  "pk_directory (set_phase i ph p) = pk_directory p" "pk_active (set_phase i ph p) = pk_active p"
  "length (pk_runs (set_phase i ph p)) = length (pk_runs p)"
  by (simp_all add: set_phase_def)

lemma set_phase_run [simp]:
  "sr_query (pk_runs (set_phase i ph p) ! j) = sr_query (pk_runs p ! j)" "sr_org (pk_runs (set_phase i ph p) ! j) = sr_org (pk_runs p ! j)"
  "sr_kind (pk_runs (set_phase i ph p) ! j) = sr_kind (pk_runs p ! j)"
  "i < length (pk_runs p) \<Longrightarrow> sr_phase (pk_runs (set_phase i ph p) ! j) = (if j = i then ph else sr_phase (pk_runs p ! j))"
  by (cases "i < length (pk_runs p)"; simp add: set_phase_def nth_list_update list_update_beyond)+

lemma run_directory_cong: "sr_org r = sr_org r' \<Longrightarrow> sr_kind r = sr_kind r' \<Longrightarrow> run_directory srv i r = run_directory srv i r'"
  by (simp add: run_directory_def)

lemma run_directory_phase [simp]: "run_directory srv j (pk_runs (set_phase i ph p) ! j) = run_directory srv j (pk_runs p ! j)"
  by (rule run_directory_cong) simp_all

text \<open>The runs may grow and end; a directory that one of them loaded stays so while organization and kind stay.\<close>

lemma from_run_mono:
  assumes "from_run srv p d" "pk_org q = pk_org p" "pk_kind q = pk_kind p" "length (pk_runs p) \<le> length (pk_runs q)"
    "\<And>j. j < length (pk_runs p) \<Longrightarrow> sr_org (pk_runs q ! j) = sr_org (pk_runs p ! j) \<and> sr_kind (pk_runs q ! j) = sr_kind (pk_runs p ! j)"
  shows "from_run srv q d"
proof -
  obtain j where j: "j < length (pk_runs p)" "sr_org (pk_runs p ! j) = pk_org p" "sr_kind (pk_runs p ! j) = pk_kind p"
    "d = run_directory srv j (pk_runs p ! j)" using assms(1) by (auto simp: from_run_def)
  have r: "sr_org (pk_runs q ! j) = sr_org (pk_runs p ! j)" "sr_kind (pk_runs q ! j) = sr_kind (pk_runs p ! j)"
    using assms(5) [OF j(1)] by auto
  then have "d = run_directory srv j (pk_runs q ! j)" unfolding j(4) by (intro run_directory_cong) simp_all
  moreover have "j < length (pk_runs q)" "sr_org (pk_runs q ! j) = pk_org q" "sr_kind (pk_runs q ! j) = pk_kind q"
    using j(1) assms(4) r j(2,3) assms(2,3) by simp_all
  ultimately show ?thesis unfolding from_run_def by blast
qed

lemma from_run_cong [simp]: "from_run srv (set_phase i ph p) d = from_run srv p d"
  by (simp add: from_run_def)

lemma from_run_kind: "from_run srv p d \<Longrightarrow> kind_fits (pk_kind p) d"
  unfolding from_run_def run_directory_def by (metis (no_types, lifting) kind_fits_load prod.case_eq_if)

lemma picker_ok_loading:
  assumes "picker_ok srv p" "i < length (pk_runs p)" "sr_phase (pk_runs p ! i) = RunWaiting"
  shows "picker_ok srv ((set_phase i RunLoading p)\<lparr>pk_loading := True\<rparr>)" (is "picker_ok srv ?q")
proof -
  have timers: "timers_ok p" using assms(1) by (simp add: picker_ok_def)
  then have act: "pk_active p = Some i" using assms(2,3) by (simp add: timers_ok_def)
  have fr: "from_run srv ?q d = from_run srv p d" for d by (simp add: from_run_def)
  have "kept_ok srv ?q" using assms(1) by (simp add: picker_ok_def kept_ok_def fr)
  moreover have "timers_ok ?q" using assms(2) act timers by (auto simp: timers_ok_def)
  moreover have "run_ok srv ?q i" using assms act by (simp add: picker_ok_def run_ok_def)
  ultimately show ?thesis using assms(1) act by (simp add: picker_ok_def)
qed

text \<open>A run ends: a stale one changes nothing that is shown, the active one shows its result.\<close>

lemma found_sel:
  assumes "pk_active p = Some i" "i < length (pk_runs p)"
  shows "pk_active (found i d p) = Some i" "pk_query (found i d p) = pk_query p" "length (pk_runs (found i d p)) = length (pk_runs p)"
    "sr_phase (pk_runs (found i d p) ! j) = (if j = i then RunOver else sr_phase (pk_runs p ! j))"
    "pk_entries (found i d p) = filterDirectory d (js_trim (sr_query (pk_runs p ! i)))" "pk_highlight (found i d p) = 0"
    "\<not> pk_loading (found i d p)" "pk_searchable (found i d p) = Some (dir_searchable d)" "pk_org (found i d p) = pk_org p"
    "pk_kind (found i d p) = pk_kind p" "sr_query (pk_runs (found i d p) ! j) = sr_query (pk_runs p ! j)"
    "sr_org (pk_runs (found i d p) ! j) = sr_org (pk_runs p ! j)" "sr_kind (pk_runs (found i d p) ! j) = sr_kind (pk_runs p ! j)"
    "pk_directory (found i d p) = (if dir_searchable d then Some d else pk_directory p)"
    "from_run srv (found i d p) e = from_run srv p e"
  using assms by (simp_all add: found_def Let_def from_run_def)

lemma picker_ok_found:
  assumes "picker_ok srv p" "i < length (pk_runs p)" "pk_active p = Some i \<Longrightarrow> from_run srv p d"
  shows "picker_ok srv (found i d p)"
proof (cases "pk_active p = Some i")
  case True
  note sel = found_sel [OF True assms(2)]
  have r: "kept_ok srv p" "timers_ok p" "run_ok srv p i" "js_trim (pk_query p) \<noteq> []"
    using assms(1) True by (simp_all add: picker_ok_def)
  have "kept_ok srv (found i d p)" using r(1) assms(3) [OF True] by (simp add: kept_ok_def sel)
  moreover have "timers_ok (found i d p)" using r(2) by (simp add: timers_ok_def sel True)
  moreover have "run_ok srv (found i d p) i"
    using r(3) assms(2) assms(3) [OF True] by (auto simp: run_ok_def sel)
  ultimately show ?thesis using r(4) by (simp add: picker_ok_def sel)
next
  case False
  then have f: "found i d p = set_phase i RunOver p" by (simp add: found_def Let_def)
  have run: "run_ok srv (set_phase i RunOver p) j = run_ok srv p j" if "pk_active p = Some j" for j
  proof -
    have "j \<noteq> i" using False that by auto
    then show ?thesis using assms(2) by (simp add: run_ok_def)
  qed
  have "kept_ok srv (set_phase i RunOver p) = kept_ok srv p" by (simp add: kept_ok_def)
  moreover have "timers_ok (set_phase i RunOver p)" using assms(1,2) by (simp add: picker_ok_def timers_ok_def)
  ultimately show ?thesis using assms(1) run unfolding f by (simp add: picker_ok_def split: option.splits)
qed

text \<open>The cleanup leaves no timer and no active run.\<close>

lemma cleanup_sel [simp]:
  "pk_active (search_cleanup p) = None" "length (pk_runs (search_cleanup p)) = length (pk_runs p)" "pk_entries (search_cleanup p) = pk_entries p"
  "pk_highlight (search_cleanup p) = pk_highlight p" "pk_org (search_cleanup p) = pk_org p" "pk_kind (search_cleanup p) = pk_kind p"
  "pk_query (search_cleanup p) = pk_query p" "pk_directory (search_cleanup p) = pk_directory p"
  "sr_org (pk_runs (search_cleanup p) ! j) = sr_org (pk_runs p ! j)" "sr_kind (pk_runs (search_cleanup p) ! j) = sr_kind (pk_runs p ! j)"
  by (simp_all add: search_cleanup_def split: option.split)

lemma cleanup_timers:
  assumes "picker_ok srv p" "j < length (pk_runs p)"
  shows "sr_phase (pk_runs (search_cleanup p) ! j) \<noteq> RunWaiting"
proof (cases "pk_active p")
  case None
  then show ?thesis using assms by (auto simp: search_cleanup_def picker_ok_def timers_ok_def)
next
  case (Some i)
  then have "i < length (pk_runs p)" "sr_phase (pk_runs p ! j) = RunWaiting \<longrightarrow> j = i"
    using assms by (auto simp: picker_ok_def timers_ok_def run_ok_def)
  with Some show ?thesis by (auto simp: search_cleanup_def)
qed

text \<open>The search effect of a state without an active run.\<close>

lemma search_effect_ok:
  assumes idle: "pk_active q = None" "\<forall>j < length (pk_runs q). sr_phase (pk_runs q ! j) \<noteq> RunWaiting"
    and "kept_ok srv q" "pk_entries q = [] \<or> pk_highlight q < length (pk_entries q)"
  shows "picker_ok srv (search_effect q)"
proof (cases "js_trim (pk_query q) = []")
  case True
  have "from_run srv (q\<lparr>pk_entries := []\<rparr>) d = from_run srv q d" for d by (simp add: from_run_def)
  with True assms show ?thesis by (simp add: search_effect_def picker_ok_def kept_ok_def timers_ok_def)
next
  case False
  let ?r = "search_effect q" and ?n = "length (pk_runs q)"
  have r: "pk_active ?r = Some ?n" "pk_runs ?r = pk_runs q @ [\<lparr>sr_query = pk_query q, sr_org = pk_org q, sr_kind = pk_kind q, sr_phase = RunWaiting\<rparr>]"
    "pk_directory ?r = pk_directory q" "pk_query ?r = pk_query q" "pk_entries ?r = pk_entries q" "pk_highlight ?r = pk_highlight q"
    "pk_org ?r = pk_org q" "pk_kind ?r = pk_kind q"
    using False by (simp_all add: search_effect_def)
  have "from_run srv ?r d" if "from_run srv q d" for d
    using that by (rule from_run_mono) (simp_all add: r nth_append)
  then have "kept_ok srv ?r" using assms(3) by (simp add: kept_ok_def r(3))
  moreover have "timers_ok ?r" using idle(2) by (auto simp: timers_ok_def r nth_append less_Suc_eq)
  moreover have "run_ok srv ?r ?n" by (simp add: run_ok_def r)
  ultimately show ?thesis using False assms(4) by (simp add: picker_ok_def r)
qed

lemma picker_ok_query:
  assumes "picker_ok srv p" shows "picker_ok srv (setQuery s p)"
proof -
  let ?q = "(search_cleanup p)\<lparr>pk_query := s\<rparr>"
  have "from_run srv ?q d" if "from_run srv p d" for d
    using that by (rule from_run_mono) simp_all
  then have "kept_ok srv ?q" using assms by (simp add: picker_ok_def kept_ok_def)
  then have "picker_ok srv (search_effect ?q)"
    using assms cleanup_timers [OF assms] by (intro search_effect_ok) (simp_all add: picker_ok_def)
  with assms show ?thesis by (simp add: setQuery_def)
qed

lemma picker_ok_render:
  assumes "picker_ok srv p" shows "picker_ok srv (picker_render org kind p)"
proof -
  let ?q = "(search_cleanup p)\<lparr>pk_org := org, pk_kind := kind, pk_directory := None\<rparr>"
  have "kept_ok srv ?q" by (simp add: kept_ok_def)
  then have "picker_ok srv (search_effect ?q)"
    using assms cleanup_timers [OF assms] by (intro search_effect_ok) (simp_all add: picker_ok_def)
  with assms show ?thesis by (simp add: picker_render_def)
qed

lemma from_run_other [simp]:
  "from_run srv (p\<lparr>pk_open := b\<rparr>) d = from_run srv p d" "from_run srv (p\<lparr>pk_manual := b\<rparr>) d = from_run srv p d"
  "from_run srv (p\<lparr>pk_manualId := x\<rparr>) d = from_run srv p d" "from_run srv (p\<lparr>pk_manualIsGroup := b\<rparr>) d = from_run srv p d"
  "from_run srv (p\<lparr>pk_highlight := n\<rparr>) d = from_run srv p d" "from_run srv (p\<lparr>pk_loading := b\<rparr>) d = from_run srv p d"
  by (simp_all add: from_run_def)

lemmas picker_ok_defs = picker_ok_def kept_ok_def timers_ok_def run_ok_def

lemma picker_ok_open [simp]:
  "picker_ok srv (p\<lparr>pk_open := b\<rparr>) = picker_ok srv p" "picker_ok srv (p\<lparr>pk_manual := b\<rparr>) = picker_ok srv p"
  "picker_ok srv (p\<lparr>pk_manualId := x\<rparr>) = picker_ok srv p" "picker_ok srv (p\<lparr>pk_manualIsGroup := b\<rparr>) = picker_ok srv p"
  by (simp_all add: picker_ok_defs cong: option.case_cong)

lemma picker_ok_select: "picker_ok srv p \<Longrightarrow> picker_ok srv (snd (select e p))"
  using picker_ok_query [of srv p "[]"] by (simp add: select_def)

lemma picker_ok_timer:
  assumes ok: "picker_ok srv p" shows "picker_ok srv (timer_fires i p)"
proof (cases "i < length (pk_runs p) \<and> sr_phase (pk_runs p ! i) = RunWaiting")
  case True
  then have act: "pk_active p = Some i" using ok by (auto simp: picker_ok_def timers_ok_def)
  show ?thesis
  proof (cases "pk_directory p")
    case None
    then show ?thesis using True picker_ok_loading [OF ok] by (simp add: timer_fires_def)
  next
    case (Some d)
    then have "from_run srv p d" using ok by (simp add: picker_ok_def kept_ok_def)
    moreover have "picker_ok srv (p\<lparr>pk_loading := True\<rparr>)" using ok True act by (simp add: picker_ok_defs)
    ultimately show ?thesis using True Some picker_ok_found [of srv "p\<lparr>pk_loading := True\<rparr>" i d] by (simp add: timer_fires_def)
  qed
next
  case False
  then have "timer_fires i p = p" unfolding timer_fires_def by (simp only: if_False)
  with ok show ?thesis by simp
qed

lemma picker_ok_key:
  assumes ok: "picker_ok srv p" shows "picker_ok srv (snd (handleKeyDown key p))"
proof -
  have "picker_ok srv (p\<lparr>pk_highlight := h\<rparr>)" if "h < length (pk_entries p)" for h
    using ok that by (auto simp: picker_ok_defs split: option.splits)
  moreover have "pk_highlight p < length (pk_entries p)" if "pk_entries p \<noteq> []" using ok that by (simp add: picker_ok_def)
  moreover have "min (pk_highlight p + 1) (length (pk_entries p) - 1) < length (pk_entries p)" if "pk_entries p \<noteq> []"
    using that by (cases "pk_entries p") auto
  ultimately show ?thesis using picker_ok_select [OF ok] ok
    by (simp del: min_less_iff_conj add: handleKeyDown_def less_imp_diff_less)
qed

lemma picker_ok: "picker_reach srv p \<Longrightarrow> picker_ok srv p"
proof (induction rule: picker_reach.induct)
  case (mount org kind)
  then show ?case by (simp add: picker_ok_defs picker_mount_def)
next
  case (render p org kind)
  then show ?case by (simp add: picker_ok_render)
next
  case (query p s)
  then show ?case using picker_ok_query [of srv p s] by (simp add: type_query_def)
next
  case (timer p i)
  then show ?case by (simp add: picker_ok_timer)
next
  case (loaded p i)
  have "from_run srv p (run_directory srv i (pk_runs p ! i))" if "pk_active p = Some i"
    using loaded.IH that unfolding picker_ok_def run_ok_def from_run_def by auto
  with loaded.IH show ?case by (simp add: directory_loaded_def picker_ok_found)
next
  case (key p key)
  then show ?case by (simp add: picker_ok_key)
next
  case (click p i)
  then show ?case using picker_ok_select [OF click.IH] by (simp add: click_entry_def split: option.split)
next
  case (submit p)
  then show ?case using picker_ok_select [OF submit.IH] by (simp add: handleManualSubmit_def Let_def select_def)
qed (simp_all add: picker_focus_def handleClickOutside_def setManual_def manual_from_notice_def type_manual_def choose_subject_type_def)

section \<open>Properties\<close>

lemma toLower_map_hit: "e \<in> set (directory_hits d query) \<Longrightarrow>
    js_includes (js_toLowerCase (pe_label e)) (js_toLowerCase query) \<or> js_includes (pe_id e) (js_toLowerCase query) \<or>
    \<not> pe_isGroup e \<and> js_includes (js_toLowerCase (pe_sublabel e)) (js_toLowerCase query)"
  by (auto simp: directory_hits_def Let_def member_hits_def group_hits_def member_entry_def group_entry_def user_entry_def
      entry_matches_def person_matches_def)

lemma distinct_map_inj: "distinct (map f xs) \<Longrightarrow> (\<And>x y. x \<in> set xs \<Longrightarrow> y \<in> set xs \<Longrightarrow> g x = g y \<Longrightarrow> f x = f y) \<Longrightarrow> distinct (map g xs)"
  by (induction xs) (auto simp: image_iff)

definition entry_key :: "PickerEntry \<Rightarrow> bool \<times> string" where
  "entry_key e = (pe_isGroup e, pe_id e)"

lemma entry_key_simps [simp]:
  "entry_key (member_entry m) = (False, om_user_id m)" "entry_key (user_entry mm u) = (False, us_id u)"
  "entry_key (group_entry g) = (True, gr_id g)"
  by (simp_all add: entry_key_def member_entry_def user_entry_def group_entry_def Let_def)

lemma distinct_map_filter': "distinct (map f xs) \<Longrightarrow> distinct (map f (filter P xs))"
  by (induction xs) auto

lemma hits_distinct:
  assumes "distinct (map om_user_id (coalesce (dir_members d) []))" "distinct (map us_id (coalesce (dir_users d) []))"
    "distinct (map gr_id (coalesce (dir_groups d) []))"
  shows "distinct (map entry_key (directory_hits d query))"
proof -
  let ?q = "js_toLowerCase query" and ?ms = "coalesce (dir_members d) []"
  have pair: "distinct (map (\<lambda>x. (b, f x)) xs) = distinct (map f xs)" for b :: bool and f :: "'a \<Rightarrow> string" and xs
    by (simp add: distinct_map inj_on_def)
  have "distinct (map entry_key (map member_entry (member_hits ?q ?ms)))"
    using assms(1) by (simp add: comp_def pair member_hits_def distinct_map_filter')
  moreover have "distinct (map entry_key (filter (entry_matches ?q) (map (user_entry (memberMap ?ms)) us)))"
    if "distinct (map us_id us)" for us
    using that by (auto intro!: distinct_map_filter' simp: comp_def pair)
  moreover have "distinct (map entry_key (map group_entry (group_hits ?q (coalesce (dir_groups d) []))))"
    using assms(3) by (simp add: comp_def pair group_hits_def distinct_map_filter')
  ultimately show ?thesis
    using assms(2) by (auto simp: directory_hits_def Let_def distinct_map_filter' image_iff entry_key_def member_entry_def user_entry_def group_entry_def)
qed

text \<open>
  Property C12. The search field never shows results of another search. Once the search of the text in the
  field is over, the entries are the first ten matches of that text, all of them if there are fewer, in a
  directory that was loaded for the organization and the kind of the field, so that each entry has the
  text in its name, address or id; the highlighted entry, which the Enter key chooses, is one of them. An
  answer to an earlier search, however late, changes nothing that is shown or kept.
\<close>

theorem picker_shows_its_search:
  assumes "picker_reach srv p"
  shows "(picker_rests p \<and> js_trim (pk_query p) \<noteq> [] \<longrightarrow>
      \<not> pk_loading p \<and> (pk_entries p = [] \<or> pk_highlight p < length (pk_entries p)) \<and>
      (\<exists>j < length (pk_runs p). sr_org (pk_runs p ! j) = pk_org p \<and> sr_kind (pk_runs p ! j) = pk_kind p \<and>
        (let d = run_directory srv j (pk_runs p ! j)
         in kind_fits (pk_kind p) d \<and> pk_searchable p = Some (dir_searchable d) \<and>
            pk_entries p = take 10 (directory_hits d (js_trim (pk_query p))))) \<and>
      list_all (\<lambda>e. js_includes (js_toLowerCase (pe_label e)) (js_toLowerCase (js_trim (pk_query p))) \<or>
         js_includes (pe_id e) (js_toLowerCase (js_trim (pk_query p))) \<or>
         js_includes (js_toLowerCase (pe_sublabel e)) (js_toLowerCase (js_trim (pk_query p)))) (pk_entries p)) \<and>
    (js_trim (pk_query p) = [] \<longrightarrow> pk_entries p = []) \<and>
    (pk_active p \<noteq> Some i \<longrightarrow> (let q = directory_loaded i d p in
       picker_list q = picker_list p \<and> pk_entries q = pk_entries p \<and> pk_highlight q = pk_highlight p \<and> pk_directory q = pk_directory p))"
proof (intro conjI impI)
  have ok: "picker_ok srv p" using assms by (rule picker_ok)
  assume r: "picker_rests p \<and> js_trim (pk_query p) \<noteq> []"
  with ok obtain i where "pk_active p = Some i" by (auto simp: picker_ok_def)
  with ok r obtain e where e: "from_run srv p e" "pk_searchable p = Some (dir_searchable e)" "\<not> pk_loading p"
      "pk_entries p = take 10 (directory_hits e (js_trim (pk_query p)))"
    by (auto simp: picker_ok_def picker_rests_def run_ok_def filterDirectory_def)
  show "\<not> pk_loading p" by (rule e(3))
  show "pk_entries p = [] \<or> pk_highlight p < length (pk_entries p)" using ok by (simp add: picker_ok_def)
  show "\<exists>j < length (pk_runs p). sr_org (pk_runs p ! j) = pk_org p \<and> sr_kind (pk_runs p ! j) = pk_kind p \<and>
        (let d = run_directory srv j (pk_runs p ! j)
         in kind_fits (pk_kind p) d \<and> pk_searchable p = Some (dir_searchable d) \<and>
            pk_entries p = take 10 (directory_hits d (js_trim (pk_query p))))"
    using e from_run_kind [OF e(1)] unfolding from_run_def Let_def by blast
  have "x \<in> set (directory_hits e (js_trim (pk_query p)))" if "x \<in> set (pk_entries p)" for x
    using that by (simp add: e(4)) (meson in_set_takeD)
  then show "list_all (\<lambda>e. js_includes (js_toLowerCase (pe_label e)) (js_toLowerCase (js_trim (pk_query p))) \<or>
       js_includes (pe_id e) (js_toLowerCase (js_trim (pk_query p))) \<or>
       js_includes (js_toLowerCase (pe_sublabel e)) (js_toLowerCase (js_trim (pk_query p)))) (pk_entries p)"
    using toLower_map_hit by (fastforce simp: list_all_iff)
next
  assume "js_trim (pk_query p) = []"
  then show "pk_entries p = []" using picker_ok [OF assms] by (auto simp: picker_ok_def)
next
  assume "pk_active p \<noteq> Some i"
  then show "let q = directory_loaded i d p in
       picker_list q = picker_list p \<and> pk_entries q = pk_entries p \<and> pk_highlight q = pk_highlight p \<and> pk_directory q = pk_directory p"
    by (simp add: directory_loaded_def found_def Let_def picker_list_def set_phase_def)
qed

definition sample_group :: GroupResponse where
  "sample_group = \<lparr>gr_id = ''g1'', gr_org_id = ''o'', gr_name = ''Artists'', gr_description = [], gr_member_ids = None,
     gr_members = None, gr_member_count = 2\<rparr>"

definition sample_server :: directory_server where
  "sample_server i org = (Inl ''no'', Inl ''no'', Inr (if i = 0 then [] else [sample_group]))"

text \<open>Two searches; the answer to the first arrives after that to the second.\<close>

definition sample_two_searches :: Picker where
  "sample_two_searches = timer_fires 1 (type_query ''art'' (timer_fires 0 (type_query ''a'' (picker_mount ''o'' GroupKind))))"

definition sample_search :: Picker where
  "sample_search = directory_loaded 1 (run_directory sample_server 1 (pk_runs sample_two_searches ! 1)) sample_two_searches"

lemma sample_search_reach: "picker_reach sample_server sample_search"
  unfolding sample_search_def sample_two_searches_def by (intro picker_reach.intros)

theorem picker_shows_its_search_witness:
  "pk_entries sample_search = [group_entry sample_group] \<and> pk_highlight sample_search < length (pk_entries sample_search) \<and>
   sr_phase (pk_runs sample_search ! 0) = RunLoading \<and> picker_list (directory_loaded 0 (run_directory sample_server 0 (pk_runs sample_search ! 0)) sample_search) = picker_list sample_search"
proof -
  have e: "pk_entries sample_search = [group_entry sample_group]" "sr_phase (pk_runs sample_search ! 0) = RunLoading"
    "pk_active sample_search = Some 1" by code_simp+
  have "picker_rests sample_search" "js_trim (pk_query sample_search) \<noteq> []" by code_simp+
  then show ?thesis using picker_shows_its_search [OF sample_search_reach, of 0] e by (simp add: Let_def)
qed

text \<open>
  A search offers nobody twice and finds everyone: if the users, members and groups that were
  loaded have different ids, the entries have different ids within their kind, and unless the list is cut
  off at ten, every member, user and group whose name or id contains the text is among them.
\<close>

theorem search_finds_everyone_once:
  assumes "distinct (map om_user_id (coalesce (dir_members d) []))" "distinct (map us_id (coalesce (dir_users d) []))"
    "distinct (map gr_id (coalesce (dir_groups d) []))"
  shows "distinct (map entry_key (filterDirectory d q)) \<and>
    (length (filterDirectory d q) < 10 \<longrightarrow>
      (\<forall>m \<in> set (coalesce (dir_members d) []). js_includes (js_toLowerCase (om_name m)) (js_toLowerCase q) \<longrightarrow>
         (False, om_user_id m) \<in> entry_key ` set (filterDirectory d q)) \<and>
      (\<forall>u \<in> set (coalesce (dir_users d) []). js_includes (us_id u) (js_toLowerCase q) \<longrightarrow>
         (False, us_id u) \<in> entry_key ` set (filterDirectory d q)) \<and>
      (\<forall>g \<in> set (coalesce (dir_groups d) []). js_includes (js_toLowerCase (gr_name g)) (js_toLowerCase q) \<longrightarrow>
         (True, gr_id g) \<in> entry_key ` set (filterDirectory d q)))"
proof -
  have all: "filterDirectory d q = directory_hits d q" if "length (filterDirectory d q) < 10" using that by (simp add: filterDirectory_def)
  let ?q = "js_toLowerCase q" and ?ms = "coalesce (dir_members d) []"
  have "(False, om_user_id m) \<in> entry_key ` set (directory_hits d q)" if "m \<in> set (member_hits ?q ?ms)" for m
    using that by (force simp: directory_hits_def Let_def image_iff)
  moreover have "(False, us_id u) \<in> entry_key ` set (directory_hits d q)"
    if "u \<in> set (coalesce (dir_users d) [])" "js_includes (us_id u) ?q" for u
  proof (cases "us_id u \<in> om_user_id ` set (member_hits ?q ?ms)")
    case True
    then obtain m where "m \<in> set (member_hits ?q ?ms)" "us_id u = om_user_id m" by auto
    then show ?thesis by (force simp: directory_hits_def Let_def image_iff)
  next
    case False
    have "entry_matches ?q (user_entry (memberMap ?ms) u)" using that(2) by (simp add: entry_matches_def person_matches_def user_entry_def Let_def)
    with False that(1) have "user_entry (memberMap ?ms) u \<in> set (directory_hits d q)" by (auto simp: directory_hits_def Let_def)
    then show ?thesis by (metis entry_key_simps(2) imageI)
  qed
  moreover have "(True, gr_id g) \<in> entry_key ` set (directory_hits d q)" if "g \<in> set (group_hits ?q (coalesce (dir_groups d) []))" for g
    using that by (force simp: directory_hits_def Let_def image_iff)
  moreover have "distinct (map entry_key (filterDirectory d q))"
    using hits_distinct [OF assms, of q] by (simp add: filterDirectory_def take_map [symmetric] distinct_take)
  moreover have "m \<in> set (member_hits ?q ?ms)" if "m \<in> set ?ms" "js_includes (js_toLowerCase (om_name m)) ?q" for m
    using that by (simp add: member_hits_def person_matches_def)
  moreover have "g \<in> set (group_hits ?q (coalesce (dir_groups d) []))"
    if "g \<in> set (coalesce (dir_groups d) [])" "js_includes (js_toLowerCase (gr_name g)) ?q" for g
    using that by (simp add: group_hits_def)
  ultimately show ?thesis unfolding all by (metis (no_types, lifting) all)
qed

theorem search_finds_everyone_once_witness:
  "(True, ''g1'') \<in> entry_key ` set (filterDirectory (loadDirectory GroupKind (Inl ''no'') (Inl ''no'') (Inr [sample_group])) ''ART'')"
proof -
  let ?d = "loadDirectory GroupKind (Inl ''no'') (Inl ''no'') (Inr [sample_group])"
  have g: "coalesce (dir_groups ?d) [] = [sample_group]" and "coalesce (dir_members ?d) [] = []" "coalesce (dir_users ?d) [] = []"
    by code_simp+
  moreover have "length (filterDirectory ?d ''ART'') < 10" "js_includes (js_toLowerCase (gr_name sample_group)) (js_toLowerCase ''ART'')"
    "gr_id sample_group = ''g1''" by code_simp+
  ultimately show ?thesis using search_finds_everyone_once [of ?d "''ART''"] by simp
qed

text \<open>
  The text is edited while results are shown: until the timer fires, the Enter key chooses from the results
  of the text before.
\<close>

lemma enter_chooses_stale_entry:
  "let p = type_query ''zoe'' sample_search in
   picker_reach sample_server p \<and> js_trim (pk_query p) = ''zoe'' \<and> fst (handleKeyDown ''Enter'' p) = Some (group_entry sample_group)"
  using picker_reach.query [OF sample_search_reach, of "''zoe''"] by (simp add: Let_def) code_simp

end
