(* ===== verification/Project_Settings.thy ===== *)
theory Project_Settings
  imports Picker Access Js_Date
begin

text \<open>
  The settings of a repository in the web client: \<open>ProjectSettingsPage.tsx\<close> with access rules, path defaults and
  the protection of branches, \<open>ProjectGeneralSettings.tsx\<close> and \<open>DeleteProjectDialog.tsx\<close>. What was loaded is an
  input, so a control keeps working on the branch it was rendered with until the branches are loaded again.
\<close>

section \<open>Tabs\<close>

definition SETTINGS_TABS :: "(string \<times> string) list" where
  "SETTINGS_TABS = [(''general'', ''General''), (''access'', ''Access''), (''branches'', ''Branches''),
     (''webhooks'', ''Webhooks''), (''email'', ''Email deliveries'')]"

definition settings_tab :: "string option \<Rightarrow> string" where
  "settings_tab requested = (case requested of
     Some t \<Rightarrow> if t \<in> fst ` set SETTINGS_TABS then t else ''general'' | None \<Rightarrow> ''general'')"

definition settings_links :: "string \<Rightarrow> string \<Rightarrow> (string \<times> string) list" where
  "settings_links org project =
     map (\<lambda>(k, label). (label, ''/'' @ org @ ''/'' @ project @ ''/settings?tab='' @ k)) SETTINGS_TABS"

section \<open>Access rules\<close>

record PermissionEntry =
  pm_path_prefix :: string
  pm_permission :: mask

record PBACRuleResponse =
  ru_id :: int
  ru_user_id :: "string option"
  ru_user_name :: "string option"
  ru_user_email :: "string option"
  ru_group_id :: "string option"
  ru_group_name :: "string option"
  ru_path_prefix :: string
  ru_permission :: mask

definition ruleSubject :: "PBACRuleResponse \<Rightarrow> (string \<times> string option) option" where
  "ruleSubject r =
     (if truthy (ru_user_id r)
      then (if truthy (ru_user_name r) then Some (the (ru_user_name r), ru_user_email r) else None)
      else (if truthy (ru_group_name r) then Some (the (ru_group_name r), None) else None))"

text \<open>Whose access the confirmation names.\<close>

definition rule_who :: "PBACRuleResponse \<Rightarrow> string" where
  "rule_who r =
     (if truthy (ru_user_id r)
      then ''user: '' @ (case ruleSubject r of
             Some (name, email) \<Rightarrow> name @ (if truthy email then '' ('' @ the email @ '')'' else [])
           | None \<Rightarrow> the (ru_user_id r))
      else ''group: '' @ (case ruleSubject r of
             Some (name, _) \<Rightarrow> name | None \<Rightarrow> coalesce (ru_group_id r) ''undefined''))"

definition shown_prefix :: "string \<Rightarrow> string" where
  "shown_prefix p = (if p \<noteq> [] then p else ''/'')"

definition revokeRule :: "string \<Rightarrow> string \<Rightarrow> bool \<Rightarrow> PBACRuleResponse \<Rightarrow> ApiCall option" where
  "revokeRule org project ok r = (if ok then Some (deleteProjectRule org project (ru_id r)) else None)"

definition removeDefault :: "string \<Rightarrow> string \<Rightarrow> bool \<Rightarrow> PermissionEntry \<Rightarrow> ApiCall option" where
  "removeDefault org project ok e = (if ok then Some (deleteProjectDefault org project (pm_path_prefix e)) else None)"

record RuleRow =
  rr_label :: string
  rr_subtext :: "string option"
  rr_prefix :: string
  rr_badge :: string

definition rule_row :: "PBACRuleResponse \<Rightarrow> RuleRow" where
  "rule_row r =
     (let fallbackId = (if truthy (ru_user_id r) then the (ru_user_id r)
                        else if truthy (ru_group_id r) then the (ru_group_id r) else js_show_int (ru_id r))
      in \<lparr>rr_label = (case ruleSubject r of Some (name, _) \<Rightarrow> name | None \<Rightarrow> fallbackId),
          rr_subtext = (case ruleSubject r of Some (_, email) \<Rightarrow> email | None \<Rightarrow> Some fallbackId),
          rr_prefix = shown_prefix (ru_path_prefix r), rr_badge = fst (PermissionBadge (ru_permission r))\<rparr>)"

definition AccessRulesSection :: "bool \<Rightarrow> PBACRuleResponse list \<Rightarrow> string option \<times> RuleRow list" where
  "AccessRulesSection loading rules =
     (if \<not> loading \<and> rules = []
      then Some ''No access rules. Everyone with write access can reach the whole repository.'' else None,
      map rule_row rules)"

definition PathDefaultsSection :: "PermissionEntry list \<Rightarrow> string option \<times> (string \<times> string) list" where
  "PathDefaultsSection defaults =
     (if defaults = [] then Some ''No path defaults. The repository is accessible to all members by default.'' else None,
      map (\<lambda>e. (shown_prefix (pm_path_prefix e), fst (PermissionBadge (pm_permission e)))) defaults)"

subsection \<open>The dialogs\<close>

record AddRuleDialog =
  ad_subject :: "(string \<times> string \<times> bool) option"
  ad_prefix :: string
  ad_permission :: mask
  ad_form :: FormDialog

definition add_rule_mount :: AddRuleDialog where
  "add_rule_mount = \<lparr>ad_subject = None, ad_prefix = [], ad_permission = 0, ad_form = form_open\<rparr>"

definition rule_select :: "PickerEntry \<Rightarrow> AddRuleDialog \<Rightarrow> AddRuleDialog" where
  "rule_select e d = d\<lparr>ad_subject := Some (pe_id e, pe_label e, pe_isGroup e)\<rparr>"

definition rule_prefix :: "string \<Rightarrow> AddRuleDialog \<Rightarrow> AddRuleDialog" where
  "rule_prefix s d = d\<lparr>ad_prefix := s\<rparr>"

definition rule_toggle :: "mask \<Rightarrow> AddRuleDialog \<Rightarrow> AddRuleDialog" where
  "rule_toggle b d = d\<lparr>ad_permission := toggle (ad_permission d) b\<rparr>"

definition rule_selected :: "AddRuleDialog \<Rightarrow> string option" where
  "rule_selected d = map_option (\<lambda>(i, label, isGroup). ''Selected: '' @ label @ '' '' @ [CHR 0xC2, CHR 0xB7] @ '' '' @
     (if isGroup then ''group'' else ''user'') @ '' '' @ [CHR 0xC2, CHR 0xB7] @ '' '' @ i) (ad_subject d)"

definition rule_submit :: "string \<Rightarrow> string \<Rightarrow> AddRuleDialog \<Rightarrow> AddRuleDialog \<times> ApiCall option" where
  "rule_submit org project d =
     (case form_submit (ad_subject d = None \<or> ad_permission d = 0) (ad_form d) of
        (f, sent) \<Rightarrow> (d\<lparr>ad_form := f\<rparr>,
          case ad_subject d of
            Some (i, label, isGroup) \<Rightarrow>
              if sent then Some (createProjectRule org project (if isGroup then [] else i) (if isGroup then i else [])
                (ad_prefix d) (sint (ad_permission d))) else None
          | None \<Rightarrow> None))"

record AddDefaultDialog =
  de_editing :: "PermissionEntry option"
  de_prefix :: string
  de_permission :: mask
  de_form :: FormDialog

definition default_mount :: "PermissionEntry option \<Rightarrow> AddDefaultDialog" where
  "default_mount editing =
     \<lparr>de_editing = editing, de_prefix = (case editing of Some e \<Rightarrow> pm_path_prefix e | None \<Rightarrow> []),
      de_permission = (case editing of Some e \<Rightarrow> pm_permission e | None \<Rightarrow> 0), de_form = form_open\<rparr>"

text \<open>The field of the prefix is disabled while an existing default is edited.\<close>

definition default_prefix :: "string \<Rightarrow> AddDefaultDialog \<Rightarrow> AddDefaultDialog" where
  "default_prefix s d = (if de_editing d = None then d\<lparr>de_prefix := s\<rparr> else d)"

definition default_toggle :: "mask \<Rightarrow> AddDefaultDialog \<Rightarrow> AddDefaultDialog" where
  "default_toggle b d = d\<lparr>de_permission := toggle (de_permission d) b\<rparr>"

definition default_submit :: "string \<Rightarrow> string \<Rightarrow> AddDefaultDialog \<Rightarrow> AddDefaultDialog \<times> ApiCall option" where
  "default_submit org project d =
     (case form_submit (de_permission d = 0) (de_form d) of
        (f, sent) \<Rightarrow> (d\<lparr>de_form := f\<rparr>,
          if sent then Some (setProjectDefault org project (de_prefix d) (sint (de_permission d))) else None))"

section \<open>Protected branches\<close>

record ProtectionChange =
  pc_protect :: "bool option"
  pc_approvals :: "int option"
  pc_dismissStale :: "bool option"
  pc_requireChecks :: "bool option"
  pc_reviewers :: "string list option"
  pc_checks :: "string list option"

definition no_change :: ProtectionChange where
  "no_change = \<lparr>pc_protect = None, pc_approvals = None, pc_dismissStale = None, pc_requireChecks = None,
     pc_reviewers = None, pc_checks = None\<rparr>"

text \<open>Whether the user is asked first, and the request; \<open>ok\<close> is the answer.\<close>

definition asks_to_unprotect :: "BranchResponse \<Rightarrow> ProtectionChange \<Rightarrow> bool" where
  "asks_to_unprotect b c \<longleftrightarrow> pc_protect c = Some False \<and> br_is_protected b"

definition changeProtection :: "string \<Rightarrow> string \<Rightarrow> bool \<Rightarrow> BranchResponse \<Rightarrow> ProtectionChange \<Rightarrow> ApiCall option" where
  "changeProtection org project ok b c =
     (if asks_to_unprotect b c \<and> \<not> ok then None
      else Some (setBranchProtection org project (br_name b) (coalesce (pc_protect c) (br_is_protected b))
        (pc_approvals c) (pc_dismissStale c) (pc_requireChecks c) (pc_reviewers c) (pc_checks c)))"

subsection \<open>Required approvals\<close>

text \<open>The inputs keep the text and the branch of the last rendering.\<close>

record BranchInput =
  bi_value :: string
  bi_branch :: BranchResponse

definition approvals_text :: "BranchResponse \<Rightarrow> string" where
  "approvals_text b = js_show_int (br_required_approvals b)"

definition approvals_mount :: "BranchResponse \<Rightarrow> BranchInput" where
  "approvals_mount b = \<lparr>bi_value = approvals_text b, bi_branch = b\<rparr>"

definition approvals_render :: "BranchResponse \<Rightarrow> BranchInput \<Rightarrow> BranchInput" where
  "approvals_render b s =
     s\<lparr>bi_branch := b,
       bi_value := (if br_required_approvals b = br_required_approvals (bi_branch s) then bi_value s else approvals_text b)\<rparr>"

definition input_type :: "string \<Rightarrow> BranchInput \<Rightarrow> BranchInput" where
  "input_type v s = s\<lparr>bi_value := v\<rparr>"

definition approvals_number :: "string \<Rightarrow> int" where
  "approvals_number v = (case js_parseInt v of Some n \<Rightarrow> if n > 0 then n else 0 | None \<Rightarrow> 0)"

definition approvals_commit :: "BranchInput \<Rightarrow> ProtectionChange option \<times> BranchInput" where
  "approvals_commit s =
     (let n = approvals_number (bi_value s) in
      (if n \<noteq> br_required_approvals (bi_branch s) then Some (no_change\<lparr>pc_approvals := Some n\<rparr>) else None,
       s\<lparr>bi_value := js_show_int n\<rparr>))"

subsection \<open>Required checks\<close>

definition checks_of :: "BranchResponse \<Rightarrow> string list" where
  "checks_of b = coalesce (br_required_checks b) []"

definition checks_text :: "string list \<Rightarrow> string" where
  "checks_text cs = js_join '', '' cs"

definition check_names :: "string \<Rightarrow> string list" where
  "check_names v = filter (\<lambda>n. n \<noteq> []) (map js_trim (js_split (CHR '','') v))"

definition checks_mount :: "BranchResponse \<Rightarrow> BranchInput" where
  "checks_mount b = \<lparr>bi_value = checks_text (checks_of b), bi_branch = b\<rparr>"

text \<open>The effect runs for every newly loaded list, as its identity changes, but not from no list to no list.\<close>

definition checks_loaded :: "BranchResponse \<Rightarrow> BranchInput \<Rightarrow> BranchInput" where
  "checks_loaded b s =
     \<lparr>bi_value = (if br_required_checks b = None \<and> br_required_checks (bi_branch s) = None then bi_value s
        else checks_text (checks_of b)), bi_branch = b\<rparr>"

definition checks_commit :: "BranchInput \<Rightarrow> ProtectionChange option \<times> BranchInput" where
  "checks_commit s =
     (let names = check_names (bi_value s); current = checks_of (bi_branch s) in
      if js_join [CHR 0x00] names \<noteq> js_join [CHR 0x00] current
      then (Some (no_change\<lparr>pc_checks := Some names\<rparr>), s)
      else (None, s\<lparr>bi_value := checks_text current\<rparr>))"

subsection \<open>Required reviewers\<close>

definition required_of :: "BranchResponse \<Rightarrow> ReviewActorResponse list" where
  "required_of b = coalesce (br_required_reviewers b) []"

definition reviewer_candidates :: "BranchResponse \<Rightarrow> OrgMemberResponse list \<Rightarrow> OrgMemberResponse list" where
  "reviewer_candidates b members = filter (\<lambda>m. om_user_id m \<notin> ra_user_id ` set (required_of b)) members"

definition remove_reviewer :: "BranchResponse \<Rightarrow> string \<Rightarrow> ProtectionChange" where
  "remove_reviewer b i = no_change\<lparr>pc_reviewers := Some (map ra_user_id (filter (\<lambda>r. ra_user_id r \<noteq> i) (required_of b)))\<rparr>"

text \<open>The chosen candidate is state of its own; adding clears it.\<close>

definition add_reviewer :: "BranchResponse \<Rightarrow> string \<Rightarrow> ProtectionChange option \<times> string" where
  "add_reviewer b pick =
     (if pick = [] then (None, pick)
      else (Some (no_change\<lparr>pc_reviewers := Some (map ra_user_id (required_of b) @ [pick])\<rparr>), []))"

subsection \<open>The card\<close>

definition dismiss_stale :: "bool \<Rightarrow> ProtectionChange" where
  "dismiss_stale b = no_change\<lparr>pc_dismissStale := Some b\<rparr>"

definition require_checks :: "bool \<Rightarrow> ProtectionChange" where
  "require_checks b = no_change\<lparr>pc_requireChecks := Some b\<rparr>"

definition protect :: "bool \<Rightarrow> ProtectionChange" where
  "protect b = no_change\<lparr>pc_protect := Some b\<rparr>"

definition protection_text :: "BranchResponse \<Rightarrow> string" where
  "protection_text b =
     (if br_is_protected b then ''Protected '' @ [CHR 0xE2, CHR 0x80, CHR 0x94] @ '' pushes and deletions are restricted.''
      else ''Not protected '' @ [CHR 0xE2, CHR 0x80, CHR 0x94] @ '' anyone with write access can push.'')"

section \<open>General settings\<close>

record ProjectResponse =
  pj_id :: string
  pj_org_id :: string
  pj_slug :: string
  pj_name :: string
  pj_description :: string

record GeneralSettings =
  ge_current :: "ProjectResponse option"
  ge_name :: string
  ge_description :: string
  ge_saving :: bool
  ge_saveError :: "string option"
  ge_notice :: "string option"
  ge_deleting :: "ProjectResponse option"
  ge_sent :: "ApiCall list"
  ge_reloads :: nat

definition general_mount :: GeneralSettings where
  "general_mount = \<lparr>ge_current = None, ge_name = [], ge_description = [], ge_saving = False, ge_saveError = None,
     ge_notice = None, ge_deleting = None, ge_sent = [], ge_reloads = 0\<rparr>"

definition current_project :: "ProjectResponse list option \<Rightarrow> string \<Rightarrow> ProjectResponse option" where
  "current_project projects project = (case projects of None \<Rightarrow> None | Some ps \<Rightarrow> find (\<lambda>p. pj_slug p = project) ps)"

text \<open>A rendering with a new list of projects; the effect depends on id, name and description.\<close>

definition general_render :: "ProjectResponse option \<Rightarrow> GeneralSettings \<Rightarrow> GeneralSettings" where
  "general_render cur s =
     (let key = map_option (\<lambda>c. (pj_id c, pj_name c, pj_description c)); q = s\<lparr>ge_current := cur\<rparr> in
      case cur of
        None \<Rightarrow> q
      | Some c \<Rightarrow> if key cur = key (ge_current s) then q
                  else q\<lparr>ge_name := pj_name c, ge_description := pj_description c\<rparr>)"

definition general_dirty :: "GeneralSettings \<Rightarrow> bool" where
  "general_dirty s = (case ge_current s of None \<Rightarrow> False
     | Some c \<Rightarrow> js_trim (ge_name s) \<noteq> pj_name c \<or> ge_description s \<noteq> pj_description c)"

definition general_edit :: "string \<Rightarrow> string \<Rightarrow> GeneralSettings \<Rightarrow> GeneralSettings" where
  "general_edit name description s = s\<lparr>ge_name := name, ge_description := description\<rparr>"

definition general_save :: "string \<Rightarrow> string \<Rightarrow> GeneralSettings \<Rightarrow> GeneralSettings" where
  "general_save org project s =
     (if ge_current s = None \<or> \<not> general_dirty s \<or> js_trim (ge_name s) = [] \<or> ge_saving s then s
      else s\<lparr>ge_saving := True, ge_saveError := None, ge_notice := None,
             ge_sent := ge_sent s @ [updateProject org project (js_trim (ge_name s)) (ge_description s)]\<rparr>)"

definition general_saved :: "unit outcome \<Rightarrow> GeneralSettings \<Rightarrow> GeneralSettings" where
  "general_saved r s =
     (if ge_saving s
      then (case r of
              Inr _ \<Rightarrow> s\<lparr>ge_notice := Some ''Repository updated.'', ge_reloads := ge_reloads s + 1, ge_saving := False\<rparr>
            | Inl e \<Rightarrow> s\<lparr>ge_saveError := Some e, ge_saving := False\<rparr>)
      else s)"

text \<open>The dialog that deletes a repository asks for its slug.\<close>

record DeleteDialog =
  dp_typed :: string
  dp_form :: FormDialog

definition delete_mount :: DeleteDialog where
  "delete_mount = \<lparr>dp_typed = [], dp_form = form_open\<rparr>"

definition delete_type :: "string \<Rightarrow> DeleteDialog \<Rightarrow> DeleteDialog" where
  "delete_type v d = d\<lparr>dp_typed := v\<rparr>"

definition delete_submit :: "string \<Rightarrow> ProjectResponse \<Rightarrow> DeleteDialog \<Rightarrow> DeleteDialog \<times> ApiCall option" where
  "delete_submit org p d =
     (case form_submit (js_trim (dp_typed d) \<noteq> pj_slug p) (dp_form d) of
        (f, sent) \<Rightarrow> (d\<lparr>dp_form := f\<rparr>, if sent then Some (deleteProject org (pj_slug p)) else None))"

section \<open>Texts of the inputs\<close>

lemma dropWhile_idem [simp]: "dropWhile P (dropWhile P xs) = dropWhile P xs"
  by (induction xs) auto

lemma set_js_trim: "set (js_trim s) \<subseteq> set s"
  unfolding js_trim_def by (auto dest!: set_dropWhileD)

definition clean_name :: "string \<Rightarrow> bool" where
  "clean_name n \<longleftrightarrow> n \<noteq> [] \<and> js_trim n = n \<and> CHR '','' \<notin> set n"

lemma check_names_clean: "list_all clean_name (check_names v)"
  using js_split_pieces [of _ "CHR '',''" v] set_js_trim
  by (auto simp: check_names_def clean_name_def list_all_iff)

lemma trim_space: "js_trim (CHR '' '' # s) = js_trim s"
  by (simp add: js_trim_def js_is_space_def Let_def)

lemma check_names_piece:
  "list_all clean_name (n # ns) \<Longrightarrow> check_names (CHR '' '' # checks_text (n # ns)) = n # ns \<and> check_names (checks_text (n # ns)) = n # ns"
proof (induction ns arbitrary: n)
  case Nil
  then show ?case by (simp add: check_names_def checks_text_def clean_name_def js_split_no_sep trim_space)
next
  case (Cons m ms)
  then have n: "clean_name n" and ih: "check_names (CHR '' '' # checks_text (m # ms)) = m # ms" by simp_all
  have "check_names (p @ CHR '','' # q) = js_trim p # check_names q" if "CHR '','' \<notin> set p" "js_trim p \<noteq> []" for p q
    using that by (simp add: check_names_def js_split_append_sep)
  from this [of n "CHR '' '' # checks_text (m # ms)"] this [of "CHR '' '' # n" "CHR '' '' # checks_text (m # ms)"] n ih
  show ?case by (simp add: checks_text_def clean_name_def trim_space)
qed

lemma check_names_text: "list_all clean_name ns \<Longrightarrow> check_names (checks_text ns) = ns"
  using check_names_piece [of "hd ns" "tl ns"] by (cases ns) (simp_all add: checks_text_def check_names_def js_trim_def)

lemma approvals_number_show: "n \<ge> 0 \<Longrightarrow> approvals_number (js_show_int n) = n"
  by (cases n) (auto simp: approvals_number_def js_show_int_def)

lemma approvals_nonneg: "approvals_number v \<ge> 0"
  by (simp add: approvals_number_def split: option.split)

section \<open>The dialogs of permissions\<close>

inductive add_rule_reach :: "AddRuleDialog \<Rightarrow> bool" where
  mount: "add_rule_reach add_rule_mount"
| pick: "add_rule_reach d \<Longrightarrow> pe_id e \<noteq> [] \<Longrightarrow> add_rule_reach (rule_select e d)"
| prefix: "add_rule_reach d \<Longrightarrow> add_rule_reach (rule_prefix s d)"
| check: "add_rule_reach d \<Longrightarrow> b \<in> fst ` set PERMISSION_OPTIONS \<Longrightarrow> add_rule_reach (rule_toggle b d)"
| send: "add_rule_reach d \<Longrightarrow> add_rule_reach (fst (rule_submit org project d))"
| settle: "add_rule_reach d \<Longrightarrow> add_rule_reach (d\<lparr>ad_form := form_settle r (ad_form d)\<rparr>)"

definition add_rule_ok :: "AddRuleDialog \<Rightarrow> bool" where
  "add_rule_ok d \<longleftrightarrow> ad_permission d AND NOT known_bits = 0 \<and> (\<forall>i l g. ad_subject d = Some (i, l, g) \<longrightarrow> i \<noteq> [])"

lemma toggle_known:
  assumes "m AND NOT known_bits = 0" "b \<in> fst ` set PERMISSION_OPTIONS"
  shows "toggle m b AND NOT known_bits = 0"
proof -
  have b: "b \<in> {1, 2, 4, 65536}" using assms(2) by (auto simp: PERMISSION_OPTIONS_def permission_values)
  have "n \<in> {0, 1, 2, 16}" if "bit b n" for n using b that by (auto simp only: insert_iff empty_iff constant_bits)
  with assms(1) show ?thesis
    unfolding known_bits_iff by (auto simp: toggle_def bit_and_iff bit_or_iff split: if_splits)
qed

lemma add_rule_ok: "add_rule_reach d \<Longrightarrow> add_rule_ok d"
proof (induction rule: add_rule_reach.induct)
  case (check d b)
  then show ?case using toggle_known [of "ad_permission d" b] by (simp add: add_rule_ok_def rule_toggle_def)
qed (auto simp: add_rule_ok_def add_rule_mount_def rule_select_def rule_prefix_def rule_submit_def split: prod.splits)

lemma known_mask_bounds:
  assumes "m AND NOT known_bits = 0" "m \<noteq> 0"
  shows "0 < sint m \<and> sint m \<le> 65543"
proof -
  have "0 < sint w \<and> sint w \<le> 65543"
    if "w = (if a then 1 else 0) OR (if b then 2 else 0) OR (if c then 4 else 0) OR (if d then 65536 else 0)" "w \<noteq> 0"
    for w :: mask and a b c d using that by (cases a; cases b; cases c; cases d) simp_all
  from this [OF mask_of_bits [OF assms(1)] assms(2)] show ?thesis .
qed

text \<open>
  The dialog for an access rule sends a rule for exactly one user or group, with at least one
  permission and no bits other than the four permissions, whatever boxes were checked on the way; it sends
  nothing while a rule is being sent.
\<close>

theorem rules_sent_are_valid:
  assumes "add_rule_reach d" "snd (rule_submit org project d) = Some call"
  shows "\<exists>user group prefix permission.
    call = createProjectRule org project user group prefix permission \<and> (user = []) \<noteq> (group = []) \<and>
    permission = sint (ad_permission d) \<and> ad_permission d AND NOT known_bits = 0 \<and> 0 < permission \<and> permission \<le> 65543 \<and>
    snd (rule_submit org project (fst (rule_submit org project d))) = None"
proof -
  have ok: "add_rule_ok d" using assms(1) by (rule add_rule_ok)
  from assms(2) obtain i l g where sub: "ad_subject d = Some (i, l, g)" "ad_permission d \<noteq> 0" "\<not> fd_busy (ad_form d)"
    and call: "call = createProjectRule org project (if g then [] else i) (if g then i else []) (ad_prefix d) (sint (ad_permission d))"
    by (auto simp: rule_submit_def form_submit_def split: option.splits if_splits prod.splits)
  have "snd (rule_submit org project (fst (rule_submit org project d))) = None"
    using sub by (simp add: rule_submit_def form_submit_def)
  with ok sub call known_mask_bounds [of "ad_permission d"] show ?thesis
    by (intro exI [of _ "if g then [] else i"] exI [of _ "if g then i else []"] exI [of _ "ad_prefix d"]) (auto simp: add_rule_ok_def)
qed

definition sample_rule :: AddRuleDialog where
  "sample_rule = rule_toggle PERMISSION_ADMIN (rule_toggle PERMISSION_READ (rule_select (group_entry sample_group) add_rule_mount))"

theorem rules_sent_are_valid_witness:
  "\<exists>user group prefix permission.
     snd (rule_submit ''o'' ''p'' sample_rule) = Some (createProjectRule ''o'' ''p'' user group prefix permission) \<and>
     permission = 65537 \<and> (user = []) \<noteq> (group = [])"
proof -
  have r: "add_rule_reach sample_rule"
    unfolding sample_rule_def by (intro add_rule_reach.intros) (simp_all add: PERMISSION_OPTIONS_def group_entry_def sample_group_def)
  have p: "ad_permission sample_rule = 65537"
    by (simp add: sample_rule_def rule_toggle_def rule_select_def add_rule_mount_def toggle_def permission_values)
  then have c: "snd (rule_submit ''o'' ''p'' sample_rule) = Some (createProjectRule ''o'' ''p'' [] ''g1'' [] (sint (ad_permission sample_rule)))"
    by (simp add: rule_submit_def form_submit_def form_open_def sample_rule_def rule_toggle_def rule_select_def add_rule_mount_def
        group_entry_def sample_group_def)
  have "sint (ad_permission sample_rule) = 65537" by (simp add: p)
  with rules_sent_are_valid [OF r c] c show ?thesis by metis
qed

text \<open>
  The fields of the branch protection settle: whatever text is committed, the required checks
  that are sent are trimmed, non-empty and free of commas, and the required approvals are a number that is
  not negative; once the server has stored them and the branch is loaded again, the fields show what was
  stored and committing them sends nothing.
\<close>

theorem protection_inputs_settle:
  "list_all clean_name (check_names (bi_value s)) \<and>
   fst (checks_commit (checks_loaded ((bi_branch s)\<lparr>br_required_checks := Some (check_names (bi_value s))\<rparr>) s')) = None \<and>
   approvals_number (bi_value s) \<ge> 0 \<and>
   (let loaded = approvals_render ((bi_branch s)\<lparr>br_required_approvals := approvals_number (bi_value s)\<rparr>) (snd (approvals_commit s))
    in bi_value loaded = js_show_int (approvals_number (bi_value s)) \<and> fst (approvals_commit loaded) = None) \<and>
   fst (approvals_commit (s\<lparr>bi_value := js_show_nat n\<rparr>)) =
     (if int n = br_required_approvals (bi_branch s) then None else Some (no_change\<lparr>pc_approvals := Some (int n)\<rparr>))"
proof -
  have "fst (checks_commit (checks_loaded ((bi_branch s)\<lparr>br_required_checks := Some (check_names (bi_value s))\<rparr>) s')) = None"
    using check_names_text [OF check_names_clean, of "bi_value s"] by (simp add: checks_commit_def checks_loaded_def checks_of_def Let_def)
  moreover have "approvals_number (js_show_nat n) = int n" by (simp add: approvals_number_def)
  ultimately show ?thesis
    using check_names_clean approvals_nonneg [of "bi_value s"]
    by (simp add: approvals_render_def approvals_commit_def approvals_text_def approvals_number_show Let_def)
qed

text \<open>
  Two required reviewers added one after the other, before the branches are loaded again: the
  second request is made from the list without the first one and removes them again.
\<close>

theorem second_reviewer_replaces_first:
  assumes "m \<in> set (reviewer_candidates b members)" "n \<in> set (reviewer_candidates b members)" "om_user_id m \<noteq> om_user_id n"
    "om_user_id m \<noteq> []" "om_user_id n \<noteq> []"
  shows "\<exists>first second.
    map_option (\<lambda>c. changeProtection org project ok b c) (fst (add_reviewer b (om_user_id m))) =
      Some (Some (setBranchProtection org project (br_name b) (br_is_protected b) None None None (Some first) None)) \<and>
    map_option (\<lambda>c. changeProtection org project ok b c) (fst (add_reviewer b (om_user_id n))) =
      Some (Some (setBranchProtection org project (br_name b) (br_is_protected b) None None None (Some second) None)) \<and>
    om_user_id m \<in> set first \<and> om_user_id m \<notin> set second \<and> om_user_id n \<in> set second"
  using assms
  by (intro exI [of _ "map ra_user_id (required_of b) @ [om_user_id m]"] exI [of _ "map ra_user_id (required_of b) @ [om_user_id n]"])
    (auto simp: add_reviewer_def changeProtection_def asks_to_unprotect_def no_change_def reviewer_candidates_def)

definition sample_member :: "string \<Rightarrow> OrgMemberResponse" where
  "sample_member i = \<lparr>om_user_id = i, om_name = i, om_email = i, om_photo_url = [], om_is_admin = False, om_is_super_admin = False,
     om_role = ''member'', om_joined_at = None\<rparr>"

definition sample_protected :: BranchResponse where
  "sample_protected = \<lparr>br_id = ''b'', br_name = ''main'', br_is_default = True, br_is_protected = True, br_required_approvals = 1,
     br_dismiss_stale_approvals = False, br_require_status_checks = False, br_required_reviewers = None,
     br_required_checks = None, br_commit_id = None, br_updated_at = []\<rparr>"

theorem second_reviewer_replaces_first_witness:
  "\<exists>first second.
    map_option (\<lambda>c. changeProtection ''o'' ''p'' True sample_protected c) (fst (add_reviewer sample_protected ''ann'')) =
      Some (Some (setBranchProtection ''o'' ''p'' ''main'' True None None None (Some first) None)) \<and>
    map_option (\<lambda>c. changeProtection ''o'' ''p'' True sample_protected c) (fst (add_reviewer sample_protected ''bob'')) =
      Some (Some (setBranchProtection ''o'' ''p'' ''main'' True None None None (Some second) None)) \<and>
    ''ann'' \<in> set first \<and> ''ann'' \<notin> set second \<and> ''bob'' \<in> set second"
  using second_reviewer_replaces_first [of "sample_member ''ann''" sample_protected "[sample_member ''ann'', sample_member ''bob'']"
      "sample_member ''bob''" "''o''" "''p''" True]
  by (simp add: reviewer_candidates_def required_of_def sample_protected_def sample_member_def)

section \<open>Saving the general settings\<close>

inductive general_reach :: "string \<Rightarrow> string \<Rightarrow> nat \<Rightarrow> GeneralSettings \<Rightarrow> bool" for org project where
  mount: "general_reach org project 0 general_mount"
| render: "general_reach org project k s \<Longrightarrow> general_reach org project k (general_render cur s)"
| edit: "general_reach org project k s \<Longrightarrow> general_reach org project k (general_edit name description s)"
| save: "general_reach org project k s \<Longrightarrow> general_reach org project k (general_save org project s)"
| saved: "general_reach org project k s \<Longrightarrow> ge_saving s \<Longrightarrow> general_reach org project (k + 1) (general_saved r s)"

text \<open>The counter is the number of answers so far.\<close>

lemma general_counts: "general_reach org project k s \<Longrightarrow> length (ge_sent s) = (if ge_saving s then k + 1 else k)"
  by (induction rule: general_reach.induct)
    (auto simp: general_mount_def general_render_def general_edit_def general_save_def general_saved_def Let_def split: option.splits sum.splits)

text \<open>
  The general settings send one update at a time, only when the name or the description differs
  from what was loaded and the name is not blank. An update that fails leaves the texts as they are, shows
  the error and can be sent again.
\<close>

theorem general_settings_saved_once:
  assumes "general_reach org project k s"
  shows "length (ge_sent s) \<le> k + 1 \<and> (ge_saving s \<longrightarrow> general_save org project s = s) \<and>
    (ge_sent (general_save org project s) = ge_sent s \<or>
      (\<exists>c. ge_current s = Some c \<and> (js_trim (ge_name s) \<noteq> pj_name c \<or> ge_description s \<noteq> pj_description c) \<and> js_trim (ge_name s) \<noteq> [] \<and>
        ge_sent (general_save org project s) = ge_sent s @ [updateProject org project (js_trim (ge_name s)) (ge_description s)] \<and>
        (let failed = general_saved (Inl e) (general_save org project s) in
          ge_saveError failed = Some e \<and> ge_name failed = ge_name s \<and> ge_description failed = ge_description s \<and>
          ge_sent (general_save org project failed) =
            ge_sent failed @ [updateProject org project (js_trim (ge_name s)) (ge_description s)])))"
proof (cases "general_save org project s = s")
  case True
  then show ?thesis using general_counts [OF assms] by simp
next
  case False
  then obtain c where c: "ge_current s = Some c" and d: "general_dirty s" "js_trim (ge_name s) \<noteq> []" "\<not> ge_saving s"
    by (auto simp: general_save_def split: if_splits)
  then have "js_trim (ge_name s) \<noteq> pj_name c \<or> ge_description s \<noteq> pj_description c" by (simp add: general_dirty_def)
  moreover have "ge_sent (general_save org project s) = ge_sent s @ [updateProject org project (js_trim (ge_name s)) (ge_description s)]"
    using c d by (simp add: general_save_def)
  moreover have "general_dirty (general_saved (Inl e) (general_save org project s)) = general_dirty s"
    using c d by (simp add: general_dirty_def general_save_def general_saved_def)
  moreover have "let failed = general_saved (Inl e) (general_save org project s) in
      ge_saveError failed = Some e \<and> ge_name failed = ge_name s \<and> ge_description failed = ge_description s \<and>
      \<not> ge_saving failed \<and> ge_current failed = Some c"
    using c d by (simp add: general_save_def general_saved_def)
  ultimately show ?thesis using general_counts [OF assms] c d
    by (simp add: Let_def general_save_def [of _ _ "general_saved _ _"])
qed

definition sample_game :: ProjectResponse where
  "sample_game = \<lparr>pj_id = ''1'', pj_org_id = ''1'', pj_slug = ''game'', pj_name = ''Game'', pj_description = []\<rparr>"

theorem general_settings_saved_once_witness:
  "let s = general_save ''o'' ''game'' (general_edit ''New game'' [] (general_render (Some sample_game) general_mount)) in
     length (ge_sent s) = 1 \<and> general_save ''o'' ''game'' s = s"
proof -
  let ?s = "general_save ''o'' ''game'' (general_edit ''New game'' [] (general_render (Some sample_game) general_mount))"
  have r: "general_reach ''o'' ''game'' 0 ?s" by (intro general_reach.intros)
  have "ge_saving ?s" "length (ge_sent ?s) = 1" by code_simp+
  with general_settings_saved_once [OF r, of "[]"] show ?thesis unfolding Let_def by blast
qed

end
