(* ===== verification/Webhooks.thy ===== *)
theory Webhooks
  imports Project_Settings
begin

text \<open>
  Webhooks and mail of a repository in the web client: \<open>WebhookSettings.tsx\<close> with the dialog that creates a
  webhook and the list of deliveries, and \<open>EmailSettings.tsx\<close>; of the server, which events it accepts
  (\<open>normalizeWebhookEvents\<close>). Requests are part of the state until they are answered.
\<close>

section \<open>Events\<close>

definition WEBHOOK_EVENTS :: "(string \<times> string) list" where
  "WEBHOOK_EVENTS = [
     (''push'', ''Push''), (''branch.created'', ''Branch created''), (''branch.deleted'', ''Branch deleted''),
     (''mr.created'', ''Merge request created''), (''mr.updated'', ''Merge request updated''),
     (''mr.synchronized'', ''Merge request synchronized''), (''mr.merged'', ''Merge request merged''),
     (''mr.closed'', ''Merge request closed''), (''mr.reopened'', ''Merge request reopened''),
     (''mr.review_submitted'', ''Merge request review submitted''),
     (''mr.review_dismissed'', ''Merge request review dismissed''),
     (''mr.review_requested'', ''Merge request review requested''),
     (''mr.review_request_removed'', ''Merge request review request removed''),
     (''mr.comment_created'', ''Merge request comment created'')]"

definition webhookEventLabel :: "string \<Rightarrow> string" where
  "webhookEventLabel event = coalesce (map_of WEBHOOK_EVENTS event) event"

text \<open>The server.\<close>

definition webhookEventTypes :: "string list" where
  "webhookEventTypes = [''push'', ''branch.created'', ''branch.deleted'', ''tag.created'', ''tag.deleted'', ''mr.created'', ''mr.updated'',
     ''mr.synchronized'', ''mr.merged'', ''mr.closed'', ''mr.reopened'', ''mr.ready_for_review'', ''mr.review_submitted'',
     ''mr.review_dismissed'', ''mr.review_requested'', ''mr.review_request_removed'', ''mr.comment_created'', ''mr.check_reported'']"

datatype webhook_error = NoEvents | UnknownEvent string

fun webhook_events :: "string list \<Rightarrow> string list \<Rightarrow> webhook_error + string list" where
  "webhook_events seen [] = Inr seen"
| "webhook_events seen (x # xs) =
     (let event = js_trim x in
      if event \<notin> set webhookEventTypes then Inl (UnknownEvent event)
      else if event \<in> set seen then webhook_events seen xs
      else webhook_events (seen @ [event]) xs)"

fun bytes_le :: "string \<Rightarrow> string \<Rightarrow> bool" where
  "bytes_le [] ys = True"
| "bytes_le (x # xs) [] = False"
| "bytes_le (x # xs) (y # ys) \<longleftrightarrow> (of_char x :: nat) < of_char y \<or> x = y \<and> bytes_le xs ys"

definition normalizeWebhookEvents :: "string list \<Rightarrow> webhook_error + string list" where
  "normalizeWebhookEvents raw =
     (if raw = [] then Inl NoEvents else map_sum (\<lambda>e. e) (js_sort bytes_le) (webhook_events [] raw))"

section \<open>Creating a webhook\<close>

record CreateWebhookDialog =
  wd_input :: CreateWebhookInput
  wd_form :: FormDialog

definition webhook_mount :: CreateWebhookDialog where
  "webhook_mount = \<lparr>wd_input = \<lparr>cw_name = [], cw_url = [], cw_events = [''push''], cw_path_prefix = [], cw_is_active = True,
     cw_insecure_tls = False\<rparr>, wd_form = form_open\<rparr>"

definition toggleEvent :: "string \<Rightarrow> CreateWebhookDialog \<Rightarrow> CreateWebhookDialog" where
  "toggleEvent v d =
     (let es = cw_events (wd_input d)
      in d\<lparr>wd_input := (wd_input d)\<lparr>cw_events := (if v \<in> set es then filter (\<lambda>e. e \<noteq> v) es else es @ [v])\<rparr>\<rparr>)"

definition webhook_fill :: "string \<Rightarrow> string \<Rightarrow> string \<Rightarrow> CreateWebhookDialog \<Rightarrow> CreateWebhookDialog" where
  "webhook_fill name url pathPrefix d = d\<lparr>wd_input := (wd_input d)\<lparr>cw_name := name, cw_url := url, cw_path_prefix := pathPrefix\<rparr>\<rparr>"

definition toggle_active :: "CreateWebhookDialog \<Rightarrow> CreateWebhookDialog" where
  "toggle_active d = d\<lparr>wd_input := (wd_input d)\<lparr>cw_is_active := \<not> cw_is_active (wd_input d)\<rparr>\<rparr>"

definition toggle_insecure :: "CreateWebhookDialog \<Rightarrow> CreateWebhookDialog" where
  "toggle_insecure d = d\<lparr>wd_input := (wd_input d)\<lparr>cw_insecure_tls := \<not> cw_insecure_tls (wd_input d)\<rparr>\<rparr>"

definition webhook_submit :: "CreateWebhookDialog \<Rightarrow> CreateWebhookDialog \<times> CreateWebhookInput option" where
  "webhook_submit d =
     (case form_submit (js_trim (cw_url (wd_input d)) = []) (wd_form d) of
        (f, sent) \<Rightarrow> (d\<lparr>wd_form := f\<rparr>, if sent then Some (wd_input d) else None))"

section \<open>The list of webhooks\<close>

record WebhookResponse =
  wh_id :: string
  wh_project_id :: string
  wh_name :: string
  wh_url :: string
  wh_events :: "string list"
  wh_path_prefix :: string
  wh_is_active :: bool
  wh_insecure_tls :: bool
  wh_secret :: "string option"
  wh_created_at :: string
  wh_updated_at :: string

definition webhook_title :: "WebhookResponse \<Rightarrow> string" where
  "webhook_title w = (if wh_name w \<noteq> [] then wh_name w else wh_url w)"

text \<open>A request on its way. A deletion remembers which deliveries were shown when it was asked for.\<close>

datatype HookAction =
    ToggleHook WebhookResponse
  | RotateHook WebhookResponse
  | TestHook WebhookResponse
  | DeleteHook WebhookResponse "string option"
  | CreateHook CreateWebhookInput

record HookState =
  hs_creating :: bool
  hs_expanded :: "string option"
  hs_nonce :: nat
  hs_revealed :: "(string \<times> string) option"
  hs_error :: "string option"
  hs_flight :: "HookAction list"
  hs_sent :: "ApiCall list"
  hs_reloads :: nat

definition hooks_mount :: HookState where
  "hooks_mount = \<lparr>hs_creating = False, hs_expanded = None, hs_nonce = 0, hs_revealed = None, hs_error = None,
     hs_flight = [], hs_sent = [], hs_reloads = 0\<rparr>"

definition no_update :: UpdateWebhookInput where
  "no_update = \<lparr>uw_name = None, uw_url = None, uw_events = None, uw_path_prefix = None, uw_is_active = None, uw_insecure_tls = None\<rparr>"

fun hook_call :: "string \<Rightarrow> string \<Rightarrow> HookAction \<Rightarrow> ApiCall" where
  "hook_call org project (ToggleHook w) = updateWebhook org project (wh_id w) (no_update\<lparr>uw_is_active := Some (\<not> wh_is_active w)\<rparr>)"
| "hook_call org project (RotateHook w) = rotateWebhookSecret org project (wh_id w)"
| "hook_call org project (TestHook w) = testWebhook org project (wh_id w)"
| "hook_call org project (DeleteHook w _) = deleteWebhook org project (wh_id w)"
| "hook_call org project (CreateHook input) = createWebhook org project input"

definition is_create :: "HookAction \<Rightarrow> bool" where
  "is_create a = (case a of CreateHook _ \<Rightarrow> True | _ \<Rightarrow> False)"

text \<open>Starting: \<open>run\<close> clears the error; a creation is run by its dialog, which has its own.\<close>

definition hook_start :: "string \<Rightarrow> string \<Rightarrow> HookAction \<Rightarrow> HookState \<Rightarrow> HookState" where
  "hook_start org project a s =
     s\<lparr>hs_error := (if is_create a then hs_error s else None), hs_flight := hs_flight s @ [a], hs_sent := hs_sent s @ [hook_call org project a]\<rparr>"

definition handleToggleActive :: "string \<Rightarrow> string \<Rightarrow> WebhookResponse \<Rightarrow> HookState \<Rightarrow> HookState" where
  "handleToggleActive org project w s = hook_start org project (ToggleHook w) s"

definition handleRotate :: "string \<Rightarrow> string \<Rightarrow> bool \<Rightarrow> WebhookResponse \<Rightarrow> HookState \<Rightarrow> HookState" where
  "handleRotate org project ok w s = (if ok then hook_start org project (RotateHook w) s else s)"

definition handleTest :: "string \<Rightarrow> string \<Rightarrow> WebhookResponse \<Rightarrow> HookState \<Rightarrow> HookState" where
  "handleTest org project w s = hook_start org project (TestHook w) s"

definition handleDelete :: "string \<Rightarrow> string \<Rightarrow> bool \<Rightarrow> WebhookResponse \<Rightarrow> HookState \<Rightarrow> HookState" where
  "handleDelete org project ok w s = (if ok then hook_start org project (DeleteHook w (hs_expanded s)) s else s)"

definition hook_create :: "string \<Rightarrow> string \<Rightarrow> CreateWebhookInput \<Rightarrow> HookState \<Rightarrow> HookState" where
  "hook_create org project input s = hook_start org project (CreateHook input) s"

definition toggle_deliveries :: "WebhookResponse \<Rightarrow> HookState \<Rightarrow> HookState" where
  "toggle_deliveries w s =
     s\<lparr>hs_expanded := (if hs_expanded s = Some (wh_id w) then None else Some (wh_id w)), hs_nonce := hs_nonce s + 1\<rparr>"

definition dismiss_secret :: "HookState \<Rightarrow> HookState" where
  "dismiss_secret s = s\<lparr>hs_revealed := None\<rparr>"

definition setCreating :: "bool \<Rightarrow> HookState \<Rightarrow> HookState" where
  "setCreating b s = s\<lparr>hs_creating := b\<rparr>"

definition clear_hook_error :: "HookState \<Rightarrow> HookState" where
  "clear_hook_error s = s\<lparr>hs_error := None\<rparr>"

text \<open>The secret of an answer, if it has one.\<close>

definition reveal :: "WebhookResponse \<Rightarrow> HookState \<Rightarrow> HookState" where
  "reveal w s = (if truthy (wh_secret w) then s\<lparr>hs_revealed := Some (webhook_title w, the (wh_secret w))\<rparr> else s)"

text \<open>An answer: the webhook for a rotation and a creation, ignored otherwise.\<close>

definition hook_settled :: "HookAction \<Rightarrow> WebhookResponse outcome \<Rightarrow> HookState \<Rightarrow> HookState" where
  "hook_settled a r s =
     (let q = s\<lparr>hs_flight := remove1 a (hs_flight s)\<rparr> in
      case r of
        Inl e \<Rightarrow> if is_create a then q else q\<lparr>hs_error := Some e\<rparr>
      | Inr w \<Rightarrow> (case a of
            ToggleHook _ \<Rightarrow> q\<lparr>hs_reloads := hs_reloads q + 1\<rparr>
          | RotateHook _ \<Rightarrow> reveal w q
          | TestHook h \<Rightarrow> q\<lparr>hs_expanded := Some (wh_id h), hs_nonce := hs_nonce q + 1\<rparr>
          | DeleteHook h was \<Rightarrow> q\<lparr>hs_expanded := (if was = Some (wh_id h) then None else hs_expanded q), hs_reloads := hs_reloads q + 1\<rparr>
          | CreateHook _ \<Rightarrow> (reveal w q)\<lparr>hs_reloads := hs_reloads q + 1\<rparr>))"

subsection \<open>What is shown\<close>

record HookRow =
  hr_name :: string
  hr_prefix :: "string option"
  hr_url :: string
  hr_insecure :: bool
  hr_events :: string
  hr_active :: bool
  hr_deliveries :: string

definition hook_row :: "HookState \<Rightarrow> WebhookResponse \<Rightarrow> HookRow" where
  "hook_row s w = \<lparr>hr_name = (if wh_name w \<noteq> [] then wh_name w else ''(unnamed)''),
     hr_prefix = (if wh_path_prefix w \<noteq> [] then Some (wh_path_prefix w) else None), hr_url = wh_url w, hr_insecure = wh_insecure_tls w,
     hr_events = js_join '', '' (map webhookEventLabel (wh_events w)), hr_active = wh_is_active w,
     hr_deliveries = (if hs_expanded s = Some (wh_id w) then ''Hide deliveries'' else ''Deliveries'')\<rparr>"

definition expandedHook :: "WebhookResponse list option \<Rightarrow> HookState \<Rightarrow> WebhookResponse option" where
  "expandedHook webhooks s = (case webhooks of None \<Rightarrow> None | Some ws \<Rightarrow> find (\<lambda>w. Some (wh_id w) = hs_expanded s) ws)"

section \<open>Deliveries\<close>

text \<open>The deliveries of a webhook: one cell says which one is being sent again.\<close>

record Deliveries =
  dv_redelivering :: "string option"
  dv_error :: "string option"
  dv_flight :: "string list"
  dv_sent :: "ApiCall list"
  dv_reloads :: nat

definition deliveries_mount :: Deliveries where
  "deliveries_mount = \<lparr>dv_redelivering = None, dv_error = None, dv_flight = [], dv_sent = [], dv_reloads = 0\<rparr>"

definition redeliver_enabled :: "string \<Rightarrow> Deliveries \<Rightarrow> bool" where
  "redeliver_enabled i s \<longleftrightarrow> dv_redelivering s \<noteq> Some i"

definition redeliver :: "string \<Rightarrow> string \<Rightarrow> string \<Rightarrow> string \<Rightarrow> Deliveries \<Rightarrow> Deliveries" where
  "redeliver org project webhookId i s =
     (if redeliver_enabled i s
      then s\<lparr>dv_redelivering := Some i, dv_error := None, dv_flight := dv_flight s @ [i],
             dv_sent := dv_sent s @ [redeliverWebhookDelivery org project webhookId i]\<rparr>
      else s)"

definition redelivered :: "string \<Rightarrow> unit outcome \<Rightarrow> Deliveries \<Rightarrow> Deliveries" where
  "redelivered i r s =
     (let q = s\<lparr>dv_flight := remove1 i (dv_flight s), dv_redelivering := None\<rparr> in
      case r of Inr _ \<Rightarrow> q\<lparr>dv_reloads := dv_reloads q + 1\<rparr> | Inl e \<Rightarrow> q\<lparr>dv_error := Some e\<rparr>)"

section \<open>Mail\<close>

definition STATE_OPTIONS :: "(string \<times> string) list" where
  "STATE_OPTIONS = [([], ''All states''), (''failed'', ''Failed''), (''pending'', ''Pending''), (''delivered'', ''Delivered'')]"

definition email_call :: "string \<Rightarrow> string \<Rightarrow> string \<Rightarrow> ApiCall" where
  "email_call org project state = listEmailDeliveries org project state [] 50"

definition redeliver_email :: "string \<Rightarrow> string \<Rightarrow> string \<Rightarrow> Deliveries \<Rightarrow> Deliveries" where
  "redeliver_email org project i s =
     (if redeliver_enabled i s
      then s\<lparr>dv_redelivering := Some i, dv_error := None, dv_flight := dv_flight s @ [i],
             dv_sent := dv_sent s @ [redeliverEmailDelivery org project i]\<rparr>
      else s)"

section \<open>What the dialog sends\<close>

inductive webhook_reach :: "CreateWebhookDialog \<Rightarrow> bool" where
  mount: "webhook_reach webhook_mount"
| event: "webhook_reach d \<Longrightarrow> v \<in> fst ` set WEBHOOK_EVENTS \<Longrightarrow> webhook_reach (toggleEvent v d)"
| fill: "webhook_reach d \<Longrightarrow> webhook_reach (webhook_fill name url pathPrefix d)"
| active: "webhook_reach d \<Longrightarrow> webhook_reach (toggle_active d)"
| insecure: "webhook_reach d \<Longrightarrow> webhook_reach (toggle_insecure d)"
| send: "webhook_reach d \<Longrightarrow> webhook_reach (fst (webhook_submit d))"
| settle: "webhook_reach d \<Longrightarrow> webhook_reach (d\<lparr>wd_form := form_settle r (wd_form d)\<rparr>)"

lemma bytes_le_total: "bytes_le a b \<or> bytes_le b a"
  by (induction a b rule: bytes_le.induct) (auto simp: of_char_eq_iff [symmetric, where ?'a = nat] simp del: of_char_eq_iff)

lemma bytes_le_trans: "bytes_le a b \<Longrightarrow> bytes_le b c \<Longrightarrow> bytes_le a c"
proof (induction a b arbitrary: c rule: bytes_le.induct)
  case (3 x xs y ys)
  then show ?case by (cases c) auto
qed auto

interpretation bytes_order: sort_order bytes_le
  using bytes_le_total bytes_le_trans by unfold_locales blast+

lemma offered_accepted: "v \<in> fst ` set WEBHOOK_EVENTS \<Longrightarrow> v \<in> set webhookEventTypes \<and> js_trim v = v"
proof -
  have "list_all (\<lambda>v. v \<in> set webhookEventTypes \<and> js_trim v = v) (map fst WEBHOOK_EVENTS)" by code_simp
  then show "v \<in> fst ` set WEBHOOK_EVENTS \<Longrightarrow> ?thesis" by (simp only: list_all_iff set_map)
qed

lemma webhook_events_known:
  "\<forall>x \<in> set xs. x \<in> set webhookEventTypes \<and> js_trim x = x \<Longrightarrow> distinct (seen @ xs) \<Longrightarrow> webhook_events seen xs = Inr (seen @ xs)"
  by (induction xs arbitrary: seen) auto

lemma dialog_events:
  "webhook_reach d \<Longrightarrow> distinct (cw_events (wd_input d)) \<and> set (cw_events (wd_input d)) \<subseteq> fst ` set WEBHOOK_EVENTS"
proof (induction rule: webhook_reach.induct)
  case mount
  show ?case by (simp add: webhook_mount_def WEBHOOK_EVENTS_def)
next
  case (event d v)
  then show ?case by (auto simp: toggleEvent_def Let_def)
next
  case (send d)
  then show ?case by (simp add: webhook_submit_def split: prod.split)
qed (simp_all add: webhook_fill_def toggle_active_def toggle_insecure_def)

section \<open>Properties\<close>

text \<open>
  Property C23. The events that are chosen in the dialog are exactly the events the server subscribes the
  webhook to, in the order of the server; the only choice the server refuses is that of no event at all,
  which the dialog lets through.
\<close>

theorem chosen_events_are_subscribed:
  assumes "webhook_reach d"
  shows "case normalizeWebhookEvents (cw_events (wd_input d)) of
     Inr events \<Rightarrow> set events = set (cw_events (wd_input d)) \<and> distinct events \<and> sorted_wrt bytes_le events \<and> events \<noteq> []
   | Inl err \<Rightarrow> err = NoEvents \<and> cw_events (wd_input d) = []"
proof -
  let ?es = "cw_events (wd_input d)"
  have es: "distinct ?es" "set ?es \<subseteq> fst ` set WEBHOOK_EVENTS" using dialog_events [OF assms] by auto
  then have "webhook_events [] ?es = Inr ?es" using webhook_events_known [of ?es "[]"] offered_accepted by auto
  moreover have "js_sort bytes_le ?es = [] \<longleftrightarrow> ?es = []" by (metis length_js_sort length_0_conv)
  ultimately show ?thesis using es bytes_order.sorted_sort [of ?es] by (simp add: normalizeWebhookEvents_def)
qed

theorem chosen_events_are_subscribed_witness:
  "normalizeWebhookEvents (cw_events (wd_input (toggleEvent ''mr.merged'' webhook_mount))) = Inr [''mr.merged'', ''push''] \<and>
   sorted_wrt bytes_le [''mr.merged'', ''push'']"
proof -
  have "webhook_reach (toggleEvent ''mr.merged'' webhook_mount)"
    by (intro webhook_reach.intros) (simp add: WEBHOOK_EVENTS_def)
  from chosen_events_are_subscribed [OF this]
  have "case normalizeWebhookEvents (cw_events (wd_input (toggleEvent ''mr.merged'' webhook_mount))) of
      Inr events \<Rightarrow> sorted_wrt bytes_le events | Inl err \<Rightarrow> True" by (simp split: sum.splits)
  moreover have "normalizeWebhookEvents (cw_events (wd_input (toggleEvent ''mr.merged'' webhook_mount))) = Inr [''mr.merged'', ''push'']"
    by code_simp
  ultimately show ?thesis by simp
qed

text \<open>The events that the server knows and the dialog does not offer.\<close>

lemma events_not_offered:
  "filter (\<lambda>e. e \<notin> fst ` set WEBHOOK_EVENTS) webhookEventTypes = [''tag.created'', ''tag.deleted'', ''mr.ready_for_review'', ''mr.check_reported'']"
  by code_simp

inductive hook_step :: "string \<Rightarrow> string \<Rightarrow> HookState \<Rightarrow> HookState \<Rightarrow> bool" for org project where
  toggle: "hook_step org project s (handleToggleActive org project w s)"
| rotate: "hook_step org project s (handleRotate org project ok w s)"
| test: "hook_step org project s (handleTest org project w s)"
| delete: "hook_step org project s (handleDelete org project ok w s)"
| create: "hook_step org project s (hook_create org project input s)"
| deliveries: "hook_step org project s (toggle_deliveries w s)"
| dismiss: "hook_step org project s (dismiss_secret s)"
| creating: "hook_step org project s (setCreating b s)"
| clear: "hook_step org project s (clear_hook_error s)"
| settled: "a \<in> set (hs_flight s) \<Longrightarrow> hook_step org project s (hook_settled a r s)"

lemma settled_revealed:
  "hs_revealed (hook_settled a (Inr w) s) =
     (if (is_create a \<or> (\<exists>h. a = RotateHook h)) \<and> truthy (wh_secret w) then Some (webhook_title w, the (wh_secret w)) else hs_revealed s)"
  by (cases a) (simp_all add: hook_settled_def Let_def reveal_def is_create_def)

lemma failed_revealed: "hs_revealed (hook_settled a (Inl e) s) = hs_revealed s"
  by (simp add: hook_settled_def Let_def)

text \<open>
  A signing secret that the server has shown once stays on the page until it is dismissed or a
  newer secret arrives: no other step, and in particular no failure, removes it. A successful creation or
  rotation shows the secret it returned.
\<close>

theorem secret_stays_until_dismissed:
  assumes "hook_step org project s t"
  shows "hs_revealed t = hs_revealed s \<or> t = dismiss_secret s \<or>
    (\<exists>a w secret. t = hook_settled a (Inr w) s \<and> a \<in> set (hs_flight s) \<and> wh_secret w = Some secret \<and>
       hs_revealed t = Some (webhook_title w, secret) \<and> (is_create a \<or> (\<exists>h. a = RotateHook h)))"
  using assms
proof cases
  case (settled a r)
  show ?thesis
  proof (cases r)
    case (Inl e)
    then show ?thesis by (simp add: settled(1) failed_revealed)
  next
    case (Inr w)
    with settled have t: "t = hook_settled a (Inr w) s" "a \<in> set (hs_flight s)" by simp_all
    show ?thesis
    proof (cases "(is_create a \<or> (\<exists>h. a = RotateHook h)) \<and> truthy (wh_secret w)")
      case True
      then obtain secret where "wh_secret w = Some secret" by (cases "wh_secret w") auto
      moreover from this have "hs_revealed t = Some (webhook_title w, secret)" using True by (simp add: t(1) settled_revealed)
      ultimately show ?thesis using t True by blast
    next
      case False
      then show ?thesis using settled_revealed [of a w s] unfolding t(1) by (intro disjI1) (simp only: if_False)
    qed
  qed
qed (simp_all add: handleToggleActive_def handleRotate_def handleTest_def handleDelete_def hook_create_def hook_start_def
    toggle_deliveries_def setCreating_def clear_hook_error_def)

definition sample_hook :: WebhookResponse where
  "sample_hook = \<lparr>wh_id = ''h'', wh_project_id = ''p'', wh_name = ''CI'', wh_url = ''https://ci'', wh_events = [''push''], wh_path_prefix = [],
     wh_is_active = True, wh_insecure_tls = False, wh_secret = Some ''s3'', wh_created_at = [], wh_updated_at = []\<rparr>"

theorem secret_stays_until_dismissed_witness:
  "let s = hook_settled (RotateHook sample_hook) (Inr sample_hook) (handleRotate ''o'' ''p'' True sample_hook hooks_mount);
       t = handleTest ''o'' ''p'' sample_hook s
   in hs_revealed s = Some (''CI'', ''s3'') \<and> hs_revealed t = hs_revealed s"
proof -
  let ?s = "hook_settled (RotateHook sample_hook) (Inr sample_hook) (handleRotate ''o'' ''p'' True sample_hook hooks_mount)"
  let ?t = "handleTest ''o'' ''p'' sample_hook ?s"
  have s: "hs_revealed ?s = Some (''CI'', ''s3'')" "hs_flight ?s = []" "hs_flight ?t = [TestHook sample_hook]" by code_simp+
  have "hook_step ''o'' ''p'' ?s ?t" by (rule hook_step.test)
  from secret_stays_until_dismissed [OF this] s have "hs_revealed ?t = hs_revealed ?s"
    by (auto simp: dismiss_secret_def)
  with s show ?thesis by (simp add: Let_def)
qed

text \<open>
  Two deliveries are sent again; when the first one is answered, the button of the second one is enabled
  although its request is still on its way, and it can be sent twice.
\<close>

lemma redelivery_sent_twice:
  assumes "i \<noteq> j"
  shows "let s = redelivered i r (redeliver org project w j (redeliver org project w i deliveries_mount)) in
    dv_flight s = [j] \<and> redeliver_enabled j s \<and> dv_flight (redeliver org project w j s) = [j, j]"
  using assms by (simp add: Let_def redeliver_def redelivered_def redeliver_enabled_def deliveries_mount_def split: sum.split)

end
