(* ===== verification/Org_Settings.thy ===== *)
theory Org_Settings
  imports Picker Js_Number
begin

text \<open>
  The settings of an organization in the web client (\<open>OrgSettingsPage.tsx\<close>): its members, its groups, and its
  storage (\<open>StorageCard.tsx\<close>). The lists are loaded by hooks that are modelled elsewhere and are inputs here; the
  group that is shown is loaded for the selection, and its answer may come late.
\<close>

section \<open>Tabs\<close>

definition org_tab :: "string option \<Rightarrow> bool \<Rightarrow> string" where
  "org_tab requested storage = (case requested of
     Some t \<Rightarrow> if t \<in> {''members'', ''groups'', ''storage''} \<and> (t \<noteq> ''storage'' \<or> storage) then t else ''members''
   | None \<Rightarrow> ''members'')"

definition org_tabs :: "string \<Rightarrow> bool \<Rightarrow> (string \<times> string) list" where
  "org_tabs org storage =
     [(''Members'', ''/'' @ org @ ''/settings''), (''Groups'', ''/'' @ org @ ''/settings?tab=groups'')] @
     (if storage then [(''Storage'', ''/'' @ org @ ''/settings?tab=storage'')] else [])"

section \<open>Members\<close>

definition next_role :: "OrgMemberResponse \<Rightarrow> string" where
  "next_role m = (if om_role m = ''owner'' then ''member'' else ''owner'')"

definition toggleRole :: "string \<Rightarrow> bool \<Rightarrow> OrgMemberResponse \<Rightarrow> ApiCall option" where
  "toggleRole org ok m = (if ok then Some (updateOrgMember org (om_user_id m) (next_role m)) else None)"

definition toggleRole_question :: "OrgMemberResponse \<Rightarrow> string \<times> string \<times> string" where
  "toggleRole_question m =
     (if next_role m = ''owner''
      then (''Make '' @ om_name m @ '' an owner?'', ''Owners can manage members, groups and every repository in this organization.'', ''Make owner'')
      else (''Make '' @ om_name m @ '' a member?'', ''They will lose owner access to this organization.'', ''Make member''))"

definition remove_member :: "string \<Rightarrow> bool \<Rightarrow> OrgMemberResponse \<Rightarrow> ApiCall option" where
  "remove_member org ok m = (if ok then Some (removeOrgMember org (om_user_id m)) else None)"

definition member_labels :: "OrgMemberResponse \<Rightarrow> string list" where
  "member_labels m =
     (if om_role m = ''owner'' then [''Owner''] else [''Member'']) @
     (if om_is_super_admin m then [''Super admin''] else []) @
     (if om_is_admin m \<and> \<not> om_is_super_admin m then [''Admin''] else [])"

definition member_buttons :: "OrgMemberResponse \<Rightarrow> string list" where
  "member_buttons m = [if om_role m = ''owner'' then ''Make member'' else ''Make owner'', ''Remove'']"

subsection \<open>The dialogs\<close>

text \<open>
  The dialog holds the search field. Entering an id by hand is a form inside the form of the dialog, and the
  event of submitting it goes on to the form outside: the handler of the dialog runs next, with the values of
  the rendering before.
\<close>

record AddMemberDialog =
  am_userId :: string
  am_role :: string
  am_picker :: Picker
  am_form :: FormDialog

definition add_member_mount :: "string \<Rightarrow> AddMemberDialog" where
  "add_member_mount org = \<lparr>am_userId = [], am_role = ''member'', am_picker = picker_mount org UserKind, am_form = form_open\<rparr>"

definition member_role :: "string \<Rightarrow> AddMemberDialog \<Rightarrow> AddMemberDialog" where
  "member_role r d = d\<lparr>am_role := r\<rparr>"

definition member_picked :: "PickerEntry option \<times> Picker \<Rightarrow> AddMemberDialog \<Rightarrow> AddMemberDialog" where
  "member_picked r d = (case r of
     (Some e, p) \<Rightarrow> d\<lparr>am_userId := pe_id e, am_picker := p\<rparr> | (None, p) \<Rightarrow> d\<lparr>am_picker := p\<rparr>)"

definition member_submit :: "string \<Rightarrow> AddMemberDialog \<Rightarrow> AddMemberDialog \<times> ApiCall option" where
  "member_submit org d =
     (case form_submit (am_userId d = []) (am_form d) of
        (f, sent) \<Rightarrow> (d\<lparr>am_form := f\<rparr>, if sent then Some (addOrgMember org (am_userId d) (am_role d)) else None))"

definition manual_submit :: "string \<Rightarrow> AddMemberDialog \<Rightarrow> AddMemberDialog \<times> ApiCall option" where
  "manual_submit org d =
     (case member_submit org d of (d', call) \<Rightarrow> (member_picked (handleManualSubmit (am_picker d)) d', call))"

definition create_group_submit :: "string \<Rightarrow> string \<Rightarrow> string \<Rightarrow> FormDialog \<Rightarrow> FormDialog \<times> ApiCall option" where
  "create_group_submit org name description f =
     (case form_submit (js_trim name = []) f of
        (g, sent) \<Rightarrow> (g, if sent then Some (createGroup org (js_trim name) (js_trim description)) else None))"

definition add_group_member_submit :: "string \<Rightarrow> string \<Rightarrow> string \<Rightarrow> FormDialog \<Rightarrow> FormDialog \<times> ApiCall option" where
  "add_group_member_submit org groupId userId f =
     (case form_submit (userId = []) f of
        (g, sent) \<Rightarrow> (g, if sent then Some (addGroupMember org groupId userId) else None))"

section \<open>Groups\<close>

text \<open>The selected group and the detail that was loaded last; \<open>Inr None\<close> is the answer for no selection.\<close>

record GroupsTab =
  gt_selected :: "string option"
  gt_detail :: "(string option, GroupResponse option) AsyncState"
  gt_sent :: "ApiCall list"

definition groups_mount :: GroupsTab where
  "groups_mount = \<lparr>gt_selected = None, gt_detail = useAsync_mount None, gt_sent = []\<rparr>"

definition select_group :: "string \<Rightarrow> GroupsTab \<Rightarrow> GroupsTab" where
  "select_group i s =
     (let n = (if gt_selected s = Some i then None else Some i)
      in s\<lparr>gt_selected := n, gt_detail := useAsync_render n (gt_detail s)\<rparr>)"

definition detail_settled :: "nat \<Rightarrow> GroupResponse option outcome \<Rightarrow> GroupsTab \<Rightarrow> GroupsTab" where
  "detail_settled k r s = s\<lparr>gt_detail := useAsync_settle k r (gt_detail s)\<rparr>"

definition reload_groups :: "GroupsTab \<Rightarrow> GroupsTab" where
  "reload_groups s = s\<lparr>gt_detail := useAsync_reload (gt_detail s)\<rparr>"

definition shown_detail :: "GroupsTab \<Rightarrow> GroupResponse option" where
  "shown_detail s = (case as_data (gt_detail s) of
     Some (Some g) \<Rightarrow> if gt_selected s = Some (gr_id g) then Some g else None | _ \<Rightarrow> None)"

definition group_loading :: "GroupsTab \<Rightarrow> bool" where
  "group_loading s \<longleftrightarrow> gt_selected s \<noteq> None \<and> (as_data (gt_detail s) = None \<or> as_data (gt_detail s) = Some None) \<and> as_loading (gt_detail s)"

text \<open>Removing works on the members that are shown.\<close>

definition removeMember :: "string \<Rightarrow> bool \<Rightarrow> string \<Rightarrow> GroupsTab \<Rightarrow> GroupsTab" where
  "removeMember org ok userId s =
     (case shown_detail s of
        Some g \<Rightarrow> (case gt_selected s of
            Some i \<Rightarrow> if ok \<and> userId \<in> gm_user_id ` set (coalesce (gr_members g) [])
                      then s\<lparr>gt_sent := gt_sent s @ [removeGroupMember org i userId]\<rparr> else s
          | None \<Rightarrow> s)
      | None \<Rightarrow> s)"

definition removeMember_label :: "OrgMemberResponse list \<Rightarrow> GroupResponse \<Rightarrow> string \<Rightarrow> string" where
  "removeMember_label members g userId =
     (case find (\<lambda>m. gm_user_id m = userId) (coalesce (gr_members g) []) of
        Some m \<Rightarrow> gm_name m
      | None \<Rightarrow> (case js_map_get (memberMap members) userId of Some m \<Rightarrow> om_name m | None \<Rightarrow> ''user '' @ userId))"

section \<open>Storage\<close>

definition storage_percent :: "int \<Rightarrow> int option \<Rightarrow> int" where
  "storage_percent used quota = (case quota of Some q \<Rightarrow> if q > 0 then min 100 (js_percent used q) else 0 | None \<Rightarrow> 0)"

definition storage_actions :: "bool \<Rightarrow> bool \<Rightarrow> (string \<times> bool) list" where
  "storage_actions superAdmin busy =
     (if superAdmin then [(if busy then ''Recounting'' @ [CHR 0xE2, CHR 0x80, CHR 0xA6] else ''Recount'', \<not> busy), (''Transfer billing owner'', True)] else [])"

definition transfer_submit :: "string \<Rightarrow> string \<Rightarrow> FormDialog \<Rightarrow> FormDialog \<times> ApiCall option" where
  "transfer_submit org userId f =
     (case form_submit (userId = []) f of (g, sent) \<Rightarrow> (g, if sent then Some (setOrgBillingOwner org userId) else None))"

section \<open>Reachable states\<close>

inductive groups_reach :: "(nat \<Rightarrow> string option \<Rightarrow> GroupResponse option outcome) \<Rightarrow> GroupsTab \<Rightarrow> bool" for answer where
  mount: "groups_reach answer groups_mount"
| sel: "groups_reach answer s \<Longrightarrow> groups_reach answer (select_group i s)"
| reload: "groups_reach answer s \<Longrightarrow> groups_reach answer (reload_groups s)"
| settled: "groups_reach answer s \<Longrightarrow> k < length (as_calls (gt_detail s)) \<Longrightarrow>
    groups_reach answer (detail_settled k (answer k (as_calls (gt_detail s) ! k)) s)"
| removed: "groups_reach answer s \<Longrightarrow> groups_reach answer (removeMember org ok userId s)"

lemma settle_deps [simp]: "as_deps (useAsync_settle k r a) = as_deps a"
  by (simp add: useAsync_settle_def split: sum.split)

lemma async_deps [simp]:
  "as_deps (useAsync_mount d) = d" "as_deps (useAsync_render d a) = d" "as_deps (useAsync_reload a) = as_deps a"
  by (simp_all add: useAsync_mount_def useAsync_render_def useAsync_reload_def useAsync_effect_def)

text \<open>The detail is loaded by the hook, for the selection.\<close>

lemma groups_hook: "groups_reach answer s \<Longrightarrow> async_reach answer (gt_detail s) \<and> as_deps (gt_detail s) = gt_selected s"
  by (induction rule: groups_reach.induct)
    (auto simp: groups_mount_def select_group_def reload_groups_def detail_settled_def removeMember_def Let_def
      intro: async_reach.intros split: option.split)

text \<open>
  What the server promises about \<open>getGroup\<close>: the group of an answer is the one that was asked for. Nothing is
  asked for without a selection.
\<close>

definition answers_fit :: "(nat \<Rightarrow> string option \<Rightarrow> GroupResponse option outcome) \<Rightarrow> bool" where
  "answers_fit answer \<longleftrightarrow> (\<forall>k i r. answer k (Some i) = Inr r \<longrightarrow> (\<exists>g. r = Some g \<and> gr_id g = i))"

section \<open>Properties\<close>

text \<open>
  The members that are listed, and removed, are those of the selected group: as soon as the
  group is loaded it is shown, an answer for a group that was selected before is not, and a removal is sent
  for the group on the screen and one of its members only.
\<close>

theorem group_members_of_selection:
  assumes "groups_reach answer s" "answers_fit answer"
  shows "(case shown_detail s of Some g \<Rightarrow> gt_selected s = Some (gr_id g)
      | None \<Rightarrow> gt_selected s = None \<or> as_loading (gt_detail s) \<or> as_error (gt_detail s) \<noteq> None) \<and>
    (\<not> as_loading (gt_detail s) \<and> as_error (gt_detail s) = None \<and> gt_selected s \<noteq> None \<longrightarrow>
      (\<exists>g. shown_detail s = Some g \<and> answer (length (as_calls (gt_detail s)) - 1) (gt_selected s) = Inr (Some g))) \<and>
    (gt_sent (removeMember org ok u s) = gt_sent s \<or>
      (\<exists>g. shown_detail s = Some g \<and> u \<in> gm_user_id ` set (coalesce (gr_members g) []) \<and> ok \<and>
         gt_sent (removeMember org ok u s) = gt_sent s @ [removeGroupMember org (gr_id g) u]))"
proof -
  have inv: "async_inv answer (gt_detail s)" and deps: "as_deps (gt_detail s) = gt_selected s"
    using groups_hook [OF assms(1)] async_reach_inv by auto
  have loaded: "\<exists>g. shown_detail s = Some g \<and> answer (length (as_calls (gt_detail s)) - 1) (gt_selected s) = Inr (Some g)"
    if idle: "\<not> as_loading (gt_detail s)" "as_error (gt_detail s) = None" "gt_selected s = Some i" for i
  proof -
    obtain r where r: "answer (length (as_calls (gt_detail s)) - 1) (Some i) = Inr r" "as_data (gt_detail s) = Some r"
      using inv idle deps by (auto simp: async_inv_def split: sum.splits)
    with assms(2) obtain g where "r = Some g" "gr_id g = i" unfolding answers_fit_def by blast
    with r idle show ?thesis by (simp add: shown_detail_def)
  qed
  have shown: "gt_selected s = Some (gr_id g)" if "shown_detail s = Some g" for g
    using that by (auto simp: shown_detail_def split: option.splits if_splits)
  have "case shown_detail s of Some g \<Rightarrow> gt_selected s = Some (gr_id g)
      | None \<Rightarrow> gt_selected s = None \<or> as_loading (gt_detail s) \<or> as_error (gt_detail s) \<noteq> None"
    using shown loaded by (cases "gt_selected s"; cases "shown_detail s") fastforce+
  moreover have "gt_sent (removeMember org ok u s) = gt_sent s \<or>
      (\<exists>g. shown_detail s = Some g \<and> u \<in> gm_user_id ` set (coalesce (gr_members g) []) \<and> ok \<and>
         gt_sent (removeMember org ok u s) = gt_sent s @ [removeGroupMember org (gr_id g) u])"
    using shown by (cases "shown_detail s") (auto simp: removeMember_def split: option.split)
  ultimately show ?thesis using loaded by (cases "gt_selected s") auto
qed

definition sample_answer :: "nat \<Rightarrow> string option \<Rightarrow> GroupResponse option outcome" where
  "sample_answer k i = Inr (map_option (\<lambda>n. sample_group\<lparr>gr_id := n, gr_members := Some [\<lparr>gm_user_id = ''u'', gm_name = ''U'', gm_email = []\<rparr>]\<rparr>) i)"

definition sample_groups :: GroupsTab where
  "sample_groups = detail_settled 1 (sample_answer 1 (Some ''g2'')) (select_group ''g2'' groups_mount)"

theorem group_members_of_selection_witness:
  "shown_detail sample_groups \<noteq> None \<and> length (gt_sent (removeMember ''o'' True ''u'' sample_groups)) = 1"
proof -
  have c: "as_calls (gt_detail (select_group ''g2'' groups_mount)) = [None, Some ''g2'']" by code_simp
  have "groups_reach sample_answer (detail_settled 1 (sample_answer 1 (as_calls (gt_detail (select_group ''g2'' groups_mount)) ! 1))
      (select_group ''g2'' groups_mount))"
    by (intro groups_reach.intros) (simp add: c)
  then have r: "groups_reach sample_answer sample_groups" by (simp add: sample_groups_def c)
  have fit: "answers_fit sample_answer" by (simp add: answers_fit_def sample_answer_def)
  have "\<not> as_loading (gt_detail sample_groups)" "as_error (gt_detail sample_groups) = None" "gt_selected sample_groups \<noteq> None"
    "length (gt_sent (removeMember ''o'' True ''u'' sample_groups)) = 1" by code_simp+
  with group_members_of_selection [OF r fit] show ?thesis by blast
qed

text \<open>
  An id that is entered by hand after a user was chosen submits the dialog around it as well:
  the request adds the user who was chosen before, while the dialog now holds the id that was entered.
\<close>

theorem manual_id_submits_previous_user:
  assumes "am_userId d \<noteq> []" "\<not> fd_busy (am_form d)" "js_trim (pk_manualId (am_picker d)) \<noteq> []"
  shows "snd (manual_submit org d) = Some (addOrgMember org (am_userId d) (am_role d)) \<and>
    am_userId (fst (manual_submit org d)) = js_trim (pk_manualId (am_picker d))"
  using assms by (simp add: manual_submit_def member_submit_def form_submit_def member_picked_def handleManualSubmit_def select_def Let_def)

theorem manual_id_submits_previous_user_witness:
  "\<exists>d. am_userId d = ''ann'' \<and> js_trim (pk_manualId (am_picker d)) = ''bob'' \<and>
     snd (manual_submit ''o'' d) = Some (addOrgMember ''o'' ''ann'' ''member'') \<and> am_userId (fst (manual_submit ''o'' d)) = ''bob''"
proof -
  let ?d = "(add_member_mount ''o'')\<lparr>am_userId := ''ann'', am_picker := type_manual ''bob'' (setManual True (picker_mount ''o'' UserKind))\<rparr>"
  have "am_userId ?d = ''ann''" "\<not> fd_busy (am_form ?d)" "js_trim (pk_manualId (am_picker ?d)) = ''bob''" "am_role ?d = ''member''"
    by code_simp+
  with manual_id_submits_previous_user [of ?d "''o''"] show ?thesis by (intro exI [of _ ?d]) simp
qed

text \<open>The bar of the storage stays between 0 and 100.\<close>

lemma storage_percent_bounds: "0 \<le> used \<Longrightarrow> 0 \<le> storage_percent used quota \<and> storage_percent used quota \<le> 100"
  by (simp add: storage_percent_def js_percent_nonneg split: option.split)

end
