(* ===== verification/Account.thy ===== *)
theory Account
  imports Repo_Pages Web_Hooks Access
begin

text \<open>
  Accounts in the web client: signing in (\<open>LoginPage.tsx\<close>, \<open>SocialButtons.tsx\<close>, \<open>OAuthCallbackPage.tsx\<close>),
  registering (\<open>RegisterPage.tsx\<close>, \<open>VerifyPage.tsx\<close>, \<open>OnboardingPage.tsx\<close>), the settings of a user
  (\<open>ProfilePage.tsx\<close>, \<open>SSHKeysCard.tsx\<close>, \<open>IdentitiesCard.tsx\<close>), the administration of users, and the pages that
  create organizations, repositories and users. Of the server, the address that a social login returns to
  (\<open>ee/oauth\<close>); the URL parser of Go is a parameter. A submission is the part of the handler up to its request,
  the rest runs when the request is answered.
\<close>

text \<open>An error of the server: its message and, for an \<open>ApiError\<close>, the status.\<close>

type_synonym api_failure = "string \<times> int option"

section \<open>Social login\<close>

definition APP_HOME :: string where
  "APP_HOME = ''/dashboard''"

definition local_path :: "string \<Rightarrow> bool" where
  "local_path p \<longleftrightarrow> js_startsWith p ''/'' \<and> \<not> js_startsWith p ''//''"

text \<open>
  How a browser resolves such a path: tabs and line breaks are dropped, a backslash counts as a slash, and two
  of them in front name another host (the comment on \<open>safeRedirect\<close>).
\<close>

definition opens_other_host :: "string \<Rightarrow> bool" where
  "opens_other_host p = (case filter (\<lambda>c. c \<notin> {CHR 0x09, CHR 0x0A, CHR 0x0D}) p of
     a # b # _ \<Rightarrow> a \<in> {CHR ''/'', CHR 0x5C} \<and> b \<in> {CHR ''/'', CHR 0x5C} | _ \<Rightarrow> False)"

definition social_destination :: "string \<Rightarrow> string" where
  "social_destination from1 = (if local_path from1 then from1 else APP_HOME)"

definition socialRedirect :: "string \<Rightarrow> string" where
  "socialRedirect from1 =
     (let destination = social_destination from1 in
      if destination = ''/'' then ''/oauth/callback'' else ''/oauth/callback?from='' @ encodeURIComponent destination)"

definition social_start :: "string \<Rightarrow> string \<Rightarrow> string" where
  "social_start provider from1 = oauthStartURL provider (socialRedirect from1)"

definition providerLabel :: "string \<Rightarrow> string" where
  "providerLabel provider = (if provider = ''github'' then ''GitHub'' else if provider = ''google'' then ''Google'' else provider)"

text \<open>The server: the redirect it signs, and the address of a finished login.\<close>

record go_url =
  gu_scheme :: string
  gu_host :: string
  gu_opaque :: string
  gu_path :: string

definition safeRedirect :: "(string \<Rightarrow> go_url option) \<Rightarrow> string \<Rightarrow> string" where
  "safeRedirect url_Parse raw =
     (let target = js_trim raw in
      case url_Parse target of
        None \<Rightarrow> ''/''
      | Some u \<Rightarrow>
          if gu_scheme u \<noteq> [] \<or> gu_host u \<noteq> [] \<or> gu_opaque u \<noteq> [] \<or> \<not> js_startsWith (gu_path u) ''/'' \<or> CHR 0x5C \<in> set target
          then ''/'' else target)"

definition withQueryParam :: "string \<Rightarrow> string \<Rightarrow> string \<Rightarrow> string" where
  "withQueryParam base key v = base @ (if CHR ''?'' \<in> set base then ''&'' else ''?'') @ key @ ''='' @ v"

definition issueLoginCode :: "string \<Rightarrow> string \<Rightarrow> bool \<Rightarrow> string" where
  "issueLoginCode base code created =
     (let target = withQueryParam base ''code'' code in if created then withQueryParam target ''new'' ''1'' else target)"

text \<open>The page the browser comes back to: an error at once, or the code that is exchanged.\<close>

definition OAUTH_SIGNIN_ERRORS :: "(string \<times> string) list" where
  "OAUTH_SIGNIN_ERRORS = [
     (''email_conflict'', ''An account with this email already exists. Sign in with your password (or its original provider), then connect this provider from your profile.''),
     (''email_required'', ''The provider did not share a verified email address. Verify an email with the provider or register with your email and password.''),
     (''identity_taken'', ''This provider account is already linked to another Nipa account.'')]"

definition callback_start :: "params \<Rightarrow> string + string" where
  "callback_start ps =
     (let oauthError = coalesce (js_map_get ps ''oauth_error'') []; code = coalesce (js_map_get ps ''code'') [] in
      if oauthError \<noteq> [] then Inl (coalesce (map_of OAUTH_SIGNIN_ERRORS oauthError) (''Sign-in failed ('' @ oauthError @ '').''))
      else if code = [] then Inl ''This sign-in link is missing its code.''
      else Inr code)"

definition callback_from :: "params \<Rightarrow> string" where
  "callback_from ps = (let f = coalesce (js_map_get ps ''from'') APP_HOME in if local_path f then f else APP_HOME)"

definition callback_done :: "params \<Rightarrow> string" where
  "callback_done ps = (if js_map_get ps ''new'' = Some ''1'' then ''/onboarding'' else callback_from ps)"

section \<open>Signing in\<close>

record LoginPage =
  lp_email :: string
  lp_password :: string
  lp_error :: "string option"
  lp_unconfirmed :: bool
  lp_busy :: bool
  lp_resend :: Resend

definition login_mount :: LoginPage where
  "login_mount = \<lparr>lp_email = [], lp_password = [], lp_error = None, lp_unconfirmed = False, lp_busy = False, lp_resend = resend_init\<rparr>"

definition login_type :: "string \<Rightarrow> string \<Rightarrow> LoginPage \<Rightarrow> LoginPage" where
  "login_type email password p = p\<lparr>lp_email := email, lp_password := password\<rparr>"

definition login_submit :: "LoginPage \<Rightarrow> LoginPage \<times> LoginRequest option" where
  "login_submit p =
     (let q = p\<lparr>lp_error := None, lp_unconfirmed := False, lp_resend := resend_reset (lp_resend p)\<rparr> in
      if js_trim (lp_email p) = [] \<or> lp_password p = [] then (q\<lparr>lp_error := Some ''Enter your username/email and password.''\<rparr>, None)
      else (q\<lparr>lp_busy := True\<rparr>, Some \<lparr>lr_email = js_trim (lp_email p), lr_password = lp_password p\<rparr>))"

text \<open>The second component is the page that is opened.\<close>

definition login_settled :: "string \<Rightarrow> unit outcome \<Rightarrow> LoginPage \<Rightarrow> LoginPage \<times> string option" where
  "login_settled from1 r p = (case r of
     Inr _ \<Rightarrow> (p\<lparr>lp_busy := False\<rparr>, Some from1)
   | Inl message \<Rightarrow>
       (if message = ''email not confirmed''
        then p\<lparr>lp_unconfirmed := True, lp_busy := False,
               lp_error := Some ''Your email address has not been confirmed yet. Open the confirmation link we sent you.''\<rparr>
        else p\<lparr>lp_error := Some message, lp_busy := False\<rparr>, None))"

definition login_resend :: "LoginPage \<Rightarrow> LoginPage \<times> ApiCall option" where
  "login_resend p =
     (if js_trim (lp_email p) = []
      then (p\<lparr>lp_error := Some ''Enter your email address first, then resend the confirmation email.''\<rparr>, None)
      else (case resend_start (lp_email p) (lp_resend p) of (r, call) \<Rightarrow> (p\<lparr>lp_resend := r\<rparr>, call)))"

text \<open>The banner: the error, whether it is a warning, and whether it offers to resend the mail.\<close>

definition login_banner :: "LoginPage \<Rightarrow> (string \<times> bool \<times> bool) option" where
  "login_banner p = map_option (\<lambda>e. (e, lp_unconfirmed p, lp_unconfirmed p))
     (case re_error (lp_resend p) of Some e \<Rightarrow> Some e | None \<Rightarrow> lp_error p)"

section \<open>Registering\<close>

record RegisterPage =
  rg_name :: string
  rg_email :: string
  rg_error :: "string option"
  rg_busy :: bool
  rg_sentTo :: "string option"

definition register_mount :: RegisterPage where
  "register_mount = \<lparr>rg_name = [], rg_email = [], rg_error = None, rg_busy = False, rg_sentTo = None\<rparr>"

definition register_submit :: "RegisterPage \<Rightarrow> RegisterPage \<times> ApiCall option" where
  "register_submit p =
     (if js_trim (rg_name p) = [] \<or> js_trim (rg_email p) = [] then (p\<lparr>rg_error := Some ''Enter your name and email.''\<rparr>, None)
      else (p\<lparr>rg_error := None, rg_busy := True\<rparr>, Some (registerAccount (js_trim (rg_name p)) (js_trim (rg_email p)))))"

text \<open>The address the mail was sent to is that of the submission.\<close>

definition register_settled :: "string \<Rightarrow> unit outcome \<Rightarrow> RegisterPage \<Rightarrow> RegisterPage" where
  "register_settled address r p = (case r of
     Inr _ \<Rightarrow> p\<lparr>rg_sentTo := Some address, rg_busy := False\<rparr> | Inl e \<Rightarrow> p\<lparr>rg_error := Some e, rg_busy := False\<rparr>)"

definition MIN_PASSWORD_LENGTH :: nat where
  "MIN_PASSWORD_LENGTH = 8"

record VerifyPage =
  vf_token :: string
  vf_password :: string
  vf_confirm :: string
  vf_busy :: bool
  vf_error :: "string option"
  vf_linkInvalid :: bool

definition verify_mount :: "params \<Rightarrow> VerifyPage" where
  "verify_mount ps = (let token = coalesce (js_map_get ps ''token'') [] in
     \<lparr>vf_token = token, vf_password = [], vf_confirm = [], vf_busy = False, vf_error = None, vf_linkInvalid = (token = [])\<rparr>)"

definition verify_type :: "string \<Rightarrow> string \<Rightarrow> VerifyPage \<Rightarrow> VerifyPage" where
  "verify_type password confirm p = p\<lparr>vf_password := password, vf_confirm := confirm\<rparr>"

definition verify_submit :: "VerifyPage \<Rightarrow> VerifyPage \<times> (string \<times> string) option" where
  "verify_submit p =
     (if vf_linkInvalid p then (p, None)
      else if length (vf_password p) < MIN_PASSWORD_LENGTH
        then (p\<lparr>vf_error := Some (''Choose a password of at least '' @ js_show_nat MIN_PASSWORD_LENGTH @ '' characters.'')\<rparr>, None)
      else if vf_password p \<noteq> vf_confirm p then (p\<lparr>vf_error := Some ''The passwords do not match.''\<rparr>, None)
      else (p\<lparr>vf_error := None, vf_busy := True\<rparr>, Some (vf_token p, vf_password p)))"

definition verify_settled :: "api_failure + unit \<Rightarrow> VerifyPage \<Rightarrow> VerifyPage \<times> string option" where
  "verify_settled r p = (case r of
     Inr _ \<Rightarrow> (p, Some ''/onboarding'')
   | Inl (message, status) \<Rightarrow>
       (p\<lparr>vf_linkInvalid := (vf_linkInvalid p \<or> status = Some 404), vf_error := Some message, vf_busy := False\<rparr>, None))"

section \<open>Names and slugs\<close>

text \<open>The pages that create a workspace (\<open>OnboardingPage.tsx\<close>) and a repository share the slug fields.\<close>

record SlugForm =
  sg_fields :: SlugFields
  sg_error :: "string option"
  sg_busy :: bool

definition slug_form_mount :: SlugForm where
  "slug_form_mount = \<lparr>sg_fields = slug_fields_init, sg_error = None, sg_busy = False\<rparr>"

definition slug_form_name :: "string \<Rightarrow> SlugForm \<Rightarrow> SlugForm" where
  "slug_form_name v f = f\<lparr>sg_fields := sf_setName v (sg_fields f)\<rparr>"

definition slug_form_slug :: "string \<Rightarrow> SlugForm \<Rightarrow> SlugForm" where
  "slug_form_slug v f = f\<lparr>sg_fields := sf_setSlug v (sg_fields f)\<rparr>"

definition onboarding_submit :: "SlugForm \<Rightarrow> SlugForm \<times> ApiCall option" where
  "onboarding_submit f =
     (if \<not> sf_valid RESERVED_ORG_SLUGS (sg_fields f) \<or> sg_busy f then (f, None)
      else (f\<lparr>sg_busy := True, sg_error := None\<rparr>, Some (createOrg (js_trim (sf_name (sg_fields f))) (sf_slug (sg_fields f)))))"

definition new_project_submit :: "string \<Rightarrow> string \<Rightarrow> SlugForm \<Rightarrow> SlugForm \<times> ApiCall option" where
  "new_project_submit org description f =
     (if \<not> sf_valid RESERVED_PROJECT_SLUGS (sg_fields f) \<or> sg_busy f then (f, None)
      else (f\<lparr>sg_busy := True, sg_error := None\<rparr>,
            Some (createProject org (js_trim (sf_name (sg_fields f))) description (sf_slug (sg_fields f)))))"

text \<open>A failure; a success leaves the page.\<close>

definition slug_form_failed :: "api_failure \<Rightarrow> SlugForm \<Rightarrow> SlugForm" where
  "slug_form_failed e f =
     (if snd e = Some 409 then f\<lparr>sg_fields := sf_markTaken (sg_fields f), sg_busy := False\<rparr>
      else f\<lparr>sg_error := Some (fst e), sg_busy := False\<rparr>)"

definition onboarding_page :: "bool \<Rightarrow> string option \<Rightarrow> OrgResponse list option \<Rightarrow> string" where
  "onboarding_page loading loadError orgs =
     (if loading then ''loading'' else if loadError \<noteq> None then ''error''
      else if coalesce orgs [] \<noteq> [] then APP_HOME else ''form'')"

section \<open>Profile and password\<close>

definition USER_TABS :: "string list" where
  "USER_TABS = [''profile'', ''password'', ''accounts'', ''keys'', ''billing'']"

definition profile_tab :: "params \<Rightarrow> string" where
  "profile_tab ps = (case js_map_get ps ''tab'' of
     Some t \<Rightarrow> if t \<in> set USER_TABS \<and> t \<noteq> ''billing'' then t
               else if js_map_has ps ''oauth'' \<or> js_map_has ps ''oauth_error'' then ''accounts'' else ''profile''
   | None \<Rightarrow> if js_map_has ps ''oauth'' \<or> js_map_has ps ''oauth_error'' then ''accounts'' else ''profile'')"

record ProfileTab =
  pf_name :: string
  pf_photoUrl :: string
  pf_notifyEmail :: bool
  pf_error :: "string option"
  pf_notice :: "string option"
  pf_saving :: bool

definition profile_mount :: "UserResponse option \<Rightarrow> ProfileTab" where
  "profile_mount me = \<lparr>pf_name = (case me of Some u \<Rightarrow> us_name u | None \<Rightarrow> []),
     pf_photoUrl = (case me of Some u \<Rightarrow> us_photo_url u | None \<Rightarrow> []),
     pf_notifyEmail = (case me of Some u \<Rightarrow> us_notify_email u | None \<Rightarrow> True), pf_error = None, pf_notice = None, pf_saving = False\<rparr>"

definition profile_save :: "ProfileTab \<Rightarrow> ProfileTab \<times> ApiCall option" where
  "profile_save p =
     (if js_trim (pf_name p) = [] \<or> pf_saving p then (p, None)
      else (p\<lparr>pf_saving := True, pf_error := None, pf_notice := None\<rparr>,
            Some (updateMyProfile (js_trim (pf_name p)) (js_trim (pf_photoUrl p)) (pf_notifyEmail p))))"

definition profile_saved :: "unit outcome \<Rightarrow> ProfileTab \<Rightarrow> ProfileTab" where
  "profile_saved r p = (case r of
     Inr _ \<Rightarrow> p\<lparr>pf_notice := Some ''Profile updated.'', pf_saving := False\<rparr> | Inl e \<Rightarrow> p\<lparr>pf_error := Some e, pf_saving := False\<rparr>)"

record PasswordTab =
  pt_old :: string
  pt_new :: string
  pt_confirm :: string
  pt_error :: "string option"
  pt_notice :: "string option"
  pt_saving :: bool

definition password_mount :: PasswordTab where
  "password_mount = \<lparr>pt_old = [], pt_new = [], pt_confirm = [], pt_error = None, pt_notice = None, pt_saving = False\<rparr>"

definition password_hints :: "PasswordTab \<Rightarrow> bool \<times> bool" where
  "password_hints p = (pt_new p \<noteq> [] \<and> length (pt_new p) < 8, pt_confirm p \<noteq> [] \<and> pt_new p \<noteq> pt_confirm p)"

definition password_canSave :: "PasswordTab \<Rightarrow> bool" where
  "password_canSave p \<longleftrightarrow> pt_old p \<noteq> [] \<and> length (pt_new p) \<ge> 8 \<and> pt_new p = pt_confirm p \<and> \<not> pt_saving p"

definition password_save :: "PasswordTab \<Rightarrow> PasswordTab \<times> ApiCall option" where
  "password_save p =
     (if \<not> password_canSave p then (p, None)
      else (p\<lparr>pt_saving := True, pt_error := None, pt_notice := None\<rparr>, Some (changeMyPassword (pt_old p) (pt_new p))))"

definition password_saved :: "unit outcome \<Rightarrow> PasswordTab \<Rightarrow> PasswordTab" where
  "password_saved r p = (case r of
     Inr _ \<Rightarrow> p\<lparr>pt_old := [], pt_new := [], pt_confirm := [], pt_notice := Some ''Password updated.'', pt_saving := False\<rparr>
   | Inl e \<Rightarrow> p\<lparr>pt_error := Some e, pt_saving := False\<rparr>)"

subsection \<open>Keys and connected accounts\<close>

definition add_key_submit :: "string \<Rightarrow> string \<Rightarrow> FormDialog \<Rightarrow> FormDialog \<times> ApiCall option" where
  "add_key_submit name publicKey f =
     (case form_submit (js_trim publicKey = []) f of
        (g, sent) \<Rightarrow> (g, if sent then Some (addMySSHKey (js_trim name) (js_trim publicKey)) else None))"

definition key_title :: "string \<Rightarrow> string \<Rightarrow> string" where
  "key_title name comment = (if name \<noteq> [] then name else if comment \<noteq> [] then comment else ''SSH key'')"

definition OAUTH_LINK_ERRORS :: "(string \<times> string) list" where
  "OAUTH_LINK_ERRORS = [
     (''email_conflict'', ''An account with this email already exists.''),
     (''email_required'', ''The provider did not share a verified email address.''),
     (''identity_taken'', ''This provider account is already linked to another Nipa account.'')]"

definition link_banner :: "params \<Rightarrow> (string \<times> string) option" where
  "link_banner ps =
     (if js_map_get ps ''oauth'' = Some ''linked'' then Some (''success'', ''Account connected.'')
      else if truthy (js_map_get ps ''oauth_error'')
      then (let e = the (js_map_get ps ''oauth_error'') in
            Some (''critical'', coalesce (map_of OAUTH_LINK_ERRORS e) (''Connecting failed ('' @ e @ '').'')))
      else None)"

definition dismissBanner :: "params \<Rightarrow> params" where
  "dismissBanner ps = filter (\<lambda>e. fst e \<noteq> ''oauth'' \<and> fst e \<noteq> ''oauth_error'') ps"

definition available_providers :: "string list \<Rightarrow> string list \<Rightarrow> string list" where
  "available_providers providers linked = filter (\<lambda>p. p \<notin> set linked) providers"

definition connect_call :: "string \<Rightarrow> ApiCall" where
  "connect_call provider = startIdentityLink provider ''/settings/profile?tab=accounts''"

section \<open>Users\<close>

definition roleLabel :: "UserResponse \<Rightarrow> string" where
  "roleLabel u = (if us_is_super_admin u then ''Super admin'' else if us_is_admin u then ''Admin'' else ''Member'')"

definition visible_users :: "string \<Rightarrow> UserResponse list \<Rightarrow> UserResponse list" where
  "visible_users filter1 users =
     (let query = js_toLowerCase (js_trim filter1) in
      filter (\<lambda>u. query = [] \<or> js_includes (js_toLowerCase (us_name u)) query \<or> js_includes (js_toLowerCase (us_email u)) query \<or>
        js_includes (us_id u) query) users)"

definition user_buttons :: "UserResponse option \<Rightarrow> UserResponse \<Rightarrow> string list" where
  "user_buttons me u =
     (case me of Some m \<Rightarrow> if us_is_super_admin m then [if us_is_admin u then ''Remove admin'' else ''Make admin''] else [] | None \<Rightarrow> []) @
     [''Edit email'', ''Reset password'', ''Deactivate'']"

definition toggle_admin :: "UserResponse \<Rightarrow> ApiCall" where
  "toggle_admin u = updateUserFlags (us_id u) (\<not> us_is_admin u) (us_is_super_admin u)"

definition deactivate_user :: "bool \<Rightarrow> UserResponse \<Rightarrow> ApiCall option" where
  "deactivate_user ok u = (if ok then Some (deactivateUser (us_id u)) else None)"

definition reset_password_submit :: "UserResponse \<Rightarrow> string \<Rightarrow> FormDialog \<Rightarrow> FormDialog \<times> ApiCall option" where
  "reset_password_submit u password f =
     (case form_submit (password = []) f of (g, sent) \<Rightarrow> (g, if sent then Some (resetUserPassword (us_id u) password) else None))"

definition edit_email_submit :: "UserResponse \<Rightarrow> string \<Rightarrow> FormDialog \<Rightarrow> FormDialog \<times> ApiCall option" where
  "edit_email_submit u email f =
     (case form_submit (js_trim email = [] \<or> js_trim email = us_email u) f of
        (g, sent) \<Rightarrow> (g, if sent then Some (updateUserEmail (us_id u) (js_trim email)) else None))"

definition new_user_submit :: "string \<Rightarrow> string \<Rightarrow> string \<Rightarrow> bool \<Rightarrow> ApiCall option" where
  "new_user_submit name email password saving =
     (if js_trim name \<noteq> [] \<and> js_trim email \<noteq> [] \<and> password \<noteq> [] \<and> \<not> saving
      then Some (createUser (js_trim name) (js_trim email) password) else None)"

section \<open>The way through a social login\<close>

lemma uri_no_plus [simp]: "CHR ''+'' \<notin> set (encodeURIComponent s)"
  by (rule encode_no_delimiter) simp

lemma form_decode_uri [simp]: "form_decode (encodeURIComponent s) = Some s"
proof -
  have "map (\<lambda>c. if c = CHR ''+'' then CHR '' '' else c) (encodeURIComponent s) = encodeURIComponent s"
    by (intro map_idI) (metis uri_no_plus)
  then show ?thesis by (simp add: form_decode_def)
qed

definition plain_char :: "char \<Rightarrow> bool" where
  "plain_char c \<longleftrightarrow> is_alnum c \<or> c \<in> set ''-_''"

lemma plain_chars: "list_all plain_char s \<Longrightarrow> c \<in> set s \<Longrightarrow> c \<notin> set ''%+&=?''"
  by (auto simp: list_all_iff plain_char_def is_alnum_def)

lemma decode_plain_string: "CHR ''%'' \<notin> set s \<Longrightarrow> decodeURIComponent s = Some s"
  by (induction s) (auto simp: decode_plain)

lemma form_decode_as_is:
  assumes "CHR ''%'' \<notin> set s" "CHR ''+'' \<notin> set s"
  shows "form_decode s = Some s"
proof -
  have "map (\<lambda>c. if c = CHR ''+'' then CHR '' '' else c) s = s" using assms(2) by (intro map_idI) auto
  then show ?thesis by (simp add: form_decode_def decode_plain_string assms)
qed

lemma parse_pair_parts:
  assumes "CHR ''='' \<notin> set k" "CHR ''='' \<notin> set v" "form_decode k = Some k'" "form_decode v = Some v'"
  shows "parse_pair (k @ CHR ''='' # v) = Some (k', v')"
  using assms by (simp add: parse_pair_def js_split_append_sep js_split_no_sep)

lemma uri_no_delimiters [simp]:
  "CHR ''&'' \<notin> set (encodeURIComponent s)" "CHR ''='' \<notin> set (encodeURIComponent s)"
  by (rule encode_no_delimiter; simp)+

text \<open>
  What the server relies on of \<open>url.Parse\<close>: the path of the callback, with or without a query of unreserved
  characters and escapes, is a relative URL with that path.
\<close>

definition parses_callback :: "(string \<Rightarrow> go_url option) \<Rightarrow> bool" where
  "parses_callback url_Parse \<longleftrightarrow>
     url_Parse ''/oauth/callback'' = Some \<lparr>gu_scheme = [], gu_host = [], gu_opaque = [], gu_path = ''/oauth/callback''\<rparr> \<and>
     (\<forall>s. url_Parse (''/oauth/callback?from='' @ encodeURIComponent s) =
        Some \<lparr>gu_scheme = [], gu_host = [], gu_opaque = [], gu_path = ''/oauth/callback''\<rparr>)"

lemma trim_no_space:
  assumes "\<forall>c \<in> set s. \<not> js_is_space c"
  shows "js_trim s = s"
proof -
  have "dropWhile js_is_space t = t" if "\<forall>c \<in> set t. \<not> js_is_space c" for t using that by (cases t) auto
  from this [of s] this [of "rev s"] assms show ?thesis by (simp add: js_trim_def)
qed

lemma safe_callback:
  assumes "parses_callback url_Parse"
  shows "safeRedirect url_Parse (socialRedirect from1) = socialRedirect from1"
proof -
  let ?ok = "\<lambda>c. \<not> js_is_space c \<and> c \<noteq> CHR 0x5C"
  have "list_all ?ok ''/oauth/callback''" "list_all ?ok ''/oauth/callback?from=''" by code_simp+
  moreover have "?ok c" if "uri_unreserved c \<or> c = CHR ''%''" for c
    using that by (auto simp: js_is_space_def Let_def uri_unreserved_def is_alnum_def)
  then have "list_all ?ok (encodeURIComponent s)" for s using encode_chars by (simp add: list_all_iff)
  ultimately have "list_all ?ok (socialRedirect from1)"
    unfolding socialRedirect_def Let_def by (simp only: list_all_append split: if_split) simp
  then have "js_trim (socialRedirect from1) = socialRedirect from1" "CHR 0x5C \<notin> set (socialRedirect from1)"
    by (auto simp: list_all_iff intro: trim_no_space)
  moreover have "url_Parse (socialRedirect from1) = Some \<lparr>gu_scheme = [], gu_host = [], gu_opaque = [], gu_path = ''/oauth/callback''\<rparr>"
    using assms by (auto simp: parses_callback_def socialRedirect_def Let_def)
  ultimately show ?thesis by (simp add: safeRedirect_def js_startsWith_def)
qed

definition callback_params :: "string \<Rightarrow> string \<Rightarrow> bool \<Rightarrow> params" where
  "callback_params from1 code created =
     (if social_destination from1 = ''/'' then [] else [(''from'', social_destination from1)]) @
     [(''code'', code)] @ (if created then [(''new'', ''1'')] else [])"

lemma callback_query:
  assumes "list_all plain_char code"
  shows "url_path (issueLoginCode (socialRedirect from1) code created) = ''/oauth/callback''"
    and "parse_params (url_query (issueLoginCode (socialRedirect from1) code created)) = Some (callback_params from1 code created)"
proof -
  have c: "CHR ''%'' \<notin> set code" "CHR ''+'' \<notin> set code" "CHR ''&'' \<notin> set code" "CHR ''='' \<notin> set code"
    using plain_chars [OF assms] by auto
  have pairs: "parse_pair (''from='' @ encodeURIComponent s) = Some (''from'', s)" "parse_pair (''code='' @ code) = Some (''code'', code)"
    "parse_pair ''new=1'' = Some (''new'', ''1'')" for s
    using parse_pair_parts [of "''from''" "encodeURIComponent s" "''from''" s] parse_pair_parts [of "''code''" code "''code''" code]
      parse_pair_parts [of "''new''" "''1''" "''new''" "''1''"] c by (simp_all add: form_decode_as_is)
  let ?e = "''from='' @ encodeURIComponent (social_destination from1)"
  have split: "js_split (CHR ''&'') (?e @ CHR ''&'' # s) = ?e # js_split (CHR ''&'') s" "js_split (CHR ''&'') (''code='' @ code) = [''code='' @ code]"
    "js_split (CHR ''&'') ((''code='' @ code) @ ''&new=1'') = [''code='' @ code, ''new=1'']" for s
    using js_split_append_sep [of "CHR ''&''" ?e s] js_split_no_sep [of "CHR ''&''" "''code='' @ code"]
      js_split_append_sep [of "CHR ''&''" "''code='' @ code" "''new=1''"] js_split_no_sep [of "CHR ''&''" "''new=1''"] c by simp_all
  show "url_path (issueLoginCode (socialRedirect from1) code created) = ''/oauth/callback''"
    by (simp add: url_path_def issueLoginCode_def withQueryParam_def socialRedirect_def Let_def)
  have query: "url_query (issueLoginCode (socialRedirect from1) code created) =
      (if social_destination from1 = ''/'' then [] else ?e @ ''&'') @ (''code='' @ code) @ (if created then ''&new=1'' else [])"
    by (simp add: url_query_def issueLoginCode_def withQueryParam_def socialRedirect_def Let_def)
  show "parse_params (url_query (issueLoginCode (socialRedirect from1) code created)) = Some (callback_params from1 code created)"
    unfolding query using pairs split by (simp add: parse_params_def callback_params_def)
qed

section \<open>Properties\<close>

text \<open>
  Property C6. A social login comes back to where the user was: the destination survives the signed redirect
  of the server and its query parameters, byte for byte, the one-time code arrives unchanged and is
  exchanged. The page that is opened has passed the check of the code: it begins with one slash, and it is the
  dashboard for a destination that does not. That page is on another host, as browsers resolve it, only when the
  destination the login was started with passes the check and is on another host itself, as
  \<open>backslash_passes_the_check\<close> shows one to be. (The root goes to the dashboard, and a new account to its first
  steps.)
\<close>

theorem social_login_returns_home:
  assumes "parses_callback url_Parse" "list_all plain_char code" "code \<noteq> []"
  shows "\<exists>ps. let target = issueLoginCode (safeRedirect url_Parse (socialRedirect from1)) code created in
    url_path target = ''/oauth/callback'' \<and> parse_params (url_query target) = Some ps \<and> callback_start ps = Inr code \<and>
    callback_done ps =
      (if created then ''/onboarding'' else if social_destination from1 = ''/'' then APP_HOME else social_destination from1) \<and>
    local_path (callback_done ps) \<and> (local_path from1 \<longrightarrow> social_destination from1 = from1) \<and>
    (opens_other_host (callback_done ps) \<longleftrightarrow> \<not> created \<and> local_path from1 \<and> opens_other_host from1)"
proof -
  let ?ps = "callback_params from1 code created"
  have dest: "local_path (social_destination from1)" "local_path APP_HOME"
    by (simp_all add: social_destination_def local_path_def APP_HOME_def js_startsWith_def)
  have "callback_start ?ps = Inr code"
    using assms(3) by (simp add: callback_start_def callback_params_def js_map_get_def)
  moreover have "callback_done ?ps =
      (if created then ''/onboarding'' else if social_destination from1 = ''/'' then APP_HOME else social_destination from1)"
    using dest by (simp add: callback_done_def callback_from_def callback_params_def js_map_get_def)
  moreover from this dest have "local_path (callback_done ?ps)" by (simp add: local_path_def js_startsWith_def)
  moreover have "opens_other_host (social_destination from1) \<longleftrightarrow> local_path from1 \<and> opens_other_host from1"
    "\<not> opens_other_host ''/onboarding''" "\<not> opens_other_host APP_HOME" "\<not> opens_other_host ''/''"
    by (simp_all add: social_destination_def opens_other_host_def APP_HOME_def)
  ultimately show ?thesis
    using callback_query [OF assms(2), of from1 created] safe_callback [OF assms(1), of from1]
    by (intro exI [of _ ?ps]) (auto simp: Let_def social_destination_def)
qed

text \<open>The check lets a path pass that browsers resolve to another host, and the callback opens it.\<close>

theorem backslash_passes_the_check:
  "local_path (CHR ''/'' # CHR 0x5C # ''evil.com'') \<and> opens_other_host (CHR ''/'' # CHR 0x5C # ''evil.com'') \<and>
   callback_done [(''from'', CHR ''/'' # CHR 0x5C # ''evil.com'')] = CHR ''/'' # CHR 0x5C # ''evil.com''"
  by code_simp

definition sample_parse :: "string \<Rightarrow> go_url option" where
  "sample_parse s = Some \<lparr>gu_scheme = [], gu_host = [], gu_opaque = [], gu_path = url_path s\<rparr>"

theorem social_login_returns_home_witness:
  "\<exists>ps. callback_done ps = ''/acme/game?tab=a b'' \<and> callback_start ps = Inr ''xY_1''"
proof -
  have "parses_callback sample_parse" by (simp add: parses_callback_def sample_parse_def url_path_def)
  moreover have "list_all plain_char ''xY_1''" by code_simp
  moreover have "social_destination ''/acme/game?tab=a b'' = ''/acme/game?tab=a b''" by code_simp
  ultimately show ?thesis
    using social_login_returns_home [of sample_parse "''xY_1''" "''/acme/game?tab=a b''" False] by (auto simp: Let_def)
qed

text \<open>
  No password is sent that is shorter than eight characters or differs from its repetition,
  neither when an account is confirmed nor when the password is changed, and none from a link without a
  token. An expired link replaces the form, so that the password is not sent a second time.
\<close>

theorem weak_passwords_not_sent:
  "(case snd (verify_submit p) of
      Some (token, password) \<Rightarrow> length password \<ge> 8 \<and> password = vf_confirm p \<and> token = vf_token p \<and> \<not> vf_linkInvalid p
    | None \<Rightarrow> vf_linkInvalid p \<or> vf_error (fst (verify_submit p)) \<noteq> None) \<and>
   (vf_token (verify_mount ps) = [] \<longleftrightarrow> vf_linkInvalid (verify_mount ps)) \<and>
   snd (verify_submit (verify_type a b (fst (verify_settled (Inl (e, Some 404)) p)))) = None \<and>
   (snd (password_save q) = None \<or>
     length (pt_new q) \<ge> 8 \<and> pt_new q = pt_confirm q \<and> pt_old q \<noteq> [] \<and> snd (password_save (fst (password_save q))) = None)"
proof -
  have "vf_token (verify_mount ps) = [] \<longleftrightarrow> vf_linkInvalid (verify_mount ps)" by (simp add: verify_mount_def Let_def)
  moreover have "snd (verify_submit (verify_type a b (fst (verify_settled (Inl (e, Some 404)) p)))) = None"
    by (simp add: verify_submit_def verify_type_def verify_settled_def)
  moreover have "snd (password_save q) = None \<or>
     length (pt_new q) \<ge> 8 \<and> pt_new q = pt_confirm q \<and> pt_old q \<noteq> [] \<and> snd (password_save (fst (password_save q))) = None"
    by (simp add: password_save_def password_canSave_def)
  ultimately show ?thesis by (auto simp: verify_submit_def MIN_PASSWORD_LENGTH_def)
qed

lemma sf_valid_sound:
  "sf_valid r g \<Longrightarrow> SLUG_PATTERN (sf_slug g) \<and> sf_slug g \<notin> set r \<and> js_trim (sf_name g) \<noteq> [] \<and> \<not> sf_taken g"
  by (auto simp: sf_valid_def slugMessage_def split: if_splits)

lemma sf_valid_taken: "\<not> sf_valid r (sf_markTaken g)"
  by (simp add: sf_valid_def sf_markTaken_def)

text \<open>
  Property C35. Both pages that create something under a slug, for a workspace and for a repository, send only
  the trimmed name and a slug that the rules allow and that is not reserved for that page, and not twice while a
  request is running. After a conflict, whatever was typed while the request ran, neither page sends anything; the
  fields are kept, and editing the slug, which is then taken as typed, or the name lets the form be sent again.
  After any other failure the same request can be sent again at once.
\<close>

theorem taken_slug_not_sent_again:
  "(\<forall>call. snd (onboarding_submit f) = Some call \<longrightarrow>
     call = createOrg (js_trim (sf_name (sg_fields f))) (sf_slug (sg_fields f)) \<and>
     SLUG_PATTERN (sf_slug (sg_fields f)) \<and> sf_slug (sg_fields f) \<notin> set RESERVED_ORG_SLUGS \<and> js_trim (sf_name (sg_fields f)) \<noteq> [] \<and>
     snd (onboarding_submit (fst (onboarding_submit f))) = None \<and>
     snd (onboarding_submit (slug_form_failed (e, status) (fst (onboarding_submit f)))) = (if status = Some 409 then None else Some call)) \<and>
   (\<forall>call. snd (new_project_submit org description f) = Some call \<longrightarrow>
     call = createProject org (js_trim (sf_name (sg_fields f))) description (sf_slug (sg_fields f)) \<and>
     SLUG_PATTERN (sf_slug (sg_fields f)) \<and> sf_slug (sg_fields f) \<notin> set RESERVED_PROJECT_SLUGS \<and> js_trim (sf_name (sg_fields f)) \<noteq> [] \<and>
     snd (new_project_submit org description (fst (new_project_submit org description f))) = None \<and>
     snd (new_project_submit org description (slug_form_failed (e, status) (fst (new_project_submit org description f)))) =
       (if status = Some 409 then None else Some call)) \<and>
   (let taken = slug_form_failed (e, Some 409) g in
     snd (onboarding_submit taken) = None \<and> snd (new_project_submit org description taken) = None \<and>
     sf_slug (sg_fields taken) = sf_slug (sg_fields g) \<and> sf_name (sg_fields taken) = sf_name (sg_fields g) \<and>
     (sf_slug (sg_fields (slug_form_slug v taken)) = v \<or> js_trim v = []) \<and>
     \<not> sf_taken (sg_fields (slug_form_slug v taken)) \<and> \<not> sf_taken (sg_fields (slug_form_name v taken)))"
proof (intro conjI allI impI)
  fix call
  assume s: "snd (onboarding_submit f) = Some call"
  then have v: "sf_valid RESERVED_ORG_SLUGS (sg_fields f)" "\<not> sg_busy f" by (auto simp: onboarding_submit_def split: if_splits)
  from s show "call = createOrg (js_trim (sf_name (sg_fields f))) (sf_slug (sg_fields f))"
    "snd (onboarding_submit (fst (onboarding_submit f))) = None"
    "snd (onboarding_submit (slug_form_failed (e, status) (fst (onboarding_submit f)))) = (if status = Some 409 then None else Some call)"
    using v by (auto simp: onboarding_submit_def slug_form_failed_def sf_valid_taken)
  show "SLUG_PATTERN (sf_slug (sg_fields f))" "sf_slug (sg_fields f) \<notin> set RESERVED_ORG_SLUGS" "js_trim (sf_name (sg_fields f)) \<noteq> []"
    using sf_valid_sound [OF v(1)] by simp_all
next
  fix call
  assume s: "snd (new_project_submit org description f) = Some call"
  then have v: "sf_valid RESERVED_PROJECT_SLUGS (sg_fields f)" "\<not> sg_busy f" by (auto simp: new_project_submit_def split: if_splits)
  from s show "call = createProject org (js_trim (sf_name (sg_fields f))) description (sf_slug (sg_fields f))"
    "snd (new_project_submit org description (fst (new_project_submit org description f))) = None"
    "snd (new_project_submit org description (slug_form_failed (e, status) (fst (new_project_submit org description f)))) =
       (if status = Some 409 then None else Some call)"
    using v by (auto simp: new_project_submit_def slug_form_failed_def sf_valid_taken)
  show "SLUG_PATTERN (sf_slug (sg_fields f))" "sf_slug (sg_fields f) \<notin> set RESERVED_PROJECT_SLUGS" "js_trim (sf_name (sg_fields f)) \<noteq> []"
    using sf_valid_sound [OF v(1)] by simp_all
next
  let ?g = "sf_markTaken (sg_fields g)"
  have "sf_slug ?g = sf_slug (sg_fields g)" "sf_name ?g = sf_name (sg_fields g)" by (simp_all add: sf_markTaken_def sf_slug_def)
  moreover have "sf_slug (sf_setSlug v h) = v \<or> js_trim v = []" "\<not> sf_taken (sf_setSlug v h)" "\<not> sf_taken (sf_setName v h)" for h
    by (simp_all add: sf_slug_def sf_setSlug_def sf_setName_def)
  ultimately show "let taken = slug_form_failed (e, Some 409) g in
     snd (onboarding_submit taken) = None \<and> snd (new_project_submit org description taken) = None \<and>
     sf_slug (sg_fields taken) = sf_slug (sg_fields g) \<and> sf_name (sg_fields taken) = sf_name (sg_fields g) \<and>
     (sf_slug (sg_fields (slug_form_slug v taken)) = v \<or> js_trim v = []) \<and>
     \<not> sf_taken (sg_fields (slug_form_slug v taken)) \<and> \<not> sf_taken (sg_fields (slug_form_name v taken))"
    by (simp add: Let_def slug_form_failed_def slug_form_slug_def slug_form_name_def onboarding_submit_def new_project_submit_def
        sf_valid_taken)
qed

definition sample_workspace :: SlugForm where
  "sample_workspace = slug_form_name ''Acme Games'' slug_form_mount"

theorem taken_slug_not_sent_again_witness:
  "snd (onboarding_submit sample_workspace) = Some (createOrg ''Acme Games'' ''acme-games'') \<and>
   snd (onboarding_submit (slug_form_failed (''taken'', Some 409) (fst (onboarding_submit sample_workspace)))) = None \<and>
   snd (new_project_submit ''acme'' [] sample_workspace) = Some (createProject ''acme'' ''Acme Games'' [] ''acme-games'') \<and>
   snd (new_project_submit ''acme'' [] (slug_form_failed (''offline'', None) (fst (new_project_submit ''acme'' [] sample_workspace)))) =
     Some (createProject ''acme'' ''Acme Games'' [] ''acme-games'')"
proof -
  have c: "snd (onboarding_submit sample_workspace) = Some (createOrg ''Acme Games'' ''acme-games'')"
    "snd (new_project_submit ''acme'' [] sample_workspace) = Some (createProject ''acme'' ''Acme Games'' [] ''acme-games'')" by code_simp+
  with taken_slug_not_sent_again [of sample_workspace "''taken''" "Some 409" "''acme''" "[]"]
    taken_slug_not_sent_again [of sample_workspace "''offline''" None "''acme''" "[]"]
  show ?thesis by (simp add: Let_def)
qed

end
