(* ===== verification/Branches.thy ===== *)
theory Branches
  imports Desktop_Reviews
begin

text \<open>
  The branches and tags of a clone (\<open>BranchesView.tsx\<close>) and the locks of its project (\<open>LocksView.tsx\<close>,
  \<open>useLockActions\<close> of \<open>useLocks.ts\<close>) in the desktop client. The lists of branches, tags and locks are answers of
  queries and therefore inputs; the dialogs and the calls that were sent are the state.
\<close>

section \<open>The view of the branches\<close>

datatype BranchDialog = NewBranch | MergeBranch string | NewTag | DeleteBranch string | DeleteTag string

datatype BranchCall =
    CallCreateBranch string string
  | CallDeleteBranch string
  | CallCreateTag string string string
  | CallDeleteTag string

datatype BranchMutation = MutCreateBranch | MutDeleteBranch | MutCreateTag | MutDeleteTag

primrec call_mutation :: "BranchCall \<Rightarrow> BranchMutation" where
  "call_mutation (CallCreateBranch name start) = MutCreateBranch"
| "call_mutation (CallDeleteBranch name) = MutDeleteBranch"
| "call_mutation (CallCreateTag name start message) = MutCreateTag"
| "call_mutation (CallDeleteTag name) = MutDeleteTag"

text \<open>What the repository view is asked to do: \<open>onSwitch\<close>, \<open>onMerge\<close> and \<open>onCheckoutTag\<close>.\<close>

datatype BranchAction = ActSwitch string | ActMerge string | ActCheckoutTag string

text \<open>
  \<open>bv_sent\<close> are the calls of the four mutations in the order they were sent, \<open>bv_pending\<close> the positions of those
  that are not answered.
\<close>

record BranchesView =
  bv_root :: string
  bv_branch :: string
  bv_detached :: "string option"
  bv_busy :: bool
  bv_dialog :: "BranchDialog option"
  bv_prompt :: Prompt
  bv_sent :: "BranchCall list"
  bv_pending :: "nat list"
  bv_actions :: "BranchAction list"
  bv_invalidated :: "(string \<times> string) list"
  bv_notices :: "notice list"

definition branches_mount :: "string \<Rightarrow> string \<Rightarrow> string option \<Rightarrow> bool \<Rightarrow> BranchesView" where
  "branches_mount r branch detached busy =
     \<lparr>bv_root = r, bv_branch = branch, bv_detached = detached, bv_busy = busy, bv_dialog = None, bv_prompt = prompt_empty,
      bv_sent = [], bv_pending = [], bv_actions = [], bv_invalidated = [], bv_notices = []\<rparr>"

definition branches_props :: "string \<Rightarrow> string option \<Rightarrow> bool \<Rightarrow> BranchesView \<Rightarrow> BranchesView" where
  "branches_props branch detached busy v = v\<lparr>bv_branch := branch, bv_detached := detached, bv_busy := busy\<rparr>"

text \<open>A prompt is empty whenever it opens; \<open>NewBranch\<close> and \<open>NewTag\<close> carry no name, so each keeps one prompt.\<close>

definition branches_setDialog :: "BranchDialog option \<Rightarrow> BranchesView \<Rightarrow> BranchesView" where
  "branches_setDialog d v = v\<lparr>bv_dialog := d, bv_prompt := (if d = bv_dialog v then bv_prompt v else prompt_empty)\<rparr>"

text \<open>\<open>isPending\<close> of a mutation is about the last call that it sent.\<close>

definition last_sent :: "BranchMutation \<Rightarrow> BranchesView \<Rightarrow> nat option" where
  "last_sent m v = (let is = filter (\<lambda>i. call_mutation (bv_sent v ! i) = m) [0..<length (bv_sent v)] in
     if is = [] then None else Some (last is))"

definition isPending :: "BranchMutation \<Rightarrow> BranchesView \<Rightarrow> bool" where
  "isPending m v \<longleftrightarrow> (case last_sent m v of None \<Rightarrow> False | Some i \<Rightarrow> i \<in> set (bv_pending v))"

definition branch_mutate :: "BranchCall \<Rightarrow> BranchesView \<Rightarrow> BranchesView" where
  "branch_mutate c v = v\<lparr>bv_sent := bv_sent v @ [c], bv_pending := bv_pending v @ [length (bv_sent v)]\<rparr>"

definition branch_request :: "string \<Rightarrow> BranchCall \<Rightarrow> ServiceCall" where
  "branch_request r c = (case c of
     CallCreateBranch name start \<Rightarrow> desktop_createBranch r name (Some start) None
   | CallDeleteBranch name \<Rightarrow> Service_DeleteBranch r name
   | CallCreateTag name start message \<Rightarrow> desktop_createTag r name (Some start) None message
   | CallDeleteTag name \<Rightarrow> Service_DeleteTag r name)"

definition branches_done :: "string \<Rightarrow> string \<Rightarrow> BranchesView \<Rightarrow> BranchesView" where
  "branches_done key message v =
     (branches_setDialog None v)\<lparr>bv_invalidated := bv_invalidated v @ [(key, bv_root v)],
        bv_notices := bv_notices v @ [(message, Some ToneSuccess)]\<rparr>"

text \<open>The notice names the branch shown when the answer comes, for the callbacks are those of the last render.\<close>

definition branch_success :: "BranchCall \<Rightarrow> string \<Rightarrow> BranchesView \<Rightarrow> BranchesView" where
  "branch_success c made v = (case c of
     CallCreateBranch name start \<Rightarrow> branches_done ''branches'' (''Created branch '' @ made @ '' from '' @ bv_branch v) v
   | CallDeleteBranch name \<Rightarrow> branches_done ''branches'' (''Deleted branch '' @ name) v
   | CallCreateTag name start message \<Rightarrow> branches_done ''tags'' (''Tagged the head of '' @ bv_branch v @ '' as '' @ made) v
   | CallDeleteTag name \<Rightarrow> branches_done ''tags'' (''Deleted tag '' @ name) v)"

definition branch_failure :: "BranchCall \<Rightarrow> string" where
  "branch_failure c = (case call_mutation c of
     MutCreateBranch \<Rightarrow> ''Could not create the branch: '' | MutDeleteBranch \<Rightarrow> ''Could not delete the branch: ''
   | MutCreateTag \<Rightarrow> ''Could not create the tag: '' | MutDeleteTag \<Rightarrow> ''Could not delete the tag: '')"

text \<open>The answer to the call at position \<open>i\<close>: an error, or the name of what was created.\<close>

definition branch_settled :: "nat \<Rightarrow> string + string \<Rightarrow> BranchesView \<Rightarrow> BranchesView" where
  "branch_settled i r v =
     (let w = v\<lparr>bv_pending := remove1 i (bv_pending v)\<rparr>; c = bv_sent v ! i in
      case r of
        Inl err \<Rightarrow> w\<lparr>bv_notices := bv_notices w @ [(branch_failure c @ err, None)]\<rparr>
      | Inr made \<Rightarrow> branch_success c made w)"

subsection \<open>Rows and their buttons\<close>

definition is_current :: "BranchesView \<Rightarrow> Branch \<Rightarrow> bool" where
  "is_current v b \<longleftrightarrow> bn_name b = bv_branch v \<and> \<not> truthy (bv_detached v)"

text \<open>The buttons of a row, each absent or enabled or not: merge, switch and delete.\<close>

record BranchLine =
  bl_name :: string
  bl_badges :: "string list"
  bl_commit :: string
  bl_merge :: "bool option"
  bl_switch :: "bool option"
  bl_delete :: "bool option"

definition branch_line :: "BranchesView \<Rightarrow> Branch \<Rightarrow> BranchLine" where
  "branch_line v b =
     \<lparr>bl_name = bn_name b,
      bl_badges = (if is_current v b then [''Current''] else []) @ (if bn_default b then [''Default''] else []) @
        (if bn_protected b then [''Protected''] else []),
      bl_commit = (if bn_commitId b \<noteq> [] then shortId (bn_commitId b) else ''empty''),
      bl_merge = (if \<not> is_current v b \<and> \<not> truthy (bv_detached v) \<and> bn_commitId b \<noteq> [] then Some (\<not> bv_busy v) else None),
      bl_switch = (if \<not> is_current v b then Some (\<not> bv_busy v) else None),
      bl_delete = (if \<not> bn_default b \<and> bn_name b \<noteq> bv_branch v
        then Some (\<not> (bv_busy v \<or> isPending MutDeleteBranch v)) else None)\<rparr>"

record TagLine =
  tl_name :: string
  tl_checkedOut :: bool
  tl_message :: string
  tl_ago :: string
  tl_commit :: string
  tl_checkout :: "bool option"
  tl_delete :: bool

definition tag_line :: "(string \<Rightarrow> string) \<Rightarrow> BranchesView \<Rightarrow> Tag \<Rightarrow> TagLine" where
  "tag_line ago v t =
     \<lparr>tl_name = tg_name t, tl_checkedOut = (bv_detached v = Some (tg_name t)), tl_message = tg_message t,
      tl_ago = ago (tg_createdAt t), tl_commit = shortId (tg_commitId t),
      tl_checkout = (if bv_detached v \<noteq> Some (tg_name t) then Some (\<not> bv_busy v) else None),
      tl_delete = (\<not> (bv_busy v \<or> isPending MutDeleteTag v))\<rparr>"

text \<open>\<open>Section\<close>: a list of the view, from the state of its query.\<close>

datatype 'a SectionBody = SectionLoading | SectionFailed string | SectionEmpty string | SectionRows "'a list"

definition Section_body :: "'a list option \<Rightarrow> string option \<Rightarrow> string \<Rightarrow> 'a SectionBody" where
  "Section_body data err none =
     (if data = None \<and> err = None then SectionLoading
      else case err of
        Some e \<Rightarrow> SectionFailed e
      | None \<Rightarrow> if coalesce data [] = [] then SectionEmpty none else SectionRows (coalesce data []))"

subsection \<open>Clicks\<close>

definition click_new :: "BranchDialog \<Rightarrow> BranchesView \<Rightarrow> BranchesView" where
  "click_new d v = (if bv_busy v \<or> truthy (bv_detached v) then v else branches_setDialog (Some d) v)"

definition click_merge :: "Branch \<Rightarrow> BranchesView \<Rightarrow> BranchesView" where
  "click_merge b v =
     (if bl_merge (branch_line v b) = Some True then branches_setDialog (Some (MergeBranch (bn_name b))) v else v)"

definition click_switch :: "Branch \<Rightarrow> BranchesView \<Rightarrow> BranchesView" where
  "click_switch b v =
     (if bl_switch (branch_line v b) = Some True then v\<lparr>bv_actions := bv_actions v @ [ActSwitch (bn_name b)]\<rparr> else v)"

definition click_delete :: "Branch \<Rightarrow> BranchesView \<Rightarrow> BranchesView" where
  "click_delete b v =
     (if bl_delete (branch_line v b) = Some True then branches_setDialog (Some (DeleteBranch (bn_name b))) v else v)"

definition click_checkout :: "Tag \<Rightarrow> BranchesView \<Rightarrow> BranchesView" where
  "click_checkout t v =
     (if tl_checkout (tag_line id v t) = Some True then v\<lparr>bv_actions := bv_actions v @ [ActCheckoutTag (tg_name t)]\<rparr> else v)"

definition click_delete_tag :: "Tag \<Rightarrow> BranchesView \<Rightarrow> BranchesView" where
  "click_delete_tag t v =
     (if tl_delete (tag_line id v t) then branches_setDialog (Some (DeleteTag (tg_name t))) v else v)"

definition branches_cancel :: "BranchesView \<Rightarrow> BranchesView" where
  "branches_cancel v = branches_setDialog None v"

definition branches_type :: "string \<Rightarrow> string \<Rightarrow> BranchesView \<Rightarrow> BranchesView" where
  "branches_type name message v = (case bv_dialog v of
     Some NewBranch \<Rightarrow> v\<lparr>bv_prompt := \<lparr>pm_name = name, pm_message = []\<rparr>\<rparr>
   | Some NewTag \<Rightarrow> v\<lparr>bv_prompt := \<lparr>pm_name = name, pm_message = message\<rparr>\<rparr>
   | _ \<Rightarrow> v)"

text \<open>\<open>onConfirm\<close> of the open dialog.\<close>

definition branches_confirm :: "BranchesView \<Rightarrow> BranchesView" where
  "branches_confirm v = (case bv_dialog v of
     None \<Rightarrow> v
   | Some NewBranch \<Rightarrow> (case prompt_submit (bv_prompt v) (isPending MutCreateBranch v) of
       None \<Rightarrow> v | Some (name, message) \<Rightarrow> branch_mutate (CallCreateBranch name (bv_branch v)) v)
   | Some NewTag \<Rightarrow> (case prompt_submit (bv_prompt v) (isPending MutCreateTag v) of
       None \<Rightarrow> v | Some (name, message) \<Rightarrow> branch_mutate (CallCreateTag name (bv_branch v) message) v)
   | Some (MergeBranch name) \<Rightarrow> (branches_setDialog None v)\<lparr>bv_actions := bv_actions v @ [ActMerge name]\<rparr>
   | Some (DeleteBranch name) \<Rightarrow> branch_mutate (CallDeleteBranch name) v
   | Some (DeleteTag name) \<Rightarrow> branch_mutate (CallDeleteTag name) v)"

text \<open>The actions as the repository view carries them out.\<close>

primrec branch_action :: "BranchAction \<Rightarrow> RepoView \<Rightarrow> RepoView" where
  "branch_action (ActSwitch name) = switchTo name"
| "branch_action (ActMerge name) = view_merge name"
| "branch_action (ActCheckoutTag name) = checkoutTag name"

section \<open>Locks\<close>

record FileLock =
  fk_id :: string
  fk_path :: string
  fk_branch :: string
  fk_global :: bool
  fk_heldBy :: string
  fk_heldByName :: string
  fk_mine :: bool
  fk_mergeRequest :: int
  fk_acquiredAt :: string
  fk_inScope :: bool

record RawLockStatus =
  rs_userId :: string
  rs_branch :: string
  rs_defaultBranch :: bool
  rs_canReleaseAny :: bool
  rs_locks :: "FileLock list option"
  rs_files :: "FileLockState list option"

record LockStatus =
  st_userId :: string
  st_branch :: string
  st_defaultBranch :: bool
  st_canReleaseAny :: bool
  st_locks :: "FileLock list"
  st_files :: "FileLockState list"

definition desktop_lockStatus_result :: "RawLockStatus option \<Rightarrow> string + LockStatus" where
  "desktop_lockStatus_result r = (case r of
     None \<Rightarrow> Inl ''No lock information''
   | Some s \<Rightarrow> Inr \<lparr>st_userId = rs_userId s, st_branch = rs_branch s, st_defaultBranch = rs_defaultBranch s,
       st_canReleaseAny = rs_canReleaseAny s, st_locks = coalesce (rs_locks s) [], st_files = coalesce (rs_files s) []\<rparr>)"

text \<open>\<open>!/\.[^/]+$/.test(path)\<close>: the last name of the path has no dot, or only one at its end.\<close>

definition last_name :: "string \<Rightarrow> string" where
  "last_name path = rev (takeWhile (\<lambda>c. c \<noteq> CHR ''/'') (rev path))"

definition isDirectory :: "string \<Rightarrow> bool" where
  "isDirectory path \<longleftrightarrow> CHR ''.'' \<notin> set (butlast (last_name path))"

datatype LockFilter = LocksMine | LocksTeam | LocksAll

definition filter_keeps :: "LockFilter \<Rightarrow> FileLock \<Rightarrow> bool" where
  "filter_keeps f l = (case f of LocksMine \<Rightarrow> fk_mine l | LocksTeam \<Rightarrow> \<not> fk_mine l | LocksAll \<Rightarrow> True)"

definition lock_holder_name :: "FileLock \<Rightarrow> string" where
  "lock_holder_name l = or_else (fk_heldByName l) (fk_heldBy l)"

definition lock_matches :: "string \<Rightarrow> FileLock \<Rightarrow> bool" where
  "lock_matches query l =
     (let q = js_toLowerCase (js_trim query) in
      q = [] \<or> js_includes (js_toLowerCase (fk_path l)) q \<or> js_includes (js_toLowerCase (lock_holder_name l)) q)"

text \<open>
  The comparison of two rows: in scope first, then the own locks, then by path. \<open>collates\<close> is
  \<open>a.localeCompare(b) <= 0\<close> of the locale in use.
\<close>

definition lock_le :: "(string \<Rightarrow> string \<Rightarrow> bool) \<Rightarrow> FileLock \<Rightarrow> FileLock \<Rightarrow> bool" where
  "lock_le collates a b =
     (if fk_inScope a \<noteq> fk_inScope b then fk_inScope a
      else if fk_mine a \<noteq> fk_mine b then fk_mine a
      else collates (fk_path a) (fk_path b))"

definition lock_rows :: "(string \<Rightarrow> string \<Rightarrow> bool) \<Rightarrow> FileLock list \<Rightarrow> LockFilter \<Rightarrow> string \<Rightarrow> FileLock list" where
  "lock_rows collates locks f query =
     js_sort (lock_le collates) (filter (lock_matches query) (filter (filter_keeps f) locks))"

definition mine_count :: "LockStatus \<Rightarrow> nat" where
  "mine_count s = length (filter fk_mine (st_locks s))"

definition filter_labels :: "LockStatus \<Rightarrow> (LockFilter \<times> string) list" where
  "filter_labels s =
     [(LocksAll, ''All ('' @ js_show_nat (length (st_locks s)) @ '')''),
      (LocksMine, ''Mine ('' @ js_show_nat (mine_count s) @ '')''),
      (LocksTeam, ''Team ('' @ js_show_nat (length (st_locks s) - mine_count s) @ '')'')]"

definition scope_text :: "LockStatus \<Rightarrow> string" where
  "scope_text s = (if st_defaultBranch s then ''mainline ('' @ st_branch s @ '')'' else ''branch '' @ st_branch s)"

record LockLine =
  lo_key :: string
  lo_folder :: bool
  lo_path :: string
  lo_request :: "int option"
  lo_scope :: string
  lo_holder :: string
  lo_since :: string
  lo_open :: bool
  lo_release :: "bool option"

section \<open>The view of the locks\<close>

text \<open>
  \<open>lockAndEdit\<close> as it goes on: a file is being chosen, locked on the branch, or opened. \<open>picking\<close> is set exactly
  while it runs, and the mutation \<open>lock\<close> is pending while a file is being locked.
\<close>

datatype EditStage = EditPicking string | EditLocking string | EditOpening string

record LocksView =
  lv_root :: string
  lv_filter :: LockFilter
  lv_query :: string
  lv_releasing :: "FileLock option"
  lv_edit :: "EditStage option"
  lv_unlocks :: "FileLock list"
  lv_unlocking :: "nat list"
  lv_opening :: "string list"
  lv_calls :: "ServiceCall list"
  lv_refreshes :: nat
  lv_notices :: "notice list"

definition locks_mount :: "string \<Rightarrow> LocksView" where
  "locks_mount r = \<lparr>lv_root = r, lv_filter = LocksAll, lv_query = [], lv_releasing = None, lv_edit = None, lv_unlocks = [],
     lv_unlocking = [], lv_opening = [], lv_calls = [], lv_refreshes = 0, lv_notices = []\<rparr>"

definition locks_setFilter :: "LockFilter \<Rightarrow> LocksView \<Rightarrow> LocksView" where
  "locks_setFilter f v = v\<lparr>lv_filter := f\<rparr>"

definition locks_setQuery :: "string \<Rightarrow> LocksView \<Rightarrow> LocksView" where
  "locks_setQuery q v = v\<lparr>lv_query := q\<rparr>"

definition locks_refresh :: "LocksView \<Rightarrow> LocksView" where
  "locks_refresh v = v\<lparr>lv_refreshes := lv_refreshes v + 1\<rparr>"

definition locks_notify :: "notice \<Rightarrow> LocksView \<Rightarrow> LocksView" where
  "locks_notify n v = v\<lparr>lv_notices := lv_notices v @ [n]\<rparr>"

definition locks_call :: "ServiceCall \<Rightarrow> LocksView \<Rightarrow> LocksView" where
  "locks_call c v = v\<lparr>lv_calls := lv_calls v @ [c]\<rparr>"

definition view_rows :: "(string \<Rightarrow> string \<Rightarrow> bool) \<Rightarrow> LockStatus \<Rightarrow> LocksView \<Rightarrow> FileLock list" where
  "view_rows collates s v = lock_rows collates (st_locks s) (lv_filter v) (lv_query v)"

definition unlock_pending :: "LocksView \<Rightarrow> bool" where
  "unlock_pending v \<longleftrightarrow> lv_unlocks v \<noteq> [] \<and> length (lv_unlocks v) - 1 \<in> set (lv_unlocking v)"

definition lock_line :: "(string \<Rightarrow> string) \<Rightarrow> LockStatus \<Rightarrow> LocksView \<Rightarrow> FileLock \<Rightarrow> LockLine" where
  "lock_line ago s v l =
     \<lparr>lo_key = or_else (fk_id l) (fk_branch l @ '':'' @ fk_path l), lo_folder = isDirectory (fk_path l), lo_path = fk_path l,
      lo_request = (if fk_mergeRequest l > 0 then Some (fk_mergeRequest l) else None),
      lo_scope = (if fk_global l then ''Mainline'' else fk_branch l),
      lo_holder = (if fk_mine l then ''You'' else lock_holder_name l), lo_since = ago (fk_acquiredAt l),
      lo_open = (fk_mine l \<and> \<not> isDirectory (fk_path l)),
      lo_release = (if fk_mine l \<or> st_canReleaseAny s then Some (\<not> unlock_pending v) else None)\<rparr>"

datatype LocksBody = LocksLoading | LocksFailed string | LocksNone string | LocksTable "LockLine list"

definition locks_body :: "(string \<Rightarrow> string) \<Rightarrow> (string \<Rightarrow> string \<Rightarrow> bool) \<Rightarrow> LockStatus option \<Rightarrow> string option \<Rightarrow> LocksView \<Rightarrow> LocksBody" where
  "locks_body ago collates data err v = (case data of
     None \<Rightarrow> (case err of None \<Rightarrow> LocksLoading | Some e \<Rightarrow> LocksFailed e)
   | Some s \<Rightarrow>
       if view_rows collates s v = [] then LocksNone (if st_locks s = [] then ''Nothing is locked'' else ''No locks match'')
       else LocksTable (map (lock_line ago s v) (view_rows collates s v)))"

subsection \<open>Lock and edit a file\<close>

definition lockAndEdit :: "LockStatus option \<Rightarrow> LocksView \<Rightarrow> LocksView" where
  "lockAndEdit data v = (case data of
     None \<Rightarrow> v
   | Some s \<Rightarrow>
       if lv_edit v \<noteq> None then v
       else locks_call (Service_PickFile (lv_root v)) (v\<lparr>lv_edit := Some (EditPicking (st_branch s))\<rparr>))"

definition pick_settled :: "string + string \<Rightarrow> LocksView \<Rightarrow> LocksView" where
  "pick_settled r v = (case lv_edit v of
     Some (EditPicking branch) \<Rightarrow> (case r of
         Inl err \<Rightarrow> locks_notify (err, None) (v\<lparr>lv_edit := None\<rparr>)
       | Inr path \<Rightarrow>
           if path = [] then v\<lparr>lv_edit := None\<rparr>
           else locks_call (Service_Lock (lv_root v) branch [path]) (v\<lparr>lv_edit := Some (EditLocking path)\<rparr>))
   | _ \<Rightarrow> v)"

text \<open>The callbacks of the mutation run first, then \<open>lockAndEdit\<close> goes on; an error is reported by both.\<close>

definition lock_settled :: "string + LockResult \<Rightarrow> LocksView \<Rightarrow> LocksView" where
  "lock_settled r v = (case lv_edit v of
     Some (EditLocking path) \<Rightarrow> (case r of
         Inl err \<Rightarrow> locks_notify (err, None) (locks_notify (''Locking failed: '' @ err, None) (v\<lparr>lv_edit := None\<rparr>))
       | Inr res \<Rightarrow>
           (let w = (case lock_notice res of
                       None \<Rightarrow> locks_refresh v
                     | Some (m, success) \<Rightarrow> locks_notify (m, if success then Some ToneSuccess else None) (locks_refresh v))
            in if describeLockResult res = None
               then locks_call (Service_OpenFile (lv_root v) path) (w\<lparr>lv_edit := Some (EditOpening path)\<rparr>)
               else w\<lparr>lv_edit := None\<rparr>))
   | _ \<Rightarrow> v)"

definition edit_opened :: "string + unit \<Rightarrow> LocksView \<Rightarrow> LocksView" where
  "edit_opened r v = (case lv_edit v of
     Some (EditOpening path) \<Rightarrow>
       (case r of Inl err \<Rightarrow> locks_notify (err, None) (v\<lparr>lv_edit := None\<rparr>) | Inr _ \<Rightarrow> v\<lparr>lv_edit := None\<rparr>)
   | _ \<Rightarrow> v)"

subsection \<open>Open and release\<close>

definition open_lock :: "FileLock \<Rightarrow> LocksView \<Rightarrow> LocksView" where
  "open_lock l v =
     (if fk_mine l \<and> \<not> isDirectory (fk_path l)
      then locks_call (Service_OpenFile (lv_root v) (fk_path l)) (v\<lparr>lv_opening := lv_opening v @ [fk_path l]\<rparr>) else v)"

definition lock_opened :: "string \<Rightarrow> string + unit \<Rightarrow> LocksView \<Rightarrow> LocksView" where
  "lock_opened path r v =
     (let w = v\<lparr>lv_opening := remove1 path (lv_opening v)\<rparr> in
      case r of Inl err \<Rightarrow> locks_notify (''Could not open '' @ path @ '': '' @ err, None) w | Inr _ \<Rightarrow> w)"

definition unlock_request :: "string \<Rightarrow> FileLock \<Rightarrow> ServiceCall" where
  "unlock_request r l = Service_Unlock r (if fk_global l then [] else fk_branch l) (fk_path l)"

definition unlock_mutate :: "FileLock \<Rightarrow> LocksView \<Rightarrow> LocksView" where
  "unlock_mutate l v =
     locks_call (unlock_request (lv_root v) l)
       (v\<lparr>lv_unlocks := lv_unlocks v @ [l], lv_unlocking := lv_unlocking v @ [length (lv_unlocks v)]\<rparr>)"

definition click_release :: "LockStatus \<Rightarrow> FileLock \<Rightarrow> LocksView \<Rightarrow> LocksView" where
  "click_release s l v =
     (if (fk_mine l \<or> st_canReleaseAny s) \<and> \<not> unlock_pending v
      then (if fk_mine l then unlock_mutate l v else v\<lparr>lv_releasing := Some l\<rparr>) else v)"

definition confirm_release :: "LocksView \<Rightarrow> LocksView" where
  "confirm_release v = (case lv_releasing v of None \<Rightarrow> v | Some l \<Rightarrow> (unlock_mutate l v)\<lparr>lv_releasing := None\<rparr>)"

definition cancel_release :: "LocksView \<Rightarrow> LocksView" where
  "cancel_release v = v\<lparr>lv_releasing := None\<rparr>"

definition release_message :: "FileLock \<Rightarrow> string" where
  "release_message l = lock_holder_name l @ '' holds '' @ fk_path l @
     ''. If they are still editing it, their work can no longer be pushed without merging by hand.''"

definition unlock_settled :: "nat \<Rightarrow> string + unit \<Rightarrow> LocksView \<Rightarrow> LocksView" where
  "unlock_settled i r v =
     (let w = v\<lparr>lv_unlocking := remove1 i (lv_unlocking v)\<rparr> in
      case r of
        Inl err \<Rightarrow> locks_notify (''Releasing failed: '' @ err, None) w
      | Inr _ \<Rightarrow> locks_notify (''Released '' @ fk_path (lv_unlocks v ! i), Some ToneSuccess) (locks_refresh w))"

section \<open>Reachable states of the branches\<close>

text \<open>\<open>D\<close> are the names that every list of branches shows as default branches.\<close>

inductive branches_reach :: "string set \<Rightarrow> BranchesView \<Rightarrow> bool" for D where
  mount: "branches_reach D (branches_mount r branch detached busy)"
| props: "branches_reach D v \<Longrightarrow> branches_reach D (branches_props branch detached busy v)"
| new: "branches_reach D v \<Longrightarrow> d = NewBranch \<or> d = NewTag \<Longrightarrow> branches_reach D (click_new d v)"
| merge: "branches_reach D v \<Longrightarrow> branches_reach D (click_merge b v)"
| switch: "branches_reach D v \<Longrightarrow> branches_reach D (click_switch b v)"
| delete: "branches_reach D v \<Longrightarrow> bn_name b \<in> D \<longrightarrow> bn_default b \<Longrightarrow> branches_reach D (click_delete b v)"
| checkout: "branches_reach D v \<Longrightarrow> branches_reach D (click_checkout t v)"
| delete_tag: "branches_reach D v \<Longrightarrow> branches_reach D (click_delete_tag t v)"
| cancel: "branches_reach D v \<Longrightarrow> branches_reach D (branches_cancel v)"
| type_name: "branches_reach D v \<Longrightarrow> branches_reach D (branches_type name message v)"
| confirm: "branches_reach D v \<Longrightarrow> branches_reach D (branches_confirm v)"
| settled: "branches_reach D v \<Longrightarrow> i \<in> set (bv_pending v) \<Longrightarrow> branches_reach D (branch_settled i r v)"

text \<open>
  The part of the state that the mutations use. Every step leaves it alone, sends one call, or takes an answered
  call away.
\<close>

definition same_calls :: "BranchesView \<Rightarrow> BranchesView \<Rightarrow> bool" where
  "same_calls v w \<longleftrightarrow> bv_sent w = bv_sent v \<and> bv_pending w = bv_pending v"

lemmas branch_click_defs = branches_props_def click_new_def click_merge_def click_switch_def click_delete_def
  click_checkout_def click_delete_tag_def branches_cancel_def branches_setDialog_def

lemma clicks_keep_calls:
  "same_calls v (branches_props branch detached busy v)" "same_calls v (click_new d v)" "same_calls v (click_merge b v)"
  "same_calls v (click_switch b v)" "same_calls v (click_delete b v)" "same_calls v (click_checkout t v)"
  "same_calls v (click_delete_tag t v)" "same_calls v (branches_cancel v)"
  by (simp_all add: same_calls_def branch_click_defs)

lemma type_keeps_calls: "same_calls v (branches_type name message v)"
  by (simp add: same_calls_def branches_type_def split: option.split BranchDialog.split)

lemma settled_calls:
  "bv_sent (branch_settled i r v) = bv_sent v" "bv_pending (branch_settled i r v) = remove1 i (bv_pending v)"
  by (simp_all add: branch_settled_def branch_success_def branches_done_def branches_setDialog_def Let_def
      split: sum.split BranchCall.split)

text \<open>The call that confirming a dialog sends.\<close>

definition confirmed_call :: "BranchesView \<Rightarrow> BranchCall option" where
  "confirmed_call v = (case bv_dialog v of
     Some NewBranch \<Rightarrow> map_option (\<lambda>p. CallCreateBranch (fst p) (bv_branch v)) (prompt_submit (bv_prompt v) (isPending MutCreateBranch v))
   | Some NewTag \<Rightarrow> map_option (\<lambda>p. CallCreateTag (fst p) (bv_branch v) (snd p)) (prompt_submit (bv_prompt v) (isPending MutCreateTag v))
   | Some (DeleteBranch name) \<Rightarrow> Some (CallDeleteBranch name)
   | Some (DeleteTag name) \<Rightarrow> Some (CallDeleteTag name)
   | _ \<Rightarrow> None)"

lemma confirm_cases:
  "(case confirmed_call v of None \<Rightarrow> same_calls v (branches_confirm v) | Some c \<Rightarrow> branches_confirm v = branch_mutate c v)"
  by (simp add: confirmed_call_def branches_confirm_def same_calls_def branches_setDialog_def
      split: option.split BranchDialog.split prod.split)

lemma mutate_calls [simp]:
  "bv_sent (branch_mutate c v) = bv_sent v @ [c]" "bv_pending (branch_mutate c v) = bv_pending v @ [length (bv_sent v)]"
  by (simp_all add: branch_mutate_def)

lemma last_sent_mutate:
  "last_sent m (branch_mutate c v) = (if call_mutation c = m then Some (length (bv_sent v)) else last_sent m v)"
proof -
  have "filter (\<lambda>i. call_mutation ((bv_sent v @ [c]) ! i) = m) [0..<length (bv_sent v)] =
      filter (\<lambda>i. call_mutation (bv_sent v ! i) = m) [0..<length (bv_sent v)]"
    by (rule filter_cong) (simp_all add: nth_append)
  then show ?thesis by (simp add: last_sent_def Let_def)
qed

definition creates :: "BranchMutation \<Rightarrow> bool" where
  "creates m \<longleftrightarrow> m = MutCreateBranch \<or> m = MutCreateTag"

definition call_ok :: "string set \<Rightarrow> BranchCall \<Rightarrow> bool" where
  "call_ok D c = (case c of
     CallCreateBranch name start \<Rightarrow> name \<noteq> [] \<and> js_trim name = name
   | CallDeleteBranch name \<Rightarrow> name \<notin> D
   | CallCreateTag name start message \<Rightarrow> name \<noteq> [] \<and> js_trim name = name
   | CallDeleteTag name \<Rightarrow> True)"

definition pending_ok :: "BranchesView \<Rightarrow> bool" where
  "pending_ok v \<longleftrightarrow> distinct (bv_pending v) \<and> (\<forall>i \<in> set (bv_pending v). i < length (bv_sent v)) \<and>
     (\<forall>i \<in> set (bv_pending v). creates (call_mutation (bv_sent v ! i)) \<longrightarrow>
        last_sent (call_mutation (bv_sent v ! i)) v = Some i)"

lemma same_calls_keep: "same_calls v w \<Longrightarrow> pending_ok w = pending_ok v"
  by (simp add: same_calls_def pending_ok_def last_sent_def)

lemmas pending_ok_click = clicks_keep_calls [THEN same_calls_keep] type_keeps_calls [THEN same_calls_keep]

lemma last_sent_settled [simp]: "last_sent m (branch_settled i r v) = last_sent m v"
  by (simp add: last_sent_def settled_calls)

lemma confirmed_not_pending:
  "confirmed_call v = Some c \<Longrightarrow> creates (call_mutation c) \<Longrightarrow> \<not> isPending (call_mutation c) v"
  by (auto simp: confirmed_call_def prompt_submit_def prompt_enabled_def creates_def
      split: option.splits BranchDialog.splits if_splits)

lemma pending_ok_mutate:
  assumes "pending_ok v" "confirmed_call v = Some c"
  shows "pending_ok (branch_mutate c v)"
proof -
  have "\<forall>i \<in> set (bv_pending v). creates (call_mutation (bv_sent v ! i)) \<longrightarrow> call_mutation c \<noteq> call_mutation (bv_sent v ! i)"
    using confirmed_not_pending [OF assms(2)] assms(1) by (auto simp: pending_ok_def isPending_def)
  then show ?thesis using assms(1) by (auto simp: pending_ok_def last_sent_mutate nth_append)
qed

lemma pending_ok_settled: "pending_ok v \<Longrightarrow> pending_ok (branch_settled i r v)"
  by (auto simp: pending_ok_def settled_calls dest: notin_set_remove1)

lemma pending_inv: "branches_reach D v \<Longrightarrow> pending_ok v"
proof (induction rule: branches_reach.induct)
  case (mount r branch detached busy)
  show ?case by (simp add: pending_ok_def branches_mount_def)
next
  case (confirm v)
  then show ?case using confirm_cases [of v] by (cases "confirmed_call v") (simp_all add: same_calls_keep pending_ok_mutate)
qed (simp_all add: pending_ok_click pending_ok_settled)

text \<open>The dialog that asks whether to delete a branch is never about a default branch.\<close>

definition deletes_ok :: "string set \<Rightarrow> BranchesView \<Rightarrow> bool" where
  "deletes_ok D v \<longleftrightarrow> (\<forall>n. bv_dialog v = Some (DeleteBranch n) \<longrightarrow> n \<notin> D) \<and> list_all (call_ok D) (bv_sent v)"

lemma confirmed_ok: "deletes_ok D v \<Longrightarrow> confirmed_call v = Some c \<Longrightarrow> call_ok D c"
  by (auto simp: confirmed_call_def deletes_ok_def call_ok_def prompt_submit_def prompt_enabled_def
      split: option.splits BranchDialog.splits if_splits)

lemma dialog_confirm: "bv_dialog (branches_confirm v) = None \<or> bv_dialog (branches_confirm v) = bv_dialog v"
  by (auto simp: branches_confirm_def branch_mutate_def branches_setDialog_def split: option.split BranchDialog.split)

lemma dialog_settled: "bv_dialog (branch_settled i r v) = (if isl r then bv_dialog v else None)"
  by (simp add: branch_settled_def branch_success_def branches_done_def branches_setDialog_def Let_def
      split: sum.split BranchCall.split)

lemma dialog_type: "bv_dialog (branches_type name message v) = bv_dialog v"
  by (simp add: branches_type_def split: option.split BranchDialog.split)

lemma deletes_inv: "branches_reach D v \<Longrightarrow> deletes_ok D v"
proof (induction rule: branches_reach.induct)
  case (confirm v)
  have "list_all (call_ok D) (bv_sent (branches_confirm v))"
    using confirm.IH confirm_cases [of v] confirmed_ok [OF confirm.IH]
    by (cases "confirmed_call v") (simp_all add: deletes_ok_def same_calls_def)
  with confirm.IH dialog_confirm [of v] show ?case by (auto simp: deletes_ok_def)
next
  case (type_name v name message)
  then show ?case using type_keeps_calls [of v name message] by (simp add: deletes_ok_def dialog_type same_calls_def)
next
  case (settled v i r)
  then show ?case by (simp add: deletes_ok_def dialog_settled settled_calls)
qed (auto simp: deletes_ok_def branches_mount_def branch_click_defs branch_line_def)

lemma creates_pending_once:
  assumes "pending_ok v" "creates m"
  shows "length (filter (\<lambda>i. call_mutation (bv_sent v ! i) = m) (bv_pending v)) \<le> 1"
proof -
  have "set (filter (\<lambda>i. call_mutation (bv_sent v ! i) = m) (bv_pending v)) \<subseteq> set_option (last_sent m v)"
    using assms by (auto simp: pending_ok_def)
  then have "card (set (filter (\<lambda>i. call_mutation (bv_sent v ! i) = m) (bv_pending v))) \<le> card (set_option (last_sent m v))"
    by (rule card_mono [rotated]) (cases "last_sent m v"; simp)
  also have "\<dots> \<le> 1" by (cases "last_sent m v") simp_all
  finally show ?thesis
    using assms(1) distinct_card [of "filter (\<lambda>i. call_mutation (bv_sent v ! i) = m) (bv_pending v)"]
    by (simp add: pending_ok_def)
qed

section \<open>Properties of the branches\<close>

text \<open>
  Branches and tags are created one at a time: while the creation of a branch is not answered no other
  branch is created, and the same for tags. Every name that is sent is trimmed and not empty, and no
  default branch is ever deleted.
\<close>

theorem branch_calls_guarded:
  assumes "branches_reach D v"
  shows "length (filter (\<lambda>i. call_mutation (bv_sent v ! i) = MutCreateBranch) (bv_pending v)) \<le> 1 \<and>
    length (filter (\<lambda>i. call_mutation (bv_sent v ! i) = MutCreateTag) (bv_pending v)) \<le> 1 \<and>
    list_all (call_ok D) (bv_sent v)"
  using creates_pending_once [OF pending_inv [OF assms]] deletes_inv [OF assms]
  by (auto simp: creates_def deletes_ok_def)

definition sample_branch :: Branch where
  "sample_branch = \<lparr>bn_name = ''fix'', bn_commitId = ''c1'', bn_default = False, bn_protected = False\<rparr>"

definition sample_deleting :: BranchesView where
  "sample_deleting = branches_confirm (branches_confirm (click_delete sample_branch (branches_mount ''/w'' ''main'' None False)))"

definition sample_creating :: BranchesView where
  "sample_creating = branches_confirm (branches_confirm (branches_type '' dev '' [] (click_new NewBranch sample_deleting)))"

lemmas branches_steps =
  branches_reach.mount branches_reach.confirm branches_reach.delete branches_reach.new branches_reach.type_name
  branches_reach.settled

lemma sample_deleting_reach: "branches_reach {''main''} sample_deleting"
  unfolding sample_deleting_def by (intro branches_steps) (simp add: sample_branch_def)

lemma sample_deleting_calls:
  "bv_sent sample_deleting = [CallDeleteBranch ''fix'', CallDeleteBranch ''fix'']" "bv_pending sample_deleting = [0, 1]"
  by code_simp+

theorem branch_calls_guarded_witness:
  "bv_sent sample_creating = [CallDeleteBranch ''fix'', CallDeleteBranch ''fix'', CallCreateBranch ''dev'' ''main''] \<and>
   length (filter (\<lambda>i. call_mutation (bv_sent sample_creating ! i) = MutCreateBranch) (bv_pending sample_creating)) \<le> 1"
proof -
  have "branches_reach {''main''} sample_creating"
    unfolding sample_creating_def by (intro branches_steps sample_deleting_reach) simp
  from branch_calls_guarded [OF this]
  have "length (filter (\<lambda>i. call_mutation (bv_sent sample_creating ! i) = MutCreateBranch) (bv_pending sample_creating)) \<le> 1"
    by blast
  moreover have "bv_sent sample_creating = [CallDeleteBranch ''fix'', CallDeleteBranch ''fix'', CallCreateBranch ''dev'' ''main'']"
    by code_simp
  ultimately show ?thesis by blast
qed

text \<open>
  The dialog that asks whether to delete a branch stays open and enabled while the deletion runs: a
  second click sends the deletion again, and when the first is answered and the second fails for want
  of the branch, the user sees the deletion reported as done and then as failed.
\<close>

theorem branch_deleted_twice:
  "\<exists>v. branches_reach {''main''} v \<and> bv_sent v = [CallDeleteBranch ''fix'', CallDeleteBranch ''fix''] \<and> bv_pending v = [0, 1] \<and>
     map fst (bv_notices (branch_settled 1 (Inl ''not found'') (branch_settled 0 (Inr ''fix'') v))) =
       [''Deleted branch fix'', ''Could not delete the branch: not found'']"
proof (intro exI conjI)
  show "map fst (bv_notices (branch_settled 1 (Inl ''not found'') (branch_settled 0 (Inr ''fix'') sample_deleting))) =
      [''Deleted branch fix'', ''Could not delete the branch: not found'']"
    by code_simp
qed (simp_all add: sample_deleting_reach sample_deleting_calls)

section \<open>Rows of locks\<close>

lemma lock_le_order:
  assumes "sort_order collates"
  shows "sort_order (lock_le collates)"
proof
  show "lock_le collates a b \<or> lock_le collates b a" for a b
    using sort_order.le_total [OF assms, of "fk_path a" "fk_path b"] by (auto simp: lock_le_def)
  show "lock_le collates a b \<Longrightarrow> lock_le collates b c \<Longrightarrow> lock_le collates a c" for a b c
    using sort_order.le_trans [OF assms, of "fk_path a" "fk_path b" "fk_path c"] by (auto simp: lock_le_def split: if_splits)
qed

lemma rows_mset: "mset (lock_rows collates locks f q) = mset (filter (\<lambda>l. filter_keeps f l \<and> lock_matches q l) locks)"
  by (simp add: lock_rows_def filter_filter conj_commute)

text \<open>
  The table of locks shows every lock that the filter and the query leave, once; locks that apply to the
  branch of the clone come before the others, and in each part the own locks before those of others,
  each group by path. The filters Mine and Team divide what All shows.
\<close>

theorem lock_rows_ordered:
  assumes "sort_order collates"
  shows "sorted_wrt (lock_le collates) (lock_rows collates locks f q) \<and>
    mset (lock_rows collates locks f q) = mset (filter (\<lambda>l. filter_keeps f l \<and> lock_matches q l) locks) \<and>
    mset (lock_rows collates locks LocksMine q) + mset (lock_rows collates locks LocksTeam q) =
      mset (lock_rows collates locks LocksAll q)"
proof (intro conjI)
  show "sorted_wrt (lock_le collates) (lock_rows collates locks f q)"
    unfolding lock_rows_def by (rule sort_order.sorted_sort [OF lock_le_order [OF assms]])
  show "mset (lock_rows collates locks LocksMine q) + mset (lock_rows collates locks LocksTeam q) =
      mset (lock_rows collates locks LocksAll q)"
    unfolding rows_mset by (induction locks) (auto simp: filter_keeps_def)
qed (rule rows_mset)

definition sample_lock :: "string \<Rightarrow> bool \<Rightarrow> bool \<Rightarrow> FileLock" where
  "sample_lock path mine inScope =
     \<lparr>fk_id = path, fk_path = path, fk_branch = ''main'', fk_global = True, fk_heldBy = ''u1'', fk_heldByName = ''Ana'',
      fk_mine = mine, fk_mergeRequest = 0, fk_acquiredAt = [], fk_inScope = inScope\<rparr>"

theorem lock_rows_ordered_witness:
  "map fk_path (lock_rows (\<le>) [sample_lock ''b.psd'' False True, sample_lock ''c.psd'' True False, sample_lock ''a.psd'' True True]
     LocksAll '' PSD'') = [''a.psd'', ''b.psd'', ''c.psd''] \<and>
   sorted_wrt (lock_le (\<le>)) (lock_rows (\<le>)
     [sample_lock ''b.psd'' False True, sample_lock ''c.psd'' True False, sample_lock ''a.psd'' True True] LocksAll '' PSD'')"
proof
  show "sorted_wrt (lock_le (\<le>)) (lock_rows (\<le>)
     [sample_lock ''b.psd'' False True, sample_lock ''c.psd'' True False, sample_lock ''a.psd'' True True] LocksAll '' PSD'')"
    using lock_rows_ordered [OF string_key.sort_order_axioms [of "\<lambda>s. s"]] by blast
qed code_simp

section \<open>Reachable states of the locks\<close>

text \<open>
  \<open>S\<close> are the lock states that the service reports; a row can be clicked while the state it comes from is shown.
\<close>

inductive locks_reach :: "LockStatus set \<Rightarrow> (string \<Rightarrow> string \<Rightarrow> bool) \<Rightarrow> LocksView \<Rightarrow> bool" for S collates where
  mount: "locks_reach S collates (locks_mount r)"
| filter: "locks_reach S collates v \<Longrightarrow> locks_reach S collates (locks_setFilter f v)"
| query: "locks_reach S collates v \<Longrightarrow> locks_reach S collates (locks_setQuery q v)"
| refresh: "locks_reach S collates v \<Longrightarrow> locks_reach S collates (locks_refresh v)"
| edit: "locks_reach S collates v \<Longrightarrow> set_option data \<subseteq> S \<Longrightarrow> locks_reach S collates (lockAndEdit data v)"
| picked: "locks_reach S collates v \<Longrightarrow> locks_reach S collates (pick_settled p v)"
| locked: "locks_reach S collates v \<Longrightarrow> locks_reach S collates (lock_settled l v)"
| edit_open: "locks_reach S collates v \<Longrightarrow> locks_reach S collates (edit_opened a v)"
| open_row: "locks_reach S collates v \<Longrightarrow> s \<in> S \<Longrightarrow> l \<in> set (view_rows collates s v) \<Longrightarrow> locks_reach S collates (open_lock l v)"
| row_opened: "locks_reach S collates v \<Longrightarrow> path \<in> set (lv_opening v) \<Longrightarrow> locks_reach S collates (lock_opened path a v)"
| release: "locks_reach S collates v \<Longrightarrow> s \<in> S \<Longrightarrow> l \<in> set (view_rows collates s v) \<Longrightarrow>
    locks_reach S collates (click_release s l v)"
| confirm: "locks_reach S collates v \<Longrightarrow> locks_reach S collates (confirm_release v)"
| cancel: "locks_reach S collates v \<Longrightarrow> locks_reach S collates (cancel_release v)"
| released: "locks_reach S collates v \<Longrightarrow> i \<in> set (lv_unlocking v) \<Longrightarrow> locks_reach S collates (unlock_settled i a v)"

definition may_release :: "LockStatus set \<Rightarrow> FileLock \<Rightarrow> bool" where
  "may_release S l \<longleftrightarrow> (\<exists>s \<in> S. l \<in> set (st_locks s) \<and> (fk_mine l \<or> st_canReleaseAny s))"

definition releases_ok :: "LockStatus set \<Rightarrow> LocksView \<Rightarrow> bool" where
  "releases_ok S v \<longleftrightarrow> (\<forall>l \<in> set (lv_unlocks v). may_release S l) \<and>
     (\<forall>l. lv_releasing v = Some l \<longrightarrow> may_release S l \<and> \<not> fk_mine l)"

lemmas locks_basic_defs = locks_refresh_def locks_notify_def locks_call_def

lemma edit_keeps_releases:
  "lv_unlocks (lockAndEdit data v) = lv_unlocks v" "lv_releasing (lockAndEdit data v) = lv_releasing v"
  "lv_unlocks (pick_settled p v) = lv_unlocks v" "lv_releasing (pick_settled p v) = lv_releasing v"
  "lv_unlocks (lock_settled l v) = lv_unlocks v" "lv_releasing (lock_settled l v) = lv_releasing v"
  "lv_unlocks (edit_opened a v) = lv_unlocks v" "lv_releasing (edit_opened a v) = lv_releasing v"
  "lv_unlocks (lock_opened path a v) = lv_unlocks v" "lv_releasing (lock_opened path a v) = lv_releasing v"
  "lv_unlocks (unlock_settled i a v) = lv_unlocks v" "lv_releasing (unlock_settled i a v) = lv_releasing v"
  by (simp_all add: lockAndEdit_def pick_settled_def lock_settled_def edit_opened_def lock_opened_def unlock_settled_def
      locks_basic_defs Let_def split: option.split EditStage.split sum.split prod.split)

lemma view_rows_set: "l \<in> set (view_rows collates s v) \<Longrightarrow> l \<in> set (st_locks s)"
  by (simp add: view_rows_def lock_rows_def)

lemma releases_inv: "locks_reach S collates v \<Longrightarrow> releases_ok S v"
proof (induction rule: locks_reach.induct)
  case (release v s l)
  then have "may_release S l" if "fk_mine l \<or> st_canReleaseAny s"
    using that view_rows_set [of l collates s v] unfolding may_release_def by blast
  with release.IH show ?case by (auto simp: releases_ok_def click_release_def unlock_mutate_def locks_basic_defs)
next
  case (confirm v)
  then show ?case by (auto simp: releases_ok_def confirm_release_def unlock_mutate_def locks_basic_defs split: option.split)
qed (auto simp: releases_ok_def edit_keeps_releases locks_mount_def locks_setFilter_def locks_setQuery_def open_lock_def cancel_release_def
    locks_basic_defs)

text \<open>
  Property C27. Every lock that the view releases was listed as the user's own, or listed when the user may release any;
  the question is asked for locks of others only, and a click on the row of such a lock sends nothing
  until it is answered.
\<close>

theorem released_locks_allowed:
  assumes "locks_reach S collates v"
  shows "(\<forall>l \<in> set (lv_unlocks v). \<exists>s \<in> S. l \<in> set (st_locks s) \<and> (fk_mine l \<or> st_canReleaseAny s)) \<and>
    (\<forall>l. lv_releasing v = Some l \<longrightarrow> \<not> fk_mine l) \<and>
    (\<forall>s l. \<not> fk_mine l \<longrightarrow> lv_calls (click_release s l v) = lv_calls v)"
  using releases_inv [OF assms] by (simp add: releases_ok_def may_release_def click_release_def)

definition sample_status :: LockStatus where
  "sample_status = \<lparr>st_userId = ''u2'', st_branch = ''main'', st_defaultBranch = True, st_canReleaseAny = True,
     st_locks = [sample_lock ''a.psd'' False True, sample_lock ''b.psd'' True True], st_files = []\<rparr>"

definition sample_released :: LocksView where
  "sample_released = confirm_release (click_release sample_status (sample_lock ''a.psd'' False True) (locks_mount ''/w''))"

theorem released_locks_allowed_witness:
  "lv_unlocks sample_released = [sample_lock ''a.psd'' False True] \<and>
   (\<exists>s \<in> {sample_status}. sample_lock ''a.psd'' False True \<in> set (st_locks s) \<and> (fk_mine (sample_lock ''a.psd'' False True) \<or> st_canReleaseAny s))"
proof
  show sent: "lv_unlocks sample_released = [sample_lock ''a.psd'' False True]" by code_simp
  have "sample_lock ''a.psd'' False True \<in> set (view_rows (\<le>) sample_status (locks_mount ''/w''))" by code_simp
  then have "locks_reach {sample_status} (\<le>) sample_released"
    unfolding sample_released_def by (intro locks_reach.confirm locks_reach.release locks_reach.mount) simp_all
  from released_locks_allowed [OF this] sent
  show "\<exists>s \<in> {sample_status}. sample_lock ''a.psd'' False True \<in> set (st_locks s) \<and> (fk_mine (sample_lock ''a.psd'' False True) \<or> st_canReleaseAny s)"
    by simp
qed

subsection \<open>Lock and edit\<close>

text \<open>The calls of one \<open>lockAndEdit\<close>, as far as it got.\<close>

definition edit_run :: "LockStatus \<Rightarrow> string + string \<Rightarrow> string + LockResult \<Rightarrow> string + unit \<Rightarrow> LocksView \<Rightarrow> LocksView" where
  "edit_run s p l a v = edit_opened a (lock_settled l (pick_settled p (lockAndEdit (Some s) v)))"

text \<open>
  Lock and edit opens a file exactly when a file was chosen, the service answered the request to lock it
  on the branch of the clone, and no lock was refused; and it always ends, so that the button works
  again whatever failed.
\<close>

theorem locked_before_opened:
  assumes "lv_edit v = None"
  shows "lv_edit (edit_run s p l a v) = None \<and>
    lv_calls (edit_run s p l a v) = lv_calls v @ Service_PickFile (lv_root v) #
      (case p of
         Inl _ \<Rightarrow> []
       | Inr path \<Rightarrow>
           if path = [] then []
           else Service_Lock (lv_root v) (st_branch s) [path] #
             (case l of
                Inl _ \<Rightarrow> []
              | Inr res \<Rightarrow> if lr_failed res = [] then [Service_OpenFile (lv_root v) path] else []))"
  using assms
  by (auto simp: edit_run_def lockAndEdit_def pick_settled_def lock_settled_def edit_opened_def locks_basic_defs
      describeLockResult_def Let_def split: sum.split option.split prod.split list.splits)

theorem locked_before_opened_witness:
  "lv_edit (locks_mount ''/w'') = None \<and>
   lv_calls (edit_run sample_status (Inr ''a.psd'') (Inr \<lparr>lr_locked = [], lr_failed = [\<lparr>lk_path = ''a.psd'', lk_message = ''held''\<rparr>]\<rparr>)
     (Inr ()) (locks_mount ''/w'')) = [Service_PickFile ''/w'', Service_Lock ''/w'' ''main'' [''a.psd'']]"
  using locked_before_opened [of "locks_mount ''/w''" sample_status "Inr ''a.psd''"
      "Inr \<lparr>lr_locked = [], lr_failed = [\<lparr>lk_path = ''a.psd'', lk_message = ''held''\<rparr>]\<rparr>" "Inr ()"]
  by (simp add: locks_mount_def sample_status_def)

end
