(* ===== verification/Audio_View.thy ===== *)
theory Audio_View
  imports Audio File_Diff
begin

text \<open>
  The comparison of two versions of a sound as a view, \<open>AudioDiff.tsx\<close>: the buttons over the player of
  \<open>lib/audio.ts\<close>, the two lanes with their playhead, and the table of measurements. The view keeps its own idea of
  what the player does, so the properties are about the two agreeing.
\<close>

section \<open>What the service reports\<close>

record AudioStats =
  as_codec :: string
  as_sampleRate :: int
  as_channels :: nat
  as_duration :: dbl
  as_peakDb :: "dbl option"
  as_rmsDb :: "dbl option"
  as_loudness :: "dbl option"
  as_clipped :: nat
  as_truncated :: bool

record AudioSide =
  ad_path :: string
  ad_size :: nat
  ad_stats :: "AudioStats option"
  ad_error :: "string option"
  ad_peaks :: "rat list option list option"
  ad_spectrogram :: "int list"
  ad_specColumns :: nat
  ad_specRows :: nat
  ad_playback :: string
  ad_playbackTruncated :: "bool option"

type_synonym AudioCompare = "AudioSide option \<times> AudioSide option"

definition playable :: "AudioSide option \<Rightarrow> bool" where
  "playable s = (case s of None \<Rightarrow> False | Some a \<Rightarrow> ad_playback a \<noteq> [])"

text \<open>The query of the service, and what is shown of its answer.\<close>

datatype AudioBody = AudioLoading | AudioMeta "string \<times> string \<times> (string \<times> string) list" | AudioShown AudioCompare

definition AudioDiff :: "FileDiff \<Rightarrow> (string + AudioCompare option) option \<Rightarrow> AudioBody" where
  "AudioDiff d answer = (case answer of
     None \<Rightarrow> AudioLoading
   | Some (Inl err) \<Rightarrow> AudioMeta (MetaDiff d (Some (''The audio could not be read: '' @ err)))
   | Some (Inr None) \<Rightarrow> AudioMeta (MetaDiff d (Some ''There is no preview for this audio file.''))
   | Some (Inr (Some (old, new))) \<Rightarrow>
       if old = None \<and> new = None then AudioMeta (MetaDiff d (Some ''There is no preview for this audio file.''))
       else AudioShown (old, new))"

text \<open>The exact value of a double.\<close>

definition dbl_rat :: "dbl \<Rightarrow> rat" where
  "dbl_rat x = (case x of (m, s) \<Rightarrow> if 0 \<le> s then of_int (m * 2 ^ nat s) else of_int m / of_int (2 ^ nat (- s)))"

definition side_duration :: "AudioSide option \<Rightarrow> rat" where
  "side_duration s = (case s of None \<Rightarrow> 0 | Some a \<Rightarrow> (case ad_stats a of None \<Rightarrow> 0 | Some st \<Rightarrow> dbl_rat (as_duration st)))"

definition has_stats :: "AudioSide option \<Rightarrow> bool" where
  "has_stats s = (case s of None \<Rightarrow> False | Some a \<Rightarrow> ad_stats a \<noteq> None)"

section \<open>State and buttons\<close>

datatype AudioMode = ViewWave | ViewSpectrum | ViewBoth

text \<open>The player of the comparison, \<open>None\<close> when nothing can be played.\<close>

record AudioView =
  av_old :: "AudioSide option"
  av_next :: "AudioSide option"
  av_view :: AudioMode
  av_listen :: PlayerSide
  av_playing :: bool
  av_position :: rat
  av_playError :: "string option"
  av_ready :: bool
  av_player :: "Player option"

definition span :: "AudioView \<Rightarrow> rat" where
  "span v = max (side_duration (av_old v)) (side_duration (av_next v))"

text \<open>
  The effect for a new comparison: the old player is disposed of, and a new one made and told to load, unless
  nothing can be played. \<open>context\<close> is whether \<open>makeContext\<close> gives an audio context.
\<close>

definition audio_effect :: "bool \<Rightarrow> AudioView \<Rightarrow> AudioView" where
  "audio_effect context v =
     (if \<not> playable (av_old v) \<and> \<not> playable (av_next v) then v\<lparr>av_player := None\<rparr>
      else v\<lparr>av_player := Some (if context then load_start createPlayer else createPlayer), av_ready := False,
             av_playing := False, av_position := 0, av_playError := None\<rparr>)"

definition audio_mount :: "AudioCompare \<Rightarrow> bool \<Rightarrow> AudioView" where
  "audio_mount c context = audio_effect context
     \<lparr>av_old = fst c, av_next = snd c, av_view = ViewBoth, av_listen = (if playable (snd c) then PlayNew else PlayOld),
      av_playing = False, av_position = 0, av_playError = None, av_ready = False, av_player = None\<rparr>"

text \<open>Another file while the view stays mounted: its comparison is in the cache, so nothing is unmounted.\<close>

definition audio_compare :: "AudioCompare \<Rightarrow> bool \<Rightarrow> AudioView \<Rightarrow> AudioView" where
  "audio_compare c context v = audio_effect context (v\<lparr>av_old := fst c, av_next := snd c\<rparr>)"

text \<open>Both sounds are decoded; the effect on \<open>ready\<close> chooses the side again.\<close>

definition audio_loaded :: "rat option \<Rightarrow> rat option \<Rightarrow> AudioView \<Rightarrow> AudioView" where
  "audio_loaded old new v =
     v\<lparr>av_player := map_option (\<lambda>p. setSide (av_listen v) (load_done old new p)) (av_player v), av_ready := True\<rparr>"

definition audio_load_failed :: "string \<Rightarrow> AudioView \<Rightarrow> AudioView" where
  "audio_load_failed err v = v\<lparr>av_playError := Some err\<rparr>"

definition setListen :: "PlayerSide \<Rightarrow> AudioView \<Rightarrow> AudioView" where
  "setListen s v =
     (if playable (av_old v) \<and> playable (av_next v)
      then v\<lparr>av_listen := s, av_player := map_option (setSide s) (av_player v)\<rparr> else v)"

definition setView :: "AudioMode \<Rightarrow> AudioView \<Rightarrow> AudioView" where
  "setView m v = v\<lparr>av_view := m\<rparr>"

definition audio_toggle :: "AudioView \<Rightarrow> AudioView" where
  "audio_toggle v = (case av_player v of
     None \<Rightarrow> v
   | Some p \<Rightarrow>
       if \<not> av_ready v then v
       else if av_playing v then v\<lparr>av_player := Some (pause p), av_position := position (pause p), av_playing := False\<rparr>
       else (let q = play (if av_position v \<ge> span v then 0 else av_position v) p
             in v\<lparr>av_player := Some q, av_playing := pl_isPlaying q\<rparr>))"

definition audio_stop :: "AudioView \<Rightarrow> AudioView" where
  "audio_stop v = v\<lparr>av_player := map_option (\<lambda>p. seek 0 (pause p)) (av_player v), av_playing := False, av_position := 0\<rparr>"

definition audio_seek :: "rat \<Rightarrow> AudioView \<Rightarrow> AudioView" where
  "audio_seek t v = v\<lparr>av_player := map_option (seek t) (av_player v), av_position := t\<rparr>"

text \<open>A frame of the animation, and the clock of the audio context.\<close>

definition audio_tick :: "AudioView \<Rightarrow> AudioView" where
  "audio_tick v = (if av_playing v then v\<lparr>av_position := (case av_player v of None \<Rightarrow> 0 | Some p \<Rightarrow> position p)\<rparr> else v)"

definition audio_clock :: "rat \<Rightarrow> AudioView \<Rightarrow> AudioView" where
  "audio_clock dt v = v\<lparr>av_player := map_option (clock dt) (av_player v)\<rparr>"

text \<open>A source of the player ends; \<open>onEnded\<close> is called when it had a handler.\<close>

definition audio_ended :: "Source \<Rightarrow> AudioView \<Rightarrow> AudioView" where
  "audio_ended r v = (case av_player v of
     None \<Rightarrow> v
   | Some p \<Rightarrow>
       if r \<in> set (pl_running p) \<and> so_onended r
       then v\<lparr>av_player := Some (source_ended r p), av_playing := False, av_position := 0\<rparr>
       else v\<lparr>av_player := Some (source_ended r p)\<rparr>)"

section \<open>What is shown\<close>

definition side_notices :: "(nat \<Rightarrow> string) \<Rightarrow> string \<Rightarrow> AudioSide option \<Rightarrow> string list" where
  "side_notices toLocaleString label side = (case side of
     None \<Rightarrow> []
   | Some s \<Rightarrow>
       (if truthy (ad_error s) then [label @ '': '' @ coalesce (ad_error s) []] else []) @
       (case ad_stats s of
          None \<Rightarrow> []
        | Some st \<Rightarrow> if as_truncated st then [label @ '': only the first '' @ formatTime (as_duration st) @ '' were analysed.''] else []) @
       (if ad_playbackTruncated s = Some True
        then [label @ '': playback stops early, the file is too long to load whole.''] else []) @
       (case ad_stats s of
          None \<Rightarrow> []
        | Some st \<Rightarrow> if as_clipped st \<noteq> 0
            then [label @ '': '' @ toLocaleString (as_clipped st) @ '' samples at full scale (clipping).''] else []))"

definition audio_notices :: "(nat \<Rightarrow> string) \<Rightarrow> AudioView \<Rightarrow> string list" where
  "audio_notices toLocaleString v =
     side_notices toLocaleString ''Before'' (av_old v) @ side_notices toLocaleString ''After'' (av_next v) @
     (if truthy (av_playError v) then [coalesce (av_playError v) []] else [])"

definition canPlay :: "AudioView \<Rightarrow> bool" where
  "canPlay v \<longleftrightarrow> (playable (av_old v) \<or> playable (av_next v)) \<and> \<not> truthy (av_playError v)"

definition channelName :: "nat \<Rightarrow> string" where
  "channelName n = (if n = 1 then ''mono'' else if n = 2 then ''stereo'' else js_show_nat n @ '' channels'')"

text \<open>A lane: its label, its width and playhead in percent, whether it is marked as heard, what it draws.\<close>

record LaneView =
  la_label :: string
  la_width :: rat
  la_playhead :: "rat option"
  la_audible :: bool
  la_wave :: "WaveCommand list list"
  la_spectrum :: "int list option"

definition lane_width :: "rat \<Rightarrow> AudioSide \<Rightarrow> rat" where
  "lane_width whole s =
     (if whole > 0 \<and> ad_stats s \<noteq> None then side_duration (Some s) / whole * 100 else 100)"

definition lane_playhead :: "rat \<Rightarrow> AudioSide \<Rightarrow> rat option" where
  "lane_playhead t s =
     (if ad_stats s \<noteq> None \<and> t > 0 \<and> t \<le> side_duration (Some s) then Some (t / side_duration (Some s) * 100) else None)"

text \<open>A click on a lane at \<open>x\<close> of its \<open>width\<close>.\<close>

definition lane_click :: "rat \<Rightarrow> rat \<Rightarrow> AudioSide \<Rightarrow> AudioView \<Rightarrow> AudioView" where
  "lane_click x width s v =
     (if \<not> canPlay v \<or> ad_stats s = None then v
      else audio_seek (max 0 (min 1 (if width > 0 then x / width else 0)) * side_duration (Some s)) v)"

definition WAVE_WIDTH :: nat where "WAVE_WIDTH = 1200"

definition LANE_HEIGHT :: rat where "LANE_HEIGHT = 88"

definition Waveform :: "string \<Rightarrow> AudioSide \<Rightarrow> WaveCommand list list" where
  "Waveform color s =
     map (\<lambda>(c, p). drawWaveform (coalesce p []) WAVE_WIDTH LANE_HEIGHT color (of_nat c * LANE_HEIGHT))
       (enumerate 0 (coalesce (ad_peaks s) []))"

definition Spectrogram :: "AudioSide \<Rightarrow> int list option" where
  "Spectrogram s =
     (if ad_specColumns s = 0 \<or> ad_specRows s = 0 then None
      else Some (spectrogramPixels (ad_spectrogram s) (ad_specColumns s) (ad_specRows s)))"

definition lane :: "string \<Rightarrow> PlayerSide \<Rightarrow> AudioSide \<Rightarrow> AudioView \<Rightarrow> LaneView" where
  "lane color which s v =
     \<lparr>la_label = (if which = PlayOld then (if av_next v \<noteq> None then ''Before'' else ''Deleted'')
                  else if av_old v \<noteq> None then ''After'' else ''Added''),
      la_width = lane_width (span v) s, la_playhead = lane_playhead (av_position v) s,
      la_audible = (canPlay v \<and> (has_stats (av_old v) \<and> has_stats (av_next v) \<longrightarrow> av_listen v = which)),
      la_wave = (if ad_stats s \<noteq> None \<and> av_view v \<noteq> ViewSpectrum then Waveform color s else []),
      la_spectrum = (if ad_stats s \<noteq> None \<and> av_view v \<noteq> ViewWave then Spectrogram s else None)\<rparr>"

definition lanes :: "string \<Rightarrow> AudioView \<Rightarrow> LaneView list" where
  "lanes color v =
     (case av_old v of None \<Rightarrow> [] | Some s \<Rightarrow> [lane color PlayOld s v]) @
     (case av_next v of None \<Rightarrow> [] | Some s \<Rightarrow> [lane color PlayNew s v])"

subsection \<open>The table of measurements\<close>

text \<open>\<open>v.toFixed(digits)\<close> of a double of either sign, and the minus sign and the dash of the texts.\<close>

definition signed_fixed :: "nat \<Rightarrow> dbl \<Rightarrow> string" where
  "signed_fixed digits x = (if fst x < 0 then CHR ''-'' # dbl_to_fixed digits (- fst x, snd x) else dbl_to_fixed digits x)"

definition dash_text :: string where "dash_text = [CHR 0xE2, CHR 0x80, CHR 0x94]"

definition formatDb :: "dbl option \<Rightarrow> string \<Rightarrow> string" where
  "formatDb v unit = (case v of
     None \<Rightarrow> minus_sign @ [CHR 0xE2, CHR 0x88, CHR 0x9E] | Some x \<Rightarrow> signed_fixed 1 x @ '' '' @ unit)"

text \<open>A row: its label, its text, and what \<open>value\<close> gives, with its unit, if the row has one.\<close>

record StatRow =
  sr_label :: string
  sr_text :: "AudioStats \<Rightarrow> string"
  sr_value :: "((AudioStats \<Rightarrow> dbl option) \<times> string) option"

definition statRows :: "(int \<Rightarrow> string) \<Rightarrow> StatRow list" where
  "statRows toLocaleString =
     [\<lparr>sr_label = ''Duration'', sr_text = (\<lambda>s. formatTime (as_duration s)), sr_value = Some (\<lambda>s. Some (as_duration s), ''s'')\<rparr>,
      \<lparr>sr_label = ''Sample rate'', sr_text = (\<lambda>s. toLocaleString (as_sampleRate s) @ '' Hz''), sr_value = None\<rparr>,
      \<lparr>sr_label = ''Channels'', sr_text = (\<lambda>s. channelName (as_channels s)), sr_value = None\<rparr>,
      \<lparr>sr_label = ''Encoding'', sr_text = as_codec, sr_value = None\<rparr>,
      \<lparr>sr_label = ''Peak'', sr_text = (\<lambda>s. formatDb (as_peakDb s) ''dBFS''), sr_value = Some (as_peakDb, ''dB'')\<rparr>,
      \<lparr>sr_label = ''RMS'', sr_text = (\<lambda>s. formatDb (as_rmsDb s) ''dBFS''), sr_value = Some (as_rmsDb, ''dB'')\<rparr>,
      \<lparr>sr_label = ''Loudness'', sr_text = (\<lambda>s. formatDb (as_loudness s) ''LUFS''), sr_value = Some (as_loudness, ''LU'')\<rparr>]"

text \<open>\<open>Change\<close>: nothing below 0.05, otherwise the sign, the size and the unit.\<close>

definition Change :: "dbl \<Rightarrow> string \<Rightarrow> string option" where
  "Change v unit =
     (let a = (\<bar>fst v\<bar>, snd v) in
      if dbl_less a (dbl_div 5 100) then None
      else Some ((if fst v > 0 then ''+'' else minus_sign) @ dbl_to_fixed (if unit = ''s'' then 2 else 1) a @ '' '' @ unit))"

record StatLine =
  sn_label :: string
  sn_before :: string
  sn_after :: string
  sn_marked :: bool
  sn_change :: "string option"

definition stat_line :: "AudioStats option \<Rightarrow> AudioStats option \<Rightarrow> StatRow \<Rightarrow> StatLine" where
  "stat_line a b r =
     (let both = (a \<noteq> None \<and> b \<noteq> None);
          change = (case (a, b, sr_value r) of
             (Some x, Some y, Some (f, unit)) \<Rightarrow>
               (case (f x, f y) of (Some va, Some vb) \<Rightarrow> Change (dbl_sub vb va) unit | _ \<Rightarrow> None)
           | _ \<Rightarrow> None)
      in \<lparr>sn_label = sr_label r, sn_before = (case a of Some x \<Rightarrow> sr_text r x | None \<Rightarrow> dash_text),
          sn_after = (case b of Some y \<Rightarrow> sr_text r y | None \<Rightarrow> dash_text),
          sn_marked = (both \<and> map_option (sr_text r) a \<noteq> map_option (sr_text r) b \<and> sr_value r = None),
          sn_change = change\<rparr>)"

definition StatsTable :: "(int \<Rightarrow> string) \<Rightarrow> AudioSide option \<Rightarrow> AudioSide option \<Rightarrow> StatLine list" where
  "StatsTable toLocaleString old new =
     (let size = (\<lambda>s. case s of Some a \<Rightarrow> formatBytes (ad_size a) | None \<Rightarrow> dash_text)
      in \<lparr>sn_label = ''File size'', sn_before = size old, sn_after = size new, sn_marked = False, sn_change = None\<rparr> #
         map (stat_line (Option.bind old ad_stats) (Option.bind new ad_stats)) (statRows toLocaleString))"

section \<open>Geometry\<close>

text \<open>
  A click anywhere on a lane asks for a time between the start and the end of its sound, and the playhead,
  where there is one, stands inside the lane: a click at a fraction of the lane puts the playhead there.
\<close>

theorem lane_click_inside:
  assumes "canPlay v" "ad_stats s \<noteq> None" "0 < side_duration (Some s)" "0 < width"
  shows "0 \<le> av_position (lane_click x width s v) \<and> av_position (lane_click x width s v) \<le> side_duration (Some s) \<and>
    (0 < x \<and> x \<le> width \<longrightarrow> lane_playhead (av_position (lane_click x width s v)) s = Some (x / width * 100)) \<and>
    (\<forall>h. lane_playhead t s = Some h \<longrightarrow> 0 < h \<and> h \<le> 100)"
proof -
  define d f where "d = side_duration (Some s)" and "f = max 0 (min 1 (x / width))"
  have "0 < d" using assms(3) by (simp add: d_def)
  have pos: "av_position (lane_click x width s v) = f * d"
    using assms by (auto simp: lane_click_def audio_seek_def d_def f_def)
  have f: "0 \<le> f" "f \<le> 1" by (simp_all add: f_def)
  have "0 \<le> f * d" "f * d \<le> d" using f \<open>0 < d\<close> by (simp_all add: mult_left_le_one_le)
  moreover have "lane_playhead (f * d) s = Some (x / width * 100)" if x: "0 < x" "x \<le> width"
  proof -
    have "f = x / width" using x assms(4) by (simp add: f_def)
    then have "0 < f" using x assms(4) by simp
    then have "0 < f * d" using \<open>0 < d\<close> by simp
    with \<open>0 < d\<close> \<open>f * d \<le> d\<close> \<open>f = x / width\<close> show ?thesis
      unfolding lane_playhead_def d_def [symmetric] using assms(2) by simp
  qed
  moreover have "0 < h \<and> h \<le> 100" if "lane_playhead t s = Some h" for h
    using that by (auto simp: lane_playhead_def divide_le_eq split: if_splits)
  ultimately show ?thesis unfolding pos d_def by blast
qed

definition sample_stats :: AudioStats where
  "sample_stats = \<lparr>as_codec = ''pcm'', as_sampleRate = 48000, as_channels = 2, as_duration = (8, 0), as_peakDb = None,
     as_rmsDb = None, as_loudness = None, as_clipped = 0, as_truncated = False\<rparr>"

definition sample_side :: AudioSide where
  "sample_side = \<lparr>ad_path = ''a.wav'', ad_size = 10, ad_stats = Some sample_stats, ad_error = None, ad_peaks = None,
     ad_spectrogram = [], ad_specColumns = 0, ad_specRows = 0, ad_playback = ''UklGRg=='', ad_playbackTruncated = Some True\<rparr>"

lemma sample_side_facts:
  "canPlay (audio_mount (Some sample_side, Some sample_side) True)" "ad_stats sample_side \<noteq> None"
  "side_duration (Some sample_side) = 8"
  by (simp_all add: canPlay_def audio_mount_def audio_effect_def playable_def sample_side_def truthy_def side_duration_def
      sample_stats_def dbl_rat_def)

theorem lane_click_inside_witness:
  "lane_playhead (av_position (lane_click 3 4 sample_side (audio_mount (Some sample_side, Some sample_side) True))) sample_side =
     Some 75"
  using lane_click_inside [OF sample_side_facts(1,2), of 4 3] by (simp add: sample_side_facts(3))

section \<open>The view and its player\<close>

text \<open>
  The runs for one comparison; the sounds that can be played are those that get decoded. Clicks ask for any
  time. The flag records whether a click went behind the end of what was loaded while a sound was playing, and no
  press of Play, Pause or Stop came since.
\<close>

inductive audio_reach :: "AudioCompare \<Rightarrow> bool \<Rightarrow> AudioView \<Rightarrow> bool" for c where
  mount: "audio_reach c False (audio_mount c works)"
| loaded: "audio_reach c past v \<Longrightarrow> \<not> av_ready v \<Longrightarrow> av_player v = Some p \<Longrightarrow> pl_ctx p \<Longrightarrow>
    (old = None \<longleftrightarrow> \<not> playable (fst c)) \<Longrightarrow> (new = None \<longleftrightarrow> \<not> playable (snd c)) \<Longrightarrow>
    (\<forall>d. old = Some d \<or> new = Some d \<longrightarrow> 0 \<le> d) \<Longrightarrow> audio_reach c past (audio_loaded old new v)"
| failed: "audio_reach c past v \<Longrightarrow> \<not> av_ready v \<Longrightarrow> audio_reach c past (audio_load_failed err v)"
| listen: "audio_reach c past v \<Longrightarrow> audio_reach c past (setListen s v)"
| view: "audio_reach c past v \<Longrightarrow> audio_reach c past (setView m v)"
| toggle: "audio_reach c past v \<Longrightarrow> audio_reach c (past \<and> \<not> av_ready v) (audio_toggle v)"
| stop: "audio_reach c past v \<Longrightarrow> audio_reach c False (audio_stop v)"
| seek: "audio_reach c past v \<Longrightarrow>
    audio_reach c (past \<or> (\<exists>p. av_player v = Some p \<and> av_playing v \<and> \<not> (0 \<le> t \<and> t < player_duration p))) (audio_seek t v)"
| tick: "audio_reach c past v \<Longrightarrow> audio_reach c past (audio_tick v)"
| clock: "audio_reach c past v \<Longrightarrow> 0 \<le> dt \<Longrightarrow> audio_reach c past (audio_clock dt v)"
| ended: "audio_reach c past v \<Longrightarrow> audio_reach c past (audio_ended r v)"

definition side_of :: "AudioCompare \<Rightarrow> PlayerSide \<Rightarrow> AudioSide option" where
  "side_of c s = (case s of PlayOld \<Rightarrow> fst c | PlayNew \<Rightarrow> snd c)"

definition loaded_ok :: "AudioCompare \<Rightarrow> bool \<Rightarrow> PlayerSide \<Rightarrow> Player \<Rightarrow> bool" where
  "loaded_ok c ready listen p \<longleftrightarrow>
     (if ready then pl_ctx p \<and> pl_side p = listen \<and> (\<forall>s. buffer_of p s = None \<longleftrightarrow> \<not> playable (side_of c s))
      else \<forall>s. buffer_of p s = None)"

definition audio_ok :: "AudioCompare \<Rightarrow> bool \<Rightarrow> AudioView \<Rightarrow> bool" where
  "audio_ok c past v \<longleftrightarrow> av_old v = fst c \<and> av_next v = snd c \<and>
     (playable (fst c) \<or> playable (snd c) \<longrightarrow> playable (side_of c (av_listen v))) \<and>
     (av_player v = None \<longrightarrow> \<not> playable (fst c) \<and> \<not> playable (snd c) \<and> \<not> av_ready v \<and> \<not> av_playing v) \<and>
     (\<forall>p. av_player v = Some p \<longrightarrow> (playable (fst c) \<or> playable (snd c)) \<and>
        player_reach p \<and> (pl_isPlaying p \<longrightarrow> av_playing v) \<and> (\<not> past \<longrightarrow> av_playing v = pl_isPlaying p) \<and> loaded_ok c (av_ready v) (av_listen v) p)"

lemma buffer_of_step [simp]:
  "buffer_of (play t p) = buffer_of p" "buffer_of (pause p) = buffer_of p" "buffer_of (seek t p) = buffer_of p"
  "buffer_of (setSide s p) = buffer_of p" "buffer_of (clock dt p) = buffer_of p" "buffer_of (source_ended r p) = buffer_of p"
  by (simp_all add: play_def pause_def seek_def setSide_def clock_def source_ended_def stopAll_def Let_def)

lemma ctx_side_step [simp]:
  "pl_ctx (play t p) = pl_ctx p" "pl_ctx (pause p) = pl_ctx p" "pl_ctx (seek t p) = pl_ctx p"
  "pl_ctx (setSide s p) = pl_ctx p" "pl_ctx (clock dt p) = pl_ctx p" "pl_ctx (source_ended r p) = pl_ctx p"
  "pl_side (play t p) = pl_side p" "pl_side (pause p) = pl_side p" "pl_side (seek t p) = pl_side p"
  "pl_side (setSide s p) = s" "pl_side (clock dt p) = pl_side p" "pl_side (source_ended r p) = pl_side p"
  by (simp_all add: play_def pause_def seek_def setSide_def clock_def source_ended_def stopAll_def Let_def)

lemma playing_step [simp]:
  "\<not> pl_isPlaying (pause p)" "pl_isPlaying (setSide s p) = pl_isPlaying p" "pl_isPlaying (clock dt p) = pl_isPlaying p"
  "\<not> pl_isPlaying (seek t (pause p))"
  "pl_isPlaying (source_ended r p) = (pl_isPlaying p \<and> \<not> (r \<in> set (pl_running p) \<and> so_onended r))"
  by (simp_all add: pause_def setSide_def clock_def seek_def source_ended_def stopAll_def)

lemma loaded_ok_step [simp]:
  "loaded_ok c ready l (play t p) = loaded_ok c ready l p" "loaded_ok c ready l (pause p) = loaded_ok c ready l p"
  "loaded_ok c ready l (seek t p) = loaded_ok c ready l p" "loaded_ok c ready l (clock dt p) = loaded_ok c ready l p"
  "loaded_ok c ready l (source_ended r p) = loaded_ok c ready l p"
  by (simp_all add: loaded_ok_def)

lemma loaded_ok_side: "loaded_ok c ready l p \<Longrightarrow> loaded_ok c ready s (setSide s p)"
  by (simp add: loaded_ok_def split: if_split_asm)

lemma side_of_both: "playable (fst c) \<Longrightarrow> playable (snd c) \<Longrightarrow> playable (side_of c s)"
  by (cases s) (simp_all add: side_of_def)

text \<open>Before the end of what is loaded there is something to play.\<close>

lemma play_plays:
  assumes "pl_ctx p" "0 \<le> t" "t < player_duration p"
  shows "pl_isPlaying (play t p)"
proof -
  have "\<exists>s d. buffer_of p s = Some d \<and> t < d"
  proof (rule ccontr)
    assume "\<nexists>s d. buffer_of p s = Some d \<and> t < d"
    then have "d \<le> t" if "pl_old p = Some d \<or> pl_new p = Some d" for d
      using that not_le by (metis PlayerSide.simps(3,4) buffer_of_def)
    then have "player_duration p \<le> t" using assms(2) by (simp add: player_duration_def coalesce_def split: option.split)
    with assms(3) show False by simp
  qed
  then obtain s d where "buffer_of p s = Some d" "t < d" by blast
  then have "s \<in> set (map so_side (start_sources p t))" unfolding start_sources_map by (cases s) auto
  then have "start_sources p t \<noteq> []" by auto
  moreover have "max 0 (min t (player_duration p)) = t" using assms by simp
  ultimately show ?thesis using assms(1) by (simp add: play_def Let_def)
qed

lemma seek_playing: "pl_ctx p \<Longrightarrow> 0 \<le> t \<Longrightarrow> t < player_duration p \<Longrightarrow> pl_isPlaying (seek t p) = pl_isPlaying p"
  by (simp add: seek_def play_plays)

lemma seek_idle: "\<not> pl_isPlaying p \<Longrightarrow> \<not> pl_isPlaying (seek t p)"
  by (simp add: seek_def)

lemma playing_ctx: "player_reach p \<Longrightarrow> pl_isPlaying p \<Longrightarrow> pl_ctx p"
  using player_invariant [of p] by (simp add: player_inv_def)

lemma seek_never_starts: "pl_isPlaying (seek t p) \<Longrightarrow> pl_isPlaying p"
  using seek_idle by blast

lemma audio_inv: "audio_reach c past v \<Longrightarrow> audio_ok c past v"
proof (induction rule: audio_reach.induct)
  case (mount works)
  have "player_reach createPlayer" "player_reach (load_start createPlayer)" by (intro player_reach.create player_reach.start)+
  then show ?case
    by (auto simp: audio_ok_def audio_mount_def audio_effect_def side_of_def loaded_ok_def createPlayer_def load_start_def
        buffer_of_def split: PlayerSide.splits)
next
  case (loaded past v p old new)
  then have p: "player_reach p" "pl_isPlaying p \<longrightarrow> av_playing v" "\<not> past \<longrightarrow> av_playing v = pl_isPlaying p" "\<forall>s. buffer_of p s = None"
    by (auto simp: audio_ok_def loaded_ok_def)
  then have "pl_old p = None" "pl_new p = None" unfolding buffer_of_def by (metis PlayerSide.simps(3,4))+
  then have "player_reach (load_done old new p)" using p(1) loaded.hyps by (intro player_reach.loaded) auto
  then have "player_reach (setSide (av_listen v) (load_done old new p))" by (rule player_reach.side)
  moreover have "pl_isPlaying (load_done old new p) = pl_isPlaying p" "pl_ctx (load_done old new p) = pl_ctx p"
    "buffer_of (load_done old new p) s = None \<longleftrightarrow> \<not> playable (side_of c s)" for s
    using loaded.hyps by (auto simp: load_done_def buffer_of_def side_of_def split: PlayerSide.split)
  ultimately show ?case using loaded p(2,3) by (auto simp: audio_ok_def audio_loaded_def loaded_ok_def)
next
  case (listen past v s)
  then show ?case by (auto simp: audio_ok_def setListen_def side_of_both intro: player_reach.side loaded_ok_side)
next
  case (toggle past v)
  then show ?case
    by (auto simp: audio_ok_def audio_toggle_def Let_def intro: player_reach.play player_reach.pause split: option.split)
next
  case (stop past v)
  then show ?case by (auto simp: audio_ok_def audio_stop_def intro: player_reach.seek player_reach.pause)
next
  case (seek past v t)
  define late where "late \<longleftrightarrow> past \<or> (\<exists>p. av_player v = Some p \<and> av_playing v \<and> \<not> (0 \<le> t \<and> t < player_duration p))"
  have same: "av_playing v = pl_isPlaying (Audio.seek t p)" if p: "av_player v = Some p" "\<not> late" for p
  proof (cases "av_playing v")
    case True
    then have "pl_ctx p" "pl_isPlaying p" "0 \<le> t" "t < player_duration p"
      using p seek.IH playing_ctx by (auto simp: audio_ok_def late_def)
    with True show ?thesis by (simp add: seek_playing)
  next
    case False
    then show ?thesis using p seek.IH by (auto simp: audio_ok_def seek_idle)
  qed
  have started: "av_playing v" if "av_player v = Some p" "pl_isPlaying (Audio.seek t p)" for p
    using seek.IH that seek_never_starts by (auto simp: audio_ok_def)
  have "audio_ok c late (audio_seek t v)"
  proof (cases "av_player v")
    case None
    then show ?thesis using seek.IH by (simp add: audio_ok_def audio_seek_def)
  next
    case (Some p)
    then have "player_reach (Audio.seek t p)" using seek.IH by (auto simp: audio_ok_def intro: player_reach.seek)
    with Some same [OF Some] started [OF Some] seek.IH show ?thesis by (auto simp: audio_ok_def audio_seek_def)
  qed
  then show ?case by (simp add: late_def)
next
  case (clock past v dt)
  then show ?case by (auto simp: audio_ok_def audio_clock_def intro: player_reach.clock)
next
  case (ended past v r)
  then show ?case by (auto simp: audio_ok_def audio_ended_def intro: player_reach.ended split: option.split)
qed (auto simp: audio_ok_def audio_load_failed_def setView_def audio_tick_def)

text \<open>
  Property C29. As long as one comparison is shown and its sounds are loaded, for any clicks, presses and
  ends of sounds: whenever the player runs a sound the button shows that one plays, and the other way
  round too unless a click went behind the end of what was loaded while a sound was playing and neither Pause nor Stop was
  pressed since; the version chosen is the one that the player makes audible, the other is silent, and the chosen
  version has a sound.
\<close>

theorem audio_view_follows_player:
  assumes "audio_reach c past v" "av_player v = Some p" "av_ready v"
  shows "(pl_running p \<noteq> [] \<longrightarrow> av_playing v) \<and> (\<not> past \<longrightarrow> (av_playing v \<longleftrightarrow> pl_running p \<noteq> [])) \<and>
    buffer_of p (av_listen v) \<noteq> None \<and>
    (\<forall>r \<in> set (pl_running p). so_gain r = (if so_side r = av_listen v then 1 else 0))"
proof -
  have ok: "audio_ok c past v" by (rule audio_inv [OF assms(1)])
  then have p: "player_reach p" "pl_isPlaying p \<longrightarrow> av_playing v" "\<not> past \<longrightarrow> av_playing v = pl_isPlaying p"
    "loaded_ok c True (av_listen v) p"
    using assms(2,3) by (auto simp: audio_ok_def)
  have "playable (side_of c (av_listen v))" using ok assms(2) by (auto simp: audio_ok_def)
  then have "buffer_of p (av_listen v) \<noteq> None" "pl_side p = av_listen v" using p(4) by (simp_all add: loaded_ok_def)
  then show ?thesis using player_invariant [OF p(1)] p(2,3) by (simp add: player_inv_def)
qed

lemma compare_kept [simp]:
  "av_old (audio_toggle v) = av_old v" "av_next (audio_toggle v) = av_next v" "av_playError (audio_toggle v) = av_playError v"
  "av_old (audio_loaded a b v) = av_old v" "av_next (audio_loaded a b v) = av_next v"
  "av_playError (audio_loaded a b v) = av_playError v"
  "av_old (setListen s v) = av_old v" "av_next (setListen s v) = av_next v" "av_playError (setListen s v) = av_playError v"
  by (simp_all add: audio_toggle_def audio_loaded_def setListen_def Let_def split: option.split)

lemma canPlay_kept [simp]:
  "canPlay (audio_toggle v) = canPlay v" "canPlay (audio_loaded a b v) = canPlay v" "canPlay (setListen s v) = canPlay v"
  by (simp_all add: canPlay_def)

definition sample_loaded :: AudioView where
  "sample_loaded = audio_loaded (Some 4) (Some 4) (audio_mount (Some sample_side, Some sample_side) True)"

definition sample_playing :: AudioView where
  "sample_playing = audio_toggle (setListen PlayOld sample_loaded)"

lemma sample_playing_reach: "audio_reach (Some sample_side, Some sample_side) False sample_playing"
proof -
  have "audio_reach (Some sample_side, Some sample_side) False sample_loaded"
    unfolding sample_loaded_def
    by (rule audio_reach.loaded [where p = "load_start createPlayer", OF audio_reach.mount])
      (simp_all add: audio_mount_def audio_effect_def playable_def sample_side_def load_start_def createPlayer_def)
  from audio_reach.toggle [OF audio_reach.listen [OF this, of PlayOld]] show ?thesis by (simp add: sample_playing_def)
qed

lemma sample_playing_facts:
  "av_playing sample_playing" "av_ready sample_playing" "av_listen sample_playing = PlayOld"
  "map_option (map so_gain \<circ> pl_running) (av_player sample_playing) = Some [1, 0]"
  by code_simp+

theorem audio_view_follows_player_witness:
  "\<exists>p. av_player sample_playing = Some p \<and> pl_running p \<noteq> [] \<and> buffer_of p PlayOld \<noteq> None"
proof -
  obtain p where "av_player sample_playing = Some p" using sample_playing_facts(4) by auto
  then show ?thesis
    using audio_view_follows_player [OF sample_playing_reach _ sample_playing_facts(2)] sample_playing_facts(1,3) by auto
qed

text \<open>
  Clicking behind the end of what was loaded, which a lane allows when the playback was cut short, stops
  the player but not the view: it goes on showing that a sound plays.
\<close>

theorem click_past_playback_looks_playing:
  assumes "av_playing v" "av_player v = Some p" "player_reach p" "pl_isPlaying p" "player_duration p \<le> t"
  shows "av_playing (audio_seek t v) \<and> map_option pl_isPlaying (av_player (audio_seek t v)) = Some False"
proof -
  have inv: "player_inv p" by (rule player_invariant [OF assms(3)])
  have "max 0 (min t (player_duration p)) = player_duration p" using assms(5) duration_nonneg [OF inv] by simp
  moreover have "start_sources p (player_duration p) = []"
  proof -
    have "map so_side (start_sources p (player_duration p)) = []"
      unfolding start_sources_map by (simp add: player_duration_def buffer_of_def coalesce_def split: option.split)
    then show ?thesis by simp
  qed
  ultimately have "\<not> pl_isPlaying (seek t p)"
    using assms(4) playing_ctx [OF assms(3,4)] by (simp add: seek_def play_def Let_def)
  with assms(1,2) show ?thesis by (simp add: audio_seek_def)
qed

theorem click_past_playback_looks_playing_witness:
  "av_playing (lane_click 3 4 sample_side sample_playing) \<and>
   map_option pl_isPlaying (av_player (lane_click 3 4 sample_side sample_playing)) = Some False"
proof -
  obtain p where p: "av_player sample_playing = Some p" using sample_playing_facts(4) by auto
  have "audio_ok (Some sample_side, Some sample_side) False sample_playing" by (rule audio_inv [OF sample_playing_reach])
  then have "player_reach p" "pl_isPlaying p" using p sample_playing_facts(1) by (auto simp: audio_ok_def)
  moreover have "map_option player_duration (av_player sample_playing) = Some 4" by code_simp
  then have "player_duration p \<le> 6" using p by simp
  moreover have "lane_click 3 4 sample_side sample_playing = audio_seek 6 sample_playing"
    using sample_side_facts by (simp add: lane_click_def sample_playing_def sample_loaded_def del: not_None_eq)
  ultimately show ?thesis using click_past_playback_looks_playing [OF sample_playing_facts(1) p] by simp
qed

text \<open>
  The version that is listened to outlives the comparison: after a file of which the new version was
  heard, a deleted file whose comparison is in the cache is played without any sound, and no button can
  change the version.
\<close>

theorem deleted_file_plays_silently:
  "let v = audio_toggle (audio_loaded (Some 4) None
       (audio_compare (Some sample_side, None) True (audio_mount (Some sample_side, Some sample_side) True)))
   in av_playing v \<and> map_option (map so_gain \<circ> pl_running) (av_player v) = Some [0] \<and> setListen PlayOld v = v"
  unfolding Let_def
  by (intro conjI) (code_simp, code_simp, simp add: setListen_def audio_compare_def audio_effect_def playable_def)

end
