(* ===== verification/Desktop_Settings.thy ===== *)
theory Desktop_Settings
  imports Desktop_App History
begin

text \<open>
  The settings of the desktop client: the dialog (\<open>SettingsDialog.tsx\<close>) with its form, the updates
  (\<open>UpdatesSection.tsx\<close>, \<open>UpdateBanner.tsx\<close>, \<open>useUpdates\<close>), the rules for ignored files (\<open>IgnoreRulesEditor.tsx\<close>), and
  the part of the service that checks what is saved (\<open>service/settings.go\<close>). The callbacks of a mutation are
  those of the last render, so they see what the form holds when the answer comes.
\<close>

section \<open>Settings\<close>

record Tool =
  tl_extension :: string
  tl_command :: string

record NotifySettings =
  ns_pushes :: bool
  ns_locks :: bool
  ns_reviews :: bool

record Settings =
  se_keepInTray :: bool
  se_startAtLogin :: bool
  se_pollSeconds :: int
  se_notify :: NotifySettings
  se_tools :: "Tool list"
  se_manualUpdates :: bool

text \<open>As JSON, the argument of \<open>SaveSettings\<close>.\<close>

definition json_settings :: "Settings \<Rightarrow> json" where
  "json_settings s = JObject
     [(''keepInTray'', JBool (se_keepInTray s)), (''startAtLogin'', JBool (se_startAtLogin s)),
      (''pollSeconds'', JNum (se_pollSeconds s)),
      (''notify'', JObject [(''pushes'', JBool (ns_pushes (se_notify s))), (''locks'', JBool (ns_locks (se_notify s))),
         (''reviews'', JBool (ns_reviews (se_notify s)))]),
      (''tools'', JArray (map (\<lambda>t. JObject [(''extension'', JString (tl_extension t)), (''command'', JString (tl_command t))])
         (se_tools s))),
      (''manualUpdates'', JBool (se_manualUpdates s))]"

definition desktop_saveSettings :: "Settings \<Rightarrow> ServiceCall" where
  "desktop_saveSettings s = Service_SaveSettings (json_settings s)"

definition pollOptions :: "(int \<times> string) list" where
  "pollOptions = [(30, ''30 seconds''), (60, ''1 minute''), (300, ''5 minutes''), (900, ''15 minutes''), (3600, ''1 hour'')]"

definition pollChoices :: "int \<Rightarrow> (int \<times> string) list" where
  "pollChoices current =
     (if list_ex (\<lambda>p. fst p = current) pollOptions then pollOptions
      else js_sort (\<lambda>a b. fst a \<le> fst b) (pollOptions @ [(current, js_show_int current @ '' seconds'')]))"

subsection \<open>What the service accepts\<close>

definition DefaultPollSeconds :: int where "DefaultPollSeconds = 60"
definition MinPollSeconds :: int where "MinPollSeconds = 15"
definition MaxPollSeconds :: int where "MaxPollSeconds = 3600"
definition maxUploadWorkers :: int where "maxUploadWorkers = 64"

definition normalize_poll :: "int \<Rightarrow> int" where
  "normalize_poll n =
     (if n = 0 then DefaultPollSeconds else if n < MinPollSeconds then MinPollSeconds
      else if n > MaxPollSeconds then MaxPollSeconds else n)"

definition extension_form :: "string \<Rightarrow> string" where
  "extension_form e = (let x = js_toLowerCase (js_trim e) in if js_startsWith x ''.'' then x else CHR ''.'' # x)"

definition bad_extension_char :: "char \<Rightarrow> bool" where
  "bad_extension_char c \<longleftrightarrow> c \<in> {CHR ''.'', CHR ''/'', CHR 0x5C, CHR '' '', CHR ''*'', CHR ''?''}"

definition bad_extension :: "string \<Rightarrow> bool" where
  "bad_extension e \<longleftrightarrow> length e < 2 \<or> list_ex bad_extension_char (tl e)"

text \<open>The loop over the tools; \<open>quote\<close> is the format \<open>%q\<close>.\<close>

primrec normalize_tools :: "(string \<Rightarrow> string) \<Rightarrow> Tool list \<Rightarrow> Tool list \<Rightarrow> string + Tool list" where
  "normalize_tools quote out [] = Inr out"
| "normalize_tools quote out (t # ts) =
     (let ext = extension_form (tl_extension t); command = js_trim (tl_command t) in
      if js_trim (tl_extension t) = [] \<and> command = [] then normalize_tools quote out ts
      else if bad_extension ext then Inl (quote (tl_extension t) @ '' is not a file extension'')
      else if command = [] then Inl (''choose a program for '' @ ext @ '' files'')
      else if list_ex (\<lambda>u. tl_extension u = ext) out then Inl (ext @ '' files already have a program'')
      else normalize_tools quote (out @ [\<lparr>tl_extension = ext, tl_command = command\<rparr>]) ts)"

definition normalizeSettings :: "(string \<Rightarrow> string) \<Rightarrow> Settings \<Rightarrow> string + Settings" where
  "normalizeSettings quote s = (case normalize_tools quote [] (se_tools s) of
     Inl err \<Rightarrow> Inl err
   | Inr ts \<Rightarrow> Inr (s\<lparr>se_pollSeconds := normalize_poll (se_pollSeconds s), se_tools := ts\<rparr>))"

definition SetUploadWorkers :: "int \<Rightarrow> string + int" where
  "SetUploadWorkers n =
     (if n < 0 \<or> n > maxUploadWorkers
      then Inl (''choose between 1 and '' @ js_show_int maxUploadWorkers @ '' uploads at once, or automatic'') else Inr n)"

section \<open>The form\<close>

text \<open>
  A save on its way: the draft and the count it was started with, the count the form was given then, and the
  settings the service returned once the first of the two calls is answered.
\<close>

record SettingsSave =
  sv_draft :: Settings
  sv_count :: jsnum
  sv_initial :: jsnum
  sv_saved :: "Settings option"

text \<open>\<open>fm_browsing\<close> are the open file dialogs, each with the tools of the draft when it was opened.\<close>

record SettingsForm =
  fm_draft :: Settings
  fm_workers :: string
  fm_restartHint :: bool
  fm_saving :: "SettingsSave option"
  fm_error :: "string option"
  fm_restarting :: bool
  fm_browsing :: "(nat \<times> Tool list) list"

text \<open>
  \<open>String(n)\<close> of a positive number: its decimal digits, of which a double has at most 17 after the point
  that matter. Numbers so small or large that JavaScript writes them with an exponent are written out.
\<close>

primrec fraction_digits :: "nat \<Rightarrow> rat \<Rightarrow> string" where
  "fraction_digits 0 r = []"
| "fraction_digits (Suc k) r = (if r = 0 then [] else js_show_int \<lfloor>10 * r\<rfloor> @ fraction_digits k (10 * r - of_int \<lfloor>10 * r\<rfloor>))"

definition number_text :: "rat \<Rightarrow> string" where
  "number_text r = js_show_int \<lfloor>r\<rfloor> @ (if of_int \<lfloor>r\<rfloor> = r then [] else CHR ''.'' # fraction_digits 17 (r - of_int \<lfloor>r\<rfloor>))"

definition workers_text :: "jsnum \<Rightarrow> string" where
  "workers_text n = (case n of Finite r \<Rightarrow> if r > 0 then number_text r else [] | Infinite b \<Rightarrow> if b then ''Infinity'' else [] | NotANumber \<Rightarrow> [])"

definition form_mount :: "Settings \<Rightarrow> jsnum \<Rightarrow> SettingsForm" where
  "form_mount initial initialWorkers =
     \<lparr>fm_draft = initial, fm_workers = workers_text initialWorkers, fm_restartHint = False, fm_saving = None, fm_error = None,
      fm_restarting = False, fm_browsing = []\<rparr>"

definition form_edit :: "(Settings \<Rightarrow> Settings) \<Rightarrow> SettingsForm \<Rightarrow> SettingsForm" where
  "form_edit patch f = f\<lparr>fm_draft := patch (fm_draft f)\<rparr>"

definition setWorkers :: "string \<Rightarrow> SettingsForm \<Rightarrow> SettingsForm" where
  "setWorkers s f = f\<lparr>fm_workers := s\<rparr>"

definition edit_tool :: "nat \<Rightarrow> (Tool \<Rightarrow> Tool) \<Rightarrow> Tool list \<Rightarrow> Tool list" where
  "edit_tool i patch ts = map (\<lambda>(j, t). if j = i then patch t else t) (enumerate 0 ts)"

definition setTool :: "nat \<Rightarrow> (Tool \<Rightarrow> Tool) \<Rightarrow> SettingsForm \<Rightarrow> SettingsForm" where
  "setTool i patch f = form_edit (\<lambda>d. d\<lparr>se_tools := edit_tool i patch (se_tools (fm_draft f))\<rparr>) f"

definition addTool :: "SettingsForm \<Rightarrow> SettingsForm" where
  "addTool f = form_edit (\<lambda>d. d\<lparr>se_tools := se_tools (fm_draft f) @ [\<lparr>tl_extension = [], tl_command = []\<rparr>]\<rparr>) f"

definition removeTool :: "nat \<Rightarrow> SettingsForm \<Rightarrow> SettingsForm" where
  "removeTool i f =
     form_edit (\<lambda>d. d\<lparr>se_tools := map snd (filter (\<lambda>p. fst p \<noteq> i) (enumerate 0 (se_tools (fm_draft f))))\<rparr>) f"

definition setNotify :: "(NotifySettings \<Rightarrow> NotifySettings) \<Rightarrow> SettingsForm \<Rightarrow> SettingsForm" where
  "setNotify patch f = form_edit (\<lambda>d. d\<lparr>se_notify := patch (se_notify (fm_draft f))\<rparr>) f"

text \<open>\<open>browse\<close>: its \<open>setTool\<close> is that of the render in which the dialog was opened.\<close>

definition browse_tool :: "nat \<Rightarrow> SettingsForm \<Rightarrow> SettingsForm" where
  "browse_tool i f = f\<lparr>fm_browsing := fm_browsing f @ [(i, se_tools (fm_draft f))]\<rparr>"

definition browse_settled :: "nat \<times> Tool list \<Rightarrow> string + string \<Rightarrow> SettingsForm \<Rightarrow> SettingsForm \<times> notice list" where
  "browse_settled b r f =
     (let g = f\<lparr>fm_browsing := remove1 b (fm_browsing f)\<rparr> in
      case r of
        Inl err \<Rightarrow> (g, [(err, None)])
      | Inr program \<Rightarrow>
          (if program = [] then g
           else form_edit (\<lambda>d. d\<lparr>se_tools := edit_tool (fst b) (\<lambda>t. t\<lparr>tl_command := program\<rparr>) (snd b)\<rparr>) g, []))"

definition workerCount :: "SettingsForm \<Rightarrow> jsnum" where
  "workerCount f = (if js_trim (fm_workers f) = [] then Finite 0 else js_Number (fm_workers f))"

definition valid_count :: "jsnum \<Rightarrow> bool" where
  "valid_count n = (case n of Finite r \<Rightarrow> of_int \<lfloor>r\<rfloor> = r \<and> 0 \<le> r \<and> r \<le> 64 | _ \<Rightarrow> False)"

definition workersValid :: "SettingsForm \<Rightarrow> bool" where
  "workersValid f \<longleftrightarrow> valid_count (workerCount f)"

section \<open>The dialog\<close>

text \<open>
  A save whose form was closed goes on; its callbacks see the count of the field and the count the form was given at
  its last render.
\<close>

record Orphan =
  or_save :: SettingsSave
  or_count :: jsnum
  or_initial :: jsnum

text \<open>
  The calls of the dialog that change something, with what the code hands over: the count is a number of
  JavaScript, whatever its value. \<open>settings_request\<close> is the call as it leaves the client; a count that is no
  whole number has no place in \<open>SetUploadWorkers(workers int)\<close>.
\<close>

datatype SettingsCall = CallSaveSettings Settings | CallSetUploadWorkers jsnum | CallRestartDaemon

definition settings_request :: "SettingsCall \<Rightarrow> ServiceCall option" where
  "settings_request call = (case call of
     CallSaveSettings s \<Rightarrow> Some (desktop_saveSettings s)
   | CallSetUploadWorkers n \<Rightarrow>
       (case n of Finite r \<Rightarrow> if of_int \<lfloor>r\<rfloor> = r then Some (Service_SetUploadWorkers \<lfloor>r\<rfloor>) else None | _ \<Rightarrow> None)
   | CallRestartDaemon \<Rightarrow> Some Service_RestartDaemon)"

text \<open>
  \<open>sd_settings\<close> and \<open>sd_workers\<close> are the two entries of the query cache, which outlive the dialog; the form is
  mounted once both are there. \<open>sd_orphans\<close> and \<open>sd_restarts\<close> are what closed forms left running, \<open>sd_calls\<close> the
  calls that change something.
\<close>

record SettingsDialog =
  sd_settings :: "Settings option"
  sd_workers :: "jsnum option"
  sd_open :: bool
  sd_form :: "SettingsForm option"
  sd_orphans :: "Orphan list"
  sd_restarts :: nat
  sd_calls :: "SettingsCall list"
  sd_notices :: "notice list"

definition mount_form :: "SettingsDialog \<Rightarrow> SettingsDialog" where
  "mount_form d = (case (sd_open d, sd_form d, sd_settings d, sd_workers d) of
     (True, None, Some s, Some n) \<Rightarrow> d\<lparr>sd_form := Some (form_mount s n)\<rparr> | _ \<Rightarrow> d)"

definition settings_closed :: "Settings option \<Rightarrow> jsnum option \<Rightarrow> SettingsDialog" where
  "settings_closed s n = \<lparr>sd_settings = s, sd_workers = n, sd_open = False, sd_form = None, sd_orphans = [],
     sd_restarts = 0, sd_calls = [], sd_notices = []\<rparr>"

definition settings_open :: "SettingsDialog \<Rightarrow> SettingsDialog" where
  "settings_open d = mount_form (d\<lparr>sd_open := True\<rparr>)"

definition initialWorkers :: "SettingsDialog \<Rightarrow> jsnum" where
  "initialWorkers d = coalesce (sd_workers d) NotANumber"

definition settings_close :: "SettingsDialog \<Rightarrow> SettingsDialog" where
  "settings_close d = (case sd_form d of
     None \<Rightarrow> d\<lparr>sd_open := False\<rparr>
   | Some f \<Rightarrow>
       d\<lparr>sd_open := False, sd_form := None,
         sd_orphans := sd_orphans d @ (case fm_saving f of
           None \<Rightarrow> [] | Some v \<Rightarrow> [\<lparr>or_save = v, or_count = workerCount f, or_initial = initialWorkers d\<rparr>]),
         sd_restarts := sd_restarts d + (if fm_restarting f then 1 else 0)\<rparr>)"

definition settings_notify :: "notice \<Rightarrow> SettingsDialog \<Rightarrow> SettingsDialog" where
  "settings_notify n d = d\<lparr>sd_notices := sd_notices d @ [n]\<rparr>"

text \<open>Answers of the two queries.\<close>

definition settings_loaded :: "Settings \<Rightarrow> SettingsDialog \<Rightarrow> SettingsDialog" where
  "settings_loaded s d = mount_form (d\<lparr>sd_settings := Some s\<rparr>)"

definition workers_loaded :: "int \<Rightarrow> SettingsDialog \<Rightarrow> SettingsDialog" where
  "workers_loaded n d = mount_form (d\<lparr>sd_workers := Some (Finite (of_int n))\<rparr>)"

definition with_form :: "(SettingsForm \<Rightarrow> SettingsForm) \<Rightarrow> SettingsDialog \<Rightarrow> SettingsDialog" where
  "with_form g d = d\<lparr>sd_form := map_option g (sd_form d)\<rparr>"

text \<open>The button is disabled while a save is pending, and a form with a disabled button is not submitted.\<close>

definition settings_submit :: "SettingsDialog \<Rightarrow> SettingsDialog" where
  "settings_submit d = (case sd_form d of
     None \<Rightarrow> d
   | Some f \<Rightarrow>
       if \<not> workersValid f \<or> fm_saving f \<noteq> None then d
       else d\<lparr>sd_form := Some (f\<lparr>fm_error := None,
                fm_saving := Some \<lparr>sv_draft = fm_draft f, sv_count = workerCount f, sv_initial = initialWorkers d, sv_saved = None\<rparr>\<rparr>),
              sd_calls := sd_calls d @ [CallSaveSettings (fm_draft f)]\<rparr>)"

definition save_failed :: "string \<Rightarrow> SettingsDialog \<Rightarrow> SettingsDialog" where
  "save_failed err d = with_form (\<lambda>f. f\<lparr>fm_saving := None, fm_error := Some err\<rparr>) d"

text \<open>\<open>onSuccess\<close>: the count is what the field holds now, not what was sent.\<close>

definition save_succeeded :: "Settings \<Rightarrow> SettingsDialog \<Rightarrow> SettingsDialog" where
  "save_succeeded saved d = (case sd_form d of
     None \<Rightarrow> d
   | Some f \<Rightarrow>
       (let n = workerCount f; g = f\<lparr>fm_saving := None\<rparr>; e = d\<lparr>sd_settings := Some saved, sd_workers := Some n\<rparr> in
        if \<not> js_same n (initialWorkers d) then e\<lparr>sd_form := Some (g\<lparr>fm_restartHint := True, fm_draft := saved\<rparr>)\<rparr>
        else settings_close (settings_notify (''Settings saved'', Some ToneSuccess) (e\<lparr>sd_form := Some g\<rparr>))))"

definition settings_answered :: "string + Settings \<Rightarrow> SettingsDialog \<Rightarrow> SettingsDialog" where
  "settings_answered r d = (case Option.bind (sd_form d) fm_saving of
     None \<Rightarrow> d
   | Some v \<Rightarrow>
       if sv_saved v \<noteq> None then d
       else (case r of
         Inl err \<Rightarrow> save_failed err d
       | Inr saved \<Rightarrow>
           if js_same (sv_count v) (sv_initial v) then save_succeeded saved d
           else (with_form (\<lambda>f. f\<lparr>fm_saving := Some (v\<lparr>sv_saved := Some saved\<rparr>)\<rparr>) d)
                  \<lparr>sd_calls := sd_calls d @ [CallSetUploadWorkers (sv_count v)]\<rparr>))"

definition workers_answered :: "string + unit \<Rightarrow> SettingsDialog \<Rightarrow> SettingsDialog" where
  "workers_answered r d = (case Option.bind (sd_form d) fm_saving of
     None \<Rightarrow> d
   | Some v \<Rightarrow> (case sv_saved v of
       None \<Rightarrow> d
     | Some saved \<Rightarrow> (case r of Inl err \<Rightarrow> save_failed err d | Inr _ \<Rightarrow> save_succeeded saved d)))"

definition settings_restart :: "SettingsDialog \<Rightarrow> SettingsDialog" where
  "settings_restart d = (case sd_form d of
     None \<Rightarrow> d
   | Some f \<Rightarrow>
       if fm_restartHint f \<and> \<not> fm_restarting f
       then d\<lparr>sd_form := Some (f\<lparr>fm_restarting := True\<rparr>), sd_calls := sd_calls d @ [CallRestartDaemon]\<rparr> else d)"

definition restart_done :: "string + unit \<Rightarrow> SettingsDialog \<Rightarrow> SettingsDialog" where
  "restart_done r d = (case r of
     Inl err \<Rightarrow> settings_notify (''Could not restart the background service: '' @ err, None) d
   | Inr _ \<Rightarrow> settings_close (settings_notify (''Background service restarted'', Some ToneSuccess) d))"

definition restart_answered :: "string + unit \<Rightarrow> SettingsDialog \<Rightarrow> SettingsDialog" where
  "restart_answered r d = (case sd_form d of
     None \<Rightarrow> d
   | Some f \<Rightarrow> if fm_restarting f then restart_done r (d\<lparr>sd_form := Some (f\<lparr>fm_restarting := False\<rparr>)\<rparr>) else d)"

subsection \<open>What closed forms left running\<close>

definition orphan_succeeded :: "Orphan \<Rightarrow> Settings \<Rightarrow> SettingsDialog \<Rightarrow> SettingsDialog" where
  "orphan_succeeded q saved d =
     (let e = d\<lparr>sd_settings := Some saved, sd_workers := Some (or_count q), sd_orphans := remove1 q (sd_orphans d)\<rparr> in
      if \<not> js_same (or_count q) (or_initial q) then e
      else settings_close (settings_notify (''Settings saved'', Some ToneSuccess) e))"

definition orphan_settings_answered :: "Orphan \<Rightarrow> string + Settings \<Rightarrow> SettingsDialog \<Rightarrow> SettingsDialog" where
  "orphan_settings_answered q r d =
     (if sv_saved (or_save q) \<noteq> None then d
      else case r of
        Inl err \<Rightarrow> d\<lparr>sd_orphans := remove1 q (sd_orphans d)\<rparr>
      | Inr saved \<Rightarrow>
          if js_same (sv_count (or_save q)) (sv_initial (or_save q)) then orphan_succeeded q saved d
          else d\<lparr>sd_orphans := remove1 q (sd_orphans d) @ [q\<lparr>or_save := (or_save q)\<lparr>sv_saved := Some saved\<rparr>\<rparr>],
                 sd_calls := sd_calls d @ [CallSetUploadWorkers (sv_count (or_save q))]\<rparr>)"

definition orphan_workers_answered :: "Orphan \<Rightarrow> string + unit \<Rightarrow> SettingsDialog \<Rightarrow> SettingsDialog" where
  "orphan_workers_answered q r d = (case sv_saved (or_save q) of
     None \<Rightarrow> d
   | Some saved \<Rightarrow>
       (case r of Inl err \<Rightarrow> d\<lparr>sd_orphans := remove1 q (sd_orphans d)\<rparr> | Inr _ \<Rightarrow> orphan_succeeded q saved d))"

definition orphan_restarted :: "string + unit \<Rightarrow> SettingsDialog \<Rightarrow> SettingsDialog" where
  "orphan_restarted r d = (if sd_restarts d = 0 then d else restart_done r (d\<lparr>sd_restarts := sd_restarts d - 1\<rparr>))"

section \<open>Updates\<close>

text \<open>\<open>useUpdates\<close>: the state is shared through the cache, the pending mutations belong to one component.\<close>

record Updater =
  ur_state :: "UpdateState option"
  ur_checking :: bool
  ur_installing :: bool
  ur_restarting :: bool
  ur_calls :: "ServiceCall list"
  ur_notices :: "notice list"

definition update_event :: "UpdateState \<Rightarrow> Updater \<Rightarrow> Updater" where
  "update_event s u = u\<lparr>ur_state := Some s\<rparr>"

definition updater_busy :: "Updater \<Rightarrow> bool" where
  "updater_busy u \<longleftrightarrow> ur_checking u \<or> ur_installing u \<or> ur_restarting u"

definition update_call :: "UpdateAction \<Rightarrow> ServiceCall" where
  "update_call a = (case a of UCheck \<Rightarrow> Service_CheckForUpdate | UInstall \<Rightarrow> Service_InstallUpdate
     | URestart \<Rightarrow> Service_RestartToUpdate | UOpen \<Rightarrow> Service_OpenUpdatePage)"

definition update_start :: "UpdateAction \<Rightarrow> Updater \<Rightarrow> Updater" where
  "update_start a u =
     u\<lparr>ur_checking := ur_checking u \<or> a = UCheck, ur_installing := ur_installing u \<or> a = UInstall,
       ur_restarting := ur_restarting u \<or> a = URestart, ur_calls := ur_calls u @ [update_call a]\<rparr>"

text \<open>The button of the section, and that of the banner with the versions dismissed in it.\<close>

definition section_action :: "Updater \<Rightarrow> UpdateAction option" where
  "section_action u = (case ur_state u of
     None \<Rightarrow> None | Some s \<Rightarrow> if up_enabled s then ut_action (describeUpdate s) else None)"

definition section_run :: "Updater \<Rightarrow> Updater" where
  "section_run u = (case section_action u of
     None \<Rightarrow> u | Some a \<Rightarrow> if updater_busy u then u else update_start a u)"

definition section_text :: "Updater \<Rightarrow> string" where
  "section_text u = (case ur_state u of
     None \<Rightarrow> []
   | Some s \<Rightarrow>
       if up_enabled s then ut_text (describeUpdate s)
       else ''This is a development build'' @ (if up_current s \<noteq> [] then '' ('' @ up_current s @ '')'' else []) @
         ''; it does not update itself.'')"

definition banner_shown :: "string \<Rightarrow> Updater \<Rightarrow> bool" where
  "banner_shown dismissed u = (case ur_state u of
     None \<Rightarrow> False
   | Some s \<Rightarrow> (case up_release s of
       None \<Rightarrow> False
     | Some rel \<Rightarrow> dismissed \<noteq> rl_version rel \<and> (up_phase s = UAvailable \<or> up_phase s = UReady)))"

definition banner_run :: "string \<Rightarrow> Updater \<Rightarrow> Updater" where
  "banner_run dismissed u = (case ur_state u of
     None \<Rightarrow> u
   | Some s \<Rightarrow>
       if \<not> banner_shown dismissed u \<or> ur_installing u \<or> ur_restarting u then u
       else (case ut_action (describeUpdate s) of
         Some URestart \<Rightarrow> update_start URestart u
       | Some UInstall \<Rightarrow> update_start UInstall u
       | _ \<Rightarrow> update_start UOpen u))"

definition banner_dismiss :: "Updater \<Rightarrow> string" where
  "banner_dismiss u = (case Option.bind (ur_state u) up_release of Some rel \<Rightarrow> rl_version rel | None \<Rightarrow> [])"

text \<open>The answer of an action: a new state of the update for a check or an installation.\<close>

definition update_settled :: "UpdateAction \<Rightarrow> string + UpdateState \<Rightarrow> Updater \<Rightarrow> Updater" where
  "update_settled a r u =
     (let w = u\<lparr>ur_checking := ur_checking u \<and> a \<noteq> UCheck, ur_installing := ur_installing u \<and> a \<noteq> UInstall,
               ur_restarting := ur_restarting u \<and> a \<noteq> URestart\<rparr> in
      case r of
        Inl err \<Rightarrow> w\<lparr>ur_notices := ur_notices w @ [(err, None)]\<rparr>
      | Inr s \<Rightarrow> if a = UCheck \<or> a = UInstall then w\<lparr>ur_state := Some s\<rparr> else w)"

section \<open>Rules for ignored files\<close>

record IgnoreRules =
  ig_shared :: string
  ig_local :: string

text \<open>\<open>ie_data\<close> is the entry of the query cache; the effect copies every new value of it into the draft.\<close>

record IgnoreEditor =
  ie_root :: string
  ie_data :: "IgnoreRules option"
  ie_draft :: "IgnoreRules option"
  ie_saving :: "IgnoreRules option"
  ie_calls :: "ServiceCall list"
  ie_notices :: "notice list"

definition ignore_mount :: "string \<Rightarrow> IgnoreEditor" where
  "ignore_mount r = \<lparr>ie_root = r, ie_data = None, ie_draft = None, ie_saving = None, ie_calls = [], ie_notices = []\<rparr>"

definition ignore_data :: "IgnoreRules \<Rightarrow> IgnoreEditor \<Rightarrow> IgnoreEditor" where
  "ignore_data x e = (if ie_data e = Some x then e else e\<lparr>ie_data := Some x, ie_draft := Some x\<rparr>)"

definition ignore_edit :: "(IgnoreRules \<Rightarrow> IgnoreRules) \<Rightarrow> IgnoreEditor \<Rightarrow> IgnoreEditor" where
  "ignore_edit patch e = e\<lparr>ie_draft := map_option patch (ie_draft e)\<rparr>"

definition ignore_dirty :: "IgnoreEditor \<Rightarrow> bool" where
  "ignore_dirty e = (case ie_draft e of
     None \<Rightarrow> False
   | Some x \<Rightarrow> map_option ig_shared (ie_data e) \<noteq> Some (ig_shared x) \<or> map_option ig_local (ie_data e) \<noteq> Some (ig_local x))"

definition json_rules :: "IgnoreRules \<Rightarrow> json" where
  "json_rules x = JObject [(''shared'', JString (ig_shared x)), (''local'', JString (ig_local x))]"

definition ignore_save :: "IgnoreEditor \<Rightarrow> IgnoreEditor" where
  "ignore_save e = (case ie_draft e of
     None \<Rightarrow> e
   | Some x \<Rightarrow>
       if ignore_dirty e \<and> ie_saving e = None
       then e\<lparr>ie_saving := Some x, ie_calls := ie_calls e @ [Service_SaveIgnoreRules (ie_root e) (json_rules x)]\<rparr> else e)"

definition ignore_settled :: "string + unit \<Rightarrow> IgnoreEditor \<Rightarrow> IgnoreEditor" where
  "ignore_settled r e = (case ie_saving e of
     None \<Rightarrow> e
   | Some x \<Rightarrow>
       (let w = e\<lparr>ie_saving := None\<rparr> in
        case r of
          Inl err \<Rightarrow> w\<lparr>ie_notices := ie_notices w @ [(''Could not save the ignore rules: '' @ err, None)]\<rparr>
        | Inr _ \<Rightarrow> (ignore_data x w)\<lparr>ie_notices := ie_notices w @ [(''Ignore rules saved'', Some ToneSuccess)]\<rparr>))"

section \<open>Normal settings\<close>

lemma space_lower [simp]: "js_is_space (js_lower_char c) = js_is_space c"
  by (auto simp: js_is_space_def js_lower_char_def Let_def)

lemma lower_lower [simp]: "js_lower_char (js_lower_char c) = js_lower_char c"
  by (auto simp: js_lower_char_def Let_def)

lemma trim_lower: "js_trim (js_toLowerCase s) = js_toLowerCase (js_trim s)"
  by (simp add: js_trim_def js_toLowerCase_def dropWhile_map rev_map comp_def)

lemma lower_idem: "js_toLowerCase (js_toLowerCase s) = js_toLowerCase s"
  by (simp add: js_toLowerCase_def)

text \<open>A normal tool: putting it into normal form changes nothing.\<close>

definition normal_tool :: "Tool \<Rightarrow> bool" where
  "normal_tool t \<longleftrightarrow> extension_form (tl_extension t) = tl_extension t \<and> \<not> bad_extension (tl_extension t) \<and>
     js_trim (tl_command t) = tl_command t \<and> tl_command t \<noteq> []"

lemma trim_dot:
  assumes "js_trim x = x" "x \<noteq> []"
  shows "js_trim (CHR ''.'' # x) = CHR ''.'' # x"
proof -
  define z where "z = dropWhile js_is_space (rev (dropWhile js_is_space x))"
  have "rev z = x" using assms(1) by (simp add: z_def js_trim_def)
  then have x: "rev x = z" by auto
  have drop: "dropWhile js_is_space z = z" by (simp add: z_def dropWhile_idem)
  have "z \<noteq> []" using assms(2) x by auto
  then have "\<exists>c \<in> set z. \<not> js_is_space c" using drop by (metis dropWhile_eq_Nil_conv)
  then have "dropWhile js_is_space (z @ [CHR ''.'']) = z @ [CHR ''.'']" using drop dropWhile_append1 by metis
  with \<open>rev z = x\<close> x show ?thesis by (simp add: js_trim_def js_is_space_def)
qed

lemma extension_form_idem: "extension_form (extension_form e) = extension_form e"
proof -
  define x where "x = js_toLowerCase (js_trim e)"
  have low: "js_toLowerCase x = x" by (simp add: x_def lower_idem)
  have trim: "js_trim x = x" unfolding x_def by (simp add: trim_lower)
  show ?thesis
  proof (cases "js_startsWith x ''.''")
    case True
    then show ?thesis using low trim by (simp add: extension_form_def flip: x_def)
  next
    case False
    have "js_trim (CHR ''.'' # x) = CHR ''.'' # x"
      using trim_dot [OF trim] by (cases "x = []") (simp_all add: js_trim_def js_is_space_def)
    moreover have "js_toLowerCase (CHR ''.'' # x) = CHR ''.'' # x"
      using low by (simp add: js_toLowerCase_def js_lower_char_def)
    ultimately show ?thesis using False by (simp add: extension_form_def js_startsWith_def flip: x_def)
  qed
qed

lemma normalize_tools_normal:
  "normalize_tools quote out ts = Inr us \<Longrightarrow> list_all normal_tool out \<Longrightarrow> distinct (map tl_extension out) \<Longrightarrow>
   list_all normal_tool us \<and> distinct (map tl_extension us)"
proof (induction ts arbitrary: out)
  case (Cons t ts)
  let ?u = "\<lparr>tl_extension = extension_form (tl_extension t), tl_command = js_trim (tl_command t)\<rparr>"
  consider "normalize_tools quote out ts = Inr us"
    | "normal_tool ?u" "\<forall>u \<in> set out. tl_extension u \<noteq> extension_form (tl_extension t)" "normalize_tools quote (out @ [?u]) ts = Inr us"
    using Cons.prems(1) by (auto simp: Let_def normal_tool_def extension_form_idem list_ex_iff split: if_splits)
  then show ?case using Cons.IH [of out] Cons.IH [of "out @ [?u]"] Cons.prems(2,3) by cases fastforce+
qed simp

lemma trim_extension:
  assumes "normal_tool t"
  shows "js_trim (tl_extension t) \<noteq> []"
proof
  assume "js_trim (tl_extension t) = []"
  then have "extension_form (tl_extension t) = ''.''" by (simp add: extension_form_def js_toLowerCase_def js_startsWith_def)
  moreover have "extension_form (tl_extension t) = tl_extension t" "\<not> bad_extension (tl_extension t)"
    using assms by (simp_all add: normal_tool_def)
  ultimately have "\<not> bad_extension ''.''" by simp
  then show False by (simp add: bad_extension_def)
qed

lemma normalize_tools_id:
  "list_all normal_tool ts \<Longrightarrow> distinct (map tl_extension (out @ ts)) \<Longrightarrow> normalize_tools quote out ts = Inr (out @ ts)"
proof (induction ts arbitrary: out)
  case (Cons t ts)
  have t: "normal_tool t" using Cons.prems by simp
  have same: "\<lparr>tl_extension = tl_extension t, tl_command = tl_command t\<rparr> = t" by simp
  have "\<not> list_ex (\<lambda>u. tl_extension u = tl_extension t) out" using Cons.prems(2) by (auto simp: list_ex_iff image_iff)
  moreover have "normalize_tools quote (out @ [t]) ts = Inr (out @ t # ts)" using Cons by simp
  ultimately show ?case using t trim_extension [OF t] by (simp add: Let_def normal_tool_def same)
qed simp

lemma normalize_poll_bounds: "15 \<le> normalize_poll n \<and> normalize_poll n \<le> 3600 \<and> normalize_poll (normalize_poll n) = normalize_poll n"
  by (simp add: normalize_poll_def DefaultPollSeconds_def MinPollSeconds_def MaxPollSeconds_def)

text \<open>
  Property C33. The service stores settings in a normal form and gives it back, so that saving what the form shows
  after a save changes nothing: the interval is between 15 seconds and an hour, no two programs are for
  the same extension, and every extension is lower case, starts with its only dot and has a program.
\<close>

theorem saved_settings_stay:
  assumes "normalizeSettings quote s = Inr t"
  shows "normalizeSettings quote t = Inr t \<and> 15 \<le> se_pollSeconds t \<and> se_pollSeconds t \<le> 3600 \<and>
    distinct (map tl_extension (se_tools t)) \<and> list_all normal_tool (se_tools t)"
proof -
  obtain us where us: "normalize_tools quote [] (se_tools s) = Inr us"
    and t: "t = s\<lparr>se_pollSeconds := normalize_poll (se_pollSeconds s), se_tools := us\<rparr>"
    using assms by (auto simp: normalizeSettings_def split: sum.splits)
  have n: "list_all normal_tool us" "distinct (map tl_extension us)" using normalize_tools_normal [OF us] by simp_all
  then have "normalize_tools quote [] us = Inr us" using normalize_tools_id [of us "[]"] by simp
  with n t show ?thesis using normalize_poll_bounds [of "se_pollSeconds s"] by (simp add: normalizeSettings_def)
qed

definition sample_settings :: Settings where
  "sample_settings = \<lparr>se_keepInTray = True, se_startAtLogin = False, se_pollSeconds = 5,
     se_notify = \<lparr>ns_pushes = True, ns_locks = True, ns_reviews = True\<rparr>,
     se_tools = [\<lparr>tl_extension = '' Blend'', tl_command = ''blender ''\<rparr>, \<lparr>tl_extension = [], tl_command = []\<rparr>], se_manualUpdates = False\<rparr>"

definition sample_normal :: Settings where
  "sample_normal = sample_settings\<lparr>se_pollSeconds := 15, se_tools := [\<lparr>tl_extension = ''.blend'', tl_command = ''blender''\<rparr>]\<rparr>"

lemma sample_normalized: "normalizeSettings id sample_settings = Inr sample_normal"
  by code_simp

theorem saved_settings_stay_witness:
  "normalizeSettings id sample_settings = Inr sample_normal \<and> normalizeSettings id sample_normal = Inr sample_normal"
  using saved_settings_stay [OF sample_normalized] sample_normalized by simp

section \<open>Choices and counts\<close>

lemma sorted_strict:
  fixes key :: "'a \<Rightarrow> int"
  shows "sorted_wrt (\<lambda>a b. key a \<le> key b) xs \<Longrightarrow> distinct (map key xs) \<Longrightarrow> sorted_wrt (\<lambda>a b. key a < key b) xs"
  by (induction xs) (auto simp: less_le image_iff)

text \<open>
  The list of intervals offers the current one whatever it is, once, among the usual ones and in order.
\<close>

theorem poll_choices_offer_current:
  "sorted_wrt (\<lambda>a b. fst a < fst b) (pollChoices current) \<and>
   set (map fst (pollChoices current)) = insert current (set (map fst pollOptions))"
proof (cases "list_ex (\<lambda>p. fst p = current) pollOptions")
  case True
  then show ?thesis by (auto simp: pollChoices_def pollOptions_def)
next
  case False
  let ?xs = "pollOptions @ [(current, js_show_int current @ '' seconds'')]"
  have le: "sorted_wrt (\<lambda>a b. fst a \<le> fst b) (js_sort (\<lambda>a b. fst a \<le> fst b) ?xs)" by (rule int_key.sorted_sort)
  have "distinct (map fst ?xs)" using False by (auto simp: pollOptions_def)
  moreover have "mset (map fst (js_sort (\<lambda>a b. fst a \<le> fst b) ?xs)) = mset (map fst ?xs)" by (simp del: map_append)
  ultimately have "distinct (map fst (js_sort (\<lambda>a b. fst a \<le> fst b) ?xs))" using mset_eq_imp_distinct_iff by blast
  with le have "sorted_wrt (\<lambda>a b. fst a < fst b) (js_sort (\<lambda>a b. fst a \<le> fst b) ?xs)"
    by (rule sorted_strict)
  with False show ?thesis by (auto simp: pollChoices_def)
qed

text \<open>Every count that was sent to the service, or is on its way, was valid.\<close>

definition save_valid :: "SettingsSave \<Rightarrow> bool" where
  "save_valid v \<longleftrightarrow> valid_count (sv_count v)"

definition counts_ok :: "SettingsDialog \<Rightarrow> bool" where
  "counts_ok d \<longleftrightarrow> (\<forall>f v. sd_form d = Some f \<and> fm_saving f = Some v \<longrightarrow> save_valid v) \<and>
     (\<forall>q \<in> set (sd_orphans d). save_valid (or_save q)) \<and>
     (\<forall>n. CallSetUploadWorkers n \<in> set (sd_calls d) \<longrightarrow> valid_count n)"

lemma valid_accepted:
  assumes "valid_count n"
  obtains k :: int where "n = Finite (of_int k)" "0 \<le> k" "k \<le> 64"
proof (cases n)
  case (Finite r)
  with assms have "n = Finite (of_int \<lfloor>r\<rfloor>)" "0 \<le> \<lfloor>r\<rfloor>" "\<lfloor>r\<rfloor> \<le> 64" by (auto simp: valid_count_def floor_le_iff le_floor_iff)
  then show thesis by (rule that)
qed (use assms in \<open>simp_all add: valid_count_def\<close>)

inductive settings_reach :: "SettingsDialog \<Rightarrow> bool" where
  closed: "settings_reach (settings_closed s n)"
| opened: "settings_reach d \<Longrightarrow> settings_reach (settings_open d)"
| close: "settings_reach d \<Longrightarrow> settings_reach (settings_close d)"
| settings: "settings_reach d \<Longrightarrow> settings_reach (settings_loaded s d)"
| workers: "settings_reach d \<Longrightarrow> settings_reach (workers_loaded n d)"
| edit: "settings_reach d \<Longrightarrow> settings_reach (with_form (form_edit patch) d)"
| type_workers: "settings_reach d \<Longrightarrow> settings_reach (with_form (setWorkers w) d)"
| tool: "settings_reach d \<Longrightarrow> settings_reach (with_form (setTool i tool) d)"
| add_tool: "settings_reach d \<Longrightarrow> settings_reach (with_form addTool d)"
| remove_tool: "settings_reach d \<Longrightarrow> settings_reach (with_form (removeTool i) d)"
| notify: "settings_reach d \<Longrightarrow> settings_reach (with_form (setNotify ns) d)"
| browse_tool: "settings_reach d \<Longrightarrow> settings_reach (with_form (browse_tool i) d)"
| browsed: "settings_reach d \<Longrightarrow> settings_reach (with_form (\<lambda>f. fst (browse_settled b r f)) d)"
| submit: "settings_reach d \<Longrightarrow> settings_reach (settings_submit d)"
| answered: "settings_reach d \<Longrightarrow> settings_reach (settings_answered r d)"
| workers_set: "settings_reach d \<Longrightarrow> settings_reach (workers_answered a d)"
| restart: "settings_reach d \<Longrightarrow> settings_reach (settings_restart d)"
| restarted: "settings_reach d \<Longrightarrow> settings_reach (restart_answered a d)"
| orphan_answered: "settings_reach d \<Longrightarrow> q \<in> set (sd_orphans d) \<Longrightarrow> settings_reach (orphan_settings_answered q r d)"
| orphan_workers: "settings_reach d \<Longrightarrow> q \<in> set (sd_orphans d) \<Longrightarrow> settings_reach (orphan_workers_answered q a d)"
| orphan_restart: "settings_reach d \<Longrightarrow> settings_reach (orphan_restarted a d)"

lemma counts_mount: "counts_ok d \<Longrightarrow> counts_ok (mount_form d)"
  by (auto simp: counts_ok_def mount_form_def form_mount_def split: option.splits bool.splits)

lemma counts_with_form: "counts_ok d \<Longrightarrow> \<forall>f. fm_saving (g f) = fm_saving f \<Longrightarrow> counts_ok (with_form g d)"
  by (auto simp: counts_ok_def with_form_def)

lemma counts_close: "counts_ok d \<Longrightarrow> counts_ok (settings_close d)"
  by (auto simp: counts_ok_def settings_close_def split: option.splits)

lemma counts_failed: "counts_ok d \<Longrightarrow> counts_ok (save_failed err d)"
  by (auto simp: counts_ok_def save_failed_def with_form_def)

lemma counts_cache [simp]:
  "counts_ok (d\<lparr>sd_settings := a\<rparr>) = counts_ok d" "counts_ok (d\<lparr>sd_workers := b\<rparr>) = counts_ok d"
  "counts_ok (d\<lparr>sd_restarts := k\<rparr>) = counts_ok d" "counts_ok (d\<lparr>sd_open := c\<rparr>) = counts_ok d"
  "counts_ok (settings_notify n d) = counts_ok d"
  by (simp_all add: counts_ok_def settings_notify_def)

lemma counts_idle: "counts_ok d \<Longrightarrow> fm_saving f = None \<Longrightarrow> counts_ok (d\<lparr>sd_form := Some f\<rparr>)"
  by (auto simp: counts_ok_def)

lemma counts_succeeded: "counts_ok d \<Longrightarrow> counts_ok (save_succeeded saved d)"
  by (auto simp: save_succeeded_def Let_def counts_idle intro!: counts_close split: option.split)

lemma counts_orphan_less: "counts_ok d \<Longrightarrow> counts_ok (d\<lparr>sd_orphans := remove1 q (sd_orphans d)\<rparr>)"
  by (auto simp: counts_ok_def dest: notin_set_remove1)

lemma counts_orphan_succeeded: "counts_ok d \<Longrightarrow> counts_ok (orphan_succeeded q saved d)"
  using counts_orphan_less [of "d\<lparr>sd_settings := Some saved, sd_workers := Some (or_count q)\<rparr>" q]
  by (auto simp: orphan_succeeded_def Let_def intro!: counts_close)

lemma counts_submit: "counts_ok d \<Longrightarrow> counts_ok (settings_submit d)"
  by (auto simp: counts_ok_def settings_submit_def save_valid_def workersValid_def split: option.splits)

lemma counts_answered:
  assumes "counts_ok d"
  shows "counts_ok (settings_answered r d)"
proof (cases "Option.bind (sd_form d) fm_saving")
  case (Some v)
  then have "save_valid v" using assms by (auto simp: counts_ok_def bind_eq_Some_conv)
  then have "counts_ok ((with_form (\<lambda>f. f\<lparr>fm_saving := Some (v\<lparr>sv_saved := Some saved\<rparr>)\<rparr>) d)
      \<lparr>sd_calls := sd_calls d @ [CallSetUploadWorkers (sv_count v)]\<rparr>)" for saved
    using assms \<open>save_valid v\<close> by (auto simp: counts_ok_def with_form_def save_valid_def)
  with assms Some show ?thesis
    by (auto simp: settings_answered_def counts_failed counts_succeeded split: sum.split)
qed (use assms in \<open>simp add: settings_answered_def\<close>)

lemma counts_orphan_answered:
  assumes "counts_ok d" "q \<in> set (sd_orphans d)"
  shows "counts_ok (orphan_settings_answered q r d)"
proof -
  have q: "save_valid (or_save q)" using assms by (simp add: counts_ok_def)
  then have "counts_ok (d\<lparr>sd_orphans := remove1 q (sd_orphans d) @ [q\<lparr>or_save := (or_save q)\<lparr>sv_saved := Some saved\<rparr>\<rparr>],
      sd_calls := sd_calls d @ [CallSetUploadWorkers (sv_count (or_save q))]\<rparr>)" for saved
    using counts_orphan_less [OF assms(1), of q] q by (auto simp: counts_ok_def save_valid_def)
  with assms(1) show ?thesis
    by (auto simp: orphan_settings_answered_def counts_orphan_less counts_orphan_succeeded split: sum.split)
qed

lemma counts_restart_done: "counts_ok d \<Longrightarrow> counts_ok (restart_done a d)"
  by (auto simp: restart_done_def intro: counts_close split: sum.split)

lemmas form_edit_defs = form_edit_def setWorkers_def setTool_def addTool_def removeTool_def setNotify_def browse_tool_def
  browse_settled_def

lemma settings_inv: "settings_reach d \<Longrightarrow> counts_ok d"
proof (induction rule: settings_reach.induct)
  case (closed s n)
  then show ?case by (simp add: counts_ok_def settings_closed_def)
next
  case (browsed d b r)
  then show ?case by (auto intro!: counts_with_form simp: form_edit_defs Let_def split: sum.split)
next
  case (workers_set d a)
  then show ?case
    by (auto simp: workers_answered_def counts_failed counts_succeeded split: option.split sum.split)
next
  case (restart d)
  then show ?case by (auto simp: settings_restart_def counts_ok_def split: option.split)
next
  case (restarted d a)
  then have "counts_ok (d\<lparr>sd_form := Some (f\<lparr>fm_restarting := False\<rparr>)\<rparr>)" if "sd_form d = Some f" for f
    using that by (auto simp: counts_ok_def)
  with restarted show ?case by (auto simp: restart_answered_def intro: counts_restart_done split: option.split)
next
  case (orphan_workers d q a)
  then show ?case
    by (auto simp: orphan_workers_answered_def counts_orphan_less counts_orphan_succeeded split: option.split sum.split)
next
  case (orphan_restart d a)
  then show ?case by (simp add: orphan_restarted_def counts_restart_done)
qed (simp_all add: settings_open_def settings_loaded_def workers_loaded_def counts_mount counts_close counts_with_form
    counts_submit counts_answered counts_orphan_answered form_edit_defs)

text \<open>
  Property C39. However the dialog is used, and even when it is closed while a save runs, the number that is handed
  to \<open>setUploadWorkers\<close> is a whole number from 0 to 64, never a fraction, NaN or Infinity; it reaches the service as
  that number, and the service accepts it.
\<close>

theorem upload_counts_accepted:
  assumes "settings_reach d" and "CallSetUploadWorkers n \<in> set (sd_calls d)"
  shows "\<exists>k :: int. n = Finite (of_int k) \<and> 0 \<le> k \<and> k \<le> 64 \<and>
    settings_request (CallSetUploadWorkers n) = Some (Service_SetUploadWorkers k) \<and> SetUploadWorkers k = Inr k"
proof -
  have "valid_count n" using settings_inv [OF assms(1)] assms(2) by (simp add: counts_ok_def)
  then obtain k :: int where "n = Finite (of_int k)" "0 \<le> k" "k \<le> 64" by (rule valid_accepted)
  then show ?thesis by (intro exI [of _ k]) (simp add: settings_request_def SetUploadWorkers_def maxUploadWorkers_def)
qed

section \<open>Reading a count back\<close>

text \<open>
  The field of the dialog reads back as the count it was opened with, so that saving without touching it
  does not ask the service to change the count; an automatic count shows as an empty field.
\<close>

theorem untouched_count_unchanged:
  assumes "0 \<le> n" "n < 2 ^ 53"
  shows "js_same (workerCount (form_mount s (Finite (of_int n)))) (Finite (of_int n)) \<and>
    (fm_workers (form_mount s (Finite (of_int n))) = [] \<longleftrightarrow> n = 0)"
proof (cases "n = 0")
  case False
  define k where "k = nat n"
  have k: "n = int k" "0 < k" "k < 2 ^ 53" using False assms by (auto simp: k_def nat_less_iff)
  then have t: "fm_workers (form_mount s (Finite (of_int n))) = js_show_nat k"
    by (simp add: form_mount_def workers_text_def number_text_def js_show_int_def)
  have "list_all js_is_digit (js_show_nat k)" using js_show_nat_digits by (auto simp: list_all_iff)
  then have "js_Number (js_show_nat k) = Finite (of_nat k)" "js_trim (js_show_nat k) = js_show_nat k"
    using js_Number_digits [of "js_show_nat k"] digits_only(3) k(3) by simp_all
  with t k show ?thesis by (simp add: workerCount_def js_same_def)
qed (simp add: form_mount_def workers_text_def workerCount_def js_trim_def js_same_def)

theorem untouched_count_unchanged_witness:
  "fm_workers (form_mount sample_normal (Finite (of_int 8))) \<noteq> [] \<and>
   js_same (workerCount (form_mount sample_normal (Finite (of_int 8)))) (Finite (of_int 8))"
  using untouched_count_unchanged [of 8 sample_normal] by simp

lemma number_8: "js_Number ''8'' = Finite 8"
  using js_Number_digits [of "''8''"] by (simp add: js_is_digit_def js_digits_value_def)

lemma number_4: "js_Number ''4'' = Finite 4"
  using js_Number_digits [of "''4''"] by (simp add: js_is_digit_def js_digits_value_def)

section \<open>Saving\<close>

definition sample_dialog :: SettingsDialog where
  "sample_dialog = with_form (setWorkers ''4'') (settings_open (settings_closed (Some sample_normal) (Some (Finite 0))))"

lemma sample_dialog_reach: "settings_reach sample_dialog"
  unfolding sample_dialog_def by (intro settings_reach.type_workers settings_reach.opened settings_reach.closed)

lemma sample_dialog_form:
  "sd_form sample_dialog = Some ((form_mount sample_normal (Finite 0))\<lparr>fm_workers := ''4''\<rparr>)" "sd_workers sample_dialog = Some (Finite 0)"
  "sd_open sample_dialog" "sd_calls sample_dialog = []" "sd_notices sample_dialog = []"
  by (simp_all add: sample_dialog_def with_form_def settings_open_def mount_form_def settings_closed_def setWorkers_def)

lemma count_4: "fm_workers f = ''4'' \<Longrightarrow> workerCount f = Finite 4"
  by (simp add: workerCount_def number_4 js_trim_def js_is_space_def)

lemma count_8: "fm_workers f = ''8'' \<Longrightarrow> workerCount f = Finite 8"
  by (simp add: workerCount_def number_8 js_trim_def js_is_space_def)

lemmas settings_run_defs = settings_submit_def settings_answered_def workers_answered_def save_succeeded_def with_form_def
  setWorkers_def initialWorkers_def workersValid_def valid_count_def js_same_def settings_close_def
  settings_notify_def form_mount_def coalesce_def save_failed_def

definition sample_sent :: SettingsDialog where
  "sample_sent = settings_answered (Inr sample_normal) (settings_submit sample_dialog)"

lemma sample_sent_calls: "sd_calls sample_sent = [CallSaveSettings sample_normal, CallSetUploadWorkers (Finite 4)]"
  by (simp add: sample_sent_def settings_run_defs Let_def sample_dialog_form count_4)

theorem upload_counts_accepted_witness:
  "\<exists>k :: int. Finite 4 = Finite (of_int k) \<and> 0 \<le> k \<and> k \<le> 64 \<and>
    settings_request (CallSetUploadWorkers (Finite 4)) = Some (Service_SetUploadWorkers k) \<and> SetUploadWorkers k = Inr k"
proof (rule upload_counts_accepted)
  show "settings_reach sample_sent"
    unfolding sample_sent_def by (intro settings_reach.answered settings_reach.submit sample_dialog_reach)
  show "CallSetUploadWorkers (Finite 4) \<in> set (sd_calls sample_sent)" by (simp add: sample_sent_calls)
qed

text \<open>The answer of the service to the settings of the form.\<close>

definition service_saves :: "(string \<Rightarrow> string) \<Rightarrow> SettingsDialog \<Rightarrow> SettingsDialog" where
  "service_saves quote d = (case sd_form d of
     None \<Rightarrow> d | Some f \<Rightarrow> settings_answered (normalizeSettings quote (fm_draft f)) (settings_submit d))"

text \<open>
  Saving, when nothing is typed meanwhile: settings that the service refuses leave the form as it was with
  the reason; otherwise the form and the cache hold what the service stored, and the dialog closes
  unless the count changed, which first needs a restart of the background service.
\<close>

theorem settings_saved_as_stored:
  assumes "sd_form d = Some f" "workersValid f" "fm_saving f = None"
  shows "case normalizeSettings quote (fm_draft f) of
      Inl err \<Rightarrow> sd_form (service_saves quote d) = Some (f\<lparr>fm_error := Some err\<rparr>) \<and> sd_settings (service_saves quote d) = sd_settings d \<and> sd_workers (service_saves quote d) = sd_workers d
    | Inr t \<Rightarrow>
        if js_same (workerCount f) (initialWorkers d)
        then sd_form (service_saves quote d) = None \<and> sd_settings (service_saves quote d) = Some t \<and> sd_notices (service_saves quote d) = sd_notices d @ [(''Settings saved'', Some ToneSuccess)]
        else (let g = workers_answered (Inr ()) (service_saves quote d)
              in sd_settings g = Some t \<and> sd_workers g = Some (workerCount f) \<and>
                 map_option fm_draft (sd_form g) = Some t \<and> map_option fm_restartHint (sd_form g) = Some True)"
proof -
  have [simp]: "workerCount (f\<lparr>fm_error := x, fm_saving := y\<rparr>) = workerCount f" for x y by (simp add: workerCount_def)
  have "f\<lparr>fm_saving := None\<rparr> = f" using assms(3) by simp
  then show ?thesis
    unfolding service_saves_def using assms(1-3)
    by (auto simp: settings_submit_def settings_answered_def workers_answered_def save_failed_def save_succeeded_def
        settings_close_def settings_notify_def with_form_def initialWorkers_def Let_def split: sum.split)
qed

theorem settings_saved_as_stored_witness:
  "map_option fm_draft (sd_form (workers_answered (Inr ()) (service_saves id sample_dialog))) = Some sample_normal"
proof -
  let ?f = "(form_mount sample_normal (Finite 0))\<lparr>fm_workers := ''4''\<rparr>"
  have f: "workersValid ?f" "fm_saving ?f = None" "fm_draft ?f = sample_normal" "\<not> js_same (workerCount ?f) (initialWorkers sample_dialog)"
    by (simp_all add: settings_run_defs count_4 sample_dialog_form)
  have "normalizeSettings id sample_normal = Inr sample_normal" by code_simp
  then show ?thesis
    using settings_saved_as_stored [OF sample_dialog_form(1) f(1,2), of id] f(3,4) by (simp add: Let_def)
qed

text \<open>
  A count typed while a save runs is shown as saved although it never reaches the service: the save that
  was sent reports success with the new count, and saving again finds nothing to change.
\<close>

definition sample_typed :: SettingsDialog where
  "sample_typed = settings_answered (Inr sample_normal) (settings_submit (workers_answered (Inr ())
     (with_form (setWorkers ''8'') sample_sent)))"

theorem count_typed_while_saving_lost:
  "settings_reach sample_typed \<and> sd_workers sample_typed = Some (Finite 8) \<and>
   sd_notices sample_typed = [(''Settings saved'', Some ToneSuccess)] \<and>
   sd_calls sample_typed =
     [CallSaveSettings sample_normal, CallSetUploadWorkers (Finite 4), CallSaveSettings sample_normal]"
proof
  show "settings_reach sample_typed"
    unfolding sample_typed_def sample_sent_def
    by (intro settings_reach.answered settings_reach.submit settings_reach.workers_set settings_reach.type_workers sample_dialog_reach)
qed (simp add: sample_typed_def sample_sent_def settings_run_defs Let_def sample_dialog_form count_4 count_8)

text \<open>
  When the settings are stored but the count is refused, the cache keeps the settings of before, and the
  dialog opened again shows them as if they were stored.
\<close>

theorem refused_count_shows_old_settings:
  assumes "sd_form d = Some f" "workersValid f" "fm_saving f = None" "sd_settings d = Some old" "sd_workers d = Some n"
    "\<not> js_same (workerCount f) n"
  shows "map_option fm_draft (sd_form (settings_open (settings_close (workers_answered (Inl err)
      (settings_answered (Inr stored) (settings_submit d)))))) = Some old"
proof -
  have [simp]: "workerCount (f\<lparr>fm_error := x, fm_saving := y\<rparr>) = workerCount f" for x y by (simp add: workerCount_def)
  show ?thesis
    using assms
    by (simp add: settings_submit_def settings_answered_def workers_answered_def save_failed_def settings_close_def
        settings_open_def mount_form_def with_form_def initialWorkers_def coalesce_def form_mount_def)
qed

theorem refused_count_shows_old_settings_witness:
  "map_option fm_draft (sd_form (settings_open (settings_close (workers_answered (Inl ''disk full'')
      (settings_answered (Inr sample_settings) (settings_submit sample_dialog)))))) = Some sample_normal"
proof (rule refused_count_shows_old_settings [OF sample_dialog_form(1) _ _ _ sample_dialog_form(2)])
  show "sd_settings sample_dialog = Some sample_normal"
    by (simp add: sample_dialog_def with_form_def settings_open_def mount_form_def settings_closed_def)
qed (simp_all add: settings_run_defs count_4)

section \<open>Editing the rules\<close>

inductive ignore_reach :: "IgnoreEditor \<Rightarrow> bool" where
  mount: "ignore_reach (ignore_mount r)"
| data: "ignore_reach e \<Longrightarrow> ignore_reach (ignore_data x e)"
| edit: "ignore_reach e \<Longrightarrow> ignore_reach (ignore_edit patch e)"
| save: "ignore_reach e \<Longrightarrow> ignore_reach (ignore_save e)"
| settled: "ignore_reach e \<Longrightarrow> ignore_reach (ignore_settled r e)"

definition rules_a :: IgnoreRules where "rules_a = \<lparr>ig_shared = [], ig_local = []\<rparr>"

text \<open>
  Text typed into the rules while they are saved is thrown away: the answer puts the saved text back into
  the fields, and nothing is left to save.
\<close>

theorem rules_typed_while_saving_lost:
  "\<exists>e. ignore_reach e \<and> map_option ig_shared (ie_draft e) = Some ''*.tmp Build/'' \<and>
     map_option ig_shared (ie_draft (ignore_settled (Inr ()) e)) = Some ''*.tmp'' \<and> \<not> ignore_dirty (ignore_settled (Inr ()) e)"
proof -
  define e where "e = ignore_edit (\<lambda>x. x\<lparr>ig_shared := ''*.tmp Build/''\<rparr>)
    (ignore_save (ignore_edit (\<lambda>x. x\<lparr>ig_shared := ''*.tmp''\<rparr>) (ignore_data rules_a (ignore_mount ''/w''))))"
  have "ignore_reach e" unfolding e_def by (intro ignore_reach.intros)
  moreover have "map_option ig_shared (ie_draft e) = Some ''*.tmp Build/''"
    "map_option ig_shared (ie_draft (ignore_settled (Inr ()) e)) = Some ''*.tmp''" "\<not> ignore_dirty (ignore_settled (Inr ()) e)"
    by (simp_all add: e_def ignore_settled_def ignore_save_def ignore_edit_def ignore_data_def ignore_mount_def ignore_dirty_def
        rules_a_def Let_def)
  ultimately show ?thesis by blast
qed

end
