(* ===== verification/Web_Format.thy ===== *)
theory Web_Format
  imports Js_Date Diff_Rows
begin

text \<open>
  The texts the web client derives from times, sizes and file names: \<open>components/repo/format.ts\<close>, \<open>language.ts\<close> and
  \<open>fileIcon.tsx\<close>. The locale's \<open>Intl.RelativeTimeFormat\<close> and \<open>toLocaleString\<close> are parameters; times are milliseconds.
\<close>

section \<open>Times\<close>

definition UNITS :: "(string \<times> int) list" where
  "UNITS = [(''year'', 365 * 24 * 60 * 60), (''month'', 30 * 24 * 60 * 60), (''week'', 7 * 24 * 60 * 60), (''day'', 24 * 60 * 60),
    (''hour'', 60 * 60), (''minute'', 60), (''second'', 1)]"

text \<open>The loop over the units: \<open>ms\<close> is the distance to now, negative for the past.\<close>

primrec pick_unit :: "(int \<Rightarrow> string \<Rightarrow> string) \<Rightarrow> int \<Rightarrow> (string \<times> int) list \<Rightarrow> string" where
  "pick_unit fmt ms [] = []"
| "pick_unit fmt ms (u # us) =
     (if \<bar>ms\<bar> \<ge> 1000 * snd u \<or> fst u = ''second'' then fmt (js_round_div ms (1000 * snd u)) (fst u) else pick_unit fmt ms us)"

definition relativeTime :: "(int \<Rightarrow> string \<Rightarrow> string) \<Rightarrow> int \<Rightarrow> string option \<Rightarrow> string" where
  "relativeTime fmt now date = (case date of
     None \<Rightarrow> []
   | Some s \<Rightarrow> if s = [] then [] else (case js_date s of None \<Rightarrow> [] | Some t \<Rightarrow> pick_unit fmt (t - now) UNITS))"

definition absoluteTime :: "(int \<Rightarrow> string) \<Rightarrow> string option \<Rightarrow> string" where
  "absoluteTime toLocaleString date = (case date of
     None \<Rightarrow> []
   | Some s \<Rightarrow> if s = [] then [] else (case js_date s of None \<Rightarrow> [] | Some t \<Rightarrow> toLocaleString t))"

section \<open>Sizes\<close>

definition web_byte_units :: "string list" where
  "web_byte_units = [''KiB'', ''MiB'', ''GiB'', ''TiB'']"

text \<open>
  The rounded value in tenths, and how JavaScript prints it. The loop that scales the value is that of the desktop
  client, \<open>scale_bytes\<close>, which returns the divisor and the unit.
\<close>

definition rounded_tenths :: "int \<Rightarrow> int \<Rightarrow> int" where
  "rounded_tenths n d = (if n \<ge> 10 * d then 10 * js_round_div n d else js_round_div (10 * n) d)"

definition show_tenths :: "int \<Rightarrow> string" where
  "show_tenths t = js_show_int (t div 10) @ (if t mod 10 = 0 then [] else CHR ''.'' # js_show_int (t mod 10))"

definition web_formatBytes :: "int option \<Rightarrow> string" where
  "web_formatBytes bytes = (case bytes of
     None \<Rightarrow> []
   | Some n \<Rightarrow>
       if n < 0 then []
       else if n < 1024 then js_show_int n @ '' B''
       else (case scale_bytes (nat n) 1024 0 of
         (d, u) \<Rightarrow> show_tenths (rounded_tenths n (int d)) @ '' '' @ web_byte_units ! u))"

section \<open>Languages and icons\<close>

definition EXTENSIONS :: "(string \<times> string) list" where
  "EXTENSIONS =
    [(''c'', ''c''), (''cc'', ''cpp''), (''cjs'', ''javascript''), (''coffee'', ''coffeescript''), (''cpp'', ''cpp''),
     (''cs'', ''clike''), (''css'', ''css''), (''cxx'', ''cpp''), (''gql'', ''graphql''), (''go'', ''go''), (''graphql'', ''graphql''),
     (''h'', ''c''), (''hh'', ''cpp''), (''hpp'', ''cpp''), (''htm'', ''markup''), (''html'', ''markup''), (''java'', ''clike''),
     (''js'', ''javascript''), (''json'', ''json''), (''jsonc'', ''json''), (''jsx'', ''jsx''), (''kt'', ''kotlin''),
     (''kts'', ''kotlin''), (''less'', ''css''), (''m'', ''objectivec''), (''markdown'', ''markdown''), (''md'', ''markdown''),
     (''mjs'', ''javascript''), (''mm'', ''objectivec''), (''mts'', ''typescript''), (''py'', ''python''), (''rs'', ''rust''),
     (''sass'', ''css''), (''scss'', ''css''), (''sql'', ''sql''), (''svg'', ''markup''), (''swift'', ''swift''),
     (''ts'', ''typescript''), (''tsx'', ''tsx''), (''vue'', ''markup''), (''webmanifest'', ''json''), (''xml'', ''markup''),
     (''yaml'', ''yaml''), (''yml'', ''yaml'')]"

text \<open>
  The table is a plain object, so that a property of \<open>Object.prototype\<close> is found as well; only those in lower case
  can be asked for.
\<close>

datatype Language = Language string | Inherited string

definition languageFor :: "string \<Rightarrow> Language" where
  "languageFor path =
     (let name = last (js_split (CHR ''/'') path) in
      case js_lastIndexOf name (CHR ''.'') of
        None \<Rightarrow> Language ''plain''
      | Some dot \<Rightarrow>
          (let ext = js_toLowerCase (drop (dot + 1) name) in
           case map_of EXTENSIONS ext of
             Some l \<Rightarrow> Language l
           | None \<Rightarrow> if ext \<in> set js_inherited then Inherited ext else Language ''plain''))"

datatype FileIcon = FileDirectoryFillIcon | BookIcon | TerminalIcon | PackageIcon | FileMediaIcon | VideoIcon | FileZipIcon |
  TableIcon | DatabaseIcon | GlobeIcon | FileCodeIcon | FileBinaryIcon | PlainFileIcon

definition icon_CODE :: "string list" where
  "icon_CODE =
    [''c'', ''cc'', ''clj'', ''cpp'', ''cs'', ''cxx'', ''dart'', ''erl'', ''ex'', ''exs'', ''go'', ''groovy'', ''h'', ''hh'', ''hpp'',
     ''hs'', ''java'', ''js'', ''jsx'', ''kt'', ''kts'', ''lua'', ''m'', ''mm'', ''php'', ''pl'', ''pm'', ''proto'', ''py'', ''r'',
     ''rb'', ''rs'', ''scala'', ''sol'', ''swift'', ''ts'', ''tsx'', ''vala'', ''zig'']"

definition icon_MARKUP :: "string list" where "icon_MARKUP = [''htm'', ''html'', ''vue'', ''svelte'']"

definition icon_DATA :: "string list" where "icon_DATA = [''ini'', ''json'', ''jsonc'', ''sql'', ''toml'', ''yaml'', ''yml'']"

definition icon_IMAGE :: "string list" where
  "icon_IMAGE = [''avif'', ''bmp'', ''gif'', ''ico'', ''jpeg'', ''jpg'', ''png'', ''psd'', ''svg'', ''tif'', ''tiff'', ''webp'']"

definition icon_VIDEO :: "string list" where
  "icon_VIDEO = [''avi'', ''flv'', ''m4v'', ''mkv'', ''mov'', ''mp4'', ''webm'', ''wmv'']"

definition icon_AUDIO :: "string list" where
  "icon_AUDIO = [''aac'', ''flac'', ''m4a'', ''mp3'', ''ogg'', ''wav'', ''wma'']"

definition icon_ARCHIVE :: "string list" where
  "icon_ARCHIVE = [''7z'', ''bz2'', ''gz'', ''lz4'', ''rar'', ''tar'', ''tgz'', ''xz'', ''zip'', ''zst'']"

definition icon_BINARY :: "string list" where
  "icon_BINARY = [''a'', ''bin'', ''class'', ''dat'', ''dll'', ''dylib'', ''exe'', ''lib'', ''o'', ''obj'', ''pak'', ''pdb'', ''pyc'', ''so'', ''wasm'']"

definition icon_SHELL :: "string list" where
  "icon_SHELL = [''bash'', ''bat'', ''cmd'', ''fish'', ''ps1'', ''sh'', ''zsh'']"

definition icon_TABLE :: "string list" where "icon_TABLE = [''csv'', ''tsv'', ''xls'', ''xlsx'']"

definition icon_PACKAGE :: "string list" where "icon_PACKAGE = [''lock'', ''sum'']"

definition lower_ext :: "string \<Rightarrow> string" where
  "lower_ext lower = (case js_lastIndexOf lower (CHR ''.'') of Some dot \<Rightarrow> drop (dot + 1) lower | None \<Rightarrow> [])"

definition fileIcon :: "string \<Rightarrow> bool \<Rightarrow> FileIcon \<times> string" where
  "fileIcon name tree =
     (if tree then (FileDirectoryFillIcon, ''accent'')
      else let lower = js_toLowerCase name; ext = lower_ext lower in
        if js_startsWith lower ''readme'' then (BookIcon, ''accent'')
        else if lower = ''dockerfile'' \<or> lower = ''makefile'' \<or> ext \<in> set icon_SHELL then (TerminalIcon, ''muted'')
        else if lower = ''package.json'' \<or> js_endsWith lower ''.lock'' \<or> ext \<in> set icon_PACKAGE then (PackageIcon, ''attention'')
        else if ext \<in> set icon_IMAGE then (FileMediaIcon, ''done'')
        else if ext \<in> set icon_VIDEO then (VideoIcon, ''done'')
        else if ext \<in> set icon_AUDIO then (FileMediaIcon, ''done'')
        else if ext \<in> set icon_ARCHIVE then (FileZipIcon, ''attention'')
        else if ext \<in> set icon_TABLE then (TableIcon, ''success'')
        else if ext \<in> set icon_DATA then (DatabaseIcon, ''success'')
        else if ext \<in> set icon_MARKUP then (GlobeIcon, ''attention'')
        else if ext \<in> set icon_CODE then (FileCodeIcon, ''muted'')
        else if ext \<in> set icon_BINARY then (FileBinaryIcon, ''danger'')
        else (PlainFileIcon, ''muted''))"

section \<open>What the texts say\<close>

text \<open>The loop stops at the first unit that fits, or at seconds.\<close>

lemma pick_unit_split:
  assumes "\<exists>u \<in> set us. fst u = ''second''"
  shows "\<exists>pre u post. us = pre @ u # post \<and> (\<forall>v \<in> set pre. \<bar>ms\<bar> < 1000 * snd v) \<and>
    (1000 * snd u \<le> \<bar>ms\<bar> \<or> fst u = ''second'') \<and> pick_unit fmt ms us = fmt (js_round_div ms (1000 * snd u)) (fst u)"
  using assms
proof (induction us)
  case (Cons v us)
  show ?case
  proof (cases "\<bar>ms\<bar> \<ge> 1000 * snd v \<or> fst v = ''second''")
    case True
    then show ?thesis by (intro exI [of _ "[]"] exI [of _ v] exI [of _ us]) auto
  next
    case False
    with Cons.prems obtain pre u post where "us = pre @ u # post" "\<forall>w \<in> set pre. \<bar>ms\<bar> < 1000 * snd w"
      "1000 * snd u \<le> \<bar>ms\<bar> \<or> fst u = ''second''" "pick_unit fmt ms us = fmt (js_round_div ms (1000 * snd u)) (fst u)"
      using Cons.IH by auto
    with False show ?thesis by (intro exI [of _ "v # pre"] exI [of _ u] exI [of _ post]) auto
  qed
qed simp

lemma UNITS_positive: "u \<in> set UNITS \<Longrightarrow> 0 < snd u"
  by (auto simp: UNITS_def)

text \<open>
  A relative time names the largest unit that the distance reaches, with the number of units that is nearest
  to the distance.
\<close>

theorem relative_time_nearest:
  assumes "js_date s = Some t" and "s \<noteq> []"
  shows "\<exists>pre name size post k. UNITS = pre @ (name, size) # post \<and>
    relativeTime fmt now (Some s) = fmt k name \<and>
    (\<forall>u \<in> set pre. \<bar>t - now\<bar> < 1000 * snd u) \<and> (1000 * size \<le> \<bar>t - now\<bar> \<or> name = ''second'') \<and>
    2 * \<bar>t - now - 1000 * size * k\<bar> \<le> 1000 * size"
proof -
  have "\<exists>u \<in> set UNITS. fst u = ''second''" by (simp add: UNITS_def)
  from pick_unit_split [OF this, of "t - now" fmt] obtain pre u post where u: "UNITS = pre @ u # post"
    "\<forall>v \<in> set pre. \<bar>t - now\<bar> < 1000 * snd v" "1000 * snd u \<le> \<bar>t - now\<bar> \<or> fst u = ''second''"
    "pick_unit fmt (t - now) UNITS = fmt (js_round_div (t - now) (1000 * snd u)) (fst u)" by blast
  have "u \<in> set UNITS" unfolding u(1) by simp
  then have "0 < 1000 * snd u" using UNITS_positive by simp
  from u js_round_div_near [OF this, of "t - now"] show ?thesis
    by (intro exI [of _ pre] exI [of _ "fst u"] exI [of _ "snd u"] exI [of _ post] exI [of _ "js_round_div (t - now) (1000 * snd u)"])
      (simp add: relativeTime_def assms)
qed

theorem relative_time_nearest_witness:
  "\<exists>pre name size post k. UNITS = pre @ (name, size) # post \<and>
    relativeTime (\<lambda>k u. js_show_int k @ '' '' @ u) 7500000 (Some ''1970-01-01T00:00:00Z'') = js_show_int k @ '' '' @ name \<and>
    (\<forall>u \<in> set pre. \<bar>0 - 7500000\<bar> < 1000 * snd u) \<and> (1000 * size \<le> \<bar>0 - 7500000\<bar> \<or> name = ''second'') \<and>
    2 * \<bar>0 - 7500000 - 1000 * size * k\<bar> \<le> 1000 * size"
  by (rule relative_time_nearest) (code_simp, simp)

text \<open>
  A size is shown in the unit that it reaches, within five percent of its value.
\<close>

theorem web_size_within_five_percent:
  assumes "1024 \<le> n"
  shows "\<exists>t u. web_formatBytes (Some n) = show_tenths t @ '' '' @ web_byte_units ! u \<and> u < length web_byte_units \<and>
    1024 ^ Suc u \<le> n \<and> (Suc u < length web_byte_units \<longrightarrow> n < 1024 * 1024 ^ Suc u) \<and>
    20 * \<bar>t * 1024 ^ Suc u - 10 * n\<bar> \<le> 10 * n"
proof -
  obtain d u where du: "scale_bytes (nat n) 1024 0 = (d, u)" by fastforce
  have n: "1024 \<le> nat n" "n = int (nat n)" using assms by simp_all
  have *: "d = 1024 ^ Suc u \<and> d \<le> nat n \<and> u \<le> 3 \<and> (u < 3 \<longrightarrow> nat n < 1024 * d)"
    by (rule scale_bytes_result [OF du _ n(1)]) simp_all
  have d: "int d = 1024 ^ Suc u" by (simp add: *)
  have le: "int d \<le> n" and u: "u \<le> 3" and up: "u < 3 \<longrightarrow> n < 1024 * int d" using * n(2) by linarith+
  have pos: "0 < int d" by (simp add: d)
  have "20 * \<bar>rounded_tenths n (int d) * int d - 10 * n\<bar> \<le> 10 * n"
  proof (cases "n \<ge> 10 * int d")
    case True
    have "rounded_tenths n (int d) * int d - 10 * n = - (10 * (n - int d * js_round_div n (int d)))"
      using True by (simp add: rounded_tenths_def)
    then have "\<bar>rounded_tenths n (int d) * int d - 10 * n\<bar> = 10 * \<bar>n - int d * js_round_div n (int d)\<bar>"
      by (simp only: abs_minus_cancel abs_mult)
    moreover have "20 * a \<le> 10 * n" if "a = 10 * e" "2 * e \<le> int d" for a e :: int
      using that True by linarith
    ultimately show ?thesis using js_round_div_near [OF pos, of n] by blast
  next
    case False
    have "rounded_tenths n (int d) * int d - 10 * n = - (10 * n - int d * js_round_div (10 * n) (int d))"
      using False by (simp add: rounded_tenths_def)
    then have "\<bar>rounded_tenths n (int d) * int d - 10 * n\<bar> = \<bar>10 * n - int d * js_round_div (10 * n) (int d)\<bar>"
      by (simp only: abs_minus_cancel)
    moreover have "20 * a \<le> 10 * n" if "a = e" "2 * e \<le> int d" for a e :: int
      using that le by linarith
    ultimately show ?thesis using js_round_div_near [OF pos, of "10 * n"] by blast
  qed
  with assms du d le u up show ?thesis
    by (intro exI [of _ "rounded_tenths n (int d)"] exI [of _ u]) (auto simp: web_formatBytes_def web_byte_units_def)
qed

theorem web_size_within_five_percent_witness:
  "(\<exists>t u. web_formatBytes (Some 1536) = show_tenths t @ '' '' @ web_byte_units ! u \<and> u < length web_byte_units \<and>
    1024 ^ Suc u \<le> (1536 :: int) \<and> (Suc u < length web_byte_units \<longrightarrow> (1536 :: int) < 1024 * 1024 ^ Suc u) \<and>
    20 * \<bar>t * 1024 ^ Suc u - 10 * 1536\<bar> \<le> 10 * 1536) \<and>
   web_formatBytes (Some 1536) = ''1.5 KiB''"
proof
  show "web_formatBytes (Some 1536) = ''1.5 KiB''"
    by (simp add: web_formatBytes_def scale_bytes.simps rounded_tenths_def show_tenths_def web_byte_units_def js_defs)
qed (rule web_size_within_five_percent, simp)

text \<open>
  Because the table of languages is a plain object, a file whose name ends in \<open>.constructor\<close> gets a property of
  \<open>Object.prototype\<close> instead of a language name, although no entry of the table has that extension.
\<close>

theorem inherited_language:
  "languageFor ''lib/x.constructor'' = Inherited ''constructor'' \<and> ''constructor'' \<notin> fst ` set EXTENSIONS"
  by (simp add: languageFor_def js_lastIndexOf_def EXTENSIONS_def js_inherited_def js_defs)

end
