(* ===== verification/Repo_Browser.thy ===== *)
theory Repo_Browser
  imports Mr_Page Js_Number Web_Format
begin

text \<open>
  The repository browser of the web client: the tree and file pages (\<open>RepoPage.tsx\<close>, \<open>BlobPage.tsx\<close>, \<open>RepoTree.tsx\<close>,
  \<open>RepoBreadcrumb.tsx\<close>, \<open>RepoNav.tsx\<close>, \<open>BranchSelector.tsx\<close>, \<open>GoToFileDialog.tsx\<close>, \<open>useTags.ts\<close>, \<open>FileLockButton.tsx\<close>), the
  pages that compare revisions and create branches and merge requests (\<open>ComparePage.tsx\<close>, \<open>NewBranchPage.tsx\<close>,
  \<open>NewMergeRequestPage.tsx\<close>) and the billing page (\<open>BillingPage.tsx\<close>). Of the server, the check of a branch name and
  the search for a lock that covers a path are modelled, because the client repeats them.
\<close>

section \<open>Directories\<close>

record TreeEntryResponse =
  te_name :: string
  te_path :: string
  te_tree :: bool
  te_last_commit :: "CommitResponse option"

record TreeResponse =
  tt_entries :: "TreeEntryResponse list"
  tt_latest_commit :: "CommitResponse option"

text \<open>\<open>/^readme(\.[a-z]+)?$/i\<close> and \<open>/\.(md|markdown)$/i\<close>.\<close>

definition is_letter :: "char \<Rightarrow> bool" where
  "is_letter c \<longleftrightarrow> (let n = of_char c :: nat in 97 \<le> n \<and> n \<le> 122)"

definition readme_name :: "string \<Rightarrow> bool" where
  "readme_name name =
     (let s = js_toLowerCase name in
      take 6 s = ''readme'' \<and> (case drop 6 s of [] \<Rightarrow> True | c # ext \<Rightarrow> c = CHR ''.'' \<and> ext \<noteq> [] \<and> list_all is_letter ext))"

definition markdown_name :: "string \<Rightarrow> bool" where
  "markdown_name name \<longleftrightarrow> js_endsWith (js_toLowerCase name) ''.md'' \<or> js_endsWith (js_toLowerCase name) ''.markdown''"

definition readme_candidates :: "TreeEntryResponse list \<Rightarrow> TreeEntryResponse list" where
  "readme_candidates items = filter (\<lambda>e. \<not> te_tree e \<and> readme_name (te_name e)) items"

definition findReadme :: "TreeEntryResponse list \<Rightarrow> TreeEntryResponse option" where
  "findReadme items =
     (let cs = readme_candidates items in
      if cs = [] then None
      else case find (\<lambda>e. js_toLowerCase (te_name e) = ''readme.md'') cs of
        Some e \<Rightarrow> Some e
      | None \<Rightarrow> (case find (\<lambda>e. markdown_name (te_name e)) cs of Some e \<Rightarrow> Some e | None \<Rightarrow> Some (hd cs)))"

text \<open>The address: revision and rest of the path from the route, or both from the query of an old link.\<close>

record PageAddress =
  ra_rev :: "string option"
  ra_splat :: "string option"
  ra_query_rev :: "string option"
  ra_query_path :: "string option"

definition or_string :: "string \<Rightarrow> string \<Rightarrow> string" where
  "or_string a b = (if a \<noteq> [] then a else b)"

definition address_path :: "PageAddress \<Rightarrow> string" where
  "address_path a = or_string (coalesce (ra_splat a) []) (coalesce (ra_query_path a) [])"

definition address_rev :: "PageAddress \<Rightarrow> string" where
  "address_rev a = or_string (coalesce (ra_rev a) []) (coalesce (ra_query_rev a) [])"

definition legacy_redirect :: "(string \<Rightarrow> string \<Rightarrow> string \<Rightarrow> string \<Rightarrow> string) \<Rightarrow> string \<Rightarrow> string \<Rightarrow> PageAddress \<Rightarrow> string option" where
  "legacy_redirect url org project a =
     (if coalesce (ra_query_rev a) [] \<noteq> [] then Some (url org project (coalesce (ra_query_rev a) []) (address_path a)) else None)"

definition tree_call :: "string \<Rightarrow> string \<Rightarrow> PageAddress \<Rightarrow> bool \<Rightarrow> ApiCall option" where
  "tree_call org project a skipTree =
     (if skipTree then None else Some (getTree org project (address_rev a) (address_path a) True False))"

definition linkRev :: "PageAddress \<Rightarrow> string \<Rightarrow> string" where
  "linkRev a defaultBranch = or_string (address_rev a) defaultBranch"

definition currentBranch :: "BranchResponse list option \<Rightarrow> string \<Rightarrow> BranchResponse option" where
  "currentBranch branches revn =
     find (\<lambda>b. if revn \<noteq> [] then br_name b = revn else br_is_default b) (coalesce branches [])"

text \<open>Rows of a directory: where the name links to, the last commit and the items of the menu.\<close>

record TreeRow =
  tw_icon :: "FileIcon \<times> string"
  tw_name :: string
  tw_target :: string
  tw_commit :: "(string \<times> string) option"
  tw_menu :: "(string \<times> string) list"

definition TreeRow_of :: "string \<Rightarrow> string \<Rightarrow> string \<Rightarrow> TreeEntryResponse \<Rightarrow> TreeRow" where
  "TreeRow_of org project revn e =
     \<lparr>tw_icon = fileIcon (te_name e) (te_tree e), tw_name = te_name e,
      tw_target = (if te_tree e then treeUrl org project revn (te_path e) else blobUrl org project revn (te_path e)),
      tw_commit = map_option (\<lambda>c. (commitUrl org project (CommitResponse.cm_id c) revn, web_commitTitle (cm_message c))) (te_last_commit e),
      tw_menu = (if te_tree e then [] else [(''View file'', blobUrl org project revn (te_path e))]) @
        [(''History'', commitsUrl org project revn (te_path e))]\<rparr>"

definition RepoTree :: "string \<Rightarrow> string \<Rightarrow> string \<Rightarrow> TreeEntryResponse list \<Rightarrow> TreeRow list" where
  "RepoTree org project revn items = map (TreeRow_of org project revn) items"

definition CommitBar :: "string \<Rightarrow> string \<Rightarrow> string \<Rightarrow> string \<Rightarrow> CommitResponse \<Rightarrow> string \<times> string \<times> string" where
  "CommitBar org project revn path c =
     (or_string (coalesce (cm_author_name c) []) (or_string (coalesce (cm_author_email c) []) ''unknown''),
      web_commitTitle (cm_message c), commitsUrl org project revn path)"

text \<open>What the page shows below the branch and the path, from the state of its load.\<close>

record RepoBody =
  rb_error :: "string option"
  rb_loading :: bool
  rb_empty :: "string list"
  rb_rows :: "TreeRow list"
  rb_bar :: "(string \<times> string \<times> string) option"
  rb_readme :: "TreeEntryResponse option"

definition RepoPage :: "string \<Rightarrow> string \<Rightarrow> PageAddress \<Rightarrow> BranchResponse list option \<Rightarrow> string \<Rightarrow> bool \<Rightarrow>
    TreeResponse option \<times> string option \<times> bool \<Rightarrow> RepoBody" where
  "RepoPage org project a branches defaultBranch emptyProject load = (case load of (tree, err, loading) \<Rightarrow>
     (let link = linkRev a defaultBranch;
          emptyRepo = (case currentBranch branches (address_rev a) of None \<Rightarrow> False | Some b \<Rightarrow> \<not> truthy (br_commit_id b));
          shown = (if loading then None else tree) in
      \<lparr>rb_error = (if emptyProject then None else err), rb_loading = loading,
       rb_empty = (if emptyProject then [''This repository is empty. Push your first commit to get started.''] else []) @
         (case shown of
            Some t \<Rightarrow> if tt_entries t = []
              then [if emptyRepo then ''This branch has no commits yet.'' else ''This directory is empty.''] else []
          | None \<Rightarrow> []),
       rb_rows = (case shown of Some t \<Rightarrow> RepoTree org project link (tt_entries t) | None \<Rightarrow> []),
       rb_bar = (case shown of
          Some t \<Rightarrow> if tt_entries t = [] then None else map_option (CommitBar org project link (address_path a)) (tt_latest_commit t)
        | None \<Rightarrow> None),
       rb_readme = Option.bind tree (\<lambda>t. findReadme (tt_entries t))\<rparr>))"

section \<open>Path and tabs\<close>

definition RepoBreadcrumb :: "string \<Rightarrow> string \<Rightarrow> string \<Rightarrow> string \<Rightarrow> bool \<Rightarrow> (string \<times> string option) list" where
  "RepoBreadcrumb org project revn path leafIsFile =
     (let segments = path_segments path; n = length segments in
      [(org, Some (''/'' @ encodeURIComponent org)), (project, Some (treeUrl org project revn []))] @
      map (\<lambda>(i, s). (s, if i = n - 1 \<and> leafIsFile then None
                        else Some (treeUrl org project revn (js_join ''/'' (take (i + 1) segments)))))
        (enumerate 0 segments))"

datatype RepoTab = TabCode | TabCommits | TabBranches | TabTags | TabMerges | TabLocks | TabSettings

definition RepoNav :: "string \<Rightarrow> string \<Rightarrow> string \<Rightarrow> bool \<Rightarrow> (RepoTab \<times> string) list" where
  "RepoNav org project revn canAdmin =
     [(TabCode, treeUrl org project revn []), (TabCommits, commitsUrl org project revn []),
      (TabBranches, repoUrl org project @ ''/branches''), (TabTags, repoUrl org project @ ''/tags''),
      (TabMerges, repoUrl org project @ ''/merges''), (TabLocks, repoUrl org project @ ''/locks'')] @
     (if canAdmin then [(TabSettings, repoUrl org project @ ''/settings'')] else [])"

section \<open>Choosing a branch or a tag\<close>

record BranchSelector =
  bs_query :: string
  bs_tagsMode :: bool

definition selector_init :: BranchSelector where
  "selector_init = \<lparr>bs_query = [], bs_tagsMode = False\<rparr>"

definition selector_query :: "string \<Rightarrow> BranchSelector \<Rightarrow> BranchSelector" where
  "selector_query q s = s\<lparr>bs_query := q\<rparr>"

definition selector_mode :: "bool \<Rightarrow> BranchSelector \<Rightarrow> BranchSelector" where
  "selector_mode tags s = s\<lparr>bs_tagsMode := tags\<rparr>"

definition selector_openChange :: "bool \<Rightarrow> BranchSelector \<Rightarrow> BranchSelector" where
  "selector_openChange opened s = (if opened then s else s\<lparr>bs_query := []\<rparr>)"

text \<open>\<open>tags\<close> is \<open>None\<close> when the selector has no tags, and \<open>Some None\<close> while they are loaded.\<close>

definition currentTag :: "TagResponse list option option \<Rightarrow> string \<Rightarrow> TagResponse option" where
  "currentTag tags revn = (case tags of
     Some (Some ts) \<Rightarrow> find (\<lambda>t. TagResponse.tg_commit_id t = revn) ts | _ \<Rightarrow> None)"

definition selector_current ::
  "BranchResponse list option \<Rightarrow> string \<Rightarrow> string \<Rightarrow> TagResponse list option option \<Rightarrow> string" where
  "selector_current branches revn placeholder tags =
     or_string (case currentTag tags revn of Some t \<Rightarrow> TagResponse.tg_name t | None \<Rightarrow> [])
       (or_string revn (or_string placeholder
         (or_string (case find br_is_default (coalesce branches []) of Some b \<Rightarrow> br_name b | None \<Rightarrow> []) ''default branch'')))"

definition name_matches :: "string \<Rightarrow> string \<Rightarrow> bool" where
  "name_matches query name =
     (let needle = js_toLowerCase (js_trim query) in needle = [] \<or> js_includes (js_toLowerCase name) needle)"

datatype SelectorItem = SelectorText string | SelectorBranch string bool | SelectorTag string string bool

definition selector_items ::
  "BranchResponse list option \<Rightarrow> string \<Rightarrow> string \<Rightarrow> TagResponse list option option \<Rightarrow> BranchSelector \<Rightarrow> SelectorItem list" where
  "selector_items branches revn placeholder tags s =
     (if tags \<noteq> None \<and> bs_tagsMode s then
        (case coalesce tags None of
           None \<Rightarrow> [SelectorText (''Loading tags'' @ [CHR 0xE2, CHR 0x80, CHR 0xA6])]
         | Some ts \<Rightarrow>
             (let shown = filter (\<lambda>t. name_matches (bs_query s) (TagResponse.tg_name t)) ts in
              if shown = [] then [SelectorText ''No tags found'']
              else map (\<lambda>t. SelectorTag (TagResponse.tg_name t) (TagResponse.tg_commit_id t) (TagResponse.tg_commit_id t = revn)) shown))
      else
        (let shown = filter (\<lambda>b. name_matches (bs_query s) (br_name b)) (coalesce branches []) in
         if shown = [] then [SelectorText ''No branches found'']
         else map (\<lambda>b. SelectorBranch (br_name b) (br_name b = selector_current branches revn placeholder tags)) shown))"

text \<open>\<open>useTags\<close>: loaded once for each project, when the menu is opened first.\<close>

record TagsHook =
  th_project :: "string \<times> string"
  th_tags :: "TagResponse list option"
  th_started :: bool
  th_scope :: nat
  th_flights :: "(nat \<times> (string \<times> string)) list"

definition tags_mount :: "string \<times> string \<Rightarrow> TagsHook" where
  "tags_mount p = \<lparr>th_project = p, th_tags = None, th_started = False, th_scope = 1, th_flights = []\<rparr>"

definition tags_render :: "string \<times> string \<Rightarrow> TagsHook \<Rightarrow> TagsHook" where
  "tags_render p h =
     (if p = th_project h then h
      else h\<lparr>th_project := p, th_scope := th_scope h + 1, th_started := False, th_tags := None\<rparr>)"

definition tags_load :: "TagsHook \<Rightarrow> TagsHook" where
  "tags_load h =
     (if th_started h then h
      else h\<lparr>th_started := True, th_flights := th_flights h @ [(th_scope h, th_project h)]\<rparr>)"

definition tags_request :: "string \<times> string \<Rightarrow> ApiCall" where
  "tags_request p = listTags (fst p) (snd p) (Some 100) None"

definition tags_settled :: "nat \<times> (string \<times> string) \<Rightarrow> TagResponse list outcome \<Rightarrow> TagsHook \<Rightarrow> TagsHook" where
  "tags_settled f r h =
     (let g = h\<lparr>th_flights := remove1 f (th_flights h)\<rparr> in
      if th_scope h \<noteq> fst f then g
      else case r of Inr ts \<Rightarrow> g\<lparr>th_tags := Some ts\<rparr> | Inl _ \<Rightarrow> g\<lparr>th_started := False, th_tags := Some []\<rparr>)"

section \<open>Going to a file\<close>

definition MAX_RESULTS :: nat where "MAX_RESULTS = 100"

definition goto_files :: "TreeEntryResponse list \<Rightarrow> string \<Rightarrow> TreeEntryResponse list" where
  "goto_files files query =
     (let needle = js_toLowerCase (js_trim query) in
      if needle = [] then take MAX_RESULTS files
      else take MAX_RESULTS (filter (\<lambda>f. js_includes (js_toLowerCase (te_path f)) needle) files))"

definition goto_call :: "string \<Rightarrow> string \<Rightarrow> string \<Rightarrow> string \<Rightarrow> bool \<Rightarrow> ApiCall option" where
  "goto_call org project revn path opened = (if opened then Some (getTree org project revn path False True) else None)"

section \<open>A file\<close>

definition IMAGE_EXTENSIONS :: "string list" where
  "IMAGE_EXTENSIONS = [''avif'', ''bmp'', ''gif'', ''ico'', ''jpeg'', ''jpg'', ''png'', ''webp'']"

definition web_isImagePath :: "string \<Rightarrow> bool" where
  "web_isImagePath path = (case js_lastIndexOf path (CHR ''.'') of
     None \<Rightarrow> False | Some dot \<Rightarrow> js_toLowerCase (drop (dot + 1) path) \<in> set IMAGE_EXTENSIONS)"

definition countLines :: "string \<Rightarrow> nat" where
  "countLines t =
     (if t = [] then 0
      else let trimmed = (if js_endsWith t [js_nl] then take (length t - 1) t else t)
           in length (js_split js_nl trimmed))"

definition blob_name :: "string \<Rightarrow> string" where
  "blob_name path = or_string (last (js_split (CHR ''/'') path)) path"

text \<open>The lines that \<open>CodeView\<close> numbers.\<close>

definition CodeView_lines :: "string \<Rightarrow> (nat \<times> string) list" where
  "CodeView_lines code =
     (let trimmed = (if js_endsWith code [js_nl] then take (length code - 1) code else code)
      in enumerate 1 (js_split js_nl trimmed))"

text \<open>
  The page: the load of the file under its dependencies, the text once it is read, and the object URL of an image.
  A file is the number of the call that returned it, for its identity, with its content, which \<open>bl_text\<close> is; for an
  empty path the load answers \<open>null\<close>. \<open>bp_urls\<close> are the contents behind the object URLs in the order they were made,
  \<open>bp_revoked\<close> the numbers of those that were given back.
\<close>

type_synonym blob_deps = "string \<times> string \<times> string \<times> string"

record BlobPage =
  bp_load :: "(blob_deps, (nat \<times> BlobResponse) option) AsyncState"
  bp_text :: "string option"
  bp_reading :: "nat option"
  bp_image :: "nat option"
  bp_urls :: "string list"
  bp_revoked :: "nat list"

definition deps_path :: "blob_deps \<Rightarrow> string" where
  "deps_path d = snd (snd (snd d))"

definition blob_call :: "blob_deps \<Rightarrow> ApiCall option" where
  "blob_call d = (case d of (org, project, revn, path) \<Rightarrow> if path \<noteq> [] then Some (fetchBlob org project revn path) else None)"

text \<open>What the call of the load answers, and the file, which is null before the first answer too.\<close>

definition blob_promise :: "(nat \<Rightarrow> blob_deps \<Rightarrow> BlobResponse outcome) \<Rightarrow> nat \<Rightarrow> blob_deps \<Rightarrow> BlobResponse option outcome" where
  "blob_promise answer i d = (if deps_path d \<noteq> [] then map_sum id Some (answer i d) else Inr None)"

definition blob_file :: "(blob_deps, (nat \<times> BlobResponse) option) AsyncState \<Rightarrow> (nat \<times> BlobResponse) option" where
  "blob_file a = coalesce (as_data a) None"

text \<open>The effects after a render: on the file, and on the file and the path.\<close>

definition text_effect :: "(nat \<times> BlobResponse) option \<Rightarrow> BlobPage \<Rightarrow> BlobPage" where
  "text_effect file p =
     p\<lparr>bp_text := None, bp_reading := (case file of Some (i, b) \<Rightarrow> if bl_isBinary b then None else Some i | None \<Rightarrow> None)\<rparr>"

definition image_effect :: "(nat \<times> BlobResponse) option \<Rightarrow> string \<Rightarrow> BlobPage \<Rightarrow> BlobPage" where
  "image_effect file path p =
     (let q = (case bp_image p of Some u \<Rightarrow> p\<lparr>bp_revoked := bp_revoked p @ [u]\<rparr> | None \<Rightarrow> p) in
      case file of
        Some (i, b) \<Rightarrow>
          if bl_isBinary b \<and> web_isImagePath path then q\<lparr>bp_image := Some (length (bp_urls q)), bp_urls := bp_urls q @ [bl_text b]\<rparr>
          else q\<lparr>bp_image := None\<rparr>
      | None \<Rightarrow> q\<lparr>bp_image := None\<rparr>)"

definition blob_load :: "(blob_deps, (nat \<times> BlobResponse) option) AsyncState \<Rightarrow> BlobPage \<Rightarrow> BlobPage" where
  "blob_load a p =
     (let old = blob_file (bp_load p); new = blob_file a;
          q = (if map_option fst new = map_option fst old then p else text_effect new p);
          r = (if map_option fst new = map_option fst old \<and> deps_path (as_deps a) = deps_path (as_deps (bp_load p)) then q
               else image_effect new (deps_path (as_deps a)) q)
      in r\<lparr>bp_load := a\<rparr>)"

definition blob_mount :: "blob_deps \<Rightarrow> BlobPage" where
  "blob_mount d = \<lparr>bp_load = useAsync_mount d, bp_text = None, bp_reading = None, bp_image = None, bp_urls = [], bp_revoked = []\<rparr>"

definition blob_render :: "blob_deps \<Rightarrow> BlobPage \<Rightarrow> BlobPage" where
  "blob_render d p = blob_load (useAsync_render d (bp_load p)) p"

definition blob_settled :: "nat \<Rightarrow> BlobResponse option outcome \<Rightarrow> BlobPage \<Rightarrow> BlobPage" where
  "blob_settled i r p = blob_load (useAsync_settle i (map_sum id (map_option (Pair i)) r) (bp_load p)) p"

text \<open>\<open>blob.text()\<close> of the file \<open>i\<close> is there.\<close>

definition text_read :: "nat \<Rightarrow> string \<Rightarrow> BlobPage \<Rightarrow> BlobPage" where
  "text_read i t p = (if bp_reading p = Some i then p\<lparr>bp_text := Some t\<rparr> else p)"

definition blob_unmount :: "BlobPage \<Rightarrow> BlobPage" where
  "blob_unmount p = p\<lparr>bp_load := useAsync_unmount (bp_load p), bp_reading := None,
     bp_revoked := bp_revoked p @ (case bp_image p of Some u \<Rightarrow> [u] | None \<Rightarrow> []), bp_image := None\<rparr>"

datatype BlobBody = BlobNothing | BlobCode string | BlobImage nat | BlobBinary

definition blob_body :: "BlobPage \<Rightarrow> BlobBody" where
  "blob_body p =
     (if as_loading (bp_load p) then BlobNothing
      else case blob_file (bp_load p) of
        None \<Rightarrow> BlobNothing
      | Some (i, b) \<Rightarrow> (case bp_text p of
          Some t \<Rightarrow> BlobCode t
        | None \<Rightarrow> if bl_isBinary b then (case bp_image p of Some u \<Rightarrow> BlobImage u | None \<Rightarrow> BlobBinary) else BlobNothing))"

text \<open>What the button Download saves: a name and the content.\<close>

definition blob_download :: "BlobPage \<Rightarrow> (string \<times> string) option" where
  "blob_download p =
     map_option (\<lambda>(i, b). (blob_name (deps_path (as_deps (bp_load p))), bl_text b)) (blob_file (bp_load p))"

text \<open>The line above the file: its number of lines and its size.\<close>

definition blob_details :: "BlobPage \<Rightarrow> string" where
  "blob_details p =
     (case bp_text p of Some t \<Rightarrow> js_show_nat (countLines t) @ '' lines'' | None \<Rightarrow> []) @
     (case blob_file (bp_load p) of
        Some (i, b) \<Rightarrow> (if bp_text p \<noteq> None then '' '' @ [CHR 0xC2, CHR 0xB7] @ '' '' else []) @ web_formatBytes (Some (int (bl_size b)))
      | None \<Rightarrow> [])"

text \<open>The readme below a directory, from the state of the load of its text.\<close>

datatype ReadmeBody = ReadmeMarkdown string | ReadmePlain string

definition Readme_body :: "TreeEntryResponse \<Rightarrow> string option \<times> string option \<times> bool \<Rightarrow> bool \<times> string option \<times> ReadmeBody option" where
  "Readme_body e load = (case load of (content, err, loading) \<Rightarrow>
     (loading, err,
      (case content of
         Some t \<Rightarrow> if err = None then Some (if markdown_name (te_name e) then ReadmeMarkdown t else ReadmePlain t) else None
       | None \<Rightarrow> None)))"

definition readme_request :: "string \<Rightarrow> string \<Rightarrow> string \<Rightarrow> TreeEntryResponse \<Rightarrow> ApiCall" where
  "readme_request org project revn e = fetchBlob org project revn (te_path e)"

section \<open>Locks of a file\<close>







definition lock_click :: "string \<Rightarrow> string \<Rightarrow> string \<Rightarrow> string \<Rightarrow> ApiCall" where
  "lock_click org project path branch = lockFile org project path branch"

definition lock_release :: "string \<Rightarrow> string \<Rightarrow> FileLockResponse \<Rightarrow> bool \<Rightarrow> ApiCall option" where
  "lock_release org project l ok =
     (if ok then Some (unlockFile org project (fl_path l) (if fl_global l then [] else coalesce (fl_branch l) [])) else None)"



subsection \<open>The server\<close>














section \<open>New branches and merge requests\<close>

definition bad_name_char :: "char \<Rightarrow> bool" where
  "bad_name_char c \<longleftrightarrow> (let n = of_char c :: nat in n \<le> 0x20 \<or> n = 0x7F)"

definition branchNameError :: "string \<Rightarrow> string option" where
  "branchNameError name =
     (let trimmed = js_trim name; invalid = ''invalid branch name '' @ [CHR 0x22] @ trimmed @ [CHR 0x22] in
      if trimmed = [] then Some ''branch name must not be empty''
      else if CHR ''/'' \<in> set trimmed then Some (''branch names cannot contain '' @ [CHR 0x22, CHR ''/'', CHR 0x22])
      else if trimmed = ''.'' \<or> trimmed = ''..'' then Some invalid
      else if list_ex bad_name_char trimmed then Some invalid else None)"

text \<open>\<open>validateBranchName\<close> of the server; \<open>quote\<close> is the format \<open>%q\<close>.\<close>

definition validateBranchName :: "(string \<Rightarrow> string) \<Rightarrow> string \<Rightarrow> string option" where
  "validateBranchName quote name =
     (if name = [] then Some ''branch name must not be empty''
      else if CHR ''/'' \<in> set name then Some (''invalid branch name '' @ quote name)
      else if name = ''.'' \<or> name = ''..'' then Some (''invalid branch name '' @ quote name)
      else if list_ex bad_name_char name then Some (''invalid branch name '' @ quote name) else None)"

record NewBranchForm =
  nb_name :: string
  nb_from :: string
  nb_saving :: bool
  nb_error :: "string option"
  nb_left :: bool

definition new_branch_init :: NewBranchForm where
  "new_branch_init = \<lparr>nb_name = [], nb_from = [], nb_saving = False, nb_error = None, nb_left = False\<rparr>"

definition new_branch_type :: "string \<Rightarrow> string \<Rightarrow> NewBranchForm \<Rightarrow> NewBranchForm" where
  "new_branch_type name start f = f\<lparr>nb_name := name, nb_from := start\<rparr>"

definition new_branch_submit :: "string \<Rightarrow> string \<Rightarrow> NewBranchForm \<Rightarrow> NewBranchForm \<times> ApiCall option" where
  "new_branch_submit org project f =
     (if branchNameError (nb_name f) = None \<and> \<not> nb_saving f
      then (f\<lparr>nb_saving := True, nb_error := None\<rparr>, Some (createBranch org project (js_trim (nb_name f)) (js_trim (nb_from f))))
      else (f, None))"

definition new_branch_settled :: "unit outcome \<Rightarrow> NewBranchForm \<Rightarrow> NewBranchForm" where
  "new_branch_settled r f = (case r of
     Inr _ \<Rightarrow> f\<lparr>nb_left := True\<rparr> | Inl err \<Rightarrow> f\<lparr>nb_error := Some err, nb_saving := False\<rparr>)"

record NewRequestForm =
  nr_title :: string
  nr_description :: string
  nr_source :: string
  nr_target :: string
  nr_draft :: bool
  nr_saving :: bool
  nr_error :: "string option"
  nr_opened :: "int option"

definition new_request_init :: NewRequestForm where
  "new_request_init = \<lparr>nr_title = [], nr_description = [], nr_source = [], nr_target = [], nr_draft = False, nr_saving = False,
     nr_error = None, nr_opened = None\<rparr>"

definition request_canSubmit :: "NewRequestForm \<Rightarrow> bool" where
  "request_canSubmit f \<longleftrightarrow> js_trim (nr_title f) \<noteq> [] \<and> nr_source f \<noteq> [] \<and> nr_target f \<noteq> [] \<and> \<not> nr_saving f"

definition new_request_submit :: "string \<Rightarrow> string \<Rightarrow> NewRequestForm \<Rightarrow> NewRequestForm \<times> ApiCall option" where
  "new_request_submit org project f =
     (if request_canSubmit f
      then (f\<lparr>nr_saving := True, nr_error := None\<rparr>,
            Some (createMergeRequest org project (js_trim (nr_title f)) (nr_description f) (nr_source f) (nr_target f) (nr_draft f)))
      else (f, None))"

definition new_request_settled :: "int outcome \<Rightarrow> NewRequestForm \<Rightarrow> NewRequestForm" where
  "new_request_settled r f = (case r of
     Inr number \<Rightarrow> f\<lparr>nr_opened := Some number\<rparr> | Inl err \<Rightarrow> f\<lparr>nr_error := Some err, nr_saving := False\<rparr>)"

section \<open>Comparing revisions\<close>

text \<open>The parameters of the address in order, as \<open>URLSearchParams\<close> keeps them.\<close>

definition compare_base :: "(string, string) js_map \<Rightarrow> string \<Rightarrow> string" where
  "compare_base params defaultBranch = coalesce (js_map_get params ''base'') defaultBranch"

definition compare_head :: "(string, string) js_map \<Rightarrow> string" where
  "compare_head params = coalesce (js_map_get params ''head'') []"

definition compare_select :: "string \<Rightarrow> string \<Rightarrow> string \<Rightarrow> (string, string) js_map \<Rightarrow> (string, string) js_map" where
  "compare_select key val defaultBranch params =
     (let n = js_map_set params key val in
      if \<not> js_map_has n ''base'' \<and> defaultBranch \<noteq> [] then js_map_set n ''base'' defaultBranch else n)"

text \<open>\<open>resolve\<close>: a branch, else a tag, else the text itself; \<open>tag\<close> is the answer of \<open>getTag\<close>.\<close>

definition resolve_ref :: "BranchResponse list option \<Rightarrow> (string \<Rightarrow> TagResponse option outcome) \<Rightarrow> string \<Rightarrow> string option" where
  "resolve_ref branches tag ref =
     (if ref = [] then Some []
      else case find (\<lambda>b. br_name b = ref) (coalesce branches []) of
        Some b \<Rightarrow> br_commit_id b
      | None \<Rightarrow> (case tag ref of Inr (Some t) \<Rightarrow> Some (TagResponse.tg_commit_id t) | _ \<Rightarrow> Some ref))"

definition compare_ready :: "(string option \<times> string option) option \<Rightarrow> bool" where
  "compare_ready resolved = (case resolved of
     None \<Rightarrow> False | Some (b, h) \<Rightarrow> coalesce b [] \<noteq> [] \<and> coalesce h [] \<noteq> [])"

definition compare_same :: "(string option \<times> string option) option \<Rightarrow> bool" where
  "compare_same resolved \<longleftrightarrow> compare_ready resolved \<and> fst (the resolved) = snd (the resolved)"

definition compare_call :: "string \<Rightarrow> string \<Rightarrow> (string option \<times> string option) option \<Rightarrow> ApiCall option" where
  "compare_call org project resolved =
     (if compare_ready resolved \<and> \<not> compare_same resolved
      then Some (getCommitDiff org project (coalesce (snd (the resolved)) []) (fst (the resolved))) else None)"

text \<open>The messages of the page, besides the error, the spinner and the difference itself.\<close>

definition compare_messages :: "string \<Rightarrow> (string option \<times> string option) option \<Rightarrow> 'f list option \<Rightarrow> string list" where
  "compare_messages head resolved diff =
     (if head = [] then [''Choose a branch, tag or commit to compare with the base.''] else []) @
     (if compare_same resolved then [''Both sides point to the same commit, so there is nothing to compare.''] else []) @
     (if diff = Some [] then [''There are no differences between these revisions.''] else [])"

section \<open>Billing\<close>

record OwnerStorageResponse =
  ow_user_id :: string
  ow_used_bytes :: nat
  ow_quota_bytes :: "nat option"
  ow_orgs :: "(string \<times> string \<times> nat) list"

definition billing_percent :: "OwnerStorageResponse option \<Rightarrow> int" where
  "billing_percent data = (case data of
     None \<Rightarrow> 0
   | Some d \<Rightarrow> (case ow_quota_bytes d of
       None \<Rightarrow> 0 | Some q \<Rightarrow> if q > 0 then min 100 (js_percent (int (ow_used_bytes d)) (int q)) else 0))"

definition billing_usage :: "OwnerStorageResponse \<Rightarrow> string" where
  "billing_usage d = (case ow_quota_bytes d of
     None \<Rightarrow> web_formatBytes (Some (int (ow_used_bytes d))) @ '' used '' @ [CHR 0xC2, CHR 0xB7] @ '' unlimited quota''
   | Some q \<Rightarrow> web_formatBytes (Some (int (ow_used_bytes d))) @ '' of '' @ web_formatBytes (Some (int q)) @ '' used'')"

record QuotaCard =
  qc_userId :: string
  qc_quotaMiB :: string
  qc_saving :: bool

definition quota_apply :: "int option \<Rightarrow> QuotaCard \<Rightarrow> QuotaCard \<times> ApiCall option" where
  "quota_apply quota c =
     (if js_trim (qc_userId c) = [] then (c, None)
      else (c\<lparr>qc_saving := True\<rparr>, Some (setOwnerQuota (js_trim (qc_userId c)) quota)))"

text \<open>
  \<open>handleSet\<close>; the other components are the error and the call. Multiplying by 2 to the 20 is exact, unless it
  overflows to infinity, which JSON writes as \<open>null\<close>.
\<close>

definition quota_bytes :: "rat \<Rightarrow> int option" where
  "quota_bytes v = (let b = v * 1024 * 1024 in if b \<ge> 2 ^ 1024 - 2 ^ 970 then None else Some \<lfloor>b + 1 / 2\<rfloor>)"

definition quota_submit :: "QuotaCard \<Rightarrow> QuotaCard \<times> string option \<times> ApiCall option" where
  "quota_submit c =
     (if qc_saving c \<or> js_trim (qc_userId c) = [] then (c, None, None)
      else case js_Number (qc_quotaMiB c) of
        Finite v \<Rightarrow>
          if v \<le> 0 then (c, Some ''Enter the quota in MiB (a positive number).'', None)
          else (case quota_apply (quota_bytes v) c of (d, call) \<Rightarrow> (d, None, call))
      | _ \<Rightarrow> (c, Some ''Enter the quota in MiB (a positive number).'', None))"

definition quota_settled :: "unit outcome \<Rightarrow> QuotaCard \<Rightarrow> QuotaCard \<times> string option" where
  "quota_settled r c = (case r of
     Inr _ \<Rightarrow> (c\<lparr>qc_quotaMiB := [], qc_saving := False\<rparr>, None) | Inl err \<Rightarrow> (c\<lparr>qc_saving := False\<rparr>, Some err))"

section \<open>Names and locks as the server sees them\<close>

text \<open>
  The page for a new branch accepts exactly the names that the server accepts, so that a name it sends is
  never refused for its form and no good name is held back.
\<close>

theorem branch_names_agree:
  "branchNameError name = None \<longleftrightarrow> validateBranchName quote (js_trim name) = None"
  by (simp add: branchNameError_def validateBranchName_def Let_def)




lemma find_member: "find P xs = Some x \<Longrightarrow> x \<in> set xs \<and> P x"
  by (auto simp: find_Some_iff)













section \<open>Links of the path\<close>

lemma tree_link_segments:
  assumes "clean_path path" "revn \<noteq> []"
  shows "those (url_segments (treeUrl org project revn path)) = Some ([org, project, ''tree'', revn] @ js_split (CHR ''/'') path)"
proof -
  have "path \<noteq> []" using assms(1) by (simp add: clean_path_def)
  then show ?thesis
    using assms(2) by (simp add: url_segments_def url_path_def treeUrl_def repoUrl_def Let_def encodePath_segments [OF assms(1)] those_map_id)
qed

lemma take_segments_clean:
  assumes "clean_path path" "i < length (js_split (CHR ''/'') path)"
  shows "clean_path (js_join ''/'' (take (i + 1) (js_split (CHR ''/'') path)))"
    "js_split (CHR ''/'') (js_join ''/'' (take (i + 1) (js_split (CHR ''/'') path))) = take (i + 1) (js_split (CHR ''/'') path)"
proof -
  let ?xs = "take (i + 1) (js_split (CHR ''/'') path)"
  have ne: "?xs \<noteq> []" using assms(2) by auto
  have noslash: "\<forall>x \<in> set ?xs. CHR ''/'' \<notin> set x" by (meson in_set_takeD js_split_pieces)
  show split: "js_split (CHR ''/'') (js_join ''/'' ?xs) = ?xs" by (rule js_split_join [OF ne noslash])
  have "[] \<notin> set ?xs" using assms(1) by (auto simp: clean_path_def dest: in_set_takeD)
  moreover have "js_join ''/'' ?xs \<noteq> []"
  proof
    assume "js_join ''/'' ?xs = []"
    then have "?xs = [[]]" using split by simp
    with \<open>[] \<notin> set ?xs\<close> show False by simp
  qed
  ultimately show "clean_path (js_join ''/'' ?xs)" unfolding clean_path_def split by blast
qed

text \<open>
  Every link of the path above a file or directory opens the directory it is labelled with: the router
  reads from it the organization, the project, the revision and the names up to the label. Only the
  name of a file itself has no link.
\<close>

theorem breadcrumb_opens_prefix:
  assumes "clean_path path" and "revn \<noteq> []" and "i < length (js_split (CHR ''/'') path)"
  shows "fst (RepoBreadcrumb org project revn path leafIsFile ! (i + 2)) = js_split (CHR ''/'') path ! i \<and>
    (case snd (RepoBreadcrumb org project revn path leafIsFile ! (i + 2)) of
       None \<Rightarrow> leafIsFile \<and> i = length (js_split (CHR ''/'') path) - 1
     | Some u \<Rightarrow> those (url_segments u) = Some ([org, project, ''tree'', revn] @ take (i + 1) (js_split (CHR ''/'') path)))"
proof -
  let ?xs = "js_split (CHR ''/'') path"
  have nth: "RepoBreadcrumb org project revn path leafIsFile ! (i + 2) =
      (?xs ! i, if i = length ?xs - 1 \<and> leafIsFile then None else Some (treeUrl org project revn (js_join ''/'' (take (i + 1) ?xs))))"
    using assms(3) by (simp add: RepoBreadcrumb_def Let_def path_segments_clean(1) [OF assms(1)] nth_enumerate_eq)
  show ?thesis
    unfolding nth using tree_link_segments [OF take_segments_clean(1) [OF assms(1,3)] assms(2), of org project]
      take_segments_clean(2) [OF assms(1,3)] by simp
qed

theorem breadcrumb_opens_prefix_witness:
  "fst (RepoBreadcrumb ''o'' ''p'' ''main'' ''a b/c/d'' True ! (1 + 2)) = js_split (CHR ''/'') ''a b/c/d'' ! 1"
  using breadcrumb_opens_prefix [of "''a b/c/d''" "''main''" 1 "''o''" "''p''" True] by (simp add: clean_path_def)

section \<open>The file page shows the file\<close>

inductive blob_reach :: "(nat \<Rightarrow> blob_deps \<Rightarrow> BlobResponse outcome) \<Rightarrow> BlobPage \<Rightarrow> bool" for answer where
  mount: "blob_reach answer (blob_mount d)"
| render: "blob_reach answer p \<Longrightarrow> blob_reach answer (blob_render d p)"
| settled: "blob_reach answer p \<Longrightarrow> i < length (as_calls (bp_load p)) \<Longrightarrow>
    blob_reach answer (blob_settled i (blob_promise answer i (as_calls (bp_load p) ! i)) p)"
| read: "blob_reach answer p \<Longrightarrow> blob_file (bp_load p) = Some (i, b) \<Longrightarrow> blob_reach answer (text_read i (bl_text b) p)"
| late: "blob_reach answer p \<Longrightarrow> bp_reading p \<noteq> Some i \<Longrightarrow> blob_reach answer (text_read i t p)"

abbreviation answered :: "(nat \<Rightarrow> blob_deps \<Rightarrow> BlobResponse outcome) \<Rightarrow> nat \<Rightarrow> blob_deps \<Rightarrow> (nat \<times> BlobResponse) option outcome" where
  "answered answer i d \<equiv> map_sum id (map_option (Pair i)) (blob_promise answer i d)"

lemma async_data:
  "async_reach answer s \<Longrightarrow> as_data s = Some v \<Longrightarrow> \<exists>i < length (as_calls s). answer i (as_calls s ! i) = Inr v"
proof (induction arbitrary: v rule: async_reach.induct)
  case (mount d)
  then show ?case by (simp add: useAsync_mount_def useAsync_effect_def)
next
  case (render s d)
  then show ?case
    by (cases "d = as_deps s") (fastforce simp: useAsync_render_def useAsync_effect_def nth_append intro: less_SucI)+
next
  case (reload s)
  then show ?case by (fastforce simp: useAsync_reload_def useAsync_effect_def nth_append intro: less_SucI)
next
  case (settle s i)
  then show ?case by (auto simp: useAsync_settle_def split: if_splits sum.splits)
qed

text \<open>The text that is shown or being read, and the image, are those of the file; all URLs but that of the image were given back.\<close>

definition text_inv :: "(nat \<times> BlobResponse) option \<Rightarrow> BlobPage \<Rightarrow> bool" where
  "text_inv file p = (case file of
     Some (i, b) \<Rightarrow>
       if bl_isBinary b then bp_text p = None \<and> bp_reading p = None
       else bp_reading p = Some i \<and> (bp_text p = None \<or> bp_text p = Some (bl_text b))
   | None \<Rightarrow> bp_text p = None \<and> bp_reading p = None)"

definition blob_image_inv :: "(nat \<times> BlobResponse) option \<Rightarrow> string \<Rightarrow> BlobPage \<Rightarrow> bool" where
  "blob_image_inv file path p = (case file of
     Some (i, b) \<Rightarrow>
       if bl_isBinary b \<and> web_isImagePath path
       then (case bp_image p of Some u \<Rightarrow> u < length (bp_urls p) \<and> bp_urls p ! u = bl_text b | None \<Rightarrow> False)
       else bp_image p = None
   | None \<Rightarrow> bp_image p = None)"

definition urls_inv :: "BlobPage \<Rightarrow> bool" where
  "urls_inv p \<longleftrightarrow> bp_revoked p @ (case bp_image p of Some u \<Rightarrow> [u] | None \<Rightarrow> []) = [0..<length (bp_urls p)]"

definition blob_inv :: "(nat \<Rightarrow> blob_deps \<Rightarrow> BlobResponse outcome) \<Rightarrow> BlobPage \<Rightarrow> bool" where
  "blob_inv answer p \<longleftrightarrow> async_reach (answered answer) (bp_load p) \<and> text_inv (blob_file (bp_load p)) p \<and>
     blob_image_inv (blob_file (bp_load p)) (deps_path (as_deps (bp_load p))) p \<and> urls_inv p"

text \<open>A load that keeps the number of the file keeps the file.\<close>

definition same_file :: "(nat \<times> BlobResponse) option \<Rightarrow> (nat \<times> BlobResponse) option \<Rightarrow> bool" where
  "same_file x y \<longleftrightarrow> (map_option fst x = map_option fst y \<longrightarrow> x = y)"

lemma text_effect_inv: "text_inv f (text_effect f p)"
  by (auto simp: text_inv_def text_effect_def split: option.split)

lemma text_effect_image [simp]:
  "bp_image (text_effect f p) = bp_image p" "bp_urls (text_effect f p) = bp_urls p" "bp_revoked (text_effect f p) = bp_revoked p"
  by (simp_all add: text_effect_def)

lemma text_effect_keeps [simp]: "blob_image_inv g path (text_effect f p) = blob_image_inv g path p" "urls_inv (text_effect f p) = urls_inv p"
  by (simp_all only: blob_image_inv_def urls_inv_def text_effect_image)

lemma image_effect_text [simp]:
  "bp_text (image_effect f path p) = bp_text p" "bp_reading (image_effect f path p) = bp_reading p"
  by (simp_all add: image_effect_def Let_def split: option.split)

lemma image_effect_keeps [simp]: "text_inv g (image_effect f path p) = text_inv g p"
  by (simp only: text_inv_def image_effect_text)

lemma image_effect_inv: "blob_image_inv f path (image_effect f path p)"
  by (auto simp: blob_image_inv_def image_effect_def Let_def split: option.split)

lemma image_effect_urls: "urls_inv p \<Longrightarrow> urls_inv (image_effect f path p)"
  by (cases "bp_image p") (auto simp: urls_inv_def image_effect_def Let_def split: option.split)

lemma load_keeps [simp]:
  "text_inv g (p\<lparr>bp_load := a\<rparr>) = text_inv g p" "blob_image_inv g path (p\<lparr>bp_load := a\<rparr>) = blob_image_inv g path p"
  "urls_inv (p\<lparr>bp_load := a\<rparr>) = urls_inv p"
  by (simp_all add: text_inv_def blob_image_inv_def urls_inv_def split: option.split)

lemma blob_load_inv:
  assumes "blob_inv answer p" "async_reach (answered answer) a" "same_file (blob_file a) (blob_file (bp_load p))"
  shows "blob_inv answer (blob_load a p)"
proof -
  let ?new = "blob_file a" and ?old = "blob_file (bp_load p)" and ?path = "deps_path (as_deps a)"
  let ?same = "map_option fst ?new = map_option fst ?old"
  define q where "q = (if ?same then p else text_effect ?new p)"
  have old: "text_inv ?old p" "blob_image_inv ?old (deps_path (as_deps (bp_load p))) p" "urls_inv p"
    using assms(1) by (simp_all add: blob_inv_def)
  have new: "?new = ?old" if "?same" using that assms(3) by (simp add: same_file_def)
  have q: "text_inv ?new q" "urls_inv q" using old new by (auto simp: q_def text_effect_inv)
  define r where "r = (if ?same \<and> ?path = deps_path (as_deps (bp_load p)) then q else image_effect ?new ?path q)"
  have load: "blob_load a p = r\<lparr>bp_load := a\<rparr>" unfolding r_def q_def blob_load_def Let_def by simp
  have "blob_image_inv ?new ?path r"
  proof (cases "?same \<and> ?path = deps_path (as_deps (bp_load p))")
    case True
    then show ?thesis using old(2) new by (simp add: r_def q_def)
  qed (auto simp: r_def image_effect_inv)
  moreover have "text_inv ?new r" "urls_inv r" using q image_effect_urls by (simp_all add: r_def)
  ultimately show ?thesis using assms(2) by (simp add: load blob_inv_def)
qed

lemma settle_same_file:
  assumes "async_reach (answered answer) s" "i < length (as_calls s)"
  shows "same_file (blob_file (useAsync_settle i (answered answer i (as_calls s ! i)) s)) (blob_file s)"
proof -
  have eq: "b = c" if f: "blob_file s = Some (i, b)" and c: "blob_promise answer i (as_calls s ! i) = Inr (Some c)" for b c
  proof -
    have d: "as_data s = Some (Some (i, b))" using f by (cases "as_data s") (simp_all add: blob_file_def coalesce_def)
    obtain j where j: "answered answer j (as_calls s ! j) = Inr (Some (i, b))" using async_data [OF assms(1) d] by auto
    then have "j = i" by (cases "blob_promise answer j (as_calls s ! j)") auto
    with j c show ?thesis by simp
  qed
  have null: "same_file None y" for y :: "(nat \<times> BlobResponse) option" by (cases y) (simp_all add: same_file_def)
  show ?thesis
  proof (cases "\<exists>x. as_active s = Some i \<and> blob_promise answer i (as_calls s ! i) = Inr x")
    case True
    then obtain x where x: "as_active s = Some i" "blob_promise answer i (as_calls s ! i) = Inr x" by blast
    then have new: "blob_file (useAsync_settle i (answered answer i (as_calls s ! i)) s) = map_option (Pair i) x"
      by (simp add: useAsync_settle_def blob_file_def coalesce_def)
    show ?thesis
    proof (cases x)
      case (Some c)
      have "b = c" if "blob_file s = Some (i, b)" for b using eq [OF that] x(2) Some by simp
      then show ?thesis unfolding new Some by (cases "blob_file s") (auto simp: same_file_def)
    qed (simp add: new null)
  next
    case False
    then have "blob_file (useAsync_settle i (answered answer i (as_calls s ! i)) s) = blob_file s"
      by (cases "blob_promise answer i (as_calls s ! i)") (auto simp: useAsync_settle_def blob_file_def)
    then show ?thesis by (simp add: same_file_def)
  qed
qed

lemma blob_reach_inv: "blob_reach answer p \<Longrightarrow> blob_inv answer p"
proof (induction rule: blob_reach.induct)
  case (mount d)
  have "blob_file (useAsync_mount d) = None" by (simp add: blob_file_def useAsync_mount_def useAsync_effect_def coalesce_def)
  then show ?case
    by (simp add: blob_inv_def blob_mount_def text_inv_def blob_image_inv_def urls_inv_def async_reach.mount)
next
  case (render p d)
  have "async_reach (answered answer) (useAsync_render d (bp_load p))"
    using render.IH by (auto simp: blob_inv_def intro: async_reach.render)
  moreover have "blob_file (useAsync_render d (bp_load p)) = blob_file (bp_load p)"
    by (simp add: blob_file_def useAsync_render_def useAsync_effect_def)
  ultimately show ?case unfolding blob_render_def using blob_load_inv [OF render.IH] by (simp add: same_file_def)
next
  case (settled p i)
  have r: "async_reach (answered answer) (bp_load p)" using settled.IH by (simp add: blob_inv_def)
  show ?case
    unfolding blob_settled_def
    by (intro blob_load_inv [OF settled.IH] async_reach.settle [OF r] settle_same_file [OF r] settled.hyps)
next
  case (read p i b)
  have "text_inv (blob_file (bp_load p)) (text_read i (bl_text b) p)"
    using read by (auto simp: blob_inv_def text_inv_def text_read_def split: if_splits)
  moreover have "blob_image_inv f path (text_read i t p) = blob_image_inv f path p" "urls_inv (text_read i t p) = urls_inv p"
    "bp_load (text_read i t p) = bp_load p" for f path t
    by (simp_all add: text_read_def blob_image_inv_def urls_inv_def split: option.split)
  ultimately show ?case using read.IH by (simp add: blob_inv_def)
next
  case (late p i t)
  then show ?case by (simp add: text_read_def)
qed

lemma image_not_revoked: "urls_inv p \<Longrightarrow> bp_image p = Some u \<Longrightarrow> u \<notin> set (bp_revoked p)"
proof -
  assume "urls_inv p" "bp_image p = Some u"
  then have "bp_revoked p @ [u] = [0..<length (bp_urls p)]" by (simp add: urls_inv_def)
  then have "distinct (bp_revoked p @ [u])" by simp
  then show "u \<notin> set (bp_revoked p)" by simp
qed

text \<open>
  Property C18. When nothing is loading and there is no error, the file page shows the file of the address, whatever
  order answers and reads come in. Without a path it shows nothing. With one, the file is the answer to the last
  request, which was made for this address. Of a text it shows the content, or nothing while it is being read; of a
  binary file whose path is that of an image, the image at an object URL that still holds the content of this file;
  of any other binary file, that there is no preview.
\<close>

theorem blob_page_shows_address:
  assumes "blob_reach answer p" "\<not> as_loading (bp_load p)" "as_error (bp_load p) = None"
  shows "let d = as_deps (bp_load p); i = length (as_calls (bp_load p)) - 1 in as_calls (bp_load p) ! i = d \<and>
    (if deps_path d = [] then blob_file (bp_load p) = None \<and> blob_body p = BlobNothing
     else \<exists>b. answer i d = Inr b \<and> blob_file (bp_load p) = Some (i, b) \<and>
       (case blob_body p of
          BlobCode t \<Rightarrow> \<not> bl_isBinary b \<and> t = bl_text b
        | BlobImage u \<Rightarrow> bl_isBinary b \<and> web_isImagePath (deps_path d) \<and>
            u < length (bp_urls p) \<and> bp_urls p ! u = bl_text b \<and> u \<notin> set (bp_revoked p)
        | BlobBinary \<Rightarrow> bl_isBinary b \<and> \<not> web_isImagePath (deps_path d)
        | BlobNothing \<Rightarrow> \<not> bl_isBinary b \<and> bp_reading p = Some i))"
proof -
  let ?d = "as_deps (bp_load p)"
  define i where "i = length (as_calls (bp_load p)) - 1"
  have inv: "blob_inv answer p" by (rule blob_reach_inv [OF assms(1)])
  then have async: "async_inv (answered answer) (bp_load p)" by (intro async_reach_inv) (simp add: blob_inv_def)
  then have "as_calls (bp_load p) \<noteq> []" "last (as_calls (bp_load p)) = ?d" by (simp_all add: async_inv_def)
  then have call: "as_calls (bp_load p) ! i = ?d" using last_conv_nth [of "as_calls (bp_load p)"] by (simp add: i_def)
  have last: "case answered answer i ?d of
      Inr v \<Rightarrow> as_data (bp_load p) = Some v \<and> as_error (bp_load p) = None | Inl e \<Rightarrow> as_error (bp_load p) = Some e"
    using async assms(2) by (simp add: async_inv_def i_def)
  have texts: "text_inv (blob_file (bp_load p)) p" "blob_image_inv (blob_file (bp_load p)) (deps_path ?d) p" "urls_inv p"
    using inv by (simp_all add: blob_inv_def)
  show ?thesis
  proof (cases "deps_path ?d = []")
    case True
    then have "blob_file (bp_load p) = None" using last by (simp add: blob_promise_def blob_file_def coalesce_def)
    then show ?thesis using True call by (simp add: Let_def blob_body_def i_def)
  next
    case False
    then obtain b where b: "answer i ?d = Inr b" "blob_file (bp_load p) = Some (i, b)"
      using last assms(3) by (cases "answer i ?d") (simp_all add: blob_promise_def blob_file_def coalesce_def)
    have "case blob_body p of
          BlobCode t \<Rightarrow> \<not> bl_isBinary b \<and> t = bl_text b
        | BlobImage u \<Rightarrow> bl_isBinary b \<and> web_isImagePath (deps_path ?d) \<and>
            u < length (bp_urls p) \<and> bp_urls p ! u = bl_text b \<and> u \<notin> set (bp_revoked p)
        | BlobBinary \<Rightarrow> bl_isBinary b \<and> \<not> web_isImagePath (deps_path ?d)
        | BlobNothing \<Rightarrow> \<not> bl_isBinary b \<and> bp_reading p = Some i"
      using texts b(2) assms(2) image_not_revoked [OF texts(3)]
      by (auto simp: blob_body_def text_inv_def blob_image_inv_def split: if_splits option.splits)
    then show ?thesis using False call b unfolding Let_def i_def by auto
  qed
qed

definition sample_blob_answer :: "nat \<Rightarrow> blob_deps \<Rightarrow> BlobResponse outcome" where
  "sample_blob_answer i d = (if deps_path d = ''a.txt'' then Inr \<lparr>bl_text = ''old'', bl_contentType = ''text/plain'', bl_size = 3, bl_isBinary = False\<rparr> else Inl ''not found'')"

definition sample_blob :: BlobPage where
  "sample_blob = text_read 0 ''old'' (blob_settled 0 (blob_promise sample_blob_answer 0 (''o'', ''p'', ''main'', ''a.txt''))
     (blob_mount (''o'', ''p'', ''main'', ''a.txt'')))"

definition sample_missing :: BlobPage where
  "sample_missing = blob_settled 1 (Inl ''not found'') (blob_render (''o'', ''p'', ''main'', ''b.txt'') sample_blob)"

lemmas blob_run_defs = sample_blob_def sample_missing_def text_read_def blob_settled_def blob_render_def blob_load_def
  blob_mount_def text_effect_def image_effect_def useAsync_mount_def useAsync_render_def useAsync_settle_def useAsync_effect_def
  deps_path_def sample_blob_answer_def blob_promise_def blob_file_def coalesce_def Let_def

lemma sample_blob_state:
  "blob_file (bp_load sample_blob) = Some (0, \<lparr>bl_text = ''old'', bl_contentType = ''text/plain'', bl_size = 3, bl_isBinary = False\<rparr>)"
  "\<not> as_loading (bp_load sample_blob)" "as_error (bp_load sample_blob) = None" "as_calls (bp_load sample_blob) = [(''o'', ''p'', ''main'', ''a.txt'')]"
  "as_deps (bp_load sample_blob) = (''o'', ''p'', ''main'', ''a.txt'')" "bp_text sample_blob = Some ''old''" "bp_image sample_blob = None"
  by (simp_all add: blob_run_defs)

lemma sample_blob_reach: "blob_reach sample_blob_answer sample_blob"
proof -
  let ?m = "blob_mount (''o'', ''p'', ''main'', ''a.txt'')"
  have m: "as_calls (bp_load ?m) = [(''o'', ''p'', ''main'', ''a.txt'')]" by (simp add: blob_mount_def useAsync_mount_def useAsync_effect_def)
  have "blob_reach sample_blob_answer (blob_settled 0 (blob_promise sample_blob_answer 0 (''o'', ''p'', ''main'', ''a.txt'')) ?m)"
    using blob_reach.settled [OF blob_reach.mount, of 0 "(''o'', ''p'', ''main'', ''a.txt'')"] m by simp
  from blob_reach.read [OF this, of 0 "\<lparr>bl_text = ''old'', bl_contentType = ''text/plain'', bl_size = 3, bl_isBinary = False\<rparr>"] show ?thesis
    by (simp add: sample_blob_def blob_settled_def blob_load_def blob_mount_def text_effect_def image_effect_def
        useAsync_mount_def useAsync_settle_def useAsync_effect_def deps_path_def sample_blob_answer_def blob_promise_def
        blob_file_def coalesce_def Let_def)
qed

theorem blob_page_shows_address_witness:
  "blob_body sample_blob = BlobCode ''old'' \<and>
   (\<exists>b. sample_blob_answer 0 (as_deps (bp_load sample_blob)) = Inr b \<and> blob_file (bp_load sample_blob) = Some (0, b))"
proof
  show "blob_body sample_blob = BlobCode ''old''" by (simp add: blob_body_def sample_blob_state)
  show "\<exists>b. sample_blob_answer 0 (as_deps (bp_load sample_blob)) = Inr b \<and> blob_file (bp_load sample_blob) = Some (0, b)"
    using blob_page_shows_address [OF sample_blob_reach sample_blob_state(2,3)]
    by (auto simp: Let_def sample_blob_state(4,5) deps_path_def)
qed

text \<open>
  When the file of a new address cannot be loaded, the page shows the error and below it still the file
  of the address before, which Download saves under the new name.
\<close>

theorem missing_file_shows_previous:
  "blob_reach sample_blob_answer sample_missing \<and> deps_path (as_deps (bp_load sample_missing)) = ''b.txt'' \<and>
   as_error (bp_load sample_missing) = Some ''not found'' \<and> blob_body sample_missing = BlobCode ''old'' \<and>
   blob_download sample_missing = Some (''b.txt'', ''old'')"
proof -
  let ?r = "blob_render (''o'', ''p'', ''main'', ''b.txt'') sample_blob"
  have r: "as_calls (bp_load ?r) = [(''o'', ''p'', ''main'', ''a.txt''), (''o'', ''p'', ''main'', ''b.txt'')]"
    "blob_file (bp_load ?r) = blob_file (bp_load sample_blob)" "as_deps (bp_load ?r) = (''o'', ''p'', ''main'', ''b.txt'')"
    "as_active (bp_load ?r) = Some 1" "bp_text ?r = Some ''old''"
    by (simp_all add: blob_run_defs)
  have "blob_promise sample_blob_answer 1 (''o'', ''p'', ''main'', ''b.txt'') = Inl ''not found''"
    by (simp add: blob_promise_def sample_blob_answer_def deps_path_def)
  then have "blob_reach sample_blob_answer sample_missing"
    using blob_reach.settled [OF blob_reach.render [OF sample_blob_reach], of 1 "(''o'', ''p'', ''main'', ''b.txt'')"] r
    by (simp add: sample_missing_def)
  moreover have "as_deps (bp_load sample_missing) = (''o'', ''p'', ''main'', ''b.txt'')" "as_error (bp_load sample_missing) = Some ''not found''"
    "\<not> as_loading (bp_load sample_missing)" "blob_file (bp_load sample_missing) = blob_file (bp_load sample_blob)" "bp_text sample_missing = Some ''old''"
    using r by (simp_all add: sample_missing_def blob_settled_def blob_load_def useAsync_settle_def blob_file_def Let_def)
  ultimately show ?thesis
    by (simp add: blob_body_def blob_download_def sample_blob_state deps_path_def blob_name_def or_string_def)
qed

text \<open>
  No object URL of an image is leaked or given back twice: while the page is shown every URL made but the
  one of the current image was given back once, and when it is left all were.
\<close>

theorem image_urls_given_back:
  assumes "blob_reach answer p"
  shows "distinct (bp_revoked p) \<and> set (bp_revoked p) = {..<length (bp_urls p)} - set_option (bp_image p) \<and>
    bp_revoked (blob_unmount p) = [0..<length (bp_urls (blob_unmount p))]"
proof -
  have u: "bp_revoked p @ (case bp_image p of Some u \<Rightarrow> [u] | None \<Rightarrow> []) = [0..<length (bp_urls p)]"
    using blob_reach_inv [OF assms] by (simp add: blob_inv_def urls_inv_def)
  then have d: "distinct (bp_revoked p @ (case bp_image p of Some u \<Rightarrow> [u] | None \<Rightarrow> []))" by simp
  have "set (bp_revoked p) \<union> set_option (bp_image p) = {..<length (bp_urls p)}"
    using arg_cong [OF u, of set] by (cases "bp_image p") (auto simp: atLeast0LessThan)
  with d u show ?thesis by (cases "bp_image p") (auto simp: blob_unmount_def)
qed

theorem image_urls_given_back_witness: "distinct (bp_revoked sample_blob)"
  using image_urls_given_back [OF sample_blob_reach] by blast

section \<open>Tags and revisions\<close>

inductive tags_reach :: "(string \<times> string \<Rightarrow> TagResponse list) \<Rightarrow> TagsHook \<Rightarrow> bool" for server where
  mount: "tags_reach server (tags_mount p)"
| render: "tags_reach server h \<Longrightarrow> tags_reach server (tags_render p h)"
| load: "tags_reach server h \<Longrightarrow> tags_reach server (tags_load h)"
| answered: "tags_reach server h \<Longrightarrow> f \<in> set (th_flights h) \<Longrightarrow> tags_reach server (tags_settled f (Inr (server (snd f))) h)"
| failed: "tags_reach server h \<Longrightarrow> f \<in> set (th_flights h) \<Longrightarrow> tags_reach server (tags_settled f (Inl err) h)"

definition tags_ok :: "(string \<times> string \<Rightarrow> TagResponse list) \<Rightarrow> TagsHook \<Rightarrow> bool" where
  "tags_ok server h \<longleftrightarrow> (\<forall>f \<in> set (th_flights h). fst f \<le> th_scope h \<and> (fst f = th_scope h \<longrightarrow> snd f = th_project h)) \<and>
     (\<forall>ts. th_tags h = Some ts \<longrightarrow> ts = [] \<or> ts = server (th_project h))"

lemma tags_ok_drop: "tags_ok server h \<Longrightarrow> tags_ok server (h\<lparr>th_flights := remove1 f (th_flights h)\<rparr>)"
  using set_remove1_subset [of f "th_flights h"] unfolding tags_ok_def by simp blast

lemma tags_ok_set:
  "tags_ok server h \<Longrightarrow> ts = [] \<or> ts = server (th_project h) \<Longrightarrow> tags_ok server (h\<lparr>th_tags := Some ts\<rparr>)"
  "tags_ok server (h\<lparr>th_started := b\<rparr>) = tags_ok server h"
  by (simp_all add: tags_ok_def)

lemma tags_inv: "tags_reach server h \<Longrightarrow> tags_ok server h"
proof (induction rule: tags_reach.induct)
  case (answered h f)
  have "snd f = th_project h" if "th_scope h = fst f" using answered that by (simp add: tags_ok_def)
  with answered show ?case by (simp add: tags_settled_def Let_def tags_ok_drop tags_ok_set(1))
next
  case (failed h f err)
  define g where "g = h\<lparr>th_flights := remove1 f (th_flights h)\<rparr>"
  have "tags_ok server g" unfolding g_def by (rule tags_ok_drop [OF failed.IH])
  then have "tags_ok server ((g\<lparr>th_tags := Some []\<rparr>)\<lparr>th_started := False\<rparr>)" unfolding tags_ok_set(2) by (rule tags_ok_set(1)) simp
  moreover have "tags_settled f (Inl err) h = (if th_scope h \<noteq> fst f then g else (g\<lparr>th_tags := Some []\<rparr>)\<lparr>th_started := False\<rparr>)"
    by (simp add: tags_settled_def Let_def g_def)
  ultimately show ?case using \<open>tags_ok server g\<close> by simp
qed (fastforce simp: tags_ok_def tags_mount_def tags_render_def tags_load_def)+

text \<open>
  The menu offers tags of the project that is shown, or none: the answer for a project that was left in
  the meantime is dropped.
\<close>

theorem tags_of_shown_project:
  assumes "tags_reach server h" "th_tags h = Some ts"
  shows "ts = [] \<or> ts = server (th_project h)"
  using tags_inv [OF assms(1)] assms(2) by (simp add: tags_ok_def)

definition sample_tag :: TagResponse where
  "sample_tag = TagResponse.make ''1'' ''v1'' ''c1'' None ''u'' []"

theorem tags_of_shown_project_witness:
  "[sample_tag] = [] \<or> [sample_tag] = (\<lambda>p. if p = (''o'', ''b'') then [sample_tag] else []) (''o'', ''b'')"
proof -
  define server :: "string \<times> string \<Rightarrow> TagResponse list" where "server = (\<lambda>p. if p = (''o'', ''b'') then [sample_tag] else [])"
  define h where "h = tags_settled (2, (''o'', ''b'')) (Inr [sample_tag])
    (tags_load (tags_render (''o'', ''b'') (tags_load (tags_mount (''o'', ''a'')))))"
  have "tags_reach server (tags_settled (2, (''o'', ''b'')) (Inr (server (snd (2 :: nat, (''o'', ''b'')))))
      (tags_load (tags_render (''o'', ''b'') (tags_load (tags_mount (''o'', ''a''))))))"
    by (intro tags_reach.answered tags_reach.load tags_reach.render tags_reach.mount)
      (simp add: tags_load_def tags_render_def tags_mount_def)
  then have "tags_reach server h" by (simp add: h_def server_def)
  moreover have "th_tags h = Some [sample_tag]" "th_project h = (''o'', ''b'')"
    by (simp_all add: h_def tags_settled_def tags_load_def tags_render_def tags_mount_def)
  ultimately show ?thesis using tags_of_shown_project [of server h "[sample_tag]"] by (simp add: server_def)
qed

text \<open>
  Comparing with a branch that has no commits shows nothing at all: no difference is requested and no
  message says why.
\<close>

theorem compare_with_empty_branch:
  assumes "find (\<lambda>b. br_name b = head) (coalesce branches []) = Some b" "br_commit_id b = None" "head \<noteq> []"
  shows "compare_call org project (Some (base, resolve_ref branches tag head)) = None \<and>
    compare_messages head (Some (base, resolve_ref branches tag head)) (None :: 'f list option) = []"
  using assms by (simp add: resolve_ref_def compare_call_def compare_messages_def compare_same_def compare_ready_def coalesce_def)

definition sample_empty_branch :: BranchResponse where
  "sample_empty_branch = BranchResponse.make ''1'' ''new'' False False 0 False False None None None []"

theorem compare_with_empty_branch_witness:
  "compare_call ''o'' ''p'' (Some (Some ''c1'', resolve_ref (Some [sample_empty_branch]) (\<lambda>_. Inr None) ''new'')) = None"
proof -
  have "find (\<lambda>b. br_name b = ''new'') (coalesce (Some [sample_empty_branch]) []) = Some sample_empty_branch"
    "br_commit_id sample_empty_branch = None" "''new'' \<noteq> []"
    by (simp_all add: sample_empty_branch_def BranchResponse.defs coalesce_def)
  from compare_with_empty_branch [OF this] show ?thesis by blast
qed

text \<open>
  A directory shows a readme exactly when it has one, and prefers \<open>readme.md\<close>, then other Markdown.
\<close>

lemma readme_found:
  "(findReadme items = None \<longleftrightarrow> readme_candidates items = []) \<and>
   (\<forall>e. findReadme items = Some e \<longrightarrow> e \<in> set (readme_candidates items) \<and>
      ((\<exists>c \<in> set (readme_candidates items). js_toLowerCase (te_name c) = ''readme.md'') \<longrightarrow> js_toLowerCase (te_name e) = ''readme.md'') \<and>
      ((\<exists>c \<in> set (readme_candidates items). markdown_name (te_name c)) \<longrightarrow> markdown_name (te_name e)))"
proof -
  have md: "js_toLowerCase n = ''readme.md'' \<Longrightarrow> markdown_name n" for n
    by (simp add: markdown_name_def js_endsWith_def js_startsWith_def)
  have first: "e \<in> set xs \<and> P e" if "find P xs = Some e" for P and xs :: "TreeEntryResponse list" and e
    using find_member [OF that] .
  show ?thesis
    unfolding findReadme_def Let_def
    by (auto simp: find_None_iff intro: md dest: first split: option.splits if_splits)
qed

lemma goto_results: "length (goto_files files query) \<le> 100"
  by (simp add: goto_files_def MAX_RESULTS_def Let_def)

end
