(* ===== verification/Models.thy ===== *)
theory Models
  imports Uri Diff_Rows Web_Models Js_Number
begin

text \<open>
  Three-dimensional models in the desktop client: \<open>lib/modelLoad.ts\<close>, which hands the bytes of a model and the files
  it refers to over to the parsers of three.js, and \<open>lib/modelStage.ts\<close>, which draws one or two models. The parsers,
  the bounding box and the renderer are those of three.js: the parsers and the box are parameters, and what is
  drawn is the sequence of commands that the renderer gets. The arithmetic of the camera is left out.
\<close>

section \<open>Bytes\<close>

text \<open>
  \<open>atob\<close>: white space is dropped, then up to two padding characters if the length is a multiple of four; \<open>None\<close>
  is the exception. The characters of its result are the bytes that \<open>base64ToBytes\<close> returns.
\<close>

definition base64_alphabet :: string where
  "base64_alphabet = ''ABCDEFGHIJKLMNOPQRSTUVWXYZabcdefghijklmnopqrstuvwxyz0123456789+/''"

definition base64_value :: "char \<Rightarrow> nat option" where
  "base64_value c = js_findIndex (\<lambda>x. x = c) base64_alphabet"

definition char_of_nat :: "nat \<Rightarrow> char" where
  "char_of_nat n = char_of (n mod 256)"

fun sextets_bytes :: "nat list \<Rightarrow> string option" where
  "sextets_bytes [] = Some []"
| "sextets_bytes [a] = None"
| "sextets_bytes [a, b] = Some [char_of_nat (a * 4 + b div 16)]"
| "sextets_bytes [a, b, c] = Some [char_of_nat (a * 4 + b div 16), char_of_nat (b * 16 + c div 4)]"
| "sextets_bytes (a # b # c # d # r) =
     map_option (\<lambda>s. char_of_nat (a * 4 + b div 16) # char_of_nat (b * 16 + c div 4) # char_of_nat (c * 64 + d) # s)
       (sextets_bytes r)"

definition strip_padding :: "string \<Rightarrow> string" where
  "strip_padding s =
     (if length s mod 4 = 0 then
        (if js_endsWith s ''=='' then take (length s - 2) s else if js_endsWith s ''='' then take (length s - 1) s else s)
      else s)"

definition base64ToBytes :: "string \<Rightarrow> string option" where
  "base64ToBytes b64 =
     (case those (map base64_value (strip_padding (filter (\<lambda>c. \<not> js_is_space c) b64))) of
        None \<Rightarrow> None | Some ns \<Rightarrow> sextets_bytes ns)"

text \<open>\<open>new TextDecoder().decode\<close> on UTF-8: the byte order mark is dropped.\<close>

definition text_decode :: "string \<Rightarrow> string" where
  "text_decode bytes = (if take 3 bytes = [CHR 0xEF, CHR 0xBB, CHR 0xBF] then drop 3 bytes else bytes)"

section \<open>Names and files\<close>

definition clipName :: "string \<Rightarrow> nat \<Rightarrow> string" where
  "clipName name i = (if name \<noteq> [] then name else ''Animation '' @ js_show_nat (i + 1))"

definition clip_names :: "string list \<Rightarrow> string list" where
  "clip_names clips = map (\<lambda>(i, n). clipName n i) (enumerate 0 clips)"

definition renderableFormats :: "string list" where
  "renderableFormats = [''glb'', ''gltf'', ''obj'', ''fbx'', ''usd'', ''usda'', ''usdc'', ''usdz'']"

definition mimeTypes :: "(string \<times> string) list" where
  "mimeTypes = [(''png'', ''image/png''), (''jpg'', ''image/jpeg''), (''jpeg'', ''image/jpeg''), (''webp'', ''image/webp''),
     (''gif'', ''image/gif''), (''ktx2'', ''image/ktx2''), (''bin'', ''application/octet-stream'')]"

text \<open>As in every plain object, the properties of \<open>Object.prototype\<close> are found as well.\<close>

datatype Mime = Mime string | InheritedMime string

definition mimeFor :: "string \<Rightarrow> Mime" where
  "mimeFor path =
     (let ext = js_toLowerCase (last (js_split (CHR ''.'') path)) in
      case map_of mimeTypes ext of
        Some m \<Rightarrow> Mime m
      | None \<Rightarrow> if ext \<in> set js_inherited then InheritedMime ext else Mime ''application/octet-stream'')"

definition clean_step :: "string list \<Rightarrow> string \<Rightarrow> string list" where
  "clean_step out part =
     (if part = [] \<or> part = ''.'' then out
      else if part = ''..'' \<and> out \<noteq> [] \<and> last out \<noteq> ''..'' then butlast out else out @ [part])"

definition cleanPath :: "string \<Rightarrow> string" where
  "cleanPath p = js_join ''/'' (foldl clean_step [] (js_split (CHR ''/'') p))"

definition blankPNG :: string where
  "blankPNG = ''data:image/png;base64,iVBORw0KGgoAAAANSUhEUgAAAAEAAAABCAQAAAC1HAwCAAAAC0lEQVR42mNkYAAAAAYAAjCB0C8AAAAASUVORK5CYII=''"

definition decode_url :: "string \<Rightarrow> string" where
  "decode_url url = coalesce (decodeURIComponent url) url"

text \<open>The files of a model by name, in the order of the keys of the object.\<close>

type_synonym files = "(string \<times> string) list"

definition clean_keys :: "files \<Rightarrow> (string, string) js_map" where
  "clean_keys files =
     foldl (\<lambda>m k. if js_map_has m (cleanPath k) then m else js_map_set m (cleanPath k) k) [] (map fst files)"

definition fileKey :: "files \<Rightarrow> string \<Rightarrow> string option" where
  "fileKey files url = (case js_map_get (clean_keys files) (cleanPath url) of
     Some k \<Rightarrow> Some k | None \<Rightarrow> js_map_get (clean_keys files) (cleanPath (decode_url url)))"

text \<open>The URL modifier of \<open>fileManager\<close>; \<open>None\<close> is the exception for a type that is no string.\<close>

definition local_url :: "string \<Rightarrow> bool" where
  "local_url url \<longleftrightarrow> js_startsWith (js_toLowerCase url) ''data:'' \<or> js_startsWith (js_toLowerCase url) ''blob:''"

definition mime_text :: "Mime \<Rightarrow> string" where
  "mime_text m = (case m of
     Mime t \<Rightarrow> t
   | InheritedMime k \<Rightarrow> if k = ''constructor'' then ''function Object() { [native code] }'' else ''[object Object]'')"

definition texture_placeholder :: "string \<Rightarrow> string option" where
  "texture_placeholder url = (case mimeFor url of
     InheritedMime _ \<Rightarrow> None
   | Mime t \<Rightarrow> Some (if js_startsWith t ''image/'' \<and> \<not> js_endsWith (js_toLowerCase url) ''.ktx2'' then blankPNG
                   else ''data:application/octet-stream;base64,''))"

definition fileManager :: "files \<Rightarrow> string \<Rightarrow> string option" where
  "fileManager files url =
     (if local_url url then Some url
      else case fileKey files url of
        None \<Rightarrow> texture_placeholder url
      | Some k \<Rightarrow>
          if k = [] then texture_placeholder url
          else Some (''data:'' @ mime_text (mimeFor k) @ '';base64,'' @ coalesce (map_of files k) ''undefined''))"

section \<open>Loading\<close>

record ModelStats =
  mt_generator :: string
  mt_meshes :: nat
  mt_primitives :: nat
  mt_vertices :: nat
  mt_triangles :: nat
  mt_materials :: "string list option"
  mt_textures :: nat
  mt_nodes :: nat
  mt_skins :: nat
  mt_joints :: nat
  mt_animations :: "string list option"
  mt_morphTargets :: nat
  mt_min :: "dbl list option"
  mt_max :: "dbl list option"

record ModelSide =
  mo_path :: string
  mo_format :: string
  mo_size :: nat
  mo_stats :: "ModelStats option"
  mo_data :: string
  mo_files :: "files option"
  mo_missing :: "string list option"
  mo_tooLarge :: bool

text \<open>The parsers: each gets the URL modifier, and returns the scene and its clips, or an error.\<close>

record ('m, 'o) Loaders =
  ld_gltf :: "(string \<Rightarrow> string option) \<Rightarrow> bool \<Rightarrow> string \<Rightarrow> string + 'o \<times> string list"
  ld_mtl :: "(string \<Rightarrow> string option) \<Rightarrow> string \<Rightarrow> string \<Rightarrow> (string \<times> 'm) list"
  ld_obj :: "(string \<Rightarrow> string option) \<Rightarrow> (string, 'm) js_map option \<Rightarrow> string \<Rightarrow> string + 'o"
  ld_fbx :: "(string \<Rightarrow> string option) \<Rightarrow> string \<Rightarrow> string + 'o \<times> string list"
  ld_usd :: "(string \<Rightarrow> string option) \<Rightarrow> bool \<Rightarrow> string \<Rightarrow> string + 'o"

definition add_once :: "'a list \<Rightarrow> 'a \<Rightarrow> 'a list" where
  "add_once xs x = (if x \<in> set xs then xs else xs @ [x])"

text \<open>The material libraries that an OBJ file names, as the \<open>Set\<close> holds them.\<close>

definition line_libs :: "string \<Rightarrow> string list" where
  "line_libs line = (case split_spaces (js_trim line) of
     [] \<Rightarrow> [] | keyword # names \<Rightarrow> if keyword = ''mtllib'' then names else [])"

definition mtl_libs :: "string \<Rightarrow> string list" where
  "mtl_libs source = foldl add_once [] (concat (map line_libs (js_split js_nl source)))"

text \<open>\<open>merged.materials[name] ??= m\<close> for all materials of a further library.\<close>

definition merge_materials :: "(string, 'm) js_map \<Rightarrow> (string \<times> 'm) list \<Rightarrow> (string, 'm) js_map" where
  "merge_materials merged ms = foldl (\<lambda>m (n, x). if js_map_has m n then m else js_map_set m n x) merged ms"

definition bad_base64 :: string where "bad_base64 = ''InvalidCharacterError''"

text \<open>The loop over the libraries; \<open>Inl\<close> is the exception of a file that is not base64.\<close>

primrec obj_materials ::
  "('m, 'o) Loaders \<Rightarrow> files \<Rightarrow> string list \<Rightarrow> (string, 'm) js_map option \<Rightarrow> string + (string, 'm) js_map option" where
  "obj_materials ld files [] merged = Inr merged"
| "obj_materials ld files (lib # libs) merged = (case fileKey files lib of
     None \<Rightarrow> obj_materials ld files libs merged
   | Some k \<Rightarrow>
       if k = [] then obj_materials ld files libs merged
       else (case base64ToBytes (coalesce (map_of files k) ''undefined'') of
         None \<Rightarrow> Inl bad_base64
       | Some bytes \<Rightarrow>
           (let ms = ld_mtl ld (fileManager files) (text_decode bytes) (fst (splitPath k)) in
            obj_materials ld files libs (Some (case merged of None \<Rightarrow> ms | Some m \<Rightarrow> merge_materials m ms)))))"

definition no_clips :: "string + 'o \<Rightarrow> string + 'o \<times> string list" where
  "no_clips r = (case r of Inl e \<Rightarrow> Inl e | Inr x \<Rightarrow> Inr (x, []))"

definition loadModel :: "('m, 'o) Loaders \<Rightarrow> ModelSide \<Rightarrow> string + 'o \<times> string list" where
  "loadModel ld side =
     (let files = coalesce (mo_files side) []; manager = fileManager files; fmt = mo_format side in
      case base64ToBytes (mo_data side) of
        None \<Rightarrow> Inl bad_base64
      | Some bytes \<Rightarrow>
          if fmt = ''glb'' then ld_gltf ld manager False bytes
          else if fmt = ''gltf'' then ld_gltf ld manager True (text_decode bytes)
          else if fmt = ''obj'' then
            (let source = text_decode bytes in
             case obj_materials ld files (mtl_libs source) None of
               Inl e \<Rightarrow> Inl e | Inr merged \<Rightarrow> no_clips (ld_obj ld manager merged source))
          else if fmt = ''fbx'' then ld_fbx ld manager bytes
          else if fmt = ''usda'' then no_clips (ld_usd ld manager True (text_decode bytes))
          else if fmt = ''usd'' \<or> fmt = ''usdc'' \<or> fmt = ''usdz'' then no_clips (ld_usd ld manager False bytes)
          else Inl (map js_upper_char fmt @ '' models cannot be shown yet''))"

section \<open>Scenes\<close>

text \<open>
  What the code reads of a scene: objects with their children, bones, and meshes with a geometry and one or more
  materials. Numbers stand for the identity of geometries, materials and textures.
\<close>

record Material =
  ma_id :: nat
  ma_name :: string
  ma_textures :: "nat list"

record Mesh =
  me_geometry :: nat
  me_position :: "nat option"
  me_index :: "nat option"
  me_morphs :: "nat option"
  me_materials :: "Material list"

datatype Object3D = Object3D (ob_uuid: string) (ob_bone: bool) (ob_mesh: "Mesh option") (ob_children: "Object3D list")

fun traverse :: "Object3D \<Rightarrow> Object3D list" where
  "traverse (Object3D u b m cs) = Object3D u b m cs # concat (map traverse cs)"

datatype Disposal = DisposeGeometry nat | DisposeTexture nat | DisposeMaterial nat

definition dispose_mesh :: "Mesh \<Rightarrow> Disposal list" where
  "dispose_mesh m = DisposeGeometry (me_geometry m) #
     concat (map (\<lambda>a. map DisposeTexture (ma_textures a) @ [DisposeMaterial (ma_id a)]) (me_materials m))"

definition disposeModel :: "Object3D \<Rightarrow> Disposal list" where
  "disposeModel obj = concat (map (\<lambda>n. case ob_mesh n of None \<Rightarrow> [] | Some m \<Rightarrow> dispose_mesh m) (traverse obj))"

record SceneCount =
  sc_meshes :: nat
  sc_vertices :: nat
  sc_triangles :: nat
  sc_morphTargets :: nat
  sc_bones :: "string list"
  sc_materials :: "Material list"
  sc_nodes :: nat

definition mesh_vertices :: "Mesh \<Rightarrow> nat" where
  "mesh_vertices m = coalesce (me_position m) 0"

definition mesh_triangles :: "Mesh \<Rightarrow> nat" where
  "mesh_triangles m = coalesce (me_index m) (mesh_vertices m) div 3"

text \<open>The callback of \<open>traverse\<close>.\<close>

definition count_object :: "SceneCount \<Rightarrow> Object3D \<Rightarrow> SceneCount" where
  "count_object c n =
     (let d = c\<lparr>sc_nodes := sc_nodes c + 1, sc_bones := (if ob_bone n then add_once (sc_bones c) (ob_uuid n) else sc_bones c)\<rparr> in
      case ob_mesh n of
        None \<Rightarrow> d
      | Some m \<Rightarrow> d\<lparr>sc_meshes := sc_meshes c + 1, sc_vertices := sc_vertices c + mesh_vertices m,
          sc_triangles := sc_triangles c + mesh_triangles m,
          sc_morphTargets := sc_morphTargets c + coalesce (me_morphs m) 0,
          sc_materials := foldl add_once (sc_materials c) (me_materials m)\<rparr>)"

definition count_start :: SceneCount where
  "count_start = \<lparr>sc_meshes = 0, sc_vertices = 0, sc_triangles = 0, sc_morphTargets = 0, sc_bones = [], sc_materials = [], sc_nodes = 0\<rparr>"

definition material_names :: "Material list \<Rightarrow> string list" where
  "material_names ms = map (\<lambda>(i, m). if ma_name m \<noteq> [] then ma_name m else ''Material '' @ js_show_nat (i + 1)) (enumerate 0 ms)"

text \<open>\<open>box\<close> is \<open>Box3.setFromObject\<close>, with \<open>None\<close> for an empty box.\<close>

definition sceneStats :: "(Object3D \<Rightarrow> (dbl list \<times> dbl list) option) \<Rightarrow> Object3D \<Rightarrow> string list \<Rightarrow> ModelStats" where
  "sceneStats box obj clips =
     (let c = foldl count_object count_start (traverse obj) in
      \<lparr>mt_generator = [], mt_meshes = sc_meshes c, mt_primitives = sc_meshes c, mt_vertices = sc_vertices c,
       mt_triangles = sc_triangles c, mt_materials = Some (material_names (sc_materials c)),
       mt_textures = length (foldl add_once [] (concat (map ma_textures (sc_materials c)))),
       mt_nodes = sc_nodes c, mt_skins = 0, mt_joints = length (sc_bones c), mt_animations = Some (clip_names clips),
       mt_morphTargets = sc_morphTargets c, mt_min = map_option fst (box obj), mt_max = map_option snd (box obj)\<rparr>)"

section \<open>The stage\<close>

datatype StageMode = SideBySide | Overlay

datatype Shading = Shaded | Wireframe | ShadedWireframe

text \<open>
  A loaded model; the number tells the objects of different loads apart. A mixer exists for a model with
  clips, and runs one of them or none.
\<close>

record LoadedModel =
  lm_id :: "bool \<times> nat"
  lm_object :: Object3D
  lm_clips :: "string list"

record StageSide =
  sx_model :: "LoadedModel option"
  sx_mixer :: "nat option option"

text \<open>\<open>sg_added\<close> and \<open>sg_disposed\<close> are the models that were put into a scene and those that were disposed of.\<close>

record ModelStage =
  sg_old :: StageSide
  sg_next :: StageSide
  sg_mode :: StageMode
  sg_shading :: Shading
  sg_width :: nat
  sg_height :: nat
  sg_clipPlaying :: "string option"
  sg_paused :: bool
  sg_running :: bool
  sg_added :: "(bool \<times> nat) list"
  sg_disposed :: "(bool \<times> nat) list"

definition createStage :: ModelStage where
  "createStage = \<lparr>sg_old = \<lparr>sx_model = None, sx_mixer = None\<rparr>, sg_next = \<lparr>sx_model = None, sx_mixer = None\<rparr>,
     sg_mode = SideBySide, sg_shading = Shaded, sg_width = 1, sg_height = 1, sg_clipPlaying = None, sg_paused = False,
     sg_running = True, sg_added = [], sg_disposed = []\<rparr>"

definition play_side :: "string option \<Rightarrow> StageSide \<Rightarrow> StageSide" where
  "play_side clip s = (case (sx_mixer s, sx_model s) of
     (Some _, Some m) \<Rightarrow>
       s\<lparr>sx_mixer := Some (case clip of None \<Rightarrow> None | Some n \<Rightarrow> js_findIndex (\<lambda>x. x = n) (clip_names (lm_clips m)))\<rparr>
   | _ \<Rightarrow> s)"

definition stage_play :: "ModelStage \<Rightarrow> ModelStage" where
  "stage_play s = s\<lparr>sg_old := play_side (sg_clipPlaying s) (sg_old s), sg_next := play_side (sg_clipPlaying s) (sg_next s)\<rparr>"

definition set_side :: "LoadedModel option \<Rightarrow> StageSide \<Rightarrow> StageSide" where
  "set_side model s = \<lparr>sx_model = model, sx_mixer = (case model of
     Some m \<Rightarrow> if lm_clips m \<noteq> [] then Some None else None | None \<Rightarrow> None)\<rparr>"

definition dropped :: "LoadedModel option \<Rightarrow> StageSide \<Rightarrow> (bool \<times> nat) list" where
  "dropped model s = (case sx_model s of
     None \<Rightarrow> [] | Some m \<Rightarrow> if map_option lm_id model = Some (lm_id m) then [] else [lm_id m])"

definition model_ids :: "LoadedModel option \<Rightarrow> (bool \<times> nat) list" where
  "model_ids model = (case model of None \<Rightarrow> [] | Some m \<Rightarrow> [lm_id m])"

definition setModels :: "LoadedModel option \<Rightarrow> LoadedModel option \<Rightarrow> ModelStage \<Rightarrow> ModelStage" where
  "setModels old new s =
     stage_play (s\<lparr>sg_old := set_side old (sg_old s), sg_next := set_side new (sg_next s),
       sg_added := sg_added s @ model_ids old @ model_ids new,
       sg_disposed := sg_disposed s @ dropped old (sg_old s) @ dropped new (sg_next s)\<rparr>)"

definition stage_setMode :: "StageMode \<Rightarrow> ModelStage \<Rightarrow> ModelStage" where
  "stage_setMode m s = s\<lparr>sg_mode := m\<rparr>"

definition stage_setShading :: "Shading \<Rightarrow> ModelStage \<Rightarrow> ModelStage" where
  "stage_setShading h s = s\<lparr>sg_shading := h\<rparr>"

definition playAnimation :: "string option \<Rightarrow> ModelStage \<Rightarrow> ModelStage" where
  "playAnimation name s = stage_play (s\<lparr>sg_clipPlaying := name\<rparr>)"

definition setPaused :: "bool \<Rightarrow> ModelStage \<Rightarrow> ModelStage" where
  "setPaused p s = s\<lparr>sg_paused := p\<rparr>"

definition stage_resize :: "rat \<Rightarrow> rat \<Rightarrow> ModelStage \<Rightarrow> ModelStage" where
  "stage_resize w h s = s\<lparr>sg_width := nat (max 1 \<lfloor>w\<rfloor>), sg_height := nat (max 1 \<lfloor>h\<rfloor>)\<rparr>"

definition stage_dispose :: "ModelStage \<Rightarrow> ModelStage" where
  "stage_dispose s = s\<lparr>sg_running := False,
     sg_disposed := sg_disposed s @ model_ids (sx_model (sg_old s)) @ model_ids (sx_model (sg_next s))\<rparr>"

subsection \<open>A frame\<close>

datatype WhichSide = SceneOld | SceneNext

datatype Paint = OwnMaterials | WirePaint | EdgePaint | GhostPaint

datatype RenderCommand = ScissorTo nat nat nat | ClearAll | ViewportTo nat nat nat | Render WhichSide Paint bool | ClearDepth

definition stage_both :: "ModelStage \<Rightarrow> bool" where
  "stage_both s \<longleftrightarrow> sx_model (sg_old s) \<noteq> None \<and> sx_model (sg_next s) \<noteq> None"

definition panes :: "ModelStage \<Rightarrow> (WhichSide \<times> nat \<times> nat) list" where
  "panes s =
     (if sg_mode s = SideBySide \<and> stage_both s
      then [(SceneOld, 0, sg_width s div 2), (SceneNext, sg_width s div 2, sg_width s - sg_width s div 2)]
      else [(if sx_model (sg_next s) \<noteq> None then SceneNext else SceneOld, 0, sg_width s)])"

definition renderShaded :: "Shading \<Rightarrow> WhichSide \<Rightarrow> RenderCommand list" where
  "renderShaded shading which =
     (if shading \<noteq> Wireframe then [Render which OwnMaterials True] else []) @
     (if shading = Wireframe then [Render which WirePaint True] else []) @
     (if shading = ShadedWireframe then [Render which EdgePaint True] else [])"

definition frame :: "ModelStage \<Rightarrow> RenderCommand list" where
  "frame s =
     [ScissorTo 0 (sg_width s) (sg_height s), ClearAll] @
     concat (map (\<lambda>(which, x, w). ViewportTo x w (sg_height s) # ScissorTo x w (sg_height s) # renderShaded (sg_shading s) which) (panes s)) @
     (if sg_mode s = Overlay \<and> stage_both s then [ClearDepth, Render SceneOld GhostPaint False] else [])"

text \<open>The mixers that a frame moves on.\<close>

definition frame_updates :: "ModelStage \<Rightarrow> WhichSide list" where
  "frame_updates s =
     (if sg_paused s then []
      else (if sx_mixer (sg_old s) \<noteq> None then [SceneOld] else []) @ (if sx_mixer (sg_next s) \<noteq> None then [SceneNext] else []))"

section \<open>Base 64 is read back\<close>

text \<open>The encoding of the service, as a reference: three bytes become four symbols, and the rest is padded.\<close>

fun sextets :: "string \<Rightarrow> nat list" where
  "sextets [] = []"
| "sextets [a] = [of_char a div 4, of_char a mod 4 * 16]"
| "sextets [a, b] = [of_char a div 4, of_char a mod 4 * 16 + of_char b div 16, of_char b mod 16 * 4]"
| "sextets (a # b # c # r) = of_char a div 4 # (of_char a mod 4 * 16 + of_char b div 16) #
     (of_char b mod 16 * 4 + of_char c div 64) # of_char c mod 64 # sextets r"

definition base64_encode :: "string \<Rightarrow> string" where
  "base64_encode s = map (\<lambda>n. base64_alphabet ! n) (sextets s) @ replicate ((3 - length s mod 3) mod 3) (CHR ''='')"

lemma length_alphabet: "length base64_alphabet = 64"
  by (simp add: base64_alphabet_def)

lemma distinct_alphabet: "distinct base64_alphabet"
  by (simp add: base64_alphabet_def)

lemma alphabet_char: "c \<in> set base64_alphabet \<Longrightarrow> \<not> js_is_space c \<and> c \<noteq> CHR ''=''"
  by (auto simp: base64_alphabet_def js_is_space_def)

lemma findIndex_nth: "distinct xs \<Longrightarrow> i < length xs \<Longrightarrow> js_findIndex (\<lambda>x. x = xs ! i) xs = Some i"
proof (induction xs arbitrary: i)
  case (Cons x xs)
  then show ?case by (cases i) (auto simp: nth_mem)
qed simp

lemma base64_value_symbol: "n < 64 \<Longrightarrow> base64_value (base64_alphabet ! n) = Some n"
  using findIndex_nth [OF distinct_alphabet] by (simp add: base64_value_def length_alphabet)

lemma char_of_nat_byte [simp]: "char_of_nat (256 * k + of_char c) = c" "char_of_nat (of_char c + 256 * k) = c" "char_of_nat (of_char c) = c"
  by (simp_all add: char_of_nat_def of_char_less)

lemma byte_div: "(of_char (c :: char) :: nat) div 16 < 16" "(of_char c :: nat) div 64 < 4" "(of_char c :: nat) div 4 < 64"
  using of_char_less [of c] by (auto intro: less_mult_imp_div_less)

lemma mod_div_less: "y < 16 \<Longrightarrow> (x :: nat) mod 4 * 16 + y < 64" "z < 4 \<Longrightarrow> (x :: nat) mod 16 * 4 + z < 64"
  "(x :: nat) mod 4 * 16 < 64" "(x :: nat) mod 16 * 4 < 64"
  using mod_less_divisor [of 4 x] mod_less_divisor [of 16 x] by linarith+

lemma sextets_less: "n \<in> set (sextets s) \<Longrightarrow> n < 64"
  by (induction s rule: sextets.induct) (auto simp: byte_div mod_div_less)

lemma first_byte: "y < 16 \<Longrightarrow> (x :: nat) div 4 * 4 + (x mod 4 * 16 + y) div 16 = x"
  by simp

lemma second_byte: "z < 4 \<Longrightarrow> (x * 16 + (y :: nat) div 16) * 16 + (y mod 16 * 4 + z) div 4 = 256 * x + y"
  by (simp add: algebra_simps)

lemma third_byte: "(y * 4 + (z :: nat) div 64) * 64 + z mod 64 = 256 * y + z"
  by (simp add: algebra_simps)

lemma bytes_sextets: "sextets_bytes (sextets s) = Some s"
proof (induction s rule: sextets.induct)
  case (2 a)
  have "(of_char a :: nat) div 4 * 4 + of_char a mod 4 * 16 div 16 = of_char a" by simp
  then show ?case by simp
next
  case (3 a b)
  show ?case using first_byte [OF byte_div(1), of "of_char a" b] second_byte [of 0 "of_char a mod 4" "of_char b"] by simp
next
  case (4 a b c r)
  then show ?case
    using first_byte [OF byte_div(1), of "of_char a" b] second_byte [OF byte_div(2), of "of_char a mod 4" "of_char b" c]
      third_byte [of "of_char b mod 16" "of_char c"] by simp
qed simp

lemma length_sextets: "(length (sextets s) + (3 - length s mod 3) mod 3) mod 4 = 0"
proof (induction s rule: sextets.induct)
  case (4 a b c r)
  have "length (a # b # c # r) mod 3 = length r mod 3" by simp
  moreover have "length (sextets (a # b # c # r)) = length (sextets r) + 4" by simp
  moreover have "length (sextets r) + 4 + p = length (sextets r) + p + 4" for p by simp
  ultimately show ?case using 4 by (simp only: mod_add_self2)
qed simp_all

lemma strip_padding_symbols:
  assumes "CHR ''='' \<notin> set ms" "(length ms + p) mod 4 = 0" "p < 3"
  shows "strip_padding (ms @ replicate p (CHR ''='')) = ms"
proof -
  have last: "\<not> js_endsWith ms (xs @ ''='')" for xs
    using assms(1) by (auto simp: js_endsWith_suffix suffix_def)
  have one: "\<not> js_endsWith (ms @ ''='') ''==''"
  proof
    assume "js_endsWith (ms @ ''='') ''==''"
    then have "suffix (''='' @ ''='') (ms @ ''='')" by (simp add: js_endsWith_suffix)
    then have "suffix ''='' ms" by (simp only: same_suffix_suffix)
    then show False using assms(1) by (auto simp: suffix_def)
  qed
  have two: "js_endsWith (ms @ ''=='') ''==''" "js_endsWith (ms @ ''='') ''=''" by (simp_all add: js_endsWith_suffix suffix_def)
  consider "p = 0" | "p = 1" | "p = 2" using assms(3) by linarith
  then show ?thesis
    using assms(2) last [of "[]"] last [of "''=''"] one two
    by cases (simp_all add: strip_padding_def numeral_2_eq_2)
qed

text \<open>
  The bytes that the view reads from a string of the service are the bytes that the service encoded.
\<close>

theorem base64_roundtrip: "base64ToBytes (base64_encode s) = Some s"
proof -
  define ms where "ms = map (\<lambda>n. base64_alphabet ! n) (sextets s)"
  have in_alphabet: "c \<in> set base64_alphabet" if "c \<in> set ms" for c
    using that sextets_less by (auto simp: ms_def length_alphabet)
  then have "filter (\<lambda>c. \<not> js_is_space c) (ms @ replicate p (CHR ''='')) = ms @ replicate p (CHR ''='')" for p
    using alphabet_char by (auto simp: filter_id_conv js_is_space_def)
  moreover have "strip_padding (ms @ replicate ((3 - length s mod 3) mod 3) (CHR ''='')) = ms"
    using in_alphabet alphabet_char length_sextets [of s] by (intro strip_padding_symbols) (auto simp: ms_def)
  moreover have "map base64_value ms = map Some (sextets s)"
    using base64_value_symbol sextets_less by (simp add: ms_def)
  ultimately show ?thesis
    unfolding base64ToBytes_def base64_encode_def ms_def [symmetric]
    using those_map_Some [of "sextets s" Some id] by (simp add: bytes_sextets)
qed

section \<open>Clean paths\<close>

definition clean_parts :: "string list \<Rightarrow> bool" where
  "clean_parts ps \<longleftrightarrow> list_all (\<lambda>p. p \<noteq> [] \<and> p \<noteq> ''.'' \<and> CHR ''/'' \<notin> set p) ps \<and> ''..'' \<notin> set (dropWhile (\<lambda>p. p = ''..'') ps)"

lemma dropWhile_butlast: "set (dropWhile P (butlast xs)) \<subseteq> set (dropWhile P xs)"
  by (induction xs) (auto dest: in_set_butlastD)

lemma dropWhile_append_set: "set (dropWhile P xs) \<subseteq> set (dropWhile P (xs @ ys))"
  by (induction xs) auto

lemma last_dropWhile: "xs \<noteq> [] \<Longrightarrow> \<not> P (last xs) \<Longrightarrow> last xs \<in> set (dropWhile P xs)"
  by (induction xs) (auto split: if_splits)

lemma last_dropWhile_Nil: "xs \<noteq> [] \<Longrightarrow> last xs \<notin> set (dropWhile P xs) \<Longrightarrow> dropWhile P xs = []"
  by (induction xs) (auto split: if_splits)

lemma dropWhile_snoc: "set (dropWhile P (xs @ [x])) \<subseteq> insert x (set (dropWhile P xs))"
  by (induction xs) auto

lemma clean_step_parts:
  assumes "clean_parts out" "CHR ''/'' \<notin> set part"
  shows "clean_parts (clean_step out part)"
proof -
  let ?P = "\<lambda>p. p = ''..''"
  have all: "list_all (\<lambda>p. p \<noteq> [] \<and> p \<noteq> ''.'' \<and> CHR ''/'' \<notin> set p) (clean_step out part)"
    using assms by (auto simp: clean_parts_def clean_step_def list_all_iff dest: in_set_butlastD)
  have dots: "''..'' \<notin> set (dropWhile ?P out)" using assms(1) by (simp add: clean_parts_def)
  have "''..'' \<notin> set (dropWhile ?P (out @ [part]))" if "part = ''..'' \<longrightarrow> out = [] \<or> last out = ''..''"
  proof (cases "part = ''..''")
    case True
    have "dropWhile ?P out = []"
    proof (cases "out = []")
      case False
      then have "last out = ''..''" using True that by simp
      then show ?thesis using False dots by (intro last_dropWhile_Nil) simp_all
    qed simp
    then have "\<forall>x \<in> set out. ?P x" by (simp only: dropWhile_eq_Nil_conv)
    with True show ?thesis by (simp add: dropWhile_append)
  next
    case False
    with dots show ?thesis using dropWhile_snoc [of ?P out part] by auto
  qed
  moreover have "''..'' \<notin> set (dropWhile ?P (butlast out))" using dots dropWhile_butlast [of ?P out] by blast
  ultimately have "''..'' \<notin> set (dropWhile ?P (clean_step out part))" using dots by (auto simp: clean_step_def)
  with all show ?thesis by (simp add: clean_parts_def)
qed

lemma clean_fold_parts:
  "clean_parts out \<Longrightarrow> list_all (\<lambda>p. CHR ''/'' \<notin> set p) ps \<Longrightarrow> clean_parts (foldl clean_step out ps)"
  by (induction ps arbitrary: out) (simp_all add: clean_step_parts)

lemma clean_fold_id: "clean_parts ps \<Longrightarrow> foldl clean_step [] ps = ps"
proof (induction ps rule: rev_induct)
  case (snoc x ps)
  let ?P = "\<lambda>p. p = ''..''"
  from snoc.prems have "''..'' \<notin> set (dropWhile ?P (ps @ [x]))" by (simp add: clean_parts_def)
  then have "clean_parts ps" using snoc.prems dropWhile_append_set [of ?P ps "[x]"] by (auto simp: clean_parts_def)
  then have "foldl clean_step [] ps = ps" by (rule snoc.IH)
  moreover have "x = ''..'' \<Longrightarrow> ps = [] \<or> last ps = ''..''"
  proof (rule ccontr)
    assume "x = ''..''" "\<not> (ps = [] \<or> last ps = ''..'')"
    then have "\<not> (\<forall>y \<in> set ps. ?P y)" by auto
    then have "x \<in> set (dropWhile ?P (ps @ [x]))" by (auto simp: dropWhile_append)
    with \<open>x = ''..''\<close> \<open>''..'' \<notin> set (dropWhile ?P (ps @ [x]))\<close> show False by simp
  qed
  ultimately have "foldl clean_step [] (ps @ [x]) = clean_step ps x" and plain: "\<not> (x = ''..'' \<and> ps \<noteq> [] \<and> last ps \<noteq> ''..'')" by auto
  moreover from plain have "clean_step ps x = ps @ [x]" using snoc.prems by (auto simp: clean_step_def clean_parts_def)
  ultimately show ?case by simp
qed simp

text \<open>
  A cleaned path has no empty part and no dot, climbs only at its start, and cleaning it again changes nothing;
  two spellings of one path are found under one name.
\<close>

theorem clean_path_normal:
  "cleanPath (cleanPath p) = cleanPath p \<and> (\<exists>ps. clean_parts ps \<and> cleanPath p = js_join ''/'' ps)"
proof -
  define ps where "ps = foldl clean_step [] (js_split (CHR ''/'') p)"
  have "list_all (\<lambda>q. CHR ''/'' \<notin> set q) (js_split (CHR ''/'') p)" using js_split_pieces [of _ "CHR ''/''" p] by (simp add: list_all_iff)
  then have clean: "clean_parts ps" unfolding ps_def by (intro clean_fold_parts) (simp_all add: clean_parts_def)
  have "foldl clean_step [] (js_split (CHR ''/'') (js_join ''/'' ps)) = ps"
  proof (cases "ps = []")
    case True
    then show ?thesis by (simp add: clean_step_def)
  next
    case False
    have "js_split (CHR ''/'') (js_join ''/'' ps) = ps"
      using False clean by (intro js_split_join) (auto simp: clean_parts_def list_all_iff)
    then show ?thesis by (simp add: clean_fold_id [OF clean])
  qed
  then have "cleanPath (js_join ''/'' ps) = js_join ''/'' ps" by (simp add: cleanPath_def)
  moreover have "cleanPath p = js_join ''/'' ps" by (simp add: cleanPath_def ps_def)
  ultimately show ?thesis using clean by auto
qed

section \<open>Files of a model\<close>

lemma js_map_has_get: "js_map_has m k \<longleftrightarrow> js_map_get m k \<noteq> None"
  by (simp add: js_map_has_def js_map_get_def map_of_eq_None_iff)

lemma clean_keys_get:
  "js_map_get (foldl (\<lambda>m k. if js_map_has m (cleanPath k) then m else js_map_set m (cleanPath k) k) m ks) c =
    (case js_map_get m c of Some k \<Rightarrow> Some k | None \<Rightarrow> find (\<lambda>k. cleanPath k = c) ks)"
proof (induction ks arbitrary: m)
  case Nil
  show ?case by (cases "js_map_get m c") simp_all
next
  case (Cons k ks)
  show ?case
  proof (cases "js_map_has m (cleanPath k)")
    case True
    then have "js_map_get m (cleanPath k) \<noteq> None" by (simp add: js_map_has_get)
    with True show ?thesis by (auto simp: Cons.IH split: option.splits)
  next
    case False
    then have "js_map_get m (cleanPath k) = None" by (simp add: js_map_has_get)
    with False show ?thesis by (auto simp: Cons.IH js_map.get_put split: option.splits)
  qed
qed

text \<open>
  A URL of a model is looked up among the cleaned names of its files, first as it is written and then decoded; of
  several files with the same cleaned name it is the first.
\<close>

theorem model_file_lookup:
  "fileKey files url =
    (case find (\<lambda>k. cleanPath k = cleanPath url) (map fst files) of
       Some k \<Rightarrow> Some k | None \<Rightarrow> find (\<lambda>k. cleanPath k = cleanPath (decode_url url)) (map fst files))"
proof -
  have "js_map_get (clean_keys files) c = find (\<lambda>k. cleanPath k = c) (map fst files)" for c
    using clean_keys_get [of "[]" "map fst files" c] by (simp add: clean_keys_def js_map_get_def)
  then show ?thesis unfolding fileKey_def by presburger
qed

text \<open>
  Whatever URL a model names, its loader is never sent to the network: every URL that the manager gives is
  data or a blob of this page. A URL that names a file of the model gives the content of that file.
\<close>

theorem model_urls_stay_local:
  assumes "fileManager files url = Some u"
  shows "local_url u \<and>
    (\<not> local_url url \<longrightarrow> (\<forall>k. fileKey files url = Some k \<and> k \<noteq> [] \<longrightarrow>
       (\<exists>mime. u = ''data:'' @ mime @ '';base64,'' @ coalesce (map_of files k) ''undefined'')))"
proof -
  have data: "local_url (''data:'' @ t)" for t
    by (simp add: local_url_def js_startsWith_def js_toLowerCase_def js_lower_char_def)
  have "local_url u" if "texture_placeholder url = Some u"
    using that data [of "drop 5 blankPNG"] data [of "''application/octet-stream;base64,''"]
    by (auto simp: texture_placeholder_def blankPNG_def split: Mime.splits if_splits)
  with assms data show ?thesis by (auto simp: fileManager_def split: if_splits option.splits)
qed

theorem model_urls_stay_local_witness:
  "fileManager [(''a b.png'', ''AAAA'')] ''./tex/../a%20b.png'' = Some ''data:image/png;base64,AAAA'' \<and>
   local_url ''data:image/png;base64,AAAA''"
proof
  show "fileManager [(''a b.png'', ''AAAA'')] ''./tex/../a%20b.png'' = Some ''data:image/png;base64,AAAA''" by code_simp
  from model_urls_stay_local [OF this] show "local_url ''data:image/png;base64,AAAA''" by blast
qed

text \<open>
  An image with an extension such as \<open>constructor\<close> breaks the loader: its type is a property of
  \<open>Object.prototype\<close>, which is no string.
\<close>

theorem inherited_mime_throws: "fileManager [] ''skin.constructor'' = None \<and> fileManager [] ''skin.tga'' \<noteq> None"
  by code_simp

section \<open>Material libraries\<close>

lemma merge_get:
  "js_map_get (merge_materials m ms) n = (case js_map_get m n of Some x \<Rightarrow> Some x | None \<Rightarrow> map_of ms n)"
  unfolding merge_materials_def
proof (induction ms arbitrary: m)
  case Nil
  show ?case by (cases "js_map_get m n") simp_all
next
  case (Cons p ms)
  obtain k x where p: "p = (k, x)" by fastforce
  show ?case
  proof (cases "js_map_has m k")
    case True
    then have "js_map_get m k \<noteq> None" by (simp add: js_map_has_get)
    with True show ?thesis by (auto simp: p Cons.IH split: option.splits)
  next
    case False
    then have "js_map_get m k = None" by (simp add: js_map_has_get)
    with False show ?thesis by (auto simp: p Cons.IH js_map.get_put split: option.splits)
  qed
qed

text \<open>The materials of one library that a model names.\<close>

definition lib_materials :: "('m, 'o) Loaders \<Rightarrow> files \<Rightarrow> string \<Rightarrow> (string \<times> 'm) list" where
  "lib_materials ld files lib = (case fileKey files lib of
     None \<Rightarrow> []
   | Some k \<Rightarrow> if k = [] then []
       else ld_mtl ld (fileManager files) (text_decode (coalesce (base64ToBytes (coalesce (map_of files k) ''undefined'')) [])) (fst (splitPath k)))"

lemma obj_materials_get:
  "obj_materials ld files libs merged = Inr m \<Longrightarrow>
    map_of (coalesce m []) n =
      (case map_of (coalesce merged []) n of Some x \<Rightarrow> Some x | None \<Rightarrow> map_of (concat (map (lib_materials ld files) libs)) n)"
proof (induction libs arbitrary: merged)
  case Nil
  then show ?case by (cases "map_of (coalesce merged []) n") simp_all
next
  case (Cons lib libs)
  consider (none) "lib_materials ld files lib = []" "obj_materials ld files libs merged = Inr m"
    | (some) "obj_materials ld files libs (Some (case merged of None \<Rightarrow> lib_materials ld files lib
         | Some m \<Rightarrow> merge_materials m (lib_materials ld files lib))) = Inr m"
    using Cons.prems by (auto simp: lib_materials_def Let_def split: option.splits if_splits)
  then show ?case
  proof cases
    case none
    have "map_of (concat (map (lib_materials ld files) (lib # libs))) n = map_of (concat (map (lib_materials ld files) libs)) n"
      by (simp add: none(1))
    with Cons.IH [OF none(2)] show ?thesis by presburger
  next
    case some
    have "map_of (case merged of None \<Rightarrow> lib_materials ld files lib | Some m \<Rightarrow> merge_materials m (lib_materials ld files lib)) n =
        (case map_of (coalesce merged []) n of Some x \<Rightarrow> Some x | None \<Rightarrow> map_of (lib_materials ld files lib) n)"
      using merge_get [of "the merged" "lib_materials ld files lib" n] by (cases merged) (auto simp: js_map_get_def)
    with Cons.IH [OF some] show ?thesis by (auto simp: map_add_def split: option.splits)
  qed
qed

text \<open>
  A material of an OBJ model comes from the first of its libraries, in the order in which the model names them,
  that has a material of that name.
\<close>

theorem first_library_wins:
  assumes "obj_materials ld files libs None = Inr m"
  shows "map_of (coalesce m []) n = map_of (concat (map (lib_materials ld files) libs)) n"
  using obj_materials_get [OF assms, of n] by simp

section \<open>Counting a scene\<close>

lemma add_once_set [simp]: "set (add_once xs x) = insert x (set xs)"
  by (auto simp: add_once_def)

lemma add_once_distinct: "distinct xs \<Longrightarrow> distinct (add_once xs x)"
  by (simp add: add_once_def)

lemma fold_add_once:
  "set (foldl add_once xs ys) = set xs \<union> set ys \<and> (distinct xs \<longrightarrow> distinct (foldl add_once xs ys))"
  by (induction ys arbitrary: xs) (auto simp: add_once_distinct)

lemma length_add_once: "length (foldl add_once [] ys) = card (set ys)"
  using fold_add_once [of "[]" ys] distinct_card [of "foldl add_once [] ys"] by simp

definition scene_meshes :: "Object3D list \<Rightarrow> Mesh list" where
  "scene_meshes ns = concat (map (\<lambda>n. case ob_mesh n of None \<Rightarrow> [] | Some m \<Rightarrow> [m]) ns)"

lemma count_objects:
  "sc_nodes (foldl count_object c ns) = sc_nodes c + length ns \<and>
   sc_meshes (foldl count_object c ns) = sc_meshes c + length (scene_meshes ns) \<and>
   sc_vertices (foldl count_object c ns) = sc_vertices c + sum_list (map mesh_vertices (scene_meshes ns)) \<and>
   sc_triangles (foldl count_object c ns) = sc_triangles c + sum_list (map mesh_triangles (scene_meshes ns)) \<and>
   sc_bones (foldl count_object c ns) = foldl add_once (sc_bones c) (map ob_uuid (filter ob_bone ns)) \<and>
   sc_materials (foldl count_object c ns) = foldl add_once (sc_materials c) (concat (map me_materials (scene_meshes ns)))"
proof (induction ns arbitrary: c)
  case (Cons n ns)
  then show ?case by (cases "ob_mesh n") (simp_all add: count_object_def scene_meshes_def Let_def)
qed (simp add: scene_meshes_def)

lemma disposed_textures:
  "{t. DisposeTexture t \<in> set (disposeModel obj)} =
    (\<Union>a \<in> set (concat (map me_materials (scene_meshes (traverse obj)))). set (ma_textures a))"
  by (auto simp: disposeModel_def dispose_mesh_def scene_meshes_def split: option.splits)

text \<open>
  Property C38. The figures of a scene are those of its parts: every object, mesh, vertex and triangle counts once for each
  place it is used, and every material, bone and texture once however often it is used. The textures that are
  counted are those that are given back when the model is dropped.
\<close>

theorem scene_figures:
  "let st = sceneStats box obj clips; ms = scene_meshes (traverse obj) in
   mt_nodes st = length (traverse obj) \<and> mt_meshes st = length ms \<and>
   mt_vertices st = sum_list (map mesh_vertices ms) \<and> mt_triangles st = sum_list (map mesh_triangles ms) \<and>
   map_option length (mt_materials st) = Some (card (set (concat (map me_materials ms)))) \<and>
   mt_joints st = card (ob_uuid ` {n \<in> set (traverse obj). ob_bone n}) \<and>
   mt_textures st = card {t. DisposeTexture t \<in> set (disposeModel obj)}"
proof -
  define ns c where "ns = traverse obj" and "c = foldl count_object count_start ns"
  have c: "sc_nodes c = length ns" "sc_meshes c = length (scene_meshes ns)" "sc_vertices c = sum_list (map mesh_vertices (scene_meshes ns))"
    "sc_triangles c = sum_list (map mesh_triangles (scene_meshes ns))"
    "sc_bones c = foldl add_once [] (map ob_uuid (filter ob_bone ns))"
    "sc_materials c = foldl add_once [] (concat (map me_materials (scene_meshes ns)))"
    using count_objects [of count_start ns] by (simp_all add: c_def count_start_def)
  have mats: "set (sc_materials c) = set (concat (map me_materials (scene_meshes ns)))"
    using fold_add_once [of "[]" "concat (map me_materials (scene_meshes ns))"] by (simp add: c(6))
  have "set (concat (map ma_textures (sc_materials c))) = {t. DisposeTexture t \<in> set (disposeModel obj)}"
    by (simp add: disposed_textures ns_def [symmetric] mats)
  then have textures: "length (foldl add_once [] (concat (map ma_textures (sc_materials c)))) = card {t. DisposeTexture t \<in> set (disposeModel obj)}"
    by (simp only: length_add_once)
  have materials: "length (sc_materials c) = card (set (concat (map me_materials (scene_meshes ns))))" by (simp only: c(6) length_add_once)
  have bones: "length (sc_bones c) = card (ob_uuid ` {n \<in> set ns. ob_bone n})" by (simp add: c(5) length_add_once)
  show ?thesis
    by (simp add: sceneStats_def Let_def ns_def [symmetric] c_def [symmetric] material_names_def c(1-4) textures bones materials)
qed

end
