(* ===== verification/Model_View.thy ===== *)
theory Model_View
  imports Models Audio_View
begin

text \<open>
  The comparison of two versions of a model as a view, \<open>ModelDiff.tsx\<close>: the two loads, the buttons over the stage of
  \<open>lib/modelStage.ts\<close>, the notices and the table of figures. The view and the stage keep the same facts twice, so the
  properties are about the two agreeing, and about the models that are given back.
\<close>

section \<open>Loading a side\<close>

type_synonym ModelCompare = "ModelSide option \<times> ModelSide option"

datatype ModelBody = ModelLoading | ModelMeta "string \<times> string \<times> (string \<times> string) list" | ModelShown ModelCompare

definition ModelDiff :: "FileDiff \<Rightarrow> (string + ModelCompare option) option \<Rightarrow> ModelBody" where
  "ModelDiff d answer = (case answer of
     None \<Rightarrow> ModelLoading
   | Some (Inl err) \<Rightarrow> ModelMeta (MetaDiff d (Some (''The model could not be read: '' @ err)))
   | Some (Inr None) \<Rightarrow> ModelMeta (MetaDiff d (Some ''There is no preview for this model.''))
   | Some (Inr (Some (old, new))) \<Rightarrow>
       if old = None \<and> new = None then ModelMeta (MetaDiff d (Some ''There is no preview for this model.''))
       else ModelShown (old, new))"

definition renderable :: "ModelSide option \<Rightarrow> bool" where
  "renderable s = (case s of
     None \<Rightarrow> False | Some m \<Rightarrow> \<not> mo_tooLarge m \<and> mo_data m \<noteq> [] \<and> mo_format m \<in> set renderableFormats)"

text \<open>
  \<open>useLoadedSide\<close>: \<open>hk_calls\<close> are the sides that were loaded, \<open>hk_live\<close> the load whose answer is still wanted.
\<close>

record SideHook =
  hk_side :: "ModelSide option"
  hk_model :: "LoadedModel option"
  hk_error :: "string option"
  hk_loading :: bool
  hk_live :: "nat option"
  hk_calls :: "ModelSide list"

definition hook_effect :: "SideHook \<Rightarrow> SideHook" where
  "hook_effect h = (case hk_side h of
     Some s \<Rightarrow>
       if renderable (Some s)
       then h\<lparr>hk_model := None, hk_error := None, hk_loading := True, hk_live := Some (length (hk_calls h)), hk_calls := hk_calls h @ [s]\<rparr>
       else h\<lparr>hk_model := None, hk_error := None, hk_loading := False, hk_live := None\<rparr>
   | None \<Rightarrow> h\<lparr>hk_model := None, hk_error := None, hk_loading := False, hk_live := None\<rparr>)"

definition hook_mount :: "ModelSide option \<Rightarrow> SideHook" where
  "hook_mount s = hook_effect \<lparr>hk_side = s, hk_model = None, hk_error = None, hk_loading = renderable s, hk_live = None, hk_calls = []\<rparr>"

definition hook_render :: "ModelSide option \<Rightarrow> SideHook \<Rightarrow> SideHook" where
  "hook_render s h = (if s = hk_side h then h else hook_effect (h\<lparr>hk_side := s\<rparr>))"

definition side_settled :: "nat \<Rightarrow> string + LoadedModel \<Rightarrow> SideHook \<Rightarrow> SideHook" where
  "side_settled i r h =
     (if hk_live h = Some i
      then (case r of
        Inr m \<Rightarrow> h\<lparr>hk_model := Some m, hk_error := None, hk_loading := False\<rparr>
      | Inl e \<Rightarrow> h\<lparr>hk_model := None, hk_error := Some e, hk_loading := False\<rparr>)
      else h)"

section \<open>The view\<close>

record ModelView =
  mv_old :: SideHook
  mv_new :: SideHook
  mv_mode :: StageMode
  mv_shading :: Shading
  mv_animation :: string
  mv_playing :: bool
  mv_stage :: "ModelStage option"
  mv_stageError :: "string option"

definition animation_name :: "string \<Rightarrow> string option" where
  "animation_name a = (if a = [] then None else Some a)"

definition on_stage :: "(ModelStage \<Rightarrow> ModelStage) \<Rightarrow> ModelView \<Rightarrow> ModelView" where
  "on_stage f v = v\<lparr>mv_stage := map_option f (mv_stage v)\<rparr>"

text \<open>The effect on the two models: it runs when one of them is another one.\<close>

definition show_models :: "SideHook \<Rightarrow> SideHook \<Rightarrow> ModelView \<Rightarrow> ModelView" where
  "show_models old new v =
     (let w = v\<lparr>mv_old := old, mv_new := new\<rparr> in
      if hk_model old = hk_model (mv_old v) \<and> hk_model new = hk_model (mv_new v) then w
      else on_stage (setModels (hk_model old) (hk_model new)) w)"

text \<open>Mounting: \<open>r\<close> is the exception of \<open>createStage\<close> or the size of the box it is put in.\<close>

definition model_mount :: "ModelCompare \<Rightarrow> string + rat \<times> rat \<Rightarrow> ModelView" where
  "model_mount c r =
     \<lparr>mv_old = hook_mount (fst c), mv_new = hook_mount (snd c), mv_mode = SideBySide, mv_shading = Shaded, mv_animation = [],
      mv_playing = False,
      mv_stage = (case r of
        Inl _ \<Rightarrow> None
      | Inr (w, h) \<Rightarrow> Some (setPaused True (playAnimation None (stage_setShading Shaded (stage_setMode SideBySide
          (setModels None None (stage_resize w h createStage))))))),
      mv_stageError = (case r of Inl e \<Rightarrow> Some e | Inr _ \<Rightarrow> None)\<rparr>"

definition model_compare :: "ModelCompare \<Rightarrow> ModelView \<Rightarrow> ModelView" where
  "model_compare c v = show_models (hook_render (fst c) (mv_old v)) (hook_render (snd c) (mv_new v)) v"

definition model_settled :: "bool \<Rightarrow> nat \<Rightarrow> string + LoadedModel \<Rightarrow> ModelView \<Rightarrow> ModelView" where
  "model_settled new i r v =
     (if new then show_models (mv_old v) (side_settled i r (mv_new v)) v else show_models (side_settled i r (mv_old v)) (mv_new v) v)"

definition model_setMode :: "StageMode \<Rightarrow> ModelView \<Rightarrow> ModelView" where
  "model_setMode m v = on_stage (stage_setMode m) (v\<lparr>mv_mode := m\<rparr>)"

definition model_setShading :: "Shading \<Rightarrow> ModelView \<Rightarrow> ModelView" where
  "model_setShading h v = on_stage (stage_setShading h) (v\<lparr>mv_shading := h\<rparr>)"

text \<open>The effect on the animation runs only when it changes.\<close>

definition setAnimation :: "string \<Rightarrow> ModelView \<Rightarrow> ModelView" where
  "setAnimation a v = (if a = mv_animation v then v else on_stage (playAnimation (animation_name a)) (v\<lparr>mv_animation := a\<rparr>))"

definition togglePlaying :: "ModelView \<Rightarrow> ModelView" where
  "togglePlaying v = on_stage (setPaused (mv_playing v)) (v\<lparr>mv_playing := \<not> mv_playing v\<rparr>)"

definition model_resize :: "rat \<Rightarrow> rat \<Rightarrow> ModelView \<Rightarrow> ModelView" where
  "model_resize w h v = on_stage (stage_resize w h) v"

definition hook_unmount :: "SideHook \<Rightarrow> SideHook" where
  "hook_unmount h = h\<lparr>hk_live := None\<rparr>"

text \<open>Unmounting returns the stage as it was left, to say what became of the models.\<close>

definition model_unmount :: "ModelView \<Rightarrow> ModelView \<times> ModelStage option" where
  "model_unmount v =
     (v\<lparr>mv_old := hook_unmount (mv_old v), mv_new := hook_unmount (mv_new v), mv_stage := None\<rparr>, map_option stage_dispose (mv_stage v))"

definition models_both :: "ModelView \<Rightarrow> bool" where
  "models_both v \<longleftrightarrow> hk_model (mv_old v) \<noteq> None \<and> hk_model (mv_new v) \<noteq> None"

text \<open>\<open>[...new Set(...)]\<close> of the clips of both models.\<close>

definition hook_clips :: "SideHook \<Rightarrow> string list" where
  "hook_clips h = (case hk_model h of None \<Rightarrow> [] | Some m \<Rightarrow> clip_names (lm_clips m))"

definition clips :: "ModelView \<Rightarrow> string list" where
  "clips v = foldl add_once [] (hook_clips (mv_old v) @ hook_clips (mv_new v))"

definition model_side_notices :: "string \<Rightarrow> SideHook \<Rightarrow> string list" where
  "model_side_notices label h = (case hk_side h of
     None \<Rightarrow> []
   | Some s \<Rightarrow>
       (if mo_tooLarge s
        then [label @ '': the model and its files are too large to show ('' @ formatBytes (mo_size s) @ ''); only statistics are compared.'']
        else if mo_format s \<notin> set renderableFormats then [label @ '': '' @ map js_upper_char (mo_format s) @ '' models cannot be shown yet.'']
        else []) @
       (case hk_error h of Some e \<Rightarrow> if e = [] then [] else [label @ '': '' @ e] | None \<Rightarrow> []) @
       (case mo_missing s of Some ms \<Rightarrow> if ms = [] then [] else [label @ '': missing '' @ js_join '', '' ms] | None \<Rightarrow> []))"

definition model_notices :: "ModelView \<Rightarrow> string list" where
  "model_notices v = model_side_notices ''Before'' (mv_old v) @ model_side_notices ''After'' (mv_new v) @
     (case mv_stageError v of Some e \<Rightarrow> if e = [] then [] else [''3D preview is not available here: '' @ e] | None \<Rightarrow> [])"

text \<open>The labels over the stage, and what covers it.\<close>

definition pane_labels :: "ModelView \<Rightarrow> string list" where
  "pane_labels v =
     (if models_both v then
        (if mv_mode v = SideBySide then [''Before'', ''After''] else [''After '' @ [CHR 0xC2, CHR 0xB7] @ '' Before as orange wireframe''])
      else if hk_model (mv_new v) \<noteq> None then [if hk_side (mv_old v) \<noteq> None then ''After'' else ''Added'']
      else if hk_model (mv_old v) \<noteq> None then [if hk_side (mv_new v) \<noteq> None then ''Before'' else ''Deleted''] else [])"

definition model_cover :: "ModelView \<Rightarrow> bool \<times> bool" where
  "model_cover v = (hk_loading (mv_old v) \<or> hk_loading (mv_new v),
     \<not> (renderable (hk_side (mv_old v)) \<or> renderable (hk_side (mv_new v))))"

section \<open>Figures\<close>

definition model_stats :: "(Object3D \<Rightarrow> (dbl list \<times> dbl list) option) \<Rightarrow> SideHook \<Rightarrow> ModelStats option" where
  "model_stats box h = (case Option.bind (hk_side h) mo_stats of
     Some st \<Rightarrow> Some st | None \<Rightarrow> map_option (\<lambda>m. sceneStats box (lm_object m) (lm_clips m)) (hk_model h))"

definition model_statRows :: "(string \<times> (ModelStats \<Rightarrow> nat)) list" where
  "model_statRows =
     [(''Vertices'', mt_vertices), (''Triangles'', mt_triangles), (''Meshes'', mt_meshes),
      (''Materials'', \<lambda>s. length (coalesce (mt_materials s) [])), (''Textures'', mt_textures), (''Bones'', mt_joints),
      (''Animations'', \<lambda>s. length (coalesce (mt_animations s) [])), (''Morph targets'', mt_morphTargets)]"

text \<open>A coordinate of \<open>min\<close> that is missing gives \<open>NaN\<close>.\<close>

definition bound_text :: "dbl list \<Rightarrow> nat \<times> dbl \<Rightarrow> string" where
  "bound_text mins p = (if fst p < length mins then signed_fixed 2 (dbl_sub (snd p) (mins ! fst p)) else ''NaN'')"

definition boundsSize :: "ModelStats option \<Rightarrow> string" where
  "boundsSize s = (case s of
     None \<Rightarrow> dash_text
   | Some st \<Rightarrow> (case (mt_min st, mt_max st) of
       (Some mins, Some maxs) \<Rightarrow> js_join ('' '' @ [CHR 0xC3, CHR 0x97] @ '' '') (map (bound_text mins) (enumerate 0 maxs))
     | _ \<Rightarrow> dash_text))"

definition Delta :: "(nat \<Rightarrow> string) \<Rightarrow> int \<Rightarrow> string option" where
  "Delta toLocaleString d =
     (if d = 0 then None else Some (if d > 0 then ''+'' @ toLocaleString (nat d) else minus_sign @ toLocaleString (nat (- d))))"

definition model_line :: "(nat \<Rightarrow> string) \<Rightarrow> ModelStats option \<Rightarrow> ModelStats option \<Rightarrow> string \<times> (ModelStats \<Rightarrow> nat) \<Rightarrow> StatLine" where
  "model_line toLocaleString a b r =
     \<lparr>sn_label = fst r, sn_before = (case a of Some x \<Rightarrow> toLocaleString (snd r x) | None \<Rightarrow> dash_text),
      sn_after = (case b of Some y \<Rightarrow> toLocaleString (snd r y) | None \<Rightarrow> dash_text), sn_marked = False,
      sn_change = (case (a, b) of (Some x, Some y) \<Rightarrow> Delta toLocaleString (int (snd r y) - int (snd r x)) | _ \<Rightarrow> None)\<rparr>"

definition generator_text :: "ModelStats option \<Rightarrow> string" where
  "generator_text s = (case s of Some st \<Rightarrow> mt_generator st | None \<Rightarrow> [])"

definition ModelStatsTable :: "(nat \<Rightarrow> string) \<Rightarrow> ModelSide option \<Rightarrow> ModelSide option \<Rightarrow> ModelStats option \<Rightarrow> ModelStats option \<Rightarrow> StatLine list" where
  "ModelStatsTable toLocaleString old new a b =
     (let size = (\<lambda>s. case s of Some m \<Rightarrow> formatBytes (mo_size m) | None \<Rightarrow> dash_text);
          named = (\<lambda>s. if generator_text s \<noteq> [] then generator_text s else dash_text);
          both = (a \<noteq> None \<and> b \<noteq> None) in
      [\<lparr>sn_label = ''File size'', sn_before = size old, sn_after = size new, sn_marked = False, sn_change = None\<rparr>] @
      map (model_line toLocaleString a b) model_statRows @
      [\<lparr>sn_label = ''Bounds'', sn_before = boundsSize a, sn_after = boundsSize b, sn_marked = both \<and> boundsSize a \<noteq> boundsSize b,
        sn_change = None\<rparr>] @
      (if generator_text a \<noteq> [] \<or> generator_text b \<noteq> []
       then [\<lparr>sn_label = ''Exported by'', sn_before = named a, sn_after = named b, sn_marked = False, sn_change = None\<rparr>] else []))"

definition NameChanges :: "string list option \<Rightarrow> string list option \<Rightarrow> (string list \<times> string list) option" where
  "NameChanges old new = (case (old, new) of
     (Some xs, Some ys) \<Rightarrow>
       (let added = filter (\<lambda>n. n \<notin> set xs) ys; removed = filter (\<lambda>n. n \<notin> set ys) xs in
        if added = [] \<and> removed = [] then None else Some (added, removed))
   | _ \<Rightarrow> None)"

section \<open>The stage follows the view\<close>

text \<open>
  The states of the view. A load answers once: while its side is waiting for it, or when nobody waits any more. The
  object that a load returns is a new one.
\<close>

inductive model_reach :: "ModelView \<Rightarrow> bool" where
  mount: "model_reach (model_mount c r)"
| compare: "model_reach v \<Longrightarrow> model_reach (model_compare c v)"
| loaded: "model_reach v \<Longrightarrow> h = (if new then mv_new v else mv_old v) \<Longrightarrow> i < length (hk_calls h) \<Longrightarrow>
    (hk_live h = Some i \<longrightarrow> hk_loading h) \<Longrightarrow> lm_id m = (new, i) \<Longrightarrow> model_reach (model_settled new i (Inr m) v)"
| failed: "model_reach v \<Longrightarrow> h = (if new then mv_new v else mv_old v) \<Longrightarrow> i < length (hk_calls h) \<Longrightarrow>
    (hk_live h = Some i \<longrightarrow> hk_loading h) \<Longrightarrow> model_reach (model_settled new i (Inl e) v)"
| mode: "model_reach v \<Longrightarrow> models_both v \<Longrightarrow> model_reach (model_setMode m v)"
| shading: "model_reach v \<Longrightarrow> model_reach (model_setShading sh v)"
| animation: "model_reach v \<Longrightarrow> a = [] \<or> a \<in> set (clips v) \<Longrightarrow> model_reach (setAnimation a v)"
| playing: "model_reach v \<Longrightarrow> clips v \<noteq> [] \<Longrightarrow> model_reach (togglePlaying v)"
| resize: "model_reach v \<Longrightarrow> model_reach (model_resize w h v)"

text \<open>A side of the stage is what the model and the chosen clip make of it.\<close>

definition side_for :: "string option \<Rightarrow> LoadedModel option \<Rightarrow> StageSide" where
  "side_for clip model = play_side clip (set_side model \<lparr>sx_model = None, sx_mixer = None\<rparr>)"

lemma side_for_simps [simp]:
  "play_side clip (set_side model s) = side_for clip model"
  "play_side clip (side_for old model) = side_for clip model"
  "sx_model (side_for clip model) = model"
  by (auto simp: side_for_def set_side_def play_side_def split: option.splits)

definition hook_inv :: "bool \<Rightarrow> SideHook \<Rightarrow> bool" where
  "hook_inv new h \<longleftrightarrow>
     (\<forall>i. hk_live h = Some i \<longrightarrow> Suc i = length (hk_calls h) \<and> hk_side h = Some (hk_calls h ! i)) \<and>
     (hk_loading h \<longrightarrow> hk_live h \<noteq> None \<and> hk_model h = None) \<and>
     (\<forall>m. hk_model h = Some m \<longrightarrow> (\<exists>i. hk_live h = Some i \<and> lm_id m = (new, i)))"

text \<open>Numbers of loads that were put on the stage were given out, and not to a load that is still running.\<close>

definition added_ok :: "bool \<Rightarrow> SideHook \<Rightarrow> ModelStage \<Rightarrow> bool" where
  "added_ok new h s \<longleftrightarrow>
     (\<forall>i. (new, i) \<in> set (sg_added s) \<longrightarrow> i < length (hk_calls h) \<and> (hk_loading h \<longrightarrow> hk_live h \<noteq> Some i))"

definition given_back :: "LoadedModel option \<Rightarrow> LoadedModel option \<Rightarrow> ModelStage \<Rightarrow> bool" where
  "given_back old new s \<longleftrightarrow>
     distinct (sg_disposed s) \<and> set (sg_added s) = set (sg_disposed s) \<union> set (model_ids old) \<union> set (model_ids new) \<and>
     set (sg_disposed s) \<inter> (set (model_ids old) \<union> set (model_ids new)) = {}"

definition stage_inv :: "ModelView \<Rightarrow> ModelStage \<Rightarrow> bool" where
  "stage_inv v s \<longleftrightarrow>
     sg_old s = side_for (sg_clipPlaying s) (hk_model (mv_old v)) \<and> sg_next s = side_for (sg_clipPlaying s) (hk_model (mv_new v)) \<and>
     sg_mode s = mv_mode v \<and> sg_shading s = mv_shading v \<and> sg_clipPlaying s = animation_name (mv_animation v) \<and>
     sg_paused s = (\<not> mv_playing v) \<and> added_ok False (mv_old v) s \<and> added_ok True (mv_new v) s \<and>
     given_back (hk_model (mv_old v)) (hk_model (mv_new v)) s"

definition model_inv :: "ModelView \<Rightarrow> bool" where
  "model_inv v \<longleftrightarrow> hook_inv False (mv_old v) \<and> hook_inv True (mv_new v) \<and> (\<forall>s. mv_stage v = Some s \<longrightarrow> stage_inv v s)"

lemmas stage_defs = stage_setMode_def stage_setShading_def playAnimation_def setPaused_def stage_resize_def stage_play_def
  added_ok_def given_back_def

lemma hook_effect_inv: "hook_inv new (hook_effect h)"
  by (auto simp: hook_inv_def hook_effect_def split: option.splits)

lemma hook_render_inv: "hook_inv new h \<Longrightarrow> hook_inv new (hook_render s h)"
  by (simp add: hook_render_def hook_effect_inv)

lemma side_settled_inv:
  "hook_inv new h \<Longrightarrow> (\<And>m. r = Inr m \<Longrightarrow> lm_id m = (new, i)) \<Longrightarrow> hook_inv new (side_settled i r h)"
  by (auto simp: hook_inv_def side_settled_def split: sum.splits)

text \<open>The next state of a hook keeps its model, drops it, or gets the model of its running load.\<close>

definition side_step :: "bool \<Rightarrow> SideHook \<Rightarrow> SideHook \<Rightarrow> bool" where
  "side_step new h k \<longleftrightarrow> length (hk_calls h) \<le> length (hk_calls k) \<and>
     (hk_model k = hk_model h \<or> hk_model k = None \<or>
      (\<exists>m i. hk_model k = Some m \<and> lm_id m = (new, i) \<and> hk_live h = Some i \<and> hk_loading h)) \<and>
     (hk_loading k \<longrightarrow> hk_loading h \<and> hk_live k = hk_live h \<or> hk_live k = Some (length (hk_calls h)))"

lemma side_step_refl: "side_step new h h"
  by (auto simp: side_step_def)

lemma side_step_render: "side_step new h (hook_render s h)"
  by (auto simp: hook_render_def side_step_def hook_effect_def split: option.splits)

lemma side_step_settled:
  "hk_live h = Some i \<longrightarrow> hk_loading h \<Longrightarrow> (\<And>m. r = Inr m \<Longrightarrow> lm_id m = (new, i)) \<Longrightarrow> side_step new h (side_settled i r h)"
  by (auto simp: side_settled_def side_step_def split: sum.splits)

lemma model_ids_iff: "x \<in> set (model_ids m) \<longleftrightarrow> (\<exists>l. m = Some l \<and> lm_id l = x)"
  by (cases m) (auto simp: model_ids_def)

lemma dropped_ids: "set (dropped new s) = set (model_ids (sx_model s)) - set (model_ids new)" "distinct (dropped new s)"
  by (cases new; cases "sx_model s"; auto simp: dropped_def model_ids_def)+

lemma hook_model_id: "hook_inv new h \<Longrightarrow> x \<in> set (model_ids (hk_model h)) \<Longrightarrow> fst x = new"
  by (fastforce simp: hook_inv_def model_ids_iff)

lemma step_not_disposed:
  assumes "side_step new h k" "added_ok new h s" "given_back a b s" "set (model_ids (hk_model h)) \<subseteq> set (model_ids a) \<union> set (model_ids b)"
    and x: "x \<in> set (model_ids (hk_model k))"
  shows "x \<notin> set (sg_disposed s)"
proof (cases "hk_model k = hk_model h")
  case True
  with x assms(3,4) show ?thesis by (auto simp: given_back_def)
next
  case False
  with x assms(1) obtain i where "x = (new, i)" "hk_live h = Some i" "hk_loading h"
    by (auto simp: side_step_def model_ids_iff)
  with assms(2) have "x \<notin> set (sg_added s)" by (auto simp: added_ok_def)
  with assms(3) show ?thesis by (auto simp: given_back_def)
qed

lemma step_added:
  assumes "side_step new h k" "hook_inv new k" "added_ok new h s"
    "set (sg_added t) \<subseteq> set (sg_added s) \<union> {x. x \<in> set (model_ids (hk_model k)) \<or> fst x \<noteq> new}"
  shows "added_ok new k t"
  unfolding added_ok_def
proof (intro allI impI)
  fix i assume "(new, i) \<in> set (sg_added t)"
  with assms(4) consider "(new, i) \<in> set (sg_added s)" | "(new, i) \<in> set (model_ids (hk_model k))" by auto
  then show "i < length (hk_calls k) \<and> (hk_loading k \<longrightarrow> hk_live k \<noteq> Some i)"
  proof cases
    case 1
    with assms(3) have "i < length (hk_calls h)" "hk_loading h \<longrightarrow> hk_live h \<noteq> Some i" by (auto simp: added_ok_def)
    with assms(1) show ?thesis by (auto simp: side_step_def)
  next
    case 2
    then obtain m where "hk_model k = Some m" "lm_id m = (new, i)" by (auto simp: model_ids_iff)
    with assms(2) show ?thesis by (fastforce simp: hook_inv_def)
  qed
qed

lemma setModels_fields [simp]:
  "sg_old (setModels a b s) = side_for (sg_clipPlaying s) a" "sg_next (setModels a b s) = side_for (sg_clipPlaying s) b"
  "sg_mode (setModels a b s) = sg_mode s" "sg_shading (setModels a b s) = sg_shading s"
  "sg_clipPlaying (setModels a b s) = sg_clipPlaying s" "sg_paused (setModels a b s) = sg_paused s"
  "sg_added (setModels a b s) = sg_added s @ model_ids a @ model_ids b"
  "sg_disposed (setModels a b s) = sg_disposed s @ dropped a (sg_old s) @ dropped b (sg_next s)"
  by (simp_all add: setModels_def stage_play_def)

lemma setModels_given_back:
  assumes g: "given_back (sx_model (sg_old s)) (sx_model (sg_next s)) s"
    and sides: "\<And>x. x \<in> set (model_ids (sx_model (sg_old s))) \<union> set (model_ids a) \<Longrightarrow> \<not> fst x"
      "\<And>x. x \<in> set (model_ids (sx_model (sg_next s))) \<union> set (model_ids b) \<Longrightarrow> fst x"
    and fresh: "\<And>x. x \<in> set (model_ids a) \<union> set (model_ids b) \<Longrightarrow> x \<notin> set (sg_disposed s)"
  shows "given_back a b (setModels a b s)"
proof -
  let ?O = "set (model_ids (sx_model (sg_old s)))" and ?N = "set (model_ids (sx_model (sg_next s)))"
  have apart: "(?O \<union> set (model_ids a)) \<inter> (?N \<union> set (model_ids b)) = {}" using sides by blast
  have D: "distinct (sg_disposed s)" "set (sg_added s) = set (sg_disposed s) \<union> ?O \<union> ?N" "set (sg_disposed s) \<inter> (?O \<union> ?N) = {}"
    using g by (simp_all add: given_back_def)
  have "distinct (sg_disposed s @ dropped a (sg_old s) @ dropped b (sg_next s))"
    using D(1,3) apart by (auto simp: dropped_ids)
  moreover have "set (sg_disposed s) \<union> ?O \<union> ?N \<union> set (model_ids a) \<union> set (model_ids b) =
      set (sg_disposed s) \<union> (?O - set (model_ids a)) \<union> (?N - set (model_ids b)) \<union> set (model_ids a) \<union> set (model_ids b)" by blast
  moreover have "(set (sg_disposed s) \<union> (?O - set (model_ids a)) \<union> (?N - set (model_ids b))) \<inter> (set (model_ids a) \<union> set (model_ids b)) = {}"
    using fresh apart by blast
  ultimately show ?thesis by (simp add: given_back_def D(2) dropped_ids Un_assoc)
qed

lemma show_models_inv:
  assumes v: "model_inv v" and hooks: "hook_inv False old" "hook_inv True new"
    and steps: "side_step False (mv_old v) old" "side_step True (mv_new v) new"
  shows "model_inv (show_models old new v)"
proof -
  have "stage_inv (show_models old new v) t" if t: "mv_stage (show_models old new v) = Some t" for t
  proof -
    obtain s where s: "mv_stage v = Some s" using t by (cases "mv_stage v") (auto simp: show_models_def on_stage_def Let_def split: if_splits)
    have inv: "stage_inv v s" using v s by (simp add: model_inv_def)
    then have added: "added_ok False (mv_old v) s" "added_ok True (mv_new v) s" and g: "given_back (hk_model (mv_old v)) (hk_model (mv_new v)) s"
      by (simp_all add: stage_inv_def)
    show ?thesis
    proof (cases "hk_model old = hk_model (mv_old v) \<and> hk_model new = hk_model (mv_new v)")
      case True
      then have "t = s" using t s by (simp add: show_models_def Let_def)
      moreover have "added_ok False old s" "added_ok True new s"
        using step_added [OF steps(1) hooks(1) added(1), of s] step_added [OF steps(2) hooks(2) added(2), of s] by auto
      ultimately show ?thesis using inv True by (simp add: stage_inv_def show_models_def Let_def)
    next
      case False
      then have "t = setModels (hk_model old) (hk_model new) s" using t s by (auto simp: show_models_def on_stage_def Let_def)
      moreover have sides: "sx_model (sg_old s) = hk_model (mv_old v)" "sx_model (sg_next s) = hk_model (mv_new v)"
        using inv by (simp_all add: stage_inv_def)
      have ids: "x \<in> set (model_ids (hk_model (mv_old v))) \<union> set (model_ids (hk_model old)) \<Longrightarrow> \<not> fst x"
        "x \<in> set (model_ids (hk_model (mv_new v))) \<union> set (model_ids (hk_model new)) \<Longrightarrow> fst x" for x
        using v hooks hook_model_id [of False "mv_old v" x] hook_model_id [of False old x] hook_model_id [of True "mv_new v" x]
          hook_model_id [of True new x] by (auto simp: model_inv_def)
      moreover have "x \<notin> set (sg_disposed s)" if "x \<in> set (model_ids (hk_model old)) \<union> set (model_ids (hk_model new))" for x
        using that step_not_disposed [OF steps(1) added(1) g] step_not_disposed [OF steps(2) added(2) g] by blast
      then have "given_back (hk_model old) (hk_model new) (setModels (hk_model old) (hk_model new) s)"
        using g ids by (intro setModels_given_back) (simp_all add: sides)
      moreover have "set (sg_added t) \<subseteq> set (sg_added s) \<union> {x. x \<in> set (model_ids (hk_model old)) \<or> fst x \<noteq> False}"
        "set (sg_added t) \<subseteq> set (sg_added s) \<union> {x. x \<in> set (model_ids (hk_model new)) \<or> fst x \<noteq> True}"
        unfolding \<open>t = _\<close> using ids by (simp_all add: subset_iff)
      then have "added_ok False old t" "added_ok True new t"
        using step_added [OF steps(1) hooks(1) added(1)] step_added [OF steps(2) hooks(2) added(2)] by blast+
      ultimately show ?thesis using inv False by (auto simp: stage_inv_def show_models_def on_stage_def Let_def)
    qed
  qed
  with hooks show ?thesis by (simp add: model_inv_def show_models_def on_stage_def Let_def)
qed

lemma on_stage_inv:
  assumes "model_inv v" "mv_old w = mv_old v" "mv_new w = mv_new v" "mv_stage w = mv_stage v"
    and "\<And>s. stage_inv v s \<Longrightarrow> stage_inv w (f s)"
  shows "model_inv (on_stage f w)"
proof -
  have "stage_inv (on_stage f w) t = stage_inv w t" for t by (simp add: stage_inv_def on_stage_def)
  with assms show ?thesis by (auto simp: model_inv_def on_stage_def)
qed

lemma mount_inv: "model_inv (model_mount c r)"
proof -
  have none: "hk_model (hook_mount s) = None" and hook: "hook_inv new (hook_mount s)" for s new
    by (simp_all add: hook_mount_def hook_effect_inv) (simp add: hook_effect_def split: option.splits)
  show ?thesis
    by (auto simp: model_inv_def model_mount_def stage_inv_def none hook
        setPaused_def playAnimation_def stage_setShading_def stage_setMode_def stage_resize_def createStage_def stage_play_def
        added_ok_def given_back_def model_ids_def dropped_def animation_name_def split: sum.splits)
qed

lemma settled_inv:
  assumes v: "model_inv v" and h: "h = (if new then mv_new v else mv_old v)" "hk_live h = Some i \<longrightarrow> hk_loading h"
    and m: "\<And>m. r = Inr m \<Longrightarrow> lm_id m = (new, i)"
  shows "model_inv (model_settled new i r v)"
proof -
  have inv: "hook_inv False (mv_old v)" "hook_inv True (mv_new v)" using v by (simp_all add: model_inv_def)
  show ?thesis
  proof (cases new)
    case True
    have "hook_inv True (side_settled i r (mv_new v))" using inv(2) m True by (intro side_settled_inv) simp_all
    moreover have "side_step True (mv_new v) (side_settled i r (mv_new v))" using h m True by (intro side_step_settled) simp_all
    ultimately show ?thesis using show_models_inv [OF v inv(1) _ side_step_refl] True by (simp add: model_settled_def)
  next
    case False
    have "hook_inv False (side_settled i r (mv_old v))" using inv(1) m False by (intro side_settled_inv) simp_all
    moreover have "side_step False (mv_old v) (side_settled i r (mv_old v))" using h m False by (intro side_step_settled) simp_all
    ultimately show ?thesis using show_models_inv [OF v _ inv(2) _ side_step_refl] False by (simp add: model_settled_def)
  qed
qed

lemma model_reach_inv: "model_reach v \<Longrightarrow> model_inv v"
proof (induction rule: model_reach.induct)
  case (compare v c)
  then show ?case
    unfolding model_compare_def by (intro show_models_inv side_step_render hook_render_inv) (simp_all add: model_inv_def)
next
  case (loaded v h new i m)
  then show ?case by (intro settled_inv) simp_all
next
  case (failed v h new i e)
  then show ?case by (intro settled_inv) simp_all
next
  case (animation v a)
  then show ?case
    by (cases "a = mv_animation v")
      (auto simp: setAnimation_def stage_inv_def stage_defs intro!: on_stage_inv [where v = v])
next
  case (mode v m)
  then show ?case by (auto simp: model_setMode_def stage_inv_def stage_defs intro!: on_stage_inv [where v = v])
next
  case (shading v sh)
  then show ?case by (auto simp: model_setShading_def stage_inv_def stage_defs intro!: on_stage_inv [where v = v])
next
  case (playing v)
  then show ?case by (auto simp: togglePlaying_def stage_inv_def stage_defs intro!: on_stage_inv [where v = v])
next
  case (resize v w h)
  then show ?case by (auto simp: model_resize_def stage_inv_def stage_defs intro!: on_stage_inv [where v = v])
qed (rule mount_inv)

text \<open>
  Property C30. The stage shows what the view says: the models that the two sides have loaded, in the chosen mode and
  shading, with the chosen clip running in each model that has it, and moving exactly while the button says so.
  The loaded model of a side is the answer to the load of the version that is compared now.
\<close>

theorem stage_follows_view:
  assumes "model_reach v" "mv_stage v = Some s"
  shows "sg_old s = side_for (animation_name (mv_animation v)) (hk_model (mv_old v)) \<and>
    sg_next s = side_for (animation_name (mv_animation v)) (hk_model (mv_new v)) \<and>
    sg_mode s = mv_mode v \<and> sg_shading s = mv_shading v \<and> sg_paused s = (\<not> mv_playing v) \<and>
    (\<forall>m. hk_model (mv_old v) = Some m \<longrightarrow> (\<exists>i. lm_id m = (False, i) \<and> hk_side (mv_old v) = Some (hk_calls (mv_old v) ! i))) \<and>
    (\<forall>m. hk_model (mv_new v) = Some m \<longrightarrow> (\<exists>i. lm_id m = (True, i) \<and> hk_side (mv_new v) = Some (hk_calls (mv_new v) ! i)))"
  using model_reach_inv [OF assms(1)] assms(2) by (fastforce simp: model_inv_def stage_inv_def hook_inv_def)

definition sample_model_side :: ModelSide where
  "sample_model_side = \<lparr>mo_path = ''a.glb'', mo_format = ''glb'', mo_size = 3, mo_stats = None, mo_data = ''AAAA'', mo_files = None,
     mo_missing = None, mo_tooLarge = False\<rparr>"

definition sample_model :: "bool \<Rightarrow> nat \<Rightarrow> LoadedModel" where
  "sample_model new i = \<lparr>lm_id = (new, i), lm_object = Object3D ''o'' False None [], lm_clips = [''Walk'']\<rparr>"

text \<open>Both versions are loaded and a clip is chosen.\<close>

definition sample_model_view :: ModelView where
  "sample_model_view = setAnimation ''Walk'' (model_settled True 0 (Inr (sample_model True 0))
     (model_settled False 0 (Inr (sample_model False 0)) (model_mount (Some sample_model_side, Some sample_model_side) (Inr (800, 600)))))"

lemma sample_mount:
  "hk_live (hook_mount (Some sample_model_side)) = Some 0" "hk_loading (hook_mount (Some sample_model_side))"
  "length (hk_calls (hook_mount (Some sample_model_side))) = 1" "hk_model (hook_mount (Some sample_model_side)) = None"
  by (simp_all add: hook_mount_def hook_effect_def renderable_def sample_model_side_def renderableFormats_def)

lemma sample_model_id: "lm_id (sample_model new i) = (new, i)"
  by (simp add: sample_model_def)

lemma sample_models:
  "hk_model (mv_old sample_model_view) = Some (sample_model False 0)" "hk_model (mv_new sample_model_view) = Some (sample_model True 0)"
  "mv_animation sample_model_view = ''Walk''" "mv_stage sample_model_view \<noteq> None"
  by (simp_all add: sample_model_view_def model_mount_def model_settled_def show_models_def on_stage_def setAnimation_def side_settled_def
      sample_mount Let_def)

lemma sample_model_reach: "model_reach sample_model_view"
proof -
  let ?v = "model_mount (Some sample_model_side, Some sample_model_side) (Inr (800, 600))"
  have 1: "model_reach (model_settled False 0 (Inr (sample_model False 0)) ?v)"
    by (rule model_reach.loaded [OF model_reach.mount refl]) (simp_all add: model_mount_def sample_mount sample_model_def)
  have new: "mv_new (model_settled False 0 (Inr (sample_model False 0)) ?v) = hook_mount (Some sample_model_side)"
    by (simp add: model_settled_def show_models_def on_stage_def model_mount_def Let_def)
  have 2: "model_reach (model_settled True 0 (Inr (sample_model True 0)) (model_settled False 0 (Inr (sample_model False 0)) ?v))"
    by (rule model_reach.loaded [OF 1 refl]) (simp_all add: new sample_mount sample_model_id)
  have "''Walk'' \<in> set (clips (model_settled True 0 (Inr (sample_model True 0)) (model_settled False 0 (Inr (sample_model False 0)) ?v)))"
    by (simp add: clips_def hook_clips_def fold_add_once model_settled_def show_models_def on_stage_def side_settled_def sample_mount new
        model_mount_def Let_def sample_model_def clip_names_def clipName_def)
  with 2 show ?thesis unfolding sample_model_view_def by (intro model_reach.animation) simp_all
qed

theorem stage_follows_view_witness:
  "\<exists>s. mv_stage sample_model_view = Some s \<and> sx_model (sg_old s) = Some (sample_model False 0) \<and> sx_mixer (sg_old s) = Some (Some 0)"
proof -
  obtain s where s: "mv_stage sample_model_view = Some s" using sample_models(4) by auto
  then show ?thesis
    using stage_follows_view [OF sample_model_reach s]
    by (simp add: sample_models animation_name_def side_for_def play_side_def set_side_def sample_model_def clip_names_def clipName_def)
qed

text \<open>
  Property C28. Every model that was put on the stage is disposed of exactly once by the time the view is left, and none
  while it is shown.
\<close>

theorem models_given_back:
  assumes "model_reach v" "mv_stage v = Some s" "snd (model_unmount v) = Some t"
  shows "distinct (sg_disposed t) \<and> set (sg_disposed t) = set (sg_added t) \<and>
    set (sg_disposed s) \<inter> (set (model_ids (sx_model (sg_old s))) \<union> set (model_ids (sx_model (sg_next s)))) = {}"
proof -
  have inv: "model_inv v" by (rule model_reach_inv [OF assms(1)])
  then have s: "stage_inv v s" using assms(2) by (simp add: model_inv_def)
  then have g: "given_back (sx_model (sg_old s)) (sx_model (sg_next s)) s" by (simp add: stage_inv_def)
  have "set (model_ids (sx_model (sg_old s))) \<inter> set (model_ids (sx_model (sg_next s))) = {}"
    using s inv hook_model_id [of False "mv_old v"] hook_model_id [of True "mv_new v"] by (force simp: stage_inv_def model_inv_def)
  moreover have "distinct (model_ids m)" for m by (simp add: model_ids_def split: option.splits)
  ultimately show ?thesis using g assms(2,3) by (auto simp: given_back_def model_unmount_def stage_dispose_def)
qed

theorem models_given_back_witness:
  "\<exists>t. snd (model_unmount sample_model_view) = Some t \<and> set (sg_disposed t) = set (sg_added t) \<and> (False, 0) \<in> set (sg_disposed t)"
proof -
  obtain s where s: "mv_stage sample_model_view = Some s" using sample_models(4) by auto
  then have t: "snd (model_unmount sample_model_view) = Some (stage_dispose s)" by (simp add: model_unmount_def)
  have "sx_model (sg_old s) = Some (sample_model False 0)"
    using model_reach_inv [OF sample_model_reach] s by (simp add: model_inv_def stage_inv_def sample_models)
  then have "(False, 0) \<in> set (sg_disposed (stage_dispose s))" by (simp add: stage_dispose_def model_ids_def sample_model_def)
  with models_given_back [OF sample_model_reach s t] t show ?thesis by blast
qed

section \<open>Labels and names\<close>

text \<open>
  Whenever a model is shown, the panes of a frame cover the width of the stage without gap or overlap, and the view
  has one label for each, naming the version that is drawn there.
\<close>

theorem panes_labelled:
  assumes "model_reach v" "mv_stage v = Some s" "mv_mode v = SideBySide" "hk_model (mv_old v) \<noteq> None \<or> hk_model (mv_new v) \<noteq> None"
  shows "concat (map (\<lambda>(_, x, w). [x..<x + w]) (panes s)) = [0..<sg_width s] \<and> length (pane_labels v) = length (panes s) \<and>
    (\<forall>i < length (panes s). fst (panes s ! i) = SceneOld \<longleftrightarrow> pane_labels v ! i \<in> {''Before'', ''Deleted''})"
proof -
  have inv: "stage_inv v s" using model_reach_inv [OF assms(1)] assms(2) by (simp add: model_inv_def)
  then have s: "sx_model (sg_old s) = hk_model (mv_old v)" "sx_model (sg_next s) = hk_model (mv_new v)" "sg_mode s = SideBySide"
    using assms(3) by (simp_all add: stage_inv_def)
  have "[0..<sg_width s div 2] @ [sg_width s div 2..<sg_width s] = [0..<sg_width s]"
    by (metis div_le_dividend le_add_diff_inverse upt_add_eq_append zero_le)
  then have "concat (map (\<lambda>(_, x, w). [x..<x + w]) (panes s)) = [0..<sg_width s]" by (simp add: panes_def)
  moreover have "length (pane_labels v) = length (panes s)"
    using assms(3,4) by (auto simp: panes_def pane_labels_def stage_both_def models_both_def s)
  moreover have "fst (panes s ! i) = SceneOld \<longleftrightarrow> pane_labels v ! i \<in> {''Before'', ''Deleted''}" if "i < length (panes s)" for i
    using that assms(3,4) by (auto simp: panes_def pane_labels_def stage_both_def models_both_def s less_Suc_eq split: if_splits)
  ultimately show ?thesis by blast
qed

text \<open>The lists of changed materials and animations are empty exactly when both versions have the same names.\<close>

theorem name_changes_exact:
  "(NameChanges (Some xs) (Some ys) = None \<longleftrightarrow> set xs = set ys) \<and>
   (NameChanges (Some xs) (Some ys) = Some (added, removed) \<longrightarrow> set added = set ys - set xs \<and> set removed = set xs - set ys)"
  by (auto simp: NameChanges_def Let_def filter_empty_conv split: if_splits)

end
