(* ===== verification/Spec2Isabelle.thy ===== *)
theory Spec2Isabelle
  imports Js_Prelude Conflicts Diff_Rows Web_Models Web_Diff Web_Session Endpoints Api_Routes Merge_Request
    Sparse Layers Access Paging Repo_Pages Web_Hooks Desktop_Hooks Working_Copy Desktop_Service
    Desktop_Api Images Audio Clone Desktop_App File_Diff History Image_View Desktop_Reviews Mr_Page Picker
    Project_Settings Webhooks Org_Settings Account Branches Audio_View Desktop_Settings Web_Format Repo_Browser
    Models Model_View
begin

text \<open>
  Verification of the user interfaces of Nipa, a version control system for game projects. The repository
  holds a server and a client in Go, a web client (\<open>web/src\<close>, TypeScript with React) and a desktop client
  (\<open>desktop/frontend\<close>, TypeScript with React over a Go service). This development models the two user
  interfaces: their libraries, the state of their hooks and dialogs, the requests they send, and what they
  show for a given answer.

  \<^bold>\<open>Parts and theories.\<close>

  \<^item> \<open>Js_Prelude\<close>, \<open>Json\<close>, \<open>Uri\<close>, \<open>Js_Date\<close>, \<open>Js_Number\<close>: the JavaScript library as far as the sources use it. Strings,
    arrays, \<open>Map\<close> (an association list in insertion order), \<open>sort\<close> (stable), JSON values, URL encoding and
    decoding, dates, and doubles with correct rounding. The locale \<open>sort_order\<close> gives sorting by a key, the
    locale \<open>ordered_map\<close> the laws of \<open>Map\<close>; both are interpreted on the definitions here.

  \<^item> \<open>Conflicts\<close> (\<open>lib/conflicts.ts\<close>, \<open>TextResolver.tsx\<close>, \<open>ConflictsView.tsx\<close>): conflict markers are parsed into segments
    and composed again; the editor picks sides and submits. Shown: the round trip, that a fully picked file
    is submitted, and that nothing with a conflict is.

  \<^item> \<open>Diff_Rows\<close> (\<open>lib/diff.ts\<close>) and \<open>Web_Diff\<close> (\<open>DiffView.tsx\<close>): the rows of a text diff in both clients. Shown: the two
    columns are the lines in order, the loop implements the specification by runs, both clients agree, and
    every review thread has its row.

  \<^item> \<open>Web_Session\<close> (\<open>api/client.ts\<close>, \<open>auth.tsx\<close>): the access token and its refresh as a state machine over requests
    in flight, between their awaits. Shown: at most one refresh runs, the waiting requests go on after it, a
    request is sent at most twice, start-up gives up after three attempts, and how signing out ends.

  \<^item> \<open>Endpoints\<close> (\<open>api/endpoints.ts\<close>, \<open>repoPaths.ts\<close>), \<open>Api_Routes\<close> (the route tables of the server): every call of the
    web client reaches exactly the route it is meant for, with its parameters intact; links name their
    target.

  \<^item> \<open>Paging\<close>, \<open>Web_Hooks\<close>, \<open>Repo_Pages\<close> (\<open>hooks.ts\<close>, \<open>orgHooks.ts\<close>, the pages of tags, branches, commits, locks and merge
    requests): loading and paging. The locale \<open>cursor_paging\<close> states what a server with cursors promises; it is
    interpreted for both kinds of cursor. Shown: the latest call wins, a paged list is always a prefix of the
    full list, the pages together are the full list, and the member cache is fresh.

  \<^item> \<open>Merge_Request\<close> (\<open>MergeRequestOverview.tsx\<close>, \<open>ActorAvatar.tsx\<close>, \<open>lib/mergeRequests.ts\<close>): reviewers, conversation, the
    review form and the merge box.

  \<^item> \<open>Mr_Page\<close> (\<open>MergeRequestPage.tsx\<close>, \<open>ThreadCard.tsx\<close>, \<open>ChangesView.tsx\<close>, \<open>MergeRequestCommits.tsx\<close>): the page around
    \<open>Merge_Request\<close> and \<open>Web_Diff\<close>, with its actions and comments in flight. Shown: the comment buttons are never
    stuck, a failed inline comment keeps its form, and the tab is in the address.

  \<^item> \<open>Picker\<close>, \<open>Project_Settings\<close>, \<open>Webhooks\<close>, \<open>Org_Settings\<close> (\<open>UserGroupPicker.tsx\<close>, \<open>ProjectSettingsPage.tsx\<close>,
    \<open>ProjectGeneralSettings.tsx\<close>, \<open>WebhookSettings.tsx\<close>, \<open>EmailSettings.tsx\<close>, \<open>OrgSettingsPage.tsx\<close>, \<open>StorageCard.tsx\<close>): the
    settings of repositories and organizations. \<open>Picker\<close> is the search field the others choose users and groups
    with. Shown: a search shows its own results, rules are sent with one subject and known permissions, the
    fields of the branch protection settle, the server (\<open>normalizeWebhookEvents\<close>) subscribes a webhook to exactly
    the chosen events, a signing secret stays until it is dismissed, and group members belong to the group
    that is selected.

  \<^item> \<open>Account\<close> (the pages for signing in, registering, the profile, users and new repositories): a social login
    is followed from its button through the server (\<open>safeRedirect\<close>, \<open>withQueryParam\<close>) back to the page the user
    was on; weak passwords and taken slugs are not sent.

  \<^item> \<open>Web_Format\<close>, \<open>Repo_Browser\<close> (\<open>format.ts\<close>, \<open>language.ts\<close>, \<open>fileIcon.tsx\<close>, \<open>RepoPage.tsx\<close>, \<open>BlobPage.tsx\<close>, \<open>RepoTree.tsx\<close>,
    \<open>BranchSelector.tsx\<close>, \<open>FileLockButton.tsx\<close>, \<open>ComparePage.tsx\<close>, \<open>NewBranchPage.tsx\<close>, \<open>NewMergeRequestPage.tsx\<close>, \<open>BillingPage.tsx\<close>):
    times, sizes and icons, directories and files, and the pages around them. Shown: texts are close to the
    times and sizes they stand for, the file page shows the file of its address, object URLs are given back,
    tags belong to the project shown, and branch names and covering locks are those of the server
    (\<open>validateBranchName\<close>, \<open>findCoveringLock\<close>).

  \<^item> \<open>Sparse\<close>, \<open>Layers\<close>, \<open>Access\<close> (\<open>lib/sparse.ts\<close>, \<open>lib/layers.ts\<close>, \<open>api/permissions.ts\<close>, \<open>slug.ts\<close>, the routes of \<open>App.tsx\<close>):
    folder selections, the comparison of layer stacks, permission masks as 32-bit words, slugs.

  \<^item> \<open>Desktop_Service\<close>, \<open>Desktop_Api\<close> (the generated bindings, \<open>api/desktop.ts\<close>): every call carries the number of a
    method and arguments of its types. The numbers are the hashes of the method names, computed here.

  \<^item> \<open>Desktop_Hooks\<close>, \<open>Working_Copy\<close>, \<open>Clone\<close>, \<open>Desktop_App\<close> (\<open>useRepoOperation.ts\<close> and the other hooks, \<open>ChangesView.tsx\<close>,
    \<open>RepoView.tsx\<close>, \<open>CloneDialog.tsx\<close>, \<open>SparsePicker.tsx\<close>, \<open>SparseDialog.tsx\<close>, \<open>App.tsx\<close>): the desktop client from its operations up
    to the application. Each is a state machine with an \<open>inductive\<close> relation of its reachable states and an
    invariant of it; \<open>Desktop_App\<close> hosts the dialog of \<open>Clone\<close>.

  \<^item> \<open>Images\<close>, \<open>Audio\<close> (\<open>lib/imageCompare.ts\<close>, \<open>lib/audio.ts\<close>): the heat map of two images, the spectrogram and the
    waveform, whose loops over byte arrays are related to the picture they draw, and the player that runs two
    versions of a sound in lockstep.

  \<^item> \<open>File_Diff\<close>, \<open>Image_View\<close> (\<open>DiffViewer.tsx\<close>, \<open>TextDiff.tsx\<close>, \<open>TableDiff.tsx\<close>, \<open>ImageDiff.tsx\<close>, \<open>lib/zoom.ts\<close>): the comparison of one
    file in the desktop client. Shown: both layouts of a text have the same comments, the pixels shown are
    those of the source shown, and zooming keeps the centre.

  \<^item> \<open>History\<close>, \<open>Desktop_Reviews\<close> (\<open>lib/history.ts\<close>, \<open>HistoryView.tsx\<close>, \<open>CommitDetail.tsx\<close>, \<open>MergeRequestsView.tsx\<close>,
    \<open>MergeRequestDetail.tsx\<close>, \<open>MergeRequestFiles.tsx\<close>, \<open>useMergeRequest.ts\<close>): history and merge requests of the desktop
    client on top of \<open>Merge_Request\<close> and \<open>File_Diff\<close>. Shown: the detail is that of the selected commit, dialogs
    open only when their operation is possible, one action of a merge request runs at a time, and texts that
    could not be sent are kept.

  \<^item> \<open>Branches\<close>, \<open>Audio_View\<close>, \<open>Desktop_Settings\<close> (\<open>BranchesView.tsx\<close>, \<open>LocksView.tsx\<close>, \<open>AudioDiff.tsx\<close>, \<open>SettingsDialog.tsx\<close>,
    \<open>UpdatesSection.tsx\<close>, \<open>UpdateBanner.tsx\<close>, \<open>IgnoreRulesEditor.tsx\<close>): branches, tags and locks, the view of two sounds on top of the
    player of \<open>Audio\<close>, and the settings with what the service makes of them (\<open>normalizeSettings\<close>). Shown: names and
    counts that are sent are acceptable, no lock of another is released without a question, the buttons of
    the sound view follow its player, and settings come back as they were stored.

  \<^item> \<open>Models\<close>, \<open>Model_View\<close> (\<open>lib/modelLoad.ts\<close>, \<open>lib/modelStage.ts\<close>, \<open>ModelDiff.tsx\<close>): three-dimensional models. The parsers of three.js
    are parameters and a frame is the list of commands to the renderer. Shown: base 64 is read back, paths of
    files have a normal form, a loader never reaches the network, the figures are those of the scene, the
    stage follows the view, and every model is given back exactly once.

  \<^bold>\<open>How code becomes definitions.\<close> A function keeps its name. A React component with state is a record of its
  state cells; a handler is a function on it, and rendering is a function from it to the data shown. What
  happens between two awaits is one step, together with the effects that React runs for it; calls in flight
  are part of the state, and their answers are steps of their own that may come in any order and late.
  Queries whose cache is managed by a library are inputs. Errors are values: \<open>Inl\<close> of a sum or \<open>None\<close>.

  \<^bold>\<open>Conventions and bounds.\<close> Strings are lists of bytes, the UTF-8 encoding of the text: comparison is by bytes,
  lower case is that of ASCII, and lengths and slices count bytes, which is what the code does on ASCII text. Numbers that count are
  naturals or integers, as they stay far below \<open>2 ^ 53\<close>; permission masks are words; fractions that are rounded
  for display are doubles (\<open>Js_Number\<close>, without overflow and subnormal numbers); times of the player and pane
  widths are exact rationals. Keys of objects that JavaScript inherits (\<open>constructor\<close> and the like) are
  distinguished only where text of the user is looked up (\<open>languageFor\<close>). Loops that are not structural have termination proofs; no definition needs fuel. Where an
  order is left to the browser (\<open>localeCompare\<close>) it is a parameter.

  \<^bold>\<open>Not modelled.\<close> The Go server, daemon and command line client, the SQL migrations and the Unity plugin are other
  languages; of the server only the route tables, the webhook events, the redirect of a social login, the check
  of branch names and the search for a covering lock, and of the desktop service the method names and the
  normal form of settings appear, as the interfaces the clients rely on. Of the clients: styles, layout and
  markup, the arithmetic of the camera and the tone mapping of images, which need sines and powers of doubles,
  drawing on a canvas beyond the commands and pixels given to it, syntax highlighting and Markdown, which
  libraries do, the demo data, and the tests.
\<close>

end
